(* ===== verification/Ordered_Map.thy ===== *)
theory Ordered_Map
  imports Prelude
begin

text \<open>
  \<open>std::collections::BTreeMap\<close> and \<open>BTreeSet\<close>, which hold every ordered collection of the
  program. A map is the list of its entries in strictly increasing key order, which is the
  order its iterators yield; a set is the strictly increasing list of its elements. The
  locale \<open>ordered_map\<close> states the contract the configuration tree relies on: lookup after
  insert and remove, preservation of the order invariant, and extensionality (two maps with
  the same lookups iterate identically), which is what makes rendering and diffing a function
  of the configuration and not of how it was built.
\<close>

section \<open>The contract\<close>

locale ordered_map =
  fixes get :: "'m \<Rightarrow> 'k::linorder \<Rightarrow> 'v option"
    and insert_kv :: "'k \<Rightarrow> 'v \<Rightarrow> 'm \<Rightarrow> 'm"
    and remove_k :: "'k \<Rightarrow> 'm \<Rightarrow> 'm"
    and entries :: "'m \<Rightarrow> ('k \<times> 'v) list"
    and invar :: "'m \<Rightarrow> bool"
  assumes get_insert: "get (insert_kv k v m) = (get m)(k := Some v)"
    and get_remove: "invar m \<Longrightarrow> get (remove_k k m) = (get m)(k := None)"
    and invar_insert: "invar m \<Longrightarrow> invar (insert_kv k v m)"
    and invar_remove: "invar m \<Longrightarrow> invar (remove_k k m)"
    and entries_get: "invar m \<Longrightarrow> (k, v) \<in> set (entries m) \<longleftrightarrow> get m k = Some v"
    and entries_sorted: "invar m \<Longrightarrow> sorted_wrt (<) (map fst (entries m))"
    and entries_inj: "entries m = entries m' \<Longrightarrow> m = m'"
begin

lemma get_insert_same: "get (insert_kv k v m) k = Some v"
  by (simp add: get_insert)

lemma get_insert_other: "k' \<noteq> k \<Longrightarrow> get (insert_kv k v m) k' = get m k'"
  by (simp add: get_insert)

text \<open>Two ordered maps with the same contents are the same map.\<close>

lemma extensional:
  assumes "invar m" and "invar m'" and "get m = get m'"
  shows "m = m'"
proof (rule entries_inj)
  have set_eq: "set (entries m) = set (entries m')"
    using assms by (auto simp: entries_get)
  have sd: "sorted (map fst (entries m)) \<and> distinct (map fst (entries m))"
    and sd': "sorted (map fst (entries m')) \<and> distinct (map fst (entries m'))"
    using entries_sorted [OF assms(1)] entries_sorted [OF assms(2)]
    by (auto simp: strict_sorted_iff)
  have "inj_on fst (set (entries m) \<union> set (entries m'))"
    using sd set_eq by (simp add: distinct_map)
  then show "entries m = entries m'"
    using sd sd' set_eq by (intro map_sorted_distinct_set_unique) auto
qed

lemma insert_insert:
  assumes "invar m"
  shows "insert_kv k v (insert_kv k w m) = insert_kv k v m"
  using assms by (intro extensional) (auto simp: get_insert invar_insert)

lemma insert_commute:
  assumes "invar m" and "k \<noteq> k'"
  shows "insert_kv k v (insert_kv k' w m) = insert_kv k' w (insert_kv k v m)"
  using assms by (intro extensional) (auto simp: get_insert invar_insert)

lemma insert_get:
  assumes "invar m" and "get m k = Some v"
  shows "insert_kv k v m = m"
  using assms by (intro extensional) (auto simp: get_insert invar_insert)

lemma remove_insert:
  assumes "invar m" and "get m k = None"
  shows "remove_k k (insert_kv k v m) = m"
  using assms by (intro extensional) (auto simp: get_insert get_remove invar_insert invar_remove)

end

section \<open>Maps as sorted association lists\<close>

type_synonym ('k, 'v) bmap = "('k \<times> 'v) list"

abbreviation bm_get :: "('k, 'v) bmap \<Rightarrow> 'k \<Rightarrow> 'v option" where
  "bm_get \<equiv> map_of"

fun bm_insert :: "'k::linorder \<Rightarrow> 'v \<Rightarrow> ('k, 'v) bmap \<Rightarrow> ('k, 'v) bmap" where
  "bm_insert k v [] = [(k, v)]"
| "bm_insert k v ((k', v') # m) =
     (if k < k' then (k, v) # (k', v') # m
      else if k = k' then (k, v) # m
      else (k', v') # bm_insert k v m)"

definition bm_remove :: "'k \<Rightarrow> ('k, 'v) bmap \<Rightarrow> ('k, 'v) bmap" where
  "bm_remove k m = filter (\<lambda>e. fst e \<noteq> k) m"

definition bm_ok :: "('k::linorder, 'v) bmap \<Rightarrow> bool" where
  "bm_ok m \<longleftrightarrow> sorted_wrt (<) (map fst m)"

lemma bm_ok_Nil [simp]: "bm_ok []"
  by (simp add: bm_ok_def)

lemma bm_ok_Cons: "bm_ok ((k, v) # m) \<longleftrightarrow> (\<forall>k' \<in> fst ` set m. k < k') \<and> bm_ok m"
  by (simp add: bm_ok_def)

lemma bm_ok_distinct: "bm_ok m \<Longrightarrow> distinct (map fst m)"
  by (simp add: bm_ok_def strict_sorted_iff)

lemma bm_ok_append:
  "bm_ok (m @ m') \<longleftrightarrow> bm_ok m \<and> bm_ok m' \<and> (\<forall>k \<in> fst ` set m. \<forall>k' \<in> fst ` set m'. k < k')"
  by (auto simp: bm_ok_def sorted_wrt_append)

lemma bm_get_insert: "bm_get (bm_insert k v m) = (bm_get m)(k := Some v)"
  by (induction k v m rule: bm_insert.induct) (auto simp: fun_eq_iff)

lemma bm_keys_insert: "fst ` set (bm_insert k v m) = insert k (fst ` set m)"
  by (induction k v m rule: bm_insert.induct) auto

lemma bm_set_insert: "set (bm_insert k v m) \<subseteq> insert (k, v) (set m)"
  by (induction k v m rule: bm_insert.induct) auto

lemma bm_ok_insert: "bm_ok m \<Longrightarrow> bm_ok (bm_insert k v m)"
proof (induction k v m rule: bm_insert.induct)
  case (2 k v k' v' m)
  then show ?case
    by (auto simp: bm_ok_Cons bm_keys_insert intro: less_trans)
qed (simp add: bm_ok_Cons)

lemma bm_get_remove: "bm_get (bm_remove k m) = (bm_get m)(k := None)"
  by (induction m) (auto simp: bm_remove_def fun_eq_iff)

lemma bm_ok_remove: "bm_ok m \<Longrightarrow> bm_ok (bm_remove k m)"
  by (induction m) (auto simp: bm_ok_Cons bm_remove_def)

lemma bm_set_remove: "set (bm_remove k m) \<subseteq> set m"
  by (auto simp: bm_remove_def)

lemma bm_insert_snoc:
  "\<forall>k' \<in> fst ` set m. k' < k \<Longrightarrow> bm_insert k v m = m @ [(k, v)]"
proof (induction k v m rule: bm_insert.induct)
  case (2 k v k' v' m)
  then have "k' < k" by simp
  with 2 show ?case by auto
qed simp

lemma bm_get_snoc_new:
  "\<forall>k' \<in> fst ` set m. k' < (k :: 'k::linorder) \<Longrightarrow> bm_get m k = None"
  by (induction m) auto

interpretation bm: ordered_map bm_get bm_insert bm_remove id bm_ok
proof unfold_locales
  fix m :: "('a::linorder \<times> 'b) list" and k v
  assume "bm_ok m"
  then show "(k, v) \<in> set (id m) \<longleftrightarrow> bm_get m k = Some v"
    by (simp add: bm_ok_distinct)
next
  fix m :: "('a::linorder \<times> 'b) list"
  assume "bm_ok m"
  then show "sorted_wrt (<) (map fst (id m))"
    by (simp add: bm_ok_def)
qed (auto simp: bm_get_insert bm_get_remove bm_ok_insert bm_ok_remove)

section \<open>Sets as sorted lists\<close>

fun bs_insert :: "'a::linorder \<Rightarrow> 'a list \<Rightarrow> 'a list" where
  "bs_insert x [] = [x]"
| "bs_insert x (y # ys) =
     (if x < y then x # y # ys else if x = y then y # ys else y # bs_insert x ys)"

definition bs_remove :: "'a \<Rightarrow> 'a list \<Rightarrow> 'a list" where
  "bs_remove x xs = filter (\<lambda>y. y \<noteq> x) xs"

definition bs_from :: "'a::linorder list \<Rightarrow> 'a list" where
  "bs_from xs = fold bs_insert xs []"

abbreviation bs_ok :: "'a::linorder list \<Rightarrow> bool" where
  "bs_ok xs \<equiv> sorted_wrt (<) xs"

lemma bs_set_insert [simp]: "set (bs_insert x xs) = insert x (set xs)"
  by (induction x xs rule: bs_insert.induct) auto

lemma bs_ok_insert [simp, intro]: "bs_ok xs \<Longrightarrow> bs_ok (bs_insert x xs)"
  by (induction x xs rule: bs_insert.induct) auto

lemma bs_set_remove [simp]: "set (bs_remove x xs) = set xs - {x}"
  by (auto simp: bs_remove_def)

lemma bs_ok_remove [simp, intro]: "bs_ok xs \<Longrightarrow> bs_ok (bs_remove x xs)"
  by (simp add: bs_remove_def sorted_wrt_filter)

lemma bs_fold_set: "set (fold bs_insert xs acc) = set xs \<union> set acc"
  by (induction xs arbitrary: acc) auto

lemma bs_fold_ok: "bs_ok acc \<Longrightarrow> bs_ok (fold bs_insert xs acc)"
  by (induction xs arbitrary: acc) auto

lemma bs_set_from [simp]: "set (bs_from xs) = set xs"
  by (simp add: bs_from_def bs_fold_set)

lemma bs_ok_from [simp]: "bs_ok (bs_from xs)"
  by (simp add: bs_from_def bs_fold_ok)

lemma bs_ext: "bs_ok xs \<Longrightarrow> bs_ok ys \<Longrightarrow> set xs = set ys \<Longrightarrow> xs = ys"
  by (simp add: strict_sorted_equal)

lemma bs_insert_mem: "bs_ok xs \<Longrightarrow> x \<in> set xs \<Longrightarrow> bs_insert x xs = xs"
  by (rule bs_ext) auto

lemma bs_insert_snoc: "\<forall>y \<in> set xs. y < x \<Longrightarrow> bs_insert x xs = xs @ [x]"
proof (induction x xs rule: bs_insert.induct)
  case (2 x y ys)
  then have "y < x" by simp
  with 2 show ?case by auto
qed simp

end
