(* ===== verification/Lex.thy ===== *)
theory Lex
  imports Prelude
begin

text \<open>
  \<open>src/nightshade-schema/src/lex.rs\<close>: the one tokeniser, shared by the config file format
  and the path syntax, and the quoting that is its inverse.

  \<open>Lexer\<close> holds the characters not yet consumed (\<open>src[i..]\<close>) and the position of the next
  one. Lines and columns are unbounded here; the code's \<open>u32\<close> counters agree below 4 GiB of
  input. A method that fails leaves a lexer no caller looks at again, so the error case
  carries none.
\<close>

section \<open>Positions, tokens and errors\<close>

record pos =
  line :: nat
  column :: nat

definition show_pos :: "pos \<Rightarrow> string" where
  "show_pos p = ''line '' @ show_nat (line p) @ '', column '' @ show_nat (column p)"

datatype token = TokValue string | TokOpen | TokClose | TokComment string

record spanned =
  sp_token :: token
  sp_pos :: pos

datatype lex_error =
    UnterminatedString pos
  | UnterminatedComment pos
  | UnknownEscape pos char
  | BadHexEscape pos
  | UnexpectedChar pos char

fun lex_error_pos :: "lex_error \<Rightarrow> pos" where
  "lex_error_pos (UnterminatedString p) = p"
| "lex_error_pos (UnterminatedComment p) = p"
| "lex_error_pos (UnknownEscape p c) = p"
| "lex_error_pos (BadHexEscape p) = p"
| "lex_error_pos (UnexpectedChar p c) = p"

text \<open>The \<open>#[error(..)]\<close> texts.\<close>

fun show_lex_error :: "lex_error \<Rightarrow> string" where
  "show_lex_error (UnterminatedString p) =
     show_pos p @ '': unterminated quoted value (opened here)''"
| "show_lex_error (UnterminatedComment p) =
     show_pos p @ '': unterminated comment -- no closing `*/`''"
| "show_lex_error (UnknownEscape p c) =
     show_pos p @ '': unknown escape `'' @ [backslash, c] @ ''`; valid escapes are '' @
     [backslash, backslash] @ '' '' @ [backslash, quote_char] @ '' '' @ [backslash] @ ''n '' @
     [backslash] @ ''t '' @ [backslash] @ ''r '' @ [backslash] @ ''xNN''"
| "show_lex_error (BadHexEscape p) =
     show_pos p @ '': `'' @ [backslash] @ ''x` must be followed by two hex digits in the range 00-7f''"
| "show_lex_error (UnexpectedChar p c) =
     show_pos p @ '': unexpected character '' @ debug_char c @ ''; quote it if it is part of a value''"

section \<open>Bare words and quoting\<close>

definition is_bare_char :: "char \<Rightarrow> bool" where
  "is_bare_char c \<longleftrightarrow> is_ascii_alphanumeric c \<or> c \<in> set ''.:/_-+%''"

definition is_bare :: "string \<Rightarrow> bool" where
  "is_bare s \<longleftrightarrow> s \<noteq> [] \<and> list_all is_bare_char s"

definition quote_escape :: "char \<Rightarrow> string" where
  "quote_escape c =
     (if c = backslash then [backslash, backslash]
      else if c = quote_char then [backslash, quote_char]
      else if c = newline then [backslash, CHR ''n'']
      else if code c = 9 then [backslash, CHR ''t'']
      else if code c = 13 then [backslash, CHR ''r'']
      else if code c < 32 \<or> code c = 127
        then [backslash, CHR ''x'', hex_digit (code c div 16), hex_digit (code c mod 16)]
      else [c])"

definition quote :: "string \<Rightarrow> string" where
  "quote s =
     (if is_bare s then s
      else [quote_char] @ concat (map quote_escape s) @ [quote_char])"

definition quote_into :: "string \<Rightarrow> string \<Rightarrow> string" where
  "quote_into out s = out @ quote s"

section \<open>The lexer\<close>

record lexer =
  rest :: string
  lx_line :: nat
  lx_column :: nat

definition lexer_new :: "string \<Rightarrow> lexer" where
  "lexer_new s = \<lparr>rest = s, lx_line = 1, lx_column = 1\<rparr>"

definition pos_of :: "lexer \<Rightarrow> pos" where
  "pos_of l = \<lparr>line = lx_line l, column = lx_column l\<rparr>"

definition peek_at :: "lexer \<Rightarrow> nat \<Rightarrow> char option" where
  "peek_at l n = (if n < length (rest l) then Some (rest l ! n) else None)"

definition peek :: "lexer \<Rightarrow> char option" where
  "peek l = (case rest l of [] \<Rightarrow> None | c # _ \<Rightarrow> Some c)"

text \<open>\<open>bump\<close> is \<open>peek\<close> for the character it returns and \<open>eat\<close> for the state it leaves.\<close>

definition eat :: "lexer \<Rightarrow> lexer" where
  "eat l =
     (case rest l of
        [] \<Rightarrow> l
      | c # cs \<Rightarrow>
          if c = newline
          then \<lparr>rest = cs, lx_line = lx_line l + 1, lx_column = 1\<rparr>
          else \<lparr>rest = cs, lx_line = lx_line l, lx_column = lx_column l + 1\<rparr>)"

lemma peek_Some: "peek l = Some c \<longleftrightarrow> (\<exists>cs. rest l = c # cs)"
  by (auto simp: peek_def split: list.splits)

lemma peek_None: "peek l = None \<longleftrightarrow> rest l = []"
  by (auto simp: peek_def split: list.splits)

lemma length_eat: "peek l = Some c \<Longrightarrow> length (rest l) = Suc (length (rest (eat l)))"
  by (auto simp: peek_Some eat_def)

lemma length_eat_less: "peek l = Some c \<Longrightarrow> length (rest (eat l)) < length (rest l)"
  by (simp add: length_eat)

lemma length_eat_le: "length (rest (eat l)) \<le> length (rest l)"
  by (auto simp: eat_def split: list.splits)

function skip_whitespace :: "lexer \<Rightarrow> lexer" where
  "skip_whitespace l =
     (case peek l of
        Some c \<Rightarrow> if is_whitespace c then skip_whitespace (eat l) else l
      | None \<Rightarrow> l)"
  by pat_completeness auto
termination
  by (relation "measure (\<lambda>l. length (rest l))") (auto intro: length_eat_less)

declare skip_whitespace.simps [simp del]

function word :: "lexer \<Rightarrow> string \<times> lexer" where
  "word l =
     (case peek l of
        Some c \<Rightarrow>
          if is_bare_char c then (case word (eat l) of (s, l') \<Rightarrow> (c # s, l')) else ([], l)
      | None \<Rightarrow> ([], l))"
  by pat_completeness auto
termination
  by (relation "measure (\<lambda>l. length (rest l))") (auto intro: length_eat_less)

declare word.simps [simp del]

text \<open>The two hexadecimal digits of \<open>\xNN\<close>.\<close>

definition hex_escape :: "pos \<Rightarrow> lexer \<Rightarrow> lex_error + (char \<times> lexer)" where
  "hex_escape start l =
     (case Option.bind (peek l) hex_value of
        None \<Rightarrow> Inl (BadHexEscape start)
      | Some d1 \<Rightarrow>
          (case Option.bind (peek (eat l)) hex_value of
             None \<Rightarrow> Inl (BadHexEscape start)
           | Some d2 \<Rightarrow>
               if d1 * 16 + d2 > 127 then Inl (BadHexEscape start)
               else Inr (char_of (d1 * 16 + d2), eat (eat l))))"

definition escape :: "pos \<Rightarrow> lexer \<Rightarrow> lex_error + (char \<times> lexer)" where
  "escape start l =
     (case peek l of
        None \<Rightarrow> Inl (UnterminatedString start)
      | Some c \<Rightarrow>
          if c = backslash then Inr (backslash, eat l)
          else if c = quote_char then Inr (quote_char, eat l)
          else if c = CHR ''n'' then Inr (newline, eat l)
          else if c = CHR ''t'' then Inr (CHR 0x09, eat l)
          else if c = CHR ''r'' then Inr (CHR 0x0D, eat l)
          else if c = CHR ''x'' then hex_escape start (eat l)
          else Inl (UnknownEscape start c))"

lemma hex_escape_shrinks: "hex_escape p l = Inr (c, l') \<Longrightarrow> length (rest l') < length (rest l)"
  by (auto simp: hex_escape_def length_eat bind_eq_Some_conv split: option.splits if_splits)

lemma escape_shrinks: "escape p l = Inr (c, l') \<Longrightarrow> length (rest l') < length (rest l)"
  by (auto simp: escape_def dest!: hex_escape_shrinks length_eat split: option.splits if_splits)

text \<open>The loop of \<open>string\<close>, entered after the opening quote.\<close>

function string_loop :: "pos \<Rightarrow> lexer \<Rightarrow> lex_error + (string \<times> lexer)" where
  "string_loop start l =
     (case peek l of
        None \<Rightarrow> Inl (UnterminatedString start)
      | Some c \<Rightarrow>
          if c = quote_char then Inr ([], eat l)
          else if c = backslash then
            (case escape (pos_of l) (eat l) of
               Inl e \<Rightarrow> Inl e
             | Inr (d, l') \<Rightarrow>
                 (case string_loop start l' of
                    Inl e \<Rightarrow> Inl e
                  | Inr (s, l'') \<Rightarrow> Inr (d # s, l'')))
          else
            (case string_loop start (eat l) of
               Inl e \<Rightarrow> Inl e
             | Inr (s, l'') \<Rightarrow> Inr (c # s, l'')))"
  by pat_completeness auto
termination
  by (relation "measure (\<lambda>(p, l). length (rest l))")
    (auto dest!: escape_shrinks length_eat)

declare string_loop.simps [simp del]

definition lex_string :: "pos \<Rightarrow> lexer \<Rightarrow> lex_error + (token \<times> lexer)" where
  "lex_string start l =
     (case string_loop start (eat l) of
        Inl e \<Rightarrow> Inl e
      | Inr (s, l') \<Rightarrow> Inr (TokValue s, l'))"

function line_comment_loop :: "lexer \<Rightarrow> string \<times> lexer" where
  "line_comment_loop l =
     (case peek l of
        None \<Rightarrow> ([], l)
      | Some c \<Rightarrow>
          if c = newline then ([], l)
          else (case line_comment_loop (eat l) of (s, l') \<Rightarrow> (c # s, l')))"
  by pat_completeness auto
termination
  by (relation "measure (\<lambda>l. length (rest l))") (auto intro: length_eat_less)

declare line_comment_loop.simps [simp del]

definition strip_one_space :: "string \<Rightarrow> string" where
  "strip_one_space s = (case s of [] \<Rightarrow> [] | c # cs \<Rightarrow> if c = CHR '' '' then cs else s)"

definition line_comment :: "lexer \<Rightarrow> token \<times> lexer" where
  "line_comment l =
     (case line_comment_loop (eat l) of (s, l') \<Rightarrow> (TokComment (strip_one_space s), l'))"

function block_loop :: "pos \<Rightarrow> lexer \<Rightarrow> lex_error + (string \<times> lexer)" where
  "block_loop start l =
     (case peek l of
        None \<Rightarrow> Inl (UnterminatedComment start)
      | Some c \<Rightarrow>
          if c = CHR ''*'' \<and> peek_at l 1 = Some (CHR ''/'') then Inr ([], eat (eat l))
          else
            (case block_loop start (eat l) of
               Inl e \<Rightarrow> Inl e
             | Inr (s, l') \<Rightarrow> Inr (c # s, l')))"
  by pat_completeness auto
termination
  by (relation "measure (\<lambda>(p, l). length (rest l))") (auto intro: length_eat_less)

declare block_loop.simps [simp del]

text \<open>
  \<open>str::lines\<close>: pieces between newlines, each losing one trailing carriage return; what
  follows the last newline counts only when it is not empty, and keeps its carriage return.
\<close>

definition strip_cr :: "string \<Rightarrow> string" where
  "strip_cr s = (if s \<noteq> [] \<and> code (last s) = 13 then butlast s else s)"

definition str_lines :: "string \<Rightarrow> string list" where
  "str_lines s =
     (let ps = split_on newline s
      in map strip_cr (butlast ps) @ (if last ps = [] then [] else [last ps]))"

definition comment_line :: "string \<Rightarrow> string" where
  "comment_line l =
     trim_start_by is_whitespace
       (trim_start_by (\<lambda>c. c = CHR ''*'') (trim_by is_whitespace l))"

definition block_body :: "string \<Rightarrow> string" where
  "block_body raw =
     trim_by (\<lambda>c. c = newline) (join [newline] (map comment_line (str_lines raw)))"

definition block_comment :: "pos \<Rightarrow> lexer \<Rightarrow> lex_error + (spanned \<times> lexer)" where
  "block_comment start l =
     (case block_loop start (eat (eat l)) of
        Inl e \<Rightarrow> Inl e
      | Inr (raw, l') \<Rightarrow> Inr (\<lparr>sp_token = TokComment (block_body raw), sp_pos = start\<rparr>, l'))"

definition next_token :: "lexer \<Rightarrow> lex_error + (spanned option \<times> lexer)" where
  "next_token l0 =
     (let l = skip_whitespace l0; p = pos_of l;
          ok = (\<lambda>(t, l'). Inr (Some \<lparr>sp_token = t, sp_pos = p\<rparr>, l'))
      in case peek l of
           None \<Rightarrow> Inr (None, l)
         | Some c \<Rightarrow>
             if c = CHR ''/'' \<and> peek_at l 1 = Some (CHR ''*'') then
               (case block_comment p l of Inl e \<Rightarrow> Inl e | Inr (sp, l') \<Rightarrow> Inr (Some sp, l'))
             else if c = CHR ''{'' then ok (TokOpen, eat l)
             else if c = CHR ''}'' then ok (TokClose, eat l)
             else if c = CHR ''#'' then ok (line_comment l)
             else if c = quote_char then
               (case lex_string p l of Inl e \<Rightarrow> Inl e | Inr tok \<Rightarrow> ok tok)
             else if is_bare_char c then
               (case word l of (s, l') \<Rightarrow> ok (TokValue s, l'))
             else Inl (UnexpectedChar p c))"

section \<open>Progress and positions\<close>

text \<open>
  Every lexer method only ever \<open>bump\<close>s: the state it leaves is some number of \<open>eat\<close>s
  away. From that one fact come progress (the loops end, a token consumes something) and the
  truth of the reported positions.
\<close>

inductive reach :: "lexer \<Rightarrow> lexer \<Rightarrow> bool" where
  reach_refl [intro]: "reach l l"
| reach_eat: "reach (eat l) l' \<Longrightarrow> reach l l'"

lemma reach_eat_self [intro]: "reach l (eat l)"
  by (rule reach_eat) (rule reach_refl)

lemma reach_trans [trans]: "reach l l' \<Longrightarrow> reach l' l'' \<Longrightarrow> reach l l''"
  by (induction rule: reach.induct) (auto intro: reach_eat)

lemma reach_length: "reach l l' \<Longrightarrow> length (rest l') \<le> length (rest l)"
  by (induction rule: reach.induct) (auto intro: le_trans [OF _ length_eat_le])

lemma reach_eat_length: "reach (eat l) l' \<Longrightarrow> peek l = Some c \<Longrightarrow> length (rest l') < length (rest l)"
  by (drule reach_length, drule length_eat) simp

lemma reach_skip_whitespace: "reach l (skip_whitespace l)"
  by (induction l rule: skip_whitespace.induct)
    (subst skip_whitespace.simps, auto split: option.splits intro: reach_eat)

lemma reach_word: "word l = (s, l') \<Longrightarrow> reach l l'"
proof (induction l arbitrary: s l' rule: word.induct)
  case (1 l)
  from "1.prems" show ?case
    by (subst (asm) word.simps)
      (auto split: option.splits if_splits prod.splits intro: reach_eat "1.IH")
qed

lemma reach_word_bare:
  "word l = (s, l') \<Longrightarrow> peek l = Some c \<Longrightarrow> is_bare_char c \<Longrightarrow> reach (eat l) l'"
  by (subst (asm) word.simps) (auto split: prod.splits dest: reach_word)

lemma reach_hex_escape: "hex_escape p l = Inr (c, l') \<Longrightarrow> reach l l'"
  by (auto simp: hex_escape_def split: option.splits if_splits intro: reach_eat)

lemma reach_escape: "escape p l = Inr (c, l') \<Longrightarrow> reach l l'"
  by (auto simp: escape_def split: option.splits if_splits
      intro: reach_eat dest: reach_hex_escape)

lemma reach_string_loop: "string_loop p l = Inr (s, l') \<Longrightarrow> reach l l'"
proof (induction p l arbitrary: s l' rule: string_loop.induct)
  case (1 p l)
  show ?case
  proof (cases "peek l")
    case None
    with "1.prems" show ?thesis by (simp add: string_loop.simps [of p l])
  next
    case (Some c)
    have "reach (eat l) l'"
    proof (cases "c = backslash")
      case True
      with "1.prems" Some obtain d m s' where
        "escape (pos_of l) (eat l) = Inr (d, m)" and "string_loop p m = Inr (s', l')"
        by (auto simp: string_loop.simps [of p l] split: sum.splits)
      then show ?thesis
        using "1.IH"(1) [OF Some _ True] True by (auto intro: reach_trans reach_escape)
    next
      case False
      with "1.prems" Some "1.IH"(2) [OF Some _ False] show ?thesis
        by (auto simp: string_loop.simps [of p l] split: sum.splits if_splits)
    qed
    then show ?thesis by (rule reach_eat)
  qed
qed

lemma reach_line_comment_loop: "line_comment_loop l = (s, l') \<Longrightarrow> reach l l'"
proof (induction l arbitrary: s l' rule: line_comment_loop.induct)
  case (1 l)
  from "1.prems" show ?case
    by (subst (asm) line_comment_loop.simps)
      (auto split: option.splits if_splits prod.splits intro: reach_eat "1.IH")
qed

lemma reach_block_loop: "block_loop p l = Inr (s, l') \<Longrightarrow> reach l l'"
proof (induction p l arbitrary: s l' rule: block_loop.induct)
  case (1 p l)
  note IH = "1.IH" [simplified]
  from "1.prems" show ?case
    by (subst (asm) block_loop.simps)
      (auto split: option.splits if_splits sum.splits intro: reach_eat IH)
qed

lemma peek_skip_whitespace: "peek (skip_whitespace l) = Some c \<Longrightarrow> \<not> is_whitespace c"
proof (induction l rule: skip_whitespace.induct)
  case (1 l)
  from "1.prems" show ?case
    by (subst (asm) (1) skip_whitespace.simps)
      (auto split: option.splits if_splits dest: "1.IH")
qed

text \<open>
  A token starts where whitespace ends, carries that position, and consumes at least its
  first character.
\<close>

lemma next_token_Some:
  assumes "next_token l = Inr (Some sp, l')"
  obtains c where "peek (skip_whitespace l) = Some c"
    and "sp_pos sp = pos_of (skip_whitespace l)"
    and "reach (eat (skip_whitespace l)) l'"
proof -
  let ?l = "skip_whitespace l"
  from assms obtain c where c: "peek ?l = Some c"
    by (auto simp: next_token_def Let_def split: option.splits)
  have "sp_pos sp = pos_of ?l \<and> reach (eat ?l) l'"
    using assms c
    by (auto simp: next_token_def Let_def block_comment_def line_comment_def lex_string_def
        split: if_splits sum.splits prod.splits
        dest!: reach_block_loop reach_string_loop reach_line_comment_loop
        dest: reach_word_bare intro: reach_eat)
  with c that show thesis by blast
qed

lemma next_token_shrinks:
  "next_token l = Inr (Some sp, l') \<Longrightarrow> length (rest l') < length (rest l)"
  by (auto elim!: next_token_Some dest!: reach_eat_length
      intro: less_le_trans reach_length [OF reach_skip_whitespace])

end
