(* ===== verification/Lex_Text.thy ===== *)
theory Lex_Text
  imports Lex
begin

text \<open>
  What the tokeniser of \<open>Lex\<close> does on text the program itself writes: whitespace, bare
  words, quoted values, \<open>#\<close> comments and braces each read back as exactly the token they
  were written for, with the line number the parser relies on. \<open>at_text l t n\<close> says that
  the lexer has \<open>t\<close> ahead of it and stands on line \<open>n\<close>.
\<close>

section \<open>Where a lexer stands\<close>

definition at_text :: "lexer \<Rightarrow> string \<Rightarrow> nat \<Rightarrow> bool" where
  "at_text l t n \<longleftrightarrow> rest l = t \<and> lx_line l = n"

definition newlines :: "string \<Rightarrow> nat" where
  "newlines s = length (filter (\<lambda>c. c = newline) s)"

lemma newlines_simps [simp]:
  "newlines [] = 0" "newlines (s @ t) = newlines s + newlines t"
  "newlines (c # s) = (if c = newline then Suc (newlines s) else newlines s)"
  by (simp_all add: newlines_def)

lemma newlines_none: "newline \<notin> set s \<Longrightarrow> newlines s = 0"
  by (induction s) auto

lemma at_text_new: "at_text (lexer_new s) s 1"
  by (simp add: at_text_def lexer_new_def)

lemma at_text_peek [simp]: "at_text l (c # t) n \<Longrightarrow> peek l = Some c"
  by (simp add: at_text_def peek_def)

lemma at_text_peek_Nil [simp]: "at_text l [] n \<Longrightarrow> peek l = None"
  by (simp add: at_text_def peek_def)

lemma at_text_eat: "at_text l (c # t) n \<Longrightarrow> at_text (eat l) t (if c = newline then Suc n else n)"
  by (simp add: at_text_def eat_def)

lemma at_text_peek_at: "at_text l t n \<Longrightarrow> peek_at l i = (if i < length t then Some (t ! i) else None)"
  by (simp add: at_text_def peek_at_def)

lemma at_text_pos [simp]: "at_text l t n \<Longrightarrow> line (pos_of l) = n"
  by (simp add: at_text_def pos_of_def)

section \<open>The pieces of a rendered line\<close>

definition stops_word :: "string \<Rightarrow> bool" where
  "stops_word r \<longleftrightarrow> r = [] \<or> is_whitespace (hd r)"

lemma stops_word_simps [simp]:
  "stops_word []" "stops_word (c # r) = is_whitespace c"
  by (simp_all add: stops_word_def)

lemma whitespace_literals [simp]:
  "is_whitespace (CHR '' '')" "is_whitespace newline" "\<not> is_whitespace (CHR ''#'')"
  "\<not> is_whitespace (CHR ''{'')" "\<not> is_whitespace (CHR ''}'')" "\<not> is_whitespace quote_char"
  by (simp_all add: is_whitespace_def code_def)

lemma bare_not_special:
  assumes "is_bare_char c"
  shows "\<not> is_whitespace c" "c \<noteq> CHR ''{''" "c \<noteq> CHR ''}''" "c \<noteq> CHR ''#''"
    "c \<noteq> quote_char" "c \<noteq> newline" "c \<noteq> CHR ''*''"
  using assms by (auto simp: is_bare_char_def char_class code_def)

lemma whitespace_not_bare: "is_whitespace c \<Longrightarrow> \<not> is_bare_char c"
  using bare_not_special(1) by blast

lemma skip_whitespace_at:
  assumes "at_text l (ws @ r) n" and "list_all is_whitespace ws"
    and "r = [] \<or> \<not> is_whitespace (hd r)"
  shows "at_text (skip_whitespace l) r (n + newlines ws)"
  using assms
proof (induction ws arbitrary: l n)
  case Nil
  then show ?case by (cases r) (auto simp: skip_whitespace.simps [of l])
next
  case (Cons c ws)
  have "at_text (skip_whitespace (eat l)) r ((if c = newline then Suc n else n) + newlines ws)"
    using Cons.prems by (intro Cons.IH) (auto dest: at_text_eat)
  moreover have "peek l = Some c" using Cons.prems(1) by (simp add: at_text_def peek_def)
  ultimately show ?case using Cons.prems(2) by (auto simp: skip_whitespace.simps [of l])
qed

lemma word_at:
  assumes "at_text l (s @ r) n" and "list_all is_bare_char s" and "stops_word r"
  obtains l' where "word l = (s, l')" and "at_text l' r n"
proof -
  have "\<exists>l'. word l = (s, l') \<and> at_text l' r n"
    using assms
  proof (induction s arbitrary: l)
    case Nil
    then show ?case
      by (cases r) (auto simp: word.simps [of l] dest: whitespace_not_bare)
  next
    case (Cons c s)
    have c: "is_bare_char c" "c \<noteq> newline" using Cons.prems(2) by (auto simp: bare_not_special)
    have "\<exists>l'. word (eat l) = (s, l') \<and> at_text l' r n"
      using Cons.prems c by (intro Cons.IH) (auto dest: at_text_eat)
    moreover have "peek l = Some c" using Cons.prems(1) by (simp add: at_text_def peek_def)
    ultimately show ?case using c by (auto simp: word.simps [of l])
  qed
  then show thesis using that by blast
qed

lemma escape_at:
  assumes "at_text l (tl (quote_escape c) @ r) n" and "hd (quote_escape c) = backslash"
    and "tl (quote_escape c) \<noteq> []"
  obtains l' where "escape p l = Inr (c, l')" and "at_text l' r n"
proof -
  have hex: "code c div 16 * 16 + code c mod 16 = code c" by simp
  have ctl: "code c < 32 \<or> code c = 127 \<Longrightarrow> code c div 16 < 16 \<and> code c mod 16 < 16"
    by auto
  have peek: "at_text l t m \<Longrightarrow> peek l = (case t of [] \<Rightarrow> None | c # _ \<Rightarrow> Some c)" for l t m
    by (simp add: at_text_def peek_def)
  have dig: "d < 16 \<Longrightarrow> hex_digit d \<noteq> newline" for d
    by (auto simp: hex_digit_def code_eq_iff [symmetric]) (auto simp: code_def split: if_splits)
  have "\<exists>l'. escape p l = Inr (c, l') \<and> at_text l' r n"
  proof (cases "c = backslash \<or> c = quote_char \<or> c = newline \<or> code c = 9 \<or> code c = 13")
    case True
    have c9: "code c = 9 \<Longrightarrow> c = CHR 0x09" and c13: "code c = 13 \<Longrightarrow> c = CHR 0x0D"
      by (simp_all add: code_eq_iff [symmetric]) (simp_all add: code_def)
    show ?thesis using True assms(1) c9 c13
      by (auto simp: quote_escape_def escape_def peek code_def
          dest!: at_text_eat split: if_splits)
  next
    case False
    then have small: "code c < 32 \<or> code c = 127" using assms(2,3)
      by (auto simp: quote_escape_def split: if_splits)
    let ?h = "hex_digit (code c div 16)" and ?g = "hex_digit (code c mod 16)"
    have 1: "at_text l (CHR ''x'' # ?h # ?g # r) n"
      using assms(1) False small by (auto simp: quote_escape_def)
    have 2: "at_text (eat l) (?h # ?g # r) n" using at_text_eat [OF 1] by simp
    have 3: "at_text (eat (eat l)) (?g # r) n" using at_text_eat [OF 2] dig ctl small by auto
    have 4: "at_text (eat (eat (eat l))) r n" using at_text_eat [OF 3] dig ctl small by auto
    have "hex_escape p (eat l) = Inr (c, eat (eat (eat l)))"
      using 2 3 4 small ctl hex by (auto simp: hex_escape_def code_def)
    then show ?thesis using 1 4 by (auto simp: escape_def)
  qed
  then show thesis using that by blast
qed

lemma quote_escape_cases:
  "quote_escape c = [c] \<and> c \<noteq> quote_char \<and> c \<noteq> backslash \<and> c \<noteq> newline \<or>
   hd (quote_escape c) = backslash \<and> tl (quote_escape c) \<noteq> []"
  by (auto simp: quote_escape_def)

lemma string_loop_at:
  assumes "at_text l (concat (map quote_escape s) @ quote_char # r) n"
  obtains l' where "string_loop p l = Inr (s, l')" and "at_text l' r n"
proof -
  have "\<exists>l'. string_loop p l = Inr (s, l') \<and> at_text l' r n"
    using assms
  proof (induction s arbitrary: l)
    case Nil
    then show ?case by (auto simp: string_loop.simps [of p l] dest: at_text_eat)
  next
    case (Cons c s)
    let ?t = "concat (map quote_escape s) @ quote_char # r"
    consider (plain) "quote_escape c = [c]" "c \<noteq> quote_char" "c \<noteq> backslash" "c \<noteq> newline"
      | (esc) "hd (quote_escape c) = backslash" "tl (quote_escape c) \<noteq> []"
      using quote_escape_cases by blast
    then show ?case
    proof cases
      case plain
      then have at: "at_text l (c # ?t) n" using Cons.prems by simp
      then have "at_text (eat l) ?t n" using plain by (auto dest: at_text_eat)
      from Cons.IH [OF this] show ?thesis
        using plain at by (auto simp: string_loop.simps [of p l])
    next
      case esc
      have ne: "quote_escape c \<noteq> []" using esc(2) by auto
      then have split: "quote_escape c = backslash # tl (quote_escape c)"
        using esc(1) by (metis list.collapse)
      have at: "at_text l (backslash # tl (quote_escape c) @ ?t) n"
        using Cons.prems split by (metis append.assoc append_Cons concat.simps(2) list.map(2))
      then have "at_text (eat l) (tl (quote_escape c) @ ?t) n" by (auto dest: at_text_eat)
      from escape_at [OF this esc] obtain m where
        m: "escape (pos_of l) (eat l) = Inr (c, m)" "at_text m ?t n" by blast
      from Cons.IH [OF m(2)] show ?thesis
        using m(1) at by (auto simp: string_loop.simps [of p l])
    qed
  qed
  then show thesis using that by blast
qed

section \<open>Tokens of rendered text\<close>

lemma next_token_value_at:
  assumes at: "at_text l (ws @ quote s @ r) n" and ws: "list_all is_whitespace ws"
    and stop: "stops_word r"
  obtains l' p where "next_token l = Inr (Some \<lparr>sp_token = TokValue s, sp_pos = p\<rparr>, l')"
    and "line p = n + newlines ws" and "at_text l' r (n + newlines ws)"
proof -
  let ?m = "skip_whitespace l" and ?n = "n + newlines ws"
  show thesis
  proof (cases "is_bare s")
    case True
    then obtain c cs where s: "s = c # cs" and bare: "is_bare_char c" "list_all is_bare_char s"
      by (cases s) (auto simp: is_bare_def)
    have "quote s = s" using True by (simp add: quote_def)
    then have m: "at_text ?m (s @ r) ?n"
      using at ws bare by (intro skip_whitespace_at [of l ws]) (auto simp: s bare_not_special)
    from word_at [OF m bare(2) stop] obtain l' where w: "word ?m = (s, l')" "at_text l' r ?n" .
    have pk: "peek ?m = Some c" using m by (simp add: s)
    have "\<not> (c = CHR ''/'' \<and> peek_at ?m 1 = Some (CHR ''*''))"
      using m bare(2) stop by (cases cs; cases r)
        (auto simp: s at_text_peek_at [OF m] bare_not_special is_whitespace_def code_def)
    then have "next_token l = Inr (Some \<lparr>sp_token = TokValue s, sp_pos = pos_of ?m\<rparr>, l')"
      using pk w(1) bare(1) by (auto simp: next_token_def Let_def bare_not_special)
    then show thesis using that m w(2) by simp
  next
    case False
    let ?q = "concat (map quote_escape s) @ quote_char # r"
    have m: "at_text ?m (quote_char # ?q) ?n"
      using at ws by (intro skip_whitespace_at [of l ws]) (auto simp: quote_def False)
    then have "at_text (eat ?m) ?q ?n" by (auto dest: at_text_eat)
    from string_loop_at [OF this, of "pos_of ?m"] obtain l' where
      w: "string_loop (pos_of ?m) (eat ?m) = Inr (s, l')" "at_text l' r ?n" by blast
    have "next_token l = Inr (Some \<lparr>sp_token = TokValue s, sp_pos = pos_of ?m\<rparr>, l')"
      using m w(1) by (simp add: next_token_def Let_def lex_string_def)
    then show thesis using that m w(2) by simp
  qed
qed

lemma next_token_brace_at:
  assumes at: "at_text l (ws @ b # r) n" and ws: "list_all is_whitespace ws"
    and b: "b = CHR ''{'' \<and> t = TokOpen \<or> b = CHR ''}'' \<and> t = TokClose"
  obtains l' p where "next_token l = Inr (Some \<lparr>sp_token = t, sp_pos = p\<rparr>, l')"
    and "line p = n + newlines ws" and "at_text l' r (n + newlines ws)"
proof -
  let ?m = "skip_whitespace l" and ?n = "n + newlines ws"
  have m: "at_text ?m (b # r) ?n"
    using at ws b by (intro skip_whitespace_at [of l ws]) auto
  have "next_token l = Inr (Some \<lparr>sp_token = t, sp_pos = pos_of ?m\<rparr>, eat ?m)"
    using m b by (auto simp: next_token_def Let_def)
  moreover have "at_text (eat ?m) r ?n" using at_text_eat [OF m] b by auto
  ultimately show thesis using that m by simp
qed

lemma line_comment_loop_at:
  assumes "at_text l (c @ newline # r) n" and "newline \<notin> set c"
  obtains l' where "line_comment_loop l = (c, l')" and "at_text l' (newline # r) n"
proof -
  have "\<exists>l'. line_comment_loop l = (c, l') \<and> at_text l' (newline # r) n"
    using assms
  proof (induction c arbitrary: l)
    case Nil
    then show ?case by (auto simp: line_comment_loop.simps [of l])
  next
    case (Cons x c)
    have "\<exists>l'. line_comment_loop (eat l) = (c, l') \<and> at_text l' (newline # r) n"
      using Cons.prems by (intro Cons.IH) (auto dest: at_text_eat)
    moreover have "peek l = Some x" using Cons.prems(1) by simp
    ultimately show ?case using Cons.prems(2) by (auto simp: line_comment_loop.simps [of l])
  qed
  then show thesis using that by blast
qed

text \<open>A \<open>#\<close> line as \<open>curly::comment\<close> writes it: \<open># text\<close>, or a bare \<open>#\<close> when the line is empty.\<close>

definition comment_text :: "string \<Rightarrow> string" where
  "comment_text c = (if c = [] then ''#'' else ''# '' @ c)"

lemma next_token_comment_at:
  assumes at: "at_text l (ws @ comment_text c @ newline # r) n" and ws: "list_all is_whitespace ws"
    and c: "newline \<notin> set c"
  obtains l' p where "next_token l = Inr (Some \<lparr>sp_token = TokComment c, sp_pos = p\<rparr>, l')"
    and "line p = n + newlines ws" and "at_text l' (newline # r) (n + newlines ws)"
proof -
  let ?m = "skip_whitespace l" and ?n = "n + newlines ws"
  let ?b = "if c = [] then [] else CHR '' '' # c"
  have m: "at_text ?m (CHR ''#'' # ?b @ newline # r) ?n"
    using at ws by (intro skip_whitespace_at [of l ws]) (auto simp: comment_text_def)
  then have "at_text (eat ?m) (?b @ newline # r) ?n" by (auto dest: at_text_eat)
  moreover have "newline \<notin> set ?b" using c by auto
  ultimately obtain l' where
    w: "line_comment_loop (eat ?m) = (?b, l')" "at_text l' (newline # r) ?n"
    by (rule line_comment_loop_at)
  have "next_token l = Inr (Some \<lparr>sp_token = TokComment c, sp_pos = pos_of ?m\<rparr>, l')"
    using m w(1)
    by (auto simp: next_token_def Let_def line_comment_def strip_one_space_def split: if_splits)
  then show thesis using that m w(2) by simp
qed

lemma next_token_end_at:
  assumes "at_text l ws n" and "list_all is_whitespace ws"
  obtains l' where "next_token l = Inr (None, l')"
proof -
  have "at_text (skip_whitespace l) [] (n + newlines ws)"
    using assms by (intro skip_whitespace_at [of l ws]) auto
  then show thesis using that by (simp add: next_token_def Let_def)
qed

section \<open>Reported positions\<close>

text \<open>
  The position of the character after \<open>pre\<close>: one more than the newlines passed, and one
  more than the characters since the last of them.
\<close>

definition pos_after :: "string \<Rightarrow> pos" where
  "pos_after pre =
     \<lparr>line = Suc (newlines pre), column = Suc (length (takeWhile (\<lambda>c. c \<noteq> newline) (rev pre)))\<rparr>"

definition tracks :: "string \<Rightarrow> lexer \<Rightarrow> bool" where
  "tracks src l \<longleftrightarrow> (\<exists>pre. src = pre @ rest l \<and> pos_of l = pos_after pre)"

lemma tracks_new: "tracks src (lexer_new src)"
  by (simp add: tracks_def lexer_new_def pos_of_def pos_after_def)

lemma tracks_eat: "tracks src l \<Longrightarrow> tracks src (eat l)"
proof -
  assume "tracks src l"
  then obtain pre where pre: "src = pre @ rest l" "pos_of l = pos_after pre"
    by (auto simp: tracks_def)
  show ?thesis
  proof (cases "rest l")
    case Nil
    then show ?thesis using \<open>tracks src l\<close> by (simp add: eat_def)
  next
    case (Cons c cs)
    have "src = (pre @ [c]) @ rest (eat l) \<and> pos_of (eat l) = pos_after (pre @ [c])"
      using pre Cons by (auto simp: eat_def pos_of_def pos_after_def)
    then show ?thesis unfolding tracks_def by blast
  qed
qed

lemma tracks_reach: "reach l l' \<Longrightarrow> tracks src l \<Longrightarrow> tracks src l'"
  by (induction rule: reach.induct) (auto intro: tracks_eat)

end
