(* ===== verification/Cfg_Path.thy ===== *)
theory Cfg_Path
  imports Lex_Text
begin

text \<open>
  \<open>src/nightshade-schema/src/path.rs\<close>: configuration paths. A \<open>Path\<close> is the list of its
  segments; its derived \<open>Ord\<close> is the lexicographic order on lists of strings. \<open>path_parse\<close>
  tokenises what an operator typed and \<open>show_path\<close> is its \<open>Display\<close>.
\<close>

section \<open>Paths\<close>

type_synonym path = "string list"

datatype path_error =
    PathLex lex_error
  | PathBrace pos char
  | PathComment pos

abbreviation (input) path_root :: path where
  "path_root \<equiv> []"

definition path_child :: "path \<Rightarrow> string \<Rightarrow> path" where
  "path_child p s = p @ [s]"

definition path_last :: "path \<Rightarrow> string option" where
  "path_last p = (if p = [] then None else Some (last p))"

definition path_parent :: "path \<Rightarrow> path option" where
  "path_parent p = (if p = [] then None else Some (butlast p))"

definition path_split_last :: "path \<Rightarrow> (path \<times> string) option" where
  "path_split_last p = (if p = [] then None else Some (butlast p, last p))"

definition path_starts_with :: "path \<Rightarrow> path \<Rightarrow> bool" where
  "path_starts_with p prefix = starts_with p prefix"

text \<open>The loop of \<open>Path::parse\<close>: tokens until the end of the input.\<close>

function path_parse_loop :: "lexer \<Rightarrow> path_error + path" where
  "path_parse_loop l =
     (case next_token l of
        Inl e \<Rightarrow> Inl (PathLex e)
      | Inr (None, l') \<Rightarrow> Inr []
      | Inr (Some sp, l') \<Rightarrow>
          (case sp_token sp of
             TokValue v \<Rightarrow> bind_result (path_parse_loop l') (\<lambda>segs. Inr (v # segs))
           | TokOpen \<Rightarrow> Inl (PathBrace (sp_pos sp) (CHR ''{''))
           | TokClose \<Rightarrow> Inl (PathBrace (sp_pos sp) (CHR ''}''))
           | TokComment c \<Rightarrow> Inl (PathComment (sp_pos sp))))"
  by pat_completeness auto
termination
  by (relation "measure (\<lambda>l. length (rest l))") (auto dest: next_token_shrinks)

declare path_parse_loop.simps [simp del]

definition path_parse :: "string \<Rightarrow> path_error + path" where
  "path_parse s = path_parse_loop (lexer_new s)"

definition show_path :: "path \<Rightarrow> string" where
  "show_path p = join '' '' (map quote p)"

section \<open>Reading a displayed path back\<close>

lemma path_parse_loop_at:
  assumes "at_text l (ws @ show_path p) n" and "list_all is_whitespace ws"
  shows "path_parse_loop l = Inr p"
  using assms
proof (induction p arbitrary: l ws n)
  case Nil
  then obtain l' where "next_token l = Inr (None, l')"
    using next_token_end_at [of l ws n] by (auto simp: show_path_def)
  then show ?case by (simp add: path_parse_loop.simps [of l])
next
  case (Cons v p)
  let ?r = "if p = [] then [] else '' '' @ show_path p"
  have "at_text l (ws @ quote v @ ?r) n"
    using Cons.prems by (cases p) (auto simp: show_path_def)
  moreover have "stops_word ?r" by simp
  ultimately obtain l' q where
    nt: "next_token l = Inr (Some \<lparr>sp_token = TokValue v, sp_pos = q\<rparr>, l')"
    and at: "at_text l' ?r (n + newlines ws)"
    using next_token_value_at Cons.prems(2) by metis
  have "at_text l' ((if p = [] then [] else '' '') @ show_path p) (n + newlines ws)"
    using at by (cases p) (auto simp: show_path_def)
  then have "path_parse_loop l' = Inr p"
    by (rule Cons.IH) simp
  then show ?case using nt by (simp add: path_parse_loop.simps [of l])
qed

text \<open>
  A path displayed by the program and typed back is the same path, whatever its segments
  hold: spaces, quotes, braces, control characters, or nothing at all.
\<close>

lemma path_display_roundtrip: "path_parse (show_path p) = Inr p"
  unfolding path_parse_def
  by (rule path_parse_loop_at [of _ "[]" _ 1]) (simp_all add: at_text_def lexer_new_def)

end
