(* ===== verification/Config_Tree.thy ===== *)
theory Config_Tree
  imports Ordered_Map Cfg_Path
begin

text \<open>
  \<open>src/nightshade-schema/src/config.rs\<close>: the configuration tree. A node is interior
  (\<open>BTreeMap\<close> of children) or a set of values (\<open>BTreeSet\<close>), and may carry a comment.

  A method taking \<open>&mut self\<close> and returning a \<open>Result\<close> is a function to the new tree and
  the result, so that what a failing call leaves behind is visible; \<open>&mut Node\<close> results
  become the write they are used for. \<open>tree_ok\<close> is the representation invariant: every map
  and set of the tree is in order, and the root is interior.
\<close>

section \<open>Nodes and trees\<close>

datatype tree_error =
    NotInterior path path
  | NotAContainer path
  | NotALeaf path

fun show_tree_error :: "tree_error \<Rightarrow> string" where
  "show_tree_error (NotInterior p full) =
     ''`'' @ show_path p @ ''` holds a value, so `'' @ show_path full @ ''` cannot exist below it''"
| "show_tree_error (NotAContainer p) =
     ''`'' @ show_path p @ ''` holds a value, so it cannot also have child nodes''"
| "show_tree_error (NotALeaf p) =
     ''`'' @ show_path p @ ''` has child nodes, so it cannot hold a value''"

datatype body = Interior "(string \<times> node) list" | Values "string list"
  and node = Node (n_comment: "string option") (n_body: body)

type_synonym kids = "(string \<times> node) list"

definition node_interior :: node where
  "node_interior = Node None (Interior [])"

definition node_values :: "string list \<Rightarrow> node" where
  "node_values vs = Node None (Values (bs_from vs))"

definition node_flag :: node where
  "node_flag = node_values []"

definition with_comment :: "string \<Rightarrow> node \<Rightarrow> node" where
  "with_comment c n = Node (Some c) (n_body n)"

fun node_children :: "node \<Rightarrow> kids option" where
  "node_children (Node c (Interior m)) = Some m"
| "node_children (Node c (Values vs)) = None"

fun node_value_set :: "node \<Rightarrow> string list option" where
  "node_value_set (Node c (Interior m)) = None"
| "node_value_set (Node c (Values vs)) = Some vs"

definition node_value :: "node \<Rightarrow> string option" where
  "node_value n =
     (case node_value_set n of
        None \<Rightarrow> None
      | Some vs \<Rightarrow> (case vs of [v] \<Rightarrow> Some v | _ \<Rightarrow> None))"

fun is_interior :: "node \<Rightarrow> bool" where
  "is_interior (Node c (Interior m)) = True"
| "is_interior (Node c (Values vs)) = False"

record config_tree =
  root :: node

definition tree_new :: config_tree where
  "tree_new = \<lparr>root = node_interior\<rparr>"

definition from_children :: "kids \<Rightarrow> config_tree" where
  "from_children m = \<lparr>root = Node None (Interior m)\<rparr>"

definition tree_is_empty :: "config_tree \<Rightarrow> bool" where
  "tree_is_empty t = (node_children (root t) = Some [])"

section \<open>Reading\<close>

fun node_get :: "path \<Rightarrow> node \<Rightarrow> node option" where
  "node_get [] n = Some n"
| "node_get (s # ss) (Node c (Interior m)) =
     (case bm_get m s of None \<Rightarrow> None | Some n \<Rightarrow> node_get ss n)"
| "node_get (s # ss) (Node c (Values vs)) = None"

definition tree_get :: "path \<Rightarrow> config_tree \<Rightarrow> node option" where
  "tree_get p t = node_get p (root t)"

definition tree_contains :: "path \<Rightarrow> config_tree \<Rightarrow> bool" where
  "tree_contains p t = (tree_get p t \<noteq> None)"

definition values_at :: "path \<Rightarrow> config_tree \<Rightarrow> string list option" where
  "values_at p t = Option.bind (tree_get p t) node_value_set"

section \<open>Writing\<close>

text \<open>
  \<open>get_mut\<close> and the write made through it: \<open>node_put\<close> replaces the node an existing path
  names.
\<close>

fun node_put :: "path \<Rightarrow> node \<Rightarrow> node \<Rightarrow> node" where
  "node_put [] x n = x"
| "node_put (s # ss) x (Node c (Interior m)) =
     Node c (Interior (case bm_get m s of None \<Rightarrow> m | Some n \<Rightarrow> bm_insert s (node_put ss x n) m))"
| "node_put (s # ss) x (Node c (Values vs)) = Node c (Values vs)"

definition tree_modify :: "path \<Rightarrow> (node \<Rightarrow> node) \<Rightarrow> config_tree \<Rightarrow> config_tree option" where
  "tree_modify p f t =
     (case tree_get p t of
        None \<Rightarrow> None
      | Some n \<Rightarrow> Some \<lparr>root = node_put p (f n) (root t)\<rparr>)"

text \<open>
  \<open>parent_of\<close>: walk the segments \<open>ps\<close> creating interior nodes on the way, and run the
  caller's access \<open>k\<close> on the map of children found there. \<open>seen\<close> is the part walked so far,
  for the error.
\<close>

fun parent_upd ::
  "path \<Rightarrow> path \<Rightarrow> path \<Rightarrow> (kids \<Rightarrow> kids \<times> (tree_error + unit)) \<Rightarrow> node
     \<Rightarrow> node \<times> (tree_error + unit)" where
  "parent_upd full seen [] k (Node c (Interior m)) =
     (case k m of (m', r) \<Rightarrow> (Node c (Interior m'), r))"
| "parent_upd full seen (s # ss) k (Node c (Interior m)) =
     (case parent_upd full (seen @ [s]) ss k
             (case bm_get m s of None \<Rightarrow> node_interior | Some n \<Rightarrow> n) of
        (n', r) \<Rightarrow> (Node c (Interior (bm_insert s n' m)), r))"
| "parent_upd full seen ss k (Node c (Values vs)) =
     (Node c (Values vs), Inl (NotInterior seen full))"

definition with_parent ::
  "path \<Rightarrow> (kids \<Rightarrow> kids \<times> (tree_error + unit)) \<Rightarrow> config_tree
     \<Rightarrow> config_tree \<times> (tree_error + unit)" where
  "with_parent p k t =
     (case parent_upd p [] (butlast p) k (root t) of (n, r) \<Rightarrow> (\<lparr>root = n\<rparr>, r))"

definition ensure_interior :: "path \<Rightarrow> config_tree \<Rightarrow> config_tree \<times> (tree_error + unit)" where
  "ensure_interior p t =
     (case path_last p of
        None \<Rightarrow> (t, Inr ())
      | Some name \<Rightarrow>
          with_parent p
            (\<lambda>m. case bm_get m name of
                   None \<Rightarrow> (bm_insert name node_interior m, Inr ())
                 | Some n \<Rightarrow> (m, if is_interior n then Inr () else Inl (NotAContainer p)))
            t)"

definition declare_leaf :: "path \<Rightarrow> config_tree \<Rightarrow> config_tree \<times> (tree_error + unit)" where
  "declare_leaf p t =
     (case path_last p of
        None \<Rightarrow> (t, Inl (NotALeaf p))
      | Some name \<Rightarrow>
          with_parent p
            (\<lambda>m. case bm_get m name of
                   Some n \<Rightarrow> (m, if is_interior n then Inl (NotALeaf p) else Inr ())
                 | None \<Rightarrow> (bm_insert name node_flag m, Inr ()))
            t)"

definition tree_set :: "path \<Rightarrow> string \<Rightarrow> config_tree \<Rightarrow> config_tree \<times> (tree_error + unit)" where
  "tree_set p v t =
     (case path_last p of
        None \<Rightarrow> (t, Inl (NotALeaf p))
      | Some name \<Rightarrow>
          with_parent p
            (\<lambda>m. case bm_get m name of
                   Some n \<Rightarrow>
                     if is_interior n then (m, Inl (NotALeaf p))
                     else (bm_insert name (Node (n_comment n) (Values (bs_from [v]))) m, Inr ())
                 | None \<Rightarrow> (bm_insert name (node_values [v]) m, Inr ()))
            t)"

definition tree_add :: "path \<Rightarrow> string \<Rightarrow> config_tree \<Rightarrow> config_tree \<times> (tree_error + unit)" where
  "tree_add p v t =
     (case path_last p of
        None \<Rightarrow> (t, Inl (NotALeaf p))
      | Some name \<Rightarrow>
          with_parent p
            (\<lambda>m. case bm_get m name of
                   Some n \<Rightarrow>
                     (case n_body n of
                        Values vs \<Rightarrow>
                          (bm_insert name (Node (n_comment n) (Values (bs_insert v vs))) m, Inr ())
                      | Interior ch \<Rightarrow> (m, Inl (NotALeaf p)))
                 | None \<Rightarrow> (bm_insert name (node_values [v]) m, Inr ()))
            t)"

definition set_flag :: "path \<Rightarrow> config_tree \<Rightarrow> config_tree \<times> (tree_error + unit)" where
  "set_flag p t =
     (case path_last p of
        None \<Rightarrow> (t, Inl (NotALeaf p))
      | Some name \<Rightarrow>
          with_parent p
            (\<lambda>m. case bm_get m name of
                   Some n \<Rightarrow>
                     if is_interior n then (m, Inl (NotALeaf p))
                     else (bm_insert name (Node (n_comment n) (Values [])) m, Inr ())
                 | None \<Rightarrow> (bm_insert name node_flag m, Inr ()))
            t)"

definition tree_remove :: "path \<Rightarrow> config_tree \<Rightarrow> config_tree \<times> bool" where
  "tree_remove p t =
     (case path_split_last p of
        None \<Rightarrow> (\<lparr>root = node_interior\<rparr>, True)
      | Some (parent, name) \<Rightarrow>
          (case tree_get parent t of
             None \<Rightarrow> (t, False)
           | Some n \<Rightarrow>
               (case n_body n of
                  Interior m \<Rightarrow>
                    (\<lparr>root = node_put parent (Node (n_comment n) (Interior (bm_remove name m))) (root t)\<rparr>,
                     bm_get m name \<noteq> None)
                | Values vs \<Rightarrow> (t, False))))"

definition tree_remove_value :: "path \<Rightarrow> string \<Rightarrow> config_tree \<Rightarrow> config_tree \<times> bool" where
  "tree_remove_value p v t =
     (case tree_get p t of
        None \<Rightarrow> (t, False)
      | Some n \<Rightarrow>
          (case n_body n of
             Interior m \<Rightarrow> (t, False)
           | Values vs \<Rightarrow>
               if v \<notin> set vs then (t, False)
               else
                 let vs' = bs_remove v vs;
                     t' = \<lparr>root = node_put p (Node (n_comment n) (Values vs')) (root t)\<rparr>
                 in (if vs' = [] then fst (tree_remove p t') else t', True)))"

text \<open>
  The \<open>expect\<close> of \<open>subtree\<close> is \<open>ensure_interior_new\<close> below: \<open>ensure_interior\<close> cannot fail
  on a fresh tree.
\<close>

definition subtree :: "path \<Rightarrow> config_tree \<Rightarrow> config_tree option" where
  "subtree p t =
     (case tree_get p t of
        None \<Rightarrow> None
      | Some n \<Rightarrow>
          (case path_split_last p of
             None \<Rightarrow> Some t
           | Some (parent, name) \<Rightarrow>
               tree_modify parent
                 (\<lambda>pn. case n_body pn of
                         Interior m \<Rightarrow> Node (n_comment pn) (Interior (bm_insert name n m))
                       | Values vs \<Rightarrow> pn)
                 (fst (ensure_interior parent tree_new))))"

definition set_comment :: "path \<Rightarrow> string option \<Rightarrow> config_tree \<Rightarrow> config_tree \<times> bool" where
  "set_comment p c t =
     (case tree_modify p (\<lambda>n. Node c (n_body n)) t of
        Some t' \<Rightarrow> (t', True)
      | None \<Rightarrow> (t, False))"

section \<open>Walking\<close>

fun collect_leaves :: "node \<Rightarrow> path \<Rightarrow> (path \<times> string list) list"
  and collect_leaves_kids :: "kids \<Rightarrow> path \<Rightarrow> (path \<times> string list) list" where
  "collect_leaves (Node c (Values vs)) at = [(at, vs)]"
| "collect_leaves (Node c (Interior m)) at = collect_leaves_kids m at"
| "collect_leaves_kids [] at = []"
| "collect_leaves_kids ((name, n) # m) at =
     collect_leaves n (path_child at name) @ collect_leaves_kids m at"

definition leaves :: "config_tree \<Rightarrow> (path \<times> string list) list" where
  "leaves t = collect_leaves (root t) path_root"

fun collect_nodes :: "node \<Rightarrow> path \<Rightarrow> (path \<times> node) list"
  and collect_nodes_kids :: "kids \<Rightarrow> path \<Rightarrow> (path \<times> node) list" where
  "collect_nodes (Node c (Values vs)) at = []"
| "collect_nodes (Node c (Interior m)) at = collect_nodes_kids m at"
| "collect_nodes_kids [] at = []"
| "collect_nodes_kids ((name, n) # m) at =
     (path_child at name, n) # collect_nodes n (path_child at name) @ collect_nodes_kids m at"

definition nodes :: "config_tree \<Rightarrow> (path \<times> node) list" where
  "nodes t = collect_nodes (root t) path_root"

section \<open>The representation invariant\<close>

fun node_ok :: "node \<Rightarrow> bool" where
  "node_ok (Node c (Values vs)) \<longleftrightarrow> bs_ok vs"
| "node_ok (Node c (Interior m)) \<longleftrightarrow> bm_ok m \<and> list_all (\<lambda>(k, n). node_ok n) m"

definition kids_ok :: "kids \<Rightarrow> bool" where
  "kids_ok m \<longleftrightarrow> bm_ok m \<and> (\<forall>(k, n) \<in> set m. node_ok n)"

definition tree_ok :: "config_tree \<Rightarrow> bool" where
  "tree_ok t \<longleftrightarrow> node_ok (root t) \<and> is_interior (root t)"

end
