(* ===== verification/Config_Laws.thy ===== *)
theory Config_Laws
  imports Config_Tree "HOL-Library.Sublist"
begin

text \<open>
  What the configuration tree promises. \<open>view t\<close> is the abstract configuration: the partial
  map from paths to what the node there holds. Two trees in order with the same view are the
  same tree, and each mutating method is characterised by what it does to the view, exactly:
  the named path, the interior nodes created above it, and nothing else. A method that fails
  leaves the tree as it was.
\<close>

section \<open>The abstract configuration\<close>

datatype kind = KDir | KLeaf "string list"

fun node_kind :: "node \<Rightarrow> kind" where
  "node_kind (Node c (Interior m)) = KDir"
| "node_kind (Node c (Values vs)) = KLeaf vs"

type_synonym aconfig = "path \<Rightarrow> (string option \<times> kind) option"

definition node_view :: "node \<Rightarrow> aconfig" where
  "node_view n p = map_option (\<lambda>x. (n_comment x, node_kind x)) (node_get p n)"

definition view :: "config_tree \<Rightarrow> aconfig" where
  "view t = node_view (root t)"

lemma node_view_Nil: "node_view n [] = Some (n_comment n, node_kind n)"
  by (simp add: node_view_def)

lemma node_view_Cons:
  "node_view (Node c (Interior m)) (s # p) =
     (case bm_get m s of None \<Rightarrow> None | Some x \<Rightarrow> node_view x p)"
  "node_view (Node c (Values vs)) (s # p) = None"
  by (auto simp: node_view_def split: option.splits)

lemma node_get_append:
  "node_get (p @ q) n = Option.bind (node_get p n) (node_get q)"
  by (induction p n rule: node_get.induct) (auto split: option.splits)

lemma node_get_Some_interior:
  "node_get (p @ s # q) n = Some x \<Longrightarrow> \<exists>c m. node_get p n = Some (Node c (Interior m))"
  by (cases "node_get p n")
    (auto simp: node_get_append elim!: node_get.elims split: option.splits)

lemma node_ok_kids: "node_ok (Node c (Interior m)) \<longleftrightarrow> kids_ok m"
  by (auto simp: kids_ok_def list_all_iff)

lemma kids_ok_get: "kids_ok m \<Longrightarrow> bm_get m s = Some n \<Longrightarrow> node_ok n"
  by (auto simp: kids_ok_def dest!: map_of_SomeD)

lemma kids_ok_Nil [simp]: "kids_ok []"
  by (simp add: kids_ok_def)

lemma kids_ok_insert: "kids_ok m \<Longrightarrow> node_ok n \<Longrightarrow> kids_ok (bm_insert s n m)"
  using bm_set_insert [of s n m] by (auto simp: kids_ok_def bm.invar_insert)

lemma kids_ok_remove: "kids_ok m \<Longrightarrow> kids_ok (bm_remove s m)"
  using bm_set_remove [of s m] by (auto simp: kids_ok_def bm.invar_remove)

lemma node_ok_interior [simp]: "node_ok node_interior" "is_interior node_interior"
  "node_ok node_flag" "node_ok (node_values vs)"
  by (simp_all add: node_interior_def node_flag_def node_values_def)

lemma node_get_ok: "node_ok n \<Longrightarrow> node_get p n = Some x \<Longrightarrow> node_ok x"
proof (induction p n rule: node_get.induct)
  case (2 s ss c m)
  then show ?case
    by (auto simp: node_ok_kids simp del: node_ok.simps split: option.splits dest: kids_ok_get)
qed auto

lemma node_view_values: "q \<noteq> [] \<Longrightarrow> node_view (Node c (Values vs)) q = None"
  by (cases q) (auto simp: node_view_Cons)

text \<open>The view determines the tree.\<close>

lemma node_view_inj:
  "node_ok n \<Longrightarrow> node_ok n' \<Longrightarrow> node_view n = node_view n' \<Longrightarrow> n = n'"
proof (induction "size n" arbitrary: n n' rule: less_induct)
  case less
  obtain c b where n: "n = Node c b" by (cases n)
  obtain c' b' where n': "n' = Node c' b'" by (cases n')
  have "(n_comment n, node_kind n) = (n_comment n', node_kind n')"
    using fun_cong [OF less.prems(3), of "[]"] by (simp add: node_view_Nil)
  then have top: "c = c'" "node_kind n = node_kind n'"
    by (auto simp: n n')
  show ?case
  proof (cases b)
    case (Values vs)
    then show ?thesis using top by (cases b') (auto simp: n n')
  next
    case (Interior m)
    then obtain m' where b': "b' = Interior m'" using top by (cases b') (auto simp: n n')
    have ok: "kids_ok m" "kids_ok m'"
      using less.prems(1,2) Interior b' by (auto simp: n n' node_ok_kids simp del: node_ok.simps)
    have "bm_get m = bm_get m'"
    proof
      fix s
      have sub: "node_view n (s # p) = node_view n' (s # p)" for p
        using fun_cong [OF less.prems(3)] by simp
      show "bm_get m s = bm_get m' s"
      proof (cases "bm_get m s")
        case None
        then show ?thesis using sub [of "[]"]
          by (auto simp: n n' Interior b' node_view_Cons node_view_Nil split: option.splits)
      next
        case (Some x)
        then obtain y where y: "bm_get m' s = Some y" using sub [of "[]"]
          by (auto simp: n n' Interior b' node_view_Cons node_view_Nil split: option.splits)
        have "node_view x = node_view y"
          using sub Some y by (auto simp: n n' Interior b' node_view_Cons)
        moreover have "size x < size n"
          using map_of_SomeD [OF Some] size_list_estimation' [of "(s, x)" m "size x" "size_prod (\<lambda>_. 0) size"]
          by (auto simp: n Interior)
        ultimately have "x = y"
          using less.hyps ok Some y kids_ok_get by metis
        then show ?thesis using Some y by simp
      qed
    qed
    then have "m = m'" using ok by (intro bm.extensional) (auto simp: kids_ok_def)
    then show ?thesis using top by (simp add: n n' Interior b')
  qed
qed

lemma view_inj: "tree_ok t \<Longrightarrow> tree_ok t' \<Longrightarrow> view t = view t' \<Longrightarrow> t = t'"
  by (auto simp: tree_ok_def view_def intro: node_view_inj config_tree.equality)

section \<open>Replacing an existing node\<close>

lemma node_put_get:
  "node_get p n = Some y \<Longrightarrow> node_get p (node_put p x n) = Some x"
  by (induction p x n rule: node_put.induct) (auto split: option.splits simp: bm.get_insert)

lemma node_put_same: "node_ok n \<Longrightarrow> node_get p n = Some x \<Longrightarrow> node_put p x n = n"
proof (induction p x n rule: node_put.induct)
  case (2 s ss x c m)
  then obtain y where y: "bm_get m s = Some y" "node_get ss y = Some x"
    by (auto split: option.splits)
  have "kids_ok m" using "2.prems" by (simp add: node_ok_kids del: node_ok.simps)
  then have "node_put ss x y = y" "bm_ok m"
    using "2.IH" [OF y(1)] y kids_ok_get by (auto simp: kids_ok_def)
  then show ?case using y by (simp add: bm.insert_get)
qed auto

lemma node_put_ok: "node_ok n \<Longrightarrow> node_ok x \<Longrightarrow> node_ok (node_put p x n)"
proof (induction p x n rule: node_put.induct)
  case (2 s ss x c m)
  have "kids_ok m" using "2.prems" by (simp add: node_ok_kids del: node_ok.simps)
  then show ?case
    using "2.IH" "2.prems"
    by (auto simp: node_ok_kids simp del: node_ok.simps split: option.splits
        intro: kids_ok_insert dest: kids_ok_get)
qed auto

lemma node_put_frame:
  "\<not> prefix p q \<Longrightarrow> node_view (node_put p x n) q = node_view n q"
proof (induction p x n arbitrary: q rule: node_put.induct)
  case (2 s ss x c m)
  then show ?case
    by (cases q) (auto simp: node_view_Nil node_view_Cons bm.get_insert split: option.splits)
qed auto

lemma node_put_below:
  "node_get p n \<noteq> None \<Longrightarrow> node_get (p @ q) (node_put p x n) = node_get q x"
  by (auto simp: node_get_append node_put_get)

lemma is_interior_node_put: "is_interior n \<Longrightarrow> p \<noteq> [] \<or> is_interior x \<Longrightarrow> is_interior (node_put p x n)"
  by (induction p x n rule: node_put.induct) auto

section \<open>Walking to the parent\<close>

text \<open>The map \<open>parent_of\<close> hands its caller, or \<open>None\<close> when a leaf is in the way.\<close>

fun kids_at :: "path \<Rightarrow> node \<Rightarrow> kids option" where
  "kids_at [] (Node c (Interior m)) = Some m"
| "kids_at (s # ss) (Node c (Interior m)) =
     (case bm_get m s of None \<Rightarrow> Some [] | Some n \<Rightarrow> kids_at ss n)"
| "kids_at ss (Node c (Values vs)) = None"

lemma kids_at_interior: "kids_at ss node_interior = Some []"
  by (cases ss) (auto simp: node_interior_def)

lemma kids_at_existing: "node_get ss n = Some (Node c (Interior m)) \<Longrightarrow> kids_at ss n = Some m"
proof (induction ss n rule: kids_at.induct)
  case (3 ss c vs)
  then show ?case by (cases ss) auto
qed (auto split: option.splits)

lemma kids_at_nonempty:
  "kids_at ss n = Some m \<Longrightarrow> m \<noteq> [] \<Longrightarrow> \<exists>c. node_get ss n = Some (Node c (Interior m))"
  by (induction ss n rule: kids_at.induct) (auto split: option.splits)

lemma kids_at_absent:
  "kids_at ss n = Some m \<Longrightarrow> node_get ss n = None \<Longrightarrow> m = []"
  using kids_at_nonempty by fastforce

lemma kids_at_get:
  "kids_at ss n = Some m \<Longrightarrow> node_get (ss @ s # q) n = Option.bind (bm_get m s) (node_get q)"
proof (induction ss n rule: kids_at.induct)
  case (1 c m)
  then show ?case by (auto split: option.splits)
next
  case (2 s ss c m)
  then show ?case by (auto split: option.splits)
qed auto

lemma kids_at_ok: "node_ok n \<Longrightarrow> kids_at ss n = Some m \<Longrightarrow> kids_ok m"
proof (induction ss n rule: kids_at.induct)
  case (2 s ss c m')
  then show ?case
    by (auto simp: node_ok_kids simp del: node_ok.simps split: option.splits dest: kids_ok_get)
qed (auto simp: node_ok_kids simp del: node_ok.simps)

lemma parent_upd_blocked:
  "node_ok n \<Longrightarrow> kids_at ss n = None \<Longrightarrow>
   \<exists>q. parent_upd full seen ss k n = (n, Inl (NotInterior (seen @ q) full)) \<and> prefix q ss"
proof (induction full seen ss k n rule: parent_upd.induct)
  case (2 full seen s ss k c m)
  then obtain x where x: "bm_get m s = Some x" "kids_at ss x = None"
    by (auto split: option.splits)
  have "kids_ok m" using "2.prems" by (simp add: node_ok_kids del: node_ok.simps)
  then have "bm_insert s x m = m" "node_ok x"
    using x kids_ok_get by (auto simp: kids_ok_def bm.insert_get)
  moreover obtain q where
    "parent_upd full (seen @ [s]) ss k x = (x, Inl (NotInterior ((seen @ [s]) @ q) full))"
    "prefix q ss"
    using "2.IH" x calculation(2) by auto
  ultimately show ?case using x by (intro exI [of _ "s # q"]) simp
next
  case (3 full seen ss k c vs)
  then show ?case by (intro exI [of _ "[]"]) (cases ss, auto)
qed auto

lemma parent_upd_run:
  "kids_at ss n = Some m \<Longrightarrow> k m = (m', r) \<Longrightarrow>
   \<exists>n' c. parent_upd full seen ss k n = (n', r) \<and> node_get ss n' = Some (Node c (Interior m'))"
proof (induction full seen ss k n rule: parent_upd.induct)
  case (2 full seen s ss k c x)
  let ?y = "case bm_get x s of None \<Rightarrow> node_interior | Some n \<Rightarrow> n"
  have "kids_at ss ?y = Some m"
    using "2.prems" by (auto simp: kids_at_interior split: option.splits)
  from "2.IH" [OF this "2.prems"(2)] show ?case by (auto simp: bm.get_insert)
qed auto

lemma parent_upd_ok:
  "node_ok n \<Longrightarrow> kids_at ss n = Some m \<Longrightarrow> k m = (m', r) \<Longrightarrow> kids_ok m' \<Longrightarrow>
   parent_upd full seen ss k n = (n', r') \<Longrightarrow> node_ok n' \<and> (is_interior n')"
proof (induction full seen ss k n arbitrary: n' r' rule: parent_upd.induct)
  case (1 full seen k c m)
  then show ?case by (auto simp: node_ok_kids simp del: node_ok.simps)
next
  case (2 full seen s ss k c x)
  let ?y = "case bm_get x s of None \<Rightarrow> node_interior | Some n \<Rightarrow> n"
  obtain y' r'' where y': "parent_upd full (seen @ [s]) ss k ?y = (y', r'')" by force
  have ok: "kids_ok x" using "2.prems" by (simp add: node_ok_kids del: node_ok.simps)
  have "node_ok ?y" using ok by (auto split: option.splits dest: kids_ok_get)
  moreover have "kids_at ss ?y = Some m"
    using "2.prems" by (auto simp: kids_at_interior split: option.splits)
  ultimately have "node_ok y'" using "2.IH" "2.prems"(3,4) y' by blast
  then have "kids_ok (bm_insert s y' x)" using ok by (rule kids_ok_insert [rotated])
  moreover have "n' = Node c (Interior (bm_insert s y' x))" using "2.prems"(5) y' by simp
  ultimately show ?case by (simp add: node_ok_kids del: node_ok.simps)
qed auto

text \<open>Off the walked path nothing changes, and on it only missing nodes appear.\<close>

definition created :: "path \<Rightarrow> aconfig \<Rightarrow> aconfig" where
  "created p a q = (if strict_prefix q p \<and> a q = None then Some (None, KDir) else a q)"

lemma strict_prefix_Nil_iff [simp]: "strict_prefix [] p \<longleftrightarrow> p \<noteq> []"
  by (auto simp: strict_prefix_def)

lemma node_view_interior: "node_view node_interior q = (if q = [] then Some (None, KDir) else None)"
  by (cases q) (auto simp: node_interior_def node_view_Nil node_view_Cons)

lemma parent_upd_frame:
  "kids_at ss n = Some m \<Longrightarrow> k m = (m', r) \<Longrightarrow> parent_upd full seen ss k n = (n', r') \<Longrightarrow>
   \<not> strict_prefix ss q \<Longrightarrow> node_view n' q = created (ss @ [name]) (node_view n) q"
proof (induction full seen ss k n arbitrary: n' r' q rule: parent_upd.induct)
  case (1 full seen k c m)
  then have "q = []" by (auto simp: strict_prefix_def)
  then show ?case using 1 by (auto simp: node_view_Nil created_def)
next
  case (2 full seen s ss k c x)
  let ?y = "case bm_get x s of None \<Rightarrow> node_interior | Some n \<Rightarrow> n"
  obtain y' r'' where y': "parent_upd full (seen @ [s]) ss k ?y = (y', r'')" by force
  have n': "n' = Node c (Interior (bm_insert s y' x))" using "2.prems"(3) y' by simp
  have at: "kids_at ss ?y = Some m"
    using "2.prems" by (auto simp: kids_at_interior split: option.splits)
  show ?case
  proof (cases q)
    case Nil
    then show ?thesis by (auto simp: n' node_view_Nil created_def)
  next
    case (Cons a q')
    show ?thesis
    proof (cases "a = s")
      case True
      then have "\<not> strict_prefix ss q'" using "2.prems"(4) Cons by simp
      from "2.IH" [OF at "2.prems"(2) y' this]
      have "node_view y' q' = created (ss @ [name]) (node_view ?y) q'" .
      then show ?thesis
        by (auto simp: n' Cons True node_view_Cons bm.get_insert created_def
            node_view_interior split: option.splits)
    next
      case False
      then show ?thesis
        by (auto simp: n' Cons node_view_Cons bm.get_insert created_def split: option.splits)
    qed
  qed
qed auto

section \<open>The methods on the view\<close>

lemma path_snoc_cases: "path_last p = Some s \<longleftrightarrow> p \<noteq> [] \<and> p = butlast p @ [s]"
  by (cases p rule: rev_cases) (auto simp: path_last_def)

lemma strict_prefix_snoc: "strict_prefix q (p @ [s]) \<longleftrightarrow> prefix q p"
  by (auto simp: strict_prefix_def dest: prefix_length_le)

text \<open>The effect of writing one node: \<open>p\<close> holds \<open>x\<close>, and missing ancestors are created.\<close>

definition written :: "path \<Rightarrow> string option \<times> kind \<Rightarrow> aconfig \<Rightarrow> aconfig" where
  "written p x a = (created p a)(p := Some x)"

text \<open>
  One lemma for all five creating methods: an access \<open>k\<close> that, on the map found at the
  parent, sets the entry \<open>s\<close> to a node \<open>x\<close> with nothing above or below it in conflict.
\<close>

lemma with_parent_write:
  assumes ok: "tree_ok t" and at: "kids_at p (root t) = Some m"
    and k: "k m = (m', Inr ())" and m': "kids_ok m'" "bm_get m' = (bm_get m)(s := Some x)"
    and same: "\<And>q. q \<noteq> [] \<Longrightarrow> node_view x q = view t (p @ s # q)"
  shows "\<exists>t'. with_parent (p @ [s]) k t = (t', Inr ()) \<and> tree_ok t' \<and>
     view t' = written (p @ [s]) (n_comment x, node_kind x) (view t)"
proof -
  obtain n' c where n': "parent_upd (p @ [s]) [] p k (root t) = (n', Inr ())"
    "node_get p n' = Some (Node c (Interior m'))"
    using parent_upd_run [where k = k, OF at k] by blast
  have ok': "node_ok n'" "is_interior n'"
    using parent_upd_ok [where k = k, OF _ at k m'(1) n'(1)] ok by (auto simp: tree_ok_def)
  have "node_view n' q = written (p @ [s]) (n_comment x, node_kind x) (view t) q" for q
  proof (cases "strict_prefix p q")
    case False
    then have "q \<noteq> p @ [s]" by (auto simp: strict_prefix_def)
    then show ?thesis
      using parent_upd_frame [where k = k, OF at k n'(1) False, of s] by (simp add: written_def view_def)
  next
    case True
    then obtain a q' where q: "q = p @ a # q'"
      by (metis append_Nil2 neq_Nil_conv prefix_def strict_prefixE)
    have below: "node_view n' q = (case bm_get m' a of None \<Rightarrow> None | Some y \<Rightarrow> node_view y q')"
      by (simp add: node_view_def q node_get_append n'(2) split: option.splits)
    have above: "view t q = (case bm_get m a of None \<Rightarrow> None | Some y \<Rightarrow> node_view y q')"
      by (simp add: view_def node_view_def q kids_at_get [OF at] split: option.splits)
    have np: "\<not> strict_prefix q (p @ [s])" by (auto simp: strict_prefix_snoc q)
    show ?thesis
    proof (cases "a = s")
      case True
      then show ?thesis
        using below same [of q'] np
        by (cases "q' = []") (auto simp: m' q written_def created_def node_view_Nil)
    next
      case False
      then show ?thesis using below above np by (auto simp: m' q written_def created_def)
    qed
  qed
  then show ?thesis using n' ok' by (auto simp: with_parent_def tree_ok_def view_def)
qed

text \<open>An access that changes nothing leaves the tree alone, if it found anything to look at.\<close>

lemma with_parent_read:
  assumes ok: "tree_ok t" and at: "node_get p (root t) = Some (Node c (Interior m))"
    and k: "k m = (m, r)"
  shows "with_parent (p @ [s]) k t = (t, r)"
proof -
  have "parent_upd full seen p k n = (n, r)"
    if "node_ok n" "node_get p n = Some (Node c (Interior m))" for full seen n
    using that k
  proof (induction full seen p k n rule: parent_upd.induct)
    case (2 full seen a ss k c' x)
    then obtain y where y: "bm_get x a = Some y" "node_get ss y = Some (Node c (Interior m))"
      by (auto split: option.splits)
    have "kids_ok x" using "2.prems" by (simp add: node_ok_kids del: node_ok.simps)
    then have "bm_insert a y x = x" "node_ok y"
      using y kids_ok_get by (auto simp: kids_ok_def bm.insert_get)
    then show ?case using "2.IH" "2.prems" y by auto
  next
    case (3 full seen ss k c' vs)
    then show ?case by (cases ss) auto
  qed auto
  then show ?thesis using at ok by (simp add: with_parent_def tree_ok_def)
qed

lemma with_parent_blocked:
  assumes "tree_ok t" and "kids_at p (root t) = None"
  shows "\<exists>q. with_parent (p @ [s]) k t = (t, Inl (NotInterior q (p @ [s]))) \<and> prefix q p"
  using parent_upd_blocked [of "root t" p "p @ [s]" "[]" k] assms
  by (auto simp: with_parent_def tree_ok_def)

text \<open>A leaf in the way, in terms of the view.\<close>

definition is_leaf_at :: "aconfig \<Rightarrow> path \<Rightarrow> bool" where
  "is_leaf_at a q \<longleftrightarrow> (\<exists>c vs. a q = Some (c, KLeaf vs))"

definition is_dir_at :: "aconfig \<Rightarrow> path \<Rightarrow> bool" where
  "is_dir_at a q \<longleftrightarrow> (\<exists>c. a q = Some (c, KDir))"

lemma kids_at_None: "kids_at ss n = None \<longleftrightarrow> (\<exists>q. prefix q ss \<and> is_leaf_at (node_view n) q)"
proof (induction ss n rule: kids_at.induct)
  case (2 s ss c m)
  have "(\<exists>q. prefix q (s # ss) \<and> is_leaf_at (node_view (Node c (Interior m))) q) \<longleftrightarrow>
        (\<exists>q. prefix q ss \<and> is_leaf_at (node_view (Node c (Interior m))) (s # q))"
    by (auto simp: prefix_Cons is_leaf_at_def node_view_Nil)
  also have "\<dots> \<longleftrightarrow> kids_at (s # ss) (Node c (Interior m)) = None"
    using 2 by (auto simp: is_leaf_at_def node_view_Cons split: option.splits)
  finally show ?case by simp
qed (auto simp: is_leaf_at_def node_view_Nil intro: exI [of _ "[]"])

definition leaf_place :: "path \<Rightarrow> aconfig \<Rightarrow> bool" where
  "leaf_place p a \<longleftrightarrow> p \<noteq> [] \<and> (\<forall>q. strict_prefix q p \<longrightarrow> \<not> is_leaf_at a q) \<and> \<not> is_dir_at a p"

definition old_comment :: "path \<Rightarrow> aconfig \<Rightarrow> string option" where
  "old_comment p a = (case a p of None \<Rightarrow> None | Some (c, k) \<Rightarrow> c)"

definition old_values :: "path \<Rightarrow> aconfig \<Rightarrow> string list" where
  "old_values p a = (case a p of Some (c, KLeaf vs) \<Rightarrow> vs | _ \<Rightarrow> [])"

text \<open>The common shape of the four methods that write a leaf.\<close>

definition leaf_access :: "path \<Rightarrow> string \<Rightarrow> (string list \<Rightarrow> string list) \<Rightarrow> kids \<Rightarrow> kids \<times> (tree_error + unit)" where
  "leaf_access p name g m =
     (case bm_get m name of
        None \<Rightarrow> (bm_insert name (Node None (Values (g []))) m, Inr ())
      | Some (Node c (Values vs)) \<Rightarrow> (bm_insert name (Node c (Values (g vs))) m, Inr ())
      | Some (Node c (Interior ch)) \<Rightarrow> (m, Inl (NotALeaf p)))"

lemma with_parent_cong:
  assumes "tree_ok t" and "\<And>m. kids_ok m \<Longrightarrow> k m = k' m"
  shows "with_parent p k t = with_parent p k' t"
proof -
  have "parent_upd full seen ss k n = parent_upd full seen ss k' n" if "node_ok n" for full seen ss n
    using that assms(2)
  proof (induction full seen ss k n rule: parent_upd.induct)
    case (1 full seen k c m)
    then show ?case by (simp add: node_ok_kids del: node_ok.simps)
  next
    case (2 full seen s ss k c m)
    have "kids_ok m" using "2.prems" by (simp add: node_ok_kids del: node_ok.simps)
    then have "node_ok (case bm_get m s of None \<Rightarrow> node_interior | Some n \<Rightarrow> n)"
      by (auto split: option.splits dest: kids_ok_get)
    with 2 show ?case by simp
  qed auto
  then show ?thesis using assms(1) by (simp add: with_parent_def tree_ok_def)
qed

lemma leaf_write:
  assumes ok: "tree_ok t" and g: "\<And>vs. bs_ok vs \<Longrightarrow> bs_ok (g vs)"
  defines "a \<equiv> view t"
  shows "case with_parent (p @ [s]) (leaf_access (p @ [s]) s g) t of (t', r) \<Rightarrow> tree_ok t' \<and>
    (case r of
       Inl e \<Rightarrow> t' = t \<and> \<not> leaf_place (p @ [s]) a
     | Inr u \<Rightarrow> leaf_place (p @ [s]) a \<and>
         view t' = written (p @ [s]) (old_comment (p @ [s]) a, KLeaf (g (old_values (p @ [s]) a))) a)"
proof (cases "kids_at p (root t)")
  case None
  then obtain q where "prefix q p" "is_leaf_at a q"
    by (auto simp: kids_at_None a_def view_def)
  then have "\<not> leaf_place (p @ [s]) a" by (auto simp: leaf_place_def strict_prefix_snoc)
  then show ?thesis
    using with_parent_blocked [OF ok None, of s "leaf_access (p @ [s]) s g"] ok by auto
next
  case (Some m)
  have free: "\<And>q. strict_prefix q (p @ [s]) \<Longrightarrow> \<not> is_leaf_at a q"
    using kids_at_None [of p "root t"] Some by (auto simp: strict_prefix_snoc a_def view_def)
  have aq: "a (p @ s # q) = Option.bind (bm_get m s) (\<lambda>n. node_view n q)" for q
    by (cases "bm_get m s") (auto simp: a_def view_def node_view_def kids_at_get [OF Some])
  have mok: "kids_ok m" using kids_at_ok Some ok by (auto simp: tree_ok_def)
  consider (absent) "bm_get m s = None"
    | (leaf) c vs where "bm_get m s = Some (Node c (Values vs))"
    | (dir) c ch where "bm_get m s = Some (Node c (Interior ch))"
    by (metis body.exhaust node.exhaust option.exhaust)
  then show ?thesis
  proof cases
    case dir
    then have "leaf_access (p @ [s]) s g m = (m, Inl (NotALeaf (p @ [s])))"
      by (simp add: leaf_access_def)
    moreover obtain c' where "node_get p (root t) = Some (Node c' (Interior m))"
      using kids_at_nonempty [OF Some] dir by (cases "m = []") auto
    moreover have "\<not> leaf_place (p @ [s]) a"
      using aq [of "[]"] dir by (auto simp: leaf_place_def is_dir_at_def node_view_Nil)
    ultimately show ?thesis using with_parent_read [OF ok] ok by simp
  next
    case absent
    let ?x = "Node None (Values (g []))"
    have run: "leaf_access (p @ [s]) s g m = (bm_insert s ?x m, Inr ())"
      using absent by (simp add: leaf_access_def)
    have "kids_ok (bm_insert s ?x m)" using mok g [of "[]"] by (simp add: kids_ok_insert)
    from with_parent_write [where k = "leaf_access (p @ [s]) s g", OF ok Some run this bm.get_insert]
    obtain t' where "with_parent (p @ [s]) (leaf_access (p @ [s]) s g) t = (t', Inr ())"
      "tree_ok t'" "view t' = written (p @ [s]) (None, KLeaf (g [])) a"
      using aq absent by (auto simp: node_view_values a_def)
    then show ?thesis
      using aq [of "[]"] absent free
      by (auto simp: leaf_place_def is_dir_at_def old_comment_def old_values_def)
  next
    case leaf
    let ?x = "Node c (Values (g vs))"
    have run: "leaf_access (p @ [s]) s g m = (bm_insert s ?x m, Inr ())"
      using leaf by (simp add: leaf_access_def)
    have "bs_ok vs" using kids_ok_get [OF mok leaf] by simp
    then have "kids_ok (bm_insert s ?x m)" using mok g [of vs] by (simp add: kids_ok_insert)
    from with_parent_write [where k = "leaf_access (p @ [s]) s g", OF ok Some run this bm.get_insert]
    obtain t' where "with_parent (p @ [s]) (leaf_access (p @ [s]) s g) t = (t', Inr ())"
      "tree_ok t'" "view t' = written (p @ [s]) (c, KLeaf (g vs)) a"
      using aq leaf by (auto simp: node_view_values a_def)
    then show ?thesis
      using aq [of "[]"] leaf free
      by (auto simp: leaf_place_def is_dir_at_def old_comment_def old_values_def node_view_Nil)
  qed
qed

text \<open>Each of the four is \<open>leaf_access\<close> with its own update of the value set.\<close>

lemma path_last_snoc [simp]: "path_last (p @ [s]) = Some s" "path_last [] = None"
  by (simp_all add: path_last_def)

lemma bs_from_single [simp]: "bs_from [v] = [v]" "bs_from [] = []"
  by (simp_all add: bs_from_def)

lemma leaf_access_split:
  "P (case n of Some x \<Rightarrow> f (x :: node) | None \<Rightarrow> d) \<longleftrightarrow>
   (n = None \<longrightarrow> P d) \<and> (\<forall>c vs. n = Some (Node c (Values vs)) \<longrightarrow> P (f (Node c (Values vs)))) \<and>
   (\<forall>c m. n = Some (Node c (Interior m)) \<longrightarrow> P (f (Node c (Interior m))))"
  by (cases n) (auto, metis body.exhaust node.exhaust)

lemma tree_set_access:
  "tree_ok t \<Longrightarrow> tree_set (p @ [s]) v t = with_parent (p @ [s]) (leaf_access (p @ [s]) s (\<lambda>_. [v])) t"
  unfolding tree_set_def path_last_snoc option.case
  by (rule with_parent_cong)
    (auto simp: leaf_access_def node_values_def split: leaf_access_split)

lemma tree_add_access:
  "tree_ok t \<Longrightarrow> tree_add (p @ [s]) v t = with_parent (p @ [s]) (leaf_access (p @ [s]) s (bs_insert v)) t"
  unfolding tree_add_def path_last_snoc option.case
  by (rule with_parent_cong)
    (auto simp: leaf_access_def node_values_def split: leaf_access_split)

lemma set_flag_access:
  "tree_ok t \<Longrightarrow> set_flag (p @ [s]) t = with_parent (p @ [s]) (leaf_access (p @ [s]) s (\<lambda>_. [])) t"
  unfolding set_flag_def path_last_snoc option.case
  by (rule with_parent_cong)
    (auto simp: leaf_access_def node_flag_def node_values_def split: leaf_access_split)

lemma declare_leaf_access:
  "tree_ok t \<Longrightarrow> declare_leaf (p @ [s]) t = with_parent (p @ [s]) (leaf_access (p @ [s]) s (\<lambda>vs. vs)) t"
  unfolding declare_leaf_def path_last_snoc option.case
  by (rule with_parent_cong)
    (auto simp: leaf_access_def node_flag_def node_values_def kids_ok_def bm.insert_get
      split: leaf_access_split)

text \<open>
  \<open>leaf_result g\<close>: the method refused because \<open>p\<close> cannot hold a value and changed nothing,
  or it wrote exactly the new value set at \<open>p\<close>.
\<close>

definition leaf_result ::
  "(string list \<Rightarrow> string list) \<Rightarrow> path \<Rightarrow> config_tree \<Rightarrow> config_tree \<times> (tree_error + unit) \<Rightarrow> bool" where
  "leaf_result g p t res \<longleftrightarrow>
     (case res of
        (t', Inl e) \<Rightarrow> t' = t \<and> \<not> leaf_place p (view t)
      | (t', Inr u) \<Rightarrow> leaf_place p (view t) \<and> tree_ok t' \<and>
          view t' = written p (old_comment p (view t), KLeaf (g (old_values p (view t)))) (view t))"

lemma leaf_result_write:
  "tree_ok t \<Longrightarrow> (\<And>vs. bs_ok vs \<Longrightarrow> bs_ok (g vs)) \<Longrightarrow>
   leaf_result g (p @ [s]) t (with_parent (p @ [s]) (leaf_access (p @ [s]) s g) t)"
  using leaf_write [of t g p s] by (auto simp: leaf_result_def split: sum.splits)

lemma leaf_result_root: "leaf_result g [] t (t, Inl (NotALeaf []))"
  by (simp add: leaf_result_def leaf_place_def)

lemma tree_set_result: "tree_ok t \<Longrightarrow> leaf_result (\<lambda>_. [v]) p t (tree_set p v t)"
  by (cases p rule: rev_cases)
    (auto simp: leaf_result_root tree_set_def [of "[]"] tree_set_access leaf_result_write)

lemma tree_add_result: "tree_ok t \<Longrightarrow> leaf_result (bs_insert v) p t (tree_add p v t)"
  by (cases p rule: rev_cases)
    (auto simp: leaf_result_root tree_add_def [of "[]"] tree_add_access leaf_result_write)

lemma set_flag_result: "tree_ok t \<Longrightarrow> leaf_result (\<lambda>_. []) p t (set_flag p t)"
  by (cases p rule: rev_cases)
    (auto simp: leaf_result_root set_flag_def [of "[]"] set_flag_access leaf_result_write)

lemma declare_leaf_result: "tree_ok t \<Longrightarrow> leaf_result (\<lambda>vs. vs) p t (declare_leaf p t)"
  by (cases p rule: rev_cases)
    (auto simp: leaf_result_root declare_leaf_def [of "[]"] declare_leaf_access leaf_result_write)

section \<open>Containers, removal and subtrees\<close>

lemma view_root_dir: "tree_ok t \<Longrightarrow> is_dir_at (view t) []"
  by (cases "root t" rule: is_interior.cases) (auto simp: tree_ok_def view_def node_view_Nil is_dir_at_def)

lemma tree_new_ok [simp]: "tree_ok tree_new"
  by (simp add: tree_ok_def tree_new_def)

lemma view_tree_new: "view tree_new = (\<lambda>q. if q = [] then Some (None, KDir) else None)"
  by (simp add: view_def tree_new_def node_view_interior fun_eq_iff)

lemma ensure_interior_result:
  assumes ok: "tree_ok t"
  shows "case ensure_interior p t of
      (t', Inl e) \<Rightarrow> t' = t \<and> (\<exists>q. prefix q p \<and> is_leaf_at (view t) q)
    | (t', Inr u) \<Rightarrow> (\<forall>q. prefix q p \<longrightarrow> \<not> is_leaf_at (view t) q) \<and> tree_ok t' \<and>
        view t' = (if view t p = None then written p (None, KDir) (view t) else view t)"
proof (cases p rule: rev_cases)
  case Nil
  then show ?thesis using view_root_dir [OF ok] ok
    by (auto simp: ensure_interior_def is_dir_at_def is_leaf_at_def)
next
  case (snoc pp s)
  define k where "k = (\<lambda>m. case bm_get m s of
      None \<Rightarrow> (bm_insert s node_interior m, Inr ())
    | Some n \<Rightarrow> (m, if is_interior n then Inr () else Inl (NotAContainer (pp @ [s]))))"
  have run: "ensure_interior p t = with_parent (pp @ [s]) k t"
    by (simp add: ensure_interior_def snoc k_def)
  show ?thesis
  proof (cases "kids_at pp (root t)")
    case None
    then show ?thesis
      using with_parent_blocked [OF ok None, of s k] run
      by (auto simp: snoc kids_at_None view_def)
  next
    case (Some m)
    have free: "\<And>q. prefix q pp \<Longrightarrow> \<not> is_leaf_at (view t) q"
      using kids_at_None [of pp "root t"] Some by (auto simp: view_def)
    have aq: "view t (pp @ s # q) = Option.bind (bm_get m s) (\<lambda>n. node_view n q)" for q
      by (cases "bm_get m s") (auto simp: view_def node_view_def kids_at_get [OF Some])
    have mok: "kids_ok m" using kids_at_ok Some ok by (auto simp: tree_ok_def)
    show ?thesis
    proof (cases "bm_get m s")
      case absent: None
      have k: "k m = (bm_insert s node_interior m, Inr ())" by (simp add: k_def absent)
      have "kids_ok (bm_insert s node_interior m)" using mok by (simp add: kids_ok_insert)
      from with_parent_write [where k = k, OF ok Some k this bm.get_insert]
      obtain t' where "with_parent (pp @ [s]) k t = (t', Inr ())" "tree_ok t'"
        "view t' = written (pp @ [s]) (None, KDir) (view t)"
        using aq absent by (auto simp: node_view_interior) (auto simp: node_interior_def)
      then show ?thesis
        using run free aq [of "[]"] absent by (auto simp: snoc is_leaf_at_def)
    next
      case there: (Some n)
      then obtain c where "node_get pp (root t) = Some (Node c (Interior m))"
        using kids_at_nonempty [OF Some] by (cases "m = []") auto
      moreover have "k m = (m, if is_interior n then Inr () else Inl (NotAContainer (pp @ [s])))"
        by (simp add: k_def there)
      ultimately have "ensure_interior p t = (t, if is_interior n then Inr () else Inl (NotAContainer (pp @ [s])))"
        using with_parent_read [OF ok, of pp c m k] run by simp
      then show ?thesis
        using free aq [of "[]"] there ok
        by (cases n rule: is_interior.cases) (auto simp: snoc is_leaf_at_def node_view_Nil)
    qed
  qed
qed

lemma node_view_put:
  assumes "node_get p n = Some y"
  shows "node_view (node_put p x n) (p @ q) = node_view x q"
    and "node_view n (p @ q) = node_view y q"
  using assms by (simp_all add: node_view_def node_put_get [OF assms] node_get_append)

lemmas node_view_put_self =
  node_view_put(1) [where q = "[]", simplified] node_view_put(2) [where q = "[]", simplified]

definition removed :: "path \<Rightarrow> aconfig \<Rightarrow> aconfig" where
  "removed p a = (\<lambda>q. if prefix p q then None else a q)"

lemma view_below_None: "tree_get p t = None \<Longrightarrow> prefix p q \<Longrightarrow> view t q = None"
  by (auto simp: prefix_def view_def node_view_def tree_get_def node_get_append)

lemma removed_absent: "tree_get p t = None \<Longrightarrow> removed p (view t) = view t"
  by (auto simp: removed_def fun_eq_iff dest: view_below_None)

lemma tree_remove_result:
  assumes ok: "tree_ok t" and p: "p \<noteq> []"
  shows "case tree_remove p t of (t', b) \<Rightarrow>
     tree_ok t' \<and> view t' = removed p (view t) \<and> b = (view t p \<noteq> None) \<and> (\<not> b \<longrightarrow> t' = t)"
proof -
  obtain pp s where snoc: "p = pp @ [s]" using p by (cases p rule: rev_cases) auto
  have absent: ?thesis if "tree_remove p t = (t, False)" "tree_get p t = None"
    using that ok removed_absent [OF that(2)] by (simp add: view_def node_view_def tree_get_def)
  show ?thesis
  proof (cases "tree_get pp t")
    case None
    then have "tree_get p t = None" by (simp add: tree_get_def snoc node_get_append)
    then show ?thesis using None by (intro absent) (auto simp: tree_remove_def path_split_last_def snoc)
  next
    case (Some n)
    show ?thesis
    proof (cases n rule: is_interior.cases)
      case (2 c vs)
      then have "tree_get p t = None" using Some by (simp add: tree_get_def snoc node_get_append)
      then show ?thesis using Some 2
        by (intro absent) (auto simp: tree_remove_def path_split_last_def snoc)
    next
      case (1 c m)
      have at: "node_get pp (root t) = Some (Node c (Interior m))"
        using Some 1 by (simp add: tree_get_def)
      let ?x = "Node c (Interior (bm_remove s m))"
      let ?r = "node_put pp ?x (root t)"
      have mok: "kids_ok m"
        using node_get_ok [OF _ at] ok by (simp add: tree_ok_def node_ok_kids del: node_ok.simps)
      then have "node_ok ?r" "is_interior ?r"
        using ok by (auto simp: tree_ok_def node_ok_kids kids_ok_remove simp del: node_ok.simps
            intro!: node_put_ok is_interior_node_put)
      moreover have "node_view ?r q = removed p (view t) q" for q
      proof (cases "prefix pp q")
        case False
        then show ?thesis by (auto simp: node_put_frame removed_def view_def snoc dest: append_prefixD)
      next
        case True
        then obtain q' where q: "q = pp @ q'" by (auto simp: prefix_def)
        show ?thesis
          by (cases q') (auto simp: q node_view_put [OF at] node_view_put_self [OF at] removed_def
              view_def snoc node_view_Nil node_view_Cons bm_get_remove)
      qed
      moreover have "view t p = Option.bind (bm_get m s) (\<lambda>n. node_view n [])"
        by (simp add: view_def snoc node_view_put(2) [OF at] node_view_Cons split: option.splits)
      moreover have "bm_get m s = None \<Longrightarrow> ?r = root t"
      proof -
        assume "bm_get m s = None"
        then have "bm_remove s m = m"
          by (auto simp: bm_remove_def map_of_eq_None_iff filter_id_conv image_iff)
        then show "?r = root t" using node_put_same at ok by (simp add: tree_ok_def)
      qed
      ultimately show ?thesis
        using Some 1
        by (auto simp: tree_remove_def path_split_last_def snoc tree_ok_def view_def
            node_view_Nil split: option.splits bind_splits intro!: config_tree.equality)
    qed
  qed
qed

lemma view_Some_get:
  "view t p = Some (c, k) \<Longrightarrow> \<exists>n. tree_get p t = Some n \<and> n_comment n = c \<and> node_kind n = k"
  by (auto simp: view_def node_view_def tree_get_def)

lemma tree_modify_result:
  assumes ok: "tree_ok t" and get: "tree_get p t = Some n"
    and f: "node_ok (f n)" "p = [] \<Longrightarrow> is_interior (f n)"
  shows "\<exists>t'. tree_modify p f t = Some t' \<and> tree_ok t' \<and>
     (\<forall>q. view t' q = (if prefix p q then node_view (f n) (drop (length p) q) else view t q))"
proof -
  have at: "node_get p (root t) = Some n" using get by (simp add: tree_get_def)
  have "node_ok (node_put p (f n) (root t)) \<and> is_interior (node_put p (f n) (root t))"
    using ok f by (auto simp: tree_ok_def intro!: node_put_ok is_interior_node_put)
  moreover have "node_view (node_put p (f n) (root t)) q =
      (if prefix p q then node_view (f n) (drop (length p) q) else view t q)" for q
    by (auto simp: prefix_def node_view_put [OF at] view_def)
      (auto simp: node_put_frame prefix_def)
  ultimately show ?thesis using get by (auto simp: tree_modify_def tree_ok_def view_def)
qed

lemma set_comment_result:
  assumes "tree_ok t"
  shows "case set_comment p c t of (t', b) \<Rightarrow> tree_ok t' \<and>
     (case view t p of
        None \<Rightarrow> t' = t \<and> \<not> b
      | Some (c', k) \<Rightarrow> b \<and> view t' = (view t)(p := Some (c, k)))"
proof (cases "tree_get p t")
  case None
  then show ?thesis using assms
    by (simp add: set_comment_def tree_modify_def view_def node_view_def tree_get_def)
next
  case (Some n)
  have at: "node_get p (root t) = Some n" using Some by (simp add: tree_get_def)
  obtain c0 b where n: "n = Node c0 b" by (cases n)
  have nok: "node_ok (Node c b)"
    using node_get_ok [OF _ at] assms by (cases b) (auto simp: n tree_ok_def)
  have eq: "node_view (Node c b) q = ((node_view n)([] := Some (c, node_kind n))) q" for q
    by (cases b; cases q) (auto simp: n node_view_Nil node_view_Cons)
  have root: "p = [] \<Longrightarrow> is_interior (Node c b)"
    using at assms by (cases b) (auto simp: n tree_ok_def)
  obtain t' where t': "tree_modify p (\<lambda>n. Node c (n_body n)) t = Some t'" "tree_ok t'"
    "\<And>q. view t' q = (if prefix p q then node_view (Node c b) (drop (length p) q) else view t q)"
    using tree_modify_result [OF assms Some, of "\<lambda>n. Node c (n_body n)"] nok root by (auto simp: n)
  have below: "node_view n q = view t (p @ q)" for q
    by (simp add: view_def node_view_put(2) [OF at])
  have "view t' = (view t)(p := Some (c, node_kind n))"
    by (auto simp: fun_eq_iff t'(3) eq below prefix_def)
  then show ?thesis using t' Some
    by (simp add: set_comment_def view_def node_view_def at)
qed

lemma tree_remove_value_result:
  assumes ok: "tree_ok t"
  shows "case tree_remove_value p v t of (t', b) \<Rightarrow> tree_ok t' \<and>
     b = (\<exists>c vs. view t p = Some (c, KLeaf vs) \<and> v \<in> set vs) \<and>
     view t' =
       (case view t p of
          Some (c, KLeaf vs) \<Rightarrow>
            if v \<notin> set vs then view t
            else if bs_remove v vs = [] then removed p (view t)
            else (view t)(p := Some (c, KLeaf (bs_remove v vs)))
        | _ \<Rightarrow> view t)"
proof (cases "tree_get p t")
  case None
  then show ?thesis using ok by (simp add: tree_remove_value_def view_def node_view_def tree_get_def)
next
  case (Some n)
  have at: "node_get p (root t) = Some n" using Some by (simp add: tree_get_def)
  show ?thesis
  proof (cases n rule: is_interior.cases)
    case (1 c m)
    then show ?thesis using Some ok at by (simp add: tree_remove_value_def view_def node_view_def)
  next
    case (2 c vs)
    have vp: "view t p = Some (c, KLeaf vs)" using at 2 by (simp add: view_def node_view_def)
    have pne: "p \<noteq> []" using at 2 ok by (auto simp: tree_ok_def)
    have "bs_ok vs" using node_get_ok [OF _ at] ok by (simp add: tree_ok_def 2)
    then have leafok: "node_ok (Node c (Values (bs_remove v vs)))" by simp
    obtain t1 where t1: "tree_modify p (\<lambda>n. Node (n_comment n) (Values (bs_remove v vs))) t = Some t1"
      "tree_ok t1"
      "\<And>q. view t1 q = (if prefix p q then node_view (Node c (Values (bs_remove v vs))) (drop (length p) q) else view t q)"
      using tree_modify_result [OF ok Some, of "\<lambda>n. Node (n_comment n) (Values (bs_remove v vs))"]
        leafok pne by (auto simp: 2)
    have t1_eq: "t1 = \<lparr>root = node_put p (Node c (Values (bs_remove v vs))) (root t)\<rparr>"
      using t1(1) Some by (simp add: tree_modify_def 2)
    have leaf_below: "view t q = None" if "prefix p q" "q \<noteq> p" for q
    proof -
      obtain r where r: "q = p @ r" "r \<noteq> []" using \<open>prefix p q\<close> \<open>q \<noteq> p\<close> by (auto simp: prefix_def)
      then show ?thesis
        using node_view_put(2) [OF at, of r] by (simp add: view_def 2 node_view_values)
    qed
    have v1: "view t1 = (view t)(p := Some (c, KLeaf (bs_remove v vs)))"
    proof
      fix q
      consider (eq) "q = p" | (below) r where "q = p @ r" "r \<noteq> []" | (off) "\<not> prefix p q"
        by (auto simp: prefix_def)
      then show "view t1 q = ((view t)(p := Some (c, KLeaf (bs_remove v vs)))) q"
      proof cases
        case below
        then show ?thesis using leaf_below [of q] by (simp add: t1(3) node_view_values)
      qed (auto simp: t1(3) node_view_Nil)
    qed
    have "removed p (view t1) = removed p (view t)"
      by (auto simp: removed_def v1 fun_eq_iff)
    moreover have "tree_remove_value p v t =
        (if v \<notin> set vs then (t, False)
         else (if bs_remove v vs = [] then fst (tree_remove p t1) else t1, True))"
      using Some by (simp add: tree_remove_value_def 2 Let_def t1_eq)
    ultimately show ?thesis
      using tree_remove_result [OF t1(2) pne] vp v1 t1(2) ok by (auto split: prod.splits)
  qed
qed

lemma ensure_interior_new:
  "\<exists>t'. ensure_interior p tree_new = (t', Inr ()) \<and> tree_ok t' \<and>
     view t' = (\<lambda>q. if prefix q p then Some (None, KDir) else None)"
proof -
  have noleaf: "\<not> is_leaf_at (view tree_new) q" for q by (auto simp: view_tree_new is_leaf_at_def)
  obtain t' r where e: "ensure_interior p tree_new = (t', r)" by (cases "ensure_interior p tree_new")
  show ?thesis
  proof (cases r)
    case (Inl x)
    then show ?thesis using ensure_interior_result [OF tree_new_ok, of p] noleaf e by auto
  next
    case (Inr x)
    then have "tree_ok t'" "view t' = (if view tree_new p = None
        then written p (None, KDir) (view tree_new) else view tree_new)"
      using ensure_interior_result [OF tree_new_ok, of p] e by auto
    then show ?thesis
      using e Inr
      by (auto simp: view_tree_new written_def created_def fun_eq_iff strict_prefix_def)
  qed
qed

lemma subtree_result:
  assumes ok: "tree_ok t" and p: "p \<noteq> []"
  shows "case subtree p t of
      None \<Rightarrow> view t p = None
    | Some t' \<Rightarrow> view t p \<noteq> None \<and> tree_ok t' \<and>
        view t' = (\<lambda>q. if prefix p q then view t q
                       else if strict_prefix q p then Some (None, KDir) else None)"
proof (cases "tree_get p t")
  case None
  then show ?thesis by (simp add: subtree_def view_def node_view_def tree_get_def)
next
  case (Some n)
  obtain pp s where snoc: "p = pp @ [s]" using p by (cases p rule: rev_cases) auto
  have at: "node_get p (root t) = Some n" using Some by (simp add: tree_get_def)
  obtain t1 where t1: "ensure_interior pp tree_new = (t1, Inr ())" "tree_ok t1"
    "view t1 = (\<lambda>q. if prefix q pp then Some (None, KDir) else None)"
    using ensure_interior_new by blast
  obtain x where x: "tree_get pp t1 = Some x" "n_comment x = None" "node_kind x = KDir"
    using view_Some_get [of t1 pp None KDir] t1(3) by auto
  then obtain m where m: "x = Node None (Interior m)" by (cases x rule: is_interior.cases) auto
  have below: "node_view x q = view t1 (pp @ q)" for q
    using x(1) node_view_put(2) [of pp "root t1" x] by (simp add: view_def tree_get_def)
  have "bm_get m a = None" for a
    using below [of "[a]"] t1(3) by (auto simp: m node_view_Cons node_view_Nil split: option.splits)
  then have m0: "m = []" by (cases m) (auto, metis option.distinct(1))
  have nok: "node_ok n" using node_get_ok [OF _ at] ok by (simp add: tree_ok_def)
  define f where "f = (\<lambda>pn. case n_body pn of
      Interior m \<Rightarrow> Node (n_comment pn) (Interior (bm_insert s n m)) | Values vs \<Rightarrow> pn)"
  have fx: "f x = Node None (Interior [(s, n)])" by (simp add: f_def m m0)
  obtain t' where t': "tree_modify pp f t1 = Some t'" "tree_ok t'"
    "\<And>q. view t' q = (if prefix pp q then node_view (f x) (drop (length pp) q) else view t1 q)"
    using tree_modify_result [OF t1(2) x(1), of f] nok by (auto simp: fx bm_ok_def)
  have sub: "subtree p t = Some t'"
    using Some t' t1(1) by (simp add: subtree_def path_split_last_def snoc f_def [symmetric])
  have "view t' q = (if prefix p q then view t q else if strict_prefix q p then Some (None, KDir) else None)" for q
  proof (cases "prefix pp q")
    case False
    then show ?thesis
      by (auto simp: t'(3) t1(3) snoc strict_prefix_snoc dest: append_prefixD)
  next
    case True
    then obtain r where q: "q = pp @ r" by (auto simp: prefix_def)
    show ?thesis
    proof (cases r)
      case Nil
      then show ?thesis by (simp add: t'(3) fx q node_view_Nil snoc strict_prefix_snoc)
    next
      case (Cons a r')
      have "view t (p @ r') = node_view n r'" by (simp add: view_def node_view_put(2) [OF at])
      then show ?thesis
        by (auto simp: t'(3) fx q Cons node_view_Cons snoc strict_prefix_snoc)
    qed
  qed
  then show ?thesis using sub t'(2) Some by (auto simp: view_def node_view_def tree_get_def)
qed

end
