(* ===== verification/Curly_Parse.thy ===== *)
theory Curly_Parse
  imports Config_Laws
begin

text \<open>
  The parser half of \<open>src/nightshade-schema/src/curly.rs\<close>: the configuration file format.
  \<open>parser\<close> is \<open>Parser\<close> (the lexer and one token of lookahead), \<open>run\<close>, \<open>leaf\<close>,
  \<open>attach\<close> and \<open>body\<close> are its methods; \<open>body_loop\<close> is the loop inside \<open>body\<close>, with the
  mutable locals \<open>pending\<close> and \<open>previous\<close> as arguments. The recursion ends because every
  round consumes a token, which the termination proof shows for the nested calls through the
  parser state they return.
\<close>

section \<open>Errors and limits\<close>

definition MAX_DEPTH :: nat where
  "MAX_DEPTH = 64"

datatype parse_error =
    ParseLex lex_error
  | UnexpectedOpen pos
  | UnmatchedClose pos
  | Unclosed pos
  | TooManyValues pos string nat
  | TooDeep pos
  | ParseTree pos tree_error

fun parse_error_pos :: "parse_error \<Rightarrow> pos" where
  "parse_error_pos (ParseLex e) = lex_error_pos e"
| "parse_error_pos (UnexpectedOpen p) = p"
| "parse_error_pos (UnmatchedClose p) = p"
| "parse_error_pos (Unclosed p) = p"
| "parse_error_pos (TooManyValues p n c) = p"
| "parse_error_pos (TooDeep p) = p"
| "parse_error_pos (ParseTree p e) = p"

fun show_parse_error :: "parse_error \<Rightarrow> string" where
  "show_parse_error (ParseLex e) = show_lex_error e"
| "show_parse_error (UnexpectedOpen p) =
     show_pos p @ '': `{` must follow a node name on the same line''"
| "show_parse_error (UnmatchedClose p) = show_pos p @ '': `}` here closes nothing''"
| "show_parse_error (Unclosed p) = show_pos p @ '': `{` opened here is never closed''"
| "show_parse_error (TooManyValues p name count) =
     show_pos p @ '': `'' @ name @ ''` was given '' @ show_nat count @
     '' values on one line; a leaf takes at most one, and a nested node needs braces''"
| "show_parse_error (TooDeep p) =
     show_pos p @ '': nested more than '' @ show_nat MAX_DEPTH @ '' levels deep''"
| "show_parse_error (ParseTree p e) = show_pos p @ '': '' @ show_tree_error e"

section \<open>The token stream\<close>

record parser =
  ps_lexer :: lexer
  ps_peeked :: "spanned option"

definition ps_peek :: "parser \<Rightarrow> lex_error + (spanned option \<times> parser)" where
  "ps_peek ps =
     (case ps_peeked ps of
        Some s \<Rightarrow> Inr (Some s, ps)
      | None \<Rightarrow>
          (case next_token (ps_lexer ps) of
             Inl e \<Rightarrow> Inl e
           | Inr (s, l') \<Rightarrow> Inr (s, \<lparr>ps_lexer = l', ps_peeked = s\<rparr>)))"

definition ps_advance :: "parser \<Rightarrow> lex_error + (spanned option \<times> parser)" where
  "ps_advance ps =
     (case ps_peeked ps of
        Some s \<Rightarrow> Inr (Some s, ps\<lparr>ps_peeked := None\<rparr>)
      | None \<Rightarrow>
          (case next_token (ps_lexer ps) of
             Inl e \<Rightarrow> Inl e
           | Inr (s, l') \<Rightarrow> Inr (s, \<lparr>ps_lexer = l', ps_peeked = None\<rparr>)))"

text \<open>What is left to consume, in characters and looked-ahead tokens.\<close>

definition psize :: "parser \<Rightarrow> nat" where
  "psize ps = length (rest (ps_lexer ps)) + (if ps_peeked ps = None then 0 else 1)"

lemma next_token_le: "next_token l = Inr (s, l') \<Longrightarrow> length (rest l') \<le> length (rest l)"
proof (cases s)
  case None
  moreover assume "next_token l = Inr (s, l')"
  ultimately have "l' = skip_whitespace l"
    by (auto simp: next_token_def Let_def split: option.splits if_splits sum.splits prod.splits)
  then show ?thesis by (simp add: reach_length [OF reach_skip_whitespace])
next
  case (Some sp)
  moreover assume "next_token l = Inr (s, l')"
  ultimately show ?thesis by (auto dest: next_token_shrinks)
qed

lemma ps_peek_le: "ps_peek ps = Inr (s, ps') \<Longrightarrow> psize ps' \<le> psize ps \<and> ps_peeked ps' = s"
  by (cases s)
    (auto simp: ps_peek_def psize_def Suc_le_eq split: option.splits sum.splits
      dest: next_token_le next_token_shrinks)

lemma ps_advance_peeked: "ps_peeked ps = Some s \<Longrightarrow>
  ps_advance ps = Inr (Some s, ps\<lparr>ps_peeked := None\<rparr>) \<and>
  psize (ps\<lparr>ps_peeked := None\<rparr>) < psize ps"
  by (simp add: ps_advance_def psize_def)

lemma ps_peek_advance_less:
  assumes "ps_peek ps = Inr (Some s, ps1)" and "ps_advance ps1 = Inr (s', ps2)"
  shows "psize ps2 < psize ps"
  using ps_peek_le [OF assms(1)] ps_advance_peeked [of ps1 s] assms(2) by auto

section \<open>The grammar\<close>

function run :: "nat \<Rightarrow> parser \<Rightarrow> lex_error + (string list \<times> parser)" where
  "run ln ps =
     (case ps_peek ps of
        Inl e \<Rightarrow> Inl e
      | Inr (None, ps1) \<Rightarrow> Inr ([], ps1)
      | Inr (Some sp, ps1) \<Rightarrow>
          (case sp_token sp of
             TokValue v \<Rightarrow>
               if line (sp_pos sp) = ln then
                 (case ps_advance ps1 of
                    Inl e \<Rightarrow> Inl e
                  | Inr (s, ps2) \<Rightarrow>
                      (case run ln ps2 of
                         Inl e \<Rightarrow> Inl e
                       | Inr (vs, ps3) \<Rightarrow> Inr (v # vs, ps3)))
               else Inr ([], ps1)
           | _ \<Rightarrow> Inr ([], ps1)))"
  by pat_completeness auto
termination
  by (relation "measure (\<lambda>(ln, ps). psize ps)") (auto dest: ps_peek_advance_less)

declare run.simps [simp del]

lemma run_le: "run ln ps = Inr (vs, ps') \<Longrightarrow> psize ps' \<le> psize ps"
proof (induction ln ps arbitrary: vs ps' rule: run.induct)
  case (1 ln ps)
  obtain s ps1 where pk: "ps_peek ps = Inr (s, ps1)"
    using "1.prems" by (auto simp: run.simps [of ln ps] split: sum.splits)
  show ?case
  proof (cases "ps' = ps1")
    case True
    then show ?thesis using ps_peek_le [OF pk] by simp
  next
    case False
    then obtain sp v s' ps2 vs' where
      "s = Some sp" "sp_token sp = TokValue v" "line (sp_pos sp) = ln"
      "ps_advance ps1 = Inr (s', ps2)" "run ln ps2 = Inr (vs', ps')"
      using "1.prems" pk
      by (auto simp: run.simps [of ln ps] split: sum.splits option.splits token.splits if_splits)
    then show ?thesis
      using "1.IH" [OF pk refl] pk ps_peek_advance_less [of ps sp ps1 s' ps2] by fastforce
  qed
qed

text \<open>Entered on a value, \<open>run\<close> takes at least that one: the two \<open>expect\<close>s of the code.\<close>

lemma run_first:
  assumes "ps_peeked ps = Some sp" and "sp_token sp = TokValue v"
    and "run (line (sp_pos sp)) ps = Inr (vs, ps')"
  shows "psize ps' < psize ps \<and> (\<exists>ws. vs = v # ws)"
proof -
  have "ps_peek ps = Inr (Some sp, ps)" using assms(1) by (simp add: ps_peek_def)
  then obtain ws where "run (line (sp_pos sp)) (ps\<lparr>ps_peeked := None\<rparr>) = Inr (ws, ps')" "vs = v # ws"
    using assms ps_advance_peeked [OF assms(1)]
    by (auto simp: run.simps [of "line (sp_pos sp)" ps] split: sum.splits)
  then show ?thesis using run_le ps_advance_peeked [OF assms(1)] by fastforce
qed

text \<open>
  \<open>leaf\<close>: a statement without braces. \<open>count\<close> is the length after \<open>swap_remove(0)\<close>, the
  number of values.
\<close>

definition leaf ::
  "config_tree \<Rightarrow> path \<Rightarrow> string list \<Rightarrow> pos \<Rightarrow> parse_error + (config_tree \<times> path)" where
  "leaf t pfx vs p =
     (case vs of
        name # [] \<Rightarrow>
          (let at = path_child pfx name
           in case declare_leaf at t of
                (t', Inl e) \<Rightarrow> Inl (ParseTree p e)
              | (t', Inr u) \<Rightarrow> Inr (t', at))
      | name # v # [] \<Rightarrow>
          (let at = path_child pfx name
           in case tree_add at v t of
                (t', Inl e) \<Rightarrow> Inl (ParseTree p e)
              | (t', Inr u) \<Rightarrow> Inr (t', at))
      | name # values \<Rightarrow> Inl (TooManyValues p name (length values))
      | [] \<Rightarrow> Inr (t, pfx))"

text \<open>\<open>if let Some(node) = tree.get_mut(path) && node.comment.is_none()\<close> and the write in it.\<close>

definition try_comment :: "path \<Rightarrow> string \<Rightarrow> config_tree \<Rightarrow> config_tree option" where
  "try_comment p c t =
     (case tree_get p t of
        None \<Rightarrow> None
      | Some n \<Rightarrow>
          if n_comment n = None then tree_modify p (\<lambda>n. Node (Some c) (n_body n)) t else None)"

definition attach :: "config_tree \<Rightarrow> path \<Rightarrow> string option \<Rightarrow> config_tree" where
  "attach t p c =
     (case c of
        None \<Rightarrow> t
      | Some c \<Rightarrow> (case try_comment p c t of None \<Rightarrow> t | Some t' \<Rightarrow> t'))"

definition add_pending :: "string option \<Rightarrow> string \<Rightarrow> string option" where
  "add_pending pending text =
     Some (case pending of Some prev \<Rightarrow> prev @ [newline] @ text | None \<Rightarrow> text)"

definition on_line :: "(path \<times> nat) option \<Rightarrow> nat \<Rightarrow> path option" where
  "on_line previous ln =
     (case previous of None \<Rightarrow> None | Some (p, l) \<Rightarrow> if l = ln then Some p else None)"

definition opens_on :: "nat \<Rightarrow> spanned option \<Rightarrow> bool" where
  "opens_on ln s =
     (case s of None \<Rightarrow> False | Some sp \<Rightarrow> sp_token sp = TokOpen \<and> line (sp_pos sp) = ln)"

text \<open>
  One round of the loop: it leaves \<open>body\<close> with a result, goes round again, or has opened a
  block whose body comes first.
\<close>

datatype round =
    Leave "parse_error + (config_tree \<times> parser)"
  | Again config_tree "string option" "(path \<times> nat) option" parser
  | Block config_tree path pos parser

definition body_round ::
  "config_tree \<Rightarrow> path \<Rightarrow> pos option \<Rightarrow> string option \<Rightarrow> (path \<times> nat) option \<Rightarrow> parser \<Rightarrow> round" where
  "body_round t pfx opened pending previous ps =
     (case ps_peek ps of
        Inl e \<Rightarrow> Leave (Inl (ParseLex e))
      | Inr (None, ps1) \<Rightarrow>
          Leave (case opened of Some p \<Rightarrow> Inl (Unclosed p) | None \<Rightarrow> Inr (t, ps1))
      | Inr (Some sp, ps1) \<Rightarrow>
          (let p = sp_pos sp in
           case sp_token sp of
             TokComment text \<Rightarrow>
               (case ps_advance ps1 of
                  Inl e \<Rightarrow> Leave (Inl (ParseLex e))
                | Inr (s, ps2) \<Rightarrow>
                    (case (if pending = None
                           then Option.bind (on_line previous (line p)) (\<lambda>at. try_comment at text t)
                           else None) of
                       Some t' \<Rightarrow> Again t' pending previous ps2
                     | None \<Rightarrow> Again t (add_pending pending text) previous ps2))
           | TokClose \<Rightarrow>
               (case ps_advance ps1 of
                  Inl e \<Rightarrow> Leave (Inl (ParseLex e))
                | Inr (s, ps2) \<Rightarrow>
                    Leave (case opened of Some q \<Rightarrow> Inr (t, ps2) | None \<Rightarrow> Inl (UnmatchedClose p)))
           | TokOpen \<Rightarrow> Leave (Inl (UnexpectedOpen p))
           | TokValue v \<Rightarrow>
               (case run (line p) ps1 of
                  Inl e \<Rightarrow> Leave (Inl (ParseLex e))
                | Inr (vs, ps2) \<Rightarrow>
                    (case ps_peek ps2 of
                       Inl e \<Rightarrow> Leave (Inl (ParseLex e))
                     | Inr (s, ps3) \<Rightarrow>
                         if opens_on (line p) s then
                           (case ps_advance ps3 of
                              Inl e \<Rightarrow> Leave (Inl (ParseLex e))
                            | Inr (None, ps4) \<Rightarrow> Leave (Inr (t, ps4))
                            | Inr (Some open_sp, ps4) \<Rightarrow>
                                (let at = fold (\<lambda>seg p. path_child p seg) vs pfx in
                                 case ensure_interior at t of
                                   (t1, Inl e) \<Rightarrow> Leave (Inl (ParseTree p e))
                                 | (t1, Inr u) \<Rightarrow> Block (attach t1 at pending) at (sp_pos open_sp) ps4))
                         else
                           (case leaf t pfx vs p of
                              Inl e \<Rightarrow> Leave (Inl e)
                            | Inr (t1, at) \<Rightarrow>
                                Again (attach t1 at pending) None (Some (at, line p)) ps3)))))"

lemma opens_on_Some: "opens_on n s \<longleftrightarrow>
  (\<exists>sp. s = Some sp \<and> sp_token sp = TokOpen \<and> line (sp_pos sp) = n)"
  by (auto simp: opens_on_def split: option.splits)

lemma ps_run_peek:
  assumes "ps_peek ps = Inr (Some sp, ps1)" and "sp_token sp = TokValue v"
    and "run (line (sp_pos sp)) ps1 = Inr (vs, ps2)" and "ps_peek ps2 = Inr (s, ps3)"
  shows "psize ps3 < psize ps"
  using run_first [of ps1 sp v vs ps2] ps_peek_le [OF assms(1)] ps_peek_le [OF assms(4)] assms(2,3)
  by auto

lemma ps_run_open:
  assumes "ps_peek ps = Inr (Some sp, ps1)" and "sp_token sp = TokValue v"
    and "run (line (sp_pos sp)) ps1 = Inr (vs, ps2)" and "ps_peek ps2 = Inr (s, ps3)"
    and "opens_on n s" and "ps_advance ps3 = Inr (s', ps4)"
  shows "psize ps4 < psize ps"
  using ps_peek_advance_less [of ps2 _ ps3] run_first [of ps1 sp v vs ps2] ps_peek_le [OF assms(1)] assms(2-6)
  by (fastforce simp: opens_on_Some)

lemma body_round_Again:
  "body_round t pfx opened pending previous ps = Again t' pe pr ps' \<Longrightarrow> psize ps' < psize ps"
  by (auto simp: body_round_def Let_def
      split: sum.splits option.splits token.splits if_splits prod.splits
      intro: ps_peek_advance_less ps_run_peek)

lemma body_round_Block:
  "body_round t pfx opened pending previous ps = Block t' at q ps' \<Longrightarrow> psize ps' < psize ps"
  by (auto simp: body_round_def Let_def
      split: sum.splits option.splits token.splits if_splits prod.splits dest: ps_run_open)

lemma body_round_Leave:
  "body_round t pfx opened pending previous ps = Leave (Inr (t', ps')) \<Longrightarrow> psize ps' \<le> psize ps"
  by (auto simp: body_round_def Let_def
      split: sum.splits option.splits token.splits if_splits prod.splits
      intro: ps_run_open [THEN less_imp_le] ps_peek_advance_less [THEN less_imp_le]
      dest: ps_peek_le)

function (domintros) body ::
  "config_tree \<Rightarrow> path \<Rightarrow> nat \<Rightarrow> pos option \<Rightarrow> parser \<Rightarrow> parse_error + (config_tree \<times> parser)"
and body_loop ::
  "config_tree \<Rightarrow> path \<Rightarrow> nat \<Rightarrow> pos option \<Rightarrow> string option \<Rightarrow> (path \<times> nat) option \<Rightarrow> parser
     \<Rightarrow> parse_error + (config_tree \<times> parser)" where
  "body t pfx depth opened ps =
     (if depth > MAX_DEPTH
      then Inl (TooDeep (case opened of Some p \<Rightarrow> p | None \<Rightarrow> \<lparr>line = 1, column = 1\<rparr>))
      else body_loop t pfx depth opened None None ps)"
| "body_loop t pfx depth opened pending previous ps =
     (case body_round t pfx opened pending previous ps of
        Leave r \<Rightarrow> r
      | Again t' pending' previous' ps' \<Rightarrow> body_loop t' pfx depth opened pending' previous' ps'
      | Block t' at open ps' \<Rightarrow>
          (case body t' at (Suc depth) (Some open) ps' of
             Inl e \<Rightarrow> Inl e
           | Inr (t'', ps'') \<Rightarrow> body_loop t'' pfx depth opened None None ps''))"
  by pat_completeness auto

lemma body_le_dom:
  "body_body_loop_dom (Inl (t, pfx, depth, opened, ps)) \<Longrightarrow>
   (\<And>t' ps'. body t pfx depth opened ps = Inr (t', ps') \<Longrightarrow> psize ps' \<le> psize ps)"
  "body_body_loop_dom (Inr (t, pfx, depth, opened, pending, previous, ps)) \<Longrightarrow>
   (\<And>t' ps'. body_loop t pfx depth opened pending previous ps = Inr (t', ps') \<Longrightarrow>
     psize ps' \<le> psize ps)"
proof (induction t pfx depth opened ps and t pfx depth opened pending previous ps
    rule: body_body_loop.pinduct)
  case (1 t pfx depth opened ps)
  then show ?case by (auto simp: body.psimps split: if_splits)
next
  case (2 t pfx depth opened pending previous ps)
  show ?case
  proof (cases "body_round t pfx opened pending previous ps")
    case (Leave r)
    then show ?thesis using 2 by (auto simp: body_loop.psimps dest: body_round_Leave)
  next
    case (Again t1 pe pr ps1)
    then show ?thesis using 2(1,5) 2(2) [OF Again]  by (auto simp: body_loop.psimps dest: body_round_Again)
  next
    case (Block t1 at q ps1)
    then obtain t2 ps2 where b: "body t1 at (Suc depth) (Some q) ps1 = Inr (t2, ps2)"
       "body_loop t2 pfx depth opened None None ps2 = Inr (t', ps')" using 2(1,5) by (auto simp: body_loop.psimps split: sum.splits)
    then show ?thesis using 2(3) [OF Block b(1)] 2(4) [OF Block b(1) refl b(2)] body_round_Block [OF Block] by auto
  qed
qed

termination body
proof (relation "measure (\<lambda>x. case x of
      Inl (t, pfx, depth, opened, ps) \<Rightarrow> Suc (2 * psize ps)
    | Inr (t, pfx, depth, opened, pending, previous, ps) \<Rightarrow> 2 * psize ps)", goal_cases)
  case (5 t pfx depth opened pending previous ps t1 at q ps1 r t2 ps2)
  then have "psize ps2 \<le> psize ps1" using body_le_dom(1) by metis
  then show ?case using body_round_Block [OF 5(1)] by simp
qed (auto dest: body_round_Again body_round_Block)

declare body.simps [simp del] body_loop.simps [simp del]

end
