(* ===== verification/Curly_Render.thy ===== *)
theory Curly_Render
  imports Curly_Parse
begin

text \<open>
  The renderer half of \<open>src/nightshade-schema/src/curly.rs\<close>, and \<open>parse\<close>. The output buffer
  the code appends to is the string each function returns. A \<open>TagOracle\<close> is the function
  from paths it implements; \<open>nested\<close> is the one that never says yes.
\<close>

section \<open>Parsing a document\<close>

definition parse :: "string \<Rightarrow> parse_error + config_tree" where
  "parse src =
     (case body tree_new path_root 0 None \<lparr>ps_lexer = lexer_new src, ps_peeked = None\<rparr> of
        Inl e \<Rightarrow> Inl e
      | Inr (t, ps) \<Rightarrow> Inr t)"

section \<open>Rendering\<close>

type_synonym tag_oracle = "path \<Rightarrow> bool"

definition nested :: tag_oracle where
  "nested p = False"

definition indent :: "nat \<Rightarrow> string" where
  "indent depth = concat (replicate depth ''    '')"

definition comment_line_out :: "nat \<Rightarrow> string \<Rightarrow> string" where
  "comment_line_out depth l = indent depth @ comment_text l @ [newline]"

definition comment :: "nat \<Rightarrow> string option \<Rightarrow> string" where
  "comment depth c =
     (case c of
        None \<Rightarrow> []
      | Some c \<Rightarrow> concat (map (comment_line_out depth) (split_on newline c)))"

definition compact :: "tag_oracle \<Rightarrow> string option \<Rightarrow> kids \<Rightarrow> path \<Rightarrow> bool" where
  "compact tags c m p \<longleftrightarrow>
     tags p \<and> c = None \<and> m \<noteq> [] \<and> list_all (\<lambda>(k, n). is_interior n) m"

definition leaf_line :: "nat \<Rightarrow> string \<Rightarrow> string \<Rightarrow> string" where
  "leaf_line depth name v = indent depth @ quote name @ '' '' @ quote v @ [newline]"

definition flag_line :: "nat \<Rightarrow> string \<Rightarrow> string" where
  "flag_line depth name = indent depth @ quote name @ [newline]"

definition close_line :: "nat \<Rightarrow> string" where
  "close_line depth = indent depth @ ''}'' @ [newline]"

function children :: "tag_oracle \<Rightarrow> node \<Rightarrow> path \<Rightarrow> nat \<Rightarrow> string"
and children_kids :: "tag_oracle \<Rightarrow> kids \<Rightarrow> path \<Rightarrow> nat \<Rightarrow> string"
and entry :: "tag_oracle \<Rightarrow> string \<Rightarrow> node \<Rightarrow> path \<Rightarrow> nat \<Rightarrow> string"
and instances :: "tag_oracle \<Rightarrow> string \<Rightarrow> kids \<Rightarrow> path \<Rightarrow> nat \<Rightarrow> string" where
  "children tags (Node c (Values vs)) at depth = []"
| "children tags (Node c (Interior m)) at depth = children_kids tags m at depth"
| "children_kids tags [] at depth = []"
| "children_kids tags ((name, n) # m) at depth =
     entry tags name n (path_child at name) depth @ children_kids tags m at depth"
| "entry tags name (Node c (Values vs)) p depth =
     comment depth c @
     (if vs = [] then flag_line depth name else []) @
     concat (map (leaf_line depth name) vs)"
| "entry tags name (Node c (Interior m)) p depth =
     (if compact tags c m p then instances tags name m p depth
      else comment depth c @
           indent depth @ quote name @ '' {'' @ [newline] @
           children_kids tags m p (Suc depth) @
           close_line depth)"
| "instances tags name [] p depth = []"
| "instances tags name ((key, n) # m) p depth =
     comment depth (n_comment n) @
     indent depth @ quote name @ '' '' @ quote key @ '' {'' @ [newline] @
     children tags n (path_child p key) (Suc depth) @
     close_line depth @
     instances tags name m p depth"
  by pat_completeness auto
termination
  by (relation "measure (\<lambda>x. case x of
        Inl (Inl (tags, n, at, d)) \<Rightarrow> 2 * size n
      | Inl (Inr (tags, m, at, d)) \<Rightarrow> 2 * size_list (size_prod (\<lambda>_. 0) size) m
      | Inr (Inl (tags, name, n, p, d)) \<Rightarrow> Suc (2 * size n)
      | Inr (Inr (tags, name, m, p, d)) \<Rightarrow> 2 * size_list (size_prod (\<lambda>_. 0) size) m)")
    auto

definition render :: "tag_oracle \<Rightarrow> config_tree \<Rightarrow> string" where
  "render tags t = children tags (root t) path_root 0"

end
