(* ===== verification/Curly_Roundtrip.thy ===== *)
theory Curly_Roundtrip
  imports Curly_Render
begin

text \<open>
  \<open>parse (render tags t) = t\<close>. A rendered document is read back line by line: \<open>ps_at\<close> says
  that a parser, lookahead included, stands before a given text; \<open>here\<close> adds that the next
  statement cannot be taken for something on the line of the previous one. Each kind of
  rendered line is one round of \<open>body_loop\<close> with a known effect on the tree, and the document
  is put together from them by induction over the renderer's own recursion.
\<close>

section \<open>Where a parser stands\<close>

definition ps_at :: "parser \<Rightarrow> string \<Rightarrow> nat \<Rightarrow> bool" where
  "ps_at ps t n \<longleftrightarrow>
     (\<exists>l. at_text l t n \<and>
        ps_peek ps =
          (case next_token l of
             Inl e \<Rightarrow> Inl e
           | Inr (s, l') \<Rightarrow> Inr (s, \<lparr>ps_lexer = l', ps_peeked = s\<rparr>)))"

lemma ps_at_fresh: "at_text l t n \<Longrightarrow> ps_at \<lparr>ps_lexer = l, ps_peeked = None\<rparr> t n"
  by (auto simp: ps_at_def ps_peek_def)

lemma next_token_None_again:
  assumes "next_token l = Inr (None, l')"
  shows "next_token l' = Inr (None, l')"
proof -
  have "peek l' = None" using assms
    by (auto simp: next_token_def Let_def split: option.splits if_splits sum.splits prod.splits)
  moreover then have "skip_whitespace l' = l'" by (simp add: skip_whitespace.simps [of l'])
  ultimately show ?thesis by (simp add: next_token_def Let_def)
qed

lemma ps_at_peek:
  assumes "ps_at ps t n" and "ps_peek ps = Inr (s, ps1)"
  shows "ps_at ps1 t n"
proof -
  obtain l l' where l: "at_text l t n" "next_token l = Inr (s, l')" "ps1 = \<lparr>ps_lexer = l', ps_peeked = s\<rparr>"
  proof -
    obtain l where "at_text l t n"
      "ps_peek ps = (case next_token l of Inl e \<Rightarrow> Inl e
         | Inr (s, l') \<Rightarrow> Inr (s, \<lparr>ps_lexer = l', ps_peeked = s\<rparr>))"
      using assms(1) by (auto simp: ps_at_def)
    then show thesis using assms(2) that by (cases "next_token l") (auto split: prod.splits)
  qed
  then have "ps_peek ps1 = Inr (s, ps1)"
    by (cases s) (auto simp: ps_peek_def next_token_None_again)
  then show ?thesis using l by (auto simp: ps_at_def)
qed

lemma ps_at_token:
  assumes "ps_at ps t n"
    and "\<And>l. at_text l t n \<Longrightarrow> \<exists>l' q. next_token l = Inr (Some \<lparr>sp_token = k, sp_pos = q\<rparr>, l') \<and>
           line q = n' \<and> at_text l' r n'"
  obtains q ps1 ps2 where "ps_peek ps = Inr (Some \<lparr>sp_token = k, sp_pos = q\<rparr>, ps1)"
    and "line q = n'" and "ps_advance ps1 = Inr (Some \<lparr>sp_token = k, sp_pos = q\<rparr>, ps2)"
    and "ps_at ps2 r n'" and "ps_at ps1 t n"
    and "ps_peek ps1 = Inr (Some \<lparr>sp_token = k, sp_pos = q\<rparr>, ps1)"
proof -
  obtain l where l: "at_text l t n"
    "ps_peek ps = (case next_token l of Inl e \<Rightarrow> Inl e
       | Inr (s, l') \<Rightarrow> Inr (s, \<lparr>ps_lexer = l', ps_peeked = s\<rparr>))"
    using assms(1) by (auto simp: ps_at_def)
  obtain l' q where q: "next_token l = Inr (Some \<lparr>sp_token = k, sp_pos = q\<rparr>, l')" "line q = n'"
    "at_text l' r n'"
    using assms(2) [OF l(1)] by auto
  show thesis
    by (rule that [of q "\<lparr>ps_lexer = l', ps_peeked = Some \<lparr>sp_token = k, sp_pos = q\<rparr>\<rparr>" "\<lparr>ps_lexer = l', ps_peeked = None\<rparr>"])
      (use l q in \<open>auto simp: ps_advance_def ps_peek_def ps_at_fresh intro: ps_at_peek [OF assms(1)]\<close>)
qed

lemma ps_at_value:
  assumes "ps_at ps (ws @ quote s @ r) n" and "list_all is_whitespace ws" and "stops_word r"
  obtains q ps1 ps2 where "ps_peek ps = Inr (Some \<lparr>sp_token = TokValue s, sp_pos = q\<rparr>, ps1)"
    and "line q = n + newlines ws" and "ps_advance ps1 = Inr (Some \<lparr>sp_token = TokValue s, sp_pos = q\<rparr>, ps2)"
    and "ps_at ps2 r (n + newlines ws)" and "ps_at ps1 (ws @ quote s @ r) n"
    and "ps_peek ps1 = Inr (Some \<lparr>sp_token = TokValue s, sp_pos = q\<rparr>, ps1)"
  by (rule ps_at_token [OF assms(1), of "TokValue s" "n + newlines ws" r])
    (use assms in \<open>auto elim: next_token_value_at\<close>)

lemma ps_at_brace:
  assumes "ps_at ps (ws @ b # r) n" and "list_all is_whitespace ws"
    and "b = CHR ''{'' \<and> k = TokOpen \<or> b = CHR ''}'' \<and> k = TokClose"
  obtains q ps1 ps2 where "ps_peek ps = Inr (Some \<lparr>sp_token = k, sp_pos = q\<rparr>, ps1)"
    and "line q = n + newlines ws" and "ps_advance ps1 = Inr (Some \<lparr>sp_token = k, sp_pos = q\<rparr>, ps2)"
    and "ps_at ps2 r (n + newlines ws)"
  by (rule ps_at_token [OF assms(1), of k "n + newlines ws" r])
    (use assms in \<open>auto elim!: next_token_brace_at\<close>)

lemma ps_at_comment:
  assumes "ps_at ps (ws @ comment_text c @ newline # r) n" and "list_all is_whitespace ws"
    and "newline \<notin> set c"
  obtains q ps1 ps2 where "ps_peek ps = Inr (Some \<lparr>sp_token = TokComment c, sp_pos = q\<rparr>, ps1)"
    and "line q = n + newlines ws"
    and "ps_advance ps1 = Inr (Some \<lparr>sp_token = TokComment c, sp_pos = q\<rparr>, ps2)"
    and "ps_at ps2 (newline # r) (n + newlines ws)"
  by (rule ps_at_token [OF assms(1), of "TokComment c" "n + newlines ws" "newline # r"])
    (use assms in \<open>auto elim: next_token_comment_at\<close>)

section \<open>Where a run of values stops\<close>

lemma reach_line: "reach l l' \<Longrightarrow> lx_line l \<le> lx_line l'"
  by (induction rule: reach.induct)
    (auto intro: order_trans [rotated] simp: eat_def split: list.splits if_splits)

lemma next_token_next_line:
  assumes "next_token l = Inr (Some sp, l')" and "at_text l (newline # r) n"
  shows "n < line (sp_pos sp)"
proof -
  have "skip_whitespace l = skip_whitespace (eat l)"
    using assms(2) by (simp add: skip_whitespace.simps [of l])
  moreover have "lx_line (eat l) = Suc n"
    using at_text_eat [OF assms(2)] by (simp add: at_text_def)
  ultimately have "Suc n \<le> lx_line (skip_whitespace l)"
    using reach_line [OF reach_skip_whitespace [of "eat l"]] by simp
  then show ?thesis using assms(1) by (auto elim!: next_token_Some simp: pos_of_def)
qed

text \<open>Text the lexer accepts one token of, whatever whitespace comes first.\<close>

definition lexes :: "string \<Rightarrow> bool" where
  "lexes r \<longleftrightarrow>
     (\<forall>l ws n. list_all is_whitespace ws \<longrightarrow> at_text l (ws @ r) n \<longrightarrow>
        (\<exists>s l'. next_token l = Inr (s, l')))"

lemma lexes_Nil: "lexes []"
  unfolding lexes_def by (metis append_Nil2 next_token_end_at)

lemma lexes_space: "list_all is_whitespace ws \<Longrightarrow> lexes r \<Longrightarrow> lexes (ws @ r)"
  unfolding lexes_def by (metis append_assoc list_all_append)

lemma lexes_value: "stops_word r \<Longrightarrow> lexes (quote s @ r)"
  unfolding lexes_def by (metis next_token_value_at)

lemma lexes_close: "lexes (CHR ''}'' # r)"
  unfolding lexes_def using next_token_brace_at [where t = TokClose] by metis

lemma lexes_comment: "newline \<notin> set c \<Longrightarrow> lexes (comment_text c @ newline # r)"
  unfolding lexes_def by (metis next_token_comment_at)

definition ends_run :: "string \<Rightarrow> nat \<Rightarrow> bool" where
  "ends_run r n \<longleftrightarrow> stops_word r \<and>
     (\<forall>l. at_text l r n \<longrightarrow>
        (\<exists>s l'. next_token l = Inr (s, l') \<and>
           (\<forall>sp v. s = Some sp \<longrightarrow> sp_token sp = TokValue v \<longrightarrow> line (sp_pos sp) \<noteq> n)))"

lemma ends_run_newline: "lexes r \<Longrightarrow> ends_run (newline # r) n"
proof -
  assume r: "lexes r"
  have "\<exists>s l'. next_token l = Inr (s, l') \<and>
      (\<forall>sp v. s = Some sp \<longrightarrow> sp_token sp = TokValue v \<longrightarrow> line (sp_pos sp) \<noteq> n)"
    if at: "at_text l (newline # r) n" for l
  proof -
    have "lexes ([newline] @ r)" using r by (intro lexes_space) auto
    then obtain s l' where "next_token l = Inr (s, l')"
      using at unfolding lexes_def by (metis append_Cons append_Nil list.pred_inject(1))
    then show ?thesis using next_token_next_line at by fastforce
  qed
  then show ?thesis by (simp add: ends_run_def)
qed

lemma ends_run_open: "ends_run ('' {'' @ r) n"
  unfolding ends_run_def
  using next_token_brace_at [of _ "'' ''" "CHR ''{''" r n TokOpen] by fastforce

section \<open>Runs and rounds\<close>

abbreviation more_values :: "string list \<Rightarrow> string" where
  "more_values vs \<equiv> concat (map (\<lambda>v. '' '' @ quote v) vs)"

lemma stops_more_values: "stops_word r \<Longrightarrow> stops_word (more_values vs @ r)"
  by (cases vs) auto

lemma run_stop:
  assumes "ps_at ps r n" and "ends_run r n"
  obtains ps' where "run n ps = Inr ([], ps')" and "ps_at ps' r n"
proof -
  obtain l where l: "at_text l r n"
    "ps_peek ps = (case next_token l of Inl e \<Rightarrow> Inl e
       | Inr (s, l') \<Rightarrow> Inr (s, \<lparr>ps_lexer = l', ps_peeked = s\<rparr>))"
    using assms(1) by (auto simp: ps_at_def)
  then obtain s l' where s: "next_token l = Inr (s, l')"
    "\<forall>sp v. s = Some sp \<longrightarrow> sp_token sp = TokValue v \<longrightarrow> line (sp_pos sp) \<noteq> n"
    using assms(2) by (auto simp: ends_run_def)
  then have pk: "ps_peek ps = Inr (s, \<lparr>ps_lexer = l', ps_peeked = s\<rparr>)" using l by simp
  then have "run n ps = Inr ([], \<lparr>ps_lexer = l', ps_peeked = s\<rparr>)"
    using s(2) by (auto simp: run.simps [of n ps] split: option.splits token.splits)
  then show thesis using that ps_at_peek [OF assms(1) pk] by blast
qed

lemma run_more:
  assumes "ps_at ps (more_values vs @ r) n" and "ends_run r n"
  obtains ps' where "run n ps = Inr (vs, ps')" and "ps_at ps' r n"
proof -
  have "\<exists>ps'. run n ps = Inr (vs, ps') \<and> ps_at ps' r n"
    using assms
  proof (induction vs arbitrary: ps)
    case Nil
    then show ?case using run_stop by (metis append_Nil concat.simps(1) list.map(1))
  next
    case (Cons v vs)
    have at: "ps_at ps ('' '' @ quote v @ (more_values vs @ r)) n" using Cons.prems(1) by simp
    have stop: "stops_word (more_values vs @ r)"
      using Cons.prems(2) by (intro stops_more_values) (simp add: ends_run_def)
    obtain q ps1 ps2 where
      "ps_peek ps = Inr (Some \<lparr>sp_token = TokValue v, sp_pos = q\<rparr>, ps1)" "line q = n"
      "ps_advance ps1 = Inr (Some \<lparr>sp_token = TokValue v, sp_pos = q\<rparr>, ps2)"
      "ps_at ps2 (more_values vs @ r) n"
      by (rule ps_at_value [OF at _ stop]) auto
    then show ?case using Cons.IH [of ps2] Cons.prems(2) by (auto simp: run.simps [of n ps])
  qed
  then show thesis using that by blast
qed

text \<open>A statement: its first value and the run of the others, up to where the line turns.\<close>

lemma statement_at:
  assumes at: "ps_at ps (ws @ quote v @ more_values vs @ r) n" and ws: "list_all is_whitespace ws"
    and r: "ends_run r (n + newlines ws)"
  obtains q ps1 ps2 where "ps_peek ps = Inr (Some \<lparr>sp_token = TokValue v, sp_pos = q\<rparr>, ps1)"
    and "line q = n + newlines ws" and "run (n + newlines ws) ps1 = Inr (v # vs, ps2)"
    and "ps_at ps2 r (n + newlines ws)"
proof -
  have "stops_word (more_values vs @ r)" using r by (intro stops_more_values) (simp add: ends_run_def)
  then obtain q ps1 ps2 where 1: "ps_peek ps = Inr (Some \<lparr>sp_token = TokValue v, sp_pos = q\<rparr>, ps1)"
    "line q = n + newlines ws"
    "ps_advance ps1 = Inr (Some \<lparr>sp_token = TokValue v, sp_pos = q\<rparr>, ps2)"
    "ps_at ps2 (more_values vs @ r) (n + newlines ws)"
    "ps_peek ps1 = Inr (Some \<lparr>sp_token = TokValue v, sp_pos = q\<rparr>, ps1)"
    using ps_at_value [OF at ws] by metis
  obtain ps3 where "run (n + newlines ws) ps2 = Inr (vs, ps3)" "ps_at ps3 r (n + newlines ws)"
    using run_more [OF 1(4) r] .
  then show thesis
    using that [of q ps1 ps3] 1 by (auto simp: run.simps [of "n + newlines ws" ps1])
qed

text \<open>
  \<open>here ps r previous\<close>: after some whitespace comes \<open>r\<close>, on a later line than the previous
  statement.
\<close>

definition here :: "parser \<Rightarrow> string \<Rightarrow> (path \<times> nat) option \<Rightarrow> bool" where
  "here ps r previous \<longleftrightarrow>
     (\<exists>ws n. ps_at ps (ws @ r) n \<and> list_all is_whitespace ws \<and>
        (\<forall>p l. previous = Some (p, l) \<longrightarrow> l < n + newlines ws))"

lemma indent_space [simp]: "list_all is_whitespace (indent d)" "newlines (indent d) = 0"
  by (induction d) (auto simp: indent_def)

lemma here_cases:
  assumes "here ps (indent d @ r) previous"
  obtains ws n where "ps_at ps (ws @ r) n" and "list_all is_whitespace ws"
    and "on_line previous (n + newlines ws) = None"
    and "\<forall>p l. previous = Some (p, l) \<longrightarrow> l < n + newlines ws"
proof -
  obtain ws n where "ps_at ps ((ws @ indent d) @ r) n" "list_all is_whitespace ws"
    "\<forall>p l. previous = Some (p, l) \<longrightarrow> l < n + newlines ws"
    using assms by (auto simp: here_def)
  then show thesis
    by (intro that [of "ws @ indent d" n]) (auto simp: on_line_def split: option.splits)
qed

lemma hereI:
  "ps_at ps (ws @ r) n \<Longrightarrow> list_all is_whitespace ws \<Longrightarrow>
   (\<And>p l. previous = Some (p, l) \<Longrightarrow> l < n + newlines ws) \<Longrightarrow> here ps r previous"
  by (auto simp: here_def)

lemma round_comment:
  assumes "here ps (comment_line_out d c @ r) previous" and "newline \<notin> set c"
  obtains ps' where
    "body_round t pfx opened pending previous ps = Again t (add_pending pending c) previous ps'"
    and "here ps' r previous"
proof -
  have h: "here ps (indent d @ comment_text c @ newline # r) previous"
    using assms(1) by (simp add: comment_line_out_def)
  obtain ws n where ws: "ps_at ps (ws @ comment_text c @ newline # r) n" "list_all is_whitespace ws"
    "on_line previous (n + newlines ws) = None"
    "\<forall>p l. previous = Some (p, l) \<longrightarrow> l < n + newlines ws"
    using here_cases [OF h] .
  obtain q ps1 ps2 where "ps_peek ps = Inr (Some \<lparr>sp_token = TokComment c, sp_pos = q\<rparr>, ps1)"
    "line q = n + newlines ws"
    "ps_advance ps1 = Inr (Some \<lparr>sp_token = TokComment c, sp_pos = q\<rparr>, ps2)"
    "ps_at ps2 (newline # r) (n + newlines ws)"
    using ps_at_comment [OF ws(1,2) assms(2)] .
  moreover from this ws have "here ps2 r previous"
    by (intro hereI [of ps2 "[newline]"]) (auto simp: less_Suc_eq)
  ultimately show thesis using ws(3) by (intro that [of ps2]) (auto simp: body_round_def)
qed

lemma round_leaf:
  assumes "here ps (indent d @ quote name @ more_values vs @ newline # r) previous" and "lexes r"
    and leaf: "\<And>p. leaf t pfx (name # vs) p = Inr (t1, at)"
  obtains ps' previous' where
    "body_round t pfx opened pending previous ps = Again (attach t1 at pending) None previous' ps'"
    and "here ps' r previous'"
proof -
  obtain ws n where ws: "ps_at ps (ws @ quote name @ more_values vs @ newline # r) n"
    "list_all is_whitespace ws"
    using here_cases [OF assms(1)] .
  let ?n = "n + newlines ws"
  obtain q ps1 ps2 where 1: "ps_peek ps = Inr (Some \<lparr>sp_token = TokValue name, sp_pos = q\<rparr>, ps1)"
    "line q = ?n" "run ?n ps1 = Inr (name # vs, ps2)" "ps_at ps2 (newline # r) ?n"
    using statement_at [OF ws ends_run_newline [OF assms(2)]] .
  obtain l where l: "at_text l (newline # r) ?n"
    "ps_peek ps2 = (case next_token l of Inl e \<Rightarrow> Inl e
       | Inr (s, l') \<Rightarrow> Inr (s, \<lparr>ps_lexer = l', ps_peeked = s\<rparr>))"
    using 1(4) by (auto simp: ps_at_def)
  have "ends_run (newline # r) ?n" using assms(2) by (rule ends_run_newline)
  then obtain s l' where s: "next_token l = Inr (s, l')"
    using l(1) by (auto simp: ends_run_def)
  let ?ps = "\<lparr>ps_lexer = l', ps_peeked = s\<rparr>"
  have pk: "ps_peek ps2 = Inr (s, ?ps)" using l(2) s by simp
  have "\<not> opens_on ?n s" using next_token_next_line [OF _ l(1)] s by (auto simp: opens_on_Some)
  then have "body_round t pfx opened pending previous ps =
      Again (attach t1 at pending) None (Some (at, ?n)) ?ps"
    using 1 pk leaf by (auto simp: body_round_def)
  moreover have "here ?ps r (Some (at, ?n))"
    using ps_at_peek [OF 1(4) pk] by (intro hereI [of _ "[newline]"]) auto
  ultimately show thesis by (rule that)
qed

lemma fold_path_child [simp]: "fold (\<lambda>seg p. path_child p seg) vs p = p @ vs"
  by (induction vs arbitrary: p) (auto simp: path_child_def)

lemma path_child_append: "path_child p s @ vs = p @ s # vs"
  by (simp add: path_child_def)

lemma round_open:
  assumes "here ps (indent d @ quote name @ more_values vs @ '' {'' @ newline # r) previous"
    and at: "at = pfx @ name # vs" "ensure_interior at t = (t1, Inr ())"
  obtains ps' q where
    "body_round t pfx opened pending previous ps = Block (attach t1 at pending) at q ps'"
    and "here ps' r None"
proof -
  obtain ws n where ws: "ps_at ps (ws @ quote name @ more_values vs @ '' {'' @ newline # r) n"
    "list_all is_whitespace ws"
    using here_cases [OF assms(1)] .
  let ?n = "n + newlines ws"
  obtain q ps1 ps2 where 1: "ps_peek ps = Inr (Some \<lparr>sp_token = TokValue name, sp_pos = q\<rparr>, ps1)"
    "line q = ?n" "run ?n ps1 = Inr (name # vs, ps2)" "ps_at ps2 ('' {'' @ newline # r) ?n"
    using statement_at [OF ws ends_run_open] .
  have "ps_at ps2 ('' '' @ CHR ''{'' # newline # r) ?n" using 1(4) by simp
  then obtain q2 ps3 ps4 where 2: "ps_peek ps2 = Inr (Some \<lparr>sp_token = TokOpen, sp_pos = q2\<rparr>, ps3)"
    "line q2 = ?n" "ps_advance ps3 = Inr (Some \<lparr>sp_token = TokOpen, sp_pos = q2\<rparr>, ps4)"
    "ps_at ps4 (newline # r) ?n"
    by (rule ps_at_brace) auto
  have "body_round t pfx opened pending previous ps = Block (attach t1 at pending) at q2 ps4"
    using 1 2 at by (simp add: body_round_def opens_on_def Let_def path_child_append)
  moreover have "here ps4 r None"
    using 2(4) by (intro hereI [of _ "[newline]"]) auto
  ultimately show thesis by (rule that)
qed

lemma round_close:
  assumes "here ps (close_line d @ r) previous"
  obtains ps' where "body_round t pfx (Some q) pending previous ps = Leave (Inr (t, ps'))"
    and "here ps' r None"
proof -
  have h: "here ps (indent d @ CHR ''}'' # newline # r) previous"
    using assms by (simp add: close_line_def)
  obtain ws n where "ps_at ps (ws @ CHR ''}'' # newline # r) n" "list_all is_whitespace ws"
    using here_cases [OF h] .
  then obtain q2 ps1 ps2 where 2: "ps_peek ps = Inr (Some \<lparr>sp_token = TokClose, sp_pos = q2\<rparr>, ps1)"
    "ps_advance ps1 = Inr (Some \<lparr>sp_token = TokClose, sp_pos = q2\<rparr>, ps2)"
    "ps_at ps2 (newline # r) (n + newlines ws)"
    by (rule ps_at_brace) auto
  then show thesis
    by (intro that [of ps2] hereI [of _ "[newline]" r "n + newlines ws"]) (auto simp: body_round_def)
qed

lemma round_end:
  assumes "here ps [] previous"
  obtains ps' where "body_round t pfx None pending previous ps = Leave (Inr (t, ps'))"
proof -
  obtain ws n where ws: "ps_at ps ws n" "list_all is_whitespace ws"
    using assms by (auto simp: here_def)
  then obtain l where l: "at_text l ws n"
    "ps_peek ps = (case next_token l of Inl e \<Rightarrow> Inl e
       | Inr (s, l') \<Rightarrow> Inr (s, \<lparr>ps_lexer = l', ps_peeked = s\<rparr>))"
    by (auto simp: ps_at_def)
  obtain l' where "next_token l = Inr (None, l')"
    using next_token_end_at [OF l(1) ws(2)] .
  then have "ps_peek ps = Inr (None, \<lparr>ps_lexer = l', ps_peeked = None\<rparr>)" using l(2) by simp
  then show thesis by (intro that) (simp add: body_round_def)
qed

section \<open>Writing below an existing directory\<close>

definition dir_at :: "path \<Rightarrow> string option \<Rightarrow> kids \<Rightarrow> config_tree \<Rightarrow> bool" where
  "dir_at p c m t \<longleftrightarrow> node_get p (root t) = Some (Node c (Interior m))"

definition put_dir :: "path \<Rightarrow> string option \<Rightarrow> kids \<Rightarrow> config_tree \<Rightarrow> config_tree" where
  "put_dir p c m t = \<lparr>root = node_put p (Node c (Interior m)) (root t)\<rparr>"

lemma bm_insert_twice: "bm_insert k v (bm_insert k w m) = bm_insert k v m"
  by (induction k w m rule: bm_insert.induct) auto

lemma node_put_put: "node_put p x (node_put p y n) = node_put p x n"
  by (induction p y n rule: node_put.induct)
    (auto simp: bm_insert_twice bm.get_insert split: option.splits)

lemma dir_at_put_dir [simp]: "dir_at p c m t \<Longrightarrow> dir_at p c' m' (put_dir p c' m' t)"
  by (simp add: dir_at_def put_dir_def node_put_get)

lemma put_dir_put_dir [simp]: "put_dir p c m (put_dir p c' m' t) = put_dir p c m t"
  by (simp add: put_dir_def node_put_put)

lemma dir_at_child: "dir_at p c m t \<Longrightarrow> bm_get m s = Some y \<Longrightarrow> node_get (p @ [s]) (root t) = Some y"
  by (simp add: dir_at_def node_get_append)

lemma node_put_child:
  "node_get p n = Some (Node c (Interior m)) \<Longrightarrow> bm_get m s = Some y \<Longrightarrow>
   node_put (p @ [s]) x n = node_put p (Node c (Interior (bm_insert s x m))) n"
  by (induction p x n rule: node_put.induct) (auto split: option.splits)

lemma node_get_values [simp]: "node_get p (Node c (Values vs)) \<noteq> Some (Node d (Interior m))"
  by (cases p) auto

lemma parent_upd_at:
  "node_get p n = Some (Node c (Interior m)) \<Longrightarrow>
   parent_upd full seen p k n = (node_put p (Node c (Interior (fst (k m)))) n, snd (k m))"
  by (induction full seen p k n rule: parent_upd.induct) (auto split: option.splits prod.splits)

lemma with_parent_at:
  "dir_at p c m t \<Longrightarrow> with_parent (p @ [s]) k t = (put_dir p c (fst (k m)) t, snd (k m))"
  by (simp add: with_parent_def dir_at_def put_dir_def parent_upd_at)

lemma parent_upd_new:
  "node_get p n = Some (Node c (Interior m)) \<Longrightarrow> bm_get m s = None \<Longrightarrow>
   parent_upd full seen (p @ [s]) k n =
     (node_put p (Node c (Interior (bm_insert s (Node None (Interior (fst (k [])))) m))) n, snd (k []))"
  by (induction full seen p k n rule: parent_upd.induct)
    (auto split: option.splits prod.splits simp: node_interior_def)

lemma with_parent_new:
  "dir_at p c m t \<Longrightarrow> bm_get m s = None \<Longrightarrow>
   with_parent (p @ [s, s']) k t =
     (put_dir p c (bm_insert s (Node None (Interior (fst (k [])))) m) t, snd (k []))"
  using parent_upd_new [of p "root t" c m s "p @ [s, s']" "[]" k]
  by (simp add: with_parent_def dir_at_def put_dir_def butlast_append)

text \<open>\<open>below m s\<close>: \<open>s\<close> comes after every key of \<open>m\<close>, as siblings arrive in a rendered document.\<close>

definition below :: "kids \<Rightarrow> string \<Rightarrow> bool" where
  "below m s \<longleftrightarrow> (\<forall>k \<in> fst ` set m. k < s)"

lemma below_insert [simp]: "below m s \<Longrightarrow> bm_insert s x m = m @ [(s, x)]"
  by (simp add: below_def bm_insert_snoc)

lemma below_replace [simp]: "below m s \<Longrightarrow> bm_insert s x (m @ [(s, y)]) = m @ [(s, x)]"
  by (metis below_insert bm_insert_twice)

lemma below_get [simp]: "below m s \<Longrightarrow> bm_get m s = None"
  by (simp add: below_def bm_get_snoc_new)

lemma below_get_last [simp]: "below m s \<Longrightarrow> ([s \<mapsto> y] ++ bm_get m) s = Some y"
  by (simp add: map_add_def)

lemma tree_add_new:
  "dir_at p c m t \<Longrightarrow> below m s \<Longrightarrow>
   tree_add (p @ [s]) v t = (put_dir p c (m @ [(s, Node None (Values [v]))]) t, Inr ())"
  by (simp add: tree_add_def with_parent_at node_values_def)

lemma tree_add_more:
  "dir_at p c (m @ [(s, Node d (Values vs))]) t \<Longrightarrow> below m s \<Longrightarrow> \<forall>w \<in> set vs. w < v \<Longrightarrow>
   tree_add (p @ [s]) v t = (put_dir p c (m @ [(s, Node d (Values (vs @ [v])))]) t, Inr ())"
  by (simp add: tree_add_def with_parent_at bs_insert_snoc)

lemma declare_leaf_new:
  "dir_at p c m t \<Longrightarrow> below m s \<Longrightarrow>
   declare_leaf (p @ [s]) t = (put_dir p c (m @ [(s, Node None (Values []))]) t, Inr ())"
  by (simp add: declare_leaf_def with_parent_at node_flag_def node_values_def)

lemma ensure_interior_at:
  "dir_at p c m t \<Longrightarrow> below m s \<Longrightarrow>
   ensure_interior (p @ [s]) t = (put_dir p c (m @ [(s, Node None (Interior []))]) t, Inr ())"
  by (simp add: ensure_interior_def with_parent_at node_interior_def)

lemma ensure_interior_two:
  "dir_at p c m t \<Longrightarrow> below m s \<Longrightarrow>
   ensure_interior (p @ [s, s']) t =
     (put_dir p c (m @ [(s, Node None (Interior [(s', Node None (Interior []))]))]) t, Inr ())"
  by (simp add: ensure_interior_def with_parent_new node_interior_def path_last_def)

lemma dir_at_last:
  "dir_at p c (m @ [(s, Node d (Interior m'))]) t \<Longrightarrow> below m s \<Longrightarrow> dir_at (p @ [s]) d m' t"
  by (simp add: dir_at_def node_get_append)

lemma put_dir_last:
  "dir_at p c (m @ [(s, y)]) t \<Longrightarrow> below m s \<Longrightarrow>
   put_dir (p @ [s]) d m' t = put_dir p c (m @ [(s, Node d (Interior m'))]) t"
  using node_put_child [of p "root t" c "m @ [(s, y)]" s y]
  by (simp add: dir_at_def put_dir_def)

lemma attach_last:
  assumes "dir_at p c0 m0 t" and "below m s"
  shows "attach (put_dir p c (m @ [(s, Node None b)]) t) (p @ [s]) pending =
     put_dir p c (m @ [(s, Node pending b)]) t"
proof (cases pending)
  case (Some com)
  let ?t = "put_dir p c (m @ [(s, Node None b)]) t"
  have at: "dir_at p c (m @ [(s, Node None b)]) ?t" using assms(1) by (rule dir_at_put_dir)
  then have get: "node_get (p @ [s]) (root ?t) = Some (Node None b)"
    using assms(2) by (simp add: dir_at_def node_get_append)
  have "node_put (p @ [s]) (Node (Some com) b) (root ?t) =
      node_put p (Node c (Interior (m @ [(s, Node (Some com) b)]))) (root ?t)"
    using node_put_child [of p "root ?t" c "m @ [(s, Node None b)]" s "Node None b"] at assms(2)
    by (simp add: dir_at_def)
  then show ?thesis
    using get Some
    by (simp add: attach_def try_comment_def tree_get_def tree_modify_def put_dir_def node_put_put)
qed (simp add: attach_def)

section \<open>Documents\<close>

text \<open>
  \<open>reads out p d c m m'\<close>: in a body at \<open>p\<close>, with the children \<open>m\<close> read so far, the text
  \<open>out\<close> takes the loop to the children \<open>m'\<close>, whatever follows.
\<close>

definition reads :: "string \<Rightarrow> path \<Rightarrow> nat \<Rightarrow> string option \<Rightarrow> kids \<Rightarrow> kids \<Rightarrow> bool" where
  "reads out p d c m m' \<longleftrightarrow>
     (\<forall>t c0 m0 opened previous ps r.
        dir_at p c0 m0 t \<longrightarrow> here ps (out @ r) previous \<longrightarrow> lexes r \<longrightarrow>
        (\<exists>previous' ps'. here ps' r previous' \<and>
           body_loop (put_dir p c m t) p d opened None previous ps =
           body_loop (put_dir p c m' t) p d opened None previous' ps'))"

lemma readsI:
  assumes "\<And>t c0 m0 opened previous ps r.
      dir_at p c0 m0 t \<Longrightarrow> here ps (out @ r) previous \<Longrightarrow> lexes r \<Longrightarrow>
      \<exists>previous' ps'. here ps' r previous' \<and>
           body_loop (put_dir p c m t) p d opened None previous ps =
           body_loop (put_dir p c m' t) p d opened None previous' ps'"
  shows "reads out p d c m m'"
  using assms by (auto simp: reads_def)

lemma readsD:
  assumes "reads out p d c m m'" and "dir_at p c0 m0 t" and "here ps (out @ r) previous" and "lexes r"
  obtains previous' ps' where "here ps' r previous'"
    and "body_loop (put_dir p c m t) p d opened None previous ps =
         body_loop (put_dir p c m' t) p d opened None previous' ps'"
  using assms unfolding reads_def by blast

lemma reads_Nil: "reads [] p d c m m"
  by (rule readsI) auto

lemma reads_append:
  assumes "reads o1 p d c m m1" and "reads o2 p d c m1 m2" and "\<And>r. lexes r \<Longrightarrow> lexes (o2 @ r)"
  shows "reads (o1 @ o2) p d c m m2"
proof (rule readsI)
  fix t c0 m0 opened previous ps r
  assume t: "dir_at p c0 m0 t" and h: "here ps ((o1 @ o2) @ r) previous" and r: "lexes r"
  obtain previous1 ps1 where 1: "here ps1 (o2 @ r) previous1"
    "body_loop (put_dir p c m t) p d opened None previous ps =
     body_loop (put_dir p c m1 t) p d opened None previous1 ps1"
    using readsD [OF assms(1) t _ assms(3) [OF r]] h by (metis append_assoc)
  obtain previous2 ps2 where "here ps2 r previous2"
    "body_loop (put_dir p c m1 t) p d opened None previous1 ps1 =
     body_loop (put_dir p c m2 t) p d opened None previous2 ps2"
    using readsD [OF assms(2) t 1(1) r] .
  then show "\<exists>previous' ps'. here ps' r previous' \<and>
      body_loop (put_dir p c m t) p d opened None previous ps =
      body_loop (put_dir p c m2 t) p d opened None previous' ps'"
    using 1(2) by auto
qed

lemma join_merge: "join [x] ((a @ x # b) # ls) = a @ x # join [x] (b # ls)"
  by (cases ls) auto

lemma comments_loop:
  assumes "here ps (comment d c @ r) previous"
  obtains ps' where "here ps' r previous"
    and "body_loop t p depth opened None previous ps = body_loop t p depth opened c previous ps'"
proof -
  have lines: "\<exists>ps'. here ps' r previous \<and>
      body_loop t p depth opened pending previous ps =
      body_loop t p depth opened (fold (\<lambda>l q. add_pending q l) ls pending) previous ps'"
    if "here ps (concat (map (comment_line_out d) ls) @ r) previous" "\<forall>l \<in> set ls. newline \<notin> set l"
    for ls pending ps
    using that
  proof (induction ls arbitrary: pending ps)
    case (Cons l ls)
    have h: "here ps (comment_line_out d l @ (concat (map (comment_line_out d) ls) @ r)) previous"
      using Cons.prems(1) by simp
    obtain ps1 where
      "body_round t p opened pending previous ps = Again t (add_pending pending l) previous ps1"
      "here ps1 (concat (map (comment_line_out d) ls) @ r) previous"
      using round_comment [OF h] Cons.prems(2) by (metis list.set_intros(1))
    then show ?case
      using Cons.IH [of ps1 "add_pending pending l"] Cons.prems(2)
      by (simp add: body_loop.simps [of t p depth opened pending])
  qed auto
  have joined: "fold (\<lambda>l q. add_pending q l) ls (Some a) = Some (join [newline] (a # ls))" for a ls
    by (induction ls arbitrary: a) (simp_all add: add_pending_def join_merge)
  show thesis
  proof (cases c)
    case None
    then show ?thesis using that assms by (simp add: comment_def)
  next
    case (Some com)
    obtain l ls where ls: "split_on newline com = l # ls"
      by (metis split_on_nonempty list.exhaust)
    have "fold (\<lambda>l q. add_pending q l) (split_on newline com) None = c"
      using joined [of ls l] join_split_on [of newline com] by (simp add: ls Some add_pending_def)
    then show ?thesis
      using that lines [of ps "split_on newline com" None] assms Some split_on_mem_no_sep
      by (auto simp: comment_def)
  qed
qed

text \<open>A block: its header line, its body, its closing line.\<close>

lemma block_loop:
  assumes round: "body_round t p opened pending previous ps = Block (put_dir q c [] t1) q open ps1"
    and h: "here ps1 (out @ close_line d @ r) None" and depth: "Suc depth \<le> MAX_DEPTH"
    and out: "reads out q (Suc depth) c [] m" and t1: "dir_at q c0 m0 t1"
  obtains ps' where "here ps' r None"
    and "body_loop t p depth opened pending previous ps =
         body_loop (put_dir q c m t1) p depth opened None None ps'"
proof -
  have "lexes (indent d @ CHR ''}'' # newline # r)" by (intro lexes_space lexes_close) simp
  then have "lexes (close_line d @ r)" by (simp add: close_line_def)
  then obtain previous2 ps2 where 2: "here ps2 (close_line d @ r) previous2"
    "body_loop (put_dir q c [] t1) q (Suc depth) (Some open) None None ps1 =
     body_loop (put_dir q c m t1) q (Suc depth) (Some open) None previous2 ps2"
    using readsD [OF out t1 h] by metis
  obtain ps3 where "body_round (put_dir q c m t1) q (Some open) None previous2 ps2 =
      Leave (Inr (put_dir q c m t1, ps3))" "here ps3 r None"
    using round_close [OF 2(1)] .
  then show thesis
    using that [of ps3] round 2(2) depth
    by (simp add: body_loop.simps [of t p] body.simps body_loop.simps [of "put_dir q c m t1" q])
qed

text \<open>Nesting the parser accepts: no block deeper than \<open>MAX_DEPTH\<close>, counting the path.\<close>

fun depth_ok :: "nat \<Rightarrow> node \<Rightarrow> bool" where
  "depth_ok d (Node c (Values vs)) \<longleftrightarrow> True"
| "depth_ok d (Node c (Interior m)) \<longleftrightarrow> d \<le> MAX_DEPTH \<and> list_all (\<lambda>(k, n). depth_ok (Suc d) n) m"

lemma depth_ok_less: "depth_ok d n \<Longrightarrow> d' \<le> d \<Longrightarrow> depth_ok d' n"
proof (induction d n arbitrary: d' rule: depth_ok.induct)
  case (2 d c m)
  then show ?case by (force simp: list_all_iff)
qed simp

lemma lexes_indent: "lexes r \<Longrightarrow> lexes (indent d @ r)"
  by (simp add: lexes_space)

lemma lexes_comments: "lexes r \<Longrightarrow> lexes (comment d c @ r)"
proof (cases c)
  case (Some com)
  obtain l ls where ls: "split_on newline com = l # ls"
    by (metis split_on_nonempty list.exhaust)
  then have "newline \<notin> set l" using split_on_mem_no_sep [of l newline com] by simp
  then have "lexes (indent d @ comment_text l @ newline # concat (map (comment_line_out d) ls) @ r)"
    by (intro lexes_indent lexes_comment)
  then show ?thesis by (simp add: Some comment_def ls comment_line_out_def)
qed (simp add: comment_def)

lemma lexes_leaf_line: "lexes (leaf_line d name v @ r)"
  unfolding leaf_line_def append_assoc by (intro lexes_indent lexes_value) simp

lemma lexes_flag_line: "lexes (flag_line d name @ r)"
  unfolding flag_line_def append_assoc by (intro lexes_indent lexes_value) simp

lemma lexes_header: "lexes (indent d @ quote name @ '' '' @ r)"
  by (intro lexes_indent lexes_value) simp

lemma lexes_entry: "lexes (entry tags name n p d @ r)"
proof (cases n rule: is_interior.cases)
  case (2 c vs)
  have "lexes ((if vs = [] then flag_line d name else []) @ concat (map (leaf_line d name) vs) @ r)"
    using lexes_leaf_line lexes_flag_line by (cases vs) auto
  then show ?thesis by (simp add: 2 lexes_comments)
next
  case (1 c m)
  show ?thesis
  proof (cases "compact tags c m p")
    case True
    then obtain key x m' where m: "m = (key, x) # m'" by (cases m) (auto simp: compact_def)
    then show ?thesis using True lexes_header [of d name]
      by (auto simp: 1 intro!: lexes_comments)
  next
    case False
    have "lexes (indent d @ quote name @ '' '' @ ''{'' @ [newline] @ r)" for r
      by (rule lexes_header)
    with False show ?thesis by (auto simp: 1 intro!: lexes_comments)
  qed
qed

lemma lexes_kids: "lexes r \<Longrightarrow> lexes (children_kids tags m p d @ r)"
  by (cases m) (auto intro: lexes_entry)

lemma lexes_instances: "lexes r \<Longrightarrow> lexes (instances tags name m p d @ r)"
  using lexes_header [of d name] by (cases m) (auto intro!: lexes_comments)

lemma reads_values:
  assumes "below m name" and "bs_ok (us @ ws)"
  shows "reads (concat (map (leaf_line d name) ws)) p dd c
    (m @ [(name, Node e (Values us))]) (m @ [(name, Node e (Values (us @ ws)))])"
  using assms(2)
proof (induction ws arbitrary: us)
  case Nil
  show ?case by (simp add: reads_Nil)
next
  case (Cons w ws)
  have "reads (leaf_line d name w) p dd c
    (m @ [(name, Node e (Values us))]) (m @ [(name, Node e (Values (us @ [w])))])"
  proof (rule readsI)
    fix t c0 m0 opened previous ps r
    assume t: "dir_at p c0 m0 t" and h: "here ps (leaf_line d name w @ r) previous" and r: "lexes r"
    let ?t = "put_dir p c (m @ [(name, Node e (Values us))]) t"
    let ?t1 = "put_dir p c (m @ [(name, Node e (Values (us @ [w])))]) t"
    have line: "here ps (indent d @ quote name @ more_values [w] @ newline # r) previous"
      using h by (simp add: leaf_line_def)
    have leaf: "leaf ?t p [name, w] q = Inr (?t1, p @ [name])" for q
      using tree_add_more [OF dir_at_put_dir [OF t] assms(1), of us w c e] Cons.prems
      by (simp add: leaf_def path_child_def sorted_wrt_append Let_def)
    obtain ps' previous' where
      "body_round ?t p opened None previous ps = Again (attach ?t1 (p @ [name]) None) None previous' ps'"
      "here ps' r previous'"
      using round_leaf [OF line r leaf] .
    then show "\<exists>previous' ps'. here ps' r previous' \<and>
        body_loop ?t p dd opened None previous ps = body_loop ?t1 p dd opened None previous' ps'"
      by (auto simp: body_loop.simps [of ?t] attach_def)
  qed
  moreover have "reads (concat (map (leaf_line d name) ws)) p dd c
    (m @ [(name, Node e (Values (us @ [w])))]) (m @ [(name, Node e (Values ((us @ [w]) @ ws)))])"
    using Cons.prems by (intro Cons.IH) simp
  moreover have "lexes (concat (map (leaf_line d name) ws) @ r)" if "lexes r" for r
    using that lexes_leaf_line by (cases ws) auto
  ultimately show ?case by (auto intro: reads_append)
qed

lemma reads_leaf:
  assumes name: "below m name" and vs: "bs_ok vs"
  shows "reads (entry tags name (Node e (Values vs)) (p @ [name]) d) p d c
    m (m @ [(name, Node e (Values vs))])"
proof -
  define first where "first = (case vs of [] \<Rightarrow> [] | v # _ \<Rightarrow> [v])"
  have split: "vs = first @ tl vs" by (cases vs) (auto simp: first_def)
  let ?line = "indent d @ quote name @ more_values first @ [newline]"
  have out: "entry tags name (Node e (Values vs)) (p @ [name]) d =
      (comment d e @ ?line) @ concat (map (leaf_line d name) (tl vs))"
    by (cases vs) (auto simp: first_def flag_line_def leaf_line_def)
  have "reads (comment d e @ ?line) p d c m (m @ [(name, Node e (Values first))])"
  proof (rule readsI)
    fix t c0 m0 opened previous ps r
    assume t: "dir_at p c0 m0 t" and h: "here ps ((comment d e @ ?line) @ r) previous" and r: "lexes r"
    let ?t = "put_dir p c m t" and ?t1 = "\<lambda>e. put_dir p c (m @ [(name, Node e (Values first))]) t"
    have "here ps (comment d e @ (indent d @ quote name @ more_values first @ newline # r)) previous"
      using h by simp
    then obtain ps1 where 1: "here ps1 (indent d @ quote name @ more_values first @ newline # r) previous"
      "body_loop ?t p d opened None previous ps = body_loop ?t p d opened e previous ps1"
      by (rule comments_loop)
    have leaf: "leaf ?t p (name # first) q = Inr (?t1 None, p @ [name])" for q
      using tree_add_new [OF dir_at_put_dir [OF t] name] declare_leaf_new [OF dir_at_put_dir [OF t] name]
      by (cases vs) (simp_all add: first_def leaf_def Let_def path_child_def)
    obtain ps' previous' where
      "body_round ?t p opened e previous ps1 = Again (attach (?t1 None) (p @ [name]) e) None previous' ps'"
      "here ps' r previous'"
      using round_leaf [OF 1(1) r leaf] .
    moreover have "attach (?t1 None) (p @ [name]) e = ?t1 e" by (rule attach_last [OF t name])
    ultimately show "\<exists>previous' ps'. here ps' r previous' \<and>
        body_loop ?t p d opened None previous ps = body_loop (?t1 e) p d opened None previous' ps'"
      using 1(2) by (auto simp: body_loop.simps [of ?t _ _ _ e])
  qed
  moreover have "reads (concat (map (leaf_line d name) (tl vs))) p d c
      (m @ [(name, Node e (Values first))]) (m @ [(name, Node e (Values vs))])"
    using reads_values [OF name, of first "tl vs"] vs split by metis
  moreover have "lexes (concat (map (leaf_line d name) (tl vs)) @ r)" if "lexes r" for r
    using that lexes_leaf_line by (cases "tl vs") auto
  ultimately show ?thesis unfolding out by (rule reads_append)
qed

text \<open>
  A block read from its header: \<open>vs\<close> are the names after the first, and \<open>m'\<close> the children
  of \<open>p\<close> once the header has created what it names, with nothing yet in it.
\<close>

lemma reads_block:
  assumes head: "\<And>t c0 m0. dir_at p c0 m0 t \<Longrightarrow>
      \<exists>t1. ensure_interior (p @ name # vs) (put_dir p c m t) = (t1, Inr ()) \<and>
        (\<exists>c1 m1 t2. attach t1 (p @ name # vs) e = put_dir (p @ name # vs) e [] t2 \<and>
           dir_at (p @ name # vs) c1 m1 t2 \<and>
           put_dir (p @ name # vs) e k t2 = put_dir p c m' t)"
    and out: "reads out (p @ name # vs) (Suc d) e [] k" and depth: "Suc d \<le> MAX_DEPTH"
  shows "reads (comment d e @ indent d @ quote name @ more_values vs @ '' {'' @ [newline] @
      out @ close_line d) p d c m m'"
proof (rule readsI)
  fix t c0 m0 opened previous ps r
  assume t: "dir_at p c0 m0 t" and r: "lexes r"
    and h: "here ps ((comment d e @ indent d @ quote name @ more_values vs @ '' {'' @ [newline] @
      out @ close_line d) @ r) previous"
  let ?t = "put_dir p c m t" and ?q = "p @ name # vs"
  have "here ps (comment d e @ (indent d @ quote name @ more_values vs @ '' {'' @ newline #
      (out @ close_line d @ r))) previous"
    using h by simp
  then obtain ps1 where 1:
    "here ps1 (indent d @ quote name @ more_values vs @ '' {'' @ newline # (out @ close_line d @ r)) previous"
    "body_loop ?t p d opened None previous ps = body_loop ?t p d opened e previous ps1"
    by (rule comments_loop)
  obtain t1 c1 m1 t2 where t1: "ensure_interior ?q ?t = (t1, Inr ())"
    "attach t1 ?q e = put_dir ?q e [] t2" "dir_at ?q c1 m1 t2" "put_dir ?q e k t2 = put_dir p c m' t"
    using head [OF t] by blast
  obtain ps2 q where 2: "body_round ?t p opened e previous ps1 = Block (put_dir ?q e [] t2) ?q q ps2"
    "here ps2 (out @ close_line d @ r) None"
    using round_open [OF 1(1) refl t1(1), of opened e] t1(2) by metis
  obtain ps3 where "here ps3 r None"
    "body_loop ?t p d opened e previous ps1 = body_loop (put_dir ?q e k t2) p d opened None None ps3"
    using block_loop [OF 2 depth out t1(3)] .
  then show "\<exists>previous' ps'. here ps' r previous' \<and>
      body_loop ?t p d opened None previous ps = body_loop (put_dir p c m' t) p d opened None previous' ps'"
    using 1(2) t1(4) by auto
qed

lemma new_block:
  assumes t: "dir_at p c0 m0 t" and name: "below m name"
  shows "\<exists>c1 m1 t2. attach (put_dir p c (m @ [(name, Node None (Interior []))]) t) (p @ [name]) e =
      put_dir (p @ [name]) e [] t2 \<and> dir_at (p @ [name]) c1 m1 t2 \<and>
      put_dir (p @ [name]) e k t2 = put_dir p c (m @ [(name, Node e (Interior k))]) t"
proof -
  let ?t2 = "put_dir p c (m @ [(name, Node e (Interior []))]) t"
  have at: "dir_at p c (m @ [(name, Node e (Interior []))]) ?t2" using t by (rule dir_at_put_dir)
  show ?thesis
    using attach_last [OF t name] dir_at_last [OF at name] put_dir_last [OF at name]
    by (intro exI [of _ e] exI [of _ "[]"] exI [of _ ?t2]) simp
qed

lemma reads_nested:
  assumes name: "below m name" and out: "reads out (p @ [name]) (Suc d) e [] k"
    and depth: "Suc d \<le> MAX_DEPTH"
  shows "reads (comment d e @ indent d @ quote name @ '' {'' @ [newline] @ out @ close_line d) p d c
    m (m @ [(name, Node e (Interior k))])"
proof -
  have "\<exists>t1. ensure_interior (p @ name # []) (put_dir p c m t) = (t1, Inr ()) \<and>
      (\<exists>c1 m1 t2. attach t1 (p @ name # []) e = put_dir (p @ name # []) e [] t2 \<and>
         dir_at (p @ name # []) c1 m1 t2 \<and>
         put_dir (p @ name # []) e k t2 = put_dir p c (m @ [(name, Node e (Interior k))]) t)"
    if t: "dir_at p c0 m0 t" for t c0 m0
    using ensure_interior_at [OF dir_at_put_dir [OF t] name] new_block [OF t name] by simp
  from reads_block [where vs = "[]", OF this] out depth show ?thesis by simp
qed

text \<open>The children of \<open>p\<close> while the instances of the tag node \<open>name\<close> are being read.\<close>

definition with_instances :: "kids \<Rightarrow> string \<Rightarrow> kids \<Rightarrow> kids" where
  "with_instances m name is = (if is = [] then m else m @ [(name, Node None (Interior is))])"

lemma reads_instance:
  assumes name: "below m name" and key: "below is key"
    and out: "reads out (p @ [name, key]) (Suc d) e [] k" and depth: "Suc d \<le> MAX_DEPTH"
  shows "reads (comment d e @ indent d @ quote name @ '' '' @ quote key @ '' {'' @ [newline] @
      out @ close_line d) p d c
    (with_instances m name is) (with_instances m name (is @ [(key, Node e (Interior k))]))"
proof -
  have "\<exists>t1. ensure_interior (p @ name # [key]) (put_dir p c (with_instances m name is) t) = (t1, Inr ()) \<and>
      (\<exists>c1 m1 t2. attach t1 (p @ name # [key]) e = put_dir (p @ name # [key]) e [] t2 \<and>
         dir_at (p @ name # [key]) c1 m1 t2 \<and>
         put_dir (p @ name # [key]) e k t2 =
         put_dir p c (with_instances m name (is @ [(key, Node e (Interior k))])) t)"
    if t: "dir_at p c0 m0 t" for t c0 m0
  proof -
    let ?x = "put_dir p c (m @ [(name, Node None (Interior is))]) t"
    have at: "dir_at p c (m @ [(name, Node None (Interior is))]) ?x" using t by (rule dir_at_put_dir)
    note x = dir_at_last [OF at name] and put_x = put_dir_last [OF at name]
    have "ensure_interior (p @ [name, key]) (put_dir p c (with_instances m name is) t) =
        (put_dir (p @ [name]) None (is @ [(key, Node None (Interior []))]) ?x, Inr ())"
    proof (cases "is = []")
      case True
      then show ?thesis
        using ensure_interior_two [OF dir_at_put_dir [OF t] name] put_x
        by (simp add: with_instances_def)
    next
      case False
      then show ?thesis using ensure_interior_at [OF x key] by (simp add: with_instances_def)
    qed
    then show ?thesis
      using new_block [OF x key, of None e k] put_x by (simp add: with_instances_def)
  qed
  from reads_block [where vs = "[key]", OF this] out depth show ?thesis by simp
qed

definition fresh_kids :: "nat \<Rightarrow> kids \<Rightarrow> kids \<Rightarrow> bool" where
  "fresh_kids d m0 m \<longleftrightarrow> kids_ok m \<and> (\<forall>k \<in> fst ` set m. below m0 k) \<and>
     list_all (\<lambda>(k, n). depth_ok d n) m"

lemma fresh_kids_Cons:
  assumes "fresh_kids d m0 ((s, n) # m)"
  shows "below m0 s" "node_ok n" "depth_ok d n" "fresh_kids d (m0 @ [(s, x)]) m"
  using assms by (auto simp: fresh_kids_def kids_ok_def bm_ok_Cons below_def)

lemma fresh_kids_interior:
  "node_ok (Node c (Interior m)) \<Longrightarrow> depth_ok d (Node c (Interior m)) \<Longrightarrow>
   d \<le> MAX_DEPTH \<and> fresh_kids (Suc d) [] m"
  by (auto simp: fresh_kids_def node_ok_kids below_def simp del: node_ok.simps)

lemma reads_render:
  "\<And>c m. n = Node c (Interior m) \<Longrightarrow> fresh_kids (Suc d) [] m \<Longrightarrow>
     reads (children tags n p d) p d e [] m"
  "\<And>m0. fresh_kids (Suc d) m0 m \<Longrightarrow> reads (children_kids tags m p d) p d e m0 (m0 @ m)"
  "\<And>p' m0. p = p' @ [name] \<Longrightarrow> below m0 name \<Longrightarrow> node_ok n \<Longrightarrow> depth_ok (Suc d) n \<Longrightarrow>
     reads (entry tags name n p d) p' d e m0 (m0 @ [(name, n)])"
  "\<And>p' m0 is. p = p' @ [name] \<Longrightarrow> below m0 name \<Longrightarrow> fresh_kids (Suc d) is m \<Longrightarrow>
     list_all (\<lambda>(k, n). is_interior n) m \<Longrightarrow>
     reads (instances tags name m p d) p' d e (with_instances m0 name is) (with_instances m0 name (is @ m))"
proof (induction tags n p d and tags m p d and tags name n p d and tags name m p d arbitrary: e and e and e and e
    rule: children_children_kids_entry_instances.induct)
  case (2 tags c m p d)
  then show ?case by fastforce
next
  case (3 tags p d)
  show ?case by (simp add: reads_Nil)
next
  case (4 tags name n m p d)
  note n = fresh_kids_Cons [OF "4.prems"]
  have "reads (entry tags name n (p @ [name]) d) p d e m0 (m0 @ [(name, n)])"
    using "4.IH"(1) n by (auto simp: path_child_def)
  moreover have "reads (children_kids tags m p d) p d e (m0 @ [(name, n)]) ((m0 @ [(name, n)]) @ m)"
    using n(4) by (rule "4.IH"(2))
  ultimately show ?case
    by (auto simp: path_child_def intro: reads_append lexes_kids)
next
  case (5 tags name c vs p d)
  then show ?case using reads_leaf [of m0 name vs tags c p' d e] by simp
next
  case (6 tags name c m p d)
  have m: "Suc d \<le> MAX_DEPTH" "fresh_kids (Suc (Suc d)) [] m"
    using fresh_kids_interior "6.prems" by blast+
  show ?case
  proof (cases "compact tags c m p")
    case True
    have "fresh_kids (Suc d) [] m"
      using m(2) depth_ok_less by (auto simp: fresh_kids_def list_all_iff)
    then show ?thesis
      using "6.IH"(1) [OF True "6.prems"(1,2), of "[]" e] True
      by (auto simp: compact_def with_instances_def split: if_splits)
  next
    case False
    show ?thesis
      using False "6.IH"(2) [OF False m(2)] "6.prems"(1) reads_nested [OF "6.prems"(2) _ m(1)]
      by (simp add: append_assoc [symmetric] del: append_assoc)
  qed
next
  case (7 tags name p d)
  show ?case by (simp add: reads_Nil)
next
  case (8 tags name key n m p d)
  note n = fresh_kids_Cons [OF "8.prems"(3)]
  obtain c k where nk: "n = Node c (Interior k)"
    using "8.prems"(4) by (cases n rule: is_interior.cases) auto
  have k: "Suc d \<le> MAX_DEPTH" "fresh_kids (Suc (Suc d)) [] k"
    using fresh_kids_interior n(2,3) nk by blast+
  have "reads (children tags n (p @ [key]) (Suc d)) (p @ [key]) (Suc d) c [] k"
    using "8.IH"(1) [OF nk k(2)] by (simp add: path_child_def)
  then have "reads (comment d c @ indent d @ quote name @ '' '' @ quote key @ '' {'' @ [newline] @
      children tags n (p @ [key]) (Suc d) @ close_line d) p' d e
      (with_instances m0 name is) (with_instances m0 name (is @ [(key, n)]))"
    using reads_instance [OF "8.prems"(2) n(1) _ k(1)] "8.prems"(1) by (simp add: nk)
  moreover have "reads (instances tags name m p d) p' d e
      (with_instances m0 name (is @ [(key, n)])) (with_instances m0 name ((is @ [(key, n)]) @ m))"
    using "8.prems"(4) by (intro "8.IH"(2) "8.prems"(1,2) n(4)) simp
  ultimately have "reads ((comment d c @ indent d @ quote name @ '' '' @ quote key @ '' {'' @ [newline] @
      children tags n (p @ [key]) (Suc d) @ close_line d) @ instances tags name m p d) p' d e
      (with_instances m0 name is) (with_instances m0 name ((is @ [(key, n)]) @ m))"
    by (rule reads_append) (rule lexes_instances)
  then show ?case by (simp add: nk path_child_def)
qed simp

section \<open>The round trip\<close>

definition renderable :: "config_tree \<Rightarrow> bool" where
  "renderable t \<longleftrightarrow> tree_ok t \<and> n_comment (root t) = None \<and> depth_ok 0 (root t)"

lemma render_parses:
  assumes "renderable t"
  shows "parse (render tags t) = Inr t"
proof -
  obtain m where t: "t = \<lparr>root = Node None (Interior m)\<rparr>"
    using assms by (cases t; cases "root t" rule: is_interior.cases)
      (auto simp: renderable_def tree_ok_def)
  have m: "fresh_kids (Suc 0) [] m"
    using assms fresh_kids_interior [of None m 0] by (auto simp: renderable_def tree_ok_def t)
  let ?ps = "\<lparr>ps_lexer = lexer_new (render tags t), ps_peeked = None\<rparr>"
  have "here ?ps (render tags t @ []) None"
    using ps_at_fresh [OF at_text_new [of "render tags t"]] by (intro hereI [of _ "[]" _ 1]) simp_all
  moreover have "reads (render tags t) [] 0 None [] m"
    using reads_render(1) [OF _ m] by (simp add: render_def t)
  moreover have "dir_at [] None [] tree_new" by (simp add: dir_at_def tree_new_def node_interior_def)
  ultimately obtain previous' ps' where 1: "here ps' [] previous'"
    "body_loop (put_dir [] None [] tree_new) [] 0 None None None ?ps =
     body_loop (put_dir [] None m tree_new) [] 0 None None previous' ps'"
    using lexes_Nil readsD by metis
  obtain ps2 where "body_round (put_dir [] None m tree_new) [] None None previous' ps' =
      Leave (Inr (put_dir [] None m tree_new, ps2))"
    using round_end [OF 1(1)] .
  then have "body_loop tree_new [] 0 None None None ?ps = Inr (t, ps2)"
    using 1(2) by (simp add: body_loop.simps [of "put_dir [] None m tree_new"])
      (simp add: put_dir_def t tree_new_def node_interior_def)
  then show ?thesis by (simp add: parse_def body.simps MAX_DEPTH_def)
qed

text \<open>
  C21. Reading back a rendered configuration gives the configuration: for every tree without
  a comment on its root and nested at most \<open>MAX_DEPTH\<close> deep, and for every choice the schema
  makes of which nodes are written in the compact \<open>tag instance {\<close> form, the parser returns
  exactly that tree, comments, flags and multi-valued leaves included.
\<close>

theorem parse_render:
  assumes "tree_ok t" and "n_comment (root t) = None" and "depth_ok 0 (root t)"
  shows "parse (render tags t) = Inr t"
  using render_parses assms by (simp add: renderable_def)

definition sample_tree :: config_tree where
  "sample_tree = \<lparr>root = Node None (Interior
     [(''interfaces'', Node None (Interior
        [(''ethernet'', Node None (Interior
           [(''eth0'', Node (Some ''the uplink'') (Interior
              [(''address'', Node None (Values [''192.0.2.1/24'', ''198.51.100.1/24''])),
               (''disable'', Node None (Values []))]))]))])),
      (''system'', Node None (Interior
        [(''host-name'', Node (Some ''a b'') (Values [''night shade'']))]))])\<rparr>"

theorem parse_render_witness:
  "parse (render (\<lambda>p. p = [''interfaces'', ''ethernet'']) sample_tree) = Inr sample_tree"
  by (rule parse_render) code_simp+

section \<open>What the parser builds\<close>

text \<open>A tree in order, with no comment on its root.\<close>

definition doc_ok :: "config_tree \<Rightarrow> bool" where
  "doc_ok t \<longleftrightarrow> tree_ok t \<and> n_comment (root t) = None"

lemma doc_ok_view: "doc_ok t \<longleftrightarrow> tree_ok t \<and> map_option fst (view t []) = Some None"
  by (auto simp: doc_ok_def view_def node_view_Nil)

lemma leaf_result_doc:
  "leaf_result g p t (t', Inr u) \<Longrightarrow> doc_ok t \<Longrightarrow> doc_ok t' \<and> p \<noteq> []"
  by (auto simp: leaf_result_def doc_ok_view written_def created_def leaf_place_def)

lemma tree_add_doc: "tree_add p v t = (t', Inr u) \<Longrightarrow> doc_ok t \<Longrightarrow> doc_ok t'"
  using tree_add_result [of t v p] leaf_result_doc by (auto simp: doc_ok_def [of t])

lemma declare_leaf_doc: "declare_leaf p t = (t', Inr u) \<Longrightarrow> doc_ok t \<Longrightarrow> doc_ok t'"
  using declare_leaf_result [of t p] leaf_result_doc by (auto simp: doc_ok_def [of t])

lemma leaf_doc: "leaf t pfx vs q = Inr (t', at) \<Longrightarrow> vs \<noteq> [] \<Longrightarrow> doc_ok t \<Longrightarrow> doc_ok t' \<and> at \<noteq> []"
  by (auto simp: leaf_def Let_def path_child_def split: list.splits prod.splits sum.splits
      dest: tree_add_doc declare_leaf_doc)

lemma try_comment_doc: "try_comment p c t = Some t' \<Longrightarrow> p \<noteq> [] \<Longrightarrow> doc_ok t \<Longrightarrow> doc_ok t'"
proof -
  assume a: "try_comment p c t = Some t'" "p \<noteq> []" "doc_ok t"
  then obtain n where n: "tree_get p t = Some n" "tree_modify p (\<lambda>n. Node (Some c) (n_body n)) t = Some t'"
    by (auto simp: try_comment_def split: option.splits if_splits)
  have "node_ok n" using node_get_ok n(1) a(3) by (auto simp: tree_get_def doc_ok_def tree_ok_def)
  then have "node_ok (Node (Some c) (n_body n))"
    by (cases n rule: is_interior.cases) auto
  then show ?thesis
    using tree_modify_result [of t p n "\<lambda>n. Node (Some c) (n_body n)"] n a(2,3)
    by (auto simp: doc_ok_view)
qed

lemma attach_doc: "p \<noteq> [] \<Longrightarrow> doc_ok t \<Longrightarrow> doc_ok (attach t p c)"
  by (auto simp: attach_def split: option.splits intro: try_comment_doc)

lemma ensure_interior_doc: "ensure_interior p t = (t', Inr u) \<Longrightarrow> doc_ok t \<Longrightarrow> doc_ok t'"
  using ensure_interior_result [of t p]
  by (auto simp: doc_ok_view written_def created_def split: if_splits)

definition prev_ok :: "(path \<times> nat) option \<Rightarrow> bool" where
  "prev_ok previous \<longleftrightarrow> (\<forall>p l. previous = Some (p, l) \<longrightarrow> p \<noteq> [])"

lemma on_line_ok: "prev_ok previous \<Longrightarrow> on_line previous l = Some p \<Longrightarrow> p \<noteq> []"
  by (auto simp: prev_ok_def on_line_def split: option.splits if_splits)

lemma run_nonempty:
  "ps_peek ps = Inr (Some sp, ps1) \<Longrightarrow> sp_token sp = TokValue v \<Longrightarrow>
   run (line (sp_pos sp)) ps1 = Inr (vs, ps2) \<Longrightarrow> vs \<noteq> []"
  using run_first [of ps1 sp v vs ps2] ps_peek_le by fastforce

lemma fold_child_nonempty: "vs \<noteq> [] \<Longrightarrow> fold (\<lambda>seg p. path_child p seg) vs pfx \<noteq> []"
  by (induction vs rule: rev_induct) (auto simp: path_child_def)

lemma body_round_Again_cases:
  assumes "body_round t pfx opened pending previous ps = Again t' pe pr ps'"
  obtains (keep) "t' = t" "pr = previous"
    | (trailing) p l c where "on_line previous l = Some p" "try_comment p c t = Some t'" "pr = previous"
    | (leaf) vs q t1 at l where "leaf t pfx vs q = Inr (t1, at)" "vs \<noteq> []"
        "t' = attach t1 at pending" "pr = Some (at, l)"
proof -
  obtain sp ps1 where pk: "ps_peek ps = Inr (Some sp, ps1)"
    using assms by (auto simp: body_round_def split: sum.splits option.splits)
  show thesis
  proof (cases "sp_token sp")
    case (TokComment c)
    obtain s ps2 where adv: "ps_advance ps1 = Inr (s, ps2)"
      using assms pk TokComment by (auto simp: body_round_def split: sum.splits)
    show thesis
    proof (cases "if pending = None
        then Option.bind (on_line previous (line (sp_pos sp))) (\<lambda>at. try_comment at c t) else None")
      case None
      then have "t' = t \<and> pr = previous" using assms pk TokComment adv by (simp add: body_round_def Let_def)
      then show thesis using keep by blast
    next
      case (Some t1)
      moreover from Some obtain p where "on_line previous (line (sp_pos sp)) = Some p" "try_comment p c t = Some t1"
        by (auto simp: bind_eq_Some_conv split: if_splits)
      moreover have "t' = t1 \<and> pr = previous" using assms pk TokComment adv Some by (simp add: body_round_def Let_def)
      ultimately show thesis using trailing by blast
    qed
  next
    case (TokValue v)
    then obtain vs ps2 s ps3 where run: "run (line (sp_pos sp)) ps1 = Inr (vs, ps2)" "ps_peek ps2 = Inr (s, ps3)"
      using assms pk by (auto simp: body_round_def Let_def split: sum.splits)
    then have "\<not> opens_on (line (sp_pos sp)) s"
      using assms pk TokValue
      by (auto simp: body_round_def Let_def split: sum.splits option.splits prod.splits)
    then obtain t1 at where "leaf t pfx vs (sp_pos sp) = Inr (t1, at)"
      "t' = attach t1 at pending" "pr = Some (at, line (sp_pos sp))"
      using assms pk TokValue run by (auto simp: body_round_def Let_def split: sum.splits)
    then show thesis using leaf run_nonempty [OF pk TokValue run(1)] by blast
  qed (use assms pk in \<open>auto simp: body_round_def Let_def split: sum.splits\<close>)
qed

lemma body_round_Again_doc:
  assumes "body_round t pfx opened pending previous ps = Again t' pe pr ps'"
    and "doc_ok t" and "prev_ok previous"
  shows "doc_ok t' \<and> prev_ok pr"
  using assms(1)
proof (cases rule: body_round_Again_cases)
  case (trailing p l c)
  then show ?thesis using assms try_comment_doc on_line_ok by blast
next
  case (leaf vs q t1 at l)
  then show ?thesis using leaf_doc [OF leaf(1,2) assms(2)] by (auto simp: prev_ok_def attach_doc)
qed (use assms in auto)

lemma body_round_Block_doc:
  "body_round t pfx opened pending previous ps = Block t' at q ps' \<Longrightarrow> doc_ok t \<Longrightarrow> doc_ok t'"
  by (auto simp: body_round_def Let_def
      split: sum.splits option.splits token.splits if_splits prod.splits
      dest!: run_nonempty dest: ensure_interior_doc intro!: attach_doc fold_child_nonempty)

lemma body_round_Leave_doc:
  "body_round t pfx opened pending previous ps = Leave (Inr (t', ps')) \<Longrightarrow> t' = t"
  by (auto simp: body_round_def Let_def
      split: sum.splits option.splits token.splits if_splits prod.splits)

lemma body_doc:
  "doc_ok t \<Longrightarrow> body t pfx depth opened ps = Inr (t', ps') \<Longrightarrow> doc_ok t'"
  "doc_ok t \<Longrightarrow> prev_ok previous \<Longrightarrow>
   body_loop t pfx depth opened pending previous ps = Inr (t', ps') \<Longrightarrow> doc_ok t'"
proof (induction t pfx depth opened ps and t pfx depth opened pending previous ps
    arbitrary: t' ps' and t' ps' rule: body_body_loop.induct)
  case (1 t pfx depth opened ps)
  then show ?case by (auto simp: body.simps prev_ok_def split: if_splits)
next
  case (2 t pfx depth opened pending previous ps)
  show ?case
  proof (cases "body_round t pfx opened pending previous ps")
    case (Leave r)
    then show ?thesis using "2.prems" 
      by (auto simp: body_loop.simps [of t pfx depth opened pending previous ps] dest: body_round_Leave_doc)
  next
    case (Again t1 pe pr ps1)
    then have "body_loop t1 pfx depth opened pe pr ps1 = Inr (t', ps')"
      using "2.prems"(3) by (simp add: body_loop.simps [of t pfx depth opened pending previous ps])
    then show ?thesis
      using "2.IH"(1) [OF Again] body_round_Again_doc [OF Again "2.prems"(1,2)] by blast
  next
    case (Block t1 at q ps1)
    then obtain t2 ps2 where b: "body t1 at (Suc depth) (Some q) ps1 = Inr (t2, ps2)"
      "body_loop t2 pfx depth opened None None ps2 = Inr (t', ps')"
      using "2.prems"(3) 
      by (auto simp: body_loop.simps [of t pfx depth opened pending previous ps] split: sum.splits)
    then have "doc_ok t2" using "2.IH"(2) [OF Block] body_round_Block_doc [OF Block] "2.prems"(1) by blast
    then show ?thesis using "2.IH"(3) [OF Block b(1) refl _ _ b(2)] by (simp add: prev_ok_def)
  qed
qed

lemma tree_new_doc: "doc_ok tree_new"
  by (simp add: doc_ok_def tree_new_def node_interior_def tree_ok_def)

lemma parse_doc: "parse src = Inr t \<Longrightarrow> doc_ok t"
  using body_doc(1) [OF tree_new_doc] by (auto simp: parse_def split: sum.splits)

text \<open>
  Whatever text it is given, the parser comes back with an error or with a configuration
  in order: every map sorted without duplicates, every value set likewise, the root a container.
\<close>

lemma parse_tree_ok: "case parse src of Inl e \<Rightarrow> True | Inr t \<Rightarrow> tree_ok t \<and> n_comment (root t) = None"
  using parse_doc by (auto simp: doc_ok_def split: sum.splits)

text \<open>
  Saving normalises once: a file the program could read is, once saved, read back as the
  same configuration, and saving that again writes the same bytes.
\<close>

lemma save_idempotent:
  assumes "parse src = Inr t" and "depth_ok 0 (root t)"
  shows "parse (render tags t) = Inr t \<and>
    map_sum id (render tags) (parse (render tags t)) = (Inr (render tags t) :: parse_error + string)"
  using render_parses [of t tags] parse_doc [OF assms(1)] assms(2)
  by (simp add: renderable_def doc_ok_def)

definition untidy_text :: string where
  "untidy_text = ''b { c f # x'' @ [newline] @ ''} /* two */ a''"

definition untidy_tree :: config_tree where
  "untidy_tree = \<lparr>root = Node None (Interior
     [(''a'', Node (Some ''two'') (Values [])),
      (''b'', Node None (Interior [(''c'', Node (Some ''x'') (Values [''f'']))]))])\<rparr>"

end
