(* ===== verification/Config_Spec.thy ===== *)
theory Config_Spec
  imports Config_Laws
begin

text \<open>
  The abstract specification of the configuration tree and the refinement of it: an abstract
  configuration is a partial map from paths, an edit is a partial function on it, and every
  editing method of \<open>ConfigTree\<close> computes that function. Because a tree in order is determined
  by its view, what the methods do is fixed by these statements completely.
\<close>

section \<open>The specification of the edits\<close>

text \<open>
  Writing a leaf: refused at the root, on a container, and below a leaf; otherwise the new
  value set is stored at the path, the missing ancestors appear as containers, and the
  comment the leaf carried stays.
\<close>

definition spec_write :: "(string list \<Rightarrow> string list) \<Rightarrow> path \<Rightarrow> aconfig \<Rightarrow> aconfig option" where
  "spec_write g p a =
     (if leaf_place p a
      then Some (written p (old_comment p a, KLeaf (g (old_values p a))) a)
      else None)"

definition spec_container :: "path \<Rightarrow> aconfig \<Rightarrow> aconfig option" where
  "spec_container p a =
     (if \<exists>q. prefix q p \<and> is_leaf_at a q then None
      else Some (if a p = None then written p (None, KDir) a else a))"

definition spec_remove :: "path \<Rightarrow> aconfig \<Rightarrow> aconfig \<times> bool" where
  "spec_remove p a =
     (if p = [] then (\<lambda>q. if q = [] then Some (None, KDir) else None, True)
      else (removed p a, a p \<noteq> None))"

definition spec_remove_value :: "path \<Rightarrow> string \<Rightarrow> aconfig \<Rightarrow> aconfig \<times> bool" where
  "spec_remove_value p v a =
     (case a p of
        Some (c, KLeaf vs) \<Rightarrow>
          if v \<notin> set vs then (a, False)
          else if bs_remove v vs = [] then (removed p a, True)
          else (a(p := Some (c, KLeaf (bs_remove v vs))), True)
      | _ \<Rightarrow> (a, False))"

text \<open>A method implements a specification: it refuses with the tree untouched, or computes it.\<close>

definition implements ::
  "config_tree \<times> (tree_error + unit) \<Rightarrow> config_tree \<Rightarrow> aconfig option \<Rightarrow> bool" where
  "implements res t spec \<longleftrightarrow>
     (case res of
        (t', Inl e) \<Rightarrow> spec = None \<and> t' = t
      | (t', Inr u) \<Rightarrow> spec = Some (view t') \<and> tree_ok t')"

lemma leaf_result_implements:
  "leaf_result g p t res \<Longrightarrow> implements res t (spec_write g p (view t))"
  by (auto simp: leaf_result_def implements_def spec_write_def split: prod.splits sum.splits)

section \<open>The methods\<close>

lemma leaf_methods_refine:
  assumes "tree_ok t"
  shows "implements (tree_set p v t) t (spec_write (\<lambda>_. [v]) p (view t)) \<and>
    implements (tree_add p v t) t (spec_write (bs_insert v) p (view t)) \<and>
    implements (set_flag p t) t (spec_write (\<lambda>_. []) p (view t)) \<and>
    implements (declare_leaf p t) t (spec_write (\<lambda>vs. vs) p (view t))"
  using assms tree_set_result tree_add_result set_flag_result declare_leaf_result
  by (auto intro: leaf_result_implements)

definition iface_tree :: config_tree where
  "iface_tree = \<lparr>root = Node None (Interior
     [(''interfaces'', Node None (Interior
        [(''eth0'', Node (Some ''uplink'') (Interior
           [(''address'', Node None (Values [''192.0.2.1/24'', ''198.51.100.1/24''])),
            (''mtu'', Node None (Values [''1500'']))]))]))])\<rparr>"

lemma iface_tree_ok: "tree_ok iface_tree"
  by code_simp

text \<open>
  \<open>ensure_interior\<close>, \<open>remove\<close> and \<open>remove_value\<close> do exactly what the specification says:
  a container appears with its ancestors or the call is refused because a leaf is in the way,
  a removal takes the node and everything below it and nothing else, and taking the last value
  of a leaf takes the leaf.
\<close>

lemma container_methods_refine:
  assumes "tree_ok t"
  shows "implements (ensure_interior p t) t (spec_container p (view t)) \<and>
    (case tree_remove p t of (t', b) \<Rightarrow> tree_ok t' \<and> (view t', b) = spec_remove p (view t)) \<and>
    (case tree_remove_value p v t of (t', b) \<Rightarrow>
       tree_ok t' \<and> (view t', b) = spec_remove_value p v (view t))"
proof (intro conjI)
  show "implements (ensure_interior p t) t (spec_container p (view t))"
    using ensure_interior_result [OF assms, of p]
    by (auto simp: implements_def spec_container_def split: prod.splits sum.splits)
  show "case tree_remove p t of (t', b) \<Rightarrow> tree_ok t' \<and> (view t', b) = spec_remove p (view t)"
  proof (cases "p = []")
    case True
    then show ?thesis using tree_new_ok view_tree_new
      by (simp add: tree_remove_def path_split_last_def spec_remove_def tree_new_def)
  next
    case False
    then show ?thesis using tree_remove_result [OF assms False]
      by (auto simp: spec_remove_def split: prod.splits)
  qed
  show "case tree_remove_value p v t of (t', b) \<Rightarrow>
       tree_ok t' \<and> (view t', b) = spec_remove_value p v (view t)"
    using tree_remove_value_result [OF assms, of p v]
    by (auto simp: spec_remove_value_def split: prod.splits option.splits kind.splits if_splits)
qed

text \<open>
  C25. Every method that edits the tree does exactly what the specification says. \<open>set\<close> replaces
  the values of a leaf, \<open>add\<close> inserts one, \<open>set_flag\<close> empties them, \<open>declare_leaf\<close> keeps them;
  \<open>ensure_interior\<close> makes a container with its ancestors; each of these is refused, with the tree
  untouched, when a leaf or a container is in the way. A removal takes the node and everything below
  it and nothing else, and taking the last value of a leaf takes the leaf.
\<close>

theorem tree_methods_refine:
  assumes "tree_ok t"
  shows "implements (tree_set p v t) t (spec_write (\<lambda>_. [v]) p (view t)) \<and>
    implements (tree_add p v t) t (spec_write (bs_insert v) p (view t)) \<and>
    implements (set_flag p t) t (spec_write (\<lambda>_. []) p (view t)) \<and>
    implements (declare_leaf p t) t (spec_write (\<lambda>vs. vs) p (view t)) \<and>
    implements (ensure_interior p t) t (spec_container p (view t)) \<and>
    (case tree_remove p t of (t', b) \<Rightarrow> tree_ok t' \<and> (view t', b) = spec_remove p (view t)) \<and>
    (case tree_remove_value p v t of (t', b) \<Rightarrow>
       tree_ok t' \<and> (view t', b) = spec_remove_value p v (view t))"
  using leaf_methods_refine [OF assms, where p = p and v = v]
    container_methods_refine [OF assms, where p = p and v = v]
  by (elim conjE) (intro conjI; assumption)

theorem tree_methods_refine_witness:
  "implements (tree_set [''interfaces'', ''eth0'', ''mtu''] ''9000'' iface_tree) iface_tree
     (spec_write (\<lambda>_. [''9000'']) [''interfaces'', ''eth0'', ''mtu''] (view iface_tree)) \<and>
   snd (tree_set [''interfaces'', ''eth0'', ''mtu''] ''9000'' iface_tree) = Inr () \<and>
   snd (tree_set [''interfaces''] ''9000'' iface_tree) = Inl (NotALeaf [''interfaces''])"
proof -
  have "snd (tree_set [''interfaces'', ''eth0'', ''mtu''] ''9000'' iface_tree) = Inr ()" by code_simp
  moreover have "snd (tree_set [''interfaces''] ''9000'' iface_tree) = Inl (NotALeaf [''interfaces''])"
    by code_simp
  ultimately show ?thesis using tree_methods_refine [OF iface_tree_ok] by blast
qed

section \<open>Order of edits\<close>

lemma leaf_place_written:
  "leaf_place q (written p (c, KLeaf vs) a) \<Longrightarrow> leaf_place p a \<Longrightarrow> p \<noteq> q \<Longrightarrow>
   leaf_place q a \<and> leaf_place p (written q (d, KLeaf ws) a) \<and>
   \<not> strict_prefix p q \<and> \<not> strict_prefix q p"
  by (auto simp: leaf_place_def written_def created_def is_leaf_at_def is_dir_at_def
      split: if_splits) (metis (no_types, lifting) kind.exhaust option.exhaust surj_pair)+

lemma written_commute:
  "p \<noteq> q \<Longrightarrow> \<not> strict_prefix p q \<Longrightarrow> \<not> strict_prefix q p \<Longrightarrow>
   written q y (written p x a) = written p x (written q y a)"
  by (auto simp: written_def created_def fun_eq_iff)

lemma written_again: "written p y (written p x a) = written p y a"
  by (auto simp: written_def created_def fun_eq_iff)

lemma old_written [simp]:
  "old_comment p (written p (c, k) a) = c"
  "old_values p (written p (c, KLeaf vs) a) = vs"
  "q \<noteq> p \<Longrightarrow> \<not> strict_prefix q p \<Longrightarrow> old_comment q (written p x a) = old_comment q a"
  "q \<noteq> p \<Longrightarrow> \<not> strict_prefix q p \<Longrightarrow> old_values q (written p x a) = old_values q a"
  by (simp_all add: old_comment_def old_values_def written_def created_def)

lemma spec_write_commute:
  assumes "spec_write (bs_insert v) p a = Some b" and "spec_write (bs_insert w) q b = Some c"
    and ok: "bs_ok (old_values p a)"
  shows "Option.bind (spec_write (bs_insert w) q a) (spec_write (bs_insert v) p) = Some c"
proof (cases "p = q")
  case True
  have "bs_insert w (bs_insert v (old_values p a)) = bs_insert v (bs_insert w (old_values p a))"
    using ok by (intro bs_ext) auto
  moreover have "leaf_place p (written p (d, KLeaf ws) a)" if "leaf_place p a" for d ws
    using that by (auto simp: leaf_place_def written_def created_def is_leaf_at_def is_dir_at_def)
  ultimately show ?thesis
    using assms True by (auto simp: spec_write_def written_again split: if_splits)
next
  case False
  then show ?thesis
    using assms leaf_place_written [where p = p and q = q and a = a]
    by (auto simp: spec_write_def written_commute split: if_splits)
qed

lemma old_values_ok:
  assumes "tree_ok t"
  shows "bs_ok (old_values p (view t))"
proof (cases "view t p")
  case (Some ck)
  then obtain n where n: "tree_get p t = Some n" "node_kind n = snd ck"
    using view_Some_get [of t p "fst ck" "snd ck"] by auto
  then have "node_ok n" using assms node_get_ok by (auto simp: tree_get_def tree_ok_def)
  then show ?thesis using Some n(2)
    by (cases n rule: is_interior.cases; cases ck) (auto simp: old_values_def)
qed (simp add: old_values_def)

text \<open>
  The order in which values are added does not matter: if two \<open>add\<close>s both succeed one way
  round, they succeed the other way round and leave the same tree. This is what makes a
  configuration, its rendering and its diff independent of how an operator typed it.
\<close>

lemma adds_commute:
  assumes "tree_ok t" and "tree_add p v t = (t1, Inr ())" and "tree_add q w t1 = (t2, Inr ())"
  shows "\<exists>t3. tree_add q w t = (t3, Inr ()) \<and> tree_add p v t3 = (t2, Inr ())"
proof -
  have add: "implements (tree_add p v t) t (spec_write (bs_insert v) p (view t))" if "tree_ok t" for p v t
    using that by (intro leaf_result_implements tree_add_result)
  have 1: "spec_write (bs_insert v) p (view t) = Some (view t1)" "tree_ok t1"
    using add [OF assms(1), of p v] assms(2) by (auto simp: implements_def)
  have 2: "spec_write (bs_insert w) q (view t1) = Some (view t2)" "tree_ok t2"
    using add [OF 1(2), of q w] assms(3) by (auto simp: implements_def)
  obtain a where a: "spec_write (bs_insert w) q (view t) = Some a"
    "spec_write (bs_insert v) p a = Some (view t2)"
    using spec_write_commute [OF 1(1) 2(1) old_values_ok [OF assms(1)]]
    by (auto simp: bind_eq_Some_conv)
  obtain t3 where t3: "tree_add q w t = (t3, Inr ())" "view t3 = a" "tree_ok t3"
    using add [OF assms(1), of q w] a(1) by (auto simp: implements_def split: prod.splits sum.splits)
  obtain t4 where "tree_add p v t3 = (t4, Inr ())" "view t4 = view t2" "tree_ok t4"
    using add [OF t3(3), of p v] a(2) t3(2) by (auto simp: implements_def split: prod.splits sum.splits)
  then show ?thesis using t3 view_inj [of t4 t2] 2(2) by auto
qed

end
