(* ===== verification/Diff.thy ===== *)
theory Diff
  imports Config_Laws
begin

text \<open>
  \<open>src/nightshade-schema/src/diff.rs\<close>: differences between two configurations, as the lines
  one has and the other has not. \<open>collect\<close> gathers the lines of a tree into an ordered set and
  reports whether it found any; \<open>diff\<close> compares two such sets, drops the placeholder lines of
  containers present on both sides, and sorts. The lemmas characterise the lines of a tree by
  its view and the changes by membership.
\<close>

section \<open>Changes\<close>

datatype op = Remove | Add

datatype change = Change (ch_path: path) (ch_op: op) (ch_value: "string option")

text \<open>The derived \<open>Ord\<close>s: a removal before an addition; path, then operation, then value.\<close>

instantiation op :: linorder
begin

definition less_eq_op :: "op \<Rightarrow> op \<Rightarrow> bool" where
  "less_eq_op a b \<longleftrightarrow> a = Remove \<or> b = Add"

definition less_op :: "op \<Rightarrow> op \<Rightarrow> bool" where
  "less_op a b \<longleftrightarrow> a = Remove \<and> b = Add"

instance
  by standard (auto simp: less_eq_op_def less_op_def intro: op.exhaust)

end

definition change_key :: "change \<Rightarrow> path \<times> op \<times> string option" where
  "change_key c = (ch_path c, ch_op c, ch_value c)"

lemma change_key_inj: "change_key a = change_key b \<longleftrightarrow> a = b"
  by (cases a; cases b) (auto simp: change_key_def)

instantiation change :: linorder
begin

definition less_eq_change :: "change \<Rightarrow> change \<Rightarrow> bool" where
  "less_eq_change a b \<longleftrightarrow> change_key a \<le> change_key b"

definition less_change :: "change \<Rightarrow> change \<Rightarrow> bool" where
  "less_change a b \<longleftrightarrow> change_key a < change_key b"

instance
proof
  fix x y z :: change
  show "x < y \<longleftrightarrow> x \<le> y \<and> \<not> y \<le> x"
    unfolding less_eq_change_def less_change_def by (rule less_le_not_le)
  show "x \<le> x" unfolding less_eq_change_def by (rule order_refl)
  show "x \<le> y \<Longrightarrow> y \<le> z \<Longrightarrow> x \<le> z" unfolding less_eq_change_def by (rule order_trans)
  show "x \<le> y \<Longrightarrow> y \<le> x \<Longrightarrow> x = y"
    unfolding less_eq_change_def using change_key_inj by (metis order_antisym)
  show "x \<le> y \<or> y \<le> x" unfolding less_eq_change_def by (rule linear)
qed

end

definition show_change :: "change \<Rightarrow> string" where
  "show_change c =
     (case ch_op c of Add \<Rightarrow> ''+'' | Remove \<Rightarrow> ''-'') @ '' '' @ show_path (ch_path c) @
     (case ch_value c of None \<Rightarrow> [] | Some v \<Rightarrow> '' '' @ quote v)"

section \<open>Lines\<close>

type_synonym cfg_line = "path \<times> string option"

fun collect :: "node \<Rightarrow> path \<Rightarrow> cfg_line list \<Rightarrow> cfg_line list \<times> bool"
and collect_kids :: "kids \<Rightarrow> path \<Rightarrow> cfg_line list \<Rightarrow> cfg_line list \<times> bool" where
  "collect (Node c (Values vs)) p out =
     (if vs = [] then (bs_insert (p, None) out, True)
      else (fold (\<lambda>v out. bs_insert (p, Some v) out) vs out, True))"
| "collect (Node c (Interior m)) p out =
     (case collect_kids m p out of
        (out', any) \<Rightarrow>
          if \<not> any \<and> p \<noteq> [] then (bs_insert (p, None) out', True) else (out', any))"
| "collect_kids [] p out = (out, False)"
| "collect_kids ((name, n) # m) p out =
     (case collect n (path_child p name) out of
        (out1, a) \<Rightarrow> (case collect_kids m p out1 of (out2, b) \<Rightarrow> (out2, a \<or> b)))"

definition lines :: "config_tree \<Rightarrow> cfg_line list" where
  "lines t = fst (collect (root t) path_root [])"

definition interior_at :: "path \<Rightarrow> config_tree \<Rightarrow> bool" where
  "interior_at p t = (case tree_get p t of None \<Rightarrow> False | Some n \<Rightarrow> is_interior n)"

definition survives :: "config_tree \<Rightarrow> config_tree \<Rightarrow> path \<Rightarrow> bool" where
  "survives a b p \<longleftrightarrow> interior_at p a \<and> interior_at p b"

definition diff :: "config_tree \<Rightarrow> config_tree \<Rightarrow> change list" where
  "diff a b =
     (let older = lines a; newer = lines b
      in sort (filter (\<lambda>c. ch_value c \<noteq> None \<or> \<not> survives a b (ch_path c))
           (map (\<lambda>(p, v). Change p Add v) (filter (\<lambda>l. l \<notin> set older) newer) @
            map (\<lambda>(p, v). Change p Remove v) (filter (\<lambda>l. l \<notin> set newer) older))))"

section \<open>What the lines of a tree are\<close>

lemma bs_ok_fold_insert: "bs_ok out \<Longrightarrow> bs_ok (fold (\<lambda>v out. bs_insert (f v) out) vs out)"
  by (induction vs arbitrary: out) auto

lemma set_fold_insert: "set (fold (\<lambda>v out. bs_insert (f v) out) vs out) = f ` set vs \<union> set out"
  by (induction vs arbitrary: out) auto

lemma collect_ok:
  "bs_ok out \<Longrightarrow> bs_ok (fst (collect n p out))"
  "bs_ok out \<Longrightarrow> bs_ok (fst (collect_kids m p out))"
  by (induction n p out and m p out rule: collect_collect_kids.induct)
    (auto split: prod.splits simp: bs_ok_fold_insert)

lemma collect_found:
  "p \<noteq> [] \<Longrightarrow> snd (collect n p out)"
  "snd (collect_kids m p out) \<longleftrightarrow> m \<noteq> []"
  by (induction n p out and m p out rule: collect_collect_kids.induct)
    (auto split: prod.splits simp: path_child_def)

text \<open>The line a node itself contributes: its values, or a placeholder when it holds nothing.\<close>

definition own_lines :: "node \<Rightarrow> string option set" where
  "own_lines n =
     (case n_body n of
        Values vs \<Rightarrow> if vs = [] then {None} else Some ` set vs
      | Interior m \<Rightarrow> if m = [] then {None} else {})"

lemma own_lines_simps [simp]:
  "own_lines (Node c (Values vs)) = (if vs = [] then {None} else Some ` set vs)"
  "own_lines (Node c (Interior m)) = (if m = [] then {None} else {})"
  by (simp_all add: own_lines_def)

definition node_lines :: "node \<Rightarrow> path \<Rightarrow> cfg_line set" where
  "node_lines n p = {(p @ q, v) | q v x. node_get q n = Some x \<and> v \<in> own_lines x \<and> p @ q \<noteq> []}"

lemma node_lines_values:
  "p \<noteq> [] \<Longrightarrow> node_lines (Node c (Values vs)) p = Pair p ` (if vs = [] then {None} else Some ` set vs)"
proof -
  have get: "node_get q (Node c (Values vs)) = Some x \<longleftrightarrow> q = [] \<and> x = Node c (Values vs)" for q x
    by (cases q) auto
  assume "p \<noteq> []"
  then show ?thesis by (auto simp: node_lines_def get)
qed

lemma node_lines_interior:
  assumes "kids_ok m"
  shows "node_lines (Node c (Interior m)) p =
    (if m = [] \<and> p \<noteq> [] then {(p, None)} else {}) \<union> (\<Union>(s, n) \<in> set m. node_lines n (p @ [s]))"
proof (intro set_eqI iffI)
  fix l assume "l \<in> node_lines (Node c (Interior m)) p"
  then obtain q v x where l: "l = (p @ q, v)" "node_get q (Node c (Interior m)) = Some x"
    "v \<in> own_lines x" "p @ q \<noteq> []"
    by (auto simp: node_lines_def)
  show "l \<in> (if m = [] \<and> p \<noteq> [] then {(p, None)} else {}) \<union> (\<Union>(s, n) \<in> set m. node_lines n (p @ [s]))"
  proof (cases q)
    case Nil
    then show ?thesis using l by (auto split: if_splits)
  next
    case (Cons s q')
    then obtain n where n: "bm_get m s = Some n" "node_get q' n = Some x"
      using l by (auto split: option.splits)
    then have "l \<in> node_lines n (p @ [s])"
      using l Cons by (auto simp: node_lines_def)
    then show ?thesis using map_of_SomeD [OF n(1)] by auto
  qed
next
  fix l
  assume l: "l \<in> (if m = [] \<and> p \<noteq> [] then {(p, None)} else {}) \<union> (\<Union>(s, n) \<in> set m. node_lines n (p @ [s]))"
  show "l \<in> node_lines (Node c (Interior m)) p"
  proof (cases "m = [] \<and> p \<noteq> []")
    case True
    then have "l = (p @ [], None) \<and> node_get [] (Node c (Interior m)) = Some (Node c (Interior m))"
      using l by auto
    then show ?thesis using True unfolding node_lines_def by fastforce
  next
    case False
    then obtain s n q v x where "(s, n) \<in> set m" "l = ((p @ [s]) @ q, v)" "node_get q n = Some x" "v \<in> own_lines x"
      using l by (auto simp: node_lines_def split: if_splits)
    moreover then have "bm_get m s = Some n"
      using assms bm_ok_distinct by (metis kids_ok_def map_of_is_SomeI)
    ultimately have "l = (p @ s # q, v) \<and> node_get (s # q) (Node c (Interior m)) = Some x \<and> v \<in> own_lines x"
      by simp
    then show ?thesis unfolding node_lines_def by fastforce
  qed
qed

lemma set_collect:
  "node_ok n \<Longrightarrow> p \<noteq> [] \<or> is_interior n \<Longrightarrow> set (fst (collect n p out)) = set out \<union> node_lines n p"
  "kids_ok m \<Longrightarrow>
   set (fst (collect_kids m p out)) = set out \<union> (\<Union>(s, n) \<in> set m. node_lines n (p @ [s]))"
proof (induction n p out and m p out rule: collect_collect_kids.induct)
  case (1 c vs p out)
  then have "p \<noteq> []" by simp
  then show ?case by (auto simp: node_lines_values set_fold_insert)
next
  case (2 c m p out)
  have m: "kids_ok m" using "2.prems" by (simp add: node_ok_kids del: node_ok.simps)
  then show ?case
    using "2.IH" [OF m] collect_found(2) [of m p out]
    by (auto simp: node_lines_interior split: prod.splits)
next
  case (4 name n m p out)
  have "node_ok n" "kids_ok m" using "4.prems" by (auto simp: kids_ok_def bm_ok_Cons)
  then show ?case using "4.IH" by (auto simp: path_child_def split: prod.splits)
qed simp

text \<open>A tree has a line for each value of each leaf, and a valueless one for each flag and each empty container.\<close>

lemma in_lines:
  assumes "tree_ok t"
  shows "(p, v) \<in> set (lines t) \<longleftrightarrow> p \<noteq> [] \<and> (\<exists>x. tree_get p t = Some x \<and> v \<in> own_lines x)"
  using assms set_collect(1) [of "root t" "[]" "[]"]
  by (auto simp: lines_def node_lines_def tree_get_def tree_ok_def)

lemma lines_ok: "bs_ok (lines t)"
  using collect_ok(1) [of "[]"] by (simp add: lines_def)

section \<open>What the changes are\<close>

lemma in_diff:
  "c \<in> set (diff a b) \<longleftrightarrow>
     (case ch_op c of
        Add \<Rightarrow> (ch_path c, ch_value c) \<in> set (lines b) - set (lines a)
      | Remove \<Rightarrow> (ch_path c, ch_value c) \<in> set (lines a) - set (lines b)) \<and>
     (ch_value c \<noteq> None \<or> \<not> survives a b (ch_path c))"
  by (cases c) (auto simp: diff_def Let_def image_iff split: op.splits)

lemma diff_distinct: "distinct (diff a b)"
proof -
  have "inj_on (\<lambda>(p, v). Change p x v) A" for x A by (auto simp: inj_on_def)
  moreover have "distinct (lines t)" for t using lines_ok [of t] by (simp add: strict_sorted_iff)
  ultimately show ?thesis
    by (auto simp: diff_def Let_def distinct_map intro!: distinct_filter)
qed

text \<open>The lines of an abstract configuration.\<close>

definition has_line :: "aconfig \<Rightarrow> path \<Rightarrow> string option \<Rightarrow> bool" where
  "has_line a p v \<longleftrightarrow>
     (case a p of
        None \<Rightarrow> False
      | Some (c, KLeaf vs) \<Rightarrow> (case v of None \<Rightarrow> vs = [] | Some w \<Rightarrow> w \<in> set vs)
      | Some (c, KDir) \<Rightarrow> v = None \<and> p \<noteq> [] \<and> (\<forall>s. a (p @ [s]) = None))"

lemma view_child:
  assumes "tree_get p t = Some (Node c (Interior m))"
  shows "view t (p @ s # q) = Option.bind (bm_get m s) (\<lambda>n. node_view n q)"
  using assms by (auto simp: view_def node_view_def tree_get_def node_get_append split: option.splits)

lemma no_entries: "(\<forall>s. bm_get m s = None) \<longleftrightarrow> m = []"
proof (cases m)
  case (Cons e m')
  then have "bm_get m (fst e) \<noteq> None" by simp
  then show ?thesis using Cons by auto
qed simp

lemma is_interior_iff: "is_interior n \<longleftrightarrow> (\<exists>c m. n = Node c (Interior m))"
  by (cases n rule: is_interior.cases) auto

lemma in_lines_view:
  assumes ok: "tree_ok t"
  shows "(p, v) \<in> set (lines t) \<longleftrightarrow> has_line (view t) p v"
proof (cases "tree_get p t")
  case None
  then show ?thesis using assms by (simp add: in_lines has_line_def view_def node_view_def tree_get_def)
next
  case (Some n)
  show ?thesis
  proof (cases n rule: is_interior.cases)
    case (1 c m)
    have "(\<forall>s. view t (p @ [s]) = None) \<longleftrightarrow> m = []"
      using Some view_child [of p t c m _ "[]"] no_entries [of m]
      by (auto simp: 1 node_view_Nil bind_eq_None_conv)
    then show ?thesis using Some ok 1
      by (auto simp: in_lines has_line_def view_def node_view_def tree_get_def)
  next
    case (2 c vs)
    have "p \<noteq> []" using Some ok 2 by (auto simp: tree_ok_def tree_get_def)
    then show ?thesis using Some ok 2
      by (auto simp: in_lines has_line_def view_def node_view_def tree_get_def split: option.splits)
  qed
qed

lemma interior_at_view: "interior_at p t \<longleftrightarrow> is_dir_at (view t) p"
proof (cases "tree_get p t")
  case (Some n)
  then show ?thesis
    by (cases n rule: is_interior.cases)
      (auto simp: interior_at_def is_dir_at_def view_def node_view_def tree_get_def)
qed (simp add: interior_at_def is_dir_at_def view_def node_view_def tree_get_def)

text \<open>
  C26. The diff lists exactly the lines one configuration has and the other has not, except
  that a container both have is no news; each once, ordered by path and removals first. It
  depends on what the two configurations hold and on nothing else.
\<close>

theorem diff_exact:
  assumes "tree_ok a" and "tree_ok b"
  shows "sorted (diff a b) \<and> distinct (diff a b) \<and>
    (\<forall>p op v. Change p op v \<in> set (diff a b) \<longleftrightarrow>
      has_line (view a) p v = (op = Remove) \<and> has_line (view b) p v = (op = Add) \<and>
      (v = None \<longrightarrow> \<not> (is_dir_at (view a) p \<and> is_dir_at (view b) p)))"
proof (intro conjI allI)
  show "sorted (diff a b)" by (simp add: diff_def Let_def)
  show "distinct (diff a b)" by (rule diff_distinct)
  fix p op v
  show "Change p op v \<in> set (diff a b) \<longleftrightarrow>
      has_line (view a) p v = (op = Remove) \<and> has_line (view b) p v = (op = Add) \<and>
      (v = None \<longrightarrow> \<not> (is_dir_at (view a) p \<and> is_dir_at (view b) p))"
    using assms by (cases op) (auto simp: in_diff in_lines_view survives_def interior_at_view)
qed

definition tree_of :: "(path \<times> string) list \<Rightarrow> config_tree" where
  "tree_of = foldl (\<lambda>t (p, v). fst (tree_add p v t)) tree_new"

lemma tree_of_ok: "tree_ok (tree_of pvs)"
proof -
  have add: "tree_ok t \<Longrightarrow> tree_ok (fst (tree_add p v t))" for p v t
    using tree_add_result [of t v p] by (auto simp: leaf_result_def split: prod.splits sum.splits)
  have "tree_ok t \<Longrightarrow> tree_ok (foldl (\<lambda>t (p, v). fst (tree_add p v t)) t pvs)" for t
    by (induction pvs arbitrary: t) (auto simp: add)
  then show ?thesis by (simp add: tree_of_def)
qed

theorem diff_exact_witness:
  "diff (tree_of [([''mtu''], ''1500'')]) (tree_of [([''mtu''], ''9000'')]) =
     [Change [''mtu''] Remove (Some ''1500''), Change [''mtu''] Add (Some ''9000'')] \<and>
   sorted (diff (tree_of [([''mtu''], ''1500'')]) (tree_of [([''mtu''], ''9000'')]))"
proof -
  have "diff (tree_of [([''mtu''], ''1500'')]) (tree_of [([''mtu''], ''9000'')]) =
     [Change [''mtu''] Remove (Some ''1500''), Change [''mtu''] Add (Some ''9000'')]"
    by code_simp
  then show ?thesis using diff_exact [OF tree_of_ok tree_of_ok] by blast
qed

section \<open>No changes, and changes as a patch\<close>

lemma line_below:
  "node_ok n \<Longrightarrow> \<exists>q x v. node_get q n = Some x \<and> v \<in> own_lines x"
proof (induction n rule: node_ok.induct)
  case (1 c vs)
  have "\<exists>v. v \<in> own_lines (Node c (Values vs))" by (cases vs) auto
  then show ?case by (intro exI [of _ "[]"]) auto
next
  case (2 c m)
  show ?case
  proof (cases m)
    case Nil
    then show ?thesis by (intro exI [of _ "[]"]) auto
  next
    case (Cons e m')
    obtain s n where e: "e = (s, n)" by (cases e)
    have "\<exists>q x v. node_get q n = Some x \<and> v \<in> own_lines x"
      by (rule "2.IH") (use "2.prems" Cons e in auto)
    then obtain q x v where "node_get q n = Some x" "v \<in> own_lines x"
      by blast
    then show ?thesis by (intro exI [of _ "s # q"]) (auto simp: Cons e)
  qed
qed

lemma missing_line_changes:
  assumes ok: "tree_ok a" "tree_ok b" and l: "(p, v) \<in> set (lines a)" "(p, v) \<notin> set (lines b)"
  shows "diff a b \<noteq> []" and "diff b a \<noteq> []"
proof -
  have "\<exists>q w. ((q, w) \<in> set (lines a) - set (lines b) \<or> (q, w) \<in> set (lines b) - set (lines a)) \<and>
      (w \<noteq> None \<or> \<not> survives a b q)"
  proof (cases "v = None \<and> survives a b p")
    case True
    then obtain c m d k where n: "tree_get p a = Some (Node c (Interior m))"
      "tree_get p b = Some (Node d (Interior k))"
      unfolding survives_def interior_at_def is_interior_iff by (auto split: option.splits)
    have m: "m = []" and p: "p \<noteq> []" using l(1) n(1) ok(1) by (auto simp: in_lines split: if_splits)
    then have "k \<noteq> []" using l(2) n(2) ok(2) True by (auto simp: in_lines)
    then obtain s x k' where k: "k = (s, x) # k'" by (cases k) auto
    have "node_ok (Node d (Interior k))"
      using node_get_ok [of "root b" p] ok(2) n(2) unfolding tree_get_def tree_ok_def by blast
    then have "node_ok x" by (simp add: k)
    then obtain q y w where y: "node_get q x = Some y" "w \<in> own_lines y" using line_below by blast
    have "tree_get (p @ s # q) b = Some y" using n(2) y(1) by (simp add: tree_get_def node_get_append k)
    then have "(p @ s # q, w) \<in> set (lines b)" using y(2) ok(2) by (auto simp: in_lines)
    moreover have none: "tree_get (p @ s # q) a = None" using n(1) by (simp add: tree_get_def node_get_append m)
    then have "(p @ s # q, w) \<notin> set (lines a)" using ok(1) by (simp add: in_lines)
    moreover have "\<not> survives a b (p @ s # q)" using none by (simp add: survives_def interior_at_def)
    ultimately show ?thesis by blast
  qed (use l in blast)
  then obtain q w o1 o2 where "Change q o1 w \<in> set (diff a b)" "Change q o2 w \<in> set (diff b a)"
  proof (elim exE conjE disjE, goal_cases)
    case (1 q w)
    show ?case by (rule 1(1) [of q Remove w Add]) (use 1 in \<open>auto simp: in_diff survives_def\<close>)
  next
    case (2 q w)
    show ?case by (rule 2(1) [of q Remove w Add]) (use 2 in \<open>auto simp: in_diff survives_def\<close>)
  next
    case (3 q w)
    show ?case by (rule 3(1) [of q Add w Remove]) (use 3 in \<open>auto simp: in_diff survives_def\<close>)
  next
    case (4 q w)
    show ?case by (rule 4(1) [of q Add w Remove]) (use 4 in \<open>auto simp: in_diff survives_def\<close>)
  qed
  then show "diff a b \<noteq> []" "diff b a \<noteq> []" by auto
qed

text \<open>
  There is nothing to commit exactly when the two configurations have the same lines: the
  same values in every leaf, the same flags and empty containers. Dropping the placeholder
  lines of surviving containers never hides the last difference.
\<close>

lemma diff_empty_iff:
  assumes "tree_ok a" and "tree_ok b"
  shows "diff a b = [] \<longleftrightarrow> (\<forall>p v. has_line (view a) p v \<longleftrightarrow> has_line (view b) p v)"
proof
  assume e: "diff a b = []"
  show "\<forall>p v. has_line (view a) p v \<longleftrightarrow> has_line (view b) p v"
    unfolding in_lines_view [OF assms(1), symmetric] in_lines_view [OF assms(2), symmetric]
    using missing_line_changes(1) [OF assms] missing_line_changes(2) [OF assms(2,1)] e by blast
next
  assume "\<forall>p v. has_line (view a) p v \<longleftrightarrow> has_line (view b) p v"
  then have "lines a = lines b"
    using assms by (intro bs_ext lines_ok) (auto simp: in_lines_view)
  then show "diff a b = []" by (simp add: diff_def)
qed

definition flip :: "op \<Rightarrow> op" where
  "flip x = (case x of Add \<Rightarrow> Remove | Remove \<Rightarrow> Add)"

text \<open>
  The changes are a patch: taking out the removed values and putting in the added ones
  turns the values of the first configuration into those of the second; and the diff the
  other way round is the same changes reversed, which is what a rollback shows.
\<close>

lemma diff_patches:
  assumes "tree_ok a" and "tree_ok b"
  shows "(\<forall>p v. has_line (view b) p (Some v) \<longleftrightarrow>
        has_line (view a) p (Some v) \<and> Change p Remove (Some v) \<notin> set (diff a b) \<or>
        Change p Add (Some v) \<in> set (diff a b)) \<and>
    (\<forall>p op v. Change p op v \<in> set (diff b a) \<longleftrightarrow> Change p (flip op) v \<in> set (diff a b))"
proof (intro conjI allI)
  fix p v
  show "has_line (view b) p (Some v) \<longleftrightarrow>
        has_line (view a) p (Some v) \<and> Change p Remove (Some v) \<notin> set (diff a b) \<or>
        Change p Add (Some v) \<in> set (diff a b)"
    unfolding in_lines_view [OF assms(1), symmetric] in_lines_view [OF assms(2), symmetric]
    by (auto simp: in_diff)
next
  fix p op v
  show "Change p op v \<in> set (diff b a) \<longleftrightarrow> Change p (flip op) v \<in> set (diff a b)"
    by (cases op) (auto simp: in_diff flip_def survives_def)
qed

text \<open>
  Comments are not part of a diff: an edit that only sets or clears a comment leaves
  nothing to commit.
\<close>

lemma diff_ignores_comments:
  assumes "tree_ok t"
  shows "diff t (fst (set_comment p c t)) = []"
proof -
  obtain t' b where s: "set_comment p c t = (t', b)" by (cases "set_comment p c t")
  have t': "tree_ok t'"
    "view t' = (case view t p of None \<Rightarrow> view t | Some (c', k) \<Rightarrow> (view t)(p := Some (c, k)))"
    using set_comment_result [OF assms, of p c] s by (auto split: option.splits)
  have "has_line (view t') q v = has_line (view t) q v" for q v
    by (auto simp: t'(2) has_line_def split: option.splits kind.splits if_splits)
  then have "lines t = lines t'"
    using assms t'(1) by (intro bs_ext lines_ok) (auto simp: in_lines_view)
  then show ?thesis by (simp add: s diff_def)
qed

end
