(* ===== verification/Std_Parse.thy ===== *)
theory Std_Parse
  imports Prelude "HOL-Library.Word"
begin

text \<open>
  The standard library's \<open>FromStr\<close> the value validators rest on: the integer parsers
  (\<open>i64\<close>, \<open>u8\<close>, \<open>u16\<close>) and the address parsers of \<open>std::net\<close>, as recursive descent over the
  characters left, in the shape of \<open>core::net::parser\<close>. An IPv4 address is its four octets, an
  IPv6 address its eight 16-bit groups.
\<close>

section \<open>Integers\<close>

definition all_digits :: "string \<Rightarrow> bool" where
  "all_digits s \<longleftrightarrow> s \<noteq> [] \<and> list_all is_ascii_digit s"

text \<open>\<open>uN::from_str\<close>: an optional plus sign, then digits, no more than the type holds.\<close>

definition parse_unsigned :: "nat \<Rightarrow> string \<Rightarrow> nat option" where
  "parse_unsigned maxv s =
     (let ds = (case s of [] \<Rightarrow> [] | c # cs \<Rightarrow> if c = CHR ''+'' \<and> cs \<noteq> [] then cs else s)
      in if all_digits ds \<and> digits_value 0 ds \<le> maxv then Some (digits_value 0 ds) else None)"

definition parse_u8 :: "string \<Rightarrow> nat option" where
  "parse_u8 = parse_unsigned 255"

definition parse_u16 :: "string \<Rightarrow> nat option" where
  "parse_u16 = parse_unsigned 65535"

definition I64_MAX :: int where
  "I64_MAX = 9223372036854775807"

definition I64_MIN :: int where
  "I64_MIN = - 9223372036854775808"

definition parse_i64 :: "string \<Rightarrow> int option" where
  "parse_i64 s =
     (case s of
        [] \<Rightarrow> None
      | c # cs \<Rightarrow>
          (let neg = (c = CHR ''-''); ds = (if neg \<or> c = CHR ''+'' then cs else s);
               n = (if neg then - int (digits_value 0 ds) else int (digits_value 0 ds))
           in if all_digits ds \<and> I64_MIN \<le> n \<and> n \<le> I64_MAX then Some n else None))"

lemma parse_i64_range: "parse_i64 s = Some n \<Longrightarrow> I64_MIN \<le> n \<and> n \<le> I64_MAX"
  by (auto simp: parse_i64_def Let_def split: list.splits if_splits)

lemma all_digits_show_nat [simp]: "all_digits (show_nat n)"
  by (auto simp: all_digits_def list_all_iff dest: show_nat_digits)

lemma show_nat_hd:
  obtains c cs where "show_nat n = c # cs" and "is_ascii_digit c"
  by (metis list.exhaust list.set_intros(1) show_nat_digits show_nat_nonempty)

lemma parse_unsigned_show: "n \<le> maxv \<Longrightarrow> parse_unsigned maxv (show_nat n) = Some n"
proof -
  obtain c cs where c: "show_nat n = c # cs" "is_ascii_digit c" by (rule show_nat_hd)
  then have "c \<noteq> CHR ''+''" by (auto simp: char_class code_def)
  moreover assume "n \<le> maxv"
  moreover have "all_digits (c # cs)" "digits_value 0 (c # cs) = n"
    using all_digits_show_nat [of n] digits_value_show_nat [of n] c(1) by simp_all
  ultimately show ?thesis by (simp add: parse_unsigned_def c(1) Let_def)
qed

lemma parse_i64_show: "I64_MIN \<le> n \<Longrightarrow> n \<le> I64_MAX \<Longrightarrow> parse_i64 (show_int n) = Some n"
proof -
  assume n: "I64_MIN \<le> n" "n \<le> I64_MAX"
  obtain c cs where c: "show_nat (nat n) = c # cs" "is_ascii_digit c" by (rule show_nat_hd)
  then have ne: "c \<noteq> CHR ''+''" "c \<noteq> CHR ''-''" by (auto simp: char_class code_def)
  have d: "all_digits (show_nat k)" "digits_value 0 (show_nat k) = k" for k
    using digits_value_show_nat by simp_all
  show ?thesis
  proof (cases "n < 0")
    case True
    then show ?thesis using n d [of "nat (- n)"] by (simp add: show_int_def parse_i64_def Let_def)
  next
    case False
    then show ?thesis using n d [of "nat n"] ne by (simp add: show_int_def parse_i64_def Let_def c(1))
  qed
qed

section \<open>Addresses\<close>

text \<open>
  \<open>read_number\<close> reads every digit there is and fails if they are none or too many; the
  \<open>char\<close> version of \<open>to_digit\<close> is \<open>hex_value\<close>.
\<close>

definition digit_of :: "nat \<Rightarrow> char \<Rightarrow> nat option" where
  "digit_of radix c =
     (case hex_value c of None \<Rightarrow> None | Some d \<Rightarrow> if d < radix then Some d else None)"

definition read_number :: "nat \<Rightarrow> nat \<Rightarrow> bool \<Rightarrow> nat \<Rightarrow> string \<Rightarrow> (nat \<times> string) option" where
  "read_number radix max_digits allow_zero_prefix maxv s =
     (let ds = takeWhile (\<lambda>c. digit_of radix c \<noteq> None) s;
          v = foldl (\<lambda>acc c. acc * radix + the (digit_of radix c)) 0 ds
      in if ds = [] \<or> length ds > max_digits then None
         else if v > maxv then None
         else if \<not> allow_zero_prefix \<and> hd ds = CHR ''0'' \<and> length ds > 1 then None
         else Some (v, drop (length ds) s))"

text \<open>\<open>read_separator\<close>: the separator first, except before the first item.\<close>

definition after_sep :: "char \<Rightarrow> nat \<Rightarrow> string \<Rightarrow> string option" where
  "after_sep sep i s =
     (if i = 0 then Some s
      else (case s of [] \<Rightarrow> None | c # cs \<Rightarrow> if c = sep then Some cs else None))"

fun read_octets :: "nat \<Rightarrow> nat \<Rightarrow> string \<Rightarrow> (nat list \<times> string) option" where
  "read_octets i 0 s = Some ([], s)"
| "read_octets i (Suc k) s =
     (case Option.bind (after_sep (CHR ''.'') i s) (read_number 10 3 False 255) of
        None \<Rightarrow> None
      | Some (n, s') \<Rightarrow> map_option (\<lambda>(ns, r). (n # ns, r)) (read_octets (Suc i) k s'))"

definition read_ipv4 :: "string \<Rightarrow> (nat list \<times> string) option" where
  "read_ipv4 s = read_octets 0 4 s"

text \<open>
  \<open>read_groups\<close>: up to \<open>limit\<close> groups, the last two of which may be written as an IPv4
  address. Returns the groups, whether they ended in an IPv4 address, and the rest. \<open>k\<close> counts
  the groups still to come and \<open>i = limit - k\<close> the ones read.
\<close>

fun read_groups :: "nat \<Rightarrow> nat \<Rightarrow> string \<Rightarrow> nat list \<times> bool \<times> string" where
  "read_groups i 0 s = ([], False, s)"
| "read_groups i (Suc k) s =
     (case (if 0 < k then Option.bind (after_sep (CHR '':'') i s) read_ipv4 else None) of
        Some (os, r) \<Rightarrow> ([os ! 0 * 256 + os ! 1, os ! 2 * 256 + os ! 3], True, r)
      | None \<Rightarrow>
          (case Option.bind (after_sep (CHR '':'') i s) (read_number 16 4 True 65535) of
             None \<Rightarrow> ([], False, s)
           | Some (g, r) \<Rightarrow>
               (case read_groups (Suc i) k r of (gs, v4, r') \<Rightarrow> (g # gs, v4, r'))))"

definition read_ipv6 :: "string \<Rightarrow> (nat list \<times> string) option" where
  "read_ipv6 s =
     (case read_groups 0 8 s of
        (head, v4, r) \<Rightarrow>
          if length head = 8 then Some (head, r)
          else if v4 then None
          else if starts_with r ''::'' then
            (case read_groups 0 (8 - (length head + 1)) (drop 2 r) of
               (tail, u, r') \<Rightarrow>
                 Some (head @ replicate (8 - length head - length tail) 0 @ tail, r'))
          else None)"

definition parse_all :: "(string \<Rightarrow> ('a \<times> string) option) \<Rightarrow> string \<Rightarrow> 'a option" where
  "parse_all p s = (case p s of Some (a, []) \<Rightarrow> Some a | _ \<Rightarrow> None)"

datatype ip_addr = V4 "nat list" | V6 "nat list"

definition parse_ipv4 :: "string \<Rightarrow> nat list option" where
  "parse_ipv4 = parse_all read_ipv4"

definition parse_ipv6 :: "string \<Rightarrow> nat list option" where
  "parse_ipv6 = parse_all read_ipv6"

definition read_ip :: "string \<Rightarrow> (ip_addr \<times> string) option" where
  "read_ip s =
     (case read_ipv4 s of
        Some (a, r) \<Rightarrow> Some (V4 a, r)
      | None \<Rightarrow> map_option (\<lambda>(a, r). (V6 a, r)) (read_ipv6 s))"

definition parse_ip :: "string \<Rightarrow> ip_addr option" where
  "parse_ip = parse_all read_ip"

fun is_multicast :: "ip_addr \<Rightarrow> bool" where
  "is_multicast (V4 os) \<longleftrightarrow> 224 \<le> hd os \<and> hd os \<le> 239"
| "is_multicast (V6 gs) \<longleftrightarrow> hd gs div 256 = 255"

end
