(* ===== verification/Value_Types.thy ===== *)
theory Value_Types
  imports Std_Parse
begin

unbundle bit_operations_syntax

text \<open>
  \<open>src/nightshade-schema/src/value.rs\<close>: what a leaf or a tag key may hold. \<open>check\<close> is a
  result carrying the error text; each rule of the second half of the file is a predicate of
  its own. The two things outside the crate are parameters: the \<open>regex\<close> matcher and the
  system's time zone database, gathered in \<open>value_env\<close>.
\<close>

record value_env =
  is_match :: "string \<Rightarrow> string \<Rightarrow> bool"
  tzdb_available :: bool
  tz_known :: "string \<Rightarrow> bool"

section \<open>Errors and ranges\<close>

definition IFNAMSIZ_MAX :: nat where
  "IFNAMSIZ_MAX = 15"

definition USERNAME_MAX :: nat where
  "USERNAME_MAX = 32"

record value_error =
  ve_value :: string
  ve_expected :: string

definition show_value_error :: "value_error \<Rightarrow> string" where
  "show_value_error e = debug_str (ve_value e) @ '' is not '' @ ve_expected e"

type_synonym vcheck = "value_error + unit"

definition value_err :: "string \<Rightarrow> string \<Rightarrow> vcheck" where
  "value_err v e = Inl \<lparr>ve_value = v, ve_expected = e\<rparr>"

record vrange =
  vr_min :: int
  vr_max :: int
  vr_step :: "nat option"

definition range_new :: "int \<Rightarrow> int \<Rightarrow> vrange" where
  "range_new lo hi = \<lparr>vr_min = lo, vr_max = hi, vr_step = None\<rparr>"

definition range_stepped :: "int \<Rightarrow> int \<Rightarrow> nat \<Rightarrow> vrange" where
  "range_stepped lo hi s = \<lparr>vr_min = lo, vr_max = hi, vr_step = Some s\<rparr>"

definition range_describe :: "vrange \<Rightarrow> string" where
  "range_describe r =
     ''a whole number between '' @ show_int (vr_min r) @ '' and '' @ show_int (vr_max r) @
     (case vr_step r of None \<Rightarrow> [] | Some s \<Rightarrow> '' in steps of '' @ show_nat s)"

text \<open>\<open>(n - self.min).unsigned_abs()\<close>: a subtraction in 64 bits, wrapping in a release build.\<close>

definition i64_distance :: "int \<Rightarrow> int \<Rightarrow> nat" where
  "i64_distance n lo = nat \<bar>sint (word_of_int n - word_of_int lo :: 64 word)\<bar>"

definition is_multiple_of :: "nat \<Rightarrow> nat \<Rightarrow> bool" where
  "is_multiple_of n s = (if s = 0 then n = 0 else n mod s = 0)"

definition range_check :: "vrange \<Rightarrow> string \<Rightarrow> vcheck" where
  "range_check r v =
     (case parse_i64 v of
        None \<Rightarrow> value_err v (range_describe r)
      | Some n \<Rightarrow>
          if n < vr_min r \<or> n > vr_max r then value_err v (range_describe r)
          else (case vr_step r of
                  None \<Rightarrow> Inr ()
                | Some s \<Rightarrow>
                    if \<not> is_multiple_of (i64_distance n (vr_min r)) s
                    then value_err v (range_describe r) else Inr ()))"

section \<open>The individual rules\<close>

definition check_text :: "string \<Rightarrow> vcheck" where
  "check_text v =
     (if list_ex is_control v
      then value_err v ''text without control characters or line breaks'' else Inr ())"

datatype family = FamV4 | FamV6 | FamAny

definition is_prefix :: "string \<Rightarrow> family \<Rightarrow> bool" where
  "is_prefix v fam =
     (case split_once (CHR ''/'') v of
        None \<Rightarrow> False
      | Some (addr, len) \<Rightarrow>
          if len = [] \<or> utf8_len len > 3 \<or> \<not> list_all is_ascii_digit len then False
          else if utf8_len len > 1 \<and> hd len = CHR ''0'' then False
          else (case parse_u8 len of
                  None \<Rightarrow> False
                | Some n \<Rightarrow>
                    (case parse_ip addr of
                       Some (V4 a) \<Rightarrow> fam \<noteq> FamV6 \<and> n \<le> 32
                     | Some (V6 a) \<Rightarrow> fam \<noteq> FamV4 \<and> n \<le> 128
                     | None \<Rightarrow> False)))"

definition hex_octet :: "string \<Rightarrow> nat option" where
  "hex_octet part =
     (if utf8_len part \<noteq> 2 \<or> \<not> list_all is_ascii_hexdigit part then None
      else Some (foldl (\<lambda>acc c. acc * 16 + the (hex_value c)) 0 part))"

fun mac_octets :: "nat \<Rightarrow> string list \<Rightarrow> nat list option" where
  "mac_octets count [] = Some []"
| "mac_octets count (part # parts) =
     (if count = 6 then None
      else (case hex_octet part of
              None \<Rightarrow> None
            | Some o1 \<Rightarrow> map_option (\<lambda>os. o1 # os) (mac_octets (Suc count) parts)))"

definition is_unicast_mac :: "string \<Rightarrow> bool" where
  "is_unicast_mac v =
     (case mac_octets 0 (split_on (CHR '':'') v) of
        None \<Rightarrow> False
      | Some os \<Rightarrow>
          length os = 6 \<and> os \<noteq> replicate 6 0 \<and> (of_nat (hd os) :: 8 word) AND 1 = 0)"

definition port_of :: "string \<Rightarrow> nat option" where
  "port_of s =
     (if s = [] \<or> utf8_len s > 1 \<and> hd s = CHR ''0'' then None
      else (case parse_u16 s of
              None \<Rightarrow> None
            | Some p \<Rightarrow> if p > 0 then Some p else None))"

definition is_port_range :: "string \<Rightarrow> bool" where
  "is_port_range v =
     (case split_once (CHR ''-'') v of
        Some (low, high) \<Rightarrow>
          (case (port_of low, port_of high) of
             (Some l, Some h) \<Rightarrow> l \<le> h
           | _ \<Rightarrow> False)
      | None \<Rightarrow> port_of v \<noteq> None)"

definition is_interface_name :: "string \<Rightarrow> bool" where
  "is_interface_name v =
     (if v = [] \<or> utf8_len v > IFNAMSIZ_MAX \<or> v = ''.'' \<or> v = ''..'' then False
      else list_all (\<lambda>c. is_ascii_alphanumeric c \<or> c \<in> set ''-_.'') v)"

definition hostname_label :: "string \<Rightarrow> bool" where
  "hostname_label l \<longleftrightarrow>
     l \<noteq> [] \<and> utf8_len l \<le> 63 \<and> hd l \<noteq> CHR ''-'' \<and> last l \<noteq> CHR ''-'' \<and>
     list_all (\<lambda>c. is_ascii_alphanumeric c \<or> c = CHR ''-'') l"

definition is_hostname :: "string \<Rightarrow> bool" where
  "is_hostname v =
     (if v = [] \<or> utf8_len v > 253 \<or> hd v = CHR ''.'' \<or> last v = CHR ''.'' then False
      else list_all hostname_label (split_on (CHR ''.'') v))"

definition is_user_name :: "string \<Rightarrow> bool" where
  "is_user_name v =
     (if v = [] \<or> utf8_len v > USERNAME_MAX then False
      else if \<not> (is_ascii_lowercase (hd v) \<or> hd v = CHR ''_'') then False
      else
        let body = (if tl v \<noteq> [] \<and> last (tl v) = CHR ''$'' then butlast (tl v) else tl v)
        in list_all (\<lambda>c. is_ascii_lowercase c \<or> is_ascii_digit c \<or> c \<in> set ''-_'') body)"

section \<open>Value types\<close>

datatype value_type =
    VText | VBool | VNumber vrange
  | VIpv4Address | VIpv6Address | VIpAddress
  | VIpv4Prefix | VIpv6Prefix | VIpPrefix | VIpOrPrefix
  | VMulticastAddress | VMacAddress | VPort | VPortRange
  | VInterfaceName | VHostname | VTimeZone | VUserName | VEncryptedPassword
  | VEnum "string list"

fun type_placeholder :: "value_type \<Rightarrow> string" where
  "type_placeholder VText = ''<text>''"
| "type_placeholder VBool = ''<true|false>''"
| "type_placeholder (VNumber r) =
     ''<'' @ show_int (vr_min r) @ ''-'' @ show_int (vr_max r) @ ''>''"
| "type_placeholder VIpv4Address = ''<x.x.x.x>''"
| "type_placeholder VIpv6Address = ''<h:h:h:h:h:h:h:h>''"
| "type_placeholder VIpAddress = ''<ip-address>''"
| "type_placeholder VIpv4Prefix = ''<x.x.x.x/x>''"
| "type_placeholder VIpv6Prefix = ''<h:h:h:h:h:h:h:h/x>''"
| "type_placeholder VIpPrefix = ''<ip-address/prefix>''"
| "type_placeholder VIpOrPrefix = ''<ip-address[/prefix]>''"
| "type_placeholder VMulticastAddress = ''<multicast-address>''"
| "type_placeholder VMacAddress = ''<xx:xx:xx:xx:xx:xx>''"
| "type_placeholder VPort = ''<1-65535>''"
| "type_placeholder VPortRange = ''<port[-port]>''"
| "type_placeholder VInterfaceName = ''<interface>''"
| "type_placeholder VHostname = ''<hostname>''"
| "type_placeholder VTimeZone = ''<Area/Location>''"
| "type_placeholder VUserName = ''<user>''"
| "type_placeholder VEncryptedPassword = ''<crypt-hash>''"
| "type_placeholder (VEnum vs) = ''<'' @ join ''|'' vs @ ''>''"

fun expected :: "value_type \<Rightarrow> string" where
  "expected VText = ''text''"
| "expected VBool = ''`true` or `false`''"
| "expected (VNumber r) = range_describe r"
| "expected VIpv4Address = ''an IPv4 address''"
| "expected VIpv6Address = ''an IPv6 address''"
| "expected VIpAddress = ''an IP address''"
| "expected VIpv4Prefix = ''an IPv4 address and prefix length, e.g. 192.168.1.1/24''"
| "expected VIpv6Prefix = ''an IPv6 address and prefix length, e.g. 2001:db8::1/64''"
| "expected VIpPrefix = ''an IP address and prefix length''"
| "expected VIpOrPrefix = ''an IP address, with or without a prefix length''"
| "expected VMulticastAddress = ''a multicast IP address''"
| "expected VMacAddress = ''a unicast MAC address, e.g. 02:00:5e:10:00:01''"
| "expected VPort = ''a port number between 1 and 65535''"
| "expected VPortRange = ''a port or a port range, e.g. 1024-2048''"
| "expected VInterfaceName =
     ''a valid interface name (up to '' @ show_nat IFNAMSIZ_MAX @ '' characters)''"
| "expected VHostname = ''a valid host name''"
| "expected VTimeZone = ''a known time zone, e.g. Europe/London''"
| "expected VUserName =
     ''a valid login name (lower-case, up to '' @ show_nat USERNAME_MAX @ '' characters)''"
| "expected VEncryptedPassword = ''a crypt(3) hash, e.g. $6$... -- not a plaintext password''"
| "expected (VEnum vs) = ''one of: '' @ join '', '' vs"

definition check_encrypted_password :: "string \<Rightarrow> vcheck" where
  "check_encrypted_password v =
     (if v = ''!'' \<or> v = ''*'' then Inr ()
      else
        let fields = split_on (CHR ''$'') v
        in if v \<noteq> [] \<and> hd v = CHR ''$'' \<and> length fields \<ge> 4 \<and>
              list_all (\<lambda>f. f \<noteq> []) (tl fields) \<and> CHR '':'' \<notin> set v \<and>
              \<not> list_ex (\<lambda>c. is_whitespace c \<or> is_control c) v
           then Inr () else value_err v (expected VEncryptedPassword))"

fun has_dotdot :: "string \<Rightarrow> bool" where
  "has_dotdot (a # b # cs) \<longleftrightarrow> a = CHR ''.'' \<and> b = CHR ''.'' \<or> has_dotdot (b # cs)"
| "has_dotdot cs \<longleftrightarrow> False"

definition check_time_zone :: "value_env \<Rightarrow> string \<Rightarrow> vcheck" where
  "check_time_zone env v =
     (let shaped = v \<noteq> [] \<and> utf8_len v \<le> 64 \<and> hd v \<noteq> CHR ''/'' \<and> last v \<noteq> CHR ''/'' \<and>
            \<not> has_dotdot v \<and> list_all (\<lambda>c. is_ascii_alphanumeric c \<or> c \<in> set ''/_-+'') v
      in if \<not> shaped then value_err v (expected VTimeZone)
         else if tzdb_available env \<and> \<not> tz_known env v
         then value_err v (expected VTimeZone @ '' (not in this system's time zone database)'')
         else Inr ())"

definition verdict :: "value_type \<Rightarrow> string \<Rightarrow> bool \<Rightarrow> vcheck" where
  "verdict ty v good = (if good then Inr () else value_err v (expected ty))"

fun type_check :: "value_env \<Rightarrow> value_type \<Rightarrow> string \<Rightarrow> vcheck" where
  "type_check env VText v = check_text v"
| "type_check env (VNumber r) v = range_check r v"
| "type_check env VTimeZone v = check_time_zone env v"
| "type_check env VEncryptedPassword v = check_encrypted_password v"
| "type_check env VBool v = verdict VBool v (v = ''true'' \<or> v = ''false'')"
| "type_check env VIpv4Address v = verdict VIpv4Address v (parse_ipv4 v \<noteq> None)"
| "type_check env VIpv6Address v = verdict VIpv6Address v (parse_ipv6 v \<noteq> None)"
| "type_check env VIpAddress v = verdict VIpAddress v (parse_ip v \<noteq> None)"
| "type_check env VIpv4Prefix v = verdict VIpv4Prefix v (is_prefix v FamV4)"
| "type_check env VIpv6Prefix v = verdict VIpv6Prefix v (is_prefix v FamV6)"
| "type_check env VIpPrefix v = verdict VIpPrefix v (is_prefix v FamAny)"
| "type_check env VIpOrPrefix v = verdict VIpOrPrefix v (parse_ip v \<noteq> None \<or> is_prefix v FamAny)"
| "type_check env VMulticastAddress v = verdict VMulticastAddress v
     (case parse_ip v of None \<Rightarrow> False | Some a \<Rightarrow> is_multicast a)"
| "type_check env VMacAddress v = verdict VMacAddress v (is_unicast_mac v)"
| "type_check env VPort v = verdict VPort v (is_ok (range_check (range_new 1 65535) v))"
| "type_check env VPortRange v = verdict VPortRange v (is_port_range v)"
| "type_check env VInterfaceName v = verdict VInterfaceName v (is_interface_name v)"
| "type_check env VHostname v = verdict VHostname v (is_hostname v)"
| "type_check env VUserName v = verdict VUserName v (is_user_name v)"
| "type_check env (VEnum vs) v = verdict (VEnum vs) v (v \<in> set vs)"

section \<open>Value specifications\<close>

record value_spec =
  vs_ty :: value_type
  vs_accepts :: "string list"
  vs_pattern :: "string option"

definition spec_new :: "value_type \<Rightarrow> value_spec" where
  "spec_new ty = \<lparr>vs_ty = ty, vs_accepts = [], vs_pattern = None\<rparr>"

definition spec_accepting :: "string list \<Rightarrow> value_spec \<Rightarrow> value_spec" where
  "spec_accepting ks s = s\<lparr>vs_accepts := ks\<rparr>"

definition spec_check :: "value_env \<Rightarrow> value_spec \<Rightarrow> string \<Rightarrow> vcheck" where
  "spec_check env s v =
     (if v \<in> set (vs_accepts s) then Inr ()
      else
        (case type_check env (vs_ty s) v of
           Inl e \<Rightarrow>
             Inl (if vs_accepts s = [] then e
                  else e\<lparr>ve_expected := ve_expected e @ '', or one of: '' @ join '', '' (vs_accepts s)\<rparr>)
         | Inr u \<Rightarrow>
             (case vs_pattern s of
                None \<Rightarrow> Inr ()
              | Some p \<Rightarrow>
                  if \<not> is_match env p v then value_err v (expected (vs_ty s) @ '' matching '' @ p)
                  else Inr ())))"

definition spec_placeholder :: "value_spec \<Rightarrow> string" where
  "spec_placeholder s =
     (if vs_accepts s = [] then type_placeholder (vs_ty s)
      else ''<'' @ trim_by (\<lambda>c. c = CHR ''<'' \<or> c = CHR ''>'') (type_placeholder (vs_ty s)) @
        ''|'' @ join ''|'' (vs_accepts s) @ ''>'')"

end
