(* ===== verification/Schema_Model.thy ===== *)
theory Schema_Model
  imports Value_Types Config_Tree
begin

text \<open>
  \<open>src/nightshade-schema/src/model.rs\<close>: the schema as data, and what can be asked of it
  without a configuration: where a path lands (\<open>resolve\<close>), where a typed line splits into path
  and value (\<open>split_value\<close>), what can come next (\<open>children_of\<close>). \<open>BTreeMap\<close>s of children are
  sorted association lists, \<open>Location\<close> keeps the source's three cases, and a \<open>u32\<close> priority
  is a \<open>nat\<close>.
\<close>

section \<open>Path patterns\<close>

datatype pattern_segment = Literal string | AnyKey | Current

type_synonym path_pattern = "pattern_segment list"

text \<open>\<open>str::split_whitespace\<close>: the maximal runs of non-whitespace.\<close>

fun split_whitespace_acc :: "string \<Rightarrow> string \<Rightarrow> string list" where
  "split_whitespace_acc acc [] = (if acc = [] then [] else [rev acc])"
| "split_whitespace_acc acc (c # cs) =
     (if is_whitespace c
      then (if acc = [] then [] else [rev acc]) @ split_whitespace_acc [] cs
      else split_whitespace_acc (c # acc) cs)"

definition split_whitespace :: "string \<Rightarrow> string list" where
  "split_whitespace s = split_whitespace_acc [] s"

fun pattern_segments :: "string list \<Rightarrow> string + path_pattern" where
  "pattern_segments [] = Inr []"
| "pattern_segments (t # ts) =
     (if t = ''*'' then bind_result (pattern_segments ts) (\<lambda>ps. Inr (AnyKey # ps))
      else if t = ''@'' then bind_result (pattern_segments ts) (\<lambda>ps. Inr (Current # ps))
      else if \<not> list_all (\<lambda>c. is_ascii_alphanumeric c \<or> c \<in> set ''-_.'') t
        then Inl (''`'' @ t @ ''` is not a node name'')
      else bind_result (pattern_segments ts) (\<lambda>ps. Inr (Literal t # ps)))"

definition pattern_parse :: "string \<Rightarrow> string + path_pattern" where
  "pattern_parse s =
     (case pattern_segments (split_whitespace s) of
        Inl e \<Rightarrow> Inl e
      | Inr [] \<Rightarrow> Inl ''a path pattern cannot be empty''
      | Inr (p # ps) \<Rightarrow> Inr (p # ps))"

fun literal_prefix :: "path_pattern \<Rightarrow> path" where
  "literal_prefix (Literal l # ps) = l # literal_prefix ps"
| "literal_prefix ps = []"

fun show_segment :: "pattern_segment \<Rightarrow> string" where
  "show_segment (Literal l) = l"
| "show_segment AnyKey = ''*''"
| "show_segment Current = ''@''"

definition show_pattern :: "path_pattern \<Rightarrow> string" where
  "show_pattern p = join '' '' (map show_segment p)"

section \<open>Constraints and nodes\<close>

datatype schema_constraint =
    ValueInPathSet "path_pattern list" string
  | PathExists path_pattern string
  | PathHasValue path_pattern string string

datatype global_constraint =
    UniqueAcross "path_pattern list" string
  | ForbidChildOnReferenced "path_pattern list" "path_pattern list" string string

record tag_spec =
  tag_value :: value_spec
  tag_help :: string

datatype schema_kind =
    SContainer
  | STag tag_spec
  | SLeaf value_spec
  | SMultiLeaf value_spec
  | SFlag

datatype schema_node = SchemaNode
  (sn_kind: schema_kind)
  (sn_help: string)
  (sn_default: "string option")
  (sn_secret: bool)
  (sn_required: bool)
  (sn_priority: nat)
  (sn_children: "(string \<times> schema_node) list")
  (sn_constraints: "schema_constraint list")
  (sn_unique: "string list list")
  (sn_exclusive: "string list list")

definition kind_value_spec :: "schema_kind \<Rightarrow> value_spec option" where
  "kind_value_spec k = (case k of SLeaf s \<Rightarrow> Some s | SMultiLeaf s \<Rightarrow> Some s | _ \<Rightarrow> None)"

definition sn_value_spec :: "schema_node \<Rightarrow> value_spec option" where
  "sn_value_spec n = kind_value_spec (sn_kind n)"

definition sn_is_tag :: "schema_node \<Rightarrow> bool" where
  "sn_is_tag n = (case sn_kind n of STag t \<Rightarrow> True | _ \<Rightarrow> False)"

definition takes_children :: "schema_node \<Rightarrow> bool" where
  "takes_children n = (case sn_kind n of SContainer \<Rightarrow> True | STag t \<Rightarrow> True | _ \<Rightarrow> False)"

record schema =
  sc_root :: schema_node
  sc_globals :: "global_constraint list"

section \<open>Where a path lands\<close>

datatype location = AtNode schema_node | AtInstance schema_node | AtValue schema_node

fun location_node :: "location \<Rightarrow> schema_node" where
  "location_node (AtNode n) = n"
| "location_node (AtInstance n) = n"
| "location_node (AtValue n) = n"

definition child_location :: "schema_node \<Rightarrow> string \<Rightarrow> location option" where
  "child_location n s = map_option AtNode (bm_get (sn_children n) s)"

fun loc_step :: "location \<Rightarrow> string \<Rightarrow> location option" where
  "loc_step (AtNode n) s =
     (case sn_kind n of
        SContainer \<Rightarrow> child_location n s
      | STag t \<Rightarrow> Some (AtInstance n)
      | SLeaf v \<Rightarrow> Some (AtValue n)
      | SMultiLeaf v \<Rightarrow> Some (AtValue n)
      | SFlag \<Rightarrow> None)"
| "loc_step (AtInstance n) s = child_location n s"
| "loc_step (AtValue n) s = None"

fun resolve_from :: "location \<Rightarrow> path \<Rightarrow> location option" where
  "resolve_from loc [] = Some loc"
| "resolve_from loc (s # ss) =
     (case loc_step loc s of None \<Rightarrow> None | Some loc' \<Rightarrow> resolve_from loc' ss)"

definition resolve :: "schema \<Rightarrow> path \<Rightarrow> location option" where
  "resolve sc p = resolve_from (AtNode (sc_root sc)) p"

definition node_at :: "schema \<Rightarrow> path \<Rightarrow> schema_node option" where
  "node_at sc p = map_option location_node (resolve sc p)"

definition is_tag_node :: "schema \<Rightarrow> path \<Rightarrow> bool" where
  "is_tag_node sc p = (case resolve sc p of Some (AtNode n) \<Rightarrow> sn_is_tag n | _ \<Rightarrow> False)"

definition default_for :: "schema \<Rightarrow> path \<Rightarrow> string option" where
  "default_for sc p = (case resolve sc p of Some (AtNode n) \<Rightarrow> sn_default n | _ \<Rightarrow> None)"

text \<open>The loop of \<open>split_value\<close>: \<open>seen\<close> is \<open>typed[..i]\<close>.\<close>

fun split_value_from :: "path \<Rightarrow> location \<Rightarrow> path \<Rightarrow> path \<Rightarrow> path \<times> string option" where
  "split_value_from typed loc seen [] = (typed, None)"
| "split_value_from typed (AtNode n) seen (s # ss) =
     (case sn_kind n of
        SContainer \<Rightarrow>
          (case child_location n s of
             Some loc' \<Rightarrow> split_value_from typed loc' (seen @ [s]) ss
           | None \<Rightarrow> (typed, None))
      | STag t \<Rightarrow> split_value_from typed (AtInstance n) (seen @ [s]) ss
      | SLeaf v \<Rightarrow> (seen, Some s)
      | SMultiLeaf v \<Rightarrow> (seen, Some s)
      | SFlag \<Rightarrow> (typed, None))"
| "split_value_from typed (AtInstance n) seen (s # ss) =
     (case child_location n s of
        Some loc' \<Rightarrow> split_value_from typed loc' (seen @ [s]) ss
      | None \<Rightarrow> (typed, None))"
| "split_value_from typed (AtValue n) seen (s # ss) = (typed, None)"

definition split_value :: "schema \<Rightarrow> path \<Rightarrow> path \<times> string option" where
  "split_value sc typed = split_value_from typed (AtNode (sc_root sc)) [] typed"

section \<open>Completion\<close>

record node_info =
  ni_name :: string
  ni_help :: string
  ni_placeholder :: bool
  ni_value :: "string option"
  ni_multi :: bool
  ni_default :: "string option"
  ni_secret :: bool

definition is_multi :: "schema_node \<Rightarrow> bool" where
  "is_multi n = (case sn_kind n of SMultiLeaf v \<Rightarrow> True | _ \<Rightarrow> False)"

definition info :: "string \<Rightarrow> schema_node \<Rightarrow> node_info" where
  "info name n =
     \<lparr>ni_name = name, ni_help = sn_help n, ni_placeholder = False,
      ni_value = (case sn_kind n of
          SLeaf v \<Rightarrow> Some (spec_placeholder v)
        | SMultiLeaf v \<Rightarrow> Some (spec_placeholder v)
        | STag t \<Rightarrow> Some (spec_placeholder (tag_value t))
        | SContainer \<Rightarrow> None
        | SFlag \<Rightarrow> None),
      ni_multi = is_multi n, ni_default = sn_default n, ni_secret = sn_secret n\<rparr>"

definition value_info :: "schema_node \<Rightarrow> value_spec \<Rightarrow> node_info" where
  "value_info n v =
     \<lparr>ni_name = spec_placeholder v, ni_help = sn_help n, ni_placeholder = True, ni_value = None,
      ni_multi = is_multi n, ni_default = sn_default n, ni_secret = sn_secret n\<rparr>"

definition children_of :: "schema \<Rightarrow> path \<Rightarrow> node_info list" where
  "children_of sc p =
     (case resolve sc p of
        None \<Rightarrow> []
      | Some (AtNode n) \<Rightarrow>
          (case sn_kind n of
             SContainer \<Rightarrow> map (\<lambda>(name, c). info name c) (sn_children n)
           | STag t \<Rightarrow>
               [\<lparr>ni_name = spec_placeholder (tag_value t), ni_help = tag_help t, ni_placeholder = True,
                 ni_value = None, ni_multi = False, ni_default = None, ni_secret = False\<rparr>]
           | SLeaf v \<Rightarrow> [value_info n v]
           | SMultiLeaf v \<Rightarrow> [value_info n v]
           | SFlag \<Rightarrow> [])
      | Some (AtInstance n) \<Rightarrow> map (\<lambda>(name, c). info name c) (sn_children n)
      | Some (AtValue n) \<Rightarrow> [])"

end
