(* ===== verification/Validate.thy ===== *)
theory Validate
  imports Schema_Model
begin

text \<open>
  \<open>src/nightshade-schema/src/validate.rs\<close>: checking a configuration against the schema. The
  first half is a single edit (\<open>validate_set\<close>, \<open>apply_set\<close>, \<open>apply_delete\<close>) and the pass over
  structure and types (\<open>validate_tree\<close>); the second, \<open>Constraints\<close>, is the rules between
  nodes. The vectors the code pushes violations to are the lists the functions return.
\<close>

section \<open>Errors\<close>

record violation =
  cv_path :: path
  cv_message :: string

definition violation :: "path \<Rightarrow> string \<Rightarrow> violation" where
  "violation p m = \<lparr>cv_path = p, cv_message = m\<rparr>"

definition show_violation :: "violation \<Rightarrow> string" where
  "show_violation v = show_path (cv_path v) @ '': '' @ cv_message v"

datatype set_error =
    SetUnknownPath path
  | ValueRequired path string
  | UnexpectedValue path
  | BadValue path value_error
  | BadName path value_error
  | NotSettable path
  | Rejected path string

fun show_set_error :: "set_error \<Rightarrow> string" where
  "show_set_error (SetUnknownPath p) = ''`'' @ show_path p @ ''` is not a configuration path''"
| "show_set_error (ValueRequired p e) = ''`'' @ show_path p @ ''` takes a value: '' @ e"
| "show_set_error (UnexpectedValue p) = ''`'' @ show_path p @ ''` takes no value''"
| "show_set_error (BadValue p e) = ''`'' @ show_path p @ ''`: '' @ show_value_error e"
| "show_set_error (BadName p e) = ''`'' @ show_path p @ ''`: '' @ show_value_error e"
| "show_set_error (NotSettable p) =
     ''`'' @ show_path p @ ''` groups other settings; set one of them instead''"
| "show_set_error (Rejected p m) = ''`'' @ show_path p @ ''`: '' @ m"

datatype delete_error =
    DelUnknownPath path
  | NotConfigured path
  | NoSuchValue path string

fun show_delete_error :: "delete_error \<Rightarrow> string" where
  "show_delete_error (DelUnknownPath p) = ''`'' @ show_path p @ ''` is not a configuration path''"
| "show_delete_error (NotConfigured p) = ''`'' @ show_path p @ ''` is not configured''"
| "show_delete_error (NoSuchValue p v) =
     ''`'' @ show_path p @ ''` does not have the value '' @ debug_str v"

section \<open>Defaults\<close>

function collect_defaults :: "schema_node \<Rightarrow> path \<Rightarrow> config_tree \<Rightarrow> config_tree"
and collect_defaults_kids ::
  "(string \<times> schema_node) list \<Rightarrow> path \<Rightarrow> config_tree \<Rightarrow> config_tree" where
  "collect_defaults (SchemaNode k h d sec req pri ch cons uniq excl) at t =
     (case k of
        SContainer \<Rightarrow> collect_defaults_kids ch at t
      | STag tg \<Rightarrow> t
      | SFlag \<Rightarrow> t
      | SLeaf v \<Rightarrow> (case d of None \<Rightarrow> t | Some dv \<Rightarrow> fst (tree_set at dv t))
      | SMultiLeaf v \<Rightarrow> (case d of None \<Rightarrow> t | Some dv \<Rightarrow> fst (tree_set at dv t)))"
| "collect_defaults_kids [] at t = t"
| "collect_defaults_kids ((name, n) # ch) at t =
     collect_defaults_kids ch at (collect_defaults n (path_child at name) t)"
  by pat_completeness auto
termination
  by (relation "measure (\<lambda>x. case x of
        Inl (n, at, t) \<Rightarrow> size n
      | Inr (ch, at, t) \<Rightarrow> size_list (size_prod (\<lambda>_. 0) size) ch)") auto

definition defaults :: "schema \<Rightarrow> config_tree" where
  "defaults sc = collect_defaults (sc_root sc) path_root tree_new"

section \<open>One edit\<close>

text \<open>The walk of \<open>validate_set\<close>: \<open>seen\<close> is \<open>path[..i]\<close>, so \<open>seen @ [s]\<close> is \<open>so_far\<close>.\<close>

fun set_walk :: "value_env \<Rightarrow> location \<Rightarrow> path \<Rightarrow> path \<Rightarrow> set_error + location" where
  "set_walk env loc seen [] = Inr loc"
| "set_walk env (AtNode n) seen (s # ss) =
     (case sn_kind n of
        SContainer \<Rightarrow>
          (case child_location n s of
             Some loc' \<Rightarrow> set_walk env loc' (seen @ [s]) ss
           | None \<Rightarrow> Inl (SetUnknownPath (seen @ [s])))
      | STag tg \<Rightarrow>
          (case spec_check env (tag_value tg) s of
             Inl e \<Rightarrow> Inl (BadName (seen @ [s]) e)
           | Inr u \<Rightarrow> set_walk env (AtInstance n) (seen @ [s]) ss)
      | SLeaf v \<Rightarrow> Inl (SetUnknownPath (seen @ [s]))
      | SMultiLeaf v \<Rightarrow> Inl (SetUnknownPath (seen @ [s]))
      | SFlag \<Rightarrow> Inl (SetUnknownPath (seen @ [s])))"
| "set_walk env (AtInstance n) seen (s # ss) =
     (case child_location n s of
        Some loc' \<Rightarrow> set_walk env loc' (seen @ [s]) ss
      | None \<Rightarrow> Inl (SetUnknownPath (seen @ [s])))"
| "set_walk env (AtValue n) seen (s # ss) = Inl (SetUnknownPath (seen @ [s]))"

definition validate_set :: "value_env \<Rightarrow> schema \<Rightarrow> path \<Rightarrow> string option \<Rightarrow> set_error + unit" where
  "validate_set env sc p value =
     bind_result (set_walk env (AtNode (sc_root sc)) [] p) (\<lambda>loc.
       case (loc, value) of
         (AtNode n, Some v) \<Rightarrow>
           (case sn_kind n of
              SLeaf s \<Rightarrow> map_err (BadValue p) (spec_check env s v)
            | SMultiLeaf s \<Rightarrow> map_err (BadValue p) (spec_check env s v)
            | SFlag \<Rightarrow> Inl (UnexpectedValue p)
            | SContainer \<Rightarrow> Inl (SetUnknownPath (path_child p v))
            | STag tg \<Rightarrow> Inl (SetUnknownPath (path_child p v)))
       | (AtNode n, None) \<Rightarrow>
           (case sn_kind n of
              SFlag \<Rightarrow> Inr ()
            | SLeaf s \<Rightarrow> Inl (ValueRequired p (spec_placeholder s))
            | SMultiLeaf s \<Rightarrow> Inl (ValueRequired p (spec_placeholder s))
            | SContainer \<Rightarrow> Inl (NotSettable p)
            | STag tg \<Rightarrow> Inl (ValueRequired p (spec_placeholder (tag_value tg))))
       | (AtInstance n, None) \<Rightarrow> Inr ()
       | (AtInstance n, Some v) \<Rightarrow> Inl (SetUnknownPath (path_child p v))
       | (AtValue n, w) \<Rightarrow> Inl (SetUnknownPath p))"

definition is_multi_leaf :: "schema \<Rightarrow> path \<Rightarrow> bool" where
  "is_multi_leaf sc p = (case resolve sc p of Some (AtNode n) \<Rightarrow> is_multi n | _ \<Rightarrow> False)"

definition rejected :: "path \<Rightarrow> config_tree \<times> (tree_error + unit) \<Rightarrow> config_tree \<times> (set_error + unit)" where
  "rejected p r = (fst r, map_err (\<lambda>e. Rejected p (show_tree_error e)) (snd r))"

definition apply_set ::
  "value_env \<Rightarrow> schema \<Rightarrow> path \<Rightarrow> string option \<Rightarrow> config_tree \<Rightarrow> config_tree \<times> (set_error + unit)" where
  "apply_set env sc p value t =
     (case validate_set env sc p value of
        Inl e \<Rightarrow> (t, Inl e)
      | Inr u \<Rightarrow>
          (case value of
             Some v \<Rightarrow>
               if is_multi_leaf sc p then rejected p (tree_add p v t)
               else rejected p (tree_set p v t)
           | None \<Rightarrow>
               (case resolve sc p of
                  Some (AtInstance n) \<Rightarrow> rejected p (ensure_interior p t)
                | _ \<Rightarrow> rejected p (set_flag p t))))"

definition apply_delete ::
  "schema \<Rightarrow> path \<Rightarrow> string option \<Rightarrow> config_tree \<Rightarrow> config_tree \<times> (delete_error + unit)" where
  "apply_delete sc p value t =
     (if resolve sc p = None then (t, Inl (DelUnknownPath p))
      else
        (case value of
           Some v \<Rightarrow>
             (case tree_remove_value p v t of
                (t', b) \<Rightarrow> (t', if b then Inr () else Inl (NoSuchValue p v)))
         | None \<Rightarrow>
             (case tree_remove p t of
                (t', b) \<Rightarrow> (t', if b then Inr () else Inl (NotConfigured p)))))"

section \<open>Structure and types\<close>

definition not_interior :: "path \<Rightarrow> violation" where
  "not_interior at = violation at ''groups other settings, so it cannot hold a value''"

definition check_leaf :: "value_env \<Rightarrow> value_spec \<Rightarrow> bool \<Rightarrow> body \<Rightarrow> path \<Rightarrow> violation list" where
  "check_leaf env s multi b at =
     (case b of
        Interior m \<Rightarrow> [violation at ''takes a value, but has child nodes'']
      | Values vs \<Rightarrow>
          (if vs = [] then [violation at (''needs a value: '' @ spec_placeholder s)]
           else if \<not> multi \<and> length vs > 1
             then [violation at (''takes one value but has '' @ show_nat (length vs) @ '': '' @ join '', '' vs)]
             else []) @
          concat (map (\<lambda>v. case spec_check env s v of
              Inl e \<Rightarrow> [violation at (show_value_error e)] | Inr u \<Rightarrow> []) vs))"

definition check_flag :: "body \<Rightarrow> path \<Rightarrow> violation list" where
  "check_flag b at =
     (case b of
        Values vs \<Rightarrow>
          if vs = [] then []
          else [violation at (''takes no value, but was given '' @ join '', '' vs)]
      | Interior m \<Rightarrow> [violation at ''takes no value and has no settings under it''])"

text \<open>\<open>check_kids\<close> is the loop of \<open>descend\<close>, \<open>check_instances\<close> the one over the keys of a tag node.\<close>

function check_types :: "value_env \<Rightarrow> location \<Rightarrow> node \<Rightarrow> path \<Rightarrow> violation list"
and check_kids :: "value_env \<Rightarrow> schema_node \<Rightarrow> kids \<Rightarrow> path \<Rightarrow> violation list"
and check_instances :: "value_env \<Rightarrow> schema_node \<Rightarrow> tag_spec \<Rightarrow> kids \<Rightarrow> path \<Rightarrow> violation list" where
  "check_types env (AtValue n) (Node c b) at = []"
| "check_types env (AtInstance n) (Node c b) at =
     (case b of Values vs \<Rightarrow> [not_interior at] | Interior m \<Rightarrow> check_kids env n m at)"
| "check_types env (AtNode n) (Node c b) at =
     (case sn_kind n of
        SContainer \<Rightarrow>
          (case b of Values vs \<Rightarrow> [not_interior at] | Interior m \<Rightarrow> check_kids env n m at)
      | STag tg \<Rightarrow>
          (case b of Values vs \<Rightarrow> [not_interior at] | Interior m \<Rightarrow> check_instances env n tg m at)
      | SLeaf s \<Rightarrow> check_leaf env s False b at
      | SMultiLeaf s \<Rightarrow> check_leaf env s True b at
      | SFlag \<Rightarrow> check_flag b at)"
| "check_kids env n [] at = []"
| "check_kids env n ((name, x) # m) at =
     (case bm_get (sn_children n) name of
        Some s \<Rightarrow> check_types env (AtNode s) x (path_child at name)
      | None \<Rightarrow> [violation (path_child at name) ''is not a configuration path'']) @
     check_kids env n m at"
| "check_instances env n tg [] at = []"
| "check_instances env n tg ((key, x) # m) at =
     (case spec_check env (tag_value tg) key of
        Inl e \<Rightarrow> [violation (path_child at key) (show_value_error e)]
      | Inr u \<Rightarrow> check_types env (AtInstance n) x (path_child at key)) @
     check_instances env n tg m at"
  by pat_completeness auto
termination
  by (relation "measure (\<lambda>x. case x of
        Inl (env, loc, n, at) \<Rightarrow> size n
      | Inr (Inl (env, n, m, at)) \<Rightarrow> size_list (size_prod (\<lambda>_. 0) size) m
      | Inr (Inr (env, n, tg, m, at)) \<Rightarrow> size_list (size_prod (\<lambda>_. 0) size) m)") auto

definition validate_tree :: "value_env \<Rightarrow> schema \<Rightarrow> config_tree \<Rightarrow> violation list" where
  "validate_tree env sc t = check_types env (AtNode (sc_root sc)) (root t) path_root"

end
