(* ===== verification/Constraints.thy ===== *)
theory Constraints
  imports Validate
begin

text \<open>
  The second half of \<open>src/nightshade-schema/src/validate.rs\<close>: the rules that involve more than
  one node. A pattern expands to the paths of the tree it matches; \<open>check_cross\<close> walks the
  configuration beside the schema, \<open>check_global\<close> looks at the tree as a whole.
\<close>

section \<open>Patterns against a configuration\<close>

fun expand_segment :: "config_tree \<Rightarrow> string option \<Rightarrow> pattern_segment \<Rightarrow> path \<Rightarrow> path list" where
  "expand_segment t current (Literal name) p =
     (if tree_contains (path_child p name) t then [path_child p name] else [])"
| "expand_segment t current Current p =
     (case current of
        None \<Rightarrow> []
      | Some k \<Rightarrow> if tree_contains (path_child p k) t then [path_child p k] else [])"
| "expand_segment t current AnyKey p =
     (case tree_get p t of
        None \<Rightarrow> []
      | Some n \<Rightarrow>
          (case node_children n of
             None \<Rightarrow> []
           | Some m \<Rightarrow> map (\<lambda>(k, x). path_child p k) m))"

fun expand_from :: "config_tree \<Rightarrow> string option \<Rightarrow> path_pattern \<Rightarrow> path list \<Rightarrow> path list" where
  "expand_from t current [] here = here"
| "expand_from t current (seg # segs) here =
     expand_from t current segs (concat (map (expand_segment t current seg) here))"

definition expand :: "config_tree \<Rightarrow> path_pattern \<Rightarrow> string option \<Rightarrow> path list" where
  "expand t pat current = expand_from t current pat [path_root]"

definition contributed :: "config_tree \<Rightarrow> path \<Rightarrow> string list" where
  "contributed t p =
     (case Option.bind (tree_get p t) node_value_set of
        Some vs \<Rightarrow> vs
      | None \<Rightarrow> (case path_last p of None \<Rightarrow> [] | Some s \<Rightarrow> [s]))"

definition pattern_values :: "config_tree \<Rightarrow> path_pattern \<Rightarrow> string option \<Rightarrow> string list" where
  "pattern_values t pat current = concat (map (contributed t) (expand t pat current))"

definition owner_name :: "path \<Rightarrow> string" where
  "owner_name p =
     (case Option.bind (path_parent p) path_last of Some s \<Rightarrow> s | None \<Rightarrow> show_path p)"

text \<open>\<open>str::replace\<close>: every occurrence, left to right, not overlapping.\<close>

function str_replace :: "string \<Rightarrow> string \<Rightarrow> string \<Rightarrow> string" where
  "str_replace pat rep [] = []"
| "str_replace pat rep (c # cs) =
     (if pat \<noteq> [] \<and> starts_with (c # cs) pat
      then rep @ str_replace pat rep (drop (length pat) (c # cs))
      else c # str_replace pat rep cs)"
  by pat_completeness auto
termination
  by (relation "measure (\<lambda>(pat, rep, s). length s)") (auto simp: neq_Nil_conv)

definition fill :: "string \<Rightarrow> (string \<times> string) list \<Rightarrow> string" where
  "fill template pairs =
     foldl (\<lambda>out (name, value). str_replace (''{'' @ name @ ''}'') value out) template pairs"

section \<open>Rules of one node\<close>

fun check_constraint ::
  "schema_constraint \<Rightarrow> node \<Rightarrow> path \<Rightarrow> string option \<Rightarrow> config_tree \<Rightarrow> violation list" where
  "check_constraint (ValueInPathSet pats msg) n at current t =
     (case node_value_set n of
        None \<Rightarrow> []
      | Some vs \<Rightarrow>
          (let allowed = concat (map (\<lambda>p. pattern_values t p current) pats)
           in map (\<lambda>v. violation at (fill msg [(''value'', v), (''path'', show_path at)]))
                (filter (\<lambda>v. v \<notin> set allowed) vs)))"
| "check_constraint (PathExists pat msg) n at current t =
     (if expand t pat current = []
      then [violation at (fill msg [(''path'', show_pattern pat)])] else [])"
| "check_constraint (PathHasValue pat value msg) n at current t =
     (if list_ex (\<lambda>p. case values_at p t of None \<Rightarrow> False | Some vs \<Rightarrow> value \<in> set vs)
           (expand t pat current)
      then []
      else [violation at (fill msg [(''path'', show_pattern pat), (''value'', value)])])"

definition check_required :: "schema_node \<Rightarrow> kids \<Rightarrow> path \<Rightarrow> violation list" where
  "check_required n m at =
     map (\<lambda>(name, s). violation (path_child at name) ''is required but is not set'')
       (filter (\<lambda>(name, s). sn_required s \<and> bm_get m name = None) (sn_children n))"

definition check_exclusive :: "schema_node \<Rightarrow> kids \<Rightarrow> path \<Rightarrow> violation list" where
  "check_exclusive n m at =
     concat (map (\<lambda>group.
         let present = filter (\<lambda>s. bm_get m s \<noteq> None) group
         in if length present > 1
            then [violation at (join '' and '' present @ '' cannot both be set'')] else [])
       (sn_exclusive n))"

text \<open>The values of one tuple of children, or \<open>None\<close> when an instance lacks a component.\<close>

definition component :: "node \<Rightarrow> string \<Rightarrow> string option" where
  "component n name =
     Option.bind (node_children n) (\<lambda>m. Option.bind (bm_get m name) node_value)"

fun tuple_values :: "node \<Rightarrow> string list \<Rightarrow> string list option" where
  "tuple_values n [] = Some []"
| "tuple_values n (name # names) =
     (case component n name of
        None \<Rightarrow> None
      | Some v \<Rightarrow> map_option (\<lambda>vs. v # vs) (tuple_values n names))"

fun unique_scan ::
  "string list \<Rightarrow> path \<Rightarrow> (string list \<times> string) list \<Rightarrow> kids \<Rightarrow> violation list" where
  "unique_scan tup at seen [] = []"
| "unique_scan tup at seen ((key, n) # m) =
     (case tuple_values n tup of
        None \<Rightarrow> unique_scan tup at seen m
      | Some vs \<Rightarrow>
          (case bm_get seen vs of
             Some other \<Rightarrow>
               violation (path_child at key)
                 (''has the same '' @ join '' and '' tup @ '' as '' @ other @ '' ('' @ join '', '' vs @ '')'')
               # unique_scan tup at seen m
           | None \<Rightarrow> unique_scan tup at (bm_insert vs key seen) m))"

definition check_unique :: "schema_node \<Rightarrow> kids \<Rightarrow> path \<Rightarrow> violation list" where
  "check_unique n m at = concat (map (\<lambda>tup. unique_scan tup at [] m) (sn_unique n))"

function check_cross ::
  "location \<Rightarrow> node \<Rightarrow> path \<Rightarrow> string option \<Rightarrow> config_tree \<Rightarrow> violation list"
and cross_instances :: "schema_node \<Rightarrow> kids \<Rightarrow> path \<Rightarrow> config_tree \<Rightarrow> violation list"
and cross_kids ::
  "schema_node \<Rightarrow> kids \<Rightarrow> path \<Rightarrow> string option \<Rightarrow> config_tree \<Rightarrow> violation list" where
  "check_cross loc (Node c b) at current t =
     (case loc of
        AtValue n \<Rightarrow> []
      | AtNode n \<Rightarrow>
          concat (map (\<lambda>k. check_constraint k (Node c b) at current t) (sn_constraints n)) @
          (case b of
             Values vs \<Rightarrow> []
           | Interior m \<Rightarrow>
               if sn_is_tag n then check_unique n m at @ cross_instances n m at t
               else check_required n m at @ check_exclusive n m at @ cross_kids n m at current t)
      | AtInstance n \<Rightarrow>
          concat (map (\<lambda>k. check_constraint k (Node c b) at current t) (sn_constraints n)) @
          (case b of
             Values vs \<Rightarrow> []
           | Interior m \<Rightarrow>
               check_required n m at @ check_exclusive n m at @ cross_kids n m at current t))"
| "cross_instances n [] at t = []"
| "cross_instances n ((key, x) # m) at t =
     check_cross (AtInstance n) x (path_child at key) (Some key) t @ cross_instances n m at t"
| "cross_kids n [] at current t = []"
| "cross_kids n ((name, x) # m) at current t =
     (case bm_get (sn_children n) name of
        Some s \<Rightarrow> check_cross (AtNode s) x (path_child at name) current t
      | None \<Rightarrow> []) @
     cross_kids n m at current t"
  by pat_completeness auto
termination
  by (relation "measure (\<lambda>x. case x of
        Inl (loc, n, at, cur, t) \<Rightarrow> size n
      | Inr (Inl (n, m, at, t)) \<Rightarrow> size_list (size_prod (\<lambda>_. 0) size) m
      | Inr (Inr (n, m, at, cur, t)) \<Rightarrow> size_list (size_prod (\<lambda>_. 0) size) m)") auto

section \<open>Rules of the whole configuration\<close>

definition add_claim :: "string \<Rightarrow> path \<Rightarrow> (string \<times> path list) list \<Rightarrow> (string \<times> path list) list" where
  "add_claim v p claims =
     bm_insert v ((case bm_get claims v of None \<Rightarrow> [] | Some ps \<Rightarrow> ps) @ [p]) claims"

definition claims_of :: "config_tree \<Rightarrow> path_pattern list \<Rightarrow> (string \<times> path list) list" where
  "claims_of t pats =
     fold (\<lambda>(v, p). add_claim v p)
       (concat (map (\<lambda>p. map (\<lambda>v. (v, p)) (contributed t p))
          (concat (map (\<lambda>pat. expand t pat None) pats)))) []"

fun check_global :: "global_constraint \<Rightarrow> config_tree \<Rightarrow> violation list" where
  "check_global (UniqueAcross pats msg) t =
     concat (map (\<lambda>(v, ps).
         if length ps < 2 then []
         else
           let referrers = sort ps; names = map owner_name referrers
           in map (\<lambda>r. violation r
                     (fill msg [(''value'', v), (''referrers'', join '', '' names)])) referrers)
       (claims_of t pats))"
| "check_global (ForbidChildOnReferenced refs search forbid msg) t =
     concat (map (\<lambda>referrer.
       concat (map (\<lambda>v.
         concat (map (\<lambda>base.
             let target = path_child (path_child base v) forbid
             in if tree_contains target t
                then [violation target
                        (fill msg [(''value'', v), (''referrer'', owner_name referrer),
                                   (''referrer-path'', show_path referrer)])]
                else [])
           (concat (map (\<lambda>b. expand t b None) search))))
         (contributed t referrer)))
       (concat (map (\<lambda>pat. expand t pat None) refs)))"

definition check_constraints :: "schema \<Rightarrow> config_tree \<Rightarrow> violation list" where
  "check_constraints sc t =
     remdups_adj (sort_key (\<lambda>v. (cv_path v, cv_message v))
       (check_cross (AtNode (sc_root sc)) (root t) path_root None t @
        concat (map (\<lambda>g. check_global g t) (sc_globals sc))))"

end
