(* ===== verification/Value_Laws.thy ===== *)
theory Value_Laws
  imports Value_Types
begin

text \<open>
  What an accepted value can be. The address parsers only ever consume hexadecimal digits,
  dots and colons; from that and the predicates of \<open>Value_Types\<close> follow the two facts the
  rest of the system relies on: no accepted value carries a control character or a line break
  into a file, and the names handed to the system are free of the separators of the files and
  commands they end up in.
\<close>

section \<open>Character sets\<close>

definition plain :: "char \<Rightarrow> bool" where
  "plain c \<longleftrightarrow> \<not> is_control c"

definition addr_char :: "char \<Rightarrow> bool" where
  "addr_char c \<longleftrightarrow> is_ascii_hexdigit c \<or> c = CHR ''.'' \<or> c = CHR '':''"

lemma plain_alnum: "is_ascii_alphanumeric c \<Longrightarrow> plain c" "is_ascii_digit c \<Longrightarrow> plain c"
  "is_ascii_hexdigit c \<Longrightarrow> plain c"
  by (auto simp: plain_def char_class)

lemma plain_literals [simp]: "plain (CHR ''.'')" "plain (CHR '':'')" "plain (CHR ''-'')" "plain (CHR ''+'')"
  "plain (CHR ''/'')" "plain (CHR ''_'')" "plain (CHR ''$'')" "plain (CHR ''!'')" "plain (CHR ''*'')"
  by (simp_all add: plain_def char_class code_def)

lemma addr_char_plain: "addr_char c \<Longrightarrow> plain c"
  by (auto simp: addr_char_def plain_alnum)

definition consumes :: "(char \<Rightarrow> bool) \<Rightarrow> string \<Rightarrow> string \<Rightarrow> bool" where
  "consumes ok s r \<longleftrightarrow> (\<exists>p. s = p @ r \<and> list_all ok p)"

lemma consumes_refl [intro]: "consumes ok s s"
  by (simp add: consumes_def)

lemma consumes_trans [trans]: "consumes ok s r \<Longrightarrow> consumes ok r q \<Longrightarrow> consumes ok s q"
  unfolding consumes_def by (metis append.assoc list_all_append)

lemma consumes_Nil: "consumes ok s [] \<longleftrightarrow> list_all ok s"
  by (auto simp: consumes_def)

lemma consumes_Cons: "ok c \<Longrightarrow> consumes ok (c # s) s"
  by (auto simp: consumes_def intro: exI [of _ "[c]"])

lemma digit_of_hex: "digit_of radix c \<noteq> None \<Longrightarrow> is_ascii_hexdigit c"
  by (auto simp: digit_of_def hex_value_def is_ascii_hexdigit_def split: option.splits if_splits)

lemma read_number_consumes: "read_number radix m z k s = Some (v, r) \<Longrightarrow> consumes addr_char s r"
proof -
  assume a: "read_number radix m z k s = Some (v, r)"
  let ?ds = "takeWhile (\<lambda>c. digit_of radix c \<noteq> None) s"
  have "r = drop (length ?ds) s" using a by (auto simp: read_number_def Let_def split: if_splits)
  then have "s = ?ds @ r" by (metis takeWhile_eq_take append_take_drop_id)
  moreover have "list_all addr_char ?ds"
    by (auto simp: list_all_iff addr_char_def dest!: set_takeWhileD intro: digit_of_hex)
  ultimately show ?thesis unfolding consumes_def by blast
qed

lemma after_sep_consumes:
  "after_sep sep i s = Some r \<Longrightarrow> sep = CHR ''.'' \<or> sep = CHR '':'' \<Longrightarrow> consumes addr_char s r"
  by (auto simp: after_sep_def addr_char_def intro!: consumes_Cons split: if_splits list.splits)

lemma read_octets_consumes: "read_octets i k s = Some (os, r) \<Longrightarrow> consumes addr_char s r"
proof (induction i k s arbitrary: os r rule: read_octets.induct)
  case (2 i k s)
  then obtain s1 n s2 os' where "after_sep (CHR ''.'') i s = Some s1"
    "read_number 10 3 False 255 s1 = Some (n, s2)" "read_octets (Suc i) k s2 = Some (os', r)"
    by (auto simp: bind_eq_Some_conv split: option.splits)
  then show ?case
    using "2.IH" after_sep_consumes read_number_consumes consumes_trans
    by (metis bind_eq_Some_conv)
qed auto

lemma read_ipv4_consumes: "read_ipv4 s = Some (os, r) \<Longrightarrow> consumes addr_char s r"
  by (simp add: read_ipv4_def read_octets_consumes)

lemma read_groups_consumes: "read_groups i k s = (gs, b, r) \<Longrightarrow> consumes addr_char s r"
proof (induction i k s arbitrary: gs b r rule: read_groups.induct)
  case (2 i k s)
  show ?case
  proof (cases "if 0 < k then Option.bind (after_sep (CHR '':'') i s) read_ipv4 else None")
    case (Some or)
    then obtain s1 where "after_sep (CHR '':'') i s = Some s1" "read_ipv4 s1 = Some (fst or, snd or)"
      by (auto simp: bind_eq_Some_conv split: if_splits)
    moreover have "snd or = r" using "2.prems" Some by (auto split: prod.splits)
    ultimately show ?thesis
      using after_sep_consumes read_ipv4_consumes consumes_trans by metis
  next
    case None
    show ?thesis
    proof (cases "Option.bind (after_sep (CHR '':'') i s) (read_number 16 4 True 65535)")
      case none: None
      then have "r = s" using "2.prems" None by auto
      then show ?thesis by auto
    next
      case (Some gr)
      obtain g s2 where gr: "gr = (g, s2)" by (cases gr)
      then obtain s1 where "after_sep (CHR '':'') i s = Some s1" "read_number 16 4 True 65535 s1 = Some (g, s2)"
        using Some by (auto simp: bind_eq_Some_conv)
      moreover obtain gs' where "read_groups (Suc i) k s2 = (gs', b, r)"
        using "2.prems" None Some gr by (auto split: prod.splits)
      ultimately show ?thesis
        using "2.IH" [OF None] Some gr after_sep_consumes read_number_consumes consumes_trans by metis
    qed
  qed
qed auto

lemma read_ipv6_consumes:
  assumes "read_ipv6 s = Some (gs, r)"
  shows "consumes addr_char s r"
proof -
  obtain head v4 r1 where h: "read_groups 0 8 s = (head, v4, r1)" by (cases "read_groups 0 8 s") auto
  have 1: "consumes addr_char s r1" by (rule read_groups_consumes [OF h])
  show ?thesis
  proof (cases "length head = 8")
    case True
    then show ?thesis using assms h 1 by (simp add: read_ipv6_def)
  next
    case False
    then obtain r2 where r1: "r1 = '':'' @ '':'' @ r2"
      using assms h by (auto simp: read_ipv6_def starts_with_iff split: if_splits)
    obtain tail u r' where t: "read_groups 0 (8 - (length head + 1)) r2 = (tail, u, r')"
      by (cases "read_groups 0 (8 - (length head + 1)) r2") auto
    have "r = r'" using assms h False t r1 by (auto simp: read_ipv6_def split: if_splits)
    moreover have "consumes addr_char r1 r2"
      using r1 by (auto simp: consumes_def addr_char_def intro: exI [of _ "''::''"])
    ultimately show ?thesis using 1 read_groups_consumes [OF t] consumes_trans by metis
  qed
qed

lemma parse_all_consumes:
  "parse_all p s = Some a \<Longrightarrow> (\<And>x r. p s = Some (x, r) \<Longrightarrow> consumes ok s r) \<Longrightarrow> list_all ok s"
  by (auto simp: parse_all_def consumes_Nil split: option.splits list.splits)

lemma parse_ip_chars:
  "parse_ipv4 s = Some a \<Longrightarrow> list_all addr_char s"
  "parse_ipv6 s = Some a \<Longrightarrow> list_all addr_char s"
  "parse_ip s = Some b \<Longrightarrow> list_all addr_char s"
  unfolding parse_ipv4_def parse_ipv6_def parse_ip_def
  by (erule parse_all_consumes; auto simp: read_ip_def split: option.splits
      intro: read_ipv4_consumes read_ipv6_consumes)+

section \<open>No control characters\<close>

lemma split_once_append: "split_once d s = Some (a, b) \<Longrightarrow> s = a @ d # b"
  by (induction s arbitrary: a) (auto split: if_splits option.splits)

lemma all_plain: "list_all ok s \<Longrightarrow> (\<And>c. ok c \<Longrightarrow> plain c) \<Longrightarrow> list_all plain s"
  by (simp add: list_all_iff)

lemma plain_digits: "all_digits s \<Longrightarrow> list_all plain s"
  by (auto simp: all_digits_def plain_alnum intro: all_plain)

lemma plain_unsigned: "parse_unsigned k s = Some n \<Longrightarrow> list_all plain s"
  by (cases s) (auto simp: parse_unsigned_def Let_def dest!: plain_digits split: if_splits)

lemma plain_i64: "parse_i64 s = Some n \<Longrightarrow> list_all plain s"
  by (cases s) (auto simp: parse_i64_def Let_def dest!: plain_digits split: if_splits)

lemma plain_ip: "parse_ip s = Some a \<Longrightarrow> list_all plain s"
  using parse_ip_chars(3) by (auto intro: all_plain addr_char_plain)

lemma plain_prefix:
  assumes "is_prefix v fam"
  shows "list_all plain v"
proof (cases "split_once (CHR ''/'') v")
  case (Some al)
  then obtain a l where al: "split_once (CHR ''/'') v = Some (a, l)" by (cases al) auto
  have l: "list_all is_ascii_digit l" using assms al by (simp add: is_prefix_def split: if_splits)
  then obtain n where "parse_u8 l = Some n"
    using assms al by (cases "parse_u8 l") (simp_all add: is_prefix_def split: if_splits)
  then obtain ip where "parse_ip a = Some ip"
    using assms al by (cases "parse_ip a") (simp_all add: is_prefix_def split: if_splits)
  then have "list_all plain a" by (rule plain_ip)
  moreover have "list_all plain l" using l plain_alnum(2) by (rule all_plain)
  ultimately show ?thesis using split_once_append [OF al] by simp
qed (use assms in \<open>simp add: is_prefix_def\<close>)

lemma hex_octet_plain: "hex_octet s = Some n \<Longrightarrow> list_all plain s"
  by (auto simp: hex_octet_def plain_alnum intro: all_plain split: if_splits)

lemma mac_octets_plain: "mac_octets k ps = Some os \<Longrightarrow> \<forall>p \<in> set ps. list_all plain p"
  by (induction k ps arbitrary: os rule: mac_octets.induct)
    (auto split: if_splits option.splits dest: hex_octet_plain)

lemma list_all_join: "\<forall>w \<in> set ws. list_all ok w \<Longrightarrow> list_all ok sep \<Longrightarrow> list_all ok (join sep ws)"
  by (induction sep ws rule: join.induct) auto

lemma list_all_split:
  assumes "\<forall>w \<in> set (split_on d s). list_all ok w" and "ok d"
  shows "list_all ok s"
  using list_all_join [OF assms(1), of "[d]"] assms(2) by simp

lemma plain_mac: "is_unicast_mac v \<Longrightarrow> list_all plain v"
  by (rule list_all_split [where d = "CHR '':''"])
    (auto simp: is_unicast_mac_def split: option.splits dest: mac_octets_plain)

lemma plain_port: "port_of s = Some n \<Longrightarrow> list_all plain s"
  by (auto simp: port_of_def parse_u16_def split: if_splits option.splits dest: plain_unsigned)

lemma plain_port_range:
  assumes "is_port_range v"
  shows "list_all plain v"
proof (cases "split_once (CHR ''-'') v")
  case None
  then show ?thesis using assms by (auto simp: is_port_range_def dest: plain_port)
next
  case (Some ab)
  obtain a b where ab: "split_once (CHR ''-'') v = Some (a, b)" using Some by (cases ab) auto
  obtain m n where "port_of a = Some m" "port_of b = Some n"
    using assms ab by (cases "port_of a"; cases "port_of b") (simp_all add: is_port_range_def)
  then show ?thesis using split_once_append [OF ab] by (simp add: plain_port)
qed

lemma plain_label: "hostname_label l \<Longrightarrow> list_all plain l"
  unfolding hostname_label_def by (elim conjE, erule all_plain) (auto intro: plain_alnum)

lemma plain_hostname:
  assumes "is_hostname v"
  shows "list_all plain v"
proof -
  have "list_all hostname_label (split_on (CHR ''.'') v)"
    using assms by (simp add: is_hostname_def split: if_split_asm)
  then show ?thesis
    by (intro list_all_split [where d = "CHR ''.''"])
      (auto simp: list_all_iff [where P = hostname_label] intro: plain_label)
qed

lemma butlast_last_all: "list_all ok (butlast s) \<Longrightarrow> ok (last s) \<Longrightarrow> list_all ok s"
  by (cases s rule: rev_cases) auto

definition user_char :: "char \<Rightarrow> bool" where
  "user_char c \<longleftrightarrow> is_ascii_lowercase c \<or> is_ascii_digit c \<or> c \<in> set ''-_$''"

lemma user_name_chars:
  assumes "is_user_name v"
  obtains c cs where "v = c # cs" and "is_ascii_lowercase c \<or> c = CHR ''_''" and "list_all user_char cs"
proof -
  obtain c cs where v: "v = c # cs" using assms by (cases v) (auto simp: is_user_name_def)
  let ?body = "if cs \<noteq> [] \<and> last cs = CHR ''$'' then butlast cs else cs"
  have c: "is_ascii_lowercase c \<or> c = CHR ''_''"
    and b: "list_all (\<lambda>c. is_ascii_lowercase c \<or> is_ascii_digit c \<or> c \<in> set ''-_'') ?body"
    using assms by (auto simp: v is_user_name_def Let_def split: if_split_asm)
  have body: "list_all user_char ?body"
    using b by (rule list.pred_mono_strong) (auto simp: user_char_def)
  have "list_all user_char cs"
  proof (cases "cs \<noteq> [] \<and> last cs = CHR ''$''")
    case True
    have "user_char (last cs)" using conjunct2 [OF True] unfolding user_char_def by simp
    moreover have "list_all user_char (butlast cs)" using body unfolding if_P [OF True] .
    ultimately show ?thesis by (rule butlast_last_all [rotated])
  next
    case False
    show ?thesis using body unfolding if_not_P [OF False] .
  qed
  with v c show thesis by (rule that)
qed

lemma user_char_plain: "user_char c \<Longrightarrow> plain c"
  by (auto simp: user_char_def plain_def char_class code_def)

lemma plain_user:
  assumes "is_user_name v"
  shows "list_all plain v"
proof -
  obtain c cs where v: "v = c # cs" "is_ascii_lowercase c \<or> c = CHR ''_''" "list_all user_char cs"
    using assms by (rule user_name_chars)
  have "user_char c" using v(2) by (auto simp: user_char_def)
  then have "list_all user_char v" using v by simp
  then show ?thesis using user_char_plain by (rule all_plain)
qed

lemma plain_text: "check_text v = Inr () \<Longrightarrow> list_all plain v"
  by (auto simp: check_text_def value_err_def plain_def list_ex_iff list_all_iff split: if_splits)

lemma plain_range: "range_check r v = Inr () \<Longrightarrow> list_all plain v"
  by (auto simp: range_check_def value_err_def split: option.splits dest: plain_i64)

lemma plain_zone: "check_time_zone env v = Inr () \<Longrightarrow> list_all plain v"
  by (auto simp: check_time_zone_def value_err_def Let_def list_all_iff plain_alnum split: if_splits)

lemma plain_password: "check_encrypted_password v = Inr () \<Longrightarrow> list_all plain v"
  by (auto simp: check_encrypted_password_def value_err_def Let_def list_all_iff list_ex_iff plain_def
      split: if_splits) (simp_all add: char_class code_def)

lemma verdict_Inr [simp]: "verdict ty v good = Inr () \<longleftrightarrow> good"
  by (simp add: verdict_def value_err_def)

lemma plain_interface: "is_interface_name v \<Longrightarrow> list_all plain v"
  by (auto simp: is_interface_name_def list_all_iff plain_alnum split: if_splits)

lemma plain_bool: "v = ''true'' \<or> v = ''false'' \<Longrightarrow> list_all plain v"
  by (elim disjE) (simp_all add: plain_def char_class code_def)

lemma type_check_plain:
  assumes "type_check env ty v = Inr ()"
  shows "list_all plain v \<or> (\<exists>vs. ty = VEnum vs \<and> v \<in> set vs)"
proof (cases ty)
  case VIpv4Address
  then show ?thesis using assms by (auto dest!: parse_ip_chars(1) intro: all_plain addr_char_plain)
next
  case VIpv6Address
  then show ?thesis using assms by (auto dest!: parse_ip_chars(2) intro: all_plain addr_char_plain)
next
  case VMulticastAddress
  then show ?thesis using assms by (cases "parse_ip v") (auto dest: plain_ip)
next
  case VPort
  then show ?thesis using assms by (auto simp: is_ok_def split: sum.split_asm dest: plain_range)
next
  case VBool
  then show ?thesis using assms plain_bool by simp
qed (use assms in \<open>auto dest: plain_text plain_range plain_ip plain_prefix plain_mac
    plain_port_range plain_interface plain_hostname plain_zone plain_user plain_password\<close>)

text \<open>
  A value the schema accepts carries no control character and no line break, whatever
  its type: it is one of the keywords or enumeration members the schema itself lists, or every
  character of it is printable. So no accepted value can end a line of a rendered unit file.
\<close>

lemma accepted_values_plain:
  assumes "spec_check env s v = Inr ()"
  shows "v \<in> set (vs_accepts s) \<or> (\<exists>vs. vs_ty s = VEnum vs \<and> v \<in> set vs) \<or>
    (\<forall>c \<in> set v. \<not> is_control c)"
proof (cases "v \<in> set (vs_accepts s)")
  case False
  then have "type_check env (vs_ty s) v = Inr ()"
    using assms by (auto simp: spec_check_def split: sum.split_asm)
  then show ?thesis using type_check_plain [of env "vs_ty s" v]
    by (auto simp: list_all_iff plain_def)
qed simp

definition no_env :: value_env where
  "no_env = \<lparr>is_match = (\<lambda>p v. False), tzdb_available = False, tz_known = (\<lambda>z. False)\<rparr>"

section \<open>Names\<close>

text \<open>
  The names handed to the system cannot be taken for something else there: an interface
  name is a single path component of at most 15 bytes, a login name and a password hash fit in
  one field of \<open>/etc/passwd\<close> and \<open>/etc/shadow\<close>, and a zone name cannot climb out of the zone
  directory.
\<close>

lemma system_names_safe:
  assumes "type_check env ty v = Inr ()"
  shows "(ty = VInterfaceName \<longrightarrow> v \<noteq> [] \<and> utf8_len v \<le> 15 \<and> v \<noteq> ''.'' \<and> v \<noteq> ''..'' \<and>
      CHR ''/'' \<notin> set v \<and> (\<forall>c \<in> set v. \<not> is_whitespace c)) \<and>
    (ty = VUserName \<longrightarrow> v \<noteq> [] \<and> CHR '':'' \<notin> set v \<and> CHR ''/'' \<notin> set v \<and> hd v \<noteq> CHR ''-'' \<and>
      \<not> is_ascii_digit (hd v)) \<and>
    (ty = VEncryptedPassword \<longrightarrow> CHR '':'' \<notin> set v \<and> newline \<notin> set v \<and>
      (v = ''!'' \<or> v = ''*'' \<or> hd v = CHR ''$'')) \<and>
    (ty = VTimeZone \<longrightarrow> v \<noteq> [] \<and> hd v \<noteq> CHR ''/'' \<and> \<not> has_dotdot v)"
proof (intro conjI impI)
  {
    assume ty: "ty = VInterfaceName"
    define name_char where "name_char c \<longleftrightarrow> is_ascii_alphanumeric c \<or> c \<in> set ''-_.''" for c
    have i: "\<not> (v = [] \<or> utf8_len v > IFNAMSIZ_MAX \<or> v = ''.'' \<or> v = ''..'')" "list_all name_char v"
      using assms unfolding ty type_check.simps verdict_Inr is_interface_name_def name_char_def
      by (auto split: if_split_asm)
    then show "v \<noteq> []" "utf8_len v \<le> 15" "v \<noteq> ''.''" "v \<noteq> ''..''"
      unfolding IFNAMSIZ_MAX_def by simp_all
    have "\<not> name_char (CHR ''/'')" "\<And>c. name_char c \<Longrightarrow> \<not> is_whitespace c"
      by (auto simp: name_char_def char_class code_def)
    then show "CHR ''/'' \<notin> set v" "\<forall>c \<in> set v. \<not> is_whitespace c"
      using i(2) by (auto simp: list_all_iff)
  }
  {
    assume ty: "ty = VUserName"
    then have "is_user_name v" using assms by simp
    then obtain c cs where v: "v = c # cs" and c: "is_ascii_lowercase c \<or> c = CHR ''_''"
      and cs: "list_all user_char cs"
      by (rule user_name_chars)
    have sep: "\<not> user_char (CHR '':'')" "\<not> user_char (CHR ''/'')"
      by (simp_all add: user_char_def char_class code_def)
    show "v \<noteq> []" by (simp add: v)
    show "CHR '':'' \<notin> set v" "CHR ''/'' \<notin> set v"
      using c cs sep by (auto simp: v list_all_iff char_class code_def)
    show "hd v \<noteq> CHR ''-''" "\<not> is_ascii_digit (hd v)"
      using c by (auto simp: v char_class code_def)
  }
  {
    assume ty: "ty = VEncryptedPassword"
    then have p: "check_encrypted_password v = Inr ()" using assms by simp
    then show "CHR '':'' \<notin> set v" "v = ''!'' \<or> v = ''*'' \<or> hd v = CHR ''$''"
      by (auto simp: check_encrypted_password_def value_err_def Let_def split: if_splits)
    show "newline \<notin> set v"
      using plain_password [OF p] by (auto simp: list_all_iff plain_def char_class code_def)
  }
  {
    assume ty: "ty = VTimeZone"
    then show "v \<noteq> []" "hd v \<noteq> CHR ''/''" "\<not> has_dotdot v"
      using assms by (auto simp: check_time_zone_def value_err_def Let_def split: if_splits)
  }
qed

section \<open>Ranges\<close>

lemma i64_distance_exact:
  assumes "I64_MIN \<le> lo" and "lo \<le> n" and "n - lo \<le> I64_MAX"
  shows "i64_distance n lo = nat (n - lo)"
proof -
  have "sint (word_of_int n - word_of_int lo :: 64 word) = sint (word_of_int (n - lo) :: 64 word)"
    by simp
  also have "\<dots> = signed_take_bit 63 (n - lo)"
    by (simp only: sint_sbintrunc') simp
  also have "\<dots> = n - lo"
    using assms by (simp add: I64_MAX_def signed_take_bit_int_eq_self)
  finally show ?thesis using assms(2) by (simp add: i64_distance_def)
qed

text \<open>
  A number type accepts exactly the numerals of its range: the text must parse as a
  64-bit integer between the bounds, and at a multiple of the step above the lower bound
  (provided the range itself spans less than 2^63, so that the subtraction cannot wrap). Every
  number of the range is accepted as the program prints it.
\<close>

lemma range_check_exact:
  assumes "I64_MIN \<le> vr_min r" and "vr_max r \<le> I64_MAX" and "vr_max r - vr_min r \<le> I64_MAX"
  shows "(is_ok (range_check r v) \<longleftrightarrow>
      (\<exists>n. parse_i64 v = Some n \<and> vr_min r \<le> n \<and> n \<le> vr_max r \<and>
         (\<forall>s. vr_step r = Some s \<longrightarrow> int s dvd n - vr_min r))) \<and>
    (\<forall>n. vr_min r \<le> n \<and> n \<le> vr_max r \<and> (\<forall>s. vr_step r = Some s \<longrightarrow> int s dvd n - vr_min r) \<longrightarrow>
       is_ok (range_check r (show_int n)))"
proof -
  have mult: "is_multiple_of (i64_distance n (vr_min r)) s \<longleftrightarrow> int s dvd n - vr_min r"
    if "vr_min r \<le> n" "n \<le> vr_max r" for n s
  proof -
    have "i64_distance n (vr_min r) = nat (n - vr_min r)"
      using that assms by (intro i64_distance_exact) auto
    moreover have "int s dvd n - vr_min r \<longleftrightarrow> s dvd nat (n - vr_min r)"
      using that(1) by (metis diff_ge_0_iff_ge int_dvd_int_iff int_nat_eq)
    ultimately show ?thesis
      using that(1) by (auto simp: is_multiple_of_def mod_eq_0_iff_dvd)
  qed
  have 1: "is_ok (range_check r w) \<longleftrightarrow>
      (\<exists>n. parse_i64 w = Some n \<and> vr_min r \<le> n \<and> n \<le> vr_max r \<and>
         (\<forall>s. vr_step r = Some s \<longrightarrow> int s dvd n - vr_min r))" for w
    using mult by (auto simp: range_check_def value_err_def is_ok_def split: option.splits if_splits)
  moreover have "parse_i64 (show_int n) = Some n" if "vr_min r \<le> n" "n \<le> vr_max r" for n
    using that assms by (intro parse_i64_show) auto
  ultimately show ?thesis by auto
qed

end
