(* ===== verification/Validate_Laws.thy ===== *)
theory Validate_Laws
  imports Validate Config_Spec Value_Laws
begin

text \<open>
  What validation means. \<open>walk\<close> follows a path through the schema, checking every tag key on
  the way, and \<open>admits\<close> says what the place it ends at may hold; a configuration is \<open>valid\<close>
  when everything in it is admitted. \<open>validate_tree\<close> decides exactly that, and the edits a
  session can make preserve it.
\<close>

section \<open>The meaning of the schema\<close>

fun walk_step :: "value_env \<Rightarrow> location \<Rightarrow> string \<Rightarrow> location option" where
  "walk_step env (AtNode n) s =
     (case sn_kind n of
        SContainer \<Rightarrow> child_location n s
      | STag tg \<Rightarrow> if is_ok (spec_check env (tag_value tg) s) then Some (AtInstance n) else None
      | _ \<Rightarrow> None)"
| "walk_step env (AtInstance n) s = child_location n s"
| "walk_step env (AtValue n) s = None"

fun walk :: "value_env \<Rightarrow> location \<Rightarrow> path \<Rightarrow> location option" where
  "walk env loc [] = Some loc"
| "walk env loc (s # ss) = Option.bind (walk_step env loc s) (\<lambda>l. walk env l ss)"

fun admits :: "value_env \<Rightarrow> location \<Rightarrow> kind \<Rightarrow> bool" where
  "admits env (AtNode n) k =
     (case sn_kind n of
        SContainer \<Rightarrow> k = KDir
      | STag tg \<Rightarrow> k = KDir
      | SLeaf s \<Rightarrow> (\<exists>v. k = KLeaf [v] \<and> is_ok (spec_check env s v))
      | SMultiLeaf s \<Rightarrow> (\<exists>vs. k = KLeaf vs \<and> vs \<noteq> [] \<and> (\<forall>v \<in> set vs. is_ok (spec_check env s v)))
      | SFlag \<Rightarrow> k = KLeaf [])"
| "admits env (AtInstance n) k = (k = KDir)"
| "admits env (AtValue n) k = False"

definition valid_below :: "value_env \<Rightarrow> location \<Rightarrow> aconfig \<Rightarrow> bool" where
  "valid_below env loc a \<longleftrightarrow>
     (\<forall>p c k. a p = Some (c, k) \<longrightarrow> (\<exists>l. walk env loc p = Some l \<and> admits env l k))"

definition valid :: "value_env \<Rightarrow> schema \<Rightarrow> aconfig \<Rightarrow> bool" where
  "valid env sc a \<longleftrightarrow> valid_below env (AtNode (sc_root sc)) a"

lemma is_ok_Inr: "is_ok r \<longleftrightarrow> (\<exists>u. r = Inr u)"
  by (cases r) auto

lemma set_walk_iff: "set_walk env loc seen p = Inr l \<longleftrightarrow> walk env loc p = Some l"
  by (induction env loc seen p rule: set_walk.induct)
    (auto simp: is_ok_def split: schema_kind.splits option.splits sum.splits)

lemma walk_append: "walk env loc (p @ q) = Option.bind (walk env loc p) (\<lambda>l. walk env l q)"
  by (induction p arbitrary: loc) (auto split: bind_splits)

lemma walk_step_loc: "walk_step env loc s = Some l \<Longrightarrow> loc_step loc s = Some l \<and> admits env loc KDir"
  by (cases loc) (auto split: schema_kind.splits if_splits)

lemma walk_resolves: "walk env loc p = Some l \<Longrightarrow> resolve_from loc p = Some l"
  by (induction p arbitrary: loc) (auto simp: bind_eq_Some_conv dest: walk_step_loc)

text \<open>Whatever lies on the way to a place of the schema may be a container.\<close>

lemma walk_above:
  assumes "walk env loc p = Some l" and "strict_prefix q p"
  obtains l' where "walk env loc q = Some l'" and "admits env l' KDir"
proof -
  obtain s r where p: "p = q @ s # r"
    using assms(2) by (metis append_Nil2 neq_Nil_conv prefix_def strict_prefixE)
  then show thesis
    using assms(1) that by (auto simp: walk_append bind_eq_Some_conv dest: walk_step_loc)
qed

section \<open>Structure and types, exactly\<close>

lemma valid_values:
  "valid_below env loc (node_view (Node c (Values vs))) \<longleftrightarrow> admits env loc (KLeaf vs)"
proof -
  have "node_view (Node c (Values vs)) p = Some (d, k) \<longleftrightarrow> p = [] \<and> d = c \<and> k = KLeaf vs" for p d k
    by (cases p) (auto simp: node_view_Nil node_view_Cons)
  then show ?thesis by (auto simp: valid_below_def)
qed

lemma valid_interior:
  assumes "kids_ok m"
  shows "valid_below env loc (node_view (Node c (Interior m))) \<longleftrightarrow>
    admits env loc KDir \<and>
    (\<forall>(s, x) \<in> set m. \<exists>l. walk_step env loc s = Some l \<and> valid_below env l (node_view x))"
    (is "?valid \<longleftrightarrow> ?dir \<and> ?kids")
proof (intro iffI conjI)
  have mem: "(s, x) \<in> set m \<longleftrightarrow> bm_get m s = Some x" for s x
    using assms bm_ok_distinct by (metis kids_ok_def map_of_eq_Some_iff)
  {
    assume v: ?valid
    have "node_view (Node c (Interior m)) [] = Some (c, KDir)" by (simp add: node_view_Nil)
    then show ?dir using v by (fastforce simp: valid_below_def)
    show ?kids
    proof (clarify)
      fix s x assume "(s, x) \<in> set m"
      then have at: "node_view (Node c (Interior m)) (s # q) = node_view x q" for q
        by (simp add: mem node_view_Cons)
      have "\<exists>l. walk env loc (s # q) = Some l \<and> admits env l k" if "node_view x q = Some (d, k)" for q d k
        using v that at [of q] unfolding valid_below_def by metis
      moreover obtain d k where "node_view x [] = Some (d, k)" by (auto simp: node_view_Nil)
      ultimately obtain l where "walk_step env loc s = Some l"
        by (fastforce simp: bind_eq_Some_conv)
      then show "\<exists>l. walk_step env loc s = Some l \<and> valid_below env l (node_view x)"
        using \<open>\<And>q k d. node_view x q = Some (d, k) \<Longrightarrow> _\<close> by (auto simp: valid_below_def)
    qed
  }
  {
    assume v: "?dir \<and> ?kids"
    show ?valid unfolding valid_below_def
    proof (intro allI impI)
      fix p d k assume p: "node_view (Node c (Interior m)) p = Some (d, k)"
      show "\<exists>l. walk env loc p = Some l \<and> admits env l k"
      proof (cases p)
        case Nil
        then show ?thesis using p v by (simp add: node_view_Nil)
      next
        case (Cons s q)
        then obtain x where x: "bm_get m s = Some x" "node_view x q = Some (d, k)"
          using p by (auto simp: node_view_Cons split: option.splits)
        then obtain l where "walk_step env loc s = Some l" "valid_below env l (node_view x)"
          using v mem by fastforce
        then show ?thesis using x(2) Cons by (fastforce simp: valid_below_def)
      qed
    qed
  }
qed

lemma check_leaf_ok:
  "check_leaf env s False b at = [] \<longleftrightarrow> (\<exists>v. b = Values [v] \<and> is_ok (spec_check env s v))"
  "check_leaf env s True b at = [] \<longleftrightarrow>
     (\<exists>vs. b = Values vs \<and> vs \<noteq> [] \<and> (\<forall>v \<in> set vs. is_ok (spec_check env s v)))"
proof -
  have vals: "concat (map (\<lambda>v. case spec_check env s v of
      Inl e \<Rightarrow> [violation at (show_value_error e)] | Inr u \<Rightarrow> []) vs) = [] \<longleftrightarrow>
      (\<forall>v \<in> set vs. is_ok (spec_check env s v))" for vs
    by (auto simp: is_ok_def split: sum.splits)
  show "check_leaf env s False b at = [] \<longleftrightarrow> (\<exists>v. b = Values [v] \<and> is_ok (spec_check env s v))"
  proof (cases b)
    case (Values vs)
    consider "vs = []" | v where "vs = [v]" | v w ws where "vs = v # w # ws"
      by (metis list.exhaust)
    then show ?thesis using vals [of vs] by cases (auto simp: check_leaf_def Values)
  qed (simp add: check_leaf_def)
  show "check_leaf env s True b at = [] \<longleftrightarrow>
     (\<exists>vs. b = Values vs \<and> vs \<noteq> [] \<and> (\<forall>v \<in> set vs. is_ok (spec_check env s v)))"
    using vals by (cases b) (auto simp: check_leaf_def)
qed

lemma check_flag_ok: "check_flag b at = [] \<longleftrightarrow> b = Values []"
  by (cases b) (auto simp: check_flag_def)

lemma if_Some_ex [simp]: "(\<exists>l. (if b then Some a else None) = Some l \<and> ok l) \<longleftrightarrow> b \<and> ok a"
  by auto

lemma check_types_ok:
  "(\<And>n'. loc \<noteq> AtValue n') \<Longrightarrow> node_ok x \<Longrightarrow>
     check_types env loc x at = [] \<longleftrightarrow> valid_below env loc (node_view x)"
  "kids_ok m \<Longrightarrow> check_kids env n m at = [] \<longleftrightarrow>
     (\<forall>(s, x) \<in> set m. \<exists>l. child_location n s = Some l \<and> valid_below env l (node_view x))"
  "kids_ok m \<Longrightarrow> check_instances env n tg m at = [] \<longleftrightarrow>
     (\<forall>(s, x) \<in> set m. is_ok (spec_check env (tag_value tg) s) \<and>
        valid_below env (AtInstance n) (node_view x))"
proof (induction env loc x at and env n m at and env n tg m at rule: check_types_check_kids_check_instances.induct)
  case (2 env n c b at)
  then show ?case
    by (cases b) (auto simp: valid_values valid_interior node_ok_kids simp del: node_ok.simps)
next
  case (3 env n c b at)
  show ?case
  proof (cases b)
    case (Interior m)
    then have "kids_ok m" using "3.prems" by (simp add: node_ok_kids del: node_ok.simps)
    then show ?thesis using "3.IH" Interior
      by (cases "sn_kind n") (auto simp: valid_interior check_leaf_ok check_flag_ok)
  next
    case (Values vs)
    then show ?thesis
      by (cases "sn_kind n") (auto simp: valid_values check_leaf_ok check_flag_ok)
  qed
next
  case (5 env n name x m at)
  have "node_ok x" "kids_ok m" using "5.prems" by (auto simp: kids_ok_def bm_ok_Cons)
  then show ?case using "5.IH"
    by (auto simp: child_location_def split: option.splits)
next
  case (7 env n tg key x m at)
  have "node_ok x" "kids_ok m" using "7.prems" by (auto simp: kids_ok_def bm_ok_Cons)
  then show ?case using "7.IH"
    by (auto simp: is_ok_def split: sum.splits)
qed auto


text \<open>
  C27. \<open>validate_tree\<close> finds nothing wrong exactly when every node of the configuration is one
  the schema admits at that path: every tag key on the way passes its check, containers and
  instances hold children, a leaf holds one accepted value, a multi-leaf at least one, a flag
  none. Nothing invalid is missed and nothing valid is reported.
\<close>

theorem validate_tree_exact:
  assumes "tree_ok t"
  shows "validate_tree env sc t = [] \<longleftrightarrow> valid env sc (view t)"
  using assms check_types_ok(1) [of "AtNode (sc_root sc)" "root t" env path_root]
  by (simp add: validate_tree_def valid_def view_def tree_ok_def)

section \<open>A small schema\<close>

definition plain_node :: "schema_kind \<Rightarrow> (string \<times> schema_node) list \<Rightarrow> schema_node" where
  "plain_node k ch = SchemaNode k [] None False False 0 ch [] [] []"

definition small_schema :: schema where
  "small_schema = \<lparr>sc_root = plain_node SContainer
     [(''interfaces'', plain_node SContainer
        [(''ethernet'', plain_node (STag \<lparr>tag_value = spec_new VInterfaceName, tag_help = []\<rparr>)
           [(''address'', plain_node (SMultiLeaf (spec_accepting [''dhcp''] (spec_new VIpPrefix))) []),
            (''disable'', plain_node SFlag []),
            (''mtu'', plain_node (SLeaf (spec_new (VNumber (range_new 68 9216)))) [])])])],
     sc_globals = []\<rparr>"

definition eth_tree :: config_tree where
  "eth_tree = \<lparr>root = Node None (Interior
     [(''interfaces'', Node None (Interior
        [(''ethernet'', Node None (Interior
           [(''eth0'', Node None (Interior
              [(''address'', Node None (Values [''192.0.2.1/24'', ''dhcp'']))]))]))]))])\<rparr>"

lemma eth_tree_ok: "tree_ok eth_tree"
  by code_simp

theorem validate_tree_exact_witness:
  "valid no_env small_schema (view eth_tree) \<and>
   \<not> valid no_env small_schema (view (fst (tree_add [''interfaces''] ''x'' tree_new)))"
proof -
  have t2: "tree_ok (fst (tree_add [''interfaces''] ''x'' tree_new))"
    by code_simp
  have "validate_tree no_env small_schema eth_tree = []" by code_simp
  moreover have "validate_tree no_env small_schema (fst (tree_add [''interfaces''] ''x'' tree_new)) \<noteq> []"
    by code_simp
  ultimately show ?thesis
    using validate_tree_exact [OF eth_tree_ok] validate_tree_exact [OF t2] by blast
qed

section \<open>Edits keep a configuration valid\<close>

lemma valid_written:
  assumes "valid env sc a" and "walk env (AtNode (sc_root sc)) p = Some l" and "admits env l k"
  shows "valid env sc (written p (c, k) a)"
  unfolding valid_def valid_below_def
proof (intro allI impI)
  fix q d j assume q: "written p (c, k) a q = Some (d, j)"
  consider "q = p" | "q \<noteq> p" "strict_prefix q p" "a q = None" | "q \<noteq> p" "a q = Some (d, j)"
    using q by (auto simp: written_def created_def split: if_splits)
  then show "\<exists>l. walk env (AtNode (sc_root sc)) q = Some l \<and> admits env l j"
  proof cases
    case 1
    then show ?thesis using q assms(2,3) by (auto simp: written_def)
  next
    case 2
    then have "j = KDir" using q by (auto simp: written_def created_def)
    then show ?thesis using walk_above [OF assms(2) 2(2)] by metis
  next
    case 3
    then show ?thesis using assms(1) by (auto simp: valid_def valid_below_def)
  qed
qed

lemma valid_mono:
  "valid env sc a \<Longrightarrow> (\<And>p x. b p = Some x \<Longrightarrow> a p = Some x) \<Longrightarrow> valid env sc b"
  by (fastforce simp: valid_def valid_below_def)

lemma validate_set_ok:
  assumes "validate_set env sc p val = Inr u"
  obtains l where "walk env (AtNode (sc_root sc)) p = Some l" and "resolve sc p = Some l"
    and "case val of
        Some v \<Rightarrow> (\<exists>n s. l = AtNode n \<and> is_ok (spec_check env s v) \<and>
            (sn_kind n = SLeaf s \<or> sn_kind n = SMultiLeaf s))
      | None \<Rightarrow> (\<exists>n. l = AtInstance n \<or> l = AtNode n \<and> sn_kind n = SFlag)"
proof -
  obtain l where l: "set_walk env (AtNode (sc_root sc)) [] p = Inr l"
    using assms by (auto simp: validate_set_def bind_result_Inr)
  then have w: "walk env (AtNode (sc_root sc)) p = Some l" by (simp add: set_walk_iff)
  then have "resolve sc p = Some l" by (simp add: resolve_def walk_resolves)
  moreover have "case val of
        Some v \<Rightarrow> (\<exists>n s. l = AtNode n \<and> is_ok (spec_check env s v) \<and>
            (sn_kind n = SLeaf s \<or> sn_kind n = SMultiLeaf s))
      | None \<Rightarrow> (\<exists>n. l = AtInstance n \<or> l = AtNode n \<and> sn_kind n = SFlag)"
    using assms l
    by (cases l; cases val)
      (auto simp: validate_set_def is_ok_Inr split: schema_kind.splits)
  ultimately show thesis using w that by blast
qed

text \<open>The abstract edit a successful \<open>apply_set\<close> makes.\<close>

definition set_edit :: "schema \<Rightarrow> path \<Rightarrow> string option \<Rightarrow> aconfig \<Rightarrow> aconfig" where
  "set_edit sc p val a =
     (case val of
        Some v \<Rightarrow>
          written p (old_comment p a,
            KLeaf (if is_multi_leaf sc p then bs_insert v (old_values p a) else [v])) a
      | None \<Rightarrow>
          (case resolve sc p of
             Some (AtInstance n) \<Rightarrow> if a p = None then written p (None, KDir) a else a
           | _ \<Rightarrow> written p (old_comment p a, KLeaf []) a))"

lemma apply_set_edit:
  assumes ok: "tree_ok t" and res: "apply_set env sc p val t = (t', r)"
  shows "case r of
      Inl _ \<Rightarrow> t' = t
    | Inr u \<Rightarrow> validate_set env sc p val = Inr () \<and> tree_ok t' \<and> view t' = set_edit sc p val (view t)"
proof (cases "validate_set env sc p val")
  case (Inl e)
  then have "t' = t \<and> r = Inl e" using res by (simp add: apply_set_def)
  then show ?thesis by simp
next
  case (Inr u)
  have leaf: "case snd x of Inl e \<Rightarrow> fst x = t
      | Inr u \<Rightarrow> tree_ok (fst x) \<and> view (fst x) = written p (old_comment p (view t), KLeaf (g (old_values p (view t)))) (view t)"
    if "leaf_result g p t x" for x g
    using that by (auto simp: leaf_result_def split: prod.splits sum.splits)
  have dir: "case snd (ensure_interior p t) of Inl e \<Rightarrow> fst (ensure_interior p t) = t
      | Inr u \<Rightarrow> tree_ok (fst (ensure_interior p t)) \<and> view (fst (ensure_interior p t)) =
          (if view t p = None then written p (None, KDir) (view t) else view t)"
    using ensure_interior_result [OF ok, of p] by (auto split: prod.splits sum.splits)
  show ?thesis
  proof (cases val)
    case (Some v)
    then show ?thesis
      using res Inr leaf [OF tree_add_result [OF ok, where v = v and p = p]]
        leaf [OF tree_set_result [OF ok, where v = v and p = p]]
      by (auto simp: apply_set_def rejected_def set_edit_def split: sum.splits if_splits)
  next
    case None
    then show ?thesis
      using res Inr dir leaf [OF set_flag_result [OF ok, where p = p]]
      by (auto simp: apply_set_def rejected_def set_edit_def split: sum.splits option.splits location.splits if_splits)
  qed
qed

lemma set_edit_valid:
  assumes v: "valid env sc a" and set: "validate_set env sc p val = Inr ()"
    and ok: "\<And>vs c. a p = Some (c, KLeaf vs) \<Longrightarrow> bs_ok vs"
  shows "valid env sc (set_edit sc p val a)"
proof -
  obtain l where l: "walk env (AtNode (sc_root sc)) p = Some l" "resolve sc p = Some l"
    "case val of
        Some v \<Rightarrow> (\<exists>n s. l = AtNode n \<and> is_ok (spec_check env s v) \<and>
            (sn_kind n = SLeaf s \<or> sn_kind n = SMultiLeaf s))
      | None \<Rightarrow> (\<exists>n. l = AtInstance n \<or> l = AtNode n \<and> sn_kind n = SFlag)"
    using validate_set_ok [OF set] .
  show ?thesis
  proof (cases val)
    case None
    then consider n where "l = AtInstance n" | n where "l = AtNode n" "sn_kind n = SFlag"
      using l(3) by auto
    then show ?thesis
    proof cases
      case 1
      then show ?thesis using v valid_written [OF v l(1)] by (simp add: set_edit_def None l(2))
    next
      case 2
      then show ?thesis using valid_written [OF v l(1)] by (simp add: set_edit_def None l(2))
    qed
  next
    case (Some w)
    then obtain n s where n: "l = AtNode n" "is_ok (spec_check env s w)"
      "sn_kind n = SLeaf s \<or> sn_kind n = SMultiLeaf s"
      using l(3) by auto
    have multi: "is_multi_leaf sc p \<longleftrightarrow> sn_kind n = SMultiLeaf s"
      using n(3) by (auto simp: is_multi_leaf_def l(2) n(1) is_multi_def)
    have "\<forall>x \<in> set (old_values p a). is_ok (spec_check env s x)" if "sn_kind n = SMultiLeaf s"
    proof (cases "\<exists>c vs. a p = Some (c, KLeaf vs)")
      case True
      then obtain c vs where at: "a p = Some (c, KLeaf vs)" by blast
      then have "admits env l (KLeaf vs)"
        using v l(1) unfolding valid_def valid_below_def by fastforce
      then show ?thesis using that n(1) at by (simp add: old_values_def)
    next
      case False
      then have "old_values p a = []"
        by (auto simp: old_values_def split: option.splits kind.splits)
      then show ?thesis by simp
    qed
    then have "admits env l (KLeaf (if is_multi_leaf sc p then bs_insert w (old_values p a) else [w]))"
      using n multi by (auto simp: n(1) dest: arg_cong [of _ _ set])
    then show ?thesis using valid_written [OF v l(1)] by (simp add: set_edit_def Some)
  qed
qed

text \<open>
  C29. \<open>set\<close> keeps a configuration valid. An accepted edit of a configuration \<open>validate_tree\<close>
  has nothing against gives one it has nothing against, and makes exactly the change it says:
  a leaf is replaced, a multi-leaf grows, a flag or a bare instance appears. A refused edit
  leaves the configuration as it was.
\<close>

theorem apply_set_valid:
  assumes "tree_ok t" and "validate_tree env sc t = []" and "apply_set env sc p val t = (t', r)"
  shows "validate_tree env sc t' = [] \<and> tree_ok t' \<and>
    view t' = (if is_ok r then set_edit sc p val (view t) else view t)"
proof (cases r)
  case (Inl e)
  then show ?thesis using apply_set_edit [OF assms(1,3)] assms(1,2) by simp
next
  case (Inr u)
  have res: "validate_set env sc p val = Inr ()" "tree_ok t'" "view t' = set_edit sc p val (view t)"
    using apply_set_edit [OF assms(1,3)] Inr by auto
  have v: "valid env sc (view t)"
    using check_types_ok(1) [of "AtNode (sc_root sc)" "root t" env path_root] assms(1,2)
    by (simp add: validate_tree_def valid_def view_def tree_ok_def)
  have "bs_ok vs" if at: "view t p = Some (c, KLeaf vs)" for vs c
  proof -
    obtain n where n: "tree_get p t = Some n" "node_kind n = KLeaf vs"
      using view_Some_get [OF at] by auto
    then have "node_ok n" using assms(1) node_get_ok by (auto simp: tree_get_def tree_ok_def)
    then show ?thesis using n(2) by (cases n rule: is_interior.cases) auto
  qed
  then have "valid env sc (view t')" unfolding res(3) using set_edit_valid [OF v res(1)] by blast
  then have "validate_tree env sc t' = []"
    using check_types_ok(1) [of "AtNode (sc_root sc)" "root t'" env path_root] res(2)
    by (simp add: validate_tree_def valid_def view_def tree_ok_def)
  then show ?thesis using res Inr by simp
qed

theorem apply_set_valid_witness:
  "validate_tree no_env small_schema
     (fst (apply_set no_env small_schema [''interfaces'', ''ethernet'', ''eth0'', ''disable''] None eth_tree)) = [] \<and>
   is_ok (snd (apply_set no_env small_schema [''interfaces'', ''ethernet'', ''eth0'', ''disable''] None eth_tree))"
proof -
  have v: "validate_tree no_env small_schema eth_tree = []" by code_simp
  have ok: "is_ok (snd (apply_set no_env small_schema [''interfaces'', ''ethernet'', ''eth0'', ''disable''] None eth_tree))"
    by code_simp
  show ?thesis using apply_set_valid [OF eth_tree_ok v prod.collapse [symmetric]] ok by blast
qed


lemma valid_removed: "valid env sc a \<Longrightarrow> valid env sc (removed p a)"
  by (erule valid_mono) (auto simp: removed_def split: if_splits)

lemma valid_fewer:
  assumes "valid env sc a" and "a p = Some (c, KLeaf vs)" and "ws \<noteq> []" and "set ws \<subset> set vs"
  shows "valid env sc (a(p := Some (c, KLeaf ws)))"
proof -
  obtain l where l: "walk env (AtNode (sc_root sc)) p = Some l" "admits env l (KLeaf vs)"
    using assms(1,2) unfolding valid_def valid_below_def by fastforce
  have "vs \<noteq> [v]" for v
  proof
    assume "vs = [v]"
    then have "set ws \<subseteq> {v}" "v \<notin> set ws" using assms(4) by auto
    moreover obtain x where "x \<in> set ws" using assms(3) by (cases ws) auto
    ultimately show False by auto
  qed
  then have "admits env l (KLeaf ws)"
    using l(2) assms(3,4) by (cases l) (auto split: schema_kind.splits)
  then show ?thesis using l(1) assms(1) by (auto simp: valid_def valid_below_def)
qed

lemma valid_spec_remove: "valid env sc a \<Longrightarrow> is_dir_at a [] \<Longrightarrow> valid env sc (fst (spec_remove p a))"
proof (cases "p = []")
  case True
  assume "valid env sc a" "is_dir_at a []"
  then show ?thesis using True
    by (fastforce simp: spec_remove_def valid_def valid_below_def is_dir_at_def split: if_splits)
qed (simp add: spec_remove_def valid_removed)

lemma valid_spec_remove_value: "valid env sc a \<Longrightarrow> valid env sc (fst (spec_remove_value p v a))"
proof (cases "\<exists>c vs. a p = Some (c, KLeaf vs) \<and> v \<in> set vs \<and> bs_remove v vs \<noteq> []")
  case True
  assume v: "valid env sc a"
  from True obtain c vs where at: "a p = Some (c, KLeaf vs)" "v \<in> set vs" "bs_remove v vs \<noteq> []"
    by blast
  have "set (bs_remove v vs) \<subset> set vs" using at(2) by auto
  from valid_fewer [OF v at(1,3) this] show ?thesis
    using at by (simp add: spec_remove_value_def)
next
  case False
  moreover assume "valid env sc a"
  ultimately show ?thesis
    by (auto simp: spec_remove_value_def valid_removed split: option.splits kind.splits)
qed

text \<open>
  C30. \<open>delete\<close> keeps a configuration valid too: what is left after removing a node or one
  value of a multi-leaf is still admitted, because the last value takes its leaf with it. A
  deletion of something that is not there is refused and changes nothing.
\<close>

theorem apply_delete_valid:
  assumes "tree_ok t" and "validate_tree env sc t = []" and "apply_delete sc p val t = (t', r)"
  shows "validate_tree env sc t' = [] \<and> tree_ok t' \<and>
    view t' = (if is_ok r
      then (case val of None \<Rightarrow> fst (spec_remove p (view t)) | Some v \<Rightarrow> fst (spec_remove_value p v (view t)))
      else view t) \<and>
    (is_ok r \<longleftrightarrow> resolve sc p \<noteq> None \<and>
      (case val of None \<Rightarrow> p = [] \<or> view t p \<noteq> None
        | Some v \<Rightarrow> \<exists>c vs. view t p = Some (c, KLeaf vs) \<and> v \<in> set vs))"
proof -
  have vt: "validate_tree env sc x = [] \<longleftrightarrow> valid env sc (view x)" if "tree_ok x" for x
    using check_types_ok(1) [of "AtNode (sc_root sc)" "root x" env path_root] that
    by (simp add: validate_tree_def valid_def view_def tree_ok_def)
  have v: "valid env sc (view t)" using vt assms(1,2) by simp
  show ?thesis
  proof (cases "resolve sc p")
    case None
    then show ?thesis using assms by (auto simp: apply_delete_def)
  next
    case (Some loc)
    show ?thesis
    proof (cases val)
      case None
      obtain t1 b where t1: "tree_remove p t = (t1, b)" by (cases "tree_remove p t")
      have 1: "tree_ok t1" "view t1 = fst (spec_remove p (view t))" "b = (p = [] \<or> view t p \<noteq> None)"
        "\<not> b \<Longrightarrow> t1 = t"
        using t1 tree_remove_result [OF assms(1), of p] view_tree_new tree_new_ok
        by (cases "p = []"; auto simp: spec_remove_def tree_remove_def path_split_last_def tree_new_def)+
      then show ?thesis
        using assms(3) Some None t1 vt valid_spec_remove [OF v view_root_dir [OF assms(1)]] v
        by (auto simp: apply_delete_def)
    next
      case Some': (Some w)
      obtain t1 b where t1: "tree_remove_value p w t = (t1, b)" by (cases "tree_remove_value p w t")
      have 1: "tree_ok t1" "b = (\<exists>c vs. view t p = Some (c, KLeaf vs) \<and> w \<in> set vs)"
        "view t1 = fst (spec_remove_value p w (view t))"
        using t1 tree_remove_value_result [OF assms(1), of p w]
        by (auto simp: spec_remove_value_def split: option.splits kind.splits)
      have "\<not> b \<Longrightarrow> view t1 = view t"
        using 1(2,3) by (auto simp: spec_remove_value_def split: option.splits kind.splits)
      then show ?thesis
        using assms(3) Some Some' t1 1 vt valid_spec_remove_value [OF v] v
        by (auto simp: apply_delete_def)
    qed
  qed
qed

theorem apply_delete_valid_witness:
  "validate_tree no_env small_schema
     (fst (apply_delete small_schema [''interfaces'', ''ethernet'', ''eth0'', ''address''] (Some ''dhcp'') eth_tree)) = [] \<and>
   is_ok (snd (apply_delete small_schema [''interfaces'', ''ethernet'', ''eth0'', ''address''] (Some ''dhcp'') eth_tree))"
proof -
  have v: "validate_tree no_env small_schema eth_tree = []" by code_simp
  have ok: "is_ok (snd (apply_delete small_schema [''interfaces'', ''ethernet'', ''eth0'', ''address''] (Some ''dhcp'') eth_tree))"
    by code_simp
  show ?thesis using apply_delete_valid [OF eth_tree_ok v prod.collapse [symmetric]] ok by blast
qed

section \<open>The client's reading of a typed line\<close>

lemma split_value_walk:
  "walk env loc p = Some l \<Longrightarrow>
   split_value_from typed loc seen (p @ q) = split_value_from typed l (seen @ p) q"
proof (induction p arbitrary: loc seen)
  case (Cons s p)
  then show ?case
    by (cases loc) (auto simp: bind_eq_Some_conv split: schema_kind.splits if_splits)
qed simp

text \<open>
  The command line splits a typed line where configd would: for every path and value the
  daemon accepts, the line \<open>path value\<close> splits back into exactly that path and that value, and
  a valueless path splits into itself and no value.
\<close>

lemma split_value_agrees:
  assumes "validate_set env sc p val = Inr ()"
  shows "split_value sc (case val of None \<Rightarrow> p | Some v \<Rightarrow> p @ [v]) = (p, val)"
proof -
  obtain l where l: "walk env (AtNode (sc_root sc)) p = Some l"
    "case val of
        Some v \<Rightarrow> (\<exists>n s. l = AtNode n \<and> is_ok (spec_check env s v) \<and>
            (sn_kind n = SLeaf s \<or> sn_kind n = SMultiLeaf s))
      | None \<Rightarrow> (\<exists>n. l = AtInstance n \<or> l = AtNode n \<and> sn_kind n = SFlag)"
    by (rule validate_set_ok [OF assms]) blast
  show ?thesis
  proof (cases val)
    case None
    then show ?thesis
      using split_value_walk [OF l(1), of p "[]" "[]"] by (simp add: split_value_def)
  next
    case (Some v)
    then obtain n s where n: "l = AtNode n" "sn_kind n = SLeaf s \<or> sn_kind n = SMultiLeaf s"
      using l(2) by auto
    have "split_value_from (p @ [v]) l p [v] = (p, Some v)" using n by auto
    then show ?thesis
      using split_value_walk [OF l(1), of "p @ [v]" "[]" "[v]"] Some by (simp add: split_value_def)
  qed
qed

end
