(* ===== verification/Constraints_Laws.thy ===== *)
theory Constraints_Laws
  imports Constraints Validate_Laws
begin

text \<open>
  What the constraint checks of \<open>validate.rs\<close> accept: a pattern expands to exactly the paths of
  the configuration it matches, each once, and \<open>check_constraints\<close> is silent exactly when every
  node meets its rules and every rule of the whole configuration holds. The right-hand sides
  quantify over paths and values and mention neither the walk nor the order it reports in.
\<close>

section \<open>Patterns\<close>

fun segment_matches :: "string option \<Rightarrow> pattern_segment \<Rightarrow> string \<Rightarrow> bool" where
  "segment_matches current (Literal l) s \<longleftrightarrow> s = l"
| "segment_matches current AnyKey s \<longleftrightarrow> True"
| "segment_matches current Current s \<longleftrightarrow> current = Some s"

definition path_matches :: "string option \<Rightarrow> path_pattern \<Rightarrow> path \<Rightarrow> bool" where
  "path_matches current pat p \<longleftrightarrow> list_all2 (segment_matches current) pat p"

lemma contains_child:
  "tree_contains (path_child p s) t \<longleftrightarrow>
   (\<exists>c m. tree_get p t = Some (Node c (Interior m)) \<and> bm_get m s \<noteq> None)"
proof (cases "node_get p (root t)")
  case None
  then show ?thesis by (simp add: tree_contains_def tree_get_def path_child_def node_get_append)
next
  case (Some n)
  then show ?thesis
    by (cases n rule: is_interior.cases)
      (auto simp: tree_contains_def tree_get_def path_child_def node_get_append split: option.splits)
qed

lemma expand_segment_set:
  assumes "tree_ok t"
  shows "set (expand_segment t current seg p) =
      {path_child p s | s. segment_matches current seg s \<and> tree_contains (path_child p s) t}"
    and "distinct (expand_segment t current seg p)"
proof -
  have any: "set (expand_segment t current AnyKey p) =
      {path_child p s | s. tree_contains (path_child p s) t} \<and>
      distinct (expand_segment t current AnyKey p)"
  proof (cases "\<exists>c m. tree_get p t = Some (Node c (Interior m))")
    case False
    then show ?thesis
      by (auto simp: contains_child split: option.splits elim!: node_children.elims) 
  next
    case True
    then obtain c m where n: "tree_get p t = Some (Node c (Interior m))" by blast
    then have "kids_ok m"
      using assms node_get_ok node_ok_kids by (metis tree_get_def tree_ok_def)
    then have d: "distinct (map fst m)" by (simp add: kids_ok_def bm_ok_distinct)
    then have "distinct (map (\<lambda>(k, x). path_child p k) m)"
      by (simp add: distinct_map inj_on_def path_child_def split_def)
    moreover have "tree_contains (path_child p k) t \<longleftrightarrow> k \<in> fst ` set m" for k
      using n by (auto simp: contains_child map_of_eq_None_iff)
    ultimately show ?thesis using n by (auto simp: split_def)
  qed
  show "set (expand_segment t current seg p) =
      {path_child p s | s. segment_matches current seg s \<and> tree_contains (path_child p s) t}"
    using any by (cases seg) (auto split: option.splits)
  show "distinct (expand_segment t current seg p)"
    using any by (cases seg) (auto split: option.splits)
qed

lemma expand_from_set:
  assumes "tree_ok t"
  shows "set (expand_from t current pat here) =
      {p @ q | p q. p \<in> set here \<and> path_matches current pat q \<and> (q = [] \<or> tree_contains (p @ q) t)}
    \<and> (distinct here \<longrightarrow> distinct (expand_from t current pat here))"
proof (induction pat arbitrary: here)
  case Nil
  then show ?case by (auto simp: path_matches_def)
next
  case (Cons seg pat)
  let ?next = "concat (map (expand_segment t current seg) here)"
  have mid: "tree_contains (p @ s # q) t \<Longrightarrow> tree_contains (p @ [s]) t" for p s q
    using node_get_append [of "p @ [s]" q "root t"]
    by (cases "node_get (p @ [s]) (root t)") (auto simp: tree_contains_def tree_get_def)
  have "set ?next = {p @ [s] | p s. p \<in> set here \<and> segment_matches current seg s \<and> tree_contains (p @ [s]) t}"
    using expand_segment_set(1) [OF assms] by (fastforce simp: path_child_def)
  moreover have "distinct ?next" if "distinct here"
    using that
  proof (induction here)
    case (Cons p here)
    then show ?case
      using expand_segment_set [OF assms] by (fastforce simp: path_child_def)
  qed simp
  moreover have "{p @ q | p q. p \<in> {p @ [s] | p s. p \<in> set here \<and> segment_matches current seg s \<and> tree_contains (p @ [s]) t}
        \<and> path_matches current pat q \<and> (q = [] \<or> tree_contains (p @ q) t)} =
      {p @ q | p q. p \<in> set here \<and> path_matches current (seg # pat) q \<and> (q = [] \<or> tree_contains (p @ q) t)}"
    (is "?L = ?R")
  proof
    show "?L \<subseteq> ?R"
    proof
      fix x assume "x \<in> ?L"
      then obtain p s q where "x = p @ s # q" "p \<in> set here" "segment_matches current seg s"
        "tree_contains (p @ [s]) t" "path_matches current pat q" "q = [] \<or> tree_contains (p @ s # q) t"
        by auto
      then show "x \<in> ?R"
        by (intro CollectI exI [of _ p] exI [of _ "s # q"]) (auto simp: path_matches_def)
    qed
    show "?R \<subseteq> ?L"
    proof
      fix x assume "x \<in> ?R"
      then obtain p s q where "x = p @ s # q" "p \<in> set here" "segment_matches current seg s"
        "path_matches current pat q" "tree_contains (p @ s # q) t"
        by (auto simp: path_matches_def list_all2_Cons1)
      then show "x \<in> ?L" using mid
        by (intro CollectI exI [of _ "p @ [s]"] exI [of _ q]) auto
    qed
  qed
  ultimately show ?case using Cons.IH [of ?next] by simp
qed

lemma expand_mem:
  "tree_ok t \<Longrightarrow> p \<in> set (expand t pat current) \<longleftrightarrow> path_matches current pat p \<and> tree_contains p t"
  using expand_from_set [of t current pat "[path_root]"]
  by (auto simp: expand_def tree_contains_def tree_get_def)

lemma expand_distinct: "tree_ok t \<Longrightarrow> distinct (expand t pat current)"
  using expand_from_set [of t current pat "[path_root]"] by (simp add: expand_def)

text \<open>
  A pattern expands to exactly the paths of the configuration that match it segment by
  segment (a literal itself, \<open>*\<close> anything, \<open>@\<close> the instance being checked), each listed once.
\<close>

lemma expand_exact:
  assumes "tree_ok t"
  shows "set (expand t pat current) = {p. path_matches current pat p \<and> tree_contains p t} \<and>
    distinct (expand t pat current)"
  using expand_mem [OF assms] expand_distinct [OF assms] by blast

section \<open>What the rules of one node ask\<close>

lemma pattern_values_mem:
  "tree_ok t \<Longrightarrow> v \<in> set (pattern_values t pat current) \<longleftrightarrow>
   (\<exists>p. path_matches current pat p \<and> tree_contains p t \<and> v \<in> set (contributed t p))"
  by (auto simp: pattern_values_def expand_mem)

fun constraint_holds :: "config_tree \<Rightarrow> string option \<Rightarrow> node \<Rightarrow> schema_constraint \<Rightarrow> bool" where
  "constraint_holds t current x (ValueInPathSet pats msg) \<longleftrightarrow>
     (\<forall>vs. node_value_set x = Some vs \<longrightarrow> (\<forall>v \<in> set vs. \<exists>pat \<in> set pats. \<exists>p.
        path_matches current pat p \<and> tree_contains p t \<and> v \<in> set (contributed t p)))"
| "constraint_holds t current x (PathExists pat msg) \<longleftrightarrow>
     (\<exists>p. path_matches current pat p \<and> tree_contains p t)"
| "constraint_holds t current x (PathHasValue pat v msg) \<longleftrightarrow>
     (\<exists>p vs. path_matches current pat p \<and> values_at p t = Some vs \<and> v \<in> set vs)"

lemma check_constraint_exact:
  assumes "tree_ok t"
  shows "check_constraint k x at current t = [] \<longleftrightarrow> constraint_holds t current x k"
proof (cases k)
  case (ValueInPathSet pats msg)
  then show ?thesis
    by (auto simp: pattern_values_mem [OF assms] filter_empty_conv Let_def split: option.splits; blast)
next
  case (PathExists pat msg)
  have "expand t pat current = [] \<longleftrightarrow> (\<forall>p. p \<notin> set (expand t pat current))"
    by (metis list.set_intros(1) list.set(1) empty_iff neq_Nil_conv)
  then show ?thesis using PathExists by (simp add: expand_mem [OF assms])
next
  case (PathHasValue pat v msg)
  have there: "values_at p t = Some vs \<Longrightarrow> tree_contains p t" for p vs
    by (auto simp: values_at_def tree_contains_def bind_eq_Some_conv)
  have "list_ex (\<lambda>p. case values_at p t of None \<Rightarrow> False | Some vs \<Rightarrow> v \<in> set vs) (expand t pat current) \<longleftrightarrow>
      constraint_holds t current x k"
    using there by (auto simp: PathHasValue list_ex_iff expand_mem [OF assms] split: option.splits; blast)
  then show ?thesis using PathHasValue by simp
qed

lemma check_required_exact:
  "check_required n m at = [] \<longleftrightarrow>
   (\<forall>(name, s) \<in> set (sn_children n). sn_required s \<longrightarrow> bm_get m name \<noteq> None)"
  by (auto simp: check_required_def filter_empty_conv)

lemma check_exclusive_exact:
  "check_exclusive n m at = [] \<longleftrightarrow>
   (\<forall>group \<in> set (sn_exclusive n). length (filter (\<lambda>s. bm_get m s \<noteq> None) group) \<le> 1)"
  by (fastforce simp: check_exclusive_def Let_def not_less split: if_splits)

definition tuples_of :: "string list \<Rightarrow> kids \<Rightarrow> string list list" where
  "tuples_of tup m = List.map_filter (\<lambda>(key, n). tuple_values n tup) m"

lemma unique_scan_exact:
  "unique_scan tup at seen m = [] \<longleftrightarrow>
   distinct (tuples_of tup m) \<and> (\<forall>vs \<in> set (tuples_of tup m). bm_get seen vs = None)"
proof (induction tup at seen m rule: unique_scan.induct)
  case (2 tup at seen key n m)
  then show ?case
    by (auto simp: tuples_of_def map_filter_simps bm_get_insert split: option.splits)
qed (simp add: tuples_of_def map_filter_simps)

definition instances_differ :: "string list \<Rightarrow> kids \<Rightarrow> bool" where
  "instances_differ tup m \<longleftrightarrow>
     (\<forall>(k, x) \<in> set m. \<forall>(k', x') \<in> set m. k \<noteq> k' \<longrightarrow>
        tuple_values x tup = None \<or> tuple_values x tup \<noteq> tuple_values x' tup)"

lemma tuples_of_mem: "vs \<in> set (tuples_of tup m) \<longleftrightarrow> (\<exists>(k, x) \<in> set m. tuple_values x tup = Some vs)"
  by (force simp: tuples_of_def map_filter_def)

lemma tuples_of_distinct:
  "distinct (map fst m) \<Longrightarrow> distinct (tuples_of tup m) \<longleftrightarrow> instances_differ tup m"
proof (induction m)
  case Nil
  then show ?case by (simp add: tuples_of_def map_filter_simps instances_differ_def)
next
  case (Cons kx m)
  obtain k x where kx: "kx = (k, x)" by (cases kx)
  have fresh: "(k, y) \<notin> set m" for y using Cons.prems kx by force
  have "instances_differ tup (kx # m) \<longleftrightarrow> instances_differ tup m \<and>
      (\<forall>(k', x') \<in> set m. tuple_values x tup = None \<or> tuple_values x tup \<noteq> tuple_values x' tup)"
    (is "_ \<longleftrightarrow> _ \<and> ?new")
  proof
    assume a: "instances_differ tup (kx # m)"
    show "instances_differ tup m \<and> ?new"
      using a fresh by (fastforce simp: instances_differ_def kx)
  next
    assume "instances_differ tup m \<and> ?new"
    then show "instances_differ tup (kx # m)"
      by (auto simp: instances_differ_def kx split_def)
  qed
  also have "?new \<longleftrightarrow> (\<forall>vs. tuple_values x tup = Some vs \<longrightarrow> vs \<notin> set (tuples_of tup m))"
    by (cases "tuple_values x tup") (auto simp: tuples_of_mem)
  finally have "instances_differ tup (kx # m) \<longleftrightarrow>
      instances_differ tup m \<and> (\<forall>vs. tuple_values x tup = Some vs \<longrightarrow> vs \<notin> set (tuples_of tup m))" .
  moreover have "distinct (tuples_of tup (kx # m)) \<longleftrightarrow> distinct (tuples_of tup m) \<and>
      (\<forall>vs. tuple_values x tup = Some vs \<longrightarrow> vs \<notin> set (tuples_of tup m))"
    by (auto simp: tuples_of_def map_filter_simps kx split: option.splits)
  ultimately show ?case using Cons by simp
qed

lemma check_unique_exact:
  "kids_ok m \<Longrightarrow> check_unique n m at = [] \<longleftrightarrow> (\<forall>tup \<in> set (sn_unique n). instances_differ tup m)"
  by (simp add: check_unique_def unique_scan_exact tuples_of_distinct kids_ok_def bm_ok_distinct)

section \<open>The walk beside the schema\<close>

text \<open>
  \<open>rule_walk\<close> follows a path of the configuration through the schema and remembers the innermost
  instance key, the one \<open>@\<close> stands for; \<open>node_rules\<close> is what the node found there must meet.
\<close>

fun rule_walk :: "location \<Rightarrow> string option \<Rightarrow> path \<Rightarrow> (location \<times> string option) option" where
  "rule_walk loc current [] = Some (loc, current)"
| "rule_walk (AtNode n) current (s # ss) =
     (if sn_is_tag n then rule_walk (AtInstance n) (Some s) ss
      else case bm_get (sn_children n) s of
             None \<Rightarrow> None
           | Some c \<Rightarrow> rule_walk (AtNode c) current ss)"
| "rule_walk (AtInstance n) current (s # ss) =
     (case bm_get (sn_children n) s of
        None \<Rightarrow> None
      | Some c \<Rightarrow> rule_walk (AtNode c) current ss)"
| "rule_walk (AtValue n) current (s # ss) = None"

definition container_rules :: "schema_node \<Rightarrow> kids \<Rightarrow> bool" where
  "container_rules n m \<longleftrightarrow>
     (\<forall>(name, s) \<in> set (sn_children n). sn_required s \<longrightarrow> bm_get m name \<noteq> None) \<and>
     (\<forall>group \<in> set (sn_exclusive n). length (filter (\<lambda>s. bm_get m s \<noteq> None) group) \<le> 1)"

fun node_rules :: "config_tree \<Rightarrow> location \<Rightarrow> string option \<Rightarrow> node \<Rightarrow> bool" where
  "node_rules t (AtValue n) current x \<longleftrightarrow> True"
| "node_rules t (AtNode n) current x \<longleftrightarrow>
     (\<forall>k \<in> set (sn_constraints n). constraint_holds t current x k) \<and>
     (\<forall>m. node_children x = Some m \<longrightarrow>
        (if sn_is_tag n then \<forall>tup \<in> set (sn_unique n). instances_differ tup m
         else container_rules n m))"
| "node_rules t (AtInstance n) current x \<longleftrightarrow>
     (\<forall>k \<in> set (sn_constraints n). constraint_holds t current x k) \<and>
     (\<forall>m. node_children x = Some m \<longrightarrow> container_rules n m)"

definition rules_below :: "config_tree \<Rightarrow> location \<Rightarrow> string option \<Rightarrow> node \<Rightarrow> bool" where
  "rules_below t loc current x \<longleftrightarrow>
     (\<forall>q l c y. rule_walk loc current q = Some (l, c) \<longrightarrow> node_get q x = Some y \<longrightarrow> node_rules t l c y)"

lemma rules_below_values:
  "rules_below t loc current (Node c (Values vs)) \<longleftrightarrow> node_rules t loc current (Node c (Values vs))"
proof -
  have "node_get q (Node c (Values vs)) = Some y \<longleftrightarrow> q = [] \<and> y = Node c (Values vs)" for q y
    by (cases q) auto
  then show ?thesis by (auto simp: rules_below_def)
qed

lemma all_paths: "(\<forall>q. P q) \<longleftrightarrow> P [] \<and> (\<forall>s q. P (s # q))"
  by (metis neq_Nil_conv)

lemma rules_below_interior:
  assumes "kids_ok m"
  shows "rules_below t loc current (Node c (Interior m)) \<longleftrightarrow>
    node_rules t loc current (Node c (Interior m)) \<and>
    (\<forall>(s, x) \<in> set m. \<forall>l d. rule_walk loc current [s] = Some (l, d) \<longrightarrow> rules_below t l d x)"
proof -
  have mem: "bm_get m s = Some x \<longleftrightarrow> (s, x) \<in> set m" for s x
    using assms by (simp add: kids_ok_def bm_ok_distinct)
  have step: "rule_walk loc current (s # q) =
      Option.bind (rule_walk loc current [s]) (\<lambda>(l, d). rule_walk l d q)" for s q
    by (cases loc) (auto split: option.splits)
  have "rules_below t loc current (Node c (Interior m)) \<longleftrightarrow>
      node_rules t loc current (Node c (Interior m)) \<and>
      (\<forall>s q l d y. rule_walk loc current (s # q) = Some (l, d) \<longrightarrow>
         node_get (s # q) (Node c (Interior m)) = Some y \<longrightarrow> node_rules t l d y)"
    unfolding rules_below_def by (subst all_paths) simp
  also have "(\<forall>s q l d y. rule_walk loc current (s # q) = Some (l, d) \<longrightarrow>
         node_get (s # q) (Node c (Interior m)) = Some y \<longrightarrow> node_rules t l d y) \<longleftrightarrow>
      (\<forall>(s, x) \<in> set m. \<forall>l d. rule_walk loc current [s] = Some (l, d) \<longrightarrow> rules_below t l d x)"
    (is "?L = ?R")
  proof
    assume L: ?L
    show ?R
      unfolding rules_below_def
    proof (clarify)
      fix s x l d q l' d' y
      assume "(s, x) \<in> set m" "rule_walk loc current [s] = Some (l, d)"
        "rule_walk l d q = Some (l', d')" "node_get q x = Some y"
      moreover from this have "bm_get m s = Some x" using mem by blast
      ultimately show "node_rules t l' d' y"
        using L [rule_format, of s q l' d' y] step [of s q] by auto
    qed
  next
    assume R: ?R
    show ?L
    proof (intro allI impI)
      fix s q l d y
      assume w: "rule_walk loc current (s # q) = Some (l, d)" "node_get (s # q) (Node c (Interior m)) = Some y"
      then obtain l' d' x where "rule_walk loc current [s] = Some (l', d')" "rule_walk l' d' q = Some (l, d)"
        "(s, x) \<in> set m" "node_get q x = Some y"
        using step [of s q] mem by (auto simp: bind_eq_Some_conv split: option.splits)
      then show "node_rules t l d y" using R unfolding rules_below_def by blast
    qed
  qed
  finally show ?thesis .
qed

lemma check_cross_exact:
  assumes t: "tree_ok t"
  shows "node_ok x \<Longrightarrow> check_cross loc x at current t = [] \<longleftrightarrow> rules_below t loc current x"
    and "(\<forall>(s, x) \<in> set m. node_ok x) \<Longrightarrow> cross_instances n m at t = [] \<longleftrightarrow>
      (\<forall>(s, x) \<in> set m. rules_below t (AtInstance n) (Some s) x)"
    and "(\<forall>(s, x) \<in> set m. node_ok x) \<Longrightarrow> cross_kids n m at current t = [] \<longleftrightarrow>
      (\<forall>(s, x) \<in> set m. \<forall>k. bm_get (sn_children n) s = Some k \<longrightarrow> rules_below t (AtNode k) current x)"
  using t
proof (induction loc x at current t and n m at t and n m at current t
    rule: check_cross_cross_instances_cross_kids.induct)
  case (1 loc c b at current t)
  show ?case
  proof (cases b)
    case (Values vs)
    then show ?thesis
      using 1 by (cases loc) (simp_all add: rules_below_values check_constraint_exact)
  next
    case (Interior m)
    then have m: "kids_ok m" "\<forall>(s, x) \<in> set m. node_ok x"
      using "1.prems" by (simp_all only: node_ok_kids) (simp add: kids_ok_def)
    show ?thesis
    proof (cases loc)
      case (AtNode n)
      then show ?thesis
        using "1.IH"(1,2) [OF AtNode Interior] "1.prems" m Interior
        by (cases "sn_is_tag n")
          (auto simp: rules_below_interior check_constraint_exact container_rules_def
            check_required_exact check_exclusive_exact check_unique_exact split: option.splits)
    next
      case (AtInstance n)
      then show ?thesis
        using "1.IH"(3) [OF AtInstance Interior] "1.prems" m Interior
        by (auto simp: rules_below_interior check_constraint_exact container_rules_def
            check_required_exact check_exclusive_exact split: option.splits)
    next
      case (AtValue n)
      then show ?thesis using m Interior by (auto simp: rules_below_interior)
    qed
  qed
qed (auto split: option.splits)

section \<open>Rules of the whole configuration\<close>

definition claim_list :: "config_tree \<Rightarrow> path_pattern list \<Rightarrow> (string \<times> path) list" where
  "claim_list t pats =
     concat (map (\<lambda>p. map (\<lambda>v. (v, p)) (contributed t p)) (concat (map (\<lambda>pat. expand t pat None) pats)))"

lemma claims_get:
  "bm_ok acc \<Longrightarrow> bm_ok (fold (\<lambda>(v, p). add_claim v p) l acc) \<and>
   bm_get (fold (\<lambda>(v, p). add_claim v p) l acc) v =
     (case map snd (filter (\<lambda>(w, p). w = v) l) of
        [] \<Rightarrow> bm_get acc v
      | p # ps \<Rightarrow> Some ((case bm_get acc v of None \<Rightarrow> [] | Some qs \<Rightarrow> qs) @ p # ps))"
proof (induction l arbitrary: acc)
  case (Cons wp l)
  obtain w p where "wp = (w, p)" by (cases wp)
  then show ?case
    using Cons.IH [of "add_claim w p acc"] Cons.prems
    by (auto simp: add_claim_def bm_ok_insert bm_get_insert split: list.splits option.splits)
qed simp

lemma distinct_count: "distinct xs \<longleftrightarrow> (\<forall>v. length (filter (\<lambda>w. w = v) xs) < 2)"
proof (induction xs)
  case (Cons x xs)
  have "x \<notin> set xs \<longleftrightarrow> filter (\<lambda>w. w = x) xs = []" by (auto simp: filter_empty_conv)
  then show ?case using Cons by (auto simp: all_conj_distrib less_2_cases_iff)
qed simp

lemma sort_key_Nil_iff: "sort_key f xs = [] \<longleftrightarrow> xs = []"
  by (metis length_0_conv length_sort)

lemma concat_map_Nil: "concat (map f xs) = [] \<longleftrightarrow> (\<forall>x \<in> set xs. f x = [])"
  by simp

lemma unique_across_exact:
  "check_global (UniqueAcross pats msg) t = [] \<longleftrightarrow>
   distinct (concat (map (\<lambda>pat. pattern_values t pat None) pats))"
proof -
  let ?c = "claims_of t pats" and ?l = "claim_list t pats"
  have ok: "bm_ok ?c" and get: "bm_get ?c v = (case map snd (filter (\<lambda>(w, p). w = v) ?l) of
      [] \<Rightarrow> None | p # ps \<Rightarrow> Some (p # ps))" for v
    using claims_get [of "[]" ?l] by (simp_all add: claims_of_def claim_list_def split: list.splits)
  have mem: "(v, ps) \<in> set ?c \<longleftrightarrow> bm_get ?c v = Some ps" for v ps
    using ok by (simp add: bm_ok_distinct)
  have "check_global (UniqueAcross pats msg) t = [] \<longleftrightarrow> (\<forall>(v, ps) \<in> set ?c. length ps < 2)"
    by (force simp: Let_def concat_map_Nil sort_key_Nil_iff split_def
        simp del: concat_eq_Nil_conv)
  also have "\<dots> \<longleftrightarrow> (\<forall>v. length (filter (\<lambda>(w, p). w = v) ?l) < 2)"
  proof -
    have "(\<forall>ps. bm_get ?c v = Some ps \<longrightarrow> length ps < 2) \<longleftrightarrow> length (filter (\<lambda>(w, p). w = v) ?l) < 2" for v
      unfolding get by (cases "filter (\<lambda>(w, p). w = v) ?l") auto
    then show ?thesis unfolding Ball_def split_paired_All by (simp add: mem)
  qed
  also have "\<dots> \<longleftrightarrow> distinct (map fst ?l)"
    by (simp add: distinct_count filter_map comp_def split_def)
  also have "map fst ?l = concat (map (\<lambda>pat. pattern_values t pat None) pats)"
    by (induction pats) (simp_all add: claim_list_def pattern_values_def map_concat comp_def)
  finally show ?thesis .
qed

fun global_holds :: "config_tree \<Rightarrow> global_constraint \<Rightarrow> bool" where
  "global_holds t (UniqueAcross pats msg) \<longleftrightarrow>
     distinct (concat (map (\<lambda>pat. pattern_values t pat None) pats))"
| "global_holds t (ForbidChildOnReferenced refs search forbid msg) \<longleftrightarrow>
     (\<forall>r v b. (\<exists>pat \<in> set refs. path_matches None pat r \<and> tree_contains r t) \<longrightarrow>
        v \<in> set (contributed t r) \<longrightarrow>
        (\<exists>pat \<in> set search. path_matches None pat b \<and> tree_contains b t) \<longrightarrow>
        \<not> tree_contains (b @ [v, forbid]) t)"

lemma check_global_exact:
  assumes "tree_ok t"
  shows "check_global g t = [] \<longleftrightarrow> global_holds t g"
proof (cases g)
  case (UniqueAcross pats msg)
  then show ?thesis by (simp add: unique_across_exact del: check_global.simps)
next
  case (ForbidChildOnReferenced refs search forbid msg)
  have mem: "r \<in> set (concat (map (\<lambda>pat. expand t pat None) pats)) \<longleftrightarrow>
      (\<exists>pat \<in> set pats. path_matches None pat r \<and> tree_contains r t)" for r pats
    using expand_mem [OF assms] by auto
  have "check_global g t = [] \<longleftrightarrow>
      (\<forall>r \<in> set (concat (map (\<lambda>pat. expand t pat None) refs)). \<forall>v \<in> set (contributed t r).
         \<forall>b \<in> set (concat (map (\<lambda>pat. expand t pat None) search)). \<not> tree_contains (b @ [v, forbid]) t)"
    by (simp add: ForbidChildOnReferenced path_child_def Let_def concat_map_Nil
        del: concat_eq_Nil_conv set_concat set_map)
  then show ?thesis
    unfolding mem Ball_def ForbidChildOnReferenced global_holds.simps by blast
qed

text \<open>
  C28. The constraint check reports nothing exactly when the configuration obeys every rule of the
  schema: at every node the walk beside the schema reaches, with \<open>@\<close> read as the innermost
  instance, each value lies in an allowed set, the required paths and values exist, required
  children are set, exclusive children are not set together and no two instances agree on a
  tuple declared unique; and across the configuration no value declared unique is used twice
  and nothing referenced carries a forbidden child.
\<close>

theorem check_constraints_exact:
  assumes "tree_ok t"
  shows "check_constraints sc t = [] \<longleftrightarrow>
    (\<forall>p l current x. rule_walk (AtNode (sc_root sc)) None p = Some (l, current) \<longrightarrow>
       tree_get p t = Some x \<longrightarrow> node_rules t l current x) \<and>
    (\<forall>g \<in> set (sc_globals sc). global_holds t g)"
proof -
  have "check_constraints sc t = [] \<longleftrightarrow>
      check_cross (AtNode (sc_root sc)) (root t) path_root None t = [] \<and>
      (\<forall>g \<in> set (sc_globals sc). check_global g t = [])"
    by (simp add: check_constraints_def sort_key_Nil_iff)
  also have "check_cross (AtNode (sc_root sc)) (root t) path_root None t = [] \<longleftrightarrow>
      rules_below t (AtNode (sc_root sc)) None (root t)"
    using check_cross_exact(1) [OF assms, of "root t" "AtNode (sc_root sc)" path_root None] assms
    by (simp add: tree_ok_def)
  finally show ?thesis
    by (simp add: rules_below_def tree_get_def check_global_exact [OF assms])
qed

definition rules_schema :: schema where
  "rules_schema = \<lparr>sc_root = sc_root small_schema,
     sc_globals = [UniqueAcross [[Literal ''interfaces'', AnyKey, AnyKey, Literal ''address'']] ''twice'']\<rparr>"

theorem check_constraints_exact_witness:
  "global_holds eth_tree (UniqueAcross [[Literal ''interfaces'', AnyKey, AnyKey, Literal ''address'']] ''twice'')"
proof -
  have "check_constraints rules_schema eth_tree = []" by code_simp
  then show ?thesis
    using check_constraints_exact [OF eth_tree_ok, of rules_schema] by (simp add: rules_schema_def)
qed

definition vlan_node :: schema_node where
  "vlan_node = SchemaNode (STag \<lparr>tag_value = spec_new VInterfaceName, tag_help = []\<rparr>) [] None False False 0
     [(''vlan-id'', plain_node (SLeaf (spec_new (VNumber (range_new 1 4094)))) [])] [] [[''vlan-id'']] []"

definition vlan_tree :: "string \<Rightarrow> string \<Rightarrow> config_tree" where
  "vlan_tree a b = \<lparr>root = Node None (Interior
     [(''vlan1'', Node None (Interior [(''vlan-id'', Node None (Values [a]))])),
      (''vlan2'', Node None (Interior [(''vlan-id'', Node None (Values [b]))]))])\<rparr>"

text \<open>
  Uniqueness compares what was written, not what it means: two VLANs whose identifiers are the
  same number in different spelling are not reported.
\<close>

lemma unique_is_textual:
  "check_constraints \<lparr>sc_root = vlan_node, sc_globals = []\<rparr> (vlan_tree a b) = [] \<longleftrightarrow> a \<noteq> b"
proof -
  have ok: "tree_ok (vlan_tree a b)"
    by (simp add: tree_ok_def vlan_tree_def bm_ok_Cons)
  have "check_constraints \<lparr>sc_root = vlan_node, sc_globals = []\<rparr> (vlan_tree a b) = [] \<longleftrightarrow>
      check_cross (AtNode vlan_node) (root (vlan_tree a b)) path_root None (vlan_tree a b) = []"
    by (simp add: check_constraints_def sort_key_Nil_iff)
  also have "\<dots> \<longleftrightarrow> a \<noteq> b"
    by (auto simp: vlan_tree_def vlan_node_def plain_node_def sn_is_tag_def check_unique_def
        component_def node_value_def check_required_def check_exclusive_def)
  finally show ?thesis .
qed

end
