(* ===== verification/Files.thy ===== *)
theory Files
  imports Ordered_Map Cfg_Path "HOL-Library.Multiset"
begin

text \<open>
  The file system as the daemon uses it, and where its files are
  (\<open>src/nightshade-common/src/paths.rs\<close>). A path is the list of its components below \<open>/\<close>; the
  disk is an ordered map from paths to contents and permission bits. What the disk does is a
  parameter: any operation may fail (\<open>fails\<close>), a failed write may leave anything behind under the
  name it was writing (\<open>debris\<close>), and a directory is listed in any order (\<open>dir_order\<close>). A
  directory with no files in it is not told apart from one that does not exist: both of the
  daemon's readers treat the two alike.

  The contents of a file are text or, for the formats of \<open>serde_json\<close> and \<open>flate2\<close>, a value of
  the type \<open>'b\<close> which only a \<open>codec\<close> can make or read.
\<close>

section \<open>Paths\<close>

type_synonym file_path = "string list"

definition path_components :: "string \<Rightarrow> file_path" where
  "path_components s = filter (\<lambda>c. c \<noteq> [] \<and> c \<noteq> ''.'') (split_on (CHR ''/'') s)"

text \<open>\<open>PathBuf::join\<close>: an absolute argument replaces what it is joined to.\<close>

definition path_join :: "file_path \<Rightarrow> string \<Rightarrow> file_path" where
  "path_join p s =
     (if starts_with s ''/'' then path_components s else p @ path_components s)"

definition show_file_path :: "file_path \<Rightarrow> string" where
  "show_file_path p = CHR ''/'' # join ''/'' p"

text \<open>\<open>Path::file_stem\<close> of one name: what is before its last dot, unless that dot leads.\<close>

definition file_stem :: "string \<Rightarrow> string" where
  "file_stem name =
     (case dropWhile (\<lambda>c. c \<noteq> CHR ''.'') (rev name) of
        [] \<Rightarrow> name
      | d # lead \<Rightarrow> if lead = [] then name else rev lead)"

definition file_extension :: "string \<Rightarrow> string option" where
  "file_extension name =
     (case dropWhile (\<lambda>c. c \<noteq> CHR ''.'') (rev name) of
        [] \<Rightarrow> None
      | d # lead \<Rightarrow>
          if lead = [] then None
          else Some (rev (takeWhile (\<lambda>c. c \<noteq> CHR ''.'') (rev name))))"

definition with_extension :: "file_path \<Rightarrow> string \<Rightarrow> file_path" where
  "with_extension p ext =
     (if p = [] then [] else butlast p @ [file_stem (last p) @ ''.'' @ ext])"

text \<open>\<open>Paths\<close>: everything below a root.\<close>

record paths =
  paths_root :: file_path

definition paths_system :: paths where
  "paths_system = \<lparr>paths_root = []\<rparr>"

definition paths_under :: "file_path \<Rightarrow> paths" where
  "paths_under r = \<lparr>paths_root = r\<rparr>"

definition paths_at :: "paths \<Rightarrow> string \<Rightarrow> file_path" where
  "paths_at ps rel = path_join (paths_root ps) rel"

definition config_boot :: "paths \<Rightarrow> file_path" where
  "config_boot ps = paths_at ps ''etc/nightshade/config.boot''"

definition sessions_dir :: "paths \<Rightarrow> file_path" where
  "sessions_dir ps = paths_at ps ''run/nightshade/sessions''"

definition session_file :: "paths \<Rightarrow> string \<Rightarrow> file_path" where
  "session_file ps i = path_join (sessions_dir ps) (i @ ''.json'')"

definition running_path :: "paths \<Rightarrow> file_path" where
  "running_path ps = paths_at ps ''run/nightshade/running.json''"

definition pending_confirm :: "paths \<Rightarrow> file_path" where
  "pending_confirm ps = paths_at ps ''run/nightshade/pending-confirm.json''"

definition boot_failure :: "paths \<Rightarrow> file_path" where
  "boot_failure ps = paths_at ps ''run/nightshade/boot-failed''"

definition archive_dir :: "paths \<Rightarrow> file_path" where
  "archive_dir ps = paths_at ps ''var/lib/nightshade/archive''"

text \<open>Where the renderers write.\<close>

definition resolv_conf :: "paths \<Rightarrow> file_path" where
  "resolv_conf ps = paths_at ps ''etc/resolv.conf''"

definition hosts :: "paths \<Rightarrow> file_path" where
  "hosts ps = paths_at ps ''etc/hosts''"

definition last_applied_dir :: "paths \<Rightarrow> file_path" where
  "last_applied_dir ps = paths_at ps ''var/lib/nightshade/last-applied''"

definition networkd_dir :: "paths \<Rightarrow> file_path" where
  "networkd_dir ps = paths_at ps ''run/systemd/network''"

definition link_dir :: "paths \<Rightarrow> file_path" where
  "link_dir ps = paths_at ps ''etc/systemd/network''"

lemma rendered_paths:
  "resolv_conf ps = paths_root ps @ [''etc'', ''resolv.conf'']"
  "hosts ps = paths_root ps @ [''etc'', ''hosts'']"
  "last_applied_dir ps = paths_root ps @ [''var'', ''lib'', ''nightshade'', ''last-applied'']"
  "networkd_dir ps = paths_root ps @ [''run'', ''systemd'', ''network'']"
  "link_dir ps = paths_root ps @ [''etc'', ''systemd'', ''network'']"
  by (simp_all add: resolv_conf_def hosts_def last_applied_dir_def networkd_dir_def link_dir_def
      paths_at_def path_join_def path_components_def)

lemma fixed_paths:
  "config_boot ps = paths_root ps @ [''etc'', ''nightshade'', ''config.boot'']"
  "sessions_dir ps = paths_root ps @ [''run'', ''nightshade'', ''sessions'']"
  "running_path ps = paths_root ps @ [''run'', ''nightshade'', ''running.json'']"
  "pending_confirm ps = paths_root ps @ [''run'', ''nightshade'', ''pending-confirm.json'']"
  "boot_failure ps = paths_root ps @ [''run'', ''nightshade'', ''boot-failed'']"
  "archive_dir ps = paths_root ps @ [''var'', ''lib'', ''nightshade'', ''archive'']"
  by (simp_all add: config_boot_def sessions_dir_def running_path_def pending_confirm_def
      boot_failure_def archive_dir_def paths_at_def path_join_def path_components_def)

lemma path_components_name:
  "CHR ''/'' \<notin> set s \<Longrightarrow> s \<noteq> [] \<Longrightarrow> s \<noteq> ''.'' \<Longrightarrow> path_components s = [s]"
  by (simp add: path_components_def split_on_no_sep)

lemma path_join_name:
  assumes "CHR ''/'' \<notin> set s" and "s \<noteq> []" and "s \<noteq> ''.''"
  shows "path_join p s = p @ [s]"
proof -
  have "\<not> starts_with s ''/''" using assms(1,2) by (auto simp: starts_with_iff)
  then show ?thesis using assms by (simp add: path_join_def path_components_name)
qed

lemma rev_takes:
  "CHR ''.'' \<notin> set e \<Longrightarrow> dropWhile (\<lambda>c. c \<noteq> CHR ''.'') (rev e @ CHR ''.'' # s) = CHR ''.'' # s"
  "CHR ''.'' \<notin> set e \<Longrightarrow> takeWhile (\<lambda>c. c \<noteq> CHR ''.'') (rev e @ CHR ''.'' # s) = rev e"
proof -
  assume "CHR ''.'' \<notin> set e"
  then have e: "\<And>c. c \<in> set (rev e) \<Longrightarrow> c \<noteq> CHR ''.''" by auto
  show "dropWhile (\<lambda>c. c \<noteq> CHR ''.'') (rev e @ CHR ''.'' # s) = CHR ''.'' # s"
    by (subst dropWhile_append2) (use e in auto)
  show "takeWhile (\<lambda>c. c \<noteq> CHR ''.'') (rev e @ CHR ''.'' # s) = rev e"
    by (subst takeWhile_append2) (use e in auto)
qed

lemma file_stem_ext: "CHR ''.'' \<notin> set e \<Longrightarrow> s \<noteq> [] \<Longrightarrow> file_stem (s @ CHR ''.'' # e) = s"
  by (simp add: file_stem_def rev_takes)

lemma file_extension_ext:
  "CHR ''.'' \<notin> set e \<Longrightarrow> s \<noteq> [] \<Longrightarrow> file_extension (s @ CHR ''.'' # e) = Some e"
  by (simp add: file_extension_def rev_takes)

lemma with_extension_ext:
  "CHR ''.'' \<notin> set e \<Longrightarrow> s \<noteq> [] \<Longrightarrow> with_extension (p @ [s @ CHR ''.'' # e]) x = p @ [s @ CHR ''.'' # x]"
  by (simp add: with_extension_def file_stem_ext)

section \<open>The disk\<close>

datatype 'b content = Text string | Data 'b

record 'b file_entry =
  f_data :: "'b content"
  f_mode :: nat

type_synonym 'b disk = "(file_path \<times> 'b file_entry) list"

datatype io_error = NotFound | IoError string

fun show_io_error :: "io_error \<Rightarrow> string" where
  "show_io_error NotFound = ''No such file or directory (os error 2)''"
| "show_io_error (IoError s) = s"

datatype fs_op =
    CreateDir file_path
  | WriteFile file_path
  | RenameFile file_path file_path
  | RemoveFile file_path
  | ReadFile file_path
  | ReadDir file_path
  | ReadEntry file_path
  | SetMode file_path

record 'b io =
  fails :: "fs_op \<Rightarrow> string option"
  debris :: "file_path \<Rightarrow> 'b content option"
  new_mode :: nat
  dir_order :: "string list \<Rightarrow> string list"

definition create_dir_all :: "'b io \<Rightarrow> file_path \<Rightarrow> io_error + unit" where
  "create_dir_all io p =
     (case fails io (CreateDir p) of Some e \<Rightarrow> Inl (IoError e) | None \<Rightarrow> Inr ())"

text \<open>\<open>std::fs::write\<close>: an existing file keeps its mode, a new one gets the process's default.\<close>

definition put_file :: "'b io \<Rightarrow> file_path \<Rightarrow> 'b content \<Rightarrow> 'b disk \<Rightarrow> 'b disk" where
  "put_file io p c d =
     bm_insert p \<lparr>f_data = c, f_mode = (case bm_get d p of Some f \<Rightarrow> f_mode f | None \<Rightarrow> new_mode io)\<rparr> d"

definition fs_write ::
  "'b io \<Rightarrow> file_path \<Rightarrow> 'b content \<Rightarrow> 'b disk \<Rightarrow> 'b disk \<times> (io_error + unit)" where
  "fs_write io p c d =
     (case fails io (WriteFile p) of
        None \<Rightarrow> (put_file io p c d, Inr ())
      | Some e \<Rightarrow>
          ((case debris io p of None \<Rightarrow> d | Some junk \<Rightarrow> put_file io p junk d), Inl (IoError e)))"

definition fs_rename ::
  "'b io \<Rightarrow> file_path \<Rightarrow> file_path \<Rightarrow> 'b disk \<Rightarrow> 'b disk \<times> (io_error + unit)" where
  "fs_rename io p q d =
     (case fails io (RenameFile p q) of
        Some e \<Rightarrow> (d, Inl (IoError e))
      | None \<Rightarrow>
          (case bm_get d p of
             None \<Rightarrow> (d, Inl NotFound)
           | Some f \<Rightarrow> (bm_insert q f (bm_remove p d), Inr ())))"

definition fs_remove :: "'b io \<Rightarrow> file_path \<Rightarrow> 'b disk \<Rightarrow> 'b disk \<times> (io_error + unit)" where
  "fs_remove io p d =
     (case fails io (RemoveFile p) of
        Some e \<Rightarrow> (d, Inl (IoError e))
      | None \<Rightarrow>
          (case bm_get d p of
             None \<Rightarrow> (d, Inl NotFound)
           | Some f \<Rightarrow> (bm_remove p d, Inr ())))"

definition fs_read :: "'b io \<Rightarrow> file_path \<Rightarrow> 'b disk \<Rightarrow> io_error + 'b content" where
  "fs_read io p d =
     (case fails io (ReadFile p) of
        Some e \<Rightarrow> Inl (IoError e)
      | None \<Rightarrow> (case bm_get d p of None \<Rightarrow> Inl NotFound | Some f \<Rightarrow> Inr (f_data f)))"

definition fs_read_text :: "'b io \<Rightarrow> file_path \<Rightarrow> 'b disk \<Rightarrow> io_error + string" where
  "fs_read_text io p d =
     (case fs_read io p d of
        Inl e \<Rightarrow> Inl e
      | Inr (Text s) \<Rightarrow> Inr s
      | Inr (Data b) \<Rightarrow> Inl (IoError ''stream did not contain valid UTF-8''))"

definition fs_set_mode :: "'b io \<Rightarrow> file_path \<Rightarrow> nat \<Rightarrow> 'b disk \<Rightarrow> 'b disk \<times> (io_error + unit)" where
  "fs_set_mode io p mode d =
     (case fails io (SetMode p) of
        Some e \<Rightarrow> (d, Inl (IoError e))
      | None \<Rightarrow>
          (case bm_get d p of
             None \<Rightarrow> (d, Inl NotFound)
           | Some f \<Rightarrow> (bm_insert p (f\<lparr>f_mode := mode\<rparr>) d, Inr ())))"

definition names_in :: "file_path \<Rightarrow> 'b disk \<Rightarrow> string list" where
  "names_in dir d = map (\<lambda>(p, f). last p) (filter (\<lambda>(p, f). p \<noteq> [] \<and> butlast p = dir) d)"

definition fs_read_dir :: "'b io \<Rightarrow> file_path \<Rightarrow> 'b disk \<Rightarrow> io_error + string list" where
  "fs_read_dir io dir d =
     (case fails io (ReadDir dir) of
        Some e \<Rightarrow> Inl (IoError e)
      | None \<Rightarrow> Inr (dir_order io (names_in dir d)))"

text \<open>
  What a directory listing may do: give the names in any order.
\<close>

definition lists_all :: "'b io \<Rightarrow> bool" where
  "lists_all io \<longleftrightarrow> (\<forall>names. mset (dir_order io names) = mset names)"

definition no_faults :: "'b io \<Rightarrow> bool" where
  "no_faults io \<longleftrightarrow> (\<forall>x. fails io x = None)"

lemmas fs_defs = fs_write_def fs_rename_def fs_remove_def fs_read_def fs_read_text_def
  fs_set_mode_def fs_read_dir_def create_dir_all_def put_file_def

section \<open>Encodings\<close>

record ('a, 'b) codec =
  enc :: "'a \<Rightarrow> 'b"
  dec :: "'b \<Rightarrow> string + 'a"

definition codec_ok :: "('a, 'b) codec \<Rightarrow> bool" where
  "codec_ok c \<longleftrightarrow> (\<forall>x. dec c (enc c x) = Inr x)"

lemma codec_okD [simp]: "codec_ok c \<Longrightarrow> dec c (enc c x) = Inr x"
  by (simp add: codec_ok_def)

section \<open>What the operations leave\<close>

lemma fs_write_other: "fs_write io p c d = (d', r) \<Longrightarrow> q \<noteq> p \<Longrightarrow> bm_get d' q = bm_get d q"
  by (auto simp: fs_defs bm_get_insert split: option.splits)

lemma fs_write_ok: "fs_write io p c d = (d', Inr ()) \<Longrightarrow> d' = put_file io p c d"
  by (auto simp: fs_write_def split: option.splits)

lemma fs_rename_result:
  "fs_rename io p q d = (d', r) \<Longrightarrow>
   (r = Inr () \<and> p \<noteq> q \<longrightarrow> (bm_get d p \<noteq> None \<and> bm_get d' = (bm_get d)(p := None, q := bm_get d p))) \<and>
   (r \<noteq> Inr () \<longrightarrow> d' = d)"
  by (auto simp: fs_defs bm_get_insert bm_get_remove fun_eq_iff split: option.splits)

lemma disk_ok_steps:
  "bm_ok d \<Longrightarrow> fs_write io p c d = (d', r) \<Longrightarrow> bm_ok d'"
  "bm_ok d \<Longrightarrow> fs_rename io p q d = (d', r') \<Longrightarrow> bm_ok d'"
  "bm_ok d \<Longrightarrow> fs_remove io p d = (d', r'') \<Longrightarrow> bm_ok d'"
  "bm_ok d \<Longrightarrow> fs_set_mode io p m d = (d', r''') \<Longrightarrow> bm_ok d'"
  by (auto simp: fs_defs intro!: bm_ok_insert bm_ok_remove split: option.splits)

lemma names_in_mem: "bm_ok d \<Longrightarrow> n \<in> set (names_in dir d) \<longleftrightarrow> bm_get d (dir @ [n]) \<noteq> None"
  by (force simp: names_in_def bm_ok_distinct map_of_eq_None_iff image_iff)

lemma names_in_distinct:
  assumes "bm_ok d"
  shows "distinct (names_in dir d)"
proof -
  let ?in = "filter (\<lambda>(p, f). p \<noteq> [] \<and> butlast p = dir) d"
  have "distinct (map fst ?in)" using bm_ok_distinct [OF assms] by (rule distinct_map_filter)
  moreover have "inj_on last (fst ` set ?in)"
    by (auto intro!: inj_onI) (metis append_butlast_last_id)
  ultimately have "distinct (map last (map fst ?in))" by (subst distinct_map) (simp only: set_map)
  then show ?thesis by (simp add: names_in_def comp_def case_prod_beta')
qed

end
