(* ===== verification/Proto.thy ===== *)
theory Proto
  imports Diff "HOL-Library.Word"
begin

unbundle bit_operations_syntax

text \<open>
  \<open>src/nightshade-proto\<close>: session identifiers (\<open>message/session_id.rs\<close>), length-prefixed frames
  (\<open>frame.rs\<close>) and the requests and responses (\<open>message.rs\<close>). Bytes are \<open>8 word\<close>s and the length
  prefix a \<open>32 word\<close>. The CBOR encoder and decoder of \<open>ciborium\<close> are parameters; a reader is
  the bytes still to come.
\<close>

section \<open>Session identifiers\<close>

type_synonym session_id = string

definition SESSION_ID_LEN :: nat where
  "SESSION_ID_LEN = 16"

definition ENTROPY_BYTES :: nat where
  "ENTROPY_BYTES = SESSION_ID_LEN div 2"

definition id_char :: "char \<Rightarrow> bool" where
  "id_char c \<longleftrightarrow> is_ascii_digit c \<or> 97 \<le> code c \<and> code c \<le> 102"

definition session_id_parse :: "string \<Rightarrow> session_id option" where
  "session_id_parse s = (if utf8_len s = SESSION_ID_LEN \<and> list_all id_char s then Some s else None)"

definition session_id_from_bytes :: "8 word list \<Rightarrow> session_id" where
  "session_id_from_bytes bytes =
     concat (map (\<lambda>b. [hex_digit (unat (drop_bit 4 b)), hex_digit (unat (b AND 0xf))]) bytes)"

section \<open>Frames\<close>

definition HEADER :: nat where
  "HEADER = 4"

definition MAX_BODY :: nat where
  "MAX_BODY = 4 * 1024 * 1024"

datatype frame_error =
    TooLarge nat
  | EmptyFrame
  | MalformedFrame string
  | EncodeFrame string
  | FrameIo string

fun show_frame_error :: "frame_error \<Rightarrow> string" where
  "show_frame_error (TooLarge n) =
     ''message of '' @ show_nat n @ '' bytes exceeds the '' @ show_nat MAX_BODY @ '' byte limit''"
| "show_frame_error EmptyFrame = ''empty message''"
| "show_frame_error (MalformedFrame s) = ''malformed message: '' @ s"
| "show_frame_error (EncodeFrame s) = ''encoding a message: '' @ s"
| "show_frame_error (FrameIo s) = s"

definition from_be_bytes :: "8 word list \<Rightarrow> 32 word" where
  "from_be_bytes bs = foldl (\<lambda>n b. push_bit 8 n OR ucast b) 0 bs"

definition to_be_bytes :: "32 word \<Rightarrow> 8 word list" where
  "to_be_bytes n = [ucast (drop_bit 24 n), ucast (drop_bit 16 n), ucast (drop_bit 8 n), ucast n]"

definition body_len :: "8 word list \<Rightarrow> frame_error + nat" where
  "body_len header =
     (let len = unat (from_be_bytes header)
      in if len = 0 then Inl EmptyFrame
         else if len > MAX_BODY then Inl (TooLarge len)
         else Inr len)"

text \<open>\<open>ciborium\<close>: what a message is written as, and what bytes are read as.\<close>

record 'a cbor =
  into_writer :: "'a \<Rightarrow> string + 8 word list"
  from_reader :: "8 word list \<Rightarrow> string + 'a"

definition encode :: "'a cbor \<Rightarrow> 'a \<Rightarrow> frame_error + 8 word list" where
  "encode c message =
     (case into_writer c message of
        Inl e \<Rightarrow> Inl (EncodeFrame e)
      | Inr body \<Rightarrow>
          if length body > MAX_BODY then Inl (TooLarge (length body))
          else Inr (to_be_bytes (word_of_nat (length body)) @ body))"

definition decode :: "'a cbor \<Rightarrow> 8 word list \<Rightarrow> frame_error + 'a" where
  "decode c body = map_err MalformedFrame (from_reader c body)"

definition read_exact :: "nat \<Rightarrow> 8 word list \<Rightarrow> frame_error + 8 word list \<times> 8 word list" where
  "read_exact n s =
     (if length s < n then Inl (FrameIo ''failed to fill whole buffer'') else Inr (take n s, drop n s))"

text \<open>
  What is left in the reader after a failure is what had not been consumed when it happened; the
  third component is how many body bytes a buffer was allocated for.
\<close>

definition read_blocking :: "'a cbor \<Rightarrow> 8 word list \<Rightarrow> (frame_error + 'a) \<times> 8 word list \<times> nat" where
  "read_blocking c s =
     (case read_exact HEADER s of
        Inl e \<Rightarrow> (Inl e, [], 0)
      | Inr (header, s1) \<Rightarrow>
          (case body_len header of
             Inl e \<Rightarrow> (Inl e, s1, 0)
           | Inr len \<Rightarrow>
               (case read_exact len s1 of
                  Inl e \<Rightarrow> (Inl e, [], len)
                | Inr (body, s2) \<Rightarrow> (decode c body, s2, len))))"

definition write_blocking :: "'a cbor \<Rightarrow> 'a \<Rightarrow> 8 word list \<Rightarrow> frame_error + 8 word list" where
  "write_blocking c message out = bind_result (encode c message) (\<lambda>frame. Inr (out @ frame))"

section \<open>Requests and responses\<close>

datatype link = Connected | NotConnect | Disabled | ErrDisabled | Inactive

datatype view_kind =
    Detail | Description | Status "link option" | Counters | CountersErrors | CountersDiscards
  | CountersRates | CountersQueue | CountersBins | Transceiver | TransceiverDetail
  | TransceiverProperties | TransceiverEeprom | Capabilities | FlowControl | Negotiation
  | NegotiationDetail | Phy | PhyDetail | Mac | MacDetail

record if_query =
  q_view :: view_kind
  q_names :: "string list"

datatype op_target = Version | InterfacesQuery if_query | ClearCounters "string list"

datatype load_source = LoadSaved | LoadArchive nat

datatype request =
    SessionOpen
  | SessionClose session_id
  | SetValue session_id path "string option"
  | DeleteNode session_id path "string option"
  | ShowCandidate session_id path
  | ShowRunning path
  | ShowSaved path
  | Compare session_id
  | Discard session_id
  | Commit session_id "string option" "nat option"
  | Confirm session_id
  | Save
  | Load session_id load_source
  | CommitLog
  | OpShow op_target
  | ShellSession bool

record revision_info =
  ri_revision :: nat
  ri_timestamp :: string
  ri_actor :: string
  ri_actor_uid :: nat
  ri_comment :: "string option"
  ri_changes :: "change list"

datatype failure_kind = KRequest | KValidation | KConflict | KInternal

datatype 's report = ReportVersion string | ReportInterfaces 's

datatype 's response =
    RespOk
  | RespSession session_id
  | RespConfig config_tree
  | RespChanges "change list"
  | Committed nat "change list" "nat option"
  | Revisions "revision_info list"
  | Operational "'s report"
  | Failed failure_kind string

definition resp_invalid :: "string \<Rightarrow> 's response" where
  "resp_invalid s = Failed KValidation s"

definition bad_request :: "string \<Rightarrow> 's response" where
  "bad_request s = Failed KRequest s"

text \<open>The session a request is about.\<close>

fun request_session :: "request \<Rightarrow> session_id option" where
  "request_session (SessionClose i) = Some i"
| "request_session (SetValue i p v) = Some i"
| "request_session (DeleteNode i p v) = Some i"
| "request_session (ShowCandidate i p) = Some i"
| "request_session (Compare i) = Some i"
| "request_session (Discard i) = Some i"
| "request_session (Commit i c m) = Some i"
| "request_session (Confirm i) = Some i"
| "request_session (Load i src) = Some i"
| "request_session _ = None"

section \<open>Session identifiers are file names\<close>

lemma id_char_plain: "id_char c \<Longrightarrow> c \<noteq> CHR ''/'' \<and> c \<noteq> CHR ''.'' \<and> code c < 128"
  by (auto simp: id_char_def is_ascii_digit_def code_def)

lemma hex_digit_id: "n < 16 \<Longrightarrow> id_char (hex_digit n)"
proof -
  assume n: "n < 16"
  then have "code (hex_digit n) = (if n < 10 then n + 48 else n + 87)"
    unfolding hex_digit_def by (intro code_char_of) auto
  with n show ?thesis by (auto simp: id_char_def is_ascii_digit_def)
qed

lemma hex_digit_inj: "m < 16 \<Longrightarrow> n < 16 \<Longrightarrow> hex_digit m = hex_digit n \<Longrightarrow> m = n"
  by (metis hex_value_hex_digit option.inject)

definition valid_id :: "session_id \<Rightarrow> bool" where
  "valid_id i \<longleftrightarrow> length i = SESSION_ID_LEN \<and> list_all id_char i"

lemma session_id_parse_iff: "session_id_parse s = Some i \<longleftrightarrow> i = s \<and> valid_id s"
proof -
  have "list_all id_char s \<Longrightarrow> utf8_len s = length s"
    by (intro utf8_len_ascii) (auto simp: list_all_iff dest: id_char_plain)
  then show ?thesis by (auto simp: session_id_parse_def valid_id_def)
qed

lemma valid_id_name:
  assumes "valid_id i"
  shows "CHR ''/'' \<notin> set i" "CHR ''.'' \<notin> set i" "i \<noteq> []"
proof -
  have "\<forall>c \<in> set i. id_char c" "length i = 16"
    using assms by (simp_all add: valid_id_def list_all_iff SESSION_ID_LEN_def)
  then show "CHR ''/'' \<notin> set i" "CHR ''.'' \<notin> set i" "i \<noteq> []"
    using id_char_plain [of "CHR ''/''"] id_char_plain [of "CHR ''.''"] by auto
qed

lemma high_nibble: "unat (drop_bit 4 (b :: 8 word)) = unat b div 16"
  by (simp add: drop_bit_eq_div unat_div_distrib)

lemma low_nibble: "unat ((b :: 8 word) AND 0xf) = unat b mod 16"
proof -
  have "b AND 0xf = take_bit 4 b" by (simp add: take_bit_eq_mask mask_eq_exp_minus_1)
  then show ?thesis by (simp add: take_bit_eq_mod unat_mod_distrib)
qed

lemma nibbles_lt: "unat (drop_bit 4 (b :: 8 word)) < 16" "unat ((b :: 8 word) AND 0xf) < 16"
proof -
  have "unat b < 2 ^ LENGTH(8)" by (rule unsigned_less)
  then show "unat (drop_bit 4 b) < 16" "unat (b AND 0xf) < 16"
    by (simp_all add: high_nibble low_nibble div_less_iff_less_mult)
qed

lemma byte_digits_inj:
  assumes "hex_digit (unat (drop_bit 4 b)) = hex_digit (unat (drop_bit 4 c))"
    and "hex_digit (unat (b AND 0xf)) = hex_digit (unat (c AND 0xf))"
  shows "b = (c :: 8 word)"
proof -
  have "unat b div 16 = unat c div 16" "unat b mod 16 = unat c mod 16"
    using assms hex_digit_inj nibbles_lt by (metis high_nibble, metis low_nibble)
  then have "unat b = unat c" by (metis div_mult_mod_eq)
  then show ?thesis by (simp only: word_unat_eq_iff)
qed

lemma from_bytes_length: "length (session_id_from_bytes bs) = 2 * length bs"
  by (induction bs) (auto simp: session_id_from_bytes_def)

lemma from_bytes_chars: "list_all id_char (session_id_from_bytes bs)"
  using hex_digit_id nibbles_lt by (induction bs) (auto simp: session_id_from_bytes_def)

lemma from_bytes_valid: "length bs = ENTROPY_BYTES \<Longrightarrow> valid_id (session_id_from_bytes bs)"
  by (simp add: valid_id_def from_bytes_length from_bytes_chars ENTROPY_BYTES_def SESSION_ID_LEN_def)

lemma from_bytes_inj:
  "length as = length bs \<Longrightarrow> session_id_from_bytes as = session_id_from_bytes bs \<Longrightarrow> as = bs"
  by (induction as bs rule: list_induct2) (auto simp: session_id_from_bytes_def intro: byte_digits_inj)

text \<open>
  A session identifier made from random bytes is one the parser accepts, different bytes give
  different identifiers, and an identifier the parser accepts is sixteen lowercase hexadecimal
  digits and so holds neither a slash nor a dot: used as a file name it cannot leave its directory.
\<close>

lemma session_id_exact:
  assumes "length as = ENTROPY_BYTES" and "length bs = ENTROPY_BYTES"
  shows "session_id_parse (session_id_from_bytes as) = Some (session_id_from_bytes as) \<and>
    (session_id_from_bytes as = session_id_from_bytes bs \<longleftrightarrow> as = bs) \<and>
    (\<forall>s i. session_id_parse s = Some i \<longrightarrow> i = s \<and> length s = 16 \<and> CHR ''/'' \<notin> set s \<and> CHR ''.'' \<notin> set s)"
proof -
  have "session_id_parse s = Some i \<longrightarrow> i = s \<and> length s = 16 \<and> CHR ''/'' \<notin> set s \<and> CHR ''.'' \<notin> set s" for s i
    using valid_id_name [of s] by (auto simp: session_id_parse_iff valid_id_def SESSION_ID_LEN_def)
  then show ?thesis
    using assms from_bytes_valid [OF assms(1)] from_bytes_inj [of as bs] by (auto simp: session_id_parse_iff)
qed

section \<open>Frames are self-delimiting\<close>

lemma be_bytes: "from_be_bytes (to_be_bytes n) = n"
proof (rule bit_word_eqI)
  fix k assume "k < LENGTH(32)"
  then consider "k < 8" | "8 \<le> k" "k < 16" | "16 \<le> k" "k < 24" | "24 \<le> k" "k < 32"
    by (simp add: not_less) linarith
  then show "bit (from_be_bytes (to_be_bytes n)) k = bit n k"
    by cases (auto simp: from_be_bytes_def to_be_bytes_def bit_simps)
qed


lemma body_len_length: "0 < n \<Longrightarrow> n \<le> MAX_BODY \<Longrightarrow> body_len (to_be_bytes (word_of_nat n)) = Inr n"
  by (simp add: body_len_def be_bytes MAX_BODY_def unsigned_of_nat take_bit_nat_eq_self)

definition carries :: "'a cbor \<Rightarrow> 'a \<Rightarrow> bool" where
  "carries c x \<longleftrightarrow> (\<exists>body. into_writer c x = Inr body \<and> from_reader c body = Inr x \<and>
     body \<noteq> [] \<and> length body \<le> MAX_BODY)"

lemma read_written:
  assumes "carries c x"
  obtains frame n where "encode c x = Inr frame" and "read_blocking c (frame @ later) = (Inr x, later, n)"
proof -
  obtain body where b: "into_writer c x = Inr body" "from_reader c body = Inr x" "body \<noteq> []"
    "length body \<le> MAX_BODY"
    using assms by (auto simp: carries_def)
  let ?frame = "to_be_bytes (word_of_nat (length body)) @ body"
  have header: "take HEADER (?frame @ later) = to_be_bytes (word_of_nat (length body))"
    "drop HEADER (?frame @ later) = body @ later" "HEADER \<le> length (?frame @ later)"
    by (simp_all add: HEADER_def to_be_bytes_def)
  have "encode c x = Inr ?frame" using b by (simp add: encode_def)
  moreover have "read_blocking c (?frame @ later) = (Inr x, later, length body)"
    using b header body_len_length [of "length body"]
    by (simp add: read_blocking_def read_exact_def decode_def del: append_assoc)
  ultimately show thesis by (rule that)
qed

fun write_each :: "'a cbor \<Rightarrow> 'a list \<Rightarrow> 8 word list \<Rightarrow> frame_error + 8 word list" where
  "write_each c [] out = Inr out"
| "write_each c (x # xs) out = bind_result (write_blocking c x out) (write_each c xs)"

fun read_each :: "'a cbor \<Rightarrow> nat \<Rightarrow> 8 word list \<Rightarrow> (frame_error + 'a) list \<times> 8 word list" where
  "read_each c 0 s = ([], s)"
| "read_each c (Suc n) s =
     (case read_blocking c s of
        (r, s', k) \<Rightarrow> (case read_each c n s' of (rs, s'') \<Rightarrow> (r # rs, s'')))"

lemma write_each_read:
  assumes "\<forall>x \<in> set xs. carries c x"
  shows "\<exists>wire. write_each c xs out = Inr (out @ wire) \<and>
    (\<forall>later. read_each c (length xs) (wire @ later) = (map Inr xs, later))"
  using assms
proof (induction xs arbitrary: out)
  case (Cons x xs)
  obtain frame where f: "encode c x = Inr frame"
    using read_written [of c x "[]"] Cons.prems by auto
  obtain wire where w: "write_each c xs (out @ frame) = Inr ((out @ frame) @ wire)"
    "\<And>later. read_each c (length xs) (wire @ later) = (map Inr xs, later)"
    using Cons.IH [of "out @ frame"] Cons.prems by auto
  have "\<exists>n. read_blocking c (frame @ wire @ later) = (Inr x, wire @ later, n)" for later
    using read_written [of c x "wire @ later"] Cons.prems f by auto
  then have "read_each c (length (x # xs)) ((frame @ wire) @ later) = (map Inr (x # xs), later)" for later
  proof -
    obtain n where "read_blocking c (frame @ wire @ later) = (Inr x, wire @ later, n)"
      using \<open>\<exists>n. read_blocking c (frame @ wire @ later) = (Inr x, wire @ later, n)\<close> by blast
    then show ?thesis using w(2) [of later] by simp
  qed
  then show ?case using f w(1) by (intro exI [of _ "frame @ wire"]) (simp add: write_blocking_def)
qed simp

text \<open>
  C31. Messages written one after another are read back one after another: each frame says where it
  ends, so nothing of one message is taken for part of the next and what follows the last one is
  left unread.
\<close>

theorem frames_roundtrip:
  assumes "\<forall>x \<in> set xs. carries c x"
  shows "\<exists>wire. write_each c xs [] = Inr wire \<and> read_each c (length xs) (wire @ later) = (map Inr xs, later)"
  using write_each_read [OF assms, of "[]"] by auto

definition byte_cbor :: "8 word cbor" where
  "byte_cbor = \<lparr>into_writer = (\<lambda>b. Inr [0x18, b]),
     from_reader = (\<lambda>bs. case bs of [h, b] \<Rightarrow> Inr b | _ \<Rightarrow> Inl ''not a byte'')\<rparr>"

theorem frames_roundtrip_witness:
  "\<exists>wire. write_each byte_cbor [1, 255] [] = Inr wire \<and>
     read_each byte_cbor 2 (wire @ [7]) = ([Inr 1, Inr 255], [7])"
proof -
  have "carries byte_cbor b" for b by (simp add: carries_def byte_cbor_def MAX_BODY_def)
  then have "\<forall>b \<in> set [1, 255]. carries byte_cbor b" by blast
  moreover have "length [1, 255 :: 8 word] = 2" by simp
  ultimately show ?thesis
    using frames_roundtrip [of "[1, 255]" byte_cbor "[7]"] by (simp only: list.map)
qed

text \<open>
  What a frame claims is bounded before anything is allocated for it: a reader never makes a
  buffer of more than four megabytes, and a claim of nothing or of more than that is refused from
  the four header bytes alone, with the rest of the stream untouched.
\<close>

lemma read_bounded:
  "(case read_blocking c s of (r, s', buffer) \<Rightarrow>
      buffer \<le> MAX_BODY \<and>
      (HEADER \<le> length s \<and> unat (from_be_bytes (take HEADER s)) \<notin> {1 .. MAX_BODY} \<longrightarrow>
         \<not> is_ok r \<and> s' = drop HEADER s \<and> buffer = 0))"
  by (auto simp: read_blocking_def read_exact_def body_len_def Let_def split: sum.splits prod.splits if_splits)

end
