(* ===== verification/Peer.thy ===== *)
theory Peer
  imports Prelude
begin

text \<open>
  \<open>src/nightshade-configd/src/peer.rs\<close>: who may be served. The user and group databases the
  source asks through \<open>nix\<close> are parameters; each lookup can fail, find nothing or find an entry.
\<close>

record actor =
  a_uid :: nat
  a_gid :: nat
  a_pid :: "int option"
  a_username :: string

definition actor_describe :: "actor \<Rightarrow> string" where
  "actor_describe a = a_username a @ '' (uid '' @ show_nat (a_uid a) @ '')''"

datatype access = AccessGroup string | AccessUid nat

definition ADMIN_GROUP :: string where
  "ADMIN_GROUP = ''nightshade-admin''"

definition access_default :: access where
  "access_default = AccessGroup ADMIN_GROUP"

definition access_current_user :: "nat \<Rightarrow> access" where
  "access_current_user getuid = AccessUid getuid"

record unix_group =
  g_gid :: nat
  g_mem :: "string list"

record accounts =
  user_from_uid :: "nat \<Rightarrow> string + string option"
  group_from_name :: "string \<Rightarrow> string + unix_group option"

datatype auth_error =
    NoSuchUser nat
  | NotPermitted nat string string
  | WrongUid nat
  | NoGroup string
  | UserDatabase string

fun show_auth_error :: "auth_error \<Rightarrow> string" where
  "show_auth_error (NoSuchUser u) = ''uid '' @ show_nat u @ '' is not a user on this system''"
| "show_auth_error (NotPermitted u name g) =
     name @ '' (uid '' @ show_nat u @ '') is not a member of '' @ g"
| "show_auth_error (WrongUid u) = ''uid '' @ show_nat u @ '' is not permitted''"
| "show_auth_error (NoGroup g) =
     ''group '' @ g @ '' does not exist, so only root can configure this system''"
| "show_auth_error (UserDatabase e) = ''reading the user database: '' @ e"

definition peer_name :: "accounts \<Rightarrow> nat \<Rightarrow> auth_error + string" where
  "peer_name db uid =
     (case user_from_uid db uid of
        Inl e \<Rightarrow> Inl (UserDatabase e)
      | Inr (Some name) \<Rightarrow> Inr name
      | Inr None \<Rightarrow> if uid = 0 then Inr ''root'' else Inl (NoSuchUser uid))"

definition admit :: "accounts \<Rightarrow> access \<Rightarrow> actor \<Rightarrow> auth_error + actor" where
  "admit db acc a =
     (case acc of
        AccessUid allowed \<Rightarrow> if a_uid a = allowed then Inr a else Inl (WrongUid (a_uid a))
      | AccessGroup grp \<Rightarrow>
          (case group_from_name db grp of
             Inl e \<Rightarrow> Inl (UserDatabase e)
           | Inr None \<Rightarrow> Inl (NoGroup grp)
           | Inr (Some admin) \<Rightarrow>
               if g_gid admin = a_gid a \<or> a_username a \<in> set (g_mem admin) then Inr a
               else Inl (NotPermitted (a_uid a) (a_username a) grp)))"

definition authenticate ::
  "accounts \<Rightarrow> nat \<Rightarrow> nat \<Rightarrow> int option \<Rightarrow> access \<Rightarrow> auth_error + actor" where
  "authenticate db uid gid pid acc =
     bind_result (peer_name db uid) (\<lambda>username.
       let a = \<lparr>a_uid = uid, a_gid = gid, a_pid = pid, a_username = username\<rparr>
       in if uid = 0 then Inr a else admit db acc a)"

section \<open>Who gets in\<close>

definition known_as :: "accounts \<Rightarrow> nat \<Rightarrow> string \<Rightarrow> bool" where
  "known_as db uid name \<longleftrightarrow>
     user_from_uid db uid = Inr (Some name) \<or> user_from_uid db uid = Inr None \<and> uid = 0 \<and> name = ''root''"

definition allowed :: "accounts \<Rightarrow> access \<Rightarrow> nat \<Rightarrow> nat \<Rightarrow> string \<Rightarrow> bool" where
  "allowed db acc uid gid name \<longleftrightarrow> uid = 0 \<or> acc = AccessUid uid \<or>
     (\<exists>grp admin. acc = AccessGroup grp \<and> group_from_name db grp = Inr (Some admin) \<and>
        (g_gid admin = gid \<or> name \<in> set (g_mem admin)))"

lemma peer_name_iff: "peer_name db uid = Inr name \<longleftrightarrow> known_as db uid name"
  by (auto simp: peer_name_def known_as_def split: sum.splits option.splits)

lemma admit_iff:
  "admit db acc a = Inr b \<longleftrightarrow> b = a \<and>
     (acc = AccessUid (a_uid a) \<or>
      (\<exists>grp admin. acc = AccessGroup grp \<and> group_from_name db grp = Inr (Some admin) \<and>
         (g_gid admin = a_gid a \<or> a_username a \<in> set (g_mem admin))))"
  by (auto simp: admit_def split: access.splits sum.splits option.splits if_splits)

text \<open>
  A peer is served exactly when the user database names it (or it is root and the database
  has no entry) and it is root, the one permitted uid, or a member of the permitted group by
  primary gid or by name; and the actor recorded carries the kernel's uid, gid and pid.
\<close>

lemma authenticate_exact:
  "authenticate db uid gid pid acc = Inr a \<longleftrightarrow>
   (\<exists>name. known_as db uid name \<and> allowed db acc uid gid name \<and>
      a = \<lparr>a_uid = uid, a_gid = gid, a_pid = pid, a_username = name\<rparr>)"
  unfolding authenticate_def bind_result_Inr peer_name_iff Let_def allowed_def
  by (auto simp: admit_iff)

end
