(* ===== verification/Session_Store.thy ===== *)
theory Session_Store
  imports Files Proto Peer Config_Tree
begin

text \<open>
  \<open>src/nightshade-configd/src/session.rs\<close>: one operator's candidate, and its copy under \<open>/run\<close>.
  Every file the daemon must not lose half of is written to a temporary name and renamed
  (\<open>replace_file\<close>); the locale \<open>atomic_cell\<close> is what the daemon relies on such a file for.
\<close>

section \<open>Replacing a file\<close>

text \<open>
  \<open>std::fs::write\<close> to the temporary name and \<open>std::fs::rename\<close> over the real one. The flag of
  a failure says whether it was the rename.
\<close>

definition replace_file ::
  "'b io \<Rightarrow> file_path \<Rightarrow> file_path \<Rightarrow> 'b content \<Rightarrow> 'b disk \<Rightarrow> 'b disk \<times> (bool \<times> io_error + unit)" where
  "replace_file io tmp final c d =
     (case fs_write io tmp c d of
        (d1, Inl e) \<Rightarrow> (d1, Inl (False, e))
      | (d1, Inr u) \<Rightarrow>
          (case fs_rename io tmp final d1 of
             (d2, Inl e) \<Rightarrow> (d2, Inl (True, e))
           | (d2, Inr v) \<Rightarrow> (d2, Inr ())))"

definition data_at :: "'b disk \<Rightarrow> file_path \<Rightarrow> 'b content option" where
  "data_at d p = map_option f_data (bm_get d p)"

lemma data_at_put: "data_at (put_file io p c d) q = (if q = p then Some c else data_at d q)"
  by (simp add: data_at_def put_file_def bm_get_insert)

lemma fs_write_data:
  assumes "fs_write io p c d = (d', r)"
  shows "q \<noteq> p \<Longrightarrow> data_at d' q = data_at d q" and "is_ok r \<Longrightarrow> data_at d' p = Some c"
  using assms by (auto simp: fs_write_def data_at_put split: option.splits)

lemma fs_rename_data:
  assumes "fs_rename io p q d = (d', r)" and "p \<noteq> q"
  shows "\<not> is_ok r \<Longrightarrow> d' = d" and "is_ok r \<Longrightarrow> data_at d' q = data_at d p"
    and "k \<noteq> p \<Longrightarrow> k \<noteq> q \<Longrightarrow> data_at d' k = data_at d k"
  using assms by (auto simp: fs_rename_def data_at_def bm_get_insert bm_get_remove split: option.splits)

lemma replace_file_cases:
  assumes "replace_file io tmp final c d = (d', r)"
  obtains (unwritten) e where "fs_write io tmp c d = (d', Inl e)" "r = Inl (False, e)"
  | (unrenamed) d1 e where "fs_write io tmp c d = (d1, Inr ())" "fs_rename io tmp final d1 = (d', Inl e)"
      "r = Inl (True, e)"
  | (replaced) d1 where "fs_write io tmp c d = (d1, Inr ())" "fs_rename io tmp final d1 = (d', Inr ())"
      "r = Inr ()"
  using assms by (auto simp: replace_file_def split: prod.splits sum.splits)

lemma replace_file_effect:
  assumes "replace_file io tmp final c d = (d', r)" and "tmp \<noteq> final"
  shows "q \<noteq> tmp \<Longrightarrow> q \<noteq> final \<Longrightarrow> data_at d' q = data_at d q"
    and "is_ok r \<Longrightarrow> data_at d' final = Some c"
    and "\<not> is_ok r \<Longrightarrow> data_at d' final = data_at d final"
proof -
  note w = fs_write_data and n = fs_rename_data [OF _ assms(2)]
  from assms(1) have "(q \<noteq> tmp \<longrightarrow> q \<noteq> final \<longrightarrow> data_at d' q = data_at d q) \<and>
    (if is_ok r then data_at d' final = Some c else data_at d' final = data_at d final)"
  proof (cases rule: replace_file_cases)
    case (unwritten e)
    then show ?thesis using w(1) [OF unwritten(1)] assms(2) by simp
  next
    case (unrenamed d1 e)
    then show ?thesis using w(1) [OF unrenamed(1)] n(1) [OF unrenamed(2)] assms(2) by simp
  next
    case (replaced d1)
    then show ?thesis
      using w [OF replaced(1)] n(2,3) [OF replaced(2)] assms(2) by simp
  qed
  then show "q \<noteq> tmp \<Longrightarrow> q \<noteq> final \<Longrightarrow> data_at d' q = data_at d q"
    and "is_ok r \<Longrightarrow> data_at d' final = Some c"
    and "\<not> is_ok r \<Longrightarrow> data_at d' final = data_at d final" by auto
qed

lemma replace_file_ok:
  assumes "bm_ok d" and "replace_file io tmp final c d = (d', r)"
  shows "bm_ok d'"
  using assms(2) by (cases rule: replace_file_cases) (use assms(1) disk_ok_steps(1,2) in blast)+

lemma replace_file_no_faults:
  assumes "no_faults io"
  shows "snd (replace_file io tmp final c d) = Inr ()"
  using assms
  by (auto simp: replace_file_def fs_write_def fs_rename_def no_faults_def put_file_def bm_get_insert
      split: prod.splits sum.splits option.splits)

section \<open>A file that is never half written\<close>

locale atomic_cell =
  fixes usable :: "'w \<Rightarrow> bool"
    and mine :: "'w \<Rightarrow> bool"
    and val :: "'w \<Rightarrow> 'v"
    and put :: "'w \<Rightarrow> 'd \<Rightarrow> 'd \<times> ('e + unit)"
    and get :: "'d \<Rightarrow> 'v option"
  assumes put_done: "usable w \<Longrightarrow> mine w \<Longrightarrow> put w d = (d', r) \<Longrightarrow> is_ok r \<Longrightarrow> get d' = Some (val w)"
    and put_failed: "usable w \<Longrightarrow> mine w \<Longrightarrow> put w d = (d', r) \<Longrightarrow> \<not> is_ok r \<Longrightarrow> get d' = get d"
    and put_other: "usable w \<Longrightarrow> \<not> mine w \<Longrightarrow> put w d = (d', r) \<Longrightarrow> get d' = get d"
begin

fun puts :: "'w list \<Rightarrow> 'd \<Rightarrow> 'd" where
  "puts [] d = d"
| "puts (w # ws) d = puts ws (fst (put w d))"

text \<open>After any run of writes to this cell and others, some failing, it holds one of its values whole.\<close>

lemma whole:
  "\<forall>w \<in> set ws. usable w \<Longrightarrow> get (puts ws d) \<in> insert (get d) ((\<lambda>w. Some (val w)) ` {w \<in> set ws. mine w})"
proof (induction ws arbitrary: d)
  case (Cons w ws)
  obtain d' r where p: "put w d = (d', r)" by (cases "put w d")
  then have "mine w \<and> get d' = Some (val w) \<or> get d' = get d"
    using put_done put_failed put_other Cons.prems by (cases "mine w"; cases "is_ok r") auto
  then show ?case using Cons.IH [of d'] Cons.prems p by auto
qed simp

lemma fold_puts: "fold (\<lambda>w d. fst (put w d)) ws d = puts ws d"
  by (induction ws arbitrary: d) auto

end

section \<open>Sessions\<close>

datatype session_error =
    SessionIo string file_path io_error
  | SessionMalformed file_path string

fun show_session_error :: "session_error \<Rightarrow> string" where
  "show_session_error (SessionIo act p e) =
     act @ '' '' @ show_file_path p @ '': '' @ show_io_error e"
| "show_session_error (SessionMalformed p e) = ''reading '' @ show_file_path p @ '': '' @ e"

record session =
  ss_id :: session_id
  ss_uid :: nat
  ss_username :: string
  ss_candidate :: config_tree
  ss_base :: nat

definition session_new :: "session_id \<Rightarrow> actor \<Rightarrow> config_tree \<Rightarrow> nat \<Rightarrow> session" where
  "session_new i a running generation = \<lparr>ss_id = i, ss_uid = a_uid a, ss_username = a_username a,
     ss_candidate = running, ss_base = generation\<rparr>"

definition owned_by :: "session \<Rightarrow> actor \<Rightarrow> bool" where
  "owned_by s a \<longleftrightarrow> ss_uid s = a_uid a"

definition store_prepare :: "'b io \<Rightarrow> paths \<Rightarrow> session_error + unit" where
  "store_prepare io ps =
     map_err (SessionIo ''creating'' (sessions_dir ps)) (create_dir_all io (sessions_dir ps))"

definition store_save ::
  "'b io \<Rightarrow> (session, 'b) codec \<Rightarrow> paths \<Rightarrow> session \<Rightarrow> 'b disk \<Rightarrow> 'b disk \<times> (session_error + unit)" where
  "store_save io c ps s d =
     (let final = session_file ps (ss_id s); tmp = with_extension final ''json.new''
      in case replace_file io tmp final (Data (enc c s)) d of
           (d', Inl (renaming, e)) \<Rightarrow>
             (d', Inl (SessionIo (if renaming then ''renaming'' else ''writing'') tmp e))
         | (d', Inr u) \<Rightarrow> (d', Inr ()))"

definition store_forget ::
  "'b io \<Rightarrow> paths \<Rightarrow> session_id \<Rightarrow> 'b disk \<Rightarrow> 'b disk \<times> (session_error + unit)" where
  "store_forget io ps i d =
     (let p = session_file ps i
      in case fs_remove io p d of
           (d', Inr u) \<Rightarrow> (d', Inr ())
         | (d', Inl NotFound) \<Rightarrow> (d', Inr ())
         | (d', Inl e) \<Rightarrow> (d', Inl (SessionIo ''removing'' p e)))"

text \<open>\<open>Deserialize for SessionId\<close> refuses anything but an identifier.\<close>

definition decode_session :: "(session, 'b) codec \<Rightarrow> 'b content \<Rightarrow> string + session" where
  "decode_session c x =
     (case x of
        Text s \<Rightarrow> Inl ''expected value''
      | Data b \<Rightarrow>
          (case dec c b of
             Inl e \<Rightarrow> Inl e
           | Inr s \<Rightarrow>
               (case session_id_parse (ss_id s) of
                  Some i \<Rightarrow> Inr s
                | None \<Rightarrow> Inl ''a session id is 16 lowercase hex digits'')))"

definition load_one ::
  "'b io \<Rightarrow> (session, 'b) codec \<Rightarrow> file_path \<Rightarrow> 'b disk \<Rightarrow> session_error + session" where
  "load_one io c p d =
     (case fs_read io p d of
        Inl e \<Rightarrow> Inl (SessionIo ''reading'' p e)
      | Inr x \<Rightarrow> map_err (SessionMalformed p) (decode_session c x))"

fun load_names ::
  "'b io \<Rightarrow> (session, 'b) codec \<Rightarrow> file_path \<Rightarrow> 'b disk \<Rightarrow> string list \<Rightarrow>
     (session_id \<times> session) list \<Rightarrow> (session_id \<times> session) list \<times> session_error list" where
  "load_names io c dir d [] found = (found, [])"
| "load_names io c dir d (name # names) found =
     (if file_extension name \<noteq> Some ''json'' then load_names io c dir d names found
      else case load_one io c (dir @ [name]) d of
             Inr s \<Rightarrow> load_names io c dir d names (bm_insert (ss_id s) s found)
           | Inl e \<Rightarrow>
               (case load_names io c dir d names found of (m, es) \<Rightarrow> (m, e # es)))"

definition store_load_all ::
  "'b io \<Rightarrow> (session, 'b) codec \<Rightarrow> paths \<Rightarrow> 'b disk \<Rightarrow>
     session_error + (session_id \<times> session) list \<times> session_error list" where
  "store_load_all io c ps d =
     (case fs_read_dir io (sessions_dir ps) d of
        Inl NotFound \<Rightarrow> Inr ([], [])
      | Inl e \<Rightarrow> Inl (SessionIo ''reading'' (sessions_dir ps) e)
      | Inr names \<Rightarrow> Inr (load_names io c (sessions_dir ps) d names []))"

section \<open>What the store keeps\<close>

lemma session_path:
  assumes "valid_id i"
  shows "session_file ps i = sessions_dir ps @ [i @ ''.json'']"
    and "with_extension (sessions_dir ps @ [i @ ''.json'']) ''json.new'' = sessions_dir ps @ [i @ ''.json.new'']"
proof -
  note v = valid_id_name [OF assms]
  have "i @ ''.json'' \<noteq> ''.''" using v(3) by (cases i) auto
  then show p: "session_file ps i = sessions_dir ps @ [i @ ''.json'']"
    using v by (simp add: session_file_def path_join_name)
  show "with_extension (sessions_dir ps @ [i @ ''.json'']) ''json.new'' = sessions_dir ps @ [i @ ''.json.new'']"
    using v(3) with_extension_ext [of "''json''" i "sessions_dir ps" "''json.new''"] by simp
qed

definition stored_session :: "(session, 'b) codec \<Rightarrow> paths \<Rightarrow> session_id \<Rightarrow> 'b disk \<Rightarrow> session option" where
  "stored_session c ps i d =
     (case data_at d (session_file ps i) of
        None \<Rightarrow> None
      | Some x \<Rightarrow> (case decode_session c x of Inr s \<Rightarrow> Some s | Inl e \<Rightarrow> None))"


lemma valid_not_tmp: "valid_id i \<Longrightarrow> with_extension (session_file ps i) ''json.new'' \<noteq> session_file ps i"
  by (simp add: session_path)

lemma decode_enc: "codec_ok c \<Longrightarrow> valid_id (ss_id s) \<Longrightarrow> decode_session c (Data (enc c s)) = Inr s"
  by (simp add: decode_session_def session_id_parse_iff split: option.splits)

lemma store_save_replaces:
  assumes "store_save io c ps s d = (d', r)"
  obtains r' where "replace_file io (with_extension (session_file ps (ss_id s)) ''json.new'')
      (session_file ps (ss_id s)) (Data (enc c s)) d = (d', r')" "is_ok r' = is_ok r"
  using assms by (auto simp: store_save_def Let_def split: prod.splits sum.splits)

lemma store_save_effect:
  assumes "store_save io c ps s d = (d', r)" and "valid_id (ss_id s)" and "codec_ok c"
  shows "is_ok r \<Longrightarrow> stored_session c ps (ss_id s) d' = Some s"
    and "\<not> is_ok r \<Longrightarrow> stored_session c ps (ss_id s) d' = stored_session c ps (ss_id s) d"
    and "p \<notin> {sessions_dir ps @ [ss_id s @ ''.json''], sessions_dir ps @ [ss_id s @ ''.json.new'']} \<Longrightarrow>
      data_at d' p = data_at d p"
proof -
  obtain r' where r': "replace_file io (with_extension (session_file ps (ss_id s)) ''json.new'')
      (session_file ps (ss_id s)) (Data (enc c s)) d = (d', r')" "is_ok r' = is_ok r"
    by (rule store_save_replaces [OF assms(1)])
  note e = replace_file_effect [OF r'(1) valid_not_tmp [OF assms(2)]]
  show "is_ok r \<Longrightarrow> stored_session c ps (ss_id s) d' = Some s"
    using e(2) r'(2) decode_enc [OF assms(3,2)] by (simp add: stored_session_def)
  show "\<not> is_ok r \<Longrightarrow> stored_session c ps (ss_id s) d' = stored_session c ps (ss_id s) d"
    using e(3) r'(2) by (simp add: stored_session_def)
  show "p \<notin> {sessions_dir ps @ [ss_id s @ ''.json''], sessions_dir ps @ [ss_id s @ ''.json.new'']} \<Longrightarrow>
      data_at d' p = data_at d p"
    using e(1) by (simp add: session_path [OF assms(2)])
qed

lemma temporary_extension: "file_extension (i @ ''.json.new'') = Some ''new''"
  using file_extension_ext [of "''new''" "i @ ''.json''"] by simp

lemma names_apart:
  assumes "valid_id i" and "valid_id j" and "i \<noteq> j"
  shows "session_file ps j \<notin> {sessions_dir ps @ [i @ ''.json''], sessions_dir ps @ [i @ ''.json.new'']}"
proof -
  have "j @ ''.json'' \<noteq> i @ ''.json.new''"
    using temporary_extension [of i] file_extension_ext [of "''json''" j] valid_id_name(3) [OF assms(2)] by auto
  then show ?thesis using assms by (simp add: session_path)
qed

text \<open>The file of a session is a cell among those of the others: its saves are the ones that are its own.\<close>

interpretation session_cell: atomic_cell
  "\<lambda>(io, s). valid_id i \<and> valid_id (ss_id s)" "\<lambda>(io, s). ss_id s = i" "\<lambda>(io, s). Data (enc c s)"
  "\<lambda>(io, s). store_save io c ps s" "\<lambda>d. data_at d (session_file ps i)" for c ps i
proof (unfold_locales, goal_cases)
  case (1 w d d' r)
  obtain io s where w: "w = (io, s)" by fastforce
  obtain r' where "replace_file io (with_extension (session_file ps (ss_id s)) ''json.new'')
      (session_file ps (ss_id s)) (Data (enc c s)) d = (d', r')" "is_ok r' = is_ok r"
    using 1(3) unfolding w by (auto elim: store_save_replaces)
  then show ?case using replace_file_effect(2) [OF _ valid_not_tmp] 1(1,2,4) w by auto
next
  case (2 w d d' r)
  obtain io s where w: "w = (io, s)" by fastforce
  obtain r' where "replace_file io (with_extension (session_file ps (ss_id s)) ''json.new'')
      (session_file ps (ss_id s)) (Data (enc c s)) d = (d', r')" "is_ok r' = is_ok r"
    using 2(3) unfolding w by (auto elim: store_save_replaces)
  then show ?case using replace_file_effect(3) [OF _ valid_not_tmp] 2(1,2,4) w by auto
next
  case (3 w d d' r)
  obtain io s where w: "w = (io, s)" by fastforce
  have v: "valid_id (ss_id s)" "valid_id i" "ss_id s \<noteq> i" and st: "store_save io c ps s d = (d', r)"
    using 3 w by auto
  obtain r' where r': "replace_file io (with_extension (session_file ps (ss_id s)) ''json.new'')
      (session_file ps (ss_id s)) (Data (enc c s)) d = (d', r')" "is_ok r' = is_ok r"
    by (rule store_save_replaces [OF st])
  show ?case
    using replace_file_effect(1) [OF r'(1) valid_not_tmp [OF v(1)], of "session_file ps i"] names_apart [OF v, of ps]
    by (simp add: session_path [OF v(1)])
qed

text \<open>
  C19. No candidate on disk is ever torn. Take any run of saves, of any sessions in any order, where
  whatever writes fail on the way and leave behind whatever they like: every session's file holds
  one of the candidates that were saved for that session, byte for byte, or what it held to begin
  with, and the store reads it back as that session.
\<close>

theorem candidates_never_torn:
  assumes "codec_ok c" and "\<forall>(io, s) \<in> set saves. valid_id (ss_id s)" and "valid_id i"
    and "d' = fold (\<lambda>(io, s) d. fst (store_save io c ps s d)) saves d"
  shows "data_at d' (session_file ps i) = data_at d (session_file ps i) \<and>
      stored_session c ps i d' = stored_session c ps i d \<or>
    (\<exists>(io, s) \<in> set saves. ss_id s = i \<and> data_at d' (session_file ps i) = Some (Data (enc c s)) \<and>
      stored_session c ps i d' = Some s)"
proof -
  have "\<forall>w \<in> set saves. case w of (io, s) \<Rightarrow> valid_id i \<and> valid_id (ss_id s)"
    using assms(2,3) by blast
  from session_cell.whole [OF this, of c ps d]
  have "data_at d' (session_file ps i) = data_at d (session_file ps i) \<or>
      (\<exists>(io, s) \<in> set saves. ss_id s = i \<and> data_at d' (session_file ps i) = Some (Data (enc c s)))"
    unfolding session_cell.fold_puts [symmetric] assms(4) by (auto simp: case_prod_beta')
  then show ?thesis
    using decode_enc [OF assms(1)] assms(3) by (fastforce simp: stored_session_def)
qed

definition id_codec :: "('a, 'a) codec" where
  "id_codec = \<lparr>enc = (\<lambda>x. x), dec = Inr\<rparr>"

definition broken_io :: "'b content \<Rightarrow> 'b io" where
  "broken_io junk = \<lparr>fails = (\<lambda>x. Some ''No space left on device (os error 28)''),
     debris = (\<lambda>p. Some junk), new_mode = 420, dir_order = rev\<rparr>"

definition fine_io :: "'b io" where
  "fine_io = \<lparr>fails = (\<lambda>x. None), debris = (\<lambda>p. None), new_mode = 420, dir_order = rev\<rparr>"

lemma id_codec_ok [simp]: "codec_ok id_codec"
  by (simp add: codec_ok_def id_codec_def)

definition sample_id :: session_id where
  "sample_id = ''0123456789abcdef''"

definition sample_session :: session where
  "sample_session = \<lparr>ss_id = sample_id, ss_uid = 1000, ss_username = ''ana'',
     ss_candidate = tree_new, ss_base = 3\<rparr>"

lemma sample_valid [simp]: "valid_id sample_id"
  by code_simp

theorem candidates_never_torn_witness:
  "\<exists>s \<in> {sample_session, sample_session\<lparr>ss_base := 4\<rparr>}. stored_session id_codec paths_system sample_id
     (fold (\<lambda>(io, s) d. fst (store_save io id_codec paths_system s d))
       [(broken_io (Text ''half''), sample_session\<lparr>ss_base := 4\<rparr>),
        (fine_io, sample_session\<lparr>ss_id := ''fedcba9876543210''\<rparr>)]
       (fst (store_save fine_io id_codec paths_system sample_session []))) = Some s"
proof -
  let ?other = "sample_session\<lparr>ss_id := ''fedcba9876543210''\<rparr>"
  let ?saves = "[(broken_io (Text ''half''), sample_session\<lparr>ss_base := 4\<rparr>), (fine_io, ?other)]"
  let ?d = "fst (store_save fine_io id_codec paths_system sample_session [])"
  have "valid_id ''fedcba9876543210''" by code_simp
  then have v: "\<forall>(io, s) \<in> set ?saves. valid_id (ss_id s)" by (simp add: sample_session_def)
  have "stored_session id_codec paths_system sample_id ?d = Some sample_session" by code_simp
  with candidates_never_torn [OF id_codec_ok v sample_valid refl, of paths_system ?d]
  show ?thesis by (auto simp: sample_session_def sample_id_def)
qed

section \<open>Recovery\<close>

lemma load_names_get:
  assumes "\<And>n s. file_extension n = Some ''json'' \<Longrightarrow> load_one io c (dir @ [n]) d = Inr s \<Longrightarrow> n = ss_id s @ ''.json''"
  shows "bm_get (fst (load_names io c dir d names found)) i =
    (if i @ ''.json'' \<in> set names \<and> file_extension (i @ ''.json'') = Some ''json''
     then case load_one io c (dir @ [i @ ''.json'']) d of Inr s \<Rightarrow> Some s | Inl e \<Rightarrow> bm_get found i
     else bm_get found i)"
proof (induction names arbitrary: found)
  case (Cons n names)
  show ?case
  proof (cases "file_extension n = Some ''json''")
    case False
    then show ?thesis using Cons.IH by auto
  next
    case json: True
    show ?thesis
    proof (cases "load_one io c (dir @ [n]) d")
      case (Inl e)
      then have "fst (load_names io c dir d (n # names) found) = fst (load_names io c dir d names found)"
        using json by (simp split: prod.splits)
      then show ?thesis using Cons.IH [of found] Inl by auto
    next
      case (Inr s)
      then have n: "n = ss_id s @ ''.json''" using json assms by blast
      have "fst (load_names io c dir d (n # names) found) =
          fst (load_names io c dir d names (bm_insert (ss_id s) s found))"
        using json Inr by simp
      then show ?thesis
        using Inr json n Cons.IH [of "bm_insert (ss_id s) s found"]
        by (cases "i = ss_id s") (auto simp: bm_get_insert split: sum.split)
    qed
  qed
qed simp

lemma load_one_valid: "load_one io c p d = Inr s \<Longrightarrow> valid_id (ss_id s)"
  by (auto simp: load_one_def decode_session_def session_id_parse_iff
      split: sum.splits content.splits option.splits)

lemma load_names_keyed:
  "(\<And>i ss. bm_get found i = Some ss \<Longrightarrow> ss_id ss = i \<and> valid_id i) \<Longrightarrow>
   bm_get (fst (load_names io c dir d names found)) i = Some ss \<Longrightarrow> ss_id ss = i \<and> valid_id i"
proof (induction names arbitrary: found)
  case (Cons n names)
  show ?case
  proof (cases "file_extension n = Some ''json''")
    case json: True
    show ?thesis
    proof (cases "load_one io c (dir @ [n]) d")
      case (Inl e)
      then show ?thesis using Cons.IH [OF Cons.prems(1)] Cons.prems(2) json by (simp split: prod.splits)
    next
      case (Inr s)
      have k: "ss_id ss' = j \<and> valid_id j" if "bm_get (bm_insert (ss_id s) s found) j = Some ss'" for j ss'
        using that Cons.prems(1) load_one_valid [OF Inr] by (auto simp: bm_get_insert split: if_splits)
      show ?thesis by (rule Cons.IH [OF k]) (use Cons.prems(2) Inr json in simp_all)
    qed
  next
    case False
    show ?thesis by (rule Cons.IH [OF Cons.prems(1)]) (use Cons.prems(2) False in simp_all)
  qed
qed simp

lemma load_all_found:
  assumes "bm_ok d" and "lists_all io" and "fails io (ReadDir (sessions_dir ps)) = None"
    and named: "\<And>n s. file_extension n = Some ''json'' \<Longrightarrow> load_one io c (sessions_dir ps @ [n]) d = Inr s \<Longrightarrow>
      n = ss_id s @ ''.json''"
  shows "\<exists>found problems. store_load_all io c ps d = Inr (found, problems) \<and>
    (\<forall>i ss. bm_get found i = Some ss \<longrightarrow> ss_id ss = i \<and> valid_id i) \<and>
    (\<forall>i. valid_id i \<longrightarrow>
       bm_get found i = (case load_one io c (session_file ps i) d of Inr s \<Rightarrow> Some s | Inl e \<Rightarrow> None))"
proof -
  let ?names = "dir_order io (names_in (sessions_dir ps) d)"
  obtain found problems where l: "load_names io c (sessions_dir ps) d ?names [] = (found, problems)"
    by (cases "load_names io c (sessions_dir ps) d ?names []")
  have "mset ?names = mset (names_in (sessions_dir ps) d)" using assms(2) by (simp add: lists_all_def)
  then have set_names: "set ?names = set (names_in (sessions_dir ps) d)" by (rule mset_eq_setD)
  have "bm_get found i = (case load_one io c (session_file ps i) d of Inr s \<Rightarrow> Some s | Inl e \<Rightarrow> None)"
    if v: "valid_id i" for i
  proof -
    have e: "file_extension (i @ ''.json'') = Some ''json''"
      using valid_id_name(3) [OF v] file_extension_ext [of "''json''" i] by simp
    have absent: "i @ ''.json'' \<notin> set ?names \<Longrightarrow> \<exists>e. load_one io c (session_file ps i) d = Inl e"
      using names_in_mem [OF assms(1)]
      by (auto simp: set_names session_path(1) [OF v] load_one_def fs_read_def split: option.splits)
    have "bm_get found i = (if i @ ''.json'' \<in> set ?names
        then case load_one io c (session_file ps i) d of Inr s \<Rightarrow> Some s | Inl e \<Rightarrow> None else None)"
      using load_names_get [of io c "sessions_dir ps" d ?names "[]" i] named l e
      by (simp add: session_path(1) [OF v] split: sum.split)
    then show ?thesis using absent by auto
  qed
  then have 1: "\<forall>i. valid_id i \<longrightarrow> bm_get found i =
      (case load_one io c (session_file ps i) d of Inr s \<Rightarrow> Some s | Inl e \<Rightarrow> None)" by blast
  have 2: "\<forall>i ss. bm_get found i = Some ss \<longrightarrow> ss_id ss = i \<and> valid_id i"
    using load_names_keyed [of "[]" io c "sessions_dir ps" d ?names] l by simp
  have 3: "store_load_all io c ps d = Inr (found, problems)"
    using l assms(3) by (simp add: store_load_all_def fs_read_dir_def)
  show ?thesis by (rule exI [of _ found], rule exI [of _ problems]) (intro conjI 1 2 3)
qed


text \<open>
  Starting up recovers every session that can be read, whatever the order the directory is
  listed in and whatever else is in it: for each identifier the session recovered is the one its
  file holds, and a file that cannot be read or decoded costs that session only.
\<close>

lemma load_all_exact:
  assumes "bm_ok d" and "lists_all io" and "fails io (ReadDir (sessions_dir ps)) = None"
    and named: "\<And>n s. load_one io c (sessions_dir ps @ [n]) d = Inr s \<Longrightarrow> n = ss_id s @ ''.json''"
  shows "\<exists>found problems. store_load_all io c ps d = Inr (found, problems) \<and>
    (\<forall>i. valid_id i \<longrightarrow>
       bm_get found i = (case load_one io c (session_file ps i) d of Inr s \<Rightarrow> Some s | Inl e \<Rightarrow> None))"
proof -
  have "\<And>n s. file_extension n = Some ''json'' \<Longrightarrow> load_one io c (sessions_dir ps @ [n]) d = Inr s \<Longrightarrow>
      n = ss_id s @ ''.json''" using named by blast
  from load_all_found [OF assms(1-3) this] show ?thesis by blast
qed


definition sample_disk :: "session disk" where
  "sample_disk =
     [(sessions_dir paths_system @ [sample_id @ ''.json''], \<lparr>f_data = Data sample_session, f_mode = 420\<rparr>),
      (sessions_dir paths_system @ [''torn.json''], \<lparr>f_data = Text ''half'', f_mode = 420\<rparr>)]"

end
