(* ===== verification/Confirm_Marker.thy ===== *)
theory Confirm_Marker
  imports Session_Store
begin

text \<open>
  \<open>src/nightshade-configd/src/confirm.rs\<close>: the record of a commit that waits to be confirmed and
  the marker file that carries it across a restart. The clock is a parameter, in Unix seconds.
\<close>

datatype confirm_error =
    ConfirmIo string file_path io_error
  | ConfirmMalformed string

fun show_confirm_error :: "confirm_error \<Rightarrow> string" where
  "show_confirm_error (ConfirmIo act p e) =
     act @ '' '' @ show_file_path p @ '': '' @ show_io_error e"
| "show_confirm_error (ConfirmMalformed e) = ''the pending-confirm marker is unreadable: '' @ e"

record pending =
  pd_deadline :: int
  pd_minutes :: nat
  pd_session :: session_id
  pd_actor_uid :: nat
  pd_actor :: string
  pd_comment :: "string option"
  pd_previous :: config_tree
  pd_previous_generation :: nat
  pd_committed :: config_tree
  pd_generation :: nat

definition remaining :: "int \<Rightarrow> pending \<Rightarrow> nat" where
  "remaining now p = nat (max (pd_deadline p - now) 0)"

definition expired :: "int \<Rightarrow> pending \<Rightarrow> bool" where
  "expired now p \<longleftrightarrow> remaining now p = 0"

definition deadline_in :: "int \<Rightarrow> nat \<Rightarrow> int" where
  "deadline_in now minutes = now + int minutes * 60"

definition marker_arm ::
  "'b io \<Rightarrow> (pending, 'b) codec \<Rightarrow> paths \<Rightarrow> pending \<Rightarrow> 'b disk \<Rightarrow> 'b disk \<times> (confirm_error + unit)" where
  "marker_arm io c ps p d =
     (let final = pending_confirm ps; tmp = with_extension final ''json.new''
      in case create_dir_all io (butlast final) of
           Inl e \<Rightarrow> (d, Inl (ConfirmIo ''creating'' (butlast final) e))
         | Inr u \<Rightarrow>
             (case replace_file io tmp final (Data (enc c p)) d of
                (d', Inl (renaming, e)) \<Rightarrow>
                  (d', Inl (if renaming then ConfirmIo ''renaming'' final e else ConfirmIo ''writing'' tmp e))
              | (d', Inr v) \<Rightarrow> (d', Inr ())))"

definition marker_disarm :: "'b io \<Rightarrow> paths \<Rightarrow> 'b disk \<Rightarrow> 'b disk \<times> (confirm_error + unit)" where
  "marker_disarm io ps d =
     (case fs_remove io (pending_confirm ps) d of
        (d', Inr u) \<Rightarrow> (d', Inr ())
      | (d', Inl NotFound) \<Rightarrow> (d', Inr ())
      | (d', Inl e) \<Rightarrow> (d', Inl (ConfirmIo ''removing'' (pending_confirm ps) e)))"

definition decode_content :: "('a, 'b) codec \<Rightarrow> 'b content \<Rightarrow> string + 'a" where
  "decode_content c x = (case x of Text s \<Rightarrow> Inl ''expected value'' | Data b \<Rightarrow> dec c b)"

text \<open>\<open>Deserialize\<close> of the marker passes through that of its session identifier.\<close>

definition decode_pending :: "(pending, 'b) codec \<Rightarrow> 'b content \<Rightarrow> string + pending" where
  "decode_pending c x =
     bind_result (decode_content c x) (\<lambda>p.
       case session_id_parse (pd_session p) of
         Some i \<Rightarrow> Inr p
       | None \<Rightarrow> Inl ''a session id is 16 lowercase hex digits'')"

definition marker_read ::
  "'b io \<Rightarrow> (pending, 'b) codec \<Rightarrow> paths \<Rightarrow> 'b disk \<Rightarrow> confirm_error + pending option" where
  "marker_read io c ps d =
     (case fs_read io (pending_confirm ps) d of
        Inl NotFound \<Rightarrow> Inr None
      | Inl e \<Rightarrow> Inl (ConfirmIo ''reading'' (pending_confirm ps) e)
      | Inr x \<Rightarrow> map_err ConfirmMalformed (map_sum id Some (decode_pending c x)))"

section \<open>The marker as a cell\<close>

definition stored_pending :: "(pending, 'b) codec \<Rightarrow> paths \<Rightarrow> 'b disk \<Rightarrow> pending option" where
  "stored_pending c ps d =
     (case data_at d (pending_confirm ps) of
        None \<Rightarrow> None
      | Some x \<Rightarrow> (case decode_pending c x of Inr p \<Rightarrow> Some p | Inl e \<Rightarrow> None))"

lemma pending_tmp:
  "with_extension (pending_confirm ps) ''json.new'' =
     paths_root ps @ [''run'', ''nightshade'', ''pending-confirm.json.new'']"
  using with_extension_ext [of "''json''" "''pending-confirm''" "paths_root ps @ [''run'', ''nightshade'']" "''json.new''"]
  by (simp add: fixed_paths)

lemma marker_arm_effect:
  assumes "marker_arm io c ps p d = (d', r)" and "codec_ok c" and "valid_id (pd_session p)"
  shows "is_ok r \<Longrightarrow> stored_pending c ps d' = Some p"
    and "\<not> is_ok r \<Longrightarrow> stored_pending c ps d' = stored_pending c ps d"
    and "q \<notin> {pending_confirm ps, with_extension (pending_confirm ps) ''json.new''} \<Longrightarrow>
      data_at d' q = data_at d q"
proof -
  let ?tmp = "with_extension (pending_confirm ps) ''json.new''"
  have ne: "?tmp \<noteq> pending_confirm ps" by (simp add: pending_tmp) (simp add: fixed_paths)
  have dec: "decode_pending c (Data (enc c p)) = Inr p"
    using assms(2,3) session_id_parse_iff [of "pd_session p" "pd_session p"]
    by (simp add: decode_pending_def decode_content_def)
  consider (undone) "d' = d" "\<not> is_ok r"
    | (written) r' where "replace_file io ?tmp (pending_confirm ps) (Data (enc c p)) d = (d', r')" "is_ok r' = is_ok r"
    using assms(1) by (auto simp: marker_arm_def Let_def split: sum.splits prod.splits)
  then have "(is_ok r \<longrightarrow> stored_pending c ps d' = Some p) \<and>
    (\<not> is_ok r \<longrightarrow> stored_pending c ps d' = stored_pending c ps d) \<and>
    (q \<notin> {pending_confirm ps, ?tmp} \<longrightarrow> data_at d' q = data_at d q)"
  proof cases
    case written
    note e = replace_file_effect [OF written(1) ne]
    show ?thesis using e(1) [of q] e(2,3) written(2) dec by (auto simp: stored_pending_def)
  qed simp
  then show "is_ok r \<Longrightarrow> stored_pending c ps d' = Some p"
    and "\<not> is_ok r \<Longrightarrow> stored_pending c ps d' = stored_pending c ps d"
    and "q \<notin> {pending_confirm ps, with_extension (pending_confirm ps) ''json.new''} \<Longrightarrow>
      data_at d' q = data_at d q" by blast+
qed

interpretation marker_cell: atomic_cell
  "\<lambda>(io, p). codec_ok c \<and> valid_id (pd_session p)" "\<lambda>_. True" snd
  "\<lambda>(io, p). marker_arm io c ps p" "stored_pending c ps" for c ps
  by unfold_locales (auto dest: marker_arm_effect(1,2))

lemma marker_read_stored:
  "no_faults io \<Longrightarrow> marker_read io c ps d = Inr (Some p) \<longleftrightarrow> stored_pending c ps d = Some p"
  by (auto simp: marker_read_def stored_pending_def data_at_def fs_read_def no_faults_def
      split: option.splits sum.splits)

lemma marker_disarm_effect:
  assumes "marker_disarm io ps d = (d', r)"
  shows "is_ok r \<Longrightarrow> data_at d' (pending_confirm ps) = None"
    and "\<not> is_ok r \<Longrightarrow> d' = d"
    and "q \<noteq> pending_confirm ps \<Longrightarrow> data_at d' q = data_at d q"
  using assms
  by (auto simp: marker_disarm_def fs_remove_def data_at_def bm_get_remove split: option.splits)

text \<open>
  C20. The marker survives the daemon. Whatever failed while markers were being written, what a
  daemon that starts with a readable disk finds is a marker that was armed, whole, or the one that
  was there before; and the time it finds left runs from the deadline, however long it was down.
\<close>

theorem marker_survives:
  assumes "codec_ok c" and "\<forall>(io, p) \<in> set arms. valid_id (pd_session p)" and "no_faults io'"
    and "marker_read io' c ps (fold (\<lambda>(io, p) d. fst (marker_arm io c ps p d)) arms d) = Inr (Some p)"
  shows "(p \<in> snd ` set arms \<or> stored_pending c ps d = Some p) \<and>
    (expired now p \<longleftrightarrow> pd_deadline p \<le> now) \<and>
    (\<not> expired now p \<longrightarrow> now + int (remaining now p) = pd_deadline p)"
proof -
  have "\<forall>w \<in> set arms. case w of (io, p) \<Rightarrow> codec_ok c \<and> valid_id (pd_session p)"
    using assms(1,2) by blast
  note w = marker_cell.whole [OF this, of ps d]
  moreover have "stored_pending c ps (fold (\<lambda>(io, p) d. fst (marker_arm io c ps p d)) arms d) = Some p"
    using assms(3,4) marker_read_stored by blast
  ultimately have "p \<in> snd ` set arms \<or> stored_pending c ps d = Some p"
    unfolding marker_cell.fold_puts [symmetric] by (auto simp: case_prod_beta')
  then show ?thesis by (auto simp: expired_def remaining_def)
qed

definition sample_pending :: pending where
  "sample_pending = \<lparr>pd_deadline = 1300, pd_minutes = 5, pd_session = sample_id, pd_actor_uid = 1000,
     pd_actor = ''ana'', pd_comment = None, pd_previous = tree_new, pd_previous_generation = 3,
     pd_committed = tree_new, pd_generation = 4\<rparr>"

theorem marker_survives_witness:
  "marker_read fine_io id_codec paths_system (fst (marker_arm fine_io id_codec paths_system sample_pending [])) =
     Inr (Some sample_pending) \<and> \<not> expired 1200 sample_pending \<and> 1200 + int (remaining 1200 sample_pending) = 1300"
proof -
  have f: "no_faults fine_io" by (simp add: no_faults_def fine_io_def)
  have v: "\<forall>(io, p) \<in> set [(fine_io :: pending io, sample_pending)]. valid_id (pd_session p)"
    by (simp add: sample_pending_def)
  have ok: "is_ok (snd (marker_arm fine_io id_codec paths_system sample_pending []))" by code_simp
  have "stored_pending id_codec paths_system (fst (marker_arm fine_io id_codec paths_system sample_pending [])) =
      Some sample_pending"
    by (rule marker_arm_effect(1) [OF prod.collapse [symmetric] id_codec_ok _ ok])
      (simp add: sample_pending_def)
  then have r: "marker_read fine_io id_codec paths_system
      (fold (\<lambda>(io, p) d. fst (marker_arm io id_codec paths_system p d)) [(fine_io, sample_pending)] []) =
      Inr (Some sample_pending)"
    using marker_read_stored [OF f, of id_codec paths_system _ sample_pending] by simp
  have "\<not> expired 1200 sample_pending" "pd_deadline sample_pending = 1300"
    by (simp_all add: expired_def remaining_def sample_pending_def)
  then show ?thesis
    using marker_survives [OF id_codec_ok v f r, of 1200] r by simp
qed

end
