(* ===== verification/Archive.thy ===== *)
theory Archive
  imports Confirm_Marker Curly_Roundtrip Schema_Model
begin

text \<open>
  \<open>src/nightshade-configd/src/archive.rs\<close>: every confirmed commit as a compressed configuration
  and a JSON sidecar, the listing, and the pruning. The gzip of \<open>flate2\<close> and the JSON of
  \<open>serde_json\<close> are codecs. The check of a revision read back against the schema only decides
  whether a warning is logged and is left out.
\<close>

definition KEEP :: nat where
  "KEEP = 50"

datatype archive_error =
    ArchiveIo string file_path io_error
  | NoSuchRevision nat
  | Damaged nat string

fun show_archive_error :: "archive_error \<Rightarrow> string" where
  "show_archive_error (ArchiveIo act p e) = act @ '' '' @ show_file_path p @ '': '' @ show_io_error e"
| "show_archive_error (NoSuchRevision r) = ''revision '' @ show_nat r @ '' is not in the archive''"
| "show_archive_error (Damaged r reason) = ''revision '' @ show_nat r @ '' is damaged: '' @ reason"

definition pad_zero :: "nat \<Rightarrow> string \<Rightarrow> string" where
  "pad_zero w s = replicate (w - length s) (CHR ''0'') @ s"

definition archive_stem :: "revision_info \<Rightarrow> string" where
  "archive_stem ent = pad_zero 6 (show_nat (ri_revision ent)) @ ''-'' @ ri_timestamp ent"

definition boot_path :: "file_path \<Rightarrow> revision_info \<Rightarrow> file_path" where
  "boot_path dir ent = path_join dir (archive_stem ent @ ''.boot.gz'')"

definition meta_path :: "file_path \<Rightarrow> revision_info \<Rightarrow> file_path" where
  "meta_path dir ent = path_join dir (archive_stem ent @ ''.meta.json'')"

fun list_names ::
  "'b io \<Rightarrow> (revision_info, 'b) codec \<Rightarrow> file_path \<Rightarrow> 'b disk \<Rightarrow> string list \<Rightarrow> revision_info list" where
  "list_names io mc dir d [] = []"
| "list_names io mc dir d (name # names) =
     (if \<not> ends_with name ''.meta.json'' then list_names io mc dir d names
      else case fs_read io (dir @ [name]) d of
             Inl e \<Rightarrow> list_names io mc dir d names
           | Inr x \<Rightarrow>
               (case decode_content mc x of
                  Inl e \<Rightarrow> list_names io mc dir d names
                | Inr ent \<Rightarrow> ent # list_names io mc dir d names))"

definition archive_list ::
  "'b io \<Rightarrow> (revision_info, 'b) codec \<Rightarrow> file_path \<Rightarrow> 'b disk \<Rightarrow> archive_error + revision_info list" where
  "archive_list io mc dir d =
     (case fs_read_dir io dir d of
        Inl NotFound \<Rightarrow> Inr []
      | Inl e \<Rightarrow> Inl (ArchiveIo ''reading'' dir e)
      | Inr names \<Rightarrow> Inr (sort_key (\<lambda>ent. - int (ri_revision ent)) (list_names io mc dir d names)))"

definition archive_read ::
  "'b io \<Rightarrow> (revision_info, 'b) codec \<Rightarrow> (string, 'b) codec \<Rightarrow> file_path \<Rightarrow> nat \<Rightarrow> 'b disk \<Rightarrow>
     archive_error + config_tree" where
  "archive_read io mc gz dir revision d =
     bind_result (archive_list io mc dir d) (\<lambda>ents.
       case find (\<lambda>ent. ri_revision ent = revision) ents of
         None \<Rightarrow> Inl (NoSuchRevision revision)
       | Some ent \<Rightarrow>
           (case fs_read io (boot_path dir ent) d of
              Inl e \<Rightarrow> Inl (ArchiveIo ''reading'' (boot_path dir ent) e)
            | Inr x \<Rightarrow>
                (case decode_content gz x of
                   Inl e \<Rightarrow> Inl (Damaged revision e)
                 | Inr src \<Rightarrow>
                     map_err (\<lambda>e. Damaged revision (show_parse_error e)) (parse src))))"

text \<open>One file of a pruned revision: a missing one is no failure.\<close>

definition prune_file :: "'b io \<Rightarrow> file_path \<Rightarrow> 'b disk \<Rightarrow> 'b disk \<times> (archive_error + unit)" where
  "prune_file io p d =
     (case fs_remove io p d of
        (d', Inr u) \<Rightarrow> (d', Inr ())
      | (d', Inl NotFound) \<Rightarrow> (d', Inr ())
      | (d', Inl e) \<Rightarrow> (d', Inl (ArchiveIo ''removing'' p e)))"

fun prune_each ::
  "'b io \<Rightarrow> file_path \<Rightarrow> revision_info list \<Rightarrow> nat \<Rightarrow> 'b disk \<Rightarrow> 'b disk \<times> (archive_error + nat)" where
  "prune_each io dir [] n d = (d, Inr n)"
| "prune_each io dir (ent # ents) n d =
     (case prune_file io (boot_path dir ent) d of
        (d1, Inl e) \<Rightarrow> (d1, Inl e)
      | (d1, Inr u) \<Rightarrow>
          (case prune_file io (meta_path dir ent) d1 of
             (d2, Inl e) \<Rightarrow> (d2, Inl e)
           | (d2, Inr v) \<Rightarrow> prune_each io dir ents (n + 1) d2))"

definition prune ::
  "'b io \<Rightarrow> (revision_info, 'b) codec \<Rightarrow> file_path \<Rightarrow> 'b disk \<Rightarrow> 'b disk \<times> (archive_error + nat)" where
  "prune io mc dir d =
     (case archive_list io mc dir d of
        Inl e \<Rightarrow> (d, Inl e)
      | Inr ents \<Rightarrow> prune_each io dir (drop KEEP ents) 0 d)"

definition archive_write ::
  "'b io \<Rightarrow> (revision_info, 'b) codec \<Rightarrow> (string, 'b) codec \<Rightarrow> file_path \<Rightarrow> schema \<Rightarrow>
     revision_info \<Rightarrow> config_tree \<Rightarrow> 'b disk \<Rightarrow> 'b disk \<times> (archive_error + unit)" where
  "archive_write io mc gz dir sc ent config d =
     (case create_dir_all io dir of
        Inl e \<Rightarrow> (d, Inl (ArchiveIo ''creating'' dir e))
      | Inr u \<Rightarrow>
          (case fs_write io (boot_path dir ent) (Data (enc gz (render (is_tag_node sc) config))) d of
             (d1, Inl e) \<Rightarrow> (d1, Inl (ArchiveIo ''writing'' (boot_path dir ent) e))
           | (d1, Inr v) \<Rightarrow>
               (case fs_write io (meta_path dir ent) (Data (enc mc ent)) d1 of
                  (d2, Inl e) \<Rightarrow> (d2, Inl (ArchiveIo ''writing'' (meta_path dir ent) e))
                | (d2, Inr w) \<Rightarrow>
                    (case prune io mc dir d2 of
                       (d3, Inl e) \<Rightarrow> (d3, Inl e)
                     | (d3, Inr n) \<Rightarrow> (d3, Inr ())))))"

text \<open>\<open>stamp\<close>: the date and time of \<open>jiff\<close>, in UTC, as the parts the format takes.\<close>

record civil =
  cv_year :: nat
  cv_month :: nat
  cv_day :: nat
  cv_hour :: nat
  cv_minute :: nat
  cv_second :: nat

definition stamp :: "civil \<Rightarrow> string" where
  "stamp t = pad_zero 4 (show_nat (cv_year t)) @ pad_zero 2 (show_nat (cv_month t)) @
     pad_zero 2 (show_nat (cv_day t)) @ ''T'' @ pad_zero 2 (show_nat (cv_hour t)) @
     pad_zero 2 (show_nat (cv_minute t)) @ pad_zero 2 (show_nat (cv_second t)) @ ''Z''"

section \<open>What is in the archive\<close>

definition stored_infos :: "(revision_info, 'b) codec \<Rightarrow> file_path \<Rightarrow> 'b disk \<Rightarrow> revision_info set" where
  "stored_infos mc dir d = {ent. \<exists>n x. data_at d (dir @ [n]) = Some x \<and> ends_with n ''.meta.json'' \<and>
     decode_content mc x = Inr ent}"

text \<open>Every sidecar is named after what it says, as \<open>archive_write\<close> names it.\<close>

definition well_named :: "(revision_info, 'b) codec \<Rightarrow> file_path \<Rightarrow> 'b disk \<Rightarrow> bool" where
  "well_named mc dir d \<longleftrightarrow> bm_ok d \<and>
     (\<forall>n x ent. data_at d (dir @ [n]) = Some x \<and> ends_with n ''.meta.json'' \<and>
        decode_content mc x = Inr ent \<longrightarrow>
        n = archive_stem ent @ ''.meta.json'' \<and> CHR ''/'' \<notin> set (ri_timestamp ent))"

lemma archive_paths:
  assumes "CHR ''/'' \<notin> set (ri_timestamp ent)"
  shows "boot_path dir ent = dir @ [archive_stem ent @ ''.boot.gz'']"
    and "meta_path dir ent = dir @ [archive_stem ent @ ''.meta.json'']"
proof -
  have "CHR ''/'' \<notin> set (archive_stem ent)"
    using assms show_nat_digits [of "CHR ''/''" "ri_revision ent"]
    by (auto simp: archive_stem_def pad_zero_def is_ascii_digit_def code_def)
  moreover have "archive_stem ent \<noteq> []" by (simp add: archive_stem_def)
  ultimately show "boot_path dir ent = dir @ [archive_stem ent @ ''.boot.gz'']"
    and "meta_path dir ent = dir @ [archive_stem ent @ ''.meta.json'']"
    by (cases "archive_stem ent"; simp add: boot_path_def meta_path_def path_join_name)+
qed

lemma list_names_in:
  "set (list_names io mc dir d names) =
     {ent. \<exists>n \<in> set names. ends_with n ''.meta.json'' \<and>
        (\<exists>x. fs_read io (dir @ [n]) d = Inr x \<and> decode_content mc x = Inr ent)}"
  by (induction names) (auto split: sum.splits)

lemma list_names_distinct:
  assumes "\<And>n x ent. ends_with n ''.meta.json'' \<Longrightarrow> fs_read io (dir @ [n]) d = Inr x \<Longrightarrow>
      decode_content mc x = Inr ent \<Longrightarrow> n = archive_stem ent @ ''.meta.json''"
    and "distinct names"
  shows "distinct (list_names io mc dir d names)"
  using assms(2)
proof (induction names)
  case (Cons n names)
  have "ent \<notin> set (list_names io mc dir d names)"
    if "ends_with n ''.meta.json''" "fs_read io (dir @ [n]) d = Inr x" "decode_content mc x = Inr ent" for x ent
  proof
    assume "ent \<in> set (list_names io mc dir d names)"
    then obtain n' x' where "n' \<in> set names" "ends_with n' ''.meta.json''" "fs_read io (dir @ [n']) d = Inr x'"
      "decode_content mc x' = Inr ent"
      by (auto simp: list_names_in)
    then have "n = n'" using assms(1) that by blast
    then show False using \<open>n' \<in> set names\<close> Cons.prems by simp
  qed
  then show ?case using Cons by (auto split: sum.split)
qed simp

lemma fs_read_data: "no_faults io \<Longrightarrow> fs_read io p d = Inr x \<longleftrightarrow> data_at d p = Some x"
  by (auto simp: fs_read_def data_at_def no_faults_def split: option.splits)

lemma archive_list_stored:
  assumes io: "no_faults io" "lists_all io" and d: "well_named mc dir d"
  obtains L where "archive_list io mc dir d = Inr L" and "set L = stored_infos mc dir d" and "distinct L"
    and "sorted (map (\<lambda>ent. - int (ri_revision ent)) L)"
proof -
  let ?names = "dir_order io (names_in dir d)"
  let ?L = "sort_key (\<lambda>ent. - int (ri_revision ent)) (list_names io mc dir d ?names)"
  have "mset ?names = mset (names_in dir d)" using io(2) by (simp add: lists_all_def)
  then have names: "set ?names = set (names_in dir d)" "distinct ?names"
    using names_in_distinct [of d dir] d mset_eq_setD mset_eq_imp_distinct_iff
    by (blast, auto simp: well_named_def dest: mset_eq_imp_distinct_iff)
  have "archive_list io mc dir d = Inr ?L"
    using io(1) by (simp add: archive_list_def fs_read_dir_def no_faults_def)
  moreover have "set ?L = stored_infos mc dir d"
    using d names_in_mem [of d]
    by (fastforce simp: list_names_in names(1) stored_infos_def fs_read_data [OF io(1)] well_named_def data_at_def)
  moreover have "distinct (list_names io mc dir d ?names)"
    using d by (intro list_names_distinct names(2)) (auto simp: fs_read_data [OF io(1)] well_named_def)
  ultimately show thesis using that by simp
qed

lemma prune_file_effect:
  assumes "no_faults io" and "bm_ok d"
  shows "\<exists>d'. prune_file io p d = (d', Inr ()) \<and> bm_ok d' \<and>
    (\<forall>q. data_at d' q = (if q = p then None else data_at d q))"
  using assms
  by (auto simp: prune_file_def fs_remove_def no_faults_def data_at_def bm_get_remove bm_ok_remove
      split: option.splits)

lemma prune_each_effect:
  assumes "no_faults io" and "bm_ok d"
  shows "\<exists>d' k. prune_each io dir ents n d = (d', Inr k) \<and> bm_ok d' \<and>
    (\<forall>q. data_at d' q =
       (if \<exists>ent \<in> set ents. q = boot_path dir ent \<or> q = meta_path dir ent then None else data_at d q))"
  using assms(2)
proof (induction ents arbitrary: n d)
  case (Cons ent ents)
  obtain d1 where d1: "prune_file io (boot_path dir ent) d = (d1, Inr ())" "bm_ok d1"
    "\<And>q. data_at d1 q = (if q = boot_path dir ent then None else data_at d q)"
    using prune_file_effect [OF assms(1) Cons.prems] by blast
  obtain d2 where d2: "prune_file io (meta_path dir ent) d1 = (d2, Inr ())" "bm_ok d2"
    "\<And>q. data_at d2 q = (if q = meta_path dir ent then None else data_at d1 q)"
    using prune_file_effect [OF assms(1) d1(2)] by blast
  obtain d' k where "prune_each io dir ents (n + 1) d2 = (d', Inr k)" "bm_ok d'"
    "\<And>q. data_at d' q =
       (if \<exists>ent \<in> set ents. q = boot_path dir ent \<or> q = meta_path dir ent then None else data_at d2 q)"
    using Cons.IH [OF d2(2)] by blast
  then show ?case using d1 d2 by auto
qed simp

lemma digits_value_zeros: "digits_value 0 (replicate k (CHR ''0'') @ s) = digits_value 0 s"
  by (induction k) (auto simp: code_def)

lemma archive_stem_revision:
  assumes "archive_stem a = archive_stem b"
  shows "ri_revision a = ri_revision b"
proof -
  have no_dash: "CHR ''-'' \<notin> set (pad_zero 6 (show_nat n))" for n
    using show_nat_digits [of "CHR ''-''" n] by (auto simp: pad_zero_def is_ascii_digit_def code_def)
  have cut: "takeWhile (\<lambda>c. c \<noteq> CHR ''-'') (archive_stem x) = pad_zero 6 (show_nat (ri_revision x))" for x
  proof -
    have "\<And>c. c \<in> set (pad_zero 6 (show_nat (ri_revision x))) \<Longrightarrow> c \<noteq> CHR ''-''"
      using no_dash [of "ri_revision x"] by blast
    then show ?thesis unfolding archive_stem_def by (subst takeWhile_append2) simp_all
  qed
  have "pad_zero 6 (show_nat (ri_revision a)) = pad_zero 6 (show_nat (ri_revision b))"
    using cut [of a] cut [of b] assms by simp
  then have "digits_value 0 (pad_zero 6 (show_nat (ri_revision a))) =
      digits_value 0 (pad_zero 6 (show_nat (ri_revision b)))" by simp
  then show ?thesis by (simp add: pad_zero_def digits_value_zeros digits_value_show_nat)
qed

lemma meta_not_boot: "ends_with n ''.meta.json'' \<Longrightarrow> n \<noteq> archive_stem ent @ ''.boot.gz''"
  by (auto simp: ends_with_def starts_with_iff append_eq_append_conv2)

lemma find_key: "inj_on f (set xs) \<Longrightarrow> x \<in> set xs \<Longrightarrow> find (\<lambda>y. f y = f x) xs = Some x"
  by (induction xs) (auto simp: inj_on_def)

lemma same_order:
  assumes "inj_on f S" and "set xs = S" "distinct xs" "sorted (map f xs)"
    and "set ys = S" "distinct ys" "sorted (map f ys)"
  shows "xs = ys"
  using assms by (intro map_sorted_distinct_set_unique [of f xs ys]) (simp_all add: distinct_map)

lemma data_at_write: "no_faults io \<Longrightarrow> fs_write io p c d = (put_file io p c d, Inr ())"
  by (simp add: fs_write_def no_faults_def)

lemma bm_ok_put: "bm_ok d \<Longrightarrow> bm_ok (put_file io p c d)"
  by (simp add: put_file_def bm_ok_insert)

definition written_revision ::
  "'b io \<Rightarrow> (revision_info, 'b) codec \<Rightarrow> (string, 'b) codec \<Rightarrow> file_path \<Rightarrow> schema \<Rightarrow>
     revision_info \<Rightarrow> config_tree \<Rightarrow> 'b disk \<Rightarrow> 'b disk" where
  "written_revision io mc gz dir sc ent config d =
     put_file io (meta_path dir ent) (Data (enc mc ent))
       (put_file io (boot_path dir ent) (Data (enc gz (render (is_tag_node sc) config))) d)"

lemma written_revision_stored:
  assumes "codec_ok mc" and d: "well_named mc dir d" and plain: "CHR ''/'' \<notin> set (ri_timestamp ent)"
    and fresh: "ri_revision ent \<notin> ri_revision ` stored_infos mc dir d"
  shows "well_named mc dir (written_revision io mc gz dir sc ent config d)"
    and "stored_infos mc dir (written_revision io mc gz dir sc ent config d) = insert ent (stored_infos mc dir d)"
proof -
  let ?d = "written_revision io mc gz dir sc ent config d"
  note p = archive_paths [OF plain, of dir]
  have at: "data_at ?d (dir @ [n]) = Some x \<and> ends_with n ''.meta.json'' \<and> decode_content mc x = Inr i \<longleftrightarrow>
      n = archive_stem ent @ ''.meta.json'' \<and> x = Data (enc mc ent) \<and> i = ent \<or>
      n \<noteq> archive_stem ent @ ''.meta.json'' \<and>
      data_at d (dir @ [n]) = Some x \<and> ends_with n ''.meta.json'' \<and> decode_content mc x = Inr i" for n x i
  proof (cases "n = archive_stem ent @ ''.meta.json''")
    case True
    have "ends_with (archive_stem ent @ ''.meta.json'') ''.meta.json''"
      by (simp add: ends_with_def starts_with_iff)
    then show ?thesis using True assms(1)
      by (auto simp: written_revision_def data_at_put p decode_content_def)
  next
    case False
    then show ?thesis using meta_not_boot [of n ent]
      by (auto simp: written_revision_def data_at_put p)
  qed
  have stays: "n \<noteq> archive_stem ent @ ''.meta.json''"
    if "data_at d (dir @ [n]) = Some x" "ends_with n ''.meta.json''" "decode_content mc x = Inr i" for n x i
  proof
    assume "n = archive_stem ent @ ''.meta.json''"
    moreover have "n = archive_stem i @ ''.meta.json''" using d that unfolding well_named_def by blast
    ultimately have "archive_stem i = archive_stem ent" by simp
    then have "ri_revision i = ri_revision ent" by (rule archive_stem_revision)
    moreover have "i \<in> stored_infos mc dir d" using that by (auto simp: stored_infos_def)
    ultimately show False using fresh by (metis image_eqI)
  qed
  show "well_named mc dir ?d"
    unfolding well_named_def at
    using d plain by (auto simp: well_named_def written_revision_def intro!: bm_ok_put)
  show "stored_infos mc dir ?d = insert ent (stored_infos mc dir d)"
    unfolding stored_infos_def at using stays by blast
qed

lemma ends_meta: "ends_with (s @ ''.meta.json'') ''.meta.json''"
  by (simp add: ends_with_def starts_with_iff)

lemma prune_effect:
  assumes io: "no_faults io" "lists_all io" and d: "well_named mc dir d"
    and L: "archive_list io mc dir d = Inr L" "set L = stored_infos mc dir d" "distinct L"
  obtains d' k where "prune io mc dir d = (d', Inr k)" and "well_named mc dir d'"
    and "stored_infos mc dir d' = set (take KEEP L)"
    and "\<forall>ent \<in> set (take KEEP L). data_at d' (boot_path dir ent) = data_at d (boot_path dir ent)"
proof -
  have ok: "bm_ok d" using d by (simp add: well_named_def)
  obtain d' k where p: "prune_each io dir (drop KEEP L) 0 d = (d', Inr k)" "bm_ok d'"
    and at: "\<And>q. data_at d' q =
       (if \<exists>ent \<in> set (drop KEEP L). q = boot_path dir ent \<or> q = meta_path dir ent then None else data_at d q)"
    using prune_each_effect [OF io(1) ok] by blast
  have there: "\<exists>n x. data_at d (dir @ [n]) = Some x \<and> ends_with n ''.meta.json'' \<and>
      decode_content mc x = Inr ent \<and> n = archive_stem ent @ ''.meta.json'' \<and>
      boot_path dir ent = dir @ [archive_stem ent @ ''.boot.gz''] \<and> meta_path dir ent = dir @ [n]"
    if "ent \<in> set L" for ent
  proof -
    obtain n x where n: "data_at d (dir @ [n]) = Some x" "ends_with n ''.meta.json''" "decode_content mc x = Inr ent"
      using \<open>ent \<in> set L\<close> unfolding L(2) stored_infos_def by blast
    then have "n = archive_stem ent @ ''.meta.json''" "CHR ''/'' \<notin> set (ri_timestamp ent)"
      using d unfolding well_named_def by blast+
    then show ?thesis using n archive_paths [of ent dir] by auto
  qed
  have one: "ent = ent'" if "ent \<in> set L" "ent' \<in> set L" "archive_stem ent = archive_stem ent'" for ent ent'
    using there [OF that(1)] there [OF that(2)] that(3) by auto
  have whole: "set L = set (take KEEP L) \<union> set (drop KEEP L)"
    by (metis append_take_drop_id set_append)
  have "distinct (take KEEP L @ drop KEEP L)" using L(3) by simp
  then have apart: "set (take KEEP L) \<inter> set (drop KEEP L) = {}" by (simp only: distinct_append)
  have hit: "\<not> (\<exists>gone \<in> set (drop KEEP L). dir @ [n] = boot_path dir gone \<or> dir @ [n] = meta_path dir gone)"
    if n: "n = archive_stem ent @ ''.meta.json'' \<or> n = archive_stem ent @ ''.boot.gz''"
      and ent: "ent \<in> set (take KEEP L)" for n ent
  proof
    assume "\<exists>gone \<in> set (drop KEEP L). dir @ [n] = boot_path dir gone \<or> dir @ [n] = meta_path dir gone"
    then obtain gone where gone: "gone \<in> set (drop KEEP L)"
      "dir @ [n] = boot_path dir gone \<or> dir @ [n] = meta_path dir gone" by blast
    then have "n = archive_stem gone @ ''.boot.gz'' \<or> n = archive_stem gone @ ''.meta.json''"
      using there [of gone] whole by auto
    then have "archive_stem gone = archive_stem ent"
      using n meta_not_boot [OF ends_meta, of "archive_stem gone" ent]
        meta_not_boot [OF ends_meta, of "archive_stem ent" gone] by auto
    then have "gone = ent" using one gone(1) ent whole by blast
    then show False using gone(1) ent apart by blast
  qed
  have sub: "data_at d' q = Some x \<Longrightarrow> data_at d q = Some x" for q x
    unfolding at by (simp split: if_splits)
  have kept: "data_at d' (dir @ [n]) = data_at d (dir @ [n])"
    if "n = archive_stem ent @ ''.meta.json'' \<or> n = archive_stem ent @ ''.boot.gz''"
      "ent \<in> set (take KEEP L)" for n ent
    unfolding at using hit [OF that] by (simp only: if_False)
  have "stored_infos mc dir d' = set (take KEEP L)"
  proof (intro set_eqI iffI)
    fix i assume "i \<in> stored_infos mc dir d'"
    then obtain n x where n: "data_at d' (dir @ [n]) = Some x" "ends_with n ''.meta.json''"
      "decode_content mc x = Inr i"
      unfolding stored_infos_def by blast
    then have "i \<in> set L" unfolding L(2) stored_infos_def using sub by blast
    moreover have "i \<notin> set (drop KEEP L)"
    proof
      assume i: "i \<in> set (drop KEEP L)"
      have "n = archive_stem i @ ''.meta.json''"
        using d n sub unfolding well_named_def by blast
      then have "dir @ [n] = meta_path dir i" using there [of i] i whole by auto
      then have "data_at d' (dir @ [n]) = None" unfolding at using i by auto
      then show False using n(1) by simp
    qed
    ultimately show "i \<in> set (take KEEP L)" using whole by blast
  next
    fix i assume i: "i \<in> set (take KEEP L)"
    then obtain n x where "data_at d (dir @ [n]) = Some x" "ends_with n ''.meta.json''"
      "decode_content mc x = Inr i" "n = archive_stem i @ ''.meta.json''"
      using there [of i] whole by blast
    then show "i \<in> stored_infos mc dir d'"
      using kept [of n i] i unfolding stored_infos_def by auto
  qed
  moreover have "well_named mc dir d'"
    using d p(2) sub unfolding well_named_def by blast
  moreover have "data_at d' (boot_path dir ent) = data_at d (boot_path dir ent)" if "ent \<in> set (take KEEP L)" for ent
    using kept [of "archive_stem ent @ ''.boot.gz''" ent] there [of ent] that whole by auto
  moreover have "prune io mc dir d = (d', Inr k)" using p(1) L(1) by (simp add: prune_def)
  ultimately show thesis using that by blast
qed

lemma archive_write_effect:
  assumes io: "no_faults io" "lists_all io" and codecs: "codec_ok mc" "codec_ok gz"
    and d: "well_named mc dir d" "inj_on ri_revision (stored_infos mc dir d)"
    and plain: "CHR ''/'' \<notin> set (ri_timestamp ent)"
    and fresh: "ri_revision ent \<notin> ri_revision ` stored_infos mc dir d"
    and config: "renderable config"
  shows "\<exists>d' before after. archive_write io mc gz dir sc ent config d = (d', Inr ()) \<and>
    archive_list io mc dir d = Inr before \<and> archive_list io mc dir d' = Inr after \<and>
    after = take KEEP (sort_key (\<lambda>i. - int (ri_revision i)) (ent # before)) \<and>
    (ent \<in> set after \<longrightarrow> archive_read io mc gz dir (ri_revision ent) d' = Inr config)"
proof -
  let ?key = "\<lambda>i. - int (ri_revision i)"
  obtain before where before: "archive_list io mc dir d = Inr before" "set before = stored_infos mc dir d"
    "distinct before" "sorted (map ?key before)"
    by (rule archive_list_stored [OF io d(1)])
  let ?d = "written_revision io mc gz dir sc ent config d"
  note w = written_revision_stored [OF codecs(1) d(1) plain fresh, of io gz sc config]
  obtain L where L: "archive_list io mc dir ?d = Inr L" "set L = stored_infos mc dir ?d" "distinct L"
    "sorted (map ?key L)"
    by (rule archive_list_stored [OF io w(1)])
  have inj: "inj_on ?key (stored_infos mc dir ?d)"
  proof (rule inj_onI)
    fix i j assume ij: "i \<in> stored_infos mc dir ?d" "j \<in> stored_infos mc dir ?d" "?key i = ?key j"
    have "inj_on ri_revision (insert ent (stored_infos mc dir d))"
      using d(2) fresh unfolding inj_on_insert by blast
    moreover have "ri_revision i = ri_revision j" using ij(3) by simp
    ultimately show "i = j" using ij(1,2) unfolding w(2) by (metis inj_onD)
  qed
  have new: "ent \<notin> set before" using fresh before(2) by blast
  have sorted_L: "L = sort_key ?key (ent # before)"
  proof (rule same_order [OF inj L(2-4)])
    show "set (sort_key ?key (ent # before)) = stored_infos mc dir ?d"
      unfolding w(2) before(2) [symmetric] set_sort by simp
    show "distinct (sort_key ?key (ent # before))" unfolding distinct_sort using new before(3) by simp
  qed (rule sorted_sort_key)
  obtain d' k where d': "prune io mc dir ?d = (d', Inr k)" "well_named mc dir d'"
    "stored_infos mc dir d' = set (take KEEP L)"
    "\<forall>i \<in> set (take KEEP L). data_at d' (boot_path dir i) = data_at ?d (boot_path dir i)"
    by (rule prune_effect [OF io w(1) L(1-3)])
  obtain after where after: "archive_list io mc dir d' = Inr after" "set after = stored_infos mc dir d'"
    "distinct after" "sorted (map ?key after)"
    by (rule archive_list_stored [OF io d'(2)])
  have sub: "set (take KEEP L) \<subseteq> stored_infos mc dir ?d" using L(2) set_take_subset by fastforce
  have take: "after = take KEEP L"
  proof (rule same_order [OF inj_on_subset [OF inj sub]])
    show "set after = set (take KEEP L)" using after(2) d'(3) by simp
    show "sorted (map ?key (take KEEP L))" using L(4) by (simp add: take_map [symmetric] sorted_wrt_take)
  qed (use after(3,4) L(3) in simp_all)
  have "archive_read io mc gz dir (ri_revision ent) d' = Inr config" if "ent \<in> set after"
  proof -
    have "inj_on ri_revision (set after)"
      using inj_on_subset [OF inj sub] unfolding take inj_on_def by simp
    then have found: "find (\<lambda>i. ri_revision i = ri_revision ent) after = Some ent"
      using that by (rule find_key)
    have "data_at d' (boot_path dir ent) = Some (Data (enc gz (render (is_tag_node sc) config)))"
    proof -
      have "data_at d' (boot_path dir ent) = data_at ?d (boot_path dir ent)"
        using d'(4) that unfolding take by blast
      then show ?thesis
        using archive_paths [OF plain, of dir] by (simp add: written_revision_def data_at_put)
    qed
    then have "fs_read io (boot_path dir ent) d' = Inr (Data (enc gz (render (is_tag_node sc) config)))"
      by (simp only: fs_read_data [OF io(1)])
    then show ?thesis
      using after(1) found codecs(2) render_parses [OF config, of "is_tag_node sc"]
      by (simp add: archive_read_def decode_content_def)
  qed
  moreover have "archive_write io mc gz dir sc ent config d = (d', Inr ())"
    using io(1) d'(1)
    by (simp add: archive_write_def data_at_write written_revision_def create_dir_all_def no_faults_def)
  ultimately show ?thesis using before(1) after(1) take sorted_L by blast
qed

lemma kept_iff:
  assumes "distinct L" and "sorted (map f L)" and "inj_on f (set L)" and "x \<in> set L"
  shows "x \<in> set (take n L) \<longleftrightarrow> card {y \<in> set L. f y < (f x :: int)} < n"
proof -
  obtain xs ys where L: "L = xs @ x # ys" using split_list [OF assms(4)] by blast
  have "f y < f x" if "y \<in> set xs" for y
  proof -
    have "f y \<le> f x" using assms(2) that by (auto simp: L sorted_append)
    moreover have "f y \<noteq> f x" using assms(1,3) that by (auto simp: L inj_on_def)
    ultimately show ?thesis by simp
  qed
  moreover have "\<not> f y < f x" if "y \<in> set ys" for y
    using assms(2) that by (auto simp: L sorted_append)
  ultimately have "{y \<in> set L. f y < f x} = set xs" by (auto simp: L)
  moreover have "card (set xs) = length xs" using assms(1) by (simp add: L distinct_card)
  moreover have "x \<in> set (take n L) \<longleftrightarrow> length xs < n"
    using assms(1) by (auto simp: L dest: in_set_takeD) (cases "n - length xs", auto dest: in_set_takeD)
  ultimately show ?thesis by simp
qed

text \<open>
  C18. Recording a revision under a number the archive does not hold keeps exactly the \<open>KEEP\<close>
  revisions of the highest numbers, of the ones that were there and the new one, newest first; and
  when the new one is among them its configuration reads back as it was written.
\<close>

theorem archive_keeps_newest:
  assumes io: "no_faults io" "lists_all io" and codecs: "codec_ok mc" "codec_ok gz"
    and d: "well_named mc dir d" "inj_on ri_revision (stored_infos mc dir d)"
    and plain: "CHR ''/'' \<notin> set (ri_timestamp ent)"
    and fresh: "ri_revision ent \<notin> ri_revision ` stored_infos mc dir d"
    and config: "renderable config"
  shows "\<exists>d' before after. archive_write io mc gz dir sc ent config d = (d', Inr ()) \<and>
    archive_list io mc dir d = Inr before \<and> archive_list io mc dir d' = Inr after \<and>
    after = take KEEP (sort_key (\<lambda>i. - int (ri_revision i)) (ent # before)) \<and>
    (ent \<in> set after \<longrightarrow> archive_read io mc gz dir (ri_revision ent) d' = Inr config)"
  using archive_write_effect [OF assms] .

text \<open>Codecs into a type with one constructor per format, for the witnesses.\<close>

datatype stored = AsMeta revision_info | AsText string

definition sample_meta :: "(revision_info, stored) codec" where
  "sample_meta = \<lparr>enc = AsMeta, dec = (\<lambda>b. case b of AsMeta i \<Rightarrow> Inr i | _ \<Rightarrow> Inl ''not metadata'')\<rparr>"

definition sample_gzip :: "(string, stored) codec" where
  "sample_gzip = \<lparr>enc = AsText, dec = (\<lambda>b. case b of AsText s \<Rightarrow> Inr s | _ \<Rightarrow> Inl ''invalid gzip header'')\<rparr>"

definition bare_schema :: schema where
  "bare_schema = \<lparr>sc_root = SchemaNode SContainer [] None False False 0 [] [] [] [], sc_globals = []\<rparr>"

lemma sample_codecs: "codec_ok sample_meta" "codec_ok sample_gzip"
  by (simp_all add: codec_ok_def sample_meta_def sample_gzip_def)

definition sample_revision :: "nat \<Rightarrow> revision_info" where
  "sample_revision n = \<lparr>ri_revision = n, ri_timestamp = ''20260820T140211Z'', ri_actor = ''ana'',
     ri_actor_uid = 1000, ri_comment = None, ri_changes = []\<rparr>"

lemma fine_io_ok: "no_faults fine_io" "lists_all fine_io"
  by (simp_all add: no_faults_def lists_all_def fine_io_def)

lemma empty_archive: "well_named mc dir []" "stored_infos mc dir [] = {}"
  by (simp_all add: well_named_def stored_infos_def data_at_def)

lemma sample_plain: "CHR ''/'' \<notin> set (ri_timestamp (sample_revision n))"
  by (simp add: sample_revision_def)

lemma sample_renderable: "renderable sample_tree"
  unfolding renderable_def by (intro conjI) code_simp+

theorem archive_keeps_newest_witness:
  "\<exists>d'. archive_write fine_io sample_meta sample_gzip [''archive''] bare_schema (sample_revision 1) sample_tree [] = (d', Inr ()) \<and>
     archive_list fine_io sample_meta [''archive''] d' = Inr [sample_revision 1] \<and>
     archive_read fine_io sample_meta sample_gzip [''archive''] 1 d' = Inr sample_tree"
proof -
  have "inj_on ri_revision (stored_infos sample_meta [''archive''] [])"
    "ri_revision (sample_revision 1) \<notin> ri_revision ` stored_infos sample_meta [''archive''] []"
    by (simp_all add: empty_archive)
  from archive_keeps_newest [OF fine_io_ok sample_codecs empty_archive(1) this(1) sample_plain this(2)
      sample_renderable, of bare_schema]
  obtain d' before where "archive_write fine_io sample_meta sample_gzip [''archive''] bare_schema (sample_revision 1)
      sample_tree [] = (d', Inr ())"
    "archive_list fine_io sample_meta [''archive''] [] = Inr before"
    "archive_list fine_io sample_meta [''archive''] d' =
       Inr (take KEEP (sort_key (\<lambda>i. - int (ri_revision i)) (sample_revision 1 # before)))"
    "sample_revision 1 \<in> set (take KEEP (sort_key (\<lambda>i. - int (ri_revision i)) (sample_revision 1 # before))) \<longrightarrow>
       archive_read fine_io sample_meta sample_gzip [''archive''] (ri_revision (sample_revision 1)) d' = Inr sample_tree"
    by blast
  moreover have "before = []"
    using calculation(2) by (simp add: archive_list_def fs_read_dir_def fine_io_def names_in_def)
  ultimately show ?thesis by (auto simp: KEEP_def sample_revision_def)
qed

text \<open>
  Whether a revision just recorded is in the archive at all is decided by its number, not by
  its age: it is there exactly when fewer than \<open>KEEP\<close> of the revisions already stored have higher
  numbers. The daemon counts generations from zero again after a reboot while the archive stays,
  so a commit made then is pruned as soon as it is written, and the older ones are kept.
\<close>

lemma archive_kept_by_number:
  assumes io: "no_faults io" "lists_all io" and codecs: "codec_ok mc" "codec_ok gz"
    and d: "well_named mc dir d" "inj_on ri_revision (stored_infos mc dir d)"
    and plain: "CHR ''/'' \<notin> set (ri_timestamp ent)"
    and fresh: "ri_revision ent \<notin> ri_revision ` stored_infos mc dir d"
    and config: "renderable config"
    and written: "archive_write io mc gz dir sc ent config d = (d', r)"
    and listed: "archive_list io mc dir d' = Inr after"
  shows "ent \<in> set after \<longleftrightarrow> card {i \<in> stored_infos mc dir d. ri_revision ent < ri_revision i} < KEEP"
proof -
  let ?key = "\<lambda>i. - int (ri_revision i)"
  obtain before where before: "archive_list io mc dir d = Inr before" "set before = stored_infos mc dir d"
    "distinct before" "sorted (map ?key before)"
    by (rule archive_list_stored [OF io d(1)])
  let ?L = "sort_key ?key (ent # before)"
  have after: "after = take KEEP ?L"
    using archive_write_effect [OF io codecs d plain fresh config, of sc] before(1) written listed by auto
  have set_L: "set ?L = insert ent (stored_infos mc dir d)" unfolding set_sort by (simp add: before(2))
  have inj: "inj_on ri_revision (insert ent (stored_infos mc dir d))"
    using d(2) fresh unfolding inj_on_insert by blast
  have "ent \<in> set (take KEEP ?L) \<longleftrightarrow> card {y \<in> set ?L. ?key y < ?key ent} < KEEP"
  proof (rule kept_iff)
    show "distinct ?L" unfolding distinct_sort using before(2,3) fresh by auto
    show "inj_on ?key (set ?L)" using inj unfolding set_L inj_on_def by simp
    show "ent \<in> set ?L" unfolding set_L by simp
  qed (rule sorted_sort_key)
  moreover have "{y \<in> set ?L. ?key y < ?key ent} = {i \<in> stored_infos mc dir d. ri_revision ent < ri_revision i}"
    unfolding set_L by auto
  ultimately show ?thesis unfolding after by simp
qed

end
