(* ===== verification/Artifacts.thy ===== *)
theory Artifacts
  imports Files Config_Tree
begin

text \<open>
  \<open>src/nightshade-render/src/artifacts.rs\<close> and the \<open>Host\<close> trait of \<open>host.rs\<close>: what a renderer
  produces and the interface it is driven through. A \<open>dyn Host\<close> and a \<open>dyn Renderer\<close> are records
  of functions over the state \<open>'m\<close> of the machine; a method that may change the machine returns
  the new state beside its result, whether it failed or not.
\<close>

section \<open>The host\<close>

datatype host_error =
    HostIo string io_error
  | Command string string string

fun show_host_error :: "host_error \<Rightarrow> string" where
  "show_host_error (HostIo context e) = context @ '': '' @ show_io_error e"
| "show_host_error (Command command status detail) =
     ''`'' @ command @ ''` failed ('' @ status @ '')'' @ detail"

record 'm host =
  h_sync :: "file_path \<Rightarrow> string \<Rightarrow> (string \<times> string) list \<Rightarrow> 'm \<Rightarrow> 'm \<times> (host_error + unit)"
  h_write :: "file_path \<Rightarrow> string \<Rightarrow> 'm \<Rightarrow> 'm \<times> (host_error + unit)"
  h_read :: "file_path \<Rightarrow> 'm \<Rightarrow> host_error + string option"
  h_run :: "string list \<Rightarrow> 'm \<Rightarrow> 'm \<times> (host_error + unit)"
  h_run_secret :: "string list \<Rightarrow> string \<Rightarrow> 'm \<Rightarrow> 'm \<times> (host_error + unit)"

section \<open>Artifacts\<close>

record managed =
  mg_dir :: file_path
  mg_marker :: string
  mg_files :: "(string \<times> string) list"

datatype action =
    SetHostName string "string option"
  | SetTimeZone string
  | ReloadNetworkd
  | RecreateNetdev string
  | EnsureAccount string "string option"
  | SetPassword string string
  | RemoveAccount string

fun argv :: "action \<Rightarrow> string list option" where
  "argv (SetHostName name domain) = Some [''hostnamectl'', ''set-hostname'', name]"
| "argv (SetTimeZone zone) = Some [''timedatectl'', ''set-timezone'', zone]"
| "argv ReloadNetworkd = Some [''networkctl'', ''reload'']"
| "argv (RecreateNetdev name) = Some [''networkctl'', ''delete'', name]"
| "argv (EnsureAccount name full) =
     Some ([''usermod''] @ (case full of None \<Rightarrow> [] | Some f \<Rightarrow> [''--comment'', f]) @ [name])"
| "argv (SetPassword name hash) = Some [''chpasswd'', ''-e'']"
| "argv (RemoveAccount name) = Some [''userdel'', name]"

record artifacts =
  ar_managed :: "managed list"
  ar_files :: "(file_path \<times> string) list"
  ar_actions :: "action list"

definition no_artifacts :: artifacts where
  "no_artifacts = \<lparr>ar_managed = [], ar_files = [], ar_actions = []\<rparr>"

definition artifacts_empty :: "artifacts \<Rightarrow> bool" where
  "artifacts_empty a \<longleftrightarrow>
     ar_actions a = [] \<and> ar_files a = [] \<and> list_all (\<lambda>m. mg_files m = []) (ar_managed a)"

definition all_files :: "artifacts \<Rightarrow> (file_path \<times> string) list" where
  "all_files a =
     fold (\<lambda>m out. fold (\<lambda>(name, contents). bm_insert (path_join (mg_dir m) name) contents) (mg_files m) out)
       (ar_managed a) (ar_files a)"

section \<open>Renderers\<close>

datatype render_error = Inconsistent string string

fun show_render_error :: "render_error \<Rightarrow> string" where
  "show_render_error (Inconsistent subsystem message) = subsystem @ '': '' @ message"

datatype apply_error = ApplyHost host_error | Unverified string string

fun show_apply_error :: "apply_error \<Rightarrow> string" where
  "show_apply_error (ApplyHost e) = show_host_error e"
| "show_apply_error (Unverified p reason) = p @ '' was applied but '' @ reason"

record 'm renderer =
  r_name :: string
  r_owns :: path
  r_render :: "config_tree \<Rightarrow> render_error + artifacts"
  r_check :: "artifacts \<Rightarrow> 'm \<Rightarrow> render_error + unit"
  r_apply :: "artifacts \<Rightarrow> 'm \<Rightarrow> 'm \<times> (apply_error + unit)"
  r_verify :: "artifacts \<Rightarrow> 'm \<Rightarrow> apply_error + unit"
  r_previous :: "'m \<Rightarrow> artifacts option"
  r_remember :: "artifacts \<Rightarrow> 'm \<Rightarrow> 'm \<times> (apply_error + unit)"

fun verify_list :: "'m host \<Rightarrow> (file_path \<times> string) list \<Rightarrow> 'm \<Rightarrow> apply_error + unit" where
  "verify_list h [] m = Inr ()"
| "verify_list h ((p, wanted) # fs) m =
     (case h_read h p m of
        Inl e \<Rightarrow> Inl (ApplyHost e)
      | Inr None \<Rightarrow> Inl (Unverified (show_file_path p) ''the file is not there'')
      | Inr (Some found) \<Rightarrow>
          if found = wanted then verify_list h fs m
          else Inl (Unverified (show_file_path p) ''the contents are not what was written''))"

definition verify_files :: "'m host \<Rightarrow> artifacts \<Rightarrow> 'm \<Rightarrow> apply_error + unit" where
  "verify_files h a m = verify_list h (all_files a) m"

text \<open>\<open>LastApplied\<close>: one JSON file per renderer; an unreadable one counts as none.\<close>

record last_applied =
  la_path :: file_path

definition last_applied_new :: "file_path \<Rightarrow> string \<Rightarrow> last_applied" where
  "last_applied_new dir name = \<lparr>la_path = path_join dir (name @ ''.json'')\<rparr>"

definition last_applied_load ::
  "(artifacts, string) codec \<Rightarrow> 'm host \<Rightarrow> last_applied \<Rightarrow> 'm \<Rightarrow> artifacts option" where
  "last_applied_load c h la m =
     (case h_read h (la_path la) m of
        Inr (Some s) \<Rightarrow> (case dec c s of Inr a \<Rightarrow> Some a | Inl e \<Rightarrow> None)
      | _ \<Rightarrow> None)"

definition last_applied_save ::
  "(artifacts, string) codec \<Rightarrow> 'm host \<Rightarrow> last_applied \<Rightarrow> artifacts \<Rightarrow> 'm \<Rightarrow> 'm \<times> (apply_error + unit)" where
  "last_applied_save c h la a m =
     (case h_write h (la_path la) (enc c a) m of
        (m', Inl e) \<Rightarrow> (m', Inl (ApplyHost e))
      | (m', Inr u) \<Rightarrow> (m', Inr ()))"

section \<open>What holds of them\<close>

lemma verify_list_ok:
  "verify_list h fs m = Inr u \<longleftrightarrow> (\<forall>(p, wanted) \<in> set fs. h_read h p m = Inr (Some wanted))"
  by (induction h fs m rule: verify_list.induct) (auto split: sum.splits option.splits)

end
