(* ===== verification/Commit.thy ===== *)
theory Commit
  imports Artifacts Diff Constraints
begin

text \<open>
  \<open>src/nightshade-configd/src/commit.rs\<close>: validation of a whole candidate, the order changes are
  reported in, and the render, check, apply, verify and restore pipeline over a list of
  renderers. Logging is left out; everything else a step does to the machine is in the state it
  returns.
\<close>

datatype commit_error =
    Invalid "violation list"
  | RenderFailed string string
  | CheckFailed string string
  | Applied string apply_error
  | Unrecovered string apply_error string

fun show_commit_error :: "commit_error \<Rightarrow> string" where
  "show_commit_error (Invalid vs) = join [newline] (map show_violation vs)"
| "show_commit_error (RenderFailed subsystem message) =
     subsystem @ '' could not render this configuration: '' @ message"
| "show_commit_error (CheckFailed subsystem message) = subsystem @ '': '' @ message"
| "show_commit_error (Applied subsystem source) =
     subsystem @ '' could not apply this configuration: '' @ show_apply_error source @ [newline] @
     ''the previous configuration has been restored''"
| "show_commit_error (Unrecovered subsystem source again) =
     subsystem @ '' could not apply this configuration: '' @ show_apply_error source @ [newline] @
     ''RESTORING THE PREVIOUS CONFIGURATION ALSO FAILED: '' @ again @ [newline] @
     ''this system is not in a state that matches any saved configuration''"

section \<open>Steps 1 to 5\<close>

definition commit_validate :: "value_env \<Rightarrow> schema \<Rightarrow> config_tree \<Rightarrow> commit_error + unit" where
  "commit_validate env sc t =
     (let first = validate_tree env sc t;
          violations = (if first = [] then check_constraints sc t else first)
      in if violations = [] then Inr () else Inl (Invalid violations))"

definition u32_MAX :: nat where
  "u32_MAX = 4294967295"

text \<open>The loop of \<open>order\<close>: up from the changed path to the nearest node the schema knows.\<close>

function change_priority :: "schema \<Rightarrow> path \<Rightarrow> nat" where
  "change_priority sc p =
     (case node_at sc p of
        Some n \<Rightarrow> sn_priority n
      | None \<Rightarrow>
          (case path_parent p of
             Some q \<Rightarrow> change_priority sc q
           | None \<Rightarrow> u32_MAX))"
  by pat_completeness auto
termination change_priority
  by (relation "measure (\<lambda>(sc, p). length p)") (auto simp: path_parent_def split: if_splits)

definition order :: "schema \<Rightarrow> change list \<Rightarrow> change list" where
  "order sc changes =
     sort_key (\<lambda>c. (change_priority sc (ch_path c), ch_path c, ch_op c)) changes"

section \<open>Steps 6 to 9\<close>

type_synonym 'm plan = "('m renderer \<times> artifacts) list"

fun render_all :: "'m renderer list \<Rightarrow> config_tree \<Rightarrow> commit_error + 'm plan" where
  "render_all [] t = Inr []"
| "render_all (r # rs) t =
     (case r_render r t of
        Inl e \<Rightarrow> Inl (RenderFailed (r_name r) (show_render_error e))
      | Inr a \<Rightarrow> bind_result (render_all rs t) (\<lambda>plan. Inr ((r, a) # plan)))"

fun check_all :: "'m plan \<Rightarrow> 'm \<Rightarrow> commit_error + unit" where
  "check_all [] m = Inr ()"
| "check_all ((r, a) # plan) m =
     (case r_check r a m of
        Inl e \<Rightarrow> Inl (CheckFailed (r_name r) (show_render_error e))
      | Inr u \<Rightarrow> check_all plan m)"

text \<open>\<open>restore\<close> after the reversal: \<open>rs\<close> is in the order of restoring.\<close>

fun restore_each :: "'m renderer list \<Rightarrow> 'm \<Rightarrow> 'm \<times> string list" where
  "restore_each [] m = (m, [])"
| "restore_each (r # rs) m =
     (case r_previous r m of
        None \<Rightarrow> restore_each rs m
      | Some old \<Rightarrow>
          (case r_apply r old m of
             (m', Inl e) \<Rightarrow>
               (case restore_each rs m' of
                  (m'', problems) \<Rightarrow> (m'', (r_name r @ '': '' @ show_apply_error e) # problems))
           | (m', Inr u) \<Rightarrow> restore_each rs m'))"

definition restore :: "'m renderer list \<Rightarrow> 'm \<Rightarrow> 'm \<times> (string + unit)" where
  "restore applied m =
     (case restore_each (rev applied) m of
        (m', problems) \<Rightarrow> (m', if problems = [] then Inr () else Inl (join ''; '' problems)))"

definition apply_one :: "'m renderer \<Rightarrow> artifacts \<Rightarrow> 'm \<Rightarrow> 'm \<times> (apply_error + unit)" where
  "apply_one r a m =
     (case r_apply r a m of (m', res) \<Rightarrow> (m', bind_result res (\<lambda>u. r_verify r a m')))"

fun apply_all :: "'m renderer list \<Rightarrow> 'm plan \<Rightarrow> 'm \<Rightarrow> 'm \<times> (commit_error + unit)" where
  "apply_all applied [] m = (m, Inr ())"
| "apply_all applied ((r, a) # plan) m =
     (case apply_one r a m of
        (m', Inr u) \<Rightarrow> apply_all (applied @ [r]) plan m'
      | (m', Inl e) \<Rightarrow>
          (case restore (applied @ [r]) m' of
             (m'', Inr v) \<Rightarrow> (m'', Inl (Applied (r_name r) e))
           | (m'', Inl again) \<Rightarrow> (m'', Inl (Unrecovered (r_name r) e again))))"

fun remember_all :: "'m plan \<Rightarrow> 'm \<Rightarrow> 'm" where
  "remember_all [] m = m"
| "remember_all ((r, a) # plan) m = remember_all plan (fst (r_remember r a m))"

definition commit_apply :: "'m renderer list \<Rightarrow> config_tree \<Rightarrow> 'm \<Rightarrow> 'm \<times> (commit_error + unit)" where
  "commit_apply rs t m =
     (case render_all rs t of
        Inl e \<Rightarrow> (m, Inl e)
      | Inr plan \<Rightarrow>
          (case check_all plan m of
             Inl e \<Rightarrow> (m, Inl e)
           | Inr u \<Rightarrow>
               (case apply_all [] plan m of
                  (m', Inl e) \<Rightarrow> (m', Inl e)
                | (m', Inr v) \<Rightarrow> (remember_all plan m', Inr ()))))"

section \<open>What a commit does to the machine\<close>

text \<open>
  The states of a run that has applied and verified everything in \<open>plan\<close>, and what restoring
  leaves, as relations that name no accumulator.
\<close>

fun applies :: "'m plan \<Rightarrow> 'm \<Rightarrow> 'm \<Rightarrow> bool" where
  "applies [] m m' \<longleftrightarrow> m' = m"
| "applies ((r, a) # plan) m m' \<longleftrightarrow>
     (\<exists>m1. r_apply r a m = (m1, Inr ()) \<and> r_verify r a m1 = Inr () \<and> applies plan m1 m')"

lemma apply_one_ok: "apply_one r a m = (m', Inr u) \<longleftrightarrow> r_apply r a m = (m', Inr ()) \<and> r_verify r a m' = Inr ()"
  by (auto simp: apply_one_def bind_result_Inr split: prod.splits)

lemma apply_all_ok: "apply_all done plan m = (m', Inr u) \<longleftrightarrow> applies plan m m'"
proof (induction "done" plan m rule: apply_all.induct)
  case (2 applied r a plan m)
  show ?case
  proof (cases "apply_one r a m")
    case (Pair m1 res)
    show ?thesis
    proof (cases res)
      case (Inl e)
      then have "\<nexists>m1. r_apply r a m = (m1, Inr ()) \<and> r_verify r a m1 = Inr ()"
        using Pair apply_one_ok [of r a m] by force
      then show ?thesis using Pair Inl by (auto split: prod.splits sum.splits)
    next
      case (Inr u)
      then have "r_apply r a m = (m1, Inr ())" "r_verify r a m1 = Inr ()"
        using Pair Inr apply_one_ok [of r a m m1 u] by simp_all
      then show ?thesis using Pair Inr 2 by simp
    qed
  qed
qed auto


definition reports ::
  "'m renderer list \<Rightarrow> 'm renderer \<Rightarrow> apply_error \<Rightarrow> 'm \<Rightarrow> 'm \<Rightarrow> commit_error \<Rightarrow> bool" where
  "reports applied r source m m' e \<longleftrightarrow>
     (case restore applied m of
        (m1, Inr u) \<Rightarrow> m' = m1 \<and> e = Applied (r_name r) source
      | (m1, Inl again) \<Rightarrow> m' = m1 \<and> e = Unrecovered (r_name r) source again)"

definition failed_at :: "'m renderer list \<Rightarrow> 'm plan \<Rightarrow> 'm \<Rightarrow> 'm \<Rightarrow> commit_error \<Rightarrow> bool" where
  "failed_at applied plan m m' e \<longleftrightarrow>
     (\<exists>before r a after m1 m2 source. plan = before @ (r, a) # after \<and> applies before m m1 \<and>
        apply_one r a m1 = (m2, Inl source) \<and> reports (applied @ map fst before @ [r]) r source m2 m' e)"

lemma failed_atI:
  "plan = before @ (r, a) # after \<Longrightarrow> applies before m m1 \<Longrightarrow> apply_one r a m1 = (m2, Inl source) \<Longrightarrow>
   reports (applied @ map fst before @ [r]) r source m2 m' e \<Longrightarrow> failed_at applied plan m m' e"
  unfolding failed_at_def by blast

lemma failed_atE:
  assumes "failed_at applied plan m m' e"
  obtains before r a after m1 m2 source where "plan = before @ (r, a) # after" "applies before m m1"
    "apply_one r a m1 = (m2, Inl source)" "reports (applied @ map fst before @ [r]) r source m2 m' e"
  using assms unfolding failed_at_def by blast

lemma apply_all_failed: "apply_all applied plan m = (m', Inl e) \<Longrightarrow> failed_at applied plan m m' e"
proof (induction applied plan m rule: apply_all.induct)
  case (2 applied r a plan m)
  obtain m1 res where one: "apply_one r a m = (m1, res)" by (cases "apply_one r a m")
  show ?case
  proof (cases res)
    case (Inl source)
    have "reports (applied @ [r]) r source m1 m' e"
      using "2.prems" one Inl
      by (cases "restore (applied @ [r]) m1"; cases "snd (restore (applied @ [r]) m1)")
        (simp_all add: reports_def)
    then show ?thesis using one Inl by (intro failed_atI [of _ "[]" r a plan]) simp_all
  next
    case (Inr u)
    then have step: "r_apply r a m = (m1, Inr ())" "r_verify r a m1 = Inr ()"
      using one apply_one_ok [of r a m m1 u] by simp_all
    have "failed_at (applied @ [r]) plan m1 m' e"
      using "2.IH" "2.prems" one Inr by simp
    then obtain before r' a' after m2 m3 source where f:
      "plan = before @ (r', a') # after" "applies before m1 m2" "apply_one r' a' m2 = (m3, Inl source)"
      "reports ((applied @ [r]) @ map fst before @ [r']) r' source m3 m' e"
      by (rule failed_atE)
    then show ?thesis
      using step by (intro failed_atI [of _ "(r, a) # before" r' a' after]) auto
  qed
qed simp

lemma render_all_ok:
  "render_all rs t = Inr plan \<longleftrightarrow> list_all2 (\<lambda>r (r', a). r' = r \<and> r_render r t = Inr a) rs plan"
  by (induction rs arbitrary: plan) (auto simp: list_all2_Cons1 bind_result_Inr split: sum.splits)

lemma check_all_ok: "check_all plan m = Inr u \<longleftrightarrow> (\<forall>(r, a) \<in> set plan. is_ok (r_check r a m))"
  by (induction plan m rule: check_all.induct) (auto split: sum.splits)

lemma commit_apply_cases:
  assumes "commit_apply rs t m = (m', res)"
  obtains (Refused) e where "m' = m" "res = Inl e"
      "render_all rs t = Inl e \<or> (\<exists>plan. render_all rs t = Inr plan \<and> check_all plan m = Inl e)"
  | (Failed) plan e where "render_all rs t = Inr plan" "check_all plan m = Inr ()"
      "failed_at [] plan m m' e" "res = Inl e"
  | (Done) plan m1 where "render_all rs t = Inr plan" "check_all plan m = Inr ()"
      "applies plan m m1" "m' = remember_all plan m1" "res = Inr ()"
proof (cases "render_all rs t")
  case (Inl e)
  then show ?thesis using assms Refused [of e] by (simp add: commit_apply_def)
next
  case plan: (Inr plan)
  show ?thesis
  proof (cases "check_all plan m")
    case (Inl e)
    then show ?thesis using assms plan Refused [of e] by (simp add: commit_apply_def)
  next
    case checked: (Inr u)
    obtain m1 r where all: "apply_all [] plan m = (m1, r)" by (cases "apply_all [] plan m")
    show ?thesis
    proof (cases r)
      case (Inl e)
      then show ?thesis
        using assms plan checked all apply_all_failed [of "[]" plan m m1 e] Failed [of plan e]
        by (simp add: commit_apply_def)
    next
      case (Inr v)
      then have "applies plan m m1" using all apply_all_ok [of "[]" plan m m1 v] by simp
      moreover have "m' = remember_all plan m1" "res = Inr ()" "check_all plan m = Inr ()"
        using assms plan checked all Inr by (simp_all add: commit_apply_def)
      ultimately show ?thesis using Done plan by blast
    qed
  qed
qed

end
