(* ===== verification/Configd.thy ===== *)
theory Configd
  imports Archive Commit
begin

text \<open>
  \<open>src/nightshade-configd/src/state.rs\<close>: the state of the daemon and what it does with a request.
  What is fixed for its life (schema, paths, renderers, encodings, the interface collector) is
  the record \<open>configd\<close>; what one request sees of the outside (how the disk behaves, the clock,
  random bytes) is a \<open>moment\<close>; what a request can change is the \<open>world\<close>: the daemon's own state,
  the disk and the machine the renderers drive. One request is handled under the state lock from
  start to end, so a handler is one function from world to world. The rollback task is the time it
  will fire at. Logging is left out.
\<close>

section \<open>State\<close>

definition VERSION :: string where
  "VERSION = ''0.1.0''"

definition HISTORY :: nat where
  "HISTORY = 8"

record ('m, 's, 'b) configd =
  cd_schema :: schema
  cd_values :: value_env
  cd_paths :: paths
  cd_renderers :: "'m renderer list"
  cd_running_codec :: "(nat \<times> config_tree, 'b) codec"
  cd_session_codec :: "(session, 'b) codec"
  cd_pending_codec :: "(pending, 'b) codec"
  cd_meta_codec :: "(revision_info, 'b) codec"
  cd_gzip_codec :: "(string, 'b) codec"
  cd_snapshot :: "if_query \<Rightarrow> config_tree \<Rightarrow> 'm \<Rightarrow> 's"
  cd_snapshot_empty :: "'s \<Rightarrow> bool"
  cd_clear :: "string list \<Rightarrow> 'm \<Rightarrow> 'm"

record 'b moment =
  mo_io :: "'b io"
  mo_now :: int
  mo_civil :: civil
  mo_random :: "io_error + 8 word list"

record daemon =
  dm_running :: config_tree
  dm_generation :: nat
  dm_history :: "(nat \<times> config_tree) list"
  dm_sessions :: "(session_id \<times> session) list"
  dm_pending :: "pending option"
  dm_timer :: "int option"

record ('m, 'b) world =
  w_daemon :: daemon
  w_machine :: 'm
  w_disk :: "'b disk"

definition dm_upd :: "(daemon \<Rightarrow> daemon) \<Rightarrow> ('m, 'b) world \<Rightarrow> ('m, 'b) world" where
  "dm_upd f w = w\<lparr>w_daemon := f (w_daemon w)\<rparr>"

definition internal :: "string \<Rightarrow> string \<Rightarrow> 's response" where
  "internal context e = Failed KInternal (context @ '': '' @ e)"

section \<open>The running configuration on disk\<close>

definition load_running ::
  "'b io \<Rightarrow> (nat \<times> config_tree, 'b) codec \<Rightarrow> paths \<Rightarrow> 'b disk \<Rightarrow> config_tree \<times> nat" where
  "load_running io c ps d =
     (case fs_read io (running_path ps) d of
        Inl e \<Rightarrow> (tree_new, 0)
      | Inr x \<Rightarrow>
          (case decode_content c x of
             Inl e \<Rightarrow> (tree_new, 0)
           | Inr (generation, config) \<Rightarrow> (config, generation)))"

definition save_running ::
  "'b io \<Rightarrow> (nat \<times> config_tree, 'b) codec \<Rightarrow> paths \<Rightarrow> config_tree \<Rightarrow> nat \<Rightarrow> 'b disk \<Rightarrow>
     'b disk \<times> (io_error + unit)" where
  "save_running io c ps config generation d =
     (let final = running_path ps; tmp = with_extension final ''json.new''
      in case create_dir_all io (butlast final) of
           Inl e \<Rightarrow> (d, Inl e)
         | Inr u \<Rightarrow>
             (case replace_file io tmp final (Data (enc c (generation, config))) d of
                (d', Inl (renaming, e)) \<Rightarrow> (d', Inl e)
              | (d', Inr v) \<Rightarrow> (d', Inr ())))"

definition start ::
  "('m, 's, 'b) configd \<Rightarrow> 'b io \<Rightarrow> 'b disk \<Rightarrow> session_error + daemon" where
  "start cd io d =
     bind_result (store_prepare io (cd_paths cd)) (\<lambda>_.
     bind_result (store_load_all io (cd_session_codec cd) (cd_paths cd) d) (\<lambda>(sessions, problems).
       case load_running io (cd_running_codec cd) (cd_paths cd) d of
         (running, generation) \<Rightarrow>
           Inr \<lparr>dm_running = running, dm_generation = generation, dm_history = [],
                dm_sessions = sessions, dm_pending = None, dm_timer = None\<rparr>))"

text \<open>Recording the running configuration; a failure is only logged.\<close>

definition note_running :: "('m, 's, 'b) configd \<Rightarrow> 'b moment \<Rightarrow> ('m, 'b) world \<Rightarrow> ('m, 'b) world" where
  "note_running cd mo w =
     w\<lparr>w_disk := fst (save_running (mo_io mo) (cd_running_codec cd) (cd_paths cd)
        (dm_running (w_daemon w)) (dm_generation (w_daemon w)) (w_disk w))\<rparr>"

section \<open>Rolling back\<close>

definition disarm :: "('m, 's, 'b) configd \<Rightarrow> 'b moment \<Rightarrow> ('m, 'b) world \<Rightarrow> ('m, 'b) world" where
  "disarm cd mo w = w\<lparr>w_disk := fst (marker_disarm (mo_io mo) (cd_paths cd) (w_disk w))\<rparr>"

definition roll_back :: "('m, 's, 'b) configd \<Rightarrow> 'b moment \<Rightarrow> ('m, 'b) world \<Rightarrow> ('m, 'b) world" where
  "roll_back cd mo w =
     (case dm_pending (w_daemon w) of
        None \<Rightarrow> w
      | Some p \<Rightarrow>
          (let w1 = dm_upd (\<lambda>s. s\<lparr>dm_pending := None, dm_timer := None\<rparr>) w
           in disarm cd mo
                (case commit_apply (cd_renderers cd) (pd_previous p) (w_machine w1) of
                   (m, Inr u) \<Rightarrow>
                     note_running cd mo
                       (dm_upd (\<lambda>s. s\<lparr>dm_running := pd_previous p, dm_generation := dm_generation s + 1\<rparr>)
                         (w1\<lparr>w_machine := m\<rparr>))
                 | (m, Inl e) \<Rightarrow> w1\<lparr>w_machine := m\<rparr>)))"

definition arm_timer :: "'b moment \<Rightarrow> nat \<Rightarrow> int" where
  "arm_timer mo seconds = mo_now mo + int seconds"

definition resume :: "('m, 's, 'b) configd \<Rightarrow> 'b moment \<Rightarrow> ('m, 'b) world \<Rightarrow> ('m, 'b) world" where
  "resume cd mo w =
     (case marker_read (mo_io mo) (cd_pending_codec cd) (cd_paths cd) (w_disk w) of
        Inl e \<Rightarrow> w
      | Inr None \<Rightarrow> w
      | Inr (Some p) \<Rightarrow>
          if expired (mo_now mo) p then roll_back cd mo (dm_upd (\<lambda>s. s\<lparr>dm_pending := Some p\<rparr>) w)
          else dm_upd (\<lambda>s. s\<lparr>dm_pending := Some p,
                 dm_timer := Some (arm_timer mo (remaining (mo_now mo) p))\<rparr>) w)"

definition recovered_generation :: "daemon \<Rightarrow> nat option" where
  "recovered_generation s =
     (if dm_generation s > 0 \<or> \<not> tree_is_empty (dm_running s) then Some (dm_generation s) else None)"

definition adopt :: "('m, 's, 'b) configd \<Rightarrow> 'b moment \<Rightarrow> config_tree \<Rightarrow> ('m, 'b) world \<Rightarrow> ('m, 'b) world" where
  "adopt cd mo config w =
     note_running cd mo
       (dm_upd (\<lambda>s. s\<lparr>dm_running := config, dm_generation := dm_generation s + 1\<rparr>) w)"

section \<open>Sessions\<close>

definition owned :: "daemon \<Rightarrow> session_id \<Rightarrow> actor \<Rightarrow> 's response + session" where
  "owned s i a =
     (case bm_get (dm_sessions s) i of
        Some ss \<Rightarrow>
          if owned_by ss a then Inr ss
          else Inl (Failed KRequest (''session '' @ i @ '' belongs to '' @ ss_username ss @
            ''; open your own with `configure`''))
      | None \<Rightarrow> Inl (Failed KRequest (''session '' @ i @ '' has expired or was never opened'')))"

definition put_session :: "session_id \<Rightarrow> session \<Rightarrow> ('m, 'b) world \<Rightarrow> ('m, 'b) world" where
  "put_session i ss w = dm_upd (\<lambda>s. s\<lparr>dm_sessions := bm_insert i ss (dm_sessions s)\<rparr>) w"

text \<open>Change a session in memory, then on disk; the reply if both are done.\<close>

definition keep_session ::
  "('m, 's, 'b) configd \<Rightarrow> 'b moment \<Rightarrow> session_id \<Rightarrow> session \<Rightarrow> 's response \<Rightarrow> ('m, 'b) world \<Rightarrow>
     ('m, 'b) world \<times> 's response" where
  "keep_session cd mo i ss resp w =
     (case store_save (mo_io mo) (cd_session_codec cd) (cd_paths cd) ss (w_disk w) of
        (d, Inl e) \<Rightarrow>
          (put_session i ss (w\<lparr>w_disk := d\<rparr>), internal ''saving the session'' (show_session_error e))
      | (d, Inr u) \<Rightarrow> (put_session i ss (w\<lparr>w_disk := d\<rparr>), resp))"

definition do_open ::
  "('m, 's, 'b) configd \<Rightarrow> 'b moment \<Rightarrow> actor \<Rightarrow> ('m, 'b) world \<Rightarrow> ('m, 'b) world \<times> 's response" where
  "do_open cd mo a w =
     (case mo_random mo of
        Inl e \<Rightarrow> (w, internal ''generating a session id'' (show_io_error e))
      | Inr bytes \<Rightarrow>
          (let i = session_id_from_bytes bytes;
               ss = session_new i a (dm_running (w_daemon w)) (dm_generation (w_daemon w))
           in case store_save (mo_io mo) (cd_session_codec cd) (cd_paths cd) ss (w_disk w) of
                (d, Inl e) \<Rightarrow> (w\<lparr>w_disk := d\<rparr>, internal ''saving the session'' (show_session_error e))
              | (d, Inr u) \<Rightarrow> (put_session i ss (w\<lparr>w_disk := d\<rparr>), RespSession i)))"

definition do_close ::
  "('m, 's, 'b) configd \<Rightarrow> 'b moment \<Rightarrow> session_id \<Rightarrow> actor \<Rightarrow> ('m, 'b) world \<Rightarrow> ('m, 'b) world \<times> 's response" where
  "do_close cd mo i a w =
     (case owned (w_daemon w) i a of
        Inl resp \<Rightarrow> (w, resp)
      | Inr ss \<Rightarrow>
          (let w1 = dm_upd (\<lambda>s. s\<lparr>dm_sessions := bm_remove i (dm_sessions s)\<rparr>) w
           in (w1\<lparr>w_disk := fst (store_forget (mo_io mo) (cd_paths cd) i (w_disk w))\<rparr>, RespOk)))"

definition do_discard ::
  "('m, 's, 'b) configd \<Rightarrow> 'b moment \<Rightarrow> session_id \<Rightarrow> actor \<Rightarrow> ('m, 'b) world \<Rightarrow> ('m, 'b) world \<times> 's response" where
  "do_discard cd mo i a w =
     (case owned (w_daemon w) i a of
        Inl resp \<Rightarrow> (w, resp)
      | Inr ss \<Rightarrow>
          keep_session cd mo i
            (ss\<lparr>ss_candidate := dm_running (w_daemon w), ss_base := dm_generation (w_daemon w)\<rparr>) RespOk w)"

section \<open>Editing and reading\<close>

definition do_set ::
  "('m, 's, 'b) configd \<Rightarrow> 'b moment \<Rightarrow> session_id \<Rightarrow> actor \<Rightarrow> path \<Rightarrow> string option \<Rightarrow> ('m, 'b) world \<Rightarrow>
     ('m, 'b) world \<times> 's response" where
  "do_set cd mo i a p v w =
     (case owned (w_daemon w) i a of
        Inl resp \<Rightarrow> (w, resp)
      | Inr ss \<Rightarrow>
          (case apply_set (cd_values cd) (cd_schema cd) p v (ss_candidate ss) of
             (t, Inl e) \<Rightarrow> (w, resp_invalid (show_set_error e))
           | (t, Inr u) \<Rightarrow> keep_session cd mo i (ss\<lparr>ss_candidate := t\<rparr>) RespOk w))"

definition do_delete ::
  "('m, 's, 'b) configd \<Rightarrow> 'b moment \<Rightarrow> session_id \<Rightarrow> actor \<Rightarrow> path \<Rightarrow> string option \<Rightarrow> ('m, 'b) world \<Rightarrow>
     ('m, 'b) world \<times> 's response" where
  "do_delete cd mo i a p v w =
     (case owned (w_daemon w) i a of
        Inl resp \<Rightarrow> (w, resp)
      | Inr ss \<Rightarrow>
          (case apply_delete (cd_schema cd) p v (ss_candidate ss) of
             (t, Inl e) \<Rightarrow> (w, resp_invalid (show_delete_error e))
           | (t, Inr u) \<Rightarrow> keep_session cd mo i (ss\<lparr>ss_candidate := t\<rparr>) RespOk w))"

definition part :: "path \<Rightarrow> config_tree \<Rightarrow> config_tree" where
  "part p t = (case subtree p t of Some s \<Rightarrow> s | None \<Rightarrow> tree_new)"

definition show_candidate :: "daemon \<Rightarrow> session_id \<Rightarrow> actor \<Rightarrow> path \<Rightarrow> 's response" where
  "show_candidate s i a p =
     (case owned s i a of Inl resp \<Rightarrow> resp | Inr ss \<Rightarrow> RespConfig (part p (ss_candidate ss)))"

definition show_running :: "daemon \<Rightarrow> path \<Rightarrow> 's response" where
  "show_running s p = RespConfig (part p (dm_running s))"

definition show_saved :: "('m, 's, 'b) configd \<Rightarrow> 'b io \<Rightarrow> path \<Rightarrow> 'b disk \<Rightarrow> 's response" where
  "show_saved cd io p d =
     (let f = config_boot (cd_paths cd);
          look = (\<lambda>src. case parse src of
             Inr t \<Rightarrow> RespConfig (part p t)
           | Inl e \<Rightarrow> Failed KValidation (show_file_path f @ '' does not parse: '' @ show_parse_error e))
      in case fs_read_text io f d of
           Inr src \<Rightarrow> look src
         | Inl NotFound \<Rightarrow> look []
         | Inl e \<Rightarrow> internal (''reading '' @ show_file_path f) (show_io_error e))"

definition compare :: "daemon \<Rightarrow> session_id \<Rightarrow> actor \<Rightarrow> 's response" where
  "compare s i a =
     (case owned s i a of
        Inl resp \<Rightarrow> resp
      | Inr ss \<Rightarrow> RespChanges (diff (dm_running s) (ss_candidate ss)))"

section \<open>Committing\<close>

definition change_lines :: "change list \<Rightarrow> string" where
  "change_lines cs = concat (map (\<lambda>c. ''  '' @ show_change c @ [newline]) cs)"

definition changed_underneath :: "daemon \<Rightarrow> nat \<Rightarrow> config_tree \<Rightarrow> 's response" where
  "changed_underneath s base candidate =
     Failed KConflict
       (''the running configuration has changed since this session started (it was revision '' @
        show_nat base @ '', it is now revision '' @ show_nat (dm_generation s) @ '').'' @ [newline] @
        (case find (\<lambda>(generation, t). generation = base) (dm_history s) of
           Some (generation, was) \<Rightarrow>
             [newline] @ ''what changed underneath you:'' @ [newline] @ change_lines (diff was (dm_running s))
         | None \<Rightarrow>
             [newline] @ ''that was too long ago to show what changed; `compare` against running to see where you stand.'' @
             [newline]) @
        [newline] @ ''your own uncommitted changes:'' @ [newline] @
        change_lines (diff (dm_running s) candidate) @
        [newline] @ ''use `discard` to start again from the current configuration.'')"

definition record_revision ::
  "('m, 's, 'b) configd \<Rightarrow> 'b moment \<Rightarrow> config_tree \<Rightarrow> actor \<Rightarrow> string option \<Rightarrow> nat \<Rightarrow> change list \<Rightarrow>
     ('m, 'b) world \<Rightarrow> ('m, 'b) world" where
  "record_revision cd mo config a note revision changes w =
     (let ent = \<lparr>ri_revision = revision, ri_timestamp = stamp (mo_civil mo), ri_actor = a_username a,
                 ri_actor_uid = a_uid a, ri_comment = note, ri_changes = changes\<rparr>
      in w\<lparr>w_disk := fst (archive_write (mo_io mo) (cd_meta_codec cd) (cd_gzip_codec cd)
             (archive_dir (cd_paths cd)) (cd_schema cd) ent config (w_disk w))\<rparr>)"

definition failure_of :: "commit_error \<Rightarrow> failure_kind" where
  "failure_of e = (case e of Invalid vs \<Rightarrow> KValidation | CheckFailed n s \<Rightarrow> KValidation | _ \<Rightarrow> KInternal)"

text \<open>Step 10 up to the archive: promote, remember what was, bring the session level.\<close>

definition promote ::
  "('m, 's, 'b) configd \<Rightarrow> 'b moment \<Rightarrow> session_id \<Rightarrow> config_tree \<Rightarrow> ('m, 'b) world \<Rightarrow> ('m, 'b) world" where
  "promote cd mo i candidate w =
     (let s = w_daemon w;
          history = dm_history s @ [(dm_generation s, dm_running s)];
          w1 = note_running cd mo
            (w\<lparr>w_daemon := s\<lparr>dm_running := candidate, dm_generation := dm_generation s + 1,
                dm_history := drop (length history - HISTORY) history\<rparr>\<rparr>)
      in case bm_get (dm_sessions (w_daemon w1)) i of
           None \<Rightarrow> w1
         | Some ss \<Rightarrow>
             fst (keep_session cd mo i (ss\<lparr>ss_base := dm_generation s + 1\<rparr>) RespOk w1))"

definition await_confirm ::
  "('m, 's, 'b) configd \<Rightarrow> 'b moment \<Rightarrow> session_id \<Rightarrow> actor \<Rightarrow> string option \<Rightarrow> nat \<Rightarrow> nat \<Rightarrow> change list \<Rightarrow>
     ('m, 'b) world \<Rightarrow> ('m, 'b) world \<times> 's response" where
  "await_confirm cd mo i a note minutes was changes w =
     (let s = w_daemon w;
          p = \<lparr>pd_deadline = deadline_in (mo_now mo) minutes, pd_minutes = minutes, pd_session = i,
               pd_actor_uid = a_uid a, pd_actor = a_username a, pd_comment = note,
               pd_previous = (if dm_history s = [] then tree_new else snd (last (dm_history s))),
               pd_previous_generation = was, pd_committed = dm_running s, pd_generation = was + 1\<rparr>
      in case marker_arm (mo_io mo) (cd_pending_codec cd) (cd_paths cd) p (w_disk w) of
           (d, Inl e) \<Rightarrow>
             (w\<lparr>w_disk := d\<rparr>, Failed KInternal
                (''the change was applied, but the rollback timer could not be armed: '' @ show_confirm_error e @
                 [newline] @ ''confirm or revert this by hand''))
         | (d, Inr u) \<Rightarrow>
             (dm_upd (\<lambda>s. s\<lparr>dm_pending := Some p,
                 dm_timer := Some (arm_timer mo (remaining (mo_now mo) p))\<rparr>) (w\<lparr>w_disk := d\<rparr>),
              Committed (was + 1) changes (Some (remaining (mo_now mo) p))))"

definition do_commit ::
  "('m, 's, 'b) configd \<Rightarrow> 'b moment \<Rightarrow> session_id \<Rightarrow> actor \<Rightarrow> string option \<Rightarrow> nat option \<Rightarrow>
     ('m, 'b) world \<Rightarrow> ('m, 'b) world \<times> 's response" where
  "do_commit cd mo i a note confirm_minutes w =
     (let s = w_daemon w in
      case owned s i a of
        Inl resp \<Rightarrow> (w, resp)
      | Inr ss \<Rightarrow>
          (case dm_pending s of
             Some p \<Rightarrow> (w, Failed KConflict
               (pd_actor p @ '' committed a change '' @ show_nat (pd_minutes p) @
                '' minutes ago that is still waiting to be confirmed ('' @
                show_nat (remaining (mo_now mo) p) @ '' seconds left).'' @ [newline] @
                ''confirm it, or wait for it to roll back.''))
           | None \<Rightarrow>
               if ss_base ss \<noteq> dm_generation s then (w, changed_underneath s (ss_base ss) (ss_candidate ss))
               else
                 (case commit_validate (cd_values cd) (cd_schema cd) (ss_candidate ss) of
                    Inl e \<Rightarrow> (w, resp_invalid (show_commit_error e))
                  | Inr u \<Rightarrow>
                      (let changes = order (cd_schema cd) (diff (dm_running s) (ss_candidate ss))
                       in if changes = [] then (w, Committed (dm_generation s) changes None)
                          else
                            (case commit_apply (cd_renderers cd) (ss_candidate ss) (w_machine w) of
                               (m, Inl e) \<Rightarrow>
                                 (w\<lparr>w_machine := m\<rparr>, Failed (failure_of e) (show_commit_error e))
                             | (m, Inr v) \<Rightarrow>
                                 (let w1 = promote cd mo i (ss_candidate ss) (w\<lparr>w_machine := m\<rparr>)
                                  in case confirm_minutes of
                                       None \<Rightarrow>
                                         (record_revision cd mo (dm_running (w_daemon w1)) a note
                                            (dm_generation s + 1) changes w1,
                                          Committed (dm_generation s + 1) changes None)
                                     | Some minutes \<Rightarrow>
                                         await_confirm cd mo i a note minutes (dm_generation s) changes w1))))))"

definition do_confirm ::
  "('m, 's, 'b) configd \<Rightarrow> 'b moment \<Rightarrow> session_id \<Rightarrow> actor \<Rightarrow> ('m, 'b) world \<Rightarrow> ('m, 'b) world \<times> 's response" where
  "do_confirm cd mo i a w =
     (case owned (w_daemon w) i a of
        Inl resp \<Rightarrow> (w, resp)
      | Inr ss \<Rightarrow>
          (case dm_pending (w_daemon w) of
             None \<Rightarrow> (w, bad_request ''nothing is waiting to be confirmed'')
           | Some p \<Rightarrow>
               (let w1 = disarm cd mo (dm_upd (\<lambda>s. s\<lparr>dm_pending := None, dm_timer := None\<rparr>) w);
                    changes = order (cd_schema cd) (diff (pd_previous p) (pd_committed p))
                in (record_revision cd mo (pd_committed p) a (pd_comment p) (pd_generation p) changes w1,
                    Committed (pd_generation p) changes None))))"

section \<open>Saving, loading and the archive\<close>

definition do_save ::
  "('m, 's, 'b) configd \<Rightarrow> 'b moment \<Rightarrow> ('m, 'b) world \<Rightarrow> ('m, 'b) world \<times> 's response" where
  "do_save cd mo w =
     (let io = mo_io mo; final = config_boot (cd_paths cd); tmp = with_extension final ''boot.new'';
          src = render (is_tag_node (cd_schema cd)) (dm_running (w_daemon w))
      in case create_dir_all io (butlast final) of
           Inl e \<Rightarrow> (w, internal (''creating '' @ show_file_path (butlast final)) (show_io_error e))
         | Inr u \<Rightarrow>
             (case fs_write io tmp (Text src) (w_disk w) of
                (d, Inl e) \<Rightarrow>
                  (w\<lparr>w_disk := d\<rparr>, internal (''writing '' @ show_file_path tmp) (show_io_error e))
              | (d, Inr v) \<Rightarrow>
                  (case fs_set_mode io tmp 384 d of
                     (d', Inl e) \<Rightarrow>
                       (w\<lparr>w_disk := d'\<rparr>, internal (''securing '' @ show_file_path tmp) (show_io_error e))
                   | (d', Inr x) \<Rightarrow>
                       (case fs_rename io tmp final d' of
                          (d'', Inl e) \<Rightarrow>
                            (w\<lparr>w_disk := d''\<rparr>, internal (''renaming to '' @ show_file_path final) (show_io_error e))
                        | (d'', Inr y) \<Rightarrow> (w\<lparr>w_disk := d''\<rparr>, RespOk)))))"

text \<open>What \<open>load\<close> reads and how it names it, or the reply that says why it cannot.\<close>

definition load_config ::
  "('m, 's, 'b) configd \<Rightarrow> 'b io \<Rightarrow> load_source \<Rightarrow> 'b disk \<Rightarrow> 's response + (config_tree \<times> string)" where
  "load_config cd io source d =
     (case source of
        LoadSaved \<Rightarrow>
          (let f = config_boot (cd_paths cd) in
           case fs_read_text io f d of
             Inl NotFound \<Rightarrow>
               Inl (bad_request (show_file_path f @ '' does not exist; nothing has been saved on this system''))
           | Inl e \<Rightarrow> Inl (internal (''reading '' @ show_file_path f) (show_io_error e))
           | Inr src \<Rightarrow>
               (case parse src of
                  Inr t \<Rightarrow> Inr (t, show_file_path f)
                | Inl e \<Rightarrow> Inl (Failed KValidation (show_file_path f @ '': '' @ show_parse_error e))))
      | LoadArchive revision \<Rightarrow>
          (case archive_read io (cd_meta_codec cd) (cd_gzip_codec cd) (archive_dir (cd_paths cd)) revision d of
             Inr t \<Rightarrow> Inr (t, ''revision '' @ show_nat revision)
           | Inl e \<Rightarrow> Inl (bad_request (show_archive_error e))))"

definition violation_lines :: "violation list \<Rightarrow> string" where
  "violation_lines vs = concat (map (\<lambda>v. ''  '' @ show_violation v @ [newline]) vs)"

definition do_load ::
  "('m, 's, 'b) configd \<Rightarrow> 'b moment \<Rightarrow> session_id \<Rightarrow> actor \<Rightarrow> load_source \<Rightarrow> ('m, 'b) world \<Rightarrow>
     ('m, 'b) world \<times> 's response" where
  "do_load cd mo i a source w =
     (case owned (w_daemon w) i a of
        Inl resp \<Rightarrow> (w, resp)
      | Inr ss \<Rightarrow>
          (case load_config cd (mo_io mo) source (w_disk w) of
             Inl resp \<Rightarrow> (w, resp)
           | Inr (config, described) \<Rightarrow>
               (let violations = validate_tree (cd_values cd) (cd_schema cd) config
                in if violations \<noteq> [] then
                     (w, Failed KValidation
                        (described @ '' is not a valid configuration:'' @ [newline] @
                         violation_lines violations @ [newline] @
                         ''the candidate configuration has not been changed.''))
                   else keep_session cd mo i (ss\<lparr>ss_candidate := config\<rparr>) RespOk w)))"

definition commit_log :: "('m, 's, 'b) configd \<Rightarrow> 'b io \<Rightarrow> 'b disk \<Rightarrow> 's response" where
  "commit_log cd io d =
     (case archive_list io (cd_meta_codec cd) (archive_dir (cd_paths cd)) d of
        Inr revisions \<Rightarrow> Revisions revisions
      | Inl e \<Rightarrow> internal ''reading the archive'' (show_archive_error e))"

section \<open>Live state and the shell\<close>

definition op_show ::
  "('m, 's, 'b) configd \<Rightarrow> op_target \<Rightarrow> ('m, 'b) world \<Rightarrow> ('m, 'b) world \<times> 's response" where
  "op_show cd target w =
     (case target of
        Version \<Rightarrow> (w, Operational (ReportVersion VERSION))
      | InterfacesQuery q \<Rightarrow>
          (let snapshot = cd_snapshot cd q (dm_running (w_daemon w)) (w_machine w)
           in if q_names q \<noteq> [] \<and> cd_snapshot_empty cd snapshot
              then (w, bad_request (join '', '' (q_names q) @
                     '' is neither configured nor present on this system''))
              else (w, Operational (ReportInterfaces snapshot)))
      | ClearCounters names \<Rightarrow> (w\<lparr>w_machine := cd_clear cd names (w_machine w)\<rparr>, RespOk))"

text \<open>Only logged.\<close>

definition shell_session :: "bool \<Rightarrow> actor \<Rightarrow> 's response" where
  "shell_session entering a = RespOk"

section \<open>One request\<close>

fun handle ::
  "('m, 's, 'b) configd \<Rightarrow> 'b moment \<Rightarrow> actor \<Rightarrow> request \<Rightarrow> ('m, 'b) world \<Rightarrow>
     ('m, 'b) world \<times> 's response" where
  "handle cd mo a SessionOpen w = do_open cd mo a w"
| "handle cd mo a (SessionClose i) w = do_close cd mo i a w"
| "handle cd mo a (SetValue i p v) w = do_set cd mo i a p v w"
| "handle cd mo a (DeleteNode i p v) w = do_delete cd mo i a p v w"
| "handle cd mo a (ShowCandidate i p) w = (w, show_candidate (w_daemon w) i a p)"
| "handle cd mo a (ShowRunning p) w = (w, show_running (w_daemon w) p)"
| "handle cd mo a (ShowSaved p) w = (w, show_saved cd (mo_io mo) p (w_disk w))"
| "handle cd mo a (Compare i) w = (w, compare (w_daemon w) i a)"
| "handle cd mo a (Discard i) w = do_discard cd mo i a w"
| "handle cd mo a (Commit i note minutes) w = do_commit cd mo i a note minutes w"
| "handle cd mo a (Confirm i) w = do_confirm cd mo i a w"
| "handle cd mo a Save w = do_save cd mo w"
| "handle cd mo a (Load i source) w = do_load cd mo i a source w"
| "handle cd mo a CommitLog w = (w, commit_log cd (mo_io mo) (w_disk w))"
| "handle cd mo a (OpShow target) w = op_show cd target w"
| "handle cd mo a (ShellSession entering) w = (w, shell_session entering a)"

end
