(* ===== verification/Boot.thy ===== *)
theory Boot
  imports Configd
begin

text \<open>
  \<open>src/nightshade-configd/src/boot.rs\<close>: applying \<open>config.boot\<close> at startup, or coming up on the
  schema's defaults with the reason where an operator will meet it; and the order in which
  \<open>main.rs\<close> starts the daemon.
\<close>

datatype outcome =
    AlreadyRunning nat
  | AppliedSaved nat
  | NothingSaved
  | Defaults string

fun outcome_failed :: "outcome \<Rightarrow> string option" where
  "outcome_failed (Defaults reason) = Some reason"
| "outcome_failed _ = None"

definition saved ::
  "'b io \<Rightarrow> value_env \<Rightarrow> schema \<Rightarrow> file_path \<Rightarrow> 'b disk \<Rightarrow> string + config_tree option" where
  "saved io env sc p d =
     (case fs_read_text io p d of
        Inl NotFound \<Rightarrow> Inr None
      | Inl e \<Rightarrow> Inl (show_file_path p @ '' could not be read: '' @ show_io_error e)
      | Inr src \<Rightarrow>
          (case parse src of
             Inl e \<Rightarrow> Inl (show_file_path p @ '' does not parse: '' @ show_parse_error e)
           | Inr config \<Rightarrow>
               (let violations = validate_tree env sc config @ check_constraints sc config
                in if violations \<noteq> [] then
                     Inl (show_file_path p @ '' is not a valid configuration:'' @ [newline] @
                       violation_lines violations)
                   else Inr (Some config))))"

definition fall_back ::
  "('m, 's, 'b) configd \<Rightarrow> 'b moment \<Rightarrow> string \<Rightarrow> ('m, 'b) world \<Rightarrow> ('m, 'b) world \<times> outcome" where
  "fall_back cd mo reason w =
     (let config = defaults (cd_schema cd)
      in (adopt cd mo config (w\<lparr>w_machine := fst (commit_apply (cd_renderers cd) config (w_machine w))\<rparr>),
          Defaults reason))"

definition apply_at_boot ::
  "('m, 's, 'b) configd \<Rightarrow> 'b moment \<Rightarrow> config_tree \<Rightarrow> ('m, 'b) world \<Rightarrow> ('m, 'b) world \<times> outcome" where
  "apply_at_boot cd mo config w =
     (case commit_apply (cd_renderers cd) config (w_machine w) of
        (m, Inr u) \<Rightarrow>
          (adopt cd mo config (w\<lparr>w_machine := m\<rparr>), AppliedSaved (length (diff tree_new config)))
      | (m, Inl e) \<Rightarrow>
          fall_back cd mo (''the saved configuration could not be applied: '' @ show_commit_error e)
            (w\<lparr>w_machine := m\<rparr>))"

text \<open>Leaving the reason for \<open>ns\<close> to show, or taking an old one away.\<close>

definition mark_boot :: "('m, 's, 'b) configd \<Rightarrow> 'b moment \<Rightarrow> outcome \<Rightarrow> 'b disk \<Rightarrow> 'b disk" where
  "mark_boot cd mo out d =
     (let marker = boot_failure (cd_paths cd)
      in case outcome_failed out of
           Some reason \<Rightarrow> fst (fs_write (mo_io mo) marker (Text reason) d)
         | None \<Rightarrow> fst (fs_remove (mo_io mo) marker d))"

definition boot ::
  "('m, 's, 'b) configd \<Rightarrow> 'b moment \<Rightarrow> ('m, 'b) world \<Rightarrow> ('m, 'b) world \<times> outcome" where
  "boot cd mo w =
     (case recovered_generation (w_daemon w) of
        Some generation \<Rightarrow> (w, AlreadyRunning generation)
      | None \<Rightarrow>
          (case
             (case saved (mo_io mo) (cd_values cd) (cd_schema cd) (config_boot (cd_paths cd)) (w_disk w) of
                Inr (Some config) \<Rightarrow> apply_at_boot cd mo config w
              | Inr None \<Rightarrow> (w, NothingSaved)
              | Inl reason \<Rightarrow> fall_back cd mo reason w)
           of (w', out) \<Rightarrow> (w'\<lparr>w_disk := mark_boot cd mo out (w_disk w')\<rparr>, out)))"

end
