(* ===== verification/Disk_Frames.thy ===== *)
theory Disk_Frames
  imports Boot
begin

text \<open>
  Which files each operation of the daemon touches, and what it leaves in them when the disk does
  not fail. \<open>leaves P d d'\<close> says that going from \<open>d\<close> to \<open>d'\<close> changed no file outside \<open>P\<close>.
\<close>

definition leaves :: "file_path set \<Rightarrow> 'b disk \<Rightarrow> 'b disk \<Rightarrow> bool" where
  "leaves P d d' \<longleftrightarrow> (bm_ok d \<longrightarrow> bm_ok d') \<and> (\<forall>q. q \<notin> P \<longrightarrow> data_at d' q = data_at d q)"

lemma leaves_refl [simp]: "leaves P d d"
  by (simp add: leaves_def)

lemma leaves_trans: "leaves P d d1 \<Longrightarrow> leaves P d1 d2 \<Longrightarrow> leaves P d d2"
  by (auto simp: leaves_def)

lemma leaves_mono: "leaves P d d' \<Longrightarrow> P \<subseteq> Q \<Longrightarrow> leaves Q d d'"
  by (auto simp: leaves_def)

lemma leavesD: "leaves P d d' \<Longrightarrow> q \<notin> P \<Longrightarrow> data_at d' q = data_at d q"
  and leaves_ok: "leaves P d d' \<Longrightarrow> bm_ok d \<Longrightarrow> bm_ok d'"
  by (simp_all add: leaves_def)

section \<open>Single operations\<close>

lemma fs_write_leaves:
  assumes "fs_write io p c d = (d', r)" and "p \<in> P"
  shows "leaves P d d'"
proof -
  have "data_at d' q = data_at d q" if "q \<notin> P" for q
  proof (rule fs_write_data(1) [OF assms(1)])
    show "q \<noteq> p" using that assms(2) by auto
  qed
  then show ?thesis using disk_ok_steps(1) [OF _ assms(1)] by (simp add: leaves_def)
qed

lemma fs_remove_leaves: "fs_remove io p d = (d', r) \<Longrightarrow> p \<in> P \<Longrightarrow> leaves P d d'"
  by (auto simp: fs_remove_def leaves_def data_at_def bm_get_remove bm_ok_remove split: option.splits)

lemma fs_set_mode_leaves: "fs_set_mode io p m d = (d', r) \<Longrightarrow> leaves P d d'"
  by (auto simp: fs_set_mode_def leaves_def data_at_def bm_get_insert bm_ok_insert split: option.splits)

lemma fs_rename_leaves: "fs_rename io p q d = (d', r) \<Longrightarrow> p \<in> P \<Longrightarrow> q \<in> P \<Longrightarrow> leaves P d d'"
  by (auto simp: fs_rename_def leaves_def data_at_def bm_get_insert bm_get_remove
      intro!: bm_ok_insert bm_ok_remove split: option.splits)

lemma replace_file_leaves:
  assumes "replace_file io tmp final c d = (d', r)" and "tmp \<in> P" and "final \<in> P"
  shows "leaves P d d'"
  using assms(1)
proof (cases rule: replace_file_cases)
  case (unwritten e)
  then show ?thesis using assms(2) by (intro fs_write_leaves)
next
  case (unrenamed d1 e)
  then show ?thesis using assms(2,3) by (intro leaves_trans [OF fs_write_leaves fs_rename_leaves])
next
  case (replaced d1)
  then show ?thesis using assms(2,3) by (intro leaves_trans [OF fs_write_leaves fs_rename_leaves])
qed

lemma prune_file_leaves: "prune_file io p d = (d', r) \<Longrightarrow> p \<in> P \<Longrightarrow> leaves P d d'"
  by (auto simp: prune_file_def split: prod.splits sum.splits io_error.splits intro: fs_remove_leaves)

section \<open>The daemon's files\<close>

definition running_files :: "paths \<Rightarrow> file_path set" where
  "running_files ps = {running_path ps, with_extension (running_path ps) ''json.new''}"

definition marker_files :: "paths \<Rightarrow> file_path set" where
  "marker_files ps = {pending_confirm ps, with_extension (pending_confirm ps) ''json.new''}"

definition session_files :: "paths \<Rightarrow> session_id \<Rightarrow> file_path set" where
  "session_files ps i = {session_file ps i, with_extension (session_file ps i) ''json.new''}"

definition saved_files :: "paths \<Rightarrow> file_path set" where
  "saved_files ps = {config_boot ps, with_extension (config_boot ps) ''boot.new''}"

definition archive_files :: "paths \<Rightarrow> file_path set" where
  "archive_files ps = {q. \<exists>s. q = archive_dir ps @ s}"

lemma temporary_names:
  "with_extension (running_path ps) ''json.new'' =
     paths_root ps @ [''run'', ''nightshade'', ''running.json.new'']"
  "with_extension (pending_confirm ps) ''json.new'' =
     paths_root ps @ [''run'', ''nightshade'', ''pending-confirm.json.new'']"
  "with_extension (config_boot ps) ''boot.new'' =
     paths_root ps @ [''etc'', ''nightshade'', ''config.boot.new'']"
  using with_extension_ext [of "''json''" "''running''" "paths_root ps @ [''run'', ''nightshade'']" "''json.new''"]
    with_extension_ext [of "''boot''" "''config''" "paths_root ps @ [''etc'', ''nightshade'']" "''boot.new''"]
  by (simp_all add: pending_tmp) (simp_all add: fixed_paths)

lemma session_files_eq:
  "valid_id i \<Longrightarrow> session_files ps i =
     {sessions_dir ps @ [i @ ''.json''], sessions_dir ps @ [i @ ''.json.new'']}"
  by (simp add: session_files_def session_path)

lemmas file_sets = running_files_def marker_files_def saved_files_def archive_files_def
  temporary_names session_files_eq

lemma save_running_leaves: "leaves (running_files ps) d (fst (save_running io c ps t g d))"
  by (auto simp: save_running_def running_files_def Let_def split: prod.splits sum.splits
      intro: replace_file_leaves)

lemma marker_arm_leaves: "marker_arm io c ps p d = (d', r) \<Longrightarrow> leaves (marker_files ps) d d'"
  by (auto simp: marker_arm_def marker_files_def Let_def split: prod.splits sum.splits
      intro: replace_file_leaves)

lemma marker_disarm_leaves: "marker_disarm io ps d = (d', r) \<Longrightarrow> leaves (marker_files ps) d d'"
  by (auto simp: marker_disarm_def marker_files_def split: prod.splits sum.splits io_error.splits
      intro: fs_remove_leaves)

lemma store_save_leaves: "store_save io c ps s d = (d', r) \<Longrightarrow> leaves (session_files ps (ss_id s)) d d'"
  by (auto simp: store_save_def session_files_def Let_def split: prod.splits sum.splits
      intro: replace_file_leaves)

lemma store_forget_leaves: "store_forget io ps i d = (d', r) \<Longrightarrow> leaves (session_files ps i) d d'"
  by (auto simp: store_forget_def session_files_def Let_def split: prod.splits sum.splits io_error.splits
      intro: fs_remove_leaves)

section \<open>The archive stays in its directory\<close>

lemma archive_name_relative: "\<not> starts_with (archive_stem ent @ x) ''/''"
proof -
  obtain c s where s: "pad_zero 6 (show_nat (ri_revision ent)) = c # s"
    using show_nat_nonempty [of "ri_revision ent"] by (cases "pad_zero 6 (show_nat (ri_revision ent))") (auto simp: pad_zero_def)
  have "c \<in> set (pad_zero 6 (show_nat (ri_revision ent)))" by (simp add: s)
  then have "c \<noteq> CHR ''/''"
    using show_nat_digits [of "CHR ''/''" "ri_revision ent"] by (auto simp: pad_zero_def is_ascii_digit_def code_def)
  then show ?thesis by (simp add: archive_stem_def s starts_with_iff)
qed

lemma archive_paths_below:
  "boot_path (archive_dir ps) ent \<in> archive_files ps" "meta_path (archive_dir ps) ent \<in> archive_files ps"
  by (simp_all add: boot_path_def meta_path_def path_join_def archive_name_relative archive_files_def)

lemma prune_each_leaves: "prune_each io (archive_dir ps) ents n d = (d', r) \<Longrightarrow> leaves (archive_files ps) d d'"
proof (induction ents arbitrary: n d)
  case (Cons ent ents)
  obtain d1 r1 where 1: "prune_file io (boot_path (archive_dir ps) ent) d = (d1, r1)" by fastforce
  obtain d2 r2 where 2: "prune_file io (meta_path (archive_dir ps) ent) d1 = (d2, r2)" by fastforce
  have l1: "leaves (archive_files ps) d d1" by (rule prune_file_leaves [OF 1 archive_paths_below(1)])
  have l2: "leaves (archive_files ps) d d2"
    by (rule leaves_trans [OF l1 prune_file_leaves [OF 2 archive_paths_below(2)]])
  show ?case
  proof (cases r1)
    case (Inl e)
    then show ?thesis using Cons.prems l1 by (simp add: 1)
  next
    case (Inr u)
    then show ?thesis using Cons.prems l2 Cons.IH leaves_trans [OF l2] by (cases r2) (auto simp: 1 2)
  qed
qed simp

lemma archive_write_leaves:
  assumes "archive_write io mc gz (archive_dir ps) sc ent config d = (d', r)"
  shows "leaves (archive_files ps) d d'"
proof -
  obtain d1 r1 where 1: "fs_write io (boot_path (archive_dir ps) ent) (Data (enc gz (render (is_tag_node sc) config))) d
      = (d1, r1)" by fastforce
  obtain d2 r2 where 2: "fs_write io (meta_path (archive_dir ps) ent) (Data (enc mc ent)) d1 = (d2, r2)" by fastforce
  obtain d3 r3 where 3: "prune io mc (archive_dir ps) d2 = (d3, r3)" by fastforce
  have l1: "leaves (archive_files ps) d d1" by (rule fs_write_leaves [OF 1 archive_paths_below(1)])
  have l2: "leaves (archive_files ps) d d2"
    by (rule leaves_trans [OF l1 fs_write_leaves [OF 2 archive_paths_below(2)]])
  have "leaves (archive_files ps) d2 d3"
    using 3 by (auto simp: prune_def intro: prune_each_leaves split: sum.splits)
  note l3 = leaves_trans [OF l2 this]
  show ?thesis using assms l1 l2 l3
    by (cases "create_dir_all io (archive_dir ps)"; cases r1; cases r2; cases r3)
      (auto simp: archive_write_def 1 2 3)
qed

end
