(* ===== verification/Configd_Laws.thy ===== *)
theory Configd_Laws
  imports Disk_Frames
begin

text \<open>
  What the daemon keeps while it runs, whatever the disk does: a request, the rollback timer and a
  restart are the steps of a transition relation, and the properties hold of every run. The
  properties of one life (between restarts) are here; those that cross a restart are in
  \<open>Restart_Laws\<close>.
\<close>

section \<open>Steps\<close>

datatype 'b event =
    Asked "'b moment" actor request
  | Fired "'b moment"
  | Restarted "'b moment"

inductive step :: "('m, 's, 'b) configd \<Rightarrow> 'b event \<Rightarrow> ('m, 'b) world \<Rightarrow> ('m, 'b) world \<Rightarrow> bool"
  for cd where
  asked: "step cd (Asked mo a req) w (fst (handle cd mo a req w))"
| fired: "dm_timer (w_daemon w) = Some t \<Longrightarrow> t \<le> mo_now mo \<Longrightarrow> step cd (Fired mo) w (roll_back cd mo w)"
| restarted: "start cd (mo_io mo) (w_disk w) = Inr s \<Longrightarrow>
    step cd (Restarted mo) w (fst (boot cd mo (resume cd mo (w\<lparr>w_daemon := s\<rparr>))))"

inductive runs :: "('m, 's, 'b) configd \<Rightarrow> 'b event list \<Rightarrow> ('m, 'b) world \<Rightarrow> ('m, 'b) world \<Rightarrow> bool"
  for cd where
  runs_Nil: "runs cd [] w w"
| runs_snoc: "runs cd evs w w1 \<Longrightarrow> step cd ev w1 w2 \<Longrightarrow> runs cd (evs @ [ev]) w w2"

inductive_cases step_askedE: "step cd (Asked mo a req) w w'"
inductive_cases step_firedE: "step cd (Fired mo) w w'"
inductive_cases step_restartedE: "step cd (Restarted mo) w w'"
inductive_simps step_simps: "step cd (Asked mo a req) w w'" "step cd (Fired mo) w w'" "step cd (Restarted mo) w w'"

fun same_life :: "'b event \<Rightarrow> bool" where
  "same_life (Restarted mo) = False"
| "same_life _ = True"

section \<open>What one operation does to the daemon's state\<close>

lemma dm_upd_simps [simp]:
  "w_daemon (dm_upd f w) = f (w_daemon w)" "w_machine (dm_upd f w) = w_machine w" "w_disk (dm_upd f w) = w_disk w"
  by (simp_all add: dm_upd_def)

lemma note_running_simps [simp]:
  "w_daemon (note_running cd mo w) = w_daemon w" "w_machine (note_running cd mo w) = w_machine w"
  by (simp_all add: note_running_def)

lemma disarm_simps [simp]:
  "w_daemon (disarm cd mo w) = w_daemon w" "w_machine (disarm cd mo w) = w_machine w"
  by (simp_all add: disarm_def)

lemma record_revision_simps [simp]:
  "w_daemon (record_revision cd mo t a note g cs w) = w_daemon w"
  "w_machine (record_revision cd mo t a note g cs w) = w_machine w"
  by (simp_all add: record_revision_def Let_def)

lemma put_session_simps [simp]:
  "w_daemon (put_session i ss w) = (w_daemon w)\<lparr>dm_sessions := bm_insert i ss (dm_sessions (w_daemon w))\<rparr>"
  "w_machine (put_session i ss w) = w_machine w" "w_disk (put_session i ss w) = w_disk w"
  by (simp_all add: put_session_def)

lemma keep_session_effect:
  assumes "keep_session cd mo i ss resp w = (w', r)"
  shows "w_daemon w' = (w_daemon w)\<lparr>dm_sessions := bm_insert i ss (dm_sessions (w_daemon w))\<rparr>"
    and "w_machine w' = w_machine w"
    and "w_disk w' = fst (store_save (mo_io mo) (cd_session_codec cd) (cd_paths cd) ss (w_disk w))"
  using assms by (auto simp: keep_session_def split: prod.splits sum.splits)

lemma owned_Inr: "owned s i a = Inr ss \<longleftrightarrow> bm_get (dm_sessions s) i = Some ss \<and> owned_by ss a"
  by (auto simp: owned_def split: option.splits)

lemma promote_effect:
  assumes "w1 = promote cd mo i t w" and "s = w_daemon w"
  shows "w_daemon w1 = s\<lparr>dm_running := t, dm_generation := dm_generation s + 1,
      dm_history := drop (length (dm_history s) + 1 - HISTORY) (dm_history s @ [(dm_generation s, dm_running s)]),
      dm_sessions := (case bm_get (dm_sessions s) i of None \<Rightarrow> dm_sessions s
        | Some ss \<Rightarrow> bm_insert i (ss\<lparr>ss_base := dm_generation s + 1\<rparr>) (dm_sessions s))\<rparr>"
    and "w_machine w1 = w_machine w"
proof -
  have "w_daemon w1 = s\<lparr>dm_running := t, dm_generation := dm_generation s + 1,
      dm_history := drop (length (dm_history s) + 1 - HISTORY) (dm_history s @ [(dm_generation s, dm_running s)]),
      dm_sessions := (case bm_get (dm_sessions s) i of None \<Rightarrow> dm_sessions s
        | Some ss \<Rightarrow> bm_insert i (ss\<lparr>ss_base := dm_generation s + 1\<rparr>) (dm_sessions s))\<rparr> \<and>
    w_machine w1 = w_machine w"
  proof (cases "bm_get (dm_sessions s) i")
    case None
    then show ?thesis using assms by (simp add: promote_def Let_def)
  next
    case (Some ss)
    then show ?thesis using assms
      by (simp add: promote_def Let_def keep_session_effect [OF prod.collapse [symmetric]])
  qed
  then show "w_daemon w1 = s\<lparr>dm_running := t, dm_generation := dm_generation s + 1,
      dm_history := drop (length (dm_history s) + 1 - HISTORY) (dm_history s @ [(dm_generation s, dm_running s)]),
      dm_sessions := (case bm_get (dm_sessions s) i of None \<Rightarrow> dm_sessions s
        | Some ss \<Rightarrow> bm_insert i (ss\<lparr>ss_base := dm_generation s + 1\<rparr>) (dm_sessions s))\<rparr>"
    and "w_machine w1 = w_machine w" by blast+
qed

text \<open>The cases of a commit: refused with nothing done, failed in the renderers, or promoted.\<close>

lemma do_commit_cases:
  fixes r :: "'s response"
  assumes "do_commit cd mo i a note minutes w = (w', r)"
  obtains (refused) "w' = w" "\<And>g cs c. r = Committed g cs c \<Longrightarrow> g = dm_generation (w_daemon w) \<and> cs = [] \<and> c = None"
  | (failed) m where "w' = w\<lparr>w_machine := m\<rparr>" "\<And>g cs c. r \<noteq> Committed g cs c"
  | (promoted) ss m w1 where "owned (w_daemon w) i a = (Inr ss :: 's response + session)"
      "dm_pending (w_daemon w) = None" "ss_base ss = dm_generation (w_daemon w)"
      "commit_validate (cd_values cd) (cd_schema cd) (ss_candidate ss) = Inr ()"
      "commit_apply (cd_renderers cd) (ss_candidate ss) (w_machine w) = (m, Inr ())"
      "w1 = promote cd mo i (ss_candidate ss) (w\<lparr>w_machine := m\<rparr>)"
      "case minutes of
         None \<Rightarrow> w' = record_revision cd mo (ss_candidate ss) a note (dm_generation (w_daemon w) + 1)
             (order (cd_schema cd) (diff (dm_running (w_daemon w)) (ss_candidate ss))) w1 \<and>
           r = Committed (dm_generation (w_daemon w) + 1)
             (order (cd_schema cd) (diff (dm_running (w_daemon w)) (ss_candidate ss))) None
       | Some k \<Rightarrow> await_confirm cd mo i a note k (dm_generation (w_daemon w))
             (order (cd_schema cd) (diff (dm_running (w_daemon w)) (ss_candidate ss))) w1 = (w', r)"
proof (cases "owned (w_daemon w) i a :: 's response + session")
  case (Inl resp)
  then have "r = resp" "w' = w" using assms by (simp_all add: do_commit_def Let_def)
  moreover have "resp \<noteq> Committed g cs c" for g cs c
    using Inl by (auto simp: owned_def split: option.splits if_splits)
  ultimately show ?thesis by (intro refused) auto
next
  case own: (Inr ss)
  let ?s = "w_daemon w" and ?t = "ss_candidate ss"
  let ?cs = "order (cd_schema cd) (diff (dm_running ?s) ?t)"
  consider (pend) p where "dm_pending ?s = Some p" | (moved) "dm_pending ?s = None" "ss_base ss \<noteq> dm_generation ?s"
    | (invalid) e where "dm_pending ?s = None" "ss_base ss = dm_generation ?s"
        "commit_validate (cd_values cd) (cd_schema cd) ?t = Inl e"
    | (same) "dm_pending ?s = None" "ss_base ss = dm_generation ?s"
        "commit_validate (cd_values cd) (cd_schema cd) ?t = Inr ()" "?cs = []"
    | (go) "dm_pending ?s = None" "ss_base ss = dm_generation ?s"
        "commit_validate (cd_values cd) (cd_schema cd) ?t = Inr ()" "?cs \<noteq> []"
    by (cases "dm_pending ?s"; cases "commit_validate (cd_values cd) (cd_schema cd) ?t") auto
  then show ?thesis
  proof cases
    case pend
    then show ?thesis using assms own by (intro refused) (auto simp: do_commit_def Let_def)
  next
    case moved
    then show ?thesis using assms own
      by (intro refused) (auto simp: do_commit_def Let_def changed_underneath_def)
  next
    case invalid
    then show ?thesis using assms own by (intro refused) (auto simp: do_commit_def Let_def resp_invalid_def)
  next
    case same
    then show ?thesis using assms own by (intro refused) (auto simp: do_commit_def Let_def)
  next
    case go
    obtain m res where app: "commit_apply (cd_renderers cd) ?t (w_machine w) = (m, res)" by fastforce
    show ?thesis
    proof (cases res)
      case (Inl e)
      then show ?thesis using assms own go app by (intro failed [of m]) (auto simp: do_commit_def Let_def)
    next
      case (Inr u)
      have "dm_running (w_daemon (promote cd mo i ?t (w\<lparr>w_machine := m\<rparr>))) = ?t"
        by (subst promote_effect(1) [OF refl refl]) simp
      then show ?thesis using assms own go app Inr
        by (intro promoted [OF own go(1-3) _ refl]) (auto simp: do_commit_def Let_def split: option.splits)
    qed
  qed
qed

lemma await_confirm_cases:
  assumes "await_confirm cd mo i a note k was cs w = (w', r)" and "s = w_daemon w"
    and "p = \<lparr>pd_deadline = mo_now mo + int k * 60, pd_minutes = k, pd_session = i,
               pd_actor_uid = a_uid a, pd_actor = a_username a, pd_comment = note,
               pd_previous = (if dm_history s = [] then tree_new else snd (last (dm_history s))),
               pd_previous_generation = was, pd_committed = dm_running s, pd_generation = was + 1\<rparr>"
  obtains (unarmed) d e where "marker_arm (mo_io mo) (cd_pending_codec cd) (cd_paths cd) p (w_disk w) = (d, Inl e)"
      "w' = w\<lparr>w_disk := d\<rparr>" "\<And>g cs c. r \<noteq> Committed g cs c"
  | (armed) d where "marker_arm (mo_io mo) (cd_pending_codec cd) (cd_paths cd) p (w_disk w) = (d, Inr ())"
      "w' = dm_upd (\<lambda>s. s\<lparr>dm_pending := Some p, dm_timer := Some (mo_now mo + int k * 60)\<rparr>) (w\<lparr>w_disk := d\<rparr>)"
      "r = Committed (was + 1) cs (Some (k * 60))"
proof -
  obtain d res where arm: "marker_arm (mo_io mo) (cd_pending_codec cd) (cd_paths cd) p (w_disk w) = (d, res)"
    by fastforce
  have left: "remaining (mo_now mo) p = k * 60"
    by (simp add: assms(3) remaining_def nat_mult_distrib)
  have time: "arm_timer mo (k * 60) = mo_now mo + int k * 60" by (simp add: arm_timer_def)
  have p: "p = \<lparr>pd_deadline = deadline_in (mo_now mo) k, pd_minutes = k, pd_session = i,
               pd_actor_uid = a_uid a, pd_actor = a_username a, pd_comment = note,
               pd_previous = (if dm_history s = [] then tree_new else snd (last (dm_history s))),
               pd_previous_generation = was, pd_committed = dm_running s, pd_generation = was + 1\<rparr>"
    by (simp add: assms(3) deadline_in_def)
  show thesis
  proof (cases res)
    case (Inl e)
    then show thesis
      using assms(1) arm unfolding await_confirm_def Let_def assms(2) [symmetric] p [symmetric]
      by (intro unarmed [of d e]) auto
  next
    case (Inr u)
    then show thesis
      using assms(1) arm unfolding await_confirm_def Let_def assms(2) [symmetric] p [symmetric] left time
      by (intro armed [of d]) auto
  qed
qed

definition sound :: "('m, 's, 'b) configd \<Rightarrow> config_tree \<Rightarrow> bool" where
  "sound cd t \<longleftrightarrow> validate_tree (cd_values cd) (cd_schema cd) t = [] \<and> check_constraints (cd_schema cd) t = []"

lemma commit_validate_sound:
  "commit_validate (cd_values cd) (cd_schema cd) t = Inr u \<longleftrightarrow> sound cd t"
  by (auto simp: commit_validate_def sound_def Let_def split: if_splits)

text \<open>What a promoted commit leaves: the new configuration, and the old one to go back to.\<close>

definition promoted_daemon :: "session_id \<Rightarrow> config_tree \<Rightarrow> pending option \<Rightarrow> daemon \<Rightarrow> daemon" where
  "promoted_daemon i t q s =
     s\<lparr>dm_running := t, dm_generation := dm_generation s + 1,
       dm_history := drop (length (dm_history s) + 1 - HISTORY) (dm_history s @ [(dm_generation s, dm_running s)]),
       dm_sessions := (case bm_get (dm_sessions s) i of None \<Rightarrow> dm_sessions s
         | Some ss \<Rightarrow> bm_insert i (ss\<lparr>ss_base := dm_generation s + 1\<rparr>) (dm_sessions s)),
       dm_pending := q, dm_timer := (case q of None \<Rightarrow> dm_timer s | Some p \<Rightarrow> Some (pd_deadline p))\<rparr>"

lemma history_last:
  "last (drop (length h + 1 - HISTORY) (h @ [x])) = x" "drop (length h + 1 - HISTORY) (h @ [x]) \<noteq> []"
  by (simp_all add: HISTORY_def last_drop)

lemma do_commit_daemon:
  fixes r :: "'s response"
  assumes "do_commit cd mo i a note minutes w = (w', r)" and "s = w_daemon w"
  obtains (unchanged) "w_daemon w' = s" "\<And>g cs c. r = Committed g cs c \<Longrightarrow> g = dm_generation s \<and> cs = [] \<and> c = None"
  | (changed) ss q where "owned s i a = (Inr ss :: 's response + session)" "dm_pending s = None"
      "ss_base ss = dm_generation s" "sound cd (ss_candidate ss)"
      "w_daemon w' = promoted_daemon i (ss_candidate ss) q s"
      "\<And>g cs c. r = Committed g cs c \<Longrightarrow> g = dm_generation s + 1 \<and> (q = None \<longleftrightarrow> minutes = None) \<and>
         c = map_option (\<lambda>p. pd_minutes p * 60) q"
      "\<And>p. q = Some p \<Longrightarrow> pd_previous p = dm_running s \<and> pd_committed p = ss_candidate ss \<and>
         pd_generation p = dm_generation s + 1 \<and> minutes = Some (pd_minutes p) \<and>
         pd_deadline p = mo_now mo + int (pd_minutes p) * 60 \<and> pd_session p = i"
  using assms(1)
proof (cases rule: do_commit_cases)
  case refused
  then show ?thesis using assms(2) by (intro unchanged) auto
next
  case (failed m)
  then show ?thesis using assms(2) by (intro unchanged) auto
next
  case (promoted ss m w1)
  note sound = promoted(4) [unfolded commit_validate_sound]
  have "s = w_daemon (w\<lparr>w_machine := m\<rparr>)" using assms(2) by simp
  note w1 = promote_effect(1) [OF promoted(6) this]
  have none: "dm_pending s = None" using promoted(2) assms(2) by simp
  let ?cs = "order (cd_schema cd) (diff (dm_running s) (ss_candidate ss))"
  show ?thesis
  proof (cases minutes)
    case None
    then have "w' = record_revision cd mo (ss_candidate ss) a note (dm_generation s + 1) ?cs w1 \<and>
        r = Committed (dm_generation s + 1) ?cs None"
      using promoted(7) assms(2) by simp
    then have "w_daemon w' = promoted_daemon i (ss_candidate ss) None s"
      "\<And>g cs c. r = Committed g cs c \<Longrightarrow> g = dm_generation s + 1 \<and> c = None"
      using w1 none by (simp_all add: promoted_daemon_def)
    then show ?thesis
      using promoted(1-3) sound assms(2) None by (intro changed [of ss None]) auto
  next
    case (Some k)
    then have "await_confirm cd mo i a note k (dm_generation s) ?cs w1 = (w', r)"
      using promoted(7) assms(2) by simp
    then show ?thesis
    proof (rule await_confirm_cases [OF _ refl refl], goal_cases)
      case unarmed: (1 d e)
      have "w_daemon w' = promoted_daemon i (ss_candidate ss) None s"
        using w1 none unarmed(2) by (simp add: promoted_daemon_def)
      then show ?thesis
        using promoted(1-3) sound assms(2) unarmed(3) by (intro changed [of ss None]) auto
    next
      case armed: (2 d)
      let ?p = "\<lparr>pd_deadline = mo_now mo + int k * 60, pd_minutes = k, pd_session = i,
               pd_actor_uid = a_uid a, pd_actor = a_username a, pd_comment = note,
               pd_previous = (if dm_history (w_daemon w1) = [] then tree_new else snd (last (dm_history (w_daemon w1)))),
               pd_previous_generation = dm_generation s, pd_committed = dm_running (w_daemon w1),
               pd_generation = dm_generation s + 1\<rparr>"
      have h: "dm_history (w_daemon w1) =
          drop (length (dm_history s) + 1 - HISTORY) (dm_history s @ [(dm_generation s, dm_running s)])"
        and "dm_running (w_daemon w1) = ss_candidate ss"
        by (simp_all add: w1)
      then have prev: "pd_previous ?p = dm_running s" "pd_committed ?p = ss_candidate ss"
        by (simp_all only: pending.select_convs h history_last if_False snd_conv)
      have "w_daemon w' = promoted_daemon i (ss_candidate ss) (Some ?p) s"
        using w1 armed(2) by (simp add: promoted_daemon_def)
      then show ?thesis
        using promoted(1-3) sound assms(2) prev armed(3) Some by (intro changed [of ss "Some ?p"]) auto
    qed
  qed
qed

lemma do_confirm_daemon:
  fixes r :: "'s response"
  assumes "do_confirm cd mo i a w = (w', r)"
  obtains (unchanged) "w' = w" "\<And>g cs c. r \<noteq> Committed g cs c"
  | (confirmed) ss p cs where "owned (w_daemon w) i a = (Inr ss :: 's response + session)"
      "dm_pending (w_daemon w) = Some p"
      "w_daemon w' = (w_daemon w)\<lparr>dm_pending := None, dm_timer := None\<rparr>" "w_machine w' = w_machine w"
      "r = Committed (pd_generation p) cs None"
proof (cases "owned (w_daemon w) i a :: 's response + session")
  case (Inl resp)
  then have "resp \<noteq> Committed g cs c" for g cs c
    by (auto simp: owned_def split: option.splits if_splits)
  then show ?thesis using assms Inl by (intro unchanged) (auto simp: do_confirm_def)
next
  case (Inr ss)
  show ?thesis
  proof (cases "dm_pending (w_daemon w)")
    case None
    then show ?thesis using assms Inr by (intro unchanged) (auto simp: do_confirm_def bad_request_def)
  next
    case (Some p)
    then show ?thesis using assms Inr by (intro confirmed [OF Inr Some]) (auto simp: do_confirm_def Let_def)
  qed
qed

lemma roll_back_daemon:
  assumes "dm_pending (w_daemon w) = Some p"
    and "commit_apply (cd_renderers cd) (pd_previous p) (w_machine w) = (m, res)" and "w' = roll_back cd mo w"
  shows "w_daemon w' = (w_daemon w)\<lparr>dm_pending := None, dm_timer := None,
      dm_running := (if is_ok res then pd_previous p else dm_running (w_daemon w)),
      dm_generation := (if is_ok res then dm_generation (w_daemon w) + 1 else dm_generation (w_daemon w))\<rparr>"
    and "w_machine w' = m"
  using assms by (cases res; simp add: roll_back_def Let_def)+

text \<open>Every other request leaves all but the sessions alone.\<close>

definition calm :: "daemon \<Rightarrow> daemon \<Rightarrow> bool" where
  "calm s s' \<longleftrightarrow> s' = s\<lparr>dm_sessions := dm_sessions s'\<rparr>"

fun deciding :: "request \<Rightarrow> bool" where
  "deciding (Commit i note minutes) = True"
| "deciding (Confirm i) = True"
| "deciding _ = False"

lemma keep_session_calm: "calm (w_daemon w) (w_daemon (fst (keep_session cd mo i ss resp w)))"
  by (simp add: keep_session_effect [OF prod.collapse [symmetric]] calm_def)

lemma calm_refl [simp]: "calm s s"
  by (simp add: calm_def)

lemma handle_calm: "\<not> deciding req \<Longrightarrow> calm (w_daemon w) (w_daemon (fst (handle cd mo a req w)))"
proof (cases req)
  case SessionOpen
  then show ?thesis by (auto simp: do_open_def Let_def calm_def split: sum.split prod.split)
next
  case (SessionClose i)
  then show ?thesis by (auto simp: do_close_def Let_def calm_def split: sum.split)
next
  case (SetValue i p v)
  then show ?thesis using keep_session_calm by (auto simp: do_set_def split: sum.split prod.split)
next
  case (DeleteNode i p v)
  then show ?thesis using keep_session_calm by (auto simp: do_delete_def split: sum.split prod.split)
next
  case (Discard i)
  then show ?thesis using keep_session_calm by (auto simp: do_discard_def split: sum.split)
next
  case (Load i source)
  then show ?thesis using keep_session_calm by (auto simp: do_load_def Let_def split: sum.split prod.split)
next
  case Save
  then show ?thesis by (auto simp: do_save_def Let_def split: sum.split prod.split)
next
  case (OpShow target)
  then show ?thesis by (cases target) (auto simp: op_show_def Let_def)
qed auto

end
