(* ===== verification/Config_Store.thy ===== *)
theory Config_Store
  imports Configd_Laws
begin

text \<open>
  What the daemon promises about the running configuration, without its disk, its sessions and its
  renderers: a store with a version that moves whenever the configuration does, which takes only
  fit configurations and can hold one change that may still be undone. The daemon refines it, and
  what a client of such a store relies on is proved once, in the locales.
\<close>

section \<open>The contract\<close>

locale versioned =
  fixes moves :: "'w \<Rightarrow> 'w \<Rightarrow> bool"
    and version :: "'w \<Rightarrow> nat"
    and config :: "'w \<Rightarrow> 'c"
  assumes moved: "moves w w' \<Longrightarrow> version w' = version w \<and> config w' = config w \<or> version w < version w'"
begin

text \<open>A version seen again is the same configuration: nothing changed in between.\<close>

lemma same_version:
  "moves\<^sup>*\<^sup>* w w' \<Longrightarrow> version w \<le> version w' \<and> (version w' = version w \<longrightarrow> config w' = config w)"
proof (induction rule: rtranclp_induct)
  case (step w1 w2)
  then show ?case using moved [of w1 w2] by auto
qed simp

end

locale undoable = versioned moves version config
  for moves :: "'w \<Rightarrow> 'w \<Rightarrow> bool" and version :: "'w \<Rightarrow> nat" and config :: "'w \<Rightarrow> 'c" +
  fixes undo :: "'w \<Rightarrow> 'c option"
    and fit :: "'c \<Rightarrow> bool"
  assumes admitted: "moves w w' \<Longrightarrow> fit (config w') \<or> config w' = config w \<or> undo w = Some (config w')"
    and held: "moves w w' \<Longrightarrow> undo w' = None \<or> undo w' = undo w \<or> undo w' = Some (config w)"
begin

lemma stays_fit:
  "moves\<^sup>*\<^sup>* w w' \<Longrightarrow> fit (config w) \<and> (\<forall>t. undo w = Some t \<longrightarrow> fit t) \<Longrightarrow>
   fit (config w') \<and> (\<forall>t. undo w' = Some t \<longrightarrow> fit t)"
proof (induction rule: rtranclp_induct)
  case (step w1 w2)
  then show ?case using admitted [of w1 w2] held [of w1 w2] by auto
qed

end

section \<open>The abstract store\<close>

record store =
  st_config :: config_tree
  st_version :: nat
  st_undo :: "config_tree option"

datatype store_label = Stays | Changes | Keeps | Undoes | GivesUp

inductive store_step :: "(config_tree \<Rightarrow> bool) \<Rightarrow> store_label \<Rightarrow> store \<Rightarrow> store \<Rightarrow> bool" for fit where
  stays: "store_step fit Stays st st"
| changes: "fit t \<Longrightarrow> st_undo st = None \<Longrightarrow> u = None \<or> u = Some (st_config st) \<Longrightarrow>
    store_step fit Changes st \<lparr>st_config = t, st_version = st_version st + 1, st_undo = u\<rparr>"
| keeps: "st_undo st = Some t \<Longrightarrow> store_step fit Keeps st (st\<lparr>st_undo := None\<rparr>)"
| undoes: "st_undo st = Some t \<Longrightarrow>
    store_step fit Undoes st \<lparr>st_config = t, st_version = st_version st + 1, st_undo = None\<rparr>"
| gives_up: "st_undo st = Some t \<Longrightarrow> store_step fit GivesUp st (st\<lparr>st_undo := None\<rparr>)"

interpretation abstract_store: undoable "\<lambda>st st'. \<exists>l. store_step fit l st st'" st_version st_config st_undo fit
  for fit
  by unfold_locales (auto elim!: store_step.cases)

section \<open>The daemon refines it\<close>

definition store_of :: "('m, 'b) world \<Rightarrow> store" where
  "store_of w = \<lparr>st_config = dm_running (w_daemon w), st_version = dm_generation (w_daemon w),
     st_undo = map_option pd_previous (dm_pending (w_daemon w))\<rparr>"

fun event_labels :: "'b event \<Rightarrow> store_label set" where
  "event_labels (Asked mo a (Commit i note minutes)) = {Stays, Changes}"
| "event_labels (Asked mo a (Confirm i)) = {Stays, Keeps}"
| "event_labels (Asked mo a req) = {Stays}"
| "event_labels (Fired mo) = {Undoes, GivesUp}"
| "event_labels (Restarted mo) = {}"

text \<open>A timer runs exactly while a commit waits to be confirmed.\<close>

definition timer_ok :: "daemon \<Rightarrow> bool" where
  "timer_ok s \<longleftrightarrow> (dm_timer s = None \<longleftrightarrow> dm_pending s = None)"

lemma event_labels_calm: "\<not> deciding req \<Longrightarrow> event_labels (Asked mo a req) = {Stays}"
  by (cases req) simp_all

lemma calm_keeps:
  assumes "calm s s'"
  shows "dm_running s' = dm_running s" "dm_generation s' = dm_generation s" "dm_history s' = dm_history s"
    "dm_pending s' = dm_pending s" "dm_timer s' = dm_timer s"
  by (subst assms [unfolded calm_def], simp)+

lemma calm_store: "calm (w_daemon w) (w_daemon w') \<Longrightarrow> store_of w' = store_of w"
  by (simp add: store_of_def calm_keeps)

lemma commit_refines:
  assumes "w' = fst (do_commit cd mo i a note minutes w)" and "timer_ok (w_daemon w)"
  shows "\<exists>l \<in> {Stays, Changes}. store_step (sound cd) l (store_of w) (store_of w') \<and> timer_ok (w_daemon w')"
proof -
  obtain r where "do_commit cd mo i a note minutes w = (w', r)"
    using assms(1) by (cases "do_commit cd mo i a note minutes w") simp
  then show ?thesis
  proof (rule do_commit_daemon [OF _ refl], goal_cases)
    case 1
    then show ?thesis using assms(2) stays [of "sound cd" "store_of w"] by (auto simp: store_of_def)
  next
    case (2 ss q)
    have "store_step (sound cd) Changes (store_of w) \<lparr>st_config = ss_candidate ss,
        st_version = st_version (store_of w) + 1, st_undo = map_option pd_previous q\<rparr>"
      using 2(2,4,7) by (intro changes) (cases q, auto simp: store_of_def)
    moreover have "store_of w' = \<lparr>st_config = ss_candidate ss, st_version = st_version (store_of w) + 1,
        st_undo = map_option pd_previous q\<rparr>"
      using 2(5) by (simp add: store_of_def promoted_daemon_def)
    moreover have "timer_ok (w_daemon w')"
      using 2(2,5) assms(2) by (auto simp: timer_ok_def promoted_daemon_def split: option.splits)
    ultimately show ?thesis by auto
  qed
qed

lemma confirm_refines:
  assumes "w' = fst (do_confirm cd mo i a w)" and "timer_ok (w_daemon w)"
  shows "\<exists>l \<in> {Stays, Keeps}. store_step (sound cd) l (store_of w) (store_of w') \<and> timer_ok (w_daemon w')"
proof -
  obtain r where "do_confirm cd mo i a w = (w', r)"
    using assms(1) by (cases "do_confirm cd mo i a w") simp
  then show ?thesis
  proof (rule do_confirm_daemon, goal_cases)
    case 1
    then show ?thesis using assms(2) stays [of "sound cd" "store_of w"] by auto
  next
    case (2 ss p cs)
    then have "store_step (sound cd) Keeps (store_of w) ((store_of w)\<lparr>st_undo := None\<rparr>)"
      by (intro keeps [of _ "pd_previous p"]) (simp add: store_of_def)
    moreover have "store_of w' = (store_of w)\<lparr>st_undo := None\<rparr>" "timer_ok (w_daemon w')"
      using 2(3) by (simp_all add: store_of_def timer_ok_def)
    ultimately show ?thesis by auto
  qed
qed

lemma rollback_refines:
  assumes "w' = roll_back cd mo w" and "dm_pending (w_daemon w) = Some p"
  shows "\<exists>l \<in> {Undoes, GivesUp}. store_step (sound cd) l (store_of w) (store_of w') \<and> timer_ok (w_daemon w')"
proof -
  obtain m res where app: "commit_apply (cd_renderers cd) (pd_previous p) (w_machine w) = (m, res)" by fastforce
  note d = roll_back_daemon(1) [OF assms(2) app assms(1)]
  have u: "st_undo (store_of w) = Some (pd_previous p)" using assms(2) by (simp add: store_of_def)
  have "store_of w' = (if is_ok res then \<lparr>st_config = pd_previous p, st_version = st_version (store_of w) + 1,
      st_undo = None\<rparr> else (store_of w)\<lparr>st_undo := None\<rparr>)" "timer_ok (w_daemon w')"
    using d by (simp_all add: store_of_def timer_ok_def)
  then show ?thesis using undoes [OF u, of "sound cd"] gives_up [OF u, of "sound cd"] by (cases "is_ok res") auto
qed

lemma step_refines:
  assumes "step cd ev w w'" and "same_life ev" and "timer_ok (w_daemon w)"
  shows "\<exists>l \<in> event_labels ev. store_step (sound cd) l (store_of w) (store_of w') \<and> timer_ok (w_daemon w')"
  using assms(1)
proof cases
  case (asked mo a req)
  consider (commit) i cm minutes where "req = Commit i cm minutes" | (confirm) i where "req = Confirm i"
    | (calm) "\<not> deciding req" by (cases req) auto
  then show ?thesis
  proof cases
    case (commit i cm minutes)
    then show ?thesis using commit_refines [OF _ assms(3), of w' cd mo i a cm minutes] asked by simp
  next
    case (confirm i)
    then show ?thesis using confirm_refines [OF _ assms(3), of w' cd mo i a] asked by simp
  next
    case calm
    then have "calm (w_daemon w) (w_daemon w')" using handle_calm [of req w cd mo a] asked(2) by simp
    then have "store_of w' = store_of w" "timer_ok (w_daemon w')"
      using calm_store calm_keeps(4,5) [of "w_daemon w" "w_daemon w'"] assms(3) by (simp_all add: timer_ok_def)
    then show ?thesis using stays [of "sound cd" "store_of w"] by (simp add: asked(1) event_labels_calm [OF calm])
  qed
next
  case (fired t mo)
  then obtain p where "dm_pending (w_daemon w) = Some p" using assms(3) by (auto simp: timer_ok_def)
  then show ?thesis using rollback_refines [OF fired(2)] fired(1) by auto
qed (use assms(2) in simp)

text \<open>
  C1. The daemon is a versioned store. Each request and each firing of the timer is one step of the
  abstract store, of a kind fixed by the event: only a commit can take a new configuration, and
  then one that both passes of validation accept and only while no change waits; only a confirm
  can make a waiting change permanent; only the timer can undo one or give up on it; everything
  else leaves configuration, version and waiting change as they are. A timer keeps running exactly
  while a change waits.
\<close>

theorem daemon_refines_store:
  assumes "step cd ev w w'" and "same_life ev" and "timer_ok (w_daemon w)"
  shows "\<exists>l \<in> event_labels ev. store_step (sound cd) l (store_of w) (store_of w') \<and> timer_ok (w_daemon w')"
  using assms by (rule step_refines)

section \<open>What the contract gives the daemon's clients\<close>

definition lives :: "('m, 's, 'b) configd \<Rightarrow> ('m, 'b) world \<Rightarrow> ('m, 'b) world \<Rightarrow> bool" where
  "lives cd w w' \<longleftrightarrow> timer_ok (w_daemon w) \<and> (\<exists>ev. same_life ev \<and> step cd ev w w')"

lemma lives_store:
  assumes "lives cd w w'"
  obtains l where "store_step (sound cd) l (store_of w) (store_of w')" "timer_ok (w_daemon w')"
  using assms step_refines unfolding lives_def by blast

interpretation daemon_store: undoable "lives cd" "\<lambda>w. st_version (store_of w)" "\<lambda>w. st_config (store_of w)"
  "\<lambda>w. st_undo (store_of w)" "sound cd" for cd
proof unfold_locales
  fix w w'
  assume "lives cd w w'"
  then obtain l where l: "\<exists>l. store_step (sound cd) l (store_of w) (store_of w')" by (rule lives_store) blast
  show "st_version (store_of w') = st_version (store_of w) \<and> st_config (store_of w') = st_config (store_of w) \<or>
      st_version (store_of w) < st_version (store_of w')"
    by (rule abstract_store.moved [OF l])
  show "sound cd (st_config (store_of w')) \<or> st_config (store_of w') = st_config (store_of w) \<or>
      st_undo (store_of w) = Some (st_config (store_of w'))"
    by (rule abstract_store.admitted [OF l])
  show "st_undo (store_of w') = None \<or> st_undo (store_of w') = st_undo (store_of w) \<or>
      st_undo (store_of w') = Some (st_config (store_of w))"
    by (rule abstract_store.held [OF l])
qed

lemma runs_lives:
  assumes "runs cd evs w w'" and "list_all same_life evs" and "timer_ok (w_daemon w)"
  shows "(lives cd)\<^sup>*\<^sup>* w w' \<and> timer_ok (w_daemon w')"
  using assms
proof (induction rule: runs.induct)
  case (runs_snoc evs w w1 ev w2)
  then have w1: "(lives cd)\<^sup>*\<^sup>* w w1" "timer_ok (w_daemon w1)" by auto
  moreover have "lives cd w1 w2" using runs_snoc by (auto simp: lives_def)
  moreover from this have "timer_ok (w_daemon w2)" by (rule lives_store) simp
  ultimately show ?case by (meson rtranclp.rtrancl_into_rtrancl)
qed simp

lemma store_of_simps [simp]:
  "st_config (store_of w) = dm_running (w_daemon w)" "st_version (store_of w) = dm_generation (w_daemon w)"
  "st_undo (store_of w) = map_option pd_previous (dm_pending (w_daemon w))"
  by (simp_all add: store_of_def)

text \<open>
  C2. No operator's change is silently reverted. A session that was level with the running
  configuration at some time can commit later only if the running configuration is then still the
  one it was level with, however many requests of anybody and firings of the timer lie in between:
  what a successful commit replaces, and what it reports the changes against, is exactly that.
\<close>

theorem no_lost_update:
  assumes "runs cd evs w w1" and "list_all same_life evs" and "timer_ok (w_daemon w)"
    and "bm_get (dm_sessions (w_daemon w1)) i = Some ss" and "ss_base ss = dm_generation (w_daemon w)"
    and "handle cd mo a (Commit i note minutes) w1 = (w2, Committed g cs c)"
    and "cs \<noteq> []"
  shows "dm_running (w_daemon w1) = dm_running (w_daemon w) \<and> dm_running (w_daemon w2) = ss_candidate ss \<and>
    g = dm_generation (w_daemon w) + 1"
proof -
  have c: "do_commit cd mo i a note minutes w1 = (w2, Committed g cs c)" using assms(6) by simp
  show ?thesis
  proof (rule do_commit_daemon [OF c refl], goal_cases)
    case 1
    then show ?thesis using assms(7) by simp
  next
    case (2 ss' q)
    have "ss' = ss" using 2(1) assms(4) by (simp add: owned_Inr)
    then have "dm_generation (w_daemon w1) = dm_generation (w_daemon w)" using 2(3) assms(5) by simp
    moreover have "(lives cd)\<^sup>*\<^sup>* w w1" using runs_lives [OF assms(1-3)] by blast
    ultimately have "dm_running (w_daemon w1) = dm_running (w_daemon w)"
      using daemon_store.same_version [of cd w w1] by simp
    then show ?thesis using 2(5) 2(6) [OF refl] assms(5) 2(3) \<open>ss' = ss\<close> by (simp add: promoted_daemon_def)
  qed
qed

section \<open>Valid from boot on\<close>

lemma adopt_simps [simp]:
  "w_daemon (adopt cd mo t w) = (w_daemon w)\<lparr>dm_running := t, dm_generation := dm_generation (w_daemon w) + 1\<rparr>"
  "w_machine (adopt cd mo t w) = w_machine w"
  by (simp_all add: adopt_def)

lemma saved_sound: "saved io (cd_values cd) (cd_schema cd) p d = Inr (Some t) \<Longrightarrow> sound cd t"
  by (auto simp: saved_def Let_def sound_def split: sum.splits io_error.splits if_splits)

lemma apply_at_boot_cases:
  assumes "apply_at_boot cd mo t w = (w', out)"
  obtains (applied) m where "commit_apply (cd_renderers cd) t (w_machine w) = (m, Inr ())"
      "w' = adopt cd mo t (w\<lparr>w_machine := m\<rparr>)" "out = AppliedSaved (length (diff tree_new t))"
  | (fell_back) m e where "commit_apply (cd_renderers cd) t (w_machine w) = (m, Inl e)"
      "fall_back cd mo (''the saved configuration could not be applied: '' @ show_commit_error e)
         (w\<lparr>w_machine := m\<rparr>) = (w', out)"
proof -
  obtain m res where app: "commit_apply (cd_renderers cd) t (w_machine w) = (m, res)" by fastforce
  show thesis using assms app applied fell_back by (cases res) (simp_all add: apply_at_boot_def)
qed

lemma boot_applied:
  assumes "boot cd mo w = (w', AppliedSaved n)"
  shows "sound cd (dm_running (w_daemon w'))" "dm_pending (w_daemon w') = dm_pending (w_daemon w)"
    "dm_timer (w_daemon w') = dm_timer (w_daemon w)"
proof -
  have none: "recovered_generation (w_daemon w) = None"
    using assms by (simp add: boot_def split: option.splits)
  let ?saved = "saved (mo_io mo) (cd_values cd) (cd_schema cd) (config_boot (cd_paths cd)) (w_disk w)"
  obtain t where t: "?saved = Inr (Some t)"
    using assms none by (cases ?saved; cases "projr ?saved") (auto simp: boot_def fall_back_def Let_def)
  then obtain w1 where "apply_at_boot cd mo t w = (w1, AppliedSaved n)" "w_daemon w' = w_daemon w1"
    using assms none by (cases "apply_at_boot cd mo t w") (auto simp: boot_def)
  then show "sound cd (dm_running (w_daemon w'))" "dm_pending (w_daemon w') = dm_pending (w_daemon w)"
    "dm_timer (w_daemon w') = dm_timer (w_daemon w)"
    using saved_sound [OF t] by (auto elim!: apply_at_boot_cases simp: fall_back_def Let_def)
qed

text \<open>
  C5. What runs is always a valid configuration. Once the daemon has booted the saved configuration,
  the running one passes both validation passes after any requests and firings of the timer:
  whatever was committed, whatever was rolled back.
\<close>

theorem running_always_valid:
  assumes "boot cd mo w = (w1, AppliedSaved n)" and "dm_pending (w_daemon w) = None" and "dm_timer (w_daemon w) = None"
    and "runs cd evs w1 w2" and "list_all same_life evs"
  shows "validate_tree (cd_values cd) (cd_schema cd) (dm_running (w_daemon w2)) = [] \<and>
    check_constraints (cd_schema cd) (dm_running (w_daemon w2)) = []"
proof -
  note b = boot_applied [OF assms(1)]
  then have "timer_ok (w_daemon w1)" using assms(2,3) by (simp add: timer_ok_def)
  then have "(lives cd)\<^sup>*\<^sup>* w1 w2" using runs_lives assms(4,5) by blast
  note f = daemon_store.stays_fit [OF this]
  have "sound cd (dm_running (w_daemon w2))" using f b(1,2) assms(2) by simp
  then show ?thesis by (simp add: sound_def)
qed

section \<open>A commit that waits to be confirmed\<close>

text \<open>
  What may happen to a waiting commit: any request but a confirmation, at any moment, and a firing of
  the timer at any moment before the deadline.
\<close>

fun undecided :: "int \<Rightarrow> 'b event \<Rightarrow> bool" where
  "undecided deadline (Asked mo a (Confirm i)) = False"
| "undecided deadline (Asked mo a req) = True"
| "undecided deadline (Fired mo) = (mo_now mo < deadline)"
| "undecided deadline (Restarted mo) = False"

definition waits :: "pending \<Rightarrow> daemon \<Rightarrow> bool" where
  "waits p s \<longleftrightarrow> dm_pending s = Some p \<and> dm_timer s = Some (pd_deadline p)"

lemma waiting_step:
  assumes "step cd ev w w'" and "undecided (pd_deadline p) ev" and "waits p (w_daemon w)"
  shows "waits p (w_daemon w') \<and> dm_running (w_daemon w') = dm_running (w_daemon w)"
  using assms(1)
proof cases
  case (asked mo a req)
  consider (commit) i cm minutes where "req = Commit i cm minutes" | (calm) "\<not> deciding req"
    using assms(2) asked(1) by (cases req) auto
  then show ?thesis
  proof cases
    case (commit i cm minutes)
    then obtain r where c: "do_commit cd mo i a cm minutes w = (w', r)"
      using asked(2) by (cases "do_commit cd mo i a cm minutes w") simp
    show ?thesis
    proof (rule do_commit_daemon [OF c refl], goal_cases)
      case 1
      then show ?thesis using assms(3) by simp
    next
      case (2 ss q)
      then show ?thesis using assms(3) by (simp add: waits_def)
    qed
  next
    case calm
    then have "calm (w_daemon w) (w_daemon w')" using handle_calm asked(2) by blast
    then show ?thesis using assms(3) calm_keeps [of "w_daemon w" "w_daemon w'"] by (simp add: waits_def)
  qed
next
  case (fired t mo)
  then have "t = pd_deadline p" "mo_now mo < t" using assms(2,3) by (simp_all add: waits_def)
  then show ?thesis using fired(4) by simp
next
  case (restarted mo s)
  then show ?thesis using assms(2) by simp
qed

lemma waiting_runs:
  "runs cd evs w w' \<Longrightarrow> list_all (undecided (pd_deadline p)) evs \<Longrightarrow> waits p (w_daemon w) \<Longrightarrow>
   waits p (w_daemon w') \<and> dm_running (w_daemon w') = dm_running (w_daemon w)"
proof (induction rule: runs.induct)
  case (runs_snoc evs w w1 ev w2)
  then have "waits p (w_daemon w1)" "dm_running (w_daemon w1) = dm_running (w_daemon w)" by simp_all
  moreover have "undecided (pd_deadline p) ev" using runs_snoc.prems by simp
  ultimately show ?case using waiting_step [OF runs_snoc.hyps(2)] by simp
qed simp

lemma accepted_waits:
  assumes "do_commit cd mo i a msg (Some k) w = (w1, Committed g cs (Some secs))"
  obtains p where "waits p (w_daemon w1)" "pd_previous p = dm_running (w_daemon w)" "secs = k * 60"
    "pd_deadline p = mo_now mo + int secs"
proof (rule do_commit_daemon [OF assms refl], goal_cases)
  case 1
  then show ?case using that by simp
next
  case (2 ss q)
  then obtain p where p: "q = Some p" using 2(7) [OF refl] by auto
  have "waits p (w_daemon w1)" using 2(6) p by (simp add: waits_def promoted_daemon_def)
  then show ?case using 2(7) [OF refl] 2(8) [OF p] p by (intro that [of p]) auto
qed

text \<open>
  C3. A commit nobody confirms is undone, at its deadline and not before. From the moment a
  commit-confirm of k minutes is accepted, and whatever anybody asks short of confirming it, the new
  configuration stays in force: no step of the timer before the deadline, k * 60 seconds after the
  commit, takes it back, and indeed the timer cannot fire earlier. From the deadline on it can fire,
  and when it does the configuration that ran before the commit is put through the pipeline again:
  it runs afterwards if the renderers take it, and in either case nothing is left waiting. (One life
  of the daemon; what a restart does with a waiting commit is the restart property's.)
\<close>

theorem unconfirmed_is_undone:
  assumes "handle cd mo a (Commit i msg (Some k)) w = (w1, Committed g cs (Some secs))"
    and "runs cd evs w1 w2" and "list_all (undecided (mo_now mo + int secs)) evs"
    and "mo_now mo + int secs \<le> mo_now mo'"
  shows "secs = k * 60 \<and> dm_running (w_daemon w2) = dm_running (w_daemon w1) \<and>
    (\<forall>early w3. step cd (Fired early) w2 w3 \<longrightarrow> mo_now mo + int secs \<le> mo_now early) \<and>
    (\<exists>w3. step cd (Fired mo') w2 w3 \<and> dm_pending (w_daemon w3) = None \<and>
      (case commit_apply (cd_renderers cd) (dm_running (w_daemon w)) (w_machine w2) of
         (m, Inr u) \<Rightarrow> w_machine w3 = m \<and> dm_running (w_daemon w3) = dm_running (w_daemon w)
       | (m, Inl e) \<Rightarrow> w_machine w3 = m \<and> dm_running (w_daemon w3) = dm_running (w_daemon w2)))"
proof -
  have "do_commit cd mo i a msg (Some k) w = (w1, Committed g cs (Some secs))" using assms(1) by simp
  then obtain p where p: "waits p (w_daemon w1)" "pd_previous p = dm_running (w_daemon w)" "secs = k * 60"
    "pd_deadline p = mo_now mo + int secs"
    by (rule accepted_waits)
  have w2: "waits p (w_daemon w2)" "dm_running (w_daemon w2) = dm_running (w_daemon w1)"
    using waiting_runs [OF assms(2) _ p(1)] assms(3) p(4) by simp_all
  obtain m res where app: "commit_apply (cd_renderers cd) (pd_previous p) (w_machine w2) = (m, res)" by fastforce
  have pend: "dm_pending (w_daemon w2) = Some p" using w2(1) by (simp add: waits_def)
  have "step cd (Fired mo') w2 (roll_back cd mo' w2)"
    using w2(1) p(4) assms(4) by (intro fired) (auto simp: waits_def)
  moreover have "mo_now mo + int secs \<le> mo_now early" if "step cd (Fired early) w2 w3" for early w3
    using that w2(1) p(4) by (auto simp: step_simps waits_def)
  moreover note roll_back_daemon [OF pend app refl, of mo']
  ultimately show ?thesis using w2(2) p(2,3) app by (cases res) auto
qed

end
