(* ===== verification/Restart_Laws.thy ===== *)
theory Restart_Laws
  imports Config_Store
begin

text \<open>
  The daemon and its disk. \<open>in_sync\<close> says that the files under \<open>/run\<close> say what the daemon has in
  memory; every step keeps it when the disk does not fail, so a daemon that is restarted at any
  time comes up as it went down.
\<close>

section \<open>What the disk says\<close>

definition codecs_ok :: "('m, 's, 'b) configd \<Rightarrow> bool" where
  "codecs_ok cd \<longleftrightarrow> codec_ok (cd_running_codec cd) \<and> codec_ok (cd_session_codec cd) \<and> codec_ok (cd_pending_codec cd)"

definition recorded :: "('m, 's, 'b) configd \<Rightarrow> 'b disk \<Rightarrow> config_tree \<times> nat" where
  "recorded cd d =
     (case data_at d (running_path (cd_paths cd)) of
        None \<Rightarrow> (tree_new, 0)
      | Some x \<Rightarrow>
          (case decode_content (cd_running_codec cd) x of
             Inl e \<Rightarrow> (tree_new, 0) | Inr (generation, t) \<Rightarrow> (t, generation)))"

definition keyed :: "daemon \<Rightarrow> bool" where
  "keyed s \<longleftrightarrow> (\<forall>i ss. bm_get (dm_sessions s) i = Some ss \<longrightarrow> ss_id ss = i \<and> valid_id i)"

definition running_sync :: "('m, 's, 'b) configd \<Rightarrow> daemon \<Rightarrow> 'b disk \<Rightarrow> bool" where
  "running_sync cd s d \<longleftrightarrow> recorded cd d = (dm_running s, dm_generation s)"

definition session_sync :: "('m, 's, 'b) configd \<Rightarrow> daemon \<Rightarrow> 'b disk \<Rightarrow> bool" where
  "session_sync cd s d \<longleftrightarrow> bm_ok d \<and> keyed s \<and>
     (\<forall>i. valid_id i \<longrightarrow> stored_session (cd_session_codec cd) (cd_paths cd) i d = bm_get (dm_sessions s) i) \<and>
     (\<forall>n x ss. file_extension n = Some ''json'' \<and> data_at d (sessions_dir (cd_paths cd) @ [n]) = Some x \<and>
        decode_session (cd_session_codec cd) x = Inr ss \<longrightarrow> n = ss_id ss @ ''.json'')"

definition pending_sync :: "('m, 's, 'b) configd \<Rightarrow> daemon \<Rightarrow> 'b disk \<Rightarrow> bool" where
  "pending_sync cd s d \<longleftrightarrow> stored_pending (cd_pending_codec cd) (cd_paths cd) d = dm_pending s \<and>
     (case dm_pending s of
        None \<Rightarrow> dm_timer s = None \<and> data_at d (pending_confirm (cd_paths cd)) = None
      | Some p \<Rightarrow> dm_timer s = Some (pd_deadline p) \<and> valid_id (pd_session p))"

definition in_sync :: "('m, 's, 'b) configd \<Rightarrow> ('m, 'b) world \<Rightarrow> bool" where
  "in_sync cd w \<longleftrightarrow> running_sync cd (w_daemon w) (w_disk w) \<and> session_sync cd (w_daemon w) (w_disk w) \<and>
     pending_sync cd (w_daemon w) (w_disk w)"

definition faultless :: "'b moment \<Rightarrow> bool" where
  "faultless mo \<longleftrightarrow> no_faults (mo_io mo) \<and> lists_all (mo_io mo) \<and>
     (\<forall>bytes. mo_random mo = Inr bytes \<longrightarrow> length bytes = ENTROPY_BYTES)"

lemma faultlessD: "faultless mo \<Longrightarrow> no_faults (mo_io mo)"
  by (simp add: faultless_def)

section \<open>The files are apart\<close>

lemma running_apart:
  "running_path ps \<notin> marker_files ps" "running_path ps \<notin> saved_files ps" "running_path ps \<notin> archive_files ps"
  "valid_id i \<Longrightarrow> running_path ps \<notin> session_files ps i" "running_path ps \<noteq> boot_failure ps"
  by (simp_all add: file_sets) (simp_all add: fixed_paths)

lemma pending_apart:
  "pending_confirm ps \<notin> running_files ps" "pending_confirm ps \<notin> saved_files ps" "pending_confirm ps \<notin> archive_files ps"
  "valid_id i \<Longrightarrow> pending_confirm ps \<notin> session_files ps i" "pending_confirm ps \<noteq> boot_failure ps"
  by (simp_all add: file_sets) (simp_all add: fixed_paths)

lemma sessions_apart:
  "sessions_dir ps @ [n] \<notin> running_files ps" "sessions_dir ps @ [n] \<notin> marker_files ps"
  "sessions_dir ps @ [n] \<notin> saved_files ps" "sessions_dir ps @ [n] \<notin> archive_files ps"
  "sessions_dir ps @ [n] \<noteq> boot_failure ps"
  by (simp_all add: file_sets) (simp_all add: fixed_paths)

section \<open>Frames\<close>

lemma running_sync_frame:
  "running_sync cd s d \<Longrightarrow> leaves F d d' \<Longrightarrow> running_path (cd_paths cd) \<notin> F \<Longrightarrow>
   dm_running s' = dm_running s \<Longrightarrow> dm_generation s' = dm_generation s \<Longrightarrow> running_sync cd s' d'"
  by (simp add: running_sync_def recorded_def leavesD)

lemma pending_sync_frame:
  "pending_sync cd s d \<Longrightarrow> leaves F d d' \<Longrightarrow> pending_confirm (cd_paths cd) \<notin> F \<Longrightarrow>
   dm_pending s' = dm_pending s \<Longrightarrow> dm_timer s' = dm_timer s \<Longrightarrow> pending_sync cd s' d'"
  by (simp add: pending_sync_def stored_pending_def leavesD split: option.splits)

lemma session_sync_frame:
  assumes "session_sync cd s d" and "leaves F d d'" and "\<And>n. sessions_dir (cd_paths cd) @ [n] \<notin> F"
    and "dm_sessions s' = dm_sessions s"
  shows "session_sync cd s' d'"
proof -
  have same: "data_at d' (sessions_dir (cd_paths cd) @ [n]) = data_at d (sessions_dir (cd_paths cd) @ [n])" for n
    using assms(2,3) by (rule leavesD)
  then have "valid_id i \<Longrightarrow> stored_session (cd_session_codec cd) (cd_paths cd) i d' =
      stored_session (cd_session_codec cd) (cd_paths cd) i d" for i
    by (simp add: stored_session_def session_path)
  then show ?thesis using assms(1,4) leaves_ok [OF assms(2)]
    by (simp add: session_sync_def keyed_def same)
qed

section \<open>What each write establishes\<close>

lemma replace_file_fine:
  assumes "no_faults io" and "tmp \<noteq> final"
  shows "data_at (fst (replace_file io tmp final c d)) final = Some c" "snd (replace_file io tmp final c d) = Inr ()"
  using replace_file_no_faults [OF assms(1), of tmp final c d]
    replace_file_effect(2) [OF prod.collapse [symmetric] assms(2), of io c d] by simp_all

lemma create_dir_fine: "no_faults io \<Longrightarrow> create_dir_all io p = Inr ()"
  by (simp add: create_dir_all_def no_faults_def)

lemma temporary_apart:
  "with_extension (running_path ps) ''json.new'' \<noteq> running_path ps"
  "with_extension (pending_confirm ps) ''json.new'' \<noteq> pending_confirm ps"
  by (simp_all add: temporary_names) (simp_all add: fixed_paths)

lemma note_running_sync:
  assumes "codecs_ok cd" and "faultless mo"
  shows "running_sync cd (w_daemon w) (w_disk (note_running cd mo w))"
proof -
  let ?tmp = "with_extension (running_path (cd_paths cd)) ''json.new''"
  let ?x = "Data (enc (cd_running_codec cd) (dm_generation (w_daemon w), dm_running (w_daemon w)))"
  have "data_at (fst (replace_file (mo_io mo) ?tmp (running_path (cd_paths cd)) ?x (w_disk w)))
      (running_path (cd_paths cd)) = Some ?x"
    by (rule replace_file_fine(1) [OF faultlessD [OF assms(2)] temporary_apart(1)])
  then have "data_at (w_disk (note_running cd mo w)) (running_path (cd_paths cd)) = Some ?x"
    using create_dir_fine [OF faultlessD [OF assms(2)]]
    by (cases "snd (replace_file (mo_io mo) ?tmp (running_path (cd_paths cd)) ?x (w_disk w))")
      (auto simp: note_running_def save_running_def Let_def split: prod.splits)
  then show ?thesis using assms(1) by (simp add: running_sync_def recorded_def decode_content_def codecs_ok_def)
qed

lemma note_running_leaves: "leaves (running_files (cd_paths cd)) (w_disk w) (w_disk (note_running cd mo w))"
  by (simp add: note_running_def save_running_leaves)

lemma record_revision_leaves:
  "leaves (archive_files (cd_paths cd)) (w_disk w) (w_disk (record_revision cd mo t a msg g cs w))"
  by (simp add: record_revision_def Let_def archive_write_leaves [OF prod.collapse [symmetric]])

lemma disarm_leaves: "leaves (marker_files (cd_paths cd)) (w_disk w) (w_disk (disarm cd mo w))"
  by (simp add: disarm_def marker_disarm_leaves [OF prod.collapse [symmetric]])

lemma disarm_sync:
  assumes "faultless mo" and "dm_pending s = None" and "dm_timer s = None"
  shows "pending_sync cd s (w_disk (disarm cd mo w))"
proof -
  have "data_at (w_disk (disarm cd mo w)) (pending_confirm (cd_paths cd)) = None"
    using faultlessD [OF assms(1)]
    by (auto simp: disarm_def marker_disarm_def fs_remove_def no_faults_def data_at_def bm_get_remove
        split: option.splits)
  then show ?thesis using assms(2,3) by (simp add: pending_sync_def stored_pending_def)
qed

lemma marker_arm_fine:
  assumes "faultless mo" and "marker_arm (mo_io mo) c ps p d = (d', r)"
  shows "r = Inr ()"
proof -
  let ?tmp = "with_extension (pending_confirm ps) ''json.new''"
  obtain d1 r1 where 1: "replace_file (mo_io mo) ?tmp (pending_confirm ps) (Data (enc c p)) d = (d1, r1)" by fastforce
  then have "r1 = Inr ()"
    using replace_file_fine(2) [OF faultlessD [OF assms(1)] temporary_apart(2), of ps "Data (enc c p)" d] by simp
  then show ?thesis
    using assms(2) 1 by (simp add: marker_arm_def Let_def create_dir_fine [OF faultlessD [OF assms(1)]])
qed

lemma marker_arm_sync:
  assumes "codecs_ok cd" and "faultless mo" and "valid_id (pd_session p)"
    and "marker_arm (mo_io mo) (cd_pending_codec cd) (cd_paths cd) p d = (d', r)"
    and "dm_pending s = Some p" and "dm_timer s = Some (pd_deadline p)"
  shows "pending_sync cd s d'"
proof -
  have "stored_pending (cd_pending_codec cd) (cd_paths cd) d' = Some p"
    using marker_arm_effect(1) [OF assms(4) _ assms(3)] assms(1) marker_arm_fine [OF assms(2,4)]
    by (simp add: codecs_ok_def)
  then show ?thesis using assms(3,5,6) by (simp add: pending_sync_def)
qed

lemma store_save_fine: "no_faults io \<Longrightarrow> store_save io c ps ss d = (d', r) \<Longrightarrow> r = Inr ()"
  using replace_file_no_faults [of io "with_extension (session_file ps (ss_id ss)) ''json.new''"
      "session_file ps (ss_id ss)" "Data (enc c ss)" d]
  by (auto simp: store_save_def Let_def split: prod.splits sum.splits)

lemma session_path_inj: "valid_id i \<Longrightarrow> valid_id j \<Longrightarrow> session_file ps i = session_file ps j \<longleftrightarrow> i = j"
  by (simp add: session_path)

lemma session_apart:
  "valid_id i \<Longrightarrow> valid_id j \<Longrightarrow> i \<noteq> j \<Longrightarrow> session_file ps j \<notin> session_files ps i"
  using names_apart by (simp add: session_files_eq)

lemma stored_session_other:
  "leaves (session_files ps i) d d' \<Longrightarrow> valid_id i \<Longrightarrow> valid_id j \<Longrightarrow> j \<noteq> i \<Longrightarrow>
   stored_session c ps j d' = stored_session c ps j d"
  by (simp add: stored_session_def leavesD session_apart)

lemma store_save_sync:
  assumes c: "codecs_ok cd" and sync: "session_sync cd s d" and v: "valid_id (ss_id ss)"
    and saved: "store_save io (cd_session_codec cd) (cd_paths cd) ss d = (d', Inr ())"
    and s': "dm_sessions s' = bm_insert (ss_id ss) ss (dm_sessions s)"
  shows "session_sync cd s' d'"
proof -
  let ?c = "cd_session_codec cd" and ?ps = "cd_paths cd"
  have codec: "codec_ok ?c" using c by (simp add: codecs_ok_def)
  have l: "leaves (session_files ?ps (ss_id ss)) d d'" by (rule store_save_leaves [OF saved])
  have ok: "bm_ok d'" using leaves_ok [OF l] sync by (simp add: session_sync_def)
  have new: "stored_session ?c ?ps (ss_id ss) d' = Some ss"
    using store_save_effect(1) [OF saved v codec] by simp
  have "keyed s'" using sync v s' by (auto simp: session_sync_def keyed_def bm_get_insert split: if_splits)
  moreover have "stored_session ?c ?ps i d' = bm_get (dm_sessions s') i" if "valid_id i" for i
    using new stored_session_other [OF l v that] sync that s'
    by (cases "i = ss_id ss") (auto simp: session_sync_def bm_get_insert)
  moreover have "n = ss_id t @ ''.json''"
    if n: "file_extension n = Some ''json''" "data_at d' (sessions_dir ?ps @ [n]) = Some x" "decode_session ?c x = Inr t"
    for n x t
  proof (cases "n = ss_id ss @ ''.json''")
    case True
    then have "t = ss" using n(2,3) new by (simp add: stored_session_def session_path [OF v])
    then show ?thesis using True by simp
  next
    case False
    have "n \<noteq> ss_id ss @ ''.json.new''" using n(1) temporary_extension [of "ss_id ss"] by auto
    then have "data_at d (sessions_dir ?ps @ [n]) = Some x"
      using False n(2) leavesD [OF l, of "sessions_dir ?ps @ [n]"] by (simp add: session_files_eq [OF v])
    then show ?thesis using sync n(1,3) by (simp add: session_sync_def)
  qed
  ultimately show ?thesis using ok by (simp add: session_sync_def)
qed

lemma store_forget_sync:
  assumes sync: "session_sync cd s d" and v: "valid_id i" and io: "no_faults io"
    and forgot: "store_forget io (cd_paths cd) i d = (d', r)"
    and s': "dm_sessions s' = bm_remove i (dm_sessions s)"
  shows "session_sync cd s' d'"
proof -
  let ?c = "cd_session_codec cd" and ?ps = "cd_paths cd"
  have l: "leaves (session_files ?ps i) d d'" by (rule store_forget_leaves [OF forgot])
  have at: "data_at d' q = (if q = session_file ?ps i then None else data_at d q)" for q
    using forgot io
    by (auto simp: store_forget_def Let_def fs_remove_def no_faults_def data_at_def bm_get_remove split: option.splits)
  have "keyed s'" using sync s' by (auto simp: session_sync_def keyed_def bm_get_remove split: if_splits)
  moreover have "stored_session ?c ?ps j d' = bm_get (dm_sessions s') j" if "valid_id j" for j
    using stored_session_other [OF l v that] sync that s'
    by (cases "j = i") (auto simp: session_sync_def bm_get_remove stored_session_def at)
  ultimately show ?thesis using leaves_ok [OF l] sync
    by (auto simp: session_sync_def at split: if_splits)
qed

section \<open>Every step keeps them in step\<close>

lemma in_syncD:
  "in_sync cd w \<Longrightarrow> running_sync cd (w_daemon w) (w_disk w)" "in_sync cd w \<Longrightarrow> session_sync cd (w_daemon w) (w_disk w)"
  "in_sync cd w \<Longrightarrow> pending_sync cd (w_daemon w) (w_disk w)"
  by (simp_all add: in_sync_def)

lemma sync_machine: "in_sync cd w \<Longrightarrow> in_sync cd (w\<lparr>w_machine := m\<rparr>)"
  by (simp add: in_sync_def)

lemma keep_session_sync:
  assumes c: "codecs_ok cd" and mo: "faultless mo" and sync: "in_sync cd w"
    and i: "ss_id ss = i" "valid_id i" and k: "keep_session cd mo i ss resp w = (w', r)"
  shows "in_sync cd w'"
proof -
  note e = keep_session_effect [OF k]
  obtain d' u where s: "store_save (mo_io mo) (cd_session_codec cd) (cd_paths cd) ss (w_disk w) = (d', Inr ())"
    using store_save_fine [OF faultlessD [OF mo]] by (metis prod.exhaust)
  have d': "w_disk w' = d'" using e(3) s by simp
  have l: "leaves (session_files (cd_paths cd) i) (w_disk w) d'" using store_save_leaves [OF s] i(1) by simp
  show ?thesis unfolding in_sync_def d'
  proof (intro conjI)
    show "running_sync cd (w_daemon w') d'"
      by (rule running_sync_frame [OF in_syncD(1) [OF sync] l running_apart(4) [OF i(2)]]) (simp_all add: e)
    show "session_sync cd (w_daemon w') d'"
      by (rule store_save_sync [OF c in_syncD(2) [OF sync] _ s]) (use i in \<open>simp_all add: e\<close>)
    show "pending_sync cd (w_daemon w') d'"
      by (rule pending_sync_frame [OF in_syncD(3) [OF sync] l pending_apart(4) [OF i(2)]]) (simp_all add: e)
  qed
qed

lemma owned_sync:
  assumes "in_sync cd w" and "owned (w_daemon w) i a = Inr ss"
  shows "ss_id ss = i" "valid_id i"
  using assms by (auto simp: in_sync_def session_sync_def keyed_def owned_Inr)

lemma frame_sync:
  assumes "in_sync cd w" and "leaves F (w_disk w) (w_disk w')" and "w_daemon w' = w_daemon w"
    and "running_path (cd_paths cd) \<notin> F" and "pending_confirm (cd_paths cd) \<notin> F"
    and "\<And>n. sessions_dir (cd_paths cd) @ [n] \<notin> F"
  shows "in_sync cd w'"
  unfolding in_sync_def
  using running_sync_frame [OF in_syncD(1) [OF assms(1)] assms(2,4)]
    session_sync_frame [OF in_syncD(2) [OF assms(1)] assms(2,6)]
    pending_sync_frame [OF in_syncD(3) [OF assms(1)] assms(2,5)] assms(3) by simp

lemma note_running_keeps:
  shows "session_sync cd (w_daemon w) (w_disk w) \<Longrightarrow> session_sync cd (w_daemon w) (w_disk (note_running cd mo w))"
    and "pending_sync cd (w_daemon w) (w_disk w) \<Longrightarrow> pending_sync cd (w_daemon w) (w_disk (note_running cd mo w))"
proof -
  show "session_sync cd (w_daemon w) (w_disk w) \<Longrightarrow> session_sync cd (w_daemon w) (w_disk (note_running cd mo w))"
    by (rule session_sync_frame [OF _ note_running_leaves sessions_apart(1) refl])
  show "pending_sync cd (w_daemon w) (w_disk w) \<Longrightarrow> pending_sync cd (w_daemon w) (w_disk (note_running cd mo w))"
    by (rule pending_sync_frame [OF _ note_running_leaves pending_apart(1) refl refl])
qed

lemma note_running_in_sync:
  assumes "codecs_ok cd" and "faultless mo" and "session_sync cd (w_daemon w) (w_disk w)"
    and "pending_sync cd (w_daemon w) (w_disk w)"
  shows "in_sync cd (note_running cd mo w)"
  using note_running_sync [OF assms(1,2), of w] note_running_keeps [of cd w mo] assms(3,4) by (simp add: in_sync_def)

lemma record_revision_sync: "in_sync cd w \<Longrightarrow> in_sync cd (record_revision cd mo t a msg g cs w)"
  by (rule frame_sync [OF _ record_revision_leaves])
    (simp_all add: running_apart pending_apart sessions_apart)

lemma disarm_in_sync:
  assumes "faultless mo" and "running_sync cd (w_daemon w) (w_disk w)" and "session_sync cd (w_daemon w) (w_disk w)"
    and "dm_pending (w_daemon w) = None" and "dm_timer (w_daemon w) = None"
  shows "in_sync cd (disarm cd mo w)"
proof -
  have "running_sync cd (w_daemon w) (w_disk (disarm cd mo w))"
    by (rule running_sync_frame [OF assms(2) disarm_leaves running_apart(1) refl refl])
  moreover have "session_sync cd (w_daemon w) (w_disk (disarm cd mo w))"
    by (rule session_sync_frame [OF assms(3) disarm_leaves sessions_apart(2) refl])
  ultimately show ?thesis using disarm_sync [OF assms(1,4,5), of cd w] by (simp add: in_sync_def)
qed

lemma promote_sync:
  assumes "codecs_ok cd" and "faultless mo" and "in_sync cd w"
  shows "in_sync cd (promote cd mo i t w)"
proof -
  let ?s = "w_daemon w"
  let ?h = "dm_history ?s @ [(dm_generation ?s, dm_running ?s)]"
  let ?w = "w\<lparr>w_daemon := ?s\<lparr>dm_running := t, dm_generation := dm_generation ?s + 1,
                dm_history := drop (length ?h - HISTORY) ?h\<rparr>\<rparr>"
  let ?w1 = "note_running cd mo ?w"
  have 1: "session_sync cd (w_daemon ?w) (w_disk ?w)"
    by (rule session_sync_frame [OF in_syncD(2) [OF assms(3)], of "{}"]) simp_all
  have 2: "pending_sync cd (w_daemon ?w) (w_disk ?w)"
    by (rule pending_sync_frame [OF in_syncD(3) [OF assms(3)], of "{}"]) simp_all
  note w1 = note_running_in_sync [OF assms(1,2) 1 2]
  show ?thesis
  proof (cases "bm_get (dm_sessions ?s) i")
    case None
    then show ?thesis using w1 by (simp add: promote_def Let_def)
  next
    case (Some ss)
    let ?ss = "ss\<lparr>ss_base := dm_generation ?s + 1\<rparr>"
    obtain w2 r where k: "keep_session cd mo i ?ss RespOk ?w1 = (w2, r :: 'b response)" by fastforce
    have "ss_id ?ss = i" "valid_id i"
      using Some in_syncD(2) [OF assms(3)] by (simp_all add: session_sync_def keyed_def)
    from keep_session_sync [OF assms(1,2) w1 this k] have "in_sync cd w2" .
    moreover have "promote cd mo i t w = fst (keep_session cd mo i ?ss RespOk ?w1)"
      using Some by (simp add: promote_def Let_def)
    ultimately show ?thesis using k by simp
  qed
qed

lemma await_confirm_sync:
  assumes "codecs_ok cd" and "faultless mo" and "in_sync cd w" and "valid_id i"
    and a: "await_confirm cd mo i a msg k was cs w = (w', r)"
  shows "in_sync cd w'"
proof (rule await_confirm_cases [OF a refl refl], goal_cases)
  case (1 d e)
  then show ?case using marker_arm_fine [OF assms(2) 1(1)] by simp
next
  case (2 d)
  note l = marker_arm_leaves [OF 2(1)]
  have "running_sync cd (w_daemon w') (w_disk w')"
    unfolding 2(2) by (rule running_sync_frame [OF in_syncD(1) [OF assms(3)], of "marker_files (cd_paths cd)"])
      (use l in \<open>simp_all add: running_apart\<close>)
  moreover have "session_sync cd (w_daemon w') (w_disk w')"
    unfolding 2(2) by (rule session_sync_frame [OF in_syncD(2) [OF assms(3)], of "marker_files (cd_paths cd)"])
      (use l in \<open>simp_all add: sessions_apart\<close>)
  moreover have "pending_sync cd (w_daemon w') d"
    by (rule marker_arm_sync [OF assms(1,2) _ 2(1)]) (simp_all add: 2(2) assms(4))
  moreover have "w_disk w' = d" by (simp add: 2(2))
  ultimately show ?case by (simp add: in_sync_def)
qed

lemma roll_back_sync:
  assumes "codecs_ok cd" and "faultless mo" and "session_sync cd (w_daemon w) (w_disk w)"
    and "running_sync cd (w_daemon w) (w_disk w)" and "dm_pending (w_daemon w) = Some p"
  shows "in_sync cd (roll_back cd mo w)"
proof -
  obtain m res where app: "commit_apply (cd_renderers cd) (pd_previous p) (w_machine w) = (m, res)" by fastforce
  let ?w1 = "dm_upd (\<lambda>s. s\<lparr>dm_pending := None, dm_timer := None\<rparr>) w\<lparr>w_machine := m\<rparr>"
  let ?w2 = "dm_upd (\<lambda>s. s\<lparr>dm_running := pd_previous p, dm_generation := dm_generation s + 1\<rparr>) ?w1"
  show ?thesis
  proof (cases res)
    case (Inl e)
    have "in_sync cd (disarm cd mo ?w1)"
      using running_sync_frame [OF assms(4) leaves_refl, of "{}" "w_daemon ?w1"]
        session_sync_frame [OF assms(3) leaves_refl, of "{}" "w_daemon ?w1"]
      by (intro disarm_in_sync [OF assms(2)]) simp_all
    then show ?thesis using app assms(5) Inl by (simp add: roll_back_def Let_def)
  next
    case (Inr u)
    have "session_sync cd (w_daemon ?w2) (w_disk ?w2)"
      using session_sync_frame [OF assms(3) leaves_refl, of "{}" "w_daemon ?w2"] by simp
    from note_running_keeps(1) [OF this, of mo]
    have "in_sync cd (disarm cd mo (note_running cd mo ?w2))"
      using note_running_sync [OF assms(1,2), of ?w2] by (intro disarm_in_sync [OF assms(2)]) simp_all
    then show ?thesis using app assms(5) Inr by (simp add: roll_back_def Let_def)
  qed
qed

lemma do_open_sync:
  fixes cd :: "('m, 's, 'b) configd"
  assumes "codecs_ok cd" and "faultless mo" and "in_sync cd w"
  shows "in_sync cd (fst (do_open cd mo a w))"
proof (cases "mo_random mo")
  case (Inl e)
  then show ?thesis using assms(3) by (simp add: do_open_def)
next
  case (Inr bytes)
  let ?i = "session_id_from_bytes bytes"
  let ?ss = "session_new ?i a (dm_running (w_daemon w)) (dm_generation (w_daemon w))"
  have i: "ss_id ?ss = ?i" "valid_id ?i"
    using from_bytes_valid Inr assms(2) by (simp_all add: session_new_def faultless_def)
  obtain w' r where k: "keep_session cd mo ?i ?ss RespOk w = (w', r :: 's response)" by fastforce
  obtain d where "store_save (mo_io mo) (cd_session_codec cd) (cd_paths cd) ?ss (w_disk w) = (d, Inr ())"
    using store_save_fine [OF faultlessD [OF assms(2)]] by (metis prod.exhaust)
  then have "fst (do_open cd mo a w) = w'" using k Inr by (simp add: do_open_def Let_def keep_session_def)
  then show ?thesis using keep_session_sync [OF assms i k] by simp
qed

lemma do_close_sync:
  fixes cd :: "('m, 's, 'b) configd"
  assumes "faultless mo" and "in_sync cd w"
  shows "in_sync cd (fst (do_close cd mo i a w))"
proof (cases "owned (w_daemon w) i a :: 's response + session")
  case (Inl resp)
  then show ?thesis using assms(2) by (simp add: do_close_def)
next
  case (Inr ss)
  note i = owned_sync(2) [OF assms(2) Inr]
  obtain d r where f: "store_forget (mo_io mo) (cd_paths cd) i (w_disk w) = (d, r)" by fastforce
  note l = store_forget_leaves [OF f]
  let ?s = "(w_daemon w)\<lparr>dm_sessions := bm_remove i (dm_sessions (w_daemon w))\<rparr>"
  have "running_sync cd ?s d"
    by (rule running_sync_frame [OF in_syncD(1) [OF assms(2)] l running_apart(4) [OF i]]) simp_all
  moreover have "session_sync cd ?s d"
    by (rule store_forget_sync [OF in_syncD(2) [OF assms(2)] i faultlessD [OF assms(1)] f]) simp
  moreover have "pending_sync cd ?s d"
    by (rule pending_sync_frame [OF in_syncD(3) [OF assms(2)] l pending_apart(4) [OF i]]) simp_all
  ultimately show ?thesis using Inr f by (simp add: do_close_def Let_def in_sync_def)
qed

lemma keep_session_in_sync:
  fixes cd :: "('m, 's, 'b) configd"
  assumes "codecs_ok cd" and "faultless mo" and "in_sync cd w"
    and "owned (w_daemon w) i a = (Inr ss :: 's response + session)" and "ss_id ss' = ss_id ss"
  shows "in_sync cd (fst (keep_session cd mo i ss' resp w))"
  using keep_session_sync [OF assms(1-3) _ owned_sync(2) [OF assms(3,4)] prod.collapse [symmetric], of ss' resp]
    owned_sync(1) [OF assms(3,4)] assms(5) by simp

lemma do_commit_sync:
  fixes cd :: "('m, 's, 'b) configd"
  assumes "codecs_ok cd" and "faultless mo" and "in_sync cd w"
  shows "in_sync cd (fst (do_commit cd mo i a msg minutes w))"
proof -
  obtain w' r where c: "do_commit cd mo i a msg minutes w = (w', r :: 's response)" by fastforce
  have "in_sync cd w'"
  proof (rule do_commit_cases [OF c], goal_cases)
    case 1
    then show ?case using assms(3) by simp
  next
    case (2 m)
    then show ?case using assms(3) by (simp add: sync_machine)
  next
    case (3 ss m w1)
    then have w1: "in_sync cd w1" using promote_sync [OF assms(1,2) sync_machine [OF assms(3)]] by simp
    have "valid_id i" using 3(1) by (rule owned_sync(2) [OF assms(3)])
    then show ?case
      using 3(7) record_revision_sync [OF w1] await_confirm_sync [OF assms(1,2) w1]
      by (cases minutes) auto
  qed
  then show ?thesis using c by simp
qed

lemma do_confirm_sync:
  fixes cd :: "('m, 's, 'b) configd"
  assumes "faultless mo" and "in_sync cd w"
  shows "in_sync cd (fst (do_confirm cd mo i a w))"
proof (cases "is_ok (owned (w_daemon w) i a :: 's response + session) \<and> dm_pending (w_daemon w) \<noteq> None")
  case False
  then show ?thesis using assms(2) by (cases "owned (w_daemon w) i a :: 's response + session") (auto simp: do_confirm_def)
next
  case True
  then obtain ss p where o: "owned (w_daemon w) i a = (Inr ss :: 's response + session)" "dm_pending (w_daemon w) = Some p"
    by (cases "owned (w_daemon w) i a :: 's response + session") auto
  let ?w = "dm_upd (\<lambda>s. s\<lparr>dm_pending := None, dm_timer := None\<rparr>) w"
  have "in_sync cd (disarm cd mo ?w)"
    using running_sync_frame [OF in_syncD(1) [OF assms(2)] leaves_refl, of "{}" "w_daemon ?w"]
      session_sync_frame [OF in_syncD(2) [OF assms(2)] leaves_refl, of "{}" "w_daemon ?w"]
    by (intro disarm_in_sync [OF assms(1)]) simp_all
  then show ?thesis using o by (simp add: do_confirm_def Let_def record_revision_sync)
qed

lemma do_save_leaves: "leaves (saved_files (cd_paths cd)) (w_disk w) (w_disk (fst (do_save cd mo w)))"
proof -
  let ?io = "mo_io mo" and ?f = "config_boot (cd_paths cd)"
  let ?tmp = "with_extension ?f ''boot.new''" and ?x = "Text (render (is_tag_node (cd_schema cd)) (dm_running (w_daemon w)))"
  obtain d1 r1 where 1: "fs_write ?io ?tmp ?x (w_disk w) = (d1, r1)" by fastforce
  obtain d2 r2 where 2: "fs_set_mode ?io ?tmp 384 d1 = (d2, r2)" by fastforce
  obtain d3 r3 where 3: "fs_rename ?io ?tmp ?f d2 = (d3, r3)" by fastforce
  have m: "?tmp \<in> saved_files (cd_paths cd)" "?f \<in> saved_files (cd_paths cd)" by (simp_all add: saved_files_def)
  note l1 = fs_write_leaves [OF 1 m(1)]
  note l2 = leaves_trans [OF l1 fs_set_mode_leaves [OF 2]]
  note l3 = leaves_trans [OF l2 fs_rename_leaves [OF 3 m]]
  show ?thesis using l1 l2 l3
    by (cases "create_dir_all ?io (butlast ?f)"; cases r1; cases r2; cases r3) (simp_all add: do_save_def Let_def 1 2 3)
qed

lemma do_save_daemon: "w_daemon (fst (do_save cd mo w)) = w_daemon w"
  by (auto simp: do_save_def Let_def split: sum.split prod.split)

lemma handle_sync:
  fixes cd :: "('m, 's, 'b) configd"
  assumes "codecs_ok cd" and "faultless mo" and "in_sync cd w"
  shows "in_sync cd (fst (handle cd mo a req w))"
proof (cases req)
  case (SetValue i p v)
  then show ?thesis using assms(3) keep_session_in_sync [OF assms]
    by (cases "owned (w_daemon w) i a :: 's response + session") (auto simp: do_set_def split: prod.split sum.split)
next
  case (DeleteNode i p v)
  then show ?thesis using assms(3) keep_session_in_sync [OF assms]
    by (cases "owned (w_daemon w) i a :: 's response + session") (auto simp: do_delete_def split: prod.split sum.split)
next
  case (Discard i)
  then show ?thesis using assms(3) keep_session_in_sync [OF assms]
    by (cases "owned (w_daemon w) i a :: 's response + session") (auto simp: do_discard_def)
next
  case (Load i source)
  then show ?thesis using assms(3) keep_session_in_sync [OF assms]
    by (cases "owned (w_daemon w) i a :: 's response + session") (auto simp: do_load_def Let_def split: prod.split sum.split)
next
  case Save
  have "in_sync cd (fst (do_save cd mo w))"
    by (rule frame_sync [OF assms(3) do_save_leaves do_save_daemon])
      (simp_all add: running_apart pending_apart sessions_apart)
  then show ?thesis using Save by simp
next
  case (OpShow target)
  then show ?thesis using assms(3) by (cases target) (auto simp: op_show_def Let_def sync_machine)
next
  case SessionOpen
  then show ?thesis using do_open_sync [OF assms] by simp
next
  case (SessionClose i)
  then show ?thesis using do_close_sync [OF assms(2,3)] by simp
next
  case (Commit i msg minutes)
  then show ?thesis using do_commit_sync [OF assms] by simp
next
  case (Confirm i)
  then show ?thesis using do_confirm_sync [OF assms(2,3)] by simp
qed (use assms(3) in simp_all)

section \<open>Starting again\<close>

lemma load_running_recorded:
  "no_faults io \<Longrightarrow> load_running io (cd_running_codec cd) (cd_paths cd) d = recorded cd d"
  by (auto simp: load_running_def recorded_def fs_read_def no_faults_def data_at_def split: option.splits sum.splits)

lemma load_one_stored:
  "no_faults io \<Longrightarrow> (case load_one io c (session_file ps i) d of Inr s \<Rightarrow> Some s | Inl e \<Rightarrow> None) = stored_session c ps i d"
  by (auto simp: load_one_def stored_session_def fs_read_def no_faults_def data_at_def split: option.splits sum.splits)

lemma start_recovers:
  assumes "faultless mo" and "in_sync cd w"
  obtains s where "start cd (mo_io mo) (w_disk w) = Inr s" "dm_running s = dm_running (w_daemon w)"
    "dm_generation s = dm_generation (w_daemon w)" "dm_history s = []" "dm_pending s = None" "dm_timer s = None"
    "\<forall>i. bm_get (dm_sessions s) i = bm_get (dm_sessions (w_daemon w)) i"
    "running_sync cd s (w_disk w)" "session_sync cd s (w_disk w)"
proof -
  let ?io = "mo_io mo" and ?c = "cd_session_codec cd" and ?ps = "cd_paths cd" and ?d = "w_disk w"
  note io = faultlessD [OF assms(1)]
  note sess = in_syncD(2) [OF assms(2), unfolded session_sync_def]
  have named: "n = ss_id s @ ''.json''"
    if "file_extension n = Some ''json''" "load_one ?io ?c (sessions_dir ?ps @ [n]) ?d = Inr s" for n s
    using that sess io
    by (auto simp: load_one_def fs_read_def no_faults_def data_at_def split: sum.splits option.splits)
  have readable: "fails ?io (ReadDir (sessions_dir ?ps)) = None" using io by (simp add: no_faults_def)
  have "bm_ok ?d" "lists_all ?io" using sess assms(1) by (simp_all add: faultless_def)
  from load_all_found [OF this readable named] obtain found problems where
    l: "store_load_all ?io ?c ?ps ?d = Inr (found, problems)"
    and k: "\<forall>i ss. bm_get found i = Some ss \<longrightarrow> ss_id ss = i \<and> valid_id i"
    and f: "\<forall>i. valid_id i \<longrightarrow> bm_get found i =
        (case load_one ?io ?c (session_file ?ps i) ?d of Inr s \<Rightarrow> Some s | Inl e \<Rightarrow> None)" by blast
  have f': "bm_get found i = bm_get (dm_sessions (w_daemon w)) i" for i
  proof (cases "valid_id i")
    case True
    then show ?thesis using f sess by (simp add: load_one_stored [OF io])
  next
    case False
    have "bm_get found i = None"
      using False k by (cases "bm_get found i") auto
    moreover have "bm_get (dm_sessions (w_daemon w)) i = None"
      using False sess by (cases "bm_get (dm_sessions (w_daemon w)) i") (auto simp: keyed_def)
    ultimately show ?thesis by simp
  qed
  let ?s = "\<lparr>dm_running = dm_running (w_daemon w), dm_generation = dm_generation (w_daemon w), dm_history = [],
      dm_sessions = found, dm_pending = None, dm_timer = None\<rparr>"
  have r: "recorded cd ?d = (dm_running (w_daemon w), dm_generation (w_daemon w))"
    using in_syncD(1) [OF assms(2)] by (simp add: running_sync_def)
  have "start cd ?io ?d = Inr ?s"
    using l r by (simp add: start_def store_prepare_def create_dir_fine [OF io] load_running_recorded [OF io])
  moreover have "running_sync cd ?s ?d" using r by (simp add: running_sync_def)
  moreover have "session_sync cd ?s ?d" using sess f' by (simp add: session_sync_def keyed_def)
  ultimately show thesis using f' by (intro that [of ?s]) simp_all
qed

lemma resume_cases:
  assumes "faultless mo" and p: "pending_sync cd s0 (w_disk w)"
  shows "resume cd mo w =
    (case dm_pending s0 of
       None \<Rightarrow> w
     | Some p \<Rightarrow>
         if pd_deadline p \<le> mo_now mo then roll_back cd mo (dm_upd (\<lambda>s. s\<lparr>dm_pending := Some p\<rparr>) w)
         else dm_upd (\<lambda>s. s\<lparr>dm_pending := Some p, dm_timer := Some (pd_deadline p)\<rparr>) w)"
proof (cases "dm_pending s0")
  case None
  then have "data_at (w_disk w) (pending_confirm (cd_paths cd)) = None" using p by (simp add: pending_sync_def)
  then have "marker_read (mo_io mo) (cd_pending_codec cd) (cd_paths cd) (w_disk w) = Inr None"
    using faultlessD [OF assms(1)] by (simp add: marker_read_def fs_read_def no_faults_def data_at_def)
  then show ?thesis using None by (simp add: resume_def)
next
  case (Some q)
  then have "marker_read (mo_io mo) (cd_pending_codec cd) (cd_paths cd) (w_disk w) = Inr (Some q)"
    using marker_read_stored [OF faultlessD [OF assms(1)]] p by (simp add: pending_sync_def)
  moreover have "expired (mo_now mo) q \<longleftrightarrow> pd_deadline q \<le> mo_now mo" by (auto simp: expired_def remaining_def)
  moreover have "\<not> pd_deadline q \<le> mo_now mo \<Longrightarrow> arm_timer mo (remaining (mo_now mo) q) = pd_deadline q"
    by (simp add: arm_timer_def remaining_def)
  ultimately show ?thesis using Some by (simp add: resume_def)
qed

lemma resume_sync:
  assumes "codecs_ok cd" and "faultless mo" and "pending_sync cd s0 (w_disk w)"
    and "running_sync cd (w_daemon w) (w_disk w)" and "session_sync cd (w_daemon w) (w_disk w)"
    and "dm_pending (w_daemon w) = None" and "dm_timer (w_daemon w) = None"
  shows "in_sync cd (resume cd mo w)"
proof (cases "dm_pending s0")
  case None
  then have "pending_sync cd (w_daemon w) (w_disk w)" using assms(3,6,7) by (simp add: pending_sync_def)
  then show ?thesis using None assms(4,5) by (simp add: resume_cases [OF assms(2,3)] in_sync_def)
next
  case (Some p)
  let ?w = "dm_upd (\<lambda>s. s\<lparr>dm_pending := Some p, dm_timer := Some (pd_deadline p)\<rparr>) w"
  let ?w' = "dm_upd (\<lambda>s. s\<lparr>dm_pending := Some p\<rparr>) w"
  have r: "running_sync cd (w_daemon ?w) (w_disk w)" "running_sync cd (w_daemon ?w') (w_disk w)"
    using running_sync_frame [OF assms(4) leaves_refl, of "{}"] by simp_all
  have s: "session_sync cd (w_daemon ?w) (w_disk w)" "session_sync cd (w_daemon ?w') (w_disk w)"
    using session_sync_frame [OF assms(5) leaves_refl, of "{}"] by simp_all
  have "in_sync cd ?w" using r(1) s(1) assms(3) Some by (simp add: in_sync_def pending_sync_def)
  moreover have "in_sync cd (roll_back cd mo ?w')"
    by (rule roll_back_sync [OF assms(1,2), of _ p]) (use r(2) s(2) in simp_all)
  ultimately show ?thesis using Some by (simp add: resume_cases [OF assms(2,3)])
qed

lemma adopt_sync:
  assumes "codecs_ok cd" and "faultless mo" and "in_sync cd w"
  shows "in_sync cd (adopt cd mo t w)"
  unfolding adopt_def
  by (rule note_running_in_sync [OF assms(1,2)])
    (use session_sync_frame [OF in_syncD(2) [OF assms(3)] leaves_refl, of "{}"]
      pending_sync_frame [OF in_syncD(3) [OF assms(3)] leaves_refl, of "{}"] in simp_all)

lemma fall_back_sync:
  "codecs_ok cd \<Longrightarrow> faultless mo \<Longrightarrow> in_sync cd w \<Longrightarrow> in_sync cd (fst (fall_back cd mo reason w))"
  by (simp add: fall_back_def Let_def adopt_sync sync_machine)

lemma mark_boot_leaves: "leaves {boot_failure (cd_paths cd)} d (mark_boot cd mo out d)"
  by (cases "outcome_failed out")
    (simp_all add: mark_boot_def Let_def fs_write_leaves [OF prod.collapse [symmetric]]
      fs_remove_leaves [OF prod.collapse [symmetric]])

lemma boot_sync:
  assumes "codecs_ok cd" and "faultless mo" and "in_sync cd w"
  shows "in_sync cd (fst (boot cd mo w))"
proof (cases "recovered_generation (w_daemon w)")
  case None
  let ?saved = "saved (mo_io mo) (cd_values cd) (cd_schema cd) (config_boot (cd_paths cd)) (w_disk w)"
  let ?r = "case ?saved of Inr (Some config) \<Rightarrow> apply_at_boot cd mo config w
    | Inr None \<Rightarrow> (w, NothingSaved) | Inl reason \<Rightarrow> fall_back cd mo reason w"
  have booted: "in_sync cd (fst (apply_at_boot cd mo t w))" for t
  proof -
    obtain w' out where a: "apply_at_boot cd mo t w = (w', out)" by fastforce
    then have "in_sync cd w'"
    proof (rule apply_at_boot_cases, goal_cases)
      case (1 m)
      then show ?case using adopt_sync [OF assms(1,2) sync_machine [OF assms(3)]] by simp
    next
      case (2 m e)
      then show ?case
        using fall_back_sync [OF assms(1,2) sync_machine [OF assms(3), of m],
            of "''the saved configuration could not be applied: '' @ show_commit_error e"] by simp
    qed
    then show ?thesis by (simp add: a)
  qed
  have r: "in_sync cd (fst ?r)"
    using booted fall_back_sync [OF assms] assms(3) by (auto split: sum.split option.split)
  obtain w' out where e: "?r = (w', out)" by fastforce
  have w': "fst (boot cd mo w) = w'\<lparr>w_disk := mark_boot cd mo out (w_disk w')\<rparr>"
    unfolding boot_def None by (simp add: e)
  have "in_sync cd (w'\<lparr>w_disk := mark_boot cd mo out (w_disk w')\<rparr>)"
    by (rule frame_sync [of cd w' "{boot_failure (cd_paths cd)}"])
      (use r e mark_boot_leaves in \<open>simp_all add: running_apart pending_apart sessions_apart\<close>)
  then show ?thesis using w' by simp
qed (use assms(3) in \<open>simp add: boot_def\<close>)

fun faultless_event :: "'b event \<Rightarrow> bool" where
  "faultless_event (Asked mo a req) = faultless mo"
| "faultless_event (Fired mo) = faultless mo"
| "faultless_event (Restarted mo) = faultless mo"

lemma restart_sync:
  assumes "codecs_ok cd" and "faultless mo" and "in_sync cd w"
    and "start cd (mo_io mo) (w_disk w) = Inr s"
  shows "in_sync cd (resume cd mo (w\<lparr>w_daemon := s\<rparr>))"
proof -
  obtain s' where s': "start cd (mo_io mo) (w_disk w) = Inr s'" "dm_pending s' = None" "dm_timer s' = None"
    "running_sync cd s' (w_disk w)" "session_sync cd s' (w_disk w)"
    by (rule start_recovers [OF assms(2,3)])
  then have "s' = s" using assms(4) by simp
  then show ?thesis
    using s' in_syncD(3) [OF assms(3)] by (intro resume_sync [OF assms(1,2), of "w_daemon w"]) simp_all
qed

lemma step_sync:
  assumes "codecs_ok cd" and "in_sync cd w" and "faultless_event ev" and "step cd ev w w'"
  shows "in_sync cd w'"
  using assms(4)
proof cases
  case (asked mo a req)
  then show ?thesis using handle_sync [OF assms(1) _ assms(2)] assms(3) by simp
next
  case (fired t mo)
  then obtain p where "dm_pending (w_daemon w) = Some p"
    using in_syncD(3) [OF assms(2)] by (cases "dm_pending (w_daemon w)") (auto simp: pending_sync_def)
  then show ?thesis
    using roll_back_sync [OF assms(1) _ in_syncD(2,1) [OF assms(2)]] fired assms(3) by simp
next
  case (restarted mo s)
  then show ?thesis using restart_sync [OF assms(1) _ assms(2)] boot_sync [OF assms(1)] assms(3) by simp
qed

lemma runs_sync:
  "runs cd evs w w' \<Longrightarrow> codecs_ok cd \<Longrightarrow> in_sync cd w \<Longrightarrow> list_all faultless_event evs \<Longrightarrow> in_sync cd w'"
proof (induction rule: runs.induct)
  case (runs_snoc evs w w1 ev w2)
  then have "in_sync cd w1" "faultless_event ev" by simp_all
  then show ?case using step_sync runs_snoc.hyps(2) runs_snoc.prems(1) by blast
qed simp

lemma boot_sessions: "dm_sessions (w_daemon (fst (boot cd mo w))) = dm_sessions (w_daemon w)"
proof -
  have fell: "dm_sessions (w_daemon (fst (fall_back cd mo reason w'))) = dm_sessions (w_daemon w')" for reason w'
    by (simp add: fall_back_def Let_def)
  have "dm_sessions (w_daemon (fst (apply_at_boot cd mo t w))) = dm_sessions (w_daemon w)" for t
    using fell by (auto simp: apply_at_boot_def split: prod.split sum.split)
  then show ?thesis
    using fell by (auto simp: boot_def split: option.split prod.split sum.split) (metis fst_conv)+
qed

text \<open>
  What the daemon that starts again has taken from the disk before it looks at \<open>config.boot\<close>:
  everything the one before it had, the waiting commit with its deadline, or the rollback done.
\<close>

definition comes_back :: "('m, 's, 'b) configd \<Rightarrow> 'b moment \<Rightarrow> ('m, 'b) world \<Rightarrow> ('m, 'b) world \<Rightarrow> bool" where
  "comes_back cd mo w w' \<longleftrightarrow>
     (case dm_pending (w_daemon w) of
        None \<Rightarrow> store_of w' = store_of w \<and> w_machine w' = w_machine w \<and> w_disk w' = w_disk w
      | Some p \<Rightarrow>
          if pd_deadline p \<le> mo_now mo
          then dm_pending (w_daemon w') = None \<and>
            w_machine w' = fst (commit_apply (cd_renderers cd) (pd_previous p) (w_machine w)) \<and>
            dm_running (w_daemon w') =
              (if is_ok (snd (commit_apply (cd_renderers cd) (pd_previous p) (w_machine w)))
               then pd_previous p else dm_running (w_daemon w))
          else waits p (w_daemon w') \<and> store_of w' = store_of w \<and> w_machine w' = w_machine w \<and>
            w_disk w' = w_disk w)"

lemma restarted_daemon:
  assumes "codecs_ok cd" and "in_sync cd w" and "faultless mo"
  obtains s w' where "start cd (mo_io mo) (w_disk w) = Inr s" "w' = resume cd mo (w\<lparr>w_daemon := s\<rparr>)"
    "\<forall>i. bm_get (dm_sessions (w_daemon w')) i = bm_get (dm_sessions (w_daemon w)) i" "comes_back cd mo w w'"
    "recovered_generation (w_daemon w) \<noteq> None \<Longrightarrow> fst (boot cd mo w') = w'"
proof -
  obtain s where s: "start cd (mo_io mo) (w_disk w) = Inr s" "dm_running s = dm_running (w_daemon w)"
    "dm_generation s = dm_generation (w_daemon w)" "dm_history s = []" "dm_pending s = None" "dm_timer s = None"
    "\<forall>i. bm_get (dm_sessions s) i = bm_get (dm_sessions (w_daemon w)) i"
    by (rule start_recovers [OF assms(3,2)])
  let ?w0 = "w\<lparr>w_daemon := s\<rparr>"
  let ?w' = "resume cd mo ?w0"
  have p: "pending_sync cd (w_daemon w) (w_disk ?w0)" using in_syncD(3) [OF assms(2)] by simp
  have sess: "\<forall>i. bm_get (dm_sessions (w_daemon ?w')) i = bm_get (dm_sessions (w_daemon w)) i"
    and after: "comes_back cd mo w ?w'"
    and gen: "recovered_generation (w_daemon w) \<noteq> None \<Longrightarrow> recovered_generation (w_daemon ?w') \<noteq> None"
    using s unfolding comes_back_def recovered_generation_def
    by (auto simp: resume_cases [OF assms(3) p] store_of_def waits_def roll_back_daemon [OF _ prod.collapse [symmetric] refl]
        split: option.splits if_splits)
  have "recovered_generation (w_daemon w) \<noteq> None \<Longrightarrow> fst (boot cd mo ?w') = ?w'"
    using gen by (auto simp: boot_def)
  then show thesis using that [OF s(1) refl sess after] by blast
qed

text \<open>
  C4. A restart loses nothing. After any history of requests, timers and restarts in which the
  disk did not fail, a daemon that stops and starts again comes back with the configuration, the
  generation and every operator's candidate it had; a commit that was waiting still waits, with its
  timer at the same deadline, and one whose deadline passed while the daemon was down is rolled
  back before anything else happens. If anything had been committed or booted that is where it
  stays; if nothing ever had (generation 0 and an empty configuration), the daemon goes on from
  there as at a first boot, with whatever has been saved in \<open>config.boot\<close>, the candidates kept.
\<close>

theorem restart_lossless:
  assumes "codecs_ok cd" and "in_sync cd w" and "runs cd evs w w1" and "list_all faultless_event evs"
    and "faultless mo"
  shows "\<exists>w' w2. step cd (Restarted mo) w1 w2 \<and> in_sync cd w2 \<and> comes_back cd mo w1 w' \<and>
    w2 = (if recovered_generation (w_daemon w1) = None then fst (boot cd mo w') else w') \<and>
    (\<forall>i. bm_get (dm_sessions (w_daemon w2)) i = bm_get (dm_sessions (w_daemon w1)) i)"
proof -
  have w1: "in_sync cd w1" using runs_sync assms(1-4) by blast
  obtain s w' where s: "start cd (mo_io mo) (w_disk w1) = Inr s" "w' = resume cd mo (w1\<lparr>w_daemon := s\<rparr>)"
    and r: "\<forall>i. bm_get (dm_sessions (w_daemon w')) i = bm_get (dm_sessions (w_daemon w1)) i" "comes_back cd mo w1 w'"
    "recovered_generation (w_daemon w1) \<noteq> None \<Longrightarrow> fst (boot cd mo w') = w'"
    by (rule restarted_daemon [OF assms(1) w1 assms(5)]) blast
  have st: "step cd (Restarted mo) w1 (fst (boot cd mo w'))" unfolding s(2) by (rule restarted [OF s(1)])
  have "in_sync cd (fst (boot cd mo w'))" using step_sync [OF assms(1) w1 _ st] assms(5) by simp
  then show ?thesis using st r by (intro exI [of _ w'] exI [of _ "fst (boot cd mo w')"]) (simp add: boot_sessions)
qed

end
