(* ===== verification/Request_Laws.thy ===== *)
theory Request_Laws
  imports Restart_Laws
begin

text \<open>
  What single requests promise: saving is atomic and what was saved is what the box boots into, a
  boot that cannot use the saved configuration says why, and nobody's request reaches into the
  session of somebody else.
\<close>

section \<open>Saving\<close>

definition saved_entry :: "('m, 's, 'b) configd \<Rightarrow> config_tree \<Rightarrow> 'b file_entry" where
  "saved_entry cd t = \<lparr>f_data = Text (render (is_tag_node (cd_schema cd)) t), f_mode = 384\<rparr>"

lemma saved_tmp: "with_extension (config_boot ps) ''boot.new'' \<noteq> config_boot ps"
  by (simp add: temporary_names) (simp add: fixed_paths)

lemma fs_set_mode_get:
  "fs_set_mode io p mode d = (d', Inr u) \<Longrightarrow>
   \<exists>f. bm_get d p = Some f \<and> bm_get d' p = Some (f\<lparr>f_mode := mode\<rparr>)"
  by (auto simp: fs_set_mode_def bm_get_insert split: option.splits)

lemma fs_rename_get:
  "fs_rename io p q d = (d', Inr u) \<Longrightarrow> bm_get d' q = bm_get d p"
  by (auto simp: fs_rename_def bm_get_insert split: option.splits)

lemma do_save_cases:
  fixes cd :: "('m, 's, 'b) configd"
  assumes "do_save cd mo w = (w', r :: 's response)"
  obtains (failed) "r \<noteq> RespOk" "bm_get (w_disk w') (config_boot (cd_paths cd)) = bm_get (w_disk w) (config_boot (cd_paths cd))"
  | (saved) "r = RespOk" "bm_get (w_disk w') (config_boot (cd_paths cd)) = Some (saved_entry cd (dm_running (w_daemon w)))"
proof -
  let ?io = "mo_io mo" and ?f = "config_boot (cd_paths cd)"
  let ?tmp = "with_extension ?f ''boot.new''" and ?x = "Text (render (is_tag_node (cd_schema cd)) (dm_running (w_daemon w)))"
  obtain d1 r1 where 1: "fs_write ?io ?tmp ?x (w_disk w) = (d1, r1)" by fastforce
  obtain d2 r2 where 2: "fs_set_mode ?io ?tmp 384 d1 = (d2, r2)" by fastforce
  obtain d3 r3 where 3: "fs_rename ?io ?tmp ?f d2 = (d3, r3)" by fastforce
  have ne: "?f \<noteq> ?tmp" using saved_tmp by metis
  have k1: "bm_get d1 ?f = bm_get (w_disk w) ?f" by (rule fs_write_other [OF 1 ne])
  have k2: "bm_get d2 ?f = bm_get (w_disk w) ?f"
    using 2 ne k1 by (auto simp: fs_set_mode_def bm_get_insert split: option.splits)
  have k3: "\<not> is_ok r3 \<Longrightarrow> d3 = d2" using 3 by (auto simp: fs_rename_def split: option.splits)
  have ok: "bm_get d3 ?f = Some (saved_entry cd (dm_running (w_daemon w)))"
    if t: "is_ok r1" "is_ok r2" "is_ok r3"
  proof -
    obtain f where f: "bm_get d1 ?tmp = Some f" "bm_get d2 ?tmp = Some (f\<lparr>f_mode := 384\<rparr>)"
      using fs_set_mode_get [of ?io ?tmp 384 d1 d2 "()"] 2 t(2) by (cases r2) auto
    have "bm_get d3 ?f = bm_get d2 ?tmp" using fs_rename_get [of ?io ?tmp ?f d2 d3 "()"] 3 t(3) by (cases r3) auto
    moreover have "f_data f = ?x"
      using fs_write_data(2) [OF 1 t(1)] f(1) by (simp add: data_at_def)
    ultimately show ?thesis using f(2) by (simp add: saved_entry_def)
  qed
  show thesis
    using assms k1 k2 k3 ok failed saved
    by (cases "create_dir_all ?io (butlast ?f)"; cases r1; cases r2; cases r3)
      (auto simp: do_save_def Let_def 1 2 3 internal_def)
qed

text \<open>
  C7. Saving is all or nothing. When \<open>save\<close> answers that it is done, \<open>config.boot\<close> holds the text
  of the running configuration and is readable by its owner only; when anything failed on the way,
  the old \<open>config.boot\<close> is there as it was, permissions and all. No other file is touched but the
  temporary one beside it.
\<close>

theorem save_all_or_nothing:
  fixes cd :: "('m, 's, 'b) configd"
  assumes "handle cd mo a Save w = (w', r)"
  shows "bm_get (w_disk w') (config_boot (cd_paths cd)) =
      (if r = RespOk then Some \<lparr>f_data = Text (render (is_tag_node (cd_schema cd)) (dm_running (w_daemon w))), f_mode = 384\<rparr>
       else bm_get (w_disk w) (config_boot (cd_paths cd))) \<and>
    leaves {config_boot (cd_paths cd), with_extension (config_boot (cd_paths cd)) ''boot.new''} (w_disk w) (w_disk w') \<and>
    w_daemon w' = w_daemon w"
proof -
  have s: "do_save cd mo w = (w', r)" using assms by simp
  have "leaves (saved_files (cd_paths cd)) (w_disk w) (w_disk w')" "w_daemon w' = w_daemon w"
    using do_save_leaves [of cd w mo] do_save_daemon [of cd mo w] s by simp_all
  moreover have "bm_get (w_disk w') (config_boot (cd_paths cd)) =
      (if r = RespOk then Some (saved_entry cd (dm_running (w_daemon w)))
       else bm_get (w_disk w) (config_boot (cd_paths cd)))"
    by (rule do_save_cases [OF s]) simp_all
  ultimately show ?thesis by (simp add: saved_files_def saved_entry_def)
qed

lemma saved_reads:
  assumes "data_at d p = Some (Text (render tags t))" and "no_faults io" and "renderable t"
    and "validate_tree env sc t = []" and "check_constraints sc t = []"
  shows "saved io env sc p d = Inr (Some t)"
proof -
  have "fs_read_text io p d = Inr (render tags t)"
    using assms(1,2) by (auto simp: fs_read_text_def fs_read_def no_faults_def data_at_def split: option.splits)
  then show ?thesis using assms(4,5) by (simp add: saved_def render_parses [OF assms(3)])
qed

text \<open>
  C8. What was saved is what the box boots into. After a successful \<open>save\<close> of a valid configuration,
  a machine that comes up with that \<open>config.boot\<close> and nothing under \<open>/run\<close>, and whose renderers take
  the configuration, runs exactly the configuration that was running when it was saved.
\<close>

theorem saved_is_booted:
  assumes "handle cd mo a Save w = (w', RespOk)"
    and "sound cd (dm_running (w_daemon w))" and "renderable (dm_running (w_daemon w))"
    and "data_at (w_disk w0) (config_boot (cd_paths cd)) = data_at (w_disk w') (config_boot (cd_paths cd))"
    and "no_faults (mo_io mo0)" and "start cd (mo_io mo0) (w_disk w0) = Inr (w_daemon w0)"
    and "data_at (w_disk w0) (running_path (cd_paths cd)) = None"
    and "commit_apply (cd_renderers cd) (dm_running (w_daemon w)) (w_machine w0) = (m, Inr ())"
  shows "\<exists>w1. boot cd mo0 w0 = (w1, AppliedSaved (length (diff tree_new (dm_running (w_daemon w))))) \<and>
    dm_running (w_daemon w1) = dm_running (w_daemon w) \<and> w_machine w1 = m"
proof -
  let ?t = "dm_running (w_daemon w)"
  have "data_at (w_disk w') (config_boot (cd_paths cd)) = Some (Text (render (is_tag_node (cd_schema cd)) ?t))"
  proof (rule do_save_cases [of cd mo w w' RespOk])
    show "do_save cd mo w = (w', RespOk)" using assms(1) by simp
  qed (simp_all add: data_at_def saved_entry_def)
  then have s: "saved (mo_io mo0) (cd_values cd) (cd_schema cd) (config_boot (cd_paths cd)) (w_disk w0) = Inr (Some ?t)"
    using assms(2-5) by (intro saved_reads) (simp_all add: sound_def)
  have "load_running (mo_io mo0) (cd_running_codec cd) (cd_paths cd) (w_disk w0) = (tree_new, 0)"
    using assms(5,7) by (simp add: load_running_recorded recorded_def)
  then have "dm_running (w_daemon w0) = tree_new" "dm_generation (w_daemon w0) = 0"
    using assms(6) by (auto simp: start_def bind_result_Inr dest!: sym [of _ "w_daemon w0"])
  then have n: "recovered_generation (w_daemon w0) = None"
    by (simp add: recovered_generation_def tree_is_empty_def tree_new_def node_interior_def)
  show ?thesis using assms(8) by (simp add: boot_def n s apply_at_boot_def)
qed

section \<open>Booting\<close>

lemma mark_boot_fine:
  assumes "no_faults (mo_io mo)"
  shows "data_at (mark_boot cd mo out d) (boot_failure (cd_paths cd)) = map_option Text (outcome_failed out)"
proof (cases "outcome_failed out")
  case None
  then show ?thesis using assms
    by (auto simp: mark_boot_def Let_def fs_remove_def no_faults_def data_at_def bm_get_remove split: option.splits)
next
  case (Some reason)
  then show ?thesis using assms by (simp add: mark_boot_def Let_def data_at_write data_at_put)
qed

definition boot_choice ::
  "('m, 's, 'b) configd \<Rightarrow> 'b moment \<Rightarrow> ('m, 'b) world \<Rightarrow> ('m, 'b) world \<times> outcome" where
  "boot_choice cd mo w =
     (case saved (mo_io mo) (cd_values cd) (cd_schema cd) (config_boot (cd_paths cd)) (w_disk w) of
        Inr (Some config) \<Rightarrow> apply_at_boot cd mo config w
      | Inr None \<Rightarrow> (w, NothingSaved)
      | Inl reason \<Rightarrow> fall_back cd mo reason w)"

lemma boot_cases:
  assumes "boot cd mo w = (w', out)" and "recovered_generation (w_daemon w) = None"
  obtains w1 where "boot_choice cd mo w = (w1, out)" "w' = w1\<lparr>w_disk := mark_boot cd mo out (w_disk w1)\<rparr>"
proof -
  obtain w1 out1 where c: "boot_choice cd mo w = (w1, out1)" by fastforce
  have "boot cd mo w = (w1\<lparr>w_disk := mark_boot cd mo out1 (w_disk w1)\<rparr>, out1)"
    unfolding boot_def assms(2) using c by (simp add: boot_choice_def)
  then show thesis using that [of w1] c assms(1) by simp
qed

lemma fall_back_out:
  "fall_back cd mo reason w = (w', out) \<Longrightarrow>
   out = Defaults reason \<and> dm_running (w_daemon w') = defaults (cd_schema cd) \<and>
   dm_generation (w_daemon w') = dm_generation (w_daemon w) + 1 \<and>
   w_machine w' = fst (commit_apply (cd_renderers cd) (defaults (cd_schema cd)) (w_machine w))"
  by (auto simp: fall_back_def Let_def)

text \<open>The configuration that \<open>config.boot\<close> holds: its text parses to it and both validation passes accept it.\<close>

definition bootable :: "('m, 's, 'b) configd \<Rightarrow> 'b disk \<Rightarrow> config_tree \<Rightarrow> bool" where
  "bootable cd d t \<longleftrightarrow>
     (\<exists>src. data_at d (config_boot (cd_paths cd)) = Some (Text src) \<and> parse src = Inr t \<and>
        validate_tree (cd_values cd) (cd_schema cd) t = [] \<and> check_constraints (cd_schema cd) t = [])"

lemma saved_exact:
  assumes "fails io (ReadFile (config_boot (cd_paths cd))) = None"
    and "r = saved io (cd_values cd) (cd_schema cd) (config_boot (cd_paths cd)) d"
  shows "r = Inr None \<longleftrightarrow> data_at d (config_boot (cd_paths cd)) = None"
    and "r = Inr (Some t) \<longleftrightarrow> bootable cd d t"
    and "r = Inl reason \<Longrightarrow> \<exists>why. reason = show_file_path (config_boot (cd_paths cd)) @ why"
  using assms
  by (auto simp: saved_def bootable_def Let_def fs_read_text_def fs_read_def data_at_def
      split: option.splits content.splits sum.splits io_error.splits if_splits)

text \<open>
  C9. The box always comes up, with what was saved if that can be had, and says how. A boot over a
  disk that works looks at \<open>config.boot\<close>. If there is no such file, nothing was ever saved, and
  nothing is touched. If its text parses and is valid, that configuration goes through the pipeline:
  it runs, on the machine the pipeline leaves, when every renderer took it, and otherwise the
  renderer's error is the reason why the schema's defaults run, put through the pipeline in its
  place. If it does not parse or is not valid, the defaults run, for a reason that names the file.
  Where the defaults run, and only then, the reason is in the file the command line shows at login.
\<close>

theorem boot_always_decides:
  assumes "boot cd mo w = (w', out)" and "recovered_generation (w_daemon w) = None" and "no_faults (mo_io mo)"
  shows "data_at (w_disk w') (boot_failure (cd_paths cd)) = map_option Text (outcome_failed out) \<and>
    (let fell_back = \<lambda>m. dm_running (w_daemon w') = defaults (cd_schema cd) \<and>
       dm_generation (w_daemon w') = dm_generation (w_daemon w) + 1 \<and>
       w_machine w' = fst (commit_apply (cd_renderers cd) (defaults (cd_schema cd)) m)
     in if data_at (w_disk w) (config_boot (cd_paths cd)) = None
        then out = NothingSaved \<and> w_daemon w' = w_daemon w \<and> w_machine w' = w_machine w
        else if \<exists>t. bootable cd (w_disk w) t
        then \<exists>t. bootable cd (w_disk w) t \<and>
          (case commit_apply (cd_renderers cd) t (w_machine w) of
             (m, Inr u) \<Rightarrow> out = AppliedSaved (length (diff tree_new t)) \<and> dm_running (w_daemon w') = t \<and>
               dm_generation (w_daemon w') = dm_generation (w_daemon w) + 1 \<and> w_machine w' = m
           | (m, Inl e) \<Rightarrow>
               out = Defaults (''the saved configuration could not be applied: '' @ show_commit_error e) \<and> fell_back m)
        else (\<exists>why. out = Defaults (show_file_path (config_boot (cd_paths cd)) @ why)) \<and> fell_back (w_machine w))"
proof -
  obtain w1 where c: "boot_choice cd mo w = (w1, out)" and w': "w' = w1\<lparr>w_disk := mark_boot cd mo out (w_disk w1)\<rparr>"
    by (rule boot_cases [OF assms(1,2)])
  have readable: "fails (mo_io mo) (ReadFile (config_boot (cd_paths cd))) = None"
    using assms(3) by (simp add: no_faults_def)
  note marked = mark_boot_fine [OF assms(3), of cd out "w_disk w1"]
  define r where "r = saved (mo_io mo) (cd_values cd) (cd_schema cd) (config_boot (cd_paths cd)) (w_disk w)"
  note exact = saved_exact [OF readable r_def]
  consider (refused) reason where "r = Inl reason" | (absent) "r = Inr None" | (found) t where "r = Inr (Some t)"
    by (cases r; cases "projr r") auto
  then show ?thesis
  proof cases
    case (refused reason)
    then have "data_at (w_disk w) (config_boot (cd_paths cd)) \<noteq> None" "\<nexists>t. bootable cd (w_disk w) t"
      using exact(1,2) by auto
    moreover obtain why where "reason = show_file_path (config_boot (cd_paths cd)) @ why"
      using exact(3) refused by blast
    ultimately show ?thesis
      using c w' marked fall_back_out [of cd mo reason w w1 out] refused
      by (simp add: boot_choice_def r_def [symmetric])
  next
    case absent
    then show ?thesis
      using c w' marked exact(1) by (auto simp: boot_choice_def r_def [symmetric])
  next
    case (found t)
    then have a: "apply_at_boot cd mo t w = (w1, out)" using c by (simp add: boot_choice_def r_def [symmetric])
    have some: "data_at (w_disk w) (config_boot (cd_paths cd)) \<noteq> None" and t: "bootable cd (w_disk w) t"
      using exact(1,2) found by auto
    then have e: "\<exists>t. bootable cd (w_disk w) t" by blast
    show ?thesis unfolding Let_def if_not_P [OF some] if_P [OF e]
    proof (rule apply_at_boot_cases [OF a], goal_cases)
      case (1 m)
      then show ?case using w' marked t by (intro conjI exI [of _ t]) simp_all
    next
      case (2 m e)
      then show ?case using w' marked t fall_back_out [OF 2(2)] by (intro conjI exI [of _ t]) simp_all
    qed
  qed
qed

section \<open>Other people's sessions\<close>

lemma keep_session_other:
  assumes "i \<noteq> j"
  shows "bm_get (dm_sessions (w_daemon (fst (keep_session cd mo i ss resp w)))) j = bm_get (dm_sessions (w_daemon w)) j"
  using assms by (simp add: keep_session_effect [OF prod.collapse [symmetric]] bm_get_insert)

lemma owned_other:
  "bm_get (dm_sessions s) j = Some ss \<Longrightarrow> \<not> owned_by ss a \<Longrightarrow> owned s j a = Inl r \<Longrightarrow>
   r = Failed KRequest (''session '' @ j @ '' belongs to '' @ ss_username ss @ ''; open your own with `configure`'')"
  by (simp add: owned_def)

lemma foreign_owned:
  "bm_get (dm_sessions s) j = Some ss \<Longrightarrow> \<not> owned_by ss a \<Longrightarrow> owned s i a = Inr t \<Longrightarrow> i \<noteq> j"
  by (auto simp: owned_Inr)

lemma commit_other:
  assumes "bm_get (dm_sessions (w_daemon w)) j = Some ss" and "\<not> owned_by ss a"
  shows "bm_get (dm_sessions (w_daemon (fst (do_commit cd mo i a msg minutes w)))) j = Some ss"
proof -
  obtain w' r where c: "do_commit cd mo i a msg minutes w = (w', r)" by fastforce
  have "bm_get (dm_sessions (w_daemon w')) j = Some ss"
  proof (rule do_commit_daemon [OF c refl], goal_cases)
    case 1
    then show ?case using assms(1) by simp
  next
    case (2 t q)
    then show ?case using assms(1) foreign_owned [OF assms 2(1)]
      by (simp add: promoted_daemon_def bm_get_insert split: option.split)
  qed
  then show ?thesis using c by simp
qed

lemma confirm_other:
  "bm_get (dm_sessions (w_daemon (fst (do_confirm cd mo i a w)))) j = bm_get (dm_sessions (w_daemon w)) j"
proof -
  obtain w' r where c: "do_confirm cd mo i a w = (w', r)" by fastforce
  have "bm_get (dm_sessions (w_daemon w')) j = bm_get (dm_sessions (w_daemon w)) j"
    by (rule do_confirm_daemon [OF c]) simp_all
  then show ?thesis using c by simp
qed

text \<open>The file of session \<open>j\<close> is left as it was.\<close>

definition spares :: "('m, 's, 'b) configd \<Rightarrow> session_id \<Rightarrow> ('m, 'b) world \<Rightarrow> ('m, 'b) world \<Rightarrow> bool" where
  "spares cd j w w' \<longleftrightarrow> data_at (w_disk w') (session_file (cd_paths cd) j) = data_at (w_disk w) (session_file (cd_paths cd) j)"

lemma spares_trans: "spares cd j w w1 \<Longrightarrow> spares cd j w1 w2 \<Longrightarrow> spares cd j w w2"
  and spares_same: "w_disk w' = w_disk w \<Longrightarrow> spares cd j w w'"
  and spares_leaves: "leaves F (w_disk w) (w_disk w') \<Longrightarrow> session_file (cd_paths cd) j \<notin> F \<Longrightarrow> spares cd j w w'"
  by (simp_all add: spares_def leavesD)

lemma session_file_apart:
  assumes "valid_id j"
  shows "session_file ps j \<notin> running_files ps" "session_file ps j \<notin> marker_files ps"
    "session_file ps j \<notin> saved_files ps" "session_file ps j \<notin> archive_files ps"
  using sessions_apart by (simp_all add: session_path [OF assms])

lemma keep_session_spares:
  assumes "ss_id ss = i" "valid_id i" "valid_id j" "i \<noteq> j"
  shows "spares cd j w (fst (keep_session cd mo i ss resp w))"
proof -
  obtain d r where s: "store_save (mo_io mo) (cd_session_codec cd) (cd_paths cd) ss (w_disk w) = (d, r)" by fastforce
  have "w_disk (fst (keep_session cd mo i ss resp w)) = d"
    using keep_session_effect(3) [OF prod.collapse [symmetric], of cd mo i ss resp w] s by simp
  then have "leaves (session_files (cd_paths cd) i) (w_disk w) (w_disk (fst (keep_session cd mo i ss resp w)))"
    using store_save_leaves [OF s] assms(1) by simp
  then show ?thesis using session_apart [OF assms(2,3,4)] by (rule spares_leaves)
qed

lemma promote_spares:
  fixes cd :: "('m, 's, 'b) configd"
  assumes "keyed (w_daemon w)" "valid_id i" "valid_id j" "i \<noteq> j"
  shows "spares cd j w (promote cd mo i t w)"
proof -
  let ?s = "w_daemon w"
  let ?h = "dm_history ?s @ [(dm_generation ?s, dm_running ?s)]"
  let ?w = "w\<lparr>w_daemon := ?s\<lparr>dm_running := t, dm_generation := dm_generation ?s + 1,
                dm_history := drop (length ?h - HISTORY) ?h\<rparr>\<rparr>"
  let ?w1 = "note_running cd mo ?w"
  have "leaves (running_files (cd_paths cd)) (w_disk ?w) (w_disk ?w1)" by (rule note_running_leaves)
  then have 1: "spares cd j w ?w1"
    using session_file_apart(1) [OF assms(3)] by (intro spares_leaves [of "running_files (cd_paths cd)"]) simp_all
  show ?thesis
  proof (cases "bm_get (dm_sessions ?s) i")
    case None
    then show ?thesis using 1 by (simp add: promote_def Let_def)
  next
    case (Some ss)
    let ?ss = "ss\<lparr>ss_base := dm_generation ?s + 1\<rparr>"
    have "ss_id ?ss = i" using Some assms(1) by (simp add: keyed_def)
    from keep_session_spares [OF this assms(2-4), of cd ?w1 mo "RespOk :: 's response"]
    have "spares cd j w (fst (keep_session cd mo i ?ss (RespOk :: 's response) ?w1))" by (rule spares_trans [OF 1])
    then show ?thesis using Some by (simp add: promote_def Let_def)
  qed
qed

lemma commit_spares:
  fixes cd :: "('m, 's, 'b) configd"
  assumes k: "keyed (w_daemon w)" and j: "bm_get (dm_sessions (w_daemon w)) j = Some ss" "\<not> owned_by ss a"
  shows "spares cd j w (fst (do_commit cd mo i a msg minutes w))"
proof -
  obtain w' r where c: "do_commit cd mo i a msg minutes w = (w', r :: 's response)" by fastforce
  have vj: "valid_id j" using k j by (simp add: keyed_def)
  have "spares cd j w w'"
  proof (rule do_commit_cases [OF c], goal_cases)
    case (3 t m w1)
    have vi: "valid_id i" using 3(1) k by (auto simp: owned_Inr keyed_def)
    have "spares cd j (w\<lparr>w_machine := m\<rparr>) w1"
      unfolding 3(6) by (rule promote_spares) (use k vi vj foreign_owned [OF j 3(1)] in simp_all)
    then have w1: "spares cd j w w1" by (rule spares_trans [OF spares_same, rotated]) simp
    show ?case
    proof (cases minutes)
      case None
      have "spares cd j w1 (record_revision cd mo t' a msg g cs w1)" for t' g cs
        by (rule spares_leaves [OF record_revision_leaves session_file_apart(4) [OF vj]])
      then show ?thesis using 3(7) None spares_trans [OF w1] by simp
    next
      case (Some n)
      then have "await_confirm cd mo i a msg n (dm_generation (w_daemon w))
          (order (cd_schema cd) (diff (dm_running (w_daemon w)) (ss_candidate t))) w1 = (w', r)"
        using 3(7) by simp
      then have "leaves (marker_files (cd_paths cd)) (w_disk w1) (w_disk w')"
        by (rule await_confirm_cases [OF _ refl refl]) (simp_all add: marker_arm_leaves)
      then show ?thesis
        using spares_trans [OF w1] spares_leaves session_file_apart(2) [OF vj] by blast
    qed
  qed (simp_all add: spares_same)
  then show ?thesis using c by simp
qed

lemma own_session_apart:
  fixes cd :: "('m, 's, 'b) configd"
  assumes "keyed (w_daemon w)" and "bm_get (dm_sessions (w_daemon w)) j = Some ss" "\<not> owned_by ss a"
    and "owned (w_daemon w) i a = (Inr t :: 's response + session)"
  shows "i \<noteq> j" "valid_id i" "valid_id j" "ss_id t = i"
  using assms(1,2) foreign_owned [OF assms(2-4)] assms(4) by (auto simp: keyed_def owned_Inr)

lemma keep_session_private:
  fixes cd :: "('m, 's, 'b) configd"
  assumes "keyed (w_daemon w)" and j: "bm_get (dm_sessions (w_daemon w)) j = Some ss" "\<not> owned_by ss a"
    and o: "owned (w_daemon w) i a = (Inr t :: 's response + session)" and "ss_id t' = ss_id t"
  shows "bm_get (dm_sessions (w_daemon (fst (keep_session cd mo i t' resp w)))) j = Some ss \<and>
    spares cd j w (fst (keep_session cd mo i t' resp w))"
proof -
  note own_session_apart [OF assms(1) j o]
  then show ?thesis using keep_session_other [of i j cd mo t' resp w] keep_session_spares [of t' i j cd w mo resp]
      assms(5) j(1) by simp
qed

lemma close_private:
  fixes cd :: "('m, 's, 'b) configd"
  assumes "keyed (w_daemon w)" and j: "bm_get (dm_sessions (w_daemon w)) j = Some ss" "\<not> owned_by ss a"
  shows "bm_get (dm_sessions (w_daemon (fst (do_close cd mo i a w)))) j = Some ss \<and>
    spares cd j w (fst (do_close cd mo i a w))"
proof (cases "owned (w_daemon w) i a :: 's response + session")
  case (Inl resp)
  then show ?thesis using j(1) by (simp add: do_close_def spares_same)
next
  case (Inr t)
  note k = own_session_apart [OF assms(1) j Inr]
  obtain d r where f: "store_forget (mo_io mo) (cd_paths cd) i (w_disk w) = (d, r)" by fastforce
  have "w_disk (fst (do_close cd mo i a w)) = d" using Inr f by (simp add: do_close_def Let_def)
  moreover have "spares cd j w (fst (do_close cd mo i a w))"
    by (rule spares_leaves [OF _ session_apart [OF k(2,3,1)]]) (use store_forget_leaves [OF f] Inr f in \<open>simp add: do_close_def Let_def\<close>)
  ultimately show ?thesis using Inr j(1) k(1) by (simp add: do_close_def Let_def bm_get_remove)
qed

lemma open_private:
  fixes cd :: "('m, 's, 'b) configd"
  assumes "keyed (w_daemon w)" and j: "bm_get (dm_sessions (w_daemon w)) j = Some ss"
    and fresh: "\<And>bytes. mo_random mo = Inr bytes \<Longrightarrow> length bytes = ENTROPY_BYTES \<and> session_id_from_bytes bytes \<noteq> j"
  shows "bm_get (dm_sessions (w_daemon (fst (do_open cd mo a w)))) j = Some ss \<and>
    spares cd j w (fst (do_open cd mo a w))"
proof (cases "mo_random mo")
  case (Inl e)
  then show ?thesis using j by (simp add: do_open_def spares_same)
next
  case (Inr bytes)
  let ?i = "session_id_from_bytes bytes"
  let ?t = "session_new ?i a (dm_running (w_daemon w)) (dm_generation (w_daemon w))"
  have i: "ss_id ?t = ?i" "valid_id ?i" "?i \<noteq> j" "valid_id j"
    using from_bytes_valid fresh [OF Inr] assms(1) j by (simp_all add: session_new_def keyed_def)
  obtain d r where s: "store_save (mo_io mo) (cd_session_codec cd) (cd_paths cd) ?t (w_disk w) = (d, r)" by fastforce
  have "w_disk (fst (do_open cd mo a w)) = d" using Inr s by (cases r) (simp_all add: do_open_def Let_def)
  then have "leaves (session_files (cd_paths cd) ?i) (w_disk w) (w_disk (fst (do_open cd mo a w)))"
    using store_save_leaves [OF s] i(1) by simp
  then have "spares cd j w (fst (do_open cd mo a w))"
    by (rule spares_leaves [OF _ session_apart [OF i(2,4,3)]])
  then show ?thesis using Inr s j i(3) by (cases r) (simp_all add: do_open_def Let_def bm_get_insert)
qed

lemma handle_private:
  fixes cd :: "('m, 's, 'b) configd"
  assumes k: "keyed (w_daemon w)" and j: "bm_get (dm_sessions (w_daemon w)) j = Some ss" "\<not> owned_by ss a"
    and fresh: "\<And>bytes. mo_random mo = Inr bytes \<Longrightarrow> length bytes = ENTROPY_BYTES \<and> session_id_from_bytes bytes \<noteq> j"
  shows "bm_get (dm_sessions (w_daemon (fst (handle cd mo a req w)))) j = Some ss \<and>
    spares cd j w (fst (handle cd mo a req w))"
proof (cases req)
  case (SetValue i p v)
  then show ?thesis using j(1) keep_session_private [OF k j, where cd = cd]
    by (cases "owned (w_daemon w) i a :: 's response + session") (auto simp: do_set_def spares_same split: prod.split sum.split)
next
  case (DeleteNode i p v)
  then show ?thesis using j(1) keep_session_private [OF k j, where cd = cd]
    by (cases "owned (w_daemon w) i a :: 's response + session") (auto simp: do_delete_def spares_same split: prod.split sum.split)
next
  case (Discard i)
  then show ?thesis using j(1) keep_session_private [OF k j, where cd = cd]
    by (cases "owned (w_daemon w) i a :: 's response + session") (auto simp: do_discard_def spares_same)
next
  case (Load i source)
  then show ?thesis using j(1) keep_session_private [OF k j, where cd = cd]
    by (cases "owned (w_daemon w) i a :: 's response + session") (auto simp: do_load_def Let_def spares_same split: prod.split sum.split)
next
  case Save
  have "valid_id j" using k j(1) by (simp add: keyed_def)
  then have "spares cd j w (fst (do_save cd mo w))"
    by (intro spares_leaves [OF do_save_leaves session_file_apart(3)])
  then show ?thesis using Save j(1) by (simp add: do_save_daemon)
next
  case (OpShow target)
  then show ?thesis using j(1) by (cases target) (auto simp: op_show_def Let_def spares_same)
next
  case SessionOpen
  then show ?thesis using open_private [OF k j(1) fresh] by simp
next
  case (SessionClose i)
  then show ?thesis using close_private [OF k j] by simp
next
  case (Commit i msg minutes)
  then show ?thesis using commit_other [OF j, where cd = cd] commit_spares [OF k j, where cd = cd] by simp
next
  case (Confirm i)
  have vj: "valid_id j" using k j(1) by (simp add: keyed_def)
  have "spares cd j w (fst (do_confirm cd mo i a w))"
  proof (cases "is_ok (owned (w_daemon w) i a :: 's response + session) \<and> dm_pending (w_daemon w) \<noteq> None")
    case False
    then show ?thesis by (cases "owned (w_daemon w) i a :: 's response + session") (auto simp: do_confirm_def spares_same)
  next
    case True
    then obtain t p where o: "owned (w_daemon w) i a = (Inr t :: 's response + session)" "dm_pending (w_daemon w) = Some p"
      by (cases "owned (w_daemon w) i a :: 's response + session") auto
    let ?w = "dm_upd (\<lambda>s. s\<lparr>dm_pending := None, dm_timer := None\<rparr>) w"
    have 1: "spares cd j ?w (disarm cd mo ?w)" by (rule spares_leaves [OF disarm_leaves session_file_apart(2) [OF vj]])
    have 0: "spares cd j w ?w" by (rule spares_same) simp
    have "spares cd j w (record_revision cd mo t' a msg g cs (disarm cd mo ?w))" for t' msg g cs
      by (rule spares_trans [OF spares_trans [OF 0 1] spares_leaves [OF record_revision_leaves session_file_apart(4) [OF vj]]])
    then show ?thesis using o by (simp add: do_confirm_def Let_def)
  qed
  then show ?thesis using Confirm confirm_other [where cd = cd and j = j] j(1) by simp
qed (use j(1) in \<open>simp_all add: spares_same\<close>)

lemma foreign_refused:
  fixes cd :: "('m, 's, 'b) configd"
  assumes "bm_get (dm_sessions (w_daemon w)) j = Some ss" and "\<not> owned_by ss a" and "request_session req = Some j"
  shows "handle cd mo a req w = (w, Failed KRequest (''session '' @ j @ '' belongs to '' @ ss_username ss @
    ''; open your own with `configure`''))"
proof -
  have "owned (w_daemon w) j a = (Inl (Failed KRequest (''session '' @ j @ '' belongs to '' @ ss_username ss @
      ''; open your own with `configure`'')) :: 's response + session)"
    using assms(1,2) by (simp add: owned_def)
  then show ?thesis using assms(3)
    by (cases req) (simp_all add: do_close_def do_set_def do_delete_def show_candidate_def compare_def
      do_discard_def do_commit_def do_confirm_def do_load_def)
qed

text \<open>
  C6. An operator's candidate is that operator's alone. Whatever somebody else asks, and whatever
  fails on the disk meanwhile, a session stays as it is in memory and in its file; and a request
  that names it is refused, saying whose it is, with nothing changed at all. The one assumption is
  that eight random bytes do not happen to spell the identifier of an open session.
\<close>

theorem sessions_are_private:
  fixes cd :: "('m, 's, 'b) configd"
  assumes "keyed (w_daemon w)" and "bm_get (dm_sessions (w_daemon w)) j = Some ss" and "ss_uid ss \<noteq> a_uid a"
    and "\<And>bytes. mo_random mo = Inr bytes \<Longrightarrow> length bytes = ENTROPY_BYTES \<and> session_id_from_bytes bytes \<noteq> j"
    and "handle cd mo a req w = (w', r)"
  shows "bm_get (dm_sessions (w_daemon w')) j = Some ss \<and>
    data_at (w_disk w') (session_file (cd_paths cd) j) = data_at (w_disk w) (session_file (cd_paths cd) j) \<and>
    (request_session req = Some j \<longrightarrow>
       w' = w \<and> r = Failed KRequest (''session '' @ j @ '' belongs to '' @ ss_username ss @
         ''; open your own with `configure`''))"
proof -
  have foreign: "\<not> owned_by ss a" using assms(3) by (simp add: owned_by_def)
  from handle_private [OF assms(1,2) foreign assms(4), where cd = cd and req = req and mo = mo]
  have "bm_get (dm_sessions (w_daemon w')) j = Some ss" "spares cd j w w'" using assms(5) by auto
  moreover have "request_session req = Some j \<longrightarrow>
       w' = w \<and> r = Failed KRequest (''session '' @ j @ '' belongs to '' @ ss_username ss @
         ''; open your own with `configure`'')"
    using foreign_refused [OF assms(2) foreign, of req cd mo] assms(5) by simp
  ultimately show ?thesis by (simp add: spares_def)
qed

end
