(* ===== verification/Commit_Laws.thy ===== *)
theory Commit_Laws
  imports Commit
begin

text \<open>
  What the pipeline of \<open>commit.rs\<close> promises. Nothing is touched unless every renderer has
  rendered and every check has passed; a commit that succeeds has applied and verified every
  subsystem in order before any restore point is written. A lemma adds that, for renderers that keep
  to a part of the machine of their own (which the real ones do not in every case), a commit that
  fails and reports the previous configuration restored has left every part exactly as it was.
\<close>

section \<open>Everything is decided first\<close>

definition decided_against :: "'m renderer list \<Rightarrow> config_tree \<Rightarrow> 'm \<Rightarrow> bool" where
  "decided_against rs t m \<longleftrightarrow>
     (\<exists>r \<in> set rs. \<not> is_ok (r_render r t)) \<or>
     (\<exists>r \<in> set rs. \<exists>a. r_render r t = Inr a \<and> \<not> is_ok (r_check r a m))"

lemma render_all_is_ok: "is_ok (render_all rs t) \<longleftrightarrow> (\<forall>r \<in> set rs. is_ok (r_render r t))"
proof (induction rs)
  case (Cons r rs)
  then show ?case
    by (cases "r_render r t"; cases "render_all rs t") simp_all
qed simp

lemma render_all_plan:
  "render_all rs t = Inr plan \<Longrightarrow>
   map fst plan = rs \<and> (\<forall>(r, a) \<in> set plan. r \<in> set rs \<and> r_render r t = Inr a)"
proof (induction rs arbitrary: plan)
  case (Cons r rs)
  then show ?case by (cases "r_render r t") (auto simp: bind_result_Inr)
qed simp

lemma render_check_ok:
  "(\<exists>plan. render_all rs t = Inr plan \<and> check_all plan m = Inr ()) \<longleftrightarrow> \<not> decided_against rs t m"
proof
  assume "\<exists>plan. render_all rs t = Inr plan \<and> check_all plan m = Inr ()"
  then obtain plan where p: "render_all rs t = Inr plan" "check_all plan m = Inr ()" by blast
  then have "\<forall>r \<in> set rs. is_ok (r_render r t)"
    using render_all_is_ok [of rs t] by simp
  moreover have "is_ok (r_check r a m)" if "r \<in> set rs" "r_render r t = Inr a" for r a
  proof -
    have "r \<in> set (map fst plan)" using that(1) render_all_plan [OF p(1)] by simp
    then obtain a' where "(r, a') \<in> set plan" by auto
    then show ?thesis using that(2) render_all_plan [OF p(1)] p(2) by (force simp: check_all_ok)
  qed
  ultimately show "\<not> decided_against rs t m" by (auto simp: decided_against_def)
next
  assume d: "\<not> decided_against rs t m"
  then have "is_ok (render_all rs t)" by (auto simp: render_all_is_ok decided_against_def)
  then obtain plan where p: "render_all rs t = Inr plan" by (cases "render_all rs t") auto
  moreover have "is_ok (r_check r a m)" if "(r, a) \<in> set plan" for r a
    using d that render_all_plan [OF p] unfolding decided_against_def by blast
  ultimately have "check_all plan m = Inr ()" by (auto simp: check_all_ok)
  then show "\<exists>plan. render_all rs t = Inr plan \<and> check_all plan m = Inr ()" using p by blast
qed

lemma refused_untouched:
  assumes "decided_against rs t m"
  shows "fst (commit_apply rs t m) = m" and "\<not> is_ok (snd (commit_apply rs t m))"
proof -
  obtain m' res where c: "commit_apply rs t m = (m', res)" by (cases "commit_apply rs t m")
  have none: "\<not> (\<exists>plan. render_all rs t = Inr plan \<and> check_all plan m = Inr ())"
    using assms by (simp only: render_check_ok not_not)
  have "m' = m \<and> \<not> is_ok res"
  proof (rule commit_apply_cases [OF c])
    fix e assume "m' = m" "res = Inl e"
    then show ?thesis by simp
  next
    fix plan and e :: commit_error
    assume "render_all rs t = Inr plan" "check_all plan m = Inr ()"
    with none show ?thesis by blast
  next
    fix plan assume "render_all rs t = Inr plan" "check_all plan m = Inr ()"
    with none show ?thesis by blast
  qed
  then show "fst (commit_apply rs t m) = m" "\<not> is_ok (snd (commit_apply rs t m))"
    using c by simp_all
qed

text \<open>
  C10. Everything that can be known without touching the machine is decided first: when any
  renderer cannot render the configuration, or any rendered set fails its check, the commit fails
  and the machine is exactly as it was, whichever subsystem the problem is in.
\<close>

theorem commit_decides_first:
  assumes "decided_against rs t m"
  shows "fst (commit_apply rs t m) = m \<and> \<not> is_ok (snd (commit_apply rs t m))"
  using refused_untouched [OF assms] by blast

text \<open>
  A machine with two slots, each driven by a renderer of its own; values starting with \<open>!\<close>
  cannot be applied. For the witnesses.
\<close>

definition slot_text :: "artifacts \<Rightarrow> string" where
  "slot_text a = (case ar_files a of [] \<Rightarrow> [] | (p, s) # fs \<Rightarrow> s)"

definition slot_artifacts :: "string \<Rightarrow> artifacts" where
  "slot_artifacts s = \<lparr>ar_managed = [], ar_files = [([''slot''], s)], ar_actions = []\<rparr>"

definition slot_renderer :: "string \<Rightarrow> (string \<Rightarrow> string \<times> string) renderer" where
  "slot_renderer name = \<lparr>r_name = name, r_owns = [name],
     r_render = (\<lambda>t. case values_at [name] t of
        Some [v] \<Rightarrow> Inr (slot_artifacts v) | _ \<Rightarrow> Inl (Inconsistent name ''no value'')),
     r_check = (\<lambda>a m. Inr ()),
     r_apply = (\<lambda>a m. if starts_with (slot_text a) ''!'' then (m, Inl (Unverified name ''refused''))
        else (m(name := (slot_text a, snd (m name))), Inr ())),
     r_verify = (\<lambda>a m. Inr ()),
     r_previous = (\<lambda>m. Some (slot_artifacts (snd (m name)))),
     r_remember = (\<lambda>a m. (m(name := (fst (m name), slot_text a)), Inr ()))\<rparr>"

definition slot_tree :: "string \<Rightarrow> string \<Rightarrow> config_tree" where
  "slot_tree a b = \<lparr>root = Node None (Interior
     [(''a'', Node None (Values [a])), (''b'', Node None (Values [b]))])\<rparr>"

theorem commit_decides_first_witness:
  "fst (commit_apply [slot_renderer ''a'', slot_renderer ''c''] (slot_tree ''x'' ''y'') (\<lambda>_. ([], []))) ''a'' = ([], [])"
proof -
  have "decided_against [slot_renderer ''a'', slot_renderer ''c''] (slot_tree ''x'' ''y'') (\<lambda>_. ([], []))"
    by (simp add: decided_against_def slot_renderer_def slot_tree_def values_at_def tree_get_def)
  from commit_decides_first [OF this] show ?thesis by simp
qed

section \<open>What success means\<close>

text \<open>
  A commit succeeds exactly when nothing speaks against it beforehand and every renderer in
  turn applies and verifies its artifacts; the restore points are written only after the last
  one has.
\<close>

lemma commit_succeeds_iff:
  "commit_apply rs t m = (m', Inr ()) \<longleftrightarrow>
   (\<exists>plan m1. list_all2 (\<lambda>r (r', a). r' = r \<and> r_render r t = Inr a) rs plan \<and>
      (\<forall>(r, a) \<in> set plan. is_ok (r_check r a m)) \<and> applies plan m m1 \<and> m' = remember_all plan m1)"
proof
  assume "commit_apply rs t m = (m', Inr ())"
  then obtain plan m1 where "render_all rs t = Inr plan" "check_all plan m = Inr ()" "applies plan m m1"
    "m' = remember_all plan m1"
    by (rule commit_apply_cases) auto
  then show "\<exists>plan m1. list_all2 (\<lambda>r (r', a). r' = r \<and> r_render r t = Inr a) rs plan \<and>
      (\<forall>(r, a) \<in> set plan. is_ok (r_check r a m)) \<and> applies plan m m1 \<and> m' = remember_all plan m1"
    unfolding render_all_ok check_all_ok by blast
next
  assume "\<exists>plan m1. list_all2 (\<lambda>r (r', a). r' = r \<and> r_render r t = Inr a) rs plan \<and>
      (\<forall>(r, a) \<in> set plan. is_ok (r_check r a m)) \<and> applies plan m m1 \<and> m' = remember_all plan m1"
  then obtain plan m1 where "render_all rs t = Inr plan" "check_all plan m = Inr ()"
    "apply_all [] plan m = (m1, Inr ())" "m' = remember_all plan m1"
    unfolding render_all_ok [symmetric] apply_all_ok [of "[]" _ _ _ "()", symmetric]
      check_all_ok [of _ _ "()", symmetric] by blast
  then show "commit_apply rs t m = (m', Inr ())" by (simp add: commit_apply_def)
qed

section \<open>Failing part way\<close>

text \<open>
  Renderers that keep to their own part of the machine: applying touches no other part and no
  restore point, and a successful apply puts the part where the artifacts say.
\<close>

definition isolated ::
  "(string \<Rightarrow> 'm \<Rightarrow> 'p) \<Rightarrow> ('m renderer \<Rightarrow> artifacts \<Rightarrow> 'p) \<Rightarrow> 'm renderer list \<Rightarrow> bool" where
  "isolated part goal rs \<longleftrightarrow> distinct (map r_name rs) \<and>
     (\<forall>r \<in> set rs. \<forall>a m m' res. r_apply r a m = (m', res) \<longrightarrow>
        (\<forall>n. n \<noteq> r_name r \<longrightarrow> part n m' = part n m) \<and>
        (\<forall>r' \<in> set rs. r_previous r' m' = r_previous r' m) \<and>
        (is_ok res \<longrightarrow> part (r_name r) m' = goal r a))"

lemma isolatedD:
  assumes "isolated part goal rs" and "r \<in> set rs" and "r_apply r a m = (m', res)"
  shows "n \<noteq> r_name r \<Longrightarrow> part n m' = part n m"
    and "r' \<in> set rs \<Longrightarrow> r_previous r' m' = r_previous r' m"
    and "is_ok res \<Longrightarrow> part (r_name r) m' = goal r a"
  using assms unfolding isolated_def by blast+

lemma isolated_names:
  "isolated part goal rs \<Longrightarrow> r \<in> set rs \<Longrightarrow> r' \<in> set rs \<Longrightarrow> r_name r = r_name r' \<Longrightarrow> r = r'"
  by (auto simp: isolated_def distinct_map inj_on_def)

lemma applies_isolated:
  assumes "isolated part goal rs" and "fst ` set plan \<subseteq> set rs" and "applies plan m m'"
  shows "(\<forall>n. n \<notin> r_name ` fst ` set plan \<longrightarrow> part n m' = part n m) \<and>
    (\<forall>r' \<in> set rs. r_previous r' m' = r_previous r' m)"
  using assms(2,3)
proof (induction plan arbitrary: m)
  case (Cons x plan)
  obtain r a where x: "x = (r, a)" by (cases x)
  from Cons.prems x obtain m1 where m1: "r_apply r a m = (m1, Inr ())" "applies plan m1 m'" by auto
  moreover have "r \<in> set rs" using Cons.prems x by simp
  ultimately show ?case
    using Cons.IH [of m1] Cons.prems x isolatedD(1,2) [OF assms(1), of r a m m1] by simp
qed simp

lemma restore_each_isolated:
  assumes "isolated part goal rs" and "set qs \<subseteq> set rs" and "distinct qs"
    and "restore_each qs m = (m', [])"
    and "\<And>r. r \<in> set qs \<Longrightarrow> r_previous r m = Some (old r)"
  shows "(\<forall>r \<in> set qs. part (r_name r) m' = goal r (old r)) \<and>
    (\<forall>n. n \<notin> r_name ` set qs \<longrightarrow> part n m' = part n m)"
  using assms(2-)
proof (induction qs arbitrary: m)
  case (Cons r qs)
  have mem: "r \<in> set rs" using Cons.prems by simp
  obtain m1 res where one: "r_apply r (old r) m = (m1, res)" by (cases "r_apply r (old r) m")
  have "is_ok res \<and> restore_each qs m1 = (m', [])"
    using Cons.prems(3) Cons.prems(4) [of r] one by (cases res) (auto split: prod.splits)
  moreover note one' = isolatedD [OF assms(1) mem one]
  moreover have "r_name r \<notin> r_name ` set qs"
    using Cons.prems(1,2) isolated_names [OF assms(1) mem] by auto
  moreover have "r_previous q m1 = Some (old q)" if "q \<in> set qs" for q
    using Cons.prems(1,4) that one'(2) by auto
  ultimately show ?case using Cons.IH [of m1] Cons.prems(1,2) by auto
qed simp

lemma restore_ok: "restore applied m = (m', Inr u) \<longleftrightarrow> restore_each (rev applied) m = (m', [])"
  by (auto simp: restore_def split: prod.splits if_splits)

text \<open>
  A failed commit puts the previous configuration back. When the renderers keep to their
  parts and the machine was in the state of the restore points, a commit that fails part way and
  reports the previous configuration restored leaves every part of the machine as it was before
  the commit: the subsystem that failed, the ones applied before it and the ones never reached.
  This is what the pipeline adds of its own; the real renderers do not keep to their parts in every
  case (a link that was recreated is not recreated back), so nothing is claimed of them here.
\<close>

lemma failed_commit_restores:
  assumes iso: "isolated part goal rs"
    and at_rest: "\<And>r. r \<in> set rs \<Longrightarrow> \<exists>old. r_previous r m = Some old \<and> part (r_name r) m = goal r old"
    and failed: "commit_apply rs t m = (m', Inl (Applied n e))"
  shows "part k m' = part k m"
proof -
  consider (same) "m' = m"
    | (part_way) plan where "render_all rs t = Inr plan" "failed_at [] plan m m' (Applied n e)"
    by (rule commit_apply_cases [OF failed]) auto
  then show ?thesis
  proof cases
    case part_way
    note plan = part_way
    obtain before r a after m1 m2 source where f: "plan = before @ (r, a) # after" "applies before m m1"
      "apply_one r a m1 = (m2, Inl source)" "reports (map fst before @ [r]) r source m2 m' (Applied n e)"
      using plan(2) by (auto elim: failed_atE)
    let ?qs = "map fst before @ [r]"
    have names: "map fst plan = rs" using render_all_plan [OF plan(1)] by simp
    then have rs: "rs = ?qs @ map fst after" using f(1) by simp
    have "distinct rs" using iso by (simp add: isolated_def distinct_map)
    then have sub: "set ?qs \<subseteq> set rs" "distinct ?qs"
      unfolding rs by (simp_all only: distinct_append set_append Un_upper1)
    then have below: "fst ` set before \<subseteq> set rs" "r \<in> set rs" by auto
    have one: "\<exists>res. r_apply r a m1 = (m2, res)"
      using f(3) by (auto simp: apply_one_def split: prod.splits)
    have m2: "part j m2 = part j m" if "j \<notin> r_name ` set ?qs" for j
      using that one applies_isolated [OF iso below(1) f(2)] isolatedD(1) [OF iso below(2), of a m1 m2]
      by auto
    have kept: "r_previous q m2 = r_previous q m" if "q \<in> set rs" for q
      using that one applies_isolated [OF iso below(1) f(2)] isolatedD(2) [OF iso below(2), of a m1 m2]
      by auto
    define old where "old = (\<lambda>q. the (r_previous (q :: 'a renderer) m))"
    have old: "r_previous q m = Some (old q)" "part (r_name q) m = goal q (old q)" if "q \<in> set rs" for q
      using at_rest [OF that] by (auto simp: old_def)
    have "restore ?qs m2 = (m', Inr ())"
      using f(4) by (auto simp: reports_def split: prod.splits sum.splits)
    then have "restore_each (rev ?qs) m2 = (m', [])" by (simp only: restore_ok)
    moreover have "r_previous q m2 = Some (old q)" if "q \<in> set (rev ?qs)" for q
    proof -
      have "q \<in> set rs" using that sub(1) by (simp only: set_rev) blast
      then show ?thesis using kept old(1) by simp
    qed
    moreover have "set (rev ?qs) \<subseteq> set rs" "distinct (rev ?qs)"
      using sub by (simp_all only: set_rev distinct_rev)
    ultimately have "(\<forall>q \<in> set (rev ?qs). part (r_name q) m' = goal q (old q)) \<and>
        (\<forall>j. j \<notin> r_name ` set (rev ?qs) \<longrightarrow> part j m' = part j m2)"
      by (intro restore_each_isolated [OF iso])
    then have "(\<forall>q \<in> set ?qs. part (r_name q) m' = goal q (old q)) \<and>
        (\<forall>j. j \<notin> r_name ` set ?qs \<longrightarrow> part j m' = part j m2)"
      by (simp only: set_rev)
    then have there: "\<And>q. q \<in> set ?qs \<Longrightarrow> part (r_name q) m' = goal q (old q)"
      and other: "\<And>j. j \<notin> r_name ` set ?qs \<Longrightarrow> part j m' = part j m2" by blast+
    show ?thesis
    proof (cases "k \<in> r_name ` set ?qs")
      case True
      then obtain q where q: "q \<in> set ?qs" "k = r_name q" by blast
      then have "q \<in> set rs" using sub(1) by blast
      then show ?thesis using there [OF q(1)] old(2) q(2) by simp
    next
      case False
      then show ?thesis using other [OF False] m2 by simp
    qed
  qed simp
qed

lemma slots_isolated:
  "isolated (\<lambda>n m. fst (m n)) (\<lambda>r a. slot_text a) [slot_renderer ''a'', slot_renderer ''b'']"
  by (auto simp: isolated_def slot_renderer_def split: if_splits)

section \<open>The order changes are reported in\<close>

text \<open>
  The changes a commit reports are those of the diff, in the order of the priority the schema
  gives the subtree each one is in; changes of equal priority keep path order, and for one path
  removals come before additions.
\<close>

lemma order_exact:
  "mset (order sc changes) = mset changes \<and>
   sorted (map (\<lambda>c. (change_priority sc (ch_path c), ch_path c, ch_op c)) (order sc changes)) \<and>
   (node_at sc p = Some n \<longrightarrow> change_priority sc p = sn_priority n) \<and>
   (node_at sc (p @ [s]) = None \<longrightarrow> change_priority sc (p @ [s]) = change_priority sc p)"
  by (simp add: order_def path_parent_def change_priority.simps [of sc p]
      change_priority.simps [of sc "p @ [s]"] del: change_priority.simps)

end
