(* ===== verification/Daemon_Witnesses.thy ===== *)
theory Daemon_Witnesses
  imports Request_Laws Commit_Laws
begin

text \<open>
  A small daemon, run on concrete requests: one leaf, one renderer, one operator with a candidate.
  Each property of the daemon is applied to it here, with its hypotheses computed.
\<close>

datatype stored_file =
    RunFile "nat \<times> config_tree"
  | SessFile session
  | PendFile pending
  | MetaFile revision_info
  | GzFile string

definition one_schema :: schema where
  "one_schema = \<lparr>sc_root = SchemaNode SContainer [] None False False 0
     [(''a'', SchemaNode (SLeaf (spec_new VText)) [] None False False 0 [] [] [] [])] [] [] [], sc_globals = []\<rparr>"

definition one_tree :: "string \<Rightarrow> config_tree" where
  "one_tree v = \<lparr>root = Node None (Interior [(''a'', Node None (Values [v]))])\<rparr>"

definition one_env :: value_env where
  "one_env = \<lparr>is_match = (\<lambda>p s. False), tzdb_available = False, tz_known = (\<lambda>z. False)\<rparr>"

definition one_cd :: "(string \<Rightarrow> string \<times> string, unit, stored_file) configd" where
  "one_cd = \<lparr>cd_schema = one_schema, cd_values = one_env, cd_paths = paths_system,
     cd_renderers = [slot_renderer ''a''],
     cd_running_codec = \<lparr>enc = RunFile, dec = (\<lambda>b. case b of RunFile x \<Rightarrow> Inr x | _ \<Rightarrow> Inl ''not a running configuration'')\<rparr>,
     cd_session_codec = \<lparr>enc = SessFile, dec = (\<lambda>b. case b of SessFile x \<Rightarrow> Inr x | _ \<Rightarrow> Inl ''not a session'')\<rparr>,
     cd_pending_codec = \<lparr>enc = PendFile, dec = (\<lambda>b. case b of PendFile x \<Rightarrow> Inr x | _ \<Rightarrow> Inl ''not a marker'')\<rparr>,
     cd_meta_codec = \<lparr>enc = MetaFile, dec = (\<lambda>b. case b of MetaFile x \<Rightarrow> Inr x | _ \<Rightarrow> Inl ''not metadata'')\<rparr>,
     cd_gzip_codec = \<lparr>enc = GzFile, dec = (\<lambda>b. case b of GzFile x \<Rightarrow> Inr x | _ \<Rightarrow> Inl ''invalid gzip header'')\<rparr>,
     cd_snapshot = (\<lambda>q t m. ()), cd_snapshot_empty = (\<lambda>u. True), cd_clear = (\<lambda>names m. m)\<rparr>"

definition at_time :: "int \<Rightarrow> stored_file moment" where
  "at_time now = \<lparr>mo_io = fine_io, mo_now = now,
     mo_civil = \<lparr>cv_year = 2026, cv_month = 8, cv_day = 20, cv_hour = 14, cv_minute = 2, cv_second = 11\<rparr>,
     mo_random = Inr [1, 2, 3, 4, 5, 6, 7, 8]\<rparr>"

definition ana :: actor where
  "ana = \<lparr>a_uid = 1000, a_gid = 1000, a_pid = Some 7, a_username = ''ana''\<rparr>"

definition ana_session :: session where
  "ana_session = \<lparr>ss_id = sample_id, ss_uid = 1000, ss_username = ''ana'', ss_candidate = one_tree ''new'', ss_base = 1\<rparr>"

definition one_daemon :: daemon where
  "one_daemon = \<lparr>dm_running = one_tree ''old'', dm_generation = 1, dm_history = [],
     dm_sessions = [(sample_id, ana_session)], dm_pending = None, dm_timer = None\<rparr>"

definition one_disk :: "stored_file disk" where
  "one_disk = [(running_path paths_system, \<lparr>f_data = Data (RunFile (1, one_tree ''old'')), f_mode = 0\<rparr>),
     (session_file paths_system sample_id, \<lparr>f_data = Data (SessFile ana_session), f_mode = 0\<rparr>)]"

definition one_world :: "(string \<Rightarrow> string \<times> string, stored_file) world" where
  "one_world = \<lparr>w_daemon = one_daemon, w_machine = (\<lambda>_. (''old'', ''old'')), w_disk = one_disk\<rparr>"

definition keep_five :: request where
  "keep_five = Commit sample_id (Some ''for now'') (Some 1)"

lemma one_timer: "timer_ok (w_daemon one_world)"
  by (simp add: timer_ok_def one_world_def one_daemon_def)

section \<open>What the requests answer\<close>

lemma commit_answers:
  "snd (handle one_cd (at_time 100) ana (Commit sample_id None None) one_world) =
     Committed 2 [Change [''a''] Remove (Some ''old''), Change [''a''] Add (Some ''new'')] None"
  by code_simp

lemma keep_five_answers:
  "snd (handle one_cd (at_time 100) ana keep_five one_world) =
     Committed 2 [Change [''a''] Remove (Some ''old''), Change [''a''] Add (Some ''new'')] (Some 60)"
  by code_simp

lemma save_answers: "snd (handle one_cd (at_time 100) ana Save one_world) = RespOk"
  by code_simp

definition fresh_daemon :: daemon where
  "fresh_daemon = \<lparr>dm_running = tree_new, dm_generation = 0, dm_history = [], dm_sessions = [],
     dm_pending = None, dm_timer = None\<rparr>"

definition fresh_world :: "(string \<Rightarrow> string \<times> string, stored_file) world" where
  "fresh_world = \<lparr>w_daemon = fresh_daemon, w_machine = (\<lambda>_. ([], [])),
     w_disk = [(config_boot paths_system,
       \<lparr>f_data = Text (render (is_tag_node one_schema) (one_tree ''old'')), f_mode = 384\<rparr>)]\<rparr>"

lemma boot_answers: "snd (boot one_cd (at_time 10) fresh_world) = AppliedSaved 1"
  by code_simp

lemma fresh_start: "start one_cd (mo_io (at_time 10)) (w_disk fresh_world) = Inr (w_daemon fresh_world)"
  by code_simp

section \<open>The properties applied\<close>

theorem daemon_refines_store_witness:
  "\<exists>l \<in> {Stays, Changes}. store_step (sound one_cd) l (store_of one_world)
     (store_of (fst (handle one_cd (at_time 100) ana keep_five one_world)))"
proof -
  have "same_life (Asked (at_time 100) ana keep_five)" by simp
  from daemon_refines_store [OF asked this one_timer] show ?thesis by (auto simp: keep_five_def)
qed

theorem no_lost_update_witness:
  "dm_running (w_daemon (fst (handle one_cd (at_time 100) ana (Commit sample_id None None) one_world))) = one_tree ''new''"
proof -
  let ?ev = "Asked (at_time 90) ana (ShowRunning [])"
  have r: "runs one_cd ([] @ [?ev]) one_world one_world"
    by (rule runs_snoc [OF runs_Nil]) (simp add: step_simps)
  have l: "list_all same_life ([] @ [?ev])" by simp
  have s: "bm_get (dm_sessions (w_daemon one_world)) sample_id = Some ana_session"
    "ss_base ana_session = dm_generation (w_daemon one_world)"
    by (simp_all add: one_world_def one_daemon_def ana_session_def)
  have c: "handle one_cd (at_time 100) ana (Commit sample_id None None) one_world =
      (fst (handle one_cd (at_time 100) ana (Commit sample_id None None) one_world),
       Committed 2 [Change [''a''] Remove (Some ''old''), Change [''a''] Add (Some ''new'')] None)"
    using commit_answers prod.collapse by metis
  from no_lost_update [OF r l one_timer s c] show ?thesis by (simp add: ana_session_def)
qed

theorem running_always_valid_witness:
  "validate_tree one_env one_schema (dm_running (w_daemon (fst (boot one_cd (at_time 10) fresh_world)))) = []"
proof -
  have b: "boot one_cd (at_time 10) fresh_world = (fst (boot one_cd (at_time 10) fresh_world), AppliedSaved 1)"
    using boot_answers prod.collapse by metis
  have n: "dm_pending (w_daemon fresh_world) = None" "dm_timer (w_daemon fresh_world) = None" "list_all same_life []"
    by (simp_all add: fresh_world_def fresh_daemon_def)
  from running_always_valid [OF b n(1,2) runs_Nil n(3)] show ?thesis by (simp add: one_cd_def)
qed

lemma slot_takes: "\<exists>m'. commit_apply (cd_renderers one_cd) (one_tree ''old'') m = (m', Inr ())"
  by (simp add: one_cd_def commit_apply_def slot_renderer_def one_tree_def values_at_def tree_get_def
      apply_one_def slot_text_def slot_artifacts_def starts_with_iff)

theorem unconfirmed_is_undone_witness:
  "\<exists>w2 w3. step one_cd (Fired (at_time 160)) w2 w3 \<and> dm_running (w_daemon w3) = one_tree ''old'' \<and>
     dm_pending (w_daemon w3) = None"
proof -
  let ?w1 = "fst (handle one_cd (at_time 100) ana keep_five one_world)"
  let ?ev = "Asked (at_time 110) ana (Commit sample_id None None)"
  define w2 where "w2 = fst (handle one_cd (at_time 110) ana (Commit sample_id None None) ?w1)"
  have c: "handle one_cd (at_time 100) ana (Commit sample_id (Some ''for now'') (Some 1)) one_world =
      (?w1, Committed 2 [Change [''a''] Remove (Some ''old''), Change [''a''] Add (Some ''new'')] (Some 60))"
    using keep_five_answers prod.collapse unfolding keep_five_def by metis
  have r: "runs one_cd ([] @ [?ev]) ?w1 w2" unfolding w2_def by (rule runs_snoc [OF runs_Nil asked])
  have u: "list_all (undecided (mo_now (at_time 100) + int 60)) ([] @ [?ev])" by simp
  have t: "mo_now (at_time 100) + int 60 \<le> mo_now (at_time 160)" by (simp add: at_time_def)
  have old: "dm_running (w_daemon one_world) = one_tree ''old''" by (simp add: one_world_def one_daemon_def)
  obtain m' where m': "commit_apply (cd_renderers one_cd) (one_tree ''old'') (w_machine w2) = (m', Inr ())"
    using slot_takes by blast
  from unconfirmed_is_undone [OF c r u t] obtain w3 where
    "step one_cd (Fired (at_time 160)) w2 w3" "dm_pending (w_daemon w3) = None"
    "dm_running (w_daemon w3) = one_tree ''old''"
    unfolding old m' by auto
  then show ?thesis by blast
qed

theorem save_all_or_nothing_witness:
  "bm_get (w_disk (fst (handle one_cd (at_time 100) ana Save one_world))) (config_boot paths_system) =
     Some \<lparr>f_data = Text (render (is_tag_node one_schema) (one_tree ''old'')), f_mode = 384\<rparr>"
proof -
  have h: "handle one_cd (at_time 100) ana Save one_world = (fst (handle one_cd (at_time 100) ana Save one_world), RespOk)"
    using save_answers prod.collapse by metis
  from save_all_or_nothing [OF h] show ?thesis
    by (simp add: one_cd_def) (simp add: one_world_def one_daemon_def)
qed

lemma one_codecs: "codecs_ok one_cd"
  by (simp add: codecs_ok_def codec_ok_def one_cd_def)

lemma at_time_faultless: "faultless (at_time t)"
  by (simp add: faultless_def at_time_def no_faults_def lists_all_def fine_io_def ENTROPY_BYTES_def SESSION_ID_LEN_def)

lemma one_paths: "session_file paths_system sample_id = sessions_dir paths_system @ [sample_id @ ''.json'']"
  by (rule session_path(1)) simp

lemma one_in_sync: "in_sync one_cd one_world"
proof -
  let ?d = "one_disk"
  have at: "data_at ?d q = (if q = running_path paths_system then Some (Data (RunFile (1, one_tree ''old'')))
      else if q = sessions_dir paths_system @ [sample_id @ ''.json''] then Some (Data (SessFile ana_session)) else None)" for q
    by (simp add: one_disk_def data_at_def one_paths)
  have ps: "cd_paths one_cd = paths_system" by (simp add: one_cd_def)
  have run: "sessions_dir paths_system @ [n] \<noteq> running_path paths_system" for n by (simp add: fixed_paths)
  have dec: "decode_session (cd_session_codec one_cd) (Data (SessFile ana_session)) = Inr ana_session"
    by (simp add: decode_session_def one_cd_def ana_session_def session_id_parse_iff split: option.splits)
  have "running_sync one_cd one_daemon ?d"
    by (simp add: running_sync_def recorded_def at ps decode_content_def one_daemon_def) (simp add: one_cd_def)
  moreover have "pending_sync one_cd one_daemon ?d"
    by (simp add: pending_sync_def stored_pending_def at ps one_daemon_def) (simp add: fixed_paths)
  moreover have "session_sync one_cd one_daemon ?d"
    unfolding session_sync_def
  proof (intro conjI allI impI)
    show "bm_ok ?d" by code_simp
    show "keyed one_daemon" by (simp add: keyed_def one_daemon_def ana_session_def)
    fix i :: session_id
    assume "valid_id i"
    then show "stored_session (cd_session_codec one_cd) (cd_paths one_cd) i ?d = bm_get (dm_sessions one_daemon) i"
      by (simp add: stored_session_def at ps session_path run dec) (simp add: one_daemon_def)
  next
    fix n x ss
    assume "file_extension n = Some ''json'' \<and> data_at ?d (sessions_dir (cd_paths one_cd) @ [n]) = Some x \<and>
      decode_session (cd_session_codec one_cd) x = Inr ss"
    then show "n = ss_id ss @ ''.json''"
      using dec by (auto simp: at ps run ana_session_def split: if_splits)
  qed
  ultimately show ?thesis by (simp add: in_sync_def one_world_def)
qed

theorem restart_lossless_witness:
  "\<exists>w2. step one_cd (Restarted (at_time 200)) one_world w2 \<and> dm_running (w_daemon w2) = one_tree ''old'' \<and>
     bm_get (dm_sessions (w_daemon w2)) sample_id = Some ana_session"
proof -
  let ?ev = "Asked (at_time 90) ana (ShowRunning [])"
  have r: "runs one_cd ([] @ [?ev]) one_world one_world"
    by (rule runs_snoc [OF runs_Nil]) (simp add: step_simps)
  have f: "list_all faultless_event ([] @ [?ev])" by (simp add: at_time_faultless)
  have g: "recovered_generation (w_daemon one_world) \<noteq> None"
    by (simp add: one_world_def one_daemon_def recovered_generation_def)
  have d: "dm_pending (w_daemon one_world) = None" "dm_running (w_daemon one_world) = one_tree ''old''"
    "bm_get (dm_sessions (w_daemon one_world)) sample_id = Some ana_session"
    by (simp_all add: one_world_def one_daemon_def)
  from restart_lossless [OF one_codecs one_in_sync r f at_time_faultless, of 200] obtain w2 where
    "step one_cd (Restarted (at_time 200)) one_world w2" "store_of w2 = store_of one_world"
    "\<forall>i. bm_get (dm_sessions (w_daemon w2)) i = bm_get (dm_sessions (w_daemon one_world)) i"
    unfolding comes_back_def d(1) using g by auto
  moreover from this(2) have "dm_running (w_daemon w2) = one_tree ''old''" using d(2) by (simp add: store_of_def)
  ultimately show ?thesis using d(3) by auto
qed

theorem saved_is_booted_witness:
  "\<exists>w1. boot one_cd (at_time 10) fresh_world = (w1, AppliedSaved 1) \<and> dm_running (w_daemon w1) = one_tree ''old''"
proof -
  have h: "handle one_cd (at_time 100) ana Save one_world = (fst (handle one_cd (at_time 100) ana Save one_world), RespOk)"
    using save_answers prod.collapse by metis
  have old: "dm_running (w_daemon one_world) = one_tree ''old''" by (simp add: one_world_def one_daemon_def)
  have s: "sound one_cd (one_tree ''old'')" unfolding sound_def by code_simp
  have t: "renderable (one_tree ''old'')" unfolding renderable_def by code_simp
  have d: "data_at (w_disk fresh_world) (config_boot (cd_paths one_cd)) =
      data_at (w_disk (fst (handle one_cd (at_time 100) ana Save one_world))) (config_boot (cd_paths one_cd))"
    by code_simp
  have io: "no_faults (mo_io (at_time 10))" by (simp add: at_time_def no_faults_def fine_io_def)
  have none: "data_at (w_disk fresh_world) (running_path (cd_paths one_cd)) = None" by code_simp
  obtain m' where m': "commit_apply (cd_renderers one_cd) (one_tree ''old'') (w_machine fresh_world) = (m', Inr ())"
    using slot_takes by blast
  have n: "length (diff tree_new (one_tree ''old'')) = 1" by code_simp
  from saved_is_booted [OF h, unfolded old, OF s t d io fresh_start none m'] show ?thesis unfolding n by blast
qed

lemma fresh_saved:
  "\<exists>src. data_at (w_disk fresh_world) (config_boot (cd_paths one_cd)) = Some (Text src) \<and>
     parse src = Inr (one_tree ''old'')"
proof -
  have "case data_at (w_disk fresh_world) (config_boot (cd_paths one_cd)) of
      Some (Text src) \<Rightarrow> parse src = Inr (one_tree ''old'') | _ \<Rightarrow> False"
    by code_simp
  then show ?thesis by (auto split: option.splits content.splits)
qed

theorem boot_always_decides_witness:
  "data_at (w_disk (fst (boot one_cd (at_time 10) fresh_world))) (boot_failure (cd_paths one_cd)) = None \<and>
   dm_running (w_daemon (fst (boot one_cd (at_time 10) fresh_world))) = one_tree ''old''"
proof -
  have b: "boot one_cd (at_time 10) fresh_world = (fst (boot one_cd (at_time 10) fresh_world), AppliedSaved 1)"
    using boot_answers prod.collapse by metis
  have n: "recovered_generation (w_daemon fresh_world) = None" by code_simp
  have io: "no_faults (mo_io (at_time 10))" by (simp add: at_time_def no_faults_def fine_io_def)
  obtain src where src: "data_at (w_disk fresh_world) (config_boot (cd_paths one_cd)) = Some (Text src)"
      "parse src = Inr (one_tree ''old'')"
    using fresh_saved by blast
  have s: "validate_tree (cd_values one_cd) (cd_schema one_cd) (one_tree ''old'') = []"
      "check_constraints (cd_schema one_cd) (one_tree ''old'') = []"
    by code_simp+
  have t: "bootable one_cd (w_disk fresh_world) t \<longleftrightarrow> t = one_tree ''old''" for t
    using src s by (auto simp: bootable_def)
  obtain m' where m': "commit_apply (cd_renderers one_cd) (one_tree ''old'') (w_machine fresh_world) = (m', Inr ())"
    using slot_takes by blast
  have some: "data_at (w_disk fresh_world) (config_boot (cd_paths one_cd)) \<noteq> None" by (simp add: src(1))
  have e: "\<exists>t. bootable one_cd (w_disk fresh_world) t" using t by blast
  from boot_always_decides [OF b n io, unfolded Let_def if_not_P [OF some] if_P [OF e]]
  show ?thesis unfolding t by (auto simp: m')
qed

definition bob :: actor where
  "bob = \<lparr>a_uid = 1001, a_gid = 1001, a_pid = Some 8, a_username = ''bob''\<rparr>"

theorem sessions_are_private_witness:
  "handle one_cd (at_time 100) bob (SessionClose sample_id) one_world = (one_world,
     Failed KRequest (''session '' @ sample_id @ '' belongs to ana; open your own with `configure`''))"
proof -
  have k: "keyed (w_daemon one_world)" using one_in_sync by (simp add: in_sync_def session_sync_def)
  have s: "bm_get (dm_sessions (w_daemon one_world)) sample_id = Some ana_session" "ss_uid ana_session \<noteq> a_uid bob"
    by (simp_all add: one_world_def one_daemon_def ana_session_def bob_def)
  have "session_id_from_bytes [1, 2, 3, 4, 5, 6, 7, 8] \<noteq> sample_id" by code_simp
  then have f: "length bytes = ENTROPY_BYTES \<and> session_id_from_bytes bytes \<noteq> sample_id"
    if "mo_random (at_time 100) = Inr bytes" for bytes
    using that by (auto simp: at_time_def ENTROPY_BYTES_def SESSION_ID_LEN_def)
  from sessions_are_private [OF k s f prod.collapse [symmetric], where cd = one_cd and req = "SessionClose sample_id"]
  have "fst (handle one_cd (at_time 100) bob (SessionClose sample_id) one_world) = one_world \<and>
    snd (handle one_cd (at_time 100) bob (SessionClose sample_id) one_world) =
      Failed KRequest (''session '' @ sample_id @ '' belongs to '' @ ss_username ana_session @
        ''; open your own with `configure`'')" by simp
  then show ?thesis by (simp add: prod_eq_iff ana_session_def)
qed

end
