(* ===== verification/Text_Lines.thy ===== *)
theory Text_Lines
  imports Prelude
begin

text \<open>
  What the renderers and reports use of \<open>str\<close> beyond \<open>Prelude\<close>: lines, substrings and trimming.
\<close>

section \<open>Lines\<close>

text \<open>\<open>str::lines\<close>: a line ends with a line feed, and loses a carriage return just before it.\<close>

definition strip_cr :: "string \<Rightarrow> string" where
  "strip_cr l = (if l \<noteq> [] \<and> last l = CHR 0x0D then butlast l else l)"

definition text_lines :: "string \<Rightarrow> string list" where
  "text_lines s =
     (let pieces = split_on newline s
      in map strip_cr (butlast pieces) @ (if last pieces = [] then [] else [last pieces]))"

definition whole_lines :: "string \<Rightarrow> bool" where
  "whole_lines s \<longleftrightarrow> s = [] \<or> last s = newline"

lemma text_lines_Nil [simp]: "text_lines [] = []"
  by (simp add: text_lines_def)

lemma text_lines_line:
  "newline \<notin> set l \<Longrightarrow> text_lines (l @ newline # s) = strip_cr l # text_lines s"
  by (simp add: text_lines_def split_on_append Let_def)

lemma whole_lines_cases:
  assumes "whole_lines s" and "s \<noteq> []"
  obtains l s' where "s = l @ newline # s'" and "newline \<notin> set l" and "whole_lines s'"
proof -
  have "newline \<in> set s" using assms by (metis last_in_set whole_lines_def)
  then obtain l s' where "s = l @ newline # s'" "newline \<notin> set l" by (metis split_list_first)
  moreover from this assms(1) have "whole_lines s'" by (auto simp: whole_lines_def split: if_splits)
  ultimately show ?thesis using that by blast
qed

lemma text_lines_append:
  assumes "whole_lines s"
  shows "text_lines (s @ t) = text_lines s @ text_lines t"
  using assms
proof (induction s rule: length_induct)
  case (1 s)
  show ?case
  proof (cases "s = []")
    case False
    obtain l s' where s: "s = l @ newline # s'" "newline \<notin> set l" "whole_lines s'"
      using whole_lines_cases [OF 1(2) False] by blast
    then show ?thesis using 1(1) by (simp add: text_lines_line)
  qed simp
qed

lemma text_lines_snoc:
  "whole_lines s \<Longrightarrow> newline \<notin> set l \<Longrightarrow> text_lines (s @ l @ [newline]) = text_lines s @ [strip_cr l]"
  by (simp add: text_lines_append text_lines_line)

lemma text_lines_last:
  "whole_lines s \<Longrightarrow> newline \<notin> set l \<Longrightarrow> l \<noteq> [] \<Longrightarrow> text_lines (s @ l) = text_lines s @ [l]"
  by (simp add: text_lines_append) (simp add: text_lines_def split_on_no_sep)

lemma text_lines_no_newline: "l \<in> set (text_lines s) \<Longrightarrow> newline \<notin> set l"
proof -
  assume "l \<in> set (text_lines s)"
  then have "l \<in> strip_cr ` set (butlast (split_on newline s)) \<or> l = last (split_on newline s)"
    by (auto simp: text_lines_def Let_def split: if_splits)
  then obtain w where w: "w \<in> set (split_on newline s)" "l = w \<or> l = strip_cr w"
    using in_set_butlastD last_in_set [of "split_on newline s"] by fastforce
  moreover have "set (strip_cr w) \<subseteq> set w" by (auto simp: strip_cr_def dest: in_set_butlastD)
  ultimately show ?thesis using split_on_mem_no_sep by (metis subsetD)
qed

lemma whole_lines_Nil [simp]: "whole_lines []"
  by (simp add: whole_lines_def)

lemma whole_lines_snoc [simp]: "whole_lines (s @ [newline])"
  by (simp add: whole_lines_def)

lemma whole_lines_append: "whole_lines s \<Longrightarrow> whole_lines t \<Longrightarrow> whole_lines (s @ t)"
  by (cases t) (auto simp: whole_lines_def last_append)

section \<open>Substrings\<close>

text \<open>\<open>str::split_once\<close> and \<open>str::contains\<close> for a string.\<close>

fun split_once_str :: "string \<Rightarrow> string \<Rightarrow> (string \<times> string) option" where
  "split_once_str p [] = (if p = [] then Some ([], []) else None)"
| "split_once_str p (c # cs) =
     (if starts_with (c # cs) p then Some ([], drop (length p) (c # cs))
      else map_option (\<lambda>(a, b). (c # a, b)) (split_once_str p cs))"

definition contains :: "string \<Rightarrow> string \<Rightarrow> bool" where
  "contains s p \<longleftrightarrow> split_once_str p s \<noteq> None"

text \<open>\<open>str::strip_prefix\<close> and \<open>str::strip_suffix\<close>.\<close>

definition strip_prefix :: "string \<Rightarrow> string \<Rightarrow> string option" where
  "strip_prefix p s = (if starts_with s p then Some (drop (length p) s) else None)"

definition strip_suffix :: "string \<Rightarrow> string \<Rightarrow> string option" where
  "strip_suffix p s = (if ends_with s p then Some (take (length s - length p) s) else None)"

lemma ends_with_iff: "ends_with s p \<longleftrightarrow> (\<exists>t. s = t @ p)"
  by (simp add: ends_with_def starts_with_iff) (metis rev_append rev_rev_ident)

lemma strip_suffix_Some: "strip_suffix p s = Some t \<longleftrightarrow> s = t @ p"
  by (auto simp: strip_suffix_def ends_with_iff)

lemma strip_prefix_Some: "strip_prefix p s = Some t \<longleftrightarrow> s = p @ t"
  by (auto simp: strip_prefix_def starts_with_iff)

lemma split_once_str_Some: "split_once_str p s = Some (a, b) \<Longrightarrow> s = a @ p @ b"
  by (induction p s arbitrary: a rule: split_once_str.induct)
    (auto simp: starts_with_iff split: if_splits)

lemma contains_iff: "contains s p \<longleftrightarrow> (\<exists>a b. s = a @ p @ b)"
proof
  assume "contains s p"
  then show "\<exists>a b. s = a @ p @ b" by (auto simp: contains_def dest!: split_once_str_Some)
next
  have "split_once_str p (a @ p @ b) \<noteq> None" for a b
  proof (induction a)
    case Nil
    then show ?case by (cases p; cases b) (auto simp: starts_with_iff)
  qed (auto simp: starts_with_iff)
  moreover assume "\<exists>a b. s = a @ p @ b"
  ultimately show "contains s p" by (auto simp: contains_def)
qed

lemma mem_map_filter: "x \<in> set (List.map_filter f xs) \<longleftrightarrow> (\<exists>y \<in> set xs. f y = Some x)"
  by (force simp: map_filter_def)

section \<open>Trimming\<close>

definition trim :: "string \<Rightarrow> string" where
  "trim s = trim_by is_whitespace s"

definition trim_end :: "string \<Rightarrow> string" where
  "trim_end s = trim_end_by is_whitespace s"

lemma trim_plain:
  assumes "s = [] \<or> \<not> is_whitespace (hd s) \<and> \<not> is_whitespace (last s)"
  shows "trim s = s"
proof (cases s rule: rev_cases)
  case (snoc t c)
  then show ?thesis
    using assms by (cases t) (auto simp: trim_def trim_by_def trim_start_by_def trim_end_by_def)
qed (simp add: trim_def trim_by_def trim_start_by_def trim_end_by_def)

end
