(* ===== verification/Host.thy ===== *)
theory Host
  imports Artifacts Text_Lines
begin

text \<open>
  \<open>src/nightshade-render/src/host.rs\<close>: the two machines a renderer can be run against.
  \<open>real_host\<close> works on the disk of \<open>Files\<close> and runs programs; what a program does is a parameter.
  \<open>mock_host\<close> keeps its files in memory and records what it was asked to do.
\<close>

section \<open>The real one\<close>

record ('b, 'w) machine =
  mc_disk :: "'b disk"
  mc_world :: 'w

text \<open>
  What becomes of a program: it cannot be started, its input pipe breaks, waiting for it fails, or
  it ends, with a code unless a signal killed it.
\<close>

datatype trouble = Starting io_error | Feeding io_error | Waiting io_error

record ended =
  en_code :: "int option"
  en_stderr :: string

text \<open>A program gets its arguments and, through a pipe, perhaps some input.\<close>

type_synonym ('b, 'w) programs =
  "string \<Rightarrow> string list \<Rightarrow> string option \<Rightarrow> ('b, 'w) machine \<Rightarrow> ('b, 'w) machine \<times> (trouble + ended)"

definition write_atomically ::
  "'b io \<Rightarrow> file_path \<Rightarrow> string \<Rightarrow> 'b disk \<Rightarrow> 'b disk \<times> (host_error + unit)" where
  "write_atomically io p contents d =
     (let temporary = with_extension p ''ns-new''
      in case fs_write io temporary (Text contents) d of
           (d1, Inl e) \<Rightarrow> (d1, Inl (HostIo (''writing '' @ show_file_path temporary) e))
         | (d1, Inr u) \<Rightarrow>
             (case fs_rename io temporary p d1 of
                (d2, r) \<Rightarrow> (d2, map_err (HostIo (''renaming to '' @ show_file_path p)) r)))"

fun write_each ::
  "'b io \<Rightarrow> file_path \<Rightarrow> (string \<times> string) list \<Rightarrow> 'b disk \<Rightarrow> 'b disk \<times> (host_error + unit)" where
  "write_each io dir [] d = (d, Inr ())"
| "write_each io dir ((name, contents) # files) d =
     (case write_atomically io (path_join dir name) contents d of
        (d', Inl e) \<Rightarrow> (d', Inl e)
      | (d', Inr u) \<Rightarrow> write_each io dir files d')"

definition stale :: "string \<Rightarrow> (string \<times> string) list \<Rightarrow> string \<Rightarrow> bool" where
  "stale marker files name \<longleftrightarrow> contains name marker \<and> bm_get files name = None"

fun remove_stale ::
  "'b io \<Rightarrow> file_path \<Rightarrow> string \<Rightarrow> (string \<times> string) list \<Rightarrow> string list \<Rightarrow> 'b disk \<Rightarrow>
     'b disk \<times> (host_error + unit)" where
  "remove_stale io dir marker files [] d = (d, Inr ())"
| "remove_stale io dir marker files (name # names) d =
     (case fails io (ReadEntry (dir @ [name])) of
        Some e \<Rightarrow> (d, Inl (HostIo (''reading '' @ show_file_path dir) (IoError e)))
      | None \<Rightarrow>
          if stale marker files name then
            (case fs_remove io (dir @ [name]) d of
               (d', Inl e) \<Rightarrow> (d', Inl (HostIo (''removing '' @ show_file_path (dir @ [name])) e))
             | (d', Inr u) \<Rightarrow> remove_stale io dir marker files names d')
          else remove_stale io dir marker files names d)"

definition real_sync ::
  "'b io \<Rightarrow> file_path \<Rightarrow> string \<Rightarrow> (string \<times> string) list \<Rightarrow> 'b disk \<Rightarrow> 'b disk \<times> (host_error + unit)" where
  "real_sync io dir marker files d =
     (case create_dir_all io dir of
        Inl e \<Rightarrow> (d, Inl (HostIo (''creating '' @ show_file_path dir) e))
      | Inr u \<Rightarrow>
          (case write_each io dir files d of
             (d', Inl e) \<Rightarrow> (d', Inl e)
           | (d', Inr u) \<Rightarrow>
               (case fs_read_dir io dir d' of
                  Inl e \<Rightarrow> (d', Inl (HostIo (''reading '' @ show_file_path dir) e))
                | Inr names \<Rightarrow> remove_stale io dir marker files names d')))"

definition real_write ::
  "'b io \<Rightarrow> file_path \<Rightarrow> string \<Rightarrow> 'b disk \<Rightarrow> 'b disk \<times> (host_error + unit)" where
  "real_write io p contents d =
     (case (if p = [] then Inr () else create_dir_all io (butlast p)) of
        Inl e \<Rightarrow> (d, Inl (HostIo (''creating '' @ show_file_path (butlast p)) e))
      | Inr u \<Rightarrow> write_atomically io p contents d)"

definition real_read :: "'b io \<Rightarrow> file_path \<Rightarrow> 'b disk \<Rightarrow> host_error + string option" where
  "real_read io p d =
     (case fs_read_text io p d of
        Inr s \<Rightarrow> Inr (Some s)
      | Inl NotFound \<Rightarrow> Inr None
      | Inl e \<Rightarrow> Inl (HostIo (''reading '' @ show_file_path p) e))"

definition no_program :: host_error where
  "no_program = Command [] ''no program'' []"

definition show_status :: "int option \<Rightarrow> string" where
  "show_status c =
     (case c of Some n \<Rightarrow> ''exit '' @ show_int n | None \<Rightarrow> ''killed by signal'')"

definition first_line :: "string \<Rightarrow> string" where
  "first_line reason = (case text_lines reason of [] \<Rightarrow> reason | l # ls \<Rightarrow> l)"

definition real_run ::
  "('b, 'w) programs \<Rightarrow> string list \<Rightarrow> ('b, 'w) machine \<Rightarrow> ('b, 'w) machine \<times> (host_error + unit)" where
  "real_run programs args m =
     (case args of
        [] \<Rightarrow> (m, Inl no_program)
      | program # arguments \<Rightarrow>
          (case programs program arguments None m of
             (m', Inl (Starting e)) \<Rightarrow> (m', Inl (HostIo (''running '' @ program) e))
           | (m', Inl (Feeding e)) \<Rightarrow> (m', Inl (HostIo (''running '' @ program) e))
           | (m', Inl (Waiting e)) \<Rightarrow> (m', Inl (HostIo (''running '' @ program) e))
           | (m', Inr en) \<Rightarrow>
               if en_code en = Some 0 then (m', Inr ())
               else
                 (let reason = trim (en_stderr en)
                  in (m', Inl (Command (join '' '' args) (show_status (en_code en))
                       (if reason = [] then [] else '': '' @ first_line reason))))))"

definition real_run_secret ::
  "('b, 'w) programs \<Rightarrow> string list \<Rightarrow> string \<Rightarrow> ('b, 'w) machine \<Rightarrow>
     ('b, 'w) machine \<times> (host_error + unit)" where
  "real_run_secret programs args secret m =
     (case args of
        [] \<Rightarrow> (m, Inl no_program)
      | program # arguments \<Rightarrow>
          (case programs program arguments (Some secret) m of
             (m', Inl (Starting e)) \<Rightarrow> (m', Inl (HostIo (''running '' @ program) e))
           | (m', Inl (Feeding e)) \<Rightarrow> (m', Inl (HostIo (''writing to '' @ program) e))
           | (m', Inl (Waiting e)) \<Rightarrow> (m', Inl (HostIo (''waiting for '' @ program) e))
           | (m', Inr en) \<Rightarrow>
               if en_code en = Some 0 then (m', Inr ())
               else (m', Inl (Command (join '' '' args) (show_status (en_code en)) []))))"

definition on_disk ::
  "('b disk \<Rightarrow> 'b disk \<times> 'r) \<Rightarrow> ('b, 'w) machine \<Rightarrow> ('b, 'w) machine \<times> 'r" where
  "on_disk f m = (case f (mc_disk m) of (d, r) \<Rightarrow> (m\<lparr>mc_disk := d\<rparr>, r))"

definition real_host :: "'b io \<Rightarrow> ('b, 'w) programs \<Rightarrow> ('b, 'w) machine host" where
  "real_host io programs =
     \<lparr>h_sync = (\<lambda>dir marker files. on_disk (real_sync io dir marker files)),
      h_write = (\<lambda>p contents. on_disk (real_write io p contents)),
      h_read = (\<lambda>p m. real_read io p (mc_disk m)),
      h_run = real_run programs,
      h_run_secret = real_run_secret programs\<rparr>"

section \<open>The recording one\<close>

datatype op =
    OpSync file_path string "string list" "string list"
  | OpWrite file_path string
  | OpRun "string list"

record recorded =
  rc_ops :: "op list"
  rc_files :: "(file_path \<times> string) list"
  rc_fail_matching :: "string option"
  rc_fail_once :: bool

definition mock_new :: recorded where
  "mock_new = \<lparr>rc_ops = [], rc_files = [], rc_fail_matching = None, rc_fail_once = False\<rparr>"

definition fail_commands_matching :: "string \<Rightarrow> recorded \<Rightarrow> recorded" where
  "fail_commands_matching needle m = m\<lparr>rc_fail_matching := Some needle, rc_fail_once := False\<rparr>"

definition fail_once_matching :: "string \<Rightarrow> recorded \<Rightarrow> recorded" where
  "fail_once_matching needle m = m\<lparr>rc_fail_matching := Some needle, rc_fail_once := True\<rparr>"

definition stop_failing :: "recorded \<Rightarrow> recorded" where
  "stop_failing m = m\<lparr>rc_fail_matching := None\<rparr>"

fun command_of :: "op \<Rightarrow> string option" where
  "command_of (OpRun args) = Some (join '' '' args)"
| "command_of _ = None"

definition commands :: "recorded \<Rightarrow> string list" where
  "commands m = List.map_filter command_of (rc_ops m)"

definition stale_path :: "file_path \<Rightarrow> string \<Rightarrow> (string \<times> string) list \<Rightarrow> file_path \<Rightarrow> bool" where
  "stale_path dir marker files p \<longleftrightarrow> p \<noteq> [] \<and> butlast p = dir \<and> stale marker files (last p)"

definition insert_all ::
  "file_path \<Rightarrow> (string \<times> string) list \<Rightarrow> (file_path \<times> string) list \<Rightarrow> (file_path \<times> string) list" where
  "insert_all dir files fs = fold (\<lambda>(name, contents). bm_insert (path_join dir name) contents) files fs"

definition mock_sync ::
  "file_path \<Rightarrow> string \<Rightarrow> (string \<times> string) list \<Rightarrow> recorded \<Rightarrow> recorded \<times> (host_error + unit)" where
  "mock_sync dir marker files m =
     (let gone = filter (stale_path dir marker files) (map fst (rc_files m));
          kept = fold bm_remove gone (rc_files m)
      in (m\<lparr>rc_files := insert_all dir files kept,
            rc_ops := rc_ops m @ [OpSync dir marker (map fst files) (map last gone)]\<rparr>, Inr ()))"

definition mock_write :: "file_path \<Rightarrow> string \<Rightarrow> recorded \<Rightarrow> recorded \<times> (host_error + unit)" where
  "mock_write p contents m =
     (m\<lparr>rc_files := bm_insert p contents (rc_files m), rc_ops := rc_ops m @ [OpWrite p contents]\<rparr>, Inr ())"

definition mock_read :: "file_path \<Rightarrow> recorded \<Rightarrow> host_error + string option" where
  "mock_read p m = Inr (bm_get (rc_files m) p)"

definition mock_run :: "string list \<Rightarrow> recorded \<Rightarrow> recorded \<times> (host_error + unit)" where
  "mock_run args m =
     (let m' = m\<lparr>rc_ops := rc_ops m @ [OpRun args]\<rparr>;
          line = join '' '' args;
          matched = (case rc_fail_matching m' of None \<Rightarrow> False | Some needle \<Rightarrow> contains line needle)
      in if matched then
           ((if rc_fail_once m' then m'\<lparr>rc_fail_matching := None\<rparr> else m'),
            Inl (Command line ''exit 1'' '': refused by the test''))
         else (m', Inr ()))"

definition mock_host :: "recorded host" where
  "mock_host =
     \<lparr>h_sync = mock_sync, h_write = mock_write, h_read = mock_read, h_run = mock_run,
      h_run_secret = (\<lambda>args secret. mock_run args)\<rparr>"

end
