(* ===== verification/Host_Laws.thy ===== *)
theory Host_Laws
  imports Host
begin

text \<open>
  What a synchronisation does to a disk, whatever fails, and that the recording host does to its
  files what the real one does to the disk. \<open>synced\<close> is the specification of both: a directory
  holds exactly the wanted files among those that carry the marker.
\<close>

section \<open>The specification\<close>

definition synced ::
  "file_path \<Rightarrow> string \<Rightarrow> (string \<times> string) list \<Rightarrow> (file_path \<Rightarrow> string option) \<Rightarrow> file_path \<Rightarrow> string option" where
  "synced dir marker files g p =
     (if p \<noteq> [] \<and> butlast p = dir \<and> bm_get files (last p) \<noteq> None then bm_get files (last p)
      else if p \<noteq> [] \<and> butlast p = dir \<and> contains (last p) marker then None
      else g p)"

definition ours :: "file_path \<Rightarrow> string \<Rightarrow> file_path \<Rightarrow> bool" where
  "ours dir marker p \<longleftrightarrow> p \<noteq> [] \<and> butlast p = dir \<and> contains (last p) marker"

text \<open>Names a managed file may have: one component, the marker before the extension.\<close>

definition managed_name :: "string \<Rightarrow> string \<Rightarrow> bool" where
  "managed_name marker n \<longleftrightarrow> CHR ''/'' \<notin> set n \<and>
     (\<exists>s e. n = s @ CHR ''.'' # e \<and> CHR ''.'' \<notin> set e \<and> e \<noteq> ''ns-new'' \<and> s \<noteq> [] \<and> contains s marker)"

definition managed_names :: "string \<Rightarrow> (string \<times> string) list \<Rightarrow> bool" where
  "managed_names marker files \<longleftrightarrow> bm_ok files \<and> (\<forall>n \<in> fst ` set files. managed_name marker n)"

definition temporary :: "string \<Rightarrow> string" where
  "temporary n = file_stem n @ ''.ns-new''"

lemma contains_append: "contains s p \<Longrightarrow> contains (s @ t) p"
  unfolding contains_iff by (metis append.assoc)

lemma managed_nameD:
  assumes "managed_name marker n"
  shows "path_join dir n = dir @ [n]" and "with_extension (dir @ [n]) ''ns-new'' = dir @ [temporary n]"
    and "contains n marker" and "contains (temporary n) marker"
    and "managed_name marker n' \<Longrightarrow> n' \<noteq> temporary n"
proof -
  from assms obtain s e where n: "CHR ''/'' \<notin> set n" "n = s @ CHR ''.'' # e" "CHR ''.'' \<notin> set e"
    "e \<noteq> ''ns-new''" "s \<noteq> []" "contains s marker"
    by (auto simp: managed_name_def)
  have t: "temporary n = s @ ''.ns-new''" using n by (simp add: temporary_def file_stem_ext)
  have "n \<noteq> ''.''" using n(2,5) by (cases s) auto
  then show "path_join dir n = dir @ [n]" using n by (intro path_join_name) auto
  show "with_extension (dir @ [n]) ''ns-new'' = dir @ [temporary n]"
    using n t by (simp add: with_extension_ext)
  show "contains n marker" "contains (temporary n) marker"
    using n(2,6) t contains_append by metis+
  show "n' \<noteq> temporary n" if n': "managed_name marker n'"
  proof
    assume "n' = temporary n"
    with n' t n(5) file_extension_ext [of "''ns-new''" s] have "file_extension n' = Some ''ns-new''" by simp
    moreover from n' obtain s' e' where "n' = s' @ CHR ''.'' # e'" "CHR ''.'' \<notin> set e'"
      "e' \<noteq> ''ns-new''" "s' \<noteq> []" by (auto simp: managed_name_def)
    ultimately show False by (simp add: file_extension_ext)
  qed
qed

lemma in_dir: "p \<noteq> [] \<and> butlast p = dir \<longleftrightarrow> (\<exists>n. p = dir @ [n])"
  by (metis append_butlast_last_id butlast_snoc snoc_eq_iff_butlast)

section \<open>Writing\<close>

definition text_at :: "'b disk \<Rightarrow> file_path \<Rightarrow> string option" where
  "text_at d p =
     (case bm_get d p of
        None \<Rightarrow> None
      | Some f \<Rightarrow> (case f_data f of Text s \<Rightarrow> Some s | Data b \<Rightarrow> None))"

lemma write_atomically_cases:
  assumes "write_atomically io p c d = (d', r)"
  obtains (unwritten) d1 e where "fs_write io (with_extension p ''ns-new'') (Text c) d = (d', Inl e)" "r \<noteq> Inr ()"
  | (unmoved) "fs_write io (with_extension p ''ns-new'') (Text c) d = (d', Inr ())" "r \<noteq> Inr ()"
  | (moved) d1 where "fs_write io (with_extension p ''ns-new'') (Text c) d = (d1, Inr ())"
      "fs_rename io (with_extension p ''ns-new'') p d1 = (d', Inr ())" "r = Inr ()"
proof -
  obtain d1 r1 where w: "fs_write io (with_extension p ''ns-new'') (Text c) d = (d1, r1)" by fastforce
  show ?thesis
  proof (cases r1)
    case (Inl e)
    then show ?thesis using unwritten assms w by (auto simp: write_atomically_def)
  next
    case (Inr u)
    obtain d2 r2 where m: "fs_rename io (with_extension p ''ns-new'') p d1 = (d2, r2)" by fastforce
    show ?thesis
    proof (cases r2)
      case (Inl e)
      then have "d2 = d1" using m by (auto simp: fs_rename_def split: option.splits)
      then show ?thesis using unmoved assms w m Inl Inr by (auto simp: write_atomically_def)
    next
      case (Inr u')
      then show ?thesis using moved assms w m \<open>r1 = Inr u\<close> by (auto simp: write_atomically_def)
    qed
  qed
qed

lemma write_atomically_leaves:
  assumes "write_atomically io p c d = (d', r)" and "q \<noteq> p" and "q \<noteq> with_extension p ''ns-new''"
  shows "bm_get d' q = bm_get d q"
proof (rule write_atomically_cases [OF assms(1)])
  fix d1
  assume w: "fs_write io (with_extension p ''ns-new'') (Text c) d = (d1, Inr ())"
    and m: "fs_rename io (with_extension p ''ns-new'') p d1 = (d', Inr ())"
  have "bm_get d' q = bm_get d1 q"
    using m assms(2,3) by (auto simp: fs_rename_def bm_get_insert bm_get_remove split: option.splits)
  then show ?thesis using fs_write_other [OF w assms(3)] by simp
qed (use fs_write_other assms(3) in metis)+

lemma write_atomically_target:
  assumes "write_atomically io p c d = (d', r)" and "with_extension p ''ns-new'' \<noteq> p"
  shows "(r \<noteq> Inr () \<and> bm_get d' p = bm_get d p) \<or>
    (r = Inr () \<and> bm_get d' (with_extension p ''ns-new'') = None \<and>
     (\<exists>mode. bm_get d' p = Some \<lparr>f_data = Text c, f_mode = mode\<rparr>))"
proof (rule write_atomically_cases [OF assms(1)])
  fix d1
  assume w: "fs_write io (with_extension p ''ns-new'') (Text c) d = (d1, Inr ())"
    and m: "fs_rename io (with_extension p ''ns-new'') p d1 = (d', Inr ())" and r: "r = Inr ()"
  have "\<exists>mode. bm_get d1 (with_extension p ''ns-new'') = Some \<lparr>f_data = Text c, f_mode = mode\<rparr>"
    using fs_write_ok [OF w] by (simp add: put_file_def bm_get_insert)
  then show ?thesis
    using m assms(2) r by (auto simp: fs_rename_def bm_get_insert bm_get_remove split: option.splits)
qed (use fs_write_other [of io "with_extension p ''ns-new''" "Text c" d d' _ p] assms(2) in auto)

lemma write_atomically_faultless:
  "no_faults io \<Longrightarrow> \<exists>d'. write_atomically io p c d = (d', Inr ())"
  by (simp add: write_atomically_def fs_write_def fs_rename_def put_file_def no_faults_def bm_get_insert Let_def)

lemma write_atomically_bm_ok:
  assumes "write_atomically io p c d = (d', r)" and "bm_ok d"
  shows "bm_ok d'"
  by (rule write_atomically_cases [OF assms(1)]; use assms(2) disk_ok_steps(1,2) in metis)

text \<open>What writing the wanted files leaves alone.\<close>

lemma write_each_leaves:
  assumes "\<forall>n \<in> fst ` set files. managed_name marker n"
    and "write_each io dir files d = (d', r)"
  shows "\<not> ours dir marker q \<Longrightarrow> bm_get d' q = bm_get d q"
    and "managed_name marker n \<Longrightarrow> n \<notin> fst ` set files \<Longrightarrow> bm_get d' (dir @ [n]) = bm_get d (dir @ [n])"
proof -
  have *: "(\<not> ours dir marker q \<longrightarrow> bm_get d' q = bm_get d q) \<and>
    (n \<notin> fst ` set files \<and> managed_name marker n \<longrightarrow>
     bm_get d' (dir @ [n]) = bm_get d (dir @ [n]))"
    if "\<forall>n \<in> fst ` set files. managed_name marker n" and "write_each io dir files d = (d', r)"
    for files :: "(string \<times> string) list" and d q n
    using that
  proof (induction files arbitrary: d)
    case (Cons x files)
    obtain k c where x: "x = (k, c)" by (cases x)
    have k: "managed_name marker k" using Cons.prems x by simp
    note kD = managed_nameD [OF k]
    obtain d1 r1 where w: "write_atomically io (dir @ [k]) c d = (d1, r1)"
      by (cases "write_atomically io (dir @ [k]) c d")
    have left: "bm_get d1 q' = bm_get d q'" if "q' \<noteq> dir @ [k]" "q' \<noteq> dir @ [temporary k]" for q'
      using write_atomically_leaves [OF w] that kD(2) by metis
    have out: "\<not> ours dir marker q \<Longrightarrow> bm_get d1 q = bm_get d q"
      "n \<noteq> k \<Longrightarrow> managed_name marker n \<Longrightarrow>
        bm_get d1 (dir @ [n]) = bm_get d (dir @ [n])"
      using left [of q] left [of "dir @ [n]"] kD(3,4) kD(5) [of n]
      by (metis butlast_snoc last_snoc ours_def snoc_eq_iff_butlast, metis last_snoc)
    show ?case
    proof (cases r1)
      case (Inl e)
      then show ?thesis using Cons.prems(2) out w kD(1) by (auto simp: x)
    next
      case (Inr u)
      then have "write_each io dir files d1 = (d', r)" using Cons.prems(2) w kD(1) by (simp add: x)
      then show ?thesis using Cons.IH [of d1] Cons.prems(1) out by (auto simp: x)
    qed
  qed simp
  show "\<not> ours dir marker q \<Longrightarrow> bm_get d' q = bm_get d q"
    "managed_name marker n \<Longrightarrow> n \<notin> fst ` set files \<Longrightarrow> bm_get d' (dir @ [n]) = bm_get d (dir @ [n])"
    using * [OF assms] by blast+
qed


definition holds_text :: "'b disk \<Rightarrow> file_path \<Rightarrow> string \<Rightarrow> bool" where
  "holds_text d p c \<longleftrightarrow> (\<exists>mode. bm_get d p = Some \<lparr>f_data = Text c, f_mode = mode\<rparr>)"

lemma holds_text_at: "holds_text d p c \<Longrightarrow> text_at d p = Some c"
  by (auto simp: holds_text_def text_at_def)

lemma write_each_wanted:
  assumes "\<forall>n \<in> fst ` set files. managed_name marker n" and "distinct (map fst files)"
    and "write_each io dir files d = (d', r)" and "(k, c) \<in> set files"
  shows "holds_text d' (dir @ [k]) c \<or> r \<noteq> Inr () \<and> bm_get d' (dir @ [k]) = bm_get d (dir @ [k])"
  using assms
proof (induction files arbitrary: d)
  case (Cons x files)
  obtain n b where x: "x = (n, b)" by (cases x)
  have n: "managed_name marker n" and rest: "\<forall>n \<in> fst ` set files. managed_name marker n"
    using Cons.prems(1) x by auto
  obtain d1 r1 where w: "write_atomically io (dir @ [n]) b d = (d1, r1)"
    by (cases "write_atomically io (dir @ [n]) b d")
  have target: "r1 \<noteq> Inr () \<and> bm_get d1 (dir @ [n]) = bm_get d (dir @ [n]) \<or>
      r1 = Inr () \<and> holds_text d1 (dir @ [n]) b"
    using write_atomically_target [OF w] managed_nameD(2) [OF n] managed_nameD(5) [OF n n]
    by (auto simp: holds_text_def)
  have k: "managed_name marker k" using Cons.prems(1,4) by force
  have other: "k \<noteq> n \<Longrightarrow> bm_get d1 (dir @ [k]) = bm_get d (dir @ [k])"
    using write_atomically_leaves [OF w, of "dir @ [k]"] managed_nameD(2) [OF n] managed_nameD(5) [OF n k] by simp
  show ?case
  proof (cases r1)
    case (Inl e)
    then have "d' = d1 \<and> r = Inl e" using Cons.prems(3) w managed_nameD(1) [OF n] by (auto simp: x)
    then show ?thesis using target other Inl by (cases "k = n") auto
  next
    case (Inr u)
    then have run: "write_each io dir files d1 = (d', r)"
      using Cons.prems(3) w managed_nameD(1) [OF n] by (simp add: x)
    show ?thesis
    proof (cases "k = n")
      case True
      then have "(k, c) = x" using Cons.prems(2,4) x by (auto simp: image_iff)
      moreover have "bm_get d' (dir @ [n]) = bm_get d1 (dir @ [n])"
        using write_each_leaves(2) [OF rest run n] Cons.prems(2) by (simp add: x)
      ultimately show ?thesis using target Inr x True by (auto simp: holds_text_def)
    next
      case False
      then have "(k, c) \<in> set files" using Cons.prems(4) x by auto
      then show ?thesis using Cons.IH [OF rest _ run] Cons.prems(2) other False by (simp add: x)
    qed
  qed
qed simp

lemma write_each_faultless:
  "no_faults io \<Longrightarrow> \<exists>d'. write_each io dir files d = (d', Inr ())"
proof (induction files arbitrary: d)
  case (Cons x files)
  obtain n b where x: "x = (n, b)" by (cases x)
  obtain d1 where "write_atomically io (path_join dir n) b d = (d1, Inr ())"
    using write_atomically_faultless [OF Cons.prems] by blast
  then show ?case using Cons.IH [OF Cons.prems, of d1] by (simp add: x)
qed simp

lemma write_each_bm_ok:
  "write_each io dir files d = (d', r) \<Longrightarrow> bm_ok d \<Longrightarrow> bm_ok d'"
proof (induction files arbitrary: d)
  case (Cons x files)
  obtain n b where x: "x = (n, b)" by (cases x)
  obtain d1 r1 where w: "write_atomically io (path_join dir n) b d = (d1, r1)"
    by (cases "write_atomically io (path_join dir n) b d")
  then show ?case
    using Cons write_atomically_bm_ok [OF w] by (cases r1) (auto simp: x)
qed simp

section \<open>Removing\<close>

lemma remove_stale_leaves:
  assumes "remove_stale io dir marker files names d = (d', r)"
    and "\<And>n. n \<in> set names \<Longrightarrow> q = dir @ [n] \<Longrightarrow> \<not> stale marker files n"
  shows "bm_get d' q = bm_get d q"
  using assms
proof (induction names arbitrary: d)
  case (Cons n names)
  show ?case
  proof (cases "stale marker files n \<and> fails io (ReadEntry (dir @ [n])) = None")
    case True
    obtain d1 r1 where w: "fs_remove io (dir @ [n]) d = (d1, r1)" by fastforce
    have "bm_get d1 q = bm_get d q"
      using w Cons.prems(2) [of n] True by (auto simp: fs_remove_def bm_get_remove split: option.splits)
    then show ?thesis using Cons True w by (cases r1) auto
  next
    case False
    then show ?thesis using Cons by (auto split: option.splits if_splits)
  qed
qed simp

lemma remove_stale_done:
  assumes "remove_stale io dir marker files names d = (d', Inr ())"
    and "n \<in> set names" and "stale marker files n"
  shows "bm_get d' (dir @ [n]) = None"
  using assms
proof (induction names arbitrary: d)
  case (Cons m names)
  note run = Cons.prems(1)
  have entry: "fails io (ReadEntry (dir @ [m])) = None" using run by (auto split: option.splits)
  show ?case
  proof (cases "stale marker files m")
    case True
    obtain d1 where w: "fs_remove io (dir @ [m]) d = (d1, Inr ())"
      and then_run: "remove_stale io dir marker files names d1 = (d', Inr ())"
      using run entry True by (auto split: prod.splits sum.splits)
    have "bm_get d1 (dir @ [m]) = None"
      using w by (auto simp: fs_remove_def bm_get_remove split: option.splits)
    moreover have "bm_get d' (dir @ [m]) = bm_get d1 (dir @ [m])" if "m \<notin> set names"
      by (rule remove_stale_leaves [OF then_run]) (use that in auto)
    ultimately show ?thesis using Cons.IH [OF then_run] Cons.prems(2,3) by (cases "n \<in> set names") auto
  next
    case False
    then show ?thesis using Cons entry by auto
  qed
qed simp

lemma remove_stale_faultless:
  assumes "no_faults io" and "distinct names" and "\<And>n. n \<in> set names \<Longrightarrow> bm_get d (dir @ [n]) \<noteq> None"
  shows "\<exists>d'. remove_stale io dir marker files names d = (d', Inr ())"
  using assms(2,3)
proof (induction names arbitrary: d)
  case (Cons n names)
  have ok: "\<And>x. fails io x = None" using assms(1) by (simp add: no_faults_def)
  show ?case
  proof (cases "stale marker files n")
    case True
    have "fs_remove io (dir @ [n]) d = (bm_remove (dir @ [n]) d, Inr ())"
      using Cons.prems(2) [of n] ok by (auto simp: fs_remove_def)
    moreover have "\<exists>d'. remove_stale io dir marker files names (bm_remove (dir @ [n]) d) = (d', Inr ())"
    proof (rule Cons.IH)
      fix k assume "k \<in> set names"
      with Cons.prems show "bm_get (bm_remove (dir @ [n]) d) (dir @ [k]) \<noteq> None"
        by (auto simp: bm_get_remove)
    qed (use Cons.prems in simp)
    ultimately show ?thesis using ok True by simp
  next
    case False
    then show ?thesis using Cons ok by simp
  qed
qed simp

section \<open>A synchronisation\<close>

lemma real_sync_cases:
  assumes "real_sync io dir marker files d = (d', r)"
  obtains (unmade) "d' = d" "r \<noteq> Inr ()"
  | (unwritten) "write_each io dir files d = (d', r)" "r \<noteq> Inr ()"
  | (unlisted) "write_each io dir files d = (d', Inr ())" "r \<noteq> Inr ()"
  | (removing) d1 names where "write_each io dir files d = (d1, Inr ())"
      "fs_read_dir io dir d1 = Inr names" "remove_stale io dir marker files names d1 = (d', r)"
  using assms unfolding real_sync_def
  by (auto split: sum.splits prod.splits)

text \<open>
  C13. Whatever fails, a synchronisation touches nothing but files of its directory that carry the
  marker, and leaves each wanted file either as it was or with all of its new contents. When it
  reports success every wanted file has its new contents.
\<close>

theorem sync_safe:
  assumes names: "managed_names marker files"
    and run: "real_sync io dir marker files d = (d', r)"
  shows "(\<not> ours dir marker q \<longrightarrow> bm_get d' q = bm_get d q) \<and>
    ((n, c) \<in> set files \<longrightarrow> holds_text d' (dir @ [n]) c \<or>
       r \<noteq> Inr () \<and> bm_get d' (dir @ [n]) = bm_get d (dir @ [n]))"
proof -
  have mn: "\<forall>n \<in> fst ` set files. managed_name marker n" and dist: "distinct (map fst files)"
    using names bm_ok_distinct by (auto simp: managed_names_def)
  have written: "(\<not> ours dir marker q \<longrightarrow> bm_get d1 q = bm_get d q) \<and>
      ((n, c) \<in> set files \<longrightarrow> holds_text d1 (dir @ [n]) c \<or>
         r1 \<noteq> Inr () \<and> bm_get d1 (dir @ [n]) = bm_get d (dir @ [n]))"
    if "write_each io dir files d = (d1, r1)" for d1 r1
    using write_each_leaves(1) [OF mn that] write_each_wanted [OF mn dist that] by blast
  show ?thesis
  proof (rule real_sync_cases [OF run])
    fix d1 names
    assume w: "write_each io dir files d = (d1, Inr ())" "remove_stale io dir marker files names d1 = (d', r)"
    have "bm_get d' q = bm_get d1 q" if "\<not> ours dir marker q"
      by (rule remove_stale_leaves [OF w(2)]) (use that in \<open>auto simp: ours_def stale_def\<close>)
    moreover have "bm_get d' (dir @ [n]) = bm_get d1 (dir @ [n])" if "(n, c) \<in> set files"
      by (rule remove_stale_leaves [OF w(2)]) (use that in \<open>force simp: stale_def map_of_eq_None_iff\<close>)
    ultimately show ?thesis using written [OF w(1)] by (auto simp: holds_text_def)
  qed (use written in \<open>auto simp: holds_text_def\<close>)
qed

text \<open>A small directory to apply the properties to: a stale file of ours and one of somebody else.\<close>

definition good_io :: "nat io" where
  "good_io = \<lparr>fails = (\<lambda>x. None), debris = (\<lambda>p. None), new_mode = 420, dir_order = id\<rparr>"

definition bad_io :: "nat io" where
  "bad_io = good_io\<lparr>fails := (\<lambda>x. case x of RenameFile p q \<Rightarrow> Some ''disk full'' | _ \<Rightarrow> None)\<rparr>"

definition plain_file :: "string \<Rightarrow> nat file_entry" where
  "plain_file s = \<lparr>f_data = Text s, f_mode = 420\<rparr>"

definition net_disk :: "nat disk" where
  "net_disk = [([''net'', ''10-ns-eth1.network''], plain_file ''b''),
     ([''net'', ''50-other.network''], plain_file ''c'')]"

definition net_files :: "(string \<times> string) list" where
  "net_files = [(''10-ns-eth0.network'', ''a'')]"

lemma net_files_named: "managed_names ''-ns-'' net_files"
proof -
  have "managed_name ''-ns-'' ''10-ns-eth0.network''"
    by (simp add: managed_name_def contains_def, rule exI [of _ "''10-ns-eth0''"], rule exI [of _ "''network''"]) simp
  then show ?thesis by (simp add: managed_names_def net_files_def bm_ok_def)
qed

theorem sync_safe_witness:
  "bm_get (fst (real_sync bad_io [''net''] ''-ns-'' net_files net_disk)) [''net'', ''50-other.network''] =
    Some (plain_file ''c'')"
proof -
  obtain d' r where run: "real_sync bad_io [''net''] ''-ns-'' net_files net_disk = (d', r)" by fastforce
  have "\<not> ours [''net''] ''-ns-'' [''net'', ''50-other.network'']" by (simp add: ours_def contains_def)
  then show ?thesis
    using sync_safe [OF net_files_named run, of "[''net'', ''50-other.network'']"] run by (simp add: net_disk_def)
qed

section \<open>The two hosts agree\<close>

lemma real_sync_synced:
  assumes names: "managed_names marker files" and io: "lists_all io" and d: "bm_ok d"
    and run: "real_sync io dir marker files d = (d', Inr ())"
  shows "text_at d' = synced dir marker files (text_at d)"
proof -
  obtain d1 ns where w: "write_each io dir files d = (d1, Inr ())"
    and ls: "fs_read_dir io dir d1 = Inr ns"
    and r: "remove_stale io dir marker files ns d1 = (d', Inr ())"
    by (rule real_sync_cases [OF run]) auto
  have d1: "bm_ok d1" by (rule write_each_bm_ok [OF w d])
  have ns: "set ns = set (names_in dir d1)"
    using ls io unfolding fs_read_dir_def lists_all_def
    by (auto split: option.splits) (metis set_mset_mset)+
  have "text_at d' q = synced dir marker files (text_at d) q" for q
  proof (cases "ours dir marker q")
    case False
    then have "bm_get d' q = bm_get d q" using sync_safe [OF names run] by blast
    moreover have "\<not> (q \<noteq> [] \<and> butlast q = dir \<and> bm_get files (last q) \<noteq> None)"
    proof
      assume "q \<noteq> [] \<and> butlast q = dir \<and> bm_get files (last q) \<noteq> None"
      moreover then have "managed_name marker (last q)"
        using names by (auto simp: managed_names_def dest!: map_of_SomeD)
      ultimately show False using False managed_nameD(3) by (auto simp: ours_def)
    qed
    ultimately show ?thesis using False by (auto simp: synced_def ours_def text_at_def)
  next
    case True
    then have q: "q = dir @ [last q]" by (auto simp: ours_def)
    show ?thesis
    proof (cases "bm_get files (last q)")
      case None
      then have st: "stale marker files (last q)" using True by (simp add: stale_def ours_def)
      have "bm_get d' q = None"
      proof (cases "last q \<in> set ns")
        case True
        then show ?thesis using remove_stale_done [OF r True st] q by simp
      next
        case False
        then have "bm_get d1 q = None" using names_in_mem [OF d1] ns(1) q by metis
        moreover have "bm_get d' q = bm_get d1 q"
          by (rule remove_stale_leaves [OF r]) (use False q in auto)
        ultimately show ?thesis by simp
      qed
      then show ?thesis using True None by (simp add: synced_def ours_def text_at_def)
    next
      case (Some c)
      then have "holds_text d' (dir @ [last q]) c"
        using sync_safe [OF names run, of q "last q" c] by (auto dest: map_of_SomeD)
      then show ?thesis using True Some q holds_text_at by (metis synced_def ours_def option.simps(3))
    qed
  qed
  then show ?thesis by blast
qed

lemma real_sync_exact:
  assumes names: "managed_names marker files" and io: "no_faults io" "lists_all io" and d: "bm_ok d"
  shows "\<exists>d'. real_sync io dir marker files d = (d', Inr ()) \<and> text_at d' = synced dir marker files (text_at d)"
proof -
  obtain d1 where w: "write_each io dir files d = (d1, Inr ())"
    using write_each_faultless [OF io(1)] by blast
  have d1: "bm_ok d1" by (rule write_each_bm_ok [OF w d])
  define ns where "ns = dir_order io (names_in dir d1)"
  have ns: "set ns = set (names_in dir d1)" "distinct ns"
    using io(2) names_in_distinct [OF d1] unfolding ns_def lists_all_def
    by (metis set_mset_mset, metis mset_eq_imp_distinct_iff)
  obtain d' where r: "remove_stale io dir marker files ns d1 = (d', Inr ())"
    using remove_stale_faultless [OF io(1) ns(2), of d1] names_in_mem [OF d1] ns(1) by blast
  have run: "real_sync io dir marker files d = (d', Inr ())"
    using io(1) w r by (simp add: real_sync_def create_dir_all_def fs_read_dir_def no_faults_def ns_def)
  then show ?thesis using real_sync_synced [OF names io(2) d run] by blast
qed

lemma remove_stale_bm_ok:
  "remove_stale io dir marker files names d = (d', r) \<Longrightarrow> bm_ok d \<Longrightarrow> bm_ok d'"
proof (induction names arbitrary: d)
  case (Cons n names)
  obtain d1 r1 where w: "fs_remove io (dir @ [n]) d = (d1, r1)" by fastforce
  then have "bm_ok d1" using Cons.prems(2) disk_ok_steps(3) by blast
  then show ?case using Cons w by (cases r1) (auto split: option.splits if_splits)
qed simp

lemma real_sync_bm_ok:
  assumes "real_sync io dir marker files d = (d', r)" and "bm_ok d"
  shows "bm_ok d'"
  by (rule real_sync_cases [OF assms(1)])
    (use assms(2) write_each_bm_ok remove_stale_bm_ok in \<open>blast+\<close>)

lemma bm_get_insert_all:
  assumes "\<forall>n \<in> fst ` set files. managed_name marker n" and "distinct (map fst files)"
  shows "bm_get (insert_all dir files fs) p =
    (if p \<noteq> [] \<and> butlast p = dir \<and> bm_get files (last p) \<noteq> None then bm_get files (last p) else bm_get fs p)"
  using assms
proof (induction files arbitrary: fs)
  case (Cons x files)
  obtain n c where x: "x = (n, c)" by (cases x)
  have n: "path_join dir n = dir @ [n]" using Cons.prems(1) x managed_nameD(1) [of marker n] by simp
  have new: "bm_get files n = None" using Cons.prems(2) x by (simp add: map_of_eq_None_iff)
  have "p = dir @ [n] \<longleftrightarrow> p \<noteq> [] \<and> butlast p = dir \<and> last p = n"
    by (metis append_butlast_last_id butlast_snoc last_snoc snoc_eq_iff_butlast)
  then show ?case
    using Cons.IH [of "bm_insert (dir @ [n]) c fs"] Cons.prems new n
    by (auto simp: x insert_all_def bm_get_insert)
qed (simp add: insert_all_def)

lemma bm_get_remove_all: "bm_get (fold bm_remove ps m) p = (if p \<in> set ps then None else bm_get m p)"
  by (induction ps arbitrary: m) (auto simp: bm_get_remove)

lemma mock_sync_exact:
  assumes "managed_names marker files"
  shows "bm_get (rc_files (fst (mock_sync dir marker files m))) = synced dir marker files (bm_get (rc_files m))"
proof
  fix p
  have "bm_get (rc_files m) p = None" if "p \<notin> fst ` set (rc_files m)"
    using that by (simp add: map_of_eq_None_iff)
  moreover have "\<forall>n \<in> fst ` set files. managed_name marker n" "distinct (map fst files)"
    using assms bm_ok_distinct by (auto simp: managed_names_def)
  note bm_get_insert_all [OF this]
  ultimately show "bm_get (rc_files (fst (mock_sync dir marker files m))) p =
      synced dir marker files (bm_get (rc_files m)) p"
    by (auto simp: mock_sync_def Let_def bm_get_remove_all synced_def stale_path_def stale_def)
qed

definition all_text :: "'b disk \<Rightarrow> bool" where
  "all_text d \<longleftrightarrow> (\<forall>f \<in> snd ` set d. \<exists>s. f_data f = Text s)"

text \<open>
  C14. On a disk that does not fail, the real host does to the files what the recording host does:
  starting from the same files they end with the same files, for a synchronisation and for a write
  whose temporary name is free, both succeed, and a read gives the same answer. So what a test
  against the recording host shows of the files holds on the machine.
\<close>

theorem hosts_agree:
  assumes io: "no_faults io" "lists_all io" and d: "bm_ok d" "all_text d"
    and same: "text_at d = bm_get (rc_files rec)"
    and names: "managed_names marker files"
    and p: "with_extension p ''ns-new'' \<noteq> p" "bm_get d (with_extension p ''ns-new'') = None"
  shows "(\<exists>d'. real_sync io dir marker files d = (d', Inr ()) \<and>
      text_at d' = bm_get (rc_files (fst (mock_sync dir marker files rec)))) \<and>
    (\<exists>d'. real_write io p c d = (d', Inr ()) \<and>
      text_at d' = bm_get (rc_files (fst (mock_write p c rec)))) \<and>
    real_read io q d = mock_read q rec"
proof (intro conjI)
  show "\<exists>d'. real_sync io dir marker files d = (d', Inr ()) \<and>
      text_at d' = bm_get (rc_files (fst (mock_sync dir marker files rec)))"
    using real_sync_exact [OF names io d(1)] mock_sync_exact [OF names] same by simp
  obtain d' where w: "write_atomically io p c d = (d', Inr ())"
    using write_atomically_faultless [OF io(1)] by blast
  have "text_at d' r = bm_get (rc_files (fst (mock_write p c rec))) r" for r
    using write_atomically_target [OF w p(1)] write_atomically_leaves [OF w, of r] p same [THEN fun_cong, of r]
    by (cases "r = p"; cases "r = with_extension p ''ns-new''")
      (auto simp: mock_write_def bm_get_insert text_at_def)
  then show "\<exists>d'. real_write io p c d = (d', Inr ()) \<and>
      text_at d' = bm_get (rc_files (fst (mock_write p c rec)))"
    using w io(1) by (auto simp: real_write_def create_dir_all_def no_faults_def)
  show "real_read io q d = mock_read q rec"
    using same [THEN fun_cong, of q] d(2) io(1)
    by (auto simp: real_read_def mock_read_def fs_read_text_def fs_read_def no_faults_def text_at_def
        all_text_def split: option.splits content.splits dest!: map_of_SomeD)
qed

theorem hosts_agree_witness:
  "\<exists>d'. real_sync good_io [''net''] ''-ns-'' net_files net_disk = (d', Inr ()) \<and>
     text_at d' [''net'', ''10-ns-eth0.network''] = Some ''a'' \<and>
     text_at d' [''net'', ''10-ns-eth1.network''] = None \<and>
     text_at d' [''net'', ''50-other.network''] = Some ''c''"
proof -
  let ?rec = "mock_new\<lparr>rc_files := [([''net'', ''10-ns-eth1.network''], ''b''), ([''net'', ''50-other.network''], ''c'')]\<rparr>"
  have io: "no_faults good_io" "lists_all good_io"
    by (simp_all add: no_faults_def lists_all_def good_io_def)
  have d: "bm_ok net_disk" "all_text net_disk" "text_at net_disk = bm_get (rc_files ?rec)"
    by (auto simp: bm_ok_def all_text_def net_disk_def plain_file_def text_at_def)
  have p: "with_extension [''hosts''] ''ns-new'' \<noteq> [''hosts'']"
    "bm_get net_disk (with_extension [''hosts''] ''ns-new'') = None"
    by (simp_all add: with_extension_def file_stem_def net_disk_def)
  show ?thesis
    using hosts_agree [OF io d(1,2,3) net_files_named p, of "[''net'']" "''x''" "[''hosts'']"]
    by (auto simp: mock_sync_def Let_def net_files_def insert_all_def path_join_def path_components_def
        stale_path_def stale_def contains_def bm_remove_def mock_new_def)
qed

end
