(* ===== verification/Applying.thy ===== *)
theory Applying
  imports Host_Laws
begin

text \<open>
  The loops the \<open>apply\<close> methods of the renderers share, over any host, and what they do to the files
  of the machine. The locale \<open>file_host\<close> is what a renderer relies on of its host: only what
  follows from a call that reported success, so that it holds of a real disk that may fail.
\<close>

section \<open>The loops\<close>

type_synonym 'm outcome = "'m \<times> (apply_error + unit)"

definition and_then :: "'m outcome \<Rightarrow> ('m \<Rightarrow> 'm outcome) \<Rightarrow> 'm outcome" where
  "and_then x f = (case x of (m, Inl e) \<Rightarrow> (m, Inl e) | (m, Inr u) \<Rightarrow> f m)"

definition lift_host :: "'m \<times> (host_error + unit) \<Rightarrow> 'm outcome" where
  "lift_host x = (case x of (m, r) \<Rightarrow> (m, map_err ApplyHost r))"

fun sync_all :: "'m host \<Rightarrow> managed list \<Rightarrow> 'm \<Rightarrow> 'm outcome" where
  "sync_all h [] m = (m, Inr ())"
| "sync_all h (mg # mgs) m =
     and_then (lift_host (h_sync h (mg_dir mg) (mg_marker mg) (mg_files mg) m)) (sync_all h mgs)"

fun write_all :: "'m host \<Rightarrow> (file_path \<times> string) list \<Rightarrow> 'm \<Rightarrow> 'm outcome" where
  "write_all h [] m = (m, Inr ())"
| "write_all h ((p, contents) # fs) m = and_then (lift_host (h_write h p contents m)) (write_all h fs)"

fun run_all :: "'m host \<Rightarrow> action list \<Rightarrow> 'm \<Rightarrow> 'm outcome" where
  "run_all h [] m = (m, Inr ())"
| "run_all h (a # as) m =
     and_then (case argv a of Some args \<Rightarrow> lift_host (h_run h args m) | None \<Rightarrow> (m, Inr ())) (run_all h as)"

lemma and_then_Inr: "and_then x f = (m', Inr u) \<longleftrightarrow> (\<exists>m. x = (m, Inr ()) \<and> f m = (m', Inr u))"
  by (cases x; cases "snd x") (auto simp: and_then_def)

lemma lift_host_Inr: "lift_host x = (m, Inr u) \<longleftrightarrow> x = (m, Inr u)"
  by (cases x) (auto simp: lift_host_def)

lemmas outcome_simps = and_then_Inr lift_host_Inr

lemma synced_cong: "g q = g' q \<Longrightarrow> synced dir marker fs g q = synced dir marker fs g' q"
  by (auto simp: synced_def)

section \<open>What a renderer relies on\<close>

locale file_host =
  fixes h :: "'m host" and files :: "'m \<Rightarrow> file_path \<Rightarrow> string option"
    and kept :: "file_path set" and ok :: "'m \<Rightarrow> bool"
  assumes sync_done: "ok m \<Longrightarrow> managed_names marker fs \<Longrightarrow> h_sync h dir marker fs m = (m', Inr ()) \<Longrightarrow>
      files m' p = synced dir marker fs (files m) p"
    and write_done: "ok m \<Longrightarrow> h_write h p c m = (m', Inr ()) \<Longrightarrow> with_extension p ''ns-new'' \<noteq> p \<Longrightarrow>
      files m' p = Some c"
    and write_leaves: "ok m \<Longrightarrow> h_write h p c m = (m', r) \<Longrightarrow> q \<noteq> p \<Longrightarrow> q \<noteq> with_extension p ''ns-new'' \<Longrightarrow>
      files m' q = files m q"
    and read_done: "ok m \<Longrightarrow> h_read h p m = Inr x \<Longrightarrow> x = files m p"
    and run_keeps: "ok m \<Longrightarrow> q \<in> kept \<Longrightarrow> h_run h args m = (m', r) \<Longrightarrow> files m' q = files m q"
    and run_secret_keeps:
      "ok m \<Longrightarrow> q \<in> kept \<Longrightarrow> h_run_secret h args s m = (m', r) \<Longrightarrow> files m' q = files m q"
    and ok_steps: "ok m \<Longrightarrow> h_sync h dir marker fs m = (m', r1) \<Longrightarrow> ok m'"
      "ok m \<Longrightarrow> h_write h p c m = (m', r1) \<Longrightarrow> ok m'"
      "ok m \<Longrightarrow> h_run h args m = (m', r1) \<Longrightarrow> ok m'"
      "ok m \<Longrightarrow> h_run_secret h args s m = (m', r1) \<Longrightarrow> ok m'"
begin

lemma run_all_keeps:
  "run_all h as m = (m', r) \<Longrightarrow> ok m \<Longrightarrow> ok m' \<and> (q \<in> kept \<longrightarrow> files m' q = files m q)"
proof (induction as arbitrary: m)
  case (Cons a as)
  show ?case
  proof (cases "argv a")
    case None
    then show ?thesis using Cons by (simp add: and_then_def)
  next
    case (Some args)
    obtain m1 r1 where run: "h_run h args m = (m1, r1)" by fastforce
    have "ok m1" "q \<in> kept \<longrightarrow> files m1 q = files m q"
      using run_keeps [OF Cons.prems(2) _ run] ok_steps(3) [OF Cons.prems(2) run] by auto
    then show ?thesis using Cons Some run by (cases r1) (auto simp: and_then_def lift_host_def)
  qed
qed simp

lemma write_all_done:
  assumes "write_all h fs m = (m', Inr ())" and "ok m" and "bm_ok fs"
    and "\<And>p. p \<in> fst ` set fs \<Longrightarrow> with_extension p ''ns-new'' \<notin> insert q (fst ` set fs)"
  shows "ok m' \<and> files m' q = (case bm_get fs q of Some c \<Rightarrow> Some c | None \<Rightarrow> files m q)"
  using assms
proof (induction fs arbitrary: m)
  case (Cons x fs)
  obtain p c where x: "x = (p, c)" by (cases x)
  obtain m1 where w: "h_write h p c m = (m1, Inr ())" and run: "write_all h fs m1 = (m', Inr ())"
    using Cons.prems(1) by (auto simp: x outcome_simps)
  have new: "bm_get fs p = None" using bm_ok_distinct [OF Cons.prems(3)] by (simp add: x map_of_eq_None_iff)
  have "ok m1" by (rule ok_steps(2) [OF Cons.prems(2) w])
  then have "ok m' \<and> files m' q = (case bm_get fs q of Some c \<Rightarrow> Some c | None \<Rightarrow> files m1 q)"
    by (intro Cons.IH [OF run]) (use Cons.prems x in \<open>auto simp: bm_ok_Cons\<close>)
  moreover have "files m1 p = Some c \<and> (q \<noteq> p \<longrightarrow> files m1 q = files m q)"
    using write_done [OF Cons.prems(2) w] write_leaves [OF Cons.prems(2) w, of q] Cons.prems(4) [of p] x by auto
  ultimately show ?case using new by (auto simp: x split: option.splits)
qed simp

lemma sync_all_other:
  assumes "sync_all h mgs m = (m', Inr ())" and "ok m"
    and "\<And>mg. mg \<in> set mgs \<Longrightarrow> managed_names (mg_marker mg) (mg_files mg) \<and> butlast q \<noteq> mg_dir mg"
  shows "ok m' \<and> files m' q = files m q"
  using assms
proof (induction mgs arbitrary: m)
  case (Cons mg mgs)
  obtain m1 where s: "h_sync h (mg_dir mg) (mg_marker mg) (mg_files mg) m = (m1, Inr ())"
    and run: "sync_all h mgs m1 = (m', Inr ())"
    using Cons.prems(1) by (auto simp: outcome_simps)
  have "files m1 q = files m q"
    using sync_done [OF Cons.prems(2) _ s] Cons.prems(3) [of mg] by (auto simp: synced_def)
  then show ?case using Cons.IH [OF run ok_steps(1) [OF Cons.prems(2) s]] Cons.prems(3) by auto
qed simp

lemma sync_all_done:
  assumes "sync_all h mgs m = (m', Inr ())" and "ok m" and "distinct (map mg_dir mgs)" and "mg \<in> set mgs"
    and "\<And>mg. mg \<in> set mgs \<Longrightarrow> managed_names (mg_marker mg) (mg_files mg)"
    and "butlast q = mg_dir mg"
  shows "ok m' \<and> files m' q = synced (mg_dir mg) (mg_marker mg) (mg_files mg) (files m) q"
  using assms(1-5)
proof (induction mgs arbitrary: m)
  case (Cons mg' mgs)
  obtain m1 where s: "h_sync h (mg_dir mg') (mg_marker mg') (mg_files mg') m = (m1, Inr ())"
    and run: "sync_all h mgs m1 = (m', Inr ())"
    using Cons.prems(1) by (auto simp: outcome_simps)
  have m1: "ok m1" by (rule ok_steps(1) [OF Cons.prems(2) s])
  have at: "files m1 q = synced (mg_dir mg') (mg_marker mg') (mg_files mg') (files m) q"
    using sync_done [OF Cons.prems(2) _ s] Cons.prems(5) [of mg'] by simp
  show ?case
  proof (cases "mg = mg'")
    case True
    have "ok m' \<and> files m' q = files m1 q"
    proof (rule sync_all_other [OF run m1])
      fix k assume "k \<in> set mgs"
      then show "managed_names (mg_marker k) (mg_files k) \<and> butlast q \<noteq> mg_dir k"
        using Cons.prems(3,5) assms(6) True by auto
    qed
    then show ?thesis using at True by simp
  next
    case False
    then have mem: "mg \<in> set mgs" using Cons.prems(4) by simp
    then have "butlast q \<noteq> mg_dir mg'" using Cons.prems(3) assms(6) by (auto simp: image_iff)
    then have "files m1 q = files m q" using at by (simp add: synced_def)
    then have "synced (mg_dir mg) (mg_marker mg) (mg_files mg) (files m1) q =
        synced (mg_dir mg) (mg_marker mg) (mg_files mg) (files m) q" by (rule synced_cong)
    then show ?thesis using Cons.IH [OF run m1 _ mem] Cons.prems(3,5) by simp
  qed
qed simp

lemma verified:
  assumes "ok m" and "\<And>p c. (p, c) \<in> set (all_files a) \<Longrightarrow> files m p = Some c"
    and "verify_files h a m = Inl e"
  shows "\<exists>he. e = ApplyHost he"
proof -
  have "verify_list h fs m = Inl e \<Longrightarrow> \<forall>(p, c) \<in> set fs. files m p = Some c \<Longrightarrow> \<exists>he. e = ApplyHost he" for fs
  proof (induction fs)
    case (Cons x fs)
    obtain p c where x: "x = (p, c)" by (cases x)
    then show ?case using Cons read_done [OF assms(1), of p] by (auto split: sum.splits option.splits if_splits)
  qed simp
  then show ?thesis using assms by (auto simp: verify_files_def)
qed

end

section \<open>The two hosts are such hosts\<close>

interpretation mock: file_host mock_host "\<lambda>m. bm_get (rc_files m)" UNIV "\<lambda>m. True"
proof unfold_locales
  fix marker fs dir m m' p
  assume n: "managed_names marker fs" and s: "h_sync mock_host dir marker fs m = (m', Inr ())"
  then show "bm_get (rc_files m') p = synced dir marker fs (bm_get (rc_files m)) p"
    using mock_sync_exact [OF n, of dir m] by (simp add: mock_host_def)
next
  fix p c m m'
  assume "h_write mock_host p c m = (m', Inr ())"
  then show "bm_get (rc_files m') p = Some c"
    by (auto simp: mock_host_def mock_write_def bm_get_insert)
qed (auto simp: mock_host_def mock_read_def mock_write_def bm_get_insert mock_run_def Let_def
    split: if_splits option.splits)

text \<open>
  Programs that leave a set of files alone, as \<open>hostnamectl\<close>, \<open>timedatectl\<close>, \<open>networkctl\<close> and the
  shadow tools do with unit files and \<open>resolv.conf\<close>.
\<close>

definition leaves_files :: "('b, 'w) programs \<Rightarrow> file_path set \<Rightarrow> bool" where
  "leaves_files programs kept \<longleftrightarrow>
     (\<forall>program arguments inp m m' r. programs program arguments inp m = (m', r) \<longrightarrow>
        (bm_ok (mc_disk m) \<longrightarrow> bm_ok (mc_disk m')) \<and>
        (\<forall>q \<in> kept. text_at (mc_disk m') q = text_at (mc_disk m) q))"

lemma real_run_program:
  assumes "h_run (real_host io programs) args m = (m', r) \<or>
    h_run_secret (real_host io programs) args s m = (m', r)"
  shows "m' = m \<or> (\<exists>program arguments inp r'. programs program arguments inp m = (m', r'))"
  using assms
  by (cases args; fastforce simp: real_host_def real_run_def real_run_secret_def Let_def
      split: prod.splits sum.splits trouble.splits if_splits)

lemma real_run_leaves:
  assumes programs: "leaves_files programs kept"
    and run: "h_run (real_host io programs) args m = (m', r) \<or>
      h_run_secret (real_host io programs) args s m = (m', r)"
  shows "bm_ok (mc_disk m) \<Longrightarrow> bm_ok (mc_disk m')"
    and "q \<in> kept \<Longrightarrow> text_at (mc_disk m') q = text_at (mc_disk m) q"
proof -
  consider "m' = m" | program arguments inp r' where "programs program arguments inp m = (m', r')"
    using real_run_program [OF run] by blast
  note this [case_names same ran]
  then show "bm_ok (mc_disk m) \<Longrightarrow> bm_ok (mc_disk m')"
    "q \<in> kept \<Longrightarrow> text_at (mc_disk m') q = text_at (mc_disk m) q"
    using programs unfolding leaves_files_def by (cases, simp, blast)+
qed

lemma real_write_done:
  assumes "real_write io p c d = (d', Inr ())" and "with_extension p ''ns-new'' \<noteq> p"
  shows "text_at d' p = Some c"
proof -
  have "write_atomically io p c d = (d', Inr ())"
    using assms(1) by (auto simp: real_write_def split: sum.splits)
  then show ?thesis
    using write_atomically_target [of io p c d d' "Inr ()"] assms(2) by (auto simp: text_at_def)
qed

lemma real_write_leaves:
  assumes "real_write io p c d = (d', r)" and "q \<noteq> p" and "q \<noteq> with_extension p ''ns-new''"
  shows "text_at d' q = text_at d q"
proof -
  have "d' = d \<or> write_atomically io p c d = (d', r)"
    using assms(1) by (auto simp: real_write_def split: sum.splits if_splits)
  then show ?thesis
    using write_atomically_leaves [OF _ assms(2,3), of io c d d' r] by (auto simp: text_at_def)
qed

lemma real_read_done: "real_read io p d = Inr x \<Longrightarrow> x = text_at d p"
  by (cases "fails io (ReadFile p)"; cases "bm_get d p"; cases "f_data (the (bm_get d p))")
    (auto simp: real_read_def fs_read_text_def fs_read_def text_at_def)

lemma h_read_real: "h_read (real_host io programs) p m = real_read io p (mc_disk m)"
  by (simp add: real_host_def)

lemma real_file_host:
  assumes io: "lists_all io" and programs: "leaves_files programs kept"
  shows "file_host (real_host io programs) (\<lambda>m. text_at (mc_disk m)) kept (\<lambda>m. bm_ok (mc_disk m))"
proof (unfold_locales, goal_cases)
  case (1 m marker fs dir m' p)
  then obtain d' where "real_sync io dir marker fs (mc_disk m) = (d', Inr ())" "m' = m\<lparr>mc_disk := d'\<rparr>"
    by (auto simp: real_host_def on_disk_def split: prod.splits)
  then show ?case using real_sync_synced [OF 1(2) io 1(1)] by simp
next
  case (2 m p c m')
  then obtain d' where "real_write io p c (mc_disk m) = (d', Inr ())" "m' = m\<lparr>mc_disk := d'\<rparr>"
    by (auto simp: real_host_def on_disk_def split: prod.splits)
  then show ?case using real_write_done 2(3) by simp
next
  case (3 m p c m' r q)
  then obtain d' where "real_write io p c (mc_disk m) = (d', r)" "m' = m\<lparr>mc_disk := d'\<rparr>"
    by (auto simp: real_host_def on_disk_def split: prod.splits)
  then show ?case using real_write_leaves [OF _ 3(3,4)] by simp
next
  case (4 m p x)
  then show ?case unfolding h_read_real by (intro real_read_done)
next
  case (5 m q args m' r)
  then show ?case by (intro real_run_leaves(2) [OF programs disjI1 [OF 5(3)] 5(2)])
next
  case (6 m q args s m' r)
  then show ?case by (intro real_run_leaves(2) [OF programs disjI2 [OF 6(3)] 6(2)])
next
  case (7 m dir marker fs m' r)
  then show ?case using real_sync_bm_ok by (fastforce simp: real_host_def on_disk_def split: prod.splits)
next
  case (8 m p c m' r)
  then show ?case
    using write_atomically_bm_ok
    by (fastforce simp: real_host_def on_disk_def real_write_def split: prod.splits sum.splits)
next
  case (9 m args m' r)
  then show ?case by (intro real_run_leaves(1) [OF programs disjI1 [OF 9(2)] 9(1)])
next
  case (10 m args s m' r)
  then show ?case by (intro real_run_leaves(1) [OF programs disjI2 [OF 10(2)] 10(1)])
qed

end
