(* ===== verification/System_Renderer.thy ===== *)
theory System_Renderer
  imports Applying
begin

text \<open>
  \<open>src/nightshade-render/src/system.rs\<close>: the host name, the resolvers and the time zone, and the one
  line of \<open>/etc/hosts\<close> that belongs to the host name.
\<close>

section \<open>The renderer\<close>

definition RESOLV_HEADER :: string where
  "RESOLV_HEADER =
     ''# Managed by Nightshade. Do not edit.'' @ [newline] @ ''#'' @ [newline] @
     ''# Generated from `set system name-server` in /etc/nightshade/config.boot.'' @ [newline] @
     ''# Changes made here are lost on the next commit.'' @ [newline]"

definition HOSTS_MARKER :: string where
  "HOSTS_MARKER = ''# nightshade hostname''"

definition system_value :: "config_tree \<Rightarrow> string \<Rightarrow> string option" where
  "system_value t s =
     (case path_parse s of
        Inl e \<Rightarrow> None
      | Inr p \<Rightarrow> Option.bind (tree_get p t) node_value)"

definition resolv_text :: "string option \<Rightarrow> string list \<Rightarrow> string" where
  "resolv_text domain servers =
     RESOLV_HEADER @ (case domain of Some d \<Rightarrow> ''search '' @ d @ [newline] | None \<Rightarrow> []) @
     concat (map (\<lambda>server. ''nameserver '' @ server @ [newline]) servers)"

definition system_render :: "paths \<Rightarrow> config_tree \<Rightarrow> render_error + artifacts" where
  "system_render ps t =
     (let host_name = system_value t ''system host-name'';
          servers = (case values_at [''system'', ''name-server''] t of Some vs \<Rightarrow> vs | None \<Rightarrow> []);
          domain = system_value t ''system domain-name''
      in Inr \<lparr>ar_managed = [],
           ar_files = [(resolv_conf ps, resolv_text domain servers)],
           ar_actions =
             (case host_name of Some name \<Rightarrow> [SetHostName name domain] | None \<Rightarrow> []) @
             (case system_value t ''system time-zone'' of Some zone \<Rightarrow> [SetTimeZone zone] | None \<Rightarrow> [])\<rparr>)"

fun action_key :: "action \<Rightarrow> string option" where
  "action_key (SetHostName name domain) = Some ''host-name''"
| "action_key (SetTimeZone zone) = Some ''time-zone''"
| "action_key _ = None"

fun check_twice :: "string list \<Rightarrow> action list \<Rightarrow> render_error + unit" where
  "check_twice seen [] = Inr ()"
| "check_twice seen (a # as) =
     (case action_key a of
        None \<Rightarrow> check_twice seen as
      | Some key \<Rightarrow>
          if key \<in> set seen then Inl (Inconsistent ''system'' (key @ '' was rendered more than once''))
          else check_twice (bs_insert key seen) as)"

definition system_check :: "artifacts \<Rightarrow> render_error + unit" where
  "system_check a = check_twice [] (ar_actions a)"

definition marked :: "string \<Rightarrow> bool" where
  "marked l \<longleftrightarrow> ends_with (trim_end l) HOSTS_MARKER"

definition hosts_line :: "string \<Rightarrow> string option \<Rightarrow> string" where
  "hosts_line name domain =
     ''127.0.1.1'' @ [CHR 0x09] @
     (case domain of Some d \<Rightarrow> name @ ''.'' @ d @ [CHR 0x09] @ name | None \<Rightarrow> name) @
     [CHR 0x09] @ HOSTS_MARKER"

definition hosts_text :: "string \<Rightarrow> string \<Rightarrow> string option \<Rightarrow> string" where
  "hosts_text existing name domain =
     join [newline] (filter (\<lambda>l. \<not> marked l) (text_lines existing) @ [hosts_line name domain]) @ [newline]"

definition update_hosts :: "'m host \<Rightarrow> paths \<Rightarrow> string \<Rightarrow> string option \<Rightarrow> 'm \<Rightarrow> 'm outcome" where
  "update_hosts h ps name domain m =
     (case h_read h (hosts ps) m of
        Inl e \<Rightarrow> (m, Inl (ApplyHost e))
      | Inr found \<Rightarrow>
          lift_host (h_write h (hosts ps)
            (hosts_text (case found of None \<Rightarrow> [] | Some s \<Rightarrow> s) name domain) m))"

fun system_actions :: "'m host \<Rightarrow> paths \<Rightarrow> action list \<Rightarrow> 'm \<Rightarrow> 'm outcome" where
  "system_actions h ps [] m = (m, Inr ())"
| "system_actions h ps (a # as) m =
     and_then
       (and_then (case a of SetHostName name domain \<Rightarrow> update_hosts h ps name domain m | _ \<Rightarrow> (m, Inr ()))
         (\<lambda>m. case argv a of Some args \<Rightarrow> lift_host (h_run h args m) | None \<Rightarrow> (m, Inr ())))
       (system_actions h ps as)"

definition system_apply :: "'m host \<Rightarrow> paths \<Rightarrow> artifacts \<Rightarrow> 'm \<Rightarrow> 'm outcome" where
  "system_apply h ps a m = and_then (write_all h (ar_files a) m) (system_actions h ps (ar_actions a))"

definition system_renderer :: "(artifacts, string) codec \<Rightarrow> 'm host \<Rightarrow> paths \<Rightarrow> 'm renderer" where
  "system_renderer c h ps =
     (let la = last_applied_new (last_applied_dir ps) ''system''
      in \<lparr>r_name = ''system'', r_owns = [''system''], r_render = system_render ps,
          r_check = (\<lambda>a m. system_check a), r_apply = system_apply h ps, r_verify = verify_files h,
          r_previous = last_applied_load c h la, r_remember = last_applied_save c h la\<rparr>)"

section \<open>The line of the hosts file\<close>

lemma text_lines_join:
  "\<forall>l \<in> set ls. newline \<notin> set l \<and> CHR 0x0D \<notin> set l \<Longrightarrow> ls \<noteq> [] \<Longrightarrow> text_lines (join [newline] ls @ [newline]) = ls"
proof (induction "[newline]" ls rule: join.induct)
  case (2 x)
  then have "strip_cr x = x" by (auto simp: strip_cr_def dest: last_in_set)
  then show ?case using 2 text_lines_line [of x "[]"] by simp
next
  case (3 x y ys)
  then have "strip_cr x = x" by (auto simp: strip_cr_def dest: last_in_set)
  then show ?case using 3 text_lines_line [of x "join [newline] (y # ys) @ [newline]"] by simp
qed simp

lemma text_lines_no_cr: "CHR 0x0D \<notin> set s \<Longrightarrow> l \<in> set (text_lines s) \<Longrightarrow> CHR 0x0D \<notin> set l"
proof -
  assume s: "CHR 0x0D \<notin> set s" and l: "l \<in> set (text_lines s)"
  have piece: "set w \<subseteq> set s" if "w \<in> set (split_on newline s)" for w
    using that
  proof (induction s arbitrary: w)
    case (Cons c cs)
    obtain v vs where vs: "split_on newline cs = v # vs" by (cases "split_on newline cs") auto
    with Cons.IH have "\<forall>w \<in> set (v # vs). set w \<subseteq> set cs" by simp
    then show ?case using Cons.prems vs by (auto split: if_splits)
  qed simp
  have "l \<in> strip_cr ` set (butlast (split_on newline s)) \<or> l = last (split_on newline s)"
    using l by (auto simp: text_lines_def Let_def split: if_splits)
  then obtain w where w: "w \<in> set (split_on newline s)" "l = w \<or> l = strip_cr w"
    using in_set_butlastD last_in_set [of "split_on newline s"] by fastforce
  moreover have "set (strip_cr w) \<subseteq> set w" by (auto simp: strip_cr_def dest: in_set_butlastD)
  ultimately show ?thesis using piece s by blast
qed

lemma marked_hosts_line: "marked (hosts_line name domain)"
proof -
  have "trim_end (s @ HOSTS_MARKER) = s @ HOSTS_MARKER" for s
    by (simp add: trim_end_def trim_end_by_def HOSTS_MARKER_def char_class code_def)
  then show ?thesis
    by (simp add: marked_def hosts_line_def ends_with_iff)
      (metis append.assoc append_Cons append_Nil)
qed

text \<open>
  The hosts file gets exactly one line from the program, the last one; every other line stays, in
  its place. Writing it again, under the same name or another, is the same as writing it once.
\<close>

lemma hosts_maintained:
  assumes plain: "CHR 0x0D \<notin> set existing" "newline \<notin> set name" "CHR 0x0D \<notin> set name"
    and domain: "\<And>d. domain = Some d \<Longrightarrow> newline \<notin> set d \<and> CHR 0x0D \<notin> set d"
  shows "text_lines (hosts_text existing name domain) =
      filter (\<lambda>l. \<not> marked l) (text_lines existing) @ [hosts_line name domain] \<and>
    filter marked (text_lines (hosts_text existing name domain)) = [hosts_line name domain] \<and>
    hosts_text (hosts_text existing name domain) name' domain' = hosts_text existing name' domain'"
proof -
  have "newline \<notin> set (hosts_line name domain) \<and> CHR 0x0D \<notin> set (hosts_line name domain)"
    using plain domain by (cases domain) (auto simp: hosts_line_def HOSTS_MARKER_def)
  then have ls: "text_lines (hosts_text existing name domain) =
      filter (\<lambda>l. \<not> marked l) (text_lines existing) @ [hosts_line name domain]"
    unfolding hosts_text_def using text_lines_no_newline text_lines_no_cr [OF plain(1)]
    by (intro text_lines_join) auto
  then have "filter (\<lambda>l. \<not> marked l) (text_lines (hosts_text existing name domain)) =
      filter (\<lambda>l. \<not> marked l) (text_lines existing)"
    by (simp add: marked_hosts_line)
  then show ?thesis
    using ls by (simp add: hosts_text_def marked_hosts_line)
qed

end
