(* ===== verification/Login_Renderer.thy ===== *)
theory Login_Renderer
  imports Applying
begin

text \<open>
  \<open>src/nightshade-render/src/login.rs\<close>: the accounts, which are managed by running the shadow tools.
\<close>

section \<open>The renderer\<close>

definition NEVER_MANAGED :: "string list" where
  "NEVER_MANAGED =
     [''root'', ''daemon'', ''bin'', ''sys'', ''sync'', ''games'', ''man'', ''lp'', ''mail'', ''news'',
      ''uucp'', ''proxy'', ''backup'', ''list'', ''irc'', ''nobody'', ''systemd-network'',
      ''systemd-resolve'', ''messagebus'', ''sshd'']"

definition users :: "config_tree \<Rightarrow> kids" where
  "users t =
     (case Option.bind (tree_get [''system'', ''login'', ''user''] t) node_children of
        None \<Rightarrow> [] | Some m \<Rightarrow> m)"

definition named :: "artifacts \<Rightarrow> string list" where
  "named a = bs_from (List.map_filter
     (\<lambda>act. case act of EnsureAccount name full_name \<Rightarrow> Some name | _ \<Rightarrow> None) (ar_actions a))"

definition full_name_of :: "node \<Rightarrow> string option" where
  "full_name_of n =
     Option.bind (node_children n) (\<lambda>c. Option.bind (bm_get c ''full-name'') node_value)"

definition hash_of :: "node \<Rightarrow> string option" where
  "hash_of n =
     Option.bind (node_children n) (\<lambda>c.
       Option.bind (bm_get c ''authentication'') (\<lambda>n'.
         Option.bind (node_children n') (\<lambda>c'.
           Option.bind (bm_get c' ''encrypted-password'') node_value)))"

definition user_actions :: "string \<times> node \<Rightarrow> action list" where
  "user_actions x =
     (case x of (name, n) \<Rightarrow>
        EnsureAccount name (full_name_of n) #
        (case hash_of n of Some hash \<Rightarrow> [SetPassword name hash] | None \<Rightarrow> []))"

definition login_render :: "config_tree \<Rightarrow> render_error + artifacts" where
  "login_render t =
     Inr \<lparr>ar_managed = [], ar_files = [], ar_actions = concat (map user_actions (users t))\<rparr>"

definition usable :: "artifacts \<Rightarrow> string list" where
  "usable a = bs_from (List.map_filter
     (\<lambda>act. case act of
        SetPassword name hash \<Rightarrow> if hash \<noteq> ''!'' \<and> hash \<noteq> ''*'' then Some name else None
      | _ \<Rightarrow> None) (ar_actions a))"

definition nobody_could_log_in :: string where
  "nobody_could_log_in =
     ''no configured account has a password, so nobody could log in; '' @
     ''root is locked on this system and the console is the only way in''"

definition login_check :: "artifacts \<Rightarrow> render_error + unit" where
  "login_check a =
     (case find (\<lambda>name. name \<in> set NEVER_MANAGED) (named a) of
        Some name \<Rightarrow>
          Inl (Inconsistent ''login'' (''`'' @ name @ ''` is a system account and is not configurable here''))
      | None \<Rightarrow>
          if named a \<noteq> [] \<and> usable a = [] then Inl (Inconsistent ''login'' nobody_could_log_in)
          else Inr ())"

definition removals :: "artifacts option \<Rightarrow> artifacts \<Rightarrow> action list" where
  "removals previous next_a =
     map RemoveAccount (filter (\<lambda>name. name \<notin> set (named next_a))
       (case previous of None \<Rightarrow> [] | Some a \<Rightarrow> named a))"

fun login_actions :: "'m host \<Rightarrow> action list \<Rightarrow> 'm \<Rightarrow> 'm outcome" where
  "login_actions h [] m = (m, Inr ())"
| "login_actions h (SetPassword name hash # as) m =
     and_then
       (case argv (SetPassword name hash) of
          Some args \<Rightarrow> lift_host (h_run_secret h args (name @ '':'' @ hash @ [newline]) m)
        | None \<Rightarrow> (m, Inr ()))
       (login_actions h as)"
| "login_actions h (a # as) m =
     and_then (case argv a of Some args \<Rightarrow> lift_host (h_run h args m) | None \<Rightarrow> (m, Inr ()))
       (login_actions h as)"

definition login_previous :: "(artifacts, string) codec \<Rightarrow> 'm host \<Rightarrow> paths \<Rightarrow> 'm \<Rightarrow> artifacts option" where
  "login_previous c h ps = last_applied_load c h (last_applied_new (last_applied_dir ps) ''login'')"

definition login_apply :: "(artifacts, string) codec \<Rightarrow> 'm host \<Rightarrow> paths \<Rightarrow> artifacts \<Rightarrow> 'm \<Rightarrow> 'm outcome" where
  "login_apply c h ps a m =
     and_then (login_actions h (ar_actions a) m)
       (\<lambda>m'. run_all h (removals (login_previous c h ps m') a) m')"

definition login_renderer :: "(artifacts, string) codec \<Rightarrow> 'm host \<Rightarrow> paths \<Rightarrow> 'm renderer" where
  "login_renderer c h ps =
     \<lparr>r_name = ''login'', r_owns = [''system'', ''login''], r_render = login_render,
      r_check = (\<lambda>a m. login_check a), r_apply = login_apply c h ps, r_verify = (\<lambda>a m. Inr ()),
      r_previous = login_previous c h ps,
      r_remember = last_applied_save c h (last_applied_new (last_applied_dir ps) ''login'')\<rparr>"

section \<open>Who may log in\<close>

lemma rendered_actions:
  assumes "login_render t = Inr a"
  shows "act \<in> set (ar_actions a) \<longleftrightarrow>
    (\<exists>(name, n) \<in> set (users t). act = EnsureAccount name (full_name_of n) \<or>
       (\<exists>hash. hash_of n = Some hash \<and> act = SetPassword name hash))"
  using assms by (force simp: login_render_def user_actions_def split: option.splits)

lemma mem_named: "x \<in> set (named a) \<longleftrightarrow> (\<exists>f. EnsureAccount x f \<in> set (ar_actions a))"
proof -
  have "(case act of EnsureAccount name f \<Rightarrow> Some name | _ \<Rightarrow> None) = Some x \<longleftrightarrow>
      (\<exists>f. act = EnsureAccount x f)" for act
    by (cases act) auto
  then show ?thesis unfolding named_def bs_set_from mem_map_filter by simp blast
qed

lemma mem_usable: "x \<in> set (usable a) \<longleftrightarrow>
  (\<exists>hash. SetPassword x hash \<in> set (ar_actions a) \<and> hash \<noteq> ''!'' \<and> hash \<noteq> ''*'')"
proof -
  have "(case act of SetPassword name hash \<Rightarrow> if hash \<noteq> ''!'' \<and> hash \<noteq> ''*'' then Some name else None
      | _ \<Rightarrow> None) = Some x \<longleftrightarrow> (\<exists>hash. act = SetPassword x hash \<and> hash \<noteq> ''!'' \<and> hash \<noteq> ''*'')" for act
    by (cases act) auto
  then show ?thesis unfolding usable_def bs_set_from mem_map_filter by simp blast
qed

lemma named_rendered:
  assumes "login_render t = Inr a"
  shows "set (named a) = fst ` set (users t)"
proof (intro set_eqI)
  fix x
  show "x \<in> set (named a) \<longleftrightarrow> x \<in> fst ` set (users t)"
    by (simp only: mem_named rendered_actions [OF assms]) force
qed

lemma usable_rendered:
  assumes "login_render t = Inr a"
  shows "name \<in> set (usable a) \<longleftrightarrow> (\<exists>n hash. (name, n) \<in> set (users t) \<and> hash_of n = Some hash \<and>
    hash \<noteq> ''!'' \<and> hash \<noteq> ''*'')"
  by (simp only: mem_usable rendered_actions [OF assms]) blast

text \<open>
  A configuration of accounts is accepted exactly when it names no account of the system and,
  if it names any account at all, gives one of them a password that can be used.
\<close>

lemma login_check_exact:
  assumes "login_render t = Inr a"
  shows "login_check a = Inr () \<longleftrightarrow>
    (\<forall>(name, n) \<in> set (users t). name \<notin> set NEVER_MANAGED) \<and>
    (users t = [] \<or> (\<exists>(name, n) \<in> set (users t). \<exists>hash. hash_of n = Some hash \<and> hash \<noteq> ''!'' \<and> hash \<noteq> ''*''))"
proof -
  have "named a = [] \<longleftrightarrow> users t = []" using named_rendered [OF assms] by (metis image_is_empty set_empty)
  moreover have "usable a = [] \<longleftrightarrow> \<not> (\<exists>(name, n) \<in> set (users t). \<exists>hash. hash_of n = Some hash \<and>
      hash \<noteq> ''!'' \<and> hash \<noteq> ''*'')"
  proof -
    have "usable a = [] \<longleftrightarrow> (\<forall>name. name \<notin> set (usable a))" by (cases "usable a") auto
    then show ?thesis by (simp only: usable_rendered [OF assms]) blast
  qed
  moreover have "find (\<lambda>name. name \<in> set NEVER_MANAGED) (named a) = None \<longleftrightarrow>
      (\<forall>(name, n) \<in> set (users t). name \<notin> set NEVER_MANAGED)"
    by (simp only: find_None_iff named_rendered [OF assms]) auto
  ultimately show ?thesis
    by (cases "find (\<lambda>name. name \<in> set NEVER_MANAGED) (named a)") (simp_all add: login_check_def)
qed

section \<open>Passwords stay off command lines\<close>

fun mask :: "action \<Rightarrow> action" where
  "mask (SetPassword name hash) = SetPassword name []"
| "mask a = a"

definition masked :: "artifacts \<Rightarrow> artifacts" where
  "masked a = a\<lparr>ar_actions := map mask (ar_actions a)\<rparr>"

definition hides_input :: "'m host \<Rightarrow> bool" where
  "hides_input h \<longleftrightarrow> (\<forall>args s s' m. h_run_secret h args s m = h_run_secret h args s' m)"

lemma login_actions_masked:
  "hides_input h \<Longrightarrow> login_actions h (map mask as) m = login_actions h as m"
proof (induction h as m rule: login_actions.induct)
  case (2 h name hash as m)
  then have "h_run_secret h [''chpasswd'', ''-e''] (name @ '':'' @ hash @ [newline]) m =
      h_run_secret h [''chpasswd'', ''-e''] (name @ '':'' @ [newline]) m"
    unfolding hides_input_def by blast
  moreover have "login_actions h (map mask as) = login_actions h as" using 2 by (intro ext) blast
  ultimately show ?case by simp
next
  case 1
  then show ?case by simp
qed (auto simp: and_then_def split: prod.splits sum.splits)

lemma named_masked: "named (masked a) = named a"
proof -
  have "List.map_filter f (map mask as) = List.map_filter f as"
    if "f = (\<lambda>act. case act of EnsureAccount name full_name \<Rightarrow> Some name | _ \<Rightarrow> None)" for as f
  proof (induction as)
    case (Cons x as)
    then show ?case using that by (cases x) (auto simp: map_filter_def)
  qed (simp add: map_filter_def)
  then show ?thesis by (simp add: named_def masked_def)
qed

text \<open>
  C17. A password reaches the machine through the input of \<open>chpasswd\<close> only: on a host that shows
  nothing of a program's input, applying an account configuration does exactly what applying it with
  every password blanked does. No command line, error or record of the host depends on a password.
\<close>

theorem passwords_stay_hidden:
  assumes "hides_input h"
  shows "login_apply c h ps (masked a) m = login_apply c h ps a m"
  using login_actions_masked [OF assms, of "ar_actions a" m]
  by (simp add: login_apply_def removals_def named_masked) (simp add: masked_def)

section \<open>What is run\<close>

lemma mock_run_done:
  "mock_run args m = (m', Inr u) \<Longrightarrow>
   rc_ops m' = rc_ops m @ [OpRun args] \<and> rc_files m' = rc_files m"
  by (auto simp: mock_run_def Let_def split: if_splits option.splits)

lemma mock_runs:
  "h_run mock_host = mock_run" "h_run_secret mock_host args s = mock_run args"
  by (simp_all add: mock_host_def)

lemma run_all_mock:
  "run_all mock_host as m = (m', Inr ()) \<Longrightarrow>
   rc_ops m' = rc_ops m @ map (\<lambda>a. OpRun (the (argv a))) as \<and> rc_files m' = rc_files m"
proof (induction as arbitrary: m)
  case (Cons a as)
  obtain args where args: "argv a = Some args" by (cases a) auto
  obtain m1 where "mock_run args m = (m1, Inr ())" "run_all mock_host as m1 = (m', Inr ())"
    using Cons.prems by (auto simp: args outcome_simps mock_runs)
  then show ?case using Cons.IH [of m1] mock_run_done [of args m m1] args by auto
qed simp

lemma login_actions_mock:
  "login_actions mock_host as m = (m', Inr ()) \<Longrightarrow>
   rc_ops m' = rc_ops m @ map (\<lambda>a. OpRun (the (argv a))) as \<and> rc_files m' = rc_files m"
proof (induction as arbitrary: m)
  case (Cons a as)
  obtain args where args: "argv a = Some args" by (cases a) auto
  obtain m1 where "mock_run args m = (m1, Inr ())" "login_actions mock_host as m1 = (m', Inr ())"
    using Cons.prems args by (cases a) (auto simp: outcome_simps mock_runs)
  then show ?case using Cons.IH [of m1] mock_run_done [of args m m1] args by auto
qed simp

text \<open>
  C16. An apply that succeeds runs the command of every account action in order and then, last, one
  \<open>userdel\<close> for each account the previous configuration named and this one does not. So a
  configuration that names no account, which the check accepts, removes all of them.
\<close>

theorem login_runs_exactly:
  assumes "login_apply c mock_host ps a m = (m', Inr ())"
  shows "rc_ops m' = rc_ops m @ map (\<lambda>act. OpRun (the (argv act))) (ar_actions a) @
      map (\<lambda>name. OpRun [''userdel'', name])
        (filter (\<lambda>name. name \<notin> set (named a))
          (case login_previous c mock_host ps m of None \<Rightarrow> [] | Some old \<Rightarrow> named old))"
proof -
  obtain m1 where m1: "login_actions mock_host (ar_actions a) m = (m1, Inr ())"
    and run: "run_all mock_host (removals (login_previous c mock_host ps m1) a) m1 = (m', Inr ())"
    using assms by (auto simp: login_apply_def outcome_simps)
  have "login_previous c mock_host ps m1 = login_previous c mock_host ps m"
    using login_actions_mock [OF m1]
    by (simp add: login_previous_def last_applied_load_def mock_host_def mock_read_def)
  then show ?thesis
    using login_actions_mock [OF m1] run_all_mock [OF run] by (simp add: removals_def comp_def)
qed

section \<open>Two administrators and an empty configuration\<close>

text \<open>A codec for the witnesses, which only knows one set of artifacts.\<close>

definition two_admins :: artifacts where
  "two_admins = \<lparr>ar_managed = [], ar_files = [], ar_actions =
     [EnsureAccount ''ada'' None, SetPassword ''ada'' ''$6$x'', EnsureAccount ''bob'' None]\<rparr>"

definition one_codec :: "(artifacts, string) codec" where
  "one_codec = \<lparr>enc = (\<lambda>a. ''admins''), dec = (\<lambda>s. if s = ''admins'' then Inr two_admins else Inl ''bad'')\<rparr>"

definition admin_host :: recorded where
  "admin_host = mock_new\<lparr>rc_files := [([''var'', ''lib'', ''nightshade'', ''last-applied'', ''login.json''], ''admins'')]\<rparr>"

definition login_tree :: "string \<Rightarrow> config_tree" where
  "login_tree hash = \<lparr>root = Node None (Interior [(''system'', Node None (Interior [(''login'',
     Node None (Interior [(''user'', Node None (Interior [(''ada'', Node None (Interior
       [(''authentication'', Node None (Interior [(''encrypted-password'', node_values [hash])]))]))]))]))]))])\<rparr>"

theorem passwords_stay_hidden_witness:
  "login_apply one_codec mock_host paths_system (masked two_admins) admin_host =
   login_apply one_codec mock_host paths_system two_admins admin_host"
  by (rule passwords_stay_hidden) (simp add: hides_input_def mock_host_def)

theorem login_runs_exactly_witness:
  "rc_ops (fst (login_apply one_codec mock_host paths_system
      \<lparr>ar_managed = [], ar_files = [], ar_actions = []\<rparr> admin_host)) =
   [OpRun [''userdel'', ''ada''], OpRun [''userdel'', ''bob'']]"
proof -
  let ?a = "\<lparr>ar_managed = [], ar_files = [], ar_actions = []\<rparr>"
  have prev: "login_previous one_codec mock_host paths_system admin_host = Some two_admins"
    by (simp add: login_previous_def last_applied_load_def last_applied_new_def mock_host_def mock_read_def
        admin_host_def mock_new_def rendered_paths path_join_name paths_system_def one_codec_def)
  have named: "named two_admins = [''ada'', ''bob'']" "named ?a = []"
    by (simp_all add: named_def two_admins_def map_filter_def bs_from_def)
  have calm: "rc_fail_matching admin_host = None" by (simp add: admin_host_def mock_new_def)
  obtain m' where "login_apply one_codec mock_host paths_system ?a admin_host = (m', Inr ())"
    by (simp add: login_apply_def prev removals_def named and_then_def lift_host_def mock_runs mock_run_def
        calm)
  with login_runs_exactly [OF this] prev named show ?thesis
    by (simp add: admin_host_def mock_new_def)
qed

end
