(* ===== verification/Ini.thy ===== *)
theory Ini
  imports Text_Lines Ordered_Map
begin

text \<open>
  \<open>src/nightshade-render/src/ini.rs\<close>, the writer of systemd unit files, with the reader of
  \<open>networkd.rs\<close> that reads its output back. A \<open>&mut Ini\<close> method returns the changed writer.
\<close>

section \<open>The writer\<close>

definition managed_header :: string where
  "managed_header =
     ''# Managed by Nightshade. Do not edit.'' @ [newline] @ ''#'' @ [newline] @
     ''# This file is generated from /etc/nightshade/config.boot and is rewritten on'' @ [newline] @
     ''# every commit. Changes made here are lost, and are not part of the config the'' @ [newline] @
     ''# next boot will apply.'' @ [newline]"

record ini =
  in_out :: string
  in_pending :: "string option"
  in_wrote_any :: bool

definition ini_new :: ini where
  "ini_new = \<lparr>in_out = managed_header, in_pending = None, in_wrote_any = False\<rparr>"

definition ini_section :: "string \<Rightarrow> ini \<Rightarrow> ini" where
  "ini_section s i = i\<lparr>in_pending := Some s\<rparr>"

definition ini_key :: "string \<Rightarrow> string \<Rightarrow> ini \<Rightarrow> ini" where
  "ini_key k v i =
     (let out = (case in_pending i of
                   Some s \<Rightarrow> in_out i @ [newline] @ ''['' @ s @ '']'' @ [newline]
                 | None \<Rightarrow> in_out i)
      in i\<lparr>in_out := out @ k @ ''='' @ v @ [newline], in_pending := None, in_wrote_any := True\<rparr>)"

definition ini_maybe :: "string \<Rightarrow> string option \<Rightarrow> ini \<Rightarrow> ini" where
  "ini_maybe k v i = (case v of Some v \<Rightarrow> ini_key k v i | None \<Rightarrow> i)"

definition ini_each :: "string \<Rightarrow> string list \<Rightarrow> ini \<Rightarrow> ini" where
  "ini_each k vs i = fold (ini_key k) vs i"

definition ini_flag :: "string \<Rightarrow> bool \<Rightarrow> ini \<Rightarrow> ini" where
  "ini_flag k set_p i = ini_key k (if set_p then ''yes'' else ''no'') i"

definition ini_finish :: "ini \<Rightarrow> string" where
  "ini_finish i = in_out i"

section \<open>The reader\<close>

type_synonym settings = "((string \<times> string) \<times> string list) list"

definition push_value :: "string \<times> string \<Rightarrow> string \<Rightarrow> settings \<Rightarrow> settings" where
  "push_value key v out =
     bm_insert key ((case bm_get out key of None \<Rightarrow> [] | Some vs \<Rightarrow> vs) @ [v]) out"

definition settings_step :: "string \<Rightarrow> string \<times> settings \<Rightarrow> string \<times> settings" where
  "settings_step raw st =
     (case st of (sec, out) \<Rightarrow>
        let l = trim raw in
        if l = [] \<or> starts_with l ''#'' then (sec, out)
        else
          (case Option.bind (strip_prefix ''['' l) (strip_suffix '']'') of
             Some name \<Rightarrow> (name, out)
           | None \<Rightarrow>
               (case split_once (CHR ''='') l of
                  Some (k, v) \<Rightarrow> (sec, push_value (sec, trim k) (trim v) out)
                | None \<Rightarrow> (sec, out))))"

definition settings :: "string \<Rightarrow> settings" where
  "settings text = snd (fold settings_step (text_lines text) ([], []))"

section \<open>What is written is read back\<close>

text \<open>
  A document is its \<open>(section, key, value)\<close> lines in order. \<open>says i cur doc\<close>: the writer \<open>i\<close> is in
  section \<open>cur\<close> and what it has written reads as \<open>doc\<close>.
\<close>

type_synonym doc = "(string \<times> string \<times> string) list"

definition vals :: "doc \<Rightarrow> string \<times> string \<Rightarrow> string list" where
  "vals doc key = map (\<lambda>(s, k, v). trim v) (filter (\<lambda>(s, k, v). (s, k) = key) doc)"

definition lookup_doc :: "doc \<Rightarrow> string \<times> string \<Rightarrow> string list option" where
  "lookup_doc doc key = (if vals doc key = [] then None else Some (vals doc key))"

definition plain_word :: "string \<Rightarrow> bool" where
  "plain_word s \<longleftrightarrow> s \<noteq> [] \<and> (\<forall>c \<in> set s. is_ascii_alphanumeric c)"

definition reads :: "ini \<Rightarrow> string \<times> settings" where
  "reads i = fold settings_step (text_lines (in_out i)) ([], [])"

definition says :: "ini \<Rightarrow> string \<Rightarrow> doc \<Rightarrow> bool" where
  "says i cur doc \<longleftrightarrow>
     whole_lines (in_out i) \<and>
     (case in_pending i of None \<Rightarrow> fst (reads i) = cur | Some s \<Rightarrow> s = cur \<and> plain_word s) \<and>
     bm_ok (snd (reads i)) \<and> bm_get (snd (reads i)) = lookup_doc doc"

lemma word_char: "plain_word s \<Longrightarrow> c \<in> set s \<Longrightarrow>
  \<not> is_whitespace c \<and> c \<notin> {CHR ''='', CHR ''['', CHR '']'', CHR ''#'', newline, CHR 0x0D}"
  by (force simp: plain_word_def char_class code_def)

lemma trim_word:
  assumes "plain_word s"
  shows "trim s = s"
proof (rule trim_plain)
  have "s \<noteq> []" using assms by (simp add: plain_word_def)
  then show "s = [] \<or> \<not> is_whitespace (hd s) \<and> \<not> is_whitespace (last s)"
    using word_char [OF assms] by simp
qed

lemma trim_end_by_append:
  "trim_end_by p (s @ t) = (if \<forall>c \<in> set t. p c then trim_end_by p s else s @ trim_end_by p t)"
  by (auto simp: trim_end_by_def dropWhile_append)

lemma trim_end_by_kept: "\<exists>c \<in> set s. \<not> p c \<Longrightarrow> trim_end_by p (s @ t) = s @ trim_end_by p t \<or>
   (\<forall>c \<in> set t. p c) \<and> trim_end_by p (s @ t) = trim_end_by p s"
  by (auto simp: trim_end_by_append)

lemma trim_key_line:
  assumes "plain_word k"
  shows "trim (k @ CHR ''='' # v) = k @ CHR ''='' # trim_end v"
proof -
  have eq: "\<not> is_whitespace (CHR ''='')" by (simp add: char_class code_def)
  have "trim_start_by is_whitespace (k @ CHR ''='' # v) = k @ CHR ''='' # v"
    using assms word_char [OF assms] by (cases k) (auto simp: trim_start_by_def plain_word_def)
  then show ?thesis
    using eq trim_end_by_append [of is_whitespace "k @ [CHR ''='']" v]
    by (auto simp: trim_def trim_by_def trim_end_def trim_end_by_append)
      (auto simp: trim_end_by_def)
qed

lemma trim_trim_end: "trim (trim_end s) = trim s"
proof -
  have idem: "trim_end_by p (trim_end_by p s) = trim_end_by p s" for p and s :: string
    by (simp add: trim_end_by_def)
  have "trim_start_by p (trim_end_by p s) = trim_end_by p (trim_start_by p s)" for p and s :: string
  proof (induction s)
    case (Cons c s)
    then show ?case
      using trim_end_by_append [of p "[c]" s] set_dropWhileD [of _ p s]
      by (auto simp: trim_start_by_def trim_end_by_def dropWhile_append)
  qed (simp add: trim_start_by_def trim_end_by_def)
  then show ?thesis by (simp add: trim_def trim_by_def trim_end_def idem)
qed

lemma split_once_first: "d \<notin> set s \<Longrightarrow> split_once d (s @ d # t) = Some (s, t)"
  by (induction s) auto

lemma step_key:
  assumes "plain_word k"
  shows "settings_step (k @ CHR ''='' # v) (sec, out) = (sec, push_value (sec, k) (trim v) out)"
proof -
  let ?l = "k @ CHR ''='' # trim_end v"
  have "\<not> starts_with ?l ''#''" "strip_prefix ''['' ?l = None"
    using assms word_char [OF assms, of "hd k"] by (cases k; auto simp: plain_word_def strip_prefix_def)+
  moreover have "CHR ''='' \<notin> set k" using word_char [OF assms] by blast
  ultimately show ?thesis
    by (simp add: settings_step_def trim_key_line [OF assms] split_once_first trim_word [OF assms]
        trim_trim_end)
qed

lemma step_section:
  assumes "plain_word s"
  shows "settings_step (CHR ''['' # s @ '']'') (sec, out) = (s, out)"
proof -
  have "trim (CHR ''['' # s @ '']'') = CHR ''['' # s @ '']''"
    by (rule trim_plain) (simp add: char_class code_def)
  moreover have "strip_suffix '']'' (s @ '']'') = Some s" by (simp add: strip_suffix_Some)
  ultimately show ?thesis
    by (simp add: settings_step_def strip_prefix_def)
qed

lemma step_empty: "settings_step [] st = st"
  by (cases st) (simp add: settings_step_def trim_def trim_by_def trim_start_by_def trim_end_by_def)

lemma trim_strip_cr: "trim (strip_cr v) = trim v"
proof (cases v rule: rev_cases)
  case (snoc w c)
  have "is_whitespace (CHR 0x0D)" by (simp add: char_class code_def)
  then have "trim_end (w @ [CHR 0x0D]) = trim_end w"
    by (simp add: trim_end_def trim_end_by_append)
  then show ?thesis
    using snoc trim_trim_end [of w] trim_trim_end [of "w @ [CHR 0x0D]"] by (auto simp: strip_cr_def)
qed (simp add: strip_cr_def)

lemma strip_cr_append: "v \<noteq> [] \<Longrightarrow> strip_cr (s @ v) = s @ strip_cr v"
  by (auto simp: strip_cr_def butlast_append)


lemma step_key_line:
  assumes "plain_word k"
  shows "settings_step (strip_cr (k @ CHR ''='' # v)) (sec, out) = (sec, push_value (sec, k) (trim v) out)"
proof -
  have "strip_cr (k @ CHR ''='' # v) = k @ CHR ''='' # (if v = [] then [] else strip_cr v)"
    using strip_cr_append [of v "k @ [CHR ''='']"] by (auto simp: strip_cr_def)
  then show ?thesis using step_key [OF assms] trim_strip_cr [of v] by simp
qed

lemma lookup_push:
  assumes "bm_ok out" and "bm_get out = lookup_doc doc"
  shows "bm_ok (push_value (s, k) (trim v) out)"
    and "bm_get (push_value (s, k) (trim v) out) = lookup_doc (doc @ [(s, k, v)])"
  using assms
  by (auto simp: push_value_def bm_ok_insert bm_get_insert lookup_doc_def vals_def fun_eq_iff)

lemma says_new: "says ini_new [] []"
proof -
  have "fold settings_step (text_lines managed_header) ([], []) = ([], [])" by code_simp
  then show ?thesis
    by (simp add: says_def reads_def ini_new_def lookup_doc_def vals_def fun_eq_iff)
      (simp add: managed_header_def whole_lines_def)
qed

lemma says_section: "says i cur doc \<Longrightarrow> plain_word s \<Longrightarrow> says (ini_section s i) s doc"
  by (simp add: says_def ini_section_def reads_def)

lemma says_key:
  assumes i: "says i cur doc" and k: "plain_word k" and v: "newline \<notin> set v"
  shows "says (ini_key k v i) cur (doc @ [(cur, k, v)])"
proof -
  have whole: "whole_lines (in_out i)" using i by (simp add: says_def)
  have kv: "newline \<notin> set (k @ CHR ''='' # v)" using word_char [OF k] v by auto
  obtain sec out where r: "reads i = (sec, out)" by (cases "reads i")
  have out: "bm_ok out" "bm_get out = lookup_doc doc" using i r by (simp_all add: says_def)
  show ?thesis
  proof (cases "in_pending i")
    case None
    then have "sec = cur" using i r by (simp add: says_def)
    have "text_lines (in_out i @ (k @ CHR ''='' # v) @ [newline]) =
        text_lines (in_out i) @ [strip_cr (k @ CHR ''='' # v)]"
      by (rule text_lines_snoc [OF whole kv])
    then have "reads (ini_key k v i) = (cur, push_value (cur, k) (trim v) out)"
      using None r \<open>sec = cur\<close> step_key_line [OF k] by (simp add: reads_def ini_key_def)
    then show ?thesis
      using None lookup_push [OF out] whole_lines_append [OF whole]
      by (auto simp: says_def ini_key_def whole_lines_def)
  next
    case (Some s)
    then have s: "s = cur" "plain_word cur" using i Some by (auto simp: says_def)
    let ?o = "in_out i @ [newline]"
    let ?o' = "?o @ (CHR ''['' # cur @ '']'') @ [newline]"
    have w: "whole_lines ?o" "whole_lines ?o'" by (simp_all add: whole_lines_def)
    have sec: "newline \<notin> set (CHR ''['' # cur @ '']'')" using word_char [OF s(2)] by auto
    have "text_lines (?o' @ (k @ CHR ''='' # v) @ [newline]) =
        text_lines (in_out i) @ [[]] @ [CHR ''['' # cur @ '']''] @ [strip_cr (k @ CHR ''='' # v)]"
      using text_lines_snoc [OF w(2) kv] text_lines_snoc [OF w(1) sec] text_lines_snoc [OF whole, of "[]"]
      by (simp add: strip_cr_def)
    then have "reads (ini_key k v i) = (cur, push_value (cur, k) (trim v) out)"
      using Some r s step_key_line [OF k] step_section [OF s(2)]
      by (simp add: reads_def ini_key_def step_empty)
    then show ?thesis
      using Some lookup_push [OF out] by (auto simp: says_def ini_key_def whole_lines_def)
  qed
qed

lemma says_maybe:
  "says i cur doc \<Longrightarrow> plain_word k \<Longrightarrow> (\<And>v. vo = Some v \<Longrightarrow> newline \<notin> set v) \<Longrightarrow>
   says (ini_maybe k vo i) cur (doc @ (case vo of None \<Rightarrow> [] | Some v \<Rightarrow> [(cur, k, v)]))"
  by (cases vo) (auto simp: ini_maybe_def says_key)

lemma says_each:
  "says i cur doc \<Longrightarrow> plain_word k \<Longrightarrow> (\<And>v. v \<in> set vs \<Longrightarrow> newline \<notin> set v) \<Longrightarrow>
   says (ini_each k vs i) cur (doc @ map (\<lambda>v. (cur, k, v)) vs)"
proof (induction vs arbitrary: i doc)
  case (Cons v vs)
  then have "says (ini_key k v i) cur (doc @ [(cur, k, v)])" by (intro says_key) auto
  from Cons.IH [OF this] Cons.prems show ?case by (simp add: ini_each_def)
qed (simp add: ini_each_def)

lemma says_flag: "says i cur doc \<Longrightarrow> plain_word k \<Longrightarrow>
  says (ini_flag k b i) cur (doc @ [(cur, k, if b then ''yes'' else ''no'')])"
  unfolding ini_flag_def by (rule says_key) auto

lemma says_settings: "says i cur doc \<Longrightarrow> bm_get (settings (ini_finish i)) key = lookup_doc doc key"
  by (simp add: says_def settings_def ini_finish_def reads_def)

end
