(* ===== verification/Networkd.thy ===== *)
theory Networkd
  imports Artifacts Ini
begin

text \<open>
  \<open>src/nightshade-render/src/networkd.rs\<close>: the interfaces, as unit files of systemd-networkd. A
  \<open>BTreeMap\<close> of borrowed children is the list of children itself, which is in order.
\<close>

section \<open>Tables\<close>

definition MANAGED_MARKER :: string where
  "MANAGED_MARKER = ''-ns-''"

definition RECREATE :: "(string \<times> string list) list" where
  "RECREATE =
     [(''bond'', [''Mode'', ''TransmitHashPolicy'', ''LACPTransmitRate'']),
      (''vlan'', [''Id'']),
      (''vxlan'', [''VNI'', ''Remote'', ''Group'', ''Local'', ''DestinationPort'', ''TTL'', ''Independent'']),
      (''bridge'', [])]"

definition VIRTUAL :: "(string \<times> string) list" where
  "VIRTUAL = [(''vlan'', ''vlan''), (''bonding'', ''bond''), (''bridge'', ''bridge''), (''vxlan'', ''vxlan'')]"

section \<open>Reading the configuration\<close>

definition instances :: "config_tree \<Rightarrow> string \<Rightarrow> kids" where
  "instances t kind =
     (case Option.bind (tree_get [''interfaces'', kind] t) node_children of None \<Rightarrow> [] | Some m \<Rightarrow> m)"

definition child :: "node \<Rightarrow> string \<Rightarrow> node option" where
  "child n name = Option.bind (node_children n) (\<lambda>m. bm_get m name)"

definition leaf_of :: "node \<Rightarrow> string \<Rightarrow> string option" where
  "leaf_of n name = Option.bind (child n name) node_value"

definition list_of :: "node \<Rightarrow> string \<Rightarrow> string list" where
  "list_of n name =
     (case Option.bind (child n name) node_value_set of None \<Rightarrow> [] | Some vs \<Rightarrow> vs)"

definition flag_of :: "node \<Rightarrow> string \<Rightarrow> bool" where
  "flag_of n name = (Option.bind (child n name) node_value_set = Some [])"

record attachments =
  at_master :: "(string \<times> string) list"
  at_vlans :: "(string \<times> string list) list"
  at_vxlans :: "(string \<times> string list) list"

definition push_under :: "string \<Rightarrow> string \<Rightarrow> (string \<times> string list) list \<Rightarrow> (string \<times> string list) list" where
  "push_under k v m = bm_insert k ((case bm_get m k of None \<Rightarrow> [] | Some vs \<Rightarrow> vs) @ [v]) m"

definition master_loop :: "string \<Rightarrow> kids \<Rightarrow> (string \<times> string) list \<Rightarrow> (string \<times> string) list" where
  "master_loop key kids out =
     fold (\<lambda>(name, n). fold (\<lambda>member. bm_insert member (key @ ''='' @ name)) (list_of n ''member'')) kids out"

definition riders :: "string \<Rightarrow> kids \<Rightarrow> (string \<times> string list) list" where
  "riders below kids =
     fold (\<lambda>(name, n) out. case leaf_of n below of Some parent \<Rightarrow> push_under parent name out | None \<Rightarrow> out) kids []"

definition attachments_of :: "config_tree \<Rightarrow> attachments" where
  "attachments_of t =
     \<lparr>at_master = master_loop ''Bridge'' (instances t ''bridge'')
        (master_loop ''Bond'' (instances t ''bonding'') []),
      at_vlans = riders ''parent'' (instances t ''vlan''),
      at_vxlans = riders ''source-interface'' (instances t ''vxlan'')\<rparr>"

section \<open>Emitting\<close>

definition physical_file :: "string \<Rightarrow> string \<Rightarrow> string" where
  "physical_file name extension = ''10'' @ MANAGED_MARKER @ name @ ''.'' @ extension"

definition virtual_file :: "string \<Rightarrow> string \<Rightarrow> string" where
  "virtual_file name extension = ''20'' @ MANAGED_MARKER @ name @ ''.'' @ extension"

definition network_file :: "string \<Rightarrow> node \<Rightarrow> attachments \<Rightarrow> string" where
  "network_file name n att =
     (let i = ini_key ''Name'' name (ini_section ''Match'' ini_new);
          i = ini_section ''Link'' i;
          i = ini_maybe ''MTUBytes'' (leaf_of n ''mtu'') i;
          i = (if flag_of n ''disable'' then ini_key ''ActivationPolicy'' ''always-down'' i else i);
          i = ini_section ''Network'' i;
          i = ini_maybe ''Description'' (leaf_of n ''description'') i;
          addresses = list_of n ''address'';
          dhcp = ''dhcp'' \<in> set addresses;
          i = (if dhcp then ini_key ''DHCP'' ''yes'' i else i);
          i = ini_each ''Address'' (filter (\<lambda>a. a \<noteq> ''dhcp'') addresses) i;
          i = (case bm_get (at_master att) name of
                 Some master \<Rightarrow>
                   (case split_once (CHR ''='') master of Some (key, v) \<Rightarrow> ini_key key v i | None \<Rightarrow> i)
               | None \<Rightarrow> i);
          i = (case bm_get (at_vlans att) name of Some vlans \<Rightarrow> ini_each ''VLAN'' vlans i | None \<Rightarrow> i);
          i = (case bm_get (at_vxlans att) name of Some vxlans \<Rightarrow> ini_each ''VXLAN'' vxlans i | None \<Rightarrow> i)
      in ini_finish i)"

definition link_file :: "string \<Rightarrow> node \<Rightarrow> string option" where
  "link_file name n =
     (let hw_id = leaf_of n ''hw-id'';
          mac = leaf_of n ''mac'';
          speed = (case leaf_of n ''speed'' of Some s \<Rightarrow> if s \<noteq> ''auto'' then Some s else None | None \<Rightarrow> None);
          duplex = (case leaf_of n ''duplex'' of Some s \<Rightarrow> if s \<noteq> ''auto'' then Some s else None | None \<Rightarrow> None)
      in if hw_id = None \<and> mac = None \<and> speed = None \<and> duplex = None then None
         else
           (let i = (case hw_id of
                       Some h \<Rightarrow> ini_key ''PermanentMACAddress'' h (ini_section ''Match'' ini_new)
                     | None \<Rightarrow> ini_key ''OriginalName'' name (ini_section ''Match'' ini_new));
                i = ini_section ''Link'' i;
                i = (if hw_id \<noteq> None then ini_key ''Name'' name i else i);
                i = ini_maybe ''MACAddress'' mac i;
                i = ini_maybe ''BitsPerSecond'' (map_option (\<lambda>s. s @ ''M'') speed) i;
                i = ini_maybe ''Duplex'' duplex i
            in Some (ini_finish i)))"

definition kind_lines :: "string \<Rightarrow> node \<Rightarrow> ini \<Rightarrow> ini" where
  "kind_lines kind n i =
     (if kind = ''vlan'' then ini_maybe ''Id'' (leaf_of n ''id'') (ini_section ''VLAN'' i)
      else if kind = ''bond'' then
        (let i = ini_section ''Bond'' i;
             i = ini_maybe ''Mode'' (leaf_of n ''mode'') i;
             i = ini_maybe ''TransmitHashPolicy'' (leaf_of n ''hash-policy'') i;
             i = ini_maybe ''LACPTransmitRate'' (leaf_of n ''lacp-rate'') i;
             i = ini_maybe ''MinLinks'' (leaf_of n ''min-links'') i
         in ini_maybe ''PrimarySlave'' (leaf_of n ''primary'') i)
      else if kind = ''bridge'' then
        (let i = ini_section ''Bridge'' i;
             i = ini_flag ''STP'' (flag_of n ''stp'') i;
             i = ini_maybe ''Priority'' (leaf_of n ''priority'') i
         in ini_maybe ''AgeingTimeSec'' (leaf_of n ''aging-time'') i)
      else if kind = ''vxlan'' then
        (let i = ini_section ''VXLAN'' i;
             i = ini_maybe ''VNI'' (leaf_of n ''vni'') i;
             i = ini_maybe ''Remote'' (leaf_of n ''remote'') i;
             i = ini_maybe ''Group'' (leaf_of n ''group'') i;
             i = ini_maybe ''Local'' (leaf_of n ''source-address'') i;
             i = ini_maybe ''DestinationPort'' (leaf_of n ''port'') i;
             i = ini_maybe ''TTL'' (leaf_of n ''ttl'') i
         in if leaf_of n ''source-interface'' = None then ini_key ''Independent'' ''true'' i else i)
      else i)"

definition netdev_file :: "string \<Rightarrow> string \<Rightarrow> node \<Rightarrow> string" where
  "netdev_file kind name n =
     (let i = ini_key ''Kind'' kind (ini_key ''Name'' name (ini_section ''NetDev'' ini_new));
          i = ini_maybe ''Description'' (leaf_of n ''description'') i;
          i = ini_maybe ''MTUBytes'' (leaf_of n ''mtu'') i;
          i = ini_maybe ''MACAddress'' (leaf_of n ''mac'') i
      in ini_finish (kind_lines kind n i))"

section \<open>What has to be rebuilt\<close>

definition kind_of :: "string \<Rightarrow> string option" where
  "kind_of netdev =
     (case bm_get (settings netdev) (''NetDev'', ''Kind'') of
        Some (v # vs) \<Rightarrow> Some v
      | _ \<Rightarrow> None)"

text \<open>The first entry, in the order of the map, whose key is the one asked for.\<close>

definition setting_at :: "settings \<Rightarrow> string \<Rightarrow> string list option" where
  "setting_at m key = map_option snd (find (\<lambda>((s, k), vs). k = key) m)"

definition needs_recreating :: "string \<Rightarrow> string \<Rightarrow> bool" where
  "needs_recreating old new =
     (case (kind_of old, kind_of new) of
        (Some old_kind, Some new_kind) \<Rightarrow>
          if old_kind \<noteq> new_kind then True
          else
            (case find (\<lambda>(kind, watched). kind = old_kind) RECREATE of
               None \<Rightarrow> True
             | Some (kind, watched) \<Rightarrow>
                 list_ex (\<lambda>key. setting_at (settings old) key \<noteq> setting_at (settings new) key) watched)
      | _ \<Rightarrow> True)"

definition device_of :: "string \<Rightarrow> string option" where
  "device_of name =
     Option.bind (strip_suffix ''.netdev'' name) (\<lambda>s. map_option snd (split_once_str MANAGED_MARKER s))"

definition first_files :: "artifacts option \<Rightarrow> (string \<times> string) list" where
  "first_files a =
     (case a of None \<Rightarrow> [] | Some a \<Rightarrow> (case ar_managed a of [] \<Rightarrow> [] | m # ms \<Rightarrow> mg_files m))"

definition recreations :: "artifacts option \<Rightarrow> artifacts \<Rightarrow> string list" where
  "recreations previous next_a =
     (let before_files = first_files previous;
          after_files = first_files (Some next_a)
      in fold (\<lambda>(name, old) out.
           case device_of name of
             None \<Rightarrow> out
           | Some device \<Rightarrow>
               (case bm_get after_files name of
                  None \<Rightarrow> bs_insert device out
                | Some new \<Rightarrow> if needs_recreating old new then bs_insert device out else out))
           before_files [])"

section \<open>The renderer\<close>

definition physical_step ::
  "attachments \<Rightarrow> string \<times> node \<Rightarrow> (string \<times> string) list \<times> (string \<times> string) list \<Rightarrow>
     (string \<times> string) list \<times> (string \<times> string) list" where
  "physical_step att x out =
     (case (x, out) of
        ((name, n), (files, links)) \<Rightarrow>
          (bm_insert (physical_file name ''network'') (network_file name n att) files,
           (case link_file name n of
              Some link \<Rightarrow> bm_insert (physical_file name ''link'') link links
            | None \<Rightarrow> links)))"

definition virtual_step ::
  "attachments \<Rightarrow> string \<Rightarrow> string \<times> node \<Rightarrow> (string \<times> string) list \<Rightarrow> (string \<times> string) list" where
  "virtual_step att kind x files =
     (case x of
        (name, n) \<Rightarrow>
          bm_insert (virtual_file name ''network'') (network_file name n att)
            (bm_insert (virtual_file name ''netdev'') (netdev_file kind name n) files))"

definition networkd_files :: "config_tree \<Rightarrow> (string \<times> string) list \<times> (string \<times> string) list" where
  "networkd_files t =
     (let att = attachments_of t;
          physical = fold (\<lambda>kind. fold (physical_step att) (instances t kind))
            [''ethernet'', ''loopback''] ([], [])
      in (fold (\<lambda>(config_kind, kind). fold (virtual_step att kind) (instances t config_kind))
            VIRTUAL (fst physical),
          snd physical))"

definition networkd_render :: "paths \<Rightarrow> config_tree \<Rightarrow> render_error + artifacts" where
  "networkd_render ps t =
     (case networkd_files t of
        (files, links) \<Rightarrow>
          Inr \<lparr>ar_managed =
                 [\<lparr>mg_dir = networkd_dir ps, mg_marker = MANAGED_MARKER, mg_files = files\<rparr>,
                  \<lparr>mg_dir = link_dir ps, mg_marker = MANAGED_MARKER, mg_files = links\<rparr>],
               ar_files = [], ar_actions = [ReloadNetworkd]\<rparr>)"

definition first_missing :: "string list \<Rightarrow> settings \<Rightarrow> (string \<times> string) option" where
  "first_missing devices parsed =
     find (\<lambda>(device, key). device \<notin> set devices)
       (concat (map (\<lambda>key. map (\<lambda>device. (device, key))
            (case bm_get parsed (''Network'', key) of None \<Rightarrow> [] | Some vs \<Rightarrow> vs))
          [''Bond'', ''Bridge'', ''VLAN'', ''VXLAN'']))"

fun check_networks ::
  "string list \<Rightarrow> (string \<times> string) list \<Rightarrow> (string \<times> string) list \<Rightarrow> string + unit" where
  "check_networks devices claimed [] = Inr ()"
| "check_networks devices claimed ((name, contents) # files) =
     (if \<not> ends_with name ''.network'' then check_networks devices claimed files
      else
        (let parsed = settings contents;
             matched = (case bm_get parsed (''Match'', ''Name'') of Some (v # vs) \<Rightarrow> Some v | _ \<Rightarrow> None);
             clash = (case matched of
                        None \<Rightarrow> None
                      | Some v \<Rightarrow> map_option (\<lambda>other. (other, v)) (bm_get claimed v));
             claimed' = (case matched of None \<Rightarrow> claimed | Some v \<Rightarrow> bm_insert v name claimed)
         in case clash of
              Some (other, v) \<Rightarrow> Inl (name @ '' and '' @ other @ '' both configure '' @ v)
            | None \<Rightarrow>
                (case first_missing devices parsed of
                   Some (device, key) \<Rightarrow>
                     Inl (name @ '' refers to '' @ device @ '' as '' @ key @ '', but nothing creates it'')
                 | None \<Rightarrow> check_networks devices claimed' files)))"

definition devices_in :: "(string \<times> string) list \<Rightarrow> string list" where
  "devices_in files = bs_from (List.map_filter (\<lambda>(name, c). device_of name) files)"

definition networkd_check :: "artifacts \<Rightarrow> render_error + unit" where
  "networkd_check a =
     (let files = first_files (Some a);
          devices = devices_in files
      in map_err (Inconsistent ''networkd'')
           (bind_result (check_networks devices [] files) (\<lambda>u.
              case find (\<lambda>device. bm_get files (virtual_file device ''network'') = None) devices of
                Some device \<Rightarrow> Inl (device @ '' is created but has no .network file'')
              | None \<Rightarrow> Inr ())))"

end
