(* ===== verification/Networkd_Laws.thy ===== *)
theory Networkd_Laws
  imports Networkd Applying Value_Laws
begin

text \<open>
  What the interfaces renderer writes and what its check makes of it: the files of an accepted
  configuration are consistent with each other exactly when no name is used both for a physical and
  for a virtual interface, and a device is rebuilt exactly when a setting that is fixed at its
  creation changes.
\<close>

section \<open>Names and values\<close>

definition plain_iface :: "string \<Rightarrow> bool" where
  "plain_iface s \<longleftrightarrow> s \<noteq> [] \<and> (\<forall>c \<in> set s. is_ascii_alphanumeric c \<or> c \<in> set ''-_.'')"

definition one_line :: "node \<Rightarrow> bool" where
  "one_line n \<longleftrightarrow> (\<forall>name v. v \<in> set (list_of n name) \<longrightarrow> newline \<notin> set v)"

text \<open>What the renderer relies on of a configuration, all of it enforced by the value types.\<close>

definition kinds :: "string list" where
  "kinds = [''ethernet'', ''loopback'', ''vlan'', ''bonding'', ''bridge'', ''vxlan'']"

definition renderable :: "config_tree \<Rightarrow> bool" where
  "renderable t \<longleftrightarrow> (\<forall>kind \<in> set kinds. \<forall>(name, n) \<in> set (instances t kind). plain_iface name \<and> one_line n)"

definition names_of :: "config_tree \<Rightarrow> string \<Rightarrow> string set" where
  "names_of t kind = fst ` set (instances t kind)"

definition physical_names :: "config_tree \<Rightarrow> string set" where
  "physical_names t = names_of t ''ethernet'' \<union> names_of t ''loopback''"

definition virtual_names :: "config_tree \<Rightarrow> string set" where
  "virtual_names t = (\<Union>kind \<in> {''vlan'', ''bonding'', ''bridge'', ''vxlan''}. names_of t kind)"

lemma iface_char: "plain_iface s \<Longrightarrow> c \<in> set s \<Longrightarrow> \<not> is_whitespace c \<and> c \<noteq> newline \<and> c \<noteq> CHR ''/''"
  by (force simp: plain_iface_def char_class code_def)

lemma trim_iface:
  assumes "plain_iface s"
  shows "trim s = s"
proof (rule trim_plain)
  have "s \<noteq> []" using assms by (simp add: plain_iface_def)
  then show "s = [] \<or> \<not> is_whitespace (hd s) \<and> \<not> is_whitespace (last s)"
    using iface_char [OF assms] by simp
qed

lemma leaf_of_list: "leaf_of n name = Some v \<Longrightarrow> list_of n name = [v]"
  by (auto simp: leaf_of_def list_of_def node_value_def split: option.splits list.splits bind_splits)

lemma one_line_leaf: "one_line n \<Longrightarrow> leaf_of n name = Some v \<Longrightarrow> newline \<notin> set v"
  unfolding one_line_def using leaf_of_list by (metis list.set_intros(1))

section \<open>File names\<close>

lemma file_names:
  "physical_file x e = CHR ''1'' # CHR ''0'' # ''-ns-'' @ x @ ''.'' @ e"
  "virtual_file x e = CHR ''2'' # CHR ''0'' # ''-ns-'' @ x @ ''.'' @ e"
  by (simp_all add: physical_file_def virtual_file_def MANAGED_MARKER_def)

lemma file_names_inj [simp]:
  "physical_file x e = physical_file y e \<longleftrightarrow> x = y"
  "virtual_file x e = virtual_file y e \<longleftrightarrow> x = y"
  "physical_file x e \<noteq> virtual_file y f" "virtual_file x e \<noteq> physical_file y f"
  by (simp_all add: file_names)

lemma last_eq: "s = t \<Longrightarrow> last s = last t"
  by simp

lemma network_not_netdev [simp]:
  "virtual_file x ''network'' \<noteq> virtual_file y ''netdev''"
  "virtual_file x ''netdev'' \<noteq> virtual_file y ''network''"
  by (auto simp: file_names dest!: last_eq)

lemma network_suffix [simp]:
  "ends_with (physical_file x ''network'') ''.network''" "ends_with (virtual_file x ''network'') ''.network''"
  "\<not> ends_with (virtual_file x ''netdev'') ''.network''"
proof -
  show "ends_with (physical_file x ''network'') ''.network''"
    unfolding ends_with_iff by (intro exI [of _ "''10-ns-'' @ x"]) (simp add: file_names)
  show "ends_with (virtual_file x ''network'') ''.network''"
    unfolding ends_with_iff by (intro exI [of _ "''20-ns-'' @ x"]) (simp add: file_names)
  show "\<not> ends_with (virtual_file x ''netdev'') ''.network''"
    unfolding ends_with_iff by (auto simp: file_names dest!: last_eq)
qed

lemma device_of_files [simp]:
  "device_of (physical_file x ''network'') = None" "device_of (virtual_file x ''network'') = None"
  "device_of (virtual_file x ''netdev'') = Some x"
proof -
  have no: "strip_suffix ''.netdev'' s = None" if "last s = CHR ''k''" for s
  proof -
    have "s \<noteq> t @ ''.netdev''" for t using that by auto
    then show ?thesis by (simp add: strip_suffix_def ends_with_iff)
  qed
  have dev: "strip_suffix ''.netdev'' (virtual_file x ''netdev'') = Some (''20-ns-'' @ x)"
    by (simp add: strip_suffix_Some file_names)
  show "device_of (physical_file x ''network'') = None" "device_of (virtual_file x ''network'') = None"
    by (simp_all add: device_of_def no file_names)
  show "device_of (virtual_file x ''netdev'') = Some x"
    by (simp add: device_of_def dev MANAGED_MARKER_def)
qed

section \<open>What the unit files say\<close>

definition opt_line :: "string \<Rightarrow> string \<Rightarrow> string option \<Rightarrow> doc" where
  "opt_line sec k vo = (case vo of None \<Rightarrow> [] | Some v \<Rightarrow> [(sec, k, v)])"

definition master_lines :: "string option \<Rightarrow> doc" where
  "master_lines mo =
     (case mo of None \<Rightarrow> [] | Some master \<Rightarrow>
        (case split_once (CHR ''='') master of None \<Rightarrow> [] | Some (k, v) \<Rightarrow> [(''Network'', k, v)]))"

definition rider_lines :: "string \<Rightarrow> string list option \<Rightarrow> doc" where
  "rider_lines k vo = (case vo of None \<Rightarrow> [] | Some vs \<Rightarrow> map (\<lambda>v. (''Network'', k, v)) vs)"

definition network_doc :: "string \<Rightarrow> node \<Rightarrow> attachments \<Rightarrow> doc" where
  "network_doc name n att =
     [(''Match'', ''Name'', name)] @ opt_line ''Link'' ''MTUBytes'' (leaf_of n ''mtu'') @
     (if flag_of n ''disable'' then [(''Link'', ''ActivationPolicy'', ''always-down'')] else []) @
     opt_line ''Network'' ''Description'' (leaf_of n ''description'') @
     (if ''dhcp'' \<in> set (list_of n ''address'') then [(''Network'', ''DHCP'', ''yes'')] else []) @
     map (\<lambda>v. (''Network'', ''Address'', v)) (filter (\<lambda>a. a \<noteq> ''dhcp'') (list_of n ''address'')) @
     master_lines (bm_get (at_master att) name) @ rider_lines ''VLAN'' (bm_get (at_vlans att) name) @
     rider_lines ''VXLAN'' (bm_get (at_vxlans att) name)"

text \<open>Attachments name devices of the configuration only.\<close>

definition attached :: "string set \<Rightarrow> string set \<Rightarrow> string set \<Rightarrow> string set \<Rightarrow> attachments \<Rightarrow> bool" where
  "attached bonds bridges vlans vxlans att \<longleftrightarrow>
     (\<forall>master \<in> snd ` set (at_master att). (\<exists>b \<in> bonds. master = ''Bond='' @ b) \<or> (\<exists>b \<in> bridges. master = ''Bridge='' @ b)) \<and>
     (\<forall>vs \<in> snd ` set (at_vlans att). set vs \<subseteq> vlans) \<and>
     (\<forall>vs \<in> snd ` set (at_vxlans att). set vs \<subseteq> vxlans)"

lemma fold_inv:
  "P s \<Longrightarrow> (\<And>x s. x \<in> set xs \<Longrightarrow> P s \<Longrightarrow> P (f x s)) \<Longrightarrow> P (fold f xs s)"
  by (induction xs arbitrary: s) auto

lemma bm_insert_vals: "(\<forall>v \<in> snd ` set m. P v) \<Longrightarrow> P v \<Longrightarrow> \<forall>v \<in> snd ` set (bm_insert k v m). P v"
  using bm_set_insert [of k v m] by fastforce

lemma master_loop_vals:
  assumes "\<forall>v \<in> snd ` set out. P v" and "\<And>name. name \<in> fst ` set kids \<Longrightarrow> P (key @ ''='' @ name)"
  shows "\<forall>v \<in> snd ` set (master_loop key kids out). P v"
  unfolding master_loop_def
proof (rule fold_inv [where P = "\<lambda>m. \<forall>v \<in> snd ` set m. P v"])
  show "\<forall>v \<in> snd ` set out. P v" by (rule assms(1))
  fix x :: "string \<times> node" and s :: "(string \<times> string) list"
  assume x: "x \<in> set kids" and s: "\<forall>v \<in> snd ` set s. P v"
  obtain name n where xn: "x = (name, n)" by (cases x)
  then have new: "P (key @ ''='' @ name)" using assms(2) x by force
  have "\<forall>v \<in> snd ` set (fold (\<lambda>member. bm_insert member (key @ ''='' @ name)) ms s). P v" for ms
    by (rule fold_inv [where P = "\<lambda>m. \<forall>v \<in> snd ` set m. P v"], rule s) (rule bm_insert_vals, assumption, rule new)
  then show "\<forall>v \<in> snd ` set ((\<lambda>(name, n). fold (\<lambda>member. bm_insert member (key @ ''='' @ name))
      (list_of n ''member'')) x s). P v"
    by (simp add: xn)
qed

lemma riders_vals: "\<forall>vs \<in> snd ` set (riders below kids). set vs \<subseteq> fst ` set kids"
  unfolding riders_def
proof (rule fold_inv [where P = "\<lambda>m. \<forall>vs \<in> snd ` set m. set vs \<subseteq> fst ` set kids"])
  fix x :: "string \<times> node" and out :: "(string \<times> string list) list"
  assume x: "x \<in> set kids" and out: "\<forall>vs \<in> snd ` set out. set vs \<subseteq> fst ` set kids"
  obtain name n where xn: "x = (name, n)" by (cases x)
  have "\<forall>vs \<in> snd ` set (push_under parent name out). set vs \<subseteq> fst ` set kids" for parent
    unfolding push_under_def
  proof (rule bm_insert_vals [OF out])
    have "set vs \<subseteq> fst ` set kids" if "bm_get out parent = Some vs" for vs
      using out map_of_SomeD [OF that] by force
    then show "set ((case bm_get out parent of None \<Rightarrow> [] | Some vs \<Rightarrow> vs) @ [name]) \<subseteq> fst ` set kids"
      using x xn by (cases "bm_get out parent") force+
  qed
  then show "\<forall>vs \<in> snd ` set ((\<lambda>(name, n) out. case leaf_of n below of Some parent \<Rightarrow>
      push_under parent name out | None \<Rightarrow> out) x out). set vs \<subseteq> fst ` set kids"
    using out by (simp add: xn split: option.splits)
qed simp

lemma attached_of:
  "attached (names_of t ''bonding'') (names_of t ''bridge'') (names_of t ''vlan'') (names_of t ''vxlan'')
     (attachments_of t)"
proof -
  let ?P = "\<lambda>master. (\<exists>b \<in> names_of t ''bonding''. master = ''Bond='' @ b) \<or>
    (\<exists>b \<in> names_of t ''bridge''. master = ''Bridge='' @ b)"
  have "\<forall>v \<in> snd ` set (at_master (attachments_of t)). ?P v"
    unfolding attachments_of_def attachments.simps
    by (intro master_loop_vals [where P = ?P]) (auto simp: names_of_def)
  then show ?thesis
    using riders_vals unfolding attached_def attachments_of_def attachments.simps names_of_def by blast
qed

lemma plain_words:
  "plain_word ''Match''" "plain_word ''Link''" "plain_word ''Network''" "plain_word ''Name''"
  "plain_word ''MTUBytes''" "plain_word ''ActivationPolicy''" "plain_word ''Description''"
  "plain_word ''DHCP''" "plain_word ''Address''" "plain_word ''Bond''" "plain_word ''Bridge''"
  "plain_word ''VLAN''" "plain_word ''VXLAN''"
  by (simp_all add: plain_word_def char_class code_def)

lemma says_opt:
  "says i sec doc \<Longrightarrow> plain_word k \<Longrightarrow> (\<And>v. vo = Some v \<Longrightarrow> newline \<notin> set v) \<Longrightarrow>
   says (ini_maybe k vo i) sec (doc @ opt_line sec k vo)"
  unfolding opt_line_def by (rule says_maybe)

lemma says_if:
  "says i sec doc \<Longrightarrow> plain_word k \<Longrightarrow> newline \<notin> set v \<Longrightarrow>
   says (if b then ini_key k v i else i) sec (doc @ (if b then [(sec, k, v)] else []))"
  by (simp add: says_key)

lemma says_riders:
  assumes "says i ''Network'' doc" and "plain_word k"
    and "\<And>vs v. vo = Some vs \<Longrightarrow> v \<in> set vs \<Longrightarrow> newline \<notin> set v"
  shows "says (case vo of Some vs \<Rightarrow> ini_each k vs i | None \<Rightarrow> i) ''Network'' (doc @ rider_lines k vo)"
  using assms says_each [of i "''Network''" doc k] by (cases vo) (simp_all add: rider_lines_def)

lemma attachedD:
  assumes "attached bonds bridges vlans vxlans att"
  shows "bm_get (at_master att) name = Some master \<Longrightarrow>
      \<exists>key b. split_once (CHR ''='') master = Some (key, b) \<and> (key = ''Bond'' \<and> b \<in> bonds \<or> key = ''Bridge'' \<and> b \<in> bridges)"
    and "bm_get (at_vlans att) name = Some vs \<Longrightarrow> set vs \<subseteq> vlans"
    and "bm_get (at_vxlans att) name = Some vs \<Longrightarrow> set vs \<subseteq> vxlans"
proof -
  show "\<exists>key b. split_once (CHR ''='') master = Some (key, b) \<and>
      (key = ''Bond'' \<and> b \<in> bonds \<or> key = ''Bridge'' \<and> b \<in> bridges)"
    if "bm_get (at_master att) name = Some master"
  proof -
    have "(\<exists>b \<in> bonds. master = ''Bond='' @ b) \<or> (\<exists>b \<in> bridges. master = ''Bridge='' @ b)"
      using assms map_of_SomeD [OF that] unfolding attached_def by force
    then show ?thesis by auto
  qed
  show "bm_get (at_vlans att) name = Some vs \<Longrightarrow> set vs \<subseteq> vlans"
    and "bm_get (at_vxlans att) name = Some vs \<Longrightarrow> set vs \<subseteq> vxlans"
    using assms unfolding attached_def by (force dest: map_of_SomeD)+
qed

lemma says_master:
  assumes "says i ''Network'' doc" and "attached bonds bridges vlans vxlans att"
    and "\<forall>b \<in> bonds \<union> bridges. newline \<notin> set b"
  shows "says (case bm_get (at_master att) name of
        Some master \<Rightarrow> (case split_once (CHR ''='') master of Some (key, v) \<Rightarrow> ini_key key v i | None \<Rightarrow> i)
      | None \<Rightarrow> i) ''Network'' (doc @ master_lines (bm_get (at_master att) name))"
proof (cases "bm_get (at_master att) name")
  case (Some master)
  obtain key b where kb: "split_once (CHR ''='') master = Some (key, b)"
    "key = ''Bond'' \<and> b \<in> bonds \<or> key = ''Bridge'' \<and> b \<in> bridges"
    using attachedD(1) [OF assms(2) Some] by blast
  then have "says (ini_key key b i) ''Network'' (doc @ [(''Network'', key, b)])"
    using assms(1,3) plain_words by (intro says_key) auto
  then show ?thesis using Some kb(1) by (simp add: master_lines_def)
qed (simp add: master_lines_def assms(1))

lemma network_file_says:
  assumes name: "plain_iface name" and n: "one_line n"
    and att: "attached bonds bridges vlans vxlans att"
    and devs: "\<forall>d \<in> bonds \<union> bridges \<union> vlans \<union> vxlans. newline \<notin> set d"
  shows "\<exists>i. network_file name n att = ini_finish i \<and> says i ''Network'' (network_doc name n att)"
proof -
  define i1 where "i1 = ini_key ''Name'' name (ini_section ''Match'' ini_new)"
  define i2 where "i2 = ini_maybe ''MTUBytes'' (leaf_of n ''mtu'') (ini_section ''Link'' i1)"
  define i3 where "i3 = (if flag_of n ''disable'' then ini_key ''ActivationPolicy'' ''always-down'' i2 else i2)"
  define i4 where "i4 = ini_maybe ''Description'' (leaf_of n ''description'') (ini_section ''Network'' i3)"
  define i5 where "i5 = (if ''dhcp'' \<in> set (list_of n ''address'') then ini_key ''DHCP'' ''yes'' i4 else i4)"
  define i6 where "i6 = ini_each ''Address'' (filter (\<lambda>a. a \<noteq> ''dhcp'') (list_of n ''address'')) i5"
  define i7 where "i7 = (case bm_get (at_master att) name of
        Some master \<Rightarrow> (case split_once (CHR ''='') master of Some (key, v) \<Rightarrow> ini_key key v i6 | None \<Rightarrow> i6)
      | None \<Rightarrow> i6)"
  define i8 where "i8 = (case bm_get (at_vlans att) name of Some vlans \<Rightarrow> ini_each ''VLAN'' vlans i7 | None \<Rightarrow> i7)"
  define i9 where "i9 = (case bm_get (at_vxlans att) name of Some vxlans \<Rightarrow> ini_each ''VXLAN'' vxlans i8 | None \<Rightarrow> i8)"
  note leaf = one_line_leaf [OF n]
  have nm: "newline \<notin> set name" using iface_char [OF name] by blast
  have addr: "newline \<notin> set v" if "v \<in> set (list_of n ''address'')" for v
    using n that by (simp add: one_line_def)
  have rider: "bm_get (at_vlans att) name = Some vs \<Longrightarrow> v \<in> set vs \<Longrightarrow> newline \<notin> set v"
    "bm_get (at_vxlans att) name = Some vs \<Longrightarrow> v \<in> set vs \<Longrightarrow> newline \<notin> set v" for vs v
    using attachedD(2,3) [OF att] devs by blast+
  define d1 where "d1 = [] @ [(''Match'', ''Name'', name)]"
  define d2 where "d2 = d1 @ opt_line ''Link'' ''MTUBytes'' (leaf_of n ''mtu'')"
  define d3 where "d3 = d2 @ (if flag_of n ''disable'' then [(''Link'', ''ActivationPolicy'', ''always-down'')] else [])"
  define d4 where "d4 = d3 @ opt_line ''Network'' ''Description'' (leaf_of n ''description'')"
  define d5 where "d5 = d4 @ (if ''dhcp'' \<in> set (list_of n ''address'') then [(''Network'', ''DHCP'', ''yes'')] else [])"
  define d6 where "d6 = d5 @ map (\<lambda>v. (''Network'', ''Address'', v)) (filter (\<lambda>a. a \<noteq> ''dhcp'') (list_of n ''address''))"
  have s1: "says i1 ''Match'' d1"
    unfolding i1_def d1_def by (rule says_key [OF says_section [OF says_new plain_words(1)] plain_words(4) nm])
  have s2: "says i2 ''Link'' d2"
    unfolding i2_def d2_def by (intro says_opt says_section [OF s1] plain_words leaf)
  have s3: "says i3 ''Link'' d3"
    unfolding i3_def d3_def by (intro says_if s2 plain_words) simp
  have s4: "says i4 ''Network'' d4"
    unfolding i4_def d4_def by (intro says_opt says_section [OF s3] plain_words leaf)
  have s5: "says i5 ''Network'' d5"
    unfolding i5_def d5_def by (intro says_if s4 plain_words) simp
  have s6: "says i6 ''Network'' d6"
    unfolding i6_def d6_def by (intro says_each s5 plain_words) (simp add: addr)
  have "\<forall>b \<in> bonds \<union> bridges. newline \<notin> set b" using devs by blast
  note s7 = says_master [OF s6 att this, of name, folded i7_def]
  have s8: "says i8 ''Network'' ((d6 @ master_lines (bm_get (at_master att) name)) @
      rider_lines ''VLAN'' (bm_get (at_vlans att) name))"
    unfolding i8_def by (intro says_riders s7 plain_words rider(1))
  have s9: "says i9 ''Network'' (((d6 @ master_lines (bm_get (at_master att) name)) @
      rider_lines ''VLAN'' (bm_get (at_vlans att) name)) @ rider_lines ''VXLAN'' (bm_get (at_vxlans att) name))"
    unfolding i9_def by (intro says_riders s8 plain_words rider(2))
  have "network_file name n att = ini_finish i9"
    by (simp only: network_file_def Let_def i1_def i2_def i3_def i4_def i5_def i6_def i7_def i8_def i9_def)
  then show ?thesis using s9 by (auto simp: network_doc_def d1_def d2_def d3_def d4_def d5_def d6_def)
qed

lemma vals_append [simp]: "vals (d @ d') key = vals d key @ vals d' key"
  by (simp add: vals_def)

lemma vals_parts [simp]:
  "vals [] key = []"
  "vals ((s, k, v) # d) key = (if (s, k) = key then trim v # vals d key else vals d key)"
  "vals (opt_line sec k vo) key = (if (sec, k) = key then (case vo of None \<Rightarrow> [] | Some v \<Rightarrow> [trim v]) else [])"
  "vals (map (\<lambda>v. (sec, k, v)) vs) key = (if (sec, k) = key then map trim vs else [])"
  by (auto simp: vals_def opt_line_def split: option.splits)

lemma vals_riders: "vals (rider_lines k vo) key =
  (if (''Network'', k) = key then (case vo of None \<Rightarrow> [] | Some vs \<Rightarrow> map trim vs) else [])"
  by (cases vo) (simp_all add: rider_lines_def)

definition reference_keys :: "string list" where
  "reference_keys = [''Bond'', ''Bridge'', ''VLAN'', ''VXLAN'']"

definition describes :: "string set \<Rightarrow> string \<Rightarrow> string \<Rightarrow> bool" where
  "describes devices name text \<longleftrightarrow>
     bm_get (settings text) (''Match'', ''Name'') = Some [name] \<and>
     (\<forall>key \<in> set reference_keys. \<forall>vs. bm_get (settings text) (''Network'', key) = Some vs \<longrightarrow> set vs \<subseteq> devices)"

lemma network_file_describes:
  assumes name: "plain_iface name" and n: "one_line n"
    and att: "attached bonds bridges vlans vxlans att"
    and devs: "\<forall>d \<in> devices. plain_iface d" "bonds \<union> bridges \<union> vlans \<union> vxlans \<subseteq> devices"
  shows "describes devices name (network_file name n att)"
proof -
  have "\<forall>d \<in> bonds \<union> bridges \<union> vlans \<union> vxlans. newline \<notin> set d" using devs iface_char by blast
  then obtain i where i: "network_file name n att = ini_finish i" "says i ''Network'' (network_doc name n att)"
    using network_file_says [OF name n att] by blast
  have get: "bm_get (settings (network_file name n att)) key = lookup_doc (network_doc name n att) key" for key
    using says_settings [OF i(2)] i(1) by simp
  have trim_dev: "d \<in> devices \<Longrightarrow> trim d = d" for d using devs(1) trim_iface by blast
  have master: "vals (master_lines (bm_get (at_master att) name)) key = [] \<or>
      fst key = ''Network'' \<and> set (vals (master_lines (bm_get (at_master att) name)) key) \<subseteq> devices" for key
  proof (cases "bm_get (at_master att) name")
    case (Some master)
    obtain k b where kb: "split_once (CHR ''='') master = Some (k, b)" "b \<in> devices"
      using attachedD(1) [OF att Some] devs(2) by blast
    then show ?thesis using Some trim_dev [OF kb(2)] by (cases key) (simp add: master_lines_def)
  qed (simp add: master_lines_def)
  have trims: "set (map trim vs) \<subseteq> devices" if "set vs \<subseteq> devices" for vs
    using that trim_dev by fastforce
  have opt: "set (case o' of None \<Rightarrow> [] | Some vs \<Rightarrow> map trim vs) \<subseteq> devices"
    if "\<And>vs. o' = Some vs \<Longrightarrow> set vs \<subseteq> devices" for o'
    using that trims by (cases o') (simp_all del: set_map)
  define on_vlan where "on_vlan = (case bm_get (at_vlans att) name of None \<Rightarrow> [] | Some vs \<Rightarrow> map trim vs)"
  define on_vxlan where "on_vxlan = (case bm_get (at_vxlans att) name of None \<Rightarrow> [] | Some vs \<Rightarrow> map trim vs)"
  have vlans: "set on_vlan \<subseteq> devices"
    unfolding on_vlan_def
  proof (rule opt)
    fix vs assume "bm_get (at_vlans att) name = Some vs"
    from attachedD(2) [OF att this] show "set vs \<subseteq> devices" using devs(2) by auto
  qed
  have vxlans: "set on_vxlan \<subseteq> devices"
    unfolding on_vxlan_def
  proof (rule opt)
    fix vs assume "bm_get (at_vxlans att) name = Some vs"
    from attachedD(3) [OF att this] show "set vs \<subseteq> devices" using devs(2) by auto
  qed
  have "vals (network_doc name n att) (''Match'', ''Name'') = [name]"
    using master [of "(''Match'', ''Name'')"] trim_iface [OF name]
    by (simp add: network_doc_def vals_riders)
  moreover have "set (vals (network_doc name n att) (''Network'', key)) \<subseteq> devices"
    if "key \<in> set reference_keys" for key
  proof -
    have "''Description'' \<noteq> key" "''DHCP'' \<noteq> key" "''Address'' \<noteq> key"
      using that by (auto simp: reference_keys_def)
    then have "vals (network_doc name n att) (''Network'', key) =
        vals (master_lines (bm_get (at_master att) name)) (''Network'', key) @
        (if key = ''VLAN'' then on_vlan else []) @
        (if key = ''VXLAN'' then on_vxlan else [])"
      by (simp add: network_doc_def vals_riders on_vlan_def on_vxlan_def)
    moreover have "set (vals (master_lines (bm_get (at_master att) name)) (''Network'', key)) \<subseteq> devices"
      using master [of "(''Network'', key)"] by (metis empty_set empty_subsetI)
    ultimately show ?thesis using vlans vxlans by auto
  qed
  ultimately show ?thesis
    unfolding describes_def get lookup_doc_def by (auto split: if_splits)
qed

section \<open>The files of a configuration\<close>

lemma physical_fst:
  "fst (fold (physical_step att) xs out) =
   fold (\<lambda>(name, n). bm_insert (physical_file name ''network'') (network_file name n att)) xs (fst out)"
  by (induction xs arbitrary: out) (auto simp: physical_step_def split: prod.splits)

lemma names_ofI: "(name, n) \<in> set (instances t kind) \<Longrightarrow> name \<in> names_of t kind"
  unfolding names_of_def by force

text \<open>The virtual interfaces, with the kind of device each becomes.\<close>

definition device_at :: "config_tree \<Rightarrow> string \<Rightarrow> string \<Rightarrow> node \<Rightarrow> bool" where
  "device_at t x k n \<longleftrightarrow> (\<exists>(config_kind, kind) \<in> set VIRTUAL. kind = k \<and> (x, n) \<in> set (instances t config_kind))"

lemma device_name: "device_at t x k n \<Longrightarrow> x \<in> virtual_names t"
  using names_ofI by (auto simp: device_at_def VIRTUAL_def virtual_names_def)

lemma name_device:
  assumes "x \<in> virtual_names t"
  shows "\<exists>k n. device_at t x k n"
proof -
  obtain kind where kind: "kind \<in> {''vlan'', ''bonding'', ''bridge'', ''vxlan''}" and "x \<in> names_of t kind"
    using assms by (auto simp: virtual_names_def)
  then obtain n where "(x, n) \<in> set (instances t kind)" by (auto simp: names_of_def)
  moreover obtain k where "(kind, k) \<in> set VIRTUAL" using kind by (auto simp: VIRTUAL_def)
  ultimately show ?thesis by (auto simp: device_at_def)
qed

definition entry_ok :: "config_tree \<Rightarrow> string \<times> string \<Rightarrow> bool" where
  "entry_ok t e \<longleftrightarrow>
     (\<exists>x \<in> physical_names t. fst e = physical_file x ''network'' \<and> describes (virtual_names t) x (snd e)) \<or>
     (\<exists>x \<in> virtual_names t. fst e = virtual_file x ''network'' \<and> describes (virtual_names t) x (snd e)) \<or>
     (\<exists>x k n. device_at t x k n \<and> fst e = virtual_file x ''netdev'' \<and> snd e = netdev_file k x n)"

definition files_ok :: "config_tree \<Rightarrow> (string \<times> string) list \<Rightarrow> bool" where
  "files_ok t files \<longleftrightarrow> bm_ok files \<and> (\<forall>e \<in> set files. entry_ok t e)"

lemma files_ok_insert: "files_ok t files \<Longrightarrow> entry_ok t (k, c) \<Longrightarrow> files_ok t (bm_insert k c files)"
  using bm_set_insert [of k c files] by (auto simp: files_ok_def bm_ok_insert)

lemma renderableD:
  "renderable t \<Longrightarrow> kind \<in> set kinds \<Longrightarrow> (name, n) \<in> set (instances t kind) \<Longrightarrow> plain_iface name \<and> one_line n"
  by (auto simp: renderable_def)

lemma network_entry:
  assumes t: "renderable t" and kind: "kind \<in> set kinds" and x: "(name, n) \<in> set (instances t kind)"
  shows "describes (virtual_names t) name (network_file name n (attachments_of t))"
proof -
  have "\<forall>d \<in> virtual_names t. plain_iface d"
    using t by (fastforce simp: renderable_def kinds_def virtual_names_def names_of_def)
  then show ?thesis
    using renderableD [OF t kind x]
    by (intro network_file_describes [OF _ _ attached_of]) (auto simp: virtual_names_def)
qed

lemma physical_files_ok:
  assumes t: "renderable t" and kind: "kind \<in> {''ethernet'', ''loopback''}" and m: "files_ok t m"
  shows "files_ok t (fold (\<lambda>(name, n). bm_insert (physical_file name ''network'')
    (network_file name n (attachments_of t))) (instances t kind) m)"
proof (rule fold_inv [where P = "files_ok t", OF m])
  fix x s
  assume x: "x \<in> set (instances t kind)" and s: "files_ok t s"
  obtain name n where xn: "x = (name, n)" by (cases x)
  have "describes (virtual_names t) name (network_file name n (attachments_of t))"
    by (rule network_entry [OF t, of kind]) (use kind x xn in \<open>auto simp: kinds_def\<close>)
  moreover have "name \<in> physical_names t" using kind x xn names_ofI by (auto simp: physical_names_def)
  ultimately have "entry_ok t (physical_file name ''network'', network_file name n (attachments_of t))"
    by (auto simp: entry_ok_def)
  then show "files_ok t ((\<lambda>(name, n). bm_insert (physical_file name ''network'')
      (network_file name n (attachments_of t))) x s)"
    using files_ok_insert [OF s] by (simp add: xn)
qed

lemma virtual_files_ok:
  assumes t: "renderable t" and kind: "(kind, k) \<in> set VIRTUAL" and m: "files_ok t m"
  shows "files_ok t (fold (virtual_step (attachments_of t) k) (instances t kind) m)"
proof (rule fold_inv [where P = "files_ok t", OF m])
  fix x s
  assume x: "x \<in> set (instances t kind)" and s: "files_ok t s"
  obtain name n where xn: "x = (name, n)" by (cases x)
  have "describes (virtual_names t) name (network_file name n (attachments_of t))"
    by (rule network_entry [OF t, of kind]) (use kind x xn in \<open>auto simp: kinds_def VIRTUAL_def\<close>)
  moreover have dev: "device_at t name k n" using kind x xn by (auto simp: device_at_def)
  ultimately have "entry_ok t (virtual_file name ''network'', network_file name n (attachments_of t))"
    "entry_ok t (virtual_file name ''netdev'', netdev_file k name n)"
    using device_name [OF dev] by (auto simp: entry_ok_def)
  then show "files_ok t (virtual_step (attachments_of t) k x s)"
    using s by (simp add: xn virtual_step_def files_ok_insert)
qed

lemma networkd_files_ok:
  assumes "renderable t"
  shows "files_ok t (fst (networkd_files t))"
proof -
  have "files_ok t []" by (simp add: files_ok_def)
  then show ?thesis
    using assms
    by (simp add: networkd_files_def Let_def VIRTUAL_def physical_fst physical_files_ok)
      (intro virtual_files_ok physical_files_ok; simp add: VIRTUAL_def)
qed

lemma networkd_file_names:
  "fst ` set (fst (networkd_files t)) =
    (\<lambda>x. physical_file x ''network'') ` physical_names t \<union>
    (\<lambda>x. virtual_file x ''network'') ` virtual_names t \<union> (\<lambda>x. virtual_file x ''netdev'') ` virtual_names t"
proof -
  have p: "fst ` set (fold (\<lambda>(name, n). bm_insert (physical_file name ''network'') (network_file name n att)) xs m) =
      (\<lambda>x. physical_file x ''network'') ` fst ` set xs \<union> fst ` set m" for att xs m
  proof (induction xs arbitrary: m)
    case (Cons x xs)
    then show ?case by (cases x) (simp add: bm_keys_insert)
  qed simp
  have v: "fst ` set (fold (virtual_step att k) xs m) =
      (\<lambda>x. virtual_file x ''network'') ` fst ` set xs \<union> (\<lambda>x. virtual_file x ''netdev'') ` fst ` set xs \<union> fst ` set m"
    for att k xs m
  proof (induction xs arbitrary: m)
    case (Cons x xs)
    then show ?case by (cases x) (simp add: bm_keys_insert virtual_step_def insert_commute)
  qed simp
  show ?thesis
    by (simp add: networkd_files_def Let_def VIRTUAL_def physical_fst p v physical_names_def virtual_names_def names_of_def)
      (simp add: image_Un Un_ac)
qed

section \<open>The check\<close>

text \<open>What a file of the set says: the interface of a \<open>.network\<close> file, and where it points.\<close>

lemma not_image: "y \<notin> f ` {x \<in> A. P x} \<longleftrightarrow> (\<forall>x \<in> A. P x \<longrightarrow> f x \<noteq> y)"
  by auto

lemma check_networks_ok:
  assumes "\<forall>(k, c) \<in> set files. ends_with k ''.network'' \<longrightarrow> describes (set devices) (of_file k) c"
  shows "check_networks devices claimed files = Inr () \<longleftrightarrow>
    distinct (map of_file (filter (\<lambda>k. ends_with k ''.network'') (map fst files))) \<and>
    (\<forall>k \<in> fst ` set files. ends_with k ''.network'' \<longrightarrow> bm_get claimed (of_file k) = None)"
  using assms
proof (induction files arbitrary: claimed)
  case (Cons e files)
  obtain k c where e: "e = (k, c)" by (cases e)
  show ?case
  proof (cases "ends_with k ''.network''")
    case False
    then show ?thesis using Cons by (simp add: e)
  next
    case True
    then have d: "describes (set devices) (of_file k) c" using Cons.prems by (simp add: e)
    have none: "first_missing devices (settings c) = None"
    proof -
      have "\<forall>key \<in> set reference_keys. \<forall>x \<in> set (case bm_get (settings c) (''Network'', key) of
          None \<Rightarrow> [] | Some vs \<Rightarrow> vs). x \<in> set devices"
      proof (intro ballI)
        fix key x
        assume key: "key \<in> set reference_keys"
          and x: "x \<in> set (case bm_get (settings c) (''Network'', key) of None \<Rightarrow> [] | Some vs \<Rightarrow> vs)"
        show "x \<in> set devices"
          using d key x by (cases "bm_get (settings c) (''Network'', key)") (auto simp: describes_def)
      qed
      then show ?thesis unfolding first_missing_def find_None_iff by (simp add: reference_keys_def) blast
    qed
    have name: "bm_get (settings c) (''Match'', ''Name'') = Some [of_file k]" using d by (simp add: describes_def)
    have step: "check_networks devices claimed (e # files) = Inr () \<longleftrightarrow>
        bm_get claimed (of_file k) = None \<and>
        check_networks devices (bm_insert (of_file k) k claimed) files = Inr ()"
      using True by (cases "bm_get claimed (of_file k)") (simp_all add: e name none Let_def)
    have IH: "check_networks devices (bm_insert (of_file k) k claimed) files = Inr () \<longleftrightarrow>
        distinct (map of_file (filter (\<lambda>k. ends_with k ''.network'') (map fst files))) \<and>
        (\<forall>k' \<in> fst ` set files. ends_with k' ''.network'' \<longrightarrow>
           of_file k' \<noteq> of_file k \<and> bm_get claimed (of_file k') = None)"
      using Cons.IH [of "bm_insert (of_file k) k claimed"] Cons.prems by (auto simp: bm_get_insert split: if_splits)
    have im: "of_file k \<notin> of_file ` {x \<in> fst ` set files. ends_with x ''.network''} \<longleftrightarrow>
        (\<forall>k' \<in> fst ` set files. ends_with k' ''.network'' \<longrightarrow> of_file k' \<noteq> of_file k)"
      by (rule not_image)
    have "distinct (map of_file (filter (\<lambda>k. ends_with k ''.network'') (map fst (e # files)))) \<longleftrightarrow>
        (\<forall>k' \<in> fst ` set files. ends_with k' ''.network'' \<longrightarrow> of_file k' \<noteq> of_file k) \<and>
        distinct (map of_file (filter (\<lambda>k. ends_with k ''.network'') (map fst files)))"
      using True im by (simp add: e)
    then show ?thesis unfolding step IH using True by (simp add: e) blast
  qed
qed simp

text \<open>The interface a \<open>.network\<close> file is for, from its name.\<close>

definition of_file :: "string \<Rightarrow> string" where
  "of_file k = take (length k - 14) (drop 6 k)"

lemma of_file_names [simp]:
  "of_file (physical_file x ''network'') = x" "of_file (virtual_file x ''network'') = x"
  by (simp_all add: of_file_def file_names)

lemma devices_of_files:
  assumes "renderable t"
  shows "set (devices_in (fst (networkd_files t))) = virtual_names t"
proof -
  have "x \<in> set (devices_in (fst (networkd_files t))) \<longleftrightarrow>
      (\<exists>k \<in> fst ` set (fst (networkd_files t)). device_of k = Some x)" for x
    unfolding devices_in_def bs_set_from mem_map_filter by force
  then show ?thesis by (simp add: set_eq_iff networkd_file_names bex_Un)
qed

text \<open>
  The files rendered for a configuration are refused exactly when one name is used for a physical
  and for a virtual interface. In particular no \<open>.network\<close> file refers to a device that is not
  created, every device created is configured, and no two files configure one interface.
\<close>

lemma networkd_check_exact:
  assumes t: "renderable t" and a: "networkd_render ps t = Inr a"
  shows "networkd_check a = Inr () \<longleftrightarrow> physical_names t \<inter> virtual_names t = {}"
proof -
  define files where "files = fst (networkd_files t)"
  have first: "first_files (Some a) = files"
    using a by (auto simp: networkd_render_def first_files_def files_def split: prod.splits)
  have ok: "files_ok t files" using networkd_files_ok [OF t] by (simp add: files_def)
  have keys: "fst ` set files = (\<lambda>x. physical_file x ''network'') ` physical_names t \<union>
      (\<lambda>x. virtual_file x ''network'') ` virtual_names t \<union> (\<lambda>x. virtual_file x ''netdev'') ` virtual_names t"
    by (simp add: files_def networkd_file_names)
  have devices: "set (devices_in files) = virtual_names t" using devices_of_files [OF t] by (simp add: files_def)
  have "\<forall>(k, c) \<in> set files. ends_with k ''.network'' \<longrightarrow> describes (set (devices_in files)) (of_file k) c"
    using ok devices by (fastforce simp: files_ok_def entry_ok_def)
  then have nets: "check_networks (devices_in files) [] files = Inr () \<longleftrightarrow>
      distinct (map of_file (filter (\<lambda>k. ends_with k ''.network'') (map fst files)))"
    using check_networks_ok [of files "devices_in files" of_file "[]"] by simp
  have "find (\<lambda>device. bm_get files (virtual_file device ''network'') = None) (devices_in files) = None"
    unfolding find_None_iff devices map_of_eq_None_iff keys by auto
  then have "networkd_check a = Inr () \<longleftrightarrow> check_networks (devices_in files) [] files = Inr ()"
    by (simp add: networkd_check_def first bind_result_Inr)
  also have "\<dots> \<longleftrightarrow> inj_on of_file {k \<in> fst ` set files. ends_with k ''.network''}"
    using nets bm_ok_distinct [of files] ok by (simp add: files_ok_def distinct_map)
  also have "{k \<in> fst ` set files. ends_with k ''.network''} =
      (\<lambda>x. physical_file x ''network'') ` physical_names t \<union> (\<lambda>x. virtual_file x ''network'') ` virtual_names t"
    unfolding keys by auto
  also have "inj_on of_file \<dots> \<longleftrightarrow> physical_names t \<inter> virtual_names t = {}"
  proof
    assume inj: "inj_on of_file ((\<lambda>x. physical_file x ''network'') ` physical_names t \<union>
      (\<lambda>x. virtual_file x ''network'') ` virtual_names t)"
    have False if x: "x \<in> physical_names t" "x \<in> virtual_names t" for x
    proof -
      have "physical_file x ''network'' = virtual_file x ''network''"
        by (rule inj_onD [OF inj]) (use x in simp_all)
      then show False by simp
    qed
    then show "physical_names t \<inter> virtual_names t = {}" by blast
  next
    assume "physical_names t \<inter> virtual_names t = {}"
    then show "inj_on of_file ((\<lambda>x. physical_file x ''network'') ` physical_names t \<union>
      (\<lambda>x. virtual_file x ''network'') ` virtual_names t)"
      by (intro inj_onI) (elim UnE imageE; simp; blast)
  qed
  finally show ?thesis .
qed

text \<open>A machine with one network card and one bond, in the mode given.\<close>

definition bond_node :: "string \<Rightarrow> node" where
  "bond_node mode = Node None (Interior
     [(''member'', Node None (Values [''eth0''])), (''mode'', Node None (Values [mode]))])"

definition bond_tree :: "string \<Rightarrow> config_tree" where
  "bond_tree mode = from_children [(''interfaces'', Node None (Interior
     [(''bonding'', Node None (Interior [(''bond0'', bond_node mode)])),
      (''ethernet'', Node None (Interior [(''eth0'', node_interior)]))]))]"

lemma bond_instances:
  "instances (bond_tree mode) kind =
     (if kind = ''bonding'' then [(''bond0'', bond_node mode)]
      else if kind = ''ethernet'' then [(''eth0'', node_interior)] else [])"
  by (simp add: instances_def bond_tree_def from_children_def tree_get_def)

lemma bond_renderable:
  assumes "newline \<notin> set mode"
  shows "renderable (bond_tree mode)"
proof -
  have "one_line (bond_node mode)" "one_line node_interior" using assms
    by (auto simp: one_line_def list_of_def child_def bond_node_def node_interior_def code_def)
  then show ?thesis
    by (simp add: renderable_def kinds_def bond_instances plain_iface_def char_class code_def)
qed

lemma bond_devices: "device_at (bond_tree mode) x k n \<longleftrightarrow> x = ''bond0'' \<and> k = ''bond'' \<and> n = bond_node mode"
  by (auto simp: device_at_def VIRTUAL_def bond_instances)

section \<open>What is rebuilt\<close>

definition kind_doc :: "string \<Rightarrow> node \<Rightarrow> doc" where
  "kind_doc kind n =
     (if kind = ''vlan'' then opt_line ''VLAN'' ''Id'' (leaf_of n ''id'')
      else if kind = ''bond'' then
        opt_line ''Bond'' ''Mode'' (leaf_of n ''mode'') @
        opt_line ''Bond'' ''TransmitHashPolicy'' (leaf_of n ''hash-policy'') @
        opt_line ''Bond'' ''LACPTransmitRate'' (leaf_of n ''lacp-rate'') @
        opt_line ''Bond'' ''MinLinks'' (leaf_of n ''min-links'') @
        opt_line ''Bond'' ''PrimarySlave'' (leaf_of n ''primary'')
      else if kind = ''bridge'' then
        [(''Bridge'', ''STP'', if flag_of n ''stp'' then ''yes'' else ''no'')] @
        opt_line ''Bridge'' ''Priority'' (leaf_of n ''priority'') @
        opt_line ''Bridge'' ''AgeingTimeSec'' (leaf_of n ''aging-time'')
      else if kind = ''vxlan'' then
        opt_line ''VXLAN'' ''VNI'' (leaf_of n ''vni'') @ opt_line ''VXLAN'' ''Remote'' (leaf_of n ''remote'') @
        opt_line ''VXLAN'' ''Group'' (leaf_of n ''group'') @ opt_line ''VXLAN'' ''Local'' (leaf_of n ''source-address'') @
        opt_line ''VXLAN'' ''DestinationPort'' (leaf_of n ''port'') @ opt_line ''VXLAN'' ''TTL'' (leaf_of n ''ttl'') @
        (if leaf_of n ''source-interface'' = None then [(''VXLAN'', ''Independent'', ''true'')] else [])
      else [])"

definition netdev_doc :: "string \<Rightarrow> string \<Rightarrow> node \<Rightarrow> doc" where
  "netdev_doc kind name n =
     [(''NetDev'', ''Name'', name), (''NetDev'', ''Kind'', kind)] @
     opt_line ''NetDev'' ''Description'' (leaf_of n ''description'') @
     opt_line ''NetDev'' ''MTUBytes'' (leaf_of n ''mtu'') @ opt_line ''NetDev'' ''MACAddress'' (leaf_of n ''mac'') @
     kind_doc kind n"

definition device_kinds :: "string list" where
  "device_kinds = [''vlan'', ''bond'', ''bridge'', ''vxlan'']"

lemma netdev_words:
  "plain_word ''NetDev''" "plain_word ''Kind''" "plain_word ''MACAddress''" "plain_word ''Id''"
  "plain_word ''Mode''" "plain_word ''TransmitHashPolicy''" "plain_word ''LACPTransmitRate''"
  "plain_word ''MinLinks''" "plain_word ''PrimarySlave''" "plain_word ''STP''" "plain_word ''Priority''"
  "plain_word ''AgeingTimeSec''" "plain_word ''VNI''" "plain_word ''Remote''" "plain_word ''Group''"
  "plain_word ''Local''" "plain_word ''DestinationPort''" "plain_word ''TTL''" "plain_word ''Independent''"
  by (simp_all add: plain_word_def char_class code_def)

lemma kind_lines_says:
  assumes n: "one_line n" and i: "says i ''NetDev'' doc" and kind: "kind \<in> set device_kinds"
  shows "\<exists>cur. says (kind_lines kind n i) cur (doc @ kind_doc kind n)"
proof -
  note leaf = one_line_leaf [OF n]
  note says_intros = says_opt says_section [OF i] plain_words netdev_words leaf
  consider "kind = ''vlan''" | "kind = ''bond''" | "kind = ''bridge''" | "kind = ''vxlan''"
    using kind by (auto simp: device_kinds_def)
  then show ?thesis
  proof cases
    case 1
    have "says (kind_lines kind n i) ''VLAN'' (doc @ opt_line ''VLAN'' ''Id'' (leaf_of n ''id''))"
      unfolding kind_lines_def 1 by (simp, intro says_intros)
    then show ?thesis by (auto simp: kind_doc_def 1)
  next
    case 2
    have "says (kind_lines kind n i) ''Bond'' (((((doc @ opt_line ''Bond'' ''Mode'' (leaf_of n ''mode'')) @
        opt_line ''Bond'' ''TransmitHashPolicy'' (leaf_of n ''hash-policy'')) @
        opt_line ''Bond'' ''LACPTransmitRate'' (leaf_of n ''lacp-rate'')) @
        opt_line ''Bond'' ''MinLinks'' (leaf_of n ''min-links'')) @
        opt_line ''Bond'' ''PrimarySlave'' (leaf_of n ''primary''))"
      unfolding kind_lines_def 2 Let_def by (simp only: if_True if_False list.inject char.inject simp_thms)
        (intro says_intros)
    then show ?thesis by (auto simp: kind_doc_def 2)
  next
    case 3
    have "says (kind_lines kind n i) ''Bridge'' (((doc @
        [(''Bridge'', ''STP'', if flag_of n ''stp'' then ''yes'' else ''no'')]) @
        opt_line ''Bridge'' ''Priority'' (leaf_of n ''priority'')) @
        opt_line ''Bridge'' ''AgeingTimeSec'' (leaf_of n ''aging-time''))"
    proof -
      have "kind_lines kind n i = ini_maybe ''AgeingTimeSec'' (leaf_of n ''aging-time'')
          (ini_maybe ''Priority'' (leaf_of n ''priority'')
            (ini_flag ''STP'' (flag_of n ''stp'') (ini_section ''Bridge'' i)))"
        by (simp add: kind_lines_def 3)
      then show ?thesis by (simp only:) (intro says_flag says_intros)
    qed
    then show ?thesis by (auto simp: kind_doc_def 3)
  next
    case 4
    have "says (kind_lines kind n i) ''VXLAN'' (((((((doc @
        opt_line ''VXLAN'' ''VNI'' (leaf_of n ''vni'')) @ opt_line ''VXLAN'' ''Remote'' (leaf_of n ''remote'')) @
        opt_line ''VXLAN'' ''Group'' (leaf_of n ''group'')) @
        opt_line ''VXLAN'' ''Local'' (leaf_of n ''source-address'')) @
        opt_line ''VXLAN'' ''DestinationPort'' (leaf_of n ''port'')) @ opt_line ''VXLAN'' ''TTL'' (leaf_of n ''ttl'')) @
        (if leaf_of n ''source-interface'' = None then [(''VXLAN'', ''Independent'', ''true'')] else []))"
    proof -
      have k: "kind_lines kind n i =
          (if leaf_of n ''source-interface'' = None then ini_key ''Independent'' ''true'' else (\<lambda>i. i))
            (ini_maybe ''TTL'' (leaf_of n ''ttl'') (ini_maybe ''DestinationPort'' (leaf_of n ''port'')
              (ini_maybe ''Local'' (leaf_of n ''source-address'') (ini_maybe ''Group'' (leaf_of n ''group'')
                (ini_maybe ''Remote'' (leaf_of n ''remote'') (ini_maybe ''VNI'' (leaf_of n ''vni'')
                  (ini_section ''VXLAN'' i)))))))"
        by (simp add: kind_lines_def 4 Let_def)
      have "says (ini_maybe ''TTL'' (leaf_of n ''ttl'') (ini_maybe ''DestinationPort'' (leaf_of n ''port'')
              (ini_maybe ''Local'' (leaf_of n ''source-address'') (ini_maybe ''Group'' (leaf_of n ''group'')
                (ini_maybe ''Remote'' (leaf_of n ''remote'') (ini_maybe ''VNI'' (leaf_of n ''vni'')
                  (ini_section ''VXLAN'' i))))))) ''VXLAN'' ((((((doc @
        opt_line ''VXLAN'' ''VNI'' (leaf_of n ''vni'')) @ opt_line ''VXLAN'' ''Remote'' (leaf_of n ''remote'')) @
        opt_line ''VXLAN'' ''Group'' (leaf_of n ''group'')) @
        opt_line ''VXLAN'' ''Local'' (leaf_of n ''source-address'')) @
        opt_line ''VXLAN'' ''DestinationPort'' (leaf_of n ''port'')) @ opt_line ''VXLAN'' ''TTL'' (leaf_of n ''ttl''))"
        by (intro says_intros)
      from says_key [OF this netdev_words(19), of "''true''"] this show ?thesis unfolding k by simp
    qed
    then show ?thesis by (auto simp: kind_doc_def 4)
  qed
qed

lemma netdev_file_says:
  assumes name: "plain_iface name" and n: "one_line n" and kind: "kind \<in> set device_kinds"
  shows "\<exists>i cur. netdev_file kind name n = ini_finish i \<and> says i cur (netdev_doc kind name n)"
proof -
  define i where "i = ini_maybe ''MACAddress'' (leaf_of n ''mac'') (ini_maybe ''MTUBytes'' (leaf_of n ''mtu'')
    (ini_maybe ''Description'' (leaf_of n ''description'')
      (ini_key ''Kind'' kind (ini_key ''Name'' name (ini_section ''NetDev'' ini_new)))))"
  have nm: "newline \<notin> set name" "newline \<notin> set kind"
    using iface_char [OF name] kind by (auto simp: device_kinds_def)
  have start: "says (ini_key ''Kind'' kind (ini_key ''Name'' name (ini_section ''NetDev'' ini_new))) ''NetDev''
      (([] @ [(''NetDev'', ''Name'', name)]) @ [(''NetDev'', ''Kind'', kind)])"
    by (intro says_key says_section [OF says_new] plain_words netdev_words nm)
  have "says i ''NetDev'' ((((([] @ [(''NetDev'', ''Name'', name)]) @ [(''NetDev'', ''Kind'', kind)]) @
      opt_line ''NetDev'' ''Description'' (leaf_of n ''description'')) @
      opt_line ''NetDev'' ''MTUBytes'' (leaf_of n ''mtu'')) @ opt_line ''NetDev'' ''MACAddress'' (leaf_of n ''mac''))"
    unfolding i_def by (intro says_opt start plain_words netdev_words one_line_leaf [OF n])
  from kind_lines_says [OF n this kind] obtain cur where
    "says (kind_lines kind n i) cur (netdev_doc kind name n)" by (auto simp: netdev_doc_def)
  moreover have "netdev_file kind name n = ini_finish (kind_lines kind n i)"
    by (simp add: netdev_file_def Let_def i_def)
  ultimately show ?thesis by blast
qed

text \<open>The settings of a device that its creation fixes, as they are read back.\<close>

definition fixed_settings :: "string \<Rightarrow> node \<Rightarrow> string option list" where
  "fixed_settings kind n =
     map (map_option trim)
       (if kind = ''bond'' then map (leaf_of n) [''mode'', ''hash-policy'', ''lacp-rate'']
        else if kind = ''vlan'' then [leaf_of n ''id'']
        else if kind = ''vxlan'' then
          map (leaf_of n) [''vni'', ''remote'', ''group'', ''source-address'', ''port'', ''ttl''] @
          [if leaf_of n ''source-interface'' = None then Some ''true'' else None]
        else [])"

lemma setting_at_only:
  assumes "\<And>s. s \<noteq> sec \<Longrightarrow> bm_get m (s, key) = None"
  shows "setting_at m key = bm_get m (sec, key)"
  using assms
proof (induction m)
  case (Cons e m)
  obtain s k vs where e: "e = ((s, k), vs)" by (cases e) auto
  show ?case
  proof (cases "k = key")
    case True
    then have "s = sec" using Cons.prems [of s] e by (cases "s = sec") simp_all
    then show ?thesis using True by (simp add: setting_at_def e)
  next
    case False
    then have "\<And>s'. s' \<noteq> sec \<Longrightarrow> bm_get m (s', key) = None" using Cons.prems e by (simp split: if_splits)
    then show ?thesis using Cons.IH False by (simp add: setting_at_def e)
  qed
qed (simp add: setting_at_def)

lemma netdev_lookup:
  assumes "plain_iface name" and "one_line n" and "kind \<in> set device_kinds"
  shows "bm_get (settings (netdev_file kind name n)) = lookup_doc (netdev_doc kind name n)"
  using netdev_file_says [OF assms] says_settings by fastforce

lemma lookup_opt: "lookup_doc doc key = map_option (\<lambda>v. [v]) (map_option trim vo)"
  if "vals doc key = (case vo of None \<Rightarrow> [] | Some v \<Rightarrow> [trim v])"
  using that by (cases vo) (simp_all add: lookup_doc_def)

lemma netdev_setting:
  assumes dev: "plain_iface name" "one_line n" "kind \<in> set device_kinds"
    and at: "vals (netdev_doc kind name n) (sec, key) = (case vo of None \<Rightarrow> [] | Some v \<Rightarrow> [trim v])"
    and only: "\<And>s. s \<noteq> sec \<Longrightarrow> vals (netdev_doc kind name n) (s, key) = []"
  shows "setting_at (settings (netdev_file kind name n)) key = map_option (\<lambda>v. [v]) (map_option trim vo)"
proof -
  have "setting_at (settings (netdev_file kind name n)) key =
      bm_get (settings (netdev_file kind name n)) (sec, key)"
    by (rule setting_at_only) (simp add: netdev_lookup [OF dev] lookup_doc_def only)
  then show ?thesis using lookup_opt [OF at] by (simp add: netdev_lookup [OF dev])
qed

lemma kind_of_netdev:
  assumes "plain_iface name" and "one_line n" and "kind \<in> set device_kinds"
  shows "kind_of (netdev_file kind name n) = Some kind"
proof -
  have "trim kind = kind" using assms(3) by (auto simp: device_kinds_def trim_word plain_word_def char_class code_def)
  moreover have "vals (kind_doc kind n) (''NetDev'', ''Kind'') = []"
    using assms(3) by (auto simp: device_kinds_def kind_doc_def)
  ultimately show ?thesis
    by (simp add: kind_of_def netdev_lookup [OF assms] lookup_doc_def netdev_doc_def)
qed

lemma vxlan_settings:
  assumes "plain_iface x" and "one_line n"
  shows "setting_at (settings (netdev_file ''vxlan'' x n)) ''VNI'' =
      map_option (\<lambda>v. [v]) (map_option trim (leaf_of n ''vni''))"
    "setting_at (settings (netdev_file ''vxlan'' x n)) ''Remote'' =
      map_option (\<lambda>v. [v]) (map_option trim (leaf_of n ''remote''))"
    "setting_at (settings (netdev_file ''vxlan'' x n)) ''Group'' =
      map_option (\<lambda>v. [v]) (map_option trim (leaf_of n ''group''))"
    "setting_at (settings (netdev_file ''vxlan'' x n)) ''Local'' =
      map_option (\<lambda>v. [v]) (map_option trim (leaf_of n ''source-address''))"
    "setting_at (settings (netdev_file ''vxlan'' x n)) ''DestinationPort'' =
      map_option (\<lambda>v. [v]) (map_option trim (leaf_of n ''port''))"
    "setting_at (settings (netdev_file ''vxlan'' x n)) ''TTL'' =
      map_option (\<lambda>v. [v]) (map_option trim (leaf_of n ''ttl''))"
  by (rule netdev_setting [OF assms, where sec = "''VXLAN''"];
    simp add: netdev_doc_def kind_doc_def device_kinds_def)+

lemma needs_recreating_iff:
  assumes old: "plain_iface x" "one_line n" "k \<in> set device_kinds"
    and new: "plain_iface y" "one_line n'" "k' \<in> set device_kinds"
  shows "needs_recreating (netdev_file k x n) (netdev_file k' y n') \<longleftrightarrow>
    k \<noteq> k' \<or> fixed_settings k n \<noteq> fixed_settings k n'"
proof (cases "k = k'")
  case False
  then show ?thesis by (simp add: needs_recreating_def kind_of_netdev [OF old] kind_of_netdev [OF new])
next
  case True
  note kinds = kind_of_netdev [OF old] kind_of_netdev [OF new, folded True]
  have one: "map_option (\<lambda>v. [v]) a = map_option (\<lambda>v. [v]) b \<longleftrightarrow> a = b" for a b :: "string option"
    by (cases a; cases b) auto
  note setting = netdev_setting [OF old] netdev_setting [OF new, folded True]
  consider "k = ''vlan''" | "k = ''bond''" | "k = ''bridge''" | "k = ''vxlan''"
    using old(3) by (auto simp: device_kinds_def)
  then show ?thesis
  proof cases
    case 1
    have "setting_at (settings (netdev_file k x n)) ''Id'' = map_option (\<lambda>v. [v]) (map_option trim (leaf_of n ''id''))"
      "setting_at (settings (netdev_file k y n')) ''Id'' = map_option (\<lambda>v. [v]) (map_option trim (leaf_of n' ''id''))"
      by (rule setting [where sec = "''VLAN''"]; simp add: netdev_doc_def kind_doc_def 1)+
    then show ?thesis
      using kinds one unfolding True [symmetric] 1
      by (simp add: needs_recreating_def RECREATE_def fixed_settings_def)
  next
    case 2
    have s: "setting_at (settings (netdev_file k x n)) key = map_option (\<lambda>v. [v]) (map_option trim (leaf_of n leaf)) \<and>
        setting_at (settings (netdev_file k y n')) key = map_option (\<lambda>v. [v]) (map_option trim (leaf_of n' leaf))"
      if "(key, leaf) \<in> {(''Mode'', ''mode''), (''TransmitHashPolicy'', ''hash-policy''), (''LACPTransmitRate'', ''lacp-rate'')}"
      for key leaf
      by (rule conjI; rule setting [where sec = "''Bond''"]; use that in \<open>auto simp: netdev_doc_def kind_doc_def 2\<close>)
    show ?thesis
      using kinds one s [of "''Mode''" "''mode''"] s [of "''TransmitHashPolicy''" "''hash-policy''"]
        s [of "''LACPTransmitRate''" "''lacp-rate''"]
      unfolding True [symmetric] 2 by (simp add: needs_recreating_def RECREATE_def fixed_settings_def)
  next
    case 3
    then show ?thesis
      using kinds unfolding True [symmetric] 3 by (simp add: needs_recreating_def RECREATE_def fixed_settings_def)
  next
    case 4
    note s = vxlan_settings [OF old(1,2)] vxlan_settings [OF new(1,2)]
    define alone where "alone m = (if leaf_of m ''source-interface'' = None then Some ''true'' else None)" for m
    have i: "setting_at (settings (netdev_file k x n)) ''Independent'' = map_option (\<lambda>v. [v]) (map_option trim (alone n))"
      "setting_at (settings (netdev_file k y n')) ''Independent'' = map_option (\<lambda>v. [v]) (map_option trim (alone n'))"
      by (rule setting [where sec = "''VXLAN''"]; simp add: netdev_doc_def kind_doc_def 4 alone_def)+
    show ?thesis
      using kinds one i s
      unfolding True [symmetric] 4
      by (simp add: needs_recreating_def RECREATE_def fixed_settings_def flip: alone_def)
  qed
qed

definition gone_or_changed :: "(string \<times> string) list \<Rightarrow> string \<times> string \<Rightarrow> bool" where
  "gone_or_changed after_files e \<longleftrightarrow>
     (case bm_get after_files (fst e) of None \<Rightarrow> True | Some new \<Rightarrow> needs_recreating (snd e) new)"

lemma recreations_mem:
  "bs_ok (recreations previous next_a) \<and>
   (x \<in> set (recreations previous next_a) \<longleftrightarrow>
    (\<exists>e \<in> set (first_files previous). device_of (fst e) = Some x \<and>
       gone_or_changed (first_files (Some next_a)) e))"
proof -
  define after_files where "after_files = first_files (Some next_a)"
  define f where "f = (\<lambda>(name, old) out. case device_of name of None \<Rightarrow> out | Some device \<Rightarrow>
      (case bm_get after_files name of None \<Rightarrow> bs_insert device out
       | Some new \<Rightarrow> if needs_recreating old new then bs_insert device out else out))"
  have f: "f e out = (case device_of (fst e) of None \<Rightarrow> out
      | Some d \<Rightarrow> if gone_or_changed after_files e then bs_insert d out else out)" for e out
    by (cases e) (auto simp: f_def gone_or_changed_def split: option.splits)
  have "bs_ok out \<longrightarrow> bs_ok (fold f es out) \<and> (x \<in> set (fold f es out) \<longleftrightarrow>
      x \<in> set out \<or> (\<exists>e \<in> set es. device_of (fst e) = Some x \<and> gone_or_changed after_files e))" for es out
  proof (induction es arbitrary: out)
    case (Cons e es)
    show ?case
    proof (cases "device_of (fst e)")
      case None
      then show ?thesis using Cons.IH [of out] by (simp add: f)
    next
      case (Some d)
      then show ?thesis
        using Cons.IH [of out] Cons.IH [of "bs_insert d out"]
        by (cases "gone_or_changed after_files e") (auto simp: f)
    qed
  qed simp
  from this [of "[]" "first_files previous"] show ?thesis
    unfolding recreations_def Let_def f_def after_files_def by simp
qed

definition unique_devices :: "config_tree \<Rightarrow> bool" where
  "unique_devices t \<longleftrightarrow> (\<forall>x k n k' n'. device_at t x k n \<longrightarrow> device_at t x k' n' \<longrightarrow> k = k' \<and> n = n')"

lemma deviceD:
  assumes "renderable t" and "device_at t x k n"
  shows "plain_iface x" and "one_line n" and "k \<in> set device_kinds"
proof -
  obtain kind where kind: "(kind, k) \<in> set VIRTUAL" "(x, n) \<in> set (instances t kind)"
    using assms(2) by (auto simp: device_at_def)
  then have "kind \<in> set kinds" by (auto simp: VIRTUAL_def kinds_def)
  from renderableD [OF assms(1) this kind(2)] show "plain_iface x" "one_line n" by blast+
  show "k \<in> set device_kinds" using kind(1) by (auto simp: VIRTUAL_def device_kinds_def)
qed

lemma netdev_entry:
  assumes t: "renderable t" "unique_devices t"
  shows "(virtual_file x ''netdev'', c) \<in> set (fst (networkd_files t)) \<longleftrightarrow>
    (\<exists>k n. device_at t x k n \<and> c = netdev_file k x n)"
proof
  assume "(virtual_file x ''netdev'', c) \<in> set (fst (networkd_files t))"
  then have "entry_ok t (virtual_file x ''netdev'', c)"
    using networkd_files_ok [OF t(1)] by (auto simp: files_ok_def)
  then show "\<exists>k n. device_at t x k n \<and> c = netdev_file k x n" by (auto simp: entry_ok_def)
next
  assume "\<exists>k n. device_at t x k n \<and> c = netdev_file k x n"
  then obtain k n where d: "device_at t x k n" "c = netdev_file k x n" by blast
  have "virtual_file x ''netdev'' \<in> fst ` set (fst (networkd_files t))"
    unfolding networkd_file_names using device_name [OF d(1)] by blast
  then obtain c' where c': "(virtual_file x ''netdev'', c') \<in> set (fst (networkd_files t))" by auto
  then have "entry_ok t (virtual_file x ''netdev'', c')"
    using networkd_files_ok [OF t(1)] by (auto simp: files_ok_def)
  then obtain k' n' where "device_at t x k' n'" "c' = netdev_file k' x n'" by (auto simp: entry_ok_def)
  then show "(virtual_file x ''netdev'', c) \<in> set (fst (networkd_files t))"
  proof -
    have "k' = k \<and> n' = n" using \<open>device_at t x k' n'\<close> d(1) t(2) unfolding unique_devices_def by blast
    then show ?thesis using c' d(2) \<open>c' = netdev_file k' x n'\<close> by simp
  qed
qed

lemma first_rendered: "networkd_render ps t = Inr a \<Longrightarrow> first_files (Some a) = fst (networkd_files t)"
  by (auto simp: networkd_render_def first_files_def split: prod.splits)

text \<open>
  C15. An apply destroys exactly the devices of the previous configuration that the new one does not
  have, or has as another kind or with another value of a setting that is fixed when the device is
  created, each once and in order. Applying the previous configuration again, as the restore of a
  failed commit does, destroys none.
\<close>

theorem recreations_exact:
  assumes old: "renderable t" "unique_devices t" "networkd_render ps t = Inr a"
    and new: "renderable t'" "unique_devices t'" "networkd_render ps t' = Inr a'"
  shows "bs_ok (recreations (Some a) a') \<and>
    (x \<in> set (recreations (Some a) a') \<longleftrightarrow>
      (\<exists>k n. device_at t x k n \<and> \<not> (\<exists>n'. device_at t' x k n' \<and> fixed_settings k n' = fixed_settings k n))) \<and>
    recreations (Some a) a = []"
proof -
  have *: "y \<in> set (recreations (Some a) b) \<longleftrightarrow>
      (\<exists>k n. device_at t y k n \<and> \<not> (\<exists>n'. device_at u y k n' \<and> fixed_settings k n' = fixed_settings k n))"
    if u: "renderable u" "unique_devices u" "networkd_render ps u = Inr b" for b u y
  proof -
    have device: "device_of (fst e) = Some y \<longleftrightarrow> fst e = virtual_file y ''netdev''"
      if "e \<in> set (fst (networkd_files t))" for e
      using networkd_files_ok [OF old(1)] that by (fastforce simp: files_ok_def entry_ok_def)
    have okb: "bm_ok (fst (networkd_files u))" using networkd_files_ok [OF u(1)] by (simp add: files_ok_def)
    have gone: "gone_or_changed (fst (networkd_files u)) (virtual_file y ''netdev'', netdev_file k y n) \<longleftrightarrow>
        \<not> (\<exists>n'. device_at u y k n' \<and> fixed_settings k n' = fixed_settings k n)" if d: "device_at t y k n" for k n
    proof (cases "bm_get (fst (networkd_files u)) (virtual_file y ''netdev'')")
      case None
      then have "virtual_file y ''netdev'' \<notin> fst ` set (fst (networkd_files u))" by (simp add: map_of_eq_None_iff)
      then have "y \<notin> virtual_names u" unfolding networkd_file_names by blast
      then show ?thesis using None device_name by (auto simp: gone_or_changed_def)
    next
      case (Some c)
      then obtain k' n' where d': "device_at u y k' n'" "c = netdev_file k' y n'"
        using netdev_entry [OF u(1,2)] map_of_SomeD [OF Some] by blast
      have "needs_recreating (netdev_file k y n) c \<longleftrightarrow> k \<noteq> k' \<or> fixed_settings k n \<noteq> fixed_settings k n'"
        unfolding d'(2) by (rule needs_recreating_iff [OF deviceD [OF old(1) d] deviceD [OF u(1) d'(1)]])
      moreover have "device_at u y k m \<longleftrightarrow> k = k' \<and> m = n'" for m
        using d'(1) u(2) unfolding unique_devices_def by blast
      ultimately show ?thesis using Some by (auto simp: gone_or_changed_def)
    qed
    have "y \<in> set (recreations (Some a) b) \<longleftrightarrow> (\<exists>e \<in> set (fst (networkd_files t)).
        device_of (fst e) = Some y \<and> gone_or_changed (fst (networkd_files u)) e)"
      using recreations_mem [of "Some a" b y] by (simp only: first_rendered [OF old(3)] first_rendered [OF u(3)])
    also have "\<dots> \<longleftrightarrow> (\<exists>c. (virtual_file y ''netdev'', c) \<in> set (fst (networkd_files t)) \<and>
        gone_or_changed (fst (networkd_files u)) (virtual_file y ''netdev'', c))"
      using device by (metis fst_conv prod.collapse)
    also have "\<dots> \<longleftrightarrow> (\<exists>k n. device_at t y k n \<and>
        gone_or_changed (fst (networkd_files u)) (virtual_file y ''netdev'', netdev_file k y n))"
      unfolding netdev_entry [OF old(1,2)] by blast
    also have "\<dots> \<longleftrightarrow> (\<exists>k n. device_at t y k n \<and>
        \<not> (\<exists>n'. device_at u y k n' \<and> fixed_settings k n' = fixed_settings k n))"
      using gone by blast
    finally show ?thesis .
  qed
  have "y \<notin> set (recreations (Some a) a)" for y using * [OF old, of y] by blast
  then have "recreations (Some a) a = []" by (cases "recreations (Some a) a") auto
  then show ?thesis using * [OF new] recreations_mem [of "Some a" a' x] by simp
qed

theorem recreations_exact_witness:
  "\<exists>a b. networkd_render paths_system (bond_tree ''active-backup'') = Inr a \<and>
     networkd_render paths_system (bond_tree ''802.3ad'') = Inr b \<and>
     ''bond0'' \<in> set (recreations (Some a) b) \<and> recreations (Some b) b = []"
proof -
  have rendered: "\<exists>a. networkd_render paths_system (bond_tree mode) = Inr a" for mode
    by (cases "networkd_files (bond_tree mode)") (simp add: networkd_render_def)
  obtain a b where ab: "networkd_render paths_system (bond_tree ''active-backup'') = Inr a"
    "networkd_render paths_system (bond_tree ''802.3ad'') = Inr b"
    using rendered by meson
  have r: "renderable (bond_tree ''active-backup'')" "renderable (bond_tree ''802.3ad'')"
    by (rule bond_renderable, simp add: code_def)+
  have u: "unique_devices (bond_tree mode)" for mode
    by (simp add: unique_devices_def bond_devices)
  have "fixed_settings ''bond'' (bond_node ''active-backup'') \<noteq> fixed_settings ''bond'' (bond_node ''802.3ad'')"
    by (simp add: fixed_settings_def leaf_of_def child_def bond_node_def node_value_def) code_simp
  then have "\<exists>k n. device_at (bond_tree ''active-backup'') ''bond0'' k n \<and>
      \<not> (\<exists>n'. device_at (bond_tree ''802.3ad'') ''bond0'' k n' \<and> fixed_settings k n' = fixed_settings k n)"
    unfolding bond_devices by auto
  then have "''bond0'' \<in> set (recreations (Some a) b)"
    using recreations_exact [OF r(1) u ab(1) r(2) u ab(2), of "''bond0''"] by blast
  moreover have "recreations (Some b) b = []"
    using recreations_exact [OF r(2) u ab(2) r(2) u ab(2)] by blast
  ultimately show ?thesis using ab by blast
qed

end
