(* ===== verification/Renderers.thy ===== *)
theory Renderers
  imports System_Renderer Login_Renderer Networkd_Laws Commit_Laws
begin

text \<open>
  The interfaces renderer as a \<open>Renderer\<close> (\<open>networkd.rs\<close>), the list of all three
  (\<open>src/nightshade-render/src/lib.rs\<close>), and what a commit through them leaves on the machine.
\<close>

section \<open>The interfaces renderer\<close>

definition networkd_previous :: "(artifacts, string) codec \<Rightarrow> 'm host \<Rightarrow> paths \<Rightarrow> 'm \<Rightarrow> artifacts option" where
  "networkd_previous c h ps = last_applied_load c h (last_applied_new (last_applied_dir ps) ''networkd'')"

definition networkd_apply :: "(artifacts, string) codec \<Rightarrow> 'm host \<Rightarrow> paths \<Rightarrow> artifacts \<Rightarrow> 'm \<Rightarrow> 'm outcome" where
  "networkd_apply c h ps a m =
     and_then (sync_all h (ar_managed a) m) (\<lambda>m.
       and_then (write_all h (ar_files a) m) (\<lambda>m.
         and_then (run_all h (map RecreateNetdev (recreations (networkd_previous c h ps m) a)) m) (\<lambda>m.
           run_all h (ar_actions a) m)))"

definition networkd_renderer :: "(artifacts, string) codec \<Rightarrow> 'm host \<Rightarrow> paths \<Rightarrow> 'm renderer" where
  "networkd_renderer c h ps =
     \<lparr>r_name = ''networkd'', r_owns = [''interfaces''], r_render = networkd_render ps,
      r_check = (\<lambda>a m. networkd_check a), r_apply = networkd_apply c h ps, r_verify = verify_files h,
      r_previous = networkd_previous c h ps,
      r_remember = last_applied_save c h (last_applied_new (last_applied_dir ps) ''networkd'')\<rparr>"

section \<open>All of them\<close>

definition renderer_priority :: "schema \<Rightarrow> 'm renderer \<Rightarrow> nat" where
  "renderer_priority sc r = (case node_at sc (r_owns r) of Some n \<Rightarrow> sn_priority n | None \<Rightarrow> u32_MAX)"

definition all_renderers :: "schema \<Rightarrow> (artifacts, string) codec \<Rightarrow> 'm host \<Rightarrow> paths \<Rightarrow> 'm renderer list" where
  "all_renderers sc c h ps =
     sort_key (renderer_priority sc) [system_renderer c h ps, login_renderer c h ps, networkd_renderer c h ps]"

lemma all_renderers_set:
  "set (all_renderers sc c h ps) = {system_renderer c h ps, login_renderer c h ps, networkd_renderer c h ps}"
  unfolding all_renderers_def set_sort by simp

lemma all_renderers_names:
  "distinct (map r_name (all_renderers sc c h ps))"
proof -
  have "distinct (map r_name [system_renderer c h ps, login_renderer c h ps, networkd_renderer c h ps])"
    by (simp add: system_renderer_def login_renderer_def networkd_renderer_def Let_def)
  moreover have "mset (map r_name (all_renderers sc c h ps)) =
      mset (map r_name [system_renderer c h ps, login_renderer c h ps, networkd_renderer c h ps])"
    unfolding all_renderers_def mset_map mset_sort ..
  ultimately show ?thesis using mset_eq_imp_distinct_iff by blast
qed

section \<open>Names of managed files\<close>

lemma managed_file_name:
  assumes "plain_iface x" and "k = physical_file x e \<or> k = virtual_file x e"
    and "e \<in> {''network'', ''netdev'', ''link''}"
  shows "managed_name MANAGED_MARKER k"
proof -
  have s: "contains (''10-ns-'' @ x) ''-ns-''" "contains (''20-ns-'' @ x) ''-ns-''"
    unfolding contains_iff
    by (rule exI [of _ "''10''"], rule exI [of _ x], simp) (rule exI [of _ "''20''"], rule exI [of _ x], simp)
  have "CHR ''/'' \<notin> set x" using iface_char [OF assms(1)] by blast
  then have slash: "CHR ''/'' \<notin> set k" using assms(2,3) by (auto simp: file_names)
  have "k = (''10-ns-'' @ x) @ CHR ''.'' # e \<or> k = (''20-ns-'' @ x) @ CHR ''.'' # e"
    using assms(2) by (simp add: file_names)
  moreover have "CHR ''.'' \<notin> set e" "e \<noteq> ''ns-new''" using assms(3) by auto
  ultimately show ?thesis
    using slash s unfolding managed_name_def MANAGED_MARKER_def by (metis append_is_Nil_conv list.distinct(1))
qed

lemma links_ok:
  assumes "renderable t"
  shows "managed_names MANAGED_MARKER (snd (networkd_files t))"
proof -
  let ?ok = "\<lambda>m. managed_names MANAGED_MARKER m"
  have step: "?ok (snd (physical_step att (name, n) out))" if "?ok (snd out)" "plain_iface name" for att name n out
  proof -
    obtain files links where out: "out = (files, links)" by (cases out)
    have k: "managed_name MANAGED_MARKER (physical_file name ''link'')"
      by (rule managed_file_name [OF that(2)]) auto
    have "managed_names MANAGED_MARKER (bm_insert (physical_file name ''link'') link links)" for link
      using that(1) k unfolding managed_names_def out snd_conv bm_keys_insert by (simp add: bm_ok_insert)
    then show ?thesis using that(1) by (simp add: out physical_step_def split: option.splits)
  qed
  have "?ok (snd (fold (physical_step att) (instances t kind) out))"
    if "?ok (snd out)" "kind \<in> set kinds" for att kind and out :: "(string \<times> string) list \<times> (string \<times> string) list"
  proof (rule fold_inv [where P = "\<lambda>out. ?ok (snd out)", OF that(1)])
    fix x and s :: "(string \<times> string) list \<times> (string \<times> string) list"
    assume x: "x \<in> set (instances t kind)" and s: "?ok (snd s)"
    obtain name n where xn: "x = (name, n)" by (cases x)
    show "?ok (snd (physical_step att x s))"
      using step [OF s] renderableD [OF assms that(2)] x unfolding xn by blast
  qed
  moreover have "?ok []" by (simp add: managed_names_def)
  ultimately show ?thesis by (simp add: networkd_files_def Let_def kinds_def)
qed

lemma files_managed:
  assumes "renderable t"
  shows "managed_names MANAGED_MARKER (fst (networkd_files t))"
proof -
  have plain: "plain_iface x" if "x \<in> physical_names t \<union> virtual_names t" for x
    using assms that by (fastforce simp: renderable_def kinds_def physical_names_def virtual_names_def names_of_def)
  have "managed_name MANAGED_MARKER k" if "k \<in> fst ` set (fst (networkd_files t))" for k
    using that plain managed_file_name unfolding networkd_file_names by blast
  then show ?thesis using networkd_files_ok [OF assms] by (simp add: managed_names_def files_ok_def)
qed

section \<open>What an apply does to the files\<close>

definition temporary_of :: "file_path \<Rightarrow> file_path" where
  "temporary_of p = with_extension p ''ns-new''"

context file_host
begin

lemma update_hosts_leaves:
  "update_hosts h ps name domain m = (m', r) \<Longrightarrow> ok m \<Longrightarrow>
   ok m' \<and> (q \<noteq> hosts ps \<longrightarrow> q \<noteq> temporary_of (hosts ps) \<longrightarrow> files m' q = files m q)"
  unfolding update_hosts_def temporary_of_def lift_host_def
  by (auto split: sum.splits prod.splits intro: ok_steps(2) write_leaves)

lemma system_actions_leaves:
  assumes "system_actions h ps as m = (m', r)" and "ok m" and "q \<in> kept"
    and "q \<noteq> hosts ps" and "q \<noteq> temporary_of (hosts ps)"
  shows "ok m' \<and> files m' q = files m q"
  using assms(1,2)
proof (induction as arbitrary: m)
  case (Cons a as)
  define hosts_step where "hosts_step = (case a of SetHostName name domain \<Rightarrow> update_hosts h ps name domain m | _ \<Rightarrow> (m, Inr ()))"
  obtain m1 r1 where one: "hosts_step = (m1, r1)" by (cases hosts_step)
  have m1: "ok m1 \<and> files m1 q = files m q"
    using one Cons.prems(2) assms(4,5) update_hosts_leaves [of ps _ _ m m1 r1 q]
    by (cases a) (auto simp: hosts_step_def)
  obtain args where args: "argv a = Some args" by (cases a) auto
  obtain m2 r2 where run: "h_run h args m1 = (m2, r2)" by fastforce
  have m2: "ok m2 \<and> files m2 q = files m q"
    using run_keeps [OF _ assms(3) run] ok_steps(3) [OF _ run] m1 by auto
  have step: "system_actions h ps (a # as) m =
      and_then (and_then hosts_step (\<lambda>m. lift_host (h_run h args m))) (system_actions h ps as)"
    by (simp add: hosts_step_def args)
  show ?case
    using Cons.prems(1) m1 m2 Cons.IH [of m2] unfolding step one
    by (cases r1; cases r2) (auto simp: and_then_def lift_host_def run)
qed simp

lemma login_actions_leaves:
  "login_actions h as m = (m', r) \<Longrightarrow> ok m \<Longrightarrow> q \<in> kept \<Longrightarrow> ok m' \<and> files m' q = files m q"
proof (induction as arbitrary: m)
  case (Cons a as)
  obtain args where args: "argv a = Some args" by (cases a) auto
  define one where "one = (case a of SetPassword name hash \<Rightarrow> h_run_secret h args (name @ '':'' @ hash @ [newline]) m
    | _ \<Rightarrow> h_run h args m)"
  obtain m1 r1 where m1: "one = (m1, r1)" by (cases one)
  have keep: "ok m1 \<and> files m1 q = files m q"
    using m1 Cons.prems(2,3) ok_steps(3,4) [OF Cons.prems(2)] run_keeps run_secret_keeps
    by (cases a) (auto simp: one_def)
  have step: "login_actions h (a # as) m = and_then (lift_host one) (login_actions h as)"
    using args by (cases a) (simp_all add: one_def)
  show ?case
    using Cons.prems(1,3) keep Cons.IH [of m1] unfolding step m1
    by (cases r1) (auto simp: and_then_def lift_host_def)
qed simp

lemma login_apply_leaves:
  assumes "login_apply c h ps a m = (m', r)" and "ok m" and "q \<in> kept"
  shows "ok m' \<and> files m' q = files m q"
proof -
  obtain m1 r1 where one: "login_actions h (ar_actions a) m = (m1, r1)" by fastforce
  have "ok m1 \<and> files m1 q = files m q" by (rule login_actions_leaves [OF one assms(2,3)])
  then show ?thesis
    using assms(1,3) run_all_keeps [of _ m1 m' r q] one
    by (cases r1) (auto simp: login_apply_def and_then_def)
qed

lemma system_apply_files:
  assumes "system_apply h ps a m = (m', Inr ())" and "ok m" and "q \<in> kept"
    and "ar_files a = [(resolv_conf ps, text)]"
    and "q \<notin> {hosts ps, temporary_of (hosts ps), temporary_of (resolv_conf ps)}"
    and "temporary_of (resolv_conf ps) \<noteq> resolv_conf ps"
  shows "ok m' \<and> files m' q = (if q = resolv_conf ps then Some text else files m q)"
proof -
  obtain m1 where w: "write_all h (ar_files a) m = (m1, Inr ())"
    and rest: "system_actions h ps (ar_actions a) m1 = (m', Inr ())"
    using assms(1) by (auto simp: system_apply_def outcome_simps)
  have "ok m1 \<and> files m1 q = (case bm_get (ar_files a) q of Some c \<Rightarrow> Some c | None \<Rightarrow> files m q)"
    by (rule write_all_done [OF w assms(2)])
      (use assms(4-6) in \<open>auto simp: bm_ok_def temporary_of_def\<close>)
  then have "ok m1" and at: "files m1 q = (if q = resolv_conf ps then Some text else files m q)"
    using assms(4) by auto
  have "ok m' \<and> files m' q = files m1 q"
    by (rule system_actions_leaves [OF rest \<open>ok m1\<close> assms(3)]) (use assms(5) in auto)
  then show ?thesis using at by simp
qed

lemma networkd_apply_files:
  assumes "networkd_apply c h ps a m = (m', Inr ())" and "ok m" and "q \<in> kept"
    and "ar_files a = []" and "distinct (map mg_dir (ar_managed a))"
    and "\<And>mg. mg \<in> set (ar_managed a) \<Longrightarrow> managed_names (mg_marker mg) (mg_files mg)"
  shows "ok m'"
    and "mg \<in> set (ar_managed a) \<Longrightarrow> butlast q = mg_dir mg \<Longrightarrow>
      files m' q = synced (mg_dir mg) (mg_marker mg) (mg_files mg) (files m) q"
    and "(\<And>mg. mg \<in> set (ar_managed a) \<Longrightarrow> butlast q \<noteq> mg_dir mg) \<Longrightarrow> files m' q = files m q"
proof -
  obtain m1 m2 where s: "sync_all h (ar_managed a) m = (m1, Inr ())"
    and r: "run_all h (map RecreateNetdev (recreations (networkd_previous c h ps m1) a)) m1 = (m2, Inr ())"
    and r': "run_all h (ar_actions a) m2 = (m', Inr ())"
    using assms(1,4) by (auto simp: networkd_apply_def outcome_simps)
  have m1: "ok m1"
  proof (cases "\<exists>mg \<in> set (ar_managed a). butlast q = mg_dir mg")
    case True
    then show ?thesis using sync_all_done [OF s assms(2,5) _ assms(6)] by blast
  next
    case False
    then show ?thesis using sync_all_other [OF s assms(2), of q] assms(6) by blast
  qed
  have keep: "ok m' \<and> files m' q = files m1 q"
    using run_all_keeps [OF r m1, of q] run_all_keeps [OF r', of q] assms(3) by simp
  then show "ok m'" by simp
  show "files m' q = synced (mg_dir mg) (mg_marker mg) (mg_files mg) (files m) q"
    if "mg \<in> set (ar_managed a)" "butlast q = mg_dir mg"
    using sync_all_done [OF s assms(2,5) that(1) assms(6) that(2)] keep by simp
  show "files m' q = files m q" if "\<And>mg. mg \<in> set (ar_managed a) \<Longrightarrow> butlast q \<noteq> mg_dir mg"
    using sync_all_other [OF s assms(2), of q] assms(6) that keep by simp
qed

lemma remembers_leave:
  assumes "\<forall>(r, a) \<in> set plan. \<forall>m m' res. ok m \<longrightarrow> r_remember r a m = (m', res) \<longrightarrow>
      ok m' \<and> files m' q = files m q"
    and "ok m"
  shows "ok (remember_all plan m) \<and> files (remember_all plan m) q = files m q"
  using assms
proof (induction plan arbitrary: m)
  case (Cons x plan)
  obtain r a where x: "x = (r, a)" by (cases x)
  obtain m1 res where m1: "r_remember r a m = (m1, res)" by fastforce
  have "ok m1 \<and> files m1 q = files m q" using Cons.prems m1 x by fastforce
  moreover have "\<forall>(r, a) \<in> set plan. \<forall>m m' res. ok m \<longrightarrow> r_remember r a m = (m', res) \<longrightarrow>
      ok m' \<and> files m' q = files m q"
    using Cons.prems(1) by simp
  ultimately show ?case using Cons.IH [of m1] m1 x by simp
qed simp

text \<open>One renderer of a plan decides what a file holds, and the others leave it alone.\<close>

lemma applies_once:
  assumes "applies plan m m'" and "ok m" and "distinct (map (r_name \<circ> fst) plan)" and "(r0, a0) \<in> set plan"
    and "\<forall>(r, a) \<in> set plan. \<forall>m m'. ok m \<longrightarrow> r_apply r a m = (m', Inr ()) \<longrightarrow>
      ok m' \<and> files m' q = (if r_name r = r_name r0 then g (files m q) else files m q)"
  shows "ok m' \<and> files m' q = g (files m q)"
proof -
  have "ok m' \<and> files m' q = (if r_name r0 \<in> (r_name \<circ> fst) ` set plan then g (files m q) else files m q)"
    using assms(1,2,3,5)
  proof (induction plan arbitrary: m)
    case (Cons x plan)
    obtain r a where x: "x = (r, a)" by (cases x)
    obtain m1 where m1: "r_apply r a m = (m1, Inr ())" and rest: "applies plan m1 m'"
      using Cons.prems(1) x by auto
    have step: "ok m1 \<and> files m1 q = (if r_name r = r_name r0 then g (files m q) else files m q)"
      using Cons.prems(4) Cons.prems(2) m1 unfolding x by fastforce
    have "ok m' \<and> files m' q = (if r_name r0 \<in> (r_name \<circ> fst) ` set plan then g (files m1 q) else files m1 q)"
    proof (rule Cons.IH [OF rest])
      show "ok m1" using step by simp
      show "distinct (map (r_name \<circ> fst) plan)" using Cons.prems(3) by (simp add: comp_def)
      show "\<forall>(r, a) \<in> set plan. \<forall>m m'. ok m \<longrightarrow> r_apply r a m = (m', Inr ()) \<longrightarrow>
          ok m' \<and> files m' q = (if r_name r = r_name r0 then g (files m q) else files m q)"
        using Cons.prems(4) by simp
    qed
    moreover have "r_name r = r_name r0 \<Longrightarrow> r_name r0 \<notin> (r_name \<circ> fst) ` set plan"
      using Cons.prems(3) x by auto
    ultimately show ?case using step x by auto
  qed simp
  moreover have "r_name r0 \<in> (r_name \<circ> fst) ` set plan" using assms(4) by force
  ultimately show ?thesis by simp
qed

end

section \<open>What a commit leaves on the machine\<close>

text \<open>The files the renderers decide.\<close>

definition targets :: "paths \<Rightarrow> file_path set" where
  "targets ps = insert (resolv_conf ps) {q. butlast q = networkd_dir ps \<or> butlast q = link_dir ps}"

definition bookkeeping :: "paths \<Rightarrow> file_path set" where
  "bookkeeping ps = (\<Union>n \<in> {''system'', ''login'', ''networkd''}.
     {la_path (last_applied_new (last_applied_dir ps) n),
      with_extension (la_path (last_applied_new (last_applied_dir ps) n)) ''ns-new''})"

lemma system_paths:
  "with_extension (hosts ps) ''ns-new'' = paths_root ps @ [''etc'', ''hosts.ns-new'']"
  "with_extension (resolv_conf ps) ''ns-new'' = paths_root ps @ [''etc'', ''resolv.ns-new'']"
  by (simp_all add: rendered_paths with_extension_def file_stem_def butlast_append)

lemma bookkeeping_dir: "p \<in> bookkeeping ps \<Longrightarrow> butlast p = last_applied_dir ps"
  by (auto simp: bookkeeping_def last_applied_new_def path_join_name with_extension_def)

lemma targets_dir:
  "q \<in> targets ps \<Longrightarrow> q = resolv_conf ps \<or> butlast q = networkd_dir ps \<or> butlast q = link_dir ps"
  by (auto simp: targets_def)

lemma targets_apart:
  assumes "q \<in> targets ps"
  shows "q \<notin> {hosts ps, with_extension (hosts ps) ''ns-new'', with_extension (resolv_conf ps) ''ns-new''}"
    and "q \<notin> bookkeeping ps" and "with_extension (resolv_conf ps) ''ns-new'' \<noteq> resolv_conf ps"
    and "q \<noteq> resolv_conf ps \<Longrightarrow> butlast q = networkd_dir ps \<or> butlast q = link_dir ps"
    and "butlast q = networkd_dir ps \<Longrightarrow> butlast q \<noteq> link_dir ps"
    and "butlast q = networkd_dir ps \<or> butlast q = link_dir ps \<Longrightarrow> q \<noteq> resolv_conf ps"
proof -
  have dirs: "butlast (hosts ps) = paths_root ps @ [''etc'']" "butlast (resolv_conf ps) = paths_root ps @ [''etc'']"
    "butlast (paths_root ps @ [''etc'', x]) = paths_root ps @ [''etc'']" for x
    by (simp_all add: rendered_paths butlast_append)
  note at = targets_dir [OF assms]
  show "q \<notin> {hosts ps, with_extension (hosts ps) ''ns-new'', with_extension (resolv_conf ps) ''ns-new''}"
    using at dirs unfolding system_paths by (auto simp: rendered_paths)
  show "q \<notin> bookkeeping ps"
  proof
    assume "q \<in> bookkeeping ps"
    then have "butlast q = last_applied_dir ps" by (rule bookkeeping_dir)
    then show False using at dirs by (auto simp: rendered_paths)
  qed
  show "with_extension (resolv_conf ps) ''ns-new'' \<noteq> resolv_conf ps"
    unfolding system_paths by (simp add: rendered_paths)
  show "q \<noteq> resolv_conf ps \<Longrightarrow> butlast q = networkd_dir ps \<or> butlast q = link_dir ps" using at by blast
  show "butlast q = networkd_dir ps \<Longrightarrow> butlast q \<noteq> link_dir ps" by (simp add: rendered_paths)
  show "butlast q = networkd_dir ps \<or> butlast q = link_dir ps \<Longrightarrow> q \<noteq> resolv_conf ps"
    using dirs(2) by (auto simp: rendered_paths)
qed

lemma rendered_system:
  "system_render ps t = Inr a \<Longrightarrow> ar_files a = [(resolv_conf ps, resolv_text (system_value t ''system domain-name'')
     (case values_at [''system'', ''name-server''] t of Some vs \<Rightarrow> vs | None \<Rightarrow> []))]"
  by (auto simp: system_render_def Let_def)

lemma rendered_managed:
  assumes "networkd_render ps t = Inr a"
  shows "ar_files a = []"
    and "ar_managed a = [\<lparr>mg_dir = networkd_dir ps, mg_marker = MANAGED_MARKER, mg_files = fst (networkd_files t)\<rparr>,
      \<lparr>mg_dir = link_dir ps, mg_marker = MANAGED_MARKER, mg_files = snd (networkd_files t)\<rparr>]"
  using assms by (auto simp: networkd_render_def split: prod.splits)

lemma rendered_networkd:
  assumes "networkd_render ps t = Inr a"
  shows "distinct (map mg_dir (ar_managed a))"
    and "renderable t \<Longrightarrow> mg \<in> set (ar_managed a) \<Longrightarrow> managed_names (mg_marker mg) (mg_files mg)"
  using files_managed [of t] links_ok [of t] unfolding rendered_managed [OF assms]
  by (auto simp: rendered_paths)

text \<open>What each renderer does to a target.\<close>

definition effect :: "paths \<Rightarrow> config_tree \<Rightarrow> string \<Rightarrow> file_path \<Rightarrow> string option \<Rightarrow> string option" where
  "effect ps t n q v =
     (if n = ''system'' \<and> q = resolv_conf ps then
        Some (resolv_text (system_value t ''system domain-name'')
          (case values_at [''system'', ''name-server''] t of Some vs \<Rightarrow> vs | None \<Rightarrow> []))
      else if n = ''networkd'' \<and> butlast q = networkd_dir ps then
        synced (networkd_dir ps) MANAGED_MARKER (fst (networkd_files t)) (\<lambda>_. v) q
      else if n = ''networkd'' \<and> butlast q = link_dir ps then
        synced (link_dir ps) MANAGED_MARKER (snd (networkd_files t)) (\<lambda>_. v) q
      else v)"

context file_host
begin

lemma remember_leaves:
  assumes "r \<in> {system_renderer c h ps, login_renderer c h ps, networkd_renderer c h ps}"
    and "q \<notin> bookkeeping ps" and "ok m" and "r_remember r a m = (m', res)"
  shows "ok m' \<and> files m' q = files m q"
proof -
  obtain n where n: "n \<in> {''system'', ''login'', ''networkd''}"
    "last_applied_save c h (last_applied_new (last_applied_dir ps) n) a m = (m', res)"
  proof -
    consider "r = system_renderer c h ps" | "r = login_renderer c h ps" | "r = networkd_renderer c h ps"
      using assms(1) by blast
    then show thesis
    proof cases
      case 1
      then show thesis using that [of "''system''"] assms(4) by (simp add: system_renderer_def Let_def)
    next
      case 2
      then show thesis using that [of "''login''"] assms(4) by (simp add: login_renderer_def)
    next
      case 3
      then show thesis using that [of "''networkd''"] assms(4) by (simp add: networkd_renderer_def)
    qed
  qed
  then obtain r1 where "h_write h (la_path (last_applied_new (last_applied_dir ps) n)) (enc c a) m = (m', r1)"
    by (auto simp: last_applied_save_def split: prod.splits sum.splits)
  moreover have "q \<noteq> la_path (last_applied_new (last_applied_dir ps) n)"
    "q \<noteq> with_extension (la_path (last_applied_new (last_applied_dir ps) n)) ''ns-new''"
    using assms(2) n(1) by (auto simp: bookkeeping_def)
  ultimately show ?thesis using ok_steps(2) [OF assms(3)] write_leaves [OF assms(3)] by blast
qed

lemma apply_effect:
  assumes q: "q \<in> targets ps" "q \<in> kept" and t: "renderable t"
    and r: "r \<in> {system_renderer c h ps, login_renderer c h ps, networkd_renderer c h ps}"
    and a: "r_render r t = Inr a" and m: "ok m" and run: "r_apply r a m = (m', Inr ())"
  shows "ok m' \<and> files m' q = effect ps t (r_name r) q (files m q)"
proof -
  note apart = targets_apart [OF q(1)]
  consider (system) "r = system_renderer c h ps" | (login) "r = login_renderer c h ps"
    | (networkd) "r = networkd_renderer c h ps" using r by blast
  then show ?thesis
  proof cases
    case system
    then have a': "system_render ps t = Inr a" "system_apply h ps a m = (m', Inr ())"
      using a run by (simp_all add: system_renderer_def Let_def)
    show ?thesis
      using system_apply_files [OF a'(2) m q(2) rendered_system [OF a'(1)]] apart(1,3) system
      by (simp add: effect_def system_renderer_def Let_def temporary_of_def)
  next
    case login
    then have "login_apply c h ps a m = (m', Inr ())" using run by (simp add: login_renderer_def)
    from login_apply_leaves [OF this m q(2)] show ?thesis
      using login by (simp add: effect_def login_renderer_def)
  next
    case networkd
    then have a': "networkd_render ps t = Inr a" "networkd_apply c h ps a m = (m', Inr ())"
      using a run by (simp_all add: networkd_renderer_def)
    note outcome = networkd_apply_files [OF a'(2) m q(2) rendered_managed(1) [OF a'(1)]
        rendered_networkd(1) [OF a'(1)] rendered_networkd(2) [OF a'(1) t]]
    have name: "r_name r = ''networkd''" using networkd by (simp add: networkd_renderer_def)
    have sync: "synced dir mk fs (files m) q = synced dir mk fs (\<lambda>_. files m q) q" for dir mk fs
      by (rule synced_cong) simp
    have "files m' q = effect ps t ''networkd'' q (files m q)"
    proof -
      consider "butlast q = networkd_dir ps" | "butlast q \<noteq> networkd_dir ps" "butlast q = link_dir ps"
        | "butlast q \<noteq> networkd_dir ps" "butlast q \<noteq> link_dir ps" by blast
      then show ?thesis
      proof cases
        case 1
        then show ?thesis using outcome(2) [of "ar_managed a ! 0"] sync
          unfolding rendered_managed(2) [OF a'(1)] by (simp add: effect_def)
      next
        case 2
        then show ?thesis using outcome(2) [of "ar_managed a ! 1"] sync
          unfolding rendered_managed(2) [OF a'(1)] by (simp add: effect_def)
      next
        case 3
        then have "files m' q = files m q"
          by (intro outcome(3)) (auto simp: rendered_managed(2) [OF a'(1)])
        then show ?thesis using 3 by (simp add: effect_def)
      qed
    qed
    then show ?thesis using outcome(1) name by simp
  qed
qed

lemma commit_files:
  assumes kept: "targets ps \<subseteq> kept" and t: "renderable t" and m: "ok m"
    and commit: "commit_apply (all_renderers sc c h ps) t m = (m', Inr ())" and q: "q \<in> targets ps"
  shows "files m' q = effect ps t (if q = resolv_conf ps then ''system'' else ''networkd'') q (files m q)"
proof -
  let ?rs = "all_renderers sc c h ps"
  obtain plan m1 where plan: "render_all ?rs t = Inr plan" and run: "applies plan m m1"
    and m': "m' = remember_all plan m1"
    by (rule commit_apply_cases [OF commit]) auto
  have rs: "map fst plan = ?rs" "\<forall>(r, a) \<in> set plan. r \<in> set ?rs \<and> r_render r t = Inr a"
    using render_all_plan [OF plan] by auto
  define r0 where "r0 = (if q = resolv_conf ps then system_renderer c h ps else networkd_renderer c h ps)"
  have name0: "r_name r0 = (if q = resolv_conf ps then ''system'' else ''networkd'')"
    by (simp add: r0_def system_renderer_def networkd_renderer_def Let_def)
  have "r0 \<in> set (map fst plan)" unfolding rs(1) all_renderers_set by (simp add: r0_def)
  then obtain a0 where r0: "(r0, a0) \<in> set plan" by auto
  have names: "distinct (map (r_name \<circ> fst) plan)"
    using all_renderers_names [of sc c h ps] unfolding rs(1) [symmetric] by simp
  have steps: "\<forall>(r, a) \<in> set plan. \<forall>m m'. ok m \<longrightarrow> r_apply r a m = (m', Inr ()) \<longrightarrow>
      ok m' \<and> files m' q = (if r_name r = r_name r0 then effect ps t (r_name r0) q (files m q) else files m q)"
  proof clarify
    fix r a m m'
    assume ra: "(r, a) \<in> set plan" and m: "ok m" and ap: "r_apply r a m = (m', Inr ())"
    have r: "r \<in> {system_renderer c h ps, login_renderer c h ps, networkd_renderer c h ps}" "r_render r t = Inr a"
      using rs(2) ra unfolding all_renderers_set by auto
    have "ok m' \<and> files m' q = effect ps t (r_name r) q (files m q)"
      using apply_effect [OF q _ t r m ap] q kept by blast
    moreover have "r_name r \<noteq> r_name r0 \<Longrightarrow> effect ps t (r_name r) q v = v" for v
      using targets_apart(4,6) [OF q] by (auto simp: effect_def name0 split: if_splits)
    ultimately show "ok m' \<and> files m' q =
        (if r_name r = r_name r0 then effect ps t (r_name r0) q (files m q) else files m q)" by auto
  qed
  have decided: "ok m1 \<and> files m1 q = effect ps t (r_name r0) q (files m q)"
    by (rule applies_once [OF run m names r0 steps])
  have "\<forall>(r, a) \<in> set plan. \<forall>m m' res. ok m \<longrightarrow> r_remember r a m = (m', res) \<longrightarrow> ok m' \<and> files m' q = files m q"
  proof clarify
    fix r a m m' res
    assume "(r, a) \<in> set plan" "ok m" "r_remember r a m = (m', res)"
    moreover from this have "r \<in> {system_renderer c h ps, login_renderer c h ps, networkd_renderer c h ps}"
      using rs(2) unfolding all_renderers_set by auto
    ultimately show "ok m' \<and> files m' q = files m q"
      using remember_leaves targets_apart(2) [OF q] by blast
  qed
  from remembers_leave [OF this] decided show ?thesis by (simp add: m' name0)
qed

end

text \<open>
  C12. After a commit that reports success, whatever the disk refused on the way, the machine holds what
  the configuration says: \<open>resolv.conf\<close> is the rendered one, and the two directories of unit files
  hold exactly the rendered files among those that carry the marker, with every other file as it was.
  The programs run must leave these files alone.
\<close>

theorem commit_reaches_machine:
  assumes io: "lists_all io" and programs: "leaves_files programs (targets ps)"
    and d: "bm_ok (mc_disk m)" and t: "renderable t"
    and commit: "commit_apply (all_renderers sc c (real_host io programs) ps) t m = (m', Inr ())"
  shows "text_at (mc_disk m') (resolv_conf ps) = Some (resolv_text (system_value t ''system domain-name'')
      (case values_at [''system'', ''name-server''] t of Some vs \<Rightarrow> vs | None \<Rightarrow> [])) \<and>
    text_at (mc_disk m') (networkd_dir ps @ [n]) =
      (case bm_get (fst (networkd_files t)) n of Some text \<Rightarrow> Some text
       | None \<Rightarrow> if contains n MANAGED_MARKER then None else text_at (mc_disk m) (networkd_dir ps @ [n])) \<and>
    text_at (mc_disk m') (link_dir ps @ [n]) =
      (case bm_get (snd (networkd_files t)) n of Some text \<Rightarrow> Some text
       | None \<Rightarrow> if contains n MANAGED_MARKER then None else text_at (mc_disk m) (link_dir ps @ [n]))"
proof -
  have at: "text_at (mc_disk m') q =
      effect ps t (if q = resolv_conf ps then ''system'' else ''networkd'') q (text_at (mc_disk m) q)"
    if "q \<in> targets ps" for q
    by (rule file_host.commit_files [OF real_file_host [OF io programs] order_refl t d commit that])
  have q: "resolv_conf ps \<in> targets ps" "networkd_dir ps @ [n] \<in> targets ps" "link_dir ps @ [n] \<in> targets ps"
    by (simp_all add: targets_def)
  have "networkd_dir ps \<noteq> link_dir ps" by (simp add: rendered_paths)
  then show ?thesis
    using at [OF q(1)] at [OF q(2)] at [OF q(3)] targets_apart(6) [OF q(2)] targets_apart(6) [OF q(3)]
    by (simp add: effect_def synced_def split: option.splits)
qed

text \<open>An empty configuration, committed on a small machine whose programs succeed and do nothing.\<close>

definition idle_programs :: "(nat, unit) programs" where
  "idle_programs program arguments inp m = (m, Inr \<lparr>en_code = Some 0, en_stderr = []\<rparr>)"

definition no_codec :: "(artifacts, string) codec" where
  "no_codec = \<lparr>enc = (\<lambda>a. ''none''), dec = (\<lambda>s. Inl ''none'')\<rparr>"

definition no_schema :: schema where
  "no_schema = \<lparr>sc_root = SchemaNode SContainer [] None False False 0 [] [] [] [], sc_globals = []\<rparr>"

definition small_machine :: "(nat, unit) machine" where
  "small_machine = \<lparr>mc_disk = [([''run'', ''systemd'', ''network'', ''10-ns-eth1.network''], plain_file ''b''),
     ([''run'', ''systemd'', ''network'', ''50-other.network''], plain_file ''c'')], mc_world = ()\<rparr>"

lemma empty_tree:
  "instances tree_new kind = []" "renderable tree_new" "networkd_files tree_new = ([], [])" "users tree_new = []"
  "system_value tree_new s = None" "values_at [''system'', ''name-server''] tree_new = None"
proof -
  show none: "instances tree_new kind = []" for kind
    by (simp add: instances_def tree_new_def tree_get_def node_interior_def)
  then show "renderable tree_new" by (simp add: renderable_def)
  show "networkd_files tree_new = ([], [])" by (simp add: networkd_files_def none VIRTUAL_def)
  show "users tree_new = []"
    by (simp add: users_def tree_new_def tree_get_def node_interior_def)
  have "Option.bind (node_get p node_interior) node_value = None" for p
    by (cases p) (simp_all add: node_interior_def node_value_def)
  then show "system_value tree_new s = None"
    by (simp add: system_value_def tree_get_def tree_new_def split: sum.split)
  show "values_at [''system'', ''name-server''] tree_new = None"
    by (simp add: values_at_def tree_get_def tree_new_def node_interior_def)
qed

abbreviation small_host :: "(nat, unit) machine host" where
  "small_host \<equiv> real_host good_io idle_programs"

lemma good_io_ok: "no_faults good_io" "lists_all good_io"
  by (simp_all add: no_faults_def lists_all_def good_io_def)

lemma small_run: "args \<noteq> [] \<Longrightarrow> h_run small_host args m = (m, Inr ())"
  by (cases args) (simp_all add: real_host_def real_run_def idle_programs_def)

lemma small_previous: "last_applied_load no_codec small_host la m = None"
  by (auto simp: last_applied_load_def no_codec_def split: sum.splits option.splits)

lemma small_sync:
  assumes "bm_ok (mc_disk m)"
  shows "\<exists>m'. h_sync small_host dir marker [] m = (m', Inr ()) \<and> bm_ok (mc_disk m')"
proof -
  have "managed_names marker []" by (simp add: managed_names_def)
  then obtain d' where d': "real_sync good_io dir marker [] (mc_disk m) = (d', Inr ())"
    using real_sync_exact [OF _ good_io_ok assms] by blast
  then show ?thesis using real_sync_bm_ok [OF d' assms] by (simp add: real_host_def on_disk_def)
qed

lemma small_system:
  assumes "bm_ok (mc_disk m)"
  shows "\<exists>m'. system_apply small_host paths_system
      \<lparr>ar_managed = [], ar_files = [(resolv_conf paths_system, text)], ar_actions = []\<rparr> m = (m', Inr ()) \<and>
    verify_files small_host
      \<lparr>ar_managed = [], ar_files = [(resolv_conf paths_system, text)], ar_actions = []\<rparr> m' = Inr () \<and>
    bm_ok (mc_disk m')"
proof -
  let ?p = "resolv_conf paths_system"
  obtain d' where w: "write_atomically good_io ?p text (mc_disk m) = (d', Inr ())"
    using write_atomically_faultless [OF good_io_ok(1)] by blast
  have "with_extension ?p ''ns-new'' \<noteq> ?p" unfolding system_paths by (simp add: rendered_paths)
  from write_atomically_target [OF w this] have "bm_get d' ?p \<noteq> None \<and> f_data (the (bm_get d' ?p)) = Text text"
    by auto
  then have "real_read good_io ?p d' = Inr (Some text)"
    by (auto simp: real_read_def fs_read_text_def fs_read_def good_io_def)
  moreover have "real_write good_io ?p text (mc_disk m) = (d', Inr ())"
    using w by (simp add: real_write_def create_dir_all_def good_io_def rendered_paths)
  ultimately show ?thesis
    using write_atomically_bm_ok [OF w assms]
    by (simp add: system_apply_def lift_host_def and_then_def real_host_def on_disk_def verify_files_def all_files_def)
qed

lemma small_networkd:
  assumes "bm_ok (mc_disk m)"
  shows "\<exists>m'. networkd_apply no_codec small_host paths_system
      \<lparr>ar_managed = [\<lparr>mg_dir = d1, mg_marker = k, mg_files = []\<rparr>, \<lparr>mg_dir = d2, mg_marker = k, mg_files = []\<rparr>],
       ar_files = [], ar_actions = [ReloadNetworkd]\<rparr> m = (m', Inr ())"
proof -
  obtain m1 where m1: "h_sync small_host d1 k [] m = (m1, Inr ())" "bm_ok (mc_disk m1)"
    using small_sync [OF assms] by blast
  obtain m2 where m2: "h_sync small_host d2 k [] m1 = (m2, Inr ())"
    using small_sync [OF m1(2)] by blast
  show ?thesis
    using m1(1) m2
    by (simp add: networkd_apply_def networkd_previous_def small_previous recreations_def first_files_def
        and_then_def lift_host_def small_run)
qed

lemma nothing_to_verify:
  "verify_files h' \<lparr>ar_managed = [\<lparr>mg_dir = d1, mg_marker = k, mg_files = []\<rparr>,
     \<lparr>mg_dir = d2, mg_marker = k, mg_files = []\<rparr>], ar_files = [], ar_actions = as\<rparr> m = Inr ()"
  by (simp add: verify_files_def all_files_def)

lemma small_commit:
  "\<exists>m'. commit_apply (all_renderers no_schema no_codec small_host paths_system) tree_new small_machine = (m', Inr ())"
proof -
  let ?r = "[system_renderer no_codec small_host paths_system, login_renderer no_codec small_host paths_system,
    networkd_renderer no_codec small_host paths_system]"
  have "renderer_priority no_schema r = u32_MAX" if "r \<in> set ?r" for r
    using that by (auto simp: renderer_priority_def node_at_def resolve_def child_location_def no_schema_def
        system_renderer_def login_renderer_def networkd_renderer_def Let_def)
  then have rs: "all_renderers no_schema no_codec small_host paths_system = ?r"
    by (simp add: all_renderers_def)
  obtain m1 where m1: "system_apply small_host paths_system
      \<lparr>ar_managed = [], ar_files = [(resolv_conf paths_system, resolv_text None [])], ar_actions = []\<rparr> small_machine = (m1, Inr ())"
    "verify_files small_host
      \<lparr>ar_managed = [], ar_files = [(resolv_conf paths_system, resolv_text None [])], ar_actions = []\<rparr> m1 = Inr ()"
    "bm_ok (mc_disk m1)"
    using small_system [of small_machine "resolv_text None []"] by (auto simp: small_machine_def bm_ok_def)
  obtain m2 where m2: "networkd_apply no_codec small_host paths_system
      \<lparr>ar_managed = [\<lparr>mg_dir = networkd_dir paths_system, mg_marker = MANAGED_MARKER, mg_files = []\<rparr>,
         \<lparr>mg_dir = link_dir paths_system, mg_marker = MANAGED_MARKER, mg_files = []\<rparr>],
       ar_files = [], ar_actions = [ReloadNetworkd]\<rparr> m1 = (m2, Inr ())"
    using small_networkd [OF m1(3)] by blast
  show ?thesis
    unfolding rs commit_apply_def
    by (simp add: system_renderer_def login_renderer_def networkd_renderer_def Let_def system_render_def
        login_render_def networkd_render_def empty_tree system_check_def login_check_def networkd_check_def
        named_def map_filter_def bs_from_def devices_in_def first_files_def apply_one_def m1(1,2) m2
        login_apply_def login_previous_def small_previous removals_def and_then_def nothing_to_verify)
qed

theorem commit_reaches_machine_witness:
  "\<exists>m'. commit_apply (all_renderers no_schema no_codec small_host paths_system) tree_new small_machine = (m', Inr ()) \<and>
     text_at (mc_disk m') [''run'', ''systemd'', ''network'', ''10-ns-eth1.network''] = None \<and>
     text_at (mc_disk m') [''etc'', ''resolv.conf''] = Some RESOLV_HEADER"
proof -
  obtain m' where m': "commit_apply (all_renderers no_schema no_codec small_host paths_system) tree_new small_machine =
      (m', Inr ())"
    using small_commit by blast
  have programs: "leaves_files idle_programs (targets paths_system)"
    by (simp add: leaves_files_def idle_programs_def)
  have d: "bm_ok (mc_disk small_machine)"
    by (simp add: small_machine_def bm_ok_def)
  from commit_reaches_machine [OF good_io_ok(2) programs d empty_tree(2) m', of "''10-ns-eth1.network''"] m'
  show ?thesis
    by (simp add: rendered_paths paths_system_def MANAGED_MARKER_def contains_def empty_tree resolv_text_def)
qed

end
