(* ===== verification/Loader.thy ===== *)
theory Loader
  imports Schema_Model Files
begin

text \<open>
  \<open>src/nightshade-schema/src/loader.rs\<close>: the schema files, merged into one document and converted
  into the model. What \<open>serde_yaml_ng\<close> reads, the text of a 64-bit float and what
  \<open>Regex::new\<close> says of a pattern are parameters (\<open>loader_env\<close>). A node may include a template
  whose nodes include it again, in which case the conversion never ends: it is therefore a function
  of a bound on the depth of the result, \<open>None\<close> when the bound is too small.
\<close>

unbundle bit_operations_syntax

section \<open>The YAML shape\<close>

datatype scalar = ScBool bool | ScInt int | ScFloat "64 word" | ScStr string

record raw_range =
  rr_min :: int
  rr_max :: int
  rr_step :: "nat option"

record raw_tag =
  rt_ty :: string
  rt_help :: string
  rt_range :: "raw_range option"
  rt_values :: "scalar list option"
  rt_regex :: "string option"

datatype raw_constraint =
    RawValueInPathSet "string list" string
  | RawPathExists string string
  | RawPathHasValue string scalar string

datatype raw_global =
    RawUniqueAcross "string list" string
  | RawForbidChildOnReferenced "string list" "string list" string string

text \<open>\<open>RawNode\<close>: the fields of its own, and its children.\<close>

record raw_def =
  rd_kind :: "string option"
  rd_help :: "string option"
  rd_ty :: "string option"
  rd_range :: "raw_range option"
  rd_values :: "scalar list option"
  rd_regex :: "string option"
  rd_accepts :: "scalar list option"
  rd_default :: "scalar option"
  rd_secret :: "bool option"
  rd_required :: "bool option"
  rd_priority :: "nat option"
  rd_tag :: "raw_tag option"
  rd_include :: "string list option"
  rd_exclude :: "string list option"
  rd_constraints :: "raw_constraint list option"
  rd_unique :: "string list list option"
  rd_exclusive :: "string list list option"

datatype raw_node = RawNode (rn_def: raw_def) (rn_children: "(string \<times> raw_node) list option")

type_synonym raw_kids = "(string \<times> raw_node) list"

record raw_file =
  rf_templates :: "(string \<times> raw_kids) list"
  rf_nodes :: raw_kids
  rf_globals :: "raw_global list"

definition raw_file_empty :: raw_file where
  "raw_file_empty = \<lparr>rf_templates = [], rf_nodes = [], rf_globals = []\<rparr>"

record loader_env =
  read_yaml :: "string \<Rightarrow> string + raw_file"
  show_f64 :: "64 word \<Rightarrow> string"
  regex_error :: "string \<Rightarrow> string option"
  values_env :: value_env

datatype schema_error =
    SchemaIo string io_error
  | SchemaYaml string string
  | SchemaConflict string string
  | SchemaInvalid string string

fun show_schema_error :: "schema_error \<Rightarrow> string" where
  "show_schema_error (SchemaIo path e) = path @ '': '' @ show_io_error e"
| "show_schema_error (SchemaYaml path e) = path @ '': '' @ e"
| "show_schema_error (SchemaConflict at field) =
     ''schema node `'' @ at @ ''`: `'' @ field @ ''` is defined twice with different values''"
| "show_schema_error (SchemaInvalid at message) = ''schema node `'' @ at @ ''`: '' @ message"

fun into_string :: "loader_env \<Rightarrow> scalar \<Rightarrow> string" where
  "into_string le (ScBool b) = (if b then ''true'' else ''false'')"
| "into_string le (ScInt i) = show_int i"
| "into_string le (ScFloat f) = show_f64 le f"
| "into_string le (ScStr s) = s"

definition strings :: "loader_env \<Rightarrow> scalar list option \<Rightarrow> string list option" where
  "strings le = map_option (map (into_string le))"

text \<open>\<open>PartialEq\<close> of \<open>f64\<close> and what derives from it.\<close>

definition f64_nan :: "64 word \<Rightarrow> bool" where
  "f64_nan w \<longleftrightarrow> take_bit 11 (drop_bit 52 w) = 2047 \<and> take_bit 52 w \<noteq> 0"

definition f64_eq :: "64 word \<Rightarrow> 64 word \<Rightarrow> bool" where
  "f64_eq a b \<longleftrightarrow>
     \<not> f64_nan a \<and> \<not> f64_nan b \<and> (a = b \<or> take_bit 63 a = 0 \<and> take_bit 63 b = 0)"

fun scalar_eq :: "scalar \<Rightarrow> scalar \<Rightarrow> bool" where
  "scalar_eq (ScFloat a) (ScFloat b) = f64_eq a b"
| "scalar_eq a b = (a = b)"

definition scalars_eq :: "scalar list \<Rightarrow> scalar list \<Rightarrow> bool" where
  "scalars_eq = list_all2 scalar_eq"

definition tag_eq :: "raw_tag \<Rightarrow> raw_tag \<Rightarrow> bool" where
  "tag_eq a b \<longleftrightarrow>
     rt_ty a = rt_ty b \<and> rt_help a = rt_help b \<and> rt_range a = rt_range b \<and>
     rel_option scalars_eq (rt_values a) (rt_values b) \<and> rt_regex a = rt_regex b"

section \<open>Merging\<close>

datatype merge_mode = Strict | Overlay

definition merge_field ::
  "('a \<Rightarrow> 'a \<Rightarrow> bool) \<Rightarrow> merge_mode \<Rightarrow> string \<Rightarrow> string \<Rightarrow> 'a option \<Rightarrow> 'a option \<Rightarrow> schema_error + 'a option" where
  "merge_field eq mode at field into from =
     (case from of
        None \<Rightarrow> Inr into
      | Some v \<Rightarrow>
          (case into of
             None \<Rightarrow> Inr (Some v)
           | Some existing \<Rightarrow>
               if mode = Strict \<and> \<not> eq existing v then Inl (SchemaConflict at field) else Inr (Some v)))"

definition merge_extend :: "'a list option \<Rightarrow> 'a list option \<Rightarrow> 'a list option" where
  "merge_extend into from =
     (case from of None \<Rightarrow> into | Some vs \<Rightarrow> Some ((case into of None \<Rightarrow> [] | Some us \<Rightarrow> us) @ vs))"

definition merge_def :: "merge_mode \<Rightarrow> string \<Rightarrow> raw_def \<Rightarrow> raw_def \<Rightarrow> schema_error + raw_def" where
  "merge_def mode at a b =
     bind_result (merge_field (=) mode at ''kind'' (rd_kind a) (rd_kind b)) (\<lambda>kind.
     bind_result (merge_field (=) mode at ''help'' (rd_help a) (rd_help b)) (\<lambda>help.
     bind_result (merge_field (=) mode at ''ty'' (rd_ty a) (rd_ty b)) (\<lambda>ty.
     bind_result (merge_field (=) mode at ''range'' (rd_range a) (rd_range b)) (\<lambda>range.
     bind_result (merge_field scalars_eq mode at ''values'' (rd_values a) (rd_values b)) (\<lambda>vs.
     bind_result (merge_field (=) mode at ''regex'' (rd_regex a) (rd_regex b)) (\<lambda>regex.
     bind_result (merge_field scalars_eq mode at ''accepts'' (rd_accepts a) (rd_accepts b)) (\<lambda>accepts.
     bind_result (merge_field scalar_eq mode at ''default'' (rd_default a) (rd_default b)) (\<lambda>default.
     bind_result (merge_field (=) mode at ''secret'' (rd_secret a) (rd_secret b)) (\<lambda>secret.
     bind_result (merge_field (=) mode at ''required'' (rd_required a) (rd_required b)) (\<lambda>required.
     bind_result (merge_field (=) mode at ''priority'' (rd_priority a) (rd_priority b)) (\<lambda>priority.
     bind_result (merge_field tag_eq mode at ''tag'' (rd_tag a) (rd_tag b)) (\<lambda>tag.
       Inr \<lparr>rd_kind = kind, rd_help = help, rd_ty = ty, rd_range = range, rd_values = vs,
            rd_regex = regex, rd_accepts = accepts, rd_default = default, rd_secret = secret,
            rd_required = required, rd_priority = priority, rd_tag = tag,
            rd_include = merge_extend (rd_include a) (rd_include b),
            rd_exclude = merge_extend (rd_exclude a) (rd_exclude b),
            rd_constraints = merge_extend (rd_constraints a) (rd_constraints b),
            rd_unique = merge_extend (rd_unique a) (rd_unique b),
            rd_exclusive = merge_extend (rd_exclusive a) (rd_exclusive b)\<rparr>))))))))))))"

fun merge_children :: "merge_mode \<Rightarrow> string \<Rightarrow> raw_kids \<Rightarrow> raw_kids \<Rightarrow> schema_error + raw_kids"
and merge_node :: "merge_mode \<Rightarrow> string \<Rightarrow> raw_node \<Rightarrow> raw_node \<Rightarrow> schema_error + raw_node" where
  "merge_children mode at into [] = Inr into"
| "merge_children mode at into ((name, node) # from) =
     (case bm_get into name of
        None \<Rightarrow> merge_children mode at (bm_insert name node into) from
      | Some existing \<Rightarrow>
          bind_result (merge_node mode (if at = [] then name else at @ '' '' @ name) existing node)
            (\<lambda>merged. merge_children mode at (bm_insert name merged into) from))"
| "merge_node mode at into (RawNode d None) =
     bind_result (merge_def mode at (rn_def into) d) (\<lambda>d'. Inr (RawNode d' (rn_children into)))"
| "merge_node mode at into (RawNode d (Some ch)) =
     bind_result (merge_def mode at (rn_def into) d) (\<lambda>d'.
     bind_result (merge_children mode at (case rn_children into of None \<Rightarrow> [] | Some m \<Rightarrow> m) ch)
       (\<lambda>ch'. Inr (RawNode d' (Some ch'))))"

fun absorb_templates ::
  "(string \<times> raw_kids) list \<Rightarrow> (string \<times> raw_kids) list \<Rightarrow> schema_error + (string \<times> raw_kids) list" where
  "absorb_templates into [] = Inr into"
| "absorb_templates into ((name, ch) # from) =
     (case bm_get into name of
        None \<Rightarrow> absorb_templates (bm_insert name ch into) from
      | Some u \<Rightarrow> Inl (SchemaConflict (''templates '' @ name) ''template''))"

definition absorb :: "raw_file \<Rightarrow> raw_file \<Rightarrow> schema_error + raw_file" where
  "absorb f other =
     bind_result (absorb_templates (rf_templates f) (rf_templates other)) (\<lambda>ts.
     bind_result (merge_children Strict [] (rf_nodes f) (rf_nodes other)) (\<lambda>ns.
       Inr \<lparr>rf_templates = ts, rf_nodes = ns, rf_globals = rf_globals f @ rf_globals other\<rparr>))"

section \<open>Values and rules\<close>

definition DEFAULT_PRIORITY :: nat where
  "DEFAULT_PRIORITY = 500"

definition numeric :: "raw_range option \<Rightarrow> int \<Rightarrow> int \<Rightarrow> value_type" where
  "numeric rng lo hi =
     VNumber (case rng of
        None \<Rightarrow> \<lparr>vr_min = lo, vr_max = hi, vr_step = None\<rparr>
      | Some r \<Rightarrow> \<lparr>vr_min = rr_min r, vr_max = rr_max r, vr_step = rr_step r\<rparr>)"

definition named_type ::
  "string \<Rightarrow> raw_range option \<Rightarrow> string list option \<Rightarrow> string \<Rightarrow> schema_error + value_type" where
  "named_type ty rng vs at =
     (if ty = ''string'' then Inr VText
      else if ty = ''bool'' then Inr VBool
      else if ty = ''uint'' then Inr (numeric rng 0 4294967295)
      else if ty = ''int'' then Inr (numeric rng (- 2147483648) 2147483647)
      else if ty = ''ipv4-address'' then Inr VIpv4Address
      else if ty = ''ipv6-address'' then Inr VIpv6Address
      else if ty = ''ip-address'' then Inr VIpAddress
      else if ty = ''ipv4-prefix'' then Inr VIpv4Prefix
      else if ty = ''ipv6-prefix'' then Inr VIpv6Prefix
      else if ty = ''ip-prefix'' then Inr VIpPrefix
      else if ty = ''ip-or-prefix'' then Inr VIpOrPrefix
      else if ty = ''multicast-address'' then Inr VMulticastAddress
      else if ty = ''mac-address'' then Inr VMacAddress
      else if ty = ''port'' then Inr VPort
      else if ty = ''port-range'' then Inr VPortRange
      else if ty = ''interface-name'' then Inr VInterfaceName
      else if ty = ''hostname'' then Inr VHostname
      else if ty = ''time-zone'' then Inr VTimeZone
      else if ty = ''user-name'' then Inr VUserName
      else if ty = ''encrypted-password'' then Inr VEncryptedPassword
      else if ty = ''enum'' then
        (case vs of
           None \<Rightarrow> Inl (SchemaInvalid at ''an `enum` needs the `values` it accepts'')
         | Some [] \<Rightarrow> Inl (SchemaInvalid at ''an `enum` with no values accepts nothing'')
         | Some (v # us) \<Rightarrow> Inr (VEnum (v # us)))
      else Inl (SchemaInvalid at (''unknown type `'' @ ty @ ''`'')))"

definition make_spec ::
  "loader_env \<Rightarrow> string \<Rightarrow> raw_range option \<Rightarrow> string list option \<Rightarrow> string option \<Rightarrow> string list option \<Rightarrow>
     string \<Rightarrow> schema_error + value_spec" where
  "make_spec le ty rng vs regex accepts at =
     (if ty \<noteq> ''enum'' \<and> vs \<noteq> None then Inl (SchemaInvalid at ''`values` only applies to an `enum`'')
      else if \<not> (ty = ''uint'' \<or> ty = ''int'') \<and> rng \<noteq> None
      then Inl (SchemaInvalid at ''`range` only applies to `uint` or `int`'')
      else
        bind_result (named_type ty rng vs at) (\<lambda>t.
          case Option.bind regex (regex_error le) of
            Some e \<Rightarrow> Inl (SchemaInvalid at (''its `regex` does not compile: '' @ e))
          | None \<Rightarrow>
              Inr \<lparr>vs_ty = t, vs_accepts = (case accepts of None \<Rightarrow> [] | Some as \<Rightarrow> as), vs_pattern = regex\<rparr>))"

definition leaf_spec :: "loader_env \<Rightarrow> raw_def \<Rightarrow> string \<Rightarrow> schema_error + value_spec" where
  "leaf_spec le d at =
     (case rd_ty d of
        None \<Rightarrow> Inl (SchemaInvalid at ''a leaf needs a `type`'')
      | Some ty \<Rightarrow>
          make_spec le ty (rd_range d) (strings le (rd_values d)) (rd_regex d) (strings le (rd_accepts d)) at)"

definition load_pattern :: "string \<Rightarrow> string \<Rightarrow> schema_error + path_pattern" where
  "load_pattern source at =
     map_err (\<lambda>e. SchemaInvalid at (''bad path pattern `'' @ source @ ''`: '' @ e)) (pattern_parse source)"

fun pattern_each :: "string list \<Rightarrow> string \<Rightarrow> schema_error + path_pattern list" where
  "pattern_each [] at = Inr []"
| "pattern_each (s # ss) at =
     bind_result (load_pattern s at) (\<lambda>p. bind_result (pattern_each ss at) (\<lambda>ps. Inr (p # ps)))"

definition patterns :: "string list \<Rightarrow> string \<Rightarrow> schema_error + path_pattern list" where
  "patterns sources at =
     (if sources = [] then Inl (SchemaInvalid at ''a constraint with no paths checks nothing'')
      else pattern_each sources at)"

fun load_constraint :: "loader_env \<Rightarrow> raw_constraint \<Rightarrow> string \<Rightarrow> schema_error + schema_constraint" where
  "load_constraint le (RawValueInPathSet paths message) at =
     bind_result (patterns paths at) (\<lambda>ps. Inr (ValueInPathSet ps message))"
| "load_constraint le (RawPathExists path message) at =
     bind_result (load_pattern path at) (\<lambda>p. Inr (PathExists p message))"
| "load_constraint le (RawPathHasValue path v message) at =
     bind_result (load_pattern path at) (\<lambda>p. Inr (PathHasValue p (into_string le v) message))"

fun load_constraints :: "loader_env \<Rightarrow> raw_constraint list \<Rightarrow> string \<Rightarrow> schema_error + schema_constraint list" where
  "load_constraints le [] at = Inr []"
| "load_constraints le (c # cs) at =
     bind_result (load_constraint le c at) (\<lambda>x.
     bind_result (load_constraints le cs at) (\<lambda>xs. Inr (x # xs)))"

fun load_global :: "raw_global \<Rightarrow> string \<Rightarrow> schema_error + global_constraint" where
  "load_global (RawUniqueAcross paths message) at =
     bind_result (patterns paths at) (\<lambda>ps. Inr (UniqueAcross ps message))"
| "load_global (RawForbidChildOnReferenced references search forbid message) at =
     bind_result (patterns references at) (\<lambda>rs.
     bind_result (patterns search at) (\<lambda>ss. Inr (ForbidChildOnReferenced rs ss forbid message)))"

fun load_globals :: "raw_global list \<Rightarrow> schema_error + global_constraint list" where
  "load_globals [] = Inr []"
| "load_globals (g # gs) =
     bind_result (load_global g ''global-constraints'') (\<lambda>x. bind_result (load_globals gs) (\<lambda>xs. Inr (x # xs)))"

section \<open>Conversion\<close>

type_synonym templates = "(string \<times> raw_kids) list"

fun include_all :: "templates \<Rightarrow> string \<Rightarrow> string list \<Rightarrow> raw_kids \<Rightarrow> schema_error + raw_kids" where
  "include_all ts at [] expanded = Inr expanded"
| "include_all ts at (name # names) expanded =
     (case bm_get ts name of
        None \<Rightarrow> Inl (SchemaInvalid at (''no template named `'' @ name @ ''`''))
      | Some template \<Rightarrow>
          bind_result (merge_children Strict at expanded template) (include_all ts at names))"

fun exclude_all :: "string \<Rightarrow> string list \<Rightarrow> raw_kids \<Rightarrow> schema_error + raw_kids" where
  "exclude_all at [] ch = Inr ch"
| "exclude_all at (name # names) ch =
     (if bm_get ch name = None
      then Inl (SchemaInvalid at (''`exclude` names `'' @ name @ ''`, which is not one of its children''))
      else exclude_all at names (bm_remove name ch))"

text \<open>The children a node has once its templates are in and what it excludes is out.\<close>

definition expand :: "templates \<Rightarrow> string \<Rightarrow> raw_node \<Rightarrow> schema_error + raw_kids" where
  "expand ts at raw =
     bind_result
       (case rd_include (rn_def raw) of
          None \<Rightarrow> Inr (rn_children raw)
        | Some names \<Rightarrow>
            bind_result (include_all ts at names []) (\<lambda>expanded.
              case rn_children raw of
                None \<Rightarrow> Inr (Some expanded)
              | Some own \<Rightarrow> bind_result (merge_children Overlay at expanded own) (\<lambda>ch. Inr (Some ch))))
       (\<lambda>ch. exclude_all at (case rd_exclude (rn_def raw) of None \<Rightarrow> [] | Some ns \<Rightarrow> ns)
         (case ch of None \<Rightarrow> [] | Some m \<Rightarrow> m))"

definition load_kind :: "loader_env \<Rightarrow> raw_def \<Rightarrow> string \<Rightarrow> string \<Rightarrow> schema_error + schema_kind" where
  "load_kind le d kind_name at =
     (if kind_name = ''container'' then Inr SContainer
      else if kind_name = ''tag'' then
        (case rd_tag d of
           None \<Rightarrow> Inl (SchemaInvalid at ''a tag node needs a `tag` block'')
         | Some tag \<Rightarrow>
             bind_result
               (make_spec le (rt_ty tag) (rt_range tag) (strings le (rt_values tag)) (rt_regex tag) None at)
               (\<lambda>spec. Inr (STag \<lparr>tag_value = spec, tag_help = rt_help tag\<rparr>)))
      else if kind_name = ''leaf'' then bind_result (leaf_spec le d at) (\<lambda>s. Inr (SLeaf s))
      else if kind_name = ''multi-leaf'' then bind_result (leaf_spec le d at) (\<lambda>s. Inr (SMultiLeaf s))
      else if kind_name = ''flag'' then Inr SFlag
      else Inl (SchemaInvalid at (''unknown kind `'' @ kind_name @
        ''`; expected container, tag, leaf, multi-leaf or flag'')))"

definition kind_nests :: "schema_kind \<Rightarrow> bool" where
  "kind_nests k = (case k of SContainer \<Rightarrow> True | STag t \<Rightarrow> True | _ \<Rightarrow> False)"

text \<open>What \<open>convert\<close> does before it converts the children: help, kind and the children themselves.\<close>

definition node_head ::
  "loader_env \<Rightarrow> templates \<Rightarrow> raw_node \<Rightarrow> string \<Rightarrow> schema_error + (string \<times> schema_kind \<times> raw_kids)" where
  "node_head le ts raw at =
     bind_result (expand ts at raw) (\<lambda>ch.
       case rd_help (rn_def raw) of
         None \<Rightarrow> Inl (SchemaInvalid at ''no `help` text'')
       | Some help \<Rightarrow>
           (case rd_kind (rn_def raw) of
              None \<Rightarrow> Inl (SchemaInvalid at ''no `kind`'')
            | Some kind_name \<Rightarrow>
                bind_result (load_kind le (rn_def raw) kind_name at) (\<lambda>kind.
                  if \<not> kind_nests kind \<and> ch \<noteq> []
                  then Inl (SchemaInvalid at (''a `'' @ kind_name @ ''` cannot have children''))
                  else if kind_nests kind \<and> ch = []
                  then Inl (SchemaInvalid at (''a `'' @ kind_name @ ''` with no children can never be configured''))
                  else Inr (help, kind, ch))))"

text \<open>What it does after: the rules, and the default.\<close>

definition node_tail ::
  "loader_env \<Rightarrow> raw_def \<Rightarrow> string \<Rightarrow> nat \<Rightarrow> string \<Rightarrow> schema_kind \<Rightarrow> (string \<times> schema_node) list \<Rightarrow>
     schema_error + schema_node" where
  "node_tail le d at priority help kind children =
     (let unique = (case rd_unique d of None \<Rightarrow> [] | Some u \<Rightarrow> u);
          exclusive = (case rd_exclusive d of None \<Rightarrow> [] | Some u \<Rightarrow> u)
      in case find (\<lambda>name. bm_get children name = None) (concat (unique @ exclusive)) of
           Some name \<Rightarrow>
             Inl (SchemaInvalid at (''`'' @ name @ ''` is named in a rule but is not one of its children''))
         | None \<Rightarrow>
             if unique \<noteq> [] \<and> \<not> (case kind of STag t \<Rightarrow> True | _ \<Rightarrow> False)
             then Inl (SchemaInvalid at
               ''`unique` compares tag instances, so it only means something on a tag node'')
             else
               bind_result (load_constraints le (case rd_constraints d of None \<Rightarrow> [] | Some cs \<Rightarrow> cs) at)
                 (\<lambda>constraints.
                   let node = SchemaNode kind help (map_option (into_string le) (rd_default d))
                         (case rd_secret d of None \<Rightarrow> False | Some b \<Rightarrow> b)
                         (case rd_required d of None \<Rightarrow> False | Some b \<Rightarrow> b)
                         priority children constraints unique exclusive
                   in case (sn_default node, sn_value_spec node) of
                        (Some dv, Some spec) \<Rightarrow>
                          (case spec_check (values_env le) spec dv of
                             Inl e \<Rightarrow> Inl (SchemaInvalid at (''its default is invalid: '' @ show_value_error e))
                           | Inr u \<Rightarrow> Inr node)
                      | _ \<Rightarrow> Inr node))"

fun convert_children ::
  "(raw_node \<Rightarrow> string \<Rightarrow> (schema_error + schema_node) option) \<Rightarrow> string \<Rightarrow> raw_kids \<Rightarrow>
     (string \<times> schema_node) list \<Rightarrow> (schema_error + (string \<times> schema_node) list) option" where
  "convert_children conv at [] out = Some (Inr out)"
| "convert_children conv at ((name, child) # ch) out =
     (case conv child (at @ '' '' @ name) of
        None \<Rightarrow> None
      | Some (Inl e) \<Rightarrow> Some (Inl e)
      | Some (Inr n) \<Rightarrow> convert_children conv at ch (bm_insert name n out))"

primrec convert ::
  "nat \<Rightarrow> loader_env \<Rightarrow> templates \<Rightarrow> raw_node \<Rightarrow> string \<Rightarrow> nat \<Rightarrow> (schema_error + schema_node) option" where
  "convert 0 le ts raw at inherited = None"
| "convert (Suc fuel) le ts raw at inherited =
     (case node_head le ts raw at of
        Inl e \<Rightarrow> Some (Inl e)
      | Inr (help, kind, ch) \<Rightarrow>
          (let priority = (case rd_priority (rn_def raw) of None \<Rightarrow> inherited | Some p \<Rightarrow> p)
           in case convert_children (\<lambda>child at'. convert fuel le ts child at' priority) at ch [] of
                None \<Rightarrow> None
              | Some (Inl e) \<Rightarrow> Some (Inl e)
              | Some (Inr children) \<Rightarrow>
                  Some (node_tail le (rn_def raw) at priority help kind children)))"

fun build_nodes ::
  "nat \<Rightarrow> loader_env \<Rightarrow> templates \<Rightarrow> raw_kids \<Rightarrow> (string \<times> schema_node) list \<Rightarrow>
     (schema_error + (string \<times> schema_node) list) option" where
  "build_nodes fuel le ts [] out = Some (Inr out)"
| "build_nodes fuel le ts ((name, node) # ns) out =
     (case convert fuel le ts node name DEFAULT_PRIORITY of
        None \<Rightarrow> None
      | Some (Inl e) \<Rightarrow> Some (Inl e)
      | Some (Inr n) \<Rightarrow> build_nodes fuel le ts ns (bm_insert name n out))"

definition build :: "nat \<Rightarrow> loader_env \<Rightarrow> raw_file \<Rightarrow> (schema_error + schema) option" where
  "build fuel le raw =
     (case build_nodes fuel le (rf_templates raw) (rf_nodes raw) [] of
        None \<Rightarrow> None
      | Some (Inl e) \<Rightarrow> Some (Inl e)
      | Some (Inr children) \<Rightarrow>
          Some (bind_result (load_globals (rf_globals raw)) (\<lambda>globals.
            Inr \<lparr>sc_root = SchemaNode SContainer ''Nightshade configuration'' None False False
                   DEFAULT_PRIORITY children [] [] [],
                 sc_globals = globals\<rparr>)))"

section \<open>Files\<close>

fun merge_texts :: "loader_env \<Rightarrow> raw_file \<Rightarrow> (string \<times> string) list \<Rightarrow> schema_error + raw_file" where
  "merge_texts le merged [] = Inr merged"
| "merge_texts le merged ((path, text) # sources) =
     (case read_yaml le text of
        Inl e \<Rightarrow> Inl (SchemaYaml path e)
      | Inr parsed \<Rightarrow> bind_result (absorb merged parsed) (\<lambda>m. merge_texts le m sources))"

definition load_sources :: "nat \<Rightarrow> loader_env \<Rightarrow> (string \<times> string) list \<Rightarrow> (schema_error + schema) option" where
  "load_sources fuel le sources =
     (case merge_texts le raw_file_empty (sort_key fst sources) of
        Inl e \<Rightarrow> Some (Inl e)
      | Inr merged \<Rightarrow> build fuel le merged)"

text \<open>A directory, as \<open>read_dir\<close> and \<open>read_to_string\<close> find it; a slot is one step of the listing.\<close>

datatype fs_node = FsFile "io_error + string" | FsUnlistable io_error | FsDir "fs_slot list"
  and fs_slot = BadSlot io_error | Slot string fs_node

type_synonym found_file = "file_path \<times> (io_error + string)"

fun collect_node :: "file_path \<Rightarrow> fs_node \<Rightarrow> found_file list \<Rightarrow> schema_error + found_file list"
and collect_files :: "file_path \<Rightarrow> fs_slot list \<Rightarrow> found_file list \<Rightarrow> schema_error + found_file list" where
  "collect_node path (FsFile contents) out =
     Inr (if file_extension (last path) \<in> {Some ''yaml'', Some ''yml''} then out @ [(path, contents)] else out)"
| "collect_node path (FsUnlistable e) out = Inl (SchemaIo (show_file_path path) e)"
| "collect_node path (FsDir slots) out = collect_files path slots out"
| "collect_files dir [] out = Inr out"
| "collect_files dir (BadSlot e # slots) out = Inl (SchemaIo (show_file_path dir) e)"
| "collect_files dir (Slot name n # slots) out =
     bind_result (collect_node (dir @ [name]) n out) (collect_files dir slots)"

fun merge_files :: "loader_env \<Rightarrow> raw_file \<Rightarrow> found_file list \<Rightarrow> schema_error + raw_file" where
  "merge_files le merged [] = Inr merged"
| "merge_files le merged ((path, contents) # files) =
     bind_result (map_err (SchemaIo (show_file_path path)) contents) (\<lambda>text.
     bind_result (map_err (SchemaYaml (show_file_path path)) (read_yaml le text)) (\<lambda>parsed.
     bind_result (absorb merged parsed) (\<lambda>m. merge_files le m files)))"

definition load_dir :: "nat \<Rightarrow> loader_env \<Rightarrow> file_path \<Rightarrow> fs_slot list \<Rightarrow> (schema_error + schema) option" where
  "load_dir fuel le dir slots =
     (case bind_result (collect_files dir slots []) (\<lambda>files.
        merge_files le raw_file_empty (sort_key fst files)) of
        Inl e \<Rightarrow> Some (Inl e)
      | Inr merged \<Rightarrow> build fuel le merged)"

end
