(* ===== verification/Loader_Laws.thy ===== *)
theory Loader_Laws
  imports Loader Validate_Laws
begin

text \<open>
  What the loader promises: a schema it accepts is well formed wherever a path can land, merging never
  lets one file overwrite another, the result does not depend on the order in which a directory is
  listed, and the conversion ends whenever no template includes itself, directly or through others.
\<close>

section \<open>What an accepted schema looks like\<close>

fun rule_ok :: "schema_constraint \<Rightarrow> bool" where
  "rule_ok (ValueInPathSet ps m) \<longleftrightarrow> ps \<noteq> [] \<and> [] \<notin> set ps"
| "rule_ok (PathExists p m) \<longleftrightarrow> p \<noteq> []"
| "rule_ok (PathHasValue p v m) \<longleftrightarrow> p \<noteq> []"

fun global_ok :: "global_constraint \<Rightarrow> bool" where
  "global_ok (UniqueAcross ps m) \<longleftrightarrow> ps \<noteq> [] \<and> [] \<notin> set ps"
| "global_ok (ForbidChildOnReferenced rs ss f m) \<longleftrightarrow> rs \<noteq> [] \<and> [] \<notin> set rs \<and> ss \<noteq> [] \<and> [] \<notin> set ss"

definition spec_ok :: "loader_env \<Rightarrow> value_spec \<Rightarrow> bool" where
  "spec_ok le s \<longleftrightarrow> vs_ty s \<noteq> VEnum [] \<and> Option.bind (vs_pattern s) (regex_error le) = None"

definition kind_ok :: "loader_env \<Rightarrow> schema_kind \<Rightarrow> bool" where
  "kind_ok le k \<longleftrightarrow>
     (case k of STag t \<Rightarrow> spec_ok le (tag_value t) | SLeaf s \<Rightarrow> spec_ok le s | SMultiLeaf s \<Rightarrow> spec_ok le s | _ \<Rightarrow> True)"

text \<open>One node, without its children.\<close>

definition node_fine :: "loader_env \<Rightarrow> schema_node \<Rightarrow> bool" where
  "node_fine le n \<longleftrightarrow>
     bm_ok (sn_children n) \<and> kind_ok le (sn_kind n) \<and>
     (takes_children n \<longleftrightarrow> sn_children n \<noteq> []) \<and>
     (\<forall>group \<in> set (sn_unique n) \<union> set (sn_exclusive n). \<forall>name \<in> set group. bm_get (sn_children n) name \<noteq> None) \<and>
     (sn_unique n = [] \<or> sn_is_tag n) \<and>
     (\<forall>c \<in> set (sn_constraints n). rule_ok c) \<and>
     (\<forall>d s. sn_default n = Some d \<and> sn_value_spec n = Some s \<longrightarrow> spec_check (values_env le) s d = Inr ())"

inductive node_wf :: "loader_env \<Rightarrow> schema_node \<Rightarrow> bool" for le where
  "node_fine le n \<Longrightarrow> \<forall>e \<in> set (sn_children n). node_wf le (snd e) \<Longrightarrow> node_wf le n"

inductive_cases node_wfE: "node_wf le n"

lemma node_wf_child: "node_wf le n \<Longrightarrow> bm_get (sn_children n) s = Some c \<Longrightarrow> node_wf le c"
  by (elim node_wfE) (metis map_of_SomeD snd_conv)

section \<open>Where the errors stop\<close>

lemma bind_err_InrE:
  assumes "bind_result r f = Inr b"
  obtains a where "r = Inr a" "f a = Inr b"
  using assms by (auto simp: bind_result_Inr)

lemma pattern_parse_nonempty: "pattern_parse s = Inr p \<Longrightarrow> p \<noteq> []"
  by (auto simp: pattern_parse_def split: sum.splits list.splits)

lemma load_pattern_nonempty: "load_pattern s at = Inr p \<Longrightarrow> p \<noteq> []"
  by (auto simp: load_pattern_def dest: pattern_parse_nonempty)

lemma pattern_each_ok: "pattern_each ss at = Inr ps \<Longrightarrow> [] \<notin> set ps \<and> length ps = length ss"
  by (induction ss arbitrary: ps) (auto simp: bind_result_Inr dest: load_pattern_nonempty)

lemma patterns_ok: "patterns ss at = Inr ps \<Longrightarrow> ps \<noteq> [] \<and> [] \<notin> set ps"
  by (auto simp: patterns_def dest: pattern_each_ok split: if_splits)

lemma load_constraints_ok: "load_constraints le cs at = Inr xs \<Longrightarrow> \<forall>x \<in> set xs. rule_ok x"
proof (induction cs arbitrary: xs)
  case (Cons c cs)
  have "rule_ok x" if "load_constraint le c at = Inr x" for x
    using that by (cases c) (auto simp: bind_result_Inr dest: patterns_ok load_pattern_nonempty)
  then show ?case using Cons by (auto simp: bind_result_Inr)
qed simp

lemma load_globals_ok: "load_globals gs = Inr xs \<Longrightarrow> \<forall>x \<in> set xs. global_ok x"
proof (induction gs arbitrary: xs)
  case (Cons g gs)
  have "global_ok x" if "load_global g at = Inr x" for x at
    using that by (cases g) (auto simp: bind_result_Inr dest: patterns_ok)
  then show ?case using Cons by (auto simp: bind_result_Inr)
qed simp

lemma named_type_enum: "named_type ty r vs at = Inr t \<Longrightarrow> t \<noteq> VEnum []"
  unfolding named_type_def numeric_def by (auto split: if_splits option.splits list.splits)

lemma make_spec_ok: "make_spec le ty r vs regex accepts at = Inr s \<Longrightarrow> spec_ok le s"
  unfolding make_spec_def
  by (auto simp: bind_result_Inr spec_ok_def dest: named_type_enum split: if_splits option.splits)

lemma load_kind_ok: "load_kind le d name at = Inr k \<Longrightarrow> kind_ok le k"
  unfolding load_kind_def leaf_spec_def
  by (auto simp: bind_result_Inr kind_ok_def dest: make_spec_ok split: if_splits option.splits)

lemma node_head_ok:
  assumes "node_head le ts raw at = Inr (hlp, kind, ch)"
  shows "kind_ok le kind" and "kind_nests kind \<longleftrightarrow> ch \<noteq> []" and "expand ts at raw = Inr ch"
proof -
  obtain kind_name where "expand ts at raw = Inr ch" "load_kind le (rn_def raw) kind_name at = Inr kind"
    "kind_nests kind \<longleftrightarrow> ch \<noteq> []"
    using assms unfolding node_head_def
    by (elim bind_err_InrE) (auto elim!: bind_err_InrE split: option.splits if_splits)
  then show "kind_ok le kind" and "kind_nests kind \<longleftrightarrow> ch \<noteq> []" and "expand ts at raw = Inr ch"
    using load_kind_ok by blast+
qed

lemma convert_children_ok:
  assumes "convert_children conv at ch out = Some (Inr res)"
    and "bm_ok out" and "\<forall>e \<in> set out. P (snd e)"
    and "\<And>c at' n. conv c at' = Some (Inr n) \<Longrightarrow> P n"
  shows "bm_ok res \<and> (\<forall>e \<in> set res. P (snd e)) \<and> fst ` set res = fst ` set out \<union> fst ` set ch"
  using assms(1-3)
proof (induction ch arbitrary: out)
  case (Cons e ch)
  obtain name child where e: "e = (name, child)" by (cases e)
  obtain n where n: "conv child (at @ '' '' @ name) = Some (Inr n)"
    and rest: "convert_children conv at ch (bm_insert name n out) = Some (Inr res)"
    using Cons.prems(1) by (auto simp: e split: option.splits sum.splits)
  have "\<forall>e \<in> set (bm_insert name n out). P (snd e)"
    using Cons.prems(3) assms(4) [OF n] bm_set_insert [of name n out] by auto
  from Cons.IH [OF rest bm_ok_insert [OF Cons.prems(2)] this] show ?case
    by (auto simp: e bm_keys_insert)
qed simp

lemma node_tail_fine:
  assumes "node_tail le d at priority hlp kind children = Inr n"
    and "bm_ok children" and "kind_ok le kind" and "kind_nests kind \<longleftrightarrow> children \<noteq> []"
  shows "node_fine le n" and "sn_children n = children"
proof -
  define unique where "unique = (case rd_unique d of None \<Rightarrow> [] | Some u \<Rightarrow> u)"
  define exclusive where "exclusive = (case rd_exclusive d of None \<Rightarrow> [] | Some u \<Rightarrow> u)"
  define node where "node cs = SchemaNode kind hlp (map_option (into_string le) (rd_default d))
      (case rd_secret d of None \<Rightarrow> False | Some b \<Rightarrow> b) (case rd_required d of None \<Rightarrow> False | Some b \<Rightarrow> b)
      priority children cs unique exclusive" for cs
  have named: "find (\<lambda>name. bm_get children name = None) (concat (unique @ exclusive)) = None"
    using assms(1) unfolding node_tail_def Let_def unique_def exclusive_def
    by (cases "find (\<lambda>name. bm_get children name = None) (concat ((case rd_unique d of None \<Rightarrow> [] | Some u \<Rightarrow> u) @
      (case rd_exclusive d of None \<Rightarrow> [] | Some u \<Rightarrow> u)))") simp_all
  have tag: "unique = [] \<or> (case kind of STag t \<Rightarrow> True | _ \<Rightarrow> False)"
    using assms(1) named unfolding node_tail_def Let_def by (fold unique_def exclusive_def) (simp split: if_splits)
  obtain cs where cs: "load_constraints le (case rd_constraints d of None \<Rightarrow> [] | Some cs \<Rightarrow> cs) at = Inr cs"
    and chk: "(case (sn_default (node cs), sn_value_spec (node cs)) of
        (Some dv, Some spec) \<Rightarrow>
          (case spec_check (values_env le) spec dv of
             Inl e \<Rightarrow> Inl (SchemaInvalid at (''its default is invalid: '' @ show_value_error e))
           | Inr u \<Rightarrow> Inr (node cs))
      | _ \<Rightarrow> Inr (node cs)) = Inr n"
    using assms(1) named tag unfolding node_tail_def Let_def node_def
    by (fold unique_def exclusive_def) (auto elim!: bind_err_InrE split: if_splits)
  have n: "n = node cs"
    and default: "\<forall>v s. sn_default n = Some v \<and> sn_value_spec n = Some s \<longrightarrow> spec_check (values_env le) s v = Inr ()"
    using chk by (auto split: option.splits sum.splits)
  have "\<forall>group \<in> set unique \<union> set exclusive. \<forall>name \<in> set group. bm_get children name \<noteq> None"
    using named by (auto simp: find_None_iff)
  then show "node_fine le n"
    using assms(2-4) tag load_constraints_ok [OF cs] default
    by (simp add: node_fine_def n node_def sn_is_tag_def takes_children_def kind_nests_def)
  show "sn_children n = children" by (simp add: n node_def)
qed

lemma convert_wf: "convert fuel le ts raw at inherited = Some (Inr n) \<Longrightarrow> node_wf le n"
proof (induction fuel arbitrary: raw at inherited n)
  case (Suc fuel)
  obtain hlp kind ch where head: "node_head le ts raw at = Inr (hlp, kind, ch)"
    using Suc.prems by (auto split: sum.splits)
  define priority where "priority = (case rd_priority (rn_def raw) of None \<Rightarrow> inherited | Some p \<Rightarrow> p)"
  obtain children where
    kids: "convert_children (\<lambda>child at'. convert fuel le ts child at' priority) at ch [] = Some (Inr children)"
    and tail: "node_tail le (rn_def raw) at priority hlp kind children = Inr n"
    using Suc.prems head by (auto simp: priority_def Let_def split: option.splits sum.splits)
  have res: "bm_ok children \<and> (\<forall>e \<in> set children. node_wf le (snd e)) \<and> fst ` set children = fst ` set ch"
    using convert_children_ok [OF kids, of "node_wf le"] Suc.IH by simp
  have "kind_nests kind \<longleftrightarrow> children \<noteq> []"
    using node_head_ok(2) [OF head] res by (metis image_is_empty set_empty)
  from node_tail_fine [OF tail _ node_head_ok(1) [OF head] this] res show ?case
    by (intro node_wf.intros) auto
qed simp

definition schema_wf :: "loader_env \<Rightarrow> schema \<Rightarrow> bool" where
  "schema_wf le sc \<longleftrightarrow>
     sn_kind (sc_root sc) = SContainer \<and> bm_ok (sn_children (sc_root sc)) \<and>
     (\<forall>e \<in> set (sn_children (sc_root sc)). node_wf le (snd e)) \<and> (\<forall>g \<in> set (sc_globals sc). global_ok g)"

lemma build_nodes_wf:
  assumes "build_nodes fuel le ts ns out = Some (Inr res)"
    and "bm_ok out" and "\<forall>e \<in> set out. node_wf le (snd e)"
  shows "bm_ok res \<and> (\<forall>e \<in> set res. node_wf le (snd e))"
  using assms
proof (induction ns arbitrary: out)
  case (Cons e ns)
  obtain name raw where e: "e = (name, raw)" by (cases e)
  obtain n where n: "convert fuel le ts raw name DEFAULT_PRIORITY = Some (Inr n)"
    and rest: "build_nodes fuel le ts ns (bm_insert name n out) = Some (Inr res)"
    using Cons.prems(1) by (auto simp: e split: option.splits sum.splits)
  have "\<forall>e \<in> set (bm_insert name n out). node_wf le (snd e)"
    using Cons.prems(3) convert_wf [OF n] bm_set_insert [of name n out] by auto
  from Cons.IH [OF rest bm_ok_insert [OF Cons.prems(2)] this] show ?case .
qed simp

lemma build_wf: "build fuel le raw = Some (Inr sc) \<Longrightarrow> schema_wf le sc"
  using build_nodes_wf [of fuel le "rf_templates raw" "rf_nodes raw" "[]"] load_globals_ok
  by (auto simp: build_def schema_wf_def bind_result_Inr split: option.splits sum.splits)

lemma loads_build:
  "load_sources fuel le sources = Some (Inr sc) \<Longrightarrow> \<exists>raw. build fuel le raw = Some (Inr sc)"
  "load_dir fuel le dir slots = Some (Inr sc) \<Longrightarrow> \<exists>raw. build fuel le raw = Some (Inr sc)"
  by (auto simp: load_sources_def load_dir_def split: sum.splits)

text \<open>Every node a path can reach is well formed.\<close>

definition loc_wf :: "loader_env \<Rightarrow> schema_node \<Rightarrow> location \<Rightarrow> bool" where
  "loc_wf le r loc \<longleftrightarrow> loc = AtNode r \<or> node_wf le (location_node loc)"

lemma loc_step_wf:
  assumes root: "sn_kind r = SContainer" "\<forall>e \<in> set (sn_children r). node_wf le (snd e)"
    and "loc_wf le r loc" and "loc_step loc s = Some loc'"
  shows "node_wf le (location_node loc')"
proof (cases "loc = AtNode r")
  case True
  then show ?thesis using assms by (auto simp: child_location_def dest!: map_of_SomeD)
next
  case False
  then have wf: "node_wf le (location_node loc)" using assms(3) by (simp add: loc_wf_def)
  show ?thesis
    using assms(4) wf
    by (cases loc) (auto simp: child_location_def split: schema_kind.splits dest: node_wf_child)
qed

lemma resolve_wf:
  assumes "schema_wf le sc" and "resolve sc p = Some loc" and "p \<noteq> []"
  shows "node_wf le (location_node loc)"
proof -
  have root: "sn_kind (sc_root sc) = SContainer" "\<forall>e \<in> set (sn_children (sc_root sc)). node_wf le (snd e)"
    using assms(1) by (simp_all add: schema_wf_def)
  have "resolve_from l q = Some loc \<Longrightarrow> loc_wf le (sc_root sc) l \<Longrightarrow> q \<noteq> [] \<Longrightarrow> node_wf le (location_node loc)" for l q
  proof (induction q arbitrary: l)
    case (Cons s q)
    obtain l' where l': "loc_step l s = Some l'" "resolve_from l' q = Some loc"
      using Cons.prems(1) by (auto split: option.splits)
    have "node_wf le (location_node l')" by (rule loc_step_wf [OF root Cons.prems(2) l'(1)])
    then show ?case using Cons.IH [OF l'(2)] l'(2) by (cases q) (auto simp: loc_wf_def)
  qed simp
  then show ?thesis using assms(2,3) by (simp add: resolve_def loc_wf_def)
qed

section \<open>Merging\<close>

definition kids_of :: "raw_node \<Rightarrow> raw_kids" where
  "kids_of n = (case rn_children n of None \<Rightarrow> [] | Some m \<Rightarrow> m)"

text \<open>The definition a document has at a path, and a document whose maps are in order.\<close>

fun def_at :: "raw_kids \<Rightarrow> path \<Rightarrow> raw_def option" where
  "def_at ch [] = None"
| "def_at ch (s # ss) =
     (case bm_get ch s of
        None \<Rightarrow> None
      | Some n \<Rightarrow> if ss = [] then Some (rn_def n) else def_at (kids_of n) ss)"

inductive raw_ok :: "raw_kids \<Rightarrow> bool" where
  "bm_ok ch \<Longrightarrow> \<forall>e \<in> set ch. raw_ok (kids_of (snd e)) \<Longrightarrow> raw_ok ch"

inductive_simps raw_ok_iff: "raw_ok ch"

definition pick :: "'a option \<Rightarrow> 'a option \<Rightarrow> 'a option" where
  "pick a b = (case b of None \<Rightarrow> a | Some v \<Rightarrow> Some v)"

definition clash :: "('a \<Rightarrow> 'a \<Rightarrow> bool) \<Rightarrow> 'a option \<Rightarrow> 'a option \<Rightarrow> bool" where
  "clash eq a b \<longleftrightarrow> (\<exists>x y. a = Some x \<and> b = Some y \<and> \<not> eq x y)"

definition agree :: "raw_def \<Rightarrow> raw_def \<Rightarrow> bool" where
  "agree a b \<longleftrightarrow>
     \<not> clash (=) (rd_kind a) (rd_kind b) \<and> \<not> clash (=) (rd_help a) (rd_help b) \<and>
     \<not> clash (=) (rd_ty a) (rd_ty b) \<and> \<not> clash (=) (rd_range a) (rd_range b) \<and>
     \<not> clash scalars_eq (rd_values a) (rd_values b) \<and> \<not> clash (=) (rd_regex a) (rd_regex b) \<and>
     \<not> clash scalars_eq (rd_accepts a) (rd_accepts b) \<and> \<not> clash scalar_eq (rd_default a) (rd_default b) \<and>
     \<not> clash (=) (rd_secret a) (rd_secret b) \<and> \<not> clash (=) (rd_required a) (rd_required b) \<and>
     \<not> clash (=) (rd_priority a) (rd_priority b) \<and> \<not> clash tag_eq (rd_tag a) (rd_tag b)"

definition join_def :: "raw_def \<Rightarrow> raw_def \<Rightarrow> raw_def" where
  "join_def a b =
     \<lparr>rd_kind = pick (rd_kind a) (rd_kind b), rd_help = pick (rd_help a) (rd_help b),
      rd_ty = pick (rd_ty a) (rd_ty b), rd_range = pick (rd_range a) (rd_range b),
      rd_values = pick (rd_values a) (rd_values b), rd_regex = pick (rd_regex a) (rd_regex b),
      rd_accepts = pick (rd_accepts a) (rd_accepts b), rd_default = pick (rd_default a) (rd_default b),
      rd_secret = pick (rd_secret a) (rd_secret b), rd_required = pick (rd_required a) (rd_required b),
      rd_priority = pick (rd_priority a) (rd_priority b), rd_tag = pick (rd_tag a) (rd_tag b),
      rd_include = merge_extend (rd_include a) (rd_include b),
      rd_exclude = merge_extend (rd_exclude a) (rd_exclude b),
      rd_constraints = merge_extend (rd_constraints a) (rd_constraints b),
      rd_unique = merge_extend (rd_unique a) (rd_unique b),
      rd_exclusive = merge_extend (rd_exclusive a) (rd_exclusive b)\<rparr>"

fun joined :: "raw_def option \<Rightarrow> raw_def option \<Rightarrow> raw_def option" where
  "joined (Some a) (Some b) = Some (join_def a b)"
| "joined None y = y"
| "joined x None = x"

lemma joined_None [simp]: "joined x None = x"
  by (cases x) simp_all

lemma merge_field_eq:
  "merge_field eq mode at field a b =
     (if mode = Strict \<and> clash eq a b then Inl (SchemaConflict at field) else Inr (pick a b))"
  by (auto simp: merge_field_def clash_def pick_def split: option.splits)

lemma merge_def_exact:
  "(\<exists>c. merge_def mode at a b = Inr c) \<longleftrightarrow> (mode = Strict \<longrightarrow> agree a b)"
  "merge_def mode at a b = Inr c \<Longrightarrow> c = join_def a b"
proof -
  have one: "merge_def mode at a b = Inr (join_def a b) \<or> \<not> is_ok (merge_def mode at a b) \<and> mode = Strict \<and> \<not> agree a b"
    unfolding merge_def_def merge_field_eq agree_def join_def_def
    by (cases "mode = Strict") (simp_all split: if_split)
  moreover note one
  moreover have "\<not> is_ok (merge_def mode at a b)" if "mode = Strict" "\<not> agree a b"
    using that unfolding merge_def_def merge_field_eq agree_def by (auto split: if_split)
  ultimately show "(\<exists>c. merge_def mode at a b = Inr c) \<longleftrightarrow> (mode = Strict \<longrightarrow> agree a b)"
    by (metis is_ok_simps(1))
  show "merge_def mode at a b = Inr c \<Longrightarrow> c = join_def a b"
    using one by auto
qed

lemma kids_of_simps [simp]: "kids_of (RawNode d (Some m)) = m" "kids_of (RawNode d None) = []"
  by (simp_all add: kids_of_def)

lemma raw_ok_insert: "raw_ok ch \<Longrightarrow> raw_ok (kids_of n) \<Longrightarrow> raw_ok (bm_insert s n ch)"
  unfolding raw_ok_iff [of ch] raw_ok_iff [of "bm_insert s n ch"]
  using bm_set_insert [of s n ch] by (auto simp: bm_ok_insert)

definition mergeable :: "raw_kids \<Rightarrow> raw_kids \<Rightarrow> bool" where
  "mergeable into from \<longleftrightarrow> (\<forall>p a b. def_at into p = Some a \<longrightarrow> def_at from p = Some b \<longrightarrow> agree a b)"

definition merges_to :: "merge_mode \<Rightarrow> raw_kids \<Rightarrow> raw_kids \<Rightarrow> schema_error + raw_kids \<Rightarrow> bool" where
  "merges_to mode into from r \<longleftrightarrow>
     ((\<exists>out. r = Inr out) \<longleftrightarrow> (mode = Strict \<longrightarrow> mergeable into from)) \<and>
     (\<forall>out. r = Inr out \<longrightarrow> raw_ok out \<and> (\<forall>p. def_at out p = joined (def_at into p) (def_at from p)))"

lemma def_at_Nil [simp]: "def_at [] p = None"
  by (cases p) simp_all

definition node_at :: "raw_node \<Rightarrow> path \<Rightarrow> raw_def option" where
  "node_at n ss = (if ss = [] then Some (rn_def n) else def_at (kids_of n) ss)"

lemma def_at_step:
  "def_at ((name, node) # others) (s # ss) = (if s = name then node_at node ss else def_at others (s # ss))"
  "def_at (bm_insert name node ch) (s # ss) = (if s = name then node_at node ss else def_at ch (s # ss))"
  by (simp_all add: node_at_def bm_get_insert)

lemma def_at_present: "bm_get ch s = Some n \<Longrightarrow> def_at ch (s # ss) = node_at n ss"
  by (simp add: node_at_def)

lemma def_at_absent:
  assumes "s \<notin> fst ` set ch"
  shows "def_at ch (s # ss) = None"
proof -
  have "bm_get ch s = None" using assms by (simp add: map_of_eq_None_iff)
  then show ?thesis by simp
qed

lemma mergeable_iff:
  "mergeable into from \<longleftrightarrow>
     (\<forall>s ss a b. def_at into (s # ss) = Some a \<longrightarrow> def_at from (s # ss) = Some b \<longrightarrow> agree a b)"
proof -
  have "agree a b" if "def_at into p = Some a" "def_at from p = Some b"
    and "\<forall>s ss a b. def_at into (s # ss) = Some a \<longrightarrow> def_at from (s # ss) = Some b \<longrightarrow> agree a b" for p a b
    using that by (cases p) (auto simp del: def_at.simps(2))
  then show ?thesis unfolding mergeable_def by blast
qed

lemma mergeable_split:
  "mergeable into ((name, node) # others) \<longleftrightarrow>
     (\<forall>ss a b. def_at into (name # ss) = Some a \<longrightarrow> node_at node ss = Some b \<longrightarrow> agree a b) \<and>
     (\<forall>s ss a b. s \<noteq> name \<longrightarrow> def_at into (s # ss) = Some a \<longrightarrow> def_at others (s # ss) = Some b \<longrightarrow> agree a b)"
  unfolding mergeable_iff def_at_step by (auto simp del: def_at.simps)

lemma mergeable_insert:
  assumes "name \<notin> fst ` set others"
  shows "mergeable (bm_insert name n into) others \<longleftrightarrow>
    (\<forall>s ss a b. s \<noteq> name \<longrightarrow> def_at into (s # ss) = Some a \<longrightarrow> def_at others (s # ss) = Some b \<longrightarrow> agree a b)"
  unfolding mergeable_iff def_at_step
  by (auto simp del: def_at.simps simp: def_at_absent [OF assms] split: if_split)

lemma mergeable_fresh:
  assumes "bm_get into name = None" and "name \<notin> fst ` set others"
  shows "mergeable into ((name, node) # others) \<longleftrightarrow> mergeable (bm_insert name node into) others"
  unfolding mergeable_split mergeable_insert [OF assms(2)] using assms(1) by simp

lemma mergeable_twice:
  assumes "bm_get into name = Some existing" and "name \<notin> fst ` set others"
  shows "mergeable into ((name, node) # others) \<longleftrightarrow>
    agree (rn_def existing) (rn_def node) \<and> mergeable (kids_of existing) (kids_of node) \<and>
    mergeable (bm_insert name merged into) others"
proof -
  have "(\<forall>ss a b. def_at into (name # ss) = Some a \<longrightarrow> node_at node ss = Some b \<longrightarrow> agree a b) \<longleftrightarrow>
      agree (rn_def existing) (rn_def node) \<and> mergeable (kids_of existing) (kids_of node)"
  proof -
    have "mergeable (kids_of existing) (kids_of node) \<longleftrightarrow> (\<forall>ss a b. ss \<noteq> [] \<longrightarrow>
        def_at (kids_of existing) ss = Some a \<longrightarrow> def_at (kids_of node) ss = Some b \<longrightarrow> agree a b)"
      unfolding mergeable_def by (metis def_at.simps(1) option.distinct(1))
    then show ?thesis
      unfolding def_at_present [OF assms(1)] node_at_def by auto
  qed
  then show ?thesis unfolding mergeable_split mergeable_insert [OF assms(2)] by blast
qed

lemma raw_ok_Cons:
  "raw_ok ((name, n) # others) \<longleftrightarrow> (\<forall>k \<in> fst ` set others. name < k) \<and> raw_ok (kids_of n) \<and> raw_ok others"
  unfolding raw_ok_iff [of "(name, n) # others"] raw_ok_iff [of others] bm_ok_Cons
    list.set(2) ball_simps(7) snd_conv by (simp only: conj_ac)

lemma raw_ok_get: "raw_ok ch \<Longrightarrow> bm_get ch s = Some n \<Longrightarrow> raw_ok (kids_of n)"
  by (subst (asm) raw_ok_iff) (metis map_of_SomeD snd_conv)

lemma raw_ok_Nil [simp]: "raw_ok []"
  by (rule raw_ok.intros) simp_all

lemma merge_exact_aux:
  "raw_ok into \<Longrightarrow> raw_ok from \<Longrightarrow> merges_to mode into from (merge_children mode at into from)"
  "raw_ok (kids_of n) \<Longrightarrow> raw_ok (kids_of m) \<Longrightarrow>
     ((\<exists>x. merge_node mode at n m = Inr x) \<longleftrightarrow>
        (mode = Strict \<longrightarrow> agree (rn_def n) (rn_def m) \<and> mergeable (kids_of n) (kids_of m))) \<and>
     (\<forall>x. merge_node mode at n m = Inr x \<longrightarrow> rn_def x = join_def (rn_def n) (rn_def m) \<and>
        raw_ok (kids_of x) \<and> (\<forall>p. def_at (kids_of x) p = joined (def_at (kids_of n) p) (def_at (kids_of m) p)))"
proof (induction mode at into "from" and mode at n m rule: merge_children_merge_node.induct)
  case (1 mode at into)
  then show ?case by (simp add: merges_to_def mergeable_def)
next
  case (2 mode at into name node others)
  have node: "name \<notin> fst ` set others" "raw_ok (kids_of node)" "raw_ok others"
    using 2(5) unfolding raw_ok_Cons using order_less_irrefl by blast+
  have split: "def_at ((name, node) # others) p = (if p \<noteq> [] \<and> hd p = name then def_at [(name, node)] p else def_at others p)" for p
    by (cases p) auto
  show ?case
  proof (cases "bm_get into name")
    case None
    have ok: "raw_ok (bm_insert name node into)" by (rule raw_ok_insert [OF 2(4) node(2)])
    have p: "joined (def_at (bm_insert name node into) p) (def_at others p) =
        joined (def_at into p) (def_at ((name, node) # others) p)" for p
      using None def_at_absent [OF node(1)] by (cases p) (auto simp: def_at_step simp del: def_at.simps(2), simp)
    show ?thesis
      using 2(1) [OF None ok node(3)] None
      unfolding merges_to_def by (simp add: mergeable_fresh [OF None node(1)] p del: def_at.simps)
  next
    case (Some existing)
    let ?at = "if at = [] then name else at @ '' '' @ name"
    note step = 2(2) [OF Some raw_ok_get [OF 2(4) Some] node(2)]
    show ?thesis
    proof (cases "merge_node mode ?at existing node")
      case (Inl e)
      then have "mode = Strict \<and> \<not> mergeable into ((name, node) # others)"
        using step mergeable_twice [OF Some node(1), of node] by auto
      then show ?thesis using Some Inl by (simp add: merges_to_def)
    next
      case (Inr merged)
      then have merged: "rn_def merged = join_def (rn_def existing) (rn_def node)" "raw_ok (kids_of merged)"
        "def_at (kids_of merged) p = joined (def_at (kids_of existing) p) (def_at (kids_of node) p)"
        "mode = Strict \<longrightarrow> agree (rn_def existing) (rn_def node) \<and> mergeable (kids_of existing) (kids_of node)" for p
        using step by auto
      have ok: "raw_ok (bm_insert name merged into)" by (rule raw_ok_insert [OF 2(4) merged(2)])
      have p: "joined (def_at (bm_insert name merged into) p) (def_at others p) =
          joined (def_at into p) (def_at ((name, node) # others) p)" for p
        using merged(1,3) def_at_absent [OF node(1)] def_at_present [OF Some]
        by (cases p) (auto simp: def_at_step node_at_def simp del: def_at.simps(2))
      have "mode = Strict \<longrightarrow> mergeable into ((name, node) # others) = mergeable (bm_insert name merged into) others"
        using mergeable_twice [OF Some node(1), of node merged] merged(4) by blast
      then show ?thesis
        using 2(3) [OF Some ok node(3)] Some Inr
        unfolding merges_to_def by (simp add: p del: def_at.simps)
    qed
  qed
next
  case (3 mode at into d)
  then show ?case using merge_def_exact [of mode at "rn_def into" d]
    by (auto simp: bind_result_Inr mergeable_def kids_of_def)
next
  case (4 mode at into d ch)
  have d: "(\<exists>c. merge_def mode at (rn_def into) d = Inr c) \<longleftrightarrow> (mode = Strict \<longrightarrow> agree (rn_def into) d)"
    "merge_def mode at (rn_def into) d = Inr c \<Longrightarrow> c = join_def (rn_def into) d" for c
    by (rule merge_def_exact)+
  show ?case
  proof (cases "merge_def mode at (rn_def into) d")
    case (Inl e)
    then show ?thesis using d by auto
  next
    case (Inr d')
    have "merges_to mode (kids_of into) ch (merge_children mode at (kids_of into) ch)"
      using 4 Inr by (simp add: kids_of_def)
    then show ?thesis using d Inr unfolding merges_to_def
      by (auto simp: bind_result_Inr kids_of_def [of into])
  qed
qed

lemma absorb_templates_exact:
  assumes "bm_ok from" and "bm_ok into"
  shows "((\<exists>ts. absorb_templates into from = Inr ts) \<longleftrightarrow> (\<forall>name. bm_get into name = None \<or> bm_get from name = None)) \<and>
    (\<forall>ts. absorb_templates into from = Inr ts \<longrightarrow> bm_ok ts \<and>
      (\<forall>name. bm_get ts name = (case bm_get from name of Some ch \<Rightarrow> Some ch | None \<Rightarrow> bm_get into name)))"
  using assms
proof (induction into "from" rule: absorb_templates.induct)
  case (2 into name ch others)
  have others: "bm_ok others" "bm_get others name = None"
    using 2(2) by (auto simp: bm_ok_Cons map_of_eq_None_iff)
  have each: "bm_get ((name, ch) # others) k = (if k = name then Some ch else bm_get others k)" for k
    by simp
  show ?case
  proof (cases "bm_get into name")
    case None
    have ok: "bm_ok (bm_insert name ch into)" by (rule bm_ok_insert [OF 2(3)])
    have same: "(\<forall>k. bm_get (bm_insert name ch into) k = None \<or> bm_get others k = None) \<longleftrightarrow>
        (\<forall>k. bm_get into k = None \<or> bm_get ((name, ch) # others) k = None)"
      using None others(2) by (auto simp: each bm_get_insert)
    have entry: "(case bm_get others k of Some x \<Rightarrow> Some x | None \<Rightarrow> bm_get (bm_insert name ch into) k) =
        (case bm_get ((name, ch) # others) k of Some x \<Rightarrow> Some x | None \<Rightarrow> bm_get into k)" for k
      using others(2) by (auto simp: each bm_get_insert split: option.split)
    from 2(1) [OF None others(1) ok] show ?thesis
      unfolding same entry by (simp add: None)
  next
    case (Some u)
    then show ?thesis by (auto simp: each intro!: exI [of _ name])
  qed
qed simp

definition raw_file_ok :: "raw_file \<Rightarrow> bool" where
  "raw_file_ok f \<longleftrightarrow> bm_ok (rf_templates f) \<and> raw_ok (rf_nodes f)"

text \<open>
  C24. Merging one schema file into another succeeds exactly when they have no template of one name
  and give no field of a node two different values (the same value twice is taken); then the
  templates are those of both, every node has what either file says of it, its lists of rules one
  after the other, and so are the rules between nodes. When the children of a node are laid over a
  template's instead, that never fails and the node's own fields win.
\<close>

theorem merge_exact:
  assumes "raw_file_ok f" and "raw_file_ok other"
  shows "((\<exists>out. absorb f other = Inr out) \<longleftrightarrow>
      (\<forall>name. bm_get (rf_templates f) name = None \<or> bm_get (rf_templates other) name = None) \<and>
      (\<forall>p a b. def_at (rf_nodes f) p = Some a \<longrightarrow> def_at (rf_nodes other) p = Some b \<longrightarrow> agree a b)) \<and>
    (\<forall>out. absorb f other = Inr out \<longrightarrow> raw_file_ok out \<and>
      (\<forall>name. bm_get (rf_templates out) name =
        (case bm_get (rf_templates other) name of Some ch \<Rightarrow> Some ch | None \<Rightarrow> bm_get (rf_templates f) name)) \<and>
      (\<forall>p. def_at (rf_nodes out) p = joined (def_at (rf_nodes f) p) (def_at (rf_nodes other) p)) \<and>
      rf_globals out = rf_globals f @ rf_globals other) \<and>
    (\<exists>out. merge_children Overlay at (rf_nodes f) (rf_nodes other) = Inr out \<and>
      (\<forall>p. def_at out p = joined (def_at (rf_nodes f) p) (def_at (rf_nodes other) p)))"
proof -
  have ok: "raw_ok (rf_nodes f)" "raw_ok (rf_nodes other)" "bm_ok (rf_templates f)" "bm_ok (rf_templates other)"
    using assms by (simp_all add: raw_file_ok_def)
  note nodes = merge_exact_aux(1) [OF ok(1,2), unfolded merges_to_def mergeable_def]
  note templates = absorb_templates_exact [OF ok(4,3)]
  have "\<exists>out. merge_children Overlay at (rf_nodes f) (rf_nodes other) = Inr out" using nodes [of Overlay at] by simp
  then have over: "\<exists>out. merge_children Overlay at (rf_nodes f) (rf_nodes other) = Inr out \<and>
      (\<forall>p. def_at out p = joined (def_at (rf_nodes f) p) (def_at (rf_nodes other) p))"
    using nodes [of Overlay at] by blast
  have out: "absorb f other = Inr out \<longleftrightarrow> absorb_templates (rf_templates f) (rf_templates other) = Inr (rf_templates out) \<and>
      merge_children Strict [] (rf_nodes f) (rf_nodes other) = Inr (rf_nodes out) \<and>
      rf_globals out = rf_globals f @ rf_globals other" for out
    by (cases out) (auto simp: absorb_def bind_result_Inr)
  have "(\<exists>out. absorb f other = Inr out) \<longleftrightarrow> (\<exists>ts. absorb_templates (rf_templates f) (rf_templates other) = Inr ts) \<and>
      (\<exists>ns. merge_children Strict [] (rf_nodes f) (rf_nodes other) = Inr ns)"
    by (auto simp: absorb_def bind_result_Inr)
  then show ?thesis
    using nodes [of Strict "[]"] templates over unfolding out raw_file_ok_def by simp
qed

section \<open>The order of a directory\<close>

text \<open>The same directory, listed in another order, at any depth.\<close>

inductive relisted :: "fs_slot list \<Rightarrow> fs_slot list \<Rightarrow> bool" where
  same: "relisted slots slots"
| swap: "relisted (s # t # slots) (t # s # slots)"
| later: "relisted slots slots' \<Longrightarrow> relisted (s # slots) (s # slots')"
| inside: "relisted sub sub' \<Longrightarrow> relisted (Slot n (FsDir sub) # slots) (Slot n (FsDir sub') # slots)"
| trans: "relisted slots slots' \<Longrightarrow> relisted slots' slots'' \<Longrightarrow> relisted slots slots''"

text \<open>The schema files of a directory that can be listed, which is to say of one without a bad slot.\<close>

fun files_in :: "file_path \<Rightarrow> fs_node \<Rightarrow> found_file list"
and files_under :: "file_path \<Rightarrow> fs_slot list \<Rightarrow> found_file list" where
  "files_in path (FsFile contents) =
     (if file_extension (last path) \<in> {Some ''yaml'', Some ''yml''} then [(path, contents)] else [])"
| "files_in path (FsUnlistable e) = []"
| "files_in path (FsDir slots) = files_under path slots"
| "files_under dir [] = []"
| "files_under dir (BadSlot e # slots) = files_under dir slots"
| "files_under dir (Slot name n # slots) = files_in (dir @ [name]) n @ files_under dir slots"

fun listable :: "fs_node \<Rightarrow> bool"
and all_listable :: "fs_slot list \<Rightarrow> bool" where
  "listable (FsFile contents) = True"
| "listable (FsUnlistable e) = False"
| "listable (FsDir slots) = all_listable slots"
| "all_listable [] = True"
| "all_listable (BadSlot e # slots) = False"
| "all_listable (Slot name n # slots) = (listable n \<and> all_listable slots)"

lemma collect_exact:
  "if listable n then collect_node path n out = Inr (out @ files_in path n) else \<not> is_ok (collect_node path n out)"
  "if all_listable slots then collect_files dir slots out = Inr (out @ files_under dir slots)
   else \<not> is_ok (collect_files dir slots out)"
proof (induction path n out and dir slots out rule: collect_node_collect_files.induct)
  case (6 dir name n slots out)
  then show ?case by (cases "collect_node (dir @ [name]) n out") (auto split: if_splits)
qed auto

lemma relisted_listable: "relisted slots slots' \<Longrightarrow> all_listable slots = all_listable slots'"
proof (induction rule: relisted.induct)
  case (swap s t slots)
  then show ?case by (cases s; cases t) auto
next
  case (later slots slots' s)
  then show ?case by (cases s) auto
qed auto

lemma relisted_files: "relisted slots slots' \<Longrightarrow> mset (files_under dir slots) = mset (files_under dir slots')"
proof (induction arbitrary: dir rule: relisted.induct)
  case (swap s t slots)
  then show ?case by (cases s; cases t) auto
next
  case (later slots slots' s)
  then show ?case by (cases s) auto
qed auto

lemma sort_key_mset:
  fixes xs ys :: "('a::linorder \<times> 'b) list"
  assumes "mset xs = mset ys" and "distinct (map fst xs)"
  shows "sort_key fst xs = sort_key fst ys"
proof (rule properties_for_sort_key)
  show "mset (sort_key fst ys) = mset xs" using assms(1) by simp
  show "sorted (map fst (sort_key fst ys))" by simp
  have "distinct (map fst ys)"
    using assms by (metis mset_eq_imp_distinct_iff mset_map)
  have inj: "length (filter (\<lambda>x. k = fst x) zs) \<le> 1" if "distinct (map fst zs)" for k and zs :: "('a \<times> 'b) list"
    using that by (induction zs) (auto simp: filter_empty_conv)
  show "filter (\<lambda>x. fst e = fst x) (sort_key fst ys) = filter (\<lambda>x. fst e = fst x) xs" if "e \<in> set (sort_key fst ys)" for e
  proof -
    have "mset (filter (\<lambda>x. fst e = fst x) (sort_key fst ys)) = mset (filter (\<lambda>x. fst e = fst x) xs)"
      using assms(1) by simp
    moreover have "length (filter (\<lambda>x. fst e = fst x) xs) \<le> 1" by (rule inj [OF assms(2)])
    ultimately show ?thesis
      by (cases "filter (\<lambda>x. fst e = fst x) xs"; cases "filter (\<lambda>x. fst e = fst x) (sort_key fst ys)")
        (auto dest: mset_eq_length)
  qed
qed

text \<open>
  What is loaded from a directory does not depend on the order in which the file system lists it,
  at any depth. The hypothesis that no two files have one path is what a file system guarantees.
\<close>

lemma load_dir_order:
  assumes "relisted slots slots'" and "all_listable slots" and "distinct (map fst (files_under dir slots))"
  shows "load_dir fuel le dir slots' = load_dir fuel le dir slots"
proof -
  have "collect_files dir slots [] = Inr (files_under dir slots)"
    "collect_files dir slots' [] = Inr (files_under dir slots')"
    using collect_exact(2) [of slots dir "[]"] collect_exact(2) [of slots' dir "[]"]
      assms(2) relisted_listable [OF assms(1)] by simp_all
  moreover have "sort_key fst (files_under dir slots) = sort_key fst (files_under dir slots')"
    by (rule sort_key_mset [OF relisted_files [OF assms(1)] assms(3)])
  ultimately show ?thesis by (simp add: load_dir_def)
qed

section \<open>The conversion ends\<close>

definition named_templates :: "raw_node \<Rightarrow> string list" where
  "named_templates n = (case rd_include (rn_def n) of None \<Rightarrow> [] | Some names \<Rightarrow> names)"

text \<open>Every template a node names, at any depth.\<close>

primrec used :: "raw_node \<Rightarrow> string list" where
  "used (RawNode d ch) =
     (case rd_include d of None \<Rightarrow> [] | Some names \<Rightarrow> names) @
     (case map_option (map (map_prod id used)) ch of None \<Rightarrow> [] | Some m \<Rightarrow> concat (map snd m))"

lemma used_simp: "set (used n) = set (named_templates n) \<union> (\<Union>e \<in> set (kids_of n). set (used (snd e)))"
proof (cases n)
  case (RawNode d ch)
  then show ?thesis by (cases ch) (auto simp: named_templates_def)
qed

text \<open>
  A weight for every template bounds the depth of what a node becomes: \<open>fits w k n\<close> says that
  \<open>k\<close> levels are enough for \<open>n\<close>.
\<close>

primrec fits :: "(string \<Rightarrow> nat) \<Rightarrow> nat \<Rightarrow> raw_node \<Rightarrow> bool" where
  "fits w 0 n \<longleftrightarrow> False"
| "fits w (Suc k) n \<longleftrightarrow> (\<forall>i \<in> set (named_templates n). w i \<le> k) \<and> (\<forall>e \<in> set (kids_of n). fits w k (snd e))"

abbreviation all_fit :: "(string \<Rightarrow> nat) \<Rightarrow> nat \<Rightarrow> raw_kids \<Rightarrow> bool" where
  "all_fit w k ch \<equiv> \<forall>e \<in> set ch. fits w k (snd e)"

lemma fits_iff:
  "fits w k n \<longleftrightarrow> k > 0 \<and> (\<forall>i \<in> set (named_templates n). w i \<le> k - 1) \<and> all_fit w (k - 1) (kids_of n)"
  by (cases k) simp_all

lemma fits_mono: "fits w k n \<Longrightarrow> k \<le> k' \<Longrightarrow> fits w k' n"
proof (induction k arbitrary: n k')
  case (Suc k)
  then obtain j where j: "k' = Suc j" "k \<le> j" by (cases k') auto
  with Suc.prems(1) Suc.IH show ?case by (auto simp: j(1))
qed simp

lemma all_fit_insert: "all_fit w k ch \<Longrightarrow> fits w k n \<Longrightarrow> all_fit w k (bm_insert s n ch)"
  using bm_set_insert [of s n ch] by auto

lemma named_join:
  assumes "rn_def n = d"
  shows "set (named_templates (RawNode (join_def (rn_def into) d) ch)) \<subseteq>
    set (named_templates into) \<union> set (named_templates n)"
  unfolding assms [symmetric]
  by (cases "rd_include (rn_def into)"; cases "rd_include (rn_def n)")
    (simp_all add: named_templates_def join_def_def merge_extend_def)

lemma fits_merge:
  "all_fit w k into \<Longrightarrow> all_fit w k from \<Longrightarrow> merge_children mode at into from = Inr out \<Longrightarrow> all_fit w k out"
  "fits w k n \<Longrightarrow> fits w k m \<Longrightarrow> merge_node mode at n m = Inr x \<Longrightarrow> fits w k x"
proof (induction mode at into "from" and mode at n m arbitrary: k out and k x rule: merge_children_merge_node.induct)
  case (2 mode at into name node others)
  show ?case
  proof (cases "bm_get into name")
    case None
    have "fits w k node" "all_fit w k others" using 2(5) by simp_all
    from 2(1) [OF None all_fit_insert [OF 2(4) this(1)] this(2)] 2(6) None show ?thesis by simp
  next
    case (Some existing)
    then obtain merged where merged: "merge_node mode (if at = [] then name else at @ '' '' @ name) existing node = Inr merged"
      and out: "merge_children mode at (bm_insert name merged into) others = Inr out"
      using 2(6) by (auto simp: bind_result_Inr)
    have "fits w k existing" using 2(4) map_of_SomeD [OF Some] by auto
    then have "fits w k merged" using 2(2) [OF Some _ _ merged] 2(5) by simp
    from 2(3) [OF Some all_fit_insert [OF 2(4) this] _ out] 2(5) show ?thesis by simp
  qed
next
  case (3 mode at into d)
  then obtain d' where d': "merge_def mode at (rn_def into) d = Inr d'" "x = RawNode d' (rn_children into)"
    by (auto simp: bind_result_Inr)
  have "set (named_templates x) \<subseteq> set (named_templates into) \<union> set (named_templates (RawNode d None))"
    unfolding d'(2) merge_def_exact(2) [OF d'(1)] by (rule named_join) simp
  moreover have "k > 0" "\<forall>i \<in> set (named_templates into). w i \<le> k - 1" "all_fit w (k - 1) (kids_of into)"
    using 3(1) unfolding fits_iff [of w k into] by blast+
  moreover have "\<forall>i \<in> set (named_templates (RawNode d None)). w i \<le> k - 1"
    using 3(2) unfolding fits_iff [of w k "RawNode d None"] by blast
  moreover have "kids_of x = kids_of into" by (simp add: d'(2) kids_of_def)
  ultimately show ?case unfolding fits_iff [of w k x] by (metis Un_iff subsetD)
next
  case (4 mode at into d ch)
  then obtain d' ch' where d': "merge_def mode at (rn_def into) d = Inr d'"
    and ch': "merge_children mode at (kids_of into) ch = Inr ch'" and x: "x = RawNode d' (Some ch')"
    by (auto simp: bind_result_Inr kids_of_def)
  have inc: "set (named_templates x) \<subseteq> set (named_templates into) \<union> set (named_templates (RawNode d (Some ch)))"
    unfolding x merge_def_exact(2) [OF d'] by (rule named_join) simp
  show ?case
  proof (cases k)
    case (Suc j)
    have "all_fit w j ch'" using 4(1) [of j ch'] 4(2,3) ch' Suc by (simp add: kids_of_def)
    then show ?thesis using inc 4(2,3) Suc by (auto simp: x)
  qed (use 4 in simp)
qed simp

lemma fits_include:
  assumes "\<forall>t \<in> set ts. all_fit w (w (fst t)) (snd t)" and "\<forall>i \<in> set names. w i \<le> k"
    and "all_fit w k expanded" and "include_all ts at names expanded = Inr out"
  shows "all_fit w k out"
  using assms(2-4)
proof (induction names arbitrary: expanded)
  case (Cons name names)
  obtain template merged where template: "bm_get ts name = Some template"
    and merged: "merge_children Strict at expanded template = Inr merged"
    and rest: "include_all ts at names merged = Inr out"
    using Cons.prems(3) by (auto simp: bind_result_Inr split: option.splits)
  have "all_fit w (w name) template" using assms(1) map_of_SomeD [OF template] by fastforce
  then have "all_fit w k template" using Cons.prems(1) by (auto intro: fits_mono)
  then have "all_fit w k merged" using fits_merge(1) [OF Cons.prems(2) _ merged] by blast
  then show ?case using Cons.IH Cons.prems(1) rest by simp
qed simp

lemma exclude_sub: "exclude_all at names ch = Inr out \<Longrightarrow> set out \<subseteq> set ch"
proof (induction names arbitrary: ch)
  case (Cons n names)
  then show ?case using Cons.IH [of "bm_remove n ch"] by (auto simp: bm_remove_def split: if_splits)
qed simp

lemma fits_expand:
  assumes ts: "\<forall>t \<in> set ts. all_fit w (w (fst t)) (snd t)"
    and raw: "fits w (Suc k) raw" and ch: "expand ts at raw = Inr ch"
  shows "all_fit w k ch"
proof -
  have own: "all_fit w k (kids_of raw)" "\<forall>i \<in> set (named_templates raw). w i \<le> k" using raw by auto
  obtain mid where mid: "all_fit w k (case mid of None \<Rightarrow> [] | Some m \<Rightarrow> m)"
    and out: "exclude_all at (case rd_exclude (rn_def raw) of None \<Rightarrow> [] | Some ns \<Rightarrow> ns)
      (case mid of None \<Rightarrow> [] | Some m \<Rightarrow> m) = Inr ch"
  proof (cases "rd_include (rn_def raw)")
    case None
    then show ?thesis using that [of "rn_children raw"] own(1) ch by (simp add: expand_def kids_of_def)
  next
    case (Some names)
    then obtain expanded where expanded: "include_all ts at names [] = Inr expanded"
      using ch by (auto simp: expand_def bind_result_Inr)
    have fit: "all_fit w k expanded"
      using fits_include [OF ts _ _ expanded] own(2) Some by (simp add: named_templates_def)
    show ?thesis
    proof (cases "rn_children raw")
      case None
      then show ?thesis using that [of "Some expanded"] fit ch Some expanded by (simp add: expand_def)
    next
      case children: (Some m)
      then obtain merged where merged: "merge_children Overlay at expanded m = Inr merged"
        and out: "exclude_all at (case rd_exclude (rn_def raw) of None \<Rightarrow> [] | Some ns \<Rightarrow> ns) merged = Inr ch"
        using ch Some expanded by (auto simp: expand_def bind_result_Inr)
      have "all_fit w k merged" using fits_merge(1) [OF fit _ merged] own(1) children by (simp add: kids_of_def)
      then show ?thesis using that [of "Some merged"] out by simp
    qed
  qed
  then show ?thesis using exclude_sub [OF out] by blast
qed

lemma convert_returns:
  assumes ts: "\<forall>t \<in> set ts. all_fit w (w (fst t)) (snd t)"
  shows "fits w k raw \<Longrightarrow> convert k le ts raw at inherited \<noteq> None"
proof (induction k arbitrary: raw at inherited)
  case (Suc k)
  show ?case
  proof (cases "node_head le ts raw at")
    case (Inr r)
    obtain hlp kind ch where r: "r = (hlp, kind, ch)" by (cases r)
    have "all_fit w k ch"
      using fits_expand [OF ts Suc.prems] node_head_ok(3) Inr r by blast
    then have "convert_children (\<lambda>child at'. convert k le ts child at' pr) at ch out \<noteq> None" for pr out
    proof (induction ch arbitrary: out)
      case (Cons e ch)
      obtain name c where e: "e = (name, c)" by (cases e)
      have "convert k le ts c (at @ '' '' @ name) pr \<noteq> None" using Suc.IH Cons.prems e by simp
      then show ?case using Cons by (auto simp: e split: sum.split)
    qed simp
    then show ?thesis using Inr r by (auto simp: Let_def split: option.split sum.split)
  qed simp
qed simp

lemma convert_children_more:
  assumes "\<And>c at' r. conv c at' = Some r \<Longrightarrow> conv' c at' = Some r"
  shows "convert_children conv at ch out = Some res \<Longrightarrow> convert_children conv' at ch out = Some res"
proof (induction ch arbitrary: out)
  case (Cons e ch)
  obtain name c where e: "e = (name, c)" by (cases e)
  obtain r where "conv c (at @ '' '' @ name) = Some r"
    using Cons.prems by (auto simp: e split: option.splits)
  then show ?case using Cons assms by (cases r) (auto simp: e)
qed simp

lemma convert_more: "convert k le ts raw at pr = Some r \<Longrightarrow> convert (k + j) le ts raw at pr = Some r"
proof (induction k arbitrary: raw at pr r)
  case (Suc k)
  show ?case
  proof (cases "node_head le ts raw at")
    case (Inr h)
    obtain hlp kind ch where h: "h = (hlp, kind, ch)" by (cases h)
    define prio where "prio = (case rd_priority (rn_def raw) of None \<Rightarrow> pr | Some p \<Rightarrow> p)"
    obtain res where "convert_children (\<lambda>c at'. convert k le ts c at' prio) at ch [] = Some res"
      using Suc.prems Inr h by (auto simp: prio_def Let_def split: option.splits)
    moreover from convert_children_more [OF _ this, of "\<lambda>c at'. convert (k + j) le ts c at' prio"] Suc.IH
    have "convert_children (\<lambda>c at'. convert (k + j) le ts c at' prio) at ch [] = Some res" by blast
    ultimately show ?thesis using Suc.prems Inr h by (simp add: Let_def flip: prio_def)
  qed (use Suc.prems in simp)
qed simp

lemma build_nodes_more:
  "build_nodes k le ts ns out = Some r \<Longrightarrow> build_nodes (k + j) le ts ns out = Some r"
proof (induction ns arbitrary: out)
  case (Cons e ns)
  obtain name n where e: "e = (name, n)" by (cases e)
  obtain x where x: "convert k le ts n name DEFAULT_PRIORITY = Some x"
    using Cons.prems by (auto simp: e split: option.splits)
  then show ?case using Cons convert_more [OF x, of j] by (cases x) (auto simp: e)
qed simp

lemma build_more: "build k le raw = Some r \<Longrightarrow> build (k + j) le raw = Some r"
  by (auto simp: build_def split: option.splits dest: build_nodes_more [where j = j])

lemma size_kid: "e \<in> set (kids_of n) \<Longrightarrow> size (snd e) < size n"
proof (cases n)
  case (RawNode d ch)
  assume e: "e \<in> set (kids_of n)"
  then obtain m where m: "ch = Some m" "e \<in> set m" using RawNode by (cases ch) auto
  have "size (snd e) \<le> size_prod (\<lambda>_. 0) size e" by (cases e) simp
  also have "\<dots> \<le> size_list (size_prod (\<lambda>_. 0) size) m" by (rule size_list_estimation' [OF m(2)]) simp
  finally show ?thesis by (simp add: RawNode m(1))
qed

lemma fits_size:
  "\<forall>i \<in> set (used n). w i \<le> b \<Longrightarrow> b + size n \<le> k \<Longrightarrow> fits w k n"
proof (induction k arbitrary: n)
  case 0
  then show ?case by (cases n) simp
next
  case (Suc k)
  have "fits w k (snd e)" if e: "e \<in> set (kids_of n)" for e
  proof (rule Suc.IH)
    show "\<forall>i \<in> set (used (snd e)). w i \<le> b" using Suc.prems(1) e unfolding used_simp [of n] by blast
    show "b + size (snd e) \<le> k" using Suc.prems(2) size_kid [OF e] by linarith
  qed
  moreover have "w i \<le> k" if "i \<in> set (named_templates n)" for i
  proof -
    have "w i \<le> b" using Suc.prems(1) that unfolding used_simp [of n] by blast
    moreover have "size n > 0" by (cases n) simp
    ultimately show ?thesis using Suc.prems(2) by linarith
  qed
  ultimately show ?case by simp
qed

lemma bounded_list: "\<exists>b. \<forall>x \<in> set xs. f x \<le> (b :: nat)"
proof -
  have "\<forall>y \<in> f ` set xs. y \<le> Max (f ` set xs)" by simp
  then show ?thesis by blast
qed

lemma build_nodes_returns:
  assumes "\<forall>e \<in> set ns. fits w k (snd e)" and "\<forall>t \<in> set ts. all_fit w (w (fst t)) (snd t)"
  shows "build_nodes k le ts ns out \<noteq> None"
  using assms(1)
proof (induction ns arbitrary: out)
  case (Cons e ns)
  obtain name n where e: "e = (name, n)" by (cases e)
  have "convert k le ts n name DEFAULT_PRIORITY \<noteq> None" using convert_returns [OF assms(2)] Cons.prems e by simp
  then show ?case using Cons by (auto simp: e split: sum.split)
qed simp

text \<open>
  C23. The conversion ends, with a schema or an error, whenever the templates can be ranked so that
  each includes only templates of lower rank; more depth than it needs changes nothing.
\<close>

theorem load_ends:
  assumes rank: "\<forall>(t, ch) \<in> set (rf_templates raw). \<forall>(s, n) \<in> set ch. \<forall>i \<in> set (used n). rank i < (rank t :: nat)"
  shows "\<exists>fuel r. \<forall>more. build (fuel + more) le raw = Some r"
proof -
  let ?ts = "rf_templates raw"
  obtain b where b: "\<forall>e \<in> set (concat (map snd ?ts)). size (snd e) \<le> b"
    using bounded_list [of "concat (map snd ?ts)" "\<lambda>e. size (snd e)"] by blast
  define w where "w t = (rank t + 1) * b" for t
  have "fits w (w t) n" if "(t, ch) \<in> set ?ts" "(s, n) \<in> set ch" for t ch s n
  proof (rule fits_size)
    have "w i \<le> rank t * b" if "i \<in> set (used n)" for i
    proof -
      have "rank i + 1 \<le> rank t" using rank that \<open>(t, ch) \<in> set ?ts\<close> \<open>(s, n) \<in> set ch\<close> by fastforce
      then show ?thesis unfolding w_def by (rule mult_le_mono1)
    qed
    then show "\<forall>i \<in> set (used n). w i \<le> rank t * b" by blast
    have "size n \<le> b" using b that by fastforce
    then show "rank t * b + size n \<le> w t" by (simp add: w_def)
  qed
  then have ts: "\<forall>t \<in> set ?ts. all_fit w (w (fst t)) (snd t)" by fastforce
  obtain c where c: "\<forall>i \<in> set (concat (map (used \<circ> snd) (rf_nodes raw))). w i \<le> c"
    using bounded_list [of "concat (map (used \<circ> snd) (rf_nodes raw))" w] by blast
  obtain h where h: "\<forall>e \<in> set (rf_nodes raw). size (snd e) \<le> h"
    using bounded_list [of "rf_nodes raw" "\<lambda>e. size (snd e)"] by blast
  have "\<forall>e \<in> set (rf_nodes raw). fits w (c + h) (snd e)"
  proof
    fix e assume e: "e \<in> set (rf_nodes raw)"
    show "fits w (c + h) (snd e)"
      by (rule fits_size [of _ _ c]) (use c h e in auto)
  qed
  from build_nodes_returns [OF this ts, of le "[]"] have "build (c + h) le raw \<noteq> None"
    by (auto simp: build_def split: sum.split)
  then show ?thesis using build_more by blast
qed

text \<open>A template that includes itself is never finished, and nothing looks for it.\<close>

definition self_including :: raw_def where
  "self_including = \<lparr>rd_kind = Some ''container'', rd_help = Some ''again'', rd_ty = None, rd_range = None,
     rd_values = None, rd_regex = None, rd_accepts = None, rd_default = None, rd_secret = None,
     rd_required = None, rd_priority = None, rd_tag = None, rd_include = Some [''t''], rd_exclude = None,
     rd_constraints = None, rd_unique = None, rd_exclusive = None\<rparr>"

lemma self_include_never_ends:
  "build fuel le \<lparr>rf_templates = [(''t'', [(''x'', RawNode self_including None)])],
     rf_nodes = [(''x'', RawNode self_including None)], rf_globals = []\<rparr> = None"
proof -
  let ?ts = "[(''t'', [(''x'', RawNode self_including None)])]"
  have step: "node_head le ?ts (RawNode self_including None) at =
      Inr (''again'', SContainer, [(''x'', RawNode self_including None)])" for at
    by (simp add: node_head_def expand_def self_including_def load_kind_def kind_nests_def)
  have "convert fuel le ?ts (RawNode self_including None) at pr = None" for at pr
    by (induction fuel arbitrary: at pr) (simp_all add: step)
  then show ?thesis by (simp add: build_def)
qed

section \<open>The promise\<close>

lemma set_walk_resolve: "set_walk env loc seen p = Inr l \<Longrightarrow> resolve_from loc p = Some l"
  by (induction env loc seen p rule: set_walk.induct)
    (auto simp: child_location_def split: schema_kind.splits option.splits if_splits sum.splits)

text \<open>
  C22. In a schema the loader accepts, every node a path can reach is well formed: its children are in
  order, a container or tag node has some and no other node has any, its rules name children it has,
  its patterns are not empty, its regular expression compiles, and a leaf that can be set at all can
  be set to its default.
\<close>

theorem loaded_schema_ok:
  assumes "load_dir fuel le dir slots = Some (Inr sc) \<or> load_sources fuel le sources = Some (Inr sc)"
  shows "(resolve sc p = Some loc \<and> p \<noteq> [] \<longrightarrow> node_fine le (location_node loc)) \<and>
    (\<forall>g \<in> set (sc_globals sc). global_ok g) \<and>
    (validate_set (values_env le) sc p (Some v) = Inr () \<and> default_for sc p = Some d \<longrightarrow>
       validate_set (values_env le) sc p (Some d) = Inr ())"
proof -
  have wf: "schema_wf le sc" using assms loads_build build_wf by blast
  have fine: "node_fine le (location_node l)" if "resolve sc q = Some l" "q \<noteq> []" for q l
    using resolve_wf [OF wf that] by (elim node_wfE)
  have "validate_set (values_env le) sc p (Some d) = Inr ()"
    if v: "validate_set (values_env le) sc p (Some v) = Inr ()" and d: "default_for sc p = Some d"
  proof -
    obtain n s where walk: "set_walk (values_env le) (AtNode (sc_root sc)) [] p = Inr (AtNode n)"
      and n: "sn_value_spec n = Some s"
      using v by (auto simp: validate_set_def sn_value_spec_def kind_value_spec_def
          elim!: bind_err_InrE split: location.splits schema_kind.splits)
    have at: "resolve sc p = Some (AtNode n)" using set_walk_resolve [OF walk] by (simp add: resolve_def)
    have "p \<noteq> []"
      using at n wf by (auto simp: resolve_def schema_wf_def sn_value_spec_def kind_value_spec_def)
    moreover have "sn_default n = Some d" using d at by (simp add: default_for_def)
    ultimately have "spec_check (values_env le) s d = Inr ()" using fine [OF at] n by (simp add: node_fine_def)
    then show ?thesis using v walk n
      by (auto simp: validate_set_def sn_value_spec_def kind_value_spec_def split: schema_kind.splits)
  qed
  then show ?thesis using fine wf by (auto simp: schema_wf_def)
qed

section \<open>A small schema, loaded\<close>

definition blank_def :: raw_def where
  "blank_def = \<lparr>rd_kind = None, rd_help = None, rd_ty = None, rd_range = None,
     rd_values = None, rd_regex = None, rd_accepts = None, rd_default = None, rd_secret = None,
     rd_required = None, rd_priority = None, rd_tag = None, rd_include = None, rd_exclude = None,
     rd_constraints = None, rd_unique = None, rd_exclusive = None\<rparr>"

definition mtu_leaf :: raw_node where
  "mtu_leaf = RawNode (blank_def\<lparr>rd_kind := Some ''leaf'', rd_help := Some ''MTU'', rd_ty := Some ''uint'',
     rd_default := Some (ScInt 1500)\<rparr>) None"

definition system_doc :: raw_file where
  "system_doc = \<lparr>rf_templates = [(''common'', [(''mtu'', mtu_leaf)])],
     rf_nodes = [(''system'', RawNode (blank_def\<lparr>rd_kind := Some ''container'', rd_help := Some ''System'',
       rd_include := Some [''common'']\<rparr>) None)],
     rf_globals = []\<rparr>"

definition small_loader :: loader_env where
  "small_loader = \<lparr>read_yaml = (\<lambda>text. Inr system_doc), show_f64 = (\<lambda>w. []), regex_error = (\<lambda>r. None),
     values_env = \<lparr>is_match = (\<lambda>p v. True), tzdb_available = False, tz_known = (\<lambda>z. False)\<rparr>\<rparr>"

definition small_listing :: "fs_slot list" where
  "small_listing = [Slot ''notes.txt'' (FsFile (Inr ''x'')), Slot ''system.yaml'' (FsFile (Inr ''y''))]"

definition mtu_spec :: value_spec where
  "mtu_spec = \<lparr>vs_ty = VNumber \<lparr>vr_min = 0, vr_max = 4294967295, vr_step = None\<rparr>, vs_accepts = [], vs_pattern = None\<rparr>"

definition mtu_schema :: schema where
  "mtu_schema = \<lparr>sc_root = SchemaNode SContainer ''Nightshade configuration'' None False False 500
     [(''system'', SchemaNode SContainer ''System'' None False False 500
        [(''mtu'', SchemaNode (SLeaf mtu_spec) ''MTU'' (Some ''1500'') False False 500 [] [] [] [])] [] [] [])] [] [] [],
     sc_globals = []\<rparr>"

lemma small_load:
  "load_dir 3 small_loader [''s''] small_listing = Some (Inr mtu_schema)"
  "validate_set (values_env small_loader) mtu_schema [''system'', ''mtu''] (Some ''9000'') = Inr ()"
  "default_for mtu_schema [''system'', ''mtu''] = Some ''1500''"
  "resolve mtu_schema [''system''] \<noteq> None"
  by code_simp+

theorem loaded_schema_ok_witness:
  "validate_set (values_env small_loader) mtu_schema [''system'', ''mtu''] (Some ''1500'') = Inr () \<and>
   (\<exists>loc. resolve mtu_schema [''system''] = Some loc \<and> node_fine small_loader (location_node loc))"
proof
  note ok = loaded_schema_ok [of 3 small_loader "[''s'']" small_listing mtu_schema "[]", OF disjI1, OF small_load(1)]
  show "validate_set (values_env small_loader) mtu_schema [''system'', ''mtu''] (Some ''1500'') = Inr ()"
    using ok small_load(2,3) by blast
  obtain loc where "resolve mtu_schema [''system''] = Some loc" using small_load(4) by blast
  then show "\<exists>loc. resolve mtu_schema [''system''] = Some loc \<and> node_fine small_loader (location_node loc)"
    using ok by blast
qed

theorem load_ends_witness: "\<exists>fuel r. build fuel small_loader system_doc = Some r"
proof -
  have "\<forall>(t, ch) \<in> set (rf_templates system_doc). \<forall>(s, n) \<in> set ch. \<forall>i \<in> set (used n). 0 < (1 :: nat)"
    by simp
  moreover have "used mtu_leaf = []" by (simp add: mtu_leaf_def blank_def_def)
  ultimately obtain fuel r where "\<forall>more. build (fuel + more) small_loader system_doc = Some r"
    using load_ends [of system_doc "\<lambda>t. 0" small_loader] by (auto simp: system_doc_def)
  then show ?thesis by (metis add_0_right)
qed

theorem merge_exact_witness:
  "\<not> (\<exists>out. absorb system_doc (system_doc\<lparr>rf_templates := []\<rparr>) = Inr out \<and>
        bm_get (rf_templates out) ''common'' \<noteq> Some [(''mtu'', mtu_leaf)]) \<and>
   (\<exists>out. absorb system_doc (system_doc\<lparr>rf_templates := []\<rparr>) = Inr out) \<and>
   \<not> (\<exists>out. absorb system_doc system_doc = Inr out)"
proof -
  have n: "raw_ok (rf_nodes system_doc)" by (rule raw_ok.intros; simp add: system_doc_def bm_ok_def kids_of_def)
  then have ok: "raw_file_ok system_doc" "raw_file_ok (system_doc\<lparr>rf_templates := []\<rparr>)"
    by (simp_all add: raw_file_ok_def) (simp_all add: system_doc_def bm_ok_def)
  have t: "bm_get (rf_templates system_doc) ''common'' = Some [(''mtu'', mtu_leaf)]"
    "bm_get (rf_templates (system_doc\<lparr>rf_templates := []\<rparr>)) name = None" for name
    by (simp_all add: system_doc_def)
  have same: "agree a a" if "def_at (rf_nodes system_doc) p = Some a" for p a
    using that by (cases p) (auto simp: system_doc_def kids_of_def agree_def clash_def blank_def_def
        scalars_eq_def split: if_splits elim: def_at.elims)
  show ?thesis
    using merge_exact [OF ok] merge_exact [OF ok(1,1)] t same by auto
qed

end
