(* ===== verification/Line_Diff.thy ===== *)
theory Line_Diff
  imports Prelude "HOL-Library.Sublist"
begin

text \<open>
  The line diff of \<open>src/nightshade-cli/src/output.rs\<close>: the table of common subsequence lengths, the
  walk through it, and the proof that what it writes is both texts with as few marks as possible.
\<close>

datatype 'a edit = Same 'a | Added 'a | Removed 'a

text \<open>One row of the table, from the row below it; the column at the end is zero.\<close>

fun lcs_row :: "'a \<Rightarrow> 'a list \<Rightarrow> nat list \<Rightarrow> nat list" where
  "lcs_row x [] below = [0]"
| "lcs_row x (y # after) (b # below) =
     (let r = lcs_row x after below
      in (if x = y then hd below + 1 else max b (hd r)) # r)"
| "lcs_row x (y # after) [] = [0]"

fun lcs_table :: "'a list \<Rightarrow> 'a list \<Rightarrow> nat list list" where
  "lcs_table [] after = [replicate (length after + 1) 0]"
| "lcs_table (x # before) after =
     (let t = lcs_table before after in lcs_row x after (hd t) # t)"

function diff_walk :: "nat list list \<Rightarrow> 'a list \<Rightarrow> 'a list \<Rightarrow> nat \<Rightarrow> nat \<Rightarrow> 'a edit list" where
  "diff_walk lengths before after i j =
     (if i < length before \<and> j < length after then
        if before ! i = after ! j then Same (after ! j) # diff_walk lengths before after (i + 1) (j + 1)
        else if lengths ! (i + 1) ! j \<ge> lengths ! i ! (j + 1)
        then Removed (before ! i) # diff_walk lengths before after (i + 1) j
        else Added (after ! j) # diff_walk lengths before after i (j + 1)
      else map Removed (drop i before) @ map Added (drop j after))"
  by pat_completeness auto
termination
  by (relation "measure (\<lambda>(l, before, after, i, j). (length before - i) + (length after - j))") auto

declare diff_walk.simps [simp del]

definition line_diff :: "'a list \<Rightarrow> 'a list \<Rightarrow> 'a edit list" where
  "line_diff before after = diff_walk (lcs_table before after) before after 0 0"

section \<open>The table\<close>

text \<open>The length of a longest common subsequence, as a recursion.\<close>

fun lcs :: "'a list \<Rightarrow> 'a list \<Rightarrow> nat" where
  "lcs [] ys = 0"
| "lcs (x # xs) [] = 0"
| "lcs (x # xs) (y # ys) = (if x = y then lcs xs ys + 1 else max (lcs xs (y # ys)) (lcs (x # xs) ys))"

lemma lcs_Nil2 [simp]: "lcs xs [] = 0"
  by (cases xs) simp_all

definition lcs_suffixes :: "'a list \<Rightarrow> 'a list \<Rightarrow> nat list" where
  "lcs_suffixes xs ys = map (\<lambda>j. lcs xs (drop j ys)) [0..<length ys + 1]"

lemma upt_from_0: "[0..<Suc n] = 0 # map Suc [0..<n]"
  by (metis map_Suc_upt upt_conv_Cons zero_less_Suc)

lemma lcs_suffixes_Nil: "lcs_suffixes xs [] = [0]"
  by (simp add: lcs_suffixes_def)

lemma lcs_suffixes_Cons: "lcs_suffixes xs (y # ys) = lcs xs (y # ys) # lcs_suffixes xs ys"
  unfolding lcs_suffixes_def by (simp add: upt_from_0 del: upt_Suc)

lemma hd_lcs_suffixes: "hd (lcs_suffixes xs ys) = lcs xs ys"
  by (cases ys) (simp_all add: lcs_suffixes_Cons lcs_suffixes_Nil)

lemma lcs_row_exact: "lcs_row x ys (lcs_suffixes xs ys) = lcs_suffixes (x # xs) ys"
proof (induction ys)
  case (Cons y ys)
  then show ?case by (simp add: lcs_suffixes_Cons hd_lcs_suffixes Let_def)
qed (simp add: lcs_suffixes_Nil)

lemma lcs_table_exact: "lcs_table xs ys = map (\<lambda>i. lcs_suffixes (drop i xs) ys) [0..<length xs + 1]"
proof (induction xs)
  case Nil
  have "lcs_suffixes [] ys = replicate (length ys + 1) 0"
    unfolding lcs_suffixes_def by (simp add: map_replicate_const)
  then show ?case by simp
next
  case (Cons x xs)
  have "hd (lcs_table xs ys) = lcs_suffixes xs ys" unfolding Cons by (simp add: upt_conv_Cons del: upt_Suc)
  then show ?case using Cons
    by (simp add: Let_def lcs_row_exact upt_from_0 [of "Suc (length xs)"] comp_def del: upt_Suc)
qed

lemma lcs_table_at:
  "i \<le> length xs \<Longrightarrow> j \<le> length ys \<Longrightarrow> lcs_table xs ys ! i ! j = lcs (drop i xs) (drop j ys)"
  by (simp add: lcs_table_exact lcs_suffixes_def nth_append del: upt_Suc)

section \<open>The walk\<close>

fun diff_rec :: "'a list \<Rightarrow> 'a list \<Rightarrow> 'a edit list" where
  "diff_rec [] ys = map Added ys"
| "diff_rec (x # xs) [] = Removed x # map Removed xs"
| "diff_rec (x # xs) (y # ys) =
     (if x = y then Same y # diff_rec xs ys
      else if lcs xs (y # ys) \<ge> lcs (x # xs) ys then Removed x # diff_rec xs (y # ys)
      else Added y # diff_rec (x # xs) ys)"

lemma diff_rec_Nil2: "diff_rec xs [] = map Removed xs"
  by (cases xs) simp_all

lemma diff_walk_rec:
  assumes "l = lcs_table xs ys" and "i \<le> length xs" and "j \<le> length ys"
  shows "diff_walk l xs ys i j = diff_rec (drop i xs) (drop j ys)"
  using assms
proof (induction l xs ys i j rule: diff_walk.induct)
  case (1 l xs ys i j)
  show ?case
  proof (cases "i < length xs \<and> j < length ys")
    case True
    then have d: "drop i xs = xs ! i # drop (Suc i) xs" "drop j ys = ys ! j # drop (Suc j) ys"
      by (simp_all add: Cons_nth_drop_Suc)
    have at: "l ! (i + 1) ! j = lcs (drop (Suc i) xs) (drop j ys)" "l ! i ! (j + 1) = lcs (drop i xs) (drop (Suc j) ys)"
      using True 1(4) by (simp_all add: lcs_table_at)
    show ?thesis
    proof (cases "xs ! i = ys ! j")
      case same: True
      have "diff_walk l xs ys (i + 1) (j + 1) = diff_rec (drop (Suc i) xs) (drop (Suc j) ys)"
        using 1(1) [OF True same 1(4)] True by simp
      then show ?thesis unfolding diff_walk.simps [of l xs ys i j] d using True same by simp
    next
      case other: False
      show ?thesis
      proof (cases "l ! (i + 1) ! j \<ge> l ! i ! (j + 1)")
        case ge: True
        have "diff_walk l xs ys (i + 1) j = diff_rec (drop (Suc i) xs) (drop j ys)"
          using 1(2) [OF True other ge 1(4)] True by simp
        then show ?thesis unfolding diff_walk.simps [of l xs ys i j]
          using True other ge at d by (metis diff_rec.simps(3))
      next
        case lt: False
        have "diff_walk l xs ys i (j + 1) = diff_rec (drop i xs) (drop (Suc j) ys)"
          using 1(3) [OF True other lt 1(4)] True by simp
        then show ?thesis unfolding diff_walk.simps [of l xs ys i j]
          using True other lt at d by (metis diff_rec.simps(3))
      qed
    qed
  next
    case False
    then have "drop i xs = [] \<or> drop j ys = []" by auto
    then show ?thesis unfolding diff_walk.simps [of l xs ys i j] using False by (auto simp: diff_rec_Nil2)
  qed
qed

lemma line_diff_rec: "line_diff xs ys = diff_rec xs ys"
  by (simp add: line_diff_def diff_walk_rec)

section \<open>What it writes\<close>

fun old_line :: "'a edit \<Rightarrow> 'a option" where
  "old_line (Same l) = Some l" | "old_line (Removed l) = Some l" | "old_line (Added l) = None"

fun new_line :: "'a edit \<Rightarrow> 'a option" where
  "new_line (Same l) = Some l" | "new_line (Added l) = Some l" | "new_line (Removed l) = None"

definition marks :: "'a edit list \<Rightarrow> nat" where
  "marks es = length (filter (\<lambda>e. \<not> (\<exists>l. e = Same l)) es)"

lemma mem_filter_simps [simp]:
  "List.map_filter f (x # xs) = (case f x of None \<Rightarrow> List.map_filter f xs | Some y \<Rightarrow> y # List.map_filter f xs)"
  "List.map_filter f [] = []"
  by (simp_all add: List.map_filter_def split: option.split)

lemma replay_maps:
  "List.map_filter old_line (map Added ys) = []" "List.map_filter new_line (map Added ys) = ys"
  "List.map_filter old_line (map Removed ys) = ys" "List.map_filter new_line (map Removed ys) = []"
  by (induction ys) simp_all

lemma diff_rec_replays:
  "List.map_filter old_line (diff_rec xs ys) = xs \<and> List.map_filter new_line (diff_rec xs ys) = ys"
  by (induction xs ys rule: diff_rec.induct) (auto simp: replay_maps)

lemma marks_simps [simp]:
  "marks [] = 0" "marks (Same l # es) = marks es" "marks (Added l # es) = Suc (marks es)"
  "marks (Removed l # es) = Suc (marks es)"
  by (simp_all add: marks_def)

lemma marks_maps: "marks (map Added ys) = length ys" "marks (map Removed ys) = length ys"
  by (induction ys) simp_all

lemma lcs_le: "lcs xs ys \<le> length xs" "lcs xs ys \<le> length ys"
  by (induction xs ys rule: lcs.induct) auto

lemma lcs_steps:
  "lcs (x # xs) ys \<le> Suc (lcs xs ys) \<and> lcs xs ys \<le> lcs (x # xs) ys \<and>
   lcs xs (y # ys) \<le> Suc (lcs xs ys) \<and> lcs xs ys \<le> lcs xs (y # ys)"
proof (induction "length xs + length ys" arbitrary: xs ys x y rule: less_induct)
  case less
  have left: "lcs (x # xs) ys \<le> Suc (lcs xs ys) \<and> lcs xs ys \<le> lcs (x # xs) ys"
  proof (cases ys)
    case (Cons b bs)
    then show ?thesis using less [of xs bs x b] by auto
  qed simp
  moreover have "lcs xs (y # ys) \<le> Suc (lcs xs ys) \<and> lcs xs ys \<le> lcs xs (y # ys)"
  proof (cases xs)
    case (Cons a as)
    then show ?thesis using less [of as ys a y] by auto
  qed simp
  ultimately show ?case by blast
qed

lemmas lcs_step = lcs_steps [THEN conjunct1] lcs_steps [THEN conjunct2, THEN conjunct2, THEN conjunct1]
  lcs_steps [THEN conjunct2, THEN conjunct1] lcs_steps [THEN conjunct2, THEN conjunct2, THEN conjunct2]

lemma marks_diff_rec: "marks (diff_rec xs ys) + 2 * lcs xs ys = length xs + length ys"
  by (induction xs ys rule: diff_rec.induct) (auto simp: marks_maps max_def)

lemma marks_least:
  "List.map_filter old_line es = xs \<Longrightarrow> List.map_filter new_line es = ys \<Longrightarrow>
   length xs + length ys \<le> marks es + 2 * lcs xs ys"
proof (induction es arbitrary: xs ys)
  case (Cons e es)
  note IH = Cons.IH [OF refl refl]
  show ?case
  proof (cases e)
    case (Same l)
    then show ?thesis using Cons.prems IH by force
  next
    case (Added l)
    then have ys: "ys = l # List.map_filter new_line es" "xs = List.map_filter old_line es" using Cons.prems by auto
    show ?thesis using IH lcs_step(4) [of xs "List.map_filter new_line es" l] by (simp add: ys Added)
  next
    case (Removed l)
    then have xs: "xs = l # List.map_filter old_line es" "ys = List.map_filter new_line es" using Cons.prems by auto
    show ?thesis using IH lcs_step(3) [of "List.map_filter old_line es" ys l] by (simp add: xs Removed)
  qed
qed simp

text \<open>
  C36. Reading the lines a diff keeps or takes away gives the text before, reading those it keeps or
  adds gives the text after, and no other sequence of marked lines with this property marks fewer.
\<close>

theorem line_diff_exact:
  "List.map_filter old_line (line_diff before after) = before \<and>
   List.map_filter new_line (line_diff before after) = after \<and>
   (List.map_filter old_line es = before \<and> List.map_filter new_line es = after \<longrightarrow>
      marks (line_diff before after) \<le> marks es)"
  using diff_rec_replays [of before after] marks_diff_rec [of before after] marks_least [of es before after]
  by (auto simp: line_diff_rec)

theorem line_diff_exact_witness:
  "marks (line_diff [''a'', ''b'', ''c''] [''a'', ''c'', ''d'']) \<le>
     marks [Same ''a'', Removed ''b'', Removed ''c'', Added ''c'', Added ''d'']"
  using line_diff_exact [of "[''a'', ''b'', ''c'']" "[''a'', ''c'', ''d'']"
      "[Same ''a'', Removed ''b'', Removed ''c'', Added ''c'', Added ''d'']"]
  by simp

end
