(* ===== verification/Output.thy ===== *)
theory Output
  imports Line_Diff Proto Curly_Render Schema_Model Text_Lines
begin

text \<open>
  \<open>src/nightshade-cli/src/output.rs\<close>: what a command prints. The text of an interface snapshot and
  the JSON that \<open>serde_json\<close> writes are parameters (\<open>printers\<close>). The terminal itself, which decides
  colour and rows, is not modelled.
\<close>

definition MASK :: string where
  "MASK = ''****''"

datatype 's printed =
    ONothing
  | OText string
  | OConfig config_tree
  | OConfigDiff config_tree config_tree
  | OChanges "change list"
  | ORevisions "revision_info list"
  | OInterfaces 's view_kind

record style =
  st_schema :: schema
  st_colour :: bool
  st_secrets :: bool

datatype json = JNull | JString string | JArray "json list" | JObject "(string \<times> json) list"

record 's printers =
  snapshot_text :: "'s \<Rightarrow> view_kind \<Rightarrow> string"
  json_pretty :: "json \<Rightarrow> string"
  changes_json :: "change list \<Rightarrow> string"
  revisions_json :: "revision_info list \<Rightarrow> string"
  snapshot_json :: "'s \<Rightarrow> string"

section \<open>Secrets\<close>

definition secret_at :: "schema \<Rightarrow> path \<Rightarrow> bool" where
  "secret_at sc p = (case resolve sc p of Some (AtNode n) \<Rightarrow> sn_secret n | _ \<Rightarrow> False)"

fun mask_walk :: "schema \<Rightarrow> node \<Rightarrow> path \<Rightarrow> node"
and mask_kids :: "schema \<Rightarrow> kids \<Rightarrow> path \<Rightarrow> kids" where
  "mask_walk sc (Node c (Values vs)) p =
     Node c (Values (if secret_at sc p \<and> vs \<noteq> [] then [MASK] else vs))"
| "mask_walk sc (Node c (Interior m)) p = Node c (Interior (mask_kids sc m p))"
| "mask_kids sc [] p = []"
| "mask_kids sc ((name, n) # m) p = (name, mask_walk sc n (path_child p name)) # mask_kids sc m p"

definition mask_secrets :: "config_tree \<Rightarrow> schema \<Rightarrow> config_tree" where
  "mask_secrets t sc =
     (case node_children (root t) of
        None \<Rightarrow> t
      | Some m \<Rightarrow> from_children (mask_kids sc m path_root))"

definition prepare_tree :: "config_tree \<Rightarrow> style \<Rightarrow> config_tree" where
  "prepare_tree t st = (if st_secrets st then t else mask_secrets t (st_schema st))"

section \<open>The candidate, marked up\<close>

definition GREEN :: string where "GREEN = [CHR 0x1B] @ ''[32m''"
definition RED :: string where "RED = [CHR 0x1B] @ ''[31m''"
definition RESET :: string where "RESET = [CHR 0x1B] @ ''[0m''"

definition paint :: "bool \<Rightarrow> string option \<Rightarrow> string \<Rightarrow> string" where
  "paint colour shade s =
     (case shade of
        Some on \<Rightarrow> if colour then on @ s @ RESET else s
      | None \<Rightarrow> s)"

fun mark_edit :: "bool \<Rightarrow> string edit \<Rightarrow> string" where
  "mark_edit colour (Same l) = CHR '' '' # l @ [newline]"
| "mark_edit colour (Added l) = paint colour (Some GREEN) (CHR ''+'' # l) @ [newline]"
| "mark_edit colour (Removed l) = paint colour (Some RED) (CHR ''-'' # l) @ [newline]"

definition marked_up :: "config_tree \<Rightarrow> config_tree \<Rightarrow> style \<Rightarrow> string" where
  "marked_up candidate running st =
     (let tags = is_tag_node (st_schema st);
          was = text_lines (render tags (prepare_tree running st));
          now = text_lines (render tags (prepare_tree candidate st))
      in concat (map (mark_edit (st_colour st)) (line_diff was now)))"

definition colour_change :: "style \<Rightarrow> change \<Rightarrow> string" where
  "colour_change st c =
     paint (st_colour st) (Some (case ch_op c of Add \<Rightarrow> GREEN | Remove \<Rightarrow> RED)) (show_change c)"

section \<open>JSON\<close>

fun json_walk :: "node \<Rightarrow> json"
and json_kids :: "kids \<Rightarrow> (string \<times> json) list" where
  "json_walk (Node c (Values vs)) = JArray (map JString vs)"
| "json_walk (Node c (Interior m)) = JObject (json_kids m)"
| "json_kids [] = []"
| "json_kids ((name, n) # m) = (name, json_walk n) # json_kids m"

definition config_json :: "config_tree \<Rightarrow> json" where
  "config_json t = json_walk (root t)"

section \<open>Tables\<close>

text \<open>A row has as many cells as there are headers.\<close>

definition widen :: "string list \<Rightarrow> nat list \<Rightarrow> nat list" where
  "widen row widths = map (\<lambda>(cell, w). max w (length cell)) (zip row widths)"

definition table_line :: "nat list \<Rightarrow> string list \<Rightarrow> string" where
  "table_line widths cells =
     trim_end (join ''  '' (map (\<lambda>(cell, w). cell @ replicate (w - length cell) (CHR '' '')) (zip cells widths))) @ [newline]"

definition table_text :: "string list \<Rightarrow> string list list \<Rightarrow> string" where
  "table_text headers rows =
     (let widths = fold widen rows (map utf8_len headers)
      in table_line widths headers @ table_line widths (map (\<lambda>w. replicate w (CHR ''-'')) widths) @
         concat (map (table_line widths) rows))"

text \<open>\<open>&s[a..b]\<close>: \<open>None\<close> is the panic of an index inside a character or past the end.\<close>

fun split_bytes :: "nat \<Rightarrow> string \<Rightarrow> (string \<times> string) option" where
  "split_bytes n [] = (if n = 0 then Some ([], []) else None)"
| "split_bytes n (c # s) =
     (if n = 0 then Some ([], c # s)
      else if utf8_len [c] \<le> n then map_option (\<lambda>(p, r). (c # p, r)) (split_bytes (n - utf8_len [c]) s)
      else None)"

definition byte_slice :: "nat \<Rightarrow> nat \<Rightarrow> string \<Rightarrow> string option" where
  "byte_slice a b s =
     Option.bind (split_bytes a s) (\<lambda>(p, r). map_option fst (split_bytes (b - a) r))"

definition readable :: "string \<Rightarrow> string option" where
  "readable stamp =
     (if utf8_len stamp \<noteq> 16 then Some stamp
      else
        Option.bind (byte_slice 0 4 stamp) (\<lambda>year.
        Option.bind (byte_slice 4 6 stamp) (\<lambda>month.
        Option.bind (byte_slice 6 8 stamp) (\<lambda>day.
        Option.bind (byte_slice 9 11 stamp) (\<lambda>hour.
        Option.bind (byte_slice 11 13 stamp) (\<lambda>minute.
        Option.bind (byte_slice 13 15 stamp) (\<lambda>second.
          Some (year @ ''-'' @ month @ ''-'' @ day @ '' '' @ hour @ '':'' @ minute @ '':'' @ second @ '' UTC''))))))))"

definition revision_row :: "revision_info \<Rightarrow> string list option" where
  "revision_row r =
     Option.bind (readable (ri_timestamp r)) (\<lambda>stamp.
       Some [show_nat (ri_revision r), stamp, ri_actor r, show_nat (length (ri_changes r)),
         (case ri_comment r of None \<Rightarrow> ''-'' | Some s \<Rightarrow> s)])"

definition revisions_table :: "revision_info list \<Rightarrow> string option" where
  "revisions_table rs =
     (if rs = [] then Some (''no commits have been recorded on this system'' @ [newline])
      else map_option (table_text [''revision'', ''when'', ''by'', ''changes'', ''comment''])
        (those (map revision_row rs)))"

section \<open>Rendering\<close>

fun output_render :: "'s printers \<Rightarrow> style \<Rightarrow> 's printed \<Rightarrow> string option" where
  "output_render pr st ONothing = Some []"
| "output_render pr st (OText text) = Some text"
| "output_render pr st (OConfig t) = Some (render (is_tag_node (st_schema st)) (prepare_tree t st))"
| "output_render pr st (OConfigDiff candidate running) = Some (marked_up candidate running st)"
| "output_render pr st (OChanges cs) = Some (concat (map (\<lambda>c. colour_change st c @ [newline]) cs))"
| "output_render pr st (ORevisions rs) = revisions_table rs"
| "output_render pr st (OInterfaces snap what) = Some (snapshot_text pr snap what)"

fun output_json :: "'s printers \<Rightarrow> style \<Rightarrow> 's printed \<Rightarrow> string" where
  "output_json pr st ONothing = json_pretty pr JNull @ [newline]"
| "output_json pr st (OText text) =
     json_pretty pr (JObject [(''message'', JString (trim_end text))]) @ [newline]"
| "output_json pr st (OConfig t) = json_pretty pr (config_json (prepare_tree t st)) @ [newline]"
| "output_json pr st (OConfigDiff candidate running) =
     json_pretty pr (config_json (prepare_tree candidate st)) @ [newline]"
| "output_json pr st (OChanges cs) = changes_json pr cs @ [newline]"
| "output_json pr st (ORevisions rs) = revisions_json pr rs @ [newline]"
| "output_json pr st (OInterfaces snap what) = snapshot_json pr snap @ [newline]"

section \<open>Completions and help\<close>

function shrink_prefix :: "string \<Rightarrow> string \<Rightarrow> string" where
  "shrink_prefix candidate lead =
     (if starts_with candidate lead then lead else shrink_prefix candidate (butlast lead))"
  by pat_completeness auto
termination
proof (relation "measure (\<lambda>(candidate, lead). length lead)")
  fix candidate lead :: string
  assume "\<not> starts_with candidate lead"
  then have "lead \<noteq> []" by (cases candidate) auto
  then show "((candidate, butlast lead), candidate, lead) \<in> measure (\<lambda>(candidate, lead). length lead)" by simp
qed simp

declare shrink_prefix.simps [simp del]

definition common_prefix :: "string list \<Rightarrow> string" where
  "common_prefix candidates =
     (case candidates of [] \<Rightarrow> [] | first # others \<Rightarrow> fold shrink_prefix others first)"

definition help_line :: "nat \<Rightarrow> node_info \<Rightarrow> string" where
  "help_line width e =
     ''  '' @ ni_name e @ replicate (width - length (ni_name e)) (CHR '' '') @ ''  '' @ ni_help e @
     (case ni_default e of None \<Rightarrow> [] | Some d \<Rightarrow> '' (default: '' @ d @ '')'') @ [newline]"

definition help_lines :: "node_info list \<Rightarrow> string" where
  "help_lines entries =
     (if entries = [] then ''  <Enter>       run this command'' @ [newline]
      else
        let width = max (fold (\<lambda>e w. max w (length (ni_name e))) entries 0) 12
        in concat (map (help_line width) entries))"

definition configured :: "config_tree \<Rightarrow> path \<Rightarrow> string list" where
  "configured t p =
     (case Option.bind (tree_get p t) node_children of None \<Rightarrow> [] | Some m \<Rightarrow> map fst m)"

section \<open>What is shown\<close>

text \<open>A tree with other values in the leaves the schema marks secret.\<close>

fun swap_walk :: "(path \<Rightarrow> string list) \<Rightarrow> schema \<Rightarrow> node \<Rightarrow> path \<Rightarrow> node"
and swap_kids :: "(path \<Rightarrow> string list) \<Rightarrow> schema \<Rightarrow> kids \<Rightarrow> path \<Rightarrow> kids" where
  "swap_walk f sc (Node c (Values vs)) p =
     Node c (Values (if secret_at sc p \<and> vs \<noteq> [] then f p else vs))"
| "swap_walk f sc (Node c (Interior m)) p = Node c (Interior (swap_kids f sc m p))"
| "swap_kids f sc [] p = []"
| "swap_kids f sc ((name, n) # m) p = (name, swap_walk f sc n (path_child p name)) # swap_kids f sc m p"

definition other_secrets :: "(path \<Rightarrow> string list) \<Rightarrow> schema \<Rightarrow> config_tree \<Rightarrow> config_tree" where
  "other_secrets f sc t =
     (case node_children (root t) of
        None \<Rightarrow> t
      | Some m \<Rightarrow> \<lparr>root = Node (n_comment (root t)) (Interior (swap_kids f sc m path_root))\<rparr>)"

lemma mask_swap:
  assumes "\<And>p. f p \<noteq> []"
  shows "mask_walk sc (swap_walk f sc n p) p = mask_walk sc n p"
    and "mask_kids sc (swap_kids f sc m p) p = mask_kids sc m p"
  by (induction sc n p and sc m p rule: mask_walk_mask_kids.induct) (auto simp: assms)

lemma mask_other_secrets:
  assumes "\<And>p. f p \<noteq> []"
  shows "mask_secrets (other_secrets f sc t) sc = mask_secrets t sc"
proof (cases "node_children (root t)")
  case (Some m)
  then show ?thesis using mask_swap(2) [OF assms] by (simp add: other_secrets_def mask_secrets_def)
qed (simp add: other_secrets_def mask_secrets_def)

text \<open>
  C35. Unless it is asked for secrets, nothing that shows a configuration depends on one: with other
  values in the leaves the schema marks secret, the text, the marked-up difference and the JSON are the
  same, character for character.
\<close>

theorem shown_hides_secrets:
  assumes "\<not> st_secrets st" and "\<And>p. f p \<noteq> []" and "\<And>p. g p \<noteq> []"
  shows "output_render pr st (OConfig (other_secrets f (st_schema st) t)) = output_render pr st (OConfig t) \<and>
    output_render pr st (OConfigDiff (other_secrets f (st_schema st) t) (other_secrets g (st_schema st) u)) =
      output_render pr st (OConfigDiff t u) \<and>
    output_json pr st (OConfig (other_secrets f (st_schema st) t)) = output_json pr st (OConfig t) \<and>
    output_json pr st (OConfigDiff (other_secrets f (st_schema st) t) (other_secrets g (st_schema st) u)) =
      output_json pr st (OConfigDiff t u)"
  using assms(1) mask_other_secrets [of f, OF assms(2)] mask_other_secrets [of g, OF assms(3)]
  by (simp add: prepare_tree_def marked_up_def)

text \<open>\<open>compare\<close> has no such protection: the changes it prints carry the value of a secret.\<close>

lemma changes_show_secrets:
  "output_render pr \<lparr>st_schema = sc, st_colour = False, st_secrets = False\<rparr> (OChanges [Change p Add (Some v)]) =
     Some (''+ '' @ show_path p @ '' '' @ quote v @ [newline])"
  by (simp add: colour_change_def paint_def show_change_def)

lemma starts_with_trans: "starts_with a b \<Longrightarrow> starts_with b c \<Longrightarrow> starts_with a c"
  unfolding starts_with_iff by (metis append.assoc)

lemma common_prefix_exact:
  "s = common_prefix (x # xs) \<Longrightarrow> \<forall>y \<in> set (x # xs). starts_with y s"
proof -
  have step: "starts_with c (shrink_prefix c p) \<and> starts_with p (shrink_prefix c p)" for c p
  proof (induction c p rule: shrink_prefix.induct)
    case (1 c p)
    show ?case
    proof (cases "starts_with c p")
      case True
      then show ?thesis by (simp add: shrink_prefix.simps [of c p] starts_with_iff)
    next
      case False
      then have "p \<noteq> []" by (cases c) auto
      then have "starts_with p (butlast p)" by (metis append_butlast_last_id starts_with_iff)
      moreover have "starts_with (butlast p) (shrink_prefix c (butlast p))" "starts_with c (shrink_prefix c (butlast p))"
        using 1 [OF False] by auto
      ultimately have "starts_with c (shrink_prefix c (butlast p)) \<and> starts_with p (shrink_prefix c (butlast p))"
        unfolding starts_with_iff by (metis append.assoc)
      then show ?thesis using False by (simp add: shrink_prefix.simps [of c p])
    qed
  qed
  have "starts_with p (fold shrink_prefix ys p) \<and> (\<forall>y \<in> set ys. starts_with y (fold shrink_prefix ys p))" for ys p
  proof (induction ys arbitrary: p)
    case (Cons y ys)
    show ?case
      using step [of y p] Cons [of "shrink_prefix y p"] starts_with_trans by (simp, blast)
  qed (simp add: starts_with_iff)
  then show "s = common_prefix (x # xs) \<Longrightarrow> \<forall>y \<in> set (x # xs). starts_with y s"
    by (simp add: common_prefix_def)
qed

section \<open>A secret\<close>

definition login_schema :: schema where
  "login_schema = \<lparr>sc_root = SchemaNode SContainer [] None False False 0
     [(''password'', SchemaNode (SLeaf (spec_new VText)) [] None True False 0 [] [] [] [])] [] [] [], sc_globals = []\<rparr>"

definition password_tree :: "string \<Rightarrow> config_tree" where
  "password_tree v = from_children [(''password'', Node None (Values [v]))]"

theorem shown_hides_secrets_witness:
  "output_render \<lparr>snapshot_text = (\<lambda>s v. []), json_pretty = (\<lambda>j. []), changes_json = (\<lambda>c. []), revisions_json = (\<lambda>r. []),
       snapshot_json = (\<lambda>s. [])\<rparr> \<lparr>st_schema = login_schema, st_colour = False, st_secrets = False\<rparr>
     (OConfig (password_tree ''hunter2'')) = Some (''password '' @ [quote_char] @ ''****'' @ [quote_char, newline])"
proof -
  define st where "st = \<lparr>st_schema = login_schema, st_colour = False, st_secrets = False\<rparr>"
  define pr :: "unit printers" where "pr = \<lparr>snapshot_text = (\<lambda>s v. []), json_pretty = (\<lambda>j. []), changes_json = (\<lambda>c. []),
    revisions_json = (\<lambda>r. []), snapshot_json = (\<lambda>s. [])\<rparr>"
  have "other_secrets (\<lambda>p. [''hunter2'']) (st_schema st) (password_tree ''x'') = password_tree ''hunter2''"
    unfolding st_def by code_simp
  moreover have "output_render pr st (OConfig (password_tree ''x'')) = Some (''password '' @ [quote_char] @ ''****'' @ [quote_char, newline])"
    unfolding st_def pr_def by code_simp
  ultimately show ?thesis
    using shown_hides_secrets [of st "\<lambda>p. [''hunter2'']" "\<lambda>p. [''hunter2'']" pr "password_tree ''x''" "password_tree ''x''"]
    unfolding st_def pr_def by simp
qed

end
