(* ===== verification/Query.thy ===== *)
theory Query
  imports Proto Std_Parse
begin

text \<open>
  \<open>src/nightshade-ifstate/src/query.rs\<close> and the words of \<open>Link\<close> in \<open>model.rs\<close>: what the words after
  \<open>show interfaces\<close> ask for.
\<close>

fun link_label :: "link \<Rightarrow> string" where
  "link_label Connected = ''connected''"
| "link_label NotConnect = ''notconnect''"
| "link_label Disabled = ''disabled''"
| "link_label ErrDisabled = ''errdisabled''"
| "link_label Inactive = ''inactive''"

definition link_parse :: "string \<Rightarrow> link option" where
  "link_parse w =
     (if w = ''connected'' then Some Connected
      else if w = ''notconnect'' then Some NotConnect
      else if w = ''disabled'' then Some Disabled
      else if w = ''errdisabled'' then Some ErrDisabled
      else if w = ''inactive'' then Some Inactive
      else None)"

fun needs_eeprom :: "view_kind \<Rightarrow> bool" where
  "needs_eeprom v \<longleftrightarrow> v = TransceiverEeprom"

definition needs_driver_stats :: "view_kind \<Rightarrow> bool" where
  "needs_driver_stats v \<longleftrightarrow>
     v \<in> {Detail, Counters, CountersErrors, CountersDiscards, CountersQueue, CountersBins, FlowControl,
       Mac, MacDetail}"

datatype query_error =
    UnknownView string
  | ExtraWord string string
  | UnknownFilter string
  | BadName string
  | BackwardsRange string
  | HugeRange string

definition MAX_RANGE :: nat where "MAX_RANGE = 1024"

fun show_query_error :: "query_error \<Rightarrow> string" where
  "show_query_error (UnknownView w) = ''`'' @ w @ ''` is not something `show interfaces` can show''"
| "show_query_error (ExtraWord c e) = ''`show interfaces '' @ c @ ''` does not take `'' @ e @ ''`''"
| "show_query_error (UnknownFilter w) =
     ''`show interfaces status '' @ w @ ''` is not a filter; try connected, notconnect, disabled, errdisabled or inactive''"
| "show_query_error (BadName w) = ''`'' @ w @ ''` is not an interface name or a range of them''"
| "show_query_error (BackwardsRange w) =
     ''`'' @ w @ ''` counts backwards; a range runs from the lower number to the higher''"
| "show_query_error (HugeRange w) = ''`'' @ w @ ''` names more than '' @ show_nat MAX_RANGE @ '' interfaces''"

section \<open>Names and ranges\<close>

text \<open>\<open>str::rsplit_once(c)\<close>: before and after the last occurrence.\<close>

definition rsplit_once :: "char \<Rightarrow> string \<Rightarrow> (string \<times> string) option" where
  "rsplit_once d s = map_option (\<lambda>(b, a). (rev a, rev b)) (split_once d (rev s))"

definition split_trailing_number :: "string \<Rightarrow> (string \<times> nat) option" where
  "split_trailing_number s =
     (let digits = rev (takeWhile is_ascii_digit (rev s))
      in if digits = [] then None
         else map_option (\<lambda>n. (take (length s - length digits) s, n)) (parse_unsigned 4294967295 digits))"

definition expand_range :: "string \<Rightarrow> string \<Rightarrow> nat \<Rightarrow> nat \<Rightarrow> query_error + string list" where
  "expand_range part stem lo hi =
     (if hi < lo then Inl (BackwardsRange part)
      else if hi - lo + 1 > MAX_RANGE then Inl (HugeRange part)
      else Inr (map (\<lambda>k. stem @ show_nat k) [lo..<Suc hi]))"

definition expand_one :: "string \<Rightarrow> query_error + string list" where
  "expand_one part =
     (if part = [] then Inl (BadName part)
      else case rsplit_once (CHR ''-'') part of
             None \<Rightarrow> Inr [part]
           | Some (head, tail) \<Rightarrow>
               (case split_trailing_number head of
                  None \<Rightarrow> Inr [part]
                | Some (stem, lo) \<Rightarrow>
                    (case split_trailing_number tail of
                       None \<Rightarrow> Inr [part]
                     | Some (tail_stem, hi) \<Rightarrow>
                         if tail_stem = [] \<or> tail_stem = stem then expand_range part stem lo hi
                         else Inl (BadName part))))"

fun expand_parts :: "string list \<Rightarrow> query_error + string list" where
  "expand_parts [] = Inr []"
| "expand_parts (p # ps) =
     bind_result (expand_one p) (\<lambda>ns. bind_result (expand_parts ps) (\<lambda>ms. Inr (ns @ ms)))"

definition expand_spec :: "string \<Rightarrow> query_error + string list" where
  "expand_spec s =
     bind_result (expand_parts (split_on (CHR '','') s)) (\<lambda>names.
       if names = [] then Inl (BadName s) else Inr names)"

section \<open>Views\<close>

definition is_view_keyword :: "string \<Rightarrow> bool" where
  "is_view_keyword w \<longleftrightarrow>
     w \<in> {''description'', ''status'', ''counters'', ''transceiver'', ''capabilities'', ''flowcontrol'',
       ''negotiation'', ''phy'', ''mac''}"

definition parse_view :: "string list \<Rightarrow> query_error + view_kind" where
  "parse_view ws =
     (if ws = [] then Inr Detail
      else if ws = [''description''] then Inr Description
      else if ws = [''status''] then Inr (Status None)
      else if length ws = 2 \<and> hd ws = ''status'' then
        (case link_parse (ws ! 1) of
           Some l \<Rightarrow> Inr (Status (Some l))
         | None \<Rightarrow> Inl (UnknownFilter (ws ! 1)))
      else if ws = [''counters''] then Inr Counters
      else if ws = [''counters'', ''errors''] then Inr CountersErrors
      else if ws = [''counters'', ''discards''] then Inr CountersDiscards
      else if ws = [''counters'', ''rates''] then Inr CountersRates
      else if ws = [''counters'', ''queue''] then Inr CountersQueue
      else if ws = [''counters'', ''bins''] then Inr CountersBins
      else if ws = [''transceiver''] then Inr Transceiver
      else if ws = [''transceiver'', ''detail''] then Inr TransceiverDetail
      else if ws = [''transceiver'', ''properties''] then Inr TransceiverProperties
      else if ws = [''transceiver'', ''eeprom''] then Inr TransceiverEeprom
      else if ws = [''capabilities''] then Inr Capabilities
      else if ws = [''flowcontrol''] then Inr FlowControl
      else if ws = [''negotiation''] then Inr Negotiation
      else if ws = [''negotiation'', ''detail''] then Inr NegotiationDetail
      else if ws = [''phy''] then Inr Phy
      else if ws = [''phy'', ''detail''] then Inr PhyDetail
      else if ws = [''mac''] then Inr Mac
      else if ws = [''mac'', ''detail''] then Inr MacDetail
      else if length ws \<ge> 2 \<and> is_view_keyword (hd ws) then Inl (ExtraWord (hd ws) (ws ! 1))
      else Inl (UnknownView (hd ws)))"

definition query_default :: if_query where
  "query_default = \<lparr>q_view = Detail, q_names = []\<rparr>"

definition query_parse :: "string list \<Rightarrow> query_error + if_query" where
  "query_parse words =
     (case words of
        [] \<Rightarrow> bind_result (parse_view []) (\<lambda>v. Inr \<lparr>q_view = v, q_names = []\<rparr>)
      | first # others \<Rightarrow>
          if is_view_keyword first then bind_result (parse_view words) (\<lambda>v. Inr \<lparr>q_view = v, q_names = []\<rparr>)
          else bind_result (expand_spec first) (\<lambda>names.
            bind_result (parse_view others) (\<lambda>v. Inr \<lparr>q_view = v, q_names = names\<rparr>)))"

section \<open>Exactly one spelling of each view\<close>

text \<open>The words of a view: what the documentation of the command lists.\<close>

fun view_words :: "view_kind \<Rightarrow> string list" where
  "view_words Detail = []"
| "view_words Description = [''description'']"
| "view_words (Status None) = [''status'']"
| "view_words (Status (Some l)) = [''status'', link_label l]"
| "view_words Counters = [''counters'']"
| "view_words CountersErrors = [''counters'', ''errors'']"
| "view_words CountersDiscards = [''counters'', ''discards'']"
| "view_words CountersRates = [''counters'', ''rates'']"
| "view_words CountersQueue = [''counters'', ''queue'']"
| "view_words CountersBins = [''counters'', ''bins'']"
| "view_words Transceiver = [''transceiver'']"
| "view_words TransceiverDetail = [''transceiver'', ''detail'']"
| "view_words TransceiverProperties = [''transceiver'', ''properties'']"
| "view_words TransceiverEeprom = [''transceiver'', ''eeprom'']"
| "view_words Capabilities = [''capabilities'']"
| "view_words FlowControl = [''flowcontrol'']"
| "view_words Negotiation = [''negotiation'']"
| "view_words NegotiationDetail = [''negotiation'', ''detail'']"
| "view_words Phy = [''phy'']"
| "view_words PhyDetail = [''phy'', ''detail'']"
| "view_words Mac = [''mac'']"
| "view_words MacDetail = [''mac'', ''detail'']"

lemma link_parse_iff: "link_parse w = Some l \<longleftrightarrow> w = link_label l"
  by (cases l) (auto simp: link_parse_def)

lemma parse_view_words: "parse_view (view_words v) = Inr v"
proof (cases v)
  case (Status l)
  then show ?thesis
    by (cases l; cases "the l") (simp_all add: parse_view_def link_parse_def)
qed (simp_all add: parse_view_def)

lemma parse_view_exact: "parse_view ws = Inr v \<longleftrightarrow> ws = view_words v"
proof
  assume "parse_view ws = Inr v"
  moreover have "ws = view_words (Status (Some l))" if "length ws = 2" "hd ws = ''status''" "link_parse (ws ! 1) = Some l" for l
    using that by (cases ws; cases "tl ws") (auto simp: link_parse_iff)
  ultimately show "ws = view_words v"
    by (simp add: parse_view_def split: if_splits option.splits; fastforce)
qed (simp add: parse_view_words)

lemma view_words_keyword: "view_words v = w # ws \<Longrightarrow> is_view_keyword w"
  by (cases v rule: view_words.cases) (auto simp: is_view_keyword_def)

lemma query_parse_exact:
  "query_parse ws = Inr q \<longleftrightarrow>
     (q_names q = [] \<and> ws = view_words (q_view q)) \<or>
     (\<exists>s. ws = s # view_words (q_view q) \<and> \<not> is_view_keyword s \<and> expand_spec s = Inr (q_names q))"
proof (cases ws)
  case Nil
  then show ?thesis
    by (cases q) (auto simp: query_parse_def bind_result_Inr parse_view_exact split: sum.splits)
next
  case (Cons w us)
  show ?thesis
  proof (cases "is_view_keyword w")
    case True
    then show ?thesis
      using Cons by (cases q) (auto simp: query_parse_def bind_result_Inr parse_view_exact split: sum.splits)
  next
    case False
    then have "w # us \<noteq> view_words v" for v using view_words_keyword [of v w us] by metis
    then show ?thesis
      using Cons False by (cases q) (auto simp: query_parse_def bind_result_Inr parse_view_exact)
  qed
qed

section \<open>Ranges\<close>

lemma expand_range_some:
  "expand_range part p lo hi = Inr names \<Longrightarrow> names \<noteq> [] \<and> length names \<le> MAX_RANGE"
  by (auto simp: expand_range_def split: if_splits)

lemma expand_one_bound: "expand_one part = Inr names \<Longrightarrow> names \<noteq> [] \<and> length names \<le> MAX_RANGE"
  by (cases "part = []"; cases "rsplit_once (CHR ''-'') part")
    (auto simp: expand_one_def MAX_RANGE_def [symmetric] Suc_leI split: if_splits option.splits
      dest!: expand_range_some, simp_all add: MAX_RANGE_def)

lemma expand_parts_bound:
  "expand_parts ps = Inr names \<Longrightarrow> (names = [] \<longleftrightarrow> ps = []) \<and> length names \<le> MAX_RANGE * length ps"
proof (induction ps arbitrary: names)
  case (Cons p ps)
  then obtain ns ms where "expand_one p = Inr ns" "expand_parts ps = Inr ms" "names = ns @ ms"
    by (auto simp: bind_result_Inr)
  then show ?case using Cons.IH [of ms] expand_one_bound [of p ns] by auto
qed simp

lemma expand_spec_bound:
  "expand_spec s = Inr names \<Longrightarrow>
     names \<noteq> [] \<and> length names \<le> MAX_RANGE * length (split_on (CHR '','') s)"
  using expand_parts_bound by (auto simp: expand_spec_def bind_result_Inr split: if_splits)

lemma split_once_at: "d \<notin> set a \<Longrightarrow> split_once d (a @ d # b) = Some (a, b)"
  by (induction a) auto

lemma rsplit_once_at: "d \<notin> set b \<Longrightarrow> rsplit_once d (a @ d # b) = Some (a, b)"
  using split_once_at [of d "rev b" "rev a"] by (simp add: rsplit_once_def)

lemma split_on_none: "d \<notin> set s \<Longrightarrow> split_on d s = [s]"
  by (induction s) auto

lemma split_trailing_number_show:
  assumes "n \<le> 4294967295" and "stem = [] \<or> \<not> is_ascii_digit (last stem)"
  shows "split_trailing_number (stem @ show_nat n) = Some (stem, n)"
proof -
  have "takeWhile is_ascii_digit (rev stem) = []"
    using assms(2) by (cases "rev stem") (auto simp: rev_swap last_rev [symmetric])
  then have "takeWhile is_ascii_digit (rev (stem @ show_nat n)) = rev (show_nat n)"
    by (simp add: show_nat_digits takeWhile_append)
  moreover have "show_nat n \<noteq> []" by (metis list.distinct(1) show_nat_hd)
  ultimately show ?thesis using assms(1) parse_unsigned_show [of n 4294967295] by (simp add: split_trailing_number_def)
qed

lemma minus_comma_not_shown: "CHR ''-'' \<notin> set (show_nat n)" "CHR '','' \<notin> set (show_nat n)"
  using show_nat_digits by (force simp: char_class code_def)+

text \<open>
  A range is expanded exactly: a stem that ends in no digit, the two numbers and a hyphen name the
  interfaces from the first number to the second, in order, whether the stem is repeated or not; a range
  that runs backwards or holds more than \<open>MAX_RANGE\<close> names is refused. Whatever is typed, what is
  accepted names at least one interface and at most \<open>MAX_RANGE\<close> for each part between commas.
\<close>

lemma ranges_exact:
  assumes "lo \<le> 4294967295" and "hi \<le> 4294967295"
    and "stem = [] \<or> \<not> is_ascii_digit (last stem)"
    and "CHR ''-'' \<notin> set stem" and "CHR '','' \<notin> set stem"
    and "again = [] \<or> again = stem"
  shows "expand_spec (stem @ show_nat lo @ ''-'' @ again @ show_nat hi) =
      (if hi < lo then Inl (BackwardsRange (stem @ show_nat lo @ ''-'' @ again @ show_nat hi))
       else if MAX_RANGE \<le> hi - lo then Inl (HugeRange (stem @ show_nat lo @ ''-'' @ again @ show_nat hi))
       else Inr (map (\<lambda>k. stem @ show_nat k) [lo..<Suc hi])) \<and>
    (\<forall>s. case expand_spec s of Inl e \<Rightarrow> True
       | Inr names \<Rightarrow> names \<noteq> [] \<and> length names \<le> MAX_RANGE * length (split_on (CHR '','') s))"
proof (rule conjI)
  let ?s = "stem @ show_nat lo @ ''-'' @ again @ show_nat hi"
  have "split_on (CHR '','') ?s = [?s]"
    using assms(5,6) by (intro split_on_none) (auto simp: minus_comma_not_shown)
  moreover have "rsplit_once (CHR ''-'') ?s = Some (stem @ show_nat lo, again @ show_nat hi)"
    using rsplit_once_at [of "CHR ''-''" "again @ show_nat hi" "stem @ show_nat lo"] assms(4,6)
    by (auto simp: minus_comma_not_shown)
  moreover have "split_trailing_number (stem @ show_nat lo) = Some (stem, lo)"
    "split_trailing_number (again @ show_nat hi) = Some (again, hi)"
    using assms by (auto intro!: split_trailing_number_show)
  ultimately have "expand_spec ?s = expand_range ?s stem lo hi"
    using assms(6) by (auto simp: expand_spec_def expand_one_def expand_range_def)
  then show "expand_spec ?s = (if hi < lo then Inl (BackwardsRange ?s)
      else if MAX_RANGE \<le> hi - lo then Inl (HugeRange ?s) else Inr (map (\<lambda>k. stem @ show_nat k) [lo..<Suc hi]))"
    by (auto simp: expand_range_def)
  show "\<forall>s. case expand_spec s of Inl e \<Rightarrow> True
      | Inr names \<Rightarrow> names \<noteq> [] \<and> length names \<le> MAX_RANGE * length (split_on (CHR '','') s)"
    using expand_spec_bound by (auto split: sum.split)
qed

text \<open>A range forgets how its numbers were written: the names of \<open>port01-port02\<close> have no zero.\<close>

lemma leading_zeros_are_lost: "expand_spec ''port01-port02'' = Inr [''port1'', ''port2'']"
proof -
  have "show_nat 1 = ''1''" "show_nat 2 = ''2''" by code_simp+
  then show ?thesis
    by (simp add: expand_spec_def expand_one_def expand_range_def rsplit_once_def split_trailing_number_def
        parse_unsigned_def all_digits_def char_class code_def Let_def MAX_RANGE_def upt_rec numeral_2_eq_2)
qed

end
