(* ===== verification/Complete.thy ===== *)
theory Complete
  imports Output Query
begin

text \<open>
  \<open>src/nightshade-cli/src/complete.rs\<close>: completion and \<open>?\<close>. The lock around the context and the traits
  of the line editor are not modelled; a suggestion has the fields the editor uses.
\<close>

definition PATH_COMMANDS :: "string list" where
  "PATH_COMMANDS = [''set'', ''delete'', ''show'', ''sh'', ''edit'']"

record completion_context =
  cx_candidate :: config_tree
  cx_system_interfaces :: "string list"
  cx_operational :: bool
  cx_prefix :: path
  cx_commands :: "string list"

text \<open>What every source of words but the schema offers: a name and its help.\<close>

definition plain_info :: "string \<Rightarrow> string \<Rightarrow> bool \<Rightarrow> node_info" where
  "plain_info name h hint =
     \<lparr>ni_name = name, ni_help = h, ni_placeholder = hint, ni_value = None, ni_multi = False,
      ni_default = None, ni_secret = False\<rparr>"

section \<open>Names\<close>

definition push_new :: "string \<Rightarrow> string list \<Rightarrow> string list" where
  "push_new name names = (if name \<in> set names then names else names @ [name])"

definition instance_names :: "completion_context \<Rightarrow> path \<Rightarrow> node_info \<Rightarrow> node_info list" where
  "instance_names cx at hint =
     (let own = configured (cx_candidate cx) at;
          found = (if path_starts_with at [''interfaces''] then fold push_new (cx_system_interfaces cx) own else own);
          names = remdups_adj (sort found)
      in if names = [] then [hint]
         else map (\<lambda>name. plain_info name (ni_help hint) False) names)"

section \<open>The views of \<open>show interfaces\<close>\<close>

definition INTERFACE_VIEWS :: "(string \<times> string) list" where
  "INTERFACE_VIEWS =
     [(''capabilities'', ''What the port hardware can be asked to do''),
      (''counters'', ''Octet, packet, error and discard counters''),
      (''description'', ''Name, state and description of every interface''),
      (''flowcontrol'', ''Pause frame configuration and counters''),
      (''mac'', ''MAC address, MAC state and FEC''),
      (''negotiation'', ''Autonegotiation, and what both ends advertised''),
      (''phy'', ''PHY state, as far as the driver reports it''),
      (''status'', ''Port, VLAN, duplex, speed and media type''),
      (''transceiver'', ''Optical module diagnostics and identity'')]"

definition INTERFACE_SUBVIEWS :: "(string \<times> (string \<times> string) list) list" where
  "INTERFACE_SUBVIEWS =
     [(''counters'',
        [(''bins'', ''Frame size distribution''),
         (''discards'', ''Discarded frames, in and out''),
         (''errors'', ''Error counters, broken down''),
         (''queue'', ''Per transmit queue counters''),
         (''rates'', ''Input and output rates'')]),
      (''status'',
        [(''connected'', ''Only ports with a link''),
         (''disabled'', ''Only ports that are shut''),
         (''errdisabled'', ''Only ports the system shut, and why''),
         (''inactive'', ''Only ports that are up and not forwarding''),
         (''notconnect'', ''Only ports with no link'')]),
      (''transceiver'',
        [(''detail'', ''Identity and alarm thresholds''),
         (''eeprom'', ''The raw module pages''),
         (''properties'', ''Administrative against operational settings'')]),
      (''negotiation'', [(''detail'', ''Both advertisements in full'')]),
      (''phy'', [(''detail'', ''Every field, and the system clock'')]),
      (''mac'', [(''detail'', ''Fault signalling and FEC counters'')])]"

definition offered_views :: "bool \<Rightarrow> string list \<Rightarrow> (string \<times> string) list" where
  "offered_views named views =
     (case views of
        [] \<Rightarrow> (if named then [] else [(''<interface>'', ''One interface, or a range of them (eth0-3)'')]) @ INTERFACE_VIEWS
      | [v] \<Rightarrow> (case map_of INTERFACE_SUBVIEWS v of Some subviews \<Rightarrow> subviews | None \<Rightarrow> [])
      | _ \<Rightarrow> [])"

definition interface_views :: "string list \<Rightarrow> string \<Rightarrow> node_info list" where
  "interface_views typed being_typed =
     (let named = (typed \<noteq> [] \<and> hd typed \<notin> fst ` set INTERFACE_VIEWS);
          views = (if named then tl typed else typed)
      in map (\<lambda>(name, h). plain_info name h (starts_with name ''<''))
           (filter (\<lambda>(name, h). starts_with name ''<'' \<or> starts_with name being_typed) (offered_views named views)))"

definition command_words :: "completion_context \<Rightarrow> string \<Rightarrow> node_info list" where
  "command_words cx being_typed =
     map (\<lambda>name. plain_info name [] False) (filter (\<lambda>name. starts_with name being_typed) (cx_commands cx))"

section \<open>What can go here\<close>

definition path_entries :: "schema \<Rightarrow> completion_context \<Rightarrow> path \<Rightarrow> node_info list" where
  "path_entries sc cx p =
     (let entries = children_of sc p
      in case entries of
           [hint] \<Rightarrow>
             if ni_placeholder hint \<and> is_tag_node sc p then instance_names cx p hint else entries
         | _ \<Rightarrow> entries)"

definition candidates :: "schema \<Rightarrow> completion_context \<Rightarrow> string list \<Rightarrow> bool \<Rightarrow> node_info list" where
  "candidates sc cx typed partial =
     (let (complete, being_typed) =
            (if partial then (if typed = [] then (typed, []) else (butlast typed, last typed)) else (typed, []))
      in case complete of
           [] \<Rightarrow> command_words cx being_typed
         | command # path_words \<Rightarrow>
             if cx_operational cx \<and> (command = ''show'' \<or> command = ''sh'') \<and> path_words \<noteq> [] \<and> hd path_words = ''interfaces''
             then interface_views (tl path_words) being_typed
             else if command \<notin> set PATH_COMMANDS then []
             else filter (\<lambda>e. ni_placeholder e \<or> starts_with (ni_name e) being_typed)
                    (path_entries sc cx (cx_prefix cx @ path_words)))"

section \<open>The typed line\<close>

definition question :: "string \<Rightarrow> string option" where
  "question ln = strip_suffix ''?'' ln"

definition words :: "string \<Rightarrow> string list \<times> bool" where
  "words ln =
     ((case path_parse ln of Inr p \<Rightarrow> p | Inl e \<Rightarrow> split_whitespace ln),
      ln \<noteq> [] \<and> \<not> is_whitespace (last ln))"

record suggestion =
  sg_value :: string
  sg_description :: "string option"
  sg_start :: nat
  sg_end :: nat

text \<open>\<open>rfind(char::is_whitespace)\<close>, one byte further; 0 when there is none.\<close>

definition word_start :: "string \<Rightarrow> nat" where
  "word_start ln =
     (let unfinished = takeWhile (\<lambda>c. \<not> is_whitespace c) (rev ln)
      in if length unfinished = length ln then 0
         else utf8_len (take (length ln - length unfinished - 1) ln) + 1)"

text \<open>\<open>None\<close> is the panic of a position inside a character.\<close>

definition suggestions :: "schema \<Rightarrow> completion_context \<Rightarrow> string \<Rightarrow> nat \<Rightarrow> suggestion list option" where
  "suggestions sc cx ln pos =
     map_option (\<lambda>(seen, unseen).
       let (typed, partial) = words seen;
           start = (if partial then word_start seen else utf8_len seen)
       in map (\<lambda>e. \<lparr>sg_value = ni_name e, sg_description = (if ni_help e = [] then None else Some (ni_help e)),
              sg_start = start, sg_end = utf8_len seen\<rparr>)
            (filter (\<lambda>e. \<not> ni_placeholder e) (candidates sc cx typed partial)))
     (split_bytes (min pos (utf8_len ln)) ln)"

section \<open>The views offered are the views accepted\<close>

lemma views_are_keywords: "w \<in> fst ` set INTERFACE_VIEWS \<longleftrightarrow> is_view_keyword w"
  by (auto simp: INTERFACE_VIEWS_def is_view_keyword_def)

definition after_name :: "string list \<Rightarrow> string list" where
  "after_name typed = (if typed \<noteq> [] \<and> \<not> is_view_keyword (hd typed) then tl typed else typed)"

lemma first_words:
  "w \<in> fst ` set INTERFACE_VIEWS \<longleftrightarrow> (\<exists>v r. view_words v = w # r)"
proof
  assume "w \<in> fst ` set INTERFACE_VIEWS"
  then have "\<exists>v. parse_view [w] = Inr v" by (auto simp: INTERFACE_VIEWS_def parse_view_def)
  then show "\<exists>v r. view_words v = w # r" unfolding parse_view_exact by metis
next
  assume "\<exists>v r. view_words v = w # r"
  then show "w \<in> fst ` set INTERFACE_VIEWS" using view_words_keyword views_are_keywords by blast
qed

lemma second_words:
  "(\<exists>subviews. map_of INTERFACE_SUBVIEWS u = Some subviews \<and> w \<in> fst ` set subviews) \<longleftrightarrow>
     (\<exists>v r. view_words v = u # w # r)"
proof
  assume "\<exists>v r. view_words v = u # w # r"
  then obtain v r where v: "view_words v = u # w # r" by blast
  show "\<exists>subviews. map_of INTERFACE_SUBVIEWS u = Some subviews \<and> w \<in> fst ` set subviews"
  proof (cases v rule: view_words.cases)
    case (4 l)
    then show ?thesis using v by (cases l) (auto simp: INTERFACE_SUBVIEWS_def)
  qed (use v in \<open>auto simp: INTERFACE_SUBVIEWS_def\<close>)
next
  assume "\<exists>subviews. map_of INTERFACE_SUBVIEWS u = Some subviews \<and> w \<in> fst ` set subviews"
  then have "\<exists>v. parse_view [u, w] = Inr v"
    by (auto simp: INTERFACE_SUBVIEWS_def parse_view_def link_parse_def split: if_splits)
  then show "\<exists>v r. view_words v = u # w # r" unfolding parse_view_exact by metis
qed

lemma view_words_short: "length (view_words v) \<le> 2"
  by (cases v rule: view_words.cases) auto

lemma no_hint_view: "w \<in> fst ` set (offered_views named vs) \<Longrightarrow> starts_with w ''<'' \<longleftrightarrow> w = ''<interface>''"
  by (auto simp: offered_views_def INTERFACE_VIEWS_def INTERFACE_SUBVIEWS_def split: list.splits if_splits)

lemma offered_iff:
  "w \<in> fst ` set (offered_views named vs) \<and> w \<noteq> ''<interface>'' \<longleftrightarrow> (\<exists>v r. view_words v = vs @ w # r)"
proof (cases vs)
  case Nil
  have "''<interface>'' \<notin> fst ` set INTERFACE_VIEWS" by (simp add: INTERFACE_VIEWS_def)
  then have "(w \<in> fst ` set (offered_views named []) \<and> w \<noteq> ''<interface>'') \<longleftrightarrow> w \<in> fst ` set INTERFACE_VIEWS"
    by (cases named; cases "w = ''<interface>''") (simp_all add: offered_views_def)
  then show ?thesis using Nil first_words [of w] by simp
next
  case (Cons u us)
  show ?thesis
  proof (cases us)
    case Nil
    have "map_of INTERFACE_SUBVIEWS u = Some subviews \<Longrightarrow> ''<interface>'' \<notin> fst ` set subviews" for subviews
      by (auto simp: INTERFACE_SUBVIEWS_def split: if_splits)
    then have "(w \<in> fst ` set (offered_views named [u]) \<and> w \<noteq> ''<interface>'') \<longleftrightarrow>
        (\<exists>subviews. map_of INTERFACE_SUBVIEWS u = Some subviews \<and> w \<in> fst ` set subviews)"
      by (cases "map_of INTERFACE_SUBVIEWS u") (simp_all add: offered_views_def, metis)
    then show ?thesis using Cons Nil second_words [of u w] by simp
  next
    case (Cons x xs)
    have "view_words v \<noteq> (u # x # xs) @ w # r" for v r
      using view_words_short [of v] by (cases v rule: view_words.cases) auto
    then show ?thesis using \<open>vs = u # us\<close> Cons by (auto simp: offered_views_def)
  qed
qed

text \<open>
  What completion offers after \<open>show interfaces\<close> is exactly what the parser of the query takes: a
  word is offered when it continues what was typed and some view goes on with it, and never otherwise.
\<close>

lemma views_offered_are_accepted:
  "(\<exists>e \<in> set (interface_views typed being_typed). \<not> ni_placeholder e \<and> ni_name e = w) \<longleftrightarrow>
     starts_with w being_typed \<and> (\<exists>v r. parse_view (after_name typed @ w # r) = Inr v)"
proof -
  define named where "named = (typed \<noteq> [] \<and> hd typed \<notin> fst ` set INTERFACE_VIEWS)"
  have vs: "(if named then tl typed else typed) = after_name typed"
    by (simp add: named_def after_name_def views_are_keywords)
  have "(\<exists>e \<in> set (interface_views typed being_typed). \<not> ni_placeholder e \<and> ni_name e = w) \<longleftrightarrow>
      w \<in> fst ` set (offered_views named (after_name typed)) \<and> \<not> starts_with w ''<'' \<and> starts_with w being_typed"
    unfolding interface_views_def Let_def named_def [symmetric] vs
    by (force simp: plain_info_def)
  also have "\<dots> \<longleftrightarrow> (w \<in> fst ` set (offered_views named (after_name typed)) \<and> w \<noteq> ''<interface>'') \<and> starts_with w being_typed"
    using no_hint_view by blast
  finally show ?thesis
    unfolding offered_iff parse_view_exact by metis
qed

section \<open>The names offered are the schema's and the candidate's\<close>

lemma fold_push_new: "set (fold push_new xs ys) = set xs \<union> set ys"
  by (induction xs arbitrary: ys) (auto simp: push_new_def)

lemma configured_iff: "w \<in> set (configured t p) \<longleftrightarrow> tree_contains (p @ [w]) t"
proof -
  have "node_get (p @ [w]) n \<noteq> None \<longleftrightarrow> (\<exists>m. Option.bind (node_get p n) node_children = Some m \<and> w \<in> fst ` set m)" for n
  proof (induction p n rule: node_get.induct)
    case (1 n)
    have "map_of m w \<noteq> None \<longleftrightarrow> w \<in> fst ` set m" for m :: kids by (simp add: map_of_eq_None_iff)
    then show ?case
      by (cases n rule: node_children.cases) (simp_all split: option.split, (metis not_None_eq)+)
  qed (auto split: option.splits)
  from this [of "root t"] show ?thesis
    by (cases "Option.bind (node_get p (root t)) node_children")
      (simp_all add: configured_def tree_contains_def tree_get_def)
qed

lemma resolve_from_append:
  "resolve_from loc (p @ q) = Option.bind (resolve_from loc p) (\<lambda>l. resolve_from l q)"
  by (induction loc p rule: resolve_from.induct) (auto split: option.split)

lemma resolve_snoc: "resolve sc (p @ [w]) = Option.bind (resolve sc p) (\<lambda>l. loc_step l w)"
proof -
  have "resolve_from l [w] = loc_step l w" for l by (simp split: option.split)
  then show ?thesis by (simp add: resolve_def resolve_from_append)
qed

lemma info_fields [simp]:
  "ni_name (info name n) = name" "ni_placeholder (info name n) = False"
  "ni_placeholder (value_info n v) = True" "ni_name (plain_info name h b) = name"
  "ni_placeholder (plain_info name h b) = b"
  by (simp_all add: info_def value_info_def plain_info_def)

lemma path_entries_children:
  assumes "\<not> is_tag_node sc p"
  shows "path_entries sc cx p = children_of sc p"
  using assms by (auto simp: path_entries_def Let_def split: list.split)

lemma children_of_names:
  assumes "\<not> is_tag_node sc p"
  shows "(\<exists>e \<in> set (children_of sc p). \<not> ni_placeholder e \<and> ni_name e = w) \<longleftrightarrow>
    (\<exists>n. resolve sc (p @ [w]) = Some (AtNode n))"
proof (cases "resolve sc p")
  case (Some l)
  have kids: "(\<exists>e \<in> (\<lambda>(name, c). info name c) ` set (sn_children n). \<not> ni_placeholder e \<and> ni_name e = w) \<longleftrightarrow>
      map_of (sn_children n) w \<noteq> None" for n
    by (force simp: map_of_eq_None_iff)
  show ?thesis
  proof (cases l)
    case (AtNode n)
    then show ?thesis
      using Some assms kids [of n]
      by (cases "sn_kind n") (auto simp: children_of_def resolve_snoc child_location_def is_tag_node_def sn_is_tag_def)
  next
    case (AtInstance n)
    then show ?thesis
      using Some kids [of n] by (auto simp: children_of_def resolve_snoc child_location_def)
  qed (use Some in \<open>simp add: children_of_def resolve_snoc\<close>)
qed (simp add: children_of_def resolve_snoc)

lemma instance_infos:
  assumes "ni_placeholder hint" and "map (\<lambda>name. plain_info name h False) (remdups_adj (sort names)) = es"
  shows "(\<exists>e \<in> set (if es = [] then [hint] else es). \<not> ni_placeholder e \<and> ni_name e = w) \<longleftrightarrow> w \<in> set names"
proof -
  have "set (remdups_adj (sort names)) = set names" by simp
  moreover have "es = [] \<longleftrightarrow> remdups_adj (sort names) = []" using assms(2) by auto
  moreover have "remdups_adj (sort names) = [] \<longleftrightarrow> names = []" by (metis calculation(1) set_empty)
  ultimately show ?thesis using assms by auto
qed

lemma tag_entries:
  assumes "is_tag_node sc p"
  shows "(\<exists>e \<in> set (path_entries sc cx p). \<not> ni_placeholder e \<and> ni_name e = w) \<longleftrightarrow>
    tree_contains (p @ [w]) (cx_candidate cx) \<or>
    (path_starts_with p [''interfaces''] \<and> w \<in> set (cx_system_interfaces cx))"
proof -
  obtain n t where n: "resolve sc p = Some (AtNode n)" "sn_kind n = STag t"
    using assms by (auto simp: is_tag_node_def sn_is_tag_def split: option.splits location.splits schema_kind.splits)
  obtain hint where c: "children_of sc p = [hint]" "ni_placeholder hint"
    using n by (auto simp: children_of_def)
  then have "path_entries sc cx p = instance_names cx p hint"
    using assms by (simp add: path_entries_def)
  note entries = this
  define found where "found = (if path_starts_with p [''interfaces'']
      then fold push_new (cx_system_interfaces cx) (configured (cx_candidate cx) p) else configured (cx_candidate cx) p)"
  then have found: "w \<in> set found \<longleftrightarrow> tree_contains (p @ [w]) (cx_candidate cx) \<or>
      (path_starts_with p [''interfaces''] \<and> w \<in> set (cx_system_interfaces cx))"
    by (auto simp: fold_push_new configured_iff)
  have "instance_names cx p hint =
      (if map (\<lambda>name. plain_info name (ni_help hint) False) (remdups_adj (sort found)) = [] then [hint]
       else map (\<lambda>name. plain_info name (ni_help hint) False) (remdups_adj (sort found)))"
    by (simp add: instance_names_def Let_def found_def)
  then show ?thesis
    using instance_infos [OF c(2) refl, of "ni_help hint" found w] unfolding entries found by simp
qed

text \<open>
  C37. Completion of a path is sound and complete: after a command that takes a path, a word is offered
  exactly when it continues what was typed and is either a word the schema has there or, where the schema
  leaves the name to the operator, the name of an instance the candidate holds or, under \<open>interfaces\<close>,
  of a device of the machine. Whatever is offered can be typed: the schema resolves the longer path.
\<close>

theorem completions_exact:
  assumes "command \<in> set PATH_COMMANDS" and "\<not> (cx_operational cx \<and> ws \<noteq> [] \<and> hd ws = ''interfaces'')"
  shows "((\<exists>e \<in> set (candidates sc cx (command # ws @ [part]) True). \<not> ni_placeholder e \<and> ni_name e = w) \<longleftrightarrow>
      starts_with w part \<and>
      (if is_tag_node sc (cx_prefix cx @ ws)
       then tree_contains (cx_prefix cx @ ws @ [w]) (cx_candidate cx) \<or>
         (path_starts_with (cx_prefix cx @ ws) [''interfaces''] \<and> w \<in> set (cx_system_interfaces cx))
       else (\<exists>n. resolve sc (cx_prefix cx @ ws @ [w]) = Some (AtNode n)))) \<and>
    ((\<exists>e \<in> set (candidates sc cx (command # ws @ [part]) True). \<not> ni_placeholder e \<and> ni_name e = w) \<longrightarrow>
      resolve sc (cx_prefix cx @ ws @ [w]) \<noteq> None)"
proof -
  let ?p = "cx_prefix cx @ ws"
  have "candidates sc cx (command # ws @ [part]) True =
      filter (\<lambda>e. ni_placeholder e \<or> starts_with (ni_name e) part) (path_entries sc cx ?p)"
    using assms by (auto simp: candidates_def butlast_append)
  then have c: "(\<exists>e \<in> set (candidates sc cx (command # ws @ [part]) True). \<not> ni_placeholder e \<and> ni_name e = w) \<longleftrightarrow>
      starts_with w part \<and> (\<exists>e \<in> set (path_entries sc cx ?p). \<not> ni_placeholder e \<and> ni_name e = w)"
    by auto
  have e: "(\<exists>e \<in> set (path_entries sc cx ?p). \<not> ni_placeholder e \<and> ni_name e = w) \<longleftrightarrow>
      (if is_tag_node sc ?p
       then tree_contains (?p @ [w]) (cx_candidate cx) \<or>
         (path_starts_with ?p [''interfaces''] \<and> w \<in> set (cx_system_interfaces cx))
       else (\<exists>n. resolve sc (?p @ [w]) = Some (AtNode n)))"
    using tag_entries [of sc ?p cx w] path_entries_children [of sc ?p cx] children_of_names [of sc ?p w]
    by (cases "is_tag_node sc ?p") simp_all
  moreover have "is_tag_node sc ?p \<Longrightarrow> resolve sc (?p @ [w]) \<noteq> None"
    using resolve_snoc [of sc ?p w]
    by (auto simp: is_tag_node_def sn_is_tag_def split: option.splits location.splits schema_kind.splits)
  ultimately show ?thesis unfolding c by (cases "is_tag_node sc ?p") auto
qed

theorem completions_exact_witness:
  "(\<exists>e \<in> set (candidates login_schema
      \<lparr>cx_candidate = tree_new, cx_system_interfaces = [], cx_operational = False, cx_prefix = [], cx_commands = []\<rparr>
      [''set'', ''pa''] True). \<not> ni_placeholder e \<and> ni_name e = ''password'')"
proof -
  let ?cx = "\<lparr>cx_candidate = tree_new, cx_system_interfaces = [], cx_operational = False, cx_prefix = [], cx_commands = []\<rparr>"
  have "\<not> is_tag_node login_schema []" by code_simp
  moreover have "\<exists>n. resolve login_schema [''password''] = Some (AtNode n)"
    by (simp add: login_schema_def resolve_def child_location_def)
  ultimately show ?thesis
    using completions_exact [of "''set''" ?cx "[]" login_schema "''pa''" "''password''"] by (simp add: PATH_COMMANDS_def)
qed

end
