(* ===== verification/Pipe.thy ===== *)
theory Pipe
  imports Schema_Model Text_Lines
begin

text \<open>
  \<open>src/nightshade-cli/src/pipe.rs\<close>: the modifiers after a command, which are functions on its output.
  The regular expressions are a parameter: what \<open>Regex::new\<close> says of a pattern, and what a compiled
  pattern matches.
\<close>

record regexes =
  re_error :: "string \<Rightarrow> string option"
  re_match :: "string \<Rightarrow> string \<Rightarrow> bool"

datatype modifier = MMatch string | MCount | NoMore | DisplayJson | DisplaySecrets

datatype pipe_error =
    PipeUnknown string
  | MatchNeedsPattern
  | BadPattern string string
  | DisplayNeedsFormat
  | UnknownDisplay string
  | PipeEmpty

fun show_pipe_error :: "pipe_error \<Rightarrow> string" where
  "show_pipe_error (PipeUnknown s) =
     ''`| '' @ s @ ''` is not a pipe modifier; try match, count, no-more or display''"
| "show_pipe_error MatchNeedsPattern = ''`| match` needs something to match''"
| "show_pipe_error (BadPattern p r) = ''`| match '' @ p @ ''` is not a valid regular expression: '' @ r"
| "show_pipe_error DisplayNeedsFormat = ''`| display` needs `json` or `secrets`''"
| "show_pipe_error (UnknownDisplay s) =
     ''`| display '' @ s @ ''` is not something that can be displayed; try json or secrets''"
| "show_pipe_error PipeEmpty = ''a pipe with nothing after it''"

section \<open>Splitting\<close>

text \<open>The loop of \<open>split_unquoted\<close>; \<open>cur\<close> is the piece being built.\<close>

fun split_unquoted_from :: "string \<Rightarrow> bool \<Rightarrow> bool \<Rightarrow> string \<Rightarrow> string list" where
  "split_unquoted_from cur quoted escaped [] = [cur]"
| "split_unquoted_from cur quoted escaped (c # cs) =
     (if escaped then split_unquoted_from (cur @ [c]) quoted False cs
      else if c = backslash then split_unquoted_from (cur @ [c]) quoted True cs
      else if c = quote_char then split_unquoted_from (cur @ [c]) (\<not> quoted) False cs
      else if c = CHR ''|'' \<and> \<not> quoted then cur # split_unquoted_from [] quoted False cs
      else split_unquoted_from (cur @ [c]) quoted False cs)"

definition split_unquoted :: "string \<Rightarrow> string list" where
  "split_unquoted ln = split_unquoted_from [] False False ln"

definition last_line :: "string \<Rightarrow> string" where
  "last_line s = (if text_lines s = [] then [] else trim (last (text_lines s)))"

definition parse_modifier :: "regexes \<Rightarrow> string \<Rightarrow> pipe_error + modifier" where
  "parse_modifier re text =
     (case split_whitespace text of
        [] \<Rightarrow> Inl PipeEmpty
      | name # words \<Rightarrow>
          if name = ''match'' then
            (if words = [] then Inl MatchNeedsPattern
             else case re_error re (join '' '' words) of
                    Some e \<Rightarrow> Inl (BadPattern (join '' '' words) (last_line e))
                  | None \<Rightarrow> Inr (MMatch (join '' '' words)))
          else if name = ''count'' then Inr MCount
          else if name = ''no-more'' then Inr NoMore
          else if name = ''display'' then
            (case words of
               [] \<Rightarrow> Inl DisplayNeedsFormat
             | format # others \<Rightarrow>
                 if format = ''json'' then Inr DisplayJson
                 else if format = ''secrets'' then Inr DisplaySecrets
                 else Inl (UnknownDisplay format))
          else Inl (PipeUnknown name))"

fun parse_modifiers :: "regexes \<Rightarrow> string list \<Rightarrow> pipe_error + modifier list" where
  "parse_modifiers re [] = Inr []"
| "parse_modifiers re (p # ps) =
     bind_result (parse_modifier re (trim p)) (\<lambda>m. bind_result (parse_modifiers re ps) (\<lambda>ms. Inr (m # ms)))"

definition pipe_split :: "regexes \<Rightarrow> string \<Rightarrow> pipe_error + string \<times> modifier list" where
  "pipe_split re ln =
     (case split_unquoted ln of
        [] \<Rightarrow> Inl PipeEmpty
      | command # parts \<Rightarrow> bind_result (parse_modifiers re parts) (\<lambda>ms. Inr (trim command, ms)))"

section \<open>Applying\<close>

fun apply_modifier :: "regexes \<Rightarrow> modifier \<Rightarrow> string \<Rightarrow> string" where
  "apply_modifier re (MMatch pattern) text =
     (case re_error re pattern of
        None \<Rightarrow> concat (map (\<lambda>ln. ln @ [newline]) (filter (re_match re pattern) (text_lines text)))
      | Some e \<Rightarrow> text)"
| "apply_modifier re MCount text =
     show_nat (length (filter (\<lambda>ln. trim ln \<noteq> []) (text_lines text))) @ [newline]"
| "apply_modifier re NoMore text = text"
| "apply_modifier re DisplayJson text = text"
| "apply_modifier re DisplaySecrets text = text"

definition pipe_apply :: "regexes \<Rightarrow> string \<Rightarrow> modifier list \<Rightarrow> string" where
  "pipe_apply re text modifiers = fold (apply_modifier re) modifiers text"

definition wants :: "modifier list \<Rightarrow> modifier \<Rightarrow> bool" where
  "wants modifiers m \<longleftrightarrow> m \<in> set modifiers"

section \<open>What a piece is\<close>

lemma split_unquoted_from_nonempty [simp]: "split_unquoted_from cur q e s \<noteq> []"
  by (induction cur q e s rule: split_unquoted_from.induct) auto

text \<open>Nothing is lost: the pieces with bars between them are the line.\<close>

lemma join_split_unquoted_from: "join [CHR ''|''] (split_unquoted_from cur q e s) = cur @ s"
proof (induction cur q e s rule: split_unquoted_from.induct)
  case (2 cur q e c cs)
  have "join [CHR ''|''] (cur # ps) = cur @ CHR ''|'' # join [CHR ''|''] ps" if "ps \<noteq> []" for ps
    using that by (cases ps) auto
  with 2 show ?case by simp
qed simp

lemma join_split_unquoted: "join [CHR ''|''] (split_unquoted ln) = ln"
  by (simp add: split_unquoted_def join_split_unquoted_from)

text \<open>
  How far text leaves the splitter's state: \<open>calm\<close> text, read outside quotes, ends outside quotes and
  has no bar that splits.
\<close>

definition calm :: "string \<Rightarrow> bool" where
  "calm s \<longleftrightarrow> (\<forall>cur t. split_unquoted_from cur False False (s @ t) = split_unquoted_from (cur @ s) False False t)"

lemma calm_Nil: "calm []"
  by (simp add: calm_def)

lemma calm_append: "calm s \<Longrightarrow> calm t \<Longrightarrow> calm (s @ t)"
  by (simp add: calm_def)

lemma calm_char: "c \<noteq> backslash \<Longrightarrow> c \<noteq> quote_char \<Longrightarrow> c \<noteq> CHR ''|'' \<Longrightarrow> calm [c]"
  by (simp add: calm_def)

lemma calm_chars:
  "(\<And>c. c \<in> set s \<Longrightarrow> c \<noteq> backslash \<and> c \<noteq> quote_char \<and> c \<noteq> CHR ''|'') \<Longrightarrow> calm s"
proof (induction s)
  case (Cons c s)
  then have "calm ([c] @ s)" by (intro calm_append calm_char) auto
  then show ?case by simp
qed (simp add: calm_Nil)

lemma quoted_escape:
  "split_unquoted_from cur True False (quote_escape c @ t) = split_unquoted_from (cur @ quote_escape c) True False t"
proof -
  have hex: "hex_digit d \<noteq> backslash \<and> hex_digit d \<noteq> quote_char" if "d < 16" for d
  proof -
    have "code (hex_digit d) = (if d < 10 then d + 48 else d + 87)"
      unfolding hex_digit_def using that by (intro code_char_of) auto
    then have "code (hex_digit d) \<noteq> code backslash \<and> code (hex_digit d) \<noteq> code quote_char"
      using that by (auto simp: code_def)
    then show ?thesis by auto
  qed
  have "code c div 16 < 16" using code_lt [of c] by simp
  then show ?thesis
    using hex [of "code c div 16"] hex [of "code c mod 16"] by (auto simp: quote_escape_def)
qed

lemma quoted_escapes:
  "split_unquoted_from cur True False (concat (map quote_escape s) @ t) =
     split_unquoted_from (cur @ concat (map quote_escape s)) True False t"
  by (induction s arbitrary: cur) (simp_all add: quoted_escape)

lemma not_bare: "\<not> is_bare_char backslash" "\<not> is_bare_char quote_char" "\<not> is_bare_char (CHR ''|'')"
  by (simp_all add: is_bare_char_def char_class code_def)

lemma bare_calm: "is_bare s \<Longrightarrow> calm s"
  by (rule calm_chars) (metis is_bare_def list_all_iff not_bare)

lemma quote_calm: "calm (quote s)"
proof (cases "is_bare s")
  case True
  then show ?thesis using bare_calm by (simp add: quote_def)
next
  case False
  then show ?thesis by (simp add: quote_def calm_def quoted_escapes)
qed

lemma show_path_calm: "calm (show_path p)"
proof -
  have "calm (join '' '' (map quote ws))" for ws
  proof (induction ws rule: induct_list012)
    case (3 x y ws)
    have "calm (quote x @ '' '' @ join '' '' (map quote (y # ws)))"
      by (intro calm_append quote_calm 3 calm_char) simp_all
    then show ?case by simp
  qed (simp_all add: calm_Nil quote_calm)
  then show ?thesis by (simp add: show_path_def)
qed

lemma calm_split: "calm s \<Longrightarrow> split_unquoted (s @ t) = split_unquoted_from s False False t"
  by (simp add: calm_def split_unquoted_def)

lemma bare_not_whitespace: "is_bare_char c \<Longrightarrow> \<not> is_whitespace c"
  using whitespace_not_bare by blast

lemma quote_ends: "quote s \<noteq> [] \<and> \<not> is_whitespace (hd (quote s)) \<and> \<not> is_whitespace (last (quote s))"
proof (cases "is_bare s")
  case True
  then have "\<forall>c \<in> set s. is_bare_char c" "s \<noteq> []" by (simp_all add: is_bare_def list_all_iff)
  then show ?thesis using True bare_not_whitespace by (simp add: quote_def)
next
  case False
  then show ?thesis by (simp add: quote_def char_class code_def)
qed

lemma show_path_ends:
  "show_path p = [] \<or> \<not> is_whitespace (hd (show_path p)) \<and> \<not> is_whitespace (last (show_path p))"
proof -
  have ends: "ws \<noteq> [] \<Longrightarrow> join '' '' (map quote ws) \<noteq> [] \<and>
      \<not> is_whitespace (hd (join '' '' (map quote ws))) \<and> \<not> is_whitespace (last (join '' '' (map quote ws)))" for ws
  proof (induction ws rule: induct_list012)
    case (3 x y ws)
    then show ?case using quote_ends [of x] by simp
  qed (simp_all add: quote_ends)
  show ?thesis using ends [of p] by (cases p) (auto simp: show_path_def)
qed

lemma trim_show_path: "trim (show_path p) = show_path p"
  by (rule trim_plain [OF show_path_ends])

lemma trim_trailing_space:
  assumes "s = [] \<or> \<not> is_whitespace (hd s) \<and> \<not> is_whitespace (last s)"
  shows "trim (s @ '' '') = s"
proof (cases s rule: rev_cases)
  case Nil
  then show ?thesis by (simp add: trim_def trim_by_def trim_end_by_def trim_start_by_def char_class code_def)
next
  case (snoc t c)
  have "\<not> is_whitespace (hd (s @ '' ''))" using assms snoc by (cases t) auto
  then have "dropWhile is_whitespace (s @ '' '') = s @ '' ''"
    by (cases "s @ '' ''") auto
  moreover have "is_whitespace (CHR '' '')" by (simp add: char_class code_def)
  ultimately show ?thesis
    using assms snoc by (simp add: trim_def trim_by_def trim_end_by_def trim_start_by_def)
qed

text \<open>
  Words typed in the program's own quoting arrive as they are: whatever they hold, bars and quotes
  included, the splitter takes none of it for a modifier, the modifiers after them are found, and the
  command reads back as exactly these words.
\<close>

lemma typed_words_arrive:
  "pipe_split re (show_path p) = Inr (show_path p, []) \<and>
   pipe_split re (show_path p @ '' |'' @ t) =
     bind_result (parse_modifiers re (split_unquoted t)) (\<lambda>ms. Inr (show_path p, ms)) \<and>
   path_parse (show_path p) = Inr p"
proof (intro conjI)
  have "split_unquoted (show_path p) = [show_path p]"
    using calm_split [OF show_path_calm, of p "[]"] show_path_calm [of p] by (simp add: calm_def)
  then show "pipe_split re (show_path p) = Inr (show_path p, [])"
    by (simp add: pipe_split_def trim_show_path)
  have "split_unquoted (show_path p @ '' |'' @ t) = (show_path p @ '' '') # split_unquoted t"
    using show_path_calm [of p] by (simp add: calm_def split_unquoted_def)
  moreover have "trim (show_path p @ '' '') = show_path p"
    by (rule trim_trailing_space [OF show_path_ends])
  ultimately show "pipe_split re (show_path p @ '' |'' @ t) =
      bind_result (parse_modifiers re (split_unquoted t)) (\<lambda>ms. Inr (show_path p, ms))"
    by (simp add: pipe_split_def)
  show "path_parse (show_path p) = Inr p" by (rule path_display_roundtrip)
qed

end
