(* ===== verification/Repl.thy ===== *)
theory Repl
  imports Complete Pipe
begin

text \<open>
  \<open>src/nightshade-cli/src/repl.rs\<close>: modes, prompts, and what every typed line does. Everything outside
  the shell is a parameter (\<open>outside\<close>): the daemon's answers, the programs it starts, the terminal. A
  state \<open>'w\<close> of that outside is passed along, and everything the shell does to it is recorded in order
  in \<open>cl_trace\<close>. \<open>None\<close> is a panic.
\<close>

datatype client_error = ConnectError string string | TransportError string

fun show_client_error :: "client_error \<Rightarrow> string" where
  "show_client_error (ConnectError path source) =
     ''cannot reach the configuration daemon at '' @ path @ '': '' @ source @ [newline] @
     ''is nightshade-configd running?''"
| "show_client_error (TransportError e) = ''the connection to the configuration daemon failed: '' @ e"

fun show_path_error :: "path_error \<Rightarrow> string" where
  "show_path_error (PathLex e) = show_lex_error e"
| "show_path_error (PathBrace p ch) = show_pos p @ '': `'' @ [ch] @ ''` is not allowed in a path''"
| "show_path_error (PathComment p) = show_pos p @ '': comments are not allowed in a path''"

datatype outcome = OutOk | CommandError | ConfigError | Leave

fun outcome_code :: "outcome \<Rightarrow> nat" where
  "outcome_code OutOk = 0"
| "outcome_code Leave = 0"
| "outcome_code CommandError = 1"
| "outcome_code ConfigError = 2"

fun outcome_of :: "failure_kind \<Rightarrow> outcome" where
  "outcome_of KValidation = ConfigError"
| "outcome_of KConflict = ConfigError"
| "outcome_of KRequest = CommandError"
| "outcome_of KInternal = CommandError"

datatype mode = Operational_Mode | Configuration_Mode

definition OPERATIONAL_COMMANDS :: "string list" where
  "OPERATIONAL_COMMANDS =
     [''clear'', ''configure'', ''exit'', ''help'', ''logout'', ''ping'', ''quit'', ''shell'', ''show'', ''traceroute'']"

definition CONFIGURATION_COMMANDS :: "string list" where
  "CONFIGURATION_COMMANDS =
     [''commit'', ''compare'', ''confirm'', ''delete'', ''discard'', ''edit'', ''exit'', ''help'', ''load'',
      ''rollback'', ''save'', ''set'', ''show'', ''top'', ''up'']"

datatype 's event =
    Asked request "client_error + 's response"
  | Printed string
  | Complained string
  | RanProgram "string list"
  | RanShell

text \<open>\<open>ou_program\<close> gives the reason a program could not be run or whether it succeeded; \<open>ou_enter\<close> is
  whether the operator sends a line at the pager; \<open>ou_rows\<close> the size of the terminal, \<open>None\<close> when the
  output is no terminal.\<close>

record ('s, 'w) outside =
  ou_call :: "request \<Rightarrow> 'w \<Rightarrow> (client_error + 's response) \<times> 'w"
  ou_program :: "string list \<Rightarrow> 'w \<Rightarrow> (string + bool) \<times> 'w"
  ou_shell :: "'w \<Rightarrow> (string + unit) \<times> 'w"
  ou_enter :: "'w \<Rightarrow> bool \<times> 'w"
  ou_interfaces :: "'w \<Rightarrow> string list"
  ou_schema :: schema
  ou_values :: value_env
  ou_regexes :: regexes
  ou_printers :: "'s printers"
  ou_rows :: "nat option option"
  ou_debug_response :: "'s response \<Rightarrow> string"
  ou_debug_str :: "string \<Rightarrow> string"

record ('s, 'w) cli =
  cl_world :: 'w
  cl_mode :: mode
  cl_session :: "session_id option"
  cl_prefix :: path
  cl_user :: string
  cl_hostname :: string
  cl_context :: completion_context
  cl_colour :: bool
  cl_trace :: "'s event list"

definition cli_new :: "'w \<Rightarrow> string \<Rightarrow> bool \<Rightarrow> ('s, 'w) cli" where
  "cli_new w user colour =
     \<lparr>cl_world = w, cl_mode = Operational_Mode, cl_session = None, cl_prefix = path_root, cl_user = user,
      cl_hostname = ''nightshade'',
      cl_context = \<lparr>cx_candidate = tree_new, cx_system_interfaces = [], cx_operational = False,
        cx_prefix = path_root, cx_commands = []\<rparr>,
      cl_colour = colour, cl_trace = []\<rparr>"

definition record_event :: "'s event \<Rightarrow> ('s, 'w) cli \<Rightarrow> ('s, 'w) cli" where
  "record_event e c = c\<lparr>cl_trace := cl_trace c @ [e]\<rparr>"

definition call :: "('s, 'w) outside \<Rightarrow> request \<Rightarrow> ('s, 'w) cli \<Rightarrow> (client_error + 's response) \<times> ('s, 'w) cli" where
  "call out req c =
     (let (r, w) = ou_call out req (cl_world c)
      in (r, record_event (Asked req r) (c\<lparr>cl_world := w\<rparr>)))"

text \<open>What a command hands back: what to print, and the outcome; \<open>Inl\<close> is the \<open>?\<close> on a failed call.\<close>

type_synonym 's shown = "client_error + 's printed \<times> outcome"

definition asking ::
  "('s, 'w) outside \<Rightarrow> request \<Rightarrow> ('s, 'w) cli \<Rightarrow> ('s response \<Rightarrow> ('s, 'w) cli \<Rightarrow> 's shown \<times> ('s, 'w) cli) \<Rightarrow>
     's shown \<times> ('s, 'w) cli" where
  "asking out req c k = (case call out req c of (Inl e, c') \<Rightarrow> (Inl e, c') | (Inr r, c') \<Rightarrow> k r c')"

definition say :: "string \<Rightarrow> outcome \<Rightarrow> 's shown" where
  "say s o' = Inr (OText (s @ [newline]), o')"

section \<open>Prompt and context\<close>

definition prompt :: "('s, 'w) cli \<Rightarrow> string" where
  "prompt c =
     (let marker = (case cl_mode c of Operational_Mode \<Rightarrow> ''>'' | Configuration_Mode \<Rightarrow> ''#'')
      in if cl_prefix c = [] then cl_user c @ ''@'' @ cl_hostname c @ marker @ '' ''
         else ''[edit '' @ show_path (cl_prefix c) @ '']'' @ [newline] @
           cl_user c @ ''@'' @ cl_hostname c @ marker @ '' '')"

definition host_named :: "config_tree \<Rightarrow> string option" where
  "host_named t = Option.bind (tree_get [''system'', ''host-name''] t) node_value"

definition learn_host :: "('s, 'w) outside \<Rightarrow> ('s, 'w) cli \<Rightarrow> ('s, 'w) cli" where
  "learn_host out c =
     (case call out (ShowRunning path_root) c of
        (Inr (RespConfig t), c') \<Rightarrow> (case host_named t of Some n \<Rightarrow> c'\<lparr>cl_hostname := n\<rparr> | None \<Rightarrow> c')
      | (_, c') \<Rightarrow> c')"

definition fetch_candidate :: "('s, 'w) outside \<Rightarrow> ('s, 'w) cli \<Rightarrow> config_tree \<times> ('s, 'w) cli" where
  "fetch_candidate out c =
     (case cl_session c of
        None \<Rightarrow> (tree_new, c)
      | Some i \<Rightarrow>
          (case call out (ShowCandidate i path_root) c of
             (Inr (RespConfig t), c') \<Rightarrow> (t, c')
           | (_, c') \<Rightarrow> (tree_new, c')))"

definition refresh :: "('s, 'w) outside \<Rightarrow> ('s, 'w) cli \<Rightarrow> ('s, 'w) cli" where
  "refresh out c =
     (let (candidate, c') = fetch_candidate out (learn_host out c)
      in c'\<lparr>cl_context := \<lparr>cx_candidate = candidate, cx_system_interfaces = ou_interfaces out (cl_world c'),
           cx_operational = (cl_mode c' = Operational_Mode), cx_prefix = cl_prefix c',
           cx_commands = (case cl_mode c' of Operational_Mode \<Rightarrow> OPERATIONAL_COMMANDS
             | Configuration_Mode \<Rightarrow> CONFIGURATION_COMMANDS)\<rparr>\<rparr>)"

definition help_for :: "('s, 'w) outside \<Rightarrow> ('s, 'w) cli \<Rightarrow> string \<Rightarrow> string" where
  "help_for out c typed =
     (let (ws, partial) = words typed
      in ''possible completions:'' @ [newline] @ help_lines (candidates (ou_schema out) (cl_context c) ws partial))"

section \<open>Answers\<close>

definition unexpected :: "('s, 'w) outside \<Rightarrow> 's response \<Rightarrow> 's shown" where
  "unexpected out r =
     say (''the configuration daemon sent an unexpected reply: '' @ ou_debug_response out r) CommandError"

definition with_prefix :: "('s, 'w) cli \<Rightarrow> string list \<Rightarrow> path" where
  "with_prefix c others = cl_prefix c @ others"

definition expect_ok :: "('s, 'w) outside \<Rightarrow> request \<Rightarrow> ('s, 'w) cli \<Rightarrow> 's shown \<times> ('s, 'w) cli" where
  "expect_ok out req c = asking out req c (\<lambda>r c.
     ((case r of
         RespOk \<Rightarrow> Inr (ONothing, OutOk)
       | Failed kind message \<Rightarrow> say message (outcome_of kind)
       | other \<Rightarrow> unexpected out other), c))"

definition expect_config :: "('s, 'w) outside \<Rightarrow> request \<Rightarrow> ('s, 'w) cli \<Rightarrow> 's shown \<times> ('s, 'w) cli" where
  "expect_config out req c = asking out req c (\<lambda>r c.
     ((case r of
         RespConfig t \<Rightarrow> Inr (OConfig t, OutOk)
       | Failed kind message \<Rightarrow> say message (outcome_of kind)
       | other \<Rightarrow> unexpected out other), c))"

definition committed_text :: "nat \<Rightarrow> change list \<Rightarrow> nat option \<Rightarrow> string" where
  "committed_text generation changes within =
     (if changes = [] then ''no configuration changes to commit'' @ [newline]
      else ''committed '' @ show_nat (length changes) @ '' changes as revision '' @ show_nat generation @ [newline]) @
     (case within of
        None \<Rightarrow> []
      | Some seconds \<Rightarrow>
          [newline] @ ''this change will be ROLLED BACK in '' @ show_nat (seconds div 60) @ '' minutes '' @
          show_nat (seconds mod 60) @ '' seconds unless you type `confirm`'' @ [newline])"

definition expect_commit :: "('s, 'w) outside \<Rightarrow> request \<Rightarrow> ('s, 'w) cli \<Rightarrow> 's shown \<times> ('s, 'w) cli" where
  "expect_commit out req c = asking out req c (\<lambda>r c.
     ((case r of
         Committed generation changes within \<Rightarrow> Inr (OText (committed_text generation changes within), OutOk)
       | Failed kind message \<Rightarrow> say message (outcome_of kind)
       | other \<Rightarrow> unexpected out other), c))"

definition unknown_command :: "string \<Rightarrow> string list \<Rightarrow> 's shown" where
  "unknown_command verb known =
     (let close = filter (\<lambda>name. starts_with name [if verb = [] then CHR '' '' else hd verb]) known
      in Inr (OText (''`'' @ verb @ ''` is not a command here.'' @ [newline] @
           (if close = [] then [] else ''did you mean: '' @ join '', '' close @ [newline])), CommandError))"

definition is_destination :: "value_env \<Rightarrow> string \<Rightarrow> bool" where
  "is_destination env s \<longleftrightarrow>
     spec_check env (spec_new VIpAddress) s = Inr () \<or> spec_check env (spec_new VHostname) s = Inr ()"

section \<open>Operational mode\<close>

definition op_show_command ::
  "('s, 'w) outside \<Rightarrow> string list \<Rightarrow> ('s, 'w) cli \<Rightarrow> 's shown \<times> ('s, 'w) cli" where
  "op_show_command out ws c =
     (if ws = [''version''] then
        asking out (OpShow Version) c (\<lambda>r c.
          ((case r of
              Operational (ReportVersion v) \<Rightarrow> say (''Nightshade '' @ v) OutOk
            | other \<Rightarrow> unexpected out other), c))
      else if ws = [''configuration''] \<or> ws = [''config''] \<or> ws = [''conf''] then
        expect_config out (ShowSaved path_root) c
      else if ws = [''system'', ''commit-log''] then
        asking out CommitLog c (\<lambda>r c.
          ((case r of Revisions rs \<Rightarrow> Inr (ORevisions rs, OutOk) | other \<Rightarrow> unexpected out other), c))
      else if ws \<noteq> [] \<and> hd ws = ''interfaces'' then
        (case query_parse (tl ws) of
           Inl e \<Rightarrow> (say (show_query_error e) CommandError, c)
         | Inr q \<Rightarrow>
             asking out (OpShow (InterfacesQuery q)) c (\<lambda>r c.
               ((case r of
                   Operational (ReportInterfaces snap) \<Rightarrow> Inr (OInterfaces snap (q_view q), OutOk)
                 | Failed kind message \<Rightarrow> say message (outcome_of kind)
                 | other \<Rightarrow> unexpected out other), c)))
      else (say ''show version | interfaces | configuration | system commit-log'' CommandError, c))"

definition clear_names :: "string list \<Rightarrow> string + string list" where
  "clear_names ws =
     (if ws = [''counters''] then Inr []
      else if length ws = 2 \<and> hd ws = ''counters'' then
        (case expand_spec (ws ! 1) of Inl e \<Rightarrow> Inl (show_query_error e) | Inr names \<Rightarrow> Inr names)
      else Inl ''clear counters [<interface>]'')"

definition clear_command ::
  "('s, 'w) outside \<Rightarrow> string list \<Rightarrow> ('s, 'w) cli \<Rightarrow> 's shown \<times> ('s, 'w) cli" where
  "clear_command out ws c =
     (case clear_names ws of
        Inl e \<Rightarrow> (say e CommandError, c)
      | Inr names \<Rightarrow> expect_ok out (OpShow (ClearCounters names)) c)"

definition run_shell :: "('s, 'w) outside \<Rightarrow> ('s, 'w) cli \<Rightarrow> (string + unit) \<times> ('s, 'w) cli" where
  "run_shell out c =
     (let (r, w) = ou_shell out (cl_world c) in (r, record_event RanShell (c\<lparr>cl_world := w\<rparr>)))"

definition shell_command :: "('s, 'w) outside \<Rightarrow> ('s, 'w) cli \<Rightarrow> 's shown \<times> ('s, 'w) cli" where
  "shell_command out c = asking out (ShellSession True) c (\<lambda>r c.
     (case r of
        RespOk \<Rightarrow>
          (let c1 = record_event (Printed (''entering a shell; type 'operational' or exit to return'' @ [newline])) c;
               (ran, c2) = run_shell out c1;
               (result, c3) = (case ran of
                   Inr u \<Rightarrow> (OutOk, c2)
                 | Inl e \<Rightarrow> (CommandError, record_event (Complained e) c2))
           in asking out (ShellSession False) c3 (\<lambda>_ c. (Inr (ONothing, result), c)))
      | Failed kind message \<Rightarrow> (say message (outcome_of kind), c)
      | other \<Rightarrow> (unexpected out other, c)))"

definition run_program ::
  "('s, 'w) outside \<Rightarrow> string list \<Rightarrow> ('s, 'w) cli \<Rightarrow> (string + bool) \<times> ('s, 'w) cli" where
  "run_program out argv c =
     (let (r, w) = ou_program out argv (cl_world c) in (r, record_event (RanProgram argv) (c\<lparr>cl_world := w\<rparr>)))"

definition trace_or_ping ::
  "('s, 'w) outside \<Rightarrow> string \<Rightarrow> string list \<Rightarrow> ('s, 'w) cli \<Rightarrow> 's shown \<times> ('s, 'w) cli" where
  "trace_or_ping out program others c =
     (case others of
        [destination] \<Rightarrow>
          if \<not> is_destination (ou_values out) destination
          then (say (ou_debug_str out destination @ '' is not an address or a host name'') CommandError, c)
          else
            (case run_program out
                (program # (if program = ''ping'' then [''-c'', ''5''] else []) @ [destination]) c of
               (Inr True, c') \<Rightarrow> (Inr (ONothing, OutOk), c')
             | (Inr False, c') \<Rightarrow> (Inr (ONothing, CommandError), c')
             | (Inl e, c') \<Rightarrow> (say (program @ '' could not be run: '' @ e) CommandError, c'))
      | _ \<Rightarrow> (say (program @ '' <host>'') CommandError, c))"

definition configure_command :: "('s, 'w) outside \<Rightarrow> ('s, 'w) cli \<Rightarrow> 's shown \<times> ('s, 'w) cli" where
  "configure_command out c = asking out SessionOpen c (\<lambda>r c.
     (case r of
        RespSession i \<Rightarrow>
          (say ''entering configuration mode'' OutOk,
           c\<lparr>cl_session := Some i, cl_mode := Configuration_Mode, cl_prefix := path_root\<rparr>)
      | other \<Rightarrow> (unexpected out other, c)))"

definition operational ::
  "('s, 'w) outside \<Rightarrow> string \<Rightarrow> string list \<Rightarrow> ('s, 'w) cli \<Rightarrow> 's shown \<times> ('s, 'w) cli" where
  "operational out verb others c =
     (if verb = ''show'' \<or> verb = ''sh'' then op_show_command out others c
      else if verb = ''configure'' \<or> verb = ''config'' \<or> verb = ''conf'' then configure_command out c
      else if verb = ''clear'' then clear_command out others c
      else if verb = ''shell'' then shell_command out c
      else if verb = ''ping'' then trace_or_ping out ''ping'' others c
      else if verb = ''traceroute'' then trace_or_ping out ''traceroute'' others c
      else if verb = ''exit'' \<or> verb = ''quit'' \<or> verb = ''logout'' then (Inr (ONothing, Leave), c)
      else if verb = ''help'' then (Inr (OText (help_for out c []), OutOk), c)
      else (unknown_command verb OPERATIONAL_COMMANDS, c))"

section \<open>Configuration mode\<close>

definition edit_command ::
  "('s, 'w) outside \<Rightarrow> bool \<Rightarrow> session_id \<Rightarrow> string list \<Rightarrow> ('s, 'w) cli \<Rightarrow> 's shown \<times> ('s, 'w) cli" where
  "edit_command out setting i others c =
     (let (p, v) = split_value (ou_schema out) (with_prefix c others)
      in expect_ok out (if setting then SetValue i p v else DeleteNode i p v) c)"

definition show_command ::
  "('s, 'w) outside \<Rightarrow> session_id \<Rightarrow> string list \<Rightarrow> ('s, 'w) cli \<Rightarrow> 's shown \<times> ('s, 'w) cli" where
  "show_command out i others c =
     (let at = with_prefix c others
      in asking out (ShowCandidate i at) c (\<lambda>r c.
           (case r of
              RespConfig candidate \<Rightarrow>
                asking out (ShowRunning at) c (\<lambda>r c.
                  ((case r of
                      RespConfig running \<Rightarrow> Inr (OConfigDiff candidate running, OutOk)
                    | other \<Rightarrow> unexpected out other), c))
            | other \<Rightarrow> (unexpected out other, c))))"

definition compare_command :: "('s, 'w) outside \<Rightarrow> session_id \<Rightarrow> ('s, 'w) cli \<Rightarrow> 's shown \<times> ('s, 'w) cli" where
  "compare_command out i c = asking out (Compare i) c (\<lambda>r c.
     ((case r of
         RespChanges changes \<Rightarrow>
           if changes = [] then say ''no changes between the candidate and running'' OutOk
           else Inr (OChanges changes, OutOk)
       | other \<Rightarrow> unexpected out other), c))"

text \<open>The loop over the words of \<open>commit\<close>: \<open>Inl\<close> is the usage to print.\<close>

fun commit_words :: "string list \<Rightarrow> string option \<Rightarrow> nat option \<Rightarrow> string + string option \<times> nat option" where
  "commit_words [] note minutes = Inr (note, minutes)"
| "commit_words [w] note minutes =
     (if w = ''confirm'' then Inl ''commit confirm <minutes>''
      else if w = ''comment'' then Inl (''commit comment '' @ [quote_char] @ ''...'' @ [quote_char])
      else Inl (''commit [confirm <minutes>] [comment '' @ [quote_char] @ ''...'' @ [quote_char] @ '']; `'' @ w @
        ''` is not one of those''))"
| "commit_words (w # x # ws) note minutes =
     (if w = ''confirm'' then
        (case parse_u16 x of
           Some n \<Rightarrow> if 0 < n then commit_words ws note (Some n) else Inl ''commit confirm <minutes>''
         | None \<Rightarrow> Inl ''commit confirm <minutes>'')
      else if w = ''comment'' then commit_words ws (Some x) minutes
      else Inl (''commit [confirm <minutes>] [comment '' @ [quote_char] @ ''...'' @ [quote_char] @ '']; `'' @ w @
        ''` is not one of those''))"

definition commit_command ::
  "('s, 'w) outside \<Rightarrow> session_id \<Rightarrow> string list \<Rightarrow> ('s, 'w) cli \<Rightarrow> 's shown \<times> ('s, 'w) cli" where
  "commit_command out i others c =
     (case commit_words others None None of
        Inl usage \<Rightarrow> (say usage CommandError, c)
      | Inr (note, minutes) \<Rightarrow> expect_commit out (Commit i note minutes) c)"

definition rollback_command ::
  "('s, 'w) outside \<Rightarrow> session_id \<Rightarrow> string list \<Rightarrow> ('s, 'w) cli \<Rightarrow> 's shown \<times> ('s, 'w) cli" where
  "rollback_command out i others c =
     (case others of
        [revision] \<Rightarrow>
          (case parse_unsigned 18446744073709551615 revision of
             Some n \<Rightarrow> expect_ok out (Load i (LoadArchive n)) c
           | None \<Rightarrow> (say (ou_debug_str out revision @ '' is not a revision number'') CommandError, c))
      | _ \<Rightarrow> (say ''rollback <revision>'' CommandError, c))"

definition close_session :: "('s, 'w) outside \<Rightarrow> session_id \<Rightarrow> ('s, 'w) cli \<Rightarrow> 's shown \<times> ('s, 'w) cli" where
  "close_session out i c = asking out (SessionClose i) c (\<lambda>_ c.
     (say ''leaving configuration mode'' OutOk,
      c\<lparr>cl_session := None, cl_mode := Operational_Mode, cl_prefix := path_root\<rparr>))"

definition leave_configuration ::
  "('s, 'w) outside \<Rightarrow> session_id \<Rightarrow> string list \<Rightarrow> ('s, 'w) cli \<Rightarrow> 's shown \<times> ('s, 'w) cli" where
  "leave_configuration out i others c =
     (if others \<noteq> [] \<and> hd others = ''discard'' then close_session out i c
      else asking out (Compare i) c (\<lambda>r c.
        (case r of
           RespChanges changes \<Rightarrow>
             if changes \<noteq> [] then
               (say (''there are '' @ show_nat (length changes) @ '' uncommitted changes.'' @ [newline] @
                  ''commit them, or `exit discard` to throw them away.'') ConfigError, c)
             else close_session out i c
         | other \<Rightarrow> (unexpected out other, c))))"

text \<open>\<open>None\<close>: the mode without a session, on which the code panics.\<close>

definition configuration ::
  "('s, 'w) outside \<Rightarrow> string \<Rightarrow> string list \<Rightarrow> ('s, 'w) cli \<Rightarrow> ('s shown \<times> ('s, 'w) cli) option" where
  "configuration out verb others c =
     (case cl_session c of
        None \<Rightarrow> None
      | Some i \<Rightarrow> Some
         (if verb = ''set'' then edit_command out True i others c
          else if verb = ''delete'' then edit_command out False i others c
          else if verb = ''show'' \<or> verb = ''sh'' then show_command out i others c
          else if verb = ''compare'' then compare_command out i c
          else if verb = ''commit'' then commit_command out i others c
          else if verb = ''confirm'' then expect_commit out (Confirm i) c
          else if verb = ''discard'' then expect_ok out (Discard i) c
          else if verb = ''save'' then expect_ok out Save c
          else if verb = ''load'' then expect_ok out (Load i LoadSaved) c
          else if verb = ''rollback'' then rollback_command out i others c
          else if verb = ''edit'' then
            (let at = with_prefix c others
             in if resolve (ou_schema out) at = None
                then (say (''`'' @ show_path at @ ''` is not a configuration path'') ConfigError, c)
                else (Inr (ONothing, OutOk), c\<lparr>cl_prefix := at\<rparr>))
          else if verb = ''up'' then
            (Inr (ONothing, OutOk), c\<lparr>cl_prefix := (case path_parent (cl_prefix c) of Some p \<Rightarrow> p | None \<Rightarrow> path_root)\<rparr>)
          else if verb = ''top'' then (Inr (ONothing, OutOk), c\<lparr>cl_prefix := path_root\<rparr>)
          else if verb = ''exit'' then leave_configuration out i others c
          else if verb = ''help'' then (Inr (OText (help_for out c []), OutOk), c)
          else if verb = ''shell'' then
            (say ''shell is not available from configuration mode; `exit` to operational mode first'' CommandError, c)
          else (unknown_command verb CONFIGURATION_COMMANDS, c)))"

section \<open>A line\<close>

definition dispatch :: "('s, 'w) outside \<Rightarrow> string \<Rightarrow> ('s, 'w) cli \<Rightarrow> ('s shown \<times> ('s, 'w) cli) option" where
  "dispatch out command c =
     (case path_parse command of
        Inl e \<Rightarrow> Some (say (show_path_error e) CommandError, c)
      | Inr [] \<Rightarrow> Some (Inr (ONothing, OutOk), c)
      | Inr (verb # others) \<Rightarrow>
          (case cl_mode c of
             Operational_Mode \<Rightarrow> Some (operational out verb others c)
           | Configuration_Mode \<Rightarrow> configuration out verb others c))"

definition terminal_rows :: "nat option option \<Rightarrow> nat" where
  "terminal_rows window =
     (case window of
        None \<Rightarrow> 18446744073709551615
      | Some (Some rows) \<Rightarrow> if rows > 2 then rows else 24
      | Some None \<Rightarrow> 24)"

fun print_lines :: "string list \<Rightarrow> ('s, 'w) cli \<Rightarrow> ('s, 'w) cli" where
  "print_lines [] c = c"
| "print_lines (l # ls) c = print_lines ls (record_event (Printed (l @ [newline])) c)"

text \<open>The chunks after the first; \<open>n\<close> lines each.\<close>

function print_pages :: "('s, 'w) outside \<Rightarrow> nat \<Rightarrow> string list \<Rightarrow> ('s, 'w) cli \<Rightarrow> ('s, 'w) cli" where
  "print_pages out n ls c =
     (if ls = [] \<or> n = 0 then c
      else
        let c1 = record_event (Printed ''-- more -- '') c;
            (entered, w) = ou_enter out (cl_world c1);
            c2 = c1\<lparr>cl_world := w\<rparr>
        in if \<not> entered then record_event (Printed [newline]) c2
           else print_pages out n (drop n ls) (print_lines (take n ls) c2))"
  by pat_completeness auto
termination by (relation "measure (\<lambda>(out, n, ls, c). length ls)") auto

declare print_pages.simps [simp del]

definition page :: "('s, 'w) outside \<Rightarrow> string \<Rightarrow> bool \<Rightarrow> ('s, 'w) cli \<Rightarrow> ('s, 'w) cli" where
  "page out s no_more c =
     (let rows = terminal_rows (ou_rows out); ls = text_lines s; n = rows - 1
      in if no_more \<or> length ls < rows then record_event (Printed s) c
         else print_pages out n (drop n ls) (print_lines (take n ls) c))"

definition emit :: "('s, 'w) outside \<Rightarrow> 's printed \<Rightarrow> modifier list \<Rightarrow> ('s, 'w) cli \<Rightarrow> ('s, 'w) cli option" where
  "emit out printed modifiers c =
     (let st = \<lparr>st_schema = ou_schema out, st_colour = cl_colour c, st_secrets = wants modifiers DisplaySecrets\<rparr>
      in map_option
           (\<lambda>shown.
              let s = pipe_apply (ou_regexes out) shown modifiers
              in if s = [] then c else page out s (wants modifiers NoMore) c)
           (if wants modifiers DisplayJson then Some (output_json (ou_printers out) st printed)
            else output_render (ou_printers out) st printed))"

definition fail :: "string \<Rightarrow> ('s, 'w) cli \<Rightarrow> outcome \<times> ('s, 'w) cli" where
  "fail e c = (CommandError, record_event (Complained e) c)"

definition run_line :: "('s, 'w) outside \<Rightarrow> string \<Rightarrow> ('s, 'w) cli \<Rightarrow> (outcome \<times> ('s, 'w) cli) option" where
  "run_line out typed c =
     (let ln = trim typed
      in if ln = [] then Some (OutOk, c)
         else
           (case question ln of
              Some asked \<Rightarrow> Some (OutOk, record_event (Printed (help_for out c asked)) c)
            | None \<Rightarrow>
                (case pipe_split (ou_regexes out) ln of
                   Inl e \<Rightarrow> Some (fail (show_pipe_error e) c)
                 | Inr (command, modifiers) \<Rightarrow>
                     (case dispatch out command c of
                        None \<Rightarrow> None
                      | Some (Inl e, c') \<Rightarrow> Some (fail (show_client_error e) c')
                      | Some (Inr (printed, result), c') \<Rightarrow>
                          map_option (Pair result) (emit out printed modifiers c')))))"

end
