(* ===== verification/Repl_Laws.thy ===== *)
theory Repl_Laws
  imports Repl Value_Laws
begin

text \<open>
  What a typed line can do: the shape of what the shell does outside itself for one command, and what
  follows for sessions, programs and the gate to a shell.
\<close>

section \<open>The shape of a command\<close>

inductive op_trace :: "value_env \<Rightarrow> 's event list \<Rightarrow> bool" for env where
  op_quiet: "op_trace env []"
| op_asked: "request_session req = None \<Longrightarrow> op_trace env [Asked req r]"
| op_ping: "is_destination env d \<Longrightarrow> op_trace env [RanProgram [''ping'', ''-c'', ''5'', d]]"
| op_traceroute: "is_destination env d \<Longrightarrow> op_trace env [RanProgram [''traceroute'', d]]"
| op_shell: "op_trace env (Asked (ShellSession True) (Inr RespOk) # Printed s # RanShell # map Complained es @
    [Asked (ShellSession False) r])"

definition is_commit :: "request \<Rightarrow> bool" where
  "is_commit req \<longleftrightarrow> (\<exists>i note minutes. req = Commit i note minutes)"

inductive conf_trace :: "session_id \<Rightarrow> bool \<Rightarrow> bool \<Rightarrow> 's event list \<Rightarrow> bool" for i discarding committing where
  conf_quiet: "conf_trace i discarding committing []"
| conf_asked: "request_session req \<in> {None, Some i} \<Longrightarrow> req \<noteq> SessionClose i \<Longrightarrow> is_commit req \<longrightarrow> committing \<Longrightarrow>
    conf_trace i discarding committing [Asked req r]"
| conf_show: "conf_trace i discarding committing [Asked (ShowCandidate i p) r, Asked (ShowRunning p) r']"
| conf_left: "conf_trace i discarding committing [Asked (Compare i) (Inr (RespChanges [])), Asked (SessionClose i) r]"
| conf_discard: "discarding \<Longrightarrow> conf_trace i discarding committing [Asked (SessionClose i) r]"

lemma not_commit [simp]:
  "\<not> is_commit (SessionClose i)" "\<not> is_commit (SetValue i p v)" "\<not> is_commit (DeleteNode i p v)"
  "\<not> is_commit (ShowCandidate i p)" "\<not> is_commit (ShowRunning p)" "\<not> is_commit (Compare i)"
  "\<not> is_commit (Confirm i)" "\<not> is_commit (Discard i)" "\<not> is_commit Save" "\<not> is_commit (Load i src)"
  "is_commit (Commit i note minutes)"
  by (simp_all add: is_commit_def)

text \<open>What a command leaves of the state: everything but the world, the trace and the prefix, or it enters
  or leaves configuration mode.\<close>

definition did :: "('s event list \<Rightarrow> bool) \<Rightarrow> ('s, 'w) cli \<Rightarrow> ('s, 'w) cli \<Rightarrow> bool" where
  "did shape c c' \<longleftrightarrow> (\<exists>es. cl_trace c' = cl_trace c @ es \<and> shape es)"

definition same_mode :: "('s, 'w) cli \<Rightarrow> ('s, 'w) cli \<Rightarrow> bool" where
  "same_mode c c' \<longleftrightarrow> cl_mode c' = cl_mode c \<and> cl_session c' = cl_session c"

lemma call_effect:
  assumes "call out req c = (r, c')"
  shows "cl_trace c' = cl_trace c @ [Asked req r]" "same_mode c c'"
  using assms by (auto simp: call_def record_event_def same_mode_def split: prod.splits)

lemma asking_cases:
  assumes "asking out req c k = (x, c')"
  obtains e where "call out req c = (Inl e, c')" "x = Inl e"
  | r c1 where "call out req c = (Inr r, c1)" "k r c1 = (x, c')"
  using assms by (auto simp: asking_def split: prod.splits sum.splits)

text \<open>A command that asks once and only looks at the answer.\<close>

lemma asking_once:
  assumes "asking out req c (\<lambda>r c. (f r, c)) = (x, c')" and "\<And>r. shape [Asked req r]"
  shows "did shape c c' \<and> same_mode c c'"
  using assms(1)
proof (cases rule: asking_cases)
  case (1 e)
  then show ?thesis using call_effect [OF 1(1)] assms(2) by (auto simp: did_def)
next
  case (2 r c1)
  then show ?thesis using call_effect [OF 2(1)] assms(2) by (auto simp: did_def)
qed

lemmas once_commands = expect_ok_def expect_config_def expect_commit_def compare_command_def

lemma expect_once:
  assumes "\<And>r. shape [Asked req r]"
  shows "expect_ok out req c = (x, c') \<Longrightarrow> did shape c c' \<and> same_mode c c'"
    and "expect_config out req c = (x, c') \<Longrightarrow> did shape c c' \<and> same_mode c c'"
    and "expect_commit out req c = (x, c') \<Longrightarrow> did shape c c' \<and> same_mode c c'"
  unfolding once_commands by (erule asking_once, rule assms)+

lemma quiet:
  assumes "(x, c) = (y, c')" and "shape []"
  shows "did shape c c' \<and> same_mode c c'"
  using assms by (simp add: did_def same_mode_def)

section \<open>Operational mode\<close>

lemma op_show_did:
  assumes "op_show_command out ws c = (x, c')"
  shows "did (op_trace env) c c' \<and> same_mode c c'"
proof -
  consider "ws = [''version'']" | "ws \<noteq> [''version'']" "ws = [''configuration''] \<or> ws = [''config''] \<or> ws = [''conf'']"
    | "ws = [''system'', ''commit-log'']" | q where "query_parse (tl ws) = Inr q" "hd ws = ''interfaces''" "ws \<noteq> []"
    | e where "query_parse (tl ws) = Inl e" "hd ws = ''interfaces''" "ws \<noteq> []"
    | "ws = [] \<or> hd ws \<noteq> ''interfaces''" "ws \<noteq> [''version'']" "ws \<notin> {[''configuration''], [''config''], [''conf'']}"
      "ws \<noteq> [''system'', ''commit-log'']"
    by (cases "query_parse (tl ws)") auto
  then show ?thesis
  proof cases
    case 1
    with assms show ?thesis by (simp add: op_show_command_def) (erule asking_once, simp add: op_asked)
  next
    case 2
    with assms show ?thesis
      by (simp add: op_show_command_def split: if_splits) (erule expect_once(2) [rotated], simp add: op_asked)
  next
    case 3
    with assms show ?thesis by (simp add: op_show_command_def) (erule asking_once, simp add: op_asked)
  next
    case 4
    with assms show ?thesis
      by (cases ws) (simp_all add: op_show_command_def, erule asking_once, simp add: op_asked)
  qed (use assms in \<open>auto simp: op_show_command_def did_def same_mode_def intro: op_quiet split: if_splits\<close>)
qed

lemma clear_did:
  assumes "clear_command out ws c = (x, c')"
  shows "did (op_trace env) c c' \<and> same_mode c c'"
proof (cases "clear_names ws")
  case (Inl e)
  then show ?thesis using assms by (auto simp: clear_command_def did_def same_mode_def intro: op_quiet)
next
  case (Inr names)
  with assms show ?thesis by (simp add: clear_command_def) (erule expect_once(1) [rotated], simp add: op_asked)
qed

lemma trace_or_ping_did:
  assumes "trace_or_ping out program ws c = (x, c')" and "program = ''ping'' \<or> program = ''traceroute''"
  shows "did (op_trace (ou_values out)) c c' \<and> same_mode c c'"
proof (cases "\<exists>d. ws = [d] \<and> is_destination (ou_values out) d")
  case True
  then obtain d where d: "ws = [d]" "is_destination (ou_values out) d" by blast
  let ?argv = "program # (if program = ''ping'' then [''-c'', ''5''] else []) @ [d]"
  obtain r c1 where r: "run_program out ?argv c = (r, c1)" by fastforce
  then have "cl_trace c1 = cl_trace c @ [RanProgram ?argv]" "same_mode c c1"
    by (auto simp: run_program_def record_event_def same_mode_def split: prod.splits)
  moreover have "op_trace (ou_values out) [RanProgram ?argv]"
    using assms(2) d(2) by (auto intro: op_ping op_traceroute)
  moreover have "c' = c1" using assms(1) d r by (auto simp: trace_or_ping_def split: sum.splits bool.splits)
  ultimately show ?thesis by (auto simp: did_def)
next
  case False
  then show ?thesis
    using assms(1) by (auto simp: trace_or_ping_def did_def same_mode_def intro: op_quiet split: list.splits if_splits)
qed

lemma shell_did:
  assumes "shell_command out c = (x, c')"
  shows "did (op_trace env) c c' \<and> same_mode c c'"
  using assms unfolding shell_command_def
proof (cases rule: asking_cases)
  case (1 e)
  then show ?thesis using call_effect [OF 1(1)] by (auto simp: did_def intro: op_asked)
next
  case (2 r c1)
  note first = call_effect [OF 2(1)]
  show ?thesis
  proof (cases "r = RespOk")
    case False
    then have "c' = c1" using 2(2) by (auto split: response.splits)
    then show ?thesis using first by (auto simp: did_def intro: op_asked)
  next
    case True
    let ?c2 = "record_event (Printed (''entering a shell; type 'operational' or exit to return'' @ [newline])) c1"
    obtain ran c3 where ran: "run_shell out ?c2 = (ran, c3)" by fastforce
    define c4 where "c4 = (case ran of Inr u \<Rightarrow> c3 | Inl e \<Rightarrow> record_event (Complained e) c3)"
    obtain es where c4: "cl_trace c4 = cl_trace c1 @ [Printed (''entering a shell; type 'operational' or exit to return'' @ [newline])] @
        [RanShell] @ map Complained es" "same_mode c1 c4"
    proof (cases ran)
      case (Inl e)
      then show ?thesis
        using ran that [of "[e]"] by (auto simp: c4_def run_shell_def record_event_def same_mode_def split: prod.splits)
    next
      case (Inr u)
      then show ?thesis
        using ran that [of "[]"] by (auto simp: c4_def run_shell_def record_event_def same_mode_def split: prod.splits)
    qed
    have "\<exists>r5. call out (ShellSession False) c4 = (r5, c')"
      using 2(2) True ran by (auto simp: c4_def asking_def Let_def split: prod.splits sum.splits)
    then obtain r5 where "call out (ShellSession False) c4 = (r5, c')" by blast
    note last = call_effect [OF this]
    have "call out (ShellSession True) c = (Inr RespOk, c1)" using 2(1) True by simp
    note first = call_effect [OF this]
    have "cl_trace c' = cl_trace c @ (Asked (ShellSession True) (Inr RespOk) #
        Printed (''entering a shell; type 'operational' or exit to return'' @ [newline]) # RanShell # map Complained es @
        [Asked (ShellSession False) r5])"
      using last(1) c4(1) first(1) by simp
    then show ?thesis
      using last(2) c4(2) first(2) op_shell unfolding did_def same_mode_def by metis
  qed
qed

lemma configure_did:
  assumes "configure_command out c = (x, c')"
  shows "did (op_trace env) c c' \<and>
    (same_mode c c' \<or> cl_mode c' = Configuration_Mode \<and> cl_session c' \<noteq> None)"
  using assms unfolding configure_command_def
proof (cases rule: asking_cases)
  case (1 e)
  then show ?thesis using call_effect [OF 1(1)] by (auto simp: did_def intro: op_asked)
next
  case (2 r c1)
  then show ?thesis
    using call_effect [OF 2(1)] by (auto simp: did_def intro!: op_asked split: response.splits)
qed

lemma operational_did:
  assumes "operational out verb ws c = (x, c')"
  shows "did (op_trace (ou_values out)) c c' \<and>
    (same_mode c c' \<or> cl_mode c' = Configuration_Mode \<and> cl_session c' \<noteq> None)"
proof -
  have still: "same_mode c c \<and> did (op_trace (ou_values out)) c c" by (auto simp: did_def same_mode_def intro: op_quiet)
  have "op_show_command out ws c = (x, c') \<or> configure_command out c = (x, c') \<or> clear_command out ws c = (x, c') \<or>
      shell_command out c = (x, c') \<or> trace_or_ping out ''ping'' ws c = (x, c') \<or>
      trace_or_ping out ''traceroute'' ws c = (x, c') \<or> c' = c"
    using assms unfolding operational_def by (auto split: if_splits)
  then show ?thesis
    by (elim disjE) (use still configure_did [of out c x c' "ou_values out"] in \<open>simp_all add: op_show_did clear_did shell_did
      trace_or_ping_did [of out \<open>''ping''\<close>] trace_or_ping_did [of out \<open>''traceroute''\<close>]\<close>)
qed

section \<open>Configuration mode\<close>

lemma once_conf:
  assumes "request_session req \<in> {None, Some i} \<and> req \<noteq> SessionClose i \<and> (is_commit req \<longrightarrow> k)"
  shows "expect_ok out req c = (x, c') \<Longrightarrow> did (conf_trace i d k) c c' \<and> same_mode c c'"
    and "expect_commit out req c = (x, c') \<Longrightarrow> did (conf_trace i d k) c c' \<and> same_mode c c'"
  by (erule expect_once [rotated], use assms in \<open>blast intro: conf_asked\<close>)+

lemma edit_did:
  assumes "edit_command out b i ws c = (x, c')"
  shows "did (conf_trace i d k) c c' \<and> same_mode c c'"
proof -
  obtain p v where "split_value (ou_schema out) (with_prefix c ws) = (p, v)" by fastforce
  then show ?thesis
    using assms once_conf(1) [of "SetValue i p v" i k out c x c' d] once_conf(1) [of "DeleteNode i p v" i k out c x c' d]
    by (cases b) (simp_all add: edit_command_def)
qed

lemma compare_did: "compare_command out i c = (x, c') \<Longrightarrow> did (conf_trace i d k) c c' \<and> same_mode c c'"
  unfolding compare_command_def by (erule asking_once) (simp add: conf_asked)

lemma nothing_did: "did (conf_trace i d k) c c \<and> same_mode c c"
  by (simp add: did_def same_mode_def conf_quiet)

lemma commit_did:
  assumes "commit_command out i ws c = (x, c')" and k
  shows "did (conf_trace i d k) c c' \<and> same_mode c c'"
proof (cases "commit_words ws None None")
  case (Inl e)
  then show ?thesis using assms nothing_did by (auto simp: commit_command_def)
next
  case (Inr nm)
  then show ?thesis
    using assms once_conf(2) [of "Commit i (fst nm) (snd nm)" i k out c x c' d] by (simp add: commit_command_def split: prod.splits)
qed

lemma rollback_did:
  assumes "rollback_command out i ws c = (x, c')"
  shows "did (conf_trace i d k) c c' \<and> same_mode c c'"
proof (cases "\<exists>w n. ws = [w] \<and> parse_unsigned 18446744073709551615 w = Some n")
  case True
  then obtain w n where "ws = [w]" "parse_unsigned 18446744073709551615 w = Some n" by blast
  then show ?thesis using assms once_conf(1) [of "Load i (LoadArchive n)" i k out c x c' d] by (simp add: rollback_command_def)
next
  case False
  then have "c' = c" using assms by (auto simp: rollback_command_def split: list.splits option.splits)
  then show ?thesis using nothing_did by simp
qed

lemma show_did:
  assumes "show_command out i ws c = (x, c')"
  shows "did (conf_trace i d k) c c' \<and> same_mode c c'"
  using assms unfolding show_command_def Let_def
proof (cases rule: asking_cases)
  case (1 e)
  then show ?thesis using call_effect [OF 1(1)] by (auto simp: did_def intro: conf_asked)
next
  case (2 r c1)
  note first = call_effect [OF 2(1)]
  show ?thesis
  proof (cases "\<exists>t. r = RespConfig t")
    case False
    then have "c' = c1" using 2(2) by (auto split: response.splits)
    then show ?thesis using first by (auto simp: did_def intro: conf_asked)
  next
    case True
    then have "\<exists>f. asking out (ShowRunning (with_prefix c ws)) c1 (\<lambda>r c. (f r, c)) = (x, c')" using 2(2) by auto
    then obtain f where "asking out (ShowRunning (with_prefix c ws)) c1 (\<lambda>r c. (f r, c)) = (x, c')" by blast
    then have "did (\<lambda>es. \<exists>r. es = [Asked (ShowRunning (with_prefix c ws)) r]) c1 c' \<and> same_mode c1 c'"
      by (rule asking_once) simp
    then show ?thesis
      using first by (auto simp: did_def same_mode_def intro: conf_show)
  qed
qed

lemma close_did:
  assumes "close_session out i c = (x, c')"
  shows "\<exists>r. cl_trace c' = cl_trace c @ [Asked (SessionClose i) r] \<and>
    (same_mode c c' \<or> cl_mode c' = Operational_Mode \<and> cl_session c' = None)"
  using assms unfolding close_session_def
proof (cases rule: asking_cases)
  case (1 e)
  then show ?thesis using call_effect [OF 1(1)] by auto
next
  case (2 r c1)
  then show ?thesis using call_effect [OF 2(1)] by auto
qed

lemma leave_did:
  assumes "leave_configuration out i ws c = (x, c')"
  shows "did (conf_trace i (ws \<noteq> [] \<and> hd ws = ''discard'') k) c c' \<and>
    (same_mode c c' \<or> cl_mode c' = Operational_Mode \<and> cl_session c' = None)"
proof (cases "ws \<noteq> [] \<and> hd ws = ''discard''")
  case True
  then have "close_session out i c = (x, c')" using assms by (simp add: leave_configuration_def)
  from close_did [OF this] show ?thesis using True by (auto simp: did_def intro: conf_discard)
next
  case False
  then have "asking out (Compare i) c (\<lambda>r c.
        (case r of
           RespChanges changes \<Rightarrow>
             if changes \<noteq> [] then
               (say (''there are '' @ show_nat (length changes) @ '' uncommitted changes.'' @ [newline] @
                  ''commit them, or `exit discard` to throw them away.'') ConfigError, c)
             else close_session out i c
         | other \<Rightarrow> (unexpected out other, c))) = (x, c')"
    using assms by (simp only: leave_configuration_def if_False)
  then show ?thesis
  proof (cases rule: asking_cases)
    case (1 e)
    then show ?thesis using call_effect [OF 1(1)] by (auto simp: did_def intro: conf_asked)
  next
    case (2 r c1)
    note first = call_effect [OF 2(1)]
    show ?thesis
    proof (cases "r = RespChanges []")
      case True
      then have "close_session out i c1 = (x, c')" using 2(2) by simp
      from close_did [OF this] obtain r2 where r2: "cl_trace c' = cl_trace c1 @ [Asked (SessionClose i) r2]"
        "same_mode c1 c' \<or> cl_mode c' = Operational_Mode \<and> cl_session c' = None" by blast
      have "cl_trace c' = cl_trace c @ [Asked (Compare i) (Inr (RespChanges [])), Asked (SessionClose i) r2]"
        using first(1) r2(1) True by simp
      then show ?thesis
        using first(2) r2(2) conf_left unfolding did_def same_mode_def by metis
    next
      case False
      then have "c' = c1" using 2(2) by (auto split: response.splits if_splits)
      then show ?thesis using first by (auto simp: did_def intro: conf_asked)
    qed
  qed
qed

lemma configuration_did:
  assumes "configuration out verb ws c = Some (x, c')" and "cl_session c = Some i"
  shows "did (conf_trace i (verb = ''exit'' \<and> ws \<noteq> [] \<and> hd ws = ''discard'') (verb = ''commit'')) c c' \<and>
    (same_mode c c' \<or> cl_mode c' = Operational_Mode \<and> cl_session c' = None)"
proof -
  let ?d = "verb = ''exit'' \<and> ws \<noteq> [] \<and> hd ws = ''discard''"
  have "edit_command out True i ws c = (x, c') \<or> edit_command out False i ws c = (x, c') \<or>
      show_command out i ws c = (x, c') \<or> compare_command out i c = (x, c') \<or> verb = ''commit'' \<and> commit_command out i ws c = (x, c') \<or>
      expect_commit out (Confirm i) c = (x, c') \<or> expect_ok out (Discard i) c = (x, c') \<or>
      expect_ok out Save c = (x, c') \<or> expect_ok out (Load i LoadSaved) c = (x, c') \<or>
      rollback_command out i ws c = (x, c') \<or> verb = ''exit'' \<and> leave_configuration out i ws c = (x, c') \<or>
      (\<exists>p. c' = c\<lparr>cl_prefix := p\<rparr>) \<or> c' = c"
    using assms unfolding configuration_def by (auto simp: Let_def split: if_splits)
  then show ?thesis
  proof (elim disjE)
    assume "\<exists>p. c' = c\<lparr>cl_prefix := p\<rparr>"
    then show ?thesis by (auto simp: did_def same_mode_def intro: conf_quiet)
  next
    assume "c' = c"
    then show ?thesis by (auto simp: did_def same_mode_def intro: conf_quiet)
  next
    assume "verb = ''exit'' \<and> leave_configuration out i ws c = (x, c')"
    then show ?thesis using leave_did [of out i ws c x c'] by simp
  next
    assume "verb = ''commit'' \<and> commit_command out i ws c = (x, c')"
    then show ?thesis using commit_did [of out i ws c x c' "verb = ''commit''"] by auto
  qed (simp_all add: edit_did show_did compare_did commit_did rollback_did
      once_conf(1) [of "Discard i" i "verb = ''commit''" out c x c' ?d] once_conf(1) [of Save i "verb = ''commit''" out c x c' ?d]
      once_conf(1) [of "Load i LoadSaved" i "verb = ''commit''" out c x c' ?d] once_conf(2) [of "Confirm i" i "verb = ''commit''" out c x c' ?d])
qed

section \<open>Printing\<close>

definition only_prints :: "'s event list \<Rightarrow> bool" where
  "only_prints es \<longleftrightarrow> (\<forall>e \<in> set es. (\<exists>s. e = Printed s) \<or> (\<exists>s. e = Complained s))"

lemma prints_step:
  "did only_prints c c1 \<and> same_mode c c1 \<Longrightarrow> did only_prints c1 c' \<and> same_mode c1 c' \<Longrightarrow>
     did only_prints c c' \<and> same_mode c c'"
  by (auto simp: did_def same_mode_def only_prints_def)

lemma prints_one: "did only_prints c (record_event (Printed s) c) \<and> same_mode c (record_event (Printed s) c)"
  by (simp add: did_def same_mode_def record_event_def only_prints_def)

lemma print_lines_did: "did only_prints c (print_lines ls c) \<and> same_mode c (print_lines ls c)"
proof (induction ls arbitrary: c)
  case (Cons l ls)
  show ?case using prints_step [OF prints_one Cons] by simp
qed (simp add: did_def same_mode_def only_prints_def)

lemma world_did: "did only_prints c (c\<lparr>cl_world := w\<rparr>) \<and> same_mode c (c\<lparr>cl_world := w\<rparr>)"
  by (simp add: did_def same_mode_def only_prints_def)

lemma print_pages_did: "did only_prints c (print_pages out n ls c) \<and> same_mode c (print_pages out n ls c)"
proof (induction out n ls c rule: print_pages.induct)
  case (1 out n ls c)
  show ?case
  proof (cases "ls = [] \<or> n = 0")
    case True
    then show ?thesis by (simp add: print_pages.simps did_def same_mode_def only_prints_def)
  next
    case False
    let ?c1 = "record_event (Printed ''-- more -- '') c"
    obtain entered w where w: "ou_enter out (cl_world ?c1) = (entered, w)" by fastforce
    let ?c2 = "?c1\<lparr>cl_world := w\<rparr>"
    have two: "did only_prints c ?c2 \<and> same_mode c ?c2" by (rule prints_step [OF prints_one world_did])
    show ?thesis
    proof (cases entered)
      case True
      then have "did only_prints ?c2 (print_pages out n (drop n ls) (print_lines (take n ls) ?c2)) \<and>
          same_mode ?c2 (print_pages out n (drop n ls) (print_lines (take n ls) ?c2))"
        using 1 [OF False refl w [symmetric] refl] prints_step [OF print_lines_did] by blast
      then show ?thesis
        using False True w prints_step [OF two] by (simp add: print_pages.simps [of out n ls c] Let_def)
    next
      case False
      then show ?thesis
        using \<open>\<not> (ls = [] \<or> n = 0)\<close> w prints_step [OF two prints_one]
        by (simp add: print_pages.simps [of out n ls c] Let_def)
    qed
  qed
qed

lemma page_did: "did only_prints c (page out s b c) \<and> same_mode c (page out s b c)"
proof -
  let ?n = "terminal_rows (ou_rows out) - 1" and ?ls = "text_lines s"
  have "did only_prints c (print_pages out ?n (drop ?n ?ls) (print_lines (take ?n ?ls) c)) \<and>
      same_mode c (print_pages out ?n (drop ?n ?ls) (print_lines (take ?n ?ls) c))"
    by (rule prints_step [OF print_lines_did print_pages_did])
  then show ?thesis using prints_one [of c s] by (simp add: page_def Let_def)
qed

lemma emit_did:
  assumes "emit out printed ms c = Some c'"
  shows "did only_prints c c' \<and> same_mode c c'"
proof -
  obtain s b where "c' = c \<or> c' = page out s b c" using assms by (auto simp: emit_def Let_def split: if_splits)
  moreover have "did only_prints c c \<and> same_mode c c" by (simp add: did_def same_mode_def only_prints_def)
  ultimately show ?thesis using page_did by auto
qed

section \<open>A line\<close>

text \<open>The command and its words, as \<open>run_line\<close> reads them.\<close>

definition line_words :: "regexes \<Rightarrow> string \<Rightarrow> string list" where
  "line_words re typed =
     (if trim typed = [] \<or> question (trim typed) \<noteq> None then []
      else case pipe_split re (trim typed) of
             Inl e \<Rightarrow> []
           | Inr (command, ms) \<Rightarrow> (case path_parse command of Inl e \<Rightarrow> [] | Inr ws \<Rightarrow> ws))"

definition ready :: "('s, 'w) cli \<Rightarrow> bool" where
  "ready c \<longleftrightarrow> (cl_mode c = Configuration_Mode \<longleftrightarrow> cl_session c \<noteq> None)"

lemma ready_new: "ready (cli_new w user colour)"
  by (simp add: ready_def cli_new_def)

text \<open>What one command does outside, in either mode.\<close>

definition command_shape :: "('s, 'w) outside \<Rightarrow> ('s, 'w) cli \<Rightarrow> string list \<Rightarrow> 's event list \<Rightarrow> bool" where
  "command_shape out c ws es \<longleftrightarrow>
     (case cl_session c of
        None \<Rightarrow> op_trace (ou_values out) es
      | Some i \<Rightarrow> conf_trace i (\<exists>others. ws = ''exit'' # ''discard'' # others) (\<exists>others. ws = ''commit'' # others) es)"

definition next_mode :: "('s, 'w) cli \<Rightarrow> ('s, 'w) cli \<Rightarrow> bool" where
  "next_mode c c' \<longleftrightarrow> same_mode c c' \<or> ready c' \<and> cl_mode c' \<noteq> cl_mode c"

lemma shape_quiet: "command_shape out c ws []"
  by (simp add: command_shape_def op_quiet conf_quiet split: option.split)

lemma dispatch_did:
  assumes "dispatch out command c = Some (x, c')" and "ready c"
  shows "did (command_shape out c (case path_parse command of Inl e \<Rightarrow> [] | Inr ws \<Rightarrow> ws)) c c' \<and> next_mode c c'"
proof (cases "path_parse command")
  case (Inl e)
  then show ?thesis
    using assms(1) by (auto simp: dispatch_def did_def next_mode_def same_mode_def intro: shape_quiet)
next
  case (Inr ws)
  show ?thesis
  proof (cases ws)
    case Nil
    then show ?thesis
      using assms(1) Inr by (auto simp: dispatch_def did_def next_mode_def same_mode_def intro: shape_quiet)
  next
    case (Cons verb others)
    show ?thesis
    proof (cases "cl_session c")
      case None
      then have "cl_mode c = Operational_Mode" using assms(2) by (cases "cl_mode c") (auto simp: ready_def)
      then have "operational out verb others c = (x, c')" using assms(1) Inr Cons by (simp add: dispatch_def)
      from operational_did [OF this] show ?thesis
        using None Inr Cons \<open>cl_mode c = Operational_Mode\<close> by (auto simp: command_shape_def [abs_def] next_mode_def ready_def)
    next
      case (Some i)
      then have m: "cl_mode c = Configuration_Mode" using assms(2) by (auto simp: ready_def)
      then have "configuration out verb others c = Some (x, c')" using assms(1) Inr Cons by (simp add: dispatch_def)
      moreover have "(verb = ''exit'' \<and> others \<noteq> [] \<and> hd others = ''discard'') \<longleftrightarrow>
          (\<exists>os. verb # others = ''exit'' # ''discard'' # os)"
        by (cases others) auto
      moreover note configuration_did [OF calculation(1) Some]
      ultimately have "did (command_shape out c (verb # others)) c c'"
        "same_mode c c' \<or> cl_mode c' = Operational_Mode \<and> cl_session c' = None"
        using Some by (simp_all add: command_shape_def [abs_def])
      then show ?thesis using Inr Cons m by (auto simp: next_mode_def ready_def)
    qed
  qed
qed

lemma dispatch_total: "ready c \<Longrightarrow> dispatch out command c \<noteq> None"
  by (auto simp: dispatch_def configuration_def ready_def Let_def split: sum.split list.split mode.split option.split)

lemma run_line_did:
  assumes "run_line out typed c = Some (o', c')" and "ready c"
  obtains es ps where "cl_trace c' = cl_trace c @ es @ ps" "command_shape out c (line_words (ou_regexes out) typed) es"
    "only_prints ps" "next_mode c c'"
proof -
  let ?ln = "trim typed"
  note result = that
  have none: thesis if "cl_trace c' = cl_trace c @ ps" "only_prints ps" "same_mode c c'" for ps
    using that shape_quiet [of out c] by (intro result [of "[]" ps]) (auto simp: next_mode_def)
  show thesis
  proof (cases "?ln = [] \<or> question ?ln \<noteq> None \<or> (\<exists>e. pipe_split (ou_regexes out) ?ln = Inl e)")
    case True
    then obtain ps where "cl_trace c' = cl_trace c @ ps" "only_prints ps" "same_mode c c'"
      using assms(1) by (auto simp: run_line_def Let_def fail_def record_event_def only_prints_def same_mode_def
          split: if_splits option.splits)
    then show thesis by (rule none)
  next
    case False
    then obtain command ms where cm: "pipe_split (ou_regexes out) ?ln = Inr (command, ms)"
      by (cases "pipe_split (ou_regexes out) ?ln") auto
    have ws: "line_words (ou_regexes out) typed = (case path_parse command of Inl e \<Rightarrow> [] | Inr ws \<Rightarrow> ws)"
      using False cm by (simp add: line_words_def)
    obtain x c1 where x: "dispatch out command c = Some (x, c1)"
      using dispatch_total [OF assms(2)] by (metis not_None_eq prod.exhaust)
    from dispatch_did [OF x assms(2)] obtain es where es: "cl_trace c1 = cl_trace c @ es"
      "command_shape out c (line_words (ou_regexes out) typed) es" "next_mode c c1"
      by (auto simp: did_def ws)
    have "did only_prints c1 c' \<and> same_mode c1 c'"
    proof (cases x)
      case (Inl e)
      then show ?thesis
        using assms(1) False cm x
        by (auto simp: run_line_def Let_def fail_def record_event_def only_prints_def same_mode_def did_def)
    next
      case (Inr pr)
      then show ?thesis
        using assms(1) False cm x by (intro emit_did [of out "fst pr" ms c1 c']) (cases pr; auto simp: run_line_def Let_def)
    qed
    then obtain ps where "cl_trace c' = cl_trace c1 @ ps" "only_prints ps" "same_mode c1 c'" by (auto simp: did_def)
    then show thesis
      using es by (intro result [of es ps]) (auto simp: next_mode_def same_mode_def ready_def)
  qed
qed

section \<open>What an operator can make the shell do\<close>

lemma trace_shape:
  assumes "run_line out typed c = Some (o', c')" and "ready c"
  shows "\<exists>es ps. drop (length (cl_trace c)) (cl_trace c') = es @ ps \<and> only_prints ps \<and>
    command_shape out c (line_words (ou_regexes out) typed) es"
  using assms by (rule run_line_did) auto

lemma hostname_first: "is_hostname v \<Longrightarrow> \<not> starts_with v ''-''"
proof
  assume v: "is_hostname v" and "starts_with v ''-''"
  then obtain t where "v = CHR ''-'' # t" by (auto simp: starts_with_iff)
  moreover have "list_all hostname_label (split_on (CHR ''.'') v)" using v by (auto simp: is_hostname_def split: if_splits)
  ultimately show False by (cases "split_on (CHR ''.'') t") (auto simp: hostname_label_def)
qed

definition destination_char :: "char \<Rightarrow> bool" where
  "destination_char c \<longleftrightarrow> is_ascii_alphanumeric c \<or> c \<in> set ''-.:''"

lemma hostname_chars: "is_hostname v \<Longrightarrow> list_all destination_char v"
proof -
  assume "is_hostname v"
  then have "list_all hostname_label (split_on (CHR ''.'') v)" by (auto simp: is_hostname_def split: if_splits)
  then have "\<forall>l \<in> set (split_on (CHR ''.'') v). list_all destination_char l"
    by (auto simp: list_all_iff hostname_label_def destination_char_def)
  then show ?thesis using list_all_split [of "CHR ''.''" v destination_char] by (simp add: destination_char_def)
qed

lemma destination_safe:
  assumes "is_destination env d"
  shows "list_all destination_char d \<and> \<not> starts_with d ''-''"
proof -
  consider a where "parse_ip d = Some a" | "is_hostname d"
    using assms by (auto simp: is_destination_def spec_check_def spec_new_def split: sum.splits)
  then show ?thesis
  proof cases
    case (1 a)
    then have addr: "list_all addr_char d" by (rule parse_ip_chars(3))
    then have "list_all destination_char d"
      by (auto simp: list_all_iff addr_char_def destination_char_def char_class)
    moreover have "\<not> addr_char (CHR ''-'')" by (simp add: addr_char_def char_class code_def)
    ultimately show ?thesis using addr by (auto simp: starts_with_iff)
  next
    case 2
    then show ?thesis using hostname_chars hostname_first by blast
  qed
qed

text \<open>
  C38. Nothing an operator types reaches a program or a shell but what is meant to: one line starts at most
  \<open>ping\<close> or \<open>traceroute\<close>, with fixed options and one argument, which is made of letters, digits, hyphens, dots
  and colons and cannot be taken for an option; and a shell only outside configuration mode, after the
  daemon has agreed to it.
\<close>

theorem no_shell_escape:
  assumes "run_line out typed c = Some (o', c')" and "ready c"
    and es: "es = drop (length (cl_trace c)) (cl_trace c')"
  shows "(\<forall>argv. RanProgram argv \<in> set es \<longrightarrow> cl_mode c = Operational_Mode \<and>
      (\<exists>d. (argv = [''ping'', ''-c'', ''5'', d] \<or> argv = [''traceroute'', d]) \<and> list_all destination_char d \<and>
        \<not> starts_with d ''-'')) \<and>
    (RanShell \<in> set es \<longrightarrow> cl_mode c = Operational_Mode \<and>
      (\<exists>es1 es2. es = es1 @ RanShell # es2 \<and> Asked (ShellSession True) (Inr RespOk) \<in> set es1 \<and> RanShell \<notin> set es2))"
proof -
  obtain es0 ps where split: "es = es0 @ ps" "only_prints ps"
    and shape: "command_shape out c (line_words (ou_regexes out) typed) es0"
    using trace_shape [OF assms(1,2)] es by auto
  have ps: "RanProgram argv \<notin> set ps" "RanShell \<notin> set ps" for argv
    using split(2) by (auto simp: only_prints_def)
  show ?thesis
  proof (cases "cl_session c")
    case None
    then have m: "cl_mode c = Operational_Mode" using assms(2) by (cases "cl_mode c") (auto simp: ready_def)
    have "op_trace (ou_values out) es0" using shape None by (simp add: command_shape_def)
    then show ?thesis
    proof cases
      case (op_ping d)
      then show ?thesis using split ps m destination_safe by auto
    next
      case (op_traceroute d)
      then show ?thesis using split ps m destination_safe by auto
    next
      case (op_shell s errs r)
      have "es = [Asked (ShellSession True) (Inr RespOk), Printed s] @ RanShell # (map Complained errs @ [Asked (ShellSession False) r] @ ps)"
        using split op_shell by simp
      moreover have "RanShell \<notin> set (map Complained errs @ [Asked (ShellSession False) r] @ ps)" using ps by auto
      moreover have "RanProgram argv \<notin> set es" for argv using split op_shell ps by auto
      ultimately show ?thesis using m by (metis list.set_intros(1))
    qed (use split ps in auto)
  next
    case (Some i)
    then have "conf_trace i (\<exists>os. line_words (ou_regexes out) typed = ''exit'' # ''discard'' # os)
        (\<exists>os. line_words (ou_regexes out) typed = ''commit'' # os) es0"
      using shape by (simp add: command_shape_def)
    then have "RanProgram argv \<notin> set es" "RanShell \<notin> set es" for argv
      using split ps by (cases; auto)+
    then show ?thesis by blast
  qed
qed

text \<open>
  C39. The session of the shell. However many lines are typed, being in configuration mode and holding a
  session are one thing, so the code's assumption that the mode has a session is never wrong; every
  request that names a session names the one held; and a session is closed by \<open>exit discard\<close>, or by an
  \<open>exit\<close> whose question for uncommitted changes the daemon has just answered with none.
\<close>

theorem session_kept:
  assumes "run_line out typed c = Some (o', c')" and "ready c"
    and es: "es = drop (length (cl_trace c)) (cl_trace c')"
  shows "ready c' \<and>
    (cl_session c' \<noteq> cl_session c \<longrightarrow> cl_session c = None \<or> cl_session c' = None) \<and>
    (\<forall>req r i. Asked req r \<in> set es \<and> request_session req = Some i \<longrightarrow> cl_session c = Some i) \<and>
    (\<forall>i r. Asked (SessionClose i) r \<in> set es \<longrightarrow>
       (\<exists>others. line_words (ou_regexes out) typed = ''exit'' # ''discard'' # others) \<or>
       (\<exists>es1 es2. es = es1 @ Asked (Compare i) (Inr (RespChanges [])) # Asked (SessionClose i) r # es2))"
proof -
  obtain es0 ps where split: "es = es0 @ ps" "only_prints ps"
    and shape: "command_shape out c (line_words (ou_regexes out) typed) es0"
    using trace_shape [OF assms(1,2)] es by auto
  have ps: "Asked req r \<notin> set ps" for req r using split(2) by (auto simp: only_prints_def)
  have mode: "ready c'" "cl_session c' \<noteq> cl_session c \<longrightarrow> cl_session c = None \<or> cl_session c' = None"
    using assms(1,2) by (rule run_line_did; auto simp: next_mode_def same_mode_def ready_def;
        metis mode.exhaust)+
  show ?thesis
  proof (cases "cl_session c")
    case None
    then have "op_trace (ou_values out) es0" using shape by (simp add: command_shape_def)
    then have "\<forall>req r. Asked req r \<in> set es \<longrightarrow> request_session req = None"
      using split ps by cases auto
    then show ?thesis using mode by fastforce
  next
    case (Some i)
    then have "conf_trace i (\<exists>os. line_words (ou_regexes out) typed = ''exit'' # ''discard'' # os)
        (\<exists>os. line_words (ou_regexes out) typed = ''commit'' # os) es0"
      using shape by (simp add: command_shape_def)
    then show ?thesis
    proof cases
      case (conf_left r)
      then have "es = [] @ Asked (Compare i) (Inr (RespChanges [])) # Asked (SessionClose i) r # ps" using split by simp
      moreover from this have "\<forall>req r'. Asked req r' \<in> set es \<longrightarrow> req = Compare i \<or> req = SessionClose i \<and> r' = r"
        using ps by auto
      ultimately have "\<forall>req r' j. Asked req r' \<in> set es \<and> request_session req = Some j \<longrightarrow> j = i"
        "\<forall>j r'. Asked (SessionClose j) r' \<in> set es \<longrightarrow>
          (\<exists>es1 es2. es = es1 @ Asked (Compare j) (Inr (RespChanges [])) # Asked (SessionClose j) r' # es2)"
        by fastforce+
      then show ?thesis using mode Some by simp
    qed (use mode Some split ps in auto)
  qed
qed

end
