(* ===== verification/Cli_Main.thy ===== *)
theory Cli_Main
  imports Repl_Laws
begin

text \<open>
  \<open>src/nightshade-cli/src/main.rs\<close>: the options, a single command, a batch file, the interactive loop and
  the way out of a login shell that cannot start. The line editor is a list of the signals it returns.
\<close>

text \<open>The last normal component of a path.\<close>

definition path_file_name :: "string \<Rightarrow> string option" where
  "path_file_name p =
     (let parts = filter (\<lambda>s. s \<noteq> [] \<and> s \<noteq> ''.'') (split_on (CHR ''/'') p)
      in if parts = [] \<or> last parts = ''..'' then None else Some (last parts))"

definition argv0_is_login_shell :: "string \<Rightarrow> bool" where
  "argv0_is_login_shell argv0 \<longleftrightarrow>
     starts_with argv0 ''-'' \<or> (case path_file_name argv0 of Some name \<Rightarrow> starts_with name ''-'' | None \<Rightarrow> False)"

section \<open>One command, and a file of them\<close>

definition one_shot :: "('s, 'w) outside \<Rightarrow> string \<Rightarrow> bool \<Rightarrow> ('s, 'w) cli \<Rightarrow> (outcome \<times> ('s, 'w) cli) option" where
  "one_shot out command json c =
     run_line out
       (if json \<and> \<not> contains command ''| display'' then command @ '' | display json'' else command) (refresh out c)"

text \<open>The loop of \<open>batch\<close>: the lines with their numbers. The result is the outcome of the line that failed.\<close>

fun batch_lines ::
  "('s, 'w) outside \<Rightarrow> string \<Rightarrow> nat \<Rightarrow> string list \<Rightarrow> ('s, 'w) cli \<Rightarrow> (outcome option \<times> ('s, 'w) cli) option" where
  "batch_lines out name number [] c = Some (None, c)"
| "batch_lines out name number (l # ls) c =
     (let ln = trim l
      in if ln = [] \<or> starts_with ln ''#'' then batch_lines out name (number + 1) ls c
         else
           (case run_line out ln (refresh out c) of
              None \<Rightarrow> None
            | Some (result, c1) \<Rightarrow>
                if result = OutOk then batch_lines out name (number + 1) ls c1
                else
                  let c2 = record_event (Complained (''ns: '' @ name @ '':'' @ show_nat (number + 1) @ '': `'' @ ln @
                    ''` failed; nothing has been committed'')) c1
                  in map_option (\<lambda>(_, c3). (Some result, c3)) (run_line out ''exit discard'' c2)))"

definition batch_commit :: "('s, 'w) outside \<Rightarrow> ('s, 'w) cli \<Rightarrow> (outcome \<times> ('s, 'w) cli) option" where
  "batch_commit out c =
     (case run_line out ''commit'' (refresh out c) of
        None \<Rightarrow> None
      | Some (result, c1) \<Rightarrow>
          if result \<noteq> OutOk then map_option (\<lambda>(_, c2). (result, c2)) (run_line out ''exit discard'' c1)
          else map_option (\<lambda>(_, c2). (OutOk, c2)) (run_line out ''exit'' c1))"

definition batch ::
  "('s, 'w) outside \<Rightarrow> string \<Rightarrow> string + string \<Rightarrow> ('s, 'w) cli \<Rightarrow> (outcome \<times> ('s, 'w) cli) option" where
  "batch out name contents c =
     (case contents of
        Inl e \<Rightarrow> Some (CommandError, record_event (Complained (''ns: '' @ name @ '': '' @ e)) c)
      | Inr script \<Rightarrow>
          (case run_line out ''configure'' (refresh out c) of
             None \<Rightarrow> None
           | Some (result, c1) \<Rightarrow>
               if result \<noteq> OutOk then Some (CommandError, c1)
               else
                 (case batch_lines out name 0 (text_lines script) c1 of
                    None \<Rightarrow> None
                  | Some (Some failed, c2) \<Rightarrow> Some (failed, c2)
                  | Some (None, c2) \<Rightarrow> batch_commit out c2)))"

section \<open>The interactive loop\<close>

datatype signal = Success string | CtrlC | CtrlD | HostCommand string | OtherSignal | EditorError string

text \<open>\<open>Inl\<close>: the signals ran out and the loop waits for the next one; \<open>Inr\<close>: it has ended.\<close>

fun interactive_loop ::
  "('s, 'w) outside \<Rightarrow> signal list \<Rightarrow> ('s, 'w) cli \<Rightarrow> ((unit + outcome) \<times> ('s, 'w) cli) option" where
  "interactive_loop out [] c = Some (Inl (), refresh out c)"
| "interactive_loop out (sig # sigs) c =
     (let c1 = refresh out c
      in case sig of
           Success ln \<Rightarrow>
             (case run_line out ln c1 of
                None \<Rightarrow> None
              | Some (result, c2) \<Rightarrow> if result = Leave then Some (Inr OutOk, c2) else interactive_loop out sigs c2)
         | HostCommand ln \<Rightarrow>
             (case run_line out ln c1 of
                None \<Rightarrow> None
              | Some (result, c2) \<Rightarrow> if result = Leave then Some (Inr OutOk, c2) else interactive_loop out sigs c2)
         | CtrlC \<Rightarrow> interactive_loop out sigs c1
         | CtrlD \<Rightarrow>
             if cl_mode c1 = Configuration_Mode then
               (case run_line out ''exit'' c1 of
                  None \<Rightarrow> None
                | Some (result, c2) \<Rightarrow> interactive_loop out sigs c2)
             else Some (Inr OutOk, c1)
         | OtherSignal \<Rightarrow> interactive_loop out sigs c1
         | EditorError e \<Rightarrow> Some (Inr CommandError, record_event (Complained (''ns: '' @ e)) c1))"

text \<open>What is printed before the first prompt when the machine came up on its defaults.\<close>

definition warn_if_boot_failed :: "string option \<Rightarrow> string \<Rightarrow> ('s, 'w) cli \<Rightarrow> ('s, 'w) cli" where
  "warn_if_boot_failed reason config_boot c =
     (case reason of
        None \<Rightarrow> c
      | Some r \<Rightarrow> record_event (Complained
          (''WARNING: this system started with its DEFAULT configuration.'' @ [newline] @ trim_end r @ [newline] @
           [newline] @ ''The saved configuration is still in '' @ config_boot @ ''. Fix it and `load`,'' @ [newline] @
           ''or configure the system and `commit`.'' @ [newline])) c)"

definition interactive ::
  "('s, 'w) outside \<Rightarrow> string \<Rightarrow> string option \<Rightarrow> string \<Rightarrow> signal list \<Rightarrow> ('s, 'w) cli \<Rightarrow>
     ((unit + outcome) \<times> ('s, 'w) cli) option" where
  "interactive out ver reason config_boot sigs c =
     interactive_loop out sigs
       (warn_if_boot_failed reason config_boot (record_event (Printed (''Nightshade '' @ ver @ [newline, newline])) c))"

section \<open>Options\<close>

datatype invocation = UsageError string | PrintVersion | PrintUsage | Start "string option" "string option" bool

text \<open>The loop over the arguments, with the command, the file and \<open>--json\<close> seen so far.\<close>

fun parse_args :: "string list \<Rightarrow> string option \<Rightarrow> string option \<Rightarrow> bool \<Rightarrow> invocation" where
  "parse_args [] command script json = Start command script json"
| "parse_args [a] command script json =
     (if a = ''-c'' then UsageError ''-c needs a command''
      else if a = ''-f'' then UsageError ''-f needs a file''
      else if a = ''--json'' then Start command script True
      else if a = ''--version'' then PrintVersion
      else if a = ''-h'' \<or> a = ''--help'' then PrintUsage
      else UsageError (''`'' @ a @ ''` is not an option''))"
| "parse_args (a # b # args) command script json =
     (if a = ''-c'' then parse_args args (Some b) script json
      else if a = ''-f'' then parse_args args command (Some b) json
      else if a = ''--json'' then parse_args (b # args) command script True
      else if a = ''--version'' then PrintVersion
      else if a = ''-h'' \<or> a = ''--help'' then PrintUsage
      else UsageError (''`'' @ a @ ''` is not an option''))"

section \<open>A batch is committed whole or not at all\<close>

definition commits :: "'s event \<Rightarrow> bool" where
  "commits e \<longleftrightarrow> (\<exists>i note minutes generation changes within.
     e = Asked (Commit i note minutes) (Inr (Committed generation changes within)))"

definition asks_commit :: "'s event \<Rightarrow> bool" where
  "asks_commit e \<longleftrightarrow> (\<exists>i note minutes r. e = Asked (Commit i note minutes) r)"

lemma commits_asks: "commits e \<Longrightarrow> asks_commit e"
  by (auto simp: commits_def asks_commit_def)

lemma op_trace_no_commit: "op_trace env es \<Longrightarrow> e \<in> set es \<Longrightarrow> \<not> asks_commit e"
  by (induction rule: op_trace.induct) (auto simp: asks_commit_def)

lemma conf_trace_no_commit: "conf_trace i d k es \<Longrightarrow> e \<in> set es \<Longrightarrow> asks_commit e \<Longrightarrow> k"
  by (induction rule: conf_trace.induct) (auto simp: asks_commit_def)

lemma prints_no_commit: "only_prints es \<Longrightarrow> e \<in> set es \<Longrightarrow> \<not> asks_commit e"
  by (auto simp: only_prints_def asks_commit_def)

text \<open>A stretch of the run in which no commit is asked for.\<close>

definition uncommitted :: "('s, 'w) cli \<Rightarrow> ('s, 'w) cli \<Rightarrow> bool" where
  "uncommitted c c' \<longleftrightarrow> (\<exists>es. cl_trace c' = cl_trace c @ es \<and> (\<forall>e \<in> set es. \<not> asks_commit e))"

lemma uncommitted_no:
  "uncommitted c c' \<Longrightarrow> \<exists>es. cl_trace c' = cl_trace c @ es \<and> (\<forall>e \<in> set es. \<not> asks_commit e \<and> \<not> commits e)"
  unfolding uncommitted_def using commits_asks by blast

lemma uncommitted_trans: "uncommitted c c1 \<Longrightarrow> uncommitted c1 c' \<Longrightarrow> uncommitted c c'"
  by (force simp: uncommitted_def)

lemma uncommitted_refl: "uncommitted c c"
  by (simp add: uncommitted_def)

lemma uncommitted_complaint: "uncommitted c (record_event (Complained s) c)"
  by (simp add: uncommitted_def record_event_def asks_commit_def)

lemma call_uncommitted: "call out req c = (r, c') \<Longrightarrow> \<not> is_commit req \<Longrightarrow> uncommitted c c'"
  using call_effect(1) [of out req c r c'] by (auto simp: uncommitted_def asks_commit_def is_commit_def)

lemma refresh_effect: "uncommitted c (refresh out c) \<and> same_mode c (refresh out c)"
proof -
  have a: "uncommitted c (learn_host out c) \<and> same_mode c (learn_host out c)" for c
  proof -
    obtain r c1 where r: "call out (ShowRunning path_root) c = (r, c1)" by fastforce
    have "\<exists>h. learn_host out c = c1\<lparr>cl_hostname := h\<rparr>"
      using r by (auto simp: learn_host_def split: sum.splits response.splits option.splits intro: exI [of _ "cl_hostname c1"])
    then show ?thesis
      using call_uncommitted [OF r] call_effect(2) [OF r] by (auto simp: uncommitted_def same_mode_def)
  qed
  have b: "uncommitted c (snd (fetch_candidate out c)) \<and> same_mode c (snd (fetch_candidate out c))" for c
  proof (cases "cl_session c")
    case None
    then show ?thesis by (simp add: fetch_candidate_def uncommitted_refl same_mode_def)
  next
    case (Some i)
    obtain r c1 where r: "call out (ShowCandidate i path_root) c = (r, c1)" by fastforce
    have "snd (fetch_candidate out c) = c1"
      using r Some by (auto simp: fetch_candidate_def split: sum.splits response.splits)
    then show ?thesis using call_uncommitted [OF r] call_effect(2) [OF r] by simp
  qed
  let ?c1 = "snd (fetch_candidate out (learn_host out c))"
  have "uncommitted c ?c1" using uncommitted_trans a [of c] b [of "learn_host out c"] by blast
  moreover have "same_mode c ?c1" using a [of c] b [of "learn_host out c"] by (simp add: same_mode_def)
  ultimately show ?thesis
    by (cases "fetch_candidate out (learn_host out c)") (simp add: refresh_def uncommitted_def same_mode_def)
qed

lemma refresh_ready: "ready c \<Longrightarrow> ready (refresh out c)"
  using refresh_effect [of c out] by (simp add: ready_def same_mode_def)

lemma run_line_ready: "run_line out typed c = Some (o', c') \<Longrightarrow> ready c \<Longrightarrow> ready c'"
  by (erule run_line_did) (auto simp: next_mode_def same_mode_def ready_def)

lemma run_line_uncommitted:
  assumes "run_line out typed c = Some (o', c')" and "ready c"
    and "\<And>ws. line_words (ou_regexes out) typed \<noteq> ''commit'' # ws"
  shows "uncommitted c c'"
  using assms(1,2)
proof (rule run_line_did)
  fix es ps
  assume t: "cl_trace c' = cl_trace c @ es @ ps" and p: "only_prints ps"
    and s: "command_shape out c (line_words (ou_regexes out) typed) es"
  have "\<not> asks_commit e" if "e \<in> set es" for e
    using s assms(3) op_trace_no_commit [of "ou_values out" es e] conf_trace_no_commit that
    by (auto simp: command_shape_def split: option.splits)
  then show ?thesis using t prints_no_commit [OF p] by (auto simp: uncommitted_def)
qed

lemma batch_lines_failed: "batch_lines out name k ls c = Some (Some failed, c') \<Longrightarrow> failed \<noteq> OutOk"
proof (induction ls arbitrary: k c)
  case (Cons l ls)
  show ?case
  proof (cases "trim l = [] \<or> starts_with (trim l) ''#''")
    case True
    then show ?thesis using Cons.IH [of "Suc k" c] Cons.prems by (simp add: Let_def)
  next
    case False
    then obtain result c1 where r: "run_line out (trim l) (refresh out c) = Some (result, c1)"
      using Cons.prems by (auto simp: Let_def split: option.splits)
    then show ?thesis
      using False Cons.IH [of "Suc k" c1] Cons.prems by (cases "result = OutOk") (auto simp: Let_def)
  qed
qed simp

lemma batch_lines_uncommitted:
  assumes "batch_lines out name k ls c = Some (res, c')" and "ready c"
    and "\<And>l ws. l \<in> set ls \<Longrightarrow> line_words (ou_regexes out) (trim l) \<noteq> ''commit'' # ws"
    and "\<And>ws. line_words (ou_regexes out) ''exit discard'' \<noteq> ''commit'' # ws"
  shows "uncommitted c c' \<and> (res = None \<longrightarrow> ready c')"
  using assms
proof (induction out name k ls c rule: batch_lines.induct)
  case (2 out name k l ls c)
  show ?case
  proof (cases "trim l = [] \<or> starts_with (trim l) ''#''")
    case True
    then show ?thesis using 2(1) [OF refl True] 2(3-) by (simp add: Let_def)
  next
    case False
    then obtain result c1 where r: "run_line out (trim l) (refresh out c) = Some (result, c1)"
      using 2(3) by (auto simp: Let_def split: option.splits)
    have c1: "uncommitted c c1" "ready c1"
      using uncommitted_trans refresh_effect [of c out] run_line_uncommitted [OF r refresh_ready [OF 2(4)]] 2(5) [of l]
        run_line_ready [OF r refresh_ready [OF 2(4)]] by auto
    show ?thesis
    proof (cases "result = OutOk")
      case True
      then have "uncommitted c1 c' \<and> (res = None \<longrightarrow> ready c')"
        using 2(2) [OF refl False r [symmetric, THEN sym] refl] 2(3,5,6) c1(2) r False by (simp add: Let_def)
      then show ?thesis using uncommitted_trans c1(1) by blast
    next
      case False
      let ?c2 = "record_event (Complained (''ns: '' @ name @ '':'' @ show_nat (k + 1) @ '': `'' @ trim l @
        ''` failed; nothing has been committed'')) c1"
      obtain x where x: "run_line out ''exit discard'' ?c2 = Some (x, c')" "res = Some result"
        using 2(3) r False \<open>\<not> (trim l = [] \<or> starts_with (trim l) ''#'')\<close> by (auto simp: Let_def)
      have "ready ?c2" using c1(2) by (simp add: ready_def record_event_def)
      then have "uncommitted ?c2 c'" using run_line_uncommitted [OF x(1)] 2(6) by blast
      then show ?thesis
        using uncommitted_trans c1(1) uncommitted_complaint x(2) by blast
    qed
  qed
qed (simp add: uncommitted_refl)

text \<open>The words of the commands \<open>batch\<close> types itself.\<close>

lemma batch_words:
  "line_words re ''configure'' = [''configure'']" "line_words re ''commit'' = [''commit'']"
  "line_words re ''exit'' = [''exit'']" "line_words re ''exit discard'' = [''exit'', ''discard'']"
  by code_simp+

lemma commit_reads:
  "trim ''commit'' = ''commit''" "question ''commit'' = None" "pipe_split re ''commit'' = Inr (''commit'', [])"
  "path_parse ''commit'' = Inr [''commit'']"
  by code_simp+

lemma emit_uncommitted: "emit out pr ms c = Some c' \<Longrightarrow> uncommitted c c'"
  using emit_did [of out pr ms c c'] prints_no_commit by (auto simp: did_def uncommitted_def)

text \<open>What the final \<open>commit\<close> of a batch does: it succeeds exactly when the daemon says it has committed.\<close>

lemma commit_line:
  assumes "run_line out ''commit'' c = Some (res, c')"
  shows "\<exists>es. cl_trace c' = cl_trace c @ es \<and>
    (if res = OutOk then \<exists>ev es'. es = ev # es' \<and> commits ev \<and> (\<forall>e \<in> set es'. \<not> asks_commit e)
     else \<forall>e \<in> set es. \<not> commits e)"
proof -
  have run: "run_line out ''commit'' c =
      (case dispatch out ''commit'' c of
         None \<Rightarrow> None
       | Some (Inl e, c') \<Rightarrow> Some (fail (show_client_error e) c')
       | Some (Inr (pr, result), c') \<Rightarrow> map_option (Pair result) (emit out pr [] c'))"
    by (simp add: run_line_def commit_reads)
  show ?thesis
  proof (cases "cl_mode c")
    case Operational_Mode
    then have "dispatch out ''commit'' c = Some (unknown_command ''commit'' OPERATIONAL_COMMANDS, c)"
      by (simp add: dispatch_def commit_reads operational_def)
    then have "res = CommandError \<and> uncommitted c c'"
      using assms run emit_uncommitted by (auto simp: unknown_command_def Let_def)
    then show ?thesis by (auto simp: uncommitted_def dest: commits_asks)
  next
    case Configuration_Mode
    then obtain i where i: "cl_session c = Some i"
      using assms run by (cases "cl_session c") (auto simp: dispatch_def commit_reads configuration_def)
    obtain r c1 where r: "call out (Commit i None None) c = (r, c1)" by fastforce
    have d: "dispatch out ''commit'' c = Some (expect_commit out (Commit i None None) c)"
      using Configuration_Mode i by (simp add: dispatch_def commit_reads configuration_def commit_command_def)
    have t: "cl_trace c1 = cl_trace c @ [Asked (Commit i None None) r]" by (rule call_effect(1) [OF r])
    show ?thesis
    proof (cases "\<exists>g cs w. r = Inr (Committed g cs w)")
      case True
      then have "res = OutOk \<and> uncommitted c1 c'"
        using assms run d r emit_uncommitted by (auto simp: expect_commit_def asking_def)
      then show ?thesis using t True by (auto simp: uncommitted_def commits_def)
    next
      case False
      then have "res \<noteq> OutOk \<and> uncommitted c1 c'"
      proof (cases r)
        case (Inl e)
        then show ?thesis
          using assms run d r uncommitted_complaint by (auto simp: expect_commit_def asking_def fail_def)
      next
        case (Inr a)
        have k: "outcome_of kind \<noteq> OutOk" for kind by (cases kind) auto
        obtain pr o1 where o1: "expect_commit out (Commit i None None) c = (Inr (pr, o1), c1)" "o1 \<noteq> OutOk"
          using r Inr False k by (cases a) (auto simp: expect_commit_def asking_def unexpected_def say_def)
        then show ?thesis using assms run d emit_uncommitted by auto
      qed
      moreover have "\<not> commits (Asked (Commit i None None) r)" using False by (auto simp: commits_def)
      ultimately show ?thesis using t uncommitted_no [of c1 c'] by fastforce
    qed
  qed
qed

lemma batch_commit_did:
  assumes "batch_commit out c = Some (res, c')" and "ready (refresh out c)"
  obtains r3 c3 es3 es4 where "run_line out ''commit'' (refresh out c) = Some (r3, c3)" "res = r3"
    "cl_trace c' = cl_trace (refresh out c) @ es3 @ es4" "\<forall>e \<in> set es4. \<not> asks_commit e"
    "if r3 = OutOk then \<exists>ev es'. es3 = ev # es' \<and> commits ev \<and> (\<forall>e \<in> set es'. \<not> asks_commit e)
     else \<forall>e \<in> set es3. \<not> commits e"
proof -
  obtain r3 c3 where c3: "run_line out ''commit'' (refresh out c) = Some (r3, c3)"
    using assms(1) by (auto simp: batch_commit_def split: option.splits)
  obtain last x where c4: "run_line out last c3 = Some (x, c')" "last = ''exit'' \<or> last = ''exit discard''" "res = r3"
    using assms(1) c3 by (auto simp: batch_commit_def split: if_splits)
  have "uncommitted c3 c'"
    using run_line_uncommitted [OF c4(1) run_line_ready [OF c3 assms(2)]] c4(2) by (auto simp: batch_words)
  then show thesis
    using commit_line [OF c3] that [OF c3 c4(3)] unfolding uncommitted_def by (metis append.assoc)
qed

text \<open>The commands of a script: its lines but for the blank ones and the comments.\<close>

definition script_commands :: "string \<Rightarrow> string list" where
  "script_commands script = filter (\<lambda>l. l \<noteq> [] \<and> \<not> starts_with l ''#'') (map trim (text_lines script))"

text \<open>Commands typed one after the other, from one state to another, every one of which worked.\<close>

inductive worked :: "('s, 'w) outside \<Rightarrow> string list \<Rightarrow> ('s, 'w) cli \<Rightarrow> ('s, 'w) cli \<Rightarrow> bool" for out where
  no_more: "worked out [] c c"
| one_more: "run_line out l (refresh out c) = Some (OutOk, c1) \<Longrightarrow> worked out ls c1 c' \<Longrightarrow> worked out (l # ls) c c'"

lemma batch_lines_worked:
  assumes "batch_lines out name k ls c = Some (res, c')"
    and "typed = filter (\<lambda>l. l \<noteq> [] \<and> \<not> starts_with l ''#'') (map trim ls)"
  shows "case res of
      None \<Rightarrow> worked out typed c c'
    | Some failed \<Rightarrow> \<exists>past l others c2 c3. typed = past @ l # others \<and> worked out past c c2 \<and>
        run_line out l (refresh out c2) = Some (failed, c3)"
  using assms
proof (induction ls arbitrary: k c typed)
  case Nil
  then show ?case by (auto intro: no_more)
next
  case (Cons l ls)
  let ?typed = "filter (\<lambda>l. l \<noteq> [] \<and> \<not> starts_with l ''#'') (map trim ls)"
  show ?case
  proof (cases "trim l = [] \<or> starts_with (trim l) ''#''")
    case True
    then show ?thesis using Cons.IH [OF _ refl, of "k + 1" c] Cons.prems by (auto simp: Let_def)
  next
    case False
    then have typed: "typed = trim l # ?typed" using Cons.prems(2) by simp
    obtain result c1 where r: "run_line out (trim l) (refresh out c) = Some (result, c1)"
      using False Cons.prems(1) by (auto simp: Let_def split: option.splits)
    show ?thesis
    proof (cases "result = OutOk")
      case True
      then have run: "run_line out (trim l) (refresh out c) = Some (OutOk, c1)" using r by simp
      have "batch_lines out name (k + 1) ls c1 = Some (res, c')"
        using Cons.prems(1) False run by (auto simp: Let_def)
      from Cons.IH [OF this refl] show ?thesis
        unfolding typed by (cases res) (auto intro: one_more [OF run], metis append_Cons one_more [OF run])
    next
      case bad: False
      have "res = Some result" using Cons.prems(1) False r bad by (auto simp: Let_def)
      then show ?thesis unfolding typed using r no_more by fastforce
    qed
  qed
qed

text \<open>
  C40. A batch file is committed whole or not at all. Take a script with no \<open>commit\<close> of its own. If \<open>ns -f\<close>
  succeeds, the session was opened, then every command of the script was run in turn and worked, and in the
  state they left the final \<open>commit\<close> was typed and the daemon said that it had committed; it was asked for
  a commit then and at no other time. If it ends with any other outcome, that is the outcome of opening the
  session, of the first command that did not work, after which none was run, or of the final \<open>commit\<close>; and
  nothing has been committed.
\<close>

theorem batch_all_or_nothing:
  assumes "batch out name (Inr script) c = Some (res, c')" and "ready c"
    and "\<And>l ws. l \<in> set (text_lines script) \<Longrightarrow> line_words (ou_regexes out) (trim l) \<noteq> ''commit'' # ws"
    and es: "es = drop (length (cl_trace c)) (cl_trace c')"
  shows "\<exists>r1 c1. run_line out ''configure'' (refresh out c) = Some (r1, c1) \<and>
   (if res = OutOk
    then r1 = OutOk \<and>
      (\<exists>c2 c3 es1 ev es2. worked out (script_commands script) c1 c2 \<and>
        run_line out ''commit'' (refresh out c2) = Some (OutOk, c3) \<and>
        cl_trace (refresh out c2) = cl_trace c @ es1 \<and> es = es1 @ ev # es2 \<and> commits ev \<and>
        (\<forall>e \<in> set es1 \<union> set es2. \<not> asks_commit e))
    else (\<forall>e \<in> set es. \<not> commits e) \<and>
      (r1 \<noteq> OutOk \<and> res = CommandError \<or>
       (\<exists>past l others c2 c3. script_commands script = past @ l # others \<and> worked out past c1 c2 \<and>
          run_line out l (refresh out c2) = Some (res, c3)) \<or>
       (\<exists>c2 c3. worked out (script_commands script) c1 c2 \<and>
          run_line out ''commit'' (refresh out c2) = Some (res, c3))))"
proof -
  obtain r1 c1 where c1: "run_line out ''configure'' (refresh out c) = Some (r1, c1)"
    using assms(1) by (auto simp: batch_def split: option.splits)
  have u1: "uncommitted c c1" "ready c1"
    using uncommitted_trans refresh_effect [of c out] run_line_uncommitted [OF c1 refresh_ready [OF assms(2)]]
      run_line_ready [OF c1 refresh_ready [OF assms(2)]] by (auto simp: batch_words)
  have silent: "uncommitted c c' \<Longrightarrow> \<forall>e \<in> set es. \<not> commits e"
    using es uncommitted_no [of c c'] by fastforce
  show ?thesis
  proof (cases "r1 = OutOk")
    case False
    then have "res = CommandError" "c' = c1" using assms(1) c1 by (simp_all add: batch_def)
    then show ?thesis using silent u1(1) False c1 by simp
  next
    case True
    then obtain res2 c2 where c2: "batch_lines out name 0 (text_lines script) c1 = Some (res2, c2)"
      using assms(1) c1 by (auto simp: batch_def split: option.splits)
    note ran = batch_lines_worked [OF c2 script_commands_def]
    have u2: "uncommitted c c2" "res2 = None \<longrightarrow> ready c2"
      using batch_lines_uncommitted [OF c2 u1(2) assms(3)] uncommitted_trans [OF u1(1)] by (auto simp: batch_words)
    show ?thesis
    proof (cases res2)
      case (Some failed)
      then have "failed \<noteq> OutOk" using batch_lines_failed c2 by blast
      moreover have "res = failed" "c' = c2" using assms(1) c1 True c2 Some by (simp_all add: batch_def)
      ultimately show ?thesis using silent u2(1) ran Some c1 by simp
    next
      case None
      then have "batch_commit out c2 = Some (res, c')" using assms(1) c1 True c2 by (simp add: batch_def)
      then show ?thesis
      proof (rule batch_commit_did)
        show "ready (refresh out c2)" using u2(2) None refresh_ready by blast
      next
        fix r3 c3 es3 es4
        assume r3: "run_line out ''commit'' (refresh out c2) = Some (r3, c3)" "res = r3"
          and t: "cl_trace c' = cl_trace (refresh out c2) @ es3 @ es4" "\<forall>e \<in> set es4. \<not> asks_commit e"
            "if r3 = OutOk then \<exists>ev es'. es3 = ev # es' \<and> commits ev \<and> (\<forall>e \<in> set es'. \<not> asks_commit e)
             else \<forall>e \<in> set es3. \<not> commits e"
        have "uncommitted c (refresh out c2)" using uncommitted_trans u2(1) refresh_effect [of c2 out] by blast
        then obtain es1 where es1: "cl_trace (refresh out c2) = cl_trace c @ es1" "\<forall>e \<in> set es1. \<not> asks_commit e"
          by (auto simp: uncommitted_def)
        have w: "worked out (script_commands script) c1 c2" using ran None by simp
        show ?thesis
        proof (cases "r3 = OutOk")
          case ok: True
          then obtain ev es' where ev: "es3 = ev # es'" "commits ev" "\<forall>e \<in> set es'. \<not> asks_commit e"
            using t(3) by auto
          then have "es = es1 @ ev # (es' @ es4)" "\<forall>e \<in> set es1 \<union> set (es' @ es4). \<not> asks_commit e"
            using es t(1,2) es1 by auto
          then show ?thesis using w r3 ev(2) es1(1) c1 True ok by auto
        next
          case bad: False
          then have "\<forall>e \<in> set es. \<not> commits e" using es t es1 by (auto dest: commits_asks)
          then show ?thesis using w r3 c1 bad by auto
        qed
      qed
    qed
  qed
qed

section \<open>A daemon that agrees with everything\<close>

definition agreeable :: "(unit, nat) outside" where
  "agreeable =
     \<lparr>ou_call = (\<lambda>req n. (Inr (case req of
          SessionOpen \<Rightarrow> RespSession (replicate 16 (CHR ''0''))
        | Compare i \<Rightarrow> RespChanges []
        | Commit i note minutes \<Rightarrow> Committed 1 [Change [''a''] Add None] None
        | ShowRunning p \<Rightarrow> RespConfig tree_new
        | ShowCandidate i p \<Rightarrow> RespConfig tree_new
        | _ \<Rightarrow> RespOk), n + 1)),
      ou_program = (\<lambda>argv n. (Inr True, n)), ou_shell = (\<lambda>n. (Inr (), n)), ou_enter = (\<lambda>n. (True, n)),
      ou_interfaces = (\<lambda>n. []), ou_schema = login_schema,
      ou_values = \<lparr>is_match = (\<lambda>p v. True), tzdb_available = True, tz_known = (\<lambda>v. True)\<rparr>,
      ou_regexes = \<lparr>re_error = (\<lambda>p. None), re_match = (\<lambda>p s. True)\<rparr>,
      ou_printers = \<lparr>snapshot_text = (\<lambda>s v. []), json_pretty = (\<lambda>j. []), changes_json = (\<lambda>c. []),
        revisions_json = (\<lambda>r. []), snapshot_json = (\<lambda>s. [])\<rparr>,
      ou_rows = Some (Some 24), ou_debug_response = (\<lambda>r. []), ou_debug_str = (\<lambda>s. s)\<rparr>"

definition logged_in :: "(unit, nat) cli" where
  "logged_in = cli_new 0 ''ana'' False"

definition editing :: "(unit, nat) cli" where
  "editing = snd (the (run_line agreeable ''configure'' logged_in))"

lemma ran_shell:
  "map_option (\<lambda>(o', c'). cl_trace c') (run_line agreeable ''shell'' logged_in) =
     Some [Asked (ShellSession True) (Inr RespOk),
       Printed (''entering a shell; type 'operational' or exit to return'' @ [newline]), RanShell,
       Asked (ShellSession False) (Inr RespOk)]"
  by code_simp

theorem no_shell_escape_witness:
  "\<exists>o' c'. run_line agreeable ''shell'' logged_in = Some (o', c') \<and> RanShell \<in> set (cl_trace c') \<and>
     Asked (ShellSession True) (Inr RespOk) \<in> set (cl_trace c')"
proof -
  obtain o' c' where r: "run_line agreeable ''shell'' logged_in = Some (o', c')" "RanShell \<in> set (cl_trace c')"
    using ran_shell by auto
  have "cl_trace logged_in = []" by (simp add: logged_in_def cli_new_def)
  then have "\<exists>es1 es2. cl_trace c' = es1 @ RanShell # es2 \<and> Asked (ShellSession True) (Inr RespOk) \<in> set es1"
    using no_shell_escape [OF r(1) _ refl] r(2) ready_new [of 0 "''ana''" False] by (auto simp: logged_in_def)
  then show ?thesis using r by auto
qed

lemma ran_exit:
  "map_option (\<lambda>(o', c'). drop (length (cl_trace editing)) (cl_trace c')) (run_line agreeable ''exit'' editing) =
     Some [Asked (Compare (replicate 16 (CHR ''0''))) (Inr (RespChanges [])),
       Asked (SessionClose (replicate 16 (CHR ''0''))) (Inr RespOk), Printed (''leaving configuration mode'' @ [newline])]"
  "ready editing" "cl_session editing = Some (replicate 16 (CHR ''0''))"
  by code_simp+

theorem session_kept_witness:
  "\<exists>o' c'. run_line agreeable ''exit'' editing = Some (o', c') \<and> ready c' \<and>
     Asked (SessionClose (replicate 16 (CHR ''0''))) (Inr RespOk) \<in> set (drop (length (cl_trace editing)) (cl_trace c'))"
proof -
  obtain o' c' where r: "run_line agreeable ''exit'' editing = Some (o', c')"
    "Asked (SessionClose (replicate 16 (CHR ''0''))) (Inr RespOk) \<in> set (drop (length (cl_trace editing)) (cl_trace c'))"
    using ran_exit(1) by auto
  then show ?thesis using session_kept [OF r(1) ran_exit(2) refl] by blast
qed

lemma ran_batch:
  "map_option fst (batch agreeable ''f'' (Inr ''set password x'') logged_in) = Some OutOk"
  "text_lines ''set password x'' = [''set password x'']" "trim ''set password x'' = ''set password x''"
  "line_words (ou_regexes agreeable) ''set password x'' = [''set'', ''password'', ''x'']"
  by code_simp+

theorem batch_all_or_nothing_witness:
  "\<exists>c' ev. batch agreeable ''f'' (Inr ''set password x'') logged_in = Some (OutOk, c') \<and>
     ev \<in> set (cl_trace c') \<and> commits ev"
proof -
  obtain c' where r: "batch agreeable ''f'' (Inr ''set password x'') logged_in = Some (OutOk, c')"
    using ran_batch(1) by auto
  have "ready logged_in" "cl_trace logged_in = []"
    using ready_new [of 0 "''ana''" False] by (simp_all add: logged_in_def cli_new_def)
  then show ?thesis
    using batch_all_or_nothing [OF r _ _ refl] r by (auto simp: ran_batch)
qed

text \<open>A script that leaves the session twice stops at the second line, reports that it failed, and the
  program exits with 0.\<close>

lemma left_batch_exits_0:
  "map_option (\<lambda>(res, c'). (outcome_code res, filter (\<lambda>e. case e of Complained s \<Rightarrow> True | _ \<Rightarrow> False) (cl_trace c')))
     (batch agreeable ''f'' (Inr (''exit'' @ [newline] @ ''exit'')) logged_in) =
   Some (0, [Complained ''ns: f:2: `exit` failed; nothing has been committed''])"
  by code_simp

end
