(* ===== verification/Install_Machine.thy ===== *)
theory Install_Machine
  imports Output
begin

text \<open>
  What the installer does to the machine it runs on: \<open>src/nightshade-installer/src/cmd.rs\<close>,
  \<open>error.rs\<close>, \<open>secret.rs\<close> and \<open>logging.rs\<close>. The machine is a parameter (\<open>box\<close>): what the programs
  it starts answer, what its files hold. Its state \<open>'w\<close> is passed along, and every effect is recorded
  in order in \<open>is_trace\<close>. An action ends in a value, in an error of the installer, or in a panic.
\<close>

section \<open>Secrets, commands and errors\<close>

datatype secret = Secret string

fun expose :: "secret \<Rightarrow> string" where
  "expose (Secret s) = s"

definition secret_len :: "secret \<Rightarrow> nat" where
  "secret_len s = length (expose s)"

datatype stdin_source = StdinEmpty | StdinSecret secret

record cmd =
  cm_program :: string
  cm_args :: "string list"
  cm_chroot :: "string option"
  cm_stdin :: stdin_source

definition cmd_new :: "string \<Rightarrow> cmd" where
  "cmd_new program = \<lparr>cm_program = program, cm_args = [], cm_chroot = None, cm_stdin = StdinEmpty\<rparr>"

definition cmd_args :: "string list \<Rightarrow> cmd \<Rightarrow> cmd" where
  "cmd_args as c = c\<lparr>cm_args := cm_args c @ as\<rparr>"

definition in_chroot :: "string \<Rightarrow> cmd \<Rightarrow> cmd" where
  "in_chroot at c = c\<lparr>cm_chroot := Some at\<rparr>"

definition stdin_secret :: "secret \<Rightarrow> cmd \<Rightarrow> cmd" where
  "stdin_secret s c = c\<lparr>cm_stdin := StdinSecret s\<rparr>"

text \<open>A command line as it is written down: \<open>'\''\<close> for a quote inside quotes.\<close>

definition quote_arg :: "string \<Rightarrow> string" where
  "quote_arg s =
     (if s \<noteq> [] \<and> list_all (\<lambda>c. is_ascii_alphanumeric c \<or> c \<in> set ''-_=/.,:+@'') s then s
      else [CHR 0x27] @
        concat (map (\<lambda>c. if c = CHR 0x27 then [CHR 0x27, backslash, CHR 0x27, CHR 0x27] else [c]) s) @
        [CHR 0x27])"

definition cmd_display :: "cmd \<Rightarrow> string" where
  "cmd_display c =
     join '' '' ((case cm_chroot c of None \<Rightarrow> [] | Some at \<Rightarrow> [''chroot'', at]) @
       [cm_program c] @ map quote_arg (cm_args c)) @
     (case cm_stdin c of
        StdinEmpty \<Rightarrow> ''''
      | StdinSecret sec \<Rightarrow> '' <<< <'' @ show_nat (secret_len sec) @ '' chars redacted>'')"

record cmd_output =
  ot_status :: "int option"
  ot_stdout :: string
  ot_stderr :: string

definition output_ok :: "cmd_output \<Rightarrow> bool" where
  "output_ok o' \<longleftrightarrow> ot_status o' = Some 0"

definition output_trimmed :: "cmd_output \<Rightarrow> string" where
  "output_trimmed o' = trim (ot_stdout o')"

definition output_lines :: "cmd_output \<Rightarrow> string list" where
  "output_lines o' = filter (\<lambda>l. l \<noteq> []) (map trim (text_lines (ot_stdout o')))"

record command_failure =
  cf_display :: string
  cf_status :: "int option"
  cf_stdout :: string
  cf_stderr :: string

datatype ierror =
    Aborted
  | CommandFailed command_failure
  | EnvironmentErr string
  | IoErr string string
  | ValidationErr string

definition failure_section :: "string \<Rightarrow> string \<Rightarrow> string" where
  "failure_section name captured =
     (let captured = trim_end captured
      in if captured = [] then ''''
         else name @ '':'' @ [newline] @ concat (map (\<lambda>l. ''    '' @ l @ [newline]) (text_lines captured)))"

definition failure_detail :: "command_failure \<Rightarrow> string" where
  "failure_detail f =
     ''command: '' @ cf_display f @ [newline] @
     (case cf_status f of
        Some c \<Rightarrow> ''exit:    '' @ show_int c @ [newline]
      | None \<Rightarrow> ''exit:    killed by signal'' @ [newline]) @
     failure_section ''stdout'' (cf_stdout f) @ failure_section ''stderr'' (cf_stderr f)"

fun show_ierror :: "ierror \<Rightarrow> string" where
  "show_ierror Aborted = ''cancelled''"
| "show_ierror (CommandFailed c) =
     (let status = (case cf_status c of
                      Some code' \<Rightarrow> ''exit '' @ show_int code' | None \<Rightarrow> ''killed by signal'');
          reason = (if trim (cf_stderr c) \<noteq> [] then trim (cf_stderr c) else trim (cf_stdout c));
          failed = ''`'' @ cf_display c @ ''` failed ('' @ status @ '')''
      in if reason = [] then failed
         else failed @ '': '' @ (case text_lines reason of [] \<Rightarrow> reason | l # _ \<Rightarrow> l))"
| "show_ierror (EnvironmentErr m) = m"
| "show_ierror (IoErr context' source) = context' @ '': '' @ source"
| "show_ierror (ValidationErr m) = m"

fun error_detail :: "ierror \<Rightarrow> string" where
  "error_detail (CommandFailed c) = failure_detail c"
| "error_detail e = show_ierror e"

section \<open>The machine and what is done to it\<close>

datatype spawn_fault = NoSpawn | StdinFault | WaitFault

text \<open>
  Reading a text goes through \<open>bx_resolve\<close>, which stands for the links and dots of a path, to the texts
  the machine holds; \<open>bx_why\<close> is the reason a path has none.
\<close>

record 'w box =
  bx_run :: "cmd \<Rightarrow> 'w \<Rightarrow> (spawn_fault \<times> string + cmd_output) \<times> 'w"
  bx_texts :: "'w \<Rightarrow> (string \<times> string) list"
  bx_resolve :: "'w \<Rightarrow> string \<Rightarrow> string"
  bx_why :: "'w \<Rightarrow> string \<Rightarrow> string"
  bx_is_file :: "'w \<Rightarrow> string \<Rightarrow> bool"
  bx_is_dir :: "'w \<Rightarrow> string \<Rightarrow> bool"
  bx_exists :: "'w \<Rightarrow> string \<Rightarrow> bool"
  bx_is_symlink :: "'w \<Rightarrow> string \<Rightarrow> bool"
  bx_mode :: "'w \<Rightarrow> string \<Rightarrow> nat option"
  bx_read_dir :: "'w \<Rightarrow> string \<Rightarrow> string + (string + string) list"
  bx_read_link :: "'w \<Rightarrow> string \<Rightarrow> string option"
  bx_canonical :: "'w \<Rightarrow> string \<Rightarrow> string option"
  bx_write :: "string \<Rightarrow> string \<Rightarrow> 'w \<Rightarrow> (string + unit) \<times> 'w"
  bx_mkdirs :: "string \<Rightarrow> 'w \<Rightarrow> (string + unit) \<times> 'w"
  bx_set_mode :: "string \<Rightarrow> nat \<Rightarrow> 'w \<Rightarrow> (string + unit) \<times> 'w"
  bx_copy :: "string \<Rightarrow> string \<Rightarrow> 'w \<Rightarrow> (string + unit) \<times> 'w"
  bx_remove :: "string \<Rightarrow> 'w \<Rightarrow> 'w"
  bx_remove_tree :: "string \<Rightarrow> 'w \<Rightarrow> 'w"
  bx_sleep :: "nat \<Rightarrow> 'w \<Rightarrow> 'w"
  bx_lag :: "'w \<Rightarrow> nat"
  bx_PATH :: "string option"
  bx_TERM :: "string option"
  bx_opens_log :: "string \<Rightarrow> bool"
  bx_human :: "nat \<Rightarrow> string"
  bx_percent :: "nat \<Rightarrow> nat \<Rightarrow> string"
  bx_echo_off :: bool

datatype effect =
    Ran cmd
  | Wrote string string
  | MadeDirs string
  | SetMode string nat
  | CopiedFile string string
  | RemovedFile string
  | RemovedTree string
  | Slept nat
  | LogLine string string
  | Showed string
  | ShowedErr string
  | Prompted string
  | EchoOff
  | EchoOn

record teardown_list =
  td_mounts :: "string list"
  td_binds :: "string list"
  td_pools :: "string list"

text \<open>
  The program's own state: what it did, the lines still to come from the console (\<open>Inl\<close> a read that
  fails), the log (\<open>None\<close> before \<open>init\<close>, whether its file is open), the clock in milliseconds, and the
  fields of \<open>Stepper\<close>, \<open>Session\<close> and \<open>PlainFrontend\<close>.
\<close>

record 'w inst =
  is_world :: 'w
  is_trace :: "effect list"
  is_console :: "(string + string) list"
  is_log :: "(string \<times> bool) option"
  is_clock :: nat
  is_step :: nat
  is_session :: teardown_list
  is_in_progress :: bool

definition teardown_new :: teardown_list where
  "teardown_new = \<lparr>td_mounts = [], td_binds = [], td_pools = []\<rparr>"

definition inst_new :: "'w \<Rightarrow> (string + string) list \<Rightarrow> 'w inst" where
  "inst_new w console =
     \<lparr>is_world = w, is_trace = [], is_console = console, is_log = None, is_clock = 0, is_step = 0,
      is_session = teardown_new, is_in_progress = False\<rparr>"

section \<open>Actions\<close>

datatype 'a res = Fine 'a | Failed ierror | Panicked

type_synonym ('w, 'a) act = "'w inst \<Rightarrow> 'a res \<times> 'w inst"

definition give :: "'a \<Rightarrow> ('w, 'a) act" where
  "give a s = (Fine a, s)"

definition fail_with :: "ierror \<Rightarrow> ('w, 'a) act" where
  "fail_with e s = (Failed e, s)"

definition panic :: "('w, 'a) act" where
  "panic s = (Panicked, s)"

text \<open>The \<open>?\<close> operator between two actions.\<close>

definition andthen :: "('w, 'a) act \<Rightarrow> ('a \<Rightarrow> ('w, 'b) act) \<Rightarrow> ('w, 'b) act" where
  "andthen m k s =
     (case m s of
        (Fine a, s') \<Rightarrow> k a s'
      | (Failed e, s') \<Rightarrow> (Failed e, s')
      | (Panicked, s') \<Rightarrow> (Panicked, s'))"

text \<open>A result that is looked at, not passed on.\<close>

definition attempt :: "('w, 'a) act \<Rightarrow> ('w, ierror + 'a) act" where
  "attempt m s =
     (case m s of
        (Fine a, s') \<Rightarrow> (Fine (Inr a), s')
      | (Failed e, s') \<Rightarrow> (Fine (Inl e), s')
      | (Panicked, s') \<Rightarrow> (Panicked, s'))"

definition ignored :: "('w, 'a) act \<Rightarrow> ('w, unit) act" where
  "ignored m = andthen (attempt m) (\<lambda>_. give ())"

fun in_turn :: "('w, unit) act list \<Rightarrow> ('w, unit) act" where
  "in_turn [] = give ()"
| "in_turn (m # ms) = andthen m (\<lambda>_. in_turn ms)"

definition each :: "('a \<Rightarrow> ('w, unit) act) \<Rightarrow> 'a list \<Rightarrow> ('w, unit) act" where
  "each f xs = in_turn (map f xs)"

fun gather :: "('a \<Rightarrow> ('w, 'b) act) \<Rightarrow> 'a list \<Rightarrow> ('w, 'b list) act" where
  "gather f [] = give []"
| "gather f (x # xs) = andthen (f x) (\<lambda>y. andthen (gather f xs) (\<lambda>ys. give (y # ys)))"

definition look :: "('w \<Rightarrow> 'a) \<Rightarrow> ('w, 'a) act" where
  "look f s = (Fine (f (is_world s)), s)"

definition record_effect :: "effect \<Rightarrow> ('w, unit) act" where
  "record_effect e s = (Fine (), s\<lparr>is_trace := is_trace s @ [e]\<rparr>)"

text \<open>An effect on the machine, with the description its error gets.\<close>

definition change :: "effect \<Rightarrow> ('w \<Rightarrow> (string + unit) \<times> 'w) \<Rightarrow> string \<Rightarrow> ('w, unit) act" where
  "change e f ctx s =
     (let (r, w) = f (is_world s);
          s = s\<lparr>is_world := w, is_trace := is_trace s @ [e]\<rparr>
      in case r of Inl why \<Rightarrow> (Failed (IoErr ctx why), s) | Inr _ \<Rightarrow> (Fine (), s))"

definition write_file :: "'w box \<Rightarrow> string \<Rightarrow> string \<Rightarrow> string \<Rightarrow> ('w, unit) act" where
  "write_file b path contents ctx = change (Wrote path contents) (bx_write b path contents) ctx"

definition make_dirs :: "'w box \<Rightarrow> string \<Rightarrow> string \<Rightarrow> ('w, unit) act" where
  "make_dirs b path ctx = change (MadeDirs path) (bx_mkdirs b path) ctx"

definition set_mode :: "'w box \<Rightarrow> string \<Rightarrow> nat \<Rightarrow> string \<Rightarrow> ('w, unit) act" where
  "set_mode b path mode ctx = change (SetMode path mode) (bx_set_mode b path mode) ctx"

definition copy_file :: "'w box \<Rightarrow> string \<Rightarrow> string \<Rightarrow> string \<Rightarrow> ('w, unit) act" where
  "copy_file b src dst ctx = change (CopiedFile src dst) (bx_copy b src dst) ctx"

text \<open>\<open>let _ = fs::remove_file(..)\<close> and \<open>remove_dir_all\<close>.\<close>

definition remove_file :: "'w box \<Rightarrow> string \<Rightarrow> ('w, unit) act" where
  "remove_file b path = change (RemovedFile path) (\<lambda>w. (Inr (), bx_remove b path w)) ''''"

definition remove_tree :: "'w box \<Rightarrow> string \<Rightarrow> ('w, unit) act" where
  "remove_tree b path = change (RemovedTree path) (\<lambda>w. (Inr (), bx_remove_tree b path w)) ''''"

definition read_text :: "'w box \<Rightarrow> 'w \<Rightarrow> string \<Rightarrow> string + string" where
  "read_text b w path =
     (case map_of (bx_texts b w) (bx_resolve b w path) of
        Some t \<Rightarrow> Inr t
      | None \<Rightarrow> Inl (bx_why b w path))"

definition read_file :: "'w box \<Rightarrow> string \<Rightarrow> string \<Rightarrow> ('w, string) act" where
  "read_file b path ctx =
     andthen (look (\<lambda>w. read_text b w path)) (\<lambda>r.
       case r of Inl why \<Rightarrow> fail_with (IoErr ctx why) | Inr t \<Rightarrow> give t)"

definition sleep :: "'w box \<Rightarrow> nat \<Rightarrow> ('w, unit) act" where
  "sleep b ms s =
     (let w = bx_sleep b ms (is_world s)
      in (Fine (), s\<lparr>is_world := w, is_trace := is_trace s @ [Slept ms],
            is_clock := is_clock s + ms + bx_lag b w\<rparr>))"

text \<open>\<open>Path::join\<close> on a path as it is written.\<close>

definition under :: "string \<Rightarrow> string \<Rightarrow> string" where
  "under dir name =
     (if starts_with name ''/'' then name
      else if dir = [] \<or> ends_with dir ''/'' then dir @ name
      else dir @ ''/'' @ name)"

text \<open>\<open>Path::file_name\<close>: the last name of a path; there is none after \<open>..\<close> or in the root.\<close>

definition file_name :: "string \<Rightarrow> string option" where
  "file_name path =
     (case rev (filter (\<lambda>p. p \<noteq> [] \<and> p \<noteq> ''.'') (split_on (CHR ''/'') path)) of
        [] \<Rightarrow> None
      | p # _ \<Rightarrow> if p = ''..'' then None else Some p)"

definition to_ascii_lowercase :: "string \<Rightarrow> string" where
  "to_ascii_lowercase s = map (\<lambda>c. if is_ascii_uppercase c then char_of (code c + 32) else c) s"

section \<open>The log\<close>

definition DEFAULT_LOG_PATH :: string where
  "DEFAULT_LOG_PATH = ''/tmp/nightshade-install.log''"

definition log_init :: "'w box \<Rightarrow> string \<Rightarrow> ('w, unit) act" where
  "log_init b path s =
     (Fine (), if is_log s = None then s\<lparr>is_log := Some (path, bx_opens_log b path)\<rparr> else s)"

definition log_path :: "'w inst \<Rightarrow> string" where
  "log_path s = (case is_log s of Some (path, _) \<Rightarrow> path | None \<Rightarrow> DEFAULT_LOG_PATH)"

definition log_is_active :: "'w inst \<Rightarrow> bool" where
  "log_is_active s \<longleftrightarrow> (case is_log s of Some (_, opened) \<Rightarrow> opened | None \<Rightarrow> False)"

definition write_line :: "string \<Rightarrow> string \<Rightarrow> ('w, unit) act" where
  "write_line level msg s = (if log_is_active s then record_effect (LogLine level msg) s else (Fine (), s))"

definition log_info :: "string \<Rightarrow> ('w, unit) act" where
  "log_info msg = write_line ''info'' msg"

definition log_warn :: "string \<Rightarrow> ('w, unit) act" where
  "log_warn msg = write_line ''warn'' msg"

definition log_error :: "string \<Rightarrow> ('w, unit) act" where
  "log_error msg = write_line ''error'' msg"

definition log_step :: "string \<Rightarrow> ('w, unit) act" where
  "log_step msg = in_turn [write_line ''step'' '''', write_line ''step'' (''=== '' @ msg @ '' ==='')]"

definition LOG_LIMIT :: nat where
  "LOG_LIMIT = 64 * 1024"

text \<open>\<open>&body[..LIMIT]\<close> panics when the limit falls inside a character.\<close>

definition log_block :: "string \<Rightarrow> string \<Rightarrow> ('w, unit) act" where
  "log_block label captured =
     (let captured = trim_end captured;
          truncated = (utf8_len captured > LOG_LIMIT)
      in if captured = [] then give ()
         else
           (case (if truncated then map_option fst (split_bytes LOG_LIMIT captured) else Some captured) of
              None \<Rightarrow> panic
            | Some shown \<Rightarrow>
                in_turn
                  ([write_line ''out'' (label @ '':'')] @
                   map (\<lambda>l. write_line ''out'' (''  | '' @ l)) (text_lines shown) @
                   (if truncated then [write_line ''out'' ''  | ... (truncated)''] else []))))"

text \<open>\<open>Path::parent\<close> of a log target, which is never a bare name here.\<close>

definition parent_dir :: "string \<Rightarrow> string" where
  "parent_dir path = rev (tl (dropWhile (\<lambda>c. c \<noteq> CHR ''/'') (rev path)))"

definition log_copy_to :: "'w box \<Rightarrow> string \<Rightarrow> ('w, unit) act" where
  "log_copy_to b target s =
     andthen (make_dirs b (parent_dir target) '''')
       (\<lambda>_. copy_file b (log_path s) target '''') s"

section \<open>Running a command\<close>

fun spawn_context :: "spawn_fault \<Rightarrow> string \<Rightarrow> string" where
  "spawn_context NoSpawn program = ''failed to run `'' @ program @ ''` (is it installed?)''"
| "spawn_context StdinFault program = ''failed writing stdin to `'' @ program @ ''`''"
| "spawn_context WaitFault program = ''failed waiting for `'' @ program @ ''`''"

definition spawned :: "'w box \<Rightarrow> cmd \<Rightarrow> ('w, cmd_output) act" where
  "spawned b c s =
     (let program = (case cm_chroot c of Some _ \<Rightarrow> ''chroot'' | None \<Rightarrow> cm_program c);
          (r, w) = bx_run b c (is_world s);
          s = s\<lparr>is_world := w, is_trace := is_trace s @ [Ran c]\<rparr>
      in case r of
           Inl (fault, why) \<Rightarrow> (Failed (IoErr (spawn_context fault program) why), s)
         | Inr out \<Rightarrow> (Fine out, s))"

definition spawn_and_wait :: "'w box \<Rightarrow> cmd \<Rightarrow> ('w, cmd_output) act" where
  "spawn_and_wait b c =
     andthen (log_info (''$ '' @ cmd_display c)) (\<lambda>_.
     andthen (spawned b c) (\<lambda>out.
     andthen (in_turn
       [case ot_status out of
          Some n \<Rightarrow> if n = 0 then log_info ''  -> ok'' else log_warn (''  -> exit '' @ show_int n)
        | None \<Rightarrow> log_warn ''  -> killed by signal'',
        log_block ''  stdout'' (ot_stdout out),
        log_block ''  stderr'' (ot_stderr out)]) (\<lambda>_.
     give out)))"

definition run_checked :: "'w box \<Rightarrow> cmd \<Rightarrow> ('w, cmd_output) act" where
  "run_checked b c =
     andthen (spawn_and_wait b c) (\<lambda>out.
       if output_ok out then give out
       else andthen (log_error (''FAILED: '' @ cmd_display c)) (\<lambda>_.
         fail_with (CommandFailed \<lparr>cf_display = cmd_display c, cf_status = ot_status out,
           cf_stdout = ot_stdout out, cf_stderr = ot_stderr out\<rparr>)))"

definition run_ok :: "'w box \<Rightarrow> cmd \<Rightarrow> ('w, unit) act" where
  "run_ok b c = andthen (run_checked b c) (\<lambda>_. give ())"

definition run_lenient :: "'w box \<Rightarrow> cmd \<Rightarrow> ('w, cmd_output) act" where
  "run_lenient b c = spawn_and_wait b c"

definition cmd_succeeds :: "'w box \<Rightarrow> cmd \<Rightarrow> ('w, bool) act" where
  "cmd_succeeds b c =
     andthen (attempt (spawn_and_wait b c)) (\<lambda>r.
       give (case r of Inr out \<Rightarrow> output_ok out | Inl _ \<Rightarrow> False))"

definition is_executable :: "'w box \<Rightarrow> 'w \<Rightarrow> string \<Rightarrow> bool" where
  "is_executable b w path =
     (case bx_mode b w path of
        Some m \<Rightarrow> (m div 64) mod 2 = 1 \<or> (m div 8) mod 2 = 1 \<or> m mod 2 = 1
      | None \<Rightarrow> False)"

definition tool_exists :: "'w box \<Rightarrow> 'w \<Rightarrow> string \<Rightarrow> bool" where
  "tool_exists b w program =
     (case bx_PATH b of
        None \<Rightarrow> False
      | Some path \<Rightarrow>
          list_ex (\<lambda>dir. bx_is_file b w (under dir program) \<and> is_executable b w (under dir program))
            (split_on (CHR '':'') path))"

end
