(* ===== verification/Install_Disks.thy ===== *)
theory Install_Disks
  imports Install_Machine
begin

text \<open>
  \<open>src/nightshade-installer/src/disk.rs\<close>, \<open>config.rs\<close> and \<open>validate.rs\<close>: which disks may be
  installed on, what the operator chose, and the rules of what is typed. What \<open>f64\<close> prints is a
  parameter of the machine (\<open>bx_human\<close>, \<open>bx_percent\<close>).
\<close>

section \<open>A disk\<close>

record disk =
  dk_name :: string
  dk_path :: string
  dk_stable_path :: string
  dk_size_bytes :: nat
  dk_model :: string
  dk_serial :: string
  dk_rotational :: bool
  dk_removable :: bool
  dk_signatures :: "string list"

definition disk_size_human :: "'w box \<Rightarrow> disk \<Rightarrow> string" where
  "disk_size_human b d = bx_human b (dk_size_bytes d)"

definition ends_in_digit :: "string \<Rightarrow> bool" where
  "ends_in_digit s \<longleftrightarrow> s \<noteq> [] \<and> is_ascii_digit (last s)"

definition disk_partition :: "disk \<Rightarrow> nat \<Rightarrow> string" where
  "disk_partition d n =
     (let s = dk_stable_path d
      in if starts_with s ''/dev/disk/by-id/'' then s @ ''-part'' @ show_nat n
         else if ends_in_digit s then s @ ''p'' @ show_nat n
         else s @ show_nat n)"

definition kernel_partition :: "disk \<Rightarrow> nat \<Rightarrow> string" where
  "kernel_partition d n =
     (let s = dk_path d
      in if ends_in_digit s then s @ ''p'' @ show_nat n else s @ show_nat n)"

definition disk_media :: "disk \<Rightarrow> string" where
  "disk_media d =
     (let kind = (if dk_rotational d then ''HDD'' else ''SSD'')
      in if dk_removable d then kind @ '', removable'' else kind)"

section \<open>Reading the kernel's answer\<close>

definition SKIP_PREFIXES :: "string list" where
  "SKIP_PREFIXES = [''loop'', ''ram'', ''zram'', ''sr'', ''fd'', ''dm-'', ''md'', ''nbd'', ''zd'']"

definition read_str :: "'w box \<Rightarrow> 'w \<Rightarrow> string \<Rightarrow> string option" where
  "read_str b w path =
     (case read_text b w path of
        Inl _ \<Rightarrow> None
      | Inr t \<Rightarrow> if trim t = [] then None else Some (trim t))"

definition read_u64 :: "'w box \<Rightarrow> 'w \<Rightarrow> string \<Rightarrow> nat option" where
  "read_u64 b w path = Option.bind (read_str b w path) (parse_unsigned (2 ^ 64 - 1))"

text \<open>The first two words of a line of \<open>/proc/mounts\<close>.\<close>

definition mount_line :: "string \<Rightarrow> (string \<times> string) option" where
  "mount_line ln =
     (case split_whitespace ln of source # target # _ \<Rightarrow> Some (source, target) | _ \<Rightarrow> None)"

definition mount_covers :: "string \<Rightarrow> string \<Rightarrow> bool" where
  "mount_covers target path \<longleftrightarrow>
     starts_with path target \<and>
     (target = ''/'' \<or> length path \<le> length target \<or> starts_with (drop (length target) path) ''/'')"

definition longer_mount :: "string \<Rightarrow> (nat \<times> string) option \<Rightarrow> string \<Rightarrow> (nat \<times> string) option" where
  "longer_mount path best ln =
     (case mount_line ln of
        None \<Rightarrow> best
      | Some (source, target) \<Rightarrow>
          if \<not> mount_covers target path then best
          else if (case best of None \<Rightarrow> True | Some (len, _) \<Rightarrow> utf8_len target > len)
            then Some (utf8_len target, source)
          else best)"

definition mount_source_for_path :: "'w box \<Rightarrow> 'w \<Rightarrow> string \<Rightarrow> string option" where
  "mount_source_for_path b w path =
     (case read_text b w ''/proc/mounts'' of
        Inl _ \<Rightarrow> None
      | Inr mounts \<Rightarrow> map_option snd (foldl (longer_mount path) None (text_lines mounts)))"

lemma split_on_part: "p \<in> set (split_on d s) \<Longrightarrow> \<exists>a c. s = a @ p @ c"
proof (induction s arbitrary: p)
  case (Cons x s)
  obtain q qs where q: "split_on d s = q # qs" by (cases "split_on d s") auto
  obtain c where c: "s = q @ c" using q
  proof (induction s arbitrary: q qs)
    case (Cons y s)
    then show ?case by (cases "split_on d s") (auto split: if_splits)
  qed auto
  have tail: "\<exists>a c. x # s = a @ p @ c" if "p \<in> set (split_on d s)"
    using Cons.IH [OF that] by (metis append_Cons)
  show ?case
  proof (cases "x = d")
    case True
    then show ?thesis using Cons.prems tail by (auto intro: exI [of _ "[]"])
  next
    case False
    then consider "p = x # q" | "p \<in> set qs" using Cons.prems q by auto
    then show ?thesis
    proof cases
      case 1
      then show ?thesis using c by (intro exI [of _ "[]"] exI [of _ c]) simp
    next
      case 2
      then show ?thesis using tail q by simp
    qed
  qed
qed auto

lemma file_name_part: "file_name path = Some n \<Longrightarrow> \<exists>a c. path = a @ n @ c"
proof -
  assume "file_name path = Some n"
  then obtain ps where "rev (filter (\<lambda>p. p \<noteq> [] \<and> p \<noteq> ''.'') (split_on (CHR ''/'') path)) = n # ps"
    by (auto simp: file_name_def split: list.splits if_splits)
  then have "n \<in> set (rev (filter (\<lambda>p. p \<noteq> [] \<and> p \<noteq> ''.'') (split_on (CHR ''/'') path)))" by (metis list.set_intros(1))
  then have "n \<in> set (split_on (CHR ''/'') path)" by simp
  then show ?thesis by (rule split_on_part)
qed

lemma loop_part: "contains (a @ ''loop'' @ c) ''loop''"
  by (auto simp only: contains_iff)

text \<open>
  From a device to the disk it lies on. A loop device leads to the device that holds its file, and that
  one has no \<open>loop\<close> in its name, so the walk ends.
\<close>

function resolve_to_disk :: "'w box \<Rightarrow> 'w \<Rightarrow> string \<Rightarrow> string option" where
  "resolve_to_disk b w source =
     (case file_name source of
        None \<Rightarrow> None
      | Some name \<Rightarrow>
          if starts_with name ''loop'' then
            (case read_text b w (''/sys/block/'' @ name @ ''/loop/backing_file'') of
               Inl _ \<Rightarrow> None
             | Inr backing \<Rightarrow>
                 (case mount_source_for_path b w (trim backing) of
                    None \<Rightarrow> None
                  | Some holder \<Rightarrow> if contains holder ''loop'' then None else resolve_to_disk b w holder))
          else
            (let sys = ''/sys/class/block/'' @ name
             in if bx_exists b w (sys @ ''/partition'') then
                  Option.bind (bx_canonical b w sys) (\<lambda>real. file_name (parent_dir real))
                else if bx_exists b w sys then Some name
                else None))"
  by pat_completeness auto
termination
proof (relation "measure (\<lambda>(b, w, source). if contains source ''loop'' then 1 else 0)")
  fix b w source x2 x2a x2b
  assume "file_name source = Some x2" "starts_with x2 ''loop''" "\<not> contains x2b ''loop''"
  then show "((b, w, x2b), (b, w, source)) \<in> measure (\<lambda>(b, w, source). if contains source ''loop'' then 1 else 0)"
    using file_name_part [of source x2] loop_part by (auto simp: starts_with_iff)
qed simp

declare resolve_to_disk.simps [simp del]

definition live_target :: "string \<Rightarrow> bool" where
  "live_target target \<longleftrightarrow>
     starts_with target ''/run/live/'' \<or> target = ''/run/live'' \<or>
     target = ''/lib/live/mount/medium'' \<or> starts_with target ''/cdrom''"

definition live_disk :: "'w box \<Rightarrow> 'w \<Rightarrow> string \<Rightarrow> string option" where
  "live_disk b w ln =
     (case mount_line ln of
        None \<Rightarrow> None
      | Some (source, target) \<Rightarrow> if live_target target then resolve_to_disk b w source else None)"

definition insert_name :: "string \<Rightarrow> string list \<Rightarrow> string list" where
  "insert_name n ns = (if n \<in> set ns then ns else insort n ns)"

definition live_medium_disks :: "'w box \<Rightarrow> 'w \<Rightarrow> string list" where
  "live_medium_disks b w =
     (case read_text b w ''/proc/mounts'' of
        Inl _ \<Rightarrow> []
      | Inr mounts \<Rightarrow> fold insert_name (List.map_filter (live_disk b w) (text_lines mounts)) [])"

definition by_id_candidates :: "'w box \<Rightarrow> 'w \<Rightarrow> string \<Rightarrow> string list" where
  "by_id_candidates b w dev =
     (case bx_read_dir b w ''/dev/disk/by-id'' of
        Inl _ \<Rightarrow> []
      | Inr entries \<Rightarrow>
          List.map_filter (\<lambda>entry.
            case entry of
              Inl _ \<Rightarrow> None
            | Inr id' \<Rightarrow>
                if bx_canonical b w (''/dev/disk/by-id/'' @ id') \<noteq> Some dev then None
                else if contains id' ''-part'' then None
                else Some id') entries)"

definition stable_path :: "'w box \<Rightarrow> 'w \<Rightarrow> string \<Rightarrow> string" where
  "stable_path b w name =
     (let dev = ''/dev/'' @ name
      in case sort_key (\<lambda>id'. (starts_with id' ''wwn-'', utf8_len id')) (by_id_candidates b w dev) of
           [] \<Rightarrow> dev
         | id' # _ \<Rightarrow> ''/dev/disk/by-id/'' @ id')"

definition is_ascii_graphic :: "char \<Rightarrow> bool" where
  "is_ascii_graphic c \<longleftrightarrow> 33 \<le> code c \<and> code c \<le> 126"

definition serial_text :: "string \<Rightarrow> string" where
  "serial_text v = trim (filter (\<lambda>c. is_ascii_graphic c \<or> c = CHR '' '') v)"

definition read_serial :: "'w box \<Rightarrow> 'w \<Rightarrow> string \<Rightarrow> string \<Rightarrow> string" where
  "read_serial b w sys name =
     (case filter (\<lambda>v. v \<noteq> [])
          (List.map_filter (\<lambda>rel. map_option serial_text (read_str b w (under sys rel)))
            [''serial'', ''device/serial'', ''device/vpd_pg80'']) of
        v # _ \<Rightarrow> v
      | [] \<Rightarrow>
          (case Option.bind (file_name (stable_path b w name)) (split_once (CHR ''-'')) of
             Some (_, tail) \<Rightarrow> tail
           | None \<Rightarrow> ''no serial''))"

definition signatures :: "'w box \<Rightarrow> string \<Rightarrow> ('w, string list) act" where
  "signatures b dev =
     andthen (attempt (run_lenient b (cmd_args
       [''--noheadings'', ''--output'', ''NAME,SIZE,FSTYPE,LABEL,PARTLABEL'', dev] (cmd_new ''lsblk'')))) (\<lambda>r.
       give (case r of Inr out \<Rightarrow> if output_ok out then drop 1 (output_lines out) else [] | Inl _ \<Rightarrow> []))"

text \<open>\<open>Some n\<close>: the sectors of a device that may be offered.\<close>

definition offered :: "'w box \<Rightarrow> 'w \<Rightarrow> string list \<Rightarrow> string \<Rightarrow> nat option" where
  "offered b w live name =
     (if list_ex (starts_with name) SKIP_PREFIXES then None
      else if name \<in> set live then None
      else
        (case read_u64 b w (''/sys/block/'' @ name @ ''/size'') of
           None \<Rightarrow> None
         | Some n \<Rightarrow> if n = 0 then None else Some n))"

definition probe_disk :: "'w box \<Rightarrow> string \<Rightarrow> nat \<Rightarrow> ('w, disk) act" where
  "probe_disk b name sectors =
     (let sys = ''/sys/block/'' @ name
      in andthen (look (\<lambda>w.
           \<lparr>dk_name = name, dk_path = ''/dev/'' @ name, dk_stable_path = stable_path b w name,
            dk_size_bytes = (sectors * 512) mod 2 ^ 64,
            dk_model = (case read_str b w (sys @ ''/device/model'') of
              Some m \<Rightarrow> m
            | None \<Rightarrow> (case read_str b w (sys @ ''/device/name'') of Some m \<Rightarrow> m | None \<Rightarrow> ''unknown model'')),
            dk_serial = read_serial b w sys name,
            dk_rotational = (read_str b w (sys @ ''/queue/rotational'') = Some ''1''),
            dk_removable = (read_str b w (sys @ ''/removable'') = Some ''1''),
            dk_signatures = []\<rparr>)) (\<lambda>d.
         andthen (signatures b (''/dev/'' @ name)) (\<lambda>sigs. give (d\<lparr>dk_signatures := sigs\<rparr>))))"

fun probe_entries :: "'w box \<Rightarrow> string list \<Rightarrow> (string + string) list \<Rightarrow> ('w, disk list) act" where
  "probe_entries b live [] = give []"
| "probe_entries b live (Inl why # es) = fail_with (IoErr ''cannot read /sys/block entry'' why)"
| "probe_entries b live (Inr name # es) =
     andthen (if \<not> list_ex (starts_with name) SKIP_PREFIXES \<and> name \<in> set live
              then log_info (''hiding '' @ name @ '': it is the live medium'') else give ()) (\<lambda>_.
     andthen (look (\<lambda>w. offered b w live name)) (\<lambda>r.
       case r of
         None \<Rightarrow> probe_entries b live es
       | Some sectors \<Rightarrow>
           andthen (probe_disk b name sectors) (\<lambda>d.
           andthen (probe_entries b live es) (\<lambda>ds. give (d # ds)))))"

definition show_name_set :: "string list \<Rightarrow> string" where
  "show_name_set ns = ''{'' @ join '', '' (map debug_str ns) @ ''}''"

definition enumerate_disks :: "'w box \<Rightarrow> ('w, disk list) act" where
  "enumerate_disks b =
     andthen (look (live_medium_disks b)) (\<lambda>live.
     andthen (if live \<noteq> [] then log_info (''live medium backed by: '' @ show_name_set live)
              else log_warn ''could not identify the live medium; no disk will be hidden'') (\<lambda>_.
     andthen (look (\<lambda>w. bx_read_dir b w ''/sys/block'')) (\<lambda>entries.
       case entries of
         Inl why \<Rightarrow> fail_with (IoErr ''cannot read /sys/block'' why)
       | Inr es \<Rightarrow>
           andthen (probe_entries b live es) (\<lambda>disks.
           andthen (log_info (show_nat (length disks) @ '' installable disk(s) found'')) (\<lambda>_.
             give (sort_key dk_name disks))))))"

text \<open>
  \<open>size_mismatch_ratio\<close> above \<open>MIRROR_SIZE_TOLERANCE\<close>, that is \<open>1 - small / large > 1/10\<close>, over the
  rationals.
\<close>

definition size_mismatch :: "disk \<Rightarrow> disk \<Rightarrow> bool" where
  "size_mismatch d e =
     (let small = min (dk_size_bytes d) (dk_size_bytes e);
          large = max (dk_size_bytes d) (dk_size_bytes e)
      in 10 * (large - small) > large)"

definition require_tools :: "'w box \<Rightarrow> string list \<Rightarrow> ('w, unit) act" where
  "require_tools b tools =
     andthen (look (\<lambda>w. filter (\<lambda>t. \<not> tool_exists b w t) tools)) (\<lambda>missing.
       if missing = [] then give ()
       else fail_with (EnvironmentErr (''missing required tools: '' @ join '', '' missing)))"

section \<open>What the operator chose\<close>

definition BPOOL :: string where "BPOOL = ''bpool''"
definition RPOOL :: string where "RPOOL = ''rpool''"
definition BOOT_DATASET :: string where "BOOT_DATASET = ''bpool/BOOT/nightshade''"
definition ROOT_DATASET :: string where "ROOT_DATASET = ''rpool/ROOT/nightshade''"
definition TARGET :: string where "TARGET = ''/mnt/nightshade''"
definition ESP_SIZE :: string where "ESP_SIZE = ''+512M''"
definition BPOOL_SIZE :: string where "BPOOL_SIZE = ''+2G''"
definition PART_ESP :: nat where "PART_ESP = 1"
definition PART_BPOOL :: nat where "PART_BPOOL = 2"
definition PART_RPOOL :: nat where "PART_RPOOL = 3"
definition TYPE_ESP :: string where "TYPE_ESP = ''EF00''"
definition TYPE_BPOOL :: string where "TYPE_BPOOL = ''BE00''"
definition TYPE_RPOOL :: string where "TYPE_RPOOL = ''BF00''"

datatype layout = Single_Layout | Mirror_Layout

fun layout_label :: "layout \<Rightarrow> string" where
  "layout_label Single_Layout = ''single disk''"
| "layout_label Mirror_Layout = ''ZFS RAID1 mirror (2 disks)''"

record install_config =
  ic_disks :: "disk list"
  ic_hostname :: string
  ic_password :: secret

definition layout_of :: "disk list \<Rightarrow> layout" where
  "layout_of disks = (if length disks \<ge> 2 then Mirror_Layout else Single_Layout)"

definition is_mirror :: "install_config \<Rightarrow> bool" where
  "is_mirror c \<longleftrightarrow> layout_of (ic_disks c) = Mirror_Layout"

definition vdev_args :: "install_config \<Rightarrow> nat \<Rightarrow> string list" where
  "vdev_args c part =
     (let members = map (\<lambda>d. disk_partition d part) (ic_disks c)
      in if is_mirror c then ''mirror'' # members else members)"

definition esp_mountpoint :: "nat \<Rightarrow> string" where
  "esp_mountpoint index =
     (if index = 0 then TARGET @ ''/boot/efi'' else TARGET @ ''/boot/efi'' @ show_nat (index + 1))"

section \<open>Input rules\<close>

definition MIN_PASSWORD_LEN :: nat where "MIN_PASSWORD_LEN = 8"
definition DEFAULT_HOSTNAME :: string where "DEFAULT_HOSTNAME = ''nightshade''"
definition DEFAULT_USER :: string where "DEFAULT_USER = ''nightshade''"
definition ERASE_CONFIRMATION :: string where "ERASE_CONFIRMATION = ''ERASE''"

definition validate_password :: "secret \<Rightarrow> secret \<Rightarrow> ierror + unit" where
  "validate_password first second =
     (if expose first = [] then Inl (ValidationErr ''Password must not be empty.'')
      else if secret_len first < MIN_PASSWORD_LEN then
        Inl (ValidationErr (''Password must be at least '' @ show_nat MIN_PASSWORD_LEN @ '' characters ('' @
          show_nat (secret_len first) @ '' entered).''))
      else if expose first \<noteq> expose second then Inl (ValidationErr ''Passwords do not match.'')
      else Inr ())"

definition label_error :: "string \<Rightarrow> string option" where
  "label_error l =
     (if l = [] then Some ''Hostname must not contain an empty label.''
      else if utf8_len l > 63 then
        Some (''Hostname label '' @ [CHR 0x27] @ l @ [CHR 0x27] @ '' is longer than 63 characters.'')
      else if hd l = CHR ''-'' \<or> last l = CHR ''-'' then
        Some (''Hostname label '' @ [CHR 0x27] @ l @ [CHR 0x27] @ '' must not start or end with a hyphen.'')
      else
        (case find (\<lambda>c. \<not> is_ascii_alphanumeric c \<and> c \<noteq> CHR ''-'') l of
           Some bad \<Rightarrow>
             Some (''Hostname contains an invalid character: '' @ [CHR 0x27, bad, CHR 0x27] @ ''. '' @
               ''Use letters, digits and hyphens only.'')
         | None \<Rightarrow> None))"

definition validate_hostname :: "string \<Rightarrow> ierror + unit" where
  "validate_hostname name =
     (if name = [] then Inl (ValidationErr ''Hostname must not be empty.'')
      else if utf8_len name > 253 then Inl (ValidationErr ''Hostname must be at most 253 characters.'')
      else if hd name = CHR ''.'' \<or> last name = CHR ''.'' then
        Inl (ValidationErr ''Hostname must not start or end with a dot.'')
      else
        (case List.map_filter label_error (split_on (CHR ''.'') name) of
           e # _ \<Rightarrow> Inl (ValidationErr e)
         | [] \<Rightarrow> Inr ()))"

definition erase_confirmation :: "string \<Rightarrow> ierror + unit" where
  "erase_confirmation typed =
     (if trim typed = ERASE_CONFIRMATION then Inr ()
      else Inl (ValidationErr (''Type '' @ ERASE_CONFIRMATION @ '' exactly to confirm, or cancel.'')))"

text \<open>\<open>validate_selection\<close> of \<open>ui/mod.rs\<close>.\<close>

definition validate_selection :: "nat list \<Rightarrow> nat \<Rightarrow> ierror + unit" where
  "validate_selection selection available =
     (if selection = [] then Inl (ValidationErr ''Select at least one disk.'')
      else if length selection > 2 then Inl (ValidationErr ''Select one disk, or exactly two for a mirror.'')
      else if list_ex (\<lambda>i. i \<ge> available) selection then
        Inl (ValidationErr ''That disk number is not in the list.'')
      else if length selection = 2 \<and> selection ! 0 = selection ! 1 then
        Inl (ValidationErr ''Select two different disks for a mirror.'')
      else Inr ())"

lemma validate_selection_Inr:
  "validate_selection sel n = Inr () \<longleftrightarrow>
     sel \<noteq> [] \<and> length sel \<le> 2 \<and> distinct sel \<and> (\<forall>i \<in> set sel. i < n)"
proof -
  consider "sel = []" | x where "sel = [x]" | x y where "sel = [x, y]" | x y z zs where "sel = x # y # z # zs"
    by (metis list.exhaust)
  then show ?thesis by cases (auto simp: validate_selection_def not_le)
qed

end
