(* ===== verification/Seed.thy ===== *)
theory Seed
  imports Install_Disks
begin

text \<open>
  \<open>src/nightshade-installer/src/engine/seed.rs\<close>: the configuration an installed system boots with, and
  the link files that name its ports.
\<close>

record port =
  pt_kernel_name :: string
  pt_mac :: string
  pt_slot :: string

definition MANAGED_HEADER :: string where
  "MANAGED_HEADER =
     ''# Managed by Nightshade. Do not edit.'' @ [newline] @ ''#'' @ [newline] @
     ''# This file is generated from /etc/nightshade/config.boot and is rewritten on'' @ [newline] @
     ''# every commit. Changes made here are lost, and are not part of the config the'' @ [newline] @
     ''# next boot will apply.'' @ [newline]"

definition read_trimmed :: "'w box \<Rightarrow> 'w \<Rightarrow> string \<Rightarrow> string option" where
  "read_trimmed b w path = (case read_text b w path of Inl _ \<Rightarrow> None | Inr t \<Rightarrow> Some (trim t))"

definition system_port :: "'w box \<Rightarrow> 'w \<Rightarrow> string \<Rightarrow> string \<Rightarrow> port option" where
  "system_port b w sys_class_net name =
     (let dir = under sys_class_net name
      in case bx_read_link b w (under dir ''device'') of
           None \<Rightarrow> None
         | Some link \<Rightarrow>
             (let slot = (case file_name link of Some s \<Rightarrow> s | None \<Rightarrow> '''')
              in if read_trimmed b w (under dir ''addr_assign_type'') \<noteq> Some ''0'' then None
                 else
                   (case read_trimmed b w (under dir ''address'') of
                      None \<Rightarrow> None
                    | Some mac \<Rightarrow>
                        if mac = [] \<or> mac = ''00:00:00:00:00:00'' then None
                        else Some \<lparr>pt_kernel_name = name, pt_mac = to_ascii_lowercase mac, pt_slot = slot\<rparr>)))"

definition enumerate_ports :: "'w box \<Rightarrow> 'w \<Rightarrow> string \<Rightarrow> port list" where
  "enumerate_ports b w sys_class_net =
     (case bx_read_dir b w sys_class_net of
        Inl _ \<Rightarrow> []
      | Inr entries \<Rightarrow>
          sort_key (\<lambda>p. (pt_slot p, pt_kernel_name p))
            (List.map_filter (\<lambda>entry. case entry of Inl _ \<Rightarrow> None | Inr name \<Rightarrow> system_port b w sys_class_net name)
              entries))"

definition assign_names :: "port list \<Rightarrow> (string \<times> port) list" where
  "assign_names ports = map (\<lambda>(i, p). (''eth'' @ show_nat i, p)) (enumerate 0 ports)"

definition seed_config_boot :: "install_config \<Rightarrow> (string \<times> port) list \<Rightarrow> string option \<Rightarrow> string" where
  "seed_config_boot config named hash =
     ''/* Written by the Nightshade installer. This is the configuration the'' @ [newline] @
     '' * system boots with; edit it with `configure` rather than by hand. */'' @ [newline] @
     ''interfaces {'' @ [newline] @
     concat (map (\<lambda>(name, port).
       ''    ethernet '' @ name @ '' {'' @ [newline] @
       ''        hw-id '' @ pt_mac port @ [newline] @
       ''    }'' @ [newline]) named) @
     ''    loopback lo {'' @ [newline] @
     ''    }'' @ [newline] @
     ''}'' @ [newline] @
     ''system {'' @ [newline] @
     ''    host-name '' @ ic_hostname config @ [newline] @
     (case hash of
        None \<Rightarrow> ''''
      | Some hash \<Rightarrow>
          ''    login {'' @ [newline] @
          ''        user '' @ DEFAULT_USER @ '' {'' @ [newline] @
          ''            authentication {'' @ [newline] @
          ''                encrypted-password '' @ debug_str hash @ [newline] @
          ''            }'' @ [newline] @
          ''            full-name '' @ [quote_char] @ ''Nightshade administrator'' @ [quote_char] @ [newline] @
          ''        }'' @ [newline] @
          ''    }'' @ [newline]) @
     ''}'' @ [newline]"

definition seed_link_file :: "string \<Rightarrow> port \<Rightarrow> string" where
  "seed_link_file name port =
     MANAGED_HEADER @ [newline] @ ''[Match]'' @ [newline] @ ''PermanentMACAddress='' @ pt_mac port @ [newline] @
     [newline] @ ''[Link]'' @ [newline] @ ''Name='' @ name @ [newline]"

fun hash_in_lines :: "string list \<Rightarrow> string \<Rightarrow> string option" where
  "hash_in_lines [] user = None"
| "hash_in_lines (ln # lns) user =
     (case split_on (CHR '':'') ln of
        [] \<Rightarrow> hash_in_lines lns user
      | first # others \<Rightarrow>
          if first = user then
            (case others of
               [] \<Rightarrow> None
             | field # _ \<Rightarrow> if trim field = [] then None else Some (trim field))
          else hash_in_lines lns user)"

definition hash_from_shadow :: "string \<Rightarrow> string \<Rightarrow> string option" where
  "hash_from_shadow shadow user = hash_in_lines (text_lines shadow) user"

definition write_configuration :: "'w box \<Rightarrow> install_config \<Rightarrow> string \<Rightarrow> ('w, unit) act" where
  "write_configuration b config target =
     andthen (look (\<lambda>w. assign_names (enumerate_ports b w ''/sys/class/net''))) (\<lambda>named.
     andthen (in_turn
       ((if named = [] then [log_info ''no physical ports found; config.boot will list no interfaces''] else []) @
        map (\<lambda>(name, port). log_info (name @ '' is '' @ pt_mac port @ '' ('' @ pt_kernel_name port @
          '', slot '' @ pt_slot port @ '')'')) named)) (\<lambda>_.
     andthen (look (\<lambda>w. hash_from_shadow
       (case read_text b w (under target ''etc/shadow'') of Inl _ \<Rightarrow> '''' | Inr t \<Rightarrow> t) DEFAULT_USER)) (\<lambda>hash.
     (let dir = under target ''etc/nightshade'';
          boot = under dir ''config.boot'';
          links = under target ''etc/systemd/network''
      in in_turn
        ((if hash = None then
            [log_info (''no password hash for '' @ DEFAULT_USER @ '' in the target'' @ [CHR 0x27] @
              ''s /etc/shadow; config.boot will not describe the account'')] else []) @
         [make_dirs b dir (''creating '' @ dir),
          set_mode b dir 448 ''securing /etc/nightshade'',
          write_file b boot (seed_config_boot config named hash) (''writing '' @ boot),
          set_mode b boot 384 ''securing config.boot'',
          log_info (''wrote '' @ boot),
          make_dirs b links (''creating '' @ links),
          each (\<lambda>(name, port).
            (let path = under links (''10-ns-'' @ name @ ''.link'')
             in in_turn
               [write_file b path (seed_link_file name port) (''writing '' @ path),
                set_mode b path 420 ''setting mode on a .link file'']))  named,
          log_info (''wrote '' @ show_nat (length named) @ '' interface .link files'')])))))"

end
