(* ===== verification/Seed_Reads.thy ===== *)
theory Seed_Reads
  imports Seed Curly_Roundtrip
begin

text \<open>
  The installer writes \<open>config.boot\<close> and the link files by hand, and nothing of the daemon checks them:
  what it writes is read back by the daemon's parser as the configuration it means, and the daemon's
  renderer makes the very same link files from it.
\<close>

section \<open>The leading comment\<close>

fun no_close :: "string \<Rightarrow> bool" where
  "no_close [] \<longleftrightarrow> True"
| "no_close (c # s) \<longleftrightarrow> \<not> (c = CHR ''*'' \<and> s \<noteq> [] \<and> hd s = CHR ''/'') \<and> no_close s"

lemma block_loop_at:
  assumes "at_text l (pre @ ''*/'' @ r) n" and "no_close pre"
  shows "\<exists>l'. block_loop p l = Inr (pre, l') \<and> at_text l' r (n + newlines pre)"
  using assms
proof (induction pre arbitrary: l n)
  case Nil
  have "at_text (eat l) (CHR ''/'' # r) n" using at_text_eat [of l "CHR ''*''"] Nil by simp
  then have "at_text (eat (eat l)) r n" using at_text_eat [of "eat l" "CHR ''/''"] by simp
  then show ?case using Nil at_text_peek_at [of l "''*/'' @ r" n 1]
    by (simp add: block_loop.simps [of p l])
next
  case (Cons c pre)
  have at: "at_text l (c # (pre @ ''*/'' @ r)) n" using Cons.prems(1) by simp
  have "at_text (eat l) (pre @ ''*/'' @ r) (n + newlines [c])" using at_text_eat [OF at] by auto
  then obtain l' where l': "block_loop p (eat l) = Inr (pre, l')" "at_text l' r (n + newlines [c] + newlines pre)"
    using Cons.IH [of "eat l" "n + newlines [c]"] Cons.prems(2) by auto
  have "peek_at l 1 = Some (hd (pre @ ''*/''))"
    using at_text_peek_at [OF at, of 1] by (cases pre) auto
  then have "\<not> (c = CHR ''*'' \<and> peek_at l 1 = Some (CHR ''/''))" using Cons.prems(2) by (cases pre) auto
  then show ?case using l' at_text_peek [OF at] by (auto simp: block_loop.simps [of p l])
qed

lemma round_block_comment:
  assumes at: "at_text l (''/*'' @ pre @ ''*/'' @ newline # r) n" and pre: "no_close pre"
  obtains ps' where
    "body_round t pfx opened None None \<lparr>ps_lexer = l, ps_peeked = None\<rparr> =
       Again t (Some (block_body pre)) None ps'"
    and "here ps' r None"
proof -
  have "skip_whitespace l = l"
    using at_text_peek [of l "CHR ''/''"] at by (simp add: skip_whitespace.simps [of l] is_whitespace_def code_def)
  moreover have "at_text (eat (eat l)) (pre @ ''*/'' @ newline # r) n"
    using at at_text_eat [of l "CHR ''/''"] at_text_eat [of "eat l" "CHR ''*''"] by simp
  then obtain l' where l': "block_loop (pos_of l) (eat (eat l)) = Inr (pre, l')"
    "at_text l' (newline # r) (n + newlines pre)"
    using block_loop_at [OF _ pre] by blast
  moreover have "peek_at l 1 = Some (CHR ''*'')" "peek l = Some (CHR ''/'')"
    using at_text_peek_at [OF at, of 1] at_text_peek [of l "CHR ''/''"] at by simp_all
  ultimately have nt: "next_token l =
      Inr (Some \<lparr>sp_token = TokComment (block_body pre), sp_pos = pos_of l\<rparr>, l')"
    by (simp add: next_token_def block_comment_def Let_def)
  have "here \<lparr>ps_lexer = l', ps_peeked = None\<rparr> r None"
    using ps_at_fresh [OF l'(2)] by (intro hereI [of _ "[newline]"]) auto
  then show thesis
    by (rule that [rotated])
      (simp add: body_round_def ps_peek_def ps_advance_def nt on_line_def add_pending_def)
qed

section \<open>Blocks that arrive in any order\<close>

lemma ensure_interior_fresh:
  "dir_at p c m t \<Longrightarrow> bm_get m s = None \<Longrightarrow>
   ensure_interior (p @ [s]) t = (put_dir p c (bm_insert s (Node None (Interior [])) m) t, Inr ())"
  by (simp add: ensure_interior_def with_parent_at node_interior_def)

lemma put_dir_fresh:
  assumes "dir_at p c0 m0 t"
  shows "put_dir (p @ [s]) e k (put_dir p c (bm_insert s (Node d (Interior m')) m) t) =
      put_dir p c (bm_insert s (Node e (Interior k)) m) t"
    and "dir_at (p @ [s]) d m' (put_dir p c (bm_insert s (Node d (Interior m')) m) t)"
proof -
  let ?t = "put_dir p c (bm_insert s (Node d (Interior m')) m) t"
  have at: "dir_at p c (bm_insert s (Node d (Interior m')) m) ?t" using assms by (rule dir_at_put_dir)
  have get: "bm_get (bm_insert s (Node d (Interior m')) m) s = Some (Node d (Interior m'))"
    by (simp add: bm_get_insert)
  show "dir_at (p @ [s]) d m' ?t" using dir_at_child [OF at get] by (simp add: dir_at_def)
  have "node_get p (root ?t) = Some (Node c (Interior (bm_insert s (Node d (Interior m')) m)))"
    using at by (simp add: dir_at_def)
  from node_put_child [OF this get, of "Node e (Interior k)"]
  have "put_dir (p @ [s]) e k ?t = put_dir p c (bm_insert s (Node e (Interior k)) m) ?t"
    by (simp add: put_dir_def bm_insert_twice)
  then show "put_dir (p @ [s]) e k ?t = put_dir p c (bm_insert s (Node e (Interior k)) m) t" by simp
qed

text \<open>An instance of a tag node whose instances are not in order.\<close>

lemma reads_unordered_instance:
  assumes name: "below m name" and key: "bm_get is key = None"
    and out: "reads out (p @ [name, key]) (Suc d) None [] k" and depth: "Suc d \<le> MAX_DEPTH"
  shows "reads (indent d @ quote name @ '' '' @ quote key @ '' {'' @ [newline] @ out @ close_line d) p d c
    (with_instances m name is) (with_instances m name (bm_insert key (Node None (Interior k)) is))"
proof -
  have "\<exists>t1. ensure_interior (p @ name # [key]) (put_dir p c (with_instances m name is) t) = (t1, Inr ()) \<and>
      (\<exists>c1 m1 t2. attach t1 (p @ name # [key]) None = put_dir (p @ name # [key]) None [] t2 \<and>
         dir_at (p @ name # [key]) c1 m1 t2 \<and>
         put_dir (p @ name # [key]) None k t2 =
         put_dir p c (with_instances m name (bm_insert key (Node None (Interior k)) is)) t)"
    if t: "dir_at p c0 m0 t" for t c0 m0
  proof -
    let ?x = "put_dir p c (m @ [(name, Node None (Interior is))]) t"
    let ?t1 = "put_dir (p @ [name]) None (bm_insert key (Node None (Interior [])) is) ?x"
    have at: "dir_at p c (m @ [(name, Node None (Interior is))]) ?x" using t by (rule dir_at_put_dir)
    note x = dir_at_last [OF at name] and put_x = put_dir_last [OF at name]
    have "ensure_interior (p @ [name, key]) (put_dir p c (with_instances m name is) t) = (?t1, Inr ())"
    proof (cases "is = []")
      case True
      then show ?thesis
        using ensure_interior_two [OF dir_at_put_dir [OF t] name] put_x
        by (simp add: with_instances_def)
    next
      case False
      then show ?thesis using ensure_interior_fresh [OF x key] by (simp add: with_instances_def)
    qed
    moreover have "put_dir (p @ [name, key]) None k' ?t1 =
        put_dir (p @ [name]) None (bm_insert key (Node None (Interior k')) is) ?x" for k'
      using put_dir_fresh(1) [OF x, of key None k'] by simp
    moreover have "dir_at (p @ [name, key]) None [] ?t1" using put_dir_fresh(2) [OF x, of key None "[]"] by simp
    moreover have "put_dir (p @ [name]) None (bm_insert key (Node None (Interior k)) is) ?x =
        put_dir p c (with_instances m name (bm_insert key (Node None (Interior k)) is)) t"
      using put_x [of None "bm_insert key (Node None (Interior k)) is"]
      by (cases "bm_insert key (Node None (Interior k)) is = []")
        (auto simp: with_instances_def dest: arg_cong [of _ _ "\<lambda>m. bm_get m key"] simp: bm_get_insert)
    ultimately show ?thesis
      by (intro exI [of _ ?t1] exI [of _ None] exI [of _ "[]"] conjI) (simp_all add: attach_def)
  qed
  from reads_block [where vs = "[key]" and e = None, OF this] out depth show ?thesis
    by (simp add: comment_def)
qed

section \<open>What the installer writes, read back\<close>

definition port_node :: "port \<Rightarrow> node" where
  "port_node p = Node None (Interior [(''hw-id'', Node None (Values [pt_mac p]))])"

definition port_kids :: "kids \<Rightarrow> (string \<times> port) list \<Rightarrow> kids" where
  "port_kids m named = foldl (\<lambda>m (name, p). bm_insert name (port_node p) m) m named"

definition admin_node :: "string \<Rightarrow> node" where
  "admin_node hash =
     Node None (Interior [(''user'', Node None (Interior [(DEFAULT_USER, Node None (Interior
       [(''authentication'', Node None (Interior [(''encrypted-password'', Node None (Values [hash]))])),
        (''full-name'', Node None (Values [''Nightshade administrator'']))]))]))])"

definition seed_comment :: string where
  "seed_comment =
     ''Written by the Nightshade installer. This is the configuration the'' @ [newline] @
     ''system boots with; edit it with `configure` rather than by hand.''"

definition seed_block :: string where
  "seed_block =
     '' Written by the Nightshade installer. This is the configuration the'' @ [newline] @
     '' * system boots with; edit it with `configure` rather than by hand. ''"

lemma seed_block: "block_body seed_block = seed_comment" "no_close seed_block"
  by code_simp+

definition interface_kids :: "(string \<times> port) list \<Rightarrow> kids" where
  "interface_kids named =
     (if named = [] then [] else [(''ethernet'', Node None (Interior (port_kids [] named)))]) @
     [(''loopback'', Node None (Interior [(''lo'', Node None (Interior []))]))]"

definition system_kids :: "string \<Rightarrow> string option \<Rightarrow> kids" where
  "system_kids hostname hash =
     (''host-name'', Node None (Values [hostname])) #
     (case hash of None \<Rightarrow> [] | Some hash \<Rightarrow> [(''login'', admin_node hash)])"

definition seed_tree :: "install_config \<Rightarrow> (string \<times> port) list \<Rightarrow> string option \<Rightarrow> config_tree" where
  "seed_tree config named hash =
     \<lparr>root = Node None (Interior
       [(''interfaces'', Node (Some seed_comment) (Interior (interface_kids named))),
        (''system'', Node None (Interior (system_kids (ic_hostname config) hash)))])\<rparr>"

text \<open>What may be written bare, and a hash that quoting only has to put in quotes.\<close>

definition plain_hash :: "string \<Rightarrow> bool" where
  "plain_hash h \<longleftrightarrow> \<not> is_bare h \<and> list_all (\<lambda>c. 32 \<le> code c \<and> code c < 127) h"

lemma debug_quote: "plain_hash h \<Longrightarrow> debug_str h = quote h"
proof -
  assume h: "plain_hash h"
  have "escape_debug quote_char c = quote_escape c" if "c \<in> set h" for c
  proof -
    have "32 \<le> code c" "code c < 127" using h that by (auto simp: plain_hash_def list_all_iff)
    then have "c \<noteq> newline" by (auto simp: code_def)
    then show ?thesis
      using \<open>32 \<le> code c\<close> \<open>code c < 127\<close> by (simp add: escape_debug_def quote_escape_def is_control_def)
  qed
  then have "concat (map (escape_debug quote_char) h) = concat (map quote_escape h)"
    by (intro arg_cong [of _ _ concat] map_cong) simp_all
  then show ?thesis using h by (simp add: debug_str_def quote_def plain_hash_def)
qed

definition seed_tags :: tag_oracle where
  "seed_tags p \<longleftrightarrow> p = [''interfaces'', ''loopback''] \<or> p = [''system'', ''login'', ''user'']"

definition port_text :: "string \<times> port \<Rightarrow> string" where
  "port_text x =
     (case x of (name, port) \<Rightarrow>
       ''    ethernet '' @ name @ '' {'' @ [newline] @
       ''        hw-id '' @ pt_mac port @ [newline] @
       ''    }'' @ [newline])"

lemma indents: "indent 0 = []" "indent (Suc 0) = ''    ''" "indent 2 = ''        ''"
  by (simp_all add: indent_def numeral_2_eq_2)

lemma reads_port:
  assumes "bm_get is name = None" and "is_bare name" and "is_bare (pt_mac p)"
  shows "reads (port_text (name, p)) [''interfaces''] 1 c
    (with_instances [] ''ethernet'' is) (with_instances [] ''ethernet'' (bm_insert name (port_node p) is))"
proof -
  have hw: "quote ''hw-id'' = ''hw-id''" "quote ''ethernet'' = ''ethernet''" by code_simp+
  have "reads (entry seed_tags ''hw-id'' (Node None (Values [pt_mac p]))
      ([''interfaces'', ''ethernet'', name] @ [''hw-id'']) 2)
      [''interfaces'', ''ethernet'', name] 2 None [] ([] @ [(''hw-id'', Node None (Values [pt_mac p]))])"
    by (rule reads_leaf) (simp_all add: below_def)
  then have "reads (''        hw-id '' @ pt_mac p @ [newline]) ([''interfaces''] @ [''ethernet'', name]) (Suc 1) None []
      [(''hw-id'', Node None (Values [pt_mac p]))]"
    using assms hw by (simp add: comment_def leaf_line_def quote_def indents numeral_2_eq_2 [symmetric])
  then have "reads (indent 1 @ quote ''ethernet'' @ '' '' @ quote name @ '' {'' @ [newline] @
      (''        hw-id '' @ pt_mac p @ [newline]) @ close_line 1) [''interfaces''] 1 c
      (with_instances [] ''ethernet'' is) (with_instances [] ''ethernet'' (bm_insert name (port_node p) is))"
    unfolding port_node_def
    by (intro reads_unordered_instance) (simp_all add: assms(1) below_def MAX_DEPTH_def)
  moreover have "indent 1 @ quote ''ethernet'' @ '' '' @ quote name @ '' {'' @ [newline] @
      (''        hw-id '' @ pt_mac p @ [newline]) @ close_line 1 = port_text (name, p)"
    using assms(2) by (simp add: hw port_text_def close_line_def indents quote_def [of name])
  ultimately show ?thesis by simp
qed

lemma lexes_port: "lexes (port_text x @ r)"
proof (cases x)
  case (Pair name p)
  have "lexes (''    '' @ quote ''ethernet'' @ '' '' @ name @ '' {'' @ [newline] @
      ''        hw-id '' @ pt_mac p @ [newline] @ ''    }'' @ [newline] @ r)"
    by (intro lexes_space lexes_value) simp_all
  moreover have "quote ''ethernet'' = ''ethernet''" by code_simp
  ultimately show ?thesis by (simp add: Pair port_text_def)
qed

lemma lexes_ports: "lexes r \<Longrightarrow> lexes (concat (map port_text named) @ r)"
  by (cases named) (simp_all add: lexes_port)

lemma reads_ports:
  assumes "distinct (map fst named)" and "\<forall>(name, p) \<in> set named. bm_get is name = None \<and> is_bare name \<and> is_bare (pt_mac p)"
  shows "reads (concat (map port_text named)) [''interfaces''] 1 c
    (with_instances [] ''ethernet'' is) (with_instances [] ''ethernet'' (port_kids is named))"
  using assms
proof (induction named arbitrary: "is")
  case Nil
  then show ?case by (simp add: port_kids_def reads_Nil)
next
  case (Cons x named)
  obtain name p where x: "x = (name, p)" by (cases x)
  have "reads (concat (map port_text named)) [''interfaces''] 1 c
      (with_instances [] ''ethernet'' (bm_insert name (port_node p) is))
      (with_instances [] ''ethernet'' (port_kids (bm_insert name (port_node p) is) named))"
    using Cons.prems by (intro Cons.IH) (force simp: x bm_get_insert split: prod.splits)+
  moreover have "reads (port_text x) [''interfaces''] 1 c
      (with_instances [] ''ethernet'' is) (with_instances [] ''ethernet'' (bm_insert name (port_node p) is))"
    using Cons.prems reads_port [of "is" name p c] by (simp add: x)
  ultimately have "reads (port_text x @ concat (map port_text named)) [''interfaces''] 1 c
      (with_instances [] ''ethernet'' is)
      (with_instances [] ''ethernet'' (port_kids (bm_insert name (port_node p) is) named))"
    by (intro reads_append lexes_ports)
  then show ?case by (simp add: x port_kids_def)
qed

text \<open>The two blocks that do not depend on the ports are rendered ones.\<close>

definition loopback_text :: string where
  "loopback_text = ''    loopback lo {'' @ [newline] @ ''    }'' @ [newline]"

lemma loopback_rendered:
  "loopback_text = entry seed_tags ''loopback'' (Node None (Interior [(''lo'', Node None (Interior []))]))
     ([''interfaces''] @ [''loopback'']) 1"
  by code_simp

lemma bm_insert_nonempty: "bm_insert k v m \<noteq> []"
  by (cases "(k, v, m)" rule: bm_insert.cases) auto

lemma reads_interfaces:
  assumes "distinct (map fst named)" and "\<forall>(name, p) \<in> set named. is_bare name \<and> is_bare (pt_mac p)"
  shows "reads (concat (map port_text named) @ loopback_text) [''interfaces''] 1 c [] (interface_kids named)"
proof -
  have kids: "port_kids [] named = [] \<longleftrightarrow> named = []"
    by (cases named rule: rev_cases) (auto simp: port_kids_def bm_insert_nonempty)
  have eth: "''ethernet'' < (''loopback'' :: string)" by code_simp
  have "reads (concat (map port_text named)) [''interfaces''] 1 c
    (with_instances [] ''ethernet'' []) (with_instances [] ''ethernet'' (port_kids [] named))"
    using assms by (intro reads_ports) auto
  moreover have "reads loopback_text [''interfaces''] 1 c
    (with_instances [] ''ethernet'' (port_kids [] named))
    (with_instances [] ''ethernet'' (port_kids [] named) @
       [(''loopback'', Node None (Interior [(''lo'', Node None (Interior []))]))])"
    unfolding loopback_rendered
    by (rule reads_render(3) [OF refl]) (use eth in \<open>auto simp: below_def with_instances_def MAX_DEPTH_def bm_ok_Cons\<close>)
  moreover have "lexes (loopback_text @ r)" for r unfolding loopback_rendered by (rule lexes_entry)
  ultimately have "reads (concat (map port_text named) @ loopback_text) [''interfaces''] 1 c
    (with_instances [] ''ethernet'' [])
    (with_instances [] ''ethernet'' (port_kids [] named) @
       [(''loopback'', Node None (Interior [(''lo'', Node None (Interior []))]))])"
    by (rule reads_append)
  then show ?thesis using kids by (cases "named = []") (simp_all add: interface_kids_def with_instances_def)
qed

definition system_text :: "string \<Rightarrow> string option \<Rightarrow> string" where
  "system_text hostname hash =
     entry seed_tags ''system'' (Node None (Interior (system_kids hostname hash))) ([] @ [''system'']) 0"

lemma seed_text:
  assumes "is_bare (ic_hostname config)" and "\<forall>h. hash = Some h \<longrightarrow> plain_hash h"
  shows "seed_config_boot config named hash =
    ''/*'' @ seed_block @ ''*/'' @ [newline] @
    ''interfaces {'' @ [newline] @ concat (map port_text named) @ loopback_text @ ''}'' @ [newline] @
    system_text (ic_hostname config) hash"
proof -
  have q: "quote ''system'' = ''system''" "quote ''host-name'' = ''host-name''" "quote ''login'' = ''login''"
    "quote ''user'' = ''user''" "quote ''nightshade'' = ''nightshade''" "quote ''authentication'' = ''authentication''"
    "quote ''encrypted-password'' = ''encrypted-password''" "quote ''full-name'' = ''full-name''"
    "quote ''Nightshade administrator'' = [quote_char] @ ''Nightshade administrator'' @ [quote_char]"
    by code_simp+
  have "system_text (ic_hostname config) hash =
    ''system {'' @ [newline] @
    ''    host-name '' @ ic_hostname config @ [newline] @
     (case hash of
        None \<Rightarrow> ''''
      | Some hash \<Rightarrow>
          ''    login {'' @ [newline] @
          ''        user '' @ DEFAULT_USER @ '' {'' @ [newline] @
          ''            authentication {'' @ [newline] @
          ''                encrypted-password '' @ quote hash @ [newline] @
          ''            }'' @ [newline] @
          ''            full-name '' @ [quote_char] @ ''Nightshade administrator'' @ [quote_char] @ [newline] @
          ''        }'' @ [newline] @
          ''    }'' @ [newline]) @
     ''}'' @ [newline]"
    using assms(1)
    by (cases hash)
      (simp_all add: system_text_def system_kids_def admin_node_def compact_def seed_tags_def comment_def
        leaf_line_def close_line_def indent_def quote_def [of "ic_hostname config"] path_child_def q DEFAULT_USER_def)
  then show ?thesis
    using assms(2) debug_quote
    by (cases hash) (simp_all add: seed_config_boot_def port_text_def [abs_def] loopback_text_def seed_block_def)
qed

lemma seed_parses:
  assumes host: "is_bare (ic_hostname config)" and hash: "\<forall>h. hash = Some h \<longrightarrow> plain_hash h"
    and names: "distinct (map fst named)" and ports: "\<forall>(name, p) \<in> set named. is_bare name \<and> is_bare (pt_mac p)"
  shows "parse (seed_config_boot config named hash) = Inr (seed_tree config named hash)"
proof -
  let ?src = "seed_config_boot config named hash"
  let ?l = "lexer_new ?src" and ?ps = "\<lparr>ps_lexer = lexer_new ?src, ps_peeked = None\<rparr>"
  let ?sys = "system_text (ic_hostname config) hash"
  let ?ifs = "concat (map port_text named) @ loopback_text"
  let ?i = "interface_kids named" and ?s = "system_kids (ic_hostname config) hash"
  have "?src = ''/*'' @ seed_block @ ''*/'' @ newline # (''interfaces {'' @ [newline] @ ?ifs @ ''}'' @ [newline] @ ?sys)"
    unfolding seed_text [OF host hash] by (simp del: append_Cons)
  then have at: "at_text ?l (''/*'' @ seed_block @ ''*/'' @ newline # (''interfaces {'' @ [newline] @ ?ifs @ ''}'' @ [newline] @ ?sys)) 1"
    using at_text_new [of ?src] by argo
  obtain ps1 where 1:
    "body_round tree_new [] None None None ?ps = Again tree_new (Some (block_body seed_block)) None ps1"
    "here ps1 (''interfaces {'' @ [newline] @ ?ifs @ ''}'' @ [newline] @ ?sys) None"
    by (rule round_block_comment [OF at seed_block(2)])
  have new: "dir_at [] None [] tree_new" "put_dir [] None [] tree_new = tree_new"
    by (simp_all add: dir_at_def put_dir_def tree_new_def node_interior_def)
  have below: "below [] ''interfaces''" by (simp add: below_def)
  have ensure: "ensure_interior ([] @ [''interfaces'']) tree_new =
      (put_dir [] None ([] @ [(''interfaces'', Node None (Interior []))]) tree_new, Inr ())"
    by (rule ensure_interior_at [OF new(1) below])
  obtain c1 m1 t2 where t2:
    "attach (put_dir [] None ([] @ [(''interfaces'', Node None (Interior []))]) tree_new) ([] @ [''interfaces''])
       (Some seed_comment) = put_dir ([] @ [''interfaces'']) (Some seed_comment) [] t2"
    "dir_at ([] @ [''interfaces'']) c1 m1 t2"
    "put_dir ([] @ [''interfaces'']) (Some seed_comment) ?i t2 =
     put_dir [] None ([] @ [(''interfaces'', Node (Some seed_comment) (Interior ?i))]) tree_new"
    using new_block [OF new(1) below, of None "Some seed_comment" ?i] by blast
  have "quote ''interfaces'' = ''interfaces''" by code_simp
  then have "here ps1 (indent 0 @ quote ''interfaces'' @ more_values [] @ '' {'' @ newline #
      (?ifs @ close_line 0 @ ?sys)) None"
    using 1(2) by (simp add: indent_def close_line_def)
  then obtain ps2 q where 2:
    "body_round tree_new [] None (Some seed_comment) None ps1 =
       Block (attach (put_dir [] None ([] @ [(''interfaces'', Node None (Interior []))]) tree_new)
         ([] @ [''interfaces'']) (Some seed_comment)) ([] @ [''interfaces'']) q ps2"
    "here ps2 (?ifs @ close_line 0 @ ?sys) None"
    by (rule round_open [OF _ _ ensure]) simp
  have ifs: "reads ?ifs ([] @ [''interfaces'']) (Suc 0) (Some seed_comment) [] ?i"
    using reads_interfaces [OF names ports] by simp
  obtain ps3 where 3: "here ps3 ?sys None"
    "body_loop tree_new [] 0 None (Some seed_comment) None ps1 =
     body_loop (put_dir ([] @ [''interfaces'']) (Some seed_comment) ?i t2) [] 0 None None None ps3"
    using block_loop [OF 2(1) [unfolded t2(1)] 2(2) _ ifs t2(2)] by (auto simp: MAX_DEPTH_def)
  let ?m = "[(''interfaces'', Node (Some seed_comment) (Interior ?i))]"
  have sys: "reads ?sys [] 0 None ?m (?m @ [(''system'', Node None (Interior ?s))])"
    unfolding system_text_def
  proof (rule reads_render(3) [OF refl])
    have "''interfaces'' < (''system'' :: string)" "''host-name'' < (''login'' :: string)"
      "''authentication'' < (''full-name'' :: string)" by code_simp+
    then show "below ?m ''system''" "node_ok (Node None (Interior ?s))" "depth_ok (Suc 0) (Node None (Interior ?s))"
      by (auto simp: below_def system_kids_def admin_node_def MAX_DEPTH_def bm_ok_Cons split: option.splits)
  qed
  have "here ps3 (?sys @ []) None" using 3(1) by simp
  then obtain previous' ps4 where 4: "here ps4 [] previous'"
    "body_loop (put_dir [] None ?m tree_new) [] 0 None None None ps3 =
     body_loop (put_dir [] None (?m @ [(''system'', Node None (Interior ?s))]) tree_new) [] 0 None None previous' ps4"
    by (rule readsD [OF sys new(1) _ lexes_Nil])
  let ?t = "put_dir [] None (?m @ [(''system'', Node None (Interior ?s))]) tree_new"
  obtain ps5 where "body_round ?t [] None None previous' ps4 = Leave (Inr (?t, ps5))"
    using round_end [OF 4(1)] .
  then have "body_loop ?t [] 0 None None previous' ps4 = Inr (?t, ps5)"
    using body_loop.simps [of ?t "[]" 0 None None previous' ps4] by simp
  moreover have "body_loop tree_new [] 0 None None None ?ps =
      body_loop tree_new [] 0 None (Some seed_comment) None ps1"
    using 1(1) by (simp add: body_loop.simps [of tree_new "[]" 0 None None None ?ps] seed_block(1))
  ultimately have "body_loop tree_new [] 0 None None None ?ps = Inr (?t, ps5)"
    using 3(2) 4(2) t2(3) by simp
  then show ?thesis
    by (simp add: parse_def body.simps MAX_DEPTH_def seed_tree_def put_dir_def tree_new_def)
qed

end
