(* ===== verification/Seed_Laws.thy ===== *)
theory Seed_Laws
  imports Seed_Reads Networkd
begin

text \<open>
  What the installer seeds is what the daemon would have written: the daemon's parser reads the seeded
  \<open>config.boot\<close>, and from what it reads the daemon's renderer makes the seeded link files.
\<close>

section \<open>Names and addresses that need no quotes\<close>

lemma split_on_chars: "c \<in> set s \<Longrightarrow> c = d \<or> (\<exists>w \<in> set (split_on d s). c \<in> set w)"
proof (induction s)
  case (Cons x s)
  then show ?case by (cases "split_on d s") (auto split: if_splits)
qed simp

lemma hostname_bare: "validate_hostname name = Inr () \<Longrightarrow> is_bare name"
proof -
  assume v: "validate_hostname name = Inr ()"
  then have "List.map_filter label_error (split_on (CHR ''.'') name) = []"
    by (auto simp: validate_hostname_def split: if_splits list.splits)
  then have labels: "label_error l = None" if "l \<in> set (split_on (CHR ''.'') name)" for l
    using that mem_map_filter [of _ label_error "split_on (CHR ''.'') name"] by (cases "label_error l") auto
  have "is_ascii_alphanumeric c \<or> c = CHR ''-''" if "l \<in> set (split_on (CHR ''.'') name)" "c \<in> set l" for l c
    using labels [OF that(1)] that(2)
    by (auto simp: label_error_def find_None_iff split: if_splits option.splits)
  then have "is_bare_char c" if "c \<in> set name" for c
    using split_on_chars [OF that, of "CHR ''.''"] by (auto simp: is_bare_char_def)
  moreover have "name \<noteq> []" using v by (auto simp: validate_hostname_def)
  ultimately show ?thesis by (simp add: is_bare_def list_all_iff)
qed

definition mac_text :: "string \<Rightarrow> bool" where
  "mac_text m \<longleftrightarrow> m \<noteq> [] \<and> list_all (\<lambda>c. is_ascii_hexdigit c \<or> c = CHR '':'') m"

lemma mac_bare: "mac_text m \<Longrightarrow> is_bare m"
  by (auto simp: mac_text_def is_bare_def list_all_iff is_bare_char_def char_class)

lemma eth_bare: "is_bare (''eth'' @ show_nat i)"
proof -
  have "is_bare_char c" if "c \<in> set (show_nat i)" for c
    using show_nat_digits [OF that] by (simp add: is_bare_char_def is_ascii_alphanumeric_def)
  moreover have "is_bare ''eth''" by code_simp
  ultimately show ?thesis by (simp add: is_bare_def list_all_iff)
qed

lemma assign_names_fst: "map fst (assign_names ports) = map (\<lambda>i. ''eth'' @ show_nat i) [0..<length ports]"
proof -
  have "map fst (assign_names ports) = map (\<lambda>i. ''eth'' @ show_nat i) (map fst (enumerate 0 ports))"
    unfolding assign_names_def map_map comp_def split_def fst_conv ..
  then show ?thesis unfolding map_fst_enumerate by simp
qed

lemma assign_names_snd: "(name, p) \<in> set (assign_names ports) \<Longrightarrow> p \<in> set ports"
  by (auto simp: assign_names_def in_set_enumerate_eq)

lemma assign_names_distinct: "distinct (map fst (assign_names ports))"
  unfolding assign_names_fst by (auto simp: distinct_map inj_on_def dest: show_nat_inj)

lemma assign_names_bare: "(name, p) \<in> set (assign_names ports) \<Longrightarrow> is_bare name"
proof -
  assume "(name, p) \<in> set (assign_names ports)"
  then have "name \<in> set (map fst (assign_names ports))" by force
  then obtain i where "name = ''eth'' @ show_nat i" unfolding assign_names_fst by auto
  then show ?thesis using eth_bare by simp
qed

section \<open>The ports of the tree\<close>

lemma port_kids_get:
  "distinct (map fst named) \<Longrightarrow>
   bm_get (port_kids m named) k =
     (case bm_get named k of Some p \<Rightarrow> Some (port_node p) | None \<Rightarrow> bm_get m k)"
proof (induction named arbitrary: m)
  case (Cons x named)
  obtain n p where x: "x = (n, p)" by (cases x)
  then have "bm_get named n = None" using Cons.prems by (simp add: map_of_eq_None_iff)
  then show ?case using Cons by (auto simp: port_kids_def bm_get_insert x split: option.splits)
qed (simp add: port_kids_def)

lemma port_kids_ok: "bm_ok m \<Longrightarrow> bm_ok (port_kids m named)"
  by (induction named arbitrary: m) (auto simp: port_kids_def bm_ok_insert)

lemma port_kids_set:
  assumes "distinct (map fst named)"
  shows "(name, n) \<in> set (port_kids [] named) \<longleftrightarrow> (\<exists>p. (name, p) \<in> set named \<and> n = port_node p)"
proof -
  have "(name, n) \<in> set (port_kids [] named) \<longleftrightarrow> bm_get (port_kids [] named) name = Some n"
    using bm_ok_distinct [OF port_kids_ok [OF bm_ok_Nil]] by simp
  also have "\<dots> \<longleftrightarrow> (\<exists>p. bm_get named name = Some p \<and> n = port_node p)"
    using port_kids_get [OF assms, of "[]" name] by (auto split: option.splits)
  finally show ?thesis using assms by simp
qed

section \<open>The link files the daemon makes of them\<close>

lemma port_link: "link_file name (port_node p) = Some (seed_link_file name p)"
  by (simp add: link_file_def leaf_of_def child_def port_node_def node_value_def ini_key_def ini_section_def
      ini_new_def ini_maybe_def ini_finish_def seed_link_file_def MANAGED_HEADER_def managed_header_def)

lemma no_link: "link_file name (Node None (Interior [])) = None"
  by (simp add: link_file_def leaf_of_def child_def)

lemma distinct_keys:
  "distinct (map fst xs) \<Longrightarrow> inj g \<Longrightarrow> distinct (map fst (map (\<lambda>(a, b). (g a, h a b)) xs))"
proof (induction xs)
  case (Cons x xs)
  then show ?case by (cases x) (force dest: injD)
qed simp

lemma physical_links:
  assumes "\<forall>(name, n) \<in> set K. link_file name n = Some (lk name n)" and "distinct (map fst K)"
  shows "bm_get (snd (fold (physical_step att) K out)) f =
    (case bm_get (map (\<lambda>(name, n). (physical_file name ''link'', lk name n)) K) f of
       Some x \<Rightarrow> Some x | None \<Rightarrow> bm_get (snd out) f)"
  using assms
proof (induction K arbitrary: out)
  case (Cons x K)
  obtain name n where x: "x = (name, n)" by (cases x)
  let ?L = "map (\<lambda>(name, n). (physical_file name ''link'', lk name n)) K"
  have fresh: "bm_get ?L (physical_file name ''link'') = None"
    using Cons.prems(2) by (force simp: x map_of_eq_None_iff physical_file_def)
  have "link_file name n = Some (lk name n)" using Cons.prems(1) by (simp add: x)
  then have "snd (physical_step att x out) = bm_insert (physical_file name ''link'') (lk name n) (snd out)"
    by (simp add: x physical_step_def split: prod.splits)
  then have "bm_get (snd (fold (physical_step att) (x # K) out)) f =
      (case bm_get ?L f of Some y \<Rightarrow> Some y
       | None \<Rightarrow> ((bm_get (snd out)) (physical_file name ''link'' \<mapsto> lk name n)) f)"
    using Cons.IH [of "physical_step att x out"] Cons.prems
    by (simp only: fold_simps) (simp add: bm_get_insert split: option.split)
  then show ?case using fresh by (auto simp: x split: option.splits)
qed simp

lemma seed_instances:
  "instances (seed_tree config named hash) ''ethernet'' = port_kids [] named"
  "instances (seed_tree config named hash) ''loopback'' = [(''lo'', Node None (Interior []))]"
  by (auto simp: Networkd.instances_def seed_tree_def tree_get_def interface_kids_def port_kids_def)

lemma seed_links:
  assumes names: "distinct (map fst named)"
  shows "bm_get (snd (networkd_files (seed_tree config named hash))) f =
    bm_get (map (\<lambda>(name, p). (''10-ns-'' @ name @ ''.link'', seed_link_file name p)) named) f"
proof -
  let ?t = "seed_tree config named hash" and ?K = "port_kids [] named"
  let ?lk = "\<lambda>name n. the (link_file name n)"
  let ?L = "map (\<lambda>(name, n). (physical_file name ''link'', ?lk name n)) ?K"
  let ?M = "map (\<lambda>(name, p). (''10-ns-'' @ name @ ''.link'', seed_link_file name p)) named"
  have "snd (networkd_files ?t) = snd (fold (physical_step (attachments_of ?t)) ?K ([], []))"
    by (simp add: networkd_files_def seed_instances physical_step_def no_link Let_def split: prod.splits)
  moreover have "\<forall>(name, n) \<in> set ?K. link_file name n = Some (?lk name n)"
    using port_kids_set [OF names] by (auto simp: port_link)
  moreover have K: "distinct (map fst ?K)" by (rule bm_ok_distinct [OF port_kids_ok [OF bm_ok_Nil]])
  ultimately have "bm_get (snd (networkd_files ?t)) f = bm_get ?L f"
    by (simp add: physical_links split: option.splits)
  also have "bm_get ?L f = bm_get ?M f"
  proof -
    have "distinct (map fst ?L)" "distinct (map fst ?M)"
      by (rule distinct_keys; use K names in \<open>simp add: inj_def physical_file_def\<close>)+
    moreover have "set ?L = set ?M"
    proof (intro set_eqI)
      fix y :: "string \<times> string"
      have "y \<in> set ?L \<longleftrightarrow> (\<exists>name n. (name, n) \<in> set ?K \<and> y = (physical_file name ''link'', ?lk name n))"
        by force
      also have "\<dots> \<longleftrightarrow> (\<exists>name p. (name, p) \<in> set named \<and> y = (physical_file name ''link'', seed_link_file name p))"
      proof -
        have "the (link_file name (port_node p)) = seed_link_file name p" for name p by (simp add: port_link)
        then show ?thesis unfolding port_kids_set [OF names] by metis
      qed
      also have "\<dots> \<longleftrightarrow> y \<in> set ?M" by (force simp: physical_file_def MANAGED_MARKER_def)
      finally show "y \<in> set ?L \<longleftrightarrow> y \<in> set ?M" .
    qed
    ultimately have "bm_get ?L = bm_get ?M" by (rule map_of_inject_set [THEN iffD2])
    then show ?thesis by (rule fun_cong)
  qed
  finally show ?thesis .
qed

text \<open>
  C34. What the installer leaves on the disk is what the daemon would have put there. For a host name
  the installer accepts, ports with addresses as the kernel prints them, and a password hash that
  needs no escapes, the seeded \<open>config.boot\<close> is read by the daemon's parser; the configuration
  it reads has that host name and that hash; and the link files the daemon renders from it are
  exactly the seeded ones, so the first commit renames no port. Ports may be any number.
\<close>

theorem first_boot_agrees:
  assumes "validate_hostname (ic_hostname config) = Inr ()"
    and "\<forall>p \<in> set ports. mac_text (pt_mac p)" and "\<forall>h. hash = Some h \<longrightarrow> plain_hash h"
  shows "\<exists>t. parse (seed_config_boot config (assign_names ports) hash) = Inr t \<and>
    tree_get [''system'', ''host-name''] t = Some (Node None (Values [ic_hostname config])) \<and>
    tree_get [''system'', ''login'', ''user'', DEFAULT_USER, ''authentication'', ''encrypted-password''] t =
      map_option (\<lambda>h. Node None (Values [h])) hash \<and>
    (\<forall>f. bm_get (snd (networkd_files t)) f =
      bm_get (map (\<lambda>(name, p). (''10-ns-'' @ name @ ''.link'', seed_link_file name p)) (assign_names ports)) f)"
proof -
  let ?t = "seed_tree config (assign_names ports) hash"
  have "parse (seed_config_boot config (assign_names ports) hash) = Inr ?t"
    using assms assign_names_distinct
    by (intro seed_parses) (auto intro: hostname_bare mac_bare assign_names_bare dest: assign_names_snd)
  moreover have "tree_get [''system'', ''host-name''] ?t = Some (Node None (Values [ic_hostname config]))"
    by (simp add: seed_tree_def tree_get_def system_kids_def)
  moreover have "tree_get [''system'', ''login'', ''user'', DEFAULT_USER, ''authentication'', ''encrypted-password''] ?t =
      map_option (\<lambda>h. Node None (Values [h])) hash"
    by (cases hash) (simp_all add: seed_tree_def tree_get_def system_kids_def admin_node_def)
  ultimately show ?thesis using seed_links [OF assign_names_distinct] by blast
qed

definition two_ports :: "port list" where
  "two_ports =
     [\<lparr>pt_kernel_name = ''ens33'', pt_mac = ''00:0c:29:00:00:01'', pt_slot = ''0000:02:01.0''\<rparr>,
      \<lparr>pt_kernel_name = ''ens36'', pt_mac = ''00:0c:29:00:00:02'', pt_slot = ''0000:02:02.0''\<rparr>]"

definition fw_config :: install_config where
  "fw_config = \<lparr>ic_disks = [], ic_hostname = ''fw-01'', ic_password = Secret ''12345678''\<rparr>"

theorem first_boot_agrees_witness:
  "\<exists>t. parse (seed_config_boot fw_config (assign_names two_ports) (Some ''$6$salt$checksum'')) = Inr t \<and>
    bm_get (snd (networkd_files t)) ''10-ns-eth1.link'' = Some (seed_link_file ''eth1'' (two_ports ! 1))"
proof -
  have "validate_hostname (ic_hostname fw_config) = Inr ()" "\<forall>p \<in> set two_ports. mac_text (pt_mac p)"
    "\<forall>h. Some ''$6$salt$checksum'' = Some h \<longrightarrow> plain_hash h"
    by (simp_all add: two_ports_def fw_config_def mac_text_def plain_hash_def validate_hostname_def label_error_def
        map_filter_simps utf8_len_def is_bare_def is_bare_char_def char_class code_def)
  from first_boot_agrees [OF this]
  obtain t where "parse (seed_config_boot fw_config (assign_names two_ports) (Some ''$6$salt$checksum'')) = Inr t"
    "bm_get (snd (networkd_files t)) ''10-ns-eth1.link'' =
      bm_get (map (\<lambda>(name, p). (''10-ns-'' @ name @ ''.link'', seed_link_file name p)) (assign_names two_ports))
        ''10-ns-eth1.link''"
    by blast
  moreover have "bm_get (map (\<lambda>(name, p). (''10-ns-'' @ name @ ''.link'', seed_link_file name p)) (assign_names two_ports))
      ''10-ns-eth1.link'' = Some (seed_link_file ''eth1'' (two_ports ! 1))"
    by code_simp
  ultimately show ?thesis by simp
qed

end
