(* ===== verification/Install_Steps.thy ===== *)
theory Install_Steps
  imports Seed
begin

text \<open>
  The steps of an installation: \<open>partition.rs\<close>, \<open>zfs.rs\<close>, \<open>rootfs.rs\<close>, \<open>target.rs\<close> and \<open>boot.rs\<close> under
  \<open>src/nightshade-installer/src/engine\<close>, and the \<open>Stepper\<close> of \<open>mod.rs\<close> they report to. The front end
  is a record of actions (\<open>Frontend\<close> of \<open>ui/mod.rs\<close>).
\<close>

section \<open>The front end and the progress report\<close>

datatype final_action = Reboot | Shell

datatype progress = StepProgress nat nat string | DetailProgress string | WarningProgress string

record 'w frontend =
  fe_welcome :: "('w, unit) act"
  fe_select_disks :: "disk list \<Rightarrow> ('w, nat list) act"
  fe_confirm_warning :: "string \<Rightarrow> ('w, unit) act"
  fe_confirm_destruction :: "disk list \<Rightarrow> layout \<Rightarrow> ('w, unit) act"
  fe_collect_password :: "string \<Rightarrow> ('w, secret) act"
  fe_collect_hostname :: "string \<Rightarrow> ('w, string) act"
  fe_confirm_summary :: "install_config \<Rightarrow> ('w, unit) act"
  fe_progress :: "progress \<Rightarrow> ('w, unit) act"
  fe_failed :: "ierror \<Rightarrow> string \<Rightarrow> ('w, unit) act"
  fe_finished :: "string \<Rightarrow> ('w, final_action) act"

definition STEPS :: "string list" where
  "STEPS =
     [''Partitioning disks'', ''Creating boot pool'', ''Creating root pool'', ''Creating datasets'',
      ''Creating EFI system partitions'', ''Copying the system'', ''Removing live-only components'',
      ''Configuring the target system'', ''Creating the nightshade account'',
      ''Preparing the boot environment'', ''Installing the bootloader'', ''Finalising'']"

definition next_step :: "('w, nat) act" where
  "next_step s = (Fine (Suc (is_step s)), s\<lparr>is_step := Suc (is_step s)\<rparr>)"

definition step_begin :: "'w frontend \<Rightarrow> string \<Rightarrow> ('w, unit) act" where
  "step_begin fe name =
     andthen next_step (\<lambda>index.
       in_turn [log_step name, fe_progress fe (StepProgress index (length STEPS) name)])"

definition step_detail :: "'w frontend \<Rightarrow> string \<Rightarrow> ('w, unit) act" where
  "step_detail fe detail = in_turn [log_info detail, fe_progress fe (DetailProgress detail)]"

definition step_warn :: "'w frontend \<Rightarrow> string \<Rightarrow> ('w, unit) act" where
  "step_warn fe warning = in_turn [log_warn warning, fe_progress fe (WarningProgress warning)]"

text \<open>A program with its arguments, on the live system and inside the target.\<close>

definition here_cmd :: "string \<Rightarrow> string list \<Rightarrow> cmd" where
  "here_cmd program as = cmd_args as (cmd_new program)"

definition target_cmd :: "string \<Rightarrow> string list \<Rightarrow> cmd" where
  "target_cmd program as = cmd_args as (in_chroot TARGET (cmd_new program))"

definition unlines :: "string list \<Rightarrow> string" where
  "unlines ls = concat (map (\<lambda>l. l @ [newline]) ls)"

fun show_octal :: "nat \<Rightarrow> string" where
  "show_octal n = (if n < 8 then [char_of (n + 48)] else show_octal (n div 8) @ [char_of (n mod 8 + 48)])"

declare show_octal.simps [simp del]

section \<open>Partitions\<close>

definition prepare :: "'w box \<Rightarrow> disk \<Rightarrow> ('w, unit) act" where
  "prepare b d =
     (let dev = dk_path d
      in in_turn
        [run_ok b (here_cmd ''sgdisk'' [''--zap-all'', dev]),
         run_ok b (here_cmd ''wipefs'' [''--all'', dev]),
         run_ok b (here_cmd ''sgdisk''
           [''-n'' @ show_nat PART_ESP @ '':0:'' @ ESP_SIZE,
            ''-t'' @ show_nat PART_ESP @ '':'' @ TYPE_ESP,
            ''-c'' @ show_nat PART_ESP @ '':EFI System'',
            ''-n'' @ show_nat PART_BPOOL @ '':0:'' @ BPOOL_SIZE,
            ''-t'' @ show_nat PART_BPOOL @ '':'' @ TYPE_BPOOL,
            ''-c'' @ show_nat PART_BPOOL @ '':nightshade boot'',
            ''-n'' @ show_nat PART_RPOOL @ '':0:0'',
            ''-t'' @ show_nat PART_RPOOL @ '':'' @ TYPE_RPOOL,
            ''-c'' @ show_nat PART_RPOOL @ '':nightshade root'', dev])])"

text \<open>Every round sleeps, so the deadline is reached.\<close>

function wait_for :: "'w box \<Rightarrow> string \<Rightarrow> nat \<Rightarrow> ('w, unit) act" where
  "wait_for b path deadline s =
     (if bx_exists b (is_world s) path then (Fine (), s)
      else if is_clock s \<ge> deadline then
        (Failed (EnvironmentErr (''timed out waiting for '' @ path @ '' to appear after partitioning'')), s)
      else wait_for b path deadline (snd (sleep b 200 s)))"
  by pat_completeness auto
termination
  by (relation "measure (\<lambda>(b, path, deadline, s). deadline - is_clock s)") (auto simp: sleep_def Let_def)

declare wait_for.simps [simp del]

definition now :: "('w, nat) act" where
  "now s = (Fine (is_clock s), s)"

definition settle :: "'w box \<Rightarrow> install_config \<Rightarrow> ('w, unit) act" where
  "settle b c =
     in_turn
       [each (\<lambda>d. ignored (run_lenient b (here_cmd ''blockdev'' [''--rereadpt'', dk_path d]))) (ic_disks c),
        ignored (run_lenient b (here_cmd ''udevadm'' [''settle'', ''--timeout=30''])),
        andthen now (\<lambda>start.
          each (\<lambda>d. each (\<lambda>part. in_turn
              [wait_for b (disk_partition d part) (start + 30000),
               wait_for b (kernel_partition d part) (start + 30000)])
            [PART_ESP, PART_BPOOL, PART_RPOOL]) (ic_disks c)),
        log_info ''all partitions present'']"

section \<open>Pools and datasets\<close>

definition release_existing_pools :: "'w box \<Rightarrow> 'w frontend \<Rightarrow> ('w, unit) act" where
  "release_existing_pools b fe =
     each (\<lambda>pool.
       andthen (attempt (run_lenient b (here_cmd ''zpool'' [''list'', ''-H'', ''-o'', ''name'', pool]))) (\<lambda>listed.
         if (case listed of Inr out \<Rightarrow> output_ok out | Inl _ \<Rightarrow> False) then
           in_turn
             [step_warn fe (pool @ '' is imported from an earlier attempt; exporting it''),
              ignored (run_lenient b (here_cmd ''zfs'' [''unmount'', ''-a''])),
              ignored (run_lenient b (here_cmd ''zpool'' [''export'', ''-f'', pool]))]
         else give ()))
       [BPOOL, RPOOL]"

definition create_bpool :: "'w box \<Rightarrow> install_config \<Rightarrow> ('w, unit) act" where
  "create_bpool b c =
     run_ok b (here_cmd ''zpool''
       ([''create'', ''-f'', ''-o'', ''compatibility=grub2'', ''-o'', ''ashift=12'', ''-o'', ''autotrim=on'',
         ''-O'', ''devices=off'', ''-O'', ''acltype=posixacl'', ''-O'', ''xattr=sa'', ''-O'', ''compression=lz4'',
         ''-O'', ''relatime=on'', ''-O'', ''canmount=off'', ''-O'', ''mountpoint=/boot'', ''-R'', TARGET, BPOOL] @
        vdev_args c PART_BPOOL))"

definition create_rpool :: "'w box \<Rightarrow> install_config \<Rightarrow> ('w, unit) act" where
  "create_rpool b c =
     run_ok b (here_cmd ''zpool''
       ([''create'', ''-f'', ''-o'', ''ashift=12'', ''-o'', ''autotrim=on'', ''-O'', ''acltype=posixacl'',
         ''-O'', ''xattr=sa'', ''-O'', ''dnodesize=auto'', ''-O'', ''compression=zstd'', ''-O'', ''atime=off'',
         ''-O'', ''canmount=off'', ''-O'', ''mountpoint=/'', ''-R'', TARGET, RPOOL] @
        vdev_args c PART_RPOOL))"

definition zfs_create :: "'w box \<Rightarrow> string list \<Rightarrow> ('w, unit) act" where
  "zfs_create b as = run_ok b (here_cmd ''zfs'' (''create'' # as))"

definition create_datasets :: "'w box \<Rightarrow> 'w frontend \<Rightarrow> ('w, unit) act" where
  "create_datasets b fe =
     in_turn
       [zfs_create b [''-o'', ''canmount=off'', ''-o'', ''mountpoint=none'', ''rpool/ROOT''],
        zfs_create b [''-o'', ''canmount=noauto'', ''-o'', ''mountpoint=/'', ROOT_DATASET],
        run_ok b (here_cmd ''zfs'' [''mount'', ROOT_DATASET]),
        step_detail fe (ROOT_DATASET @ '' mounted at '' @ TARGET),
        zfs_create b [''-o'', ''canmount=off'', ''-o'', ''mountpoint=none'', ''bpool/BOOT''],
        zfs_create b [''-o'', ''mountpoint=/boot'', BOOT_DATASET],
        step_detail fe (BOOT_DATASET @ '' mounted at '' @ TARGET @ ''/boot''),
        zfs_create b [''-o'', ''canmount=off'', ROOT_DATASET @ ''/var''],
        zfs_create b [ROOT_DATASET @ ''/var/log''],
        zfs_create b [ROOT_DATASET @ ''/var/tmp''],
        step_detail fe ''separate datasets for /var/log and /var/tmp'',
        run_ok b (here_cmd ''chmod'' [''1777'', TARGET @ ''/var/tmp''])]"

definition write_cachefile :: "'w box \<Rightarrow> 'w frontend \<Rightarrow> ('w, unit) act" where
  "write_cachefile b fe =
     (let dst_dir = TARGET @ ''/etc/zfs'';
          dst = dst_dir @ ''/zpool.cache''
      in in_turn
        [each (\<lambda>pool. run_ok b (here_cmd ''zpool'' [''set'', ''cachefile=/etc/zfs/zpool.cache'', pool])) [BPOOL, RPOOL],
         make_dirs b dst_dir (''creating '' @ dst_dir),
         copy_file b ''/etc/zfs/zpool.cache'' dst (''copying the pool cache to '' @ dst),
         step_detail fe ''pool cache written to /etc/zfs/zpool.cache'',
         log_info (''cachefile copied to '' @ dst)])"

section \<open>The system itself\<close>

definition LIVE_MANIFEST :: string where
  "LIVE_MANIFEST = ''/usr/share/nightshade/live-manifest''"

fun find_source :: "'w box \<Rightarrow> string list \<Rightarrow> ('w, string) act" where
  "find_source b [] =
     fail_with (EnvironmentErr (''Could not find the live squashfs to install from.'' @ [newline] @
       ''The installer must run from the Nightshade live medium.''))"
| "find_source b (ln # lns) =
     (case split_whitespace ln of
        dev # target # fstype # _ \<Rightarrow>
          if fstype \<noteq> ''squashfs'' then find_source b lns
          else
            andthen (look (\<lambda>w. bx_is_dir b w (under target ''usr/bin'') \<and>
                bx_exists b w (under target ''etc/os-release''))) (\<lambda>is_root.
              if is_root then andthen (log_info (''install source: '' @ target)) (\<lambda>_. give target)
              else
                andthen (log_warn (''ignoring squashfs at '' @ target @
                  '' : does not look like a root filesystem'')) (\<lambda>_. find_source b lns))
      | _ \<Rightarrow> find_source b lns)"

definition rootfs_source :: "'w box \<Rightarrow> ('w, string) act" where
  "rootfs_source b =
     andthen (read_file b ''/proc/mounts'' ''reading /proc/mounts'') (\<lambda>mounts. find_source b (text_lines mounts))"

definition copy_to_target :: "'w box \<Rightarrow> string \<Rightarrow> string \<Rightarrow> ('w, unit) act" where
  "copy_to_target b source target =
     in_turn
       (run_ok b (here_cmd ''cp'' [''-a'', source @ ''/.'', target]) #
        map (\<lambda>required.
            andthen (look (\<lambda>w. bx_exists b w (under target required))) (\<lambda>there.
              if there then give ()
              else fail_with (EnvironmentErr
                (''the copied system is missing '' @ required @ ''; the copy did not complete''))))
          [''usr/bin'', ''etc/os-release'', ''sbin/init'', ''boot''])"

datatype manifest_line = PkgLine string | PathLine string | BadLine string

text \<open>\<open>split_once(char::is_whitespace)\<close>, then the two words the manifest knows.\<close>

definition manifest_entry :: "string \<Rightarrow> manifest_line" where
  "manifest_entry ln =
     (let kind = takeWhile (\<lambda>c. \<not> is_whitespace c) ln;
          value' = trim (drop (Suc (length kind)) ln)
      in if kind = ln then BadLine ln
         else if kind = ''pkg'' then PkgLine value'
         else if kind = ''path'' then PathLine value'
         else BadLine ln)"

definition manifest_entries :: "string \<Rightarrow> manifest_line list" where
  "manifest_entries m =
     map manifest_entry (filter (\<lambda>l. l \<noteq> [] \<and> \<not> starts_with l ''#'') (map trim (text_lines m)))"

definition remove_live_path :: "'w box \<Rightarrow> string \<Rightarrow> ('w, unit) act" where
  "remove_live_path b path =
     (let full = TARGET @ path
      in andthen (look (\<lambda>w. (bx_is_dir b w full, bx_exists b w full \<or> bx_is_symlink b w full))) (\<lambda>(dir, there).
           if dir then remove_tree b full
           else if there then remove_file b full
           else give ()))"

definition strip_live_layer :: "'w box \<Rightarrow> 'w frontend \<Rightarrow> ('w, unit) act" where
  "strip_live_layer b fe =
     andthen (look (\<lambda>w. read_text b w (TARGET @ LIVE_MANIFEST))) (\<lambda>r.
       case r of
         Inl e \<Rightarrow> step_warn fe (''no live manifest at '' @ LIVE_MANIFEST @ '' ('' @ e @ ''); live packages will remain'')
       | Inr m \<Rightarrow>
           (let es = manifest_entries m;
                packages = List.map_filter (\<lambda>e. case e of PkgLine p \<Rightarrow> Some p | _ \<Rightarrow> None) es;
                paths = List.map_filter (\<lambda>e. case e of PathLine p \<Rightarrow> Some p | _ \<Rightarrow> None) es
            in in_turn
              (map (\<lambda>e. case e of BadLine ln \<Rightarrow> step_warn fe (''ignoring unparseable live-manifest line: '' @ ln)
                 | _ \<Rightarrow> give ()) es @
               (if packages = [] then []
                else
                  [step_detail fe (''purging '' @ show_nat (length packages) @ '' live packages''),
                   andthen (run_lenient b (target_cmd ''apt-get'' ([''purge'', ''--yes'', ''--autoremove''] @ packages)))
                     (\<lambda>out. if output_ok out then give ()
                        else step_warn fe ''apt-get purge of live packages reported an error; see the log'')]) @
               map (remove_live_path b) paths @
               [step_detail fe (''removed '' @ show_nat (length paths) @ '' live-only paths''),
                remove_file b (TARGET @
                  ''/etc/systemd/system/multi-user.target.wants/nightshade-installer.service'')])))"

end
