(* ===== verification/Install_Target.thy ===== *)
theory Install_Target
  imports Install_Steps Constraints
begin

text \<open>
  \<open>target.rs\<close> and \<open>boot.rs\<close> under \<open>src/nightshade-installer/src/engine\<close>: the copied system is
  configured in place and made bootable.
\<close>

definition put_target_file :: "'w box \<Rightarrow> string \<Rightarrow> string \<Rightarrow> nat \<Rightarrow> string \<Rightarrow> ('w, unit) act" where
  "put_target_file b relative contents mode mode_ctx =
     (let path = TARGET @ relative
      in in_turn
        [make_dirs b (parent_dir path) (''creating '' @ parent_dir path),
         write_file b path contents (''writing '' @ path),
         set_mode b path mode (mode_ctx @ '' on '' @ path),
         log_info (''wrote '' @ path @ '' (mode '' @ show_octal mode @ '')'')])"

definition write_target_file :: "'w box \<Rightarrow> string \<Rightarrow> string \<Rightarrow> nat \<Rightarrow> ('w, unit) act" where
  "write_target_file b relative contents mode =
     put_target_file b relative contents mode (''setting mode '' @ show_octal mode)"

section \<open>EFI system partitions\<close>

record esp =
  ep_disk_index :: nat
  ep_device :: string
  ep_disk :: string
  ep_mountpoint :: string
  ep_target_path :: string
  ep_uuid :: string

definition fs_uuid :: "'w box \<Rightarrow> string \<Rightarrow> ('w, string) act" where
  "fs_uuid b device =
     andthen (run_checked b (here_cmd ''blkid'' [''-s'', ''UUID'', ''-o'', ''value'', device])) (\<lambda>out.
       if output_trimmed out = [] then fail_with (EnvironmentErr (''blkid reported no UUID for '' @ device))
       else give (output_trimmed out))"

definition esp_target_path :: "nat \<Rightarrow> string" where
  "esp_target_path index = (if index = 0 then ''/boot/efi'' else ''/boot/efi'' @ show_nat (index + 1))"

definition format_esp :: "'w box \<Rightarrow> 'w frontend \<Rightarrow> nat \<times> disk \<Rightarrow> ('w, esp) act" where
  "format_esp b fe x =
     (case x of
        (index, d) \<Rightarrow>
          (let dev = kernel_partition d PART_ESP;
               mountpoint = esp_mountpoint index
           in andthen (in_turn
                [run_ok b (here_cmd ''mkfs.vfat''
                   [''-F'', ''32'', ''-s'', ''1'', ''-n'', ''NSEFI'' @ show_nat index, dev]),
                 make_dirs b mountpoint (''creating '' @ mountpoint),
                 run_ok b (here_cmd ''mount'' [dev, mountpoint])]) (\<lambda>_.
              andthen (fs_uuid b dev) (\<lambda>uuid.
              andthen (step_detail fe (dev @ '' -> '' @ mountpoint @ '' (UUID '' @ uuid @ '')'')) (\<lambda>_.
                give \<lparr>ep_disk_index = index, ep_device = dev, ep_disk = dk_path d, ep_mountpoint = mountpoint,
                  ep_target_path = esp_target_path index, ep_uuid = uuid\<rparr>)))))"

definition format_esps :: "'w box \<Rightarrow> install_config \<Rightarrow> 'w frontend \<Rightarrow> ('w, esp list) act" where
  "format_esps b c fe = gather (format_esp b fe) (enumerate 0 (ic_disks c))"

section \<open>Mounts and fstab\<close>

definition bind_one :: "'w box \<Rightarrow> string \<times> string \<Rightarrow> ('w, string) act" where
  "bind_one b x =
     (case x of
        (source, name) \<Rightarrow>
          (let target = TARGET @ ''/'' @ name
           in andthen (in_turn
                [make_dirs b target (''creating '' @ target),
                 run_ok b (here_cmd ''mount'' [''--rbind'', source, target]),
                 run_ok b (here_cmd ''mount'' [''--make-rslave'', target])]) (\<lambda>_. give target)))"

definition bind_pseudo_filesystems :: "'w box \<Rightarrow> ('w, string list) act" where
  "bind_pseudo_filesystems b =
     andthen (gather (bind_one b) [(''/dev'', ''dev''), (''/sys'', ''sys''), (''/run'', ''run'')]) (\<lambda>mounted.
     (let proc = TARGET @ ''/proc''
      in andthen (in_turn
           [make_dirs b proc (''creating '' @ proc),
            run_ok b (here_cmd ''mount'' [''-t'', ''proc'', ''proc'', proc])]) (\<lambda>_.
         give (mounted @ [proc]))))"

definition fstab_entry :: "nat \<times> esp \<Rightarrow> string" where
  "fstab_entry x =
     (case x of
        (i, e) \<Rightarrow>
          if i = 0 then
            unlines
              [''# EFI system partition ('' @ ep_device e @ '').'',
               ''UUID='' @ ep_uuid e @ ''  /boot/efi   vfat  '' @
                 ''umask=0077,shortname=mixed,nofail,x-systemd.device-timeout=5s  0  1'', '''']
          else
            unlines
              [''# Mirror of the ESP above, kept current by nightshade-sync-esp.'',
               ''# noauto: two mounted ESPs invite writing to whichever one'',
               ''# happens to be mounted; the sync unit mounts it when needed.'',
               ''UUID='' @ ep_uuid e @ ''  /boot/efi2  vfat  '' @
                 ''umask=0077,shortname=mixed,noauto,nofail,x-systemd.device-timeout=5s  0  0''])"

definition fstab_text :: "esp list \<Rightarrow> string" where
  "fstab_text esps =
     unlines
       [''# /etc/fstab -- Nightshade'', ''#'',
        ''# ZFS datasets are not listed here. They are mounted from their own'',
        ''# mountpoint properties by zfs-mount.service after zfs-import-cache'',
        ''# imports the pools.'', ''''] @
     concat (map fstab_entry (enumerate 0 esps))"

definition write_fstab :: "'w box \<Rightarrow> esp list \<Rightarrow> ('w, unit) act" where
  "write_fstab b esps = write_target_file b ''/etc/fstab'' (fstab_text esps) 420"

section \<open>The PAM stack\<close>

definition PAM_MODULE_DIRS :: "string list" where
  "PAM_MODULE_DIRS =
     [''/lib/x86_64-linux-gnu/security'', ''/usr/lib/x86_64-linux-gnu/security'', ''/lib/security'',
      ''/usr/lib/security'']"

definition pam_include :: "string \<Rightarrow> string option" where
  "pam_include ln =
     (case strip_prefix ''@include'' (trim ln) of
        None \<Rightarrow> None
      | Some r \<Rightarrow> if trim r = [] then None else Some (trim r))"

definition blocks_login :: "string \<Rightarrow> string \<Rightarrow> bool" where
  "blocks_login kind control \<longleftrightarrow>
     \<not> starts_with kind ''-'' \<and> \<not> contains control ''module_unknown=ignore'' \<and>
     (contains control ''required'' \<or> contains control ''requisite'' \<or> contains control ''default=die'' \<or>
      contains control ''default=bad'')"

text \<open>The module of a rule, and whether a missing one refuses the login.\<close>

definition pam_rule :: "string \<Rightarrow> (string \<times> bool) option" where
  "pam_rule ln =
     (let tokens = split_whitespace (takeWhile (\<lambda>c. c \<noteq> CHR ''#'') ln);
          head_words = takeWhile (\<lambda>t. \<not> ends_with t ''.so'') tokens
      in case tokens of
           [] \<Rightarrow> None
         | kind # _ \<Rightarrow>
             if length head_words = length tokens \<or> head_words = [] then None
             else Some (tokens ! length head_words,
               blocks_login kind (to_ascii_lowercase (join '' '' (tl head_words)))))"

definition pam_module_exists :: "(string \<Rightarrow> bool) \<Rightarrow> string \<Rightarrow> string \<Rightarrow> bool" where
  "pam_module_exists there at module =
     (case strip_prefix ''/'' module of
        Some path \<Rightarrow> there (under at path)
      | None \<Rightarrow>
          list_ex (\<lambda>d. there (under (under at (trim_start_by (\<lambda>c. c = CHR ''/'') d)) module)) PAM_MODULE_DIRS)"

record pam_walk =
  pw_seen :: "string list"
  pw_missing_files :: "string list"
  pw_missing_modules :: "string list"

text \<open>
  One file and the files it includes. \<open>files\<close> reads a file by the name it is included by, \<open>has\<close> says
  whether a module is there. The recursion enters a name at most once, so a bound of one more than the
  number of names that are included anywhere is never reached.
\<close>

fun walk_pam_file ::
  "nat \<Rightarrow> (string \<Rightarrow> string option) \<Rightarrow> (string \<Rightarrow> bool) \<Rightarrow> string \<Rightarrow> pam_walk \<Rightarrow> pam_walk" where
  "walk_pam_file 0 files has name st = st"
| "walk_pam_file (Suc fuel) files has name st =
     (if name \<in> set (pw_seen st) then st
      else
        (let st = st\<lparr>pw_seen := insort name (pw_seen st)\<rparr>
         in case files name of
              None \<Rightarrow> st\<lparr>pw_missing_files := pw_missing_files st @ [name]\<rparr>
            | Some t \<Rightarrow>
                fold (\<lambda>ln st.
                  case pam_include ln of
                    Some included \<Rightarrow> walk_pam_file fuel files has included st
                  | None \<Rightarrow>
                      (case pam_rule ln of
                         Some (module, blocks) \<Rightarrow>
                           if blocks \<and> \<not> has module
                           then st\<lparr>pw_missing_modules := pw_missing_modules st @ [module @ '' ('' @ name @ '')'']\<rparr>
                           else st
                       | None \<Rightarrow> st))
                  (text_lines t) st))"

definition includes_of :: "string \<Rightarrow> string list" where
  "includes_of t = List.map_filter pam_include (text_lines t)"

definition PAM_ENTRIES :: "string list" where
  "PAM_ENTRIES = [''login'', ''su'', ''sudo'']"

definition pam_fuel :: "string list \<Rightarrow> nat" where
  "pam_fuel texts = Suc (length PAM_ENTRIES + length (concat (map includes_of texts)))"

definition pam_state :: "'w box \<Rightarrow> 'w \<Rightarrow> pam_walk" where
  "pam_state b w =
     (let dir = under TARGET ''etc/pam.d'';
          files = (\<lambda>name. case read_text b w (under dir name) of Inr t \<Rightarrow> Some t | Inl _ \<Rightarrow> None);
          has = pam_module_exists (bx_exists b w) TARGET
      in fold (walk_pam_file (pam_fuel (map snd (bx_texts b w))) files has) PAM_ENTRIES
           \<lparr>pw_seen = [], pw_missing_files = [], pw_missing_modules = []\<rparr>)"

definition pam_complaint :: "pam_walk \<Rightarrow> string" where
  "pam_complaint st =
     (if pw_missing_files st = [] then ''''
      else [newline] @ ''  missing /etc/pam.d files: '' @ join '', '' (pw_missing_files st)) @
     (if pw_missing_modules st = [] then ''''
      else [newline] @ ''  missing modules: '' @ join '', '' (pw_missing_modules st))"

definition verify_pam_stack :: "'w box \<Rightarrow> 'w frontend \<Rightarrow> ('w, unit) act" where
  "verify_pam_stack b fe =
     andthen (look (pam_state b)) (\<lambda>st.
       if pw_missing_files st = [] \<and> pw_missing_modules st = [] then
         step_detail fe (''PAM stack verified ('' @ show_nat (length (pw_seen st)) @ '' files)'')
       else
         fail_with (EnvironmentErr
           (''the target'' @ [CHR 0x27] @ ''s PAM configuration is incomplete, so the installed system '' @
            ''would reject every login with '' @ [quote_char] @ ''Login incorrect'' @ [quote_char] @
            '' no matter what password was typed.'' @ pam_complaint st)))"

section \<open>Names, services, the account\<close>

definition target_hosts_text :: "string \<Rightarrow> string" where
  "target_hosts_text host =
     (let tab = [CHR 0x09]
      in unlines
        [''127.0.0.1'' @ tab @ ''localhost'',
         ''127.0.1.1'' @ tab @ host @ tab @ hd (split_on (CHR ''.'') host),
         '''',
         ''::1'' @ tab @ tab @ ''localhost ip6-localhost ip6-loopback'',
         ''ff02::1'' @ tab @ tab @ ''ip6-allnodes'',
         ''ff02::2'' @ tab @ tab @ ''ip6-allrouters''])"

definition set_hostname :: "'w box \<Rightarrow> install_config \<Rightarrow> ('w, unit) act" where
  "set_hostname b c =
     in_turn
       [write_target_file b ''/etc/hostname'' (ic_hostname c @ [newline]) 420,
        write_target_file b ''/etc/hosts'' (target_hosts_text (ic_hostname c)) 420]"

definition enable_units :: "'w box \<Rightarrow> 'w frontend \<Rightarrow> string list \<Rightarrow> ('w, unit) act" where
  "enable_units b fe units =
     each (\<lambda>unit'. andthen (run_lenient b (target_cmd ''systemctl'' [''enable'', unit'])) (\<lambda>out.
       if output_ok out then give () else step_warn fe (''could not enable '' @ unit' @ ''; see the log''))) units"

definition enable_zfs_services :: "'w box \<Rightarrow> 'w frontend \<Rightarrow> ('w, unit) act" where
  "enable_zfs_services b fe =
     in_turn
       [enable_units b fe [''zfs-import-cache.service'', ''zfs-mount.service'', ''zfs-import.target'', ''zfs.target''],
        step_detail fe ''zfs import and mount units enabled'']"

text \<open>The second field of the shadow entry, and what is said of one that is no hash.\<close>

definition shadow_field :: "string \<Rightarrow> string" where
  "shadow_field entry' =
     (let fs = split_on (CHR '':'') (trim entry') in if length fs > 1 then fs ! 1 else '''')"

definition field_state :: "string \<Rightarrow> string" where
  "field_state f =
     (if f = [] then ''empty''
      else if f = ''!'' \<or> f = ''!!'' then ''locked (!)''
      else if f = ''*'' then ''disabled (*)''
      else ''not a password hash'')"

definition password_line :: "secret \<Rightarrow> secret" where
  "password_line p = Secret (DEFAULT_USER @ '':'' @ expose p @ [newline])"

definition set_password :: "'w box \<Rightarrow> secret \<Rightarrow> ('w, unit) act" where
  "set_password b p =
     andthen (run_ok b (stdin_secret (password_line p) (target_cmd ''chpasswd'' []))) (\<lambda>_.
     andthen (run_lenient b (target_cmd ''getent'' [''shadow'', DEFAULT_USER])) (\<lambda>out.
     (let f = shadow_field (ot_stdout out)
      in if \<not> starts_with f ''$'' then
           fail_with (EnvironmentErr
             (''the password for '' @ DEFAULT_USER @ '' did not take: its /etc/shadow field is '' @ field_state f @
              ''.'' @ [newline] @ ''The installed system would reject every login and root is locked.''))
         else
           log_info (''password set for '' @ DEFAULT_USER @ '' ('' @ show_nat (secret_len p) @
             '' chars, hash method '' @
             (let ms = split_on (CHR ''$'') f in if length ms > 1 then ms ! 1 else ''?'') @ '')''))))"

definition sudoers_text :: string where
  "sudoers_text =
     unlines
       [''# Nightshade administrator. Password required: this is the only'',
        ''# account on the box and NOPASSWD would make a stolen session total.'',
        DEFAULT_USER @ '' ALL=(ALL:ALL) ALL'']"

definition create_account :: "'w box \<Rightarrow> install_config \<Rightarrow> ('w, unit) act" where
  "create_account b c =
     andthen (log_info (''creating account '' @ DEFAULT_USER)) (\<lambda>_.
     andthen (look (\<lambda>w. bx_exists b w (under TARGET ''usr/bin/ns''))) (\<lambda>ns.
     (let shell = (if ns then ''/usr/bin/ns'' else ''/bin/bash'');
          groups = (if ns then ''sudo,nightshade-admin'' else ''sudo'')
      in in_turn
        [if ns then give () else log_info ''no ns binary in the image; the account gets /bin/bash'',
         run_ok b (target_cmd ''useradd'' [''--create-home'', ''--shell'', shell, ''--groups'', groups,
           ''--comment'', ''Nightshade administrator'', DEFAULT_USER]),
         set_password b (ic_password c),
         run_ok b (target_cmd ''passwd'' [''--lock'', ''root'']),
         write_target_file b ''/etc/sudoers.d/nightshade'' sudoers_text 288,
         andthen (run_lenient b (target_cmd ''visudo'' [''--check'', ''--file=/etc/sudoers.d/nightshade''])) (\<lambda>out.
           if output_ok out then give ()
           else andthen (remove_file b (TARGET @ ''/etc/sudoers.d/nightshade'')) (\<lambda>_.
             fail_with (EnvironmentErr (''the generated sudoers file was rejected by visudo:'' @ [newline] @
               trim (ot_stderr out))))),
         run_ok b (target_cmd ''visudo'' [''--check'']),
         log_info ''account created, root locked, sudo validated''])))"

definition regenerate_initramfs :: "'w box \<Rightarrow> ('w, unit) act" where
  "regenerate_initramfs b = run_ok b (target_cmd ''update-initramfs'' [''-u'', ''-k'', ''all''])"

definition save_log :: "'w box \<Rightarrow> ('w, unit) act" where
  "save_log b =
     (let dest = TARGET @ ''/var/log/nightshade-install.log''
      in andthen (attempt (log_copy_to b dest)) (\<lambda>r.
           case r of
             Inr _ \<Rightarrow> give ()
           | Inl (IoErr ctx e) \<Rightarrow> log_warn (''could not copy the install log to '' @ dest @ '': '' @ e)
           | Inl e \<Rightarrow> log_warn (''could not copy the install log to '' @ dest @ '': '' @ show_ierror e)))"

end
