(* ===== verification/Install_Boot.thy ===== *)
theory Install_Boot
  imports Install_Target
begin

text \<open>\<open>src/nightshade-installer/src/engine/boot.rs\<close>: GRUB, and keeping the two ESPs of a mirror in step.\<close>

section \<open>GRUB\<close>

definition THEME_SOURCE :: string where "THEME_SOURCE = ''/usr/share/nightshade/grub-theme''"
definition FONTS_SOURCE :: string where "FONTS_SOURCE = ''/usr/share/nightshade/grub-fonts''"
definition DEFAULT_GRUB_TEMPLATE :: string where
  "DEFAULT_GRUB_TEMPLATE = ''/usr/share/nightshade/default-grub.in''"
definition GFX_SCRIPT_TEMPLATE :: string where
  "GFX_SCRIPT_TEMPLATE = ''/usr/share/nightshade/nightshade-gfx.in''"
definition GFX_SCRIPT :: string where "GFX_SCRIPT = ''/etc/grub.d/09_nightshade_gfx''"
definition THEME_DIR :: string where "THEME_DIR = ''/boot/grub/themes/nightshade''"

definition os_release_field :: "'w box \<Rightarrow> 'w \<Rightarrow> string \<Rightarrow> string option" where
  "os_release_field b w key =
     (case read_text b w (TARGET @ ''/etc/os-release'') of
        Inl _ \<Rightarrow> None
      | Inr t \<Rightarrow>
          (case List.map_filter (strip_prefix (key @ ''='')) (text_lines t) of
             [] \<Rightarrow> None
           | v # _ \<Rightarrow> Some (trim_by (\<lambda>c. c = quote_char) v)))"

definition default_grub_text :: "string \<Rightarrow> string \<Rightarrow> string" where
  "default_grub_text template version =
     str_replace ''@VERSION@'' version (str_replace ''@ROOT_DATASET@'' ROOT_DATASET template)"

definition boot_target_file :: "'w box \<Rightarrow> string \<Rightarrow> string \<Rightarrow> nat \<Rightarrow> ('w, unit) act" where
  "boot_target_file b relative contents mode = put_target_file b relative contents mode ''setting mode''"

definition require_there :: "'w box \<Rightarrow> string \<Rightarrow> string \<Rightarrow> ('w, unit) act" where
  "require_there b path complaint =
     andthen (look (\<lambda>w. bx_exists b w path)) (\<lambda>there.
       if there then give () else fail_with (EnvironmentErr complaint))"

definition install_fonts :: "'w box \<Rightarrow> string \<Rightarrow> ('w, unit) act" where
  "install_fonts b theme_dst =
     (let fonts_src = TARGET @ FONTS_SOURCE;
          boot_fonts = TARGET @ ''/boot/grub/fonts''
      in andthen (look (\<lambda>w. bx_is_dir b w fonts_src)) (\<lambda>there.
           if \<not> there then give ()
           else in_turn
             [run_ok b (here_cmd ''cp'' [''-a'', fonts_src @ ''/.'', theme_dst]),
              make_dirs b boot_fonts (''creating '' @ boot_fonts),
              run_ok b (here_cmd ''cp'' [''-a'', fonts_src @ ''/.'', boot_fonts]),
              require_there b (boot_fonts @ ''/unicode.pf2'')
                (''unicode.pf2 is missing from /boot/grub/fonts; the installed '' @
                 ''system would boot to an unthemed GRUB'')]))"

definition configure_grub :: "'w box \<Rightarrow> ('w, unit) act" where
  "configure_grub b =
     (let template_path = TARGET @ DEFAULT_GRUB_TEMPLATE;
          default_grub = TARGET @ ''/etc/default/grub'';
          gfx_src = TARGET @ GFX_SCRIPT_TEMPLATE;
          theme_src = TARGET @ THEME_SOURCE;
          theme_dst = TARGET @ THEME_DIR
      in andthen (read_file b template_path (''reading the GRUB template at '' @ template_path)) (\<lambda>template.
         andthen (look (\<lambda>w. case os_release_field b w ''VERSION_ID'' of Some v \<Rightarrow> v | None \<Rightarrow> ''0.1.0'')) (\<lambda>version.
         andthen (in_turn
           [write_file b default_grub (default_grub_text template version) (''writing '' @ default_grub),
            log_info (''wrote '' @ default_grub)]) (\<lambda>_.
         andthen (read_file b gfx_src (''reading the GRUB gfx drop-in at '' @ gfx_src)) (\<lambda>gfx.
         in_turn
           [boot_target_file b GFX_SCRIPT gfx 493,
            andthen (look (\<lambda>w. bx_is_dir b w theme_src)) (\<lambda>there.
              if there then give ()
              else fail_with (EnvironmentErr (''the image is missing its GRUB theme at '' @ THEME_SOURCE))),
            make_dirs b theme_dst (''creating '' @ theme_dst),
            run_ok b (here_cmd ''cp'' [''-a'', theme_src @ ''/.'', theme_dst]),
            install_fonts b theme_dst,
            require_there b (theme_dst @ ''/theme.txt'')
              ''the GRUB theme did not land in /boot/grub/themes/nightshade''])))))"

definition grub_install :: "'w box \<Rightarrow> 'w frontend \<Rightarrow> esp \<Rightarrow> ('w, unit) act" where
  "grub_install b fe e =
     in_turn
       [step_detail fe (''GRUB -> '' @ ep_target_path e @ '' (disk '' @ ep_disk e @ '')''),
        run_ok b (target_cmd ''grub-install''
          ([''--target=x86_64-efi'', ''--efi-directory='' @ ep_target_path e, ''--boot-directory=/boot'',
            ''--bootloader-id=Nightshade'', ''--recheck''] @
           (if ep_disk_index e > 0 then [''--no-nvram''] else []))),
        run_ok b (target_cmd ''grub-install''
          [''--target=x86_64-efi'', ''--efi-directory='' @ ep_target_path e, ''--boot-directory=/boot'',
           ''--removable'', ''--recheck''])]"

definition boot_entry :: "'w box \<Rightarrow> 'w frontend \<Rightarrow> esp \<Rightarrow> ('w, unit) act" where
  "boot_entry b fe e =
     (let label = ''Nightshade (disk '' @ show_nat (ep_disk_index e + 1) @ '')''
      in andthen (step_detail fe (''firmware boot entry: '' @ label)) (\<lambda>_.
         andthen (run_lenient b (target_cmd ''efibootmgr''
           [''--create'', ''--disk'', ep_disk e, ''--part'', show_nat PART_ESP, ''--label'', label, ''--loader'',
            [backslash] @ ''EFI'' @ [backslash] @ ''Nightshade'' @ [backslash] @ ''grubx64.efi''])) (\<lambda>out.
           if output_ok out then give ()
           else step_warn fe (''could not add a firmware boot entry for disk '' @ show_nat (ep_disk_index e + 1) @
             ''; it will still boot via the fallback path''))))"

definition check_menu :: "'w frontend \<Rightarrow> string \<Rightarrow> ('w, unit) act" where
  "check_menu fe generated =
     (if \<not> contains generated ROOT_DATASET then
        fail_with (EnvironmentErr
          (''the generated boot menu does not reference '' @ ROOT_DATASET @ ''.'' @ [newline] @
           ''grub-probe did not recognise the ZFS root; the system would not boot.''))
      else in_turn
        [if contains generated ''terminal_output gfxterm'' then give ()
         else step_warn fe
           (''the generated menu never switches to gfxterm; it will boot to the '' @
            ''stock text menu. Check that /etc/grub.d/09_nightshade_gfx is present '' @
            ''and executable in the target.''),
         if contains generated ''themes/nightshade'' then give ()
         else step_warn fe ''the generated menu has no theme; it will boot but look unbranded'',
         step_detail fe (''menu generated ('' @ show_nat (utf8_len generated) @ '' bytes)'')])"

definition install_to_esps :: "'w box \<Rightarrow> esp list \<Rightarrow> 'w frontend \<Rightarrow> ('w, unit) act" where
  "install_to_esps b esps fe =
     (let cfg = TARGET @ ''/boot/grub/grub.cfg''
      in in_turn
        [each (grub_install b fe) esps,
         each (boot_entry b fe) (drop 1 esps),
         step_detail fe ''generating the boot menu'',
         run_ok b (target_cmd ''update-grub'' []),
         andthen (read_file b cfg (''reading '' @ cfg)) (check_menu fe),
         andthen (attempt (run_lenient b (here_cmd ''efibootmgr'' [''-v'']))) (\<lambda>r.
           case r of Inr out \<Rightarrow> log_block ''efibootmgr -v'' (ot_stdout out) | Inl _ \<Rightarrow> give ())])"

section \<open>Keeping a mirror in step\<close>

definition quoted :: "string \<Rightarrow> string" where
  "quoted s = [quote_char] @ s @ [quote_char]"

definition sync_script :: "string \<Rightarrow> string" where
  "sync_script secondary =
     unlines
       [''#!/bin/sh'',
        ''# Mirror the primary EFI system partition onto the secondary.'',
        ''#'',
        ''# Installed by nightshade-installer for mirrored (two-disk) systems. Triggered by'',
        ''# nightshade-sync-esp.path whenever /boot/efi changes, and once at boot to catch'',
        ''# drift from any period when the second disk was absent.'',
        ''set -eu'',
        '''',
        ''PRIMARY=/boot/efi'',
        ''SECONDARY='' @ secondary,
        '''',
        ''log() { echo '' @ quoted ''nightshade-sync-esp: $*'' @ ''; }'',
        '''',
        ''if ! mountpoint -q '' @ quoted ''$PRIMARY'' @ ''; then'',
        ''    log '' @ quoted ''$PRIMARY is not mounted; nothing to mirror'',
        ''    exit 0'',
        ''fi'',
        '''',
        ''# The secondary is noauto in fstab, so mount it for the duration. If its disk'',
        ''# is missing -- exactly the degraded case this exists for -- exit quietly'',
        ''# rather than failing a boot that is otherwise fine.'',
        ''UNMOUNT=no'',
        ''if ! mountpoint -q '' @ quoted ''$SECONDARY'' @ ''; then'',
        ''    if ! mount '' @ quoted ''$SECONDARY'' @ '' 2>/dev/null; then'',
        ''        log '' @ quoted ''cannot mount $SECONDARY (disk missing?); skipping'',
        ''        exit 0'',
        ''    fi'',
        ''    UNMOUNT=yes'',
        ''fi'',
        '''',
        ''cleanup() {'',
        ''    [ '' @ quoted ''$UNMOUNT'' @ '' = yes ] && umount '' @ quoted ''$SECONDARY'' @ '' 2>/dev/null || true'',
        ''}'',
        ''trap cleanup EXIT'',
        '''',
        ''log '' @ quoted ''mirroring $PRIMARY/EFI to $SECONDARY/EFI'',
        ''rm -rf '' @ quoted ''$SECONDARY/EFI'',
        ''cp -a '' @ quoted ''$PRIMARY/EFI'' @ '' '' @ quoted ''$SECONDARY/'',
        ''sync'',
        ''log '' @ quoted ''done'']"

definition sync_service :: string where
  "sync_service =
     unlines
       [''[Unit]'',
        ''Description=Mirror the primary ESP onto the second disk'',
        ''Documentation=man:nightshade-sync-esp(8)'',
        ''After=local-fs.target'',
        ''ConditionPathIsMountPoint=/boot/efi'',
        '''',
        ''[Service]'',
        ''Type=oneshot'',
        ''ExecStart=/usr/local/sbin/nightshade-sync-esp'',
        '''',
        ''[Install]'',
        ''WantedBy=multi-user.target'']"

definition sync_path_unit :: string where
  "sync_path_unit =
     unlines
       [''[Unit]'',
        ''Description=Watch the primary ESP for changes'',
        '''',
        ''[Path]'',
        ''PathModified=/boot/efi/EFI'',
        ''PathChanged=/boot/efi/EFI/BOOT/BOOTX64.EFI'',
        ''PathChanged=/boot/efi/EFI/Nightshade/grubx64.efi'',
        ''Unit=nightshade-sync-esp.service'',
        '''',
        ''[Install]'',
        ''WantedBy=multi-user.target'']"

definition install_esp_sync :: "'w box \<Rightarrow> esp list \<Rightarrow> 'w frontend \<Rightarrow> ('w, unit) act" where
  "install_esp_sync b esps fe =
     (case esps of
        _ # secondary # _ \<Rightarrow>
          in_turn
            [boot_target_file b ''/usr/local/sbin/nightshade-sync-esp'' (sync_script (ep_target_path secondary)) 493,
             boot_target_file b ''/etc/systemd/system/nightshade-sync-esp.service'' sync_service 420,
             boot_target_file b ''/etc/systemd/system/nightshade-sync-esp.path'' sync_path_unit 420,
             enable_units b fe [''nightshade-sync-esp.service'', ''nightshade-sync-esp.path''],
             andthen (run_lenient b (target_cmd ''/usr/local/sbin/nightshade-sync-esp'' [])) (\<lambda>out.
               if output_ok out then step_detail fe ''second ESP synchronised''
               else step_warn fe ''initial ESP sync reported an error; see the log'')]
      | _ \<Rightarrow> give ())"

end
