(* ===== verification/Install_Engine.thy ===== *)
theory Install_Engine
  imports Install_Boot
begin

text \<open>
  \<open>src/nightshade-installer/src/engine/mod.rs\<close>: the order of an installation, what is asked before
  anything is written, and what is undone afterwards.
\<close>

definition REQUIRED_TOOLS :: "string list" where
  "REQUIRED_TOOLS =
     [''sgdisk'', ''wipefs'', ''zpool'', ''zfs'', ''mkfs.vfat'', ''grub-install'', ''update-grub'', ''efibootmgr'',
      ''chroot'', ''mount'', ''umount'', ''mountpoint'', ''udevadm'', ''blkid'', ''blockdev'', ''cp'', ''chmod'',
      ''chpasswd'', ''getent'', ''useradd'', ''passwd'', ''visudo'', ''systemctl'', ''update-initramfs'', ''apt-get'']"

section \<open>Before anything is touched\<close>

text \<open>The effective user is the third word of the \<open>Uid:\<close> line.\<close>

definition is_root_user :: "'w box \<Rightarrow> 'w \<Rightarrow> bool" where
  "is_root_user b w =
     (case read_text b w ''/proc/self/status'' of
        Inl _ \<Rightarrow> False
      | Inr t \<Rightarrow>
          (case find (\<lambda>l. starts_with l ''Uid:'') (text_lines t) of
             None \<Rightarrow> False
           | Some l \<Rightarrow> (case split_whitespace l of _ # _ # euid # _ \<Rightarrow> euid = ''0'' | _ \<Rightarrow> False)))"

definition preflight :: "'w box \<Rightarrow> ('w, unit) act" where
  "preflight b =
     in_turn
       [log_step ''preflight'',
        andthen (look (is_root_user b)) (\<lambda>ok.
          if ok then give ()
          else fail_with (EnvironmentErr ''The installer must run as root. Try: sudo nightshade-installer'')),
        require_tools b REQUIRED_TOOLS,
        andthen (cmd_succeeds b (here_cmd ''modprobe'' [''zfs''])) (\<lambda>ok.
          if ok then give ()
          else fail_with (EnvironmentErr (''The ZFS kernel module could not be loaded.'' @ [newline] @
            ''This image is broken; `modprobe zfs` failed.''))),
        require_there b ''/sys/firmware/efi''
          (''This machine was not booted in UEFI mode.'' @ [newline] @
           ''Nightshade is UEFI-only: reboot the installer in UEFI mode'' @ [newline] @
           ''(disable legacy/CSM boot in firmware setup) and try again.''),
        log_info ''preflight passed'']"

text \<open>\<open>disks[*i]\<close>: an index that is out of range panics.\<close>

definition pick_disks :: "disk list \<Rightarrow> nat list \<Rightarrow> ('w, disk list) act" where
  "pick_disks disks selection =
     (if list_all (\<lambda>i. i < length disks) selection then give (map (\<lambda>i. disks ! i) selection) else panic)"

definition mismatch_text :: "'w box \<Rightarrow> disk \<Rightarrow> disk \<Rightarrow> string" where
  "mismatch_text b d e =
     ''These disks differ in size by '' @ bx_percent b (dk_size_bytes d) (dk_size_bytes e) @ ''%.'' @ [newline] @
     [newline] @
     dk_path d @ ''  '' @ disk_size_human b d @ [newline] @
     dk_path e @ ''  '' @ disk_size_human b e @ [newline] @
     [newline] @
     ''The mirror will be sized to the smaller disk, so '' @
     bx_human b (max (dk_size_bytes d) (dk_size_bytes e) - min (dk_size_bytes d) (dk_size_bytes e)) @
     '' of the'' @ [newline] @
     ''larger one will be unusable.''"

definition warn_of_mismatch :: "'w box \<Rightarrow> 'w frontend \<Rightarrow> disk list \<Rightarrow> ('w, unit) act" where
  "warn_of_mismatch b fe chosen =
     (case chosen of
        [d, e] \<Rightarrow> if size_mismatch d e then fe_confirm_warning fe (mismatch_text b d e) else give ()
      | _ \<Rightarrow> give ())"

text \<open>Everything that is asked: what is to be installed, confirmed.\<close>

definition ask :: "'w box \<Rightarrow> 'w frontend \<Rightarrow> ('w, install_config) act" where
  "ask b fe =
     andthen (preflight b) (\<lambda>_.
     andthen (fe_welcome fe) (\<lambda>_.
     andthen (enumerate_disks b) (\<lambda>disks.
     if disks = [] then
       fail_with (EnvironmentErr (''No installable disks were found.'' @ [newline] @
         ''Every block device was either virtual or the live medium itself.''))
     else
       andthen (fe_select_disks fe disks) (\<lambda>selection.
       andthen (pick_disks disks selection) (\<lambda>chosen.
       andthen (warn_of_mismatch b fe chosen) (\<lambda>_.
       andthen (fe_confirm_destruction fe chosen (layout_of chosen)) (\<lambda>_.
       andthen (fe_collect_password fe DEFAULT_USER) (\<lambda>password.
       andthen (fe_collect_hostname fe DEFAULT_HOSTNAME) (\<lambda>hostname.
       (let c = \<lparr>ic_disks = chosen, ic_hostname = hostname, ic_password = password\<rparr>
        in andthen (fe_confirm_summary fe c) (\<lambda>_. give c)))))))))))"

section \<open>The installation\<close>

definition mounts_made :: "string list \<Rightarrow> ('w, unit) act" where
  "mounts_made ms s =
     (Fine (), s\<lparr>is_session := (is_session s)\<lparr>td_mounts := td_mounts (is_session s) @ ms\<rparr>\<rparr>)"

definition binds_made :: "string list \<Rightarrow> ('w, unit) act" where
  "binds_made ms s = (Fine (), s\<lparr>is_session := (is_session s)\<lparr>td_binds := ms\<rparr>\<rparr>)"

definition pool_made :: "string \<Rightarrow> ('w, unit) act" where
  "pool_made p s =
     (Fine (), s\<lparr>is_session := (is_session s)\<lparr>td_pools := td_pools (is_session s) @ [p]\<rparr>\<rparr>)"

definition prepare_disks :: "'w box \<Rightarrow> 'w frontend \<Rightarrow> install_config \<Rightarrow> ('w, unit) act" where
  "prepare_disks b fe c =
     in_turn
       [step_begin fe ''Partitioning disks'',
        release_existing_pools b fe,
        each (\<lambda>d. in_turn [step_detail fe (dk_path d @ '' ('' @ disk_size_human b d @ '')''), prepare b d]) (ic_disks c),
        settle b c,
        step_begin fe ''Creating boot pool'', create_bpool b c, pool_made BPOOL,
        step_begin fe ''Creating root pool'', create_rpool b c, pool_made RPOOL,
        step_begin fe ''Creating datasets'', create_datasets b fe]"

definition install_system :: "'w box \<Rightarrow> 'w frontend \<Rightarrow> install_config \<Rightarrow> esp list \<Rightarrow> ('w, unit) act" where
  "install_system b fe c esps =
     in_turn
       [mounts_made (map ep_mountpoint esps),
        step_begin fe ''Copying the system'',
        andthen (rootfs_source b) (\<lambda>source.
          in_turn [step_detail fe (''from '' @ source), copy_to_target b source TARGET]),
        andthen (bind_pseudo_filesystems b) binds_made,
        step_begin fe ''Removing live-only components'',
        strip_live_layer b fe,
        verify_pam_stack b fe,
        step_begin fe ''Configuring the target system'',
        write_fstab b esps,
        set_hostname b c,
        enable_zfs_services b fe,
        step_begin fe ''Creating the nightshade account'',
        create_account b c,
        step_begin fe ''Writing the initial configuration'',
        write_configuration b c TARGET,
        step_begin fe ''Preparing the boot environment'',
        write_cachefile b fe,
        regenerate_initramfs b,
        step_begin fe ''Installing the bootloader'',
        configure_grub b,
        install_to_esps b esps fe,
        if is_mirror c then install_esp_sync b esps fe else give (),
        step_begin fe ''Finalising'',
        save_log b]"

definition new_install :: "('w, unit) act" where
  "new_install s = (Fine (), s\<lparr>is_step := 0, is_session := teardown_new\<rparr>)"

definition install :: "'w box \<Rightarrow> 'w frontend \<Rightarrow> install_config \<Rightarrow> ('w, unit) act" where
  "install b fe c =
     andthen (prepare_disks b fe c) (\<lambda>_.
     andthen (step_begin fe ''Creating EFI system partitions'') (\<lambda>_.
     andthen (format_esps b c fe) (install_system b fe c)))"

section \<open>Undoing it\<close>

definition unbind :: "'w box \<Rightarrow> string \<Rightarrow> ('w, unit) act" where
  "unbind b m =
     andthen (cmd_succeeds b (here_cmd ''umount'' [''-R'', m])) (\<lambda>ok.
       if ok then give () else ignored (run_lenient b (here_cmd ''umount'' [''-lR'', m])))"

definition export_pool :: "'w box \<Rightarrow> string \<Rightarrow> bool \<Rightarrow> ('w, bool) act" where
  "export_pool b pool force =
     andthen (attempt (run_lenient b (here_cmd ''zpool''
       ([''export''] @ (if force then [''-f''] else []) @ [pool])))) (\<lambda>r.
       case r of
         Inr out \<Rightarrow>
           if output_ok out then andthen (log_info (''exported '' @ pool)) (\<lambda>_. give True) else give False
       | Inl _ \<Rightarrow> give False)"

definition log_remaining_mounts :: "'w box \<Rightarrow> ('w, unit) act" where
  "log_remaining_mounts b =
     andthen (look (\<lambda>w. read_text b w ''/proc/mounts'')) (\<lambda>r.
       case r of
         Inl _ \<Rightarrow> give ()
       | Inr mounts \<Rightarrow>
           (let still = filter (\<lambda>l. case split_whitespace l of _ # m # _ \<Rightarrow> starts_with m TARGET | _ \<Rightarrow> False)
              (text_lines mounts)
            in if still = [] then
                 log_warn ''nothing is mounted under the target; the pool is held by something else''
               else log_block ''still mounted under the target'' (join [newline] still)))"

definition let_go :: "'w box \<Rightarrow> string \<Rightarrow> ('w, unit) act" where
  "let_go b pool =
     andthen (export_pool b pool False) (\<lambda>ok. if ok then give () else
     andthen (sleep b 500) (\<lambda>_.
     andthen (export_pool b pool False) (\<lambda>ok. if ok then give () else
     andthen (log_remaining_mounts b) (\<lambda>_.
     andthen (export_pool b pool True) (\<lambda>ok.
       if ok then log_warn (pool @ '' needed a forced export'')
       else log_warn (''could not export '' @ pool @ ''; the new system may need `zpool import -f '' @ pool @ ''`''))))))"

definition forget_session :: "('w, unit) act" where
  "forget_session s = (Fine (), s\<lparr>is_session := teardown_new\<rparr>)"

definition teardown :: "'w box \<Rightarrow> ('w, unit) act" where
  "teardown b s =
     in_turn
       ([log_step ''teardown''] @
        map (unbind b) (rev (td_binds (is_session s))) @
        map (\<lambda>m. ignored (run_lenient b (here_cmd ''umount'' [m]))) (rev (td_mounts (is_session s))) @
        [ignored (run_lenient b (here_cmd ''zfs'' [''unmount'', ''-a'']))] @
        map (let_go b) (td_pools (is_session s)) @
        [forget_session]) s"

section \<open>The whole run\<close>

definition log_plan :: "'w box \<Rightarrow> install_config \<Rightarrow> ('w, unit) act" where
  "log_plan b c =
     in_turn
       ([log_info (''layout: '' @ layout_label (layout_of (ic_disks c)))] @
        map (\<lambda>d. log_info (''disk: '' @ dk_path d @ '' ('' @ disk_size_human b d @ '') via '' @ dk_stable_path d))
          (ic_disks c) @
        [log_info (''hostname: '' @ ic_hostname c)])"

definition the_log :: "('w, string) act" where
  "the_log s = (Fine (log_path s), s)"

definition carry_out :: "'w box \<Rightarrow> 'w frontend \<Rightarrow> install_config \<Rightarrow> ('w, final_action) act" where
  "carry_out b fe c =
     andthen (in_turn [log_step ''beginning installation'', log_plan b c, new_install]) (\<lambda>_.
     andthen (attempt (install b fe c)) (\<lambda>outcome.
     andthen (teardown b) (\<lambda>_.
       case outcome of
         Inr _ \<Rightarrow>
           andthen (log_step ''installation complete'') (\<lambda>_. andthen the_log (fe_finished fe))
       | Inl e \<Rightarrow>
           andthen (in_turn
             [log_error (''installation failed: '' @ show_ierror e),
              log_block ''failure detail'' (error_detail e),
              andthen the_log (fe_failed fe e)]) (\<lambda>_. fail_with e))))"

definition engine_run :: "'w box \<Rightarrow> 'w frontend \<Rightarrow> ('w, final_action) act" where
  "engine_run b fe = andthen (ask b fe) (carry_out b fe)"

end
