(* ===== verification/Install_Plain.thy ===== *)
theory Install_Plain
  imports Install_Engine
begin

text \<open>
  \<open>src/nightshade-installer/src/ui/plain.rs\<close> and \<open>main.rs\<close>: the line-based front end, and the program.
  What the operator types is \<open>is_console\<close>; its end means the console went away. The full-screen front
  end is a parameter of \<open>select_frontend\<close>.
\<close>

section \<open>The terminal\<close>

definition say_line :: "string \<Rightarrow> ('w, unit) act" where
  "say_line t = record_effect (Showed t)"

definition WIDTH :: nat where "WIDTH = 74"

definition rule_line :: "('w, unit) act" where
  "rule_line = say_line (replicate WIDTH (CHR ''-''))"

definition heading :: "string \<Rightarrow> ('w, unit) act" where
  "heading title = in_turn [say_line '''', rule_line, say_line (''  '' @ title), rule_line, say_line '''']"

definition para :: "string \<Rightarrow> ('w, unit) act" where
  "para t = in_turn (map (\<lambda>l. say_line (''  '' @ l)) (text_lines t) @ [say_line ''''])"

definition read_line :: "('w, string) act" where
  "read_line s =
     (case is_console s of
        [] \<Rightarrow> (Failed Aborted, s)
      | Inl e # ls \<Rightarrow> (Failed (IoErr ''reading from the console'' e), s\<lparr>is_console := ls\<rparr>)
      | Inr l # ls \<Rightarrow> (Fine (trim_end_by (\<lambda>c. c = newline \<or> c = CHR 0x0D) l), s\<lparr>is_console := ls\<rparr>))"

definition ask_line :: "string \<Rightarrow> ('w, string) act" where
  "ask_line label = andthen (record_effect (Prompted (''  '' @ label))) (\<lambda>_. read_line)"

definition echo_off :: "'w box \<Rightarrow> ('w, bool) act" where
  "echo_off b =
     andthen (record_effect EchoOff) (\<lambda>_.
     andthen (if bx_echo_off b then give ()
       else in_turn [log_warn ''could not disable terminal echo; password will be visible'',
         record_effect (ShowedErr ''  (warning: terminal echo could not be disabled)'')]) (\<lambda>_.
     give (bx_echo_off b)))"

definition ask_secret :: "'w box \<Rightarrow> string \<Rightarrow> ('w, secret) act" where
  "ask_secret b label =
     andthen (record_effect (Prompted (''  '' @ label))) (\<lambda>_.
     andthen (echo_off b) (\<lambda>restore.
     andthen (attempt read_line) (\<lambda>r.
     andthen (in_turn [say_line '''', if restore then record_effect EchoOn else give ()]) (\<lambda>_.
       case r of Inl e \<Rightarrow> fail_with e | Inr l \<Rightarrow> give (Secret l)))))"

definition confirm_yes :: "string \<Rightarrow> ('w, bool) act" where
  "confirm_yes label =
     andthen (ask_line label) (\<lambda>answer.
       give (to_ascii_lowercase (trim answer) = ''yes'' \<or> to_ascii_lowercase (trim answer) = ''y''))"

text \<open>
  A loop that asks until the answer will do. Every round reads a line, so there is no need for more rounds
  than lines and one.
\<close>

fun rounds :: "nat \<Rightarrow> ('w, 'a option) act \<Rightarrow> ('w, 'a) act" where
  "rounds 0 m = fail_with Aborted"
| "rounds (Suc n) m = andthen m (\<lambda>r. case r of Some a \<Rightarrow> give a | None \<Rightarrow> rounds n m)"

definition until_answered :: "('w, 'a option) act \<Rightarrow> ('w, 'a) act" where
  "until_answered m s = rounds (Suc (length (is_console s))) m s"

section \<open>The prompts\<close>

definition pad_right :: "nat \<Rightarrow> string \<Rightarrow> string" where
  "pad_right n s = s @ replicate (n - length s) (CHR '' '')"

definition pad_left :: "nat \<Rightarrow> string \<Rightarrow> string" where
  "pad_left n s = replicate (n - length s) (CHR '' '') @ s"

definition show_disk :: "'w box \<Rightarrow> nat \<times> disk \<Rightarrow> ('w, unit) act" where
  "show_disk b x =
     (case x of
        (index, d) \<Rightarrow>
          in_turn
            ([say_line (''  ['' @ show_nat (index + 1) @ ''] '' @ pad_right 14 (dk_path d) @ '' '' @
                pad_left 10 (disk_size_human b d) @ ''  '' @ dk_model d),
              say_line (''      '' @ disk_media d @ ''  serial '' @ dk_serial d)] @
             (if dk_signatures d = [] then [say_line ''      no partition table detected'']
              else say_line ''      existing contents:'' #
                map (\<lambda>sig. say_line (''        '' @ sig)) (dk_signatures d)) @
             [say_line '''']))"

definition TITLE :: string where "TITLE = ''Nightshade Installer''"

definition WELCOME_WARNING :: string where
  "WELCOME_WARNING =
     ''This installs Nightshade on this machine.'' @ [newline] @ [newline] @
     ''Installation is DESTRUCTIVE. Every disk you select will be erased'' @ [newline] @
     ''completely: existing partitions, filesystems and data are lost, and'' @ [newline] @
     ''there is no undo.'' @ [newline] @ [newline] @
     ''Nothing is written to any disk until you have confirmed twice.''"

definition DISK_HELP :: string where
  "DISK_HELP =
     ''Select ONE disk for a single-disk install, or TWO disks for a ZFS'' @ [newline] @
     ''RAID1 mirror (for example: 1 2).''"

definition PASSWORD_HELP :: string where
  "PASSWORD_HELP =
     ''This is the only account on the system. The root account is locked;'' @ [newline] @
     ''administrative access is through sudo from this account.''"

definition is_quit :: "string \<Rightarrow> bool" where
  "is_quit answer \<longleftrightarrow> to_ascii_lowercase (trim answer) = ''quit''"

definition plain_welcome :: "('w, unit) act" where
  "plain_welcome =
     andthen (in_turn [heading TITLE, para WELCOME_WARNING]) (\<lambda>_.
     andthen (ask_line (''Press Enter to continue, or type '' @ [CHR 0x27] @ ''quit'' @ [CHR 0x27] @ '' to abort: ''))
       (\<lambda>answer. if is_quit answer then fail_with Aborted else give ()))"

text \<open>Numbers from one, apart by spaces or commas; \<open>None\<close> when any is not a number.\<close>

fun split_where :: "(char \<Rightarrow> bool) \<Rightarrow> string \<Rightarrow> string list" where
  "split_where p [] = [[]]"
| "split_where p (c # cs) =
     (if p c then [] # split_where p cs
      else case split_where p cs of [] \<Rightarrow> [[c]] | w # ws \<Rightarrow> (c # w) # ws)"

fun all_numbers :: "string list \<Rightarrow> nat list option" where
  "all_numbers [] = Some []"
| "all_numbers (w # ws) =
     Option.bind (parse_unsigned (2 ^ 64 - 1) w) (\<lambda>n. map_option ((#) n) (all_numbers ws))"

definition parse_selection :: "string \<Rightarrow> nat list option" where
  "parse_selection answer =
     Option.bind (all_numbers (filter (\<lambda>w. w \<noteq> []) (split_where (\<lambda>c. is_whitespace c \<or> c = CHR '','') answer)))
       (\<lambda>v. if list_all (\<lambda>n. n \<ge> 1) v then Some (map (\<lambda>n. n - 1) v) else None)"

definition complain :: "string \<Rightarrow> ('w, unit) act" where
  "complain m = say_line ([newline] @ ''  '' @ m @ [newline])"

definition plain_select_disks :: "'w box \<Rightarrow> disk list \<Rightarrow> ('w, nat list) act" where
  "plain_select_disks b disks =
     until_answered
       (andthen (in_turn (heading ''Select installation target'' #
          map (show_disk b) (enumerate 0 disks) @ [para DISK_HELP])) (\<lambda>_.
        andthen (ask_line ''Disks: '') (\<lambda>answer.
          if is_quit answer then fail_with Aborted
          else
            (case parse_selection answer of
               None \<Rightarrow> andthen (complain ''Enter disk numbers from the list, e.g. 1 or 1 2.'') (\<lambda>_. give None)
             | Some selection \<Rightarrow>
                 (case validate_selection selection (length disks) of
                    Inr _ \<Rightarrow> give (Some selection)
                  | Inl e \<Rightarrow> andthen (complain (show_ierror e)) (\<lambda>_. give None))))))"

definition plain_confirm_warning :: "string \<Rightarrow> ('w, unit) act" where
  "plain_confirm_warning message =
     andthen (in_turn [say_line '''', para message]) (\<lambda>_.
     andthen (confirm_yes ''Continue anyway? Type yes: '') (\<lambda>ok.
       if ok then give () else fail_with Aborted))"

definition doomed :: "'w box \<Rightarrow> disk \<Rightarrow> ('w, unit) act" where
  "doomed b d =
     in_turn
       (say_line (''    '' @ pad_right 14 (dk_path d) @ '' '' @ pad_left 10 (disk_size_human b d) @ ''  '' @
          dk_model d @ ''  ('' @ dk_serial d @ '')'') #
        map (\<lambda>sig. say_line (''        destroying: '' @ sig)) (dk_signatures d))"

definition plain_confirm_destruction :: "'w box \<Rightarrow> disk list \<Rightarrow> layout \<Rightarrow> ('w, unit) act" where
  "plain_confirm_destruction b disks lay =
     andthen (in_turn
       ([heading ''Confirm destruction'', say_line ''  These disks will be COMPLETELY ERASED:'', say_line ''''] @
        map (doomed b) disks @
        [say_line '''', say_line (''  Layout:     '' @ layout_label lay),
         say_line (''  Boot pool:  '' @ BPOOL @ '' (2 GiB per disk)''),
         say_line (''  Root pool:  '' @ RPOOL @ '' (remaining space)''),
         say_line '''', say_line ''  This cannot be undone.'', say_line ''''])) (\<lambda>_.
     andthen (ask_line (''Type '' @ ERASE_CONFIRMATION @ '' to continue, anything else cancels: '')) (\<lambda>typed.
       case erase_confirmation typed of
         Inr _ \<Rightarrow> give ()
       | Inl _ \<Rightarrow> andthen (complain ''Not confirmed. Nothing has been changed.'') (\<lambda>_. fail_with Aborted)))"

definition plain_collect_password :: "'w box \<Rightarrow> string \<Rightarrow> ('w, secret) act" where
  "plain_collect_password b user =
     andthen (in_turn [heading ''Administrator account'', say_line (''  Account: '' @ user), say_line '''',
       para PASSWORD_HELP]) (\<lambda>_.
     until_answered
       (andthen (ask_secret b (''Password (at least '' @ show_nat MIN_PASSWORD_LEN @ '' characters): '')) (\<lambda>first.
        andthen (ask_secret b ''Confirm password: '') (\<lambda>second.
          case validate_password first second of
            Inr _ \<Rightarrow> give (Some first)
          | Inl e \<Rightarrow> andthen (complain (show_ierror e)) (\<lambda>_. give None)))))"

definition plain_collect_hostname :: "string \<Rightarrow> ('w, string) act" where
  "plain_collect_hostname fallback =
     andthen (heading ''Hostname'') (\<lambda>_.
     until_answered
       (andthen (ask_line (''Hostname ['' @ fallback @ '']: '')) (\<lambda>answer.
         (let candidate = (if trim answer = [] then fallback else trim answer)
          in case validate_hostname candidate of
               Inr _ \<Rightarrow> give (Some candidate)
             | Inl e \<Rightarrow> andthen (complain (show_ierror e)) (\<lambda>_. give None)))))"

definition plain_confirm_summary :: "'w box \<Rightarrow> install_config \<Rightarrow> ('w, unit) act" where
  "plain_confirm_summary b c =
     andthen (in_turn
       ([heading ''Summary'', say_line (''  Layout:     '' @ layout_label (layout_of (ic_disks c)))] @
        map (\<lambda>(i, d). say_line (''  Disk '' @ show_nat (i + 1) @ '':     '' @ dk_path d @ '' ('' @
          disk_size_human b d @ '', '' @ dk_serial d @ '')'')) (enumerate 0 (ic_disks c)) @
        [say_line '''', say_line (''  Boot pool:  '' @ BOOT_DATASET @ '' -> /boot''),
         say_line (''  Root pool:  '' @ ROOT_DATASET @ '' -> /''),
         say_line ''              separate datasets for /var/log and /var/tmp'',
         say_line ''  ESP:        512 MiB FAT32 on each disk'', say_line '''',
         say_line (''  Hostname:   '' @ ic_hostname c),
         say_line (''  Account:    '' @ DEFAULT_USER @ '' (sudo)''),
         say_line ''  Root login: locked'', say_line ''''])) (\<lambda>_.
     andthen (confirm_yes ''Begin installation? Type yes: '') (\<lambda>ok.
       if ok then give ()
       else andthen (complain ''Cancelled. Nothing has been changed.'') (\<lambda>_. fail_with Aborted)))"

definition begin_progress :: "('w, unit) act" where
  "begin_progress s =
     (if is_in_progress s then (Fine (), s)
      else andthen (heading ''Installing'') (\<lambda>_ s. (Fine (), s\<lparr>is_in_progress := True\<rparr>)) s)"

fun plain_progress :: "progress \<Rightarrow> ('w, unit) act" where
  "plain_progress (StepProgress index steps name) =
     in_turn [begin_progress,
       say_line (''  ['' @ show_nat index @ ''/'' @ show_nat steps @ ''] '' @ name)]"
| "plain_progress (DetailProgress detail) = say_line (''        '' @ detail)"
| "plain_progress (WarningProgress warning) = say_line (''        ! '' @ warning)"

definition plain_failed :: "ierror \<Rightarrow> string \<Rightarrow> ('w, unit) act" where
  "plain_failed e log =
     in_turn
       ([say_line '''', rule_line, say_line ''  INSTALLATION FAILED'', rule_line, say_line '''',
         say_line (''  '' @ show_ierror e), say_line ''''] @
        (if trim (error_detail e) = trim (show_ierror e) then []
         else map (\<lambda>l. say_line (''  '' @ l)) (text_lines (error_detail e)) @ [say_line '''']) @
        [say_line (''  Full log: '' @ log), say_line '''',
         say_line ''  The disks are in whatever state the failing step left them.'',
         say_line ''  Re-running the installer will start again from scratch.'', say_line ''''])"

definition plain_finished :: "string \<Rightarrow> ('w, final_action) act" where
  "plain_finished log =
     andthen (in_turn
       [heading ''Installation complete'', say_line ''  Nightshade has been installed.'', say_line '''',
        say_line ''  Remove the installation medium before rebooting.'',
        say_line ''  Log copied to /var/log/nightshade-install.log on the new system.'',
        say_line (''  Log on this live system: '' @ log), say_line '''']) (\<lambda>_.
     until_answered
       (andthen (ask_line ''Reboot now? [r]eboot / [s]hell: '') (\<lambda>answer.
         (let a = to_ascii_lowercase (trim answer)
          in if a = ''r'' \<or> a = ''reboot'' \<or> a = '''' then give (Some Reboot)
             else if a = ''s'' \<or> a = ''shell'' then give (Some Shell)
             else andthen (complain ''Enter r or s.'') (\<lambda>_. give None)))))"

definition plain_frontend :: "'w box \<Rightarrow> 'w frontend" where
  "plain_frontend b =
     \<lparr>fe_welcome = plain_welcome, fe_select_disks = plain_select_disks b,
      fe_confirm_warning = plain_confirm_warning, fe_confirm_destruction = plain_confirm_destruction b,
      fe_collect_password = plain_collect_password b, fe_collect_hostname = plain_collect_hostname,
      fe_confirm_summary = plain_confirm_summary b, fe_progress = plain_progress,
      fe_failed = plain_failed, fe_finished = plain_finished\<rparr>"

end
