(* ===== verification/Install_Main.thy ===== *)
theory Install_Main
  imports Install_Plain
begin

text \<open>\<open>src/nightshade-installer/src/main.rs\<close>: the options, the choice of a front end, and the exit status.\<close>

record installer_args =
  ia_help :: bool
  ia_version :: bool
  ia_plain :: bool
  ia_log_path :: string

fun read_args :: "string list \<Rightarrow> installer_args \<Rightarrow> ('w, installer_args) act" where
  "read_args [] as = give as"
| "read_args (arg # argv) as =
     (if arg = ''-h'' \<or> arg = ''--help'' then read_args argv (as\<lparr>ia_help := True\<rparr>)
      else if arg = ''-V'' \<or> arg = ''--version'' then read_args argv (as\<lparr>ia_version := True\<rparr>)
      else if arg = ''--plain'' then read_args argv (as\<lparr>ia_plain := True\<rparr>)
      else if arg = ''--log'' then
        (case argv of [] \<Rightarrow> give as | path # argv' \<Rightarrow> read_args argv' (as\<lparr>ia_log_path := path\<rparr>))
      else
        andthen (record_effect (ShowedErr (''nightshade-installer: unknown argument: '' @ arg))) (\<lambda>_.
          read_args argv (as\<lparr>ia_help := True\<rparr>)))"

definition INSTALLER_VERSION :: string where "INSTALLER_VERSION = ''0.1.0''"

definition help_text :: string where
  "help_text =
     unlines
       [''nightshade-installer '' @ INSTALLER_VERSION,
        '''',
        ''Installs Nightshade to disk with ZFS, optionally as a two-disk RAID1 mirror.'',
        ''Must be run as root from the Nightshade live medium.'',
        '''',
        ''usage: nightshade-installer [options]'',
        '''',
        ''options:'',
        ''  --plain         force the line-based frontend (the default on a serial'',
        ''                  console or a terminal that cannot support a full-screen UI)'',
        ''  --log PATH      write the install log here (default: '' @ DEFAULT_LOG_PATH @ '')'',
        ''  -V, --version   print the version'',
        ''  -h, --help      this help'']"

definition terminal_supports_tui :: "'w box \<Rightarrow> bool" where
  "terminal_supports_tui b \<longleftrightarrow>
     (case bx_TERM b of
        Some t \<Rightarrow> t \<notin> set ['''', ''dumb'', ''vt100'', ''vt102'', ''unknown'']
      | None \<Rightarrow> False)"

text \<open>\<open>tui\<close> is \<open>None\<close> in a build without the full-screen front end, and \<open>Inl\<close> the reason it cannot start.\<close>

definition select_frontend ::
  "'w box \<Rightarrow> (ierror + 'w frontend) option \<Rightarrow> installer_args \<Rightarrow> ('w, 'w frontend) act" where
  "select_frontend b tui as =
     (if ia_plain as then
        andthen (log_info ''frontend: plain (forced by --plain)'') (\<lambda>_. give (plain_frontend b))
      else if \<not> terminal_supports_tui b then
        andthen (log_info (''frontend: plain (TERM='' @ (case bx_TERM b of Some t \<Rightarrow> t | None \<Rightarrow> ''<unset>'') @
          '' cannot support a full-screen interface)'')) (\<lambda>_. give (plain_frontend b))
      else
        (case tui of
           Some (Inr fe) \<Rightarrow> andthen (log_info ''frontend: tui'') (\<lambda>_. give fe)
         | Some (Inl e) \<Rightarrow>
             andthen (in_turn
               [log_warn (''TUI could not start ('' @ show_ierror e @ ''); falling back to plain''),
                record_effect (ShowedErr (''  (full-screen interface unavailable: '' @ show_ierror e @ '')'')),
                log_info ''frontend: plain'']) (\<lambda>_. give (plain_frontend b))
         | None \<Rightarrow> andthen (log_info ''frontend: plain'') (\<lambda>_. give (plain_frontend b))))"

definition conclude :: "'w box \<Rightarrow> ierror + final_action \<Rightarrow> ('w, nat) act" where
  "conclude b r =
     (case r of
        Inr Reboot \<Rightarrow>
          andthen (in_turn
            [log_info ''rebooting at operator request'', say_line ([newline] @ ''  Rebooting...'' @ [newline]),
             ignored (run_lenient b (here_cmd ''systemctl'' [''reboot'']))]) (\<lambda>_. give 0)
      | Inr Shell \<Rightarrow>
          andthen (say_line ([newline] @ ''  Exiting to a shell. Reboot when ready.'' @ [newline])) (\<lambda>_. give 0)
      | Inl Aborted \<Rightarrow>
          andthen (in_turn
            [log_info ''cancelled by the operator'',
             say_line ([newline] @ ''  Cancelled. No changes were made.'' @ [newline])]) (\<lambda>_. give 0)
      | Inl e \<Rightarrow>
          andthen (in_turn
            [log_error (''exiting with failure: '' @ show_ierror e),
             record_effect (ShowedErr (''nightshade-installer: '' @ show_ierror e))]) (\<lambda>_. give 1))"

definition installer_main ::
  "'w box \<Rightarrow> (ierror + 'w frontend) option \<Rightarrow> string list \<Rightarrow> ('w, nat) act" where
  "installer_main b tui argv =
     andthen (read_args argv
       \<lparr>ia_help = False, ia_version = False, ia_plain = False, ia_log_path = DEFAULT_LOG_PATH\<rparr>) (\<lambda>as.
     if ia_help as then andthen (say_line help_text) (\<lambda>_. give 0)
     else if ia_version as then andthen (say_line (''nightshade-installer '' @ INSTALLER_VERSION)) (\<lambda>_. give 0)
     else
       andthen (in_turn [log_init b (ia_log_path as), log_info (''nightshade-installer '' @ INSTALLER_VERSION @ '' starting'')]) (\<lambda>_.
       andthen (\<lambda>s. (if log_is_active s then give ()
         else record_effect (ShowedErr (''warning: could not open '' @ ia_log_path as @
           '' for writing; continuing without a log''))) s) (\<lambda>_.
       andthen (select_frontend b tui as) (\<lambda>fe.
       andthen (attempt (engine_run b fe)) (conclude b)))))"

end
