(* ===== verification/Install_Laws.thy ===== *)
theory Install_Laws
  imports Install_Main
begin

text \<open>
  What an installation can do. An action is described by a relation between the state before and after
  that is reflexive and transitive; \<open>acts R m\<close> composes along the constructs the actions are made of.
\<close>

section \<open>Actions within a relation\<close>

definition acts :: "('w inst \<Rightarrow> 'w inst \<Rightarrow> bool) \<Rightarrow> ('w, 'a) act \<Rightarrow> bool" where
  "acts R m \<longleftrightarrow> (\<forall>s. R s (snd (m s)))"

declare in_turn.simps [simp del]

lemma actsD: "acts R m \<Longrightarrow> m s = (r, s') \<Longrightarrow> R s s'"
  by (metis acts_def snd_conv)

locale effect_relation =
  fixes R :: "'w inst \<Rightarrow> 'w inst \<Rightarrow> bool"
  assumes R_refl: "R s s" and R_trans: "R s t \<Longrightarrow> R t u \<Longrightarrow> R s u"
begin

lemma basics: "acts R (give a)" "acts R (fail_with e)" "acts R panic" "acts R (look f)"
  by (simp_all add: acts_def give_def fail_with_def panic_def look_def R_refl)

lemma andthen: "acts R m \<Longrightarrow> (\<And>a. acts R (k a)) \<Longrightarrow> acts R (andthen m k)"
  unfolding acts_def andthen_def
  by (auto split: prod.splits res.splits) (metis R_trans snd_conv)+

lemma andthen_value:
  "acts R m \<Longrightarrow> (\<And>a s s'. m s = (Fine a, s') \<Longrightarrow> acts R (k a)) \<Longrightarrow> acts R (andthen m k)"
  unfolding acts_def andthen_def
  by (auto split: prod.splits res.splits) (metis R_trans snd_conv)+

lemma attempt: "acts R m \<Longrightarrow> acts R (attempt m)"
  unfolding acts_def attempt_def by (auto split: prod.splits res.splits) (metis snd_conv)+

lemma ignored: "acts R m \<Longrightarrow> acts R (ignored m)"
  unfolding ignored_def by (intro andthen attempt basics)

lemma in_turn: "(\<And>m. m \<in> set ms \<Longrightarrow> acts R m) \<Longrightarrow> acts R (in_turn ms)"
  by (induction ms) (auto simp: in_turn.simps intro!: andthen basics)

lemma each: "(\<And>x. x \<in> set xs \<Longrightarrow> acts R (f x)) \<Longrightarrow> acts R (each f xs)"
  unfolding each_def by (rule in_turn) auto

lemma gather: "(\<And>x. x \<in> set xs \<Longrightarrow> acts R (f x)) \<Longrightarrow> acts R (gather f xs)"
  by (induction xs) (auto intro!: andthen basics)

lemma on_state: "(\<And>s. R s (snd (m s s))) \<Longrightarrow> acts R (\<lambda>s. m s s)"
  by (simp add: acts_def)

lemma rounds: "acts R m \<Longrightarrow> acts R (rounds n m)"
proof (induction n)
  case (Suc n)
  have "acts R (case r of Some a \<Rightarrow> give a | None \<Rightarrow> rounds n m)" for r
    using Suc by (cases r) (auto intro: basics)
  then show ?case using Suc by (auto intro: andthen)
qed (simp add: basics)

lemma until_answered: "acts R m \<Longrightarrow> acts R (until_answered m)"
  using rounds unfolding acts_def until_answered_def by blast

lemmas steps = basics andthen attempt ignored in_turn each gather

end

section \<open>What is left in the record\<close>

text \<open>
  The effects of an action satisfy \<open>P\<close>, it may have read lines of the console, and what it notes to be
  undone lies in the target.
\<close>

definition session_ok :: "teardown_list \<Rightarrow> bool" where
  "session_ok td \<longleftrightarrow>
     (\<forall>m \<in> set (td_mounts td) \<union> set (td_binds td). starts_with m TARGET) \<and> set (td_pools td) \<subseteq> {BPOOL, RPOOL}"

definition leaves_trace :: "(effect \<Rightarrow> bool) \<Rightarrow> 'w inst \<Rightarrow> 'w inst \<Rightarrow> bool" where
  "leaves_trace P s t \<longleftrightarrow>
     (session_ok (is_session s) \<longrightarrow>
        (\<exists>es. is_trace t = is_trace s @ es \<and> list_all P es) \<and> (\<exists>used. is_console s = used @ is_console t) \<and>
        session_ok (is_session t))"

interpretation tr: effect_relation "leaves_trace P" for P
proof
  show "leaves_trace P s s" for s by (simp add: leaves_trace_def)
next
  fix s t u :: "'a inst"
  assume a: "leaves_trace P s t" "leaves_trace P t u"
  show "leaves_trace P s u"
    unfolding leaves_trace_def
  proof
    assume ok: "session_ok (is_session s)"
    obtain es es' where "is_trace t = is_trace s @ es" "list_all P es" "is_trace u = is_trace t @ es'" "list_all P es'"
      using a ok unfolding leaves_trace_def by blast
    moreover obtain us us' where "is_console s = us @ is_console t" "is_console t = us' @ is_console u"
      using a ok unfolding leaves_trace_def by blast
    moreover have "session_ok (is_session u)" using a ok unfolding leaves_trace_def by blast
    ultimately show "(\<exists>es. is_trace u = is_trace s @ es \<and> list_all P es) \<and>
        (\<exists>used. is_console s = used @ is_console u) \<and> session_ok (is_session u)"
      by (intro conjI exI [of _ "es @ es'"] exI [of _ "us @ us'"]) simp_all
  qed
qed

lemma leaves_one:
  "P e \<Longrightarrow> is_trace t = is_trace s @ [e] \<Longrightarrow> is_console t = is_console s \<Longrightarrow> is_session t = is_session s \<Longrightarrow>
   leaves_trace P s t"
  unfolding leaves_trace_def by (intro impI conjI exI [of _ "[e]"] exI [of _ "[]"]) simp_all

lemma leaves_none:
  "is_trace t = is_trace s \<Longrightarrow> is_console t = is_console s \<Longrightarrow> session_ok (is_session s) \<longrightarrow> session_ok (is_session t) \<Longrightarrow>
   leaves_trace P s t"
  unfolding leaves_trace_def by (intro impI conjI exI [of _ "[]"]) simp_all

lemma acts_emit: "P e \<Longrightarrow> acts (leaves_trace P) (record_effect e)"
  by (auto simp: acts_def record_effect_def intro: leaves_one)

lemma acts_change: "P e \<Longrightarrow> acts (leaves_trace P) (change e f ctx)"
  by (auto simp: acts_def change_def Let_def split: prod.splits sum.splits intro!: leaves_one [of P e])

text \<open>Logging, showing and waiting are always fine.\<close>

definition talks :: "(effect \<Rightarrow> bool) \<Rightarrow> bool" where
  "talks P \<longleftrightarrow> (\<forall>l m t n. P (LogLine l m) \<and> P (Showed t) \<and> P (ShowedErr t) \<and> P (Prompted t) \<and> P EchoOff \<and>
     P EchoOn \<and> P (Slept n))"

locale talking =
  fixes P :: "effect \<Rightarrow> bool"
  assumes P: "talks P"
begin

lemma acts_write_line: "acts (leaves_trace P) (write_line l m)"
  using P by (auto simp: acts_def write_line_def record_effect_def talks_def intro: leaves_one [of P "LogLine l m"] leaves_none)

lemma acts_logs: "acts (leaves_trace P) (log_info m)" "acts (leaves_trace P) (log_warn m)"
  "acts (leaves_trace P) (log_error m)" "acts (leaves_trace P) (log_step m)"
  unfolding log_info_def log_warn_def log_error_def log_step_def
  by (auto intro!: tr.in_turn acts_write_line)

lemma acts_log_block: "acts (leaves_trace P) (log_block l m)"
  unfolding log_block_def Let_def by (auto intro!: tr.steps acts_write_line split: option.split)

lemma acts_sleep: "acts (leaves_trace P) (sleep b n)"
  using P by (auto simp: acts_def sleep_def Let_def talks_def intro: leaves_one [of P "Slept n"])

lemma acts_read_file: "acts (leaves_trace P) (read_file b path ctx)"
  unfolding read_file_def by (auto intro!: tr.steps split: sum.split)

lemma acts_spawn: "P (Ran c) \<Longrightarrow> acts (leaves_trace P) (spawn_and_wait b c)"
proof -
  assume c: "P (Ran c)"
  then have "acts (leaves_trace P) (spawned b c)"
    by (auto simp: acts_def spawned_def Let_def split: prod.splits sum.splits intro!: leaves_one [of P "Ran c"])
  then show ?thesis unfolding spawn_and_wait_def
    by (auto intro!: tr.steps acts_logs acts_log_block split: option.split)
qed

lemma acts_runs:
  assumes "P (Ran c)"
  shows "acts (leaves_trace P) (run_checked b c)" "acts (leaves_trace P) (run_ok b c)"
    "acts (leaves_trace P) (run_lenient b c)" "acts (leaves_trace P) (cmd_succeeds b c)"
  unfolding run_checked_def run_ok_def run_lenient_def cmd_succeeds_def
  using acts_spawn [OF assms] by (auto intro!: tr.steps acts_logs)

lemma acts_read_line: "acts (leaves_trace P) read_line"
  by (auto simp: acts_def read_line_def leaves_trace_def split: list.splits sum.splits)

lemma acts_say: "acts (leaves_trace P) (say_line t)"
  "acts (leaves_trace P) rule_line" "acts (leaves_trace P) (heading t)" "acts (leaves_trace P) (para t)"
  "acts (leaves_trace P) (complain t)"
proof -
  show say: "acts (leaves_trace P) (say_line t)" for t
    using P by (auto simp: say_line_def talks_def intro: acts_emit)
  show "acts (leaves_trace P) rule_line" unfolding rule_line_def by (rule say)
  then show "acts (leaves_trace P) (heading t)" "acts (leaves_trace P) (para t)" "acts (leaves_trace P) (complain t)"
    unfolding heading_def para_def complain_def by (auto intro!: tr.in_turn say)
qed

lemma acts_ask_line: "acts (leaves_trace P) (ask_line label)"
  using P unfolding ask_line_def by (auto simp: talks_def intro!: tr.andthen acts_emit acts_read_line)

lemma acts_ask_secret: "acts (leaves_trace P) (ask_secret b label)"
  using P unfolding ask_secret_def echo_off_def
  by (auto simp: talks_def intro!: tr.steps acts_emit acts_read_line acts_say acts_logs split: sum.split)

lemmas acts_talk = acts_logs acts_log_block acts_sleep acts_read_file acts_say acts_ask_line acts_ask_secret

text \<open>The line-based front end only shows and reads.\<close>

lemma acts_show_disk: "acts (leaves_trace P) (show_disk b x)" "acts (leaves_trace P) (doomed b d)"
  unfolding show_disk_def doomed_def
  by (auto intro!: tr.in_turn acts_talk split: prod.split if_splits)

lemma acts_plain_asks:
  "acts (leaves_trace P) plain_welcome" "acts (leaves_trace P) (plain_select_disks b ds)"
  "acts (leaves_trace P) (plain_confirm_warning m)" "acts (leaves_trace P) (plain_confirm_destruction b ds lay)"
  "acts (leaves_trace P) (plain_collect_password b user)" "acts (leaves_trace P) (plain_collect_hostname host)"
  "acts (leaves_trace P) (plain_confirm_summary b c)"
  unfolding plain_welcome_def plain_select_disks_def plain_confirm_warning_def plain_confirm_destruction_def
    plain_collect_password_def plain_collect_hostname_def plain_confirm_summary_def confirm_yes_def Let_def
  by (auto intro!: tr.until_answered tr.steps acts_talk acts_show_disk split: option.split sum.split prod.split)

lemma acts_plain_ends:
  "acts (leaves_trace P) (plain_failed e log)" "acts (leaves_trace P) (plain_finished log)"
  unfolding plain_failed_def plain_finished_def Let_def
  by (auto intro!: tr.until_answered tr.steps acts_talk split: if_splits)

lemma acts_plain_progress: "acts (leaves_trace P) (plain_progress p)"
proof -
  have "acts (leaves_trace P) (\<lambda>s. (Fine (), s\<lparr>is_in_progress := True\<rparr>))"
    by (auto simp: acts_def intro: leaves_none)
  then have "acts (leaves_trace P) (andthen (heading ''Installing'') (\<lambda>_ s. (Fine (), s\<lparr>is_in_progress := True\<rparr>)))"
    by (intro tr.andthen acts_talk)
  then have "acts (leaves_trace P) begin_progress"
    unfolding begin_progress_def by (auto simp: acts_def tr.R_refl)
  then show ?thesis by (cases p) (auto intro!: tr.steps acts_talk)
qed

end

section \<open>Before the confirmation\<close>

fun harmless :: "effect \<Rightarrow> bool" where
  "harmless (Ran c) \<longleftrightarrow> cm_program c \<in> {''modprobe'', ''lsblk''} \<and> cm_chroot c = None"
| "harmless (Wrote p t) \<longleftrightarrow> False"
| "harmless (MadeDirs p) \<longleftrightarrow> False"
| "harmless (SetMode p m) \<longleftrightarrow> False"
| "harmless (CopiedFile p q) \<longleftrightarrow> False"
| "harmless (RemovedFile p) \<longleftrightarrow> False"
| "harmless (RemovedTree p) \<longleftrightarrow> False"
| "harmless e \<longleftrightarrow> True"

abbreviation harms_nothing :: "('w, 'a) act \<Rightarrow> bool" where
  "harms_nothing m \<equiv> acts (leaves_trace harmless) m"

interpretation asking: talking harmless
  by unfold_locales (simp add: talks_def)

lemma here_cmd_simps [simp]:
  "cm_program (here_cmd p as) = p" "cm_args (here_cmd p as) = as" "cm_chroot (here_cmd p as) = None"
  "cm_stdin (here_cmd p as) = StdinEmpty"
  "cm_program (target_cmd p as) = p" "cm_args (target_cmd p as) = as" "cm_chroot (target_cmd p as) = Some TARGET"
  "cm_stdin (target_cmd p as) = StdinEmpty"
  by (simp_all add: here_cmd_def target_cmd_def cmd_args_def cmd_new_def in_chroot_def)

lemma harms_nothing_preflight: "harms_nothing (preflight b)"
  unfolding preflight_def require_tools_def require_there_def
  by (auto intro!: tr.steps asking.acts_talk asking.acts_runs)

lemma harms_nothing_enumerate: "harms_nothing (enumerate_disks b)"
proof -
  have sig: "harms_nothing (signatures b dev)" for dev
    unfolding signatures_def
    by (auto intro!: tr.steps asking.acts_runs simp: cmd_args_def cmd_new_def)
  then have "harms_nothing (probe_disk b name n)" for name n
    unfolding probe_disk_def Let_def by (auto intro!: tr.steps)
  then have "harms_nothing (probe_entries b live es)" for live es
    by (induction b live es rule: probe_entries.induct)
      (auto intro!: tr.steps asking.acts_talk split: option.split)
  then show ?thesis
    unfolding enumerate_disks_def by (auto intro!: tr.steps asking.acts_talk split: sum.split)
qed

end
