(* ===== verification/Install_Safety.thy ===== *)
theory Install_Safety
  imports Install_Laws
begin

text \<open>
  What an installation may touch: nothing before the operator confirmed, and from then on the target and
  the chosen disks.
\<close>

section \<open>Confined to the chosen disks\<close>

text \<open>The names a chosen disk and its partitions go by.\<close>

definition of_disks :: "disk list \<Rightarrow> string \<Rightarrow> bool" where
  "of_disks ds a \<longleftrightarrow>
     (\<exists>d \<in> set ds. a = dk_path d \<or>
        (\<exists>p \<in> {PART_ESP, PART_BPOOL, PART_RPOOL}. a = disk_partition d p \<or> a = kernel_partition d p))"

definition pool_names :: "string set" where
  "pool_names = {BPOOL, RPOOL}"

text \<open>
  \<open>zpool create\<close>: the last options set the alternate root to the target, then come the name of one of
  the two pools and its devices, all of the chosen disks.
\<close>

definition pool_on_disks :: "disk list \<Rightarrow> string list \<Rightarrow> bool" where
  "pool_on_disks ds as \<longleftrightarrow>
     (let before = takeWhile (\<lambda>a. a \<notin> pool_names) as
      in length before < length as \<and> drop (length before - 2) before = [''-R'', TARGET] \<and>
         list_all (\<lambda>a. a = ''mirror'' \<or> of_disks ds a) (drop (Suc (length before)) as))"

text \<open>
  What may be run on the live system itself: the tools that write to a device, on a device of the chosen
  disks; mounts, copies and modes that end in the target; the two pools by their names, and datasets
  in them; \<open>zfs unmount -a\<close>; and two commands that only wait and list. Everything else is refused.
\<close>

definition here_ok :: "disk list \<Rightarrow> string \<Rightarrow> string list \<Rightarrow> bool" where
  "here_ok ds p as \<longleftrightarrow> as \<noteq> [] \<and>
     (if p \<in> {''sgdisk'', ''wipefs'', ''blockdev'', ''mkfs.vfat'', ''blkid''} then of_disks ds (last as)
      else if p = ''mount'' then
        starts_with (last as) TARGET \<and> list_all (\<lambda>a. starts_with a ''/dev/'' \<longrightarrow> of_disks ds a) as
      else if p \<in> {''umount'', ''chmod'', ''cp''} then starts_with (last as) TARGET
      else if p = ''zpool'' then
        (if hd as = ''create'' then pool_on_disks ds as
         else hd as \<in> {''list'', ''set'', ''export''} \<and> last as \<in> pool_names)
      else if p = ''zfs'' then
        as = [''unmount'', ''-a''] \<or>
        hd as \<in> {''create'', ''mount''} \<and> (starts_with (last as) (BPOOL @ ''/'') \<or> starts_with (last as) (RPOOL @ ''/''))
      else (p, as) \<in> {(''udevadm'', [''settle'', ''--timeout=30'']), (''efibootmgr'', [''-v''])})"

text \<open>
  A command either runs inside the target, where it is given no device but those of the chosen disks
  (\<open>apt-get\<close> is given the package names of the live manifest), or may be run here.
\<close>

definition confined_cmd :: "disk list \<Rightarrow> cmd \<Rightarrow> bool" where
  "confined_cmd ds c \<longleftrightarrow>
     (case cm_chroot c of
        None \<Rightarrow> here_ok ds (cm_program c) (cm_args c)
      | Some at \<Rightarrow> at = TARGET \<and>
          (cm_program c = ''apt-get'' \<or> list_all (\<lambda>a. starts_with a ''/dev/'' \<longrightarrow> of_disks ds a) (cm_args c)))"

lemma confined_cmd_simps [simp]:
  "confined_cmd ds (here_cmd p as) = here_ok ds p as"
  "confined_cmd ds (target_cmd p as) \<longleftrightarrow>
     p = ''apt-get'' \<or> list_all (\<lambda>a. starts_with a ''/dev/'' \<longrightarrow> of_disks ds a) as"
  "confined_cmd ds (stdin_secret x c) = confined_cmd ds c"
  by (simp_all add: confined_cmd_def stdin_secret_def cong: option.case_cong)

fun confined :: "disk list \<Rightarrow> effect \<Rightarrow> bool" where
  "confined ds (Ran c) \<longleftrightarrow> confined_cmd ds c"
| "confined ds (Wrote p t) \<longleftrightarrow> starts_with p TARGET"
| "confined ds (MadeDirs p) \<longleftrightarrow> starts_with p TARGET"
| "confined ds (SetMode p m) \<longleftrightarrow> starts_with p TARGET"
| "confined ds (CopiedFile p q) \<longleftrightarrow> starts_with q TARGET"
| "confined ds (RemovedFile p) \<longleftrightarrow> starts_with p TARGET"
| "confined ds (RemovedTree p) \<longleftrightarrow> starts_with p TARGET"
| "confined ds e \<longleftrightarrow> True"

abbreviation stays :: "disk list \<Rightarrow> ('w, 'a) act \<Rightarrow> bool" where
  "stays ds m \<equiv> acts (leaves_trace (confined ds)) m"

text \<open>A front end whose reports only show and read.\<close>

locale talking_frontend = talking P for P :: "effect \<Rightarrow> bool" +
  fixes fe :: "'w frontend"
  assumes progress: "acts (leaves_trace P) (fe_progress fe p)"
    and failed: "acts (leaves_trace P) (fe_failed fe e log)"
    and finished: "acts (leaves_trace P) (fe_finished fe log)"
begin

lemma reports:
  "acts (leaves_trace P) (step_begin fe name)" "acts (leaves_trace P) (step_detail fe detail)"
  "acts (leaves_trace P) (step_warn fe warning)"
proof -
  have "acts (leaves_trace P) next_step" by (auto simp: acts_def next_step_def intro: leaves_none)
  then show "acts (leaves_trace P) (step_begin fe name)"
    unfolding step_begin_def by (auto intro!: tr.steps acts_talk progress)
qed (auto simp: step_detail_def step_warn_def intro!: tr.steps acts_talk progress)

end

interpretation doing: talking_frontend "confined ds" "plain_frontend b" for ds b
  by unfold_locales
    (auto simp: talks_def plain_frontend_def intro!: talking.acts_plain_ends talking.acts_plain_progress talking.intro)

lemmas stays_talk = doing.acts_talk doing.reports doing.failed doing.finished

lemma starts_with_append [simp]: "starts_with (a @ b) a"
  by (simp add: starts_with_iff)

lemma stays_changes:
  "starts_with p TARGET \<Longrightarrow> stays ds (write_file b p t ctx)"
  "starts_with p TARGET \<Longrightarrow> stays ds (make_dirs b p ctx)"
  "starts_with p TARGET \<Longrightarrow> stays ds (set_mode b p m ctx)"
  "starts_with q TARGET \<Longrightarrow> stays ds (copy_file b p q ctx)"
  "starts_with p TARGET \<Longrightarrow> stays ds (remove_file b p)"
  "starts_with p TARGET \<Longrightarrow> stays ds (remove_tree b p)"
  by (simp_all add: write_file_def make_dirs_def set_mode_def copy_file_def remove_file_def remove_tree_def acts_change)

lemma stays_runs:
  assumes "confined_cmd ds c"
  shows "stays ds (run_checked b c)" "stays ds (run_ok b c)" "stays ds (run_lenient b c)"
    "stays ds (cmd_succeeds b c)"
  using assms by (auto intro!: doing.acts_runs)

lemma target_not_device [simp]:
  "\<not> starts_with (TARGET @ p) ''/dev/''" "\<not> starts_with TARGET ''/dev/''" "starts_with p TARGET \<Longrightarrow> \<not> starts_with p ''/dev/''"
  by (auto simp: TARGET_def starts_with_iff)

lemmas stays_intros = tr.steps stays_talk stays_changes stays_runs

section \<open>The steps\<close>

lemma of_disks_names:
  "d \<in> set ds \<Longrightarrow> of_disks ds (dk_path d)"
  "d \<in> set ds \<Longrightarrow> p \<in> {PART_ESP, PART_BPOOL, PART_RPOOL} \<Longrightarrow> of_disks ds (disk_partition d p)"
  "d \<in> set ds \<Longrightarrow> p \<in> {PART_ESP, PART_BPOOL, PART_RPOOL} \<Longrightarrow> of_disks ds (kernel_partition d p)"
  by (auto simp: of_disks_def)

lemma stays_prepare: "d \<in> set ds \<Longrightarrow> stays ds (prepare b d)"
  unfolding prepare_def Let_def
  by (auto intro!: stays_intros simp: here_ok_def of_disks_names)

lemma stays_wait_for: "stays ds (wait_for b path deadline)"
proof -
  have "leaves_trace (confined ds) s (snd (wait_for b path deadline s))" for s
  proof (induction b path deadline s rule: wait_for.induct)
    case (1 b path deadline s)
    have "leaves_trace (confined ds) s (snd (sleep b 200 s))"
      using doing.acts_sleep [of ds b 200] by (simp add: acts_def)
    then show ?case
      using 1 by (subst wait_for.simps) (auto intro: tr.R_refl tr.R_trans)
  qed
  then show ?thesis by (simp add: acts_def)
qed

lemma stays_now: "stays ds now"
  by (simp add: acts_def now_def tr.R_refl)

lemma stays_settle: "ic_disks c = ds \<Longrightarrow> stays ds (settle b c)"
  unfolding settle_def
  by (auto intro!: stays_intros stays_wait_for stays_now simp: here_ok_def of_disks_names)

lemma stays_release: "stays ds (release_existing_pools b (plain_frontend b))"
  unfolding release_existing_pools_def
  by (auto intro!: stays_intros simp: here_ok_def pool_names_def split: sum.split)

lemma vdevs_of_disks:
  "ic_disks c = ds \<Longrightarrow> p \<in> {PART_ESP, PART_BPOOL, PART_RPOOL} \<Longrightarrow>
   list_all (\<lambda>a. a = ''mirror'' \<or> of_disks ds a) (vdev_args c p)"
  by (auto simp: vdev_args_def Let_def list_all_iff of_disks_names(2))

lemma stays_pools:
  assumes "ic_disks c = ds"
  shows "stays ds (create_bpool b c)" "stays ds (create_rpool b c)"
  using vdevs_of_disks [OF assms] unfolding create_bpool_def create_rpool_def
  by (auto intro!: stays_intros simp: here_ok_def pool_on_disks_def Let_def pool_names_def BPOOL_def RPOOL_def TARGET_def)

lemma stays_datasets: "stays ds (create_datasets b (plain_frontend b))"
  unfolding create_datasets_def zfs_create_def
  by (auto intro!: stays_intros simp: here_ok_def ROOT_DATASET_def BOOT_DATASET_def BPOOL_def RPOOL_def starts_with_iff)

lemma stays_cachefile: "stays ds (write_cachefile b (plain_frontend b))"
  unfolding write_cachefile_def Let_def
  by (auto intro!: stays_intros simp: here_ok_def pool_names_def)

text \<open>The partitions the bootloader goes to, and where they are mounted.\<close>

definition esps_of :: "disk list \<Rightarrow> esp list \<Rightarrow> bool" where
  "esps_of ds es \<longleftrightarrow> (\<forall>e \<in> set es. ep_disk e \<in> dk_path ` set ds \<and> starts_with (ep_mountpoint e) TARGET)"

lemma andthen_Fine:
  "andthen m k s = (Fine a, s') \<longleftrightarrow> (\<exists>x t. m s = (Fine x, t) \<and> k x t = (Fine a, s'))"
  by (auto simp: andthen_def split: prod.splits res.splits)

lemma esp_mountpoint_target: "starts_with (esp_mountpoint i) TARGET"
  by (simp add: esp_mountpoint_def)

lemma gather_Fine:
  "gather f xs s = (Fine ys, s') \<Longrightarrow> y \<in> set ys \<Longrightarrow> \<exists>x \<in> set xs. \<exists>t t'. f x t = (Fine y, t')"
proof (induction xs arbitrary: ys s)
  case (Cons x xs)
  then obtain z t zs where z: "f x s = (Fine z, t)" "gather f xs t = (Fine zs, s')" "ys = z # zs"
    by (auto simp: andthen_Fine give_def)
  show ?case
  proof (cases "y = z")
    case True
    then show ?thesis using z by auto
  next
    case False
    then show ?thesis using z Cons.IH [of t zs] Cons.prems by auto
  qed
qed (simp add: give_def)

lemma enumerate_mem: "(i, d) \<in> set (List.enumerate n ds) \<Longrightarrow> d \<in> set ds"
  by (auto simp: in_set_enumerate_eq)

lemma format_esps_of: "format_esps b c fe s = (Fine es, s') \<Longrightarrow> esps_of (ic_disks c) es"
  unfolding format_esps_def esps_of_def
proof (intro ballI)
  fix e
  assume "gather (format_esp b fe) (List.enumerate 0 (ic_disks c)) s = (Fine es, s')" "e \<in> set es"
  then obtain i d t t' where "(i, d) \<in> set (List.enumerate 0 (ic_disks c))" "format_esp b fe (i, d) t = (Fine e, t')"
    using gather_Fine [of "format_esp b fe"] by fast
  moreover from this have "d \<in> set (ic_disks c)" by (blast dest: enumerate_mem)
  ultimately show "ep_disk e \<in> dk_path ` set (ic_disks c) \<and> starts_with (ep_mountpoint e) TARGET"
    by (auto simp: format_esp_def andthen_Fine give_def esp_mountpoint_target Let_def)
qed

lemma stays_format_esps: "ic_disks c = ds \<Longrightarrow> stays ds (format_esps b c (plain_frontend b))"
proof -
  assume c: "ic_disks c = ds"
  have "stays ds (format_esp b (plain_frontend b) (i, d))" if "d \<in> set ds" for i d
    unfolding format_esp_def fs_uuid_def Let_def
    using that esp_mountpoint_target
    by (auto intro!: stays_intros simp: here_ok_def of_disks_names)
  then show ?thesis
    unfolding format_esps_def using c
    by (auto intro!: tr.gather dest: enumerate_mem)
qed

text \<open>A file of the target has its directory in the target.\<close>

lemma parent_dir_target: "starts_with (parent_dir (TARGET @ ''/'' @ r)) TARGET"
proof (cases "CHR ''/'' \<in> set r")
  case True
  then obtain x y where "rev r = x @ CHR ''/'' # y" "CHR ''/'' \<notin> set x"
    using split_list_first [of "CHR ''/''" "rev r"] by auto
  then have "dropWhile (\<lambda>c. c \<noteq> CHR ''/'') (rev (TARGET @ ''/'' @ r)) = CHR ''/'' # y @ CHR ''/'' # rev TARGET"
    by (simp, subst dropWhile_append2, auto)
  then show ?thesis by (simp add: parent_dir_def)
next
  case False
  then have "dropWhile (\<lambda>c. c \<noteq> CHR ''/'') (rev (TARGET @ ''/'' @ r)) = CHR ''/'' # rev TARGET"
    by (simp, subst dropWhile_append2, auto)
  then show ?thesis by (simp add: parent_dir_def starts_with_iff)
qed

lemma under_target [simp]: "\<not> starts_with n ''/'' \<Longrightarrow> starts_with d TARGET \<Longrightarrow> starts_with (under d n) TARGET"
proof -
  assume n: "\<not> starts_with n ''/''" and d: "starts_with d TARGET"
  have "starts_with (d @ e) TARGET" for e using d by (auto simp: starts_with_iff)
  moreover have "d \<noteq> []" using d by (auto simp: starts_with_iff TARGET_def)
  ultimately show ?thesis using n by (simp add: under_def)
qed

lemma stays_put:
  assumes "starts_with r ''/''"
  shows "stays ds (put_target_file b r t m ctx)"
proof -
  obtain q where "r = ''/'' @ q" using assms by (auto simp: starts_with_iff)
  then show ?thesis
    unfolding put_target_file_def Let_def using parent_dir_target
    by (auto intro!: stays_intros)
qed

lemma stays_writes:
  "starts_with r ''/'' \<Longrightarrow> stays ds (write_target_file b r t m)"
  "starts_with r ''/'' \<Longrightarrow> stays ds (boot_target_file b r t m)"
  by (simp_all add: write_target_file_def boot_target_file_def stays_put)

lemma stays_source: "stays ds (rootfs_source b)"
proof -
  have "stays ds (find_source b lns)" for lns
    by (induction b lns rule: find_source.induct) (auto intro!: stays_intros split: list.split)
  then show ?thesis unfolding rootfs_source_def by (auto intro!: stays_intros)
qed

lemma stays_copy: "stays ds (copy_to_target b source TARGET)"
  unfolding copy_to_target_def
  by (auto intro!: stays_intros simp: here_ok_def starts_with_iff)

lemma stays_strip: "stays ds (strip_live_layer b (plain_frontend b))"
  unfolding strip_live_layer_def remove_live_path_def Let_def
  by (auto intro!: stays_intros split: sum.split manifest_line.split if_splits)

lemma stays_pam: "stays ds (verify_pam_stack b (plain_frontend b))"
  unfolding verify_pam_stack_def by (auto intro!: stays_intros)

lemma stays_units: "list_all (\<lambda>u. \<not> starts_with u ''/dev/'') us \<Longrightarrow> stays ds (enable_units b (plain_frontend b) us)"
  unfolding enable_units_def
  by (auto intro!: stays_intros simp: list_all_iff)

lemma stays_target:
  "stays ds (write_fstab b esps)" "stays ds (set_hostname b c)"
  "stays ds (enable_zfs_services b (plain_frontend b))" "stays ds (regenerate_initramfs b)"
  unfolding write_fstab_def set_hostname_def enable_zfs_services_def regenerate_initramfs_def
  by (auto intro!: stays_intros stays_writes stays_units)

lemma stays_account: "stays ds (create_account b c)"
  unfolding create_account_def set_password_def Let_def
  by (auto intro!: stays_intros stays_writes simp: DEFAULT_USER_def)

lemma stays_require_there: "stays ds (require_there b path complaint)"
  unfolding require_there_def by (auto intro!: stays_intros)

lemma stays_grub: "stays ds (configure_grub b)"
  unfolding configure_grub_def install_fonts_def Let_def
  by (auto intro!: stays_intros stays_writes stays_require_there simp: here_ok_def GFX_SCRIPT_def starts_with_iff)

lemma disk_of_esp: "esps_of ds es \<Longrightarrow> e \<in> set es \<Longrightarrow> of_disks ds (ep_disk e)"
  by (auto simp: esps_of_def of_disks_def)

lemma part_number: "show_nat PART_ESP = ''1''"
  by code_simp

lemma stays_esps: "esps_of ds es \<Longrightarrow> stays ds (install_to_esps b es (plain_frontend b))"
  unfolding install_to_esps_def grub_install_def boot_entry_def check_menu_def Let_def
  by (auto intro!: stays_intros simp: here_ok_def disk_of_esp in_set_dropD part_number split: sum.split)

lemma stays_sync: "stays ds (install_esp_sync b es (plain_frontend b))"
  unfolding install_esp_sync_def
  by (auto intro!: stays_intros stays_writes stays_units split: list.split)

lemma stays_configuration: "stays ds (write_configuration b c TARGET)"
proof -
  have target: "starts_with TARGET TARGET" by (simp add: starts_with_iff)
  then show ?thesis
    unfolding write_configuration_def Let_def
    by (auto intro!: stays_intros split: prod.split option.split)
qed

lemma stays_save_log: "stays ds (save_log b)"
proof -
  have "stays ds (log_copy_to b (TARGET @ ''/'' @ r))" for r
  proof -
    have "stays ds (andthen (make_dirs b (parent_dir (TARGET @ ''/'' @ r)) '''')
        (\<lambda>_. copy_file b p (TARGET @ ''/'' @ r) ''''))" for p
      using parent_dir_target by (auto intro!: stays_intros)
    then show ?thesis unfolding acts_def log_copy_to_def by blast
  qed
  from this [of "''var/log/nightshade-install.log''"] show ?thesis
    unfolding save_log_def Let_def
    by (auto intro!: stays_intros split: sum.split ierror.split)
qed

text \<open>What is noted to be undone.\<close>

lemma stays_noted:
  "list_all (\<lambda>m. starts_with m TARGET) ms \<Longrightarrow> stays ds (mounts_made ms)"
  "list_all (\<lambda>m. starts_with m TARGET) ms \<Longrightarrow> stays ds (binds_made ms)"
  "p \<in> {BPOOL, RPOOL} \<Longrightarrow> stays ds (pool_made p)"
  by (auto simp: acts_def mounts_made_def binds_made_def pool_made_def session_ok_def list_all_iff intro!: leaves_none)

lemma stays_bind: "stays ds (bind_pseudo_filesystems b)"
  unfolding bind_pseudo_filesystems_def bind_one_def Let_def
  by (auto intro!: stays_intros simp: here_ok_def)

lemma bind_Fine:
  "bind_pseudo_filesystems b s = (Fine ms, s') \<Longrightarrow> list_all (\<lambda>m. starts_with m TARGET) ms"
  unfolding bind_pseudo_filesystems_def Let_def list_all_iff
  by (auto simp: andthen_Fine give_def bind_one_def Let_def)

lemma stays_system:
  assumes c: "ic_disks c = ds" and es: "esps_of ds es"
  shows "stays ds (install_system b (plain_frontend b) c es)"
proof -
  have "stays ds (andthen (bind_pseudo_filesystems b) binds_made)"
    by (intro tr.andthen_value stays_bind stays_noted bind_Fine)
  moreover have "stays ds (mounts_made (map ep_mountpoint es))"
    using es by (intro stays_noted) (auto simp: esps_of_def list_all_iff)
  ultimately show ?thesis
    unfolding install_system_def using es
    by (auto intro!: stays_intros stays_source stays_copy stays_strip stays_pam stays_target stays_account
      stays_configuration stays_cachefile stays_grub stays_esps stays_sync stays_save_log)
qed

lemma stays_prepare_disks: "ic_disks c = ds \<Longrightarrow> stays ds (prepare_disks b (plain_frontend b) c)"
  unfolding prepare_disks_def
  by (auto intro!: stays_intros stays_release stays_prepare stays_settle stays_pools stays_noted stays_datasets)

lemma stays_after_disks:
  assumes "ic_disks c = ds"
  shows "stays ds (andthen (step_begin (plain_frontend b) ''Creating EFI system partitions'') (\<lambda>_.
     andthen (format_esps b c (plain_frontend b)) (install_system b (plain_frontend b) c)))"
  using assms
  by (auto intro!: tr.andthen tr.andthen_value stays_talk stays_format_esps stays_system dest: format_esps_of)

lemma stays_install: "ic_disks c = ds \<Longrightarrow> stays ds (install b (plain_frontend b) c)"
  unfolding install_def by (intro tr.andthen stays_prepare_disks stays_after_disks)

end
