(* ===== verification/Install_Confirmed.thy ===== *)
theory Install_Confirmed
  imports Install_Safety "HOL-Library.Sublist"
begin

text \<open>Nothing is touched that the operator did not confirm.\<close>

section \<open>Undoing and reporting stay confined\<close>

lemma stays_teardown: "stays ds (teardown b)"
proof -
  have "leaves_trace (confined ds) s (snd (teardown b s))" for s
  proof (cases "session_ok (is_session s)")
    case True
    have forget: "stays ds forget_session"
      by (auto simp: acts_def forget_session_def session_ok_def teardown_new_def intro: leaves_none)
    have export: "stays ds (export_pool b p force)" if "p \<in> {BPOOL, RPOOL}" for p force
      unfolding export_pool_def using that
      by (auto intro!: stays_intros simp: here_ok_def pool_names_def split: sum.split)
    have remaining: "stays ds (log_remaining_mounts b)"
      unfolding log_remaining_mounts_def Let_def by (auto intro!: stays_intros split: sum.split)
    have let_go: "stays ds (let_go b p)" if "p \<in> {BPOOL, RPOOL}" for p
      unfolding let_go_def using that by (auto intro!: stays_intros export remaining)
    have unbind: "stays ds (unbind b m)" if "starts_with m TARGET" for m
      unfolding unbind_def using that by (auto intro!: stays_intros simp: here_ok_def)
    let ?td = "is_session s"
    have "stays ds (in_turn
       ([log_step ''teardown''] @ map (unbind b) (rev (td_binds ?td)) @
        map (\<lambda>m. ignored (run_lenient b (here_cmd ''umount'' [m]))) (rev (td_mounts ?td)) @
        [ignored (run_lenient b (here_cmd ''zfs'' [''unmount'', ''-a'']))] @
        map (let_go b) (td_pools ?td) @ [forget_session]))"
      using True unfolding session_ok_def
      by (auto intro!: stays_intros forget unbind let_go simp: here_ok_def)
    then show ?thesis unfolding teardown_def acts_def by blast
  qed (simp add: leaves_trace_def)
  then show ?thesis by (simp add: acts_def)
qed

lemma stays_new: "stays ds new_install"
  by (auto simp: acts_def new_install_def session_ok_def teardown_new_def intro: leaves_none)

lemma stays_log: "stays ds the_log"
  by (simp add: acts_def the_log_def tr.R_refl)

lemma stays_carry_out: "stays (ic_disks c) (carry_out b (plain_frontend b) c)"
  unfolding carry_out_def log_plan_def
  by (auto intro!: stays_intros stays_new stays_log stays_install stays_teardown split: sum.split)

section \<open>What is asked\<close>

lemma plain_fields:
  "fe_welcome (plain_frontend b) = plain_welcome" "fe_select_disks (plain_frontend b) = plain_select_disks b"
  "fe_confirm_warning (plain_frontend b) = plain_confirm_warning"
  "fe_confirm_destruction (plain_frontend b) = plain_confirm_destruction b"
  "fe_collect_password (plain_frontend b) = plain_collect_password b"
  "fe_collect_hostname (plain_frontend b) = plain_collect_hostname"
  "fe_confirm_summary (plain_frontend b) = plain_confirm_summary b"
  by (simp_all add: plain_frontend_def)

lemma harms_nothing_mismatch: "harms_nothing (warn_of_mismatch b (plain_frontend b) ds)"
  unfolding warn_of_mismatch_def
  by (auto intro!: tr.steps asking.acts_plain_asks simp: plain_frontend_def split: list.split)

lemma harms_nothing_pick: "harms_nothing (pick_disks ds sel)"
  unfolding pick_disks_def by (auto intro!: tr.steps)

lemma ask_harmless: "harms_nothing (ask b (plain_frontend b))"
  unfolding ask_def Let_def
  by (auto intro!: tr.steps harms_nothing_preflight harms_nothing_enumerate harms_nothing_mismatch harms_nothing_pick
    asking.acts_plain_asks simp: plain_fields)

text \<open>A disk that may be installed on: not virtual, and not the live medium.\<close>

definition may_erase :: "'w box \<Rightarrow> 'w \<Rightarrow> disk \<Rightarrow> bool" where
  "may_erase b w d \<longleftrightarrow>
     dk_path d = ''/dev/'' @ dk_name d \<and> \<not> list_ex (starts_with (dk_name d)) SKIP_PREFIXES \<and>
     dk_name d \<notin> set (live_medium_disks b w)"

lemma probe_entries_Fine:
  "probe_entries b live es s = (Fine ds, s') \<Longrightarrow> d \<in> set ds \<Longrightarrow>
     dk_path d = ''/dev/'' @ dk_name d \<and> \<not> list_ex (starts_with (dk_name d)) SKIP_PREFIXES \<and> dk_name d \<notin> set live"
proof (induction b live es arbitrary: ds s rule: probe_entries.induct)
  case (3 b live name es)
  then show ?case
    by (fastforce simp: andthen_Fine give_def look_def offered_def probe_disk_def Let_def
      split: if_splits option.splits)
qed (auto simp: give_def fail_with_def)

lemma enumerate_disks_Fine:
  assumes "enumerate_disks b s = (Fine ds, s')" "d \<in> set ds"
  shows "may_erase b (is_world s) d"
proof -
  let ?live = "live_medium_disks b (is_world s)"
  obtain entries t where "(case entries of
         Inl why \<Rightarrow> fail_with (IoErr ''cannot read /sys/block'' why)
       | Inr es \<Rightarrow>
           andthen (probe_entries b ?live es) (\<lambda>disks.
           andthen (log_info (show_nat (length disks) @ '' installable disk(s) found'')) (\<lambda>_.
             give (sort_key dk_name disks)))) t = (Fine ds, s')"
    using assms by (auto simp: enumerate_disks_def andthen_Fine look_def)
  then obtain es u v found where "probe_entries b ?live es u = (Fine found, v)" "ds = sort_key dk_name found"
    by (cases entries) (auto simp: andthen_Fine give_def fail_with_def)
  then show ?thesis using assms(2) probe_entries_Fine unfolding may_erase_def by fastforce
qed

lemma rounds_Fine: "rounds n m s = (Fine a, s') \<Longrightarrow> \<exists>t. m t = (Fine (Some a), s')"
  by (induction n arbitrary: s) (auto simp: andthen_Fine give_def fail_with_def split: option.splits)

lemma select_Fine:
  assumes "plain_select_disks b ds s = (Fine sel, s')"
  shows "validate_selection sel (length ds) = Inr ()"
proof -
  obtain answer t where "(if is_quit answer then fail_with Aborted
          else
            (case parse_selection answer of
               None \<Rightarrow> andthen (complain ''Enter disk numbers from the list, e.g. 1 or 1 2.'') (\<lambda>_. give None)
             | Some selection \<Rightarrow>
                 (case validate_selection selection (length ds) of
                    Inr _ \<Rightarrow> give (Some selection)
                  | Inl e \<Rightarrow> andthen (complain (show_ierror e)) (\<lambda>_. give None)))) t = (Fine (Some sel), s')"
    using assms unfolding plain_select_disks_def until_answered_def
    by (blast dest!: rounds_Fine andthen_Fine [THEN iffD1])
  then show ?thesis
    by (cases "parse_selection answer"; cases "validate_selection (the (parse_selection answer)) (length ds)")
      (auto simp: andthen_Fine give_def fail_with_def split: if_splits)
qed

text \<open>The lines that were read.\<close>

abbreviation ends_line :: "char \<Rightarrow> bool" where
  "ends_line c \<equiv> c = newline \<or> c = CHR 0x0D"

lemma dropWhile_dropWhile: "(\<And>c. q c \<Longrightarrow> p c) \<Longrightarrow> dropWhile p (dropWhile q s) = dropWhile p s"
  by (induction s) auto

lemma trim_end_trim_end: "(\<And>c. q c \<Longrightarrow> p c) \<Longrightarrow> trim_end_by p (trim_end_by q s) = trim_end_by p s"
  by (simp add: trim_end_by_def dropWhile_dropWhile)

lemma trim_line: "trim (trim_end_by ends_line l) = trim l"
proof -
  have ws: "is_whitespace c" if "ends_line c" for c
  proof -
    have "is_whitespace newline" "is_whitespace (CHR 0x0D)" by code_simp+
    then show ?thesis using that by auto
  qed
  define a where "a = trim_end_by ends_line l"
  have l: "l = a @ rev (takeWhile ends_line (rev l))"
    unfolding a_def trim_end_by_def by (metis rev_append rev_rev_ident takeWhile_dropWhile_id)
  define z where "z = rev (takeWhile ends_line (rev l))"
  have z: "is_whitespace c" if "c \<in> set z" for c
    using that ws set_takeWhileD unfolding z_def by fastforce
  have tail: "trim_end_by is_whitespace (x @ z) = trim_end_by is_whitespace x" for x
  proof -
    have "dropWhile is_whitespace (rev z @ rev x) = dropWhile is_whitespace (rev x)"
      by (rule dropWhile_append2) (use z in auto)
    then show ?thesis by (simp add: trim_end_by_def)
  qed
  show ?thesis
  proof (cases "\<forall>c \<in> set a. is_whitespace c")
    case True
    then have "trim a = []" "trim (a @ z) = []"
      using z by (auto simp: trim_def trim_by_def trim_start_by_def trim_end_by_def dest: set_dropWhileD)
    then show ?thesis using l unfolding a_def z_def by simp
  next
    case False
    then have "dropWhile is_whitespace (a @ z) = dropWhile is_whitespace a @ z"
      by (auto intro: dropWhile_append1)
    then have "trim (a @ z) = trim a"
      by (simp add: trim_def trim_by_def trim_start_by_def tail)
    then show ?thesis using l unfolding a_def z_def by simp
  qed
qed

lemma read_line_Fine:
  "read_line s = (Fine l, s') \<Longrightarrow> \<exists>x. is_console s = Inr x # is_console s' \<and> trim l = trim x"
  by (auto simp: read_line_def trim_line split: list.splits sum.splits)

lemma ask_line_Fine:
  "ask_line label s = (Fine l, s') \<Longrightarrow> \<exists>x. is_console s = Inr x # is_console s' \<and> trim l = trim x"
  by (auto simp: ask_line_def andthen_Fine record_effect_def dest: read_line_Fine)

lemma console_used:
  assumes "harms_nothing m" "m s = (r, t)" "session_ok (is_session s)"
  shows "suffix (is_console t) (is_console s)" "session_ok (is_session t)"
proof -
  have "leaves_trace harmless s t" using assms(1,2) by (rule actsD)
  then show "suffix (is_console t) (is_console s)" "session_ok (is_session t)"
    using assms(3) unfolding leaves_trace_def suffix_def by blast+
qed

text \<open>
  The operator typed \<open>ERASE\<close>, and later agreed once more, in what the console gave from \<open>s\<close> to \<open>t\<close>.
\<close>

definition erase_typed :: "(string + string) list \<Rightarrow> (string + string) list \<Rightarrow> bool" where
  "erase_typed s t \<longleftrightarrow> (\<exists>x. trim x = ''ERASE'' \<and> suffix (Inr x # t) s)"

definition yes_typed :: "(string + string) list \<Rightarrow> (string + string) list \<Rightarrow> bool" where
  "yes_typed s t \<longleftrightarrow> (\<exists>x. to_ascii_lowercase (trim x) \<in> {''yes'', ''y''} \<and> suffix (Inr x # t) s)"

lemma andthen_harmless:
  assumes "andthen m k s = (Fine a, s')" "harms_nothing m" "session_ok (is_session s)"
  obtains x t where "k x t = (Fine a, s')" "suffix (is_console t) (is_console s)" "session_ok (is_session t)"
proof -
  obtain x t where "m s = (Fine x, t)" "k x t = (Fine a, s')" using assms(1) by (auto simp: andthen_Fine)
  then show ?thesis using that console_used [OF assms(2)] assms(3) by blast
qed

lemma confirm_destruction_Fine:
  assumes "plain_confirm_destruction b ds lay s = (Fine (), s')" "session_ok (is_session s)"
  shows "erase_typed (is_console s) (is_console s')"
proof -
  let ?then = "\<lambda>typed. case erase_confirmation typed of Inr _ \<Rightarrow> give ()
       | Inl _ \<Rightarrow> andthen (complain ''Not confirmed. Nothing has been changed.'') (\<lambda>_. fail_with Aborted)"
  obtain x t where "andthen (ask_line (''Type '' @ ERASE_CONFIRMATION @ '' to continue, anything else cancels: ''))
      ?then t = (Fine (), s')" and s: "suffix (is_console t) (is_console s)"
    by (rule andthen_harmless [OF assms(1) [unfolded plain_confirm_destruction_def] _ assms(2)])
      (auto intro!: tr.in_turn asking.acts_talk asking.acts_show_disk)
  then obtain l u where l: "ask_line (''Type '' @ ERASE_CONFIRMATION @ '' to continue, anything else cancels: '') t
      = (Fine l, u)" and e: "?then l u = (Fine (), s')"
    by (auto simp only: andthen_Fine)
  have "erase_confirmation l = Inr () \<and> u = s'"
    using e by (cases "erase_confirmation l") (auto simp: andthen_Fine give_def fail_with_def)
  then have "trim l = ''ERASE''" "u = s'"
    by (auto simp: erase_confirmation_def ERASE_CONFIRMATION_def split: if_splits)
  then show ?thesis using ask_line_Fine [OF l] s unfolding erase_typed_def by auto
qed

lemma confirm_summary_Fine:
  assumes "plain_confirm_summary b c s = (Fine (), s')" "session_ok (is_session s)"
  shows "yes_typed (is_console s) (is_console s')"
proof -
  obtain x t where y: "andthen (confirm_yes ''Begin installation? Type yes: '') (\<lambda>ok.
       if ok then give ()
       else andthen (complain ''Cancelled. Nothing has been changed.'') (\<lambda>_. fail_with Aborted)) t = (Fine (), s')"
    and s: "suffix (is_console t) (is_console s)"
    by (rule andthen_harmless [OF assms(1) [unfolded plain_confirm_summary_def] _ assms(2)])
      (auto intro!: tr.in_turn asking.acts_talk)
  then obtain ok u where ok: "confirm_yes ''Begin installation? Type yes: '' t = (Fine ok, u)"
    and e: "(if ok then give ()
       else andthen (complain ''Cancelled. Nothing has been changed.'') (\<lambda>_. fail_with Aborted)) u = (Fine (), s')"
    by (auto simp only: andthen_Fine)
  have "ok \<and> u = s'" using e by (cases ok) (auto simp: andthen_Fine give_def fail_with_def)
  then obtain l where "ask_line ''Begin installation? Type yes: '' t = (Fine l, s')"
    "to_ascii_lowercase (trim l) \<in> {''yes'', ''y''}"
    using ok by (auto simp: confirm_yes_def andthen_Fine give_def)
  then show ?thesis using ask_line_Fine s unfolding yes_typed_def by fastforce
qed

section \<open>The world is not asked again\<close>

definition keeps_world :: "'w inst \<Rightarrow> 'w inst \<Rightarrow> bool" where
  "keeps_world s t \<longleftrightarrow> is_world t = is_world s"

interpretation kw: effect_relation keeps_world
  by unfold_locales (auto simp: keeps_world_def)

lemma welcome_keeps_world: "acts keeps_world plain_welcome"
proof -
  have emit: "acts keeps_world (record_effect e)" for e
    by (simp add: acts_def record_effect_def keeps_world_def)
  have "acts keeps_world read_line"
    by (auto simp: acts_def read_line_def keeps_world_def split: list.splits sum.splits)
  then show ?thesis
    unfolding plain_welcome_def heading_def rule_line_def para_def ask_line_def say_line_def
    by (auto intro!: kw.steps emit)
qed

section \<open>The whole run\<close>

lemma pick_disks_Fine:
  assumes "pick_disks ds sel s = (Fine chosen, s')" "validate_selection sel (length ds) = Inr ()"
  shows "set chosen \<subseteq> set ds" "chosen \<noteq> []" "length chosen \<le> 2"
proof -
  have "chosen = map (\<lambda>i. ds ! i) sel"
    using assms(1) by (auto simp: pick_disks_def give_def panic_def split: if_splits)
  then show "set chosen \<subseteq> set ds" "chosen \<noteq> []" "length chosen \<le> 2"
    using assms(2) by (auto simp: validate_selection_Inr)
qed

text \<open>What holds of a choice once everything has been asked.\<close>

definition confirmed :: "'w box \<Rightarrow> 'w inst \<Rightarrow> disk list \<Rightarrow> 'w inst \<Rightarrow> bool" where
  "confirmed b s ds t \<longleftrightarrow>
     ds \<noteq> [] \<and> length ds \<le> 2 \<and> (\<forall>d \<in> set ds. may_erase b (is_world (snd (preflight b s))) d) \<and>
     (\<exists>middle. erase_typed (is_console s) middle \<and> yes_typed middle (is_console t))"

lemma typed_trans:
  "suffix s' s \<Longrightarrow> erase_typed s' t \<Longrightarrow> erase_typed s t" "suffix s' s \<Longrightarrow> yes_typed s' t \<Longrightarrow> yes_typed s t"
  unfolding erase_typed_def yes_typed_def by (meson suffix_order.order_trans)+

lemma ask_Fine:
  assumes "ask b (plain_frontend b) s = (Fine c, s')" "session_ok (is_session s)"
  shows "confirmed b s (ic_disks c) s'"
proof -
  obtain s1 s2 disks s3 sel s4 chosen s5 s6 s7 p s8 h s9 where
    1: "preflight b s = (Fine (), s1)" and 2: "plain_welcome s1 = (Fine (), s2)"
    and 3: "enumerate_disks b s2 = (Fine disks, s3)" and 4: "plain_select_disks b disks s3 = (Fine sel, s4)"
    and 5: "pick_disks disks sel s4 = (Fine chosen, s5)"
    and 6: "warn_of_mismatch b (plain_frontend b) chosen s5 = (Fine (), s6)"
    and 7: "plain_confirm_destruction b chosen (layout_of chosen) s6 = (Fine (), s7)"
    and 8: "plain_collect_password b DEFAULT_USER s7 = (Fine p, s8)"
    and 9: "plain_collect_hostname DEFAULT_HOSTNAME s8 = (Fine h, s9)"
    and 10: "plain_confirm_summary b c s9 = (Fine (), s')" and c: "ic_disks c = chosen"
    using assms(1) unfolding ask_def Let_def plain_fields
    by (clarsimp simp: andthen_Fine give_def fail_with_def split: if_split_asm)
  note used = console_used [OF harms_nothing_preflight 1 assms(2)]
    console_used [OF asking.acts_plain_asks(1) 2] console_used [OF harms_nothing_enumerate 3]
    console_used [OF asking.acts_plain_asks(2) 4] console_used [OF harms_nothing_pick 5]
    console_used [OF harms_nothing_mismatch 6] console_used [OF asking.acts_plain_asks(4) 7]
    console_used [OF asking.acts_plain_asks(5) 8] console_used [OF asking.acts_plain_asks(6) 9]
  have ok: "session_ok (is_session s6)" "session_ok (is_session s9)" using used by blast+
  have "suffix (is_console s6) (is_console s)" "suffix (is_console s9) (is_console s7)"
    using used by (meson suffix_order.order_trans)+
  then have "erase_typed (is_console s) (is_console s7)" "yes_typed (is_console s7) (is_console s')"
    using confirm_destruction_Fine [OF 7 ok(1)] confirm_summary_Fine [OF 10 ok(2)] typed_trans by blast+
  moreover have "is_world s2 = is_world (snd (preflight b s))"
    using actsD [OF welcome_keeps_world 2] 1 by (simp add: keeps_world_def)
  then have "may_erase b (is_world (snd (preflight b s))) d" if "d \<in> set chosen" for d
    using that pick_disks_Fine(1) [OF 5 select_Fine [OF 4]] enumerate_disks_Fine [OF 3] by auto
  ultimately show ?thesis
    using pick_disks_Fine [OF 5 select_Fine [OF 4]] c unfolding confirmed_def by blast
qed

text \<open>
  C32. What the operator did not confirm is not touched. A run of the installer with its line-based front
  end first only asks: it reads files, runs \<open>modprobe zfs\<close> and \<open>lsblk\<close>, logs, and prints. It goes on only
  when \<open>ERASE\<close> was typed and the summary agreed to after that, for one or two of the disks that were
  found, none of which is virtual or holds the live medium. And then, the undoing after a failure
  included, every file it writes or removes has a name that begins with \<open>/mnt/nightshade\<close>, and every
  command it runs either runs chrooted there, with no device but the chosen disks', or is one of a fixed
  list that \<open>here_ok\<close> spells out: partitioning and formatting only devices of the chosen disks, pools
  created only on them, mounts, copies and modes only below the target. Accounts and passwords, the
  bootloader and \<open>systemctl\<close> are not in that list, so they only ever act on the installed system. In
  the list, because the code does it: pools that are already called \<open>bpool\<close> or \<open>rpool\<close> are exported, and
  all ZFS filesystems unmounted, whatever disks they are on.
\<close>

theorem erased_only_when_confirmed:
  assumes "is_session s = teardown_new" and "engine_run b (plain_frontend b) s = (r, s')"
  shows "\<exists>asked acted. is_trace s' = is_trace s @ asked @ acted \<and> list_all harmless asked \<and>
    (acted = [] \<or> (\<exists>c t. ask b (plain_frontend b) s = (Fine c, t) \<and> confirmed b s (ic_disks c) t \<and>
       list_all (confined (ic_disks c)) acted))"
proof -
  have ok: "session_ok (is_session s)" using assms(1) by (simp add: session_ok_def teardown_new_def)
  obtain q t where ask: "ask b (plain_frontend b) s = (q, t)" by (cases "ask b (plain_frontend b) s")
  then have "leaves_trace harmless s t" using ask_harmless actsD by blast
  then obtain asked where asked: "is_trace t = is_trace s @ asked" "list_all harmless asked"
    and t: "session_ok (is_session t)"
    using ok unfolding leaves_trace_def by blast
  show ?thesis
  proof (cases q)
    case (Fine c)
    then have "carry_out b (plain_frontend b) c t = (r, s')" using assms(2) ask by (simp add: engine_run_def andthen_def)
    then have "leaves_trace (confined (ic_disks c)) t s'" using stays_carry_out actsD by blast
    then obtain acted where "is_trace s' = is_trace t @ acted" "list_all (confined (ic_disks c)) acted"
      using t unfolding leaves_trace_def by blast
    then show ?thesis using asked ask ask_Fine ok Fine by fastforce
  qed (use assms(2) ask asked in \<open>auto simp: engine_run_def andthen_def\<close>)
qed

end
