(* ===== verification/Install_Answers.thy ===== *)
theory Install_Answers
  imports Install_Confirmed
begin

text \<open>
  What is typed is what is installed: the prompts of the line-based front end on the lines they read.
\<close>

section \<open>Prompts that are answered\<close>

text \<open>\<open>m\<close> reads the lines \<open>used\<close> and comes to \<open>a\<close>; apart from the console it only adds to the record.\<close>

definition answers :: "('w, 'a) act \<Rightarrow> string list \<Rightarrow> 'a \<Rightarrow> bool" where
  "answers m used a \<longleftrightarrow>
     (\<forall>s ls. is_console s = map Inr used @ ls \<longrightarrow>
        (\<exists>es. m s = (Fine a, s\<lparr>is_trace := is_trace s @ es, is_console := ls\<rparr>)))"

lemma answersD:
  "answers m used a \<Longrightarrow> is_console s = map Inr used @ ls \<Longrightarrow>
     \<exists>es. m s = (Fine a, s\<lparr>is_trace := is_trace s @ es, is_console := ls\<rparr>)"
  by (simp add: answers_def)

lemma answers_quiet: "(\<And>s. \<exists>es. m s = (Fine a, s\<lparr>is_trace := is_trace s @ es\<rparr>)) \<Longrightarrow> answers m [] a"
  unfolding answers_def
proof (intro allI impI)
  fix s :: "'a inst" and ls
  assume m: "\<And>s. \<exists>es. m s = (Fine a, s\<lparr>is_trace := is_trace s @ es\<rparr>)" and "is_console s = map Inr [] @ ls"
  then obtain es where "m s = (Fine a, s\<lparr>is_trace := is_trace s @ es\<rparr>)" "is_console s = ls" by auto
  then show "\<exists>es. m s = (Fine a, s\<lparr>is_trace := is_trace s @ es, is_console := ls\<rparr>)"
    by (intro exI [of _ es]) simp
qed

lemma answers_give: "answers (give a) [] a"
  by (rule answers_quiet) (auto simp: give_def intro: exI [of _ "[]"])

lemma answers_andthen: "answers m u x \<Longrightarrow> answers (k x) v a \<Longrightarrow> answers (andthen m k) (u @ v) a"
  unfolding answers_def
proof (intro allI impI)
  fix s :: "'a inst" and ls
  assume m: "\<forall>s ls. is_console s = map Inr u @ ls \<longrightarrow>
      (\<exists>es. m s = (Fine x, s\<lparr>is_trace := is_trace s @ es, is_console := ls\<rparr>))"
    and k: "\<forall>s ls. is_console s = map Inr v @ ls \<longrightarrow>
      (\<exists>es. k x s = (Fine a, s\<lparr>is_trace := is_trace s @ es, is_console := ls\<rparr>))"
    and "is_console s = map Inr (u @ v) @ ls"
  then obtain es where 1: "m s = (Fine x, s\<lparr>is_trace := is_trace s @ es, is_console := map Inr v @ ls\<rparr>)"
    by fastforce
  let ?t = "s\<lparr>is_trace := is_trace s @ es, is_console := map Inr v @ ls\<rparr>"
  obtain es' where "k x ?t = (Fine a, ?t\<lparr>is_trace := is_trace ?t @ es', is_console := ls\<rparr>)"
    using k [rule_format, of ?t ls] by auto
  then show "\<exists>es. andthen m k s = (Fine a, s\<lparr>is_trace := is_trace s @ es, is_console := ls\<rparr>)"
    using 1 by (intro exI [of _ "es @ es'"]) (simp add: andthen_def)
qed

lemma answers_then: "answers m [] x \<Longrightarrow> answers (k x) v a \<Longrightarrow> answers (andthen m k) v a"
  using answers_andthen [of m "[]" x k v a] by simp

lemma answers_after: "answers m u x \<Longrightarrow> answers (k x) [] a \<Longrightarrow> answers (andthen m k) u a"
  using answers_andthen [of m u x k "[]" a] by simp

lemma answers_in_turn: "(\<And>m. m \<in> set ms \<Longrightarrow> answers m [] ()) \<Longrightarrow> answers (in_turn ms) [] ()"
  by (induction ms) (auto simp: in_turn.simps intro!: answers_then answers_give)

lemma answers_attempt: "answers m u a \<Longrightarrow> answers (attempt m) u (Inr a)"
  unfolding answers_def attempt_def by fastforce

lemma answers_until: "answers m u (Some a) \<Longrightarrow> answers (until_answered m) u a"
proof -
  assume m: "answers m u (Some a)"
  have "answers (rounds (Suc n) m) u a" for n
    by (simp, rule answers_after [OF m]) (simp add: answers_give)
  then show ?thesis unfolding answers_def until_answered_def by blast
qed

section \<open>The terminal\<close>

definition whole_line :: "string \<Rightarrow> bool" where
  "whole_line l \<longleftrightarrow> trim_end_by ends_line l = l"

lemma answers_emit: "answers (record_effect e) [] ()"
  by (rule answers_quiet) (auto simp: record_effect_def)

lemma answers_logs: "answers (log_info m) [] ()" "answers (log_warn m) [] ()"
proof -
  have "answers (write_line l m) [] ()" for l
    by (rule answers_quiet) (auto simp: write_line_def record_effect_def intro: exI [of _ "[]"])
  then show "answers (log_info m) [] ()" "answers (log_warn m) [] ()"
    by (simp_all add: log_info_def log_warn_def)
qed

lemma answers_say:
  "answers (say_line t) [] ()" "answers rule_line [] ()" "answers (heading t) [] ()" "answers (para t) [] ()"
  unfolding say_line_def rule_line_def heading_def para_def
  by (auto intro!: answers_in_turn answers_emit)

lemma answers_read: "whole_line l \<Longrightarrow> answers read_line [l] l"
  by (auto simp: answers_def read_line_def whole_line_def intro: exI [of _ "[]"])

lemma answers_ask: "whole_line l \<Longrightarrow> answers (ask_line label) [l] l"
  unfolding ask_line_def by (auto intro: answers_then answers_emit answers_read)

lemma answers_secret: "whole_line l \<Longrightarrow> answers (ask_secret b label) [l] (Secret l)"
proof -
  assume l: "whole_line l"
  have off: "answers (echo_off b) [] (bx_echo_off b)"
    unfolding echo_off_def by (auto intro!: answers_then answers_give answers_in_turn answers_emit answers_logs)
  have rest: "answers (andthen (attempt read_line) (\<lambda>r.
     andthen (in_turn [say_line '''', if on then record_effect EchoOn else give ()]) (\<lambda>_.
       case r of Inl e \<Rightarrow> fail_with e | Inr l \<Rightarrow> give (Secret l)))) [l] (Secret l)" for on
    by (rule answers_after [OF answers_attempt [OF answers_read [OF l]]])
      (auto intro!: answers_then [of _ "()"] answers_give answers_in_turn answers_emit answers_say)
  show ?thesis
    unfolding ask_secret_def
    by (rule answers_then [OF answers_emit], rule answers_then [OF off], rule rest)
qed

lemmas answers_talk = answers_give answers_in_turn answers_emit answers_say answers_logs

section \<open>The prompts\<close>

lemma welcome_answered: "whole_line l \<Longrightarrow> \<not> is_quit l \<Longrightarrow> answers plain_welcome [l] ()"
  unfolding plain_welcome_def
  by (rule answers_then [of _ "()"], force intro!: answers_talk, rule answers_after [OF answers_ask])
    (simp_all add: answers_give)

lemma select_answered:
  assumes "whole_line l" "\<not> is_quit l" "parse_selection l = Some sel" "validate_selection sel (length ds) = Inr ()"
  shows "answers (plain_select_disks b ds) [l] sel"
  unfolding plain_select_disks_def
proof (rule answers_until, rule answers_then [of _ "()"])
  show "answers (in_turn (heading ''Select installation target'' # map (show_disk b) (List.enumerate 0 ds) @ [para DISK_HELP]))
      [] ()"
    unfolding show_disk_def by (auto intro!: answers_talk split: prod.split if_splits)
qed (rule answers_after [OF answers_ask], use assms in \<open>simp_all add: answers_give\<close>)

lemma destruction_answered: "answers (plain_confirm_destruction b ds lay) [''ERASE''] ()"
  unfolding plain_confirm_destruction_def
proof (rule answers_then [of _ "()"])
  show "answers (in_turn
       ([heading ''Confirm destruction'', say_line ''  These disks will be COMPLETELY ERASED:'', say_line ''''] @
        map (doomed b) ds @
        [say_line '''', say_line (''  Layout:     '' @ layout_label lay),
         say_line (''  Boot pool:  '' @ BPOOL @ '' (2 GiB per disk)''),
         say_line (''  Root pool:  '' @ RPOOL @ '' (remaining space)''),
         say_line '''', say_line ''  This cannot be undone.'', say_line ''''])) [] ()"
    unfolding doomed_def by (auto intro!: answers_talk)
  have "whole_line ''ERASE''" "erase_confirmation ''ERASE'' = Inr ()" by code_simp+
  then show "answers (andthen (ask_line (''Type '' @ ERASE_CONFIRMATION @ '' to continue, anything else cancels: '')) (\<lambda>typed.
       case erase_confirmation typed of
         Inr _ \<Rightarrow> give ()
       | Inl _ \<Rightarrow> andthen (complain ''Not confirmed. Nothing has been changed.'') (\<lambda>_. fail_with Aborted))) [''ERASE''] ()"
    by (intro answers_after [OF answers_ask]) (simp_all add: answers_give)
qed

lemma password_answered:
  assumes "whole_line p" "secret_len (Secret p) \<ge> MIN_PASSWORD_LEN"
  shows "answers (plain_collect_password b user) [p, p] (Secret p)"
proof -
  have ok: "validate_password (Secret p) (Secret p) = Inr ()"
    using assms(2) by (auto simp: validate_password_def secret_len_def MIN_PASSWORD_LEN_def)
  have second: "answers (andthen (ask_secret b ''Confirm password: '') (\<lambda>second.
          case validate_password (Secret p) second of
            Inr _ \<Rightarrow> give (Some (Secret p))
          | Inl e \<Rightarrow> andthen (complain (show_ierror e)) (\<lambda>_. give None))) [p] (Some (Secret p))"
    by (rule answers_after [OF answers_secret [OF assms(1)]]) (simp add: ok answers_give)
  have "answers (andthen (ask_secret b (''Password (at least '' @ show_nat MIN_PASSWORD_LEN @ '' characters): '')) (\<lambda>first.
        andthen (ask_secret b ''Confirm password: '') (\<lambda>second.
          case validate_password first second of
            Inr _ \<Rightarrow> give (Some first)
          | Inl e \<Rightarrow> andthen (complain (show_ierror e)) (\<lambda>_. give None)))) ([p] @ [p]) (Some (Secret p))"
    by (rule answers_andthen [OF answers_secret [OF assms(1)]]) (rule second)
  then show ?thesis
    unfolding plain_collect_password_def
    by (intro answers_then [of _ "()"] answers_until) (auto intro!: answers_talk)
qed

lemma hostname_answered:
  assumes "whole_line h" "trim h = h" "h \<noteq> []" "validate_hostname h = Inr ()"
  shows "answers (plain_collect_hostname fallback) [h] h"
  unfolding plain_collect_hostname_def Let_def
  by (rule answers_then [OF answers_say(3)], rule answers_until, rule answers_after [OF answers_ask])
    (use assms in \<open>simp_all add: answers_give\<close>)

lemma yes_answered: "answers (confirm_yes label) [''yes''] True"
proof -
  have "whole_line ''yes''" "to_ascii_lowercase (trim ''yes'') = ''yes''" by code_simp+
  then show ?thesis
    unfolding confirm_yes_def by (intro answers_after [OF answers_ask]) (simp_all add: answers_give)
qed

lemma summary_answered: "answers (plain_confirm_summary b c) [''yes''] ()"
  unfolding plain_confirm_summary_def
proof (rule answers_then [of _ "()"])
  show "answers (in_turn
       ([heading ''Summary'', say_line (''  Layout:     '' @ layout_label (layout_of (ic_disks c)))] @
        map (\<lambda>(i, d). say_line (''  Disk '' @ show_nat (i + 1) @ '':     '' @ dk_path d @ '' ('' @
          disk_size_human b d @ '', '' @ dk_serial d @ '')'')) (List.enumerate 0 (ic_disks c)) @
        [say_line '''', say_line (''  Boot pool:  '' @ BOOT_DATASET @ '' -> /boot''),
         say_line (''  Root pool:  '' @ ROOT_DATASET @ '' -> /''),
         say_line ''              separate datasets for /var/log and /var/tmp'',
         say_line ''  ESP:        512 MiB FAT32 on each disk'', say_line '''',
         say_line (''  Hostname:   '' @ ic_hostname c),
         say_line (''  Account:    '' @ DEFAULT_USER @ '' (sudo)''),
         say_line ''  Root login: locked'', say_line ''''])) [] ()"
    by (auto intro!: answers_talk)
  show "answers (andthen (confirm_yes ''Begin installation? Type yes: '') (\<lambda>ok.
       if ok then give ()
       else andthen (complain ''Cancelled. Nothing has been changed.'') (\<lambda>_. fail_with Aborted))) [''yes''] ()"
    by (rule answers_after [OF yes_answered]) (simp add: answers_give)
qed

section \<open>Everything that is asked\<close>

text \<open>Looking at the machine reads nothing from the console.\<close>

definition keeps_console :: "'w inst \<Rightarrow> 'w inst \<Rightarrow> bool" where
  "keeps_console s t \<longleftrightarrow> is_console t = is_console s"

interpretation kc: effect_relation keeps_console
  by unfold_locales (auto simp: keeps_console_def)

lemma logs_keep_console: "acts keeps_console (write_line l m)" "acts keeps_console (log_block l m)"
proof -
  show line: "acts keeps_console (write_line l m)" for l m
    by (simp add: acts_def write_line_def record_effect_def keeps_console_def)
  show "acts keeps_console (log_block l m)"
    unfolding log_block_def Let_def by (auto intro!: kc.steps line split: option.split)
qed

lemma runs_keep_console: "acts keeps_console (spawn_and_wait b c)"
proof -
  have "acts keeps_console (spawned b c)"
    by (auto simp: acts_def spawned_def keeps_console_def Let_def split: prod.split sum.split)
  then show ?thesis
    unfolding spawn_and_wait_def log_info_def log_warn_def
    by (auto intro!: kc.steps logs_keep_console split: option.split)
qed

lemma preflight_keeps_console: "acts keeps_console (preflight b)"
  unfolding preflight_def require_tools_def require_there_def cmd_succeeds_def log_info_def log_step_def
  by (auto intro!: kc.steps logs_keep_console runs_keep_console)

lemma enumerate_keeps_console: "acts keeps_console (enumerate_disks b)"
proof -
  have "acts keeps_console (probe_disk b name n)" for name n
    unfolding probe_disk_def signatures_def run_lenient_def Let_def by (auto intro!: kc.steps runs_keep_console)
  then have "acts keeps_console (probe_entries b live es)" for live es
    by (induction b live es rule: probe_entries.induct)
      (auto intro!: kc.steps logs_keep_console simp: log_info_def split: option.split)
  then show ?thesis
    unfolding enumerate_disks_def log_info_def log_warn_def
    by (auto intro!: kc.steps logs_keep_console split: sum.split)
qed

section \<open>The numbers of the disks\<close>

abbreviation separates :: "char \<Rightarrow> bool" where
  "separates c \<equiv> is_whitespace c \<or> c = CHR '',''"

lemma split_word:
  "\<forall>c \<in> set w. \<not> p c \<Longrightarrow> split_where p w = [w]"
  "\<forall>c \<in> set w. \<not> p c \<Longrightarrow> p s \<Longrightarrow> split_where p (w @ s # cs) = w # split_where p cs"
  by (induction w) auto

lemma split_separators:
  "\<forall>c \<in> set sep. p c \<Longrightarrow> filter (\<lambda>w. w \<noteq> []) (split_where p (sep @ cs)) = filter (\<lambda>w. w \<noteq> []) (split_where p cs)"
  by (induction sep) auto

lemma split_join:
  assumes "\<forall>w \<in> set ws. w \<noteq> [] \<and> (\<forall>c \<in> set w. \<not> p c)" and "sep \<noteq> []" "\<forall>c \<in> set sep. p c" and "ws \<noteq> []"
  shows "filter (\<lambda>w. w \<noteq> []) (split_where p (join sep ws)) = ws"
  using assms(1,4)
proof (induction ws rule: induct_list012)
  case (3 x y ys)
  obtain c cs where sep: "sep = c # cs" "p c" "\<forall>c \<in> set cs. p c" using assms(2,3) by (cases sep) auto
  have "filter (\<lambda>w. w \<noteq> []) (split_where p (join sep (y # ys))) = y # ys" using 3 by simp
  then show ?case using 3(3) unfolding sep(1) by (simp add: split_word(2) [where p = p and s = c, OF _ sep(2)] split_separators [OF sep(3)])
qed (simp_all add: split_word(1))

lemma digits_apart:
  assumes "c \<in> set (show_nat n)"
  shows "\<not> separates c" "\<not> ends_line c" "\<not> c \<in> {CHR ''q'', CHR ''Q''}"
  using show_nat_digits [OF assms] by (auto simp: char_class code_def)

lemma all_numbers_shown:
  "\<forall>n \<in> set ns. n \<le> 2 ^ 64 - 1 \<Longrightarrow> all_numbers (map show_nat ns) = Some ns"
  by (induction ns) (simp_all add: parse_unsigned_show)

text \<open>The numbers as the operator types them: from 1, with any mixture of blanks and commas in between.\<close>

definition typed_numbers :: "string \<Rightarrow> nat list \<Rightarrow> string" where
  "typed_numbers sep sel = join sep (map (\<lambda>i. show_nat (i + 1)) sel)"

lemma typed_parses:
  assumes "sep \<noteq> []" "list_all separates sep" and "sel \<noteq> []" "\<forall>i \<in> set sel. i < 2 ^ 64 - 1"
  shows "parse_selection (typed_numbers sep sel) = Some sel"
proof -
  have "filter (\<lambda>w. w \<noteq> []) (split_where separates (typed_numbers sep sel)) = map show_nat (map Suc sel)"
    unfolding typed_numbers_def
    by (subst split_join) (use assms digits_apart in \<open>auto simp: list_all_iff\<close>)
  moreover have "all_numbers (map show_nat (map Suc sel)) = Some (map Suc sel)"
    by (rule all_numbers_shown) (use assms(4) in auto)
  ultimately show ?thesis by (simp add: parse_selection_def list_all_iff o_def)
qed

lemma join_last: "ws \<noteq> [] \<Longrightarrow> \<exists>x. join sep ws = x @ last ws"
  by (induction ws rule: induct_list012) auto

lemma typed_line:
  assumes "list_all separates sep" and "sel \<noteq> []"
  shows "whole_line (typed_numbers sep sel)" "\<not> is_quit (typed_numbers sep sel)"
proof -
  obtain x where x: "typed_numbers sep sel = x @ show_nat (last sel + 1)"
    using join_last [of "map (\<lambda>i. show_nat (i + 1)) sel" sep] assms(2) by (auto simp: typed_numbers_def last_map)
  obtain y c where y: "show_nat (last sel + 1) = y @ [c]" by (metis rev_exhaust show_nat_nonempty)
  have line: "typed_numbers sep sel = (x @ y) @ [c]" using x y by simp
  have "\<not> ends_line c" using digits_apart(2) [of c "last sel + 1"] y by simp
  then show "whole_line (typed_numbers sep sel)" by (simp add: whole_line_def trim_end_by_def line)
  have "set (join sep ws) \<subseteq> set sep \<union> \<Union> (set ` set ws)" for ws
    by (induction ws rule: induct_list012) auto
  then have "set (typed_numbers sep sel) \<subseteq> set sep \<union> \<Union> (set ` set (map (\<lambda>i. show_nat (i + 1)) sel))"
    unfolding typed_numbers_def .
  moreover have "\<not> separates (CHR ''q'')" "\<not> separates (CHR ''Q'')" by code_simp+
  then have "c \<notin> set sep" if "c \<in> {CHR ''q'', CHR ''Q''}" for c
    using that assms(1) by (auto simp: list_all_iff)
  ultimately have free: "c \<notin> set (typed_numbers sep sel)" if "c \<in> {CHR ''q'', CHR ''Q''}" for c
    using that digits_apart(3) by fastforce
  have trimmed: "set (trim l) \<subseteq> set l" for l
    by (auto simp: trim_def trim_by_def trim_start_by_def trim_end_by_def dest!: set_dropWhileD)
  show "\<not> is_quit (typed_numbers sep sel)"
  proof
    assume "is_quit (typed_numbers sep sel)"
    then have "CHR ''q'' \<in> set (to_ascii_lowercase (trim (typed_numbers sep sel)))" by (simp add: is_quit_def)
    then obtain c where c: "c \<in> set (trim (typed_numbers sep sel))"
      "CHR ''q'' = (if is_ascii_uppercase c then char_of (code c + 32) else c)"
      unfolding to_ascii_lowercase_def set_map by (elim imageE)
    have "c \<in> {CHR ''q'', CHR ''Q''}"
    proof (cases "is_ascii_uppercase c")
      case True
      then have "code (CHR ''q'') = (code c + 32) mod 256" using c(2) by (simp add: code_def)
      then have "code c = code (CHR ''Q'')" using True by (simp add: char_class) (simp add: code_def)
      then have "c = CHR ''Q''" unfolding code_def of_char_eq_iff .
      then show ?thesis by simp
    qed (use c(2) in simp)
    then show False using free c(1) trimmed by blast
  qed
qed

section \<open>Everything is answered\<close>

text \<open>The mirror's disks are of a size.\<close>

definition evenly_sized :: "disk list \<Rightarrow> bool" where
  "evenly_sized ds \<longleftrightarrow> (case ds of [d, e] \<Rightarrow> \<not> size_mismatch d e | _ \<Rightarrow> True)"

text \<open>A mirror of uneven disks has one more question, whether to go on.\<close>

definition warned :: "disk list \<Rightarrow> string list" where
  "warned ds = (if evenly_sized ds then [] else [''yes''])"

lemma mismatch_answered: "answers (warn_of_mismatch b (plain_frontend b) ds) (warned ds) ()"
proof (cases "evenly_sized ds")
  case True
  then show ?thesis
    unfolding warn_of_mismatch_def evenly_sized_def warned_def by (auto intro!: answers_talk split: list.splits)
next
  case False
  then obtain d e where ds: "ds = [d, e]" "size_mismatch d e" by (auto simp: evenly_sized_def split: list.splits)
  have "answers (plain_confirm_warning msg) [''yes''] ()" for msg
    unfolding plain_confirm_warning_def
    by (rule answers_then [of _ "()"], force intro!: answers_talk, rule answers_after [OF yes_answered])
      (simp add: answers_give)
  then show ?thesis using False ds by (simp add: warn_of_mismatch_def warned_def plain_frontend_def)
qed

lemma ask_answered:
  assumes "preflight b s = (Fine (), s1)" and "enumerate_disks b (snd (plain_welcome s1)) = (Fine ds, s2)"
    and "is_console s = map Inr ([go, pick] @ warned (map ((!) ds) sel) @ [''ERASE'', p, p, h, ''yes'']) @ ls"
    and "whole_line go" "\<not> is_quit go"
    and "whole_line pick" "\<not> is_quit pick" "parse_selection pick = Some sel"
    and "validate_selection sel (length ds) = Inr ()"
    and "whole_line p" "secret_len (Secret p) \<ge> MIN_PASSWORD_LEN"
    and "whole_line h" "trim h = h" "h \<noteq> []" "validate_hostname h = Inr ()"
  shows "\<exists>es. ask b (plain_frontend b) s =
    (Fine \<lparr>ic_disks = map ((!) ds) sel, ic_hostname = h, ic_password = Secret p\<rparr>,
     s2\<lparr>is_trace := is_trace s2 @ es, is_console := ls\<rparr>)"
proof -
  let ?c = "\<lparr>ic_disks = map ((!) ds) sel, ic_hostname = h, ic_password = Secret p\<rparr>"
  define picked where "picked = map ((!) ds) sel"
  let ?rest = "\<lambda>chosen. andthen (warn_of_mismatch b (plain_frontend b) chosen) (\<lambda>_.
       andthen (plain_confirm_destruction b chosen (layout_of chosen)) (\<lambda>_.
       andthen (plain_collect_password b DEFAULT_USER) (\<lambda>password.
       andthen (plain_collect_hostname DEFAULT_HOSTNAME) (\<lambda>hostname.
       (let c = \<lparr>ic_disks = chosen, ic_hostname = hostname, ic_password = password\<rparr>
        in andthen (plain_confirm_summary b c) (\<lambda>_. give c))))))"
  have console1: "is_console s1 = map Inr ([go, pick] @ warned picked @ [''ERASE'', p, p, h, ''yes'']) @ ls"
    using actsD [OF preflight_keeps_console assms(1)] assms(3) by (simp add: keeps_console_def picked_def)
  then obtain es where welcomed: "plain_welcome s1 =
      (Fine (), s1\<lparr>is_trace := is_trace s1 @ es, is_console := map Inr ([pick] @ warned picked @ [''ERASE'', p, p, h, ''yes'']) @ ls\<rparr>)"
    using answersD [OF welcome_answered [OF assms(4,5)], of s1] by auto
  then have console2: "is_console s2 = map Inr ([pick] @ warned picked @ [''ERASE'', p, p, h, ''yes'']) @ ls"
    using actsD [OF enumerate_keeps_console assms(2)] by (simp add: keeps_console_def)
  have ds: "ds \<noteq> []" "list_all (\<lambda>i. i < length ds) sel"
    using assms(9) by (auto simp: validate_selection_Inr list_all_iff)
  have "answers (?rest picked) (warned picked @ [''ERASE''] @ [p, p] @ [h] @ [''yes'']) \<lparr>ic_disks = picked, ic_hostname = h, ic_password = Secret p\<rparr>"
    unfolding Let_def picked_def
    by (intro answers_andthen [OF mismatch_answered] answers_andthen [OF destruction_answered]
      answers_andthen [OF password_answered [OF assms(10,11)]]
      answers_andthen [OF hostname_answered [OF assms(12-15)]] answers_after [OF summary_answered] answers_give)
  moreover have "answers (pick_disks ds sel) [] picked"
    using ds(2) by (simp add: pick_disks_def picked_def answers_give)
  ultimately have "answers (andthen (plain_select_disks b ds) (\<lambda>selection. andthen (pick_disks ds selection) ?rest))
      ([pick] @ warned picked @ [''ERASE''] @ [p, p] @ [h] @ [''yes'']) ?c"
    unfolding picked_def
    by - (rule answers_andthen [OF select_answered [OF assms(6-9)]], rule answers_then)
  from answersD [OF this] console2 show ?thesis
    using assms(1,2) welcomed ds(1) by (auto simp: ask_def andthen_def plain_fields)
qed

section \<open>What is done with the answers\<close>

text \<open>When \<open>m\<close> comes to a value, \<open>e\<close> is in the record.\<close>

definition surely :: "effect \<Rightarrow> ('w, 'a) act \<Rightarrow> bool" where
  "surely e m \<longleftrightarrow>
     (\<forall>s a t. session_ok (is_session s) \<longrightarrow> m s = (Fine a, t) \<longrightarrow> e \<in> set (is_trace t))"

lemma stays_record:
  assumes "stays ds m" "m s = (r, t)" "session_ok (is_session s)"
  shows "set (is_trace s) \<subseteq> set (is_trace t)" "session_ok (is_session t)"
  using actsD [OF assms(1,2)] assms(3) unfolding leaves_trace_def by auto

lemma surely_first: "surely e m \<Longrightarrow> stays ds m \<Longrightarrow> (\<And>a. stays ds (k a)) \<Longrightarrow> surely e (andthen m k)"
  unfolding surely_def by (auto simp: andthen_Fine) (meson stays_record subsetD)

lemma surely_then:
  "stays ds m \<Longrightarrow> (\<And>a s t. m s = (Fine a, t) \<Longrightarrow> surely e (k a)) \<Longrightarrow> surely e (andthen m k)"
  unfolding surely_def by (auto simp: andthen_Fine) (meson stays_record(2))

lemma surely_in_turn:
  assumes "m \<in> set ms" "surely e m" "\<And>m. m \<in> set ms \<Longrightarrow> stays ds m"
  shows "surely e (in_turn ms)"
  using assms(1,3)
proof (induction ms)
  case (Cons n ns)
  have rest: "stays ds (in_turn ns)" by (rule tr.in_turn) (use Cons.prems(2) in simp)
  show ?case
  proof (cases "m = n")
    case True
    then show ?thesis using assms(2) rest Cons.prems(2)
      unfolding in_turn.simps by (intro surely_first [of _ _ ds]) simp_all
  next
    case False
    then show ?thesis using Cons unfolding in_turn.simps by (intro surely_then [of ds]) simp_all
  qed
qed simp

lemma surely_each: "x \<in> set xs \<Longrightarrow> surely e (f x) \<Longrightarrow> (\<And>x. x \<in> set xs \<Longrightarrow> stays ds (f x)) \<Longrightarrow> surely e (each f xs)"
  unfolding each_def by (rule surely_in_turn [of "f x" _ _ ds]) auto

lemma surely_change: "surely e (change e f ctx)"
  by (auto simp: surely_def change_def Let_def split: prod.splits sum.splits)

lemma surely_run: "confined_cmd ds c \<Longrightarrow> surely (Ran c) (run_ok b c)"
proof -
  assume c: "confined_cmd ds c"
  have "surely (Ran c) (spawned b c)"
    by (auto simp: surely_def spawned_def Let_def split: prod.splits sum.splits)
  moreover have "stays ds (spawned b c)"
    using c by (auto simp: acts_def spawned_def Let_def split: prod.splits sum.splits intro!: leaves_one [of _ "Ran c"])
  moreover have "stays ds (andthen (in_turn
       [case ot_status out of
          Some n \<Rightarrow> if n = 0 then log_info ''  -> ok'' else log_warn (''  -> exit '' @ show_int n)
        | None \<Rightarrow> log_warn ''  -> killed by signal'',
        log_block ''  stdout'' (ot_stdout out),
        log_block ''  stderr'' (ot_stderr out)]) (\<lambda>_. give out))" for out
    by (auto intro!: stays_intros split: option.split)
  ultimately have "surely (Ran c) (spawn_and_wait b c)"
    unfolding spawn_and_wait_def by - (rule surely_then [OF doing.acts_logs(1)], rule surely_first)
  then have "surely (Ran c) (run_checked b c)"
    unfolding run_checked_def by (rule surely_first [of _ _ ds]) (auto intro!: stays_intros doing.acts_spawn simp: c)
  then show ?thesis
    unfolding run_ok_def by (rule surely_first [of _ _ ds]) (auto intro!: stays_intros simp: c)
qed

section \<open>What is installed\<close>

lemma surely_written:
  assumes "starts_with r ''/''"
  shows "surely (Wrote (TARGET @ r) t) (write_target_file b r t m)"
proof -
  obtain q where r: "r = ''/'' @ q" using assms by (auto simp: starts_with_iff)
  let ?parts = "[make_dirs b (parent_dir (TARGET @ r)) (''creating '' @ parent_dir (TARGET @ r)),
         write_file b (TARGET @ r) t (''writing '' @ (TARGET @ r)),
         set_mode b (TARGET @ r) m ((''setting mode '' @ show_octal m) @ '' on '' @ (TARGET @ r)),
         log_info (''wrote '' @ (TARGET @ r) @ '' (mode '' @ show_octal m @ '')'')]"
  have "stays [] n" if "n \<in> set ?parts" for n
    using that parent_dir_target [of q] unfolding r by (auto intro!: stays_intros)
  then have "surely (Wrote (TARGET @ r) t) (in_turn ?parts)"
    by (intro surely_in_turn [of "write_file b (TARGET @ r) t (''writing '' @ (TARGET @ r))" _ _ "[]"])
      (auto simp: write_file_def surely_change)
  then show ?thesis by (simp add: write_target_file_def put_target_file_def Let_def)
qed

lemma surely_hostname: "surely (Wrote (TARGET @ ''/etc/hostname'') (ic_hostname c @ [newline])) (set_hostname b c)"
proof -
  have "surely (Wrote (TARGET @ ''/etc/hostname'') (ic_hostname c @ [newline]))
      (write_target_file b ''/etc/hostname'' (ic_hostname c @ [newline]) 420)"
    by (rule surely_written) simp
  then show ?thesis
    unfolding set_hostname_def by (rule surely_in_turn [rotated, of _ _ _ "[]"]) (auto intro!: stays_writes)
qed

text \<open>The account is given the password on the standard input of \<open>chpasswd\<close>, in the target.\<close>

definition sets_password :: "string \<Rightarrow> cmd" where
  "sets_password p =
     \<lparr>cm_program = ''chpasswd'', cm_args = [], cm_chroot = Some TARGET,
      cm_stdin = StdinSecret (Secret (DEFAULT_USER @ '':'' @ p @ [newline]))\<rparr>"

lemma surely_password: "surely (Ran (sets_password (expose (ic_password c)))) (create_account b c)"
proof -
  let ?c = "stdin_secret (password_line (ic_password c)) (target_cmd ''chpasswd'' [])"
  have c: "?c = sets_password (expose (ic_password c))"
    by (simp add: sets_password_def stdin_secret_def target_cmd_def cmd_args_def cmd_new_def in_chroot_def password_line_def)
  have run: "surely (Ran ?c) (run_ok b ?c)" by (rule surely_run [of "[]"]) simp
  have pw: "surely (Ran ?c) (set_password b (ic_password c))"
    unfolding set_password_def Let_def
    by (rule surely_first [OF run, of "[]"]) (auto intro!: stays_intros simp: DEFAULT_USER_def)
  have stay: "stays [] (set_password b (ic_password c))"
    unfolding set_password_def Let_def by (auto intro!: stays_intros simp: DEFAULT_USER_def)
  have steps: "surely (Ran ?c) (in_turn ms)" if "set_password b (ic_password c) \<in> set ms"
      "\<forall>m \<in> set ms. m = set_password b (ic_password c) \<or> stays [] m" for ms
    by (rule surely_in_turn [OF that(1) pw, of "[]"]) (use that(2) stay in auto)
  show ?thesis
    unfolding create_account_def Let_def c [symmetric]
    by (rule surely_then [OF doing.acts_logs(1)], rule surely_then [OF tr.basics(4)], rule steps)
      (auto intro!: stays_intros stays_writes simp: DEFAULT_USER_def)
qed

lemma surely_zapped: "d \<in> set (ic_disks c) \<Longrightarrow>
   surely (Ran (here_cmd ''sgdisk'' [''--zap-all'', dk_path d])) (prepare_disks b (plain_frontend b) c)"
proof -
  assume d: "d \<in> set (ic_disks c)"
  let ?e = "Ran (here_cmd ''sgdisk'' [''--zap-all'', dk_path d])"
  have "surely ?e (run_ok b (here_cmd ''sgdisk'' [''--zap-all'', dk_path d]))"
    by (rule surely_run [of "[d]"]) (simp add: here_ok_def of_disks_def)
  then have "surely ?e (prepare b d)"
    unfolding prepare_def Let_def
    by (rule surely_in_turn [rotated, of _ _ _ "[d]"])
      (auto intro!: stays_intros simp: here_ok_def of_disks_names)
  then have one: "surely ?e (in_turn [step_detail (plain_frontend b) (dk_path d @ '' ('' @ disk_size_human b d @ '')''), prepare b d])"
    by (rule surely_in_turn [rotated, of _ _ _ "[d]"]) (auto intro!: stays_intros stays_prepare)
  have "surely ?e (each (\<lambda>d. in_turn [step_detail (plain_frontend b) (dk_path d @ '' ('' @ disk_size_human b d @ '')''), prepare b d]) (ic_disks c))"
    by (rule surely_each [OF d, of _ _ "ic_disks c"], rule one) (auto intro!: stays_intros stays_prepare)
  then show ?thesis
    unfolding prepare_disks_def
    by (rule surely_in_turn [rotated, of _ _ _ "ic_disks c"])
      (auto intro!: stays_intros stays_release stays_prepare stays_settle stays_pools stays_noted stays_datasets)
qed

lemma surely_system:
  assumes es: "esps_of (ic_disks c) es" and e: "surely e (set_hostname b c) \<or> surely e (create_account b c)"
  shows "surely e (install_system b (plain_frontend b) c es)"
proof -
  let ?ds = "ic_disks c"
  have binds: "stays ?ds (andthen (bind_pseudo_filesystems b) binds_made)"
    by (intro tr.andthen_value stays_bind stays_noted bind_Fine)
  have mounts: "stays ?ds (mounts_made (map ep_mountpoint es))"
    using es by (intro stays_noted) (auto simp: esps_of_def list_all_iff)
  have "surely e (in_turn ms)" if "set_hostname b c \<in> set ms" "create_account b c \<in> set ms" "\<forall>m \<in> set ms. stays ?ds m" for ms
    using e surely_in_turn [of _ ms e ?ds] that by blast
  then show ?thesis
    unfolding install_system_def
    by this (use es binds mounts in \<open>auto intro!: stays_intros stays_source stays_copy stays_strip stays_pam stays_target stays_account
      stays_configuration stays_cachefile stays_grub stays_esps stays_sync stays_save_log\<close>)
qed

text \<open>The effects that are in the record of every installation that is carried out to the end.\<close>

definition installs :: "install_config \<Rightarrow> effect set" where
  "installs c =
     {Wrote (TARGET @ ''/etc/hostname'') (ic_hostname c @ [newline]), Ran (sets_password (expose (ic_password c)))} \<union>
     {Ran (here_cmd ''sgdisk'' [''--zap-all'', dk_path d]) | d. d \<in> set (ic_disks c)}"

lemma surely_install: "e \<in> installs c \<Longrightarrow> surely e (install b (plain_frontend b) c)"
proof -
  assume "e \<in> installs c"
  then consider "surely e (set_hostname b c) \<or> surely e (create_account b c)"
    | "surely e (prepare_disks b (plain_frontend b) c)"
    unfolding installs_def using surely_hostname surely_password surely_zapped by blast
  then show ?thesis
  proof cases
    case 1
    have "surely e (install_system b (plain_frontend b) c es)"
      if "format_esps b c (plain_frontend b) s = (Fine es, t)" for es s t
      using surely_system [OF format_esps_of [OF that] 1] .
    then show ?thesis unfolding install_def
      by - (rule surely_then [OF stays_prepare_disks [OF refl]], rule surely_then [OF doing.reports(1)],
          rule surely_then [OF stays_format_esps [OF refl]])
  next
    case 2
    then show ?thesis unfolding install_def
      by (rule surely_first [OF _ stays_prepare_disks [OF refl]]) (rule stays_after_disks [OF refl])
  qed
qed

lemma surely_carried_out: "e \<in> installs c \<Longrightarrow> surely e (carry_out b (plain_frontend b) c)"
  unfolding surely_def
proof (intro allI impI)
  fix s t :: "'a inst" and act
  assume e: "e \<in> installs c" and ok: "session_ok (is_session s)"
    and run: "carry_out b (plain_frontend b) c s = (Fine act, t)"
  let ?ds = "ic_disks c"
  have first: "stays ?ds (in_turn [log_step ''beginning installation'', log_plan b c, new_install])"
    unfolding log_plan_def by (auto intro!: stays_intros stays_new)
  obtain s1 out s2 u s3 where
    1: "in_turn [log_step ''beginning installation'', log_plan b c, new_install] s = (Fine (), s1)" and
    2: "attempt (install b (plain_frontend b) c) s1 = (Fine out, s2)" and 3: "teardown b s2 = (Fine u, s3)" and
    4: "(case out of
       Inr _ \<Rightarrow>
           andthen (log_step ''installation complete'') (\<lambda>_. andthen the_log (fe_finished (plain_frontend b)))
       | Inl e \<Rightarrow>
           andthen (in_turn
             [log_error (''installation failed: '' @ show_ierror e),
              log_block ''failure detail'' (error_detail e),
              andthen the_log (fe_failed (plain_frontend b) e)]) (\<lambda>_. fail_with e)) s3 = (Fine act, t)"
    using run unfolding carry_out_def by (auto simp: andthen_Fine)
  obtain v where out: "out = Inr v"
    using 4 by (cases out) (auto simp: andthen_Fine fail_with_def)
  then have "install b (plain_frontend b) c s1 = (Fine v, s2)"
    using 2 by (auto simp: attempt_def split: prod.splits res.splits)
  moreover have s1: "session_ok (is_session s1)" by (rule stays_record(2) [OF first 1 ok])
  ultimately have "e \<in> set (is_trace s2)" using surely_install [OF e] unfolding surely_def by blast
  moreover have "stays ?ds (attempt (install b (plain_frontend b) c))" by (intro tr.attempt stays_install refl)
  from stays_record(2) [OF this 2 s1] have s2: "session_ok (is_session s2)" .
  ultimately have "e \<in> set (is_trace s3)" using stays_record(1) [OF stays_teardown 3 s2] by blast
  moreover have "stays ?ds (andthen (log_step ''installation complete'') (\<lambda>_. andthen the_log (fe_finished (plain_frontend b))))"
    by (auto intro!: stays_intros stays_log)
  then have "set (is_trace s3) \<subseteq> set (is_trace t)"
    by (rule stays_record(1) [OF _ _ stays_record(2) [OF stays_teardown 3 s2]]) (use 4 out in simp)
  ultimately show "e \<in> set (is_trace t)" by blast
qed

text \<open>
  C33. What is typed is what is installed. Take a machine that passes the checks and on which \<open>ds\<close> is the
  list of disks that is shown, and an operator who types the numbers of one or two of them, counted from
  1, with any blanks or commas between them, \<open>yes\<close> once more if the two are of uneven size, \<open>ERASE\<close>, a
  password of enough characters twice, a valid hostname, and \<open>yes\<close>. Nothing else is read, and what is
  carried out is the installation with exactly those disks in that order, that hostname and that
  password. If it is carried out to the end, \<open>sgdisk --zap-all\<close> has run on each of those disks,
  \<open>/etc/hostname\<close> of the target has been written with that name, and \<open>chpasswd\<close> has run inside the target
  with that password for the account on its standard input.
\<close>

theorem asked_as_typed:
  assumes "preflight b s = (Fine (), s1)" and "enumerate_disks b (snd (plain_welcome s1)) = (Fine ds, s2)"
    and "is_session s = teardown_new"
    and "is_console s = map Inr ([go, join sep (map (\<lambda>i. show_nat (i + 1)) sel)] @
      (if evenly_sized (map ((!) ds) sel) then [] else [''yes'']) @ [''ERASE'', p, p, h, ''yes'']) @ ls"
    and "whole_line go" "\<not> is_quit go"
    and "sep \<noteq> []" "list_all separates sep" "validate_selection sel (length ds) = Inr ()" "length ds < 2 ^ 64"
    and "whole_line p" "secret_len (Secret p) \<ge> MIN_PASSWORD_LEN"
    and "whole_line h" "trim h = h" "h \<noteq> []" "validate_hostname h = Inr ()"
    and c: "c = \<lparr>ic_disks = map ((!) ds) sel, ic_hostname = h, ic_password = Secret p\<rparr>"
  shows "\<exists>t. ask b (plain_frontend b) s = (Fine c, t) \<and> is_console t = ls \<and>
    engine_run b (plain_frontend b) s = carry_out b (plain_frontend b) c t \<and>
    (\<forall>act s'. engine_run b (plain_frontend b) s = (Fine act, s') \<longrightarrow>
      (\<forall>i \<in> set sel. Ran (here_cmd ''sgdisk'' [''--zap-all'', dk_path (ds ! i)]) \<in> set (is_trace s')) \<and>
      Wrote (TARGET @ ''/etc/hostname'') (h @ [newline]) \<in> set (is_trace s') \<and>
      Ran (sets_password p) \<in> set (is_trace s'))"
proof -
  let ?pick = "typed_numbers sep sel"
  have sel: "sel \<noteq> []" "\<forall>i \<in> set sel. i < 2 ^ 64 - 1"
    using assms(9,10) by (auto simp: validate_selection_Inr)
  have console: "is_console s = map Inr ([go, ?pick] @ warned (map ((!) ds) sel) @ [''ERASE'', p, p, h, ''yes'']) @ ls"
    using assms(4) by (simp add: typed_numbers_def warned_def)
  note line = typed_line [OF assms(8) sel(1)] typed_parses [OF assms(7,8) sel]
  from ask_answered [OF assms(1,2) console assms(5,6) line assms(9,11-16)] obtain es where
    asked: "ask b (plain_frontend b) s = (Fine c, s2\<lparr>is_trace := is_trace s2 @ es, is_console := ls\<rparr>)"
    unfolding c by blast
  let ?t = "s2\<lparr>is_trace := is_trace s2 @ es, is_console := ls\<rparr>"
  have run: "engine_run b (plain_frontend b) s = carry_out b (plain_frontend b) c ?t"
    using asked by (simp add: engine_run_def andthen_def)
  have "leaves_trace harmless s ?t" using actsD [OF ask_harmless asked] .
  then have ok: "session_ok (is_session ?t)"
    using assms(3) unfolding leaves_trace_def by (simp add: session_ok_def teardown_new_def)
  have carried: "e \<in> set (is_trace s')" if "e \<in> installs c" "engine_run b (plain_frontend b) s = (Fine act, s')" for e act s'
    using surely_carried_out [OF that(1)] ok that(2) unfolding run surely_def by blast
  have all: "Ran (here_cmd ''sgdisk'' [''--zap-all'', dk_path (ds ! i)]) \<in> installs c" if "i \<in> set sel" for i
    using that by (auto simp: installs_def c)
  have "Wrote (TARGET @ ''/etc/hostname'') (h @ [newline]) \<in> installs c" "Ran (sets_password p) \<in> installs c"
    by (simp_all add: installs_def c)
  then show ?thesis using carried all asked run by (intro exI [of _ ?t]) simp
qed

end
