(* ===== verification/Install_Bench.thy ===== *)
theory Install_Bench
  imports Install_Pam "HOL-Library.Code_Target_Nat"
begin

text \<open>
  A machine small enough to be computed with: two disks, one of which holds the live medium, and programs
  that succeed. An installation on it is carried out to the end, and what is stated of the installer is
  shown to hold on it.
\<close>

definition bench_texts :: "(string \<times> string) list" where
  "bench_texts =
     [(''/proc/self/status'', ''Name: nightshade-installer'' @ [newline] @ ''Uid: 0 0 0 0''),
      (''/proc/mounts'', ''/dev/sdb1 /run/live/medium iso9660 ro'' @ [newline] @ ''/dev/loop0 /run/live/root squashfs ro''),
      (''/sys/block/sda/size'', ''16777216''), (''/sys/block/sdb/size'', ''4096''),
      (''/mnt/nightshade/etc/pam.d/login'', ''@include common-auth''),
      (''/mnt/nightshade/etc/pam.d/su'', ''@include common-auth''),
      (''/mnt/nightshade/etc/pam.d/sudo'', ''@include common-auth''),
      (''/mnt/nightshade/etc/pam.d/common-auth'', ''auth requisite pam_unix.so''),
      (''/mnt/nightshade/usr/share/nightshade/live-manifest'', ''pkg live-boot''),
      (''/mnt/nightshade/usr/share/nightshade/default-grub.in'', ''GRUB_DISTRIBUTOR=@VERSION@''),
      (''/mnt/nightshade/usr/share/nightshade/nightshade-gfx.in'', ''''),
      (''/mnt/nightshade/boot/grub/grub.cfg'', ''root=rpool/ROOT/nightshade'')]"

definition bench_run :: "cmd \<Rightarrow> unit \<Rightarrow> (spawn_fault \<times> string + cmd_output) \<times> unit" where
  "bench_run c w =
     (Inr \<lparr>ot_status = Some 0,
        ot_stdout = (if cm_program c = ''blkid'' then ''AB12-CD34''
          else if cm_program c = ''getent'' then ''nightshade:$y$j9T:19000''
          else ''''),
        ot_stderr = ''''\<rparr>, w)"

definition bench :: "unit box" where
  "bench =
     \<lparr>bx_run = bench_run, bx_texts = (\<lambda>w. bench_texts), bx_resolve = (\<lambda>w p. p), bx_why = (\<lambda>w p. ''no such file''),
      bx_is_file = (\<lambda>w p. True), bx_is_dir = (\<lambda>w p. True), bx_exists = (\<lambda>w p. True), bx_is_symlink = (\<lambda>w p. False),
      bx_mode = (\<lambda>w p. Some 493),
      bx_read_dir = (\<lambda>w p. if p = ''/sys/block'' then Inr [Inr ''loop0'', Inr ''sda'', Inr ''sdb''] else Inl ''no such directory''),
      bx_read_link = (\<lambda>w p. None),
      bx_canonical = (\<lambda>w p. if p = ''/sys/class/block/sdb1'' then Some ''/sys/devices/ata2/sdb/sdb1'' else None),
      bx_write = (\<lambda>p t w. (Inr (), w)), bx_mkdirs = (\<lambda>p w. (Inr (), w)), bx_set_mode = (\<lambda>p m w. (Inr (), w)),
      bx_copy = (\<lambda>p q w. (Inr (), w)), bx_remove = (\<lambda>p w. w), bx_remove_tree = (\<lambda>p w. w),
      bx_sleep = (\<lambda>n w. w), bx_lag = (\<lambda>w. 0), bx_PATH = Some ''/usr/sbin'', bx_TERM = None,
      bx_opens_log = (\<lambda>p. False), bx_human = (\<lambda>n. ''8 GiB''), bx_percent = (\<lambda>m n. ''50''), bx_echo_off = True\<rparr>"

definition bench_lines :: "(string + string) list" where
  "bench_lines =
     map Inr ['''', ''1'', ''ERASE'', ''correct horse'', ''correct horse'', ''edge1'', ''yes'', ''r'']"

definition bench_start :: "unit inst" where
  "bench_start = inst_new () bench_lines"

lemma bench_preflight: "fst (preflight bench bench_start) = Fine ()"
  by code_simp

abbreviation bench_welcomed :: "unit inst" where
  "bench_welcomed \<equiv> snd (plain_welcome (snd (preflight bench bench_start)))"

definition bench_disk :: disk where
  "bench_disk =
     \<lparr>dk_name = ''sda'', dk_path = ''/dev/sda'', dk_stable_path = ''/dev/sda'', dk_size_bytes = 8589934592,
      dk_model = ''unknown model'', dk_serial = ''no serial'', dk_rotational = False, dk_removable = False,
      dk_signatures = []\<rparr>"

lemma bench_disks: "fst (enumerate_disks bench bench_welcomed) = Fine [bench_disk]"
  by code_simp

definition bench_config :: install_config where
  "bench_config = \<lparr>ic_disks = [bench_disk], ic_hostname = ''edge1'', ic_password = Secret ''correct horse''\<rparr>"

lemma bench_runs:
  "preflight bench bench_start = (Fine (), snd (preflight bench bench_start))"
  "enumerate_disks bench bench_welcomed = (Fine [bench_disk], snd (enumerate_disks bench bench_welcomed))"
  by (rule prod_eqI, simp_all add: bench_preflight bench_disks)+

lemma bench_console:
  "is_console bench_start =
     map Inr (['''', join '' '' (map (\<lambda>i. show_nat (i + 1)) [0])] @
       (if evenly_sized (map ((!) [bench_disk]) [0]) then [] else [''yes'']) @
       [''ERASE'', ''correct horse'', ''correct horse'', ''edge1'', ''yes'']) @ [Inr ''r'']"
  by code_simp

lemma bench_answers:
  "whole_line ''''" "\<not> is_quit ''''" "'' '' \<noteq> ''''" "list_all separates '' ''"
  "validate_selection [0] (length [bench_disk]) = Inr ()" "length [bench_disk] < 2 ^ 64"
  "whole_line ''correct horse''" "secret_len (Secret ''correct horse'') \<ge> MIN_PASSWORD_LEN"
  "whole_line ''edge1''" "trim ''edge1'' = ''edge1''" "''edge1'' \<noteq> []" "validate_hostname ''edge1'' = Inr ()"
  by code_simp+

lemma bench_fresh: "is_session bench_start = teardown_new"
  by (simp add: bench_start_def inst_new_def)

section \<open>An installation that is carried out to the end\<close>

text \<open>\<open>m\<close> comes to a value and reads nothing.\<close>

definition goes :: "(unit, 'a) act \<Rightarrow> bool" where
  "goes m \<longleftrightarrow> (\<forall>s. \<exists>a t. m s = (Fine a, t) \<and> is_console t = is_console s)"

lemma goes_basics:
  "goes (give a)" "goes (look f)" "goes (record_effect e)" "goes next_step" "goes now" "goes new_install" "goes the_log"
  "goes (mounts_made ms)" "goes (binds_made ms)" "goes (pool_made p)" "goes forget_session"
  by (simp_all add: goes_def give_def look_def record_effect_def next_step_def now_def new_install_def the_log_def
      mounts_made_def binds_made_def pool_made_def forget_session_def)

lemma goes_value:
  assumes "goes m" "\<And>a s t. m s = (Fine a, t) \<Longrightarrow> goes (k a)"
  shows "goes (andthen m k)"
  unfolding goes_def
proof
  fix s
  obtain a t where m: "m s = (Fine a, t)" "is_console t = is_console s" using assms(1) unfolding goes_def by blast
  then obtain c u where "k a t = (Fine c, u)" "is_console u = is_console t" using assms(2) unfolding goes_def by blast
  then show "\<exists>c u. andthen m k s = (Fine c, u) \<and> is_console u = is_console s"
    using m by (simp add: andthen_def)
qed

lemma goes_andthen: "goes m \<Longrightarrow> (\<And>a. goes (k a)) \<Longrightarrow> goes (andthen m k)"
  by (rule goes_value)

lemma goes_attempt: "goes m \<Longrightarrow> goes (attempt m)"
  unfolding goes_def
proof
  fix s
  assume "\<forall>s. \<exists>a t. m s = (Fine a, t) \<and> is_console t = is_console s"
  then obtain a t where "m s = (Fine a, t)" "is_console t = is_console s" by blast
  then show "\<exists>a t. attempt m s = (Fine a, t) \<and> is_console t = is_console s" by (simp add: attempt_def)
qed

lemma goes_ignored: "goes m \<Longrightarrow> goes (ignored m)"
  unfolding ignored_def by (intro goes_andthen goes_attempt goes_basics)

lemma goes_in_turn: "(\<And>m. m \<in> set ms \<Longrightarrow> goes m) \<Longrightarrow> goes (in_turn ms)"
  by (induction ms) (auto simp: in_turn.simps intro!: goes_andthen goes_basics)

lemma goes_each: "(\<And>x. x \<in> set xs \<Longrightarrow> goes (f x)) \<Longrightarrow> goes (each f xs)"
  unfolding each_def by (rule goes_in_turn) auto

lemma goes_gather: "(\<And>x. x \<in> set xs \<Longrightarrow> goes (f x)) \<Longrightarrow> goes (gather f xs)"
  by (induction xs) (auto intro!: goes_andthen goes_basics)

lemma goes_if: "(c \<Longrightarrow> goes m) \<Longrightarrow> (\<not> c \<Longrightarrow> goes n) \<Longrightarrow> goes (if c then m else n)"
  by simp

lemma goes_line: "goes (write_line l m)"
  by (simp add: goes_def write_line_def record_effect_def)

lemma goes_logs: "goes (log_info m)" "goes (log_warn m)" "goes (log_error m)" "goes (log_step m)"
  unfolding log_info_def log_warn_def log_error_def log_step_def
  by (auto intro!: goes_in_turn goes_line)

lemma goes_say: "goes (say_line t)" "goes rule_line" "goes (heading t)"
  unfolding say_line_def rule_line_def heading_def by (auto intro!: goes_in_turn goes_basics)

lemma goes_reports:
  "goes (step_begin (plain_frontend b) name)" "goes (step_detail (plain_frontend b) detail)"
  "goes (step_warn (plain_frontend b) warning)"
proof -
  have "goes (\<lambda>s. (Fine (), s\<lparr>is_in_progress := True\<rparr>))" by (simp add: goes_def)
  then have "goes (andthen (heading ''Installing'') (\<lambda>_ s. (Fine (), s\<lparr>is_in_progress := True\<rparr>)))"
    by (intro goes_andthen goes_say)
  then have "goes begin_progress" unfolding goes_def begin_progress_def by simp
  then have "goes (plain_progress p)" for p by (cases p) (auto intro!: goes_in_turn goes_say)
  then show "goes (step_begin (plain_frontend b) name)" "goes (step_detail (plain_frontend b) detail)"
    "goes (step_warn (plain_frontend b) warning)"
    unfolding step_begin_def step_detail_def step_warn_def plain_frontend_def
    by (auto intro!: goes_andthen goes_in_turn goes_basics goes_logs goes_say simp del: plain_progress.simps)
qed

lemma bench_simps [simp]:
  "bx_exists bench w p" "bx_is_dir bench w p" "\<not> bx_is_symlink bench w p" "bx_texts bench w = bench_texts"
  "bx_resolve bench w p = p"
  by (simp_all add: bench_def)

lemma goes_changes:
  "goes (write_file bench p t ctx)" "goes (make_dirs bench p ctx)" "goes (set_mode bench p m ctx)"
  "goes (copy_file bench p q ctx)" "goes (remove_file bench p)" "goes (remove_tree bench p)"
  by (simp_all add: goes_def write_file_def make_dirs_def set_mode_def copy_file_def remove_file_def remove_tree_def
      change_def bench_def)

text \<open>A command of the bench prints nothing but what \<open>bench_run\<close> says, and succeeds.\<close>

definition bench_output :: "cmd \<Rightarrow> cmd_output" where
  "bench_output c = projr (fst (bench_run c ()))"

lemma bench_prints:
  "ot_status (bench_output c) = Some 0"
  "ot_stdout (bench_output c) \<in> {'''', ''AB12-CD34'', ''nightshade:$y$j9T:19000''}" "ot_stderr (bench_output c) = ''''"
  by (auto simp: bench_output_def bench_run_def)

lemma goes_block: "t \<in> {'''', ''AB12-CD34'', ''nightshade:$y$j9T:19000''} \<Longrightarrow> goes (log_block l t)"
proof -
  assume "t \<in> {'''', ''AB12-CD34'', ''nightshade:$y$j9T:19000''}"
  moreover have "utf8_len (trim_end t) \<le> LOG_LIMIT" if "t \<in> set ['''', ''AB12-CD34'', ''nightshade:$y$j9T:19000'']" for t
  proof -
    have "list_all (\<lambda>t. utf8_len (trim_end t) \<le> LOG_LIMIT) ['''', ''AB12-CD34'', ''nightshade:$y$j9T:19000'']"
      by code_simp
    then show ?thesis using that by auto
  qed
  ultimately have "utf8_len (trim_end t) \<le> LOG_LIMIT" by simp
  then show ?thesis unfolding log_block_def Let_def by (auto intro!: goes_basics goes_in_turn goes_line)
qed

lemma bench_spawned: "spawned bench c s = (Fine (bench_output c), s\<lparr>is_world := (), is_trace := is_trace s @ [Ran c]\<rparr>)"
  by (simp add: spawned_def bench_def bench_output_def bench_run_def Let_def)

lemma bench_spawn:
  "goes (spawn_and_wait bench c)" "spawn_and_wait bench c s = (Fine out, t) \<Longrightarrow> out = bench_output c"
proof -
  have spawned: "goes (spawned bench c)" by (simp add: goes_def bench_spawned)
  have ends: "goes (andthen (in_turn
       [case ot_status out of
          Some n \<Rightarrow> if n = 0 then log_info ''  -> ok'' else log_warn (''  -> exit '' @ show_int n)
        | None \<Rightarrow> log_warn ''  -> killed by signal'',
        log_block ''  stdout'' (ot_stdout out),
        log_block ''  stderr'' (ot_stderr out)]) (\<lambda>_. give out))" if "spawned bench c s = (Fine out, t)" for out s t
  proof -
    have "out = bench_output c" using that by (simp add: bench_spawned)
    then show ?thesis
      using bench_prints [of c] by (auto intro!: goes_andthen goes_in_turn goes_basics goes_logs goes_block)
  qed
  show "goes (spawn_and_wait bench c)"
    unfolding spawn_and_wait_def by (rule goes_andthen [OF goes_logs(1) goes_value [OF spawned ends]])
  show "out = bench_output c" if "spawn_and_wait bench c s = (Fine out, t)"
    using that unfolding spawn_and_wait_def by (auto simp: andthen_Fine bench_spawned give_def)
qed

lemma bench_ok [simp]: "output_ok (bench_output c)"
  by (simp add: output_ok_def bench_prints)

text \<open>The output of a command is known to what follows.\<close>

lemma goes_lenient: "goes (k (bench_output c)) \<Longrightarrow> goes (andthen (run_lenient bench c) k)"
  unfolding run_lenient_def by (rule goes_value [OF bench_spawn(1)]) (use bench_spawn(2) in blast)

lemma goes_runs:
  "goes (run_checked bench c)" "goes (run_ok bench c)" "goes (run_lenient bench c)" "goes (cmd_succeeds bench c)"
proof -
  show "goes (run_lenient bench c)" unfolding run_lenient_def by (rule bench_spawn)
  show r: "goes (run_checked bench c)"
    unfolding run_checked_def
    by (rule goes_value [OF bench_spawn(1)]) (auto dest!: bench_spawn(2) intro!: goes_basics)
  show "goes (run_ok bench c)" unfolding run_ok_def by (intro goes_andthen r goes_basics)
  show "goes (cmd_succeeds bench c)" unfolding cmd_succeeds_def by (intro goes_andthen goes_attempt bench_spawn goes_basics)
qed

lemma goes_checked: "goes (k (bench_output c)) \<Longrightarrow> goes (andthen (run_checked bench c) k)"
proof (rule goes_value [OF goes_runs(1)])
  fix a s t
  assume k: "goes (k (bench_output c))" and "run_checked bench c s = (Fine a, t)"
  then have "a = bench_output c"
    unfolding run_checked_def using bench_spawn(2)
    by (auto simp: andthen_Fine give_def fail_with_def split: if_splits)
  then show "goes (k a)" using k by simp
qed

lemma goes_look: "goes (k (f ())) \<Longrightarrow> goes (andthen (look f) k)"
  by (rule goes_value [OF goes_basics(2)]) (simp add: look_def)

lemma goes_read: "map_of bench_texts p = Some x \<Longrightarrow> goes (k x) \<Longrightarrow> goes (andthen (read_file bench p ctx) k)"
  by (rule goes_value) (auto simp: read_file_def read_text_def andthen_Fine look_def give_def intro!: goes_look goes_basics)

lemma bench_attempted: "attempt (run_lenient bench c) s = (Fine r, t) \<Longrightarrow> r = Inr (bench_output c)"
proof -
  assume r: "attempt (run_lenient bench c) s = (Fine r, t)"
  obtain x u where "spawn_and_wait bench c s = (Fine x, u)" using bench_spawn(1) unfolding goes_def by blast
  then show ?thesis using r bench_spawn(2) by (auto simp: attempt_def run_lenient_def)
qed

lemma goes_attempted: "goes (k (Inr (bench_output c))) \<Longrightarrow> goes (andthen (attempt (run_lenient bench c)) k)"
  by (rule goes_value [OF goes_attempt [OF goes_runs(3)]]) (auto dest: bench_attempted)

lemma goes_printed: "goes (log_block l (ot_stdout (bench_output c)))"
  using bench_prints(2) by (rule goes_block)

lemmas goes_steps = goes_look goes_attempted goes_printed goes_lenient goes_checked goes_andthen goes_ignored goes_in_turn goes_each goes_basics
  goes_logs goes_say goes_reports goes_changes goes_runs goes_attempt

text \<open>The steps, one after the other.\<close>

lemma goes_wait: "goes (wait_for bench path deadline)"
  unfolding goes_def by (subst wait_for.simps) simp

lemma goes_prepare_disks: "goes (prepare_disks bench (plain_frontend bench) c)"
  unfolding prepare_disks_def release_existing_pools_def prepare_def settle_def create_bpool_def create_rpool_def
    create_datasets_def zfs_create_def Let_def
  by (auto intro!: goes_steps goes_wait)

lemma bench_outputs:
  "output_trimmed (bench_output (here_cmd ''blkid'' as)) = ''AB12-CD34''"
  "ot_stdout (bench_output (target_cmd ''getent'' as)) = ''nightshade:$y$j9T:19000''"
proof -
  have "trim ''AB12-CD34'' = ''AB12-CD34''" by code_simp
  then show "output_trimmed (bench_output (here_cmd ''blkid'' as)) = ''AB12-CD34''"
    "ot_stdout (bench_output (target_cmd ''getent'' as)) = ''nightshade:$y$j9T:19000''"
    by (simp_all add: bench_output_def bench_run_def output_trimmed_def)
qed

lemma goes_format_esps: "goes (format_esps bench c (plain_frontend bench))"
  unfolding format_esps_def format_esp_def fs_uuid_def Let_def
  by (auto intro!: goes_gather goes_steps simp: bench_outputs split: prod.split)

lemma bench_files:
  "map_of bench_texts ''/proc/mounts'' = Some (''/dev/sdb1 /run/live/medium iso9660 ro'' @ [newline] @
     ''/dev/loop0 /run/live/root squashfs ro'')"
  "map_of bench_texts (TARGET @ LIVE_MANIFEST) = Some ''pkg live-boot''"
  "map_of bench_texts (TARGET @ DEFAULT_GRUB_TEMPLATE) = Some ''GRUB_DISTRIBUTOR=@VERSION@''"
  "map_of bench_texts (TARGET @ GFX_SCRIPT_TEMPLATE) = Some ''''"
  "map_of bench_texts (TARGET @ ''/boot/grub/grub.cfg'') = Some ''root=rpool/ROOT/nightshade''"
  by code_simp+

lemma goes_source: "goes (rootfs_source bench)"
proof -
  have "text_lines (''/dev/sdb1 /run/live/medium iso9660 ro'' @ [newline] @ ''/dev/loop0 /run/live/root squashfs ro'') =
      [''/dev/sdb1 /run/live/medium iso9660 ro'', ''/dev/loop0 /run/live/root squashfs ro'']"
    "split_whitespace ''/dev/sdb1 /run/live/medium iso9660 ro'' = [''/dev/sdb1'', ''/run/live/medium'', ''iso9660'', ''ro'']"
    "split_whitespace ''/dev/loop0 /run/live/root squashfs ro'' = [''/dev/loop0'', ''/run/live/root'', ''squashfs'', ''ro'']"
    by code_simp+
  then show ?thesis
    unfolding rootfs_source_def by (intro goes_read [OF bench_files(1)]) (simp, auto intro!: goes_steps)
qed

lemma goes_copy: "goes (copy_to_target bench source TARGET)"
  unfolding copy_to_target_def by (auto intro!: goes_steps)

lemma goes_bind: "goes (bind_pseudo_filesystems bench)"
  unfolding bind_pseudo_filesystems_def bind_one_def Let_def by (auto intro!: goes_gather goes_steps split: prod.split)

lemma goes_strip: "goes (strip_live_layer bench (plain_frontend bench))"
proof -
  have "manifest_entries ''pkg live-boot'' = [PkgLine ''live-boot'']" by code_simp
  then show ?thesis
    unfolding strip_live_layer_def Let_def
    by (intro goes_look) (simp add: read_text_def bench_files, auto intro!: goes_steps simp: map_filter_simps)
qed

lemma goes_pam: "goes (verify_pam_stack bench (plain_frontend bench))"
proof -
  have "pw_missing_files (pam_state bench ()) = [] \<and> pw_missing_modules (pam_state bench ()) = []" by code_simp
  then show ?thesis unfolding verify_pam_stack_def by (intro goes_look) (auto intro!: goes_steps)
qed

lemma goes_put: "goes (put_target_file bench r t m ctx)"
  unfolding put_target_file_def Let_def by (auto intro!: goes_steps)

lemma goes_units: "goes (enable_units bench (plain_frontend bench) us)"
  unfolding enable_units_def by (auto intro!: goes_steps)

lemma goes_account: "goes (create_account bench c)"
proof -
  have "shadow_field ''nightshade:$y$j9T:19000'' = ''$y$j9T''" by code_simp
  then have "goes (set_password bench p)" for p
    unfolding set_password_def Let_def by (auto intro!: goes_steps simp: bench_outputs)
  then show ?thesis
    unfolding create_account_def Let_def write_target_file_def by (auto intro!: goes_steps goes_put)
qed

lemma goes_configuration: "goes (write_configuration bench c TARGET)"
  unfolding write_configuration_def Let_def
  by (auto intro!: goes_steps split: prod.split)

lemma goes_grub: "goes (configure_grub bench)"
proof -
  have there: "goes (require_there bench p complaint)" for p complaint
    unfolding require_there_def by (auto intro!: goes_steps)
  show ?thesis
    unfolding configure_grub_def install_fonts_def boot_target_file_def Let_def
    by (rule goes_read [OF bench_files(3)], rule goes_look, rule goes_andthen, force intro!: goes_steps,
        rule goes_read [OF bench_files(4)]) (auto intro!: goes_steps goes_put there)
qed

lemma goes_esps: "goes (install_to_esps bench es (plain_frontend bench))"
proof -
  have menu: "contains ''root=rpool/ROOT/nightshade'' ROOT_DATASET" by code_simp
  have "goes (check_menu (plain_frontend bench) ''root=rpool/ROOT/nightshade'')"
    unfolding check_menu_def using menu by (auto intro!: goes_steps)
  then show ?thesis
    unfolding install_to_esps_def grub_install_def boot_entry_def Let_def
    by (intro goes_in_turn) (auto intro!: goes_steps goes_read [OF bench_files(5)])
qed

lemma goes_save_log: "goes (save_log bench)"
proof -
  have "goes (log_copy_to bench p)" for p
  proof -
    have "goes (andthen (make_dirs bench (parent_dir p) '''') (\<lambda>_. copy_file bench q p ''''))" for q
      by (auto intro!: goes_steps)
    then show ?thesis unfolding goes_def log_copy_to_def by blast
  qed
  then show ?thesis
    unfolding save_log_def Let_def by (auto intro!: goes_steps split: sum.split ierror.split)
qed

lemma goes_install: "goes (install bench (plain_frontend bench) bench_config)"
proof -
  have "\<not> is_mirror bench_config" by code_simp
  then have "goes (install_system bench (plain_frontend bench) bench_config es)" for es
    unfolding install_system_def write_fstab_def set_hostname_def write_target_file_def enable_zfs_services_def
      write_cachefile_def regenerate_initramfs_def Let_def
    by (auto intro!: goes_steps goes_source goes_copy goes_bind goes_strip goes_pam goes_put goes_units goes_account
      goes_configuration goes_grub goes_esps goes_save_log)
  then show ?thesis
    unfolding install_def
    by (intro goes_andthen goes_prepare_disks goes_reports goes_format_esps)
qed

lemma goes_teardown: "goes (teardown bench)"
proof -
  have exported: "ok" if "export_pool bench p force s = (Fine ok, t)" for p force s ok t
    using that unfolding export_pool_def
    by (auto simp: andthen_Fine give_def dest!: bench_attempted split: if_splits)
  have "goes (export_pool bench p force)" for p force
    unfolding export_pool_def by (auto intro!: goes_steps)
  then have let_go: "goes (let_go bench p)" for p
    unfolding let_go_def by (rule goes_value) (auto dest!: exported intro!: goes_basics)
  have unbind: "goes (unbind bench m)" for m
    unfolding unbind_def by (auto intro!: goes_steps)
  have "goes (in_turn
       ([log_step ''teardown''] @
        map (unbind bench) bs @ map (\<lambda>m. ignored (run_lenient bench (here_cmd ''umount'' [m]))) ms @
        [ignored (run_lenient bench (here_cmd ''zfs'' [''unmount'', ''-a'']))] @
        map (let_go bench) ps @ [forget_session]))" for bs ms ps
    by (auto intro!: goes_steps let_go unbind)
  then show ?thesis unfolding goes_def teardown_def by blast
qed

lemma bench_finished:
  assumes "is_console s = [Inr ''r'']"
  shows "\<exists>t. carry_out bench (plain_frontend bench) bench_config s = (Fine Reboot, t)"
proof -
  have started: "goes (in_turn [log_step ''beginning installation'', log_plan bench bench_config, new_install])"
    unfolding log_plan_def by (auto intro!: goes_steps)
  obtain a1 s1 where 1: "in_turn [log_step ''beginning installation'', log_plan bench bench_config, new_install] s = (Fine a1, s1)"
    "is_console s1 = is_console s"
    using started unfolding goes_def by blast
  obtain a2 s2 where 2: "install bench (plain_frontend bench) bench_config s1 = (Fine a2, s2)" "is_console s2 = is_console s1"
    using goes_install unfolding goes_def by blast
  obtain a3 s3 where 3: "teardown bench s2 = (Fine a3, s3)" "is_console s3 = is_console s2"
    using goes_teardown unfolding goes_def by blast
  obtain a4 s4 where 4: "log_step ''installation complete'' s3 = (Fine a4, s4)" "is_console s4 = is_console s3"
    using goes_logs(4) unfolding goes_def by blast
  have r: "whole_line ''r''" "to_ascii_lowercase (trim ''r'') = ''r''" by code_simp+
  have "answers (plain_finished log) [''r''] Reboot" for log :: string
    unfolding plain_finished_def Let_def
    by (rule answers_then [of _ "()"], force intro!: answers_talk, rule answers_until, rule answers_after [OF answers_ask [OF r(1)]])
      (simp add: r(2) answers_give)
  from answersD [OF this, of s4 "[]" "log_path s4"] assms 1(2) 2(2) 3(2) 4(2) obtain es where
    "plain_finished (log_path s4) s4 = (Fine Reboot, s4\<lparr>is_trace := is_trace s4 @ es, is_console := []\<rparr>)" by auto
  then show ?thesis
    using 1(1) 2(1) 3(1) 4(1)
    by (auto simp: carry_out_def andthen_def attempt_def the_log_def plain_frontend_def)
qed

section \<open>The properties applied\<close>

lemma bench_picked: "map ((!) [bench_disk]) [0] = [bench_disk]"
  by simp

lemma bench_asked: "\<exists>t. ask bench (plain_frontend bench) bench_start = (Fine bench_config, t) \<and> is_console t = [Inr ''r'']"
proof -
  have "is_console bench_start = map Inr (['''', ''1''] @ warned (map ((!) [bench_disk]) [0]) @
      [''ERASE'', ''correct horse'', ''correct horse'', ''edge1'', ''yes'']) @ [Inr ''r'']"
    by code_simp
  moreover have "whole_line ''1''" "\<not> is_quit ''1''" "parse_selection ''1'' = Some [0]" by code_simp+
  ultimately show ?thesis
    using ask_answered [OF bench_runs _ bench_answers(1,2) _ _ _ bench_answers(5,7-12)] by (auto simp: bench_config_def)
qed

theorem erased_only_when_confirmed_witness:
  "\<exists>asked acted. is_trace (snd (engine_run bench (plain_frontend bench) bench_start)) = asked @ acted \<and>
     list_all harmless asked \<and> list_all (confined [bench_disk]) acted \<and>
     may_erase bench () bench_disk \<and> \<not> may_erase bench () (bench_disk\<lparr>dk_name := ''sdb''\<rparr>)"
proof -
  obtain t where t: "ask bench (plain_frontend bench) bench_start = (Fine bench_config, t)" using bench_asked by blast
  have disks: "ic_disks bench_config = [bench_disk]" by (simp add: bench_config_def)
  have "is_session bench_start = teardown_new" "is_trace bench_start = []"
    by (simp_all add: bench_start_def inst_new_def)
  then obtain asked acted where "is_trace (snd (engine_run bench (plain_frontend bench) bench_start)) = asked @ acted"
    "list_all harmless asked"
    "acted = [] \<or> (\<exists>c t. ask bench (plain_frontend bench) bench_start = (Fine c, t) \<and>
       confirmed bench bench_start (ic_disks c) t \<and> list_all (confined (ic_disks c)) acted)"
    using erased_only_when_confirmed [of bench_start bench "fst (engine_run bench (plain_frontend bench) bench_start)"
      "snd (engine_run bench (plain_frontend bench) bench_start)"] by auto
  moreover have "may_erase bench () bench_disk" "\<not> may_erase bench () (bench_disk\<lparr>dk_name := ''sdb''\<rparr>)"
    by code_simp+
  ultimately show ?thesis using t disks by (intro exI [of _ asked] exI [of _ acted]) auto
qed

theorem asked_as_typed_witness:
  "\<exists>s'. engine_run bench (plain_frontend bench) bench_start = (Fine Reboot, s') \<and>
     Ran (here_cmd ''sgdisk'' [''--zap-all'', ''/dev/sda'']) \<in> set (is_trace s') \<and>
     Wrote ''/mnt/nightshade/etc/hostname'' (''edge1'' @ [newline]) \<in> set (is_trace s') \<and>
     Ran (sets_password ''correct horse'') \<in> set (is_trace s')"
proof -
  have c: "bench_config = \<lparr>ic_disks = map ((!) [bench_disk]) [0], ic_hostname = ''edge1'', ic_password = Secret ''correct horse''\<rparr>"
    by (simp add: bench_config_def)
  obtain t where t: "is_console t = [Inr ''r'']"
    "engine_run bench (plain_frontend bench) bench_start = carry_out bench (plain_frontend bench) bench_config t"
    "\<forall>act s'. engine_run bench (plain_frontend bench) bench_start = (Fine act, s') \<longrightarrow>
       (\<forall>i \<in> set [0]. Ran (here_cmd ''sgdisk'' [''--zap-all'', dk_path ([bench_disk] ! i)]) \<in> set (is_trace s')) \<and>
       Wrote (TARGET @ ''/etc/hostname'') (''edge1'' @ [newline]) \<in> set (is_trace s') \<and>
       Ran (sets_password ''correct horse'') \<in> set (is_trace s')"
    using asked_as_typed [OF bench_runs bench_fresh bench_console bench_answers c] by blast
  obtain s' where "engine_run bench (plain_frontend bench) bench_start = (Fine Reboot, s')"
    using bench_finished [OF t(1)] t(2) by auto
  then show ?thesis using t(3) by (simp add: bench_disk_def TARGET_def)
qed




end
