(* ===== verification/Spec2Isabelle.thy ===== *)
theory Spec2Isabelle
  imports Curly_Roundtrip Config_Spec Diff Constraints_Laws Daemon_Witnesses Renderers Loader_Laws
    Cli_Main Seed_Laws Install_Main Install_Bench
begin

text \<open>
  A verification development for nightshade, the configuration system of a network appliance.

  The program. An operator edits a copy of the configuration, the candidate, in the shell
  (\<open>nightshade-cli\<close>), which talks over a Unix socket (\<open>nightshade-proto\<close>) to the daemon
  (\<open>nightshade-configd\<close>). The daemon holds the running configuration and one candidate for each
  session. A commit checks the candidate against the schema (\<open>nightshade-schema\<close>), has every
  renderer (\<open>nightshade-render\<close>) turn it into files and commands, checks all of those, and only then
  applies them one renderer at a time, putting back what it had applied when one fails. A commit
  may ask to be confirmed within some minutes and is rolled back otherwise. Confirmed commits are
  archived on disk, the configuration in force and everything a restarted daemon needs is kept
  under \<open>/run\<close>, and \<open>save\<close> writes the file that is applied at boot. All paths below are relative
  to \<open>src/\<close> of the repository.

  How the model is built. Strings are lists of characters, \<open>Result\<close> is a sum with the error on the
  left, a \<open>&mut self\<close> method returns the changed state beside its result, a \<open>BTreeMap\<close> is a list of
  pairs in ascending order of the keys (\<open>Ordered_Map\<close>). Integers have their width where
  it can be reached (\<open>Std_Parse\<close>, \<open>Proto\<close>).

  Theories, by the crate they model:

  \<^item> \<open>nightshade-schema\<close>, text: \<open>Lex\<close> is the tokeniser and the quoting of \<open>lex.rs\<close>, \<open>Lex_Text\<close> what
    the tokeniser reads from text the program writes; \<open>Cfg_Path\<close> is \<open>path.rs\<close>.
  \<^item> \<open>nightshade-schema\<close>, the tree: \<open>Config_Tree\<close> is \<open>config.rs\<close>, a node with ordered children, leaf
    values in order and a comment. \<open>Config_Laws\<close> gives its abstraction, the partial map from paths
    to values, the well-formedness every operation keeps, and the frame of every edit;
    \<open>Config_Spec\<close> states each edit as a function on abstract configurations and proves that the
    methods compute it. \<open>Diff\<close> is \<open>diff.rs\<close> with the exactness of what it reports.
  \<^item> \<open>nightshade-schema\<close>, files: \<open>Curly_Parse\<close> and \<open>Curly_Render\<close> are \<open>curly.rs\<close>;
    \<open>Curly_Roundtrip\<close> shows that a rendered tree is parsed back to itself. The nesting bound is the
    parser's own \<open>MAX_DEPTH\<close>, and the recursion of the parser is proved to end.
  \<^item> \<open>nightshade-schema\<close>, the schema: \<open>Std_Parse\<close> is what the value checks use of the standard
    library, \<open>Value_Types\<close> is \<open>value.rs\<close>, \<open>Value_Laws\<close> what an accepted value can be;
    \<open>Schema_Model\<close> is \<open>model.rs\<close>; \<open>Validate\<close> and \<open>Constraints\<close> are the two halves of
    \<open>validate.rs\<close>, and \<open>Validate_Laws\<close> and \<open>Constraints_Laws\<close> say exactly what they accept.
    \<open>Loader\<close> is \<open>loader.rs\<close>, from a directory of YAML documents to the schema; \<open>Loader_Laws\<close> shows
    that an accepted schema is well formed, what merging may do, and when the conversion ends.
  \<^item> \<open>nightshade-proto\<close>: \<open>Proto\<close> is the session identifiers, the framing (a length of four bytes, at
    most \<open>MAX_BODY\<close> bytes of body) and the messages the daemon answers.
  \<^item> \<open>nightshade-common\<close> and the file system: \<open>Files\<close> is \<open>paths.rs\<close> and the operations the daemon
    uses of \<open>std::fs\<close> on a map from paths to files with their mode. Each operation asks an oracle
    whether it fails, so that every error path of the code is a branch of the model, and a write that
    fails may leave part of its text behind.
  \<^item> \<open>nightshade-render\<close>, the contract: \<open>Artifacts\<close> is \<open>artifacts.rs\<close>, the \<open>Renderer\<close> and \<open>Host\<close>
    traits as records of functions on a state of the machine. \<open>Host\<close> is \<open>host.rs\<close>, the real host on
    the file system of \<open>Files\<close> and the recording host of the tests; \<open>Host_Laws\<close> says what a
    synchronisation can touch and that the two hosts agree. \<open>Text_Lines\<close> is what the crate uses of
    \<open>str\<close>.
  \<^item> \<open>nightshade-render\<close>, the renderers: \<open>Ini\<close> is \<open>ini.rs\<close> with the reader of unit files and the law
    that ties the two; \<open>Networkd\<close> is \<open>networkd.rs\<close> and \<open>Networkd_Laws\<close> what its files say of the
    configuration; \<open>System_Renderer\<close> and \<open>Login_Renderer\<close> are \<open>system.rs\<close> and \<open>login.rs\<close>;
    \<open>Applying\<close> is the loops their \<open>apply\<close> methods share, with a locale of what they rely on of a
    host; \<open>Renderers\<close> is the list \<open>all\<close> of \<open>lib.rs\<close> and the commit run through all three down to
    the files of the machine.
  \<^item> \<open>nightshade-configd\<close>: \<open>Peer\<close> is \<open>peer.rs\<close>; \<open>Session_Store\<close> is \<open>session.rs\<close>; \<open>Confirm_Marker\<close>
    is \<open>confirm.rs\<close> and the record of the running configuration in \<open>running.rs\<close>; \<open>Archive\<close> is
    \<open>archive.rs\<close> (at most \<open>KEEP\<close> revisions); \<open>Commit\<close> is the pipeline of \<open>commit.rs\<close>; \<open>Configd\<close>
    is \<open>state.rs\<close>, one definition for each request, composed in \<open>handle\<close>; \<open>Boot\<close> is \<open>boot.rs\<close>.
  \<^item> What the daemon promises: \<open>Commit_Laws\<close> for the pipeline; \<open>Disk_Frames\<close> for the files each
    operation leaves alone; \<open>Configd_Laws\<close> has the daemon as a transition relation whose steps are a
    request, the rollback timer and a restart, and the invariants of its runs; \<open>Config_Store\<close> is the
    specification (a versioned store that holds one change which may be undone), its locales and
    their interpretation on the daemon; \<open>Restart_Laws\<close> ties the files under \<open>/run\<close> to the state in
    memory; \<open>Request_Laws\<close> is about single requests and the boot; \<open>Daemon_Witnesses\<close> runs a small
    daemon on concrete requests.
  \<^item> \<open>nightshade-cli\<close>, text: \<open>Pipe\<close> is \<open>pipe.rs\<close>; \<open>Line_Diff\<close> and \<open>Output\<close> are \<open>output.rs\<close>, with what
    is shown of a secret; \<open>Query\<close> is \<open>query.rs\<close> of \<open>nightshade-ifstate\<close>, the words after \<open>show
    interfaces\<close>; \<open>Complete\<close> is \<open>complete.rs\<close>, tied there to the schema and to the parser of \<open>Query\<close>.
  \<^item> \<open>nightshade-cli\<close>, commands: \<open>Repl\<close> is \<open>repl.rs\<close>, one definition for each command of either mode, on
    a state that records in order what the shell asked the daemon, printed and started. \<open>Repl_Laws\<close> gives
    the shape of that record for any line as two inductive predicates, and what follows for sessions and
    programs. \<open>Cli_Main\<close> is \<open>main.rs\<close>: options, batch files and the interactive loop.
  \<^item> \<open>nightshade-installer\<close>: \<open>Install_Machine\<close> is what it does to a machine (\<open>cmd.rs\<close>, \<open>error.rs\<close>,
    \<open>secret.rs\<close>, \<open>logging.rs\<close>): actions on a machine that is a parameter, which end in a value, an error
    or a panic and record every effect in order. \<open>Install_Disks\<close> is \<open>disk.rs\<close>, \<open>config.rs\<close> and
    \<open>validate.rs\<close>. \<open>Seed\<close> is \<open>seed.rs\<close>; \<open>Seed_Reads\<close> and \<open>Seed_Laws\<close> show that the configuration and
    the link files it writes are the ones the daemon reads and renders. \<open>Install_Steps\<close> is
    \<open>partition.rs\<close>, \<open>zfs.rs\<close>, \<open>rootfs.rs\<close> and the \<open>Frontend\<close> trait, \<open>Install_Target\<close> \<open>target.rs\<close>,
    \<open>Install_Boot\<close> \<open>boot.rs\<close>, \<open>Install_Engine\<close> \<open>engine/mod.rs\<close>, \<open>Install_Plain\<close> the line-based front end
    (\<open>plain.rs\<close>) and \<open>Install_Main\<close> \<open>main.rs\<close>. \<open>Install_Laws\<close> says how a relation between the states
    before and after carries over the constructs the actions are made of; \<open>Install_Safety\<close> and
    \<open>Install_Confirmed\<close> use it to show what an installation can touch, \<open>Install_Answers\<close> what comes of the
    answers of the operator, down to the commands that must have run; \<open>Install_Pam\<close> is about the check of
    the PAM files of the installed system; \<open>Install_Bench\<close> carries out an installation to its end on a
    small machine.
  \<^item> \<open>Prelude\<close> and \<open>Ordered_Map\<close> hold the lemmas the components share.

  What the properties say, in the order of the manifest. The daemon refines the versioned store: no
  commit is lost under another one, the configuration in force is always one the schema and the
  renderers accept, a commit that is not confirmed in time is undone, and a restart in between
  changes none of this. Sessions are private to their owner. Saving, loading and booting either
  do all of what they say or report why not. A commit decides everything it can before it touches
  the machine (that it also restores what it touched when it fails is a lemma of \<open>Commit_Laws\<close> on
  renderers that keep to parts of their own, which the real ones do not quite). The file format, paths, archives,
  markers and frames read back what was written. A synchronisation of a directory touches only the
  files that carry the program's marker, devices are rebuilt exactly when they must be, and no
  password is visible in what a renderer does besides the input of one program. The tree's methods implement their
  specification, the diff says exactly what changed, and validation accepts exactly the
  configurations that conform to the schema. The shell hides secrets unless asked, offers exactly what
  can be typed, runs nothing but what it is meant to run, never leaves a session behind that has
  uncommitted changes without being told to, and commits a batch file whole or not at all. The
  installer touches nothing before it has been told to twice, then writes only below the target and runs
  only commands inside it or of a fixed list on the disks it was told to erase, installs what was
  typed, and refuses a system that lacks a PAM file or module its logins need.

  Parameters of the model, which stand for code outside the repository: the YAML parser and the
  regular expressions of the schema, the JSON codecs
  of \<open>serde\<close> and the gzip codec of the archive (assumed to read back what they wrote where a
  property says so), the faults of the disk, the clock, the random bytes of the identifiers, the
  account database, the terminal, the daemon as the shell sees it, the machine the installer runs on and
  its full-screen front end, the programs the renderers start (assumed, where a property says so, to
  leave the rendered files alone), and, for the daemon, the list of renderers, of which \<open>Renderers\<close> is
  the one the program uses.

  Bounds: \<open>MAX_DEPTH\<close> (nesting of a file), \<open>HISTORY\<close> (configurations kept for a session that has
  fallen behind), \<open>KEEP\<close> (revisions in the archive) and \<open>MAX_BODY\<close> (a message) are the constants
  of the source. The loops of the tokeniser and the parser recurse on the text that is left, everything
  else on its data, with one exception: the conversion of a schema may follow a template that includes
  itself for ever, so \<open>convert\<close> takes a bound on the depth; \<open>load_ends\<close> shows a bound exists, and that a
  larger one changes nothing, when the templates do not include each other in a circle. The walk over
  the PAM files of the installed system enters each file once, so it is bounded by the number of
  names it can meet (\<open>pam_fuel\<close>, enough by \<open>pam_state_exact\<close>), and a question is asked again at most once for each line the console
  still has (\<open>until_answered\<close>).

  Not modelled: the code generator (\<open>codegen.rs\<close>), which prints the loaded schema as Rust; the accept
  loop and the threads of the daemon (\<open>server.rs\<close>), whose effect is that requests are served one at a
  time under a lock; the interface inventory (\<open>nightshade-ifprobe\<close>) and its tables
  (\<open>nightshade-ifstate\<close>, of which only the queries are modelled); the line editor and the socket of the
  shell; the full-screen front end of the installer (\<open>tui.rs\<close>).
\<close>

end
